(* ===== verification/Prelude.thy ===== *)
theory Prelude
  imports Main "HOL-Library.Word"
begin

unbundle bit_operations_syntax

text \<open>
  Shared vocabulary of the development: C's fixed-width unsigned arithmetic written
  out on \<open>nat\<close> and \<open>int\<close>, octets as \<open>8 word\<close>, the return codes every C library of the
  repository uses, the standard library's \<open>bsearch\<close>, and generic lemmas on lists,
  circular indices and bytes. The collection \<open>c_arith\<close> turns C's shifts and masks into
  \<open>div\<close> and \<open>mod\<close>, which the arithmetic methods decide.
\<close>

section \<open>Collections\<close>

named_theorems c_arith \<open>C shifts, masks and truncations as div and mod\<close>
named_theorems ring_simps \<open>positions of a circular buffer\<close>
named_theorems emit_intros \<open>composition rules for writers of the Bysant serializer\<close>
named_theorems encode_simps \<open>reference encodings of Bysant tokens\<close>

section \<open>Machine integers\<close>

type_synonym byte = "8 word"
type_synonym bytes = "8 word list"

text \<open>\<open>unsigned int\<close> results are reduced modulo \<open>2 ^ 32\<close>, \<open>uint16_t\<close> ones modulo \<open>2 ^ 16\<close>.\<close>

definition u32 :: "nat \<Rightarrow> nat" where
  "u32 n = n mod 2 ^ 32"

definition u16 :: "nat \<Rightarrow> nat" where
  "u16 n = n mod 2 ^ 16"

text \<open>Conversion of an \<open>int\<close> to \<open>uint8_t\<close>: reduction modulo 256.\<close>

abbreviation u8 :: "int \<Rightarrow> byte" where
  "u8 k \<equiv> word_of_int k"

lemma u32_id [simp]: "n < 2 ^ 32 \<Longrightarrow> u32 n = n"
  by (simp add: u32_def)

lemma u16_id [simp]: "n < 2 ^ 16 \<Longrightarrow> u16 n = n"
  by (simp add: u16_def)

lemma u16_bound [simp]: "u16 n < 65536"
  by (simp add: u16_def)

lemma and_0xff_int [c_arith]: "(x::int) AND 255 = x mod 256"
  using take_bit_eq_mask [of 8 x] by (simp add: take_bit_eq_mod mask_eq_exp_minus_1)

lemma and_0xff_nat [c_arith]: "(x::nat) AND 255 = x mod 256"
  using take_bit_eq_mask [of 8 x] by (simp add: take_bit_eq_mod mask_eq_exp_minus_1)

lemma drop_bit_int [c_arith]: "drop_bit n (x::int) = x div 2 ^ n"
  by (simp add: drop_bit_eq_div)

lemma drop_bit_nat [c_arith]: "drop_bit n (x::nat) = x div 2 ^ n"
  by (simp add: drop_bit_eq_div)

lemma push_bit_int [c_arith]: "push_bit n (x::int) = x * 2 ^ n"
  by (simp add: push_bit_eq_mult)

lemma push_bit_nat [c_arith]: "push_bit n (x::nat) = x * 2 ^ n"
  by (simp add: push_bit_eq_mult)

lemma uint_u8 [c_arith]: "uint (u8 k) = k mod 256"
  by (simp add: uint_word_of_int)

lemma uint_byte_bounds: "0 \<le> uint (b::byte)" "uint (b::byte) < 256"
  using uint_lt2p [of b] by simp_all

lemma uint_byte_le [simp]: "uint (b::byte) \<le> 255"
  using uint_byte_bounds(2) [of b] by linarith

lemma byte_eq_iff: "(a::byte) = b \<longleftrightarrow> uint a = uint b"
  by (simp add: word_uint_eq_iff)

lemma uint_u8_id [simp]: "0 \<le> k \<Longrightarrow> k < 256 \<Longrightarrow> uint (u8 k) = k"
  by (simp add: uint_word_of_int)

lemma unat_byte_less [simp]: "unat (b::byte) < 256"
  by (rule order_less_le_trans [OF unsigned_less]) simp

lemma unat_of_nat_byte: "unat (of_nat n :: byte) = n mod 256"
  by (simp add: unat_of_nat)

end
