(* ===== verification/C_Library.thy ===== *)
theory C_Library
  imports Prelude
begin

text \<open>
  The parts of the C standard library that the modelled sources call: \<open>strcmp\<close>,
  \<open>strlen\<close>-style strings, and \<open>bsearch\<close>. The interface locale \<open>bsearch_order\<close> states
  what a caller of \<open>bsearch\<close> has to establish (the array is partitioned by the comparison
  with the key) and proves, once, what the call then returns. The class collection of the
  Bysant library and the return-code table interpret it.
\<close>

section \<open>strcmp\<close>

text \<open>The difference of the first differing octets; the end of a string reads as 0.\<close>

fun strcmp :: "string \<Rightarrow> string \<Rightarrow> int" where
  "strcmp [] [] = 0"
| "strcmp (a # as) [] = of_char a"
| "strcmp [] (b # bs) = - of_char b"
| "strcmp (a # as) (b # bs) = (if a = b then strcmp as bs else of_char a - of_char b)"

definition c_string :: "string \<Rightarrow> bool" where
  "c_string s = list_all (\<lambda>c. (0::int) < of_char c) s"

lemma c_string_simps [simp]:
  "c_string []" "c_string (c # s) \<longleftrightarrow> (0::int) < of_char c \<and> c_string s"
  by (simp_all add: c_string_def)

lemma of_char_int_eq_iff: "(of_char a :: int) = of_char b \<longleftrightarrow> a = b"
  by (metis char_of_char)

lemma strcmp_eq_0: "c_string s \<Longrightarrow> c_string t \<Longrightarrow> strcmp s t = 0 \<longleftrightarrow> s = t"
  by (induction s t rule: strcmp.induct) (auto simp: of_char_int_eq_iff)

text \<open>\<open>strcmp\<close> orders strings: comparing a key with a larger string cannot grow.\<close>

lemma strcmp_mono:
  assumes "c_string k" "c_string s" "c_string t" "strcmp s t \<le> 0"
  shows "(0 \<le> strcmp k t \<longrightarrow> 0 \<le> strcmp k s) \<and> (0 < strcmp k t \<longrightarrow> 0 < strcmp k s)"
  using assms
proof (induction s t arbitrary: k rule: strcmp.induct)
  case (4 a as b bs)
  have "a \<noteq> b \<Longrightarrow> (of_char a :: int) < of_char b"
    using "4.prems"(4) by (simp add: order_less_le of_char_int_eq_iff)
  with 4 show ?case
    by (cases k) (auto split: if_splits)
next
  case (3 b bs)
  then show ?case
    by (cases k) (auto split: if_splits)
qed auto

section \<open>bsearch\<close>

text \<open>
  The library's binary search over the first \<open>nmemb\<close> slots of an array. The outer
  \<open>None\<close> is an access outside the array the caller really has; \<open>Some None\<close> is the
  \<open>NULL\<close> result; \<open>Some (Some i)\<close> is a pointer to slot \<open>i\<close>.
\<close>

function bsearch_loop ::
  "('k \<Rightarrow> 'a \<Rightarrow> int) \<Rightarrow> 'k \<Rightarrow> 'a list \<Rightarrow> nat \<Rightarrow> nat \<Rightarrow> nat option option" where
  "bsearch_loop compar key base l u =
     (if l < u then
        let idx = (l + u) div 2 in
        if idx < length base then
          let comparison = compar key (base ! idx) in
          if comparison < 0 then bsearch_loop compar key base l idx
          else if 0 < comparison then bsearch_loop compar key base (Suc idx) u
          else Some (Some idx)
        else None
      else Some None)"
  by pat_completeness auto
termination
  by (relation "measure (\<lambda>(c, k, b, l, u). u - l)") auto

declare bsearch_loop.simps [simp del]

definition bsearch ::
  "('k \<Rightarrow> 'a \<Rightarrow> int) \<Rightarrow> 'k \<Rightarrow> 'a list \<Rightarrow> nat \<Rightarrow> nat option option" where
  "bsearch compar key base nmemb = bsearch_loop compar key base 0 nmemb"

lemma bsearch_loop_no_fault:
  "u \<le> length base \<Longrightarrow> bsearch_loop compar key base l u \<noteq> None"
proof (induction compar key base l u rule: bsearch_loop.induct)
  case (1 compar key base l u)
  then show ?case
    by (subst bsearch_loop.simps) (auto simp: Let_def)
qed

lemma bsearch_loop_hit:
  "bsearch_loop compar key base l u = Some (Some i) \<Longrightarrow>
   l \<le> i \<and> i < u \<and> i < length base \<and> compar key (base ! i) = 0"
proof (induction compar key base l u rule: bsearch_loop.induct)
  case (1 compar key base l u)
  let ?m = "(l + u) div 2" and ?c = "compar key (base ! ((l + u) div 2))"
  from "1.prems" have g: "l < u" "?m < length base"
    by (subst (asm) bsearch_loop.simps, auto simp: Let_def split: if_splits)+
  from g consider "?c < 0" | "0 < ?c" | "?c = 0" by linarith
  then show ?case
  proof cases
    case 1
    with g "1.prems" have "bsearch_loop compar key base l ?m = Some (Some i)"
      by (subst (asm) bsearch_loop.simps) (simp add: Let_def)
    with "1.IH"(1) [OF g(1) refl g(2) refl 1] g show ?thesis by auto
  next
    case 2
    with g "1.prems" have "bsearch_loop compar key base (Suc ?m) u = Some (Some i)"
      by (subst (asm) bsearch_loop.simps) (simp add: Let_def)
    with "1.IH"(2) [OF g(1) refl g(2) refl _ 2] g 2 show ?thesis by auto
  next
    case 3
    with g "1.prems" show ?thesis
      by (subst (asm) bsearch_loop.simps) (auto simp: Let_def)
  qed
qed

text \<open>
  The caller's side of the contract: \<open>ok\<close> keys, arrays \<open>ordered\<close> for the comparison.
  For such an array the signs of the comparisons with the key never increase.
\<close>

locale bsearch_order =
  fixes compar :: "'k \<Rightarrow> 'a \<Rightarrow> int"
    and ok :: "'k \<Rightarrow> bool"
    and ordered :: "'a list \<Rightarrow> bool"
  assumes partitioned:
    "ok key \<Longrightarrow> ordered base \<Longrightarrow> i \<le> j \<Longrightarrow> j < length base \<Longrightarrow>
       (0 \<le> compar key (base ! j) \<longrightarrow> 0 \<le> compar key (base ! i)) \<and>
       (0 < compar key (base ! j) \<longrightarrow> 0 < compar key (base ! i))"
begin

lemma loop_complete:
  "ok key \<Longrightarrow> ordered base \<Longrightarrow> u \<le> length base \<Longrightarrow> l \<le> i \<Longrightarrow> i < u \<Longrightarrow>
   compar key (base ! i) = 0 \<Longrightarrow> \<exists>j. bsearch_loop compar key base l u = Some (Some j)"
proof (induction "u - l" arbitrary: l u rule: less_induct)
  case less
  let ?m = "(l + u) div 2" and ?c = "compar key (base ! ((l + u) div 2))"
  from less.prems have g: "l < u" "?m < length base" by auto
  from g consider "?c < 0" | "0 < ?c" | "?c = 0" by linarith
  then show ?case
  proof cases
    case 1
    have "\<not> ?m \<le> i"
      using partitioned [OF less.prems(1,2), of ?m i] less.prems 1 by auto
    with less.hyps [of ?m l] less.prems g 1 show ?thesis
      by (subst bsearch_loop.simps) (auto simp: Let_def)
  next
    case 2
    have "\<not> i \<le> ?m"
      using partitioned [OF less.prems(1,2), of i ?m] less.prems 2 g by auto
    with less.hyps [of u "Suc ?m"] less.prems g 2 show ?thesis
      by (subst bsearch_loop.simps) (auto simp: Let_def)
  next
    case 3
    with g show ?thesis
      by (subst bsearch_loop.simps) (auto simp: Let_def)
  qed
qed

lemma bsearch_miss:
  assumes "ok key" "ordered base" "bsearch compar key base (length base) = Some None"
    and "i < length base"
  shows "compar key (base ! i) \<noteq> 0"
  using loop_complete [OF assms(1,2) le_refl, of 0 i] assms(3,4)
  by (auto simp: bsearch_def)

lemma bsearch_spec:
  assumes "ok key" "ordered base"
  shows "(\<exists>i < length base. compar key (base ! i) = 0 \<and>
            bsearch compar key base (length base) = Some (Some i)) \<or>
         (\<forall>i < length base. compar key (base ! i) \<noteq> 0) \<and>
            bsearch compar key base (length base) = Some None"
proof (cases "bsearch compar key base (length base)")
  case None
  then show ?thesis
    using bsearch_loop_no_fault [of "length base" base compar key 0] by (simp add: bsearch_def)
next
  case (Some r)
  then show ?thesis
  proof (cases r)
    case None
    with Some bsearch_miss [OF assms] show ?thesis by auto
  next
    case (Some i)
    with \<open>bsearch compar key base (length base) = Some r\<close> show ?thesis
      using bsearch_loop_hit [of compar key base 0 "length base" i] by (auto simp: bsearch_def)
  qed
qed

end

end
