(* ===== verification/Return_Codes.thy ===== *)
theory Return_Codes
  imports C_Library
begin

text \<open>
  \<open>libs/common/returncodes.h\<close> and \<open>returncodes.c\<close>: the return codes shared by every C
  library of the framework, their values, and the two conversions between a code and its
  name. The name-to-code table is searched with \<open>bsearch\<close>: the interpretation \<open>rc\<close> of
  \<open>bsearch_order\<close> shows that the table is sorted for \<open>strcmp\<close>, as the comment in the
  source demands.
\<close>

datatype rc_ReturnCode_t =
    RC_OK | RC_NOT_FOUND | RC_OUT_OF_RANGE | RC_NO_MEMORY | RC_NOT_PERMITTED
  | RC_UNSPECIFIED_ERROR | RC_COMMUNICATION_ERROR | RC_TIMEOUT | RC_WOULD_BLOCK
  | RC_DEADLOCK | RC_BAD_FORMAT | RC_DUPLICATE | RC_BAD_PARAMETER | RC_CLOSED
  | RC_IO_ERROR | RC_NOT_IMPLEMENTED | RC_BUSY | RC_NOT_INITIALIZED | RC_END
  | RC_NOT_AVAILABLE

primrec rc_value :: "rc_ReturnCode_t \<Rightarrow> int" where
  "rc_value RC_OK = 0"
| "rc_value RC_NOT_FOUND = -1"
| "rc_value RC_OUT_OF_RANGE = -2"
| "rc_value RC_NO_MEMORY = -3"
| "rc_value RC_NOT_PERMITTED = -4"
| "rc_value RC_UNSPECIFIED_ERROR = -5"
| "rc_value RC_COMMUNICATION_ERROR = -6"
| "rc_value RC_TIMEOUT = -7"
| "rc_value RC_WOULD_BLOCK = -8"
| "rc_value RC_DEADLOCK = -9"
| "rc_value RC_BAD_FORMAT = -10"
| "rc_value RC_DUPLICATE = -11"
| "rc_value RC_BAD_PARAMETER = -12"
| "rc_value RC_CLOSED = -13"
| "rc_value RC_IO_ERROR = -14"
| "rc_value RC_NOT_IMPLEMENTED = -15"
| "rc_value RC_BUSY = -16"
| "rc_value RC_NOT_INITIALIZED = -17"
| "rc_value RC_END = -18"
| "rc_value RC_NOT_AVAILABLE = -19"

definition returncode :: "string list" where
  "returncode =
     [''OK'', ''NOT_FOUND'', ''OUT_OF_RANGE'', ''NO_MEMORY'', ''NOT_PERMITTED'',
      ''UNSPECIFIED_ERROR'', ''COMMUNICATION_ERROR'', ''TIMEOUT'', ''WOULD_BLOCK'',
      ''DEADLOCK'', ''BAD_FORMAT'', ''DUPLICATE'', ''BAD_PARAMETER'', ''CLOSED'',
      ''IO_ERROR'', ''NOT_IMPLEMENTED'', ''BUSY'', ''NOT_INITIALIZED'', ''END'',
      ''NOT_AVAILABLE'']"

definition rc_names :: "(int \<times> string) list" where
  "rc_names =
     [(-10, ''BAD_FORMAT''), (-12, ''BAD_PARAMETER''), (-16, ''BUSY''), (-13, ''CLOSED''),
      (-6, ''COMMUNICATION_ERROR''), (-9, ''DEADLOCK''), (-11, ''DUPLICATE''),
      (-18, ''END''), (-14, ''IO_ERROR''), (-19, ''NOT_AVAILABLE''), (-1, ''NOT_FOUND''),
      (-15, ''NOT_IMPLEMENTED''), (-17, ''NOT_INITIALIZED''), (-4, ''NOT_PERMITTED''),
      (-3, ''NO_MEMORY''), (0, ''OK''), (-2, ''OUT_OF_RANGE''), (-7, ''TIMEOUT''),
      (-5, ''UNSPECIFIED_ERROR''), (-8, ''WOULD_BLOCK'')]"

text \<open>\<open>NULL\<close> strings are \<open>None\<close>.\<close>

definition rc_ReturnCodeToString :: "int \<Rightarrow> string option" where
  "rc_ReturnCodeToString n =
     (let n = - n in
      if 0 \<le> n \<and> n < int (length returncode) then Some (returncode ! nat n) else None)"

definition compcn :: "string \<Rightarrow> int \<times> string \<Rightarrow> int" where
  "compcn name entry = strcmp name (snd entry)"

definition rc_StringToReturnCode :: "string option \<Rightarrow> int" where
  "rc_StringToReturnCode name =
     (case name of
        None \<Rightarrow> 1
      | Some s \<Rightarrow>
          (case bsearch compcn s rc_names (length rc_names) of
             Some (Some i) \<Rightarrow> fst (rc_names ! i)
           | _ \<Rightarrow> 1))"

section \<open>The table is sorted\<close>

definition names_sorted :: "(int \<times> string) list \<Rightarrow> bool" where
  "names_sorted t \<longleftrightarrow>
     sorted_wrt (\<lambda>a b. strcmp (snd a) (snd b) \<le> 0) t \<and> list_all (\<lambda>e. c_string (snd e)) t"

lemma names_sorted_rc_names: "names_sorted rc_names"
  unfolding names_sorted_def rc_names_def by code_simp

interpretation rc: bsearch_order compcn c_string names_sorted
proof
  fix key :: string and base :: "(int \<times> string) list" and i j :: nat
  assume "c_string key" "names_sorted base" "i \<le> j" "j < length base"
  moreover from this have "c_string (snd (base ! i))" "c_string (snd (base ! j))"
    by (simp_all add: names_sorted_def list_all_length)
  moreover have "i = j \<or> strcmp (snd (base ! i)) (snd (base ! j)) \<le> 0"
    using calculation by (auto simp: names_sorted_def sorted_wrt_iff_nth_less le_eq_less_or_eq)
  ultimately show
    "(0 \<le> compcn key (base ! j) \<longrightarrow> 0 \<le> compcn key (base ! i)) \<and>
     (0 < compcn key (base ! j) \<longrightarrow> 0 < compcn key (base ! i))"
    using strcmp_mono by (auto simp: compcn_def)
qed

lemma rc_names_c_string: "i < length rc_names \<Longrightarrow> c_string (snd (rc_names ! i))"
  using names_sorted_rc_names by (simp add: names_sorted_def list_all_length)

lemma rc_names_returncode:
  "list_all (\<lambda>(n, s). rc_ReturnCodeToString n = Some s) rc_names"
  by code_simp

lemma returncode_in_rc_names:
  "list_all (\<lambda>n. (- int n, returncode ! n) \<in> set rc_names) [0..<20]"
  by code_simp

lemma rc_names_distinct: "distinct (map snd rc_names)"
  by code_simp

text \<open>The search finds exactly the entry of the table that has the name.\<close>

lemma rc_StringToReturnCode_hit:
  assumes "(n, s) \<in> set rc_names"
  shows "rc_StringToReturnCode (Some s) = n"
proof -
  from assms obtain i where i: "i < length rc_names" "rc_names ! i = (n, s)"
    by (auto simp: in_set_conv_nth)
  then have cs: "c_string s" using rc_names_c_string by fastforce
  have "compcn s (rc_names ! i) = 0"
    using i cs by (simp add: compcn_def strcmp_eq_0)
  then obtain j where j: "j < length rc_names" "compcn s (rc_names ! j) = 0"
    "bsearch compcn s rc_names (length rc_names) = Some (Some j)"
    using rc.bsearch_spec [OF cs names_sorted_rc_names] i by blast
  then have "snd (rc_names ! j) = s"
    using cs rc_names_c_string by (simp add: compcn_def strcmp_eq_0)
  then have "j = i"
    using rc_names_distinct i j by (metis nth_eq_iff_index_eq length_map nth_map snd_conv)
  with i j show ?thesis by (simp add: rc_StringToReturnCode_def)
qed

lemma rc_StringToReturnCode_miss:
  assumes "c_string s" "s \<notin> snd ` set rc_names"
  shows "rc_StringToReturnCode (Some s) = 1"
proof -
  have "compcn s (rc_names ! i) \<noteq> 0" if "i < length rc_names" for i
    using assms that rc_names_c_string
    by (metis compcn_def strcmp_eq_0 image_eqI nth_mem)
  then have "bsearch compcn s rc_names (length rc_names) = Some None"
    using rc.bsearch_spec [OF assms(1) names_sorted_rc_names] by blast
  then show ?thesis by (simp add: rc_StringToReturnCode_def)
qed

section \<open>Round trips\<close>

text \<open>
  Every return code of the enumeration has a name, and looking the name up gives the
  code back.
\<close>

theorem rc_code_name_roundtrip:
  "\<exists>s. rc_ReturnCodeToString (rc_value c) = Some s \<and> rc_StringToReturnCode (Some s) = rc_value c"
proof -
  have "nat (- rc_value c) \<in> set [0..<20]" "rc_value c \<le> 0" by (cases c; simp)+
  moreover from this have "(rc_value c, returncode ! nat (- rc_value c)) \<in> set rc_names"
    using returncode_in_rc_names unfolding list_all_iff by fastforce
  moreover have "length returncode = 20" by (simp add: returncode_def)
  ultimately show ?thesis
    using rc_StringToReturnCode_hit by (auto simp: rc_ReturnCodeToString_def Let_def)
qed

text \<open>
  A name that is not in the table gives 1, and any other result of the look-up is a
  code whose name is the string that was looked up.
\<close>

theorem rc_name_lookup_exact:
  assumes "c_string s"
  shows "rc_StringToReturnCode (Some s) = 1 \<and> s \<notin> set returncode \<or>
         rc_ReturnCodeToString (rc_StringToReturnCode (Some s)) = Some s"
proof (cases "s \<in> snd ` set rc_names")
  case True
  then obtain n where n: "(n, s) \<in> set rc_names" by auto
  then have "rc_ReturnCodeToString n = Some s"
    using rc_names_returncode by (auto simp: list_all_iff)
  with rc_StringToReturnCode_hit [OF n] show ?thesis by simp
next
  case False
  have "set returncode \<subseteq> snd ` set rc_names" by code_simp
  with False rc_StringToReturnCode_miss [OF assms False] show ?thesis by blast
qed

theorem rc_name_lookup_exact_witness:
  "c_string ''TIMEOUT'' \<and> rc_ReturnCodeToString (rc_StringToReturnCode (Some ''TIMEOUT'')) = Some ''TIMEOUT''"
proof -
  have c: "c_string ''TIMEOUT''" by code_simp
  have "''TIMEOUT'' \<in> set returncode" by code_simp
  with rc_name_lookup_exact [OF c] c show ?thesis by blast
qed

end
