(* ===== verification/Pointer_List.thy ===== *)
theory Pointer_List
  imports Return_Codes
begin

text \<open>
  \<open>libs/common/pointer_list.c\<close>: the auto-growing circular buffer of pointers on which the
  C connector libraries queue their data. A \<open>PointerList\<close> is the C structure; a \<open>NULL\<close>
  list or pointer is \<open>None\<close>; \<open>unsigned int\<close> arithmetic is reduced with \<open>u32\<close>. \<open>malloc\<close> is
  an argument: asked for \<open>n\<close> slots it returns \<open>None\<close> (no memory) or a block of \<open>n\<close> slots
  of arbitrary content.

  The list \<open>pl_list\<close> is what the buffer holds, in order. Every operation is shown to
  implement the list operation its documentation promises, under the invariant \<open>pl_inv\<close>;
  \<open>PointerList_Remove\<close> does so when the entries after the removed one do not wrap around,
  and loses an entry when they do.
\<close>

section \<open>The structure and its operations\<close>

type_synonym 'p alloc = "nat \<Rightarrow> 'p option list option"

definition malloc_ok :: "'p alloc \<Rightarrow> bool" where
  "malloc_ok m \<longleftrightarrow> (\<forall>n b. m n = Some b \<longrightarrow> length b = n)"

definition memcpy :: "'a list \<Rightarrow> nat \<Rightarrow> 'a list \<Rightarrow> nat \<Rightarrow> nat \<Rightarrow> 'a list" where
  "memcpy dst d src s n = take d dst @ take n (drop s src) @ drop (d + n) dst"

definition POINTERLIST_MAGIC_ID :: nat where
  "POINTERLIST_MAGIC_ID = 0x12af85d3"

record 'p PointerList =
  pl_magic :: nat
  allocatedSize :: nat
  nbOfElements :: nat
  buffer :: "'p option list"
  readIdx :: nat
  writeIdx :: nat

definition bad_context :: "'p PointerList option \<Rightarrow> bool" where
  "bad_context l = (case l of None \<Rightarrow> True | Some pl \<Rightarrow> pl_magic pl \<noteq> POINTERLIST_MAGIC_ID)"

text \<open>\<open>m0\<close> tells whether the structure itself can be allocated.\<close>

definition PointerList_Create ::
  "bool \<Rightarrow> 'p alloc \<Rightarrow> nat \<Rightarrow> rc_ReturnCode_t \<times> 'p PointerList option" where
  "PointerList_Create m0 m prealloc =
     (let prealloc = (if prealloc = 0 then 8 else prealloc) in
      if \<not> m0 then (RC_NO_MEMORY, None)
      else (case m prealloc of
              None \<Rightarrow> (RC_NO_MEMORY, None)
            | Some b \<Rightarrow>
                (RC_OK, Some \<lparr>pl_magic = POINTERLIST_MAGIC_ID, allocatedSize = prealloc,
                   nbOfElements = 0, buffer = b, readIdx = 0, writeIdx = 0\<rparr>)))"

text \<open>After a successful \<open>PointerList_Destroy\<close> the object no longer exists.\<close>

definition PointerList_Destroy ::
  "'p PointerList option \<Rightarrow> rc_ReturnCode_t \<times> 'p PointerList option" where
  "PointerList_Destroy l = (if bad_context l then (RC_BAD_FORMAT, l) else (RC_OK, None))"

text \<open>The result pairs the code with what is stored through the two out parameters.\<close>

definition PointerList_GetSize ::
  "'p PointerList option \<Rightarrow> nat \<times> nat \<Rightarrow> rc_ReturnCode_t \<times> nat \<times> nat" where
  "PointerList_GetSize l out =
     (if bad_context l then (RC_BAD_FORMAT, out)
      else (RC_OK, nbOfElements (the l), allocatedSize (the l)))"

definition grow :: "'p PointerList \<Rightarrow> 'p option list \<Rightarrow> 'p PointerList" where
  "grow pl b =
     (let b' = (if readIdx pl < writeIdx pl
                then memcpy b 0 (buffer pl) (readIdx pl) (writeIdx pl - readIdx pl)
                else memcpy (memcpy b 0 (buffer pl) (readIdx pl) (allocatedSize pl - readIdx pl))
                       (allocatedSize pl - readIdx pl) (buffer pl) 0 (writeIdx pl))
      in pl\<lparr>readIdx := 0, writeIdx := nbOfElements pl, buffer := b',
             allocatedSize := u32 (allocatedSize pl * 2)\<rparr>)"

definition push_slot :: "'p PointerList \<Rightarrow> 'p option \<Rightarrow> 'p PointerList" where
  "push_slot pl p =
     pl\<lparr>buffer := (buffer pl)[writeIdx pl := p],
        writeIdx := u32 (writeIdx pl + 1) mod allocatedSize pl,
        nbOfElements := u32 (nbOfElements pl + 1)\<rparr>"

definition PointerList_PushLast ::
  "'p alloc \<Rightarrow> 'p PointerList option \<Rightarrow> 'p option \<Rightarrow> rc_ReturnCode_t \<times> 'p PointerList option" where
  "PointerList_PushLast m l p =
     (if bad_context l then (RC_BAD_FORMAT, l)
      else let pl = the l in
        if nbOfElements pl = u32 (allocatedSize pl + (2 ^ 32 - 1)) then
          (case m (u32 (allocatedSize pl * 2)) of
             None \<Rightarrow> (RC_NO_MEMORY, l)
           | Some b \<Rightarrow> (RC_OK, Some (push_slot (grow pl b) p)))
        else (RC_OK, Some (push_slot pl p)))"

text \<open>\<open>pointer\<close> is the previous content of the out parameter.\<close>

definition PointerList_PopFirst ::
  "'p PointerList option \<Rightarrow> 'p option \<Rightarrow> rc_ReturnCode_t \<times> 'p option \<times> 'p PointerList option" where
  "PointerList_PopFirst l pointer =
     (if bad_context l then (RC_BAD_FORMAT, pointer, l)
      else let pl = the l in
        if nbOfElements pl = 0 then (RC_NOT_FOUND, None, l)
        else (RC_OK, buffer pl ! readIdx pl,
              Some (pl\<lparr>readIdx := u32 (readIdx pl + 1) mod allocatedSize pl,
                       nbOfElements := nbOfElements pl - 1\<rparr>)))"

definition PointerList_Poke ::
  "'p PointerList option \<Rightarrow> nat \<Rightarrow> 'p option \<Rightarrow> rc_ReturnCode_t \<times> 'p PointerList option" where
  "PointerList_Poke l index p =
     (if bad_context l then (RC_BAD_FORMAT, l)
      else let pl = the l in
        if nbOfElements pl \<le> index then (RC_OUT_OF_RANGE, l)
        else (RC_OK, Some (pl\<lparr>buffer :=
                (buffer pl)[u32 (index + readIdx pl) mod allocatedSize pl := p]\<rparr>)))"

definition PointerList_Peek ::
  "'p PointerList option \<Rightarrow> nat \<Rightarrow> 'p option \<Rightarrow> rc_ReturnCode_t \<times> 'p option" where
  "PointerList_Peek l index pointer =
     (if bad_context l then (RC_BAD_FORMAT, pointer)
      else let pl = the l in
        if nbOfElements pl \<le> index then (RC_OUT_OF_RANGE, None)
        else (RC_OK, buffer pl ! (u32 (index + readIdx pl) mod allocatedSize pl)))"

text \<open>
  The loop of \<open>PointerList_Remove\<close>: \<open>n\<close> entries are left to move. The wrap-around branch
  sets \<open>i\<close> to 0 and the loop header then increments it.
\<close>

fun remove_loop :: "nat \<Rightarrow> nat \<Rightarrow> nat \<Rightarrow> 'p option list \<Rightarrow> 'p option list" where
  "remove_loop 0 i asize b = b"
| "remove_loop (Suc n) i asize b =
     (if i = asize - 1 then remove_loop n (0 + 1) asize (b[i := b ! 0])
      else remove_loop n (i + 1) asize (b[i := b ! (i + 1)]))"

definition PointerList_Remove ::
  "'p PointerList option \<Rightarrow> nat \<Rightarrow> 'p option \<Rightarrow> rc_ReturnCode_t \<times> 'p option \<times> 'p PointerList option" where
  "PointerList_Remove l index pointer =
     (if bad_context l then (RC_BAD_FORMAT, pointer, l)
      else let pl = the l in
        if nbOfElements pl \<le> index then (RC_OUT_OF_RANGE, None, l)
        else let i = u32 (index + readIdx pl) mod allocatedSize pl;
                 nb = nbOfElements pl - 1
             in (RC_OK, buffer pl ! i,
                 Some (pl\<lparr>nbOfElements := nb,
                   buffer := remove_loop (nb - index) i (allocatedSize pl) (buffer pl),
                   writeIdx := u32 (writeIdx pl + (2 ^ 32 - 1) + allocatedSize pl) mod allocatedSize pl\<rparr>)))"

section \<open>What the buffer holds, and the invariant\<close>

definition pl_pos :: "'p PointerList \<Rightarrow> nat \<Rightarrow> nat" where
  "pl_pos pl k = (readIdx pl + k) mod allocatedSize pl"

definition pl_list :: "'p PointerList \<Rightarrow> 'p option list" where
  "pl_list pl = map (\<lambda>k. buffer pl ! pl_pos pl k) [0..<nbOfElements pl]"

text \<open>
  One slot always stays free. The bound on the size keeps \<open>index + readIdx\<close> below \<open>2 ^ 32\<close>.
\<close>

definition pl_inv :: "'p PointerList \<Rightarrow> bool" where
  "pl_inv pl \<longleftrightarrow>
     pl_magic pl = POINTERLIST_MAGIC_ID \<and> 0 < allocatedSize pl \<and> allocatedSize pl \<le> 2 ^ 31 \<and>
     length (buffer pl) = allocatedSize pl \<and> readIdx pl < allocatedSize pl \<and>
     nbOfElements pl < allocatedSize pl \<and>
     writeIdx pl = (readIdx pl + nbOfElements pl) mod allocatedSize pl"

lemma ring_pos [ring_simps]:
  "r < a \<Longrightarrow> k < a \<Longrightarrow> (r + k) mod a = (if r + k < a then r + k else r + k - a)" for a :: nat
  by (simp add: mod_if)

lemma bad_context_inv [simp]: "pl_inv pl \<Longrightarrow> \<not> bad_context (Some pl)"
  by (simp add: bad_context_def pl_inv_def)

lemma pl_list_length [simp]: "length (pl_list pl) = nbOfElements pl"
  by (simp add: pl_list_def)

lemma pl_list_nth: "k < nbOfElements pl \<Longrightarrow> pl_list pl ! k = buffer pl ! pl_pos pl k"
  by (simp add: pl_list_def)

lemma pl_pos_index [simp]:
  "pl_inv pl \<Longrightarrow> k < nbOfElements pl \<Longrightarrow>
   u32 (k + readIdx pl) mod allocatedSize pl = pl_pos pl k"
  by (simp add: pl_inv_def pl_pos_def add.commute)

lemma pl_pos_less [simp]: "pl_inv pl \<Longrightarrow> pl_pos pl k < length (buffer pl)"
  by (simp add: pl_inv_def pl_pos_def)

lemma pl_pos_inj:
  "pl_inv pl \<Longrightarrow> j \<le> nbOfElements pl \<Longrightarrow> k \<le> nbOfElements pl \<Longrightarrow>
   pl_pos pl j = pl_pos pl k \<longleftrightarrow> j = k"
  by (auto simp: pl_inv_def pl_pos_def ring_simps split: if_splits)

section \<open>Creation, size, reading and overwriting\<close>

lemma create_inv:
  assumes "malloc_ok m" "prealloc \<le> 2 ^ 31"
    and "PointerList_Create m0 m prealloc = (RC_OK, l)"
  shows "\<exists>pl. l = Some pl \<and> pl_inv pl \<and> pl_list pl = [] \<and> readIdx pl = 0 \<and>
              allocatedSize pl = (if prealloc = 0 then 8 else prealloc)"
  using assms
  by (auto simp: PointerList_Create_def malloc_ok_def pl_inv_def pl_list_def Let_def
      split: if_splits option.splits)

lemma getsize_correct:
  "pl_inv pl \<Longrightarrow>
   PointerList_GetSize (Some pl) out = (RC_OK, length (pl_list pl), allocatedSize pl)"
  by (simp add: PointerList_GetSize_def)

lemma peek_correct:
  "pl_inv pl \<Longrightarrow>
   PointerList_Peek (Some pl) k pointer =
     (if k < length (pl_list pl) then (RC_OK, pl_list pl ! k) else (RC_OUT_OF_RANGE, None))"
  by (simp add: PointerList_Peek_def Let_def pl_list_nth)

lemma poke_correct:
  assumes "pl_inv pl" "k < length (pl_list pl)"
  shows "\<exists>pl'. PointerList_Poke (Some pl) k p = (RC_OK, Some pl') \<and> pl_inv pl' \<and>
               pl_list pl' = (pl_list pl)[k := p]"
proof -
  let ?pl = "pl\<lparr>buffer := (buffer pl)[pl_pos pl k := p]\<rparr>"
  have pos: "pl_pos ?pl j = pl_pos pl j" for j by (simp add: pl_pos_def)
  have "pl_list ?pl ! j = (pl_list pl)[k := p] ! j" if "j < nbOfElements pl" for j
    using assms that pl_pos_inj [OF assms(1), of k j]
    by (auto simp: pl_list_nth pos nth_list_update)
  then have "pl_list ?pl = (pl_list pl)[k := p]"
    by (simp add: list_eq_iff_nth_eq)
  moreover have "pl_inv ?pl"
    using assms by (simp add: pl_inv_def)
  ultimately show ?thesis
    using assms by (simp add: PointerList_Poke_def Let_def)
qed

section \<open>The queue operations\<close>

lemma popfirst_correct:
  assumes "pl_inv pl"
  shows "case pl_list pl of
           [] \<Rightarrow> PointerList_PopFirst (Some pl) pointer = (RC_NOT_FOUND, None, Some pl)
         | x # xs \<Rightarrow> \<exists>pl'. PointerList_PopFirst (Some pl) pointer = (RC_OK, x, Some pl') \<and>
                        pl_inv pl' \<and> pl_list pl' = xs"
proof (cases "nbOfElements pl")
  case 0
  with assms show ?thesis by (simp add: pl_list_def PointerList_PopFirst_def)
next
  case (Suc n)
  let ?pl = "pl\<lparr>readIdx := u32 (readIdx pl + 1) mod allocatedSize pl, nbOfElements := n\<rparr>"
  have r: "u32 (readIdx pl + 1) = readIdx pl + 1"
    using assms by (simp add: pl_inv_def)
  have pos: "pl_pos ?pl k = pl_pos pl (Suc k)" for k
    using r by (simp add: pl_pos_def mod_add_left_eq)
  have list: "pl_list pl = (buffer pl ! readIdx pl) # pl_list ?pl"
    using assms Suc pos
    by (simp add: pl_list_def upt_conv_Cons map_Suc_upt [symmetric] pl_pos_def pl_inv_def
        del: upt_Suc)
  have "writeIdx pl = ((readIdx pl + 1) mod allocatedSize pl + n) mod allocatedSize pl"
    using assms Suc by (simp add: pl_inv_def mod_add_left_eq)
  then have "pl_inv ?pl"
    using assms Suc r by (simp add: pl_inv_def)
  with assms Suc list show ?thesis
    by (simp add: PointerList_PopFirst_def Let_def)
qed

lemma push_slot_correct:
  assumes "pl_inv pl" "Suc (nbOfElements pl) < allocatedSize pl"
  shows "pl_inv (push_slot pl p) \<and> pl_list (push_slot pl p) = pl_list pl @ [p]"
proof -
  let ?pl = "push_slot pl p"
  have w: "writeIdx pl = pl_pos pl (nbOfElements pl)"
    using assms by (simp add: pl_inv_def pl_pos_def)
  have n: "nbOfElements ?pl = Suc (nbOfElements pl)"
    and pos: "pl_pos ?pl k = pl_pos pl k" for k
    using assms by (simp_all add: push_slot_def pl_inv_def pl_pos_def)
  have "pl_list ?pl ! k = (pl_list pl @ [p]) ! k" if "k < Suc (nbOfElements pl)" for k
    using assms that w n pos pl_pos_inj [OF assms(1), of "nbOfElements pl" k]
    by (cases "k = nbOfElements pl")
      (auto simp: pl_list_nth nth_append nth_list_update push_slot_def)
  then have "pl_list ?pl = pl_list pl @ [p]"
    by (simp add: list_eq_iff_nth_eq n)
  moreover have "u32 (writeIdx pl + 1) = writeIdx pl + 1"
    using assms by (simp add: pl_inv_def order.strict_trans2 [OF mod_less_divisor])
  then have "pl_inv ?pl"
    using assms n by (simp add: pl_inv_def push_slot_def mod_Suc_eq)
  ultimately show ?thesis by blast
qed

lemma grow_list:
  assumes "pl_inv pl" "nbOfElements pl = allocatedSize pl - 1" "allocatedSize pl \<le> 2 ^ 30"
    and "length b = allocatedSize pl * 2"
  shows "pl_inv (grow pl b) \<and> pl_list (grow pl b) = pl_list pl \<and>
         allocatedSize (grow pl b) = 2 * allocatedSize pl \<and>
         nbOfElements (grow pl b) = nbOfElements pl"
proof -
  let ?pl = "grow pl b" and ?a = "allocatedSize pl" and ?r = "readIdx pl"
  have f: "0 < ?a" "?r < ?a" "length (buffer pl) = ?a"
    using assms by (simp_all add: pl_inv_def)
  have w: "writeIdx pl = (if ?r = 0 then ?a - 1 else ?r - 1)"
    using assms f ring_pos [of ?r ?a "?a - 1"] by (auto simp: pl_inv_def)
  have a: "allocatedSize ?pl = 2 * ?a" "readIdx ?pl = 0" "nbOfElements ?pl = ?a - 1"
    "writeIdx ?pl = ?a - 1" "length (buffer ?pl) = 2 * ?a"
    using assms f w by (auto simp: grow_def Let_def memcpy_def)
  have nth: "buffer ?pl ! k = buffer pl ! pl_pos pl k" if "k < ?a - 1" for k
  proof (cases "?r < writeIdx pl")
    case True
    then have "?r = 0" using w by (auto split: if_splits)
    then show ?thesis
      using f w that by (simp add: grow_def Let_def memcpy_def pl_pos_def nth_append)
  next
    case False
    then have "?a = 1 \<or> ?r \<noteq> 0 \<and> writeIdx pl = ?r - 1" using f w by auto
    then show ?thesis
      using f False that
      by (auto simp: grow_def Let_def memcpy_def pl_pos_def nth_append ring_simps add.commute)
  qed
  have "pl_list ?pl ! k = pl_list pl ! k" if "k < ?a - 1" for k
    using assms that nth [OF that] a by (simp add: pl_list_nth pl_pos_def)
  then have "pl_list ?pl = pl_list pl"
    using assms a by (simp add: list_eq_iff_nth_eq)
  moreover have "pl_magic ?pl = pl_magic pl" by (simp add: grow_def Let_def)
  ultimately show ?thesis
    using assms a by (auto simp: pl_inv_def)
qed

lemma pushlast_correct:
  assumes "malloc_ok m" "pl_inv pl" "nbOfElements pl < 2 ^ 30"
  shows "(\<exists>pl'. PointerList_PushLast m (Some pl) p = (RC_OK, Some pl') \<and> pl_inv pl' \<and>
               pl_list pl' = pl_list pl @ [p]) \<or>
         PointerList_PushLast m (Some pl) p = (RC_NO_MEMORY, Some pl)"
proof -
  let ?a = "allocatedSize pl"
  have "0 < ?a" "?a \<le> 2 ^ 31" using assms(2) by (simp_all add: pl_inv_def)
  then have "?a + (2 ^ 32 - 1) = (?a - 1) + 2 ^ 32" "?a - 1 < 2 ^ 32" by simp_all
  then have full: "u32 (?a + (2 ^ 32 - 1)) = ?a - 1"
    unfolding u32_def by (simp only: mod_add_self2 mod_less)
  show ?thesis
  proof (cases "nbOfElements pl = ?a - 1")
    case False
    moreover have "nbOfElements pl < ?a" using assms(2) by (simp add: pl_inv_def)
    ultimately have "Suc (nbOfElements pl) < ?a" by linarith
    with False full push_slot_correct [OF assms(2)] assms(2) show ?thesis
      by (simp add: PointerList_PushLast_def Let_def)
  next
    case True
    then have room: "?a \<le> 2 ^ 30" and a0: "0 < ?a"
      using assms by (simp_all add: pl_inv_def)
    show ?thesis
    proof (cases "m (u32 (?a * 2))")
      case None
      with True full assms(2) show ?thesis by (simp add: PointerList_PushLast_def Let_def)
    next
      case (Some b)
      then have "length b = ?a * 2"
        using assms(1) room by (simp add: malloc_ok_def)
      note g = grow_list [OF assms(2) True room this]
      then have "Suc (nbOfElements (grow pl b)) < allocatedSize (grow pl b)"
        using True a0 by simp
      with g True Some full push_slot_correct [of "grow pl b"] assms(2) show ?thesis
        by (simp add: PointerList_PushLast_def Let_def)
    qed
  qed
qed

section \<open>Removal by index\<close>

text \<open>
  The entries behind the removed one are moved correctly when at most the last of them sits
  beyond the end of the buffer, or when the removed entry itself already does.
\<close>

definition pl_straight :: "'p PointerList \<Rightarrow> nat \<Rightarrow> bool" where
  "pl_straight pl k \<longleftrightarrow>
     readIdx pl + nbOfElements pl \<le> allocatedSize pl + 1 \<or> allocatedSize pl \<le> readIdx pl + k"

lemma remove_loop_length [simp]: "length (remove_loop n i a b) = length b"
  by (induction n i a b rule: remove_loop.induct) auto

lemma remove_loop_nth:
  "i + n \<le> a \<Longrightarrow> n < a \<Longrightarrow> length b = a \<Longrightarrow> j < a \<Longrightarrow>
   remove_loop n i a b ! j = (if i \<le> j \<and> j < i + n then b ! ((j + 1) mod a) else b ! j)"
proof (induction n i a b rule: remove_loop.induct)
  case (2 n i a b)
  show ?case
  proof (cases "i = a - 1")
    case True
    with "2.prems" have *: "n = 0" "a = Suc i" by linarith+
    with "2.prems" show ?thesis by (cases "j = i") auto
  next
    case False
    with "2.IH"(2) "2.prems" have "remove_loop (Suc n) i a b ! j =
      (if i + 1 \<le> j \<and> j < i + 1 + n then b[i := b ! (i + 1)] ! ((j + 1) mod a)
       else b[i := b ! (i + 1)] ! j)"
      by simp
    moreover have "(j + 1) mod a \<noteq> i" if "i + 1 \<le> j" "j < i + 1 + n"
      using that "2.prems" by (cases "j + 1 = a") auto
    moreover have "j + 1 < a" if "j = i" using that False "2.prems" by linarith
    ultimately show ?thesis
      using "2.prems" by (auto simp: nth_list_update)
  qed
qed auto

lemma remove_writeIdx:
  assumes "pl_inv pl" "0 < nbOfElements pl"
  shows "u32 (writeIdx pl + (2 ^ 32 - 1) + allocatedSize pl) mod allocatedSize pl =
         (readIdx pl + (nbOfElements pl - 1)) mod allocatedSize pl"
proof -
  let ?a = "allocatedSize pl" and ?w = "writeIdx pl"
  have a: "0 < ?a" "?a \<le> 2 ^ 31" "?w < ?a" "readIdx pl < ?a" "nbOfElements pl < ?a"
    "?w = (readIdx pl + nbOfElements pl) mod ?a"
    using assms by (simp_all add: pl_inv_def)
  have "?w + (2 ^ 32 - 1) + ?a = (?w + ?a - 1) + 2 ^ 32" "?w + ?a - 1 < 2 ^ 32"
    using a(1-3) by simp_all
  then have "u32 (?w + (2 ^ 32 - 1) + ?a) = ?w + ?a - 1"
    unfolding u32_def by (simp only: mod_add_self2 mod_less)
  moreover have "?w = (if readIdx pl + nbOfElements pl < ?a then readIdx pl + nbOfElements pl
                       else readIdx pl + nbOfElements pl - ?a)"
    using a ring_pos by metis
  then have "?w + ?a - 1 = readIdx pl + (nbOfElements pl - 1) \<or>
             ?w + ?a - 1 = (readIdx pl + (nbOfElements pl - 1)) + ?a"
    using a(1) assms(2) by (auto split: if_splits)
  then have "(?w + ?a - 1) mod ?a = (readIdx pl + (nbOfElements pl - 1)) mod ?a"
    by (elim disjE) (simp_all only: mod_add_self2)
  ultimately show ?thesis by simp
qed

lemma remove_correct:
  assumes "pl_inv pl" "k < length (pl_list pl)" "pl_straight pl k"
  shows "\<exists>pl'. PointerList_Remove (Some pl) k pointer = (RC_OK, pl_list pl ! k, Some pl') \<and>
               pl_inv pl' \<and> pl_list pl' = take k (pl_list pl) @ drop (Suc k) (pl_list pl) \<and>
               readIdx pl' = readIdx pl"
proof -
  let ?n = "nbOfElements pl" and ?a = "allocatedSize pl" and ?r = "readIdx pl"
  let ?b = "remove_loop (?n - 1 - k) (pl_pos pl k) ?a (buffer pl)"
  let ?pl = "pl\<lparr>nbOfElements := ?n - 1, buffer := ?b,
    writeIdx := (?r + (?n - 1)) mod ?a\<rparr>"
  have f: "k < ?n" "?n < ?a" "?r < ?a" "length (buffer pl) = ?a"
    using assms by (simp_all add: pl_inv_def)
  have pos: "pl_pos pl j = (if ?r + j < ?a then ?r + j else ?r + j - ?a)" if "j \<le> ?n" for j
    using f that by (simp add: pl_pos_def ring_simps)
  have bound: "pl_pos pl k + (?n - 1 - k) \<le> ?a"
    using f assms(3) pos [of k] by (auto simp: pl_straight_def)
  have "?b ! pl_pos pl j = pl_list pl ! (if j < k then j else Suc j)" if "j < ?n - 1" for j
  proof -
    have "pl_pos pl j < ?a" "Suc (pl_pos pl j) mod ?a = pl_pos pl (Suc j)"
      using f by (simp_all add: pl_pos_def mod_Suc_eq)
    moreover have "pl_pos pl k \<le> pl_pos pl j \<and> pl_pos pl j < pl_pos pl k + (?n - 1 - k) \<longleftrightarrow> k \<le> j"
      using f that assms(3) pos [of k] pos [of j] by (auto simp: pl_straight_def split: if_splits)
    ultimately show ?thesis
      using f that bound by (simp add: remove_loop_nth pl_list_nth)
  qed
  moreover have "pl_pos ?pl j = pl_pos pl j" for j by (simp add: pl_pos_def)
  then have "pl_list ?pl ! j = ?b ! pl_pos pl j" if "j < ?n - 1" for j
    using that by (simp add: pl_list_nth)
  ultimately have "pl_list ?pl ! j = (take k (pl_list pl) @ drop (Suc k) (pl_list pl)) ! j"
    if "j < ?n - 1" for j
    using f that by (auto simp: nth_append)
  then have "pl_list ?pl = take k (pl_list pl) @ drop (Suc k) (pl_list pl)"
    using f by (simp add: list_eq_iff_nth_eq)
  moreover have "pl_inv ?pl"
    using assms f by (simp add: pl_inv_def)
  ultimately show ?thesis
    using assms f remove_writeIdx [of pl]
    by (simp add: PointerList_Remove_def Let_def pl_list_nth)
qed

section \<open>Interfaces\<close>

text \<open>
  A growing queue: \<open>env_ok\<close> says that the environment (here the allocator) behaves; \<open>push\<close>
  may run out of memory and then changes nothing.
\<close>

locale fifo_queue =
  fixes env_ok :: "'m \<Rightarrow> bool"
    and inv :: "'q \<Rightarrow> bool"
    and content :: "'q \<Rightarrow> 'a list"
    and cap :: nat
    and push :: "'m \<Rightarrow> 'q \<Rightarrow> 'a \<Rightarrow> rc_ReturnCode_t \<times> 'q"
    and pop :: "'q \<Rightarrow> rc_ReturnCode_t \<times> 'a \<times> 'q"
  assumes push_ok:
    "env_ok m \<Longrightarrow> inv q \<Longrightarrow> length (content q) < cap \<Longrightarrow> push m q x = (RC_OK, q') \<Longrightarrow>
     inv q' \<and> content q' = content q @ [x]"
  and push_fails:
    "env_ok m \<Longrightarrow> inv q \<Longrightarrow> length (content q) < cap \<Longrightarrow> push m q x = (c, q') \<Longrightarrow> c \<noteq> RC_OK \<Longrightarrow>
     c = RC_NO_MEMORY \<and> q' = q"
  and pop_ok:
    "inv q \<Longrightarrow> content q = x # xs \<Longrightarrow> \<exists>q'. pop q = (RC_OK, x, q') \<and> inv q' \<and> content q' = xs"

text \<open>A client of a queue: push a list of entries, take \<open>n\<close> entries out.\<close>

fun push_all ::
  "('m \<Rightarrow> 'q \<Rightarrow> 'a \<Rightarrow> rc_ReturnCode_t \<times> 'q) \<Rightarrow> 'm \<Rightarrow> 'q \<Rightarrow> 'a list \<Rightarrow> 'q option" where
  "push_all push m q [] = Some q"
| "push_all push m q (x # xs) =
     (case push m q x of (c, q') \<Rightarrow> if c = RC_OK then push_all push m q' xs else None)"

fun pop_n :: "('q \<Rightarrow> rc_ReturnCode_t \<times> 'a \<times> 'q) \<Rightarrow> nat \<Rightarrow> 'q \<Rightarrow> 'a list \<times> 'q" where
  "pop_n pop 0 q = ([], q)"
| "pop_n pop (Suc n) q =
     (case pop q of (c, x, q') \<Rightarrow> case pop_n pop n q' of (xs, q'') \<Rightarrow> (x # xs, q''))"

context fifo_queue
begin

lemma push_all_content:
  "env_ok m \<Longrightarrow> inv q \<Longrightarrow> length (content q) + length xs \<le> cap \<Longrightarrow>
   push_all push m q xs = Some q' \<Longrightarrow> inv q' \<and> content q' = content q @ xs"
proof (induction xs arbitrary: q)
  case (Cons x xs)
  from Cons.prems obtain q1 where
    q1: "push m q x = (RC_OK, q1)" "push_all push m q1 xs = Some q'"
    by (auto split: prod.splits if_splits)
  with Cons.prems push_ok [of m q x q1] have "inv q1" "content q1 = content q @ [x]" by auto
  with Cons.IH [of q1] Cons.prems q1 show ?case by simp
qed simp

lemma pop_n_content:
  "inv q \<Longrightarrow> content q = xs @ ys \<Longrightarrow>
   \<exists>q'. pop_n pop (length xs) q = (xs, q') \<and> inv q' \<and> content q' = ys"
proof (induction xs arbitrary: q)
  case (Cons x xs)
  then obtain q1 where "pop q = (RC_OK, x, q1)" "inv q1" "content q1 = xs @ ys"
    using pop_ok [of q x "xs @ ys"] by auto
  with Cons.IH [of q1] show ?case by auto
qed simp

lemma fifo_order:
  assumes "env_ok m" "inv q" "length (content q) + length xs \<le> cap" "push_all push m q xs = Some q'"
  shows "\<exists>q''. pop_n pop (length (content q) + length xs) q' = (content q @ xs, q'') \<and>
               inv q'' \<and> content q'' = []"
  using push_all_content [OF assms] pop_n_content [of q' "content q @ xs" "[]"] by simp

end

definition pl_ok :: "'p PointerList option \<Rightarrow> bool" where
  "pl_ok l = (case l of None \<Rightarrow> False | Some pl \<Rightarrow> pl_inv pl)"

definition pl_content :: "'p PointerList option \<Rightarrow> 'p option list" where
  "pl_content l = (case l of None \<Rightarrow> [] | Some pl \<Rightarrow> pl_list pl)"

lemma pl_ok_cases: "pl_ok l \<Longrightarrow> (\<And>pl. l = Some pl \<Longrightarrow> pl_inv pl \<Longrightarrow> P) \<Longrightarrow> P"
  by (auto simp: pl_ok_def split: option.splits)

interpretation pl: fifo_queue malloc_ok pl_ok pl_content "2 ^ 30" PointerList_PushLast
  "\<lambda>l. PointerList_PopFirst l None"
proof
  fix m :: "'a alloc" and q q' :: "'a PointerList option" and x :: "'a option" and c
  assume m: "malloc_ok m" and q: "pl_ok q" and n: "length (pl_content q) < 2 ^ 30"
  then obtain pl where pl: "q = Some pl" "pl_inv pl" "nbOfElements pl < 2 ^ 30"
    by (auto simp: pl_content_def elim: pl_ok_cases)
  note * = pushlast_correct [OF m pl(2,3), of x]
  show "pl_ok q' \<and> pl_content q' = pl_content q @ [x]"
    if "PointerList_PushLast m q x = (RC_OK, q')"
    using * that pl by (auto simp: pl_ok_def pl_content_def)
  show "c = RC_NO_MEMORY \<and> q' = q"
    if "PointerList_PushLast m q x = (c, q')" "c \<noteq> RC_OK"
    using * that pl by auto
next
  fix q :: "'a PointerList option" and x xs
  assume "pl_ok q" "pl_content q = x # xs"
  then obtain pl where pl: "q = Some pl" "pl_inv pl" "pl_list pl = x # xs"
    by (auto simp: pl_content_def elim: pl_ok_cases)
  then show "\<exists>q'. PointerList_PopFirst q None = (RC_OK, x, q') \<and> pl_ok q' \<and> pl_content q' = xs"
    using popfirst_correct [OF pl(2), of None] by (auto simp: pl_ok_def pl_content_def)
qed

text \<open>
  A store addressed by index, as the data sets use it: entries are appended, read and
  removed by index.
\<close>

locale indexed_store =
  fixes env_ok :: "'m \<Rightarrow> bool"
    and inv :: "'q \<Rightarrow> bool"
    and content :: "'q \<Rightarrow> 'a option list"
    and cap :: nat
    and store_size :: "'q \<Rightarrow> nat"
    and push :: "'m \<Rightarrow> 'q \<Rightarrow> 'a option \<Rightarrow> rc_ReturnCode_t \<times> 'q"
    and peek :: "'q \<Rightarrow> nat \<Rightarrow> rc_ReturnCode_t \<times> 'a option"
    and remove :: "'q \<Rightarrow> nat \<Rightarrow> rc_ReturnCode_t \<times> 'a option \<times> 'q"
  assumes size_law: "inv q \<Longrightarrow> store_size q = length (content q)"
  and push_law:
    "env_ok m \<Longrightarrow> inv q \<Longrightarrow> length (content q) < cap \<Longrightarrow>
     (\<exists>q'. push m q x = (RC_OK, q') \<and> inv q' \<and> content q' = content q @ [x]) \<or>
     push m q x = (RC_NO_MEMORY, q)"
  and peek_law:
    "inv q \<Longrightarrow> peek q i =
       (if i < length (content q) then (RC_OK, content q ! i) else (RC_OUT_OF_RANGE, None))"
  and remove_law:
    "inv q \<Longrightarrow> i < length (content q) \<Longrightarrow>
     \<exists>q'. remove q i = (RC_OK, content q ! i, q') \<and> inv q' \<and>
          content q' = take i (content q) @ drop (Suc i) (content q)"

text \<open>
  A list that is only ever pushed to and removed from keeps its entries at the start of the
  buffer, where removal never meets the wrap-around.
\<close>

definition pl_flat :: "'p PointerList option \<Rightarrow> bool" where
  "pl_flat l \<longleftrightarrow> (case l of None \<Rightarrow> False | Some pl \<Rightarrow> pl_inv pl \<and> readIdx pl = 0)"

lemma pl_flat_cases:
  "pl_flat l \<Longrightarrow> (\<And>pl. l = Some pl \<Longrightarrow> pl_inv pl \<Longrightarrow> readIdx pl = 0 \<Longrightarrow> P) \<Longrightarrow> P"
  by (auto simp: pl_flat_def split: option.splits)

lemma pushlast_readIdx:
  "PointerList_PushLast m (Some pl) p = (c, Some pl') \<Longrightarrow> readIdx pl = 0 \<Longrightarrow> readIdx pl' = 0"
  by (auto simp: PointerList_PushLast_def Let_def push_slot_def grow_def
      split: if_splits option.splits)

interpretation store: indexed_store malloc_ok pl_flat pl_content "2 ^ 30"
  "\<lambda>l. fst (snd (PointerList_GetSize l (0, 0)))" PointerList_PushLast
  "\<lambda>l i. PointerList_Peek l i None" "\<lambda>l i. PointerList_Remove l i None"
proof
  fix m :: "'a alloc" and q :: "'a PointerList option" and x :: "'a option" and i
  assume "pl_flat q"
  then obtain pl where pl: "q = Some pl" "pl_inv pl" "readIdx pl = 0" by (rule pl_flat_cases)
  then show "fst (snd (PointerList_GetSize q (0, 0))) = length (pl_content q)"
    by (simp add: getsize_correct pl_content_def)
  show "PointerList_Peek q i None =
      (if i < length (pl_content q) then (RC_OK, pl_content q ! i) else (RC_OUT_OF_RANGE, None))"
    using pl by (simp add: peek_correct pl_content_def)
  show "(\<exists>q'. PointerList_PushLast m q x = (RC_OK, q') \<and> pl_flat q' \<and>
              pl_content q' = pl_content q @ [x]) \<or>
        PointerList_PushLast m q x = (RC_NO_MEMORY, q)"
    if "malloc_ok m" "length (pl_content q) < 2 ^ 30"
    using pushlast_correct [OF that(1) pl(2), of x] that(2) pl pushlast_readIdx
    by (fastforce simp: pl_flat_def pl_content_def)
  show "\<exists>q'. PointerList_Remove q i None = (RC_OK, pl_content q ! i, q') \<and> pl_flat q' \<and>
          pl_content q' = take i (pl_content q) @ drop (Suc i) (pl_content q)"
    if i: "i < length (pl_content q)"
  proof -
    have "pl_straight pl i" using pl by (simp add: pl_straight_def pl_inv_def)
    with remove_correct [OF pl(2), of i None] i pl show ?thesis
      by (auto simp: pl_flat_def pl_content_def)
  qed
qed

section \<open>Properties\<close>

text \<open>
  C4: pushing on a well-formed list of fewer than \<open>2 ^ 30\<close> entries appends the entry and keeps the
  list well formed, growing the buffer when it is full, or reports \<open>RC_NO_MEMORY\<close> and leaves
  the list as it was.
\<close>

theorem PushLast_appends:
  assumes "malloc_ok m" "pl_inv pl" "length (pl_list pl) < 2 ^ 30"
  shows "case PointerList_PushLast m (Some pl) p of
           (RC_OK, Some pl') \<Rightarrow> pl_inv pl' \<and> pl_list pl' = pl_list pl @ [p]
         | (c, l) \<Rightarrow> c = RC_NO_MEMORY \<and> l = Some pl"
  using pushlast_correct [OF assms(1,2), of p] assms(3) by auto

text \<open>
  C30: the list is a queue. Whatever was already in it, once a sequence of pushes has
  succeeded, popping everything returns the old entries and then the new ones, in the order
  they were pushed, and leaves the list empty.
\<close>

theorem PointerList_fifo:
  assumes "malloc_ok m" "pl_inv pl" "length (pl_list pl) + length xs \<le> 2 ^ 30"
    and "push_all PointerList_PushLast m (Some pl) xs = Some l"
  shows "\<exists>l'. pop_n (\<lambda>l. PointerList_PopFirst l None) (length (pl_list pl) + length xs) l =
                (pl_list pl @ xs, l') \<and> pl_content l' = []"
  using pl.fifo_order [of m "Some pl" xs l] assms by (auto simp: pl_ok_def pl_content_def)

definition sample_malloc :: "'p alloc" where
  "sample_malloc n = (if n \<le> 64 then Some (replicate n None) else None)"

lemma sample_malloc_ok: "malloc_ok sample_malloc"
  by (simp add: malloc_ok_def sample_malloc_def)

text \<open>A wrapped list of three entries, in a buffer of four slots.\<close>

definition sample_list :: "nat PointerList" where
  "sample_list = \<lparr>pl_magic = POINTERLIST_MAGIC_ID, allocatedSize = 4, nbOfElements = 3,
     buffer = [Some 12, Some 13, None, Some 11], readIdx = 3, writeIdx = 2\<rparr>"

lemma sample_list_inv: "pl_inv sample_list"
  by (simp add: pl_inv_def sample_list_def)

lemma sample_list_list: "pl_list sample_list = [Some 11, Some 12, Some 13]"
  by (simp add: pl_list_def pl_pos_def sample_list_def upt_rec)

theorem PushLast_appends_witness:
  "malloc_ok (sample_malloc :: nat alloc) \<and> pl_inv sample_list \<and>
   (case PointerList_PushLast sample_malloc (Some sample_list) (Some 14) of
      (RC_OK, Some pl') \<Rightarrow> pl_inv pl' \<and> pl_list pl' = pl_list sample_list @ [Some 14]
    | (c, l) \<Rightarrow> c = RC_NO_MEMORY \<and> l = Some sample_list)"
  using PushLast_appends [OF sample_malloc_ok sample_list_inv, of "Some 14"]
    sample_malloc_ok sample_list_inv
  by (simp add: sample_list_list)

theorem PointerList_fifo_witness:
  "\<exists>l l'. push_all PointerList_PushLast sample_malloc (Some sample_list) [Some 14, Some 15] = Some l \<and>
     pop_n (\<lambda>l. PointerList_PopFirst l None) 5 l =
       ([Some 11, Some 12, Some 13, Some 14, Some 15], l') \<and> pl_content l' = []"
proof -
  have "push_all PointerList_PushLast sample_malloc (Some sample_list) [Some 14, Some 15] \<noteq> None"
    by (simp add: PointerList_PushLast_def bad_context_def sample_list_def sample_malloc_def
        u32_def Let_def push_slot_def grow_def memcpy_def)
  then obtain l where l:
    "push_all PointerList_PushLast sample_malloc (Some sample_list) [Some 14, Some 15] = Some l"
    by auto
  have n: "length [Some 11, Some 12, Some 13] + length [Some 14, Some (15::nat)] = 5"
    by simp
  have "length (pl_list sample_list) + length [Some 14, Some (15::nat)] \<le> 2 ^ 30"
    by (simp add: sample_list_list)
  from PointerList_fifo [OF sample_malloc_ok sample_list_inv this l] l show ?thesis
    unfolding n sample_list_list append.simps by blast
qed

text \<open>
  Removal by index deletes exactly that entry and returns it, keeping the order of the
  others, provided the entries behind it do not wrap around the end of the buffer.
\<close>

theorem Remove_deletes:
  assumes "pl_inv pl" "k < length (pl_list pl)" "pl_straight pl k"
  shows "\<exists>pl'. PointerList_Remove (Some pl) k pointer = (RC_OK, pl_list pl ! k, Some pl') \<and>
               pl_inv pl' \<and> pl_list pl' = take k (pl_list pl) @ drop (Suc k) (pl_list pl)"
  using remove_correct [OF assms, of pointer] by blast

theorem Remove_deletes_witness:
  "pl_inv sample_list \<and> pl_straight sample_list 1 \<and>
   (\<exists>pl'. PointerList_Remove (Some sample_list) 1 None = (RC_OK, Some 12, Some pl') \<and>
          pl_list pl' = [Some 11, Some 13])"
proof -
  have s: "pl_straight sample_list 1" by (simp add: pl_straight_def sample_list_def)
  have "1 < length (pl_list sample_list)" by (simp add: sample_list_list)
  from Remove_deletes [OF sample_list_inv this s, of None] s sample_list_inv show ?thesis
    by (auto simp: sample_list_list)
qed

text \<open>
  When two entries behind the removed one lie beyond the wrap-around, the loop skips
  slot 0 (its index is reset to 0 and then incremented): removing the first of the entries
  11, 12, 13 leaves 12, 12 instead of 12, 13, and entry 13 is lost.
\<close>

theorem Remove_loses_wrapped_entry:
  "pl_inv sample_list \<and> pl_list sample_list = [Some 11, Some 12, Some 13] \<and>
   (\<exists>pl'. PointerList_Remove (Some sample_list) 0 None = (RC_OK, Some 11, Some pl') \<and>
          pl_list pl' = [Some 12, Some 12])"
proof -
  have "remove_loop 2 3 4 [Some 12, Some 13, None, Some 11] = [Some (12::nat), None, None, Some 12]"
    by (simp add: numeral_2_eq_2)
  then have "PointerList_Remove (Some sample_list) 0 None =
    (RC_OK, Some 11, Some (sample_list\<lparr>nbOfElements := 2, writeIdx := 1,
       buffer := [Some 12, None, None, Some 12]\<rparr>))"
    by (simp add: PointerList_Remove_def bad_context_def sample_list_def Let_def u32_def)
  then show ?thesis
    using sample_list_inv sample_list_list
    by (simp add: pl_list_def pl_pos_def sample_list_def upt_rec)
qed

end
