(* ===== verification/Swi_Dset.thy ===== *)
theory Swi_Dset
  imports Pointer_List
begin

text \<open>
  \<open>cfwk/racon/swi_dset.c\<close>: the data sets in which the C connector libraries hand received
  data to the application. A set is a \<open>PointerList\<close> of named, typed elements with a current
  element; it can be walked with \<open>swi_dset_Next\<close> or queried by name. Elements are immutable
  once pushed, so a pointer to one is modelled by the element itself. Doubles are their
  64-bit patterns, names and strings are C strings without their terminator, and \<open>NULL\<close> is
  \<open>None\<close>. The outcome of the element's \<open>malloc\<close> is the argument \<open>mt\<close>.

  The list of elements \<open>ds_elems\<close> is the abstract set; every operation is related to it
  through the interface \<open>indexed_store\<close> of the pointer list.
\<close>

section \<open>Elements and sets\<close>

datatype swi_dset_Type_t =
    SWI_DSET_UNSUPPORTED | SWI_DSET_NIL | SWI_DSET_INTEGER | SWI_DSET_FLOAT
  | SWI_DSET_STRING | SWI_DSET_BOOL

datatype u_value = Unset | Ival "64 word" | Dval "64 word" | Sval string | Bval bool

record swi_dset_Element =
  elt_type :: swi_dset_Type_t
  elt_name :: string
  elt_val :: u_value

record swi_dset_Iterator =
  ds_magic :: nat
  currentIndex :: nat
  currentElt :: "swi_dset_Element option"
  ds_list :: "swi_dset_Element PointerList option"

definition DSET_MAGIC_ID :: nat where
  "DSET_MAGIC_ID = 0xAFA1AFA1"

definition DSET_INIT_INDEX :: nat where
  "DSET_INIT_INDEX = 2 ^ 32 - 1"

definition bad_set :: "swi_dset_Iterator option \<Rightarrow> bool" where
  "bad_set s = (case s of None \<Rightarrow> True | Some d \<Rightarrow> ds_magic d \<noteq> DSET_MAGIC_ID)"

section \<open>Filling a set\<close>

text \<open>
  The value stored for a type. Strings are cut at the length given by the caller; nil and
  unsupported elements keep their value unset.
\<close>

definition dset_value :: "swi_dset_Type_t \<Rightarrow> u_value \<Rightarrow> nat \<Rightarrow> u_value" where
  "dset_value ty data dataLength =
     (case ty of
        SWI_DSET_INTEGER \<Rightarrow> data
      | SWI_DSET_FLOAT \<Rightarrow> data
      | SWI_DSET_STRING \<Rightarrow> (case data of Sval s \<Rightarrow> Sval (take (dataLength - 1) s) | _ \<Rightarrow> data)
      | SWI_DSET_BOOL \<Rightarrow> data
      | _ \<Rightarrow> Unset)"

definition dset_PushData ::
  "bool \<Rightarrow> swi_dset_Element alloc \<Rightarrow> swi_dset_Iterator option \<Rightarrow> string option \<Rightarrow> nat \<Rightarrow> u_value \<Rightarrow>
   nat \<Rightarrow> swi_dset_Type_t \<Rightarrow> rc_ReturnCode_t \<times> swi_dset_Iterator option" where
  "dset_PushData mt m s name nameLength data dataLength ty =
     (if bad_set s then (RC_BAD_FORMAT, s)
      else if name = None \<or> nameLength = 0 then (RC_BAD_PARAMETER, s)
      else if \<not> mt then (RC_NO_MEMORY, s)
      else let t = \<lparr>elt_type = ty, elt_name = take nameLength (the name),
                    elt_val = dset_value ty data dataLength\<rparr>;
               (res, l) = PointerList_PushLast m (ds_list (the s)) (Some t)
           in (res, Some ((the s)\<lparr>ds_list := l\<rparr>)))"

definition swi_dset_PushInteger where
  "swi_dset_PushInteger mt m s name nameLength v =
     dset_PushData mt m s name nameLength (Ival v) 0 SWI_DSET_INTEGER"

definition swi_dset_PushFloat where
  "swi_dset_PushFloat mt m s name nameLength v =
     dset_PushData mt m s name nameLength (Dval v) 0 SWI_DSET_FLOAT"

definition swi_dset_PushString where
  "swi_dset_PushString mt m s name nameLength v valLength =
     dset_PushData mt m s name nameLength (Sval v) (valLength + 1) SWI_DSET_STRING"

definition swi_dset_PushNull where
  "swi_dset_PushNull mt m s name nameLength =
     dset_PushData mt m s name nameLength Unset 0 SWI_DSET_NIL"

definition swi_dset_PushBool where
  "swi_dset_PushBool mt m s name nameLength v =
     dset_PushData mt m s name nameLength (Bval v) 0 SWI_DSET_BOOL"

definition swi_dset_PushUnsupported where
  "swi_dset_PushUnsupported mt m s name nameLength =
     dset_PushData mt m s name nameLength Unset 0 SWI_DSET_UNSUPPORTED"

text \<open>
  \<open>ms\<close>: the structure can be allocated; \<open>m0\<close>, \<open>m\<close>: the allocations of the list. On failure
  the out parameter keeps its value \<open>out\<close>.
\<close>

definition swi_dset_Create ::
  "bool \<Rightarrow> bool \<Rightarrow> swi_dset_Element alloc \<Rightarrow> swi_dset_Iterator option \<Rightarrow>
   rc_ReturnCode_t \<times> swi_dset_Iterator option" where
  "swi_dset_Create ms m0 m out =
     (if \<not> ms then (RC_NO_MEMORY, out)
      else case PointerList_Create m0 m 0 of
             (res, l) \<Rightarrow>
               if res \<noteq> RC_OK then (res, out)
               else (res, Some \<lparr>ds_magic = DSET_MAGIC_ID, currentIndex = DSET_INIT_INDEX,
                                currentElt = None, ds_list = l\<rparr>))"

section \<open>Searching and removing by name\<close>

text \<open>The search loop: \<open>n\<close> indices are left, \<open>peek\<close> reads one entry of the list.\<close>

fun find_loop ::
  "(nat \<Rightarrow> swi_dset_Element option) \<Rightarrow> string \<Rightarrow> nat \<Rightarrow> nat \<Rightarrow> (swi_dset_Element \<times> nat) option" where
  "find_loop peek name i 0 = None"
| "find_loop peek name i (Suc n) =
     (case peek i of
        Some e \<Rightarrow> if strcmp (elt_name e) name = 0 then Some (e, i)
                  else find_loop peek name (Suc i) n
      | None \<Rightarrow> find_loop peek name (Suc i) n)"

definition findByName ::
  "swi_dset_Iterator option \<Rightarrow> string option \<Rightarrow> rc_ReturnCode_t \<times> (swi_dset_Element \<times> nat) option" where
  "findByName data namePtr =
     (if bad_set data then (RC_BAD_FORMAT, None)
      else if namePtr = None \<or> length (the namePtr) = 0 then (RC_BAD_PARAMETER, None)
      else case PointerList_GetSize (ds_list (the data)) (0, 0) of
             (res, nb, asize) \<Rightarrow>
               if res \<noteq> RC_OK then (res, None)
               else case find_loop (\<lambda>i. snd (PointerList_Peek (ds_list (the data)) i None))
                           (the namePtr) 0 nb of
                      Some (e, i) \<Rightarrow> (RC_OK, Some (e, i))
                    | None \<Rightarrow> (RC_NOT_FOUND, None))"

definition swi_dset_RemoveByName ::
  "swi_dset_Iterator option \<Rightarrow> string option \<Rightarrow>
   rc_ReturnCode_t \<times> swi_dset_Element option \<times> swi_dset_Iterator option" where
  "swi_dset_RemoveByName data namePtr =
     (case findByName data namePtr of
        (res, r) \<Rightarrow>
          if res \<noteq> RC_OK then (res, None, data)
          else case PointerList_Remove (ds_list (the data)) (snd (the r)) None of
                 (res, tmp, l) \<Rightarrow>
                   (res, tmp, Some ((the data)\<lparr>currentElt := None,
                      currentIndex := DSET_INIT_INDEX, ds_list := l\<rparr>)))"

text \<open>The set no longer exists after a successful \<open>swi_dset_Destroy\<close>.\<close>

definition swi_dset_Destroy ::
  "swi_dset_Iterator option \<Rightarrow> rc_ReturnCode_t \<times> swi_dset_Iterator option" where
  "swi_dset_Destroy data =
     (if bad_set data then (RC_BAD_FORMAT, data)
      else case PointerList_GetSize (ds_list (the data)) (0, 0) of
             (res, nb, asize) \<Rightarrow>
               if res \<noteq> RC_OK
               then (res, Some ((the data)\<lparr>ds_magic := 2 ^ 32 - 1 - ds_magic (the data)\<rparr>))
               else (fst (PointerList_Destroy (ds_list (the data))), None))"

section \<open>Iteration\<close>

definition swi_dset_Next ::
  "swi_dset_Iterator option \<Rightarrow> rc_ReturnCode_t \<times> swi_dset_Iterator option" where
  "swi_dset_Next data =
     (if bad_set data then (RC_BAD_FORMAT, data)
      else let d = the data in
        case PointerList_GetSize (ds_list d) (0, 0) of
          (res, nbElts, asize) \<Rightarrow>
            if res \<noteq> RC_OK then (RC_UNSPECIFIED_ERROR, data)
            else let nextIndex = (if currentIndex d = DSET_INIT_INDEX then 0
                                  else u32 (currentIndex d + 1)) in
              if nbElts \<le> nextIndex then (RC_NOT_FOUND, data)
              else case PointerList_Peek (ds_list d) nextIndex (currentElt d) of
                     (res, e) \<Rightarrow>
                       let d' = d\<lparr>currentElt := e\<rparr> in
                       if res \<noteq> RC_OK then (res, Some d')
                       else if e = None then (RC_UNSPECIFIED_ERROR, Some d')
                       else (RC_OK, Some (d'\<lparr>currentIndex := nextIndex\<rparr>)))"

definition swi_dset_Rewind ::
  "swi_dset_Iterator option \<Rightarrow> rc_ReturnCode_t \<times> swi_dset_Iterator option" where
  "swi_dset_Rewind data =
     (if bad_set data then (RC_BAD_FORMAT, data)
      else (RC_OK, Some ((the data)\<lparr>currentIndex := DSET_INIT_INDEX\<rparr>)))"

definition swi_dset_GetName :: "swi_dset_Iterator option \<Rightarrow> string option" where
  "swi_dset_GetName data =
     (if bad_set data then None else map_option elt_name (currentElt (the data)))"

definition swi_dset_GetType :: "swi_dset_Iterator option \<Rightarrow> swi_dset_Type_t" where
  "swi_dset_GetType data =
     (if bad_set data \<or> currentElt (the data) = None then SWI_DSET_UNSUPPORTED
      else elt_type (the (currentElt (the data))))"

text \<open>The element a typed accessor may read: the current one, when it has that type.\<close>

definition current_of :: "swi_dset_Iterator option \<Rightarrow> swi_dset_Type_t \<Rightarrow> u_value option" where
  "current_of data ty =
     (if bad_set data \<or> currentElt (the data) = None \<or>
         elt_type (the (currentElt (the data))) \<noteq> ty then None
      else Some (elt_val (the (currentElt (the data)))))"

definition swi_dset_ToInteger :: "swi_dset_Iterator option \<Rightarrow> 64 word" where
  "swi_dset_ToInteger data =
     (case current_of data SWI_DSET_INTEGER of Some (Ival v) \<Rightarrow> v | _ \<Rightarrow> 0)"

definition swi_dset_ToFloat :: "swi_dset_Iterator option \<Rightarrow> 64 word" where
  "swi_dset_ToFloat data =
     (case current_of data SWI_DSET_FLOAT of Some (Dval v) \<Rightarrow> v | _ \<Rightarrow> 0)"

definition swi_dset_ToString :: "swi_dset_Iterator option \<Rightarrow> string option" where
  "swi_dset_ToString data =
     (case current_of data SWI_DSET_STRING of Some (Sval v) \<Rightarrow> Some v | _ \<Rightarrow> None)"

definition swi_dset_ToBool :: "swi_dset_Iterator option \<Rightarrow> bool" where
  "swi_dset_ToBool data =
     (case current_of data SWI_DSET_BOOL of Some (Bval v) \<Rightarrow> v | _ \<Rightarrow> False)"

section \<open>Values by name\<close>

text \<open>\<open>valuePtr\<close> tells whether the out pointer is non-null; the value is \<open>None\<close> when nothing is stored.\<close>

definition getValByName ::
  "swi_dset_Iterator option \<Rightarrow> string option \<Rightarrow> bool \<Rightarrow> swi_dset_Type_t \<Rightarrow>
   rc_ReturnCode_t \<times> u_value option" where
  "getValByName data namePtr valuePtr typeValue =
     (if bad_set data then (RC_BAD_FORMAT, None)
      else if namePtr = None \<or> length (the namePtr) = 0 \<or> \<not> valuePtr then (RC_BAD_PARAMETER, None)
      else case findByName data namePtr of
             (res, r) \<Rightarrow>
               if res \<noteq> RC_OK then (res, None)
               else let elt = fst (the r) in
                 if elt_type elt \<noteq> typeValue then (RC_BAD_PARAMETER, None)
                 else (case typeValue of
                         SWI_DSET_INTEGER \<Rightarrow> (RC_OK, Some (elt_val elt))
                       | SWI_DSET_FLOAT \<Rightarrow> (RC_OK, Some (elt_val elt))
                       | SWI_DSET_STRING \<Rightarrow> (RC_OK, Some (elt_val elt))
                       | _ \<Rightarrow> (RC_BAD_FORMAT, None)))"

definition swi_dset_GetIntegerByName where
  "swi_dset_GetIntegerByName data namePtr valuePtr =
     getValByName data namePtr valuePtr SWI_DSET_INTEGER"

definition swi_dset_GetFloatByName where
  "swi_dset_GetFloatByName data namePtr valuePtr =
     getValByName data namePtr valuePtr SWI_DSET_FLOAT"

definition swi_dset_GetStringByName where
  "swi_dset_GetStringByName data namePtr valuePtr =
     getValByName data namePtr valuePtr SWI_DSET_STRING"

definition swi_dset_GetTypeByName ::
  "swi_dset_Iterator option \<Rightarrow> string option \<Rightarrow> rc_ReturnCode_t \<times> swi_dset_Type_t option" where
  "swi_dset_GetTypeByName data namePtr =
     (if bad_set data then (RC_BAD_FORMAT, None)
      else if namePtr = None \<or> length (the namePtr) = 0 then (RC_BAD_PARAMETER, None)
      else case findByName data namePtr of
             (res, r) \<Rightarrow> if res \<noteq> RC_OK then (res, None)
                         else (RC_OK, Some (elt_type (fst (the r)))))"

section \<open>The abstract set and the invariant\<close>

definition ds_elems :: "swi_dset_Iterator \<Rightarrow> swi_dset_Element list" where
  "ds_elems d = map the (pl_content (ds_list d))"

definition ds_inv :: "swi_dset_Iterator \<Rightarrow> bool" where
  "ds_inv d \<longleftrightarrow>
     ds_magic d = DSET_MAGIC_ID \<and> pl_flat (ds_list d) \<and>
     pl_content (ds_list d) = map Some (ds_elems d) \<and> length (ds_elems d) \<le> 2 ^ 30 \<and>
     list_all (\<lambda>e. c_string (elt_name e)) (ds_elems d) \<and>
     (currentIndex d = DSET_INIT_INDEX \<or> currentIndex d < length (ds_elems d))"

text \<open>The index of the first element with a name.\<close>

fun name_index :: "string \<Rightarrow> swi_dset_Element list \<Rightarrow> nat option" where
  "name_index s [] = None"
| "name_index s (e # es) = (if elt_name e = s then Some 0 else map_option Suc (name_index s es))"

lemma name_index_SomeD: "name_index s es = Some k \<Longrightarrow> k < length es \<and> elt_name (es ! k) = s"
  by (induction es arbitrary: k) (auto split: if_splits)

lemma name_index_None: "name_index s es = None \<longleftrightarrow> s \<notin> elt_name ` set es"
  by (induction es) auto

lemma name_index_append:
  "name_index s (es @ [e]) =
     (case name_index s es of
        Some k \<Rightarrow> Some k
      | None \<Rightarrow> if elt_name e = s then Some (length es) else None)"
  by (induction es) (auto split: option.splits)

lemma find_loop_list:
  assumes "\<And>j. j < length es \<Longrightarrow> peek j = Some (es ! j)"
    and "list_all (\<lambda>e. c_string (elt_name e)) es" "c_string s" "i + n = length es"
  shows "find_loop peek s i n = map_option (\<lambda>k. (es ! (i + k), i + k)) (name_index s (drop i es))"
  using assms(4)
proof (induction n arbitrary: i)
  case (Suc n)
  then have d: "drop i es = es ! i # drop (Suc i) es" and i: "i < length es"
    by (simp_all add: Cons_nth_drop_Suc)
  then have "c_string (elt_name (es ! i))" using assms(2) by (simp add: list_all_length)
  then show ?case
    using Suc.IH [of "Suc i"] Suc.prems assms(1) [OF i] assms(3) d
    by (auto simp: strcmp_eq_0 option.map_comp comp_def)
qed simp

text \<open>What the data sets need of the store of their elements.\<close>

locale element_store =
  indexed_store env_ok inv content cap store_size push peek remove
  for env_ok :: "'m \<Rightarrow> bool"
    and inv :: "'q \<Rightarrow> bool"
    and content :: "'q \<Rightarrow> swi_dset_Element option list"
    and cap store_size push peek remove
begin

lemma find_in_store:
  assumes "inv q" "content q = map Some es" "list_all (\<lambda>e. c_string (elt_name e)) es" "c_string s"
  shows "find_loop (\<lambda>i. snd (peek q i)) s 0 (store_size q) =
           map_option (\<lambda>k. (es ! k, k)) (name_index s es)"
  using assms find_loop_list [of es "\<lambda>i. snd (peek q i)" s 0 "length es"]
  by (simp add: size_law peek_law)

lemma remove_from_store:
  assumes "inv q" "content q = map Some es" "i < length es"
  shows "\<exists>q'. remove q i = (RC_OK, Some (es ! i), q') \<and> inv q' \<and>
              content q' = map Some (take i es @ drop (Suc i) es)"
  using remove_law [OF assms(1), of i] assms(2,3) by (auto simp: take_map drop_map)

end

interpretation ds: element_store malloc_ok pl_flat pl_content "2 ^ 30"
  "\<lambda>l. fst (snd (PointerList_GetSize l (0, 0)))" PointerList_PushLast
  "\<lambda>l i. PointerList_Peek l i None" "\<lambda>l i. PointerList_Remove l i None"
  by unfold_locales

lemma ds_inv_set [simp]: "ds_inv d \<Longrightarrow> \<not> bad_set (Some d)"
  by (simp add: ds_inv_def bad_set_def)

lemma ds_inv_content: "ds_inv d \<Longrightarrow> pl_content (ds_list d) = map Some (ds_elems d)"
  by (simp add: ds_inv_def)

lemma getsize_flat:
  "pl_flat l \<Longrightarrow> \<exists>a. PointerList_GetSize l (0, 0) = (RC_OK, length (pl_content l), a)"
  by (auto simp: getsize_correct pl_content_def elim!: pl_flat_cases)

lemma ds_getsize:
  "ds_inv d \<Longrightarrow> \<exists>a. PointerList_GetSize (ds_list d) (0, 0) = (RC_OK, length (ds_elems d), a)"
  using getsize_flat [of "ds_list d"] by (simp add: ds_inv_def)

lemma findByName_correct:
  assumes "ds_inv d" "c_string s" "s \<noteq> []"
  shows "findByName (Some d) (Some s) =
     (case name_index s (ds_elems d) of
        Some k \<Rightarrow> (RC_OK, Some (ds_elems d ! k, k))
      | None \<Rightarrow> (RC_NOT_FOUND, None))"
proof -
  obtain a where a: "PointerList_GetSize (ds_list d) (0, 0) = (RC_OK, length (ds_elems d), a)"
    using ds_getsize [OF assms(1)] by blast
  have "find_loop (\<lambda>i. snd (PointerList_Peek (ds_list d) i None)) s 0 (length (ds_elems d)) =
      map_option (\<lambda>k. (ds_elems d ! k, k)) (name_index s (ds_elems d))"
    using ds.find_in_store [of "ds_list d" "ds_elems d" s] assms a by (simp add: ds_inv_def)
  with a assms show ?thesis by (simp add: findByName_def split: option.splits)
qed

section \<open>Filling, querying, removing\<close>

lemma push_data_correct:
  assumes "ds_inv d" "malloc_ok m" "c_string name" "0 < nl" "length (ds_elems d) < 2 ^ 30"
  shows "(\<exists>d'. dset_PushData mt m (Some d) (Some name) nl data dl ty = (RC_OK, Some d') \<and> ds_inv d' \<and>
               ds_elems d' = ds_elems d @ [\<lparr>elt_type = ty, elt_name = take nl name,
                                            elt_val = dset_value ty data dl\<rparr>] \<and>
               currentElt d' = currentElt d \<and> currentIndex d' = currentIndex d) \<or>
         dset_PushData mt m (Some d) (Some name) nl data dl ty = (RC_NO_MEMORY, Some d)"
proof -
  let ?t = "\<lparr>elt_type = ty, elt_name = take nl name, elt_val = dset_value ty data dl\<rparr>"
  have c: "c_string (take nl name)"
    using assms(3) unfolding c_string_def list_all_iff by (meson in_set_takeD)
  have len: "length (pl_content (ds_list d)) < 2 ^ 30" and flat: "pl_flat (ds_list d)"
    using assms(1,5) by (simp_all add: ds_inv_def)
  note p = store.push_law [OF assms(2) flat len, of "Some ?t"]
  show ?thesis
  proof (cases "mt \<and> (\<exists>q. PointerList_PushLast m (ds_list d) (Some ?t) = (RC_OK, q))")
    case True
    with p obtain q where q: "PointerList_PushLast m (ds_list d) (Some ?t) = (RC_OK, q)"
      "pl_flat q" "pl_content q = pl_content (ds_list d) @ [Some ?t]" by auto
    have e: "ds_elems (d\<lparr>ds_list := q\<rparr>) = ds_elems d @ [?t]"
      using q by (simp add: ds_elems_def)
    with assms(1,5) q c have "ds_inv (d\<lparr>ds_list := q\<rparr>)"
      by (auto simp: ds_inv_def)
    with e True q assms(1,4) show ?thesis by (simp add: dset_PushData_def Let_def)
  next
    case False
    with p assms(1,4) show ?thesis by (auto simp: dset_PushData_def Let_def)
  qed
qed

lemma getValByName_correct:
  assumes "ds_inv d" "c_string s" "s \<noteq> []"
    and "ty = SWI_DSET_INTEGER \<or> ty = SWI_DSET_FLOAT \<or> ty = SWI_DSET_STRING"
  shows "getValByName (Some d) (Some s) True ty =
     (case name_index s (ds_elems d) of
        Some k \<Rightarrow> if elt_type (ds_elems d ! k) = ty then (RC_OK, Some (elt_val (ds_elems d ! k)))
                  else (RC_BAD_PARAMETER, None)
      | None \<Rightarrow> (RC_NOT_FOUND, None))"
  using assms(4) findByName_correct [OF assms(1-3)] assms(1,3)
  by (auto simp: getValByName_def Let_def split: option.splits)

lemma remove_by_name_correct:
  assumes "ds_inv d" "c_string s" "s \<noteq> []" "name_index s (ds_elems d) = Some k"
  shows "\<exists>d'. swi_dset_RemoveByName (Some d) (Some s) = (RC_OK, Some (ds_elems d ! k), Some d') \<and>
              ds_inv d' \<and> ds_elems d' = take k (ds_elems d) @ drop (Suc k) (ds_elems d) \<and>
              currentElt d' = None \<and> currentIndex d' = DSET_INIT_INDEX"
proof -
  have k: "k < length (ds_elems d)" using name_index_SomeD [OF assms(4)] by blast
  then obtain q where q: "PointerList_Remove (ds_list d) k None = (RC_OK, Some (ds_elems d ! k), q)"
    "pl_flat q" "pl_content q = map Some (take k (ds_elems d) @ drop (Suc k) (ds_elems d))"
    using ds.remove_from_store [of "ds_list d" "ds_elems d" k] assms(1) by (auto simp: ds_inv_def)
  let ?d = "d\<lparr>currentElt := None, currentIndex := DSET_INIT_INDEX, ds_list := q\<rparr>"
  have e: "ds_elems ?d = take k (ds_elems d) @ drop (Suc k) (ds_elems d)"
    using q(3) by (simp add: ds_elems_def comp_def)
  have "set (take k (ds_elems d) @ drop (Suc k) (ds_elems d)) \<subseteq> set (ds_elems d)"
    by (auto dest: in_set_takeD in_set_dropD)
  with assms(1) q e k have "ds_inv ?d"
    by (auto simp: ds_inv_def list_all_iff)
  with e q assms findByName_correct [OF assms(1-3)] show ?thesis
    by (simp add: swi_dset_RemoveByName_def)
qed

section \<open>Iteration\<close>

lemma next_correct:
  assumes "ds_inv d"
  defines "k \<equiv> (if currentIndex d = DSET_INIT_INDEX then 0 else Suc (currentIndex d))"
  shows "swi_dset_Next (Some d) =
     (if k < length (ds_elems d)
      then (RC_OK, Some (d\<lparr>currentElt := Some (ds_elems d ! k), currentIndex := k\<rparr>))
      else (RC_NOT_FOUND, Some d))"
proof -
  obtain a where a: "PointerList_GetSize (ds_list d) (0, 0) = (RC_OK, length (ds_elems d), a)"
    using ds_getsize [OF assms(1)] by blast
  obtain pl where pl: "ds_list d = Some pl" "pl_inv pl"
    using assms(1) by (auto simp: ds_inv_def elim: pl_flat_cases)
  then have "pl_list pl = map Some (ds_elems d)"
    using ds_inv_content [OF assms(1)] by (simp add: pl_content_def)
  then have p: "PointerList_Peek (ds_list d) i e =
      (if i < length (ds_elems d) then (RC_OK, Some (ds_elems d ! i)) else (RC_OUT_OF_RANGE, None))"
    for i e using pl by (simp add: peek_correct)
  have "currentIndex d \<noteq> DSET_INIT_INDEX \<Longrightarrow> u32 (currentIndex d + 1) = Suc (currentIndex d)"
    using assms(1) by (auto simp: ds_inv_def)
  with a p assms show ?thesis by (simp add: swi_dset_Next_def Let_def k_def)
qed

lemma next_inv: "ds_inv d \<Longrightarrow> swi_dset_Next (Some d) = (c, Some d') \<Longrightarrow>
  ds_inv d' \<and> ds_elems d' = ds_elems d"
  by (auto simp: next_correct ds_inv_def ds_elems_def split: if_splits)

text \<open>Walking a set: the elements that successive calls of \<open>swi_dset_Next\<close> make current.\<close>

fun ds_walk :: "nat \<Rightarrow> swi_dset_Iterator option \<Rightarrow> swi_dset_Element list \<times> rc_ReturnCode_t" where
  "ds_walk 0 data = ([], RC_OK)"
| "ds_walk (Suc n) data =
     (case swi_dset_Next data of
        (c, data') \<Rightarrow>
          if c = RC_OK then (case ds_walk n data' of (es, c') \<Rightarrow> (the (currentElt (the data')) # es, c'))
          else ([], c))"

lemma ds_walk_from:
  assumes "ds_inv d" "k = (if currentIndex d = DSET_INIT_INDEX then 0 else Suc (currentIndex d))"
    and "n = length (ds_elems d) - k"
  shows "ds_walk (Suc n) (Some d) = (drop k (ds_elems d), RC_NOT_FOUND)"
  using assms
proof (induction n arbitrary: d k)
  case 0
  then show ?case by (simp add: next_correct)
next
  case (Suc n)
  let ?d = "d\<lparr>currentElt := Some (ds_elems d ! k), currentIndex := k\<rparr>"
  have k: "k < length (ds_elems d)" using Suc.prems by simp
  then have "k \<noteq> DSET_INIT_INDEX" using Suc.prems(1) by (simp add: ds_inv_def DSET_INIT_INDEX_def)
  moreover have nx: "swi_dset_Next (Some d) = (RC_OK, Some ?d)"
    using Suc.prems k by (simp add: next_correct)
  moreover have "ds_inv ?d" "ds_elems ?d = ds_elems d"
    using next_inv [OF Suc.prems(1) nx] by auto
  moreover have "n = length (ds_elems d) - Suc k" using Suc.prems(3) by linarith
  ultimately have "ds_walk (Suc n) (Some ?d) = (drop (Suc k) (ds_elems d), RC_NOT_FOUND)"
    using Suc.IH [of ?d "Suc k"] by (simp del: ds_walk.simps)
  with nx show ?case
    by (subst ds_walk.simps) (simp add: Cons_nth_drop_Suc [OF k] del: ds_walk.simps)
qed

section \<open>Properties\<close>

lemma create_ds_inv:
  assumes "malloc_ok m" "swi_dset_Create ms m0 m out = (RC_OK, s)"
  shows "\<exists>d. s = Some d \<and> ds_inv d \<and> ds_elems d = []"
proof -
  obtain l where l: "PointerList_Create m0 m 0 = (RC_OK, l)" and
    s: "s = Some \<lparr>ds_magic = DSET_MAGIC_ID, currentIndex = DSET_INIT_INDEX,
                   currentElt = None, ds_list = l\<rparr>"
    using assms(2) by (auto simp: swi_dset_Create_def split: if_splits prod.splits)
  from create_inv [OF assms(1) _ l] have "pl_flat l" "pl_content l = []"
    by (auto simp: pl_flat_def pl_content_def)
  with s show ?thesis by (auto simp: ds_inv_def ds_elems_def)
qed

text \<open>The states of a set: created, then changed by the operations in any order.\<close>

inductive dset_reachable :: "swi_dset_Element alloc \<Rightarrow> swi_dset_Iterator \<Rightarrow> bool" for m where
  create: "swi_dset_Create ms m0 m out = (RC_OK, Some d) \<Longrightarrow> dset_reachable m d"
| push: "dset_reachable m d \<Longrightarrow> c_string name \<Longrightarrow> length (ds_elems d) < 2 ^ 30 \<Longrightarrow>
    dset_PushData mt m (Some d) (Some name) nl data dl ty = (c, Some d') \<Longrightarrow> dset_reachable m d'"
| remove: "dset_reachable m d \<Longrightarrow> c_string name \<Longrightarrow>
    swi_dset_RemoveByName (Some d) (Some name) = (c, e, Some d') \<Longrightarrow> dset_reachable m d'"
| step: "dset_reachable m d \<Longrightarrow> swi_dset_Next (Some d) = (c, Some d') \<Longrightarrow> dset_reachable m d'"
| rewind: "dset_reachable m d \<Longrightarrow> swi_dset_Rewind (Some d) = (c, Some d') \<Longrightarrow> dset_reachable m d'"

lemma push_data_inv:
  assumes "ds_inv d" "malloc_ok m" "c_string name" "length (ds_elems d) < 2 ^ 30"
    and "dset_PushData mt m (Some d) (Some name) nl data dl ty = (c, Some d')"
  shows "ds_inv d'"
proof (cases "nl = 0")
  case True
  with assms show ?thesis by (auto simp: dset_PushData_def)
next
  case False
  then have "0 < nl" by simp
  from push_data_correct [OF assms(1-3) this assms(4), of mt data dl ty] assms(1,5)
  show ?thesis by auto
qed

lemma remove_by_name_inv:
  assumes "ds_inv d" "c_string name" "swi_dset_RemoveByName (Some d) (Some name) = (c, e, Some d')"
  shows "ds_inv d'"
proof (cases "name = []")
  case True
  with assms show ?thesis by (auto simp: swi_dset_RemoveByName_def findByName_def)
next
  case False
  show ?thesis
    using remove_by_name_correct [OF assms(1,2) False] findByName_correct [OF assms(1,2) False]
      assms(1,3)
    by (cases "name_index name (ds_elems d)") (auto simp: swi_dset_RemoveByName_def)
qed

text \<open>
  C11: a set that was created and then changed by any sequence of pushes, removals by name,
  \<open>swi_dset_Next\<close> and \<open>swi_dset_Rewind\<close> is well formed: its elements are at the start of
  the list's buffer, none is \<open>NULL\<close>, and the current index is unset or the index of an
  element.
\<close>

theorem dset_invariant:
  assumes "malloc_ok m" "dset_reachable m d"
  shows "ds_inv d"
  using assms(2)
proof (induction rule: dset_reachable.induct)
  case (create ms m0 out d)
  then show ?case using create_ds_inv [OF assms(1)] by blast
next
  case (push d name mt nl data dl ty c d')
  then show ?case using push_data_inv [OF _ assms(1)] by blast
next
  case (remove d name c e d')
  then show ?case using remove_by_name_inv by blast
next
  case (step d c d')
  then show ?case using next_inv by blast
next
  case (rewind d c d')
  then show ?case by (auto simp: swi_dset_Rewind_def ds_inv_def ds_elems_def)
qed

text \<open>
  An integer, float or string pushed under a name the set does not hold yet is what the
  query by that name and type returns, and every other query answers as before.
\<close>

theorem dset_push_then_get:
  assumes "ds_inv d" "malloc_ok m" "c_string name" "0 < nl" "length (ds_elems d) < 2 ^ 30"
    and "dset_PushData mt m (Some d) (Some name) nl data dl ty = (RC_OK, s)"
    and "ty = SWI_DSET_INTEGER \<or> ty = SWI_DSET_FLOAT \<or> ty = SWI_DSET_STRING"
    and "name \<noteq> []" "take nl name \<notin> elt_name ` set (ds_elems d)"
    and "c_string q" "q \<noteq> []"
  shows "getValByName s (Some q) True ty =
     (if q = take nl name then (RC_OK, Some (dset_value ty data dl))
      else getValByName (Some d) (Some q) True ty)"
proof -
  let ?t = "\<lparr>elt_type = ty, elt_name = take nl name, elt_val = dset_value ty data dl\<rparr>"
  obtain d' where d': "s = Some d'" "ds_inv d'" "ds_elems d' = ds_elems d @ [?t]"
    using push_data_correct [OF assms(1-5), of mt data dl ty] assms(6) by auto
  have "name_index (take nl name) (ds_elems d) = None"
    using assms(9) by (simp add: name_index_None)
  then show ?thesis
    using getValByName_correct [OF d'(2) assms(10,11,7)] getValByName_correct [OF assms(1,10,11,7)] d'
    by (auto simp: name_index_append nth_append dest: name_index_SomeD split: option.splits)
qed

text \<open>
  Removing a name that the set holds takes out the first element with that name and no
  other, hands it to the caller, and restarts the iteration.
\<close>

theorem dset_remove_by_name:
  assumes "ds_inv d" "c_string s" "s \<noteq> []" "ds_elems d = es @ e # fs" "elt_name e = s"
    and "s \<notin> elt_name ` set es"
  shows "\<exists>d'. swi_dset_RemoveByName (Some d) (Some s) = (RC_OK, Some e, Some d') \<and>
              ds_elems d' = es @ fs \<and> swi_dset_GetName (Some d') = None \<and>
              currentIndex d' = DSET_INIT_INDEX"
proof -
  have "name_index s (es @ e # fs) = Some (length es)"
    using assms(5,6) by (induction es) auto
  with remove_by_name_correct [OF assms(1-3), of "length es"] assms(4) show ?thesis
    by (auto simp: swi_dset_GetName_def)
qed

text \<open>
  C31: after \<open>swi_dset_Rewind\<close>, successive calls of \<open>swi_dset_Next\<close> make every element of the
  set current exactly once, in the order they were pushed, and the call after the last one
  answers \<open>RC_NOT_FOUND\<close>.
\<close>

theorem dset_iteration_complete:
  assumes "ds_inv d"
  shows "ds_walk (Suc (length (ds_elems d))) (snd (swi_dset_Rewind (Some d))) =
           (ds_elems d, RC_NOT_FOUND)"
proof -
  let ?d = "d\<lparr>currentIndex := DSET_INIT_INDEX\<rparr>"
  have "ds_inv ?d" "ds_elems ?d = ds_elems d"
    using assms by (simp_all add: ds_inv_def ds_elems_def)
  with ds_walk_from [of ?d 0 "length (ds_elems d)"] assms show ?thesis
    by (simp add: swi_dset_Rewind_def)
qed


section \<open>Witnesses\<close>

definition sample_int :: swi_dset_Element where
  "sample_int = \<lparr>elt_type = SWI_DSET_INTEGER, elt_name = ''a'', elt_val = Ival 7\<rparr>"

definition sample_str :: swi_dset_Element where
  "sample_str = \<lparr>elt_type = SWI_DSET_STRING, elt_name = ''b'', elt_val = Sval ''x''\<rparr>"

definition sample_dset :: swi_dset_Iterator where
  "sample_dset = \<lparr>ds_magic = DSET_MAGIC_ID, currentIndex = 1, currentElt = Some sample_str,
     ds_list = Some \<lparr>pl_magic = POINTERLIST_MAGIC_ID, allocatedSize = 4, nbOfElements = 2,
       buffer = [Some sample_int, Some sample_str, None, None], readIdx = 0, writeIdx = 2\<rparr>\<rparr>"

lemma sample_dset_elems: "ds_elems sample_dset = [sample_int, sample_str]"
  by (simp add: ds_elems_def sample_dset_def pl_content_def pl_list_def pl_pos_def upt_rec)

lemma sample_dset_inv: "ds_inv sample_dset"
  unfolding ds_inv_def sample_dset_elems
  by (simp add: sample_dset_def pl_content_def pl_list_def pl_pos_def upt_rec pl_flat_def pl_inv_def
      sample_int_def sample_str_def)

theorem dset_invariant_witness:
  "malloc_ok (sample_malloc :: swi_dset_Element alloc) \<and>
   (\<exists>d. dset_reachable sample_malloc d \<and> ds_inv d)"
proof -
  have "\<exists>d. swi_dset_Create True True (sample_malloc :: swi_dset_Element alloc) None = (RC_OK, Some d)"
    by (simp add: swi_dset_Create_def PointerList_Create_def sample_malloc_def)
  then obtain d where "dset_reachable sample_malloc d"
    using dset_reachable.create by blast
  with dset_invariant [OF sample_malloc_ok this] sample_malloc_ok show ?thesis by blast
qed

theorem dset_push_then_get_witness:
  "\<exists>s. dset_PushData True sample_malloc (Some sample_dset) (Some ''c'') 1 (Ival 9) 0 SWI_DSET_INTEGER
         = (RC_OK, s) \<and>
       getValByName s (Some ''c'') True SWI_DSET_INTEGER = (RC_OK, Some (Ival 9)) \<and>
       getValByName s (Some ''a'') True SWI_DSET_INTEGER =
         getValByName (Some sample_dset) (Some ''a'') True SWI_DSET_INTEGER"
proof -
  have "\<exists>s. dset_PushData True sample_malloc (Some sample_dset) (Some ''c'') 1 (Ival 9) 0
         SWI_DSET_INTEGER = (RC_OK, s)"
    by (simp add: dset_PushData_def bad_set_def sample_dset_def PointerList_PushLast_def
        bad_context_def Let_def u32_def)
  then obtain s where s: "dset_PushData True sample_malloc (Some sample_dset) (Some ''c'') 1 (Ival 9) 0
         SWI_DSET_INTEGER = (RC_OK, s)" by blast
  have len: "length (ds_elems sample_dset) < 2 ^ 30" by (simp add: sample_dset_elems)
  have new: "take 1 ''c'' \<notin> elt_name ` set (ds_elems sample_dset)"
    by (simp add: sample_dset_elems sample_int_def sample_str_def)
  have c: "c_string ''c''" "c_string ''a''" by simp_all
  note g = dset_push_then_get [OF sample_dset_inv sample_malloc_ok c(1) _ len s _ _ new]
  from g [of "''c''"] g [of "''a''"] c s show ?thesis by (simp add: dset_value_def)
qed

theorem dset_remove_by_name_witness:
  "ds_inv sample_dset \<and>
   (\<exists>d'. swi_dset_RemoveByName (Some sample_dset) (Some ''a'') = (RC_OK, Some sample_int, Some d') \<and>
         ds_elems d' = [sample_str] \<and> swi_dset_GetName (Some d') = None \<and>
         currentIndex d' = DSET_INIT_INDEX)"
  using dset_remove_by_name [OF sample_dset_inv, of "''a''" "[]" sample_int "[sample_str]"]
    sample_dset_inv
  by (simp add: sample_dset_elems sample_int_def)

theorem dset_iteration_complete_witness:
  "ds_inv sample_dset \<and>
   ds_walk 3 (snd (swi_dset_Rewind (Some sample_dset))) = ([sample_int, sample_str], RC_NOT_FOUND)"
proof -
  have "Suc (length (ds_elems sample_dset)) = 3" by (simp add: sample_dset_elems)
  with dset_iteration_complete [OF sample_dset_inv] sample_dset_inv show ?thesis
    by (simp only: sample_dset_elems simp_thms)
qed

end
