(* ===== verification/Bysant_Common.thy ===== *)
theory Bysant_Common
  imports C_Library
begin

text \<open>
  What the Bysant serializer and deserializer share: the data contexts, the kinds of stack
  frames, the opcode and limit tables of \<open>libs/bysant/bysant_common.c\<close>, and the collection
  of known classes of \<open>libs/bysant/bysant_class.c\<close>.

  Context ids are numbers, as the deserializer reads them from the stream as octets. Opcodes
  and limits are \<open>int\<close>, the type C computes with; every octet written is reduced to
  \<open>uint8_t\<close> by the writer. A class definition is a record with its address, in bytes,
  because \<open>bs_classcoll_set\<close> computes with it; \<open>None\<close> is an access outside the array of
  classes or through a null pointer.
\<close>

section \<open>Contexts and frames\<close>

definition BS_CTXID_GLOBAL :: nat where "BS_CTXID_GLOBAL = 0"
definition BS_CTXID_UNSIGNED_OR_STRING :: nat where "BS_CTXID_UNSIGNED_OR_STRING = 1"
definition BS_CTXID_NUMBER :: nat where "BS_CTXID_NUMBER = 2"
definition BS_CTXID_INT32 :: nat where "BS_CTXID_INT32 = 3"
definition BS_CTXID_FLOAT :: nat where "BS_CTXID_FLOAT = 4"
definition BS_CTXID_DOUBLE :: nat where "BS_CTXID_DOUBLE = 5"
definition BS_CTXID_LIST_OR_MAP :: nat where "BS_CTXID_LIST_OR_MAP = 6"
definition BS_CTXID_LAST :: nat where "BS_CTXID_LAST = 7"
definition BS_CTXID_CHUNKED :: nat where "BS_CTXID_CHUNKED = 256"
definition BS_CTXID_OBJECT :: nat where "BS_CTXID_OBJECT = 257"

lemmas ctxid_defs = BS_CTXID_GLOBAL_def BS_CTXID_UNSIGNED_OR_STRING_def BS_CTXID_NUMBER_def
  BS_CTXID_INT32_def BS_CTXID_FLOAT_def BS_CTXID_DOUBLE_def BS_CTXID_LIST_OR_MAP_def
  BS_CTXID_LAST_def BS_CTXID_CHUNKED_def BS_CTXID_OBJECT_def

datatype bs_stackframekind_t =
  BS_FTOP | BS_FMAP | BS_FZMAP | BS_FOBJECT | BS_FLIST | BS_FZLIST | BS_FCHUNKED | BS_FCLASSDEF

section \<open>Encodings\<close>

record bs_coll_encoding_t =
  empty_opcode :: int
  variable_typed_opcode :: int
  variable_untyped_opcode :: int
  coll_small_limit :: int
  small_typed_opcode :: int
  small_untyped_opcode :: int
  long_typed_opcode :: int
  long_untyped_opcode :: int
  fixed_kind :: bs_stackframekind_t
  variable_kind :: bs_stackframekind_t

record bs_string_encoding_t =
  small_limit :: int
  small_opcode :: int
  medium_limit :: int
  medium_opcode :: int
  large_limit :: int
  large_opcode :: int
  chunked_opcode :: int

record bs_integer_encoding_t =
  tiny_min :: int
  tiny_max :: int
  tiny_zero_opcode :: int
  small_min :: int
  small_max :: int
  small_neg_opcode :: int
  small_pos_opcode :: int
  medium_min :: int
  medium_max :: int
  medium_neg_opcode :: int
  medium_pos_opcode :: int
  large_min :: int
  large_max :: int
  large_neg_opcode :: int
  large_pos_opcode :: int
  last_large_neg_opcode :: int
  int32_opcode :: int
  int64_opcode :: int

definition BS_GLOBAL_LIST :: bs_coll_encoding_t where
  "BS_GLOBAL_LIST = \<lparr>empty_opcode = 0x2a, variable_typed_opcode = 0x40, variable_untyped_opcode = 0x35,
     coll_small_limit = 9, small_typed_opcode = 0x36, small_untyped_opcode = 0x2b,
     long_typed_opcode = 0x3f, long_untyped_opcode = 0x34, fixed_kind = BS_FLIST, variable_kind = BS_FZLIST\<rparr>"

definition BS_GLOBAL_MAP :: bs_coll_encoding_t where
  "BS_GLOBAL_MAP = \<lparr>empty_opcode = 0x41, variable_typed_opcode = 0x57, variable_untyped_opcode = 0x4c,
     coll_small_limit = 9, small_typed_opcode = 0x4d, small_untyped_opcode = 0x42,
     long_typed_opcode = 0x56, long_untyped_opcode = 0x4b, fixed_kind = BS_FMAP, variable_kind = BS_FZMAP\<rparr>"

definition BS_LISTMAP_LIST :: bs_coll_encoding_t where
  "BS_LISTMAP_LIST = \<lparr>empty_opcode = 0x01, variable_typed_opcode = 0x7d, variable_untyped_opcode = 0x3f,
     coll_small_limit = 60, small_typed_opcode = 0x40, small_untyped_opcode = 0x02,
     long_typed_opcode = 0x7c, long_untyped_opcode = 0x3e, fixed_kind = BS_FLIST, variable_kind = BS_FZLIST\<rparr>"

definition BS_LISTMAP_MAP :: bs_coll_encoding_t where
  "BS_LISTMAP_MAP = \<lparr>empty_opcode = 0x83, variable_typed_opcode = 0xff, variable_untyped_opcode = 0xc1,
     coll_small_limit = 60, small_typed_opcode = 0xc2, small_untyped_opcode = 0x84,
     long_typed_opcode = 0xfe, long_untyped_opcode = 0xc0, fixed_kind = BS_FMAP, variable_kind = BS_FZMAP\<rparr>"

definition BS_GLOBAL_STRING :: bs_string_encoding_t where
  "BS_GLOBAL_STRING = \<lparr>small_limit = 32, small_opcode = 0x03, medium_limit = 1056, medium_opcode = 0x24,
     large_limit = 66592, large_opcode = 0x28, chunked_opcode = 0x29\<rparr>"

definition BS_UIS_STRING :: bs_string_encoding_t where
  "BS_UIS_STRING = \<lparr>small_limit = 47, small_opcode = 0x01, medium_limit = 2095, medium_opcode = 0x31,
     large_limit = 67631, large_opcode = 0x39, chunked_opcode = 0x3A\<rparr>"

definition BS_GLOBAL_INTEGER :: bs_integer_encoding_t where
  "BS_GLOBAL_INTEGER = \<lparr>tiny_min = -31, tiny_max = 64, tiny_zero_opcode = 0x9f,
     small_min = -2079, small_max = 2112, small_neg_opcode = 0xe8, small_pos_opcode = 0xe0,
     medium_min = -264223, medium_max = 264256, medium_neg_opcode = 0xf4, medium_pos_opcode = 0xf0,
     large_min = -33818655, large_max = 33818688, large_neg_opcode = 0xfa, large_pos_opcode = 0xf8,
     last_large_neg_opcode = 0xfb, int32_opcode = 0xfc, int64_opcode = 0xfd\<rparr>"

definition BS_NUMBER_INTEGER :: bs_integer_encoding_t where
  "BS_NUMBER_INTEGER = \<lparr>tiny_min = -97, tiny_max = 97, tiny_zero_opcode = 0x62,
     small_min = -4193, small_max = 4193, small_neg_opcode = 0xd4, small_pos_opcode = 0xc4,
     medium_min = -528481, medium_max = 528481, medium_neg_opcode = 0xec, medium_pos_opcode = 0xe4,
     large_min = -67637345, large_max = 67637345, large_neg_opcode = 0xf8, large_pos_opcode = 0xf4,
     last_large_neg_opcode = 0xfb, int32_opcode = 0xfc, int64_opcode = 0xfd\<rparr>"

lemmas coll_enc_defs = BS_GLOBAL_LIST_def BS_GLOBAL_MAP_def BS_LISTMAP_LIST_def BS_LISTMAP_MAP_def
lemmas string_enc_defs = BS_GLOBAL_STRING_def BS_UIS_STRING_def
lemmas integer_enc_defs = BS_GLOBAL_INTEGER_def BS_NUMBER_INTEGER_def

text \<open>Limits and opcodes of unsigned integers, and the tokens of the global and number contexts.\<close>

definition BS_UTI_MAX :: int where "BS_UTI_MAX = 139"
definition BS_USI_MAX :: int where "BS_USI_MAX = 8331"
definition BS_UMI_MAX :: int where "BS_UMI_MAX = 1056907"
definition BS_ULI_MAX :: int where "BS_ULI_MAX = 135274635"
definition BS_G_NULL :: byte where "BS_G_NULL = 0"
definition BS_G_FLOAT32 :: byte where "BS_G_FLOAT32 = 0xFE"
definition BS_G_FLOAT64 :: byte where "BS_G_FLOAT64 = 0xFF"
definition BS_N_NULL :: byte where "BS_N_NULL = 0"
definition BS_N_FLOAT32 :: byte where "BS_N_FLOAT32 = 0xFE"
definition BS_N_FLOAT64 :: byte where "BS_N_FLOAT64 = 0xFF"

lemmas uint_limit_defs = BS_UTI_MAX_def BS_USI_MAX_def BS_UMI_MAX_def BS_ULI_MAX_def
lemmas token_defs = BS_G_NULL_def BS_G_FLOAT32_def BS_G_FLOAT64_def
  BS_N_NULL_def BS_N_FLOAT32_def BS_N_FLOAT64_def

section \<open>Classes\<close>

datatype bs_classmode_t = BS_CLASS_MANAGED | BS_CLASS_EXTERNAL

record bs_field_t =
  field_name :: "bytes option"
  field_ctxid :: nat

record bs_class_t =
  classid :: nat
  classname :: "bytes option"
  nfields :: int
  class_mode :: bs_classmode_t
  class_fields :: "bs_field_t list"
  class_addr :: int

record bs_classcoll_t =
  classes :: "bs_class_t list"
  nclasses :: nat

text \<open>A C string ends at its first null octet.\<close>

definition cstr :: "bytes \<Rightarrow> bytes" where
  "cstr s = takeWhile (\<lambda>b. b \<noteq> 0) s"

definition bs_classcoll_init :: bs_classcoll_t where
  "bs_classcoll_init = \<lparr>classes = [], nclasses = 0\<rparr>"

text \<open>
  \<open>bs_classcoll_reset\<close> frees the array and nulls the pointer; the count stays. Walking
  \<open>nclasses\<close> entries of a null array is an access fault.
\<close>

definition bs_classcoll_reset :: "bs_classcoll_t \<Rightarrow> bs_classcoll_t option" where
  "bs_classcoll_reset coll =
     (if nclasses coll \<le> length (classes coll) then Some (coll\<lparr>classes := []\<rparr>) else None)"

text \<open>The comparison is an \<open>unsigned int\<close> difference converted to \<open>int\<close>.\<close>

definition compareClassesById :: "nat \<Rightarrow> bs_class_t \<Rightarrow> int" where
  "compareClassesById key classdef = sint (of_nat key - of_nat (classid classdef) :: 32 word)"

definition bs_classcoll_get :: "bs_classcoll_t \<Rightarrow> nat \<Rightarrow> bs_class_t option option" where
  "bs_classcoll_get coll cid =
     (case bsearch compareClassesById cid (classes coll) (nclasses coll) of
        None \<Rightarrow> None
      | Some None \<Rightarrow> Some None
      | Some (Some i) \<Rightarrow> Some (Some (classes coll ! i)))"

definition sizeof_bs_class_t :: int where
  "sizeof_bs_class_t = 40"

text \<open>The slot where a new class goes: the first one whose class id is not smaller.\<close>

fun insert_slot :: "bs_class_t list \<Rightarrow> nat \<Rightarrow> nat" where
  "insert_slot [] cid = 0"
| "insert_slot (c # cs) cid = (if classid c < cid then Suc (insert_slot cs cid) else 0)"

text \<open>
  \<open>r\<close>: whether \<open>realloc\<close> succeeds. An existing class is overwritten at the distance of its
  \<^emph>\<open>definition\<close> from the first class's definition, counted in class structures.
\<close>

definition bs_classcoll_set ::
  "bool \<Rightarrow> bs_classcoll_t \<Rightarrow> bs_class_t \<Rightarrow> (int \<times> bs_classcoll_t) option" where
  "bs_classcoll_set r coll classdef =
     (case bs_classcoll_get coll (classid classdef) of
        None \<Rightarrow> None
      | Some (Some existing) \<Rightarrow>
          let slot = (class_addr existing - class_addr (classes coll ! 0)) div sizeof_bs_class_t in
          if 0 \<le> slot \<and> slot < int (length (classes coll))
          then Some (0, coll\<lparr>classes := (classes coll)[nat slot := classdef]\<rparr>)
          else None
      | Some None \<Rightarrow>
          if \<not> r then Some (- 1, coll\<lparr>classes := []\<rparr>)
          else let slot = insert_slot (classes coll) (classid classdef) in
               Some (0, \<lparr>classes = take slot (classes coll) @ classdef # drop slot (classes coll),
                         nclasses = nclasses coll + 1\<rparr>))"

text \<open>The outer \<open>None\<close> is \<open>strcmp\<close> of the null name of a short class, or a stale count.\<close>

fun byname_loop :: "bytes \<Rightarrow> bs_class_t list \<Rightarrow> nat \<Rightarrow> bs_class_t option option" where
  "byname_loop name cs 0 = Some None"
| "byname_loop name [] (Suc n) = None"
| "byname_loop name (c # cs) (Suc n) =
     (case classname c of
        None \<Rightarrow> None
      | Some s \<Rightarrow> if cstr name = cstr s then Some (Some c) else byname_loop name cs n)"

definition bs_classcoll_byname :: "bs_classcoll_t \<Rightarrow> bytes \<Rightarrow> bs_class_t option option" where
  "bs_classcoll_byname coll name = byname_loop name (classes coll) (nclasses coll)"

section \<open>Stack frames\<close>

text \<open>
  Frames of both stacks. The union of the map flag and the object's class is a datatype, so
  that reading the member that was not written last is visible: the context of the next value
  is then \<open>None\<close>, as it is when an object's field index is outside its class.
\<close>

datatype stackframecontent = C_map int | C_object bs_class_t

record stackframe =
  kind :: bs_stackframekind_t
  ctxid :: nat
  missing :: int
  content :: stackframecontent

definition STACK_SIZE :: nat where
  "STACK_SIZE = 16"

definition getctxid :: "stackframe \<Rightarrow> nat option" where
  "getctxid f =
     (if kind f = BS_FMAP \<or> kind f = BS_FZMAP then
        (case content f of
           C_map e \<Rightarrow> Some (if e \<noteq> 0 then BS_CTXID_UNSIGNED_OR_STRING else ctxid f)
         | C_object _ \<Rightarrow> None)
      else if kind f = BS_FOBJECT then
        (case content f of
           C_object cls \<Rightarrow>
             let i = nfields cls - missing f in
             if 0 \<le> i \<and> nat i < length (class_fields cls) then Some (field_ctxid (class_fields cls ! nat i))
             else None
         | C_map _ \<Rightarrow> None)
      else Some (ctxid f))"

section \<open>The collection as a map from ids to classes\<close>

text \<open>
  Well-formed collections: the count is right and the ids are strictly increasing and below
  \<open>2 ^ 31\<close>, so that the signed comparison orders them.
\<close>

definition ids_sorted :: "bs_class_t list \<Rightarrow> bool" where
  "ids_sorted cs \<longleftrightarrow> sorted_wrt (\<lambda>a b. classid a < classid b) cs \<and> (\<forall>c\<in>set cs. classid c < 2 ^ 31)"

definition coll_inv :: "bs_classcoll_t \<Rightarrow> bool" where
  "coll_inv coll \<longleftrightarrow> nclasses coll = length (classes coll) \<and> ids_sorted (classes coll)"

definition class_map :: "bs_classcoll_t \<Rightarrow> nat \<Rightarrow> bs_class_t option" where
  "class_map coll cid = find (\<lambda>c. classid c = cid) (classes coll)"

lemma compare_small:
  assumes "key < 2 ^ 31" "classid c < 2 ^ 31"
  shows "compareClassesById key c = int key - int (classid c)"
proof -
  have "(of_nat key - of_nat (classid c) :: 32 word) = word_of_int (int key - int (classid c))"
    by simp
  then have "compareClassesById key c = signed_take_bit 31 (int key - int (classid c))"
    unfolding compareClassesById_def by (simp add: sint_sbintrunc' del: of_int_diff of_int_of_nat_eq)
  with assms show ?thesis by (simp add: signed_take_bit_int_eq_self)
qed

lemma ids_sorted_nth:
  "ids_sorted cs \<Longrightarrow> i < j \<Longrightarrow> j < length cs \<Longrightarrow> classid (cs ! i) < classid (cs ! j)"
  by (auto simp: ids_sorted_def sorted_wrt_iff_nth_less)

lemma ids_sorted_small: "ids_sorted cs \<Longrightarrow> i < length cs \<Longrightarrow> classid (cs ! i) < 2 ^ 31"
  by (simp add: ids_sorted_def)

interpretation cls: bsearch_order compareClassesById "\<lambda>key. key < 2 ^ 31" ids_sorted
proof unfold_locales
  fix key i j :: nat and base :: "bs_class_t list"
  assume a: "key < 2 ^ 31" "ids_sorted base" "i \<le> j" "j < length base"
  then have "classid (base ! i) \<le> classid (base ! j)"
    using ids_sorted_nth [of base i j] by (cases "i = j") auto
  with a show "(0 \<le> compareClassesById key (base ! j) \<longrightarrow> 0 \<le> compareClassesById key (base ! i)) \<and>
       (0 < compareClassesById key (base ! j) \<longrightarrow> 0 < compareClassesById key (base ! i))"
    using compare_small [OF a(1) ids_sorted_small [OF a(2)], of i]
      compare_small [OF a(1) ids_sorted_small [OF a(2)], of j] by simp
qed

lemma class_map_nth:
  assumes "ids_sorted (classes coll)" "i < length (classes coll)"
  shows "class_map coll (classid (classes coll ! i)) = Some (classes coll ! i)"
proof -
  have "\<forall>j < i. classid (classes coll ! j) \<noteq> classid (classes coll ! i)"
    using ids_sorted_nth [OF assms(1), of _ i] assms(2) by fastforce
  with assms(2) show ?thesis by (auto simp: class_map_def find_Some_iff)
qed

lemma classcoll_get_correct:
  assumes "coll_inv coll" "cid < 2 ^ 31"
  shows "bs_classcoll_get coll cid = Some (class_map coll cid)"
proof -
  have s: "ids_sorted (classes coll)" and n: "nclasses coll = length (classes coll)"
    using assms(1) by (simp_all add: coll_inv_def)
  have z: "compareClassesById cid (classes coll ! i) = 0 \<longleftrightarrow> classid (classes coll ! i) = cid"
    if "i < length (classes coll)" for i
    using compare_small [OF assms(2) ids_sorted_small [OF s that]] by auto
  from cls.bsearch_spec [OF assms(2) s] show ?thesis
  proof (elim disjE exE conjE)
    fix i assume i: "i < length (classes coll)" "compareClassesById cid (classes coll ! i) = 0"
      "bsearch compareClassesById cid (classes coll) (length (classes coll)) = Some (Some i)"
    with z [OF i(1)] class_map_nth [OF s i(1)] n show ?thesis
      by (simp add: bs_classcoll_get_def)
  next
    assume m: "\<forall>i < length (classes coll). compareClassesById cid (classes coll ! i) \<noteq> 0"
      "bsearch compareClassesById cid (classes coll) (length (classes coll)) = Some None"
    then have "class_map coll cid = None"
      using z by (auto simp: class_map_def find_None_iff in_set_conv_nth)
    with m n show ?thesis by (simp add: bs_classcoll_get_def)
  qed
qed

lemma insert_slot_le: "insert_slot cs cid \<le> length cs"
  by (induction cs) auto

lemma insert_slot_sorted:
  assumes "ids_sorted cs" "\<forall>c\<in>set cs. classid c \<noteq> classid k" "classid k < 2 ^ 31"
  shows "ids_sorted (take (insert_slot cs (classid k)) cs @ k # drop (insert_slot cs (classid k)) cs)"
  using assms
proof (induction cs)
  case (Cons c cs)
  let ?s = "insert_slot cs (classid k)"
  have cs: "ids_sorted cs" "\<forall>x\<in>set cs. classid c < classid x" "classid c < 2 ^ 31"
    using Cons.prems(1) by (simp_all add: ids_sorted_def)
  have IH: "ids_sorted (take ?s cs @ k # drop ?s cs)"
    using Cons.IH [OF cs(1)] Cons.prems(2,3) by simp
  show ?case
  proof (cases "classid c < classid k")
    case True
    have "\<forall>x \<in> set (take ?s cs @ k # drop ?s cs). classid c < classid x"
      using True cs(2) by (auto dest: in_set_takeD in_set_dropD)
    with IH cs(3) have "ids_sorted (c # take ?s cs @ k # drop ?s cs)"
      unfolding ids_sorted_def by simp
    with True show ?thesis by simp
  next
    case False
    then have "classid k < classid c" using Cons.prems(2) by auto
    then have "\<forall>x \<in> set (c # cs). classid k < classid x"
      using cs(2) by auto
    with Cons.prems(1,3) have "ids_sorted (k # c # cs)"
      unfolding ids_sorted_def by simp
    with False show ?thesis by simp
  qed
qed (simp add: ids_sorted_def)

lemma class_map_insert:
  assumes "\<forall>c\<in>set (classes coll). classid c \<noteq> classid k"
    "classes coll' = take s (classes coll) @ k # drop s (classes coll)"
  shows "class_map coll' = (class_map coll)(classid k \<mapsto> k)"
proof
  fix cid
  have f: "find P (xs @ ys) = (case find P xs of None \<Rightarrow> find P ys | Some v \<Rightarrow> Some v)" for P xs ys
    by (induction xs) (auto split: option.split)
  have "find (\<lambda>c. classid c = classid k) (take s (classes coll)) = None"
    using assms(1) by (auto simp: find_None_iff dest: in_set_takeD)
  moreover have "class_map coll cid = (case find (\<lambda>c. classid c = cid) (take s (classes coll)) of
      None \<Rightarrow> find (\<lambda>c. classid c = cid) (drop s (classes coll)) | Some v \<Rightarrow> Some v)"
    unfolding class_map_def by (subst f [symmetric]) simp
  ultimately show "class_map coll' cid = ((class_map coll)(classid k \<mapsto> k)) cid"
    using assms(2) by (auto simp: class_map_def f split: option.splits)
qed

lemma classcoll_set_new:
  assumes "coll_inv coll" "classid k < 2 ^ 31" "class_map coll (classid k) = None"
  shows "\<exists>coll'. bs_classcoll_set True coll k = Some (0, coll') \<and> coll_inv coll' \<and>
                 class_map coll' = (class_map coll)(classid k \<mapsto> k)"
proof -
  let ?s = "insert_slot (classes coll) (classid k)"
  let ?c = "\<lparr>classes = take ?s (classes coll) @ k # drop ?s (classes coll), nclasses = nclasses coll + 1\<rparr>"
  have n: "\<forall>c\<in>set (classes coll). classid c \<noteq> classid k"
    using assms(3) by (auto simp: class_map_def find_None_iff)
  have "bs_classcoll_set True coll k = Some (0, ?c)"
    using classcoll_get_correct [OF assms(1,2)] assms(3) by (simp add: bs_classcoll_set_def Let_def)
  moreover have "coll_inv ?c"
    using insert_slot_sorted [OF _ n assms(2)] assms(1) insert_slot_le [of "classes coll" "classid k"]
    by (simp add: coll_inv_def)
  ultimately show ?thesis using class_map_insert [OF n, of ?c ?s] by auto
qed

lemma coll_inv_init: "coll_inv bs_classcoll_init" "class_map bs_classcoll_init = Map.empty"
  by (auto simp: coll_inv_def bs_classcoll_init_def ids_sorted_def class_map_def)

section \<open>Properties\<close>

text \<open>
  Registering a class under an id that is not in the collection succeeds, keeps the
  collection sorted, and changes the lookup by id only at that id: the binary search finds
  the new class there and every other class where it was.
\<close>

theorem classcoll_set_get:
  assumes "coll_inv coll" "classid k < 2 ^ 31" "bs_classcoll_get coll (classid k) = Some None"
    "cid < 2 ^ 31"
  shows "\<exists>coll'. bs_classcoll_set True coll k = Some (0, coll') \<and> coll_inv coll' \<and>
           bs_classcoll_get coll' cid = (if cid = classid k then Some (Some k) else bs_classcoll_get coll cid)"
proof -
  have "class_map coll (classid k) = None"
    using classcoll_get_correct [OF assms(1,2)] assms(3) by simp
  with classcoll_set_new [OF assms(1,2)] obtain coll' where
    c: "bs_classcoll_set True coll k = Some (0, coll')" "coll_inv coll'"
      "class_map coll' = (class_map coll)(classid k \<mapsto> k)" by blast
  with classcoll_get_correct [OF c(2) assms(4)] classcoll_get_correct [OF assms(1,4)] show ?thesis
    by auto
qed

definition sample_class :: "nat \<Rightarrow> int \<Rightarrow> bs_class_t" where
  "sample_class cid addr = \<lparr>classid = cid, classname = None, nfields = 1, class_mode = BS_CLASS_EXTERNAL,
     class_fields = [\<lparr>field_name = None, field_ctxid = 0\<rparr>], class_addr = addr\<rparr>"

definition sample_coll :: bs_classcoll_t where
  "sample_coll = \<lparr>classes = [sample_class 3 1000, sample_class 9 5000], nclasses = 2\<rparr>"

lemma sample_coll_inv: "coll_inv sample_coll"
  by (simp add: coll_inv_def sample_coll_def ids_sorted_def sample_class_def)

theorem classcoll_set_get_witness:
  "\<exists>coll'. bs_classcoll_set True sample_coll (sample_class 5 2000) = Some (0, coll') \<and> coll_inv coll' \<and>
     bs_classcoll_get coll' 5 = Some (Some (sample_class 5 2000))"
proof -
  have "bs_classcoll_get sample_coll (classid (sample_class 5 2000)) = Some None"
    using classcoll_get_correct [OF sample_coll_inv, of 5]
    by (simp add: class_map_def sample_coll_def sample_class_def)
  from classcoll_set_get [OF sample_coll_inv _ this, of 5] show ?thesis
    by (simp add: sample_class_def)
qed

text \<open>
  Redefining a known class that is not the first of the collection writes at the distance
  between the two definitions in memory instead of the class's own slot: with definitions 4000
  octets apart the write falls outside the array of classes.
\<close>

theorem classcoll_redefinition_out_of_bounds:
  "coll_inv sample_coll \<and> bs_classcoll_get sample_coll 9 = Some (Some (sample_class 9 5000)) \<and>
   bs_classcoll_set True sample_coll (sample_class 9 7000) = None"
  using classcoll_get_correct [OF sample_coll_inv, of 9] sample_coll_inv
  by (simp add: bs_classcoll_set_def Let_def sizeof_bs_class_t_def class_map_def sample_coll_def
      sample_class_def)

end
