(* ===== verification/Bysant_Float.thy ===== *)
theory Bysant_Float
  imports Prelude
begin

text \<open>
  The C conversions between \<open>double\<close>, \<open>float\<close> and \<open>int64_t\<close> that the Bysant library uses,
  on IEEE 754 bit patterns: \<open>double\<close> is a \<open>64 word\<close>, \<open>float\<close> a \<open>32 word\<close>. Conversions to
  a narrower format round to nearest, ties to even; converting a \<open>double\<close> that is not a
  number or out of range to \<open>int64_t\<close> is undefined in C and \<open>None\<close> here.
\<close>

type_synonym f64 = "64 word"
type_synonym f32 = "32 word"

definition f64_sign :: "f64 \<Rightarrow> nat" where "f64_sign x = unat x div 2 ^ 63"
definition f64_exp :: "f64 \<Rightarrow> nat" where "f64_exp x = unat x div 2 ^ 52 mod 2 ^ 11"
definition f64_frac :: "f64 \<Rightarrow> nat" where "f64_frac x = unat x mod 2 ^ 52"

definition f64_mk :: "nat \<Rightarrow> nat \<Rightarrow> f64" where
  "f64_mk s r = of_nat (s * 2 ^ 63 + r)"

definition f64_nan :: "f64 \<Rightarrow> bool" where
  "f64_nan x \<longleftrightarrow> f64_exp x = 2047 \<and> f64_frac x \<noteq> 0"

text \<open>The comparison \<open>==\<close>: a NaN equals nothing, the two zeros are equal.\<close>

definition f64_eq :: "f64 \<Rightarrow> f64 \<Rightarrow> bool" where
  "f64_eq x y \<longleftrightarrow> \<not> f64_nan x \<and> \<not> f64_nan y \<and>
     (x = y \<or> unat x mod 2 ^ 63 = 0 \<and> unat y mod 2 ^ 63 = 0)"

text \<open>Division by \<open>2 ^ n\<close>, rounded to nearest, ties to even; the position of the top bit.\<close>

definition rne :: "nat \<Rightarrow> nat \<Rightarrow> nat" where
  "rne v n = (let q = v div 2 ^ n; r = v mod 2 ^ n in
     if 2 ^ n < 2 * r \<or> 2 * r = 2 ^ n \<and> odd q then q + 1 else q)"

fun top_bit :: "nat \<Rightarrow> nat" where
  "top_bit n = (if n < 2 then 0 else Suc (top_bit (n div 2)))"

declare top_bit.simps [simp del]

text \<open>Significand and exponent: a finite value is \<open>sig * 2 ^ (e - 1075)\<close>.\<close>

definition f64_sig :: "f64 \<Rightarrow> nat" where
  "f64_sig x = (if f64_exp x = 0 then f64_frac x else 2 ^ 52 + f64_frac x)"

definition f64_to_f32 :: "f64 \<Rightarrow> f32" where
  "f64_to_f32 x =
     (let s = f64_sign x * 2 ^ 31; e = f64_exp x; m = f64_frac x in
      if e = 2047 then
        of_nat (s + 0x7F800000 + (if m = 0 then 0 else (m div 2 ^ 29) OR 2 ^ 22))
      else let e = max e 1;
               r = (if 897 \<le> e then (e - 897) * 2 ^ 23 + rne (f64_sig x) 29
                    else rne (f64_sig x) (29 + (897 - e))) in
        of_nat (s + min r 0x7F800000))"

definition f32_to_f64 :: "f32 \<Rightarrow> f64" where
  "f32_to_f64 x =
     (let s = unat x div 2 ^ 31; e = unat x div 2 ^ 23 mod 2 ^ 8; m = unat x mod 2 ^ 23 in
      if e = 255 then f64_mk s (2047 * 2 ^ 52 + (if m = 0 then 0 else (m * 2 ^ 29) OR 2 ^ 51))
      else if e = 0 \<and> m = 0 then f64_mk s 0
      else if e = 0 then
        (let k = top_bit m in f64_mk s ((k + 874) * 2 ^ 52 + (m * 2 ^ (52 - k) - 2 ^ 52)))
      else f64_mk s ((e + 896) * 2 ^ 52 + m * 2 ^ 29))"

definition f64_to_i64 :: "f64 \<Rightarrow> int option" where
  "f64_to_i64 x =
     (if f64_exp x = 2047 then None
      else let e = max (f64_exp x) 1;
               a = (if 1075 \<le> e then f64_sig x * 2 ^ (e - 1075) else f64_sig x div 2 ^ (1075 - e));
               v = (if f64_sign x = 1 then - int a else int a) in
        if - (2 ^ 63) \<le> v \<and> v < 2 ^ 63 then Some v else None)"

definition i64_to_f64 :: "int \<Rightarrow> f64" where
  "i64_to_f64 y =
     (let s = (if y < 0 then 1 else 0); a = nat \<bar>y\<bar>; k = top_bit a in
      if a = 0 then 0
      else if k \<le> 52 then f64_mk s ((k + 1023) * 2 ^ 52 + (a * 2 ^ (52 - k) - 2 ^ 52))
      else f64_mk s ((k + 1022) * 2 ^ 52 + rne a (k - 52)))"

section \<open>Integers as doubles\<close>

lemma top_bit_bounds: "0 < n \<Longrightarrow> 2 ^ top_bit n \<le> n \<and> n < 2 * 2 ^ top_bit n"
proof (induction n rule: top_bit.induct)
  case (1 n)
  show ?case
  proof (cases "n < 2")
    case True
    then show ?thesis using 1(2) by (simp add: top_bit.simps)
  next
    case False
    then have "top_bit n = Suc (top_bit (n div 2))" by (simp add: top_bit.simps)
    moreover have "2 ^ top_bit (n div 2) \<le> n div 2 \<and> n div 2 < 2 * 2 ^ top_bit (n div 2)"
      using 1(1) [OF False] False by simp
    ultimately show ?thesis by simp linarith
  qed
qed

lemma f64_mk_fields:
  assumes "s < 2" "e < 2048" "m < 2 ^ 52"
  shows "f64_sign (f64_mk s (e * 2 ^ 52 + m)) = s" "f64_exp (f64_mk s (e * 2 ^ 52 + m)) = e"
    "f64_frac (f64_mk s (e * 2 ^ 52 + m)) = m"
proof -
  let ?r = "s * 2 ^ 63 + (e * 2 ^ 52 + m)"
  have r: "?r < 2 ^ 64" using assms by simp
  then have u: "unat (f64_mk s (e * 2 ^ 52 + m)) = ?r"
    by (simp add: f64_mk_def unat_of_nat del: of_nat_add of_nat_mult)
  show "f64_sign (f64_mk s (e * 2 ^ 52 + m)) = s"
    unfolding f64_sign_def u using assms by simp
  have e: "?r = (s * 2048 + e) * 2 ^ 52 + m" by simp
  have "?r div 2 ^ 52 = s * 2048 + e" unfolding e using assms by simp
  then show "f64_exp (f64_mk s (e * 2 ^ 52 + m)) = e"
    unfolding f64_exp_def u using assms by simp
  have "?r mod 2 ^ 52 = m" unfolding e mod_mult_self3 using assms(3) by simp
  then show "f64_frac (f64_mk s (e * 2 ^ 52 + m)) = m"
    unfolding f64_frac_def u .
qed

text \<open>Every integer of at most 53 bits survives the conversion to \<open>double\<close> and back.\<close>

lemma f64_to_i64_exact:
  assumes "\<bar>y\<bar> < 2 ^ 53"
  shows "f64_to_i64 (i64_to_f64 y) = Some y"
proof (cases "y = 0")
  case True
  then show ?thesis
    by (simp add: i64_to_f64_def f64_to_i64_def f64_exp_def f64_sig_def f64_frac_def f64_sign_def)
next
  case False
  define a where "a = nat \<bar>y\<bar>"
  define k where "k = top_bit a"
  define s where "s = (if y < 0 then 1 else 0 :: nat)"
  have a: "0 < a" "a < 2 ^ 53" using False assms by (auto simp: a_def)
  have b: "2 ^ k \<le> a" "a < 2 * 2 ^ k" using top_bit_bounds [OF a(1)] by (auto simp: k_def)
  have k: "k \<le> 52"
  proof (rule ccontr)
    assume "\<not> k \<le> 52"
    then have "(2::nat) ^ 53 \<le> 2 ^ k" by (intro power_increasing) auto
    with b a show False by linarith
  qed
  have sp: "(2::nat) ^ 52 = 2 ^ k * 2 ^ (52 - k)" using k by (simp add: power_add [symmetric])
  define m where "m = a * 2 ^ (52 - k) - 2 ^ 52"
  have m: "2 ^ 52 + m = a * 2 ^ (52 - k)"
    using mult_le_mono1 [OF b(1), of "2 ^ (52 - k)"] sp unfolding m_def by linarith
  have "a * 2 ^ (52 - k) < 2 * 2 ^ 52"
    using mult_strict_right_mono [OF b(2), of "2 ^ (52 - k)"] unfolding sp by (simp add: mult.assoc)
  then have m2: "m < 2 ^ 52" using m by linarith
  have x: "i64_to_f64 y = f64_mk s ((k + 1023) * 2 ^ 52 + m)"
    using a k by (simp add: i64_to_f64_def Let_def a_def [symmetric] k_def [symmetric] s_def m_def)
  have s: "s < 2" by (simp add: s_def)
  have e: "k + 1023 < 2048" using k by simp
  note f = f64_mk_fields [OF s e m2]
  have sig: "f64_sig (i64_to_f64 y) = a * 2 ^ (52 - k)"
    unfolding f64_sig_def x f m by simp
  have ex: "f64_exp (i64_to_f64 y) = k + 1023" and sg: "f64_sign (i64_to_f64 y) = s"
    unfolding x by (rule f)+
  have "(if 1075 \<le> k + 1023 then a * 2 ^ (52 - k) * 2 ^ (k + 1023 - 1075)
         else a * 2 ^ (52 - k) div 2 ^ (1075 - (k + 1023))) = a"
    using k by (cases "k = 52") simp_all
  moreover have "max (k + 1023) 1 = k + 1023" by simp
  moreover have "(if s = 1 then - int a else int a) = y" by (auto simp: s_def a_def)
  moreover have "- (2 ^ 63) \<le> y" "y < 2 ^ 63" using assms by auto
  moreover have "k + 1023 \<noteq> 2047" using k by simp
  ultimately show ?thesis
    unfolding f64_to_i64_def Let_def sig ex sg by (simp only: if_False if_True simp_thms)
qed

lemma f64_eq_int_refl:
  assumes "\<bar>y\<bar> < 2 ^ 53"
  shows "f64_eq (i64_to_f64 y) (i64_to_f64 y)"
proof -
  have "f64_exp (i64_to_f64 y) \<noteq> 2047"
    using f64_to_i64_exact [OF assms] by (auto simp: f64_to_i64_def)
  then show ?thesis by (simp add: f64_eq_def f64_nan_def)
qed

end
