(* ===== verification/Bysant_Deser.thy ===== *)
theory Bysant_Deser
  imports Bysant_Common Bysant_Float Rc_Endian
begin

text \<open>
  \<open>libs/bysant/bysantd.c\<close>: the streaming deserializer. \<open>bsd_read\<close> decodes one element from
  a buffer into a data structure, keeping the stack of open containers.

  A decoder receives the octets that are really in memory from the current position on and
  the \<open>length\<close> the caller claims (\<open>avail\<close>); it returns the number of octets consumed (or C's negative
  or null codes) with the new context and data, and \<open>None\<close> when the code reads outside the
  memory it was given or outside a class's fields, or when an \<open>int\<close> overflows. What comes
  from outside the file is in the environment: the host's byte order, the static \<open>sendian\<close>,
  the outcomes of \<open>malloc\<close> and \<open>realloc\<close> and the address of a new class definition. A
  pointer to string data is modelled by the octets it points to.
\<close>

section \<open>Data and context\<close>

definition BSD_EOK :: int where "BSD_EOK = 0"
definition BSD_EINVALID :: int where "BSD_EINVALID = - 2"
definition BSD_EBADCONTEXT :: int where "BSD_EBADCONTEXT = - 3"
definition BSD_EBADCLASSID :: int where "BSD_EBADCLASSID = - 5"
definition BSD_ETOODEEP :: int where "BSD_ETOODEEP = - 6"
definition BSD_EMEMORY :: int where "BSD_EMEMORY = - 7"

lemmas bsd_status_defs = BSD_EOK_def BSD_EINVALID_def BSD_EBADCONTEXT_def BSD_EBADCLASSID_def
  BSD_ETOODEEP_def BSD_EMEMORY_def

datatype bsd_data_type_t =
    BSD_ERROR | BSD_CLOSE | BSD_NULL | BSD_INT | BSD_BOOL | BSD_DOUBLE | BSD_STRING | BSD_CHUNKED_STRING
  | BSD_CHUNK | BSD_LIST | BSD_ZLIST | BSD_MAP | BSD_ZMAP | BSD_OBJECT | BSD_CLASSDEF

datatype bsd_data_kind_t =
    BSD_KTOPLEVEL | BSD_KLISTITEM | BSD_KMAPKEY | BSD_KMAPVALUE | BSD_KOBJFIELD | BSD_KCHUNK
  | BSD_KNEWCONTAINER

datatype bsd_data_content_t =
    D_none | D_int int | D_bool bool | D_double f64 | D_length int | D_class bs_class_t
  | D_cont_type bsd_data_type_t | D_error int | D_string bytes

record bsd_data_t =
  d_type :: bsd_data_type_t
  d_kind :: bsd_data_kind_t
  d_fieldname :: "bytes option"
  d_content :: bsd_data_content_t

record bsd_ctx_t =
  d_read :: nat
  d_broken :: bool
  d_stacksize :: nat
  d_classcoll :: bs_classcoll_t
  d_stack :: "stackframe list"

record bsd_env =
  env_host :: EEndian
  env_sendian :: SEndian
  env_malloc :: bool
  env_realloc :: bool
  env_addr :: int

type_synonym dec = "(int \<times> bsd_ctx_t \<times> bsd_data_t) option"

definition bsd_topframe :: "bsd_ctx_t \<Rightarrow> stackframe" where
  "bsd_topframe ctx = d_stack ctx ! d_stacksize ctx"

definition bsd_getFrameDataKind :: "stackframe \<Rightarrow> bsd_data_kind_t option" where
  "bsd_getFrameDataKind f =
     (case kind f of
        BS_FCLASSDEF \<Rightarrow> Some BSD_KTOPLEVEL
      | BS_FTOP \<Rightarrow> Some BSD_KTOPLEVEL
      | BS_FMAP \<Rightarrow> (case content f of C_map e \<Rightarrow> Some (if e \<noteq> 0 then BSD_KMAPVALUE else BSD_KMAPKEY) | _ \<Rightarrow> None)
      | BS_FZMAP \<Rightarrow> (case content f of C_map e \<Rightarrow> Some (if e \<noteq> 0 then BSD_KMAPVALUE else BSD_KMAPKEY) | _ \<Rightarrow> None)
      | BS_FOBJECT \<Rightarrow> Some BSD_KOBJFIELD
      | BS_FLIST \<Rightarrow> Some BSD_KLISTITEM
      | BS_FZLIST \<Rightarrow> Some BSD_KLISTITEM
      | BS_FCHUNKED \<Rightarrow> Some BSD_KCHUNK)"

definition bsd_typeFromFrameKind :: "bs_stackframekind_t \<Rightarrow> bsd_data_type_t" where
  "bsd_typeFromFrameKind k =
     (case k of
        BS_FMAP \<Rightarrow> BSD_MAP | BS_FZMAP \<Rightarrow> BSD_ZMAP | BS_FOBJECT \<Rightarrow> BSD_OBJECT | BS_FLIST \<Rightarrow> BSD_LIST
      | BS_FZLIST \<Rightarrow> BSD_ZLIST | BS_FCHUNKED \<Rightarrow> BSD_CHUNKED_STRING | _ \<Rightarrow> BSD_ERROR)"

definition bsd_string :: "bytes \<Rightarrow> bsd_data_t \<Rightarrow> bsd_data_t" where
  "bsd_string s x = x\<lparr>d_type := BSD_STRING, d_content := D_string s\<rparr>"

definition bsd_error :: "int \<Rightarrow> bsd_ctx_t \<Rightarrow> bsd_data_t \<Rightarrow> dec" where
  "bsd_error cause ctx x = Some (0, ctx, x\<lparr>d_type := BSD_ERROR, d_content := D_error cause\<rparr>)"

text \<open>
  \<open>openContainer\<close>: the status and the new context; \<open>None\<close> when the doubled count of a map
  overflows \<open>int\<close>.
\<close>

definition bsd_openContainer :: "bs_stackframekind_t \<Rightarrow> nat \<Rightarrow> int \<Rightarrow> bsd_ctx_t \<Rightarrow> (int \<times> bsd_ctx_t) option" where
  "bsd_openContainer k c miss ctx =
     (if d_stacksize ctx = STACK_SIZE - 1 then Some (BSD_ETOODEEP, ctx)
      else let n = d_stacksize ctx + 1;
               f = (d_stack ctx ! n)\<lparr>kind := k, ctxid := c, missing := miss\<rparr> in
           if k = BS_FMAP \<or> k = BS_FZMAP then
             if signed_take_bit 31 (miss * 2) \<noteq> miss * 2 then None
             else Some (BSD_EOK, ctx\<lparr>d_stacksize := n,
                    d_stack := (d_stack ctx)[n := f\<lparr>missing := miss * 2, content := C_map 1\<rparr>]\<rparr>)
           else Some (BSD_EOK, ctx\<lparr>d_stacksize := n, d_stack := (d_stack ctx)[n := f]\<rparr>))"

text \<open>
  \<open>bsd_object\<close>: on a full stack the frame pointer stays null and storing the class through
  it is a fault.
\<close>

definition bsd_object :: "nat \<Rightarrow> bsd_ctx_t \<Rightarrow> bsd_data_t \<Rightarrow> (int \<times> bsd_ctx_t \<times> bsd_data_t) option" where
  "bsd_object cid ctx x =
     (case bs_classcoll_get (d_classcoll ctx) cid of
        None \<Rightarrow> None
      | Some None \<Rightarrow> Some (BSD_EBADCLASSID, ctx, x)
      | Some (Some klass) \<Rightarrow>
          let x = x\<lparr>d_type := BSD_OBJECT, d_content := D_class klass\<rparr> in
          (case bsd_openContainer BS_FOBJECT BS_CTXID_GLOBAL (nfields klass) ctx of
             None \<Rightarrow> None
           | Some (status, ctx) \<Rightarrow>
               if status \<noteq> BSD_EOK then None
               else Some (status, ctx\<lparr>d_stack := (d_stack ctx)[d_stacksize ctx :=
                      (bsd_topframe ctx)\<lparr>content := C_object klass\<rparr>]\<rparr>, x)))"

section \<open>The macros\<close>

definition octet :: "bytes \<Rightarrow> nat \<Rightarrow> (int \<Rightarrow> dec) \<Rightarrow> dec" where
  "octet buffer i k = (if i < length buffer then k (uint (buffer ! i)) else None)"

text \<open>\<open>n\<close> octets from position \<open>i\<close> on, as \<open>memcpy\<close> or a string pointer takes them.\<close>

definition octets :: "bytes \<Rightarrow> nat \<Rightarrow> nat \<Rightarrow> (bytes \<Rightarrow> dec) \<Rightarrow> dec" where
  "octets buffer i n k = (if i + n \<le> length buffer then k (take n (drop i buffer)) else None)"

definition CHECK_LENGTH :: "int \<Rightarrow> int \<Rightarrow> bsd_ctx_t \<Rightarrow> bsd_data_t \<Rightarrow> dec \<Rightarrow> dec" where
  "CHECK_LENGTH len n ctx x k = (if 0 \<le> len \<and> len < n then Some (- n, ctx, x) else k)"

definition CHECK_ERROR :: "(int \<times> bsd_ctx_t) option \<Rightarrow> bsd_data_t \<Rightarrow> (bsd_ctx_t \<Rightarrow> dec) \<Rightarrow> dec" where
  "CHECK_ERROR expr x k =
     (case expr of
        None \<Rightarrow> None
      | Some (r, ctx) \<Rightarrow> if r \<noteq> BSD_EOK then bsd_error r ctx x else k ctx)"

definition CHECK_DECODE :: "dec \<Rightarrow> (bsd_ctx_t \<Rightarrow> bsd_data_t \<Rightarrow> dec) \<Rightarrow> dec" where
  "CHECK_DECODE expr k =
     (case expr of
        None \<Rightarrow> None
      | Some (n, ctx, x) \<Rightarrow>
          if n \<noteq> 0 then Some (n, ctx, x)
          else if d_type x = BSD_ERROR then Some (0, ctx, x)
          else k ctx x)"

definition CHECK_SUBDECODE ::
  "dec \<Rightarrow> bsd_data_type_t \<Rightarrow> int \<Rightarrow> (int \<Rightarrow> bsd_ctx_t \<Rightarrow> bsd_data_t \<Rightarrow> dec) \<Rightarrow> dec" where
  "CHECK_SUBDECODE expr expectedtype nread k =
     (case expr of
        None \<Rightarrow> None
      | Some (subread, ctx, x) \<Rightarrow>
          if subread \<le> 0 then Some (- nread - subread, ctx, x)
          else if expectedtype \<noteq> d_type x then bsd_error BSD_EINVALID ctx x
          else k (nread + subread) ctx x)"

section \<open>Decoding helpers\<close>

definition set_int :: "int \<Rightarrow> bsd_data_t \<Rightarrow> bsd_data_t" where
  "set_int i x = x\<lparr>d_type := BSD_INT, d_content := D_int i\<rparr>"

definition get_int :: "bsd_data_t \<Rightarrow> int" where
  "get_int x = (case d_content x of D_int i \<Rightarrow> i | _ \<Rightarrow> 0)"

definition get_string :: "bsd_data_t \<Rightarrow> bytes" where
  "get_string x = (case d_content x of D_string s \<Rightarrow> s | _ \<Rightarrow> [])"

definition decodeInteger ::
  "bsd_env \<Rightarrow> bsd_ctx_t \<Rightarrow> bsd_data_t \<Rightarrow> bytes \<Rightarrow> int \<Rightarrow> bs_integer_encoding_t \<Rightarrow> dec" where
  "decodeInteger env ctx x buffer avail enc =
     octet buffer 0 (\<lambda>opcode.
     CHECK_LENGTH avail 1 ctx x (
     let x = x\<lparr>d_type := BSD_INT\<rparr>; b = (\<lambda>i k. octet buffer i k) in
     if tiny_zero_opcode enc + tiny_min enc \<le> opcode \<and> opcode \<le> tiny_zero_opcode enc + tiny_max enc then
       Some (1, ctx, set_int (opcode - tiny_zero_opcode enc) x)
     else if small_pos_opcode enc \<le> opcode \<and> opcode < small_neg_opcode enc then
       CHECK_LENGTH avail 2 ctx x (b 1 (\<lambda>b1.
         Some (2, ctx, set_int (push_bit 8 (opcode - small_pos_opcode enc) + b1 + tiny_max enc + 1) x)))
     else if small_neg_opcode enc \<le> opcode \<and> opcode < medium_pos_opcode enc then
       CHECK_LENGTH avail 2 ctx x (b 1 (\<lambda>b1.
         Some (2, ctx, set_int (- (push_bit 8 (opcode - small_neg_opcode enc) + b1) + tiny_min enc - 1) x)))
     else if medium_pos_opcode enc \<le> opcode \<and> opcode < medium_neg_opcode enc then
       CHECK_LENGTH avail 3 ctx x (b 1 (\<lambda>b1. b 2 (\<lambda>b2.
         Some (3, ctx, set_int (push_bit 16 (opcode - medium_pos_opcode enc) + push_bit 8 b1 + b2
                                + small_max enc + 1) x))))
     else if medium_neg_opcode enc \<le> opcode \<and> opcode < large_pos_opcode enc then
       CHECK_LENGTH avail 3 ctx x (b 1 (\<lambda>b1. b 2 (\<lambda>b2.
         Some (3, ctx, set_int (- (push_bit 16 (opcode - medium_neg_opcode enc) + push_bit 8 b1 + b2)
                                + small_min enc - 1) x))))
     else if large_pos_opcode enc \<le> opcode \<and> opcode < large_neg_opcode enc then
       CHECK_LENGTH avail 4 ctx x (b 1 (\<lambda>b1. b 2 (\<lambda>b2. b 3 (\<lambda>b3.
         Some (4, ctx, set_int (push_bit 24 (opcode - large_pos_opcode enc) + push_bit 16 b1 + push_bit 8 b2
                                + b3 + medium_max enc + 1) x)))))
     else if large_neg_opcode enc \<le> opcode \<and> opcode \<le> last_large_neg_opcode enc then
       CHECK_LENGTH avail 4 ctx x (b 1 (\<lambda>b1. b 2 (\<lambda>b2. b 3 (\<lambda>b3.
         Some (4, ctx, set_int (- (push_bit 24 (opcode - large_neg_opcode enc) + push_bit 16 b1 + push_bit 8 b2
                                + b3) + medium_min enc - 1) x)))))
     else if int32_opcode enc = opcode then
       CHECK_LENGTH avail 5 ctx x (octets buffer 1 4 (\<lambda>v.
         Some (5, ctx, set_int (signed_take_bit 31
           (mem_value (env_host env) (hton v 4 (e_int32 (env_sendian env))))) x)))
     else if int64_opcode enc = opcode then
       CHECK_LENGTH avail 9 ctx x (octets buffer 1 8 (\<lambda>v.
         Some (9, ctx, set_int (signed_take_bit 63
           (mem_value (env_host env) (hton v 8 (e_int64 (env_sendian env))))) x)))
     else Some (0, ctx, x)))"

definition decodeString ::
  "bsd_ctx_t \<Rightarrow> bsd_data_t \<Rightarrow> bytes \<Rightarrow> int \<Rightarrow> bs_string_encoding_t \<Rightarrow> dec" where
  "decodeString ctx x buffer avail enc =
     octet buffer 0 (\<lambda>opcode.
     CHECK_LENGTH avail 1 ctx x (
     let x = x\<lparr>d_type := BSD_STRING\<rparr>; str = (\<lambda>p len. octets buffer p (nat len) (\<lambda>s.
               Some (len + int p, ctx, bsd_string s x))) in
     if small_opcode enc \<le> opcode \<and> opcode < medium_opcode enc then
       let len = opcode - small_opcode enc in CHECK_LENGTH avail (len + 1) ctx x (str 1 len)
     else if medium_opcode enc \<le> opcode \<and> opcode < large_opcode enc then
       CHECK_LENGTH avail 2 ctx x (octet buffer 1 (\<lambda>b1.
         let len = push_bit 8 (opcode - medium_opcode enc) + b1 + small_limit enc + 1
         in CHECK_LENGTH avail (len + 2) ctx x (str 2 len)))
     else if large_opcode enc = opcode then
       CHECK_LENGTH avail 3 ctx x (octet buffer 1 (\<lambda>b1. octet buffer 2 (\<lambda>b2.
         let len = push_bit 8 b1 + b2 + medium_limit enc + 1
         in CHECK_LENGTH avail (len + 3) ctx x (str 3 len))))
     else if chunked_opcode enc = opcode then
       CHECK_ERROR (bsd_openContainer BS_FCHUNKED BS_CTXID_CHUNKED (- 1) ctx) x (\<lambda>ctx.
         Some (1, ctx, x\<lparr>d_type := BSD_CHUNKED_STRING\<rparr>))
     else Some (0, ctx, x)))"

definition decodeNull :: "bsd_ctx_t \<Rightarrow> bsd_data_t \<Rightarrow> (bsd_ctx_t \<times> bsd_data_t) option" where
  "decodeNull ctx x =
     (let f = bsd_topframe ctx;
          close = Some (ctx\<lparr>d_stacksize := d_stacksize ctx - 1\<rparr>,
                    x\<lparr>d_type := BSD_CLOSE, d_content := D_cont_type (bsd_typeFromFrameKind (kind f))\<rparr>);
          null = Some (ctx, x\<lparr>d_type := BSD_NULL\<rparr>) in
      if kind f = BS_FZLIST then close
      else if kind f = BS_FZMAP then
        (case content f of C_map e \<Rightarrow> if e \<noteq> 0 then close else null | C_object _ \<Rightarrow> None)
      else null)"

definition null_result :: "int \<Rightarrow> bsd_ctx_t \<Rightarrow> bsd_data_t \<Rightarrow> dec" where
  "null_result nread ctx x = map_option (\<lambda>(ctx, x). (nread, ctx, x)) (decodeNull ctx x)"

section \<open>Unsigned integers and strings\<close>

definition bsd_uis :: "bsd_ctx_t \<Rightarrow> bsd_data_t \<Rightarrow> bytes \<Rightarrow> int \<Rightarrow> dec" where
  "bsd_uis ctx x buffer avail =
     CHECK_LENGTH avail 1 ctx x (octet buffer 0 (\<lambda>opcode.
     CHECK_DECODE (decodeString ctx x buffer avail BS_UIS_STRING) (\<lambda>ctx x.
     let x = x\<lparr>d_type := BSD_INT\<rparr>; b = octet buffer in
     if 0x3b \<le> opcode \<and> opcode \<le> 0xc6 then Some (1, ctx, set_int (opcode - 0x3b) x)
     else if 0xc7 \<le> opcode \<and> opcode \<le> 0xe6 then
       CHECK_LENGTH avail 2 ctx x (b 1 (\<lambda>b1.
         Some (2, ctx, set_int (push_bit 8 (opcode - 0xc7) + b1 + BS_UTI_MAX + 1) x)))
     else if 0xe7 \<le> opcode \<and> opcode \<le> 0xf6 then
       CHECK_LENGTH avail 3 ctx x (b 1 (\<lambda>b1. b 2 (\<lambda>b2.
         Some (3, ctx, set_int (push_bit 16 (opcode - 0xe7) + push_bit 8 b1 + b2 + BS_USI_MAX + 1) x))))
     else if 0xf7 \<le> opcode \<and> opcode \<le> 0xfe then
       CHECK_LENGTH avail 4 ctx x (b 1 (\<lambda>b1. b 2 (\<lambda>b2. b 3 (\<lambda>b3.
         Some (4, ctx, set_int (push_bit 24 (opcode - 0xf7) + push_bit 16 b1 + push_bit 8 b2 + b3
                                + BS_UMI_MAX + 1) x)))))
     else if 0xff = opcode then
       CHECK_LENGTH avail 5 ctx x (b 1 (\<lambda>b1. b 2 (\<lambda>b2. b 3 (\<lambda>b3. b 4 (\<lambda>b4.
         Some (5, ctx, set_int ((push_bit 24 b1 + push_bit 16 b2 + push_bit 8 b3 + b4) mod 2 ^ 32) x))))))
     else if 0x00 = opcode then null_result 1 ctx x
     else bsd_error BSD_EINVALID ctx x)))"

section \<open>Collections\<close>

definition decodeCollection ::
  "bsd_ctx_t \<Rightarrow> bsd_data_t \<Rightarrow> bytes \<Rightarrow> int \<Rightarrow> bs_coll_encoding_t \<Rightarrow> dec" where
  "decodeCollection ctx x buffer avail enc =
     octet buffer 0 (\<lambda>opcode.
     CHECK_LENGTH avail 1 ctx x (
     let fixed = (\<lambda>c len nread ctx x.
           let x = x\<lparr>d_type := bsd_typeFromFrameKind (fixed_kind enc), d_content := D_length len\<rparr> in
           CHECK_ERROR (bsd_openContainer (fixed_kind enc) c (signed_take_bit 31 len) ctx) x
             (\<lambda>ctx. Some (nread, ctx, x)));
         variable = (\<lambda>c nread ctx x.
           let x = x\<lparr>d_type := bsd_typeFromFrameKind (variable_kind enc)\<rparr> in
           CHECK_ERROR (bsd_openContainer (variable_kind enc) c (- 1) ctx) x
             (\<lambda>ctx. Some (nread, ctx, x))) in
     if empty_opcode enc = opcode then fixed BS_CTXID_GLOBAL 0 1 ctx x
     else if small_untyped_opcode enc \<le> opcode \<and> opcode \<le> small_untyped_opcode enc + coll_small_limit enc - 1 then
       fixed BS_CTXID_GLOBAL (opcode - small_untyped_opcode enc + 1) 1 ctx x
     else if long_untyped_opcode enc = opcode then
       CHECK_SUBDECODE (bsd_uis ctx x (drop 1 buffer) (avail + 1)) BSD_INT 1 (\<lambda>nread ctx x.
         fixed BS_CTXID_GLOBAL (get_int x + coll_small_limit enc + 1) nread ctx x)
     else if variable_untyped_opcode enc = opcode then variable BS_CTXID_GLOBAL 1 ctx x
     else if small_typed_opcode enc \<le> opcode \<and> opcode \<le> small_typed_opcode enc + coll_small_limit enc - 1 then
       CHECK_LENGTH avail 2 ctx x (octet buffer 1 (\<lambda>b1.
         fixed (nat b1) (opcode - small_typed_opcode enc + 1) 2 ctx x))
     else if long_typed_opcode enc = opcode then
       CHECK_SUBDECODE (bsd_uis ctx x (drop 1 buffer) (avail + 1)) BSD_INT 1 (\<lambda>nread ctx x.
         CHECK_LENGTH avail (nread + 1) ctx x (octet buffer (nat nread) (\<lambda>c.
           fixed (nat c) (get_int x + coll_small_limit enc + 1) (nread + 1) ctx x)))
     else if variable_typed_opcode enc = opcode then
       CHECK_LENGTH avail 2 ctx x (octet buffer 1 (\<lambda>b1. variable (nat b1) 2 ctx x))
     else Some (0, ctx, x)))"

section \<open>Class definitions\<close>

text \<open>The first pass over the fields: only lengths are checked.\<close>

fun fields_pass1 :: "bool \<Rightarrow> bytes \<Rightarrow> int \<Rightarrow> nat \<Rightarrow> int \<Rightarrow> bsd_ctx_t \<Rightarrow> bsd_data_t \<Rightarrow>
    (bsd_ctx_t \<Rightarrow> bsd_data_t \<Rightarrow> dec) \<Rightarrow> dec" where
  "fields_pass1 named buffer avail 0 nread ctx x k = k ctx x"
| "fields_pass1 named buffer avail (Suc n) nread ctx x k =
     (let next = (\<lambda>nread ctx x. CHECK_LENGTH avail (nread + 1) ctx x
                    (fields_pass1 named buffer avail n (nread + 1) ctx x k))
      in if named
         then CHECK_SUBDECODE (bsd_uis ctx x (drop (nat nread) buffer) (avail - nread)) BSD_STRING nread next
         else next nread ctx x)"

text \<open>The second pass: names and contexts are collected.\<close>

fun fields_pass2 :: "bool \<Rightarrow> bytes \<Rightarrow> int \<Rightarrow> nat \<Rightarrow> int \<Rightarrow> bsd_ctx_t \<Rightarrow> bsd_data_t \<Rightarrow> bs_field_t list \<Rightarrow>
    (int \<Rightarrow> bsd_ctx_t \<Rightarrow> bsd_data_t \<Rightarrow> bs_field_t list \<Rightarrow> dec) \<Rightarrow> dec" where
  "fields_pass2 named buffer avail 0 nread ctx x fs k = k nread ctx x fs"
| "fields_pass2 named buffer avail (Suc n) nread ctx x fs k =
     (let next = (\<lambda>name nread ctx x. CHECK_LENGTH avail (nread + 1) ctx x
                    (octet buffer (nat nread) (\<lambda>c.
                       fields_pass2 named buffer avail n (nread + 1) ctx x
                         (fs @ [\<lparr>field_name = name, field_ctxid = nat c\<rparr>]) k)))
      in if named
         then CHECK_SUBDECODE (bsd_uis ctx x (drop (nat nread) buffer) (avail - nread)) BSD_STRING nread
                (\<lambda>nread ctx x. next (Some (get_string x)) nread ctx x)
         else next None nread ctx x)"

definition bsd_addClass :: "bsd_env \<Rightarrow> bsd_ctx_t \<Rightarrow> bs_class_t \<Rightarrow> (int \<times> bsd_ctx_t) option" where
  "bsd_addClass env ctx classdef =
     map_option (\<lambda>(r, coll). (r, ctx\<lparr>d_classcoll := coll\<rparr>))
       (bs_classcoll_set (env_realloc env) (d_classcoll ctx) classdef)"

definition decodeClass :: "bsd_env \<Rightarrow> bsd_ctx_t \<Rightarrow> bsd_data_t \<Rightarrow> bytes \<Rightarrow> int \<Rightarrow> dec" where
  "decodeClass env ctx x buffer avail =
     CHECK_LENGTH avail 1 ctx x (octet buffer 0 (\<lambda>opcode.
     if opcode \<noteq> 0x71 \<and> opcode \<noteq> 0x72 then Some (0, ctx, x)
     else let named = (opcode = 0x71);
              sub = (\<lambda>nread ctx x. bsd_uis ctx x (drop (nat nread) buffer) (avail - nread));
              rest = (\<lambda>cid name nread ctx x.
                CHECK_SUBDECODE (sub nread ctx x) BSD_INT nread (\<lambda>nread ctx x.
                let n = get_int x in
                fields_pass1 named buffer avail (nat n) nread ctx x (\<lambda>ctx x.
                if \<not> env_malloc env then bsd_error BSD_EMEMORY ctx x
                else fields_pass2 named buffer avail (nat (signed_take_bit 31 n)) nread ctx x [] (\<lambda>nread ctx x fs.
                  let classdef = \<lparr>classid = cid, classname = name, nfields = signed_take_bit 31 n,
                        class_mode = BS_CLASS_MANAGED, class_fields = fs, class_addr = env_addr env\<rparr>
                  in case bsd_addClass env ctx classdef of
                       None \<Rightarrow> None
                     | Some (r, ctx) \<Rightarrow>
                         Some (nread, ctx, x\<lparr>d_type := BSD_CLASSDEF, d_content := D_class classdef\<rparr>)))))
          in CHECK_SUBDECODE (sub 1 ctx x) BSD_INT 1 (\<lambda>nread ctx x.
             let cid = nat (get_int x) in
             if named then
               CHECK_SUBDECODE (sub nread ctx x) BSD_STRING nread (\<lambda>nread ctx x.
                 rest cid (Some (get_string x)) nread ctx x)
             else rest cid None nread ctx x)))"

section \<open>Decoding routines\<close>

definition read_float :: "bsd_env \<Rightarrow> bytes \<Rightarrow> nat \<Rightarrow> (f32 \<Rightarrow> dec) \<Rightarrow> dec" where
  "read_float env buffer i k = octets buffer i 4 (\<lambda>v.
     k (word_of_int (mem_value (env_host env) (hton v 4 (e_float (env_sendian env))))))"

definition read_double :: "bsd_env \<Rightarrow> EEndian \<Rightarrow> bytes \<Rightarrow> nat \<Rightarrow> (f64 \<Rightarrow> dec) \<Rightarrow> dec" where
  "read_double env order buffer i k = octets buffer i 8 (\<lambda>v.
     k (word_of_int (mem_value (env_host env) (hton v 8 order))))"

definition set_double :: "f64 \<Rightarrow> bsd_data_t \<Rightarrow> bsd_data_t" where
  "set_double d x = x\<lparr>d_type := BSD_DOUBLE, d_content := D_double d\<rparr>"

definition bsd_global :: "bsd_env \<Rightarrow> bsd_ctx_t \<Rightarrow> bsd_data_t \<Rightarrow> bytes \<Rightarrow> int \<Rightarrow> dec" where
  "bsd_global env ctx x buffer avail =
     CHECK_LENGTH avail 1 ctx x (octet buffer 0 (\<lambda>opcode.
     CHECK_DECODE (decodeInteger env ctx x buffer avail BS_GLOBAL_INTEGER) (\<lambda>ctx x.
     CHECK_DECODE (decodeString ctx x buffer avail BS_GLOBAL_STRING) (\<lambda>ctx x.
     CHECK_DECODE (decodeCollection ctx x buffer avail BS_GLOBAL_LIST) (\<lambda>ctx x.
     CHECK_DECODE (decodeCollection ctx x buffer avail BS_GLOBAL_MAP) (\<lambda>ctx x.
     CHECK_DECODE (decodeClass env ctx x buffer avail) (\<lambda>ctx x.
     let obj = (\<lambda>cid nread ctx x.
           case bsd_object cid ctx x of
             None \<Rightarrow> None
           | Some (r, ctx, x) \<Rightarrow> if r \<noteq> BSD_EOK then bsd_error r ctx x else Some (nread, ctx, x)) in
     if 0x60 \<le> opcode \<and> opcode \<le> 0x6f then obj (nat (opcode - 0x60)) 1 ctx x
     else if opcode = uint BS_G_NULL then null_result 1 ctx x
     else if opcode = 0x01 then Some (1, ctx, x\<lparr>d_type := BSD_BOOL, d_content := D_bool True\<rparr>)
     else if opcode = 0x02 then Some (1, ctx, x\<lparr>d_type := BSD_BOOL, d_content := D_bool False\<rparr>)
     else if opcode = 0x70 then
       CHECK_SUBDECODE (bsd_uis ctx x (drop 1 buffer) (avail - 1)) BSD_INT 1 (\<lambda>nread ctx x.
         obj (u32 (nat (get_int x + 0x10))) nread ctx x)
     else if opcode = uint BS_G_FLOAT32 then
       CHECK_LENGTH avail 5 ctx x (read_float env buffer 1 (\<lambda>f. Some (5, ctx, set_double (f32_to_f64 f) x)))
     else if opcode = uint BS_G_FLOAT64 then
       CHECK_LENGTH avail 9 ctx x (read_double env (e_double (env_sendian env)) buffer 1 (\<lambda>d.
         Some (9, ctx, set_double d x)))
     else bsd_error BSD_EINVALID ctx x)))))))"

definition bsd_chunked :: "bsd_ctx_t \<Rightarrow> bsd_data_t \<Rightarrow> bytes \<Rightarrow> int \<Rightarrow> dec" where
  "bsd_chunked ctx x buffer avail =
     CHECK_LENGTH avail 2 ctx x (octet buffer 0 (\<lambda>b0. octet buffer 1 (\<lambda>b1.
     let chunksize = push_bit 8 b0 + b1 in
     if chunksize = 0 then
       Some (2, ctx\<lparr>d_stacksize := d_stacksize ctx - 1\<rparr>,
             x\<lparr>d_type := BSD_CLOSE, d_content := D_cont_type BSD_CHUNKED_STRING\<rparr>)
     else CHECK_LENGTH avail (chunksize + 2) ctx x (octets buffer 2 (nat chunksize) (\<lambda>s.
            Some (chunksize + 2, ctx, x\<lparr>d_type := BSD_CHUNK, d_content := D_string s\<rparr>))))))"

definition bsd_number :: "bsd_env \<Rightarrow> bsd_ctx_t \<Rightarrow> bsd_data_t \<Rightarrow> bytes \<Rightarrow> int \<Rightarrow> dec" where
  "bsd_number env ctx x buffer avail =
     CHECK_LENGTH avail 1 ctx x (octet buffer 0 (\<lambda>opcode.
     CHECK_DECODE (decodeInteger env ctx x buffer avail BS_NUMBER_INTEGER) (\<lambda>ctx x.
     if opcode = uint BS_N_NULL then null_result 1 ctx x
     else if opcode = uint BS_N_FLOAT32 then
       CHECK_LENGTH avail 5 ctx x (read_float env buffer 1 (\<lambda>f. Some (5, ctx, set_double (f32_to_f64 f) x)))
     else if opcode = uint BS_N_FLOAT64 then
       CHECK_LENGTH avail 9 ctx x (read_double env (e_double (env_sendian env)) buffer 1 (\<lambda>d.
         Some (9, ctx, set_double d x)))
     else bsd_error BSD_EINVALID ctx x)))"

text \<open>The escape octet that follows the reserved pattern of a fixed-width context.\<close>

definition escape :: "int \<Rightarrow> bytes \<Rightarrow> nat \<Rightarrow> bsd_ctx_t \<Rightarrow> bsd_data_t \<Rightarrow> dec" where
  "escape avail buffer n ctx x =
     CHECK_LENGTH avail (int n + 1) ctx x (octet buffer n (\<lambda>e.
       if e = 0x00 then null_result (int n + 1) ctx x
       else if e = 0x01 then Some (int n + 1, ctx, x)
       else bsd_error BSD_EINVALID ctx x))"

definition bsd_int32 :: "bsd_ctx_t \<Rightarrow> bsd_data_t \<Rightarrow> bytes \<Rightarrow> int \<Rightarrow> dec" where
  "bsd_int32 ctx x buffer avail =
     CHECK_LENGTH avail 4 ctx x (octet buffer 0 (\<lambda>b0. octet buffer 1 (\<lambda>b1. octet buffer 2 (\<lambda>b2.
     octet buffer 3 (\<lambda>b3.
     let u = (push_bit 24 b0 + push_bit 16 b1 + push_bit 8 b2 + b3) mod 2 ^ 32;
         x = set_int (signed_take_bit 31 u) x in
     if u = 0x80000000 then escape avail buffer 4 ctx x else Some (4, ctx, x))))))"

definition bsd_float :: "bsd_env \<Rightarrow> bsd_ctx_t \<Rightarrow> bsd_data_t \<Rightarrow> bytes \<Rightarrow> int \<Rightarrow> dec" where
  "bsd_float env ctx x buffer avail =
     CHECK_LENGTH avail 4 ctx x (read_float env buffer 0 (\<lambda>u.
     let x = set_double (f32_to_f64 u) x in
     if u = 0xFFFFFFFF then escape avail buffer 4 ctx x else Some (4, ctx, x)))"

text \<open>The conversion uses the order detected for single precision, as the source does.\<close>

definition bsd_double :: "bsd_env \<Rightarrow> bsd_ctx_t \<Rightarrow> bsd_data_t \<Rightarrow> bytes \<Rightarrow> int \<Rightarrow> dec" where
  "bsd_double env ctx x buffer avail =
     CHECK_LENGTH avail 8 ctx x (read_double env (e_float (env_sendian env)) buffer 0 (\<lambda>u.
     let x = set_double u x in
     if u = 0xFFFFFFFFFFFFFFFF then escape avail buffer 8 ctx x else Some (8, ctx, x)))"

definition bsd_listmap :: "bsd_ctx_t \<Rightarrow> bsd_data_t \<Rightarrow> bytes \<Rightarrow> int \<Rightarrow> dec" where
  "bsd_listmap ctx x buffer avail =
     CHECK_LENGTH avail 1 ctx x (octet buffer 0 (\<lambda>opcode.
     CHECK_DECODE (decodeCollection ctx x buffer avail BS_LISTMAP_LIST) (\<lambda>ctx x.
     CHECK_DECODE (decodeCollection ctx x buffer avail BS_LISTMAP_MAP) (\<lambda>ctx x.
     if opcode = 0 then null_result 1 ctx x else bsd_error BSD_EINVALID ctx x))))"

section \<open>Public operations\<close>

text \<open>The kind of the element and, in an object, the name of the field it fills.\<close>

definition set_kind :: "stackframe \<Rightarrow> bsd_data_t \<Rightarrow> bsd_data_t option" where
  "set_kind f x =
     (case bsd_getFrameDataKind f of
        None \<Rightarrow> None
      | Some k \<Rightarrow>
          if k = BSD_KOBJFIELD then
            (case content f of
               C_map _ \<Rightarrow> None
             | C_object cls \<Rightarrow>
                 let i = nfields cls - (missing f + 1) in
                 if 0 \<le> i \<and> nat i < length (class_fields cls)
                 then Some (x\<lparr>d_kind := k, d_fieldname := field_name (class_fields cls ! nat i)\<rparr>)
                 else None)
          else Some (x\<lparr>d_kind := k\<rparr>))"

definition decode_in :: "bsd_env \<Rightarrow> nat \<Rightarrow> bsd_ctx_t \<Rightarrow> bsd_data_t \<Rightarrow> bytes \<Rightarrow> int \<Rightarrow> dec" where
  "decode_in env c ctx x buffer avail =
     (if c = BS_CTXID_GLOBAL then bsd_global env ctx x buffer avail
      else if c = BS_CTXID_UNSIGNED_OR_STRING then bsd_uis ctx x buffer avail
      else if c = BS_CTXID_NUMBER then bsd_number env ctx x buffer avail
      else if c = BS_CTXID_INT32 then bsd_int32 ctx x buffer avail
      else if c = BS_CTXID_FLOAT then bsd_float env ctx x buffer avail
      else if c = BS_CTXID_DOUBLE then bsd_double env ctx x buffer avail
      else if c = BS_CTXID_LIST_OR_MAP then bsd_listmap ctx x buffer avail
      else if c = BS_CTXID_CHUNKED then bsd_chunked ctx x buffer avail
      else bsd_error BSD_EBADCONTEXT ctx x)"

text \<open>The frame the element was read in counts it, unless the element is a class definition.\<close>

definition count_read :: "stackframe \<Rightarrow> stackframe option" where
  "count_read f =
     (let f = (if 0 < missing f then f\<lparr>missing := missing f - 1\<rparr> else f) in
      if kind f = BS_FMAP \<or> kind f = BS_FZMAP then
        (case content f of C_map e \<Rightarrow> Some (f\<lparr>content := C_map (e XOR 1)\<rparr>) | C_object _ \<Rightarrow> None)
      else Some f)"

definition finish_read :: "nat \<Rightarrow> int \<Rightarrow> bsd_ctx_t \<Rightarrow> bsd_data_t \<Rightarrow> dec" where
  "finish_read i nread ctx x =
     (if d_stacksize ctx > i
      then Some (nread, ctx\<lparr>d_read := d_read ctx + nat nread\<rparr>, x\<lparr>d_kind := BSD_KNEWCONTAINER\<rparr>)
      else map_option (\<lambda>x. (nread, ctx\<lparr>d_read := d_read ctx + nat nread\<rparr>, x))
             (set_kind (bsd_topframe ctx) x))"

definition bsd_read :: "bsd_env \<Rightarrow> bsd_ctx_t \<Rightarrow> bsd_data_t \<Rightarrow> bytes \<Rightarrow> int \<Rightarrow> dec" where
  "bsd_read env ctx x buffer avail =
     (let i = d_stacksize ctx; f = bsd_topframe ctx; x = x\<lparr>d_type := BSD_NULL\<rparr> in
      if missing f = 0 then
        let ctx = ctx\<lparr>d_stacksize := d_stacksize ctx - 1\<rparr> in
        map_option (\<lambda>x. (0, ctx, x))
          (set_kind (bsd_topframe ctx)
             (x\<lparr>d_type := BSD_CLOSE, d_content := D_cont_type (bsd_typeFromFrameKind (kind f))\<rparr>))
      else case getctxid f of
             None \<Rightarrow> None
           | Some c \<Rightarrow>
               (case decode_in env c ctx x buffer avail of
                  None \<Rightarrow> None
                | Some (nread, ctx, x) \<Rightarrow>
                    if nread < 0 \<or> d_type x = BSD_ERROR then Some (nread, ctx, x)
                    else if d_type x = BSD_CLASSDEF then finish_read i nread ctx x
                    else case count_read (d_stack ctx ! i) of
                           None \<Rightarrow> None
                         | Some f \<Rightarrow> finish_read i nread (ctx\<lparr>d_stack := (d_stack ctx)[i := f]\<rparr>) x))"

definition bsd_init :: "EEndian \<Rightarrow> bsd_ctx_t \<Rightarrow> SEndian \<times> bsd_ctx_t" where
  "bsd_init h ctx =
     (host_sendian h,
      ctx\<lparr>d_read := 0, d_broken := False, d_stacksize := 0,
          d_stack := (d_stack ctx)[0 := (d_stack ctx ! 0)\<lparr>kind := BS_FTOP, ctxid := BS_CTXID_GLOBAL,
                                                            missing := - 1\<rparr>],
          d_classcoll := bs_classcoll_init\<rparr>)"

definition bsd_reset :: "bsd_ctx_t \<Rightarrow> bsd_ctx_t option" where
  "bsd_reset ctx = map_option (\<lambda>coll. ctx\<lparr>d_classcoll := coll\<rparr>) (bs_classcoll_reset (d_classcoll ctx))"

end
