(* ===== verification/Bysant_Ser.thy ===== *)
theory Bysant_Ser
  imports Bysant_Common Bysant_Float Rc_Endian
begin

text \<open>
  \<open>libs/bysant/bysants.c\<close>: the streaming serializer. A context holds the writer callback
  and its state, the counters of the current transaction and the stack of open containers.
  Every public operation is a transaction: a writer that accepts only part of the data makes
  it return \<open>BSS_EAGAIN\<close>, and calling it again skips the octets already written.

  Internal functions map a context to a status and a context; public ones return \<open>None\<close> on
  undefined behaviour (the field of an object outside its class, the wrong member of a
  frame's union, a double outside \<open>int64_t\<close>). The first argument \<open>h\<close> of the floating-point
  functions is the byte order of the host, the argument \<open>r\<close> of \<open>bss_class\<close> the outcome of
  \<open>realloc\<close>. Counters are unbounded; C's \<open>int\<close> overflows after \<open>2 ^ 31\<close> octets.
\<close>

section \<open>Status codes and context\<close>

definition BSS_EOK :: int where "BSS_EOK = 0"
definition BSS_EAGAIN :: int where "BSS_EAGAIN = 1"
definition BSS_ETOODEEP :: int where "BSS_ETOODEEP = - 2"
definition BSS_EINVALID :: int where "BSS_EINVALID = - 3"
definition BSS_EBROKEN :: int where "BSS_EBROKEN = - 5"
definition BSS_ENOCONTAINER :: int where "BSS_ENOCONTAINER = - 6"
definition BSS_EBADMAP :: int where "BSS_EBADMAP = - 7"
definition BSS_ESIZE :: int where "BSS_ESIZE = - 8"
definition BSS_EBADCTXID :: int where "BSS_EBADCTXID = - 9"
definition BSS_EBADCONTEXT :: int where "BSS_EBADCONTEXT = - 10"
definition BSS_EBADCLASSID :: int where "BSS_EBADCLASSID = - 11"
definition BSS_EBADFIELD :: int where "BSS_EBADFIELD = - 12"
definition BSS_EOUTOFBOUNDS :: int where "BSS_EOUTOFBOUNDS = - 13"
definition BSS_EINTERNAL :: int where "BSS_EINTERNAL = - 100"

lemmas bss_status_defs = BSS_EOK_def BSS_EAGAIN_def BSS_ETOODEEP_def BSS_EINVALID_def BSS_EBROKEN_def
  BSS_ENOCONTAINER_def BSS_EBADMAP_def BSS_ESIZE_def BSS_EBADCTXID_def BSS_EBADCONTEXT_def
  BSS_EBADCLASSID_def BSS_EBADFIELD_def BSS_EOUTOFBOUNDS_def BSS_EINTERNAL_def

record 'w bss_ctx_t =
  writer :: "bytes \<Rightarrow> 'w \<Rightarrow> int \<times> 'w"
  writerctx :: 'w
  written :: int
  acknowledged :: int
  skipped :: int
  broken :: bool
  stacksize :: nat
  acknowledged_stacksize :: nat
  classcoll :: bs_classcoll_t
  stack :: "stackframe list"

type_synonym 'w ser = "'w bss_ctx_t \<Rightarrow> int \<times> 'w bss_ctx_t"
type_synonym 'w ser_op = "'w bss_ctx_t \<Rightarrow> (int \<times> 'w bss_ctx_t) option"

definition topframe :: "'w bss_ctx_t \<Rightarrow> stackframe" where
  "topframe ctx = stack ctx ! stacksize ctx"

definition set_topframe :: "stackframe \<Rightarrow> 'w bss_ctx_t \<Rightarrow> 'w bss_ctx_t" where
  "set_topframe f ctx = ctx\<lparr>stack := (stack ctx)[stacksize ctx := f]\<rparr>"

section \<open>Transactions\<close>

definition fixed_frame :: "bs_stackframekind_t \<Rightarrow> bool" where
  "fixed_frame k \<longleftrightarrow> k = BS_FLIST \<or> k = BS_FMAP \<or> k = BS_FOBJECT"

definition startTransaction :: "'w ser" where
  "startTransaction ctx =
     (let f = topframe ctx; ctx = ctx\<lparr>stacksize := acknowledged_stacksize ctx\<rparr> in
      if broken ctx then (BSS_EBROKEN, ctx)
      else if fixed_frame (kind f) \<and> missing f = 0 then (BSS_ESIZE, ctx)
      else (BSS_EOK, ctx\<lparr>skipped := 0\<rparr>))"

text \<open>The parity flag of a map frame is flipped; \<open>None\<close> when the frame holds a class instead.\<close>

definition flip_even :: "stackframe \<Rightarrow> stackframe option" where
  "flip_even f = (case content f of C_map e \<Rightarrow> Some (f\<lparr>content := C_map (e XOR 1)\<rparr>) | C_object _ \<Rightarrow> None)"

definition commit_fixed :: "stackframe \<Rightarrow> 'w ser" where
  "commit_fixed f ctx =
     (if missing f = 0 then (BSS_ESIZE, set_topframe f ctx)
      else let ctx = set_topframe (f\<lparr>missing := missing f - 1\<rparr>) ctx in
           (BSS_EOK, ctx\<lparr>acknowledged := written ctx, acknowledged_stacksize := stacksize ctx\<rparr>))"

definition commitTransaction :: "'w ser_op" where
  "commitTransaction ctx =
     (let f = topframe ctx;
          ack = (\<lambda>f. let ctx = set_topframe f ctx in
                     (BSS_EOK, ctx\<lparr>acknowledged := written ctx, acknowledged_stacksize := stacksize ctx\<rparr>))
      in case kind f of
           BS_FZMAP \<Rightarrow> map_option ack (flip_even f)
         | BS_FMAP \<Rightarrow> map_option (\<lambda>f. commit_fixed f ctx) (flip_even f)
         | BS_FLIST \<Rightarrow> Some (commit_fixed f ctx)
         | BS_FOBJECT \<Rightarrow> Some (commit_fixed f ctx)
         | BS_FZLIST \<Rightarrow> Some (ack f)
         | BS_FCHUNKED \<Rightarrow> Some (ack f)
         | BS_FTOP \<Rightarrow> Some (ack f)
         | BS_FCLASSDEF \<Rightarrow> Some (BSS_EINTERNAL, ctx))"

definition COMMIT_AND_RETURN :: "'w ser_op" where
  "COMMIT_AND_RETURN ctx =
     map_option (\<lambda>(r, ctx). (r, if r = BSS_EOK then ctx\<lparr>acknowledged := written ctx\<rparr> else ctx))
       (commitTransaction ctx)"

text \<open>
  \<open>TRY\<close> runs a step and returns from the function unless it succeeded; an error other than
  an overflow marks the stream as broken when part of the transaction was written. \<open>TRY\<close>
  continues with an internal function, \<open>TRYC\<close> with the rest of a public one.
\<close>

definition try_fail :: "int \<Rightarrow> 'w bss_ctx_t \<Rightarrow> int \<times> 'w bss_ctx_t" where
  "try_fail r ctx =
     (if r = BSS_EAGAIN then (r, ctx)
      else (r, if written ctx \<noteq> acknowledged ctx then ctx\<lparr>broken := True\<rparr> else ctx))"

definition TRY :: "'w ser \<Rightarrow> 'w ser \<Rightarrow> 'w ser" where
  "TRY it k ctx = (case it ctx of (r, ctx) \<Rightarrow> if r = BSS_EOK then k ctx else try_fail r ctx)"

definition TRYC :: "'w ser \<Rightarrow> 'w ser_op \<Rightarrow> 'w ser_op" where
  "TRYC it k ctx = (case it ctx of (r, ctx) \<Rightarrow> if r = BSS_EOK then k ctx else Some (try_fail r ctx))"

definition START_TRANSACTION :: "'w ser_op \<Rightarrow> 'w ser_op" where
  "START_TRANSACTION k ctx =
     (case startTransaction ctx of (r, ctx) \<Rightarrow> if r = BSS_EOK then k ctx else Some (r, ctx))"

definition done_ok :: "'w ser" where
  "done_ok ctx = (BSS_EOK, ctx)"

section \<open>Writing octets\<close>

definition writeData :: "bytes \<Rightarrow> 'w ser" where
  "writeData buffer ctx =
     (let toskip = written ctx - acknowledged ctx - skipped ctx in
      if 0 < toskip \<and> int (length buffer) \<le> toskip
      then (BSS_EOK, ctx\<lparr>skipped := skipped ctx + int (length buffer)\<rparr>)
      else let ctx = (if 0 < toskip then ctx\<lparr>skipped := skipped ctx + toskip\<rparr> else ctx);
               buffer = drop (nat toskip) buffer;
               (n, w) = writer ctx buffer (writerctx ctx);
               ctx = ctx\<lparr>writerctx := w\<rparr>
           in if n < 0 then (n, ctx)
              else (if n = int (length buffer) then BSS_EOK else BSS_EAGAIN,
                    ctx\<lparr>written := written ctx + n, skipped := skipped ctx + n\<rparr>))"

definition WRITE_BYTES_MAX :: nat where
  "WRITE_BYTES_MAX = 4"

definition writeBytes :: "int list \<Rightarrow> 'w ser" where
  "writeBytes ks ctx =
     (if WRITE_BYTES_MAX < length ks then (BSS_EINTERNAL, ctx)
      else writeData (map word_of_int ks) ctx)"

definition writeByte :: "int \<Rightarrow> 'w ser" where
  "writeByte k = writeData [u8 k]"

section \<open>Integers\<close>

definition COMPUTE_OFFSET :: "int \<Rightarrow> int \<Rightarrow> int \<Rightarrow> int" where
  "COMPUTE_OFFSET x ifneg ifpos = (if x < 0 then (- x) - (- ifneg + 1) else x - (ifpos + 1))"

fun writeIntegerBigEndian :: "int \<Rightarrow> nat \<Rightarrow> 'w ser" where
  "writeIntegerBigEndian x 0 = done_ok"
| "writeIntegerBigEndian x (Suc n) =
     TRY (writeByte (drop_bit (8 * n) x AND 0xff)) (writeIntegerBigEndian x n)"

definition writeInteger :: "int \<Rightarrow> bs_integer_encoding_t \<Rightarrow> 'w ser" where
  "writeInteger x enc =
     (if tiny_min enc \<le> x \<and> x \<le> tiny_max enc then writeByte (tiny_zero_opcode enc + x)
      else if small_min enc \<le> x \<and> x \<le> small_max enc then
        let offset = COMPUTE_OFFSET x (tiny_min enc) (tiny_max enc);
            opbase = (if x < 0 then small_neg_opcode enc else small_pos_opcode enc)
        in writeBytes [opbase + drop_bit 8 offset, offset AND 0xff]
      else if medium_min enc \<le> x \<and> x \<le> medium_max enc then
        let offset = COMPUTE_OFFSET x (small_min enc) (small_max enc);
            opbase = (if x < 0 then medium_neg_opcode enc else medium_pos_opcode enc)
        in writeBytes [opbase + drop_bit 16 offset, drop_bit 8 offset AND 0xff, offset AND 0xff]
      else if large_min enc \<le> x \<and> x \<le> large_max enc then
        let offset = COMPUTE_OFFSET x (medium_min enc) (medium_max enc);
            opbase = (if x < 0 then large_neg_opcode enc else large_pos_opcode enc)
        in writeBytes [opbase + drop_bit 24 offset, drop_bit 16 offset AND 0xff,
                       drop_bit 8 offset AND 0xff, offset AND 0xff]
      else if signed_take_bit 31 x = x then
        TRY (writeByte (int32_opcode enc)) (TRY (writeIntegerBigEndian x 4) done_ok)
      else
        TRY (writeByte (int64_opcode enc)) (TRY (writeIntegerBigEndian x 8) done_ok))"

text \<open>The argument is a \<open>uint32_t\<close>; callers convert to it.\<close>

definition writeUnsignedInteger :: "int \<Rightarrow> 'w ser" where
  "writeUnsignedInteger x =
     (if x \<le> BS_UTI_MAX then writeByte (x + 0x3b)
      else if x \<le> BS_USI_MAX then
        let offset = x - (BS_UTI_MAX + 1)
        in writeBytes [0xc7 + drop_bit 8 offset, offset AND 0xff]
      else if x \<le> BS_UMI_MAX then
        let offset = x - (BS_USI_MAX + 1)
        in writeBytes [0xe7 + drop_bit 16 offset, drop_bit 8 offset AND 0xff, offset AND 0xff]
      else if x \<le> BS_ULI_MAX then
        let offset = x - (BS_UMI_MAX + 1)
        in writeBytes [0xf7 + drop_bit 24 offset, drop_bit 16 offset AND 0xff,
                       drop_bit 8 offset AND 0xff, offset AND 0xff]
      else TRY (writeByte 0xff) (TRY (writeIntegerBigEndian x 4) done_ok))"

definition to_uint32 :: "int \<Rightarrow> int" where
  "to_uint32 x = x mod 2 ^ 32"

section \<open>Floating point\<close>

definition FLOAT_BYTES :: "nat list" where "FLOAT_BYTES = [3, 2, 1, 0]"
definition DOUBLE_BYTES :: "nat list" where "DOUBLE_BYTES = [7, 6, 5, 4, 3, 2, 1, 0]"

record bss_float_encoding_t =
  float32_opcode :: byte
  float64_opcode :: byte

definition GLOBAL_FLOAT_OPCODES :: bss_float_encoding_t where
  "GLOBAL_FLOAT_OPCODES = \<lparr>float32_opcode = BS_G_FLOAT32, float64_opcode = BS_G_FLOAT64\<rparr>"

definition NUMBER_FLOAT_OPCODES :: bss_float_encoding_t where
  "NUMBER_FLOAT_OPCODES = \<lparr>float32_opcode = BS_N_FLOAT32, float64_opcode = BS_N_FLOAT64\<rparr>"

text \<open>The loop over the octets of the memory image in the order of an index table.\<close>

fun write_indexed :: "bytes \<Rightarrow> nat list \<Rightarrow> 'w ser" where
  "write_indexed k [] = done_ok"
| "write_indexed k (i # is) = TRY (writeByte (uint (k ! i))) (write_indexed k is)"

definition writeFloat32 :: "EEndian \<Rightarrow> f32 \<Rightarrow> 'w ser" where
  "writeFloat32 h x = write_indexed (mem_of h 4 (uint x)) FLOAT_BYTES"

definition writeFloat64 :: "EEndian \<Rightarrow> f64 \<Rightarrow> 'w ser" where
  "writeFloat64 h x = write_indexed (mem_of h 8 (uint x)) DOUBLE_BYTES"

definition writeFloat :: "EEndian \<Rightarrow> f64 \<Rightarrow> bss_float_encoding_t \<Rightarrow> 'w ser" where
  "writeFloat h x enc =
     (if f64_eq (f32_to_f64 (f64_to_f32 x)) x then
        TRY (writeByte (uint (float32_opcode enc))) (TRY (writeFloat32 h (f64_to_f32 x)) done_ok)
      else
        TRY (writeByte (uint (float64_opcode enc))) (TRY (writeFloat64 h x) done_ok))"

section \<open>Strings\<close>

function writeChunk :: "bytes \<Rightarrow> 'w ser" where
  "writeChunk data =
     (if 0xffff < length data then
        TRY (writeBytes [0xff, 0xff])
          (TRY (writeData (take 0xffff data)) (writeChunk (drop 0xffff data)))
      else if 0 < length data then
        TRY (writeBytes [drop_bit 8 (int (length data)), int (length data) AND 0xff])
          (TRY (writeData data) done_ok)
      else done_ok)"
  by pat_completeness auto
termination
  by (relation "measure length") auto

declare writeChunk.simps [simp del]

definition writeString :: "bytes \<Rightarrow> bs_string_encoding_t \<Rightarrow> 'w ser" where
  "writeString data enc =
     (let len = int (length data) in
      if len \<le> small_limit enc then
        TRY (writeByte (small_opcode enc + len)) (TRY (writeData data) done_ok)
      else if len \<le> medium_limit enc then
        let sent_len = len - (small_limit enc + 1) in
        TRY (writeBytes [medium_opcode enc + drop_bit 8 sent_len, sent_len AND 0xff])
          (TRY (writeData data) done_ok)
      else if len \<le> large_limit enc then
        let sent_len = len - (medium_limit enc + 1) in
        TRY (writeBytes [large_opcode enc, drop_bit 8 sent_len, sent_len AND 0xff])
          (TRY (writeData data) done_ok)
      else
        TRY (writeByte (chunked_opcode enc))
          (TRY (writeChunk data) (TRY (writeBytes [0, 0]) done_ok)))"

section \<open>Containers\<close>

text \<open>A negative prefix is not written.\<close>

definition push_frame :: "bs_stackframekind_t \<Rightarrow> nat \<Rightarrow> 'w bss_ctx_t \<Rightarrow> 'w bss_ctx_t" where
  "push_frame k c ctx =
     (let ctx = ctx\<lparr>stacksize := stacksize ctx + 1\<rparr>
      in set_topframe ((topframe ctx)\<lparr>kind := k, ctxid := c\<rparr>) ctx)"

definition openContainer :: "bs_stackframekind_t \<Rightarrow> nat \<Rightarrow> int \<Rightarrow> 'w ser" where
  "openContainer k c prefix ctx =
     (if stacksize ctx = STACK_SIZE - 1 then (BSS_ETOODEEP, ctx)
      else let ctx = push_frame k c ctx in
           if 0 \<le> prefix then writeByte prefix ctx else (BSS_EOK, ctx))"

definition openCollection :: "int \<Rightarrow> nat \<Rightarrow> bs_coll_encoding_t \<Rightarrow> 'w ser" where
  "openCollection len c enc =
     (let hastype = c \<noteq> BS_CTXID_GLOBAL;
          tail = (if len \<noteq> 0 \<and> hastype then TRY (writeByte (int c)) done_ok else done_ok) in
      if BS_CTXID_LAST \<le> c then (\<lambda>ctx. (BSS_EBADFIELD, ctx))
      else if len < 0 then
        let opcode = (if hastype then variable_typed_opcode enc else variable_untyped_opcode enc)
        in TRY (openContainer (variable_kind enc) c opcode) tail
      else if len = 0 then TRY (openContainer (fixed_kind enc) c (empty_opcode enc)) tail
      else if len \<le> coll_small_limit enc then
        let opcode = (if hastype then small_typed_opcode enc else small_untyped_opcode enc)
        in TRY (openContainer (fixed_kind enc) c (len + opcode - 1)) tail
      else
        let opcode = (if hastype then long_typed_opcode enc else long_untyped_opcode enc)
        in TRY (openContainer (fixed_kind enc) c opcode)
             (TRY (writeUnsignedInteger (to_uint32 (len - (coll_small_limit enc + 1)))) tail))"

definition getNullToken :: "nat \<Rightarrow> bytes" where
  "getNullToken c =
     (if c = BS_CTXID_INT32 then [0x80, 0, 0, 0, 0]
      else if c = BS_CTXID_FLOAT then [0xff, 0xff, 0xff, 0xff, 0]
      else if c = BS_CTXID_DOUBLE then [0xff, 0xff, 0xff, 0xff, 0xff, 0xff, 0xff, 0xff, 0]
      else [0])"

section \<open>Public operations\<close>

definition bss_reset :: "'w bss_ctx_t \<Rightarrow> 'w bss_ctx_t option" where
  "bss_reset ctx =
     map_option (\<lambda>coll. ctx\<lparr>classcoll := coll, written := 0, acknowledged := 0, skipped := 0,
         broken := False, stacksize := 0, acknowledged_stacksize := 0,
         stack := (stack ctx)[0 := (stack ctx ! 0)\<lparr>kind := BS_FTOP, ctxid := BS_CTXID_GLOBAL\<rparr>]\<rparr>)
       (bs_classcoll_reset (classcoll ctx))"

definition bss_init ::
  "(bytes \<Rightarrow> 'w \<Rightarrow> int \<times> 'w) \<Rightarrow> 'w \<Rightarrow> 'w bss_ctx_t \<Rightarrow> 'w bss_ctx_t option" where
  "bss_init wr wctx ctx =
     bss_reset (ctx\<lparr>writer := wr, writerctx := wctx, classcoll := bs_classcoll_init\<rparr>)"

definition pop_and_commit :: "'w ser_op" where
  "pop_and_commit ctx = COMMIT_AND_RETURN (ctx\<lparr>stacksize := stacksize ctx - 1\<rparr>)"

definition bss_close :: "'w ser_op" where
  "bss_close ctx =
     (let frame = topframe ctx in
      case kind frame of
        BS_FZMAP \<Rightarrow>
          START_TRANSACTION (\<lambda>ctx.
            case content frame of
              C_map e \<Rightarrow>
                if e = 0 then Some (BSS_EBADMAP, ctx)
                else TRYC (writeData (getNullToken BS_CTXID_UNSIGNED_OR_STRING)) pop_and_commit ctx
            | C_object _ \<Rightarrow> None) ctx
      | BS_FZLIST \<Rightarrow>
          START_TRANSACTION (TRYC (writeData (getNullToken (ctxid frame))) pop_and_commit) ctx
      | BS_FOBJECT \<Rightarrow> if missing frame \<noteq> 0 then Some (BSS_ESIZE, ctx) else pop_and_commit ctx
      | BS_FLIST \<Rightarrow> if missing frame \<noteq> 0 then Some (BSS_ESIZE, ctx) else pop_and_commit ctx
      | BS_FMAP \<Rightarrow> if missing frame \<noteq> 0 then Some (BSS_ESIZE, ctx) else pop_and_commit ctx
      | BS_FCHUNKED \<Rightarrow> START_TRANSACTION (TRYC (writeBytes [0, 0]) pop_and_commit) ctx
      | BS_FTOP \<Rightarrow> Some (BSS_ENOCONTAINER, ctx)
      | BS_FCLASSDEF \<Rightarrow> Some (BSS_EINTERNAL, ctx))"

text \<open>Dispatch on the context of the next value; the whole operation is undefined when it is.\<close>

definition with_ctxid :: "(nat \<Rightarrow> 'w ser_op) \<Rightarrow> 'w ser_op" where
  "with_ctxid k ctx = (case getctxid (topframe ctx) of None \<Rightarrow> None | Some c \<Rightarrow> k c ctx)"

definition fail :: "int \<Rightarrow> 'w ser_op" where
  "fail r ctx = Some (r, ctx)"

definition bss_object :: "nat \<Rightarrow> 'w ser_op" where
  "bss_object cid ctx =
     (let direct = cid < 0x10 in
      case bs_classcoll_get (classcoll ctx) cid of
        None \<Rightarrow> None
      | Some found \<Rightarrow>
          with_ctxid (\<lambda>c.
            if c \<noteq> BS_CTXID_GLOBAL then fail BSS_EBADCONTEXT
            else case found of
                   None \<Rightarrow> fail BSS_EBADCLASSID
                 | Some cls \<Rightarrow>
                     START_TRANSACTION
                       (TRYC (openContainer BS_FOBJECT BS_CTXID_OBJECT (if direct then 0x60 + int cid else 0x70))
                         (TRYC (if direct then done_ok else writeUnsignedInteger (to_uint32 (int cid - 0x10)))
                           (\<lambda>ctx. COMMIT_AND_RETURN
                              (set_topframe ((topframe ctx)\<lparr>missing := nfields cls + 1, content := C_object cls\<rparr>)
                                 ctx))))) ctx)"

text \<open>The check of the fields: \<open>None\<close> when a field is outside the array.\<close>

fun check_fields :: "bool \<Rightarrow> nat \<Rightarrow> bs_field_t list \<Rightarrow> bool option" where
  "check_fields named 0 fs = Some True"
| "check_fields named (Suc n) [] = None"
| "check_fields named (Suc n) (f # fs) =
     (if named \<and> field_name f = None \<or> BS_CTXID_LAST \<le> field_ctxid f then Some False
      else check_fields named n fs)"

fun write_fields :: "bool \<Rightarrow> bs_field_t list \<Rightarrow> 'w ser" where
  "write_fields named [] = done_ok"
| "write_fields named (f # fs) =
     (let rest = TRY (writeByte (int (field_ctxid f))) (write_fields named fs) in
      if named then TRY (writeString (cstr (the (field_name f))) BS_UIS_STRING) rest else rest)"

definition write_class :: "bs_class_t \<Rightarrow> 'w ser" where
  "write_class classdef =
     (let named = (classname classdef \<noteq> None);
          rest = TRY (writeUnsignedInteger (to_uint32 (nfields classdef)))
                   (write_fields named (take (nat (nfields classdef)) (class_fields classdef)))
      in TRY (writeByte (if named then 0x71 else 0x72))
           (TRY (writeUnsignedInteger (int (classid classdef)))
             (if named then TRY (writeString (cstr (the (classname classdef))) BS_UIS_STRING) rest
              else rest)))"

definition uncount :: "stackframe \<Rightarrow> stackframe option" where
  "uncount f =
     (case kind f of
        BS_FZMAP \<Rightarrow> flip_even f
      | BS_FMAP \<Rightarrow> map_option (\<lambda>f. f\<lparr>missing := missing f + 1\<rparr>) (flip_even f)
      | BS_FLIST \<Rightarrow> Some (f\<lparr>missing := missing f + 1\<rparr>)
      | BS_FOBJECT \<Rightarrow> Some (f\<lparr>missing := missing f + 1\<rparr>)
      | _ \<Rightarrow> Some f)"

definition register_class :: "bool \<Rightarrow> bs_class_t \<Rightarrow> bool \<Rightarrow> 'w ser_op" where
  "register_class r classdef internal ctx =
     (case bs_classcoll_set r (classcoll ctx) classdef of
        None \<Rightarrow> None
      | Some (res, coll) \<Rightarrow>
          let ctx = ctx\<lparr>classcoll := coll\<rparr> in
          if res \<noteq> 0 then Some (BSS_EINTERNAL, ctx\<lparr>broken := True\<rparr>)
          else if internal then Some (BSS_EOK, ctx)
          else case uncount (topframe ctx) of
                 None \<Rightarrow> None
               | Some f \<Rightarrow> COMMIT_AND_RETURN (set_topframe f ctx))"

definition bss_class :: "bool \<Rightarrow> bs_class_t \<Rightarrow> bool \<Rightarrow> 'w ser_op" where
  "bss_class r classdef internal ctx =
     (case check_fields (classname classdef \<noteq> None) (nat (nfields classdef)) (class_fields classdef) of
        None \<Rightarrow> None
      | Some False \<Rightarrow> Some (BSS_EBADFIELD, ctx)
      | Some True \<Rightarrow>
          if internal then register_class r classdef internal ctx
          else with_ctxid (\<lambda>c.
                 if c \<noteq> BS_CTXID_GLOBAL then fail BSS_EBADCONTEXT
                 else START_TRANSACTION (TRYC (write_class classdef) (register_class r classdef internal))) ctx)"

definition bss_map :: "int \<Rightarrow> nat \<Rightarrow> 'w ser_op" where
  "bss_map len ty =
     with_ctxid (\<lambda>c.
       let go = (\<lambda>enc. if BS_CTXID_LAST \<le> ty then fail BSS_EBADMAP
                       else START_TRANSACTION (TRYC (openCollection len ty enc) (\<lambda>ctx.
                         let f = topframe ctx;
                             f = (if 0 \<le> len then f\<lparr>missing := len * 2 + 1\<rparr> else f)
                         in COMMIT_AND_RETURN (set_topframe (f\<lparr>content := C_map 0\<rparr>) ctx))))
       in if c = BS_CTXID_GLOBAL then go BS_GLOBAL_MAP
          else if c = BS_CTXID_LIST_OR_MAP then go BS_LISTMAP_MAP
          else fail BSS_EBADCONTEXT)"

definition bss_list :: "int \<Rightarrow> nat \<Rightarrow> 'w ser_op" where
  "bss_list len ty =
     with_ctxid (\<lambda>c.
       let go = (\<lambda>enc. if BS_CTXID_LAST \<le> ty then fail BSS_EBADCTXID
                       else START_TRANSACTION (TRYC (openCollection len ty enc) (\<lambda>ctx.
                         let f = topframe ctx;
                             f = (if 0 \<le> len then f\<lparr>missing := len + 1\<rparr> else f)
                         in COMMIT_AND_RETURN (set_topframe f ctx))))
       in if c = BS_CTXID_GLOBAL then go BS_GLOBAL_LIST
          else if c = BS_CTXID_LIST_OR_MAP then go BS_LISTMAP_LIST
          else fail BSS_EBADCONTEXT)"

definition bss_chunked :: "'w ser_op" where
  "bss_chunked =
     with_ctxid (\<lambda>c.
       let go = (\<lambda>opcode. START_TRANSACTION
                   (TRYC (openContainer BS_FCHUNKED BS_CTXID_CHUNKED opcode) COMMIT_AND_RETURN))
       in if c = BS_CTXID_GLOBAL then go (chunked_opcode BS_GLOBAL_STRING)
          else if c = BS_CTXID_UNSIGNED_OR_STRING then go (chunked_opcode BS_UIS_STRING)
          else fail BSS_EBADCONTEXT)"

definition bss_chunk :: "bytes \<Rightarrow> 'w ser_op" where
  "bss_chunk data ctx =
     (if ctxid (topframe ctx) \<noteq> BS_CTXID_CHUNKED then Some (BSS_EBADCONTEXT, ctx)
      else if length data \<le> 0 then Some (BSS_EINVALID, ctx)
      else START_TRANSACTION (TRYC (writeChunk data) COMMIT_AND_RETURN) ctx)"

definition bss_int :: "int \<Rightarrow> 'w ser_op" where
  "bss_int x =
     with_ctxid (\<lambda>c.
       if c = BS_CTXID_GLOBAL then
         START_TRANSACTION (TRYC (writeInteger x BS_GLOBAL_INTEGER) COMMIT_AND_RETURN)
       else if c = BS_CTXID_NUMBER then
         START_TRANSACTION (TRYC (writeInteger x BS_NUMBER_INTEGER) COMMIT_AND_RETURN)
       else if c = BS_CTXID_UNSIGNED_OR_STRING then
         (if x < 0 then fail BSS_EBADCONTEXT
          else START_TRANSACTION (TRYC (writeUnsignedInteger (to_uint32 x)) COMMIT_AND_RETURN))
       else if c = BS_CTXID_INT32 then
         (let y = signed_take_bit 31 x in
          if x \<noteq> y then fail BSS_EOUTOFBOUNDS
          else START_TRANSACTION (TRYC (writeIntegerBigEndian y 4)
                 (TRYC (if to_uint32 y = 0x80000000 then writeByte 0x01 else done_ok) COMMIT_AND_RETURN)))
       else fail BSS_EBADCONTEXT)"

definition bss_bool :: "bool \<Rightarrow> 'w ser_op" where
  "bss_bool x =
     with_ctxid (\<lambda>c.
       if c \<noteq> BS_CTXID_GLOBAL then fail BSS_EBADCONTEXT
       else START_TRANSACTION (TRYC (writeByte (if x then 0x01 else 0x02)) COMMIT_AND_RETURN))"

definition bss_double :: "EEndian \<Rightarrow> f64 \<Rightarrow> 'w ser_op" where
  "bss_double h x =
     with_ctxid (\<lambda>c.
       if c = BS_CTXID_FLOAT then
         START_TRANSACTION (TRYC (writeFloat32 h (f64_to_f32 x))
           (TRYC (if f64_to_f32 x = 0xFFFFFFFF then writeByte 0x01 else done_ok) COMMIT_AND_RETURN))
       else if c = BS_CTXID_DOUBLE then
         START_TRANSACTION (TRYC (writeFloat64 h x)
           (TRYC (if x = 0xFFFFFFFFFFFFFFFF then writeByte 0x01 else done_ok) COMMIT_AND_RETURN))
       else case f64_to_i64 x of
              None \<Rightarrow> (\<lambda>ctx. None)
            | Some y \<Rightarrow>
                if f64_eq (i64_to_f64 y) x then bss_int y
                else if c = BS_CTXID_GLOBAL then
                  START_TRANSACTION (TRYC (writeFloat h x GLOBAL_FLOAT_OPCODES) COMMIT_AND_RETURN)
                else if c = BS_CTXID_NUMBER then
                  START_TRANSACTION (TRYC (writeFloat h x NUMBER_FLOAT_OPCODES) COMMIT_AND_RETURN)
                else fail BSS_EBADCONTEXT)"

definition bss_lstring :: "bytes \<Rightarrow> 'w ser_op" where
  "bss_lstring data =
     with_ctxid (\<lambda>c.
       if c = BS_CTXID_GLOBAL then
         START_TRANSACTION (TRYC (writeString data BS_GLOBAL_STRING) COMMIT_AND_RETURN)
       else if c = BS_CTXID_UNSIGNED_OR_STRING then
         START_TRANSACTION (TRYC (writeString data BS_UIS_STRING) COMMIT_AND_RETURN)
       else fail BSS_EBADCONTEXT)"

definition bss_string :: "bytes \<Rightarrow> 'w ser_op" where
  "bss_string data = bss_lstring (cstr data)"

definition bss_null :: "'w ser_op" where
  "bss_null ctx =
     (let top = topframe ctx;
          go = with_ctxid (\<lambda>c. START_TRANSACTION (TRYC (writeData (getNullToken c)) COMMIT_AND_RETURN))
      in if kind top = BS_FZLIST then Some (BSS_EINVALID, ctx)
         else if kind top = BS_FMAP \<or> kind top = BS_FZMAP then
           (case content top of
              C_map e \<Rightarrow> if e \<noteq> 0 then Some (BSS_EINVALID, ctx) else go ctx
            | C_object _ \<Rightarrow> None)
         else go ctx)"

definition bss_raw :: "bytes \<Rightarrow> 'w ser_op" where
  "bss_raw data = START_TRANSACTION (TRYC (writeData data) COMMIT_AND_RETURN)"

end
