(* ===== verification/Bysant_Transactions.thy ===== *)
theory Bysant_Transactions
  imports Bysant_Ser
begin

text \<open>
  Transactions of the serializer. The interface \<open>stream_writer\<close> is what \<open>bysants.h\<close> asks
  of the writer callback: it takes a prefix of the data, or fails and takes nothing; \<open>out\<close> is
  what the writer has taken so far, \<open>None\<close> in states the contract does not cover. Under it
  every internal writing function \<open>emits\<close> a fixed sequence of octets, whatever the writer
  accepts at each call and however often the transaction is resumed; \<open>emits\<close> composes along
  \<open>TRY\<close>. The reference encoders give those sequences.

  The interface is interpreted on the writer that collects chunks in a table
  (\<open>luafwk/m3da/bysant/bysant_core_serialize.c\<close>, the table branch of \<open>luawriter\<close>).
\<close>

section \<open>The writer's contract\<close>

locale stream_writer =
  fixes wr :: "bytes \<Rightarrow> 'w \<Rightarrow> int \<times> 'w"
    and out :: "'w \<Rightarrow> bytes option"
  assumes writer_law:
    "out w = Some s \<Longrightarrow> wr d w = (n, w') \<Longrightarrow>
       n < 0 \<and> out w' = Some s \<or>
       0 \<le> n \<and> n \<le> int (length d) \<and> out w' = Some (s @ take (nat n) d)"

text \<open>
  Inside a transaction that is to write \<open>D\<close> after \<open>base\<close>: what was written is a prefix of
  \<open>D\<close>, and what this attempt went over is a prefix of that.
\<close>

definition pending :: "'w bss_ctx_t \<Rightarrow> int" where
  "pending c = written c - acknowledged c"

definition txn :: "('w \<Rightarrow> bytes option) \<Rightarrow> bytes \<Rightarrow> bytes \<Rightarrow> 'w bss_ctx_t \<Rightarrow> bool" where
  "txn out base D c \<longleftrightarrow>
     0 \<le> skipped c \<and> skipped c \<le> pending c \<and> pending c \<le> int (length D) \<and>
     out (writerctx c) = Some (base @ take (nat (pending c)) D)"

text \<open>Only the writer's state, the counters and the broken flag differ.\<close>

definition io_only :: "'w bss_ctx_t \<Rightarrow> 'w bss_ctx_t \<Rightarrow> bool" where
  "io_only c c' \<longleftrightarrow>
     writer c' = writer c \<and> acknowledged c' = acknowledged c \<and> stacksize c' = stacksize c \<and>
     acknowledged_stacksize c' = acknowledged_stacksize c \<and> classcoll c' = classcoll c \<and>
     stack c' = stack c"

definition accepting :: "(bytes \<Rightarrow> 'w \<Rightarrow> int \<times> 'w) \<Rightarrow> bool" where
  "accepting wr \<longleftrightarrow> (\<forall>d w. fst (wr d w) = int (length d))"

text \<open>
  The writer takes every piece of up to \<open>n\<close> octets as long as \<open>G\<close> holds of its state, and \<open>G\<close>
  then still holds.
\<close>

definition accepting_in :: "(bytes \<Rightarrow> 'w \<Rightarrow> int \<times> 'w) \<Rightarrow> ('w \<Rightarrow> bool) \<Rightarrow> nat \<Rightarrow> bool" where
  "accepting_in wr G n \<longleftrightarrow>
     (\<forall>d w. length d \<le> n \<and> G w \<longrightarrow> fst (wr d w) = int (length d) \<and> G (snd (wr d w)))"

definition progressing :: "(bytes \<Rightarrow> 'w \<Rightarrow> int \<times> 'w) \<Rightarrow> bool" where
  "progressing wr \<longleftrightarrow> (\<forall>d w. 0 \<le> fst (wr d w) \<and> (d \<noteq> [] \<longrightarrow> 0 < fst (wr d w)))"

definition accepted :: "(bytes \<Rightarrow> 'w \<Rightarrow> int \<times> 'w) \<Rightarrow> nat \<Rightarrow> 'w bss_ctx_t \<Rightarrow> int \<Rightarrow> 'w bss_ctx_t \<Rightarrow> bool" where
  "accepted wr n c r c' \<longleftrightarrow>
     (\<forall>G. accepting_in wr G n \<longrightarrow> G (writerctx c) \<longrightarrow> r = BSS_EOK \<and> G (writerctx c'))"

lemma accepting_in_mono: "accepting_in wr G n \<Longrightarrow> m \<le> n \<Longrightarrow> accepting_in wr G m"
  by (auto simp: accepting_in_def)

lemma accepted_same: "writerctx c' = writerctx c \<Longrightarrow> accepted wr n c BSS_EOK c'"
  by (simp add: accepted_def)

lemma accepted_trans:
  "accepted wr m c BSS_EOK c1 \<Longrightarrow> accepted wr n c1 r c2 \<Longrightarrow> m \<le> n \<Longrightarrow> accepted wr n c r c2"
  unfolding accepted_def by (blast intro: accepting_in_mono)

lemma accepted_fail:
  "accepted wr m c r c1 \<Longrightarrow> r \<noteq> BSS_EOK \<Longrightarrow> m \<le> n \<Longrightarrow> accepted wr n c r c2"
  unfolding accepted_def by (blast intro: accepting_in_mono)

lemma accepted_written:
  assumes "wr d (writerctx c) = (n, w)" "length d \<le> m" "writerctx c' = w" "n = int (length d) \<longrightarrow> r = BSS_EOK"
  shows "accepted wr m c r c'"
  using assms unfolding accepted_def accepting_in_def by (metis fst_conv snd_conv)

definition step_ok ::
  "(bytes \<Rightarrow> 'w \<Rightarrow> int \<times> 'w) \<Rightarrow> ('w \<Rightarrow> bytes option) \<Rightarrow> bytes \<Rightarrow> bytes \<Rightarrow> nat \<Rightarrow> 'w bss_ctx_t \<Rightarrow> int \<times> 'w bss_ctx_t \<Rightarrow> bool" where
  "step_ok wr out base D n c res \<longleftrightarrow>
     (case res of (r, c') \<Rightarrow>
        txn out base D c' \<and> io_only c c' \<and> pending c \<le> pending c' \<and>
        (r = BSS_EOK \<or> r = BSS_EAGAIN \<or> r < 0) \<and>
        (r = BSS_EOK \<longrightarrow> skipped c' = int n \<and> broken c' = broken c) \<and>
        (r = BSS_EAGAIN \<longrightarrow> pending c' < int n \<and> broken c' = broken c) \<and>
        (accepting wr \<longrightarrow> r = BSS_EOK) \<and>
        accepted wr n c r c' \<and>
        (progressing wr \<longrightarrow> r = BSS_EOK \<or> r = BSS_EAGAIN \<and> pending c < pending c'))"

definition emits :: "(bytes \<Rightarrow> 'w \<Rightarrow> int \<times> 'w) \<Rightarrow> ('w \<Rightarrow> bytes option) \<Rightarrow> 'w ser \<Rightarrow> bytes \<Rightarrow> bool" where
  "emits wr out m X \<longleftrightarrow>
     (\<forall>c base pre post.
        writer c = wr \<longrightarrow> txn out base (pre @ X @ post) c \<longrightarrow> skipped c = int (length pre) \<longrightarrow>
        step_ok wr out base (pre @ X @ post) (length (pre @ X)) c (m c))"

lemma emitsI:
  assumes "\<And>c base pre post. writer c = wr \<Longrightarrow> txn out base (pre @ X @ post) c \<Longrightarrow>
      skipped c = int (length pre) \<Longrightarrow>
      step_ok wr out base (pre @ X @ post) (length (pre @ X)) c (m c)"
  shows "emits wr out m X"
  using assms unfolding emits_def by blast

lemma emitsD:
  "emits wr out m X \<Longrightarrow> writer c = wr \<Longrightarrow> txn out base (pre @ X @ post) c \<Longrightarrow>
   skipped c = int (length pre) \<Longrightarrow> step_ok wr out base (pre @ X @ post) (length (pre @ X)) c (m c)"
  unfolding emits_def by blast

lemma io_only_refl [simp]: "io_only c c"
  by (simp add: io_only_def)

lemma io_only_trans: "io_only a b \<Longrightarrow> io_only b c \<Longrightarrow> io_only a c"
  by (simp add: io_only_def)

lemma io_only_fields:
  assumes "io_only c c'"
  shows "writer c' = writer c" "acknowledged c' = acknowledged c" "stacksize c' = stacksize c"
    "acknowledged_stacksize c' = acknowledged_stacksize c" "classcoll c' = classcoll c" "stack c' = stack c"
  using assms by (simp_all add: io_only_def)

lemma io_only_broken: "io_only c c1 \<Longrightarrow> io_only c (c1\<lparr>broken := b\<rparr>)"
  by (simp add: io_only_def)

lemma pending_update [simp]:
  "pending (c\<lparr>writerctx := a, written := written c + n\<rparr>) = pending c + n"
  "pending (c\<lparr>skipped := k\<rparr>) = pending c" "pending (c\<lparr>writerctx := a\<rparr>) = pending c"
  "pending (c\<lparr>broken := b\<rparr>) = pending c"
  by (simp_all add: pending_def)

lemma bss_status_neq [simp]: "BSS_EAGAIN \<noteq> BSS_EOK" "BSS_EOK \<noteq> BSS_EAGAIN"
  by (simp_all add: bss_status_defs)

lemma emits_done: "emits wr out done_ok []"
  by (rule emitsI) (simp add: done_ok_def step_ok_def accepted_same)

lemma emits_TRY:
  assumes m: "emits wr out m X" and k: "emits wr out k Y"
  shows "emits wr out (TRY m k) (X @ Y)"
proof (rule emitsI)
  fix c base pre post
  assume w: "writer c = wr" and t: "txn out base (pre @ (X @ Y) @ post) c" and s: "skipped c = int (length pre)"
  let ?D = "pre @ X @ Y @ post"
  obtain r c1 where c1: "m c = (r, c1)" by fastforce
  have st: "step_ok wr out base ?D (length (pre @ X)) c (r, c1)"
    using emitsD [OF m w, of base pre "Y @ post"] t s c1 by simp
  show "step_ok wr out base (pre @ (X @ Y) @ post) (length (pre @ X @ Y)) c (TRY m k c)"
  proof (cases "r = BSS_EOK")
    case True
    obtain r2 c2 where c2: "k c1 = (r2, c2)" by fastforce
    have "step_ok wr out base ?D (length (pre @ X @ Y)) c1 (r2, c2)"
      using emitsD [OF k, of c1 base "pre @ X" post] st w True c2 io_only_fields [of c c1]
      by (simp add: step_ok_def)
    with st True c1 c2 show ?thesis
      using io_only_trans [of c c1 c2] accepted_trans [of wr "length (pre @ X)" c c1 "length (pre @ X @ Y)" r2 c2]
      by (auto simp: step_ok_def TRY_def)
  next
    case False
    then have "step_ok wr out base ?D (length (pre @ X @ Y)) c (try_fail r c1)"
      using st accepted_fail [of wr "length (pre @ X)" c r c1 "length (pre @ X @ Y)"]
      by (auto simp: step_ok_def try_fail_def txn_def io_only_broken)
    with False c1 show ?thesis by (simp add: TRY_def)
  qed
qed

context stream_writer
begin

lemma emits_writeData: "emits wr out (writeData X) X"
proof (rule emitsI)
  fix c base pre post
  assume w: "writer c = wr" and t: "txn out base (pre @ X @ post) c" and s: "skipped c = int (length pre)"
  let ?D = "pre @ X @ post" and ?skip = "pending c - skipped c"
  show "step_ok wr out base ?D (length (pre @ X)) c (writeData X c)"
  proof (cases "0 < ?skip \<and> int (length X) \<le> ?skip")
    case True
    then have "writeData X c = (BSS_EOK, c\<lparr>skipped := skipped c + int (length X)\<rparr>)"
      by (simp add: writeData_def pending_def)
    with True t s show ?thesis by (simp add: step_ok_def txn_def io_only_def accepted_same)
  next
    case False
    let ?d = "nat ?skip" and ?b = "drop (nat ?skip) X"
    obtain n w' where nw: "wr ?b (writerctx c) = (n, w')" by fastforce
    have skip: "0 \<le> ?skip" "?skip \<le> int (length X)"
      using t False by (auto simp: txn_def)
    have len: "int (length ?b) = int (length X) - ?skip" using skip by simp
    have p: "nat (pending c) = length pre + ?d" using s skip by simp
    have eq: "writeData X c =
        (if n < 0 then n else if n = int (length ?b) then BSS_EOK else BSS_EAGAIN,
         c\<lparr>writerctx := w', written := written c + max n 0, skipped := skipped c + ?skip + max n 0\<rparr>)"
      using False nw w skip
      by (auto simp: writeData_def pending_def [symmetric] Let_def max_def)
    from t have oc: "out (writerctx c) = Some (base @ take (nat (pending c)) ?D)" by (simp add: txn_def)
    from writer_law [OF oc nw] have law:
      "out w' = Some ((base @ take (nat (pending c)) ?D) @ take (nat (max n 0)) ?b)" "n \<le> int (length ?b)"
      by auto
    have "out w' = Some (base @ take (nat (pending c) + nat (max n 0)) ?D)"
      unfolding law(1) p using t len law(2) p
      by (simp add: txn_def take_add add.assoc)
    moreover have "accepting wr \<longrightarrow> n = int (length ?b)"
      using nw unfolding accepting_def by (metis fst_conv)
    moreover have "nat (pending c) + nat (max n 0) = nat (pending c + max n 0)"
      using t by (simp add: txn_def nat_add_distrib)
    moreover have prog: "progressing wr \<longrightarrow> 0 \<le> n \<and> (?b \<noteq> [] \<longrightarrow> 0 < n)"
      using nw unfolding progressing_def by (metis fst_conv)
    ultimately have o: "out w' = Some (base @ take (nat (pending c + max n 0)) ?D)" and
      acc: "accepting wr \<longrightarrow> n = int (length ?b)" by simp_all
    have b: "pending c + max n 0 \<le> int (length (pre @ X))" "0 \<le> skipped c" "skipped c + ?skip = pending c"
      using law(2) len s skip by auto
    define c' where "c' = c\<lparr>writerctx := w', written := written c + max n 0,
        skipped := skipped c + ?skip + max n 0\<rparr>"
    have c': "pending c' = pending c + max n 0" "skipped c' = pending c + max n 0" "io_only c c'"
      "broken c' = broken c" "out (writerctx c') = out w'"
      using b(3) by (simp_all add: c'_def io_only_def)
    have T: "txn out base ?D c'"
      using o b skip by (simp add: txn_def c')
    have len': "pending c + int (length ?b) = int (length (pre @ X))" using len s by simp
    note eq = eq [folded c'_def]
    have ac: "accepted wr (length (pre @ X)) c (if n < 0 then n else if n = int (length ?b) then BSS_EOK else BSS_EAGAIN) c'"
      using nw len s skip by (intro accepted_written [where d = ?b]) (auto simp: c'_def)
    consider "n < 0" | "0 \<le> n" "n = int (length ?b)" | "0 \<le> n" "n < int (length ?b)"
      using law(2) by linarith
    then show ?thesis
    proof cases
      case 1
      with acc prog show ?thesis unfolding eq step_ok_def prod.case
        using T c' ac by (simp add: bss_status_defs)
    next
      case 2
      with len' show ?thesis unfolding eq step_ok_def prod.case
        using T c' ac by (simp add: bss_status_defs del: length_drop)
    next
      case 3
      then have "?b \<noteq> []" by auto
      with acc prog len' 3 show ?thesis unfolding eq step_ok_def prod.case
        using T c' ac by (simp add: bss_status_defs del: length_drop)
    qed
  qed
qed

end

section \<open>Reference encodings\<close>

definition enc_int :: "int \<Rightarrow> bs_integer_encoding_t \<Rightarrow> bytes" where
  "enc_int x enc =
     (let off = (\<lambda>lo hi. if x < 0 then lo - 1 - x else x - hi - 1);
          op = (\<lambda>neg pos. if x < 0 then neg enc else pos enc) in
      if tiny_min enc \<le> x \<and> x \<le> tiny_max enc then [u8 (tiny_zero_opcode enc + x)]
      else if small_min enc \<le> x \<and> x \<le> small_max enc then
        let v = off (tiny_min enc) (tiny_max enc)
        in [u8 (op small_neg_opcode small_pos_opcode + v div 2 ^ 8), u8 v]
      else if medium_min enc \<le> x \<and> x \<le> medium_max enc then
        let v = off (small_min enc) (small_max enc)
        in [u8 (op medium_neg_opcode medium_pos_opcode + v div 2 ^ 16), u8 (v div 2 ^ 8), u8 v]
      else if large_min enc \<le> x \<and> x \<le> large_max enc then
        let v = off (medium_min enc) (medium_max enc)
        in [u8 (op large_neg_opcode large_pos_opcode + v div 2 ^ 24), u8 (v div 2 ^ 16), u8 (v div 2 ^ 8), u8 v]
      else if signed_take_bit 31 x = x then u8 (int32_opcode enc) # be_bytes 4 x
      else u8 (int64_opcode enc) # be_bytes 8 x)"

definition enc_uint :: "int \<Rightarrow> bytes" where
  "enc_uint x =
     (if x \<le> BS_UTI_MAX then [u8 (x + 0x3b)]
      else if x \<le> BS_USI_MAX then
        let v = x - BS_UTI_MAX - 1 in [u8 (0xc7 + v div 2 ^ 8), u8 v]
      else if x \<le> BS_UMI_MAX then
        let v = x - BS_USI_MAX - 1 in [u8 (0xe7 + v div 2 ^ 16), u8 (v div 2 ^ 8), u8 v]
      else if x \<le> BS_ULI_MAX then
        let v = x - BS_UMI_MAX - 1
        in [u8 (0xf7 + v div 2 ^ 24), u8 (v div 2 ^ 16), u8 (v div 2 ^ 8), u8 v]
      else 0xff # be_bytes 4 x)"

function enc_chunks :: "bytes \<Rightarrow> bytes" where
  "enc_chunks data =
     (if 0xffff < length data then [0xff, 0xff] @ take 0xffff data @ enc_chunks (drop 0xffff data)
      else if 0 < length data then be_bytes 2 (int (length data)) @ data
      else [])"
  by pat_completeness auto
termination
  by (relation "measure length") auto

declare enc_chunks.simps [simp del]

definition enc_string :: "bytes \<Rightarrow> bs_string_encoding_t \<Rightarrow> bytes" where
  "enc_string data enc =
     (let len = int (length data) in
      if len \<le> small_limit enc then u8 (small_opcode enc + len) # data
      else if len \<le> medium_limit enc then
        let v = len - small_limit enc - 1 in [u8 (medium_opcode enc + v div 2 ^ 8), u8 v] @ data
      else if len \<le> large_limit enc then
        u8 (large_opcode enc) # be_bytes 2 (len - medium_limit enc - 1) @ data
      else u8 (chunked_opcode enc) # enc_chunks data @ [0, 0])"

text \<open>Floats as a host of order \<open>h\<close> writes them: its memory image, last octet first.\<close>

definition enc_f32 :: "EEndian \<Rightarrow> f32 \<Rightarrow> bytes" where
  "enc_f32 h x = rev (mem_of h 4 (uint x))"

definition enc_f64 :: "EEndian \<Rightarrow> f64 \<Rightarrow> bytes" where
  "enc_f64 h x = rev (mem_of h 8 (uint x))"

definition enc_float :: "EEndian \<Rightarrow> f64 \<Rightarrow> bss_float_encoding_t \<Rightarrow> bytes" where
  "enc_float h x enc =
     (if f64_eq (f32_to_f64 (f64_to_f32 x)) x then float32_opcode enc # enc_f32 h (f64_to_f32 x)
      else float64_opcode enc # enc_f64 h x)"

lemma u8_mask [simp]: "u8 (k AND 255) = u8 k"
  by (simp add: c_arith byte_eq_iff uint_word_of_int)

lemma be_bytes_Suc: "be_bytes (Suc n) x = u8 (drop_bit (8 * n) x) # be_bytes n x"
proof (induction n arbitrary: x)
  case (Suc n)
  have "x div 256 div 2 ^ (8 * n) = x div 2 ^ (8 * Suc n)"
    by (simp add: zdiv_zmult2_eq [symmetric] power_add)
  with Suc [of "x div 256"] show ?case by (simp add: c_arith)
qed simp

lemma emits_if:
  "(b \<Longrightarrow> emits wr out m X) \<Longrightarrow> (\<not> b \<Longrightarrow> emits wr out k Y) \<Longrightarrow>
   emits wr out (if b then m else k) (if b then X else Y)"
  by simp

context stream_writer
begin

lemma emits_writeBytes: "length ks \<le> 4 \<Longrightarrow> emits wr out (writeBytes ks) (map word_of_int ks)"
  using emits_writeData [of "map word_of_int ks"]
  unfolding writeBytes_def WRITE_BYTES_MAX_def emits_def by simp

lemma emits_writeByte: "emits wr out (writeByte k) [u8 k]"
  unfolding writeByte_def by (rule emits_writeData)

lemma emits_then_done: "emits wr out m X \<Longrightarrow> emits wr out (TRY m done_ok) X"
  using emits_TRY [OF _ emits_done] by fastforce

lemma emits_Cons: "emits wr out m [b] \<Longrightarrow> emits wr out k X \<Longrightarrow> emits wr out (TRY m k) (b # X)"
  using emits_TRY by fastforce

lemma emits_writeIntegerBigEndian: "emits wr out (writeIntegerBigEndian x n) (be_bytes n x)"
proof (induction n)
  case 0
  then show ?case by (simp add: emits_done)
next
  case (Suc n)
  have "emits wr out (writeByte (drop_bit (8 * n) x AND 255)) [u8 (drop_bit (8 * n) x)]"
    using emits_writeByte [of "drop_bit (8 * n) x AND 255"] by simp
  from emits_Cons [OF this Suc] show ?case by (simp only: be_bytes_Suc writeIntegerBigEndian.simps)
qed

lemma emits_bytes2: "emits wr out (writeBytes [a, b AND 255]) [u8 a, u8 b]"
  "emits wr out (writeBytes [a, b]) [u8 a, u8 b]"
  using emits_writeBytes [of "[a, b AND 255]"] emits_writeBytes [of "[a, b]"] by simp_all

lemma emits_bytes3: "emits wr out (writeBytes [a, b AND 255, c AND 255]) [u8 a, u8 b, u8 c]"
  "emits wr out (writeBytes [a, b, c AND 255]) [u8 a, u8 b, u8 c]"
  using emits_writeBytes [of "[a, b AND 255, c AND 255]"] emits_writeBytes [of "[a, b, c AND 255]"] by simp_all

lemma emits_bytes4:
  "emits wr out (writeBytes [a, b AND 255, c AND 255, d AND 255]) [u8 a, u8 b, u8 c, u8 d]"
  using emits_writeBytes [of "[a, b AND 255, c AND 255, d AND 255]"] by simp

lemmas emits_rules = emits_writeByte emits_bytes2 emits_bytes3 emits_bytes4 emits_writeData
  emits_then_done emits_Cons emits_TRY emits_writeIntegerBigEndian emits_done

lemma emits_writeInteger: "emits wr out (writeInteger x enc) (enc_int x enc)"
proof -
  have off: "COMPUTE_OFFSET x lo hi = (if x < 0 then lo - 1 - x else x - hi - 1)" for lo hi
    by (simp add: COMPUTE_OFFSET_def)
  show ?thesis
    unfolding writeInteger_def enc_int_def off Let_def drop_bit_int
    by (intro emits_if emits_rules)
qed

lemma emits_writeUnsignedInteger: "emits wr out (writeUnsignedInteger x) (enc_uint x)"
proof -
  have "emits wr out (writeByte 255) [255]" using emits_writeByte [of 255] by simp
  then show ?thesis
    unfolding writeUnsignedInteger_def enc_uint_def Let_def drop_bit_int diff_diff_eq
    by (intro emits_if emits_rules)
qed

lemma emits_write_indexed: "emits wr out (write_indexed k is) (map ((!) k) is)"
proof (induction "is")
  case (Cons i "is")
  have "emits wr out (writeByte (uint (k ! i))) [k ! i]" using emits_writeByte [of "uint (k ! i)"] by simp
  from emits_Cons [OF this Cons] show ?case by simp
qed (simp add: emits_done)

lemma emits_writeFloat32: "emits wr out (writeFloat32 h x) (enc_f32 h x)"
proof -
  have "map ((!) k) FLOAT_BYTES = rev k" if "length k = 4" for k :: bytes
    using length_4_8(2) [OF that] by (auto simp: FLOAT_BYTES_def)
  then show ?thesis using emits_write_indexed [of "mem_of h 4 (uint x)" FLOAT_BYTES]
    by (simp add: writeFloat32_def enc_f32_def)
qed

lemma emits_writeFloat64: "emits wr out (writeFloat64 h x) (enc_f64 h x)"
proof -
  have "map ((!) k) DOUBLE_BYTES = rev k" if "length k = 8" for k :: bytes
    using length_4_8(3) [OF that] by (auto simp: DOUBLE_BYTES_def)
  then show ?thesis using emits_write_indexed [of "mem_of h 8 (uint x)" DOUBLE_BYTES]
    by (simp add: writeFloat64_def enc_f64_def)
qed

lemma emits_writeFloat: "emits wr out (writeFloat h x enc) (enc_float h x enc)"
proof -
  have "emits wr out (writeByte (uint b)) [b]" for b :: byte using emits_writeByte [of "uint b"] by simp
  then show ?thesis unfolding writeFloat_def enc_float_def
    by (auto intro!: emits_Cons emits_then_done emits_writeFloat32 emits_writeFloat64)
qed

lemma emits_writeChunk: "emits wr out (writeChunk data) (enc_chunks data)"
proof (induction data rule: writeChunk.induct)
  case (1 data)
  have ff: "emits wr out (writeBytes [255, 255]) [0xff, 0xff]"
    using emits_writeBytes [of "[255, 255]"] by simp
  have len: "emits wr out (writeBytes [drop_bit 8 (int (length data)), int (length data) AND 255])
      (be_bytes 2 (int (length data)))"
    using emits_bytes2(1) [of "drop_bit 8 (int (length data))" "int (length data)"]
    by (simp add: be_bytes_2 c_arith)
  consider "0xffff < length data" | "\<not> 0xffff < length data" "0 < length data" | "length data = 0"
    by fastforce
  then show ?case
  proof cases
    case 1
    with emits_TRY [OF ff emits_TRY [OF emits_writeData "1.IH"]] show ?thesis
      by (subst writeChunk.simps, subst enc_chunks.simps) simp
  next
    case 2
    with emits_TRY [OF len emits_then_done [OF emits_writeData]] show ?thesis
      by (subst writeChunk.simps, subst enc_chunks.simps) simp
  next
    case 3
    then show ?thesis
      by (subst writeChunk.simps, subst enc_chunks.simps) (simp add: emits_done)
  qed
qed

lemma emits_writeString: "emits wr out (writeString data enc) (enc_string data enc)"
proof -
  have z: "emits wr out (TRY (writeBytes [0, 0]) done_ok) [0, 0]"
    using emits_then_done [OF emits_writeBytes [of "[0, 0]"]] by simp
  have l: "emits wr out (TRY (writeBytes [a, b div 2 ^ 8, b AND 255]) m) (u8 a # be_bytes 2 b @ X)"
    if "emits wr out m X" for a b m X
    using emits_TRY [OF emits_bytes3(2) [of a "b div 2 ^ 8" b] that] by (simp add: be_bytes_2)
  show ?thesis
    unfolding writeString_def enc_string_def Let_def drop_bit_int diff_diff_eq
    by (intro emits_if emits_Cons [OF emits_writeByte] l emits_TRY [OF emits_bytes2(1)]
        emits_TRY [OF emits_writeChunk] z emits_then_done emits_writeData)
qed

end

end
