(* ===== verification/Bysant_Decode.thy ===== *)
theory Bysant_Decode
  imports Bysant_Deser Bysant_Transactions
begin

text \<open>
  The deserializer reads what the reference encoders produce: integers in both integer
  encodings, unsigned integers, strings, 32-bit integers and floats. Each lemma states that
  the decoder consumes exactly the encoding at the start of the buffer, whatever follows, as
  long as the caller's \<open>length\<close> covers it or is negative.
\<close>

definition covers :: "int \<Rightarrow> bytes \<Rightarrow> bool" where
  "covers avail X \<longleftrightarrow> avail < 0 \<or> int (length X) \<le> avail"

lemma check_length_pass: "avail < 0 \<or> n \<le> avail \<Longrightarrow> CHECK_LENGTH avail n ctx x k = k"
  by (auto simp: CHECK_LENGTH_def)

lemma octet_Cons [simp]:
  "octet (b # bs) 0 k = k (uint b)" "octet (b # bs) (Suc i) k = octet bs i k"
  by (simp_all add: octet_def)

lemma octet_numeral [simp]: "octet (b # bs) (numeral n) k = octet bs (pred_numeral n) k"
  by (simp add: numeral_eq_Suc)

lemma octet_one [simp]: "octet (b # bs) 1 k = octet bs 0 k"
  by (simp add: octet_def)

lemma octets_append: "length pre = i \<Longrightarrow> length X = n \<Longrightarrow> octets (pre @ X @ rest) i n k = k X"
  by (simp add: octets_def)

lemma octets_Cons: "length X = n \<Longrightarrow> octets (b # X @ rest) 1 n k = k X"
  using octets_append [of "[b]" 1 X n rest k] by simp

section \<open>Integers\<close>

text \<open>The opcode ranges do not overlap and are wide enough for the limits.\<close>

definition int_enc_ok :: "bs_integer_encoding_t \<Rightarrow> bool" where
  "int_enc_ok enc \<longleftrightarrow>
     tiny_min enc \<le> 0 \<and> 0 \<le> tiny_max enc \<and> 0 \<le> tiny_zero_opcode enc + tiny_min enc \<and>
     tiny_zero_opcode enc + tiny_max enc < small_pos_opcode enc \<and>
     small_pos_opcode enc \<le> small_neg_opcode enc \<and> small_neg_opcode enc \<le> medium_pos_opcode enc \<and>
     medium_pos_opcode enc \<le> medium_neg_opcode enc \<and> medium_neg_opcode enc \<le> large_pos_opcode enc \<and>
     large_pos_opcode enc \<le> large_neg_opcode enc \<and> large_neg_opcode enc \<le> last_large_neg_opcode enc + 1 \<and>
     last_large_neg_opcode enc < int32_opcode enc \<and> int32_opcode enc < int64_opcode enc \<and>
     int64_opcode enc < 256 \<and>
     small_max enc - tiny_max enc \<le> 256 * (small_neg_opcode enc - small_pos_opcode enc) \<and>
     tiny_min enc - small_min enc \<le> 256 * (medium_pos_opcode enc - small_neg_opcode enc) \<and>
     medium_max enc - small_max enc \<le> 65536 * (medium_neg_opcode enc - medium_pos_opcode enc) \<and>
     small_min enc - medium_min enc \<le> 65536 * (large_pos_opcode enc - medium_neg_opcode enc) \<and>
     large_max enc - medium_max enc \<le> 16777216 * (large_neg_opcode enc - large_pos_opcode enc) \<and>
     medium_min enc - large_min enc \<le> 16777216 * (last_large_neg_opcode enc + 1 - large_neg_opcode enc) \<and>
     tiny_max enc \<le> small_max enc \<and> small_max enc \<le> medium_max enc \<and>
     small_min enc \<le> tiny_min enc \<and> medium_min enc \<le> small_min enc"

lemma int_enc_ok_tables: "int_enc_ok BS_GLOBAL_INTEGER" "int_enc_ok BS_NUMBER_INTEGER"
  by (simp_all add: int_enc_ok_def integer_enc_defs)

lemma opcode_range:
  assumes "0 \<le> v" "v < m * n" "0 < m" "0 \<le> op" "op + n \<le> (256::int)"
  shows "uint (u8 (op + v div m)) = op + v div m" "0 \<le> v div m" "v div m < n"
proof -
  show "0 \<le> v div m" using assms by (simp add: pos_imp_zdiv_nonneg_iff)
  moreover show "v div m < n"
  proof (rule ccontr)
    assume "\<not> v div m < n"
    then have "m * n \<le> m * (v div m)" using assms(3) by (intro mult_left_mono) auto
    moreover have "m * (v div m) \<le> v"
      using mult_div_mod_eq [of m v] pos_mod_sign [of m v] assms(3) by linarith
    ultimately show False using assms(2) by linarith
  qed
  ultimately show "uint (u8 (op + v div m)) = op + v div m"
    using assms by (intro uint_u8_id) auto
qed

lemma octets_value2: "(v::int) div 256 * 256 + v mod 256 = v"
  by simp

lemma octets_value3: "(v::int) div 65536 * 65536 + v div 256 mod 256 * 256 + v mod 256 = v"
proof -
  have "v div 65536 = v div 256 div 256" by (simp add: zdiv_zmult2_eq [symmetric])
  then show ?thesis using div_mult_mod_eq [of "v div 256" 256] div_mult_mod_eq [of v 256] by linarith
qed

lemma octets_value4:
  "(v::int) div 16777216 * 16777216 + v div 65536 mod 256 * 65536 + v div 256 mod 256 * 256 + v mod 256 = v"
proof -
  have "v div 16777216 = v div 65536 div 256" by (simp add: zdiv_zmult2_eq [symmetric])
  then show ?thesis using div_mult_mod_eq [of "v div 65536" 256] octets_value3 [of v] by linarith
qed

lemma be_bytes_read:
  assumes "env_sendian env = host_sendian (env_host env)"
  shows "signed_take_bit 31 (mem_value (env_host env) (hton (be_bytes 4 v) 4 (e_int32 (env_sendian env)))) =
           signed_take_bit 31 v"
    "signed_take_bit 63 (mem_value (env_host env) (hton (be_bytes 8 v) 8 (e_int64 (env_sendian env)))) =
           signed_take_bit 63 v"
proof -
  have s: "signed_take_bit n (v mod 2 ^ Suc n) = signed_take_bit n v" for n
    by (metis signed_take_bit_eq_iff_take_bit_eq take_bit_eq_mod mod_mod_trivial)
  have "mem_value (env_host env) (hton (be_bytes 4 v) 4 (e_int32 (env_sendian env))) = v mod 2 ^ Suc 31"
    "mem_value (env_host env) (hton (be_bytes 8 v) 8 (e_int64 (env_sendian env))) = v mod 2 ^ Suc 63"
    by (simp_all add: assms host_sendian_int hton_4_8 mem_value_def order_of_involutive be_value_be_bytes)
  then show "signed_take_bit 31 (mem_value (env_host env) (hton (be_bytes 4 v) 4 (e_int32 (env_sendian env)))) =
           signed_take_bit 31 v"
    "signed_take_bit 63 (mem_value (env_host env) (hton (be_bytes 8 v) 8 (e_int64 (env_sendian env)))) =
           signed_take_bit 63 v"
    using s by metis+
qed

lemma int_enc_bounds:
  assumes "int_enc_ok enc"
  shows "0 \<le> small_pos_opcode enc" "0 \<le> small_neg_opcode enc" "0 \<le> medium_pos_opcode enc"
    "0 \<le> medium_neg_opcode enc" "0 \<le> large_pos_opcode enc" "0 \<le> large_neg_opcode enc"
  using assms unfolding int_enc_ok_def by linarith+

text \<open>What the decoder reads in each range of opcodes.\<close>

lemma dec_small_pos:
  assumes "int_enc_ok enc" "small_pos_opcode enc \<le> uint b0" "uint b0 < small_neg_opcode enc" "avail < 0 \<or> 2 \<le> avail"
  shows "decodeInteger env ctx x (b0 # b1 # rest) avail enc =
     Some (2, ctx, set_int ((uint b0 - small_pos_opcode enc) * 256 + uint b1 + tiny_max enc + 1) x)"
proof -
  note ok = assms(1) [unfolded int_enc_ok_def]
  have one: "CHECK_LENGTH avail 1 ctx x k = k" for k
    using assms(4) by (intro check_length_pass) auto
  show ?thesis
    using assms(2-) ok unfolding decodeInteger_def Let_def push_bit_int set_int_def
    by (simp add: check_length_pass one)
qed

lemma dec_small_neg:
  assumes "int_enc_ok enc" "small_neg_opcode enc \<le> uint b0" "uint b0 < medium_pos_opcode enc" "avail < 0 \<or> 2 \<le> avail"
  shows "decodeInteger env ctx x (b0 # b1 # rest) avail enc =
     Some (2, ctx, set_int (- ((uint b0 - small_neg_opcode enc) * 256 + uint b1) + tiny_min enc - 1) x)"
proof -
  note ok = assms(1) [unfolded int_enc_ok_def]
  have one: "CHECK_LENGTH avail 1 ctx x k = k" for k
    using assms(4) by (intro check_length_pass) auto
  show ?thesis
    using assms(2-) ok unfolding decodeInteger_def Let_def push_bit_int set_int_def
    by (simp add: check_length_pass one)
qed

lemma dec_medium_pos:
  assumes "int_enc_ok enc" "medium_pos_opcode enc \<le> uint b0" "uint b0 < medium_neg_opcode enc" "avail < 0 \<or> 3 \<le> avail"
  shows "decodeInteger env ctx x (b0 # b1 # b2 # rest) avail enc =
     Some (3, ctx, set_int ((uint b0 - medium_pos_opcode enc) * 65536 + uint b1 * 256 + uint b2 + small_max enc + 1) x)"
proof -
  note ok = assms(1) [unfolded int_enc_ok_def]
  have one: "CHECK_LENGTH avail 1 ctx x k = k" for k
    using assms(4) by (intro check_length_pass) auto
  show ?thesis
    using assms(2-) ok unfolding decodeInteger_def Let_def push_bit_int set_int_def
    by (simp add: check_length_pass one)
qed

lemma dec_medium_neg:
  assumes "int_enc_ok enc" "medium_neg_opcode enc \<le> uint b0" "uint b0 < large_pos_opcode enc" "avail < 0 \<or> 3 \<le> avail"
  shows "decodeInteger env ctx x (b0 # b1 # b2 # rest) avail enc =
     Some (3, ctx, set_int (- ((uint b0 - medium_neg_opcode enc) * 65536 + uint b1 * 256 + uint b2) + small_min enc - 1) x)"
proof -
  note ok = assms(1) [unfolded int_enc_ok_def]
  have one: "CHECK_LENGTH avail 1 ctx x k = k" for k
    using assms(4) by (intro check_length_pass) auto
  show ?thesis
    using assms(2-) ok unfolding decodeInteger_def Let_def push_bit_int set_int_def
    by (simp add: check_length_pass one)
qed

lemma dec_large_pos:
  assumes "int_enc_ok enc" "large_pos_opcode enc \<le> uint b0" "uint b0 < large_neg_opcode enc" "avail < 0 \<or> 4 \<le> avail"
  shows "decodeInteger env ctx x (b0 # b1 # b2 # b3 # rest) avail enc =
     Some (4, ctx, set_int ((uint b0 - large_pos_opcode enc) * 16777216 + uint b1 * 65536 + uint b2 * 256 + uint b3 + medium_max enc + 1) x)"
proof -
  note ok = assms(1) [unfolded int_enc_ok_def]
  have one: "CHECK_LENGTH avail 1 ctx x k = k" for k
    using assms(4) by (intro check_length_pass) auto
  show ?thesis
    using assms(2-) ok unfolding decodeInteger_def Let_def push_bit_int set_int_def
    by (simp add: check_length_pass one)
qed

lemma dec_large_neg:
  assumes "int_enc_ok enc" "large_neg_opcode enc \<le> uint b0" "uint b0 \<le> last_large_neg_opcode enc" "avail < 0 \<or> 4 \<le> avail"
  shows "decodeInteger env ctx x (b0 # b1 # b2 # b3 # rest) avail enc =
     Some (4, ctx, set_int (- ((uint b0 - large_neg_opcode enc) * 16777216 + uint b1 * 65536 + uint b2 * 256 + uint b3) + medium_min enc - 1) x)"
proof -
  note ok = assms(1) [unfolded int_enc_ok_def]
  have one: "CHECK_LENGTH avail 1 ctx x k = k" for k
    using assms(4) by (intro check_length_pass) auto
  show ?thesis
    using assms(2-) ok unfolding decodeInteger_def Let_def push_bit_int set_int_def
    by (simp add: check_length_pass one)
qed

lemma dec_int32:
  assumes "int_enc_ok enc" "avail < 0 \<or> 5 \<le> avail" "env_sendian env = host_sendian (env_host env)"
  shows "decodeInteger env ctx x (u8 (int32_opcode enc) # be_bytes 4 v @ rest) avail enc =
     Some (5, ctx, set_int (signed_take_bit 31 v) x)"
proof -
  note ok = assms(1) [unfolded int_enc_ok_def]
  have one: "CHECK_LENGTH avail 1 ctx x k = k" for k
    using assms(2) by (intro check_length_pass) auto
  have op: "uint (u8 (int32_opcode enc)) = int32_opcode enc"
    using ok int_enc_bounds [OF assms(1)] by (intro uint_u8_id) linarith+
  show ?thesis
    using assms(2) ok op unfolding decodeInteger_def Let_def set_int_def
    by (simp add: check_length_pass one octets_Cons [of _ 4, simplified]
        be_bytes_read [OF assms(3), simplified])
qed

lemma dec_int64:
  assumes "int_enc_ok enc" "avail < 0 \<or> 9 \<le> avail" "env_sendian env = host_sendian (env_host env)"
  shows "decodeInteger env ctx x (u8 (int64_opcode enc) # be_bytes 8 v @ rest) avail enc =
     Some (9, ctx, set_int (signed_take_bit 63 v) x)"
proof -
  note ok = assms(1) [unfolded int_enc_ok_def]
  have one: "CHECK_LENGTH avail 1 ctx x k = k" for k
    using assms(2) by (intro check_length_pass) auto
  have op: "uint (u8 (int64_opcode enc)) = int64_opcode enc"
    using ok int_enc_bounds [OF assms(1)] by (intro uint_u8_id) linarith+
  show ?thesis
    using assms(2) ok op unfolding decodeInteger_def Let_def set_int_def
    by (simp add: check_length_pass one octets_Cons [of _ 8, simplified]
        be_bytes_read [OF assms(3), simplified])
qed

text \<open>Each case of the encoder selects the matching case of the decoder.\<close>

lemma int_small_neg:
  assumes ok: "int_enc_ok enc" and c: "\<not> (tiny_min enc \<le> v \<and> v \<le> tiny_max enc)" "small_min enc \<le> v \<and> v \<le> small_max enc" "v < 0"
    and cov: "covers avail (enc_int v enc)"
  shows "decodeInteger env ctx x (enc_int v enc @ rest) avail enc =
     Some (int (length (enc_int v enc)), ctx, set_int v x)"
proof -
  let ?op = "small_neg_opcode enc"
  define w where "w = tiny_min enc - 1 - v"
  have w: "0 \<le> w" "w < 256 * (medium_pos_opcode enc - ?op)" "?op + (medium_pos_opcode enc - ?op) \<le> 256"
    using c ok [unfolded int_enc_ok_def] unfolding w_def by linarith+
  note r = opcode_range [OF w(1,2) zero_less_numeral int_enc_bounds(2) [OF ok] w(3)]
  have enc: "enc_int v enc = [u8 (?op + w div 256), u8 w]"
    using c by (auto simp: enc_int_def Let_def w_def)
  have av: "avail < 0 \<or> 2 \<le> avail" using cov unfolding covers_def enc by simp
  have lo: "?op \<le> uint (u8 (?op + w div 256))" and hi: "uint (u8 (?op + w div 256)) < medium_pos_opcode enc"
    unfolding r(1) using r(2,3) by linarith+
  have "- (w div 256 * 256 + w mod 256) + tiny_min enc - 1 = v" using octets_value2 [of w] unfolding w_def by linarith
  then show ?thesis
    unfolding enc append.simps dec_small_neg [OF ok lo hi av] r(1)
    unfolding uint_u8 by simp
qed

lemma int_small_pos:
  assumes ok: "int_enc_ok enc" and c: "\<not> (tiny_min enc \<le> v \<and> v \<le> tiny_max enc)" "small_min enc \<le> v \<and> v \<le> small_max enc" "\<not> v < 0"
    and cov: "covers avail (enc_int v enc)"
  shows "decodeInteger env ctx x (enc_int v enc @ rest) avail enc =
     Some (int (length (enc_int v enc)), ctx, set_int v x)"
proof -
  let ?op = "small_pos_opcode enc"
  define w where "w = v - tiny_max enc - 1"
  have w: "0 \<le> w" "w < 256 * (small_neg_opcode enc - ?op)" "?op + (small_neg_opcode enc - ?op) \<le> 256"
    using c ok [unfolded int_enc_ok_def] unfolding w_def by linarith+
  note r = opcode_range [OF w(1,2) zero_less_numeral int_enc_bounds(1) [OF ok] w(3)]
  have enc: "enc_int v enc = [u8 (?op + w div 256), u8 w]"
    using c by (auto simp: enc_int_def Let_def w_def)
  have av: "avail < 0 \<or> 2 \<le> avail" using cov unfolding covers_def enc by simp
  have lo: "?op \<le> uint (u8 (?op + w div 256))" and hi: "uint (u8 (?op + w div 256)) < small_neg_opcode enc"
    unfolding r(1) using r(2,3) by linarith+
  have "w div 256 * 256 + w mod 256 + tiny_max enc + 1 = v" using octets_value2 [of w] unfolding w_def by linarith
  then show ?thesis
    unfolding enc append.simps dec_small_pos [OF ok lo hi av] r(1)
    unfolding uint_u8 by simp
qed

lemma int_medium_neg:
  assumes ok: "int_enc_ok enc" and c: "\<not> (tiny_min enc \<le> v \<and> v \<le> tiny_max enc)" "\<not> (small_min enc \<le> v \<and> v \<le> small_max enc)" "medium_min enc \<le> v \<and> v \<le> medium_max enc" "v < 0"
    and cov: "covers avail (enc_int v enc)"
  shows "decodeInteger env ctx x (enc_int v enc @ rest) avail enc =
     Some (int (length (enc_int v enc)), ctx, set_int v x)"
proof -
  let ?op = "medium_neg_opcode enc"
  define w where "w = small_min enc - 1 - v"
  have w: "0 \<le> w" "w < 65536 * (large_pos_opcode enc - ?op)" "?op + (large_pos_opcode enc - ?op) \<le> 256"
    using c ok [unfolded int_enc_ok_def] unfolding w_def by linarith+
  note r = opcode_range [OF w(1,2) zero_less_numeral int_enc_bounds(4) [OF ok] w(3)]
  have enc: "enc_int v enc = [u8 (?op + w div 65536), u8 (w div 256), u8 w]"
    using c by (auto simp: enc_int_def Let_def w_def)
  have av: "avail < 0 \<or> 3 \<le> avail" using cov unfolding covers_def enc by simp
  have lo: "?op \<le> uint (u8 (?op + w div 65536))" and hi: "uint (u8 (?op + w div 65536)) < large_pos_opcode enc"
    unfolding r(1) using r(2,3) by linarith+
  have "- (w div 65536 * 65536 + w div 256 mod 256 * 256 + w mod 256) + small_min enc - 1 = v" using octets_value3 [of w] unfolding w_def by linarith
  then show ?thesis
    unfolding enc append.simps dec_medium_neg [OF ok lo hi av] r(1)
    unfolding uint_u8 by simp
qed

lemma int_medium_pos:
  assumes ok: "int_enc_ok enc" and c: "\<not> (tiny_min enc \<le> v \<and> v \<le> tiny_max enc)" "\<not> (small_min enc \<le> v \<and> v \<le> small_max enc)" "medium_min enc \<le> v \<and> v \<le> medium_max enc" "\<not> v < 0"
    and cov: "covers avail (enc_int v enc)"
  shows "decodeInteger env ctx x (enc_int v enc @ rest) avail enc =
     Some (int (length (enc_int v enc)), ctx, set_int v x)"
proof -
  let ?op = "medium_pos_opcode enc"
  define w where "w = v - small_max enc - 1"
  have w: "0 \<le> w" "w < 65536 * (medium_neg_opcode enc - ?op)" "?op + (medium_neg_opcode enc - ?op) \<le> 256"
    using c ok [unfolded int_enc_ok_def] unfolding w_def by linarith+
  note r = opcode_range [OF w(1,2) zero_less_numeral int_enc_bounds(3) [OF ok] w(3)]
  have enc: "enc_int v enc = [u8 (?op + w div 65536), u8 (w div 256), u8 w]"
    using c by (auto simp: enc_int_def Let_def w_def)
  have av: "avail < 0 \<or> 3 \<le> avail" using cov unfolding covers_def enc by simp
  have lo: "?op \<le> uint (u8 (?op + w div 65536))" and hi: "uint (u8 (?op + w div 65536)) < medium_neg_opcode enc"
    unfolding r(1) using r(2,3) by linarith+
  have "w div 65536 * 65536 + w div 256 mod 256 * 256 + w mod 256 + small_max enc + 1 = v" using octets_value3 [of w] unfolding w_def by linarith
  then show ?thesis
    unfolding enc append.simps dec_medium_pos [OF ok lo hi av] r(1)
    unfolding uint_u8 by simp
qed

lemma int_large_neg:
  assumes ok: "int_enc_ok enc" and c: "\<not> (tiny_min enc \<le> v \<and> v \<le> tiny_max enc)" "\<not> (small_min enc \<le> v \<and> v \<le> small_max enc)" "\<not> (medium_min enc \<le> v \<and> v \<le> medium_max enc)" "large_min enc \<le> v \<and> v \<le> large_max enc" "v < 0"
    and cov: "covers avail (enc_int v enc)"
  shows "decodeInteger env ctx x (enc_int v enc @ rest) avail enc =
     Some (int (length (enc_int v enc)), ctx, set_int v x)"
proof -
  let ?op = "large_neg_opcode enc"
  define w where "w = medium_min enc - 1 - v"
  have w: "0 \<le> w" "w < 16777216 * ((last_large_neg_opcode enc + 1) - ?op)" "?op + ((last_large_neg_opcode enc + 1) - ?op) \<le> 256"
    using c ok [unfolded int_enc_ok_def] unfolding w_def by linarith+
  note r = opcode_range [OF w(1,2) zero_less_numeral int_enc_bounds(6) [OF ok] w(3)]
  have enc: "enc_int v enc = [u8 (?op + w div 16777216), u8 (w div 65536), u8 (w div 256), u8 w]"
    using c by (auto simp: enc_int_def Let_def w_def)
  have av: "avail < 0 \<or> 4 \<le> avail" using cov unfolding covers_def enc by simp
  have lo: "?op \<le> uint (u8 (?op + w div 16777216))" and hi: "uint (u8 (?op + w div 16777216)) \<le> last_large_neg_opcode enc"
    unfolding r(1) using r(2,3) by linarith+
  have "- (w div 16777216 * 16777216 + w div 65536 mod 256 * 65536 + w div 256 mod 256 * 256 + w mod 256) + medium_min enc - 1 = v" using octets_value4 [of w] unfolding w_def by linarith
  then show ?thesis
    unfolding enc append.simps dec_large_neg [OF ok lo hi av] r(1)
    unfolding uint_u8 by simp
qed

lemma int_large_pos:
  assumes ok: "int_enc_ok enc" and c: "\<not> (tiny_min enc \<le> v \<and> v \<le> tiny_max enc)" "\<not> (small_min enc \<le> v \<and> v \<le> small_max enc)" "\<not> (medium_min enc \<le> v \<and> v \<le> medium_max enc)" "large_min enc \<le> v \<and> v \<le> large_max enc" "\<not> v < 0"
    and cov: "covers avail (enc_int v enc)"
  shows "decodeInteger env ctx x (enc_int v enc @ rest) avail enc =
     Some (int (length (enc_int v enc)), ctx, set_int v x)"
proof -
  let ?op = "large_pos_opcode enc"
  define w where "w = v - medium_max enc - 1"
  have w: "0 \<le> w" "w < 16777216 * (large_neg_opcode enc - ?op)" "?op + (large_neg_opcode enc - ?op) \<le> 256"
    using c ok [unfolded int_enc_ok_def] unfolding w_def by linarith+
  note r = opcode_range [OF w(1,2) zero_less_numeral int_enc_bounds(5) [OF ok] w(3)]
  have enc: "enc_int v enc = [u8 (?op + w div 16777216), u8 (w div 65536), u8 (w div 256), u8 w]"
    using c by (auto simp: enc_int_def Let_def w_def)
  have av: "avail < 0 \<or> 4 \<le> avail" using cov unfolding covers_def enc by simp
  have lo: "?op \<le> uint (u8 (?op + w div 16777216))" and hi: "uint (u8 (?op + w div 16777216)) < large_neg_opcode enc"
    unfolding r(1) using r(2,3) by linarith+
  have "w div 16777216 * 16777216 + w div 65536 mod 256 * 65536 + w div 256 mod 256 * 256 + w mod 256 + medium_max enc + 1 = v" using octets_value4 [of w] unfolding w_def by linarith
  then show ?thesis
    unfolding enc append.simps dec_large_pos [OF ok lo hi av] r(1)
    unfolding uint_u8 by simp
qed

lemma int_tiny:
  assumes ok: "int_enc_ok enc" and t: "tiny_min enc \<le> v \<and> v \<le> tiny_max enc"
    and cov: "covers avail (enc_int v enc)"
  shows "decodeInteger env ctx x (enc_int v enc @ rest) avail enc =
     Some (int (length (enc_int v enc)), ctx, set_int v x)"
proof -
  have "uint (u8 (tiny_zero_opcode enc + v)) = tiny_zero_opcode enc + v"
    using t ok [unfolded int_enc_ok_def] by (intro uint_u8_id) linarith+
  moreover have "enc_int v enc = [u8 (tiny_zero_opcode enc + v)]" using t by (simp add: enc_int_def)
  moreover from this cov have "avail < 0 \<or> 1 \<le> avail" by (simp add: covers_def)
  ultimately show ?thesis using t
    by (simp add: decodeInteger_def set_int_def Let_def check_length_pass)
qed

lemma decode_enc_int:
  assumes ok: "int_enc_ok enc" and v: "- (2 ^ 63) \<le> v" "v < 2 ^ 63"
    and env: "env_sendian env = host_sendian (env_host env)" and cov: "covers avail (enc_int v enc)"
  shows "decodeInteger env ctx x (enc_int v enc @ rest) avail enc =
     Some (int (length (enc_int v enc)), ctx, set_int v x)"
proof -
  let ?tiny = "tiny_min enc \<le> v \<and> v \<le> tiny_max enc"
  let ?small = "small_min enc \<le> v \<and> v \<le> small_max enc"
  let ?medium = "medium_min enc \<le> v \<and> v \<le> medium_max enc"
  let ?large = "large_min enc \<le> v \<and> v \<le> large_max enc"
  show ?thesis
  proof (cases "?tiny \<or> ?small \<or> ?medium \<or> ?large")
    case True
    then consider ?tiny | "\<not> ?tiny" ?small | "\<not> ?tiny" "\<not> ?small" ?medium
      | "\<not> ?tiny" "\<not> ?small" "\<not> ?medium" ?large by blast
    then show ?thesis
    proof cases
      case 1 then show ?thesis by (rule int_tiny [OF ok _ cov])
    next
      case 2 then show ?thesis
        by (cases "v < 0") (blast intro: int_small_neg [OF ok _ _ _ cov] int_small_pos [OF ok _ _ _ cov])+
    next
      case 3 then show ?thesis
        by (cases "v < 0") (blast intro: int_medium_neg [OF ok _ _ _ _ cov] int_medium_pos [OF ok _ _ _ _ cov])+
    next
      case 4 then show ?thesis
        by (cases "v < 0") (blast intro: int_large_neg [OF ok _ _ _ _ _ cov] int_large_pos [OF ok _ _ _ _ _ cov])+
    qed
  next
    case False
    then have n: "\<not> ?tiny" "\<not> ?small" "\<not> ?medium" "\<not> ?large" by blast+
    show ?thesis
    proof (cases "signed_take_bit 31 v = v")
      case True
      then have enc: "enc_int v enc = u8 (int32_opcode enc) # be_bytes 4 v"
        by (simp only: enc_int_def Let_def n if_False if_True simp_thms)
      have "avail < 0 \<or> 5 \<le> avail" using cov unfolding covers_def enc by simp
      from dec_int32 [OF ok this env, of ctx x v rest] True show ?thesis unfolding enc by simp
    next
      case wide: False
      then have enc: "enc_int v enc = u8 (int64_opcode enc) # be_bytes 8 v"
        by (simp only: enc_int_def Let_def n if_False if_True simp_thms)
      have "avail < 0 \<or> 9 \<le> avail" using cov unfolding covers_def enc by simp
      moreover have "signed_take_bit 63 v = v" using v by (simp add: signed_take_bit_int_eq_self)
      ultimately show ?thesis using dec_int64 [OF ok _ env, of avail ctx x v rest] unfolding enc by simp
    qed
  qed
qed

section \<open>Strings\<close>

definition string_enc_ok :: "bs_string_encoding_t \<Rightarrow> bool" where
  "string_enc_ok enc \<longleftrightarrow>
     0 \<le> small_opcode enc \<and> 0 \<le> small_limit enc \<and> small_opcode enc + small_limit enc < medium_opcode enc \<and>
     medium_opcode enc \<le> large_opcode enc \<and> large_opcode enc < chunked_opcode enc \<and> chunked_opcode enc < 256 \<and>
     medium_limit enc - small_limit enc \<le> 256 * (large_opcode enc - medium_opcode enc) \<and>
     large_limit enc - medium_limit enc \<le> 65536 \<and> small_limit enc \<le> medium_limit enc"

lemma string_enc_ok_tables: "string_enc_ok BS_GLOBAL_STRING" "string_enc_ok BS_UIS_STRING"
  by (simp_all add: string_enc_ok_def string_enc_defs)

lemma octets_Cons2: "length X = n \<Longrightarrow> octets (a # b # X @ rest) 2 n k = k X"
  using octets_append [of "[a, b]" 2 X n rest k] by simp

lemma octets_Cons3: "length X = n \<Longrightarrow> octets (a # b # c # X @ rest) 3 n k = k X"
  using octets_append [of "[a, b, c]" 3 X n rest k] by simp

lemma dec_str_small:
  assumes "string_enc_ok enc" "small_opcode enc \<le> uint b0" "uint b0 < medium_opcode enc"
    and len: "int (length s) = uint b0 - small_opcode enc" and av: "avail < 0 \<or> int (length s) + 1 \<le> avail"
  shows "decodeString ctx x (b0 # s @ rest) avail enc = Some (int (length s) + 1, ctx, bsd_string s x)"
proof -
  have one: "CHECK_LENGTH avail 1 ctx x k = k" for k using av by (intro check_length_pass) auto
  have o: "octets (b0 # s @ rest) 1 (length s) k = k s" for k by (rule octets_Cons) simp
  show ?thesis
    using assms(2,3) o av unfolding decodeString_def Let_def octet_Cons one
    by (simp add: check_length_pass bsd_string_def flip: len)
qed

lemma dec_str_medium:
  assumes "string_enc_ok enc" "medium_opcode enc \<le> uint b0" "uint b0 < large_opcode enc"
    and len: "int (length s) = push_bit 8 (uint b0 - medium_opcode enc) + uint b1 + small_limit enc + 1"
    and av: "avail < 0 \<or> int (length s) + 2 \<le> avail"
  shows "decodeString ctx x (b0 # b1 # s @ rest) avail enc = Some (int (length s) + 2, ctx, bsd_string s x)"
proof -
  have one: "CHECK_LENGTH avail 1 ctx x k = k" "CHECK_LENGTH avail 2 ctx y k = k" for k x y
    using av by (auto intro!: check_length_pass)
  have o: "octets (b0 # b1 # s @ rest) 2 (length s) k = k s" for k by (rule octets_Cons2) simp
  have n: "\<not> (small_opcode enc \<le> uint b0 \<and> uint b0 < medium_opcode enc)" using assms(2) by linarith
  show ?thesis
    using assms(2,3) n o av unfolding decodeString_def Let_def octet_Cons octet_one one len [symmetric]
    by (simp add: check_length_pass bsd_string_def)
qed

lemma dec_str_large:
  assumes ok: "string_enc_ok enc" and op: "uint b0 = large_opcode enc"
    and len: "int (length s) = push_bit 8 (uint b1) + uint b2 + medium_limit enc + 1"
    and av: "avail < 0 \<or> int (length s) + 3 \<le> avail"
  shows "decodeString ctx x (b0 # b1 # b2 # s @ rest) avail enc = Some (int (length s) + 3, ctx, bsd_string s x)"
proof -
  have one: "CHECK_LENGTH avail 1 ctx x k = k" "CHECK_LENGTH avail 3 ctx y k = k" for k x y
    using av by (auto intro!: check_length_pass)
  have o: "octets (b0 # b1 # b2 # s @ rest) 3 (length s) k = k s" for k by (rule octets_Cons3) simp
  have n: "\<not> (small_opcode enc \<le> uint b0 \<and> uint b0 < medium_opcode enc)"
    "\<not> large_opcode enc < medium_opcode enc"
    using ok op unfolding string_enc_ok_def by linarith+
  have o2: "octet (b0 # b1 # b2 # bs) 2 k = k (uint b2)" for bs k by (simp add: octet_def)
  show ?thesis
    using op n o av unfolding decodeString_def Let_def octet_Cons octet_one o2 one len [symmetric]
    by (simp add: check_length_pass bsd_string_def)
qed

lemma string_small:
  assumes ok: "string_enc_ok enc" and c: "int (length s) \<le> small_limit enc"
    and cov: "covers avail (enc_string s enc)"
  shows "decodeString ctx x (enc_string s enc @ rest) avail enc =
     Some (int (length (enc_string s enc)), ctx, bsd_string s x)"
proof -
  let ?op = "small_opcode enc + int (length s)"
  have u: "uint (u8 ?op) = ?op"
    using ok c unfolding string_enc_ok_def by (intro uint_u8_id) linarith+
  have enc: "enc_string s enc = u8 ?op # s" using c by (simp add: enc_string_def Let_def)
  have av: "avail < 0 \<or> int (length s) + 1 \<le> avail" using cov unfolding covers_def enc by auto
  have r: "small_opcode enc \<le> uint (u8 ?op)" "uint (u8 ?op) < medium_opcode enc"
    "int (length s) = uint (u8 ?op) - small_opcode enc"
    unfolding u using ok c unfolding string_enc_ok_def by linarith+
  show ?thesis unfolding enc append.simps dec_str_small [OF ok r av] by simp
qed

lemma string_medium:
  assumes ok: "string_enc_ok enc" and c: "\<not> int (length s) \<le> small_limit enc" "int (length s) \<le> medium_limit enc"
    and cov: "covers avail (enc_string s enc)"
  shows "decodeString ctx x (enc_string s enc @ rest) avail enc =
     Some (int (length (enc_string s enc)), ctx, bsd_string s x)"
proof -
  define w where "w = int (length s) - small_limit enc - 1"
  let ?op = "medium_opcode enc"
  have w: "0 \<le> w" "w < 256 * (large_opcode enc - ?op)" "0 \<le> ?op" "?op + (large_opcode enc - ?op) \<le> 256"
    using ok c unfolding w_def string_enc_ok_def by linarith+
  note r = opcode_range [OF w(1,2) zero_less_numeral w(3,4)]
  have enc: "enc_string s enc = u8 (?op + w div 256) # u8 w # s"
    using c by (simp add: enc_string_def Let_def w_def)
  have av: "avail < 0 \<or> int (length s) + 2 \<le> avail" using cov unfolding covers_def enc by auto
  have b: "?op \<le> uint (u8 (?op + w div 256))" "uint (u8 (?op + w div 256)) < large_opcode enc"
    unfolding r(1) using r(2,3) by linarith+
  have len: "int (length s) = push_bit 8 (uint (u8 (?op + w div 256)) - ?op) + uint (u8 w) + small_limit enc + 1"
    unfolding r(1) unfolding uint_u8 push_bit_int using octets_value2 [of w] by (simp add: w_def)
  show ?thesis unfolding enc append.simps dec_str_medium [OF ok b len av] by simp
qed

lemma string_large:
  assumes ok: "string_enc_ok enc" and c: "\<not> int (length s) \<le> medium_limit enc" "int (length s) \<le> large_limit enc"
    and cov: "covers avail (enc_string s enc)"
  shows "decodeString ctx x (enc_string s enc @ rest) avail enc =
     Some (int (length (enc_string s enc)), ctx, bsd_string s x)"
proof -
  define w where "w = int (length s) - medium_limit enc - 1"
  let ?op = "large_opcode enc"
  have w: "0 \<le> w" "w < 65536" using ok c unfolding w_def string_enc_ok_def by linarith+
  have u: "uint (u8 ?op) = ?op" using ok unfolding string_enc_ok_def by (intro uint_u8_id) linarith+
  have enc: "enc_string s enc = u8 ?op # u8 (w div 256) # u8 w # s"
    using c ok by (simp add: enc_string_def Let_def w_def be_bytes_2 string_enc_ok_def)
  have av: "avail < 0 \<or> int (length s) + 3 \<le> avail" using cov unfolding covers_def enc by auto
  have "w div 256 mod 256 = w div 256" using w by (intro mod_pos_pos_trivial) auto
  then have len: "int (length s) = push_bit 8 (uint (u8 (w div 256))) + uint (u8 w) + medium_limit enc + 1"
    unfolding uint_u8 push_bit_int using octets_value2 [of w] by (simp add: w_def)
  show ?thesis unfolding enc append.simps dec_str_large [OF ok u len av] by simp
qed

lemma decode_enc_string:
  assumes "string_enc_ok enc" "int (length s) \<le> large_limit enc" "covers avail (enc_string s enc)"
  shows "decodeString ctx x (enc_string s enc @ rest) avail enc =
     Some (int (length (enc_string s enc)), ctx, bsd_string s x)"
  using string_small string_medium string_large assms by blast

text \<open>Opcodes that are not the decoder's own are left to the next decoder.\<close>

lemma decodeString_skip:
  assumes "string_enc_ok enc" "uint b < small_opcode enc \<or> chunked_opcode enc < uint b" "avail < 0 \<or> 1 \<le> avail"
  shows "decodeString ctx x (b # rest) avail enc = Some (0, ctx, x\<lparr>d_type := BSD_STRING\<rparr>)"
  using assms unfolding string_enc_ok_def decodeString_def Let_def by (auto simp: check_length_pass)

lemma decodeInteger_skip:
  assumes "int_enc_ok enc" "uint b < tiny_zero_opcode enc + tiny_min enc \<or> int64_opcode enc < uint b"
    "avail < 0 \<or> 1 \<le> avail"
  shows "decodeInteger env ctx x (b # rest) avail enc = Some (0, ctx, x\<lparr>d_type := BSD_INT\<rparr>)"
proof -
  note ok = assms(1) [unfolded int_enc_ok_def] int_enc_bounds [OF assms(1)]
  have "CHECK_LENGTH avail 1 ctx x k = k" for k using assms(3) by (rule check_length_pass)
  moreover have "\<not> (tiny_zero_opcode enc + tiny_min enc \<le> uint b \<and> uint b \<le> tiny_zero_opcode enc + tiny_max enc)"
    "\<not> (small_pos_opcode enc \<le> uint b \<and> uint b < small_neg_opcode enc)"
    "\<not> (small_neg_opcode enc \<le> uint b \<and> uint b < medium_pos_opcode enc)"
    "\<not> (medium_pos_opcode enc \<le> uint b \<and> uint b < medium_neg_opcode enc)"
    "\<not> (medium_neg_opcode enc \<le> uint b \<and> uint b < large_pos_opcode enc)"
    "\<not> (large_pos_opcode enc \<le> uint b \<and> uint b < large_neg_opcode enc)"
    "\<not> (large_neg_opcode enc \<le> uint b \<and> uint b \<le> last_large_neg_opcode enc)"
    "int32_opcode enc \<noteq> uint b" "int64_opcode enc \<noteq> uint b"
    using ok assms(2) by linarith+
  ultimately show ?thesis
    unfolding decodeInteger_def Let_def octet_Cons by (simp only: if_False simp_thms)
qed

section \<open>Unsigned integers\<close>

lemma uis_skip_string:
  assumes "0x3a < uint b" "avail < 0 \<or> 1 \<le> avail"
  shows "decodeString ctx x (b # rest) avail BS_UIS_STRING = Some (0, ctx, x\<lparr>d_type := BSD_STRING\<rparr>)"
  using assms by (intro decodeString_skip string_enc_ok_tables) (simp_all add: BS_UIS_STRING_def)

lemmas uis_eval = bsd_uis_def CHECK_DECODE_def uis_skip_string check_length_pass set_int_def Let_def
  push_bit_int

lemma uis_tiny:
  assumes "0x3b \<le> uint b0" "uint b0 \<le> 0xc6" "avail < 0 \<or> 1 \<le> avail"
  shows "bsd_uis ctx x (b0 # rest) avail = Some (1, ctx, set_int (uint b0 - 0x3b) x)"
  using assms by (simp add: uis_eval)

lemma uis_small:
  assumes "0xc7 \<le> uint b0" "uint b0 \<le> 0xe6" "avail < 0 \<or> 2 \<le> avail"
  shows "bsd_uis ctx x (b0 # b1 # rest) avail =
     Some (2, ctx, set_int ((uint b0 - 0xc7) * 256 + uint b1 + BS_UTI_MAX + 1) x)"
proof -
  have "avail < 0 \<or> 1 \<le> avail" using assms(3) by auto
  with assms show ?thesis by (simp add: uis_eval)
qed

lemma uis_medium:
  assumes "0xe7 \<le> uint b0" "uint b0 \<le> 0xf6" "avail < 0 \<or> 3 \<le> avail"
  shows "bsd_uis ctx x (b0 # b1 # b2 # rest) avail =
     Some (3, ctx, set_int ((uint b0 - 0xe7) * 65536 + uint b1 * 256 + uint b2 + BS_USI_MAX + 1) x)"
proof -
  have "avail < 0 \<or> 1 \<le> avail" using assms(3) by auto
  with assms show ?thesis by (simp add: uis_eval)
qed

lemma uis_large:
  assumes "0xf7 \<le> uint b0" "uint b0 \<le> 0xfe" "avail < 0 \<or> 4 \<le> avail"
  shows "bsd_uis ctx x (b0 # b1 # b2 # b3 # rest) avail =
     Some (4, ctx, set_int ((uint b0 - 0xf7) * 16777216 + uint b1 * 65536 + uint b2 * 256 + uint b3
                            + BS_UMI_MAX + 1) x)"
proof -
  have "avail < 0 \<or> 1 \<le> avail" using assms(3) by auto
  with assms show ?thesis by (simp add: uis_eval)
qed

lemma octets_be4:
  "uint (u8 (v div 2 ^ 24)) * 16777216 + uint (u8 (v div 2 ^ 16)) * 65536 + uint (u8 (v div 2 ^ 8)) * 256
     + uint (u8 v) = v mod 2 ^ 32"
proof -
  have "a * 16777216 + b * 65536 + c * 256 + d = ((a * 256 + b) * 256 + c) * 256 + d" for a b c d :: int
    by simp
  then have "uint (u8 (v div 2 ^ 24)) * 16777216 + uint (u8 (v div 2 ^ 16)) * 65536 + uint (u8 (v div 2 ^ 8)) * 256
     + uint (u8 v) = be_value (be_bytes 4 v)"
    by (simp only: be_bytes_4 be_value_def foldl_Cons foldl_Nil mult_zero_left add_0_left)
  then show ?thesis by (simp only: be_value_be_bytes) simp
qed

lemma uis_xlarge:
  assumes "avail < 0 \<or> 5 \<le> avail"
  shows "bsd_uis ctx x (0xff # be_bytes 4 v @ rest) avail = Some (5, ctx, set_int (v mod 2 ^ 32) x)"
proof -
  have one: "avail < 0 \<or> 1 \<le> avail" using assms by auto
  have "bsd_uis ctx x (0xff # b1 # b2 # b3 # b4 # rest) avail =
      Some (5, ctx, set_int ((uint b1 * 16777216 + uint b2 * 65536 + uint b3 * 256 + uint b4) mod 2 ^ 32) x)"
    for b1 b2 b3 b4
    using assms one by (simp add: uis_eval)
  then show ?thesis
    unfolding be_bytes_4 append.simps octets_be4 by (simp only: octets_be4 mod_mod_trivial)
qed

lemma uint_small:
  assumes v: "139 < v" "v \<le> 8331" and cov: "covers avail (enc_uint v)"
  shows "bsd_uis ctx x (enc_uint v @ rest) avail = Some (int (length (enc_uint v)), ctx, set_int v x)"
proof -
  define w where "w = v - 140"
  have enc: "enc_uint v = [u8 (199 + w div 256), u8 w]"
    using v by (simp add: enc_uint_def uint_limit_defs w_def Let_def)
  have w: "0 \<le> w" "w < 256 * 32" using v by (auto simp: w_def)
  have av: "avail < 0 \<or> 2 \<le> avail" using cov unfolding covers_def enc by auto
  have u: "uint (u8 (199 + w div 256)) = 199 + w div 256"
    by (rule opcode_range(1) [OF w]) auto
  have lo: "199 \<le> uint (u8 (199 + w div 256))" and hi: "uint (u8 (199 + w div 256)) \<le> 230"
    unfolding u using opcode_range(2,3) [OF w zero_less_numeral, of 199] by auto
  have "w div 256 * 256 + w mod 256 + 139 + 1 = v" using octets_value2 [of w] unfolding w_def by linarith
  then show ?thesis
    unfolding enc append.simps uis_small [OF lo hi av] u unfolding uint_u8 uint_limit_defs by simp
qed

lemma uint_medium:
  assumes v: "8331 < v" "v \<le> 1056907" and cov: "covers avail (enc_uint v)"
  shows "bsd_uis ctx x (enc_uint v @ rest) avail = Some (int (length (enc_uint v)), ctx, set_int v x)"
proof -
  define w where "w = v - 8332"
  have enc: "enc_uint v = [u8 (231 + w div 65536), u8 (w div 256), u8 w]"
    using v by (simp add: enc_uint_def uint_limit_defs w_def Let_def)
  have w: "0 \<le> w" "w < 65536 * 16" using v by (auto simp: w_def)
  have av: "avail < 0 \<or> 3 \<le> avail" using cov unfolding covers_def enc by auto
  have u: "uint (u8 (231 + w div 65536)) = 231 + w div 65536"
    by (rule opcode_range(1) [OF w]) auto
  have lo: "231 \<le> uint (u8 (231 + w div 65536))" and hi: "uint (u8 (231 + w div 65536)) \<le> 246"
    unfolding u using opcode_range(2,3) [OF w zero_less_numeral, of 231] by auto
  have "w div 65536 * 65536 + w div 256 mod 256 * 256 + w mod 256 + 8331 + 1 = v" using octets_value3 [of w] unfolding w_def by linarith
  then show ?thesis
    unfolding enc append.simps uis_medium [OF lo hi av] u unfolding uint_u8 uint_limit_defs by simp
qed

lemma uint_large:
  assumes v: "1056907 < v" "v \<le> 135274635" and cov: "covers avail (enc_uint v)"
  shows "bsd_uis ctx x (enc_uint v @ rest) avail = Some (int (length (enc_uint v)), ctx, set_int v x)"
proof -
  define w where "w = v - 1056908"
  have enc: "enc_uint v = [u8 (247 + w div 16777216), u8 (w div 65536), u8 (w div 256), u8 w]"
    using v by (simp add: enc_uint_def uint_limit_defs w_def Let_def)
  have w: "0 \<le> w" "w < 16777216 * 8" using v by (auto simp: w_def)
  have av: "avail < 0 \<or> 4 \<le> avail" using cov unfolding covers_def enc by auto
  have u: "uint (u8 (247 + w div 16777216)) = 247 + w div 16777216"
    by (rule opcode_range(1) [OF w]) auto
  have lo: "247 \<le> uint (u8 (247 + w div 16777216))" and hi: "uint (u8 (247 + w div 16777216)) \<le> 254"
    unfolding u using opcode_range(2,3) [OF w zero_less_numeral, of 247] by auto
  have "w div 16777216 * 16777216 + w div 65536 mod 256 * 65536 + w div 256 mod 256 * 256 + w mod 256 + 1056907 + 1 = v" using octets_value4 [of w] unfolding w_def by linarith
  then show ?thesis
    unfolding enc append.simps uis_large [OF lo hi av] u unfolding uint_u8 uint_limit_defs by simp
qed

lemma decode_enc_uint:
  assumes v: "0 \<le> v" "v < 2 ^ 32" and cov: "covers avail (enc_uint v)"
  shows "bsd_uis ctx x (enc_uint v @ rest) avail = Some (int (length (enc_uint v)), ctx, set_int v x)"
proof -
  consider "v \<le> 139" | "139 < v" "v \<le> 8331" | "8331 < v" "v \<le> 1056907" | "1056907 < v" "v \<le> 135274635"
    | "135274635 < v" by linarith
  then show ?thesis
  proof cases
    case 1
    then have enc: "enc_uint v = [u8 (v + 59)]" by (simp add: enc_uint_def uint_limit_defs)
    have u: "uint (u8 (v + 59)) = v + 59" using 1 v by (intro uint_u8_id) auto
    have "avail < 0 \<or> 1 \<le> avail" using cov unfolding covers_def enc by simp
    with uis_tiny [of "u8 (v + 59)" avail ctx x rest] 1 v show ?thesis unfolding enc u by simp
  next
    case 5
    then have enc: "enc_uint v = 0xff # be_bytes 4 v" by (simp add: enc_uint_def uint_limit_defs)
    have "avail < 0 \<or> 5 \<le> avail" using cov unfolding covers_def enc by simp
    from uis_xlarge [OF this, of ctx x v rest] v show ?thesis unfolding enc by simp
  qed (use uint_small [OF _ _ cov] uint_medium [OF _ _ cov] uint_large [OF _ _ cov] in auto)
qed

section \<open>Collections\<close>

text \<open>
  The opcodes of a kind of collection are contiguous, in the order: empty, short untyped, long
  untyped, unsized untyped, short typed, long typed, unsized typed.
\<close>

definition coll_enc_ok :: "bs_coll_encoding_t \<Rightarrow> bool" where
  "coll_enc_ok enc \<longleftrightarrow>
     0 \<le> empty_opcode enc \<and> 0 < coll_small_limit enc \<and> coll_small_limit enc < 2 ^ 16 \<and>
     small_untyped_opcode enc = empty_opcode enc + 1 \<and>
     long_untyped_opcode enc = empty_opcode enc + 1 + coll_small_limit enc \<and>
     variable_untyped_opcode enc = empty_opcode enc + 2 + coll_small_limit enc \<and>
     small_typed_opcode enc = empty_opcode enc + 3 + coll_small_limit enc \<and>
     long_typed_opcode enc = empty_opcode enc + 3 + 2 * coll_small_limit enc \<and>
     variable_typed_opcode enc = empty_opcode enc + 4 + 2 * coll_small_limit enc \<and>
     empty_opcode enc + 4 + 2 * coll_small_limit enc < 256"

lemma coll_enc_ok_tables: "coll_enc_ok BS_GLOBAL_LIST" "coll_enc_ok BS_GLOBAL_MAP"
  "coll_enc_ok BS_LISTMAP_LIST" "coll_enc_ok BS_LISTMAP_MAP"
  by (simp_all add: coll_enc_ok_def coll_enc_defs)

text \<open>The context after a container was pushed.\<close>

definition opened :: "bs_stackframekind_t \<Rightarrow> nat \<Rightarrow> int \<Rightarrow> bsd_ctx_t \<Rightarrow> bsd_ctx_t" where
  "opened k c miss ctx =
     (let n = d_stacksize ctx + 1; f = (d_stack ctx ! n)\<lparr>kind := k, ctxid := c, missing := miss\<rparr> in
      ctx\<lparr>d_stacksize := n,
          d_stack := (d_stack ctx)[n := if k = BS_FMAP \<or> k = BS_FZMAP
                                        then f\<lparr>missing := miss * 2, content := C_map 1\<rparr> else f]\<rparr>)"

lemma openContainer_ok:
  assumes "d_stacksize ctx \<noteq> STACK_SIZE - 1" "- (2 ^ 30) \<le> miss" "miss < 2 ^ 30"
  shows "bsd_openContainer k c miss ctx = Some (BSD_EOK, opened k c miss ctx)"
proof -
  have "signed_take_bit 31 (miss * 2) = miss * 2"
    using assms(2,3) by (intro signed_take_bit_int_eq_self) auto
  with assms(1) show ?thesis by (simp add: bsd_openContainer_def opened_def Let_def)
qed

lemma check_open:
  assumes "d_stacksize ctx \<noteq> STACK_SIZE - 1" "- (2 ^ 30) \<le> miss" "miss < 2 ^ 30"
  shows "CHECK_ERROR (bsd_openContainer k c miss ctx) x K = K (opened k c miss ctx)"
  by (simp add: openContainer_ok [OF assms] CHECK_ERROR_def)

definition coll_data :: "int \<Rightarrow> bs_coll_encoding_t \<Rightarrow> bsd_data_t \<Rightarrow> bsd_data_t" where
  "coll_data len enc x =
     (if len < 0 then x\<lparr>d_type := bsd_typeFromFrameKind (variable_kind enc)\<rparr>
      else x\<lparr>d_type := bsd_typeFromFrameKind (fixed_kind enc), d_content := D_length len\<rparr>)"

text \<open>What the decoder does in each range of opcodes.\<close>

lemma coll_dec_simple:
  assumes ok: "coll_enc_ok enc" and st: "d_stacksize ctx \<noteq> STACK_SIZE - 1"
    and av: "avail < 0 \<or> 1 \<le> avail"
  shows "uint b = empty_opcode enc \<Longrightarrow> decodeCollection ctx x (b # rest) avail enc =
      Some (1, opened (fixed_kind enc) BS_CTXID_GLOBAL 0 ctx, coll_data 0 enc x)"
    "empty_opcode enc < uint b \<Longrightarrow> uint b \<le> empty_opcode enc + coll_small_limit enc \<Longrightarrow>
      decodeCollection ctx x (b # rest) avail enc =
      Some (1, opened (fixed_kind enc) BS_CTXID_GLOBAL (uint b - empty_opcode enc) ctx,
            coll_data (uint b - empty_opcode enc) enc x)"
    "uint b = variable_untyped_opcode enc \<Longrightarrow> decodeCollection ctx x (b # rest) avail enc =
      Some (1, opened (variable_kind enc) BS_CTXID_GLOBAL (- 1) ctx, coll_data (- 1) enc x)"
proof -
  note ok' = ok [unfolded coll_enc_ok_def]
  have "- 256 \<le> uint b - empty_opcode enc" "uint b - empty_opcode enc \<le> 256"
    using ok' uint_byte_bounds [of b] by linarith+
  then have s31: "signed_take_bit 31 (uint b - empty_opcode enc) = uint b - empty_opcode enc"
    and lim: "- (2 ^ 30) \<le> uint b - empty_opcode enc" "uint b - empty_opcode enc < 2 ^ 30"
    by (auto intro!: signed_take_bit_int_eq_self)
  note d = decodeCollection_def Let_def check_length_pass [OF av] coll_data_def
  show "uint b = empty_opcode enc \<Longrightarrow> decodeCollection ctx x (b # rest) avail enc =
      Some (1, opened (fixed_kind enc) BS_CTXID_GLOBAL 0 ctx, coll_data 0 enc x)"
    using check_open [OF st, of 0] by (simp add: d)
  show "decodeCollection ctx x (b # rest) avail enc =
      Some (1, opened (fixed_kind enc) BS_CTXID_GLOBAL (uint b - empty_opcode enc) ctx,
            coll_data (uint b - empty_opcode enc) enc x)"
    if "empty_opcode enc < uint b" "uint b \<le> empty_opcode enc + coll_small_limit enc"
    using that ok' check_open [OF st lim] s31 by (simp add: d)
  show "uint b = variable_untyped_opcode enc \<Longrightarrow> decodeCollection ctx x (b # rest) avail enc =
      Some (1, opened (variable_kind enc) BS_CTXID_GLOBAL (- 1) ctx, coll_data (- 1) enc x)"
    using ok' check_open [OF st, of "- 1"] by (simp add: d)
qed

lemma coll_dec_typed:
  assumes ok: "coll_enc_ok enc" and st: "d_stacksize ctx \<noteq> STACK_SIZE - 1"
    and av: "avail < 0 \<or> 2 \<le> avail"
  shows "small_typed_opcode enc \<le> uint b \<Longrightarrow> uint b < long_typed_opcode enc \<Longrightarrow>
      decodeCollection ctx x (b # t # rest) avail enc =
      Some (2, opened (fixed_kind enc) (nat (uint t)) (uint b - small_typed_opcode enc + 1) ctx,
            coll_data (uint b - small_typed_opcode enc + 1) enc x)"
    "uint b = variable_typed_opcode enc \<Longrightarrow> decodeCollection ctx x (b # t # rest) avail enc =
      Some (2, opened (variable_kind enc) (nat (uint t)) (- 1) ctx, coll_data (- 1) enc x)"
proof -
  note ok' = ok [unfolded coll_enc_ok_def]
  have one: "CHECK_LENGTH avail 1 ctx x k = k" "CHECK_LENGTH avail 2 ctx x k = k" for k
    using av by (auto intro!: check_length_pass)
  have "- 256 \<le> uint b - small_typed_opcode enc + 1" "uint b - small_typed_opcode enc + 1 \<le> 256"
    using ok' uint_byte_bounds [of b] by linarith+
  then have s31: "signed_take_bit 31 (uint b - small_typed_opcode enc + 1) = uint b - small_typed_opcode enc + 1"
    and lim: "- (2 ^ 30) \<le> uint b - small_typed_opcode enc + 1" "uint b - small_typed_opcode enc + 1 < 2 ^ 30"
    by (auto intro!: signed_take_bit_int_eq_self)
  note d = decodeCollection_def Let_def one coll_data_def
  show "decodeCollection ctx x (b # t # rest) avail enc =
      Some (2, opened (fixed_kind enc) (nat (uint t)) (uint b - small_typed_opcode enc + 1) ctx,
            coll_data (uint b - small_typed_opcode enc + 1) enc x)"
    if "small_typed_opcode enc \<le> uint b" "uint b < long_typed_opcode enc"
    unfolding d octet_Cons octet_one s31
    using that ok' check_open [OF st lim] by simp
  show "uint b = variable_typed_opcode enc \<Longrightarrow> decodeCollection ctx x (b # t # rest) avail enc =
      Some (2, opened (variable_kind enc) (nat (uint t)) (- 1) ctx, coll_data (- 1) enc x)"
    using ok' check_open [OF st, of "- 1"] by (simp add: d)
qed

lemma enc_uint_nonempty [simp]: "enc_uint v \<noteq> []"
  by (simp add: enc_uint_def Let_def)

text \<open>The length of a long collection is read with one octet too many allowed.\<close>

lemma coll_length_read:
  assumes "coll_enc_ok enc" "0 \<le> v" "v < 2 ^ 30" "int (length (enc_uint v)) + 1 \<le> avail"
  shows "CHECK_SUBDECODE (bsd_uis ctx x (enc_uint v @ r) (avail + 1)) BSD_INT 1 K =
     K (1 + int (length (enc_uint v))) ctx (set_int v x)"
proof -
  have "covers (avail + 1) (enc_uint v)" using assms(4) by (auto simp: covers_def)
  with assms decode_enc_uint [of v "avail + 1" ctx x r] show ?thesis
    by (simp add: CHECK_SUBDECODE_def set_int_def)
qed

lemma coll_dec_long:
  assumes ok: "coll_enc_ok enc" and st: "d_stacksize ctx \<noteq> STACK_SIZE - 1"
    and v: "0 \<le> v" "v + coll_small_limit enc + 1 < 2 ^ 30"
    and av: "int (length (enc_uint v)) + 1 \<le> avail"
  shows "uint b = long_untyped_opcode enc \<Longrightarrow>
      decodeCollection ctx x (b # enc_uint v @ rest) avail enc =
      Some (1 + int (length (enc_uint v)),
            opened (fixed_kind enc) BS_CTXID_GLOBAL (v + coll_small_limit enc + 1) ctx,
            coll_data (v + coll_small_limit enc + 1) enc x)"
    "uint b = long_typed_opcode enc \<Longrightarrow> int (length (enc_uint v)) + 2 \<le> avail \<Longrightarrow>
      decodeCollection ctx x (b # enc_uint v @ t # rest) avail enc =
      Some (2 + int (length (enc_uint v)),
            opened (fixed_kind enc) (nat (uint t)) (v + coll_small_limit enc + 1) ctx,
            coll_data (v + coll_small_limit enc + 1) enc x)"
proof -
  note ok' = ok [unfolded coll_enc_ok_def]
  let ?n = "v + coll_small_limit enc + 1"
  have n: "- (2 ^ 30) \<le> ?n" "?n < 2 ^ 30" "\<not> ?n < 0" "v < 2 ^ 30" using v ok' by linarith+
  then have s31: "signed_take_bit 31 ?n = ?n" by (auto intro!: signed_take_bit_int_eq_self)
  have one: "CHECK_LENGTH avail 1 ctx x k = k" for k using av by (auto intro!: check_length_pass)
  have d1: "drop 1 (b # bs) = bs" for b and bs :: bytes by simp
  note sub = coll_length_read [OF ok v(1) n(4) av]
  have gi: "get_int (set_int v x) = v" by (simp add: get_int_def set_int_def)
  have upd: "(set_int v x)\<lparr>d_type := ty, d_content := c\<rparr> = x\<lparr>d_type := ty, d_content := c\<rparr>" for ty c
    by (simp add: set_int_def)
  note d = decodeCollection_def Let_def one d1 sub gi s31 upd check_open [OF st n(1,2)] octet_Cons
  show "decodeCollection ctx x (b # enc_uint v @ rest) avail enc =
      Some (1 + int (length (enc_uint v)), opened (fixed_kind enc) BS_CTXID_GLOBAL ?n ctx, coll_data ?n enc x)"
    if "uint b = long_untyped_opcode enc"
    unfolding d using that ok' n by (simp add: coll_data_def)
  have o: "octet (b # enc_uint v @ t # rest) (nat (1 + int (length (enc_uint v)))) k = k (uint t)" for k
    by (simp add: octet_def nat_add_distrib nth_append)
  show "decodeCollection ctx x (b # enc_uint v @ t # rest) avail enc =
      Some (2 + int (length (enc_uint v)), opened (fixed_kind enc) (nat (uint t)) ?n ctx, coll_data ?n enc x)"
    if "uint b = long_typed_opcode enc" "int (length (enc_uint v)) + 2 \<le> avail"
    unfolding d o using that ok' n by (simp add: coll_data_def check_length_pass)
qed

end
