(* ===== verification/Bysant_Operations.thy ===== *)
theory Bysant_Operations
  imports Bysant_Transactions
begin

text \<open>
  The serializer's public operations as resumable transactions. A \<open>token\<close> is a call of an
  operation that writes one value; \<open>enc_token\<close> is the reference encoding of that value in
  the context of the current frame. Shown: an interrupted operation can be called again any
  number of times and the stream then holds exactly the reference encoding; a writer that
  always takes at least one octet is served in at most as many calls as there are octets; an
  operation that does not fit the context is refused without any effect. Opening a container
  is the exception: after an overflow it looks at the frame it has just pushed.
\<close>

section \<open>One transaction\<close>

text \<open>The frame after one more value, and when the commit of that value is accepted.\<close>

definition flipped :: "stackframe \<Rightarrow> stackframe" where
  "flipped f = (case content f of C_map e \<Rightarrow> f\<lparr>content := C_map (e XOR 1)\<rparr> | C_object _ \<Rightarrow> f)"

definition counted :: "stackframe \<Rightarrow> stackframe" where
  "counted f =
     (case kind f of
        BS_FZMAP \<Rightarrow> flipped f
      | BS_FMAP \<Rightarrow> (flipped f)\<lparr>missing := missing f - 1\<rparr>
      | BS_FLIST \<Rightarrow> f\<lparr>missing := missing f - 1\<rparr>
      | BS_FOBJECT \<Rightarrow> f\<lparr>missing := missing f - 1\<rparr>
      | _ \<Rightarrow> f)"

definition countable_frame :: "stackframe \<Rightarrow> bool" where
  "countable_frame f \<longleftrightarrow>
     kind f \<noteq> BS_FCLASSDEF \<and> (fixed_frame (kind f) \<longrightarrow> missing f \<noteq> 0) \<and>
     (kind f = BS_FMAP \<or> kind f = BS_FZMAP \<longrightarrow> (\<exists>e. content f = C_map e))"

lemma commit_counts:
  assumes "countable_frame (topframe c)"
  shows "COMMIT_AND_RETURN c =
     Some (BSS_EOK, c\<lparr>stack := (stack c)[stacksize c := counted (topframe c)],
                      acknowledged := written c, acknowledged_stacksize := stacksize c\<rparr>)"
proof -
  let ?f = "topframe c"
  have m: "fixed_frame (kind ?f) \<Longrightarrow> missing ?f \<noteq> 0"
    and e: "kind ?f = BS_FMAP \<or> kind ?f = BS_FZMAP \<Longrightarrow> flip_even ?f = Some (flipped ?f)"
    using assms by (auto simp: countable_frame_def flip_even_def flipped_def split: stackframecontent.splits)
  have mf: "missing (flipped ?f) = missing ?f" by (simp add: flipped_def split: stackframecontent.splits)
  note simps = COMMIT_AND_RETURN_def commitTransaction_def counted_def commit_fixed_def set_topframe_def Let_def mf
  show ?thesis
    using m e assms
    by (cases "kind ?f") (simp_all add: simps fixed_frame_def countable_frame_def)
qed

text \<open>
  A transaction for \<open>X\<close> that is idle or was interrupted: a prefix of \<open>X\<close> is on the stream
  and the stack is as it was when the transaction first started.
\<close>

definition resumable :: "('w \<Rightarrow> bytes option) \<Rightarrow> bytes \<Rightarrow> bytes \<Rightarrow> 'w bss_ctx_t \<Rightarrow> bool" where
  "resumable out base X c \<longleftrightarrow>
     \<not> broken c \<and> stacksize c = acknowledged_stacksize c \<and> 0 \<le> pending c \<and> pending c \<le> int (length X) \<and>
     out (writerctx c) = Some (base @ take (nat (pending c)) X)"

definition idle :: "('w \<Rightarrow> bytes option) \<Rightarrow> bytes \<Rightarrow> 'w bss_ctx_t \<Rightarrow> bool" where
  "idle out base c \<longleftrightarrow>
     \<not> broken c \<and> stacksize c = acknowledged_stacksize c \<and> pending c = 0 \<and> out (writerctx c) = Some base"

lemma idle_resumable: "idle out base c \<Longrightarrow> resumable out base X c"
  by (simp add: idle_def resumable_def)

lemma start_ok:
  assumes "resumable out base X c" "fixed_frame (kind (topframe c)) \<longrightarrow> missing (topframe c) \<noteq> 0"
  shows "START_TRANSACTION k c = k (c\<lparr>skipped := 0\<rparr>)"
proof -
  have a: "acknowledged_stacksize c = stacksize c" and b: "\<not> broken c"
    using assms(1) by (simp_all add: resumable_def)
  have "startTransaction c = (BSS_EOK, c\<lparr>skipped := 0\<rparr>)"
    using assms(2) b unfolding startTransaction_def Let_def a by auto
  then show ?thesis by (simp add: START_TRANSACTION_def)
qed

text \<open>
  What a transaction may answer: \<open>F\<close> holds of the context after success, \<open>R\<close> of the
  context after an overflow.
\<close>

definition txn_result ::
  "(bytes \<Rightarrow> 'w \<Rightarrow> int \<times> 'w) \<Rightarrow> 'w bss_ctx_t \<Rightarrow> ('w bss_ctx_t \<Rightarrow> bool) \<Rightarrow> ('w bss_ctx_t \<Rightarrow> bool) \<Rightarrow>
   (int \<times> 'w bss_ctx_t) option \<Rightarrow> bool" where
  "txn_result wr c F R res \<longleftrightarrow>
     (\<exists>r c'. res = Some (r, c') \<and> (r = BSS_EOK \<and> F c' \<or> r = BSS_EAGAIN \<and> R c' \<or> r < 0) \<and>
        (accepting wr \<longrightarrow> r = BSS_EOK) \<and>
        (progressing wr \<longrightarrow> r = BSS_EOK \<or> r = BSS_EAGAIN \<and> pending c < pending c'))"

lemma txn_result_mono:
  "txn_result wr c F R res \<Longrightarrow> (\<And>c'. F c' \<Longrightarrow> F' c') \<Longrightarrow> (\<And>c'. R c' \<Longrightarrow> R' c') \<Longrightarrow>
   txn_result wr c F' R' res"
  unfolding txn_result_def by blast

text \<open>
  The body of a public operation: it may first replace the stack (opening a container), then
  emits \<open>X\<close>, then fills in the new frame, and commits.
\<close>

lemma transaction:
  assumes w: "writer c = wr" and m: "emits wr out W X" and rs: "resumable out base X c"
    and fr: "fixed_frame (kind (topframe c)) \<longrightarrow> missing (topframe c) \<noteq> 0"
    and body: "\<And>c0. stack c0 = stack c \<Longrightarrow> stacksize c0 = stacksize c \<Longrightarrow>
        body c0 = W (c0\<lparr>stacksize := n1, stack := st1\<rparr>)"
    and fill: "\<And>c1. stack c1 = st1 \<Longrightarrow> stacksize c1 = n1 \<Longrightarrow> g c1 = c1\<lparr>stacksize := n2, stack := st2\<rparr>"
    and F: "countable_frame (st2 ! n2)"
  shows "txn_result wr c
     (\<lambda>c'. idle out (base @ X) c' \<and> stack c' = st2[n2 := counted (st2 ! n2)] \<and> stacksize c' = n2 \<and>
           writer c' = wr \<and> classcoll c' = classcoll c)
     (\<lambda>c'. out (writerctx c') = Some (base @ take (nat (pending c')) X) \<and> pending c \<le> pending c' \<and>
           pending c' < int (length X) \<and> \<not> broken c' \<and> stack c' = st1 \<and> stacksize c' = n1 \<and>
           acknowledged_stacksize c' = acknowledged_stacksize c \<and> writer c' = wr \<and> classcoll c' = classcoll c)
     (START_TRANSACTION (TRYC body (\<lambda>c. COMMIT_AND_RETURN (g c))) c)"
proof -
  let ?c0 = "c\<lparr>skipped := 0\<rparr>" and ?c1 = "c\<lparr>skipped := 0, stacksize := n1, stack := st1\<rparr>"
  obtain r c2 where c2: "W ?c1 = (r, c2)" by fastforce
  have eq: "START_TRANSACTION (TRYC body (\<lambda>c. COMMIT_AND_RETURN (g c))) c =
      (if r = BSS_EOK then COMMIT_AND_RETURN (g c2) else Some (try_fail r c2))"
    using start_ok [OF rs fr] body [of ?c0] c2 by (simp add: TRYC_def)
  have p1: "pending ?c1 = pending c" by (simp add: pending_def)
  have "step_ok wr out base ([] @ X @ []) (length ([] @ X)) ?c1 (W ?c1)"
    using rs w by (intro emitsD [OF m]) (simp_all add: txn_def p1 resumable_def)
  then have st: "step_ok wr out base X (length X) ?c1 (r, c2)" using c2 by simp
  then have io: "io_only ?c1 c2" and tx: "txn out base X c2" and pd: "pending c \<le> pending c2"
    by (simp_all add: step_ok_def p1)
  note f = io_only_fields [OF io, simplified]
  show ?thesis
  proof (cases "r = BSS_EOK")
    case True
    have c3: "g c2 = c2\<lparr>stacksize := n2, stack := st2\<rparr>" using fill f by simp
    have "topframe (c2\<lparr>stacksize := n2, stack := st2\<rparr>) = st2 ! n2" by (simp add: topframe_def)
    with F have cm: "COMMIT_AND_RETURN (g c2) =
        Some (BSS_EOK, c2\<lparr>stacksize := n2, stack := st2[n2 := counted (st2 ! n2)],
                          acknowledged := written c2, acknowledged_stacksize := n2\<rparr>)"
      using f by (simp add: c3 commit_counts)
    have "out (writerctx c2) = Some (base @ X)" "broken c2 = broken c"
      using st tx True by (auto simp: step_ok_def txn_def)
    with True cm rs w f show ?thesis
      unfolding txn_result_def eq by (simp add: idle_def resumable_def pending_def)
  next
    case False
    with st tx pd f w rs show ?thesis
      unfolding txn_result_def eq
      by (auto simp: step_ok_def try_fail_def txn_def resumable_def p1)
  qed
qed

lemma simple_transaction:
  assumes w: "writer c = wr" and m: "emits wr out W X" and rs: "resumable out base X c"
    and F: "countable_frame (topframe c)"
  shows "txn_result wr c
     (\<lambda>c'. idle out (base @ X) c' \<and> stack c' = (stack c)[stacksize c := counted (topframe c)] \<and>
           stacksize c' = stacksize c \<and> writer c' = wr \<and> classcoll c' = classcoll c)
     (\<lambda>c'. resumable out base X c' \<and> stack c' = stack c \<and> stacksize c' = stacksize c \<and>
           writer c' = wr \<and> classcoll c' = classcoll c)
     (START_TRANSACTION (TRYC W COMMIT_AND_RETURN) c)"
proof -
  have b: "W c0 = W (c0\<lparr>stacksize := stacksize c, stack := stack c\<rparr>)"
    if "stack c0 = stack c" "stacksize c0 = stacksize c" for c0
    unfolding that [symmetric] by simp
  have g: "c1 = c1\<lparr>stacksize := stacksize c, stack := stack c\<rparr>" if "stack c1 = stack c" "stacksize c1 = stacksize c"
    for c1 :: "'a bss_ctx_t"
    unfolding that [symmetric] by simp
  have fr: "fixed_frame (kind (topframe c)) \<longrightarrow> missing (topframe c) \<noteq> 0"
    and F': "countable_frame (stack c ! stacksize c)"
    using F by (simp_all add: countable_frame_def topframe_def)
  have "txn_result wr c
     (\<lambda>c'. idle out (base @ X) c' \<and> stack c' = (stack c)[stacksize c := counted (stack c ! stacksize c)] \<and>
           stacksize c' = stacksize c \<and> writer c' = wr \<and> classcoll c' = classcoll c)
     (\<lambda>c'. out (writerctx c') = Some (base @ take (nat (pending c')) X) \<and> pending c \<le> pending c' \<and>
           pending c' < int (length X) \<and> \<not> broken c' \<and> stack c' = stack c \<and> stacksize c' = stacksize c \<and>
           acknowledged_stacksize c' = acknowledged_stacksize c \<and> writer c' = wr \<and> classcoll c' = classcoll c)
     (START_TRANSACTION (TRYC W (\<lambda>c. COMMIT_AND_RETURN c)) c)"
    by (rule transaction [where g = "\<lambda>c. c", OF w m rs fr b g F'])
  then show ?thesis
    by (rule txn_result_mono) (use rs in \<open>simp_all add: resumable_def topframe_def\<close>)
qed

section \<open>Opening and closing containers\<close>

text \<open>The header of a list or map: opcode, length when it is long, and context when there is one.\<close>

definition coll_header :: "int \<Rightarrow> nat \<Rightarrow> bs_coll_encoding_t \<Rightarrow> bytes" where
  "coll_header len c enc =
     (let hastype = c \<noteq> BS_CTXID_GLOBAL;
          tail = (if len \<noteq> 0 \<and> hastype then [u8 (int c)] else []) in
      if len < 0 then u8 (if hastype then variable_typed_opcode enc else variable_untyped_opcode enc) # tail
      else if len = 0 then u8 (empty_opcode enc) # tail
      else if len \<le> coll_small_limit enc then
        u8 (len + (if hastype then small_typed_opcode enc else small_untyped_opcode enc) - 1) # tail
      else u8 (if hastype then long_typed_opcode enc else long_untyped_opcode enc) #
             enc_uint (to_uint32 (len - (coll_small_limit enc + 1))) @ tail)"

definition coll_kind :: "int \<Rightarrow> bs_coll_encoding_t \<Rightarrow> bs_stackframekind_t" where
  "coll_kind len enc = (if len < 0 then variable_kind enc else fixed_kind enc)"

lemma open_then:
  assumes "stacksize c \<noteq> STACK_SIZE - 1" "0 \<le> p"
  shows "TRY (openContainer k ty p) m c = TRY (writeByte p) m (push_frame k ty c)"
  using assms by (simp add: TRY_def openContainer_def Let_def)

definition good_enc :: "bs_coll_encoding_t \<Rightarrow> bool" where
  "good_enc enc \<longleftrightarrow>
     0 \<le> empty_opcode enc \<and> 0 \<le> variable_typed_opcode enc \<and> 0 \<le> variable_untyped_opcode enc \<and>
     0 \<le> small_typed_opcode enc \<and> 0 \<le> small_untyped_opcode enc \<and> 0 \<le> long_typed_opcode enc \<and>
     0 \<le> long_untyped_opcode enc \<and> 0 \<le> coll_small_limit enc"

lemma good_enc_all: "good_enc BS_GLOBAL_LIST" "good_enc BS_GLOBAL_MAP" "good_enc BS_LISTMAP_LIST"
  "good_enc BS_LISTMAP_MAP"
  by (simp_all add: good_enc_def coll_enc_defs)

context stream_writer
begin

lemma open_collection:
  assumes ty: "ty < BS_CTXID_LAST" and g: "good_enc enc"
  shows "\<exists>W. emits wr out W (coll_header len ty enc) \<and>
     (\<forall>c. stacksize c \<noteq> STACK_SIZE - 1 \<longrightarrow>
        openCollection len ty enc c = W (push_frame (coll_kind len enc) ty c))"
proof -
  let ?typed = "ty \<noteq> BS_CTXID_GLOBAL"
  define tail :: "'w ser" where "tail = (if len \<noteq> 0 \<and> ?typed then TRY (writeByte (int ty)) done_ok else done_ok)"
  define T where "T = (if len \<noteq> 0 \<and> ?typed then [u8 (int ty)] else [])"
  have tail: "emits wr out tail T"
    unfolding tail_def T_def by (intro emits_if emits_then_done emits_writeByte emits_done)
  have via: ?thesis if "coll_header len ty enc = u8 p # Y" "0 \<le> p" "emits wr out m Y"
    "\<And>c. openCollection len ty enc c = TRY (openContainer (coll_kind len enc) ty p) m c" for p m Y
    using that emits_Cons [OF emits_writeByte that(3), of p]
    by (intro exI [of _ "TRY (writeByte p) m"]) (simp add: open_then)
  note d = coll_header_def openCollection_def coll_kind_def Let_def tail_def T_def good_enc_def
  consider "len < 0" | "len = 0" | "0 < len" "len \<le> coll_small_limit enc" | "0 < len" "\<not> len \<le> coll_small_limit enc"
    by linarith
  then show ?thesis
  proof cases
    case 1
    let ?p = "if ?typed then variable_typed_opcode enc else variable_untyped_opcode enc"
    from 1 ty g show ?thesis by (intro via [OF _ _ tail, of ?p]) (auto simp: d)
  next
    case 2
    with ty g show ?thesis by (intro via [OF _ _ tail, of "empty_opcode enc"]) (auto simp: d)
  next
    case 3
    let ?p = "len + (if ?typed then small_typed_opcode enc else small_untyped_opcode enc) - 1"
    from 3 ty g show ?thesis by (intro via [OF _ _ tail, of ?p]) (auto simp: d)
  next
    case 4
    let ?p = "if ?typed then long_typed_opcode enc else long_untyped_opcode enc"
    from 4 ty g show ?thesis
      by (intro via [OF _ _ emits_TRY [OF emits_writeUnsignedInteger tail], of ?p]) (auto simp: d)
  qed
qed

end

text \<open>The frame a new container starts with, in a slot that held \<open>f\<close> before.\<close>

definition list_frame :: "int \<Rightarrow> nat \<Rightarrow> bs_coll_encoding_t \<Rightarrow> stackframe \<Rightarrow> stackframe" where
  "list_frame len ty enc f =
     (let f = f\<lparr>kind := coll_kind len enc, ctxid := ty\<rparr> in if 0 \<le> len then f\<lparr>missing := len\<rparr> else f)"

definition map_frame :: "int \<Rightarrow> nat \<Rightarrow> bs_coll_encoding_t \<Rightarrow> stackframe \<Rightarrow> stackframe" where
  "map_frame len ty enc f =
     (let f = f\<lparr>kind := coll_kind len enc, ctxid := ty, content := C_map 1\<rparr>
      in if 0 \<le> len then f\<lparr>missing := len * 2\<rparr> else f)"

text \<open>The outcome of an operation that replaces the stack by \<open>st\<close> with top \<open>n\<close> and emits \<open>X\<close>.\<close>

definition moves_to ::
  "(bytes \<Rightarrow> 'w \<Rightarrow> int \<times> 'w) \<Rightarrow> ('w \<Rightarrow> bytes option) \<Rightarrow> bytes \<Rightarrow> bytes \<Rightarrow> nat \<Rightarrow> stackframe list \<Rightarrow>
   'w bss_ctx_t \<Rightarrow> (int \<times> 'w bss_ctx_t) option \<Rightarrow> bool" where
  "moves_to wr out base X n st c =
     txn_result wr c
       (\<lambda>c'. idle out (base @ X) c' \<and> stack c' = st \<and> stacksize c' = n \<and> writer c' = wr \<and>
             classcoll c' = classcoll c)
       (\<lambda>c'. \<exists>k < length X. out (writerctx c') = Some (base @ take k X))"

lemma moves_toI:
  assumes "writer c = wr" "emits wr out W X" "idle out base c"
    and "fixed_frame (kind (topframe c)) \<longrightarrow> missing (topframe c) \<noteq> 0"
    and "\<And>c0. stack c0 = stack c \<Longrightarrow> stacksize c0 = stacksize c \<Longrightarrow>
        body c0 = W (c0\<lparr>stacksize := n1, stack := st1\<rparr>)"
    and "\<And>c1. stack c1 = st1 \<Longrightarrow> stacksize c1 = n1 \<Longrightarrow> g c1 = c1\<lparr>stacksize := n2, stack := st2\<rparr>"
    and "countable_frame (st2 ! n2)" "st = st2[n2 := counted (st2 ! n2)]"
  shows "moves_to wr out base X n2 st c (START_TRANSACTION (TRYC body (\<lambda>c. COMMIT_AND_RETURN (g c))) c)"
proof -
  have "out (writerctx c') = Some (base @ take (nat (pending c')) X) \<Longrightarrow> pending c \<le> pending c' \<Longrightarrow>
      pending c' < int (length X) \<Longrightarrow> \<exists>k < length X. out (writerctx c') = Some (base @ take k X)" for c'
    using assms(3) by (intro exI [of _ "nat (pending c')"]) (auto simp: idle_def)
  then show ?thesis
    unfolding moves_to_def assms(8)
    using transaction [OF assms(1,2) idle_resumable [OF assms(3)] assms(4-7)]
    by (rule txn_result_mono [rotated 2]) auto
qed

lemma push_frame_stack:
  assumes "Suc (stacksize c) < length (stack c)"
  shows "push_frame k ty c = c\<lparr>stacksize := Suc (stacksize c),
     stack := (stack c)[Suc (stacksize c) := (stack c ! Suc (stacksize c))\<lparr>kind := k, ctxid := ty\<rparr>]\<rparr>"
  by (simp add: push_frame_def set_topframe_def topframe_def)

lemma coll_kind_cases:
  assumes "enc = BS_GLOBAL_LIST \<or> enc = BS_LISTMAP_LIST"
  shows "coll_kind len enc = (if len < 0 then BS_FZLIST else BS_FLIST)"
  using assms by (auto simp: coll_kind_def coll_enc_defs)

lemma coll_kind_map_cases:
  assumes "enc = BS_GLOBAL_MAP \<or> enc = BS_LISTMAP_MAP"
  shows "coll_kind len enc = (if len < 0 then BS_FZMAP else BS_FMAP)"
  using assms by (auto simp: coll_kind_def coll_enc_defs)

definition list_enc_for :: "nat \<Rightarrow> bs_coll_encoding_t option" where
  "list_enc_for c = (if c = BS_CTXID_GLOBAL then Some BS_GLOBAL_LIST
     else if c = BS_CTXID_LIST_OR_MAP then Some BS_LISTMAP_LIST else None)"

definition map_enc_for :: "nat \<Rightarrow> bs_coll_encoding_t option" where
  "map_enc_for c = (if c = BS_CTXID_GLOBAL then Some BS_GLOBAL_MAP
     else if c = BS_CTXID_LIST_OR_MAP then Some BS_LISTMAP_MAP else None)"

lemma TRYC_TRY: "TRYC A (TRYC B K) = TRYC (TRY A B) K"
  by (rule ext) (auto simp: TRYC_def TRY_def try_fail_def split: prod.splits)

text \<open>
  Closing: unsized containers end with the null token of their context, chunked strings with
  an empty chunk, sized ones with nothing; the container then counts in its parent.
\<close>

definition closing_token :: "stackframe \<Rightarrow> bytes option" where
  "closing_token f =
     (case kind f of
        BS_FZMAP \<Rightarrow> if content f = C_map 0 then None else Some [0]
      | BS_FZLIST \<Rightarrow> Some (getNullToken (ctxid f))
      | BS_FCHUNKED \<Rightarrow> Some [0, 0]
      | BS_FOBJECT \<Rightarrow> if missing f = 0 then Some [] else None
      | BS_FLIST \<Rightarrow> if missing f = 0 then Some [] else None
      | BS_FMAP \<Rightarrow> if missing f = 0 then Some [] else None
      | _ \<Rightarrow> None)"

context stream_writer
begin

lemma bss_list_opens:
  assumes w: "writer c = wr" and i: "idle out base c" and F: "countable_frame (topframe c)"
    and k: "getctxid (topframe c) = Some t" "list_enc_for t = Some enc"
    and ty: "ty < BS_CTXID_LAST" and n: "stacksize c < 15" "length (stack c) = 16"
  shows "moves_to wr out base (coll_header len ty enc) (Suc (stacksize c))
     ((stack c)[Suc (stacksize c) := list_frame len ty enc (stack c ! Suc (stacksize c))]) c
     (bss_list len ty c)"
proof -
  let ?n = "Suc (stacksize c)"
  let ?f1 = "(stack c ! ?n)\<lparr>kind := coll_kind len enc, ctxid := ty\<rparr>"
  let ?f2 = "if 0 \<le> len then ?f1\<lparr>missing := len + 1\<rparr> else ?f1"
  let ?g = "\<lambda>c. set_topframe (if 0 \<le> len then (topframe c)\<lparr>missing := len + 1\<rparr> else topframe c) c"
  have enc: "good_enc enc" "enc = BS_GLOBAL_LIST \<or> enc = BS_LISTMAP_LIST"
    using k(2) good_enc_all by (auto simp: list_enc_for_def split: if_splits)
  from open_collection [OF ty enc(1)] obtain W where W: "emits wr out W (coll_header len ty enc)"
    "\<And>c. stacksize c \<noteq> STACK_SIZE - 1 \<Longrightarrow>
        openCollection len ty enc c = W (push_frame (coll_kind len enc) ty c)" by blast
  have eq: "bss_list len ty c =
      START_TRANSACTION (TRYC (openCollection len ty enc) (\<lambda>c. COMMIT_AND_RETURN (?g c))) c"
    using k ty by (auto simp: bss_list_def with_ctxid_def Let_def list_enc_for_def split: if_splits)
  show ?thesis
    unfolding eq
  proof (rule moves_toI [OF w W(1) i])
    show "fixed_frame (kind (topframe c)) \<longrightarrow> missing (topframe c) \<noteq> 0"
      using F by (simp add: countable_frame_def)
    show "openCollection len ty enc c0 = W (c0\<lparr>stacksize := ?n, stack := (stack c)[?n := ?f1]\<rparr>)"
      if "stack c0 = stack c" "stacksize c0 = stacksize c" for c0
      using that n W(2) [of c0] by (simp add: push_frame_stack STACK_SIZE_def)
    show "?g c1 = c1\<lparr>stacksize := ?n, stack := (stack c)[?n := ?f2]\<rparr>"
      if "stack c1 = (stack c)[?n := ?f1]" "stacksize c1 = ?n" for c1 :: "'w bss_ctx_t"
    proof -
      have "c1\<lparr>stacksize := ?n\<rparr> = c1" by (simp add: that(2) [symmetric])
      with that n show ?thesis by (auto simp: set_topframe_def topframe_def)
    qed
    show "countable_frame ((stack c)[?n := ?f2] ! ?n)"
      using n by (auto simp: countable_frame_def coll_kind_cases [OF enc(2)] fixed_frame_def)
    show "(stack c)[?n := list_frame len ty enc (stack c ! ?n)] =
        ((stack c)[?n := ?f2])[?n := counted ((stack c)[?n := ?f2] ! ?n)]"
      using n by (auto simp: list_frame_def counted_def coll_kind_cases [OF enc(2)] Let_def)
  qed
qed

lemma bss_map_opens:
  assumes w: "writer c = wr" and i: "idle out base c" and F: "countable_frame (topframe c)"
    and k: "getctxid (topframe c) = Some t" "map_enc_for t = Some enc"
    and ty: "ty < BS_CTXID_LAST" and n: "stacksize c < 15" "length (stack c) = 16"
  shows "moves_to wr out base (coll_header len ty enc) (Suc (stacksize c))
     ((stack c)[Suc (stacksize c) := map_frame len ty enc (stack c ! Suc (stacksize c))]) c
     (bss_map len ty c)"
proof -
  let ?n = "Suc (stacksize c)"
  let ?f1 = "(stack c ! ?n)\<lparr>kind := coll_kind len enc, ctxid := ty\<rparr>"
  let ?f2 = "(if 0 \<le> len then ?f1\<lparr>missing := len * 2 + 1\<rparr> else ?f1)\<lparr>content := C_map 0\<rparr>"
  let ?g = "\<lambda>c. set_topframe ((if 0 \<le> len then (topframe c)\<lparr>missing := len * 2 + 1\<rparr> else topframe c)
                \<lparr>content := C_map 0\<rparr>) c"
  have enc: "good_enc enc" "enc = BS_GLOBAL_MAP \<or> enc = BS_LISTMAP_MAP"
    using k(2) good_enc_all by (auto simp: map_enc_for_def split: if_splits)
  from open_collection [OF ty enc(1)] obtain W where W: "emits wr out W (coll_header len ty enc)"
    "\<And>c. stacksize c \<noteq> STACK_SIZE - 1 \<Longrightarrow>
        openCollection len ty enc c = W (push_frame (coll_kind len enc) ty c)" by blast
  have eq: "bss_map len ty c =
      START_TRANSACTION (TRYC (openCollection len ty enc) (\<lambda>c. COMMIT_AND_RETURN (?g c))) c"
    using k ty by (auto simp: bss_map_def with_ctxid_def Let_def map_enc_for_def split: if_splits)
  show ?thesis
    unfolding eq
  proof (rule moves_toI [OF w W(1) i])
    show "fixed_frame (kind (topframe c)) \<longrightarrow> missing (topframe c) \<noteq> 0"
      using F by (simp add: countable_frame_def)
    show "openCollection len ty enc c0 = W (c0\<lparr>stacksize := ?n, stack := (stack c)[?n := ?f1]\<rparr>)"
      if "stack c0 = stack c" "stacksize c0 = stacksize c" for c0
      using that n W(2) [of c0] by (simp add: push_frame_stack STACK_SIZE_def)
    show "?g c1 = c1\<lparr>stacksize := ?n, stack := (stack c)[?n := ?f2]\<rparr>"
      if "stack c1 = (stack c)[?n := ?f1]" "stacksize c1 = ?n" for c1 :: "'w bss_ctx_t"
    proof -
      have "c1\<lparr>stacksize := ?n\<rparr> = c1" by (simp add: that(2) [symmetric])
      with that n show ?thesis by (auto simp: set_topframe_def topframe_def)
    qed
    show "countable_frame ((stack c)[?n := ?f2] ! ?n)"
      using n by (auto simp: countable_frame_def coll_kind_map_cases [OF enc(2)] fixed_frame_def)
    show "(stack c)[?n := map_frame len ty enc (stack c ! ?n)] =
        ((stack c)[?n := ?f2])[?n := counted ((stack c)[?n := ?f2] ! ?n)]"
      using n by (auto simp: map_frame_def counted_def flipped_def coll_kind_map_cases [OF enc(2)] Let_def)
  qed
qed

text \<open>Objects: the opcode carries a small class id, a large one follows it.\<close>

lemma bss_object_opens:
  assumes w: "writer c = wr" and i: "idle out base c" and F: "countable_frame (topframe c)"
    and k: "getctxid (topframe c) = Some BS_CTXID_GLOBAL"
    and cls: "bs_classcoll_get (classcoll c) cid = Some (Some cls)" "0 \<le> nfields cls"
    and n: "stacksize c < 15" "length (stack c) = 16"
  shows "moves_to wr out base
     (if cid < 0x10 then [u8 (0x60 + int cid)] else 0x70 # enc_uint (to_uint32 (int cid - 0x10)))
     (Suc (stacksize c))
     ((stack c)[Suc (stacksize c) := \<lparr>kind = BS_FOBJECT, ctxid = BS_CTXID_OBJECT, missing = nfields cls,
        content = C_object cls\<rparr>]) c
     (bss_object cid c)"
proof -
  let ?n = "Suc (stacksize c)" and ?direct = "cid < 0x10"
  let ?p = "if ?direct then 0x60 + int cid else 0x70"
  let ?f1 = "(stack c ! ?n)\<lparr>kind := BS_FOBJECT, ctxid := BS_CTXID_OBJECT\<rparr>"
  let ?f2 = "?f1\<lparr>missing := nfields cls + 1, content := C_object cls\<rparr>"
  let ?m = "if ?direct then done_ok else writeUnsignedInteger (to_uint32 (int cid - 0x10)) :: 'w ser"
  let ?g = "\<lambda>c. set_topframe ((topframe c)\<lparr>missing := nfields cls + 1, content := C_object cls\<rparr>) c"
  have W: "emits wr out (TRY (writeByte ?p) ?m)
     (u8 ?p # (if ?direct then [] else enc_uint (to_uint32 (int cid - 0x10))))"
    by (intro emits_Cons emits_writeByte emits_if emits_done emits_writeUnsignedInteger)
  then have W: "emits wr out (TRY (writeByte ?p) ?m)
     (if ?direct then [u8 (0x60 + int cid)] else 0x70 # enc_uint (to_uint32 (int cid - 0x10)))"
    by (cases "?direct") simp_all
  have eq: "bss_object cid c = START_TRANSACTION
      (TRYC (TRY (openContainer BS_FOBJECT BS_CTXID_OBJECT ?p) ?m) (\<lambda>c. COMMIT_AND_RETURN (?g c))) c"
    using k cls by (simp add: bss_object_def with_ctxid_def Let_def TRYC_TRY)
  show ?thesis
    unfolding eq
  proof (rule moves_toI [OF w W i])
    show "fixed_frame (kind (topframe c)) \<longrightarrow> missing (topframe c) \<noteq> 0"
      using F by (simp add: countable_frame_def)
    show "TRY (openContainer BS_FOBJECT BS_CTXID_OBJECT ?p) ?m c0 =
        TRY (writeByte ?p) ?m (c0\<lparr>stacksize := ?n, stack := (stack c)[?n := ?f1]\<rparr>)"
      if "stack c0 = stack c" "stacksize c0 = stacksize c" for c0
    proof -
      have "stacksize c0 \<noteq> STACK_SIZE - 1" "0 \<le> ?p" using that n by (simp_all add: STACK_SIZE_def)
      from open_then [OF this] that n show ?thesis by (simp add: push_frame_stack)
    qed
    show "?g c1 = c1\<lparr>stacksize := ?n, stack := (stack c)[?n := ?f2]\<rparr>"
      if "stack c1 = (stack c)[?n := ?f1]" "stacksize c1 = ?n" for c1 :: "'w bss_ctx_t"
    proof -
      have "c1\<lparr>stacksize := ?n\<rparr> = c1" by (simp add: that(2) [symmetric])
      with that n show ?thesis by (auto simp: set_topframe_def topframe_def)
    qed
    show "countable_frame ((stack c)[?n := ?f2] ! ?n)"
      using n cls by (auto simp: countable_frame_def fixed_frame_def)
    show "(stack c)[?n := \<lparr>kind = BS_FOBJECT, ctxid = BS_CTXID_OBJECT, missing = nfields cls,
          content = C_object cls\<rparr>] =
        ((stack c)[?n := ?f2])[?n := counted ((stack c)[?n := ?f2] ! ?n)]"
      using n by (cases "stack c ! ?n") (simp add: counted_def)
  qed
qed

lemma bss_close_closes:
  assumes w: "writer c = wr" and i: "idle out base c" and n: "stacksize c = Suc n"
    and X: "closing_token (topframe c) = Some X"
    and e: "kind (topframe c) = BS_FZMAP \<longrightarrow> (\<exists>e. content (topframe c) = C_map e)"
    and F: "countable_frame (stack c ! n)"
  shows "moves_to wr out base X n ((stack c)[n := counted (stack c ! n)]) c (bss_close c)"
proof -
  let ?f = "topframe c"
  have pop: "pop_and_commit = (\<lambda>c. COMMIT_AND_RETURN (c\<lparr>stacksize := stacksize c - 1\<rparr>))"
    by (rule ext) (simp add: pop_and_commit_def)
  have via: "moves_to wr out base X n ((stack c)[n := counted (stack c ! n)]) c
       (START_TRANSACTION (TRYC W pop_and_commit) c)"
    if "emits wr out W X" "\<not> fixed_frame (kind ?f)" for W :: "'w ser"
    unfolding pop
  proof (rule moves_toI [OF w that(1) i, where ?n1.0 = "Suc n" and ?st1.0 = "stack c" and ?st2.0 = "stack c"])
    show "W c0 = W (c0\<lparr>stacksize := Suc n, stack := stack c\<rparr>)"
      if "stack c0 = stack c" "stacksize c0 = stacksize c" for c0
      using that n by (metis bss_ctx_t.surjective bss_ctx_t.update_convs(7,10))
    show "c1\<lparr>stacksize := stacksize c1 - 1\<rparr> = c1\<lparr>stacksize := n, stack := stack c\<rparr>"
      if "stack c1 = stack c" "stacksize c1 = Suc n" for c1 :: "'w bss_ctx_t"
      unfolding that(1) [symmetric] that(2) by simp
  qed (use that(2) F in auto)
  have fixed: "moves_to wr out base [] n ((stack c)[n := counted (stack c ! n)]) c (pop_and_commit c)"
  proof -
    have "topframe (c\<lparr>stacksize := n\<rparr>) = stack c ! n" by (simp add: topframe_def)
    with F n have "pop_and_commit c = Some (BSS_EOK, c\<lparr>stacksize := n,
        stack := (stack c)[n := counted (stack c ! n)], acknowledged := written c, acknowledged_stacksize := n\<rparr>)"
      by (simp add: pop_and_commit_def commit_counts)
    with i w show ?thesis by (simp add: moves_to_def txn_result_def idle_def pending_def)
  qed
  have z: "emits wr out (writeBytes [0, 0]) [0, 0]" using emits_writeBytes [of "[0, 0]"] by simp
  show ?thesis
  proof (cases "kind ?f")
    case BS_FZMAP
    with X e obtain v where v: "content ?f = C_map v" "v \<noteq> 0" "X = [0]"
      by (auto simp: closing_token_def split: if_splits)
    then have g: "X = getNullToken BS_CTXID_UNSIGNED_OR_STRING" by (simp add: getNullToken_def ctxid_defs)
    have "bss_close c = START_TRANSACTION
        (TRYC (writeData (getNullToken BS_CTXID_UNSIGNED_OR_STRING)) pop_and_commit) c"
      using BS_FZMAP v by (simp add: bss_close_def)
    with via [OF emits_writeData [of X]] BS_FZMAP g show ?thesis by (simp add: fixed_frame_def)
  next
    case BS_FZLIST
    with X have "X = getNullToken (ctxid ?f)" by (simp add: closing_token_def)
    with via [OF emits_writeData [of X]] BS_FZLIST show ?thesis
      by (simp add: bss_close_def fixed_frame_def)
  next
    case BS_FCHUNKED
    with X have "X = [0, 0]" by (simp add: closing_token_def)
    with via z BS_FCHUNKED show ?thesis by (simp add: bss_close_def fixed_frame_def)
  qed (use X fixed in \<open>auto simp: closing_token_def bss_close_def split: if_splits\<close>)
qed

end

section \<open>Values\<close>

datatype token =
    T_int int | T_bool bool | T_double f64 | T_string bytes | T_null | T_chunk bytes | T_raw bytes

definition bss_token :: "EEndian \<Rightarrow> token \<Rightarrow> 'w ser_op" where
  "bss_token h t =
     (case t of
        T_int x \<Rightarrow> bss_int x
      | T_bool b \<Rightarrow> bss_bool b
      | T_double x \<Rightarrow> bss_double h x
      | T_string s \<Rightarrow> bss_lstring s
      | T_null \<Rightarrow> bss_null
      | T_chunk s \<Rightarrow> bss_chunk s
      | T_raw s \<Rightarrow> bss_raw s)"

text \<open>
  The reference encoding of a value in the context of the frame it is written to; \<open>None\<close>
  when the context does not admit it.
\<close>

definition enc_int_in :: "nat \<Rightarrow> int \<Rightarrow> bytes option" where
  "enc_int_in c x =
     (if c = BS_CTXID_GLOBAL then Some (enc_int x BS_GLOBAL_INTEGER)
      else if c = BS_CTXID_NUMBER then Some (enc_int x BS_NUMBER_INTEGER)
      else if c = BS_CTXID_UNSIGNED_OR_STRING then
        (if x < 0 then None else Some (enc_uint (x mod 2 ^ 32)))
      else if c = BS_CTXID_INT32 then
        (if signed_take_bit 31 x = x then Some (be_bytes 4 x @ (if x = - (2 ^ 31) then [1] else [])) else None)
      else None)"

definition enc_double_in :: "EEndian \<Rightarrow> nat \<Rightarrow> f64 \<Rightarrow> bytes option" where
  "enc_double_in h c x =
     (if c = BS_CTXID_FLOAT then
        Some (enc_f32 h (f64_to_f32 x) @ (if f64_to_f32 x = 0xFFFFFFFF then [1] else []))
      else if c = BS_CTXID_DOUBLE then Some (enc_f64 h x @ (if x = 0xFFFFFFFFFFFFFFFF then [1] else []))
      else case f64_to_i64 x of
             None \<Rightarrow> None
           | Some y \<Rightarrow>
               if f64_eq (i64_to_f64 y) x then enc_int_in c y
               else if c = BS_CTXID_GLOBAL then Some (enc_float h x GLOBAL_FLOAT_OPCODES)
               else if c = BS_CTXID_NUMBER then Some (enc_float h x NUMBER_FLOAT_OPCODES)
               else None)"

definition enc_string_in :: "nat \<Rightarrow> bytes \<Rightarrow> bytes option" where
  "enc_string_in c s =
     (if c = BS_CTXID_GLOBAL then Some (enc_string s BS_GLOBAL_STRING)
      else if c = BS_CTXID_UNSIGNED_OR_STRING then Some (enc_string s BS_UIS_STRING)
      else None)"

definition null_allowed :: "stackframe \<Rightarrow> bool" where
  "null_allowed f \<longleftrightarrow> kind f \<noteq> BS_FZLIST \<and>
     (kind f = BS_FMAP \<or> kind f = BS_FZMAP \<longrightarrow> content f = C_map 0)"

definition enc_token :: "EEndian \<Rightarrow> stackframe \<Rightarrow> token \<Rightarrow> bytes option" where
  "enc_token h f t =
     (case getctxid f of
        None \<Rightarrow> None
      | Some c \<Rightarrow>
          (case t of
             T_int x \<Rightarrow> enc_int_in c x
           | T_bool b \<Rightarrow> if c = BS_CTXID_GLOBAL then Some [if b then 1 else 2] else None
           | T_double x \<Rightarrow> enc_double_in h c x
           | T_string s \<Rightarrow> enc_string_in c s
           | T_null \<Rightarrow> if null_allowed f then Some (getNullToken c) else None
           | T_chunk s \<Rightarrow> if ctxid f = BS_CTXID_CHUNKED \<and> s \<noteq> [] then Some (enc_chunks s) else None
           | T_raw s \<Rightarrow> Some s))"

text \<open>The calls whose behaviour C defines in the context of the frame.\<close>

definition token_defined :: "stackframe \<Rightarrow> token \<Rightarrow> bool" where
  "token_defined f t \<longleftrightarrow>
     (case getctxid f of
        None \<Rightarrow> False
      | Some c \<Rightarrow>
          (case t of
             T_double x \<Rightarrow> c = BS_CTXID_FLOAT \<or> c = BS_CTXID_DOUBLE \<or> f64_to_i64 x \<noteq> None
           | _ \<Rightarrow> True))"

definition writes_as :: "(bytes \<Rightarrow> 'w \<Rightarrow> int \<times> 'w) \<Rightarrow> ('w \<Rightarrow> bytes option) \<Rightarrow> stackframe \<Rightarrow> 'w ser_op \<Rightarrow> bytes \<Rightarrow> bool" where
  "writes_as wr out f op X \<longleftrightarrow>
     (\<exists>W. emits wr out W X \<and>
          (\<forall>c. topframe c = f \<longrightarrow> op c = START_TRANSACTION (TRYC W COMMIT_AND_RETURN) c))"

lemma writes_asI:
  "emits wr out W Y \<Longrightarrow> X = Y \<Longrightarrow> (\<And>c. topframe c = f \<Longrightarrow> op c = START_TRANSACTION (TRYC W COMMIT_AND_RETURN) c) \<Longrightarrow>
   writes_as wr out f op X"
  unfolding writes_as_def by auto

lemma int32_min_test: "signed_take_bit 31 x = x \<Longrightarrow> (to_uint32 x = 0x80000000) = (x = - (2 ^ 31))"
proof -
  assume "signed_take_bit 31 x = x"
  then have "- (2 ^ 31) \<le> x" "x < 2 ^ 31" by (simp_all add: signed_take_bit_int_eq_self_iff)
  moreover from this have "x < 0 \<Longrightarrow> x mod 2 ^ 32 = x + 2 ^ 32"
    using mod_pos_pos_trivial [of "x + 2 ^ 32" "2 ^ 32"] by simp
  ultimately show ?thesis unfolding to_uint32_def by (cases "x < 0") auto
qed

context stream_writer
begin

lemma bss_int_writes:
  assumes f: "getctxid f = Some c" and X: "enc_int_in c x = Some X"
  shows "writes_as wr out f (bss_int x) X"
proof -
  note d = bss_int_def with_ctxid_def f ctxid_defs enc_int_in_def
  consider "c = BS_CTXID_GLOBAL" | "c = BS_CTXID_NUMBER" | "c = BS_CTXID_UNSIGNED_OR_STRING"
    | "c = BS_CTXID_INT32"
    using X by (auto simp: enc_int_in_def split: if_splits)
  then show ?thesis
  proof cases
    case 1
    with X have "X = enc_int x BS_GLOBAL_INTEGER" by (simp add: d)
    with 1 show ?thesis by (intro writes_asI [OF emits_writeInteger]) (auto simp: d)
  next
    case 2
    with X have "X = enc_int x BS_NUMBER_INTEGER" by (simp add: d)
    with 2 show ?thesis by (intro writes_asI [OF emits_writeInteger]) (auto simp: d)
  next
    case 3
    with X have "X = enc_uint (to_uint32 x)" "0 \<le> x" by (auto simp: d to_uint32_def split: if_splits)
    with 3 show ?thesis by (intro writes_asI [OF emits_writeUnsignedInteger]) (auto simp: d)
  next
    case 4
    with X have x: "signed_take_bit 31 x = x" "X = be_bytes 4 x @ (if x = - (2 ^ 31) then [1] else [])"
      by (auto simp: d split: if_splits)
    have "emits wr out (if to_uint32 x = 0x80000000 then writeByte 1 else done_ok)
        (if x = - (2 ^ 31) then [1] else [])"
      using emits_writeByte [of 1] emits_done unfolding int32_min_test [OF x(1)] by auto
    from emits_TRY [OF emits_writeIntegerBigEndian this] 4 x show ?thesis
      by (intro writes_asI) (auto simp: d TRYC_TRY Let_def)
  qed
qed

lemma bss_double_writes:
  assumes f: "getctxid f = Some c" and X: "enc_double_in h c x = Some X"
  shows "writes_as wr out f (bss_double h x) X"
proof -
  note d = bss_double_def with_ctxid_def f ctxid_defs enc_double_in_def
  consider "c = BS_CTXID_FLOAT" | "c = BS_CTXID_DOUBLE"
    | (int) y where "c \<noteq> BS_CTXID_FLOAT" "c \<noteq> BS_CTXID_DOUBLE" "f64_to_i64 x = Some y"
        "f64_eq (i64_to_f64 y) x" "enc_int_in c y = Some X"
    | (glob) y where "c = BS_CTXID_GLOBAL" "f64_to_i64 x = Some y" "\<not> f64_eq (i64_to_f64 y) x"
        "X = enc_float h x GLOBAL_FLOAT_OPCODES"
    | (num) y where "c = BS_CTXID_NUMBER" "f64_to_i64 x = Some y" "\<not> f64_eq (i64_to_f64 y) x"
        "X = enc_float h x NUMBER_FLOAT_OPCODES"
    using X by (auto simp: enc_double_in_def split: if_splits option.splits)
  then show ?thesis
  proof cases
    case 1
    have "emits wr out (if f64_to_f32 x = 0xFFFFFFFF then writeByte 1 else done_ok)
        (if f64_to_f32 x = 0xFFFFFFFF then [1] else [])"
      using emits_writeByte [of 1] emits_done by auto
    from emits_TRY [OF emits_writeFloat32 this] 1 X show ?thesis
      by (intro writes_asI) (auto simp: d TRYC_TRY)
  next
    case 2
    have "emits wr out (if x = 0xFFFFFFFFFFFFFFFF then writeByte 1 else done_ok)
        (if x = 0xFFFFFFFFFFFFFFFF then [1] else [])"
      using emits_writeByte [of 1] emits_done by auto
    from emits_TRY [OF emits_writeFloat64 this] 2 X show ?thesis
      by (intro writes_asI) (auto simp: d TRYC_TRY)
  next
    case int
    from bss_int_writes [OF f int(5)] obtain W where "emits wr out W X"
      "\<forall>c. topframe c = f \<longrightarrow> bss_int y c = START_TRANSACTION (TRYC W COMMIT_AND_RETURN) c"
      unfolding writes_as_def by blast
    with int show ?thesis by (intro writes_asI [of wr out W]) (auto simp: bss_double_def with_ctxid_def f)
  next
    case glob
    then show ?thesis by (intro writes_asI) (auto simp: d intro: emits_writeFloat)
  next
    case num
    then show ?thesis by (intro writes_asI) (auto simp: d intro: emits_writeFloat)
  qed
qed

lemma bss_token_writes:
  assumes "enc_token h f t = Some X"
  shows "writes_as wr out f (bss_token h t) X"
proof -
  obtain c where f: "getctxid f = Some c"
    using assms by (auto simp: enc_token_def split: option.splits)
  note d = bss_token_def enc_token_def f with_ctxid_def
  show ?thesis
  proof (cases t)
    case (T_int x)
    with assms bss_int_writes [OF f] show ?thesis by (simp add: d)
  next
    case (T_double x)
    with assms bss_double_writes [OF f] show ?thesis by (simp add: d)
  next
    case (T_bool b)
    with assms have "c = BS_CTXID_GLOBAL" "X = [u8 (if b then 1 else 2)]" by (auto simp: d split: if_splits)
    with T_bool show ?thesis
      by (intro writes_asI [OF emits_writeByte]) (auto simp: d bss_bool_def)
  next
    case (T_string s)
    with assms have "c = BS_CTXID_GLOBAL \<and> X = enc_string s BS_GLOBAL_STRING \<or>
        c = BS_CTXID_UNSIGNED_OR_STRING \<and> X = enc_string s BS_UIS_STRING"
      by (auto simp: d enc_string_in_def split: if_splits)
    with T_string show ?thesis
      by (elim disjE conjE; intro writes_asI) (auto simp: d bss_lstring_def ctxid_defs intro: emits_writeString)
  next
    case T_null
    with assms have "null_allowed f" "X = getNullToken c" by (auto simp: d split: if_splits)
    with T_null show ?thesis
      by (intro writes_asI [OF emits_writeData]) (auto simp: d bss_null_def null_allowed_def Let_def)
  next
    case (T_chunk s)
    with assms have "ctxid f = BS_CTXID_CHUNKED" "s \<noteq> []" "X = enc_chunks s" by (auto simp: d split: if_splits)
    with T_chunk show ?thesis
      by (intro writes_asI [OF emits_writeChunk]) (auto simp: d bss_chunk_def)
  next
    case (T_raw s)
    with assms show ?thesis by (intro writes_asI [OF emits_writeData]) (auto simp: d bss_raw_def)
  qed
qed

end

section \<open>Retrying after an overflow\<close>

text \<open>The call, repeated up to \<open>n\<close> more times while it answers \<open>BSS_EAGAIN\<close>.\<close>

fun retry :: "nat \<Rightarrow> 'w ser_op \<Rightarrow> 'w ser_op" where
  "retry 0 op c = op c"
| "retry (Suc n) op c =
     (case op c of
        None \<Rightarrow> None
      | Some (r, c') \<Rightarrow> if r = BSS_EAGAIN then retry n op c' else Some (r, c'))"

lemma attempt_cases:
  assumes "writes_as wr out (topframe c) op X" "writer c = wr"
    and "resumable out base X c" "countable_frame (topframe c)"
  obtains (ok) c' where "op c = Some (BSS_EOK, c')" "idle out (base @ X) c'"
      "stack c' = (stack c)[stacksize c := counted (topframe c)]" "stacksize c' = stacksize c"
      "writer c' = wr" "classcoll c' = classcoll c"
    | (again) c' where "op c = Some (BSS_EAGAIN, c')" "resumable out base X c'" "stack c' = stack c"
      "stacksize c' = stacksize c" "writer c' = wr" "\<not> accepting wr"
      "progressing wr \<Longrightarrow> pending c < pending c'"
    | (error) r c' where "op c = Some (r, c')" "r < 0" "\<not> accepting wr" "\<not> progressing wr"
proof -
  from assms(1) obtain V where V: "emits wr out V X" "op c = START_TRANSACTION (TRYC V COMMIT_AND_RETURN) c"
    unfolding writes_as_def by blast
  have neg: "r < 0 \<Longrightarrow> r \<noteq> BSS_EOK \<and> r \<noteq> BSS_EAGAIN" for r
    by (auto simp: bss_status_defs)
  from simple_transaction [OF assms(2) V(1) assms(3,4)] show ?thesis
    unfolding txn_result_def V(2) [symmetric]
    using neg that by (elim exE conjE disjE) (metis bss_status_neq(1))+
qed

text \<open>A writer that takes all the pieces of the value, from a state in which \<open>G\<close> holds.\<close>

lemma accepted_attempt:
  assumes W: "writes_as wr out (topframe c) op X" and w: "writer c = wr" and i: "idle out base c"
    and F: "countable_frame (topframe c)" and G: "accepting_in wr G (length X)" "G (writerctx c)"
  obtains c' where "op c = Some (BSS_EOK, c')" "idle out (base @ X) c'" "G (writerctx c')"
    "stack c' = (stack c)[stacksize c := counted (topframe c)]" "stacksize c' = stacksize c"
    "writer c' = wr" "classcoll c' = classcoll c"
proof -
  from W obtain V where V: "emits wr out V X" "op c = START_TRANSACTION (TRYC V COMMIT_AND_RETURN) c"
    unfolding writes_as_def by blast
  let ?c = "c\<lparr>skipped := 0\<rparr>"
  obtain r c2 where c2: "V ?c = (r, c2)" by fastforce
  have "step_ok wr out base ([] @ X @ []) (length ([] @ X)) ?c (V ?c)"
    using i w by (intro emitsD [OF V(1)]) (simp_all add: txn_def idle_def)
  then have "accepted wr (length X) ?c r c2" and io: "io_only ?c c2" by (simp_all add: c2 step_ok_def)
  with G have r: "r = BSS_EOK" "G (writerctx c2)" by (auto simp: accepted_def)
  have "op c = COMMIT_AND_RETURN c2"
    using start_ok [OF idle_resumable [OF i]] F c2 r(1) V(2) by (simp add: countable_frame_def TRYC_def)
  moreover have "topframe c2 = topframe c" using io by (simp add: io_only_def topframe_def)
  ultimately have op: "\<exists>c'. op c = Some (BSS_EOK, c') \<and> writerctx c' = writerctx c2"
    using commit_counts [of c2] F by simp
  from W w idle_resumable [OF i] F show ?thesis
  proof (cases rule: attempt_cases)
    case (ok c')
    with op r(2) that show ?thesis by auto
  qed (use op in \<open>auto simp: bss_status_defs\<close>)
qed

lemma retry_transaction:
  assumes "writes_as wr out (topframe c) op X" "writer c = wr"
    and "resumable out base X c" "countable_frame (topframe c)"
  shows "\<exists>r c'. retry n op c = Some (r, c') \<and>
     (r = BSS_EOK \<and> idle out (base @ X) c' \<and> stack c' = (stack c)[stacksize c := counted (topframe c)] \<or>
      r = BSS_EAGAIN \<and> resumable out base X c' \<and> stack c' = stack c \<or> r < 0) \<and>
     (accepting wr \<longrightarrow> r = BSS_EOK) \<and>
     (progressing wr \<and> int (length X) \<le> pending c + int n \<longrightarrow> r = BSS_EOK)"
  using assms
proof (induction n arbitrary: c)
  case 0
  from "0.prems" show ?case
  proof (cases rule: attempt_cases)
    case (again c')
    then have "pending c' \<le> int (length X)" by (simp add: resumable_def)
    with again show ?thesis by force
  qed auto
next
  case (Suc n)
  from Suc.prems show ?case
  proof (cases rule: attempt_cases)
    case (again c1)
    then have t: "topframe c1 = topframe c" by (simp add: topframe_def)
    from Suc.IH [of c1] Suc.prems(1,4) again t have IH: "\<exists>r c'. retry n op c1 = Some (r, c') \<and>
     (r = BSS_EOK \<and> idle out (base @ X) c' \<and> stack c' = (stack c)[stacksize c := counted (topframe c)] \<or>
      r = BSS_EAGAIN \<and> resumable out base X c' \<and> stack c' = stack c \<or> r < 0) \<and>
     (accepting wr \<longrightarrow> r = BSS_EOK) \<and>
     (progressing wr \<and> int (length X) \<le> pending c1 + int n \<longrightarrow> r = BSS_EOK)" by simp
    have p: "progressing wr \<and> int (length X) \<le> pending c + int (Suc n) \<longrightarrow>
        progressing wr \<and> int (length X) \<le> pending c1 + int n"
      using again(7) by (intro impI conjI) auto
    have "retry (Suc n) op c = retry n op c1" using again(1) by simp
    with IH p show ?thesis by (metis (no_types, lifting))
  qed (auto simp: bss_status_defs)
qed


text \<open>
  C34: an operation on a value that the context of the current frame does not admit (a
  negative integer as a map key, a boolean in a typed list, a null in an unsized list, an
  integer that does not fit 32 bits, a chunk outside a chunked string, ...) answers an error
  and leaves the context as it was: nothing is written and the stream is not broken.
\<close>

theorem bss_token_refused:
  assumes "token_defined (topframe c) t" "enc_token h (topframe c) t = None"
  shows "\<exists>r < 0. bss_token h t c = Some (r, c)"
proof -
  obtain k where k: "getctxid (topframe c) = Some k"
    using assms(1) by (auto simp: token_defined_def split: option.splits)
  note d = bss_token_def enc_token_def with_ctxid_def token_defined_def fail_def k
  have int: "enc_int_in k x = None \<Longrightarrow> \<exists>r < 0. bss_int x c = Some (r, c)" for x
    by (auto simp: enc_int_in_def bss_int_def d Let_def bss_status_defs split: if_splits)
  show ?thesis
  proof (cases t)
    case (T_int x)
    with int assms show ?thesis by (simp add: d)
  next
    case (T_double x)
    with int assms show ?thesis
      by (auto simp: d enc_double_in_def bss_double_def bss_status_defs split: if_splits option.splits)
  next
    case T_null
    with assms k show ?thesis
      by (auto simp: d bss_null_def null_allowed_def Let_def bss_status_defs getctxid_def
          split: if_splits stackframecontent.splits)
  qed (use assms in \<open>auto simp: d bss_bool_def bss_lstring_def bss_chunk_def enc_string_in_def
         bss_status_defs split: if_splits\<close>)
qed

section \<open>Writers\<close>

text \<open>
  The table branch of \<open>luawriter\<close>: the chunk becomes the next entry of the table.
\<close>

definition luawriter_table :: "bytes \<Rightarrow> bytes list \<Rightarrow> int \<times> bytes list" where
  "luawriter_table data tbl = (int (length data), tbl @ [data])"

interpretation table: stream_writer luawriter_table "\<lambda>w. Some (concat w)"
  by unfold_locales (auto simp: luawriter_table_def)

lemma luawriter_table_accepting: "accepting luawriter_table"
  by (simp add: accepting_def luawriter_table_def)

text \<open>A writer with room for a number of octets, the overflow of \<open>bysants.h\<close>.\<close>

definition bounded_writer :: "bytes \<Rightarrow> nat \<times> bytes \<Rightarrow> int \<times> (nat \<times> bytes)" where
  "bounded_writer data s =
     (let k = min (fst s) (length data) in (int k, fst s - k, snd s @ take k data))"

interpretation bounded: stream_writer bounded_writer "\<lambda>w. Some (snd w)"
  by unfold_locales (auto simp: bounded_writer_def Let_def)

definition top_frame :: stackframe where
  "top_frame = \<lparr>kind = BS_FTOP, ctxid = BS_CTXID_GLOBAL, missing = 0, content = C_map 0\<rparr>"

definition fresh_ctx :: "(bytes \<Rightarrow> 'w \<Rightarrow> int \<times> 'w) \<Rightarrow> 'w \<Rightarrow> 'w bss_ctx_t" where
  "fresh_ctx wr w = \<lparr>writer = wr, writerctx = w, written = 0, acknowledged = 0, skipped = 0, broken = False,
     stacksize = 0, acknowledged_stacksize = 0, classcoll = bs_classcoll_init,
     stack = replicate STACK_SIZE top_frame\<rparr>"

lemma fresh_ctx_top: "topframe (fresh_ctx wr w) = top_frame"
  by (simp add: topframe_def fresh_ctx_def STACK_SIZE_def)

lemma fresh_ctx_idle: "out w = Some base \<Longrightarrow> idle out base (fresh_ctx wr w)"
  by (simp add: idle_def fresh_ctx_def pending_def)

lemma top_frame_countable: "countable_frame top_frame"
  by (simp add: countable_frame_def top_frame_def fixed_frame_def)

lemma top_frame_ctxid: "getctxid top_frame = Some BS_CTXID_GLOBAL"
  by (simp add: getctxid_def top_frame_def)

text \<open>
  Opening a container is not resumable. A typed list whose header overflows leaves its
  frame on the stack; the repeated call then takes the context of that frame for the context
  of the list itself and refuses with \<open>BSS_EBADCONTEXT\<close>, although half of the header is on
  the stream.
\<close>

theorem container_retry_refused:
  "\<exists>c1 c2. bss_list 2 BS_CTXID_NUMBER (fresh_ctx bounded_writer (1, [])) = Some (BSS_EAGAIN, c1) \<and>
     snd (writerctx c1) = [0x37] \<and>
     bss_list 2 BS_CTXID_NUMBER (c1\<lparr>writerctx := (100, [0x37])\<rparr>) = Some (BSS_EBADCONTEXT, c2)"
  by (simp add: bss_list_def with_ctxid_def fresh_ctx_def topframe_def STACK_SIZE_def getctxid_def
      top_frame_def ctxid_defs Let_def START_TRANSACTION_def startTransaction_def fixed_frame_def
      TRYC_def openCollection_def TRY_def openContainer_def push_frame_def set_topframe_def writeByte_def
      writeData_def bounded_writer_def BS_GLOBAL_LIST_def bss_status_defs try_fail_def done_ok_def
      fail_def)


theorem bss_token_refused_witness:
  "\<exists>r < 0. bss_token TLITTLE_ENDIAN (T_chunk [1]) (fresh_ctx luawriter_table []) =
     Some (r, fresh_ctx luawriter_table [])"
proof -
  have "token_defined (topframe (fresh_ctx luawriter_table [])) (T_chunk [1])"
    by (simp add: fresh_ctx_top token_defined_def top_frame_ctxid)
  moreover have "enc_token TLITTLE_ENDIAN (topframe (fresh_ctx luawriter_table [])) (T_chunk [1]) = None"
    by (simp add: fresh_ctx_top enc_token_def top_frame_ctxid) (simp add: top_frame_def ctxid_defs)
  ultimately show ?thesis by (rule bss_token_refused)
qed

end
