(* ===== verification/Bysant_Codec.thy ===== *)
theory Bysant_Codec
  imports Bysant_Decode Bysant_Operations
begin

text \<open>
  Serializer and deserializer together. A \<open>cmd\<close> is one call of the serializer's public
  interface, an \<open>event\<close> what one call of \<open>bsd_read\<close> reports. The relation \<open>codec_rel\<close>
  holds between the two contexts when the same containers are open on both sides; shown is
  the lock-step simulation: every admissible call writes octets that one \<open>bsd_read\<close> turns
  into the event of the call, and the contexts are related again. By induction, reading back
  a whole sequence of calls gives the sequence of their events.

  The serializer runs on a little-endian host, as its octet tables assume; so does the
  deserializer here. Strings and chunks are short enough for a single token.
\<close>

section \<open>Headers of collections\<close>

lemma decodeCollection_skip:
  assumes "coll_enc_ok enc" "uint b < empty_opcode enc \<or> variable_typed_opcode enc < uint b" "avail < 0 \<or> 1 \<le> avail"
  shows "decodeCollection ctx x (b # rest) avail enc = Some (0, ctx, x)"
proof -
  have one: "CHECK_LENGTH avail 1 ctx x k = k" for k using assms(3) by (rule check_length_pass)
  have n: "empty_opcode enc \<noteq> uint b" "long_untyped_opcode enc \<noteq> uint b" "variable_untyped_opcode enc \<noteq> uint b"
    "long_typed_opcode enc \<noteq> uint b" "variable_typed_opcode enc \<noteq> uint b"
    "\<not> (small_untyped_opcode enc \<le> uint b \<and> uint b \<le> small_untyped_opcode enc + coll_small_limit enc - 1)"
    "\<not> (small_typed_opcode enc \<le> uint b \<and> uint b \<le> small_typed_opcode enc + coll_small_limit enc - 1)"
    using assms(1,2) unfolding coll_enc_ok_def by linarith+
  show ?thesis
    unfolding decodeCollection_def Let_def octet_Cons one by (simp only: n if_False simp_thms)
qed

lemma header_cases:
  assumes "ty < BS_CTXID_LAST" "coll_enc_ok enc"
  obtains (empty) "len = 0" "coll_header len ty enc = [u8 (empty_opcode enc)]"
    | (variable) "len < 0" "ty = BS_CTXID_GLOBAL" "coll_header len ty enc = [u8 (variable_untyped_opcode enc)]"
    | (variable_typed) "len < 0" "ty \<noteq> BS_CTXID_GLOBAL"
        "coll_header len ty enc = [u8 (variable_typed_opcode enc), u8 (int ty)]"
    | (small) "0 < len" "len \<le> coll_small_limit enc" "ty = BS_CTXID_GLOBAL"
        "coll_header len ty enc = [u8 (empty_opcode enc + len)]"
    | (small_typed) "0 < len" "len \<le> coll_small_limit enc" "ty \<noteq> BS_CTXID_GLOBAL"
        "coll_header len ty enc = [u8 (small_typed_opcode enc + len - 1), u8 (int ty)]"
    | (long) "coll_small_limit enc < len" "ty = BS_CTXID_GLOBAL"
        "coll_header len ty enc = u8 (long_untyped_opcode enc) # enc_uint (to_uint32 (len - (coll_small_limit enc + 1)))"
    | (long_typed) "coll_small_limit enc < len" "ty \<noteq> BS_CTXID_GLOBAL"
        "coll_header len ty enc = u8 (long_typed_opcode enc) #
           enc_uint (to_uint32 (len - (coll_small_limit enc + 1))) @ [u8 (int ty)]"
proof -
  have e: "len + small_untyped_opcode enc - 1 = empty_opcode enc + len"
    "len + small_typed_opcode enc - 1 = small_typed_opcode enc + len - 1"
    using assms(2) by (simp_all add: coll_enc_ok_def)
  consider "len = 0" | "len < 0" | "0 < len" "len \<le> coll_small_limit enc" | "coll_small_limit enc < len" "0 < len"
    using assms(2) unfolding coll_enc_ok_def by linarith
  then show thesis
    by cases (cases "ty = BS_CTXID_GLOBAL"; rule that; simp add: coll_header_def Let_def e del: of_int_add of_int_diff)+
qed

lemma header_first:
  assumes "ty < BS_CTXID_LAST" "coll_enc_ok enc"
  shows "\<exists>b bs. coll_header len ty enc = b # bs \<and> empty_opcode enc \<le> uint b \<and> uint b \<le> variable_typed_opcode enc"
proof -
  have u: "uint (u8 k) = k" if "empty_opcode enc \<le> k" "k \<le> variable_typed_opcode enc" for k
    using that assms(2) unfolding coll_enc_ok_def by (intro uint_u8_id) linarith+
  from assms show ?thesis
    by (cases rule: header_cases [of ty enc len])
      (use assms(2) u in \<open>auto simp: coll_enc_ok_def simp del: of_int_add of_int_diff\<close>)
qed

text \<open>The count of children that the header announces; the deserializer's frame for it.\<close>

definition coll_frame :: "int \<Rightarrow> nat \<Rightarrow> bs_coll_encoding_t \<Rightarrow> bsd_ctx_t \<Rightarrow> bsd_ctx_t" where
  "coll_frame len ty enc ctx =
     opened (coll_kind len enc) (if len = 0 then BS_CTXID_GLOBAL else ty) (max len (- 1)) ctx"

lemma decode_coll_header:
  assumes ok: "coll_enc_ok enc" and st: "d_stacksize ctx \<noteq> STACK_SIZE - 1" and ty: "ty < BS_CTXID_LAST"
    and len: "len < 2 ^ 30" and av: "int (length (coll_header len ty enc)) \<le> avail"
  shows "decodeCollection ctx x (coll_header len ty enc @ rest) avail enc =
     Some (int (length (coll_header len ty enc)), coll_frame len ty enc ctx, coll_data len enc x)"
proof -
  note ok' = ok [unfolded coll_enc_ok_def]
  have u: "uint (u8 k) = k" if "empty_opcode enc \<le> k" "k \<le> variable_typed_opcode enc" for k
    using that ok' by (intro uint_u8_id) linarith+
  have t: "nat (uint (u8 (int ty))) = ty" 
    using uint_u8_id [of "int ty"] ty by (simp add: ctxid_defs del: of_int_of_nat_eq)
  note d = coll_frame_def coll_kind_def coll_data_def
  from ty ok show ?thesis
  proof (cases rule: header_cases [of ty enc len])
    case empty
    with av have "avail < 0 \<or> 1 \<le> avail" by simp
    from coll_dec_simple(1) [OF ok st this, of "u8 (empty_opcode enc)" x rest] empty u ok'
    show ?thesis by (simp add: d)
  next
    case variable
    with av have "avail < 0 \<or> 1 \<le> avail" by simp
    from coll_dec_simple(3) [OF ok st this, of "u8 (variable_untyped_opcode enc)" x rest] variable
      u [of "variable_untyped_opcode enc"] ok'
    show ?thesis by (simp add: d)
  next
    case variable_typed
    with av have "avail < 0 \<or> 2 \<le> avail" by simp
    from coll_dec_typed(2) [OF ok st this, of "u8 (variable_typed_opcode enc)" x "u8 (int ty)" rest] variable_typed
      u [of "variable_typed_opcode enc"] ok' t
    show ?thesis by (simp add: d)
  next
    case small
    with av have a: "avail < 0 \<or> 1 \<le> avail" by simp
    have "uint (u8 (empty_opcode enc + len)) = empty_opcode enc + len" using small ok' by (intro u) linarith+
    with coll_dec_simple(2) [OF ok st a, of "u8 (empty_opcode enc + len)" x rest] small ok'
    show ?thesis by (simp add: d del: of_int_add)
  next
    case small_typed
    with av have a: "avail < 0 \<or> 2 \<le> avail" by simp
    let ?b = "u8 (small_typed_opcode enc + len - 1)"
    have "uint ?b = small_typed_opcode enc + len - 1"
      using small_typed ok' by (intro u) linarith+
    moreover have "small_typed_opcode enc \<le> small_typed_opcode enc + len - 1"
      "small_typed_opcode enc + len - 1 < long_typed_opcode enc" using small_typed ok' by linarith+
    ultimately show ?thesis
      using coll_dec_typed(1) [OF ok st a, of ?b x "u8 (int ty)" rest] small_typed t
      by (simp add: d del: of_int_add of_int_diff)
  next
    case long
    let ?v = "len - (coll_small_limit enc + 1)"
    have v: "to_uint32 ?v = ?v" "0 \<le> ?v" "?v + coll_small_limit enc + 1 < 2 ^ 30"
      using long(1) len ok' by (auto simp: to_uint32_def intro!: mod_pos_pos_trivial)
    have a: "int (length (enc_uint ?v)) + 1 \<le> avail" using av unfolding long(3) v(1) by simp
    have "uint (u8 (long_untyped_opcode enc)) = long_untyped_opcode enc" using ok' by (intro u) linarith+
    from coll_dec_long(1) [OF ok st v(2,3) a this] long ok' show ?thesis
      unfolding long(3) v(1) by (simp add: d)
  next
    case long_typed
    let ?v = "len - (coll_small_limit enc + 1)"
    have v: "to_uint32 ?v = ?v" "0 \<le> ?v" "?v + coll_small_limit enc + 1 < 2 ^ 30"
      using long_typed(1) len ok' by (auto simp: to_uint32_def intro!: mod_pos_pos_trivial)
    have a: "int (length (enc_uint ?v)) + 1 \<le> avail" "int (length (enc_uint ?v)) + 2 \<le> avail"
      using av unfolding long_typed(3) v(1) by auto
    have "uint (u8 (long_typed_opcode enc)) = long_typed_opcode enc" using ok' by (intro u) linarith+
    from coll_dec_long(2) [OF ok st v(2,3) a(1) this a(2)] long_typed ok' t show ?thesis
      unfolding long_typed(3) v(1) by (simp add: d)
  qed
qed

section \<open>Events\<close>

datatype event =
    E_null | E_int int | E_bool bool | E_double f64 | E_string bytes | E_chunked | E_chunk bytes
  | E_list int | E_zlist | E_map int | E_zmap | E_object bs_class_t | E_close bsd_data_type_t

text \<open>What the caller of \<open>bsd_read\<close> finds in the data structure.\<close>

definition event_of :: "bsd_data_t \<Rightarrow> event option" where
  "event_of x =
     (case d_type x of
        BSD_NULL \<Rightarrow> Some E_null
      | BSD_CHUNKED_STRING \<Rightarrow> Some E_chunked
      | BSD_ZLIST \<Rightarrow> Some E_zlist
      | BSD_ZMAP \<Rightarrow> Some E_zmap
      | BSD_INT \<Rightarrow> (case d_content x of D_int i \<Rightarrow> Some (E_int i) | _ \<Rightarrow> None)
      | BSD_BOOL \<Rightarrow> (case d_content x of D_bool b \<Rightarrow> Some (E_bool b) | _ \<Rightarrow> None)
      | BSD_DOUBLE \<Rightarrow> (case d_content x of D_double d \<Rightarrow> Some (E_double d) | _ \<Rightarrow> None)
      | BSD_STRING \<Rightarrow> (case d_content x of D_string s \<Rightarrow> Some (E_string s) | _ \<Rightarrow> None)
      | BSD_CHUNK \<Rightarrow> (case d_content x of D_string s \<Rightarrow> Some (E_chunk s) | _ \<Rightarrow> None)
      | BSD_LIST \<Rightarrow> (case d_content x of D_length n \<Rightarrow> Some (E_list n) | _ \<Rightarrow> None)
      | BSD_MAP \<Rightarrow> (case d_content x of D_length n \<Rightarrow> Some (E_map n) | _ \<Rightarrow> None)
      | BSD_OBJECT \<Rightarrow> (case d_content x of D_class c \<Rightarrow> Some (E_object c) | _ \<Rightarrow> None)
      | BSD_CLOSE \<Rightarrow> (case d_content x of D_cont_type t \<Rightarrow> Some (E_close t) | _ \<Rightarrow> None)
      | _ \<Rightarrow> None)"

text \<open>A decoder consumes \<open>X\<close>, reports \<open>ev\<close> and moves to the context \<open>ctx'\<close>.\<close>

definition decodes ::
  "(bsd_ctx_t \<Rightarrow> bsd_data_t \<Rightarrow> bytes \<Rightarrow> int \<Rightarrow> dec) \<Rightarrow> bsd_ctx_t \<Rightarrow> bytes \<Rightarrow> event \<Rightarrow> bsd_ctx_t \<Rightarrow> bool" where
  "decodes dec ctx X ev ctx' \<longleftrightarrow>
     (\<forall>x rest avail. int (length X) \<le> avail \<longrightarrow> d_type x \<noteq> BSD_ERROR \<longrightarrow>
        (\<exists>x'. dec ctx x (X @ rest) avail = Some (int (length X), ctx', x') \<and> event_of x' = Some ev))"

lemma decodesI:
  "(\<And>x rest avail. int (length X) \<le> avail \<Longrightarrow> d_type x \<noteq> BSD_ERROR \<Longrightarrow>
      \<exists>x'. dec ctx x (X @ rest) avail = Some (int (length X), ctx', x') \<and> event_of x' = Some ev) \<Longrightarrow>
   decodes dec ctx X ev ctx'"
  unfolding decodes_def by blast

definition le_env :: "bsd_env \<Rightarrow> bool" where
  "le_env env \<longleftrightarrow> env_host env = TLITTLE_ENDIAN \<and> env_sendian env = host_sendian TLITTLE_ENDIAN"

lemma enc_int_nonempty [simp]: "enc_int v enc \<noteq> []"
  by (simp add: enc_int_def Let_def)

lemma enc_string_first:
  assumes "string_enc_ok enc" "int (length s) \<le> large_limit enc"
  shows "\<exists>b bs. enc_string s enc = b # bs \<and> small_opcode enc \<le> uint b \<and> uint b \<le> large_opcode enc"
proof -
  note ok = assms(1) [unfolded string_enc_ok_def]
  let ?len = "int (length s)" and ?w = "int (length s) - small_limit enc - 1"
  consider "?len \<le> small_limit enc" | "small_limit enc < ?len" "?len \<le> medium_limit enc" | "medium_limit enc < ?len"
    by linarith
  then show ?thesis
  proof cases
    case 1
    then have "uint (u8 (small_opcode enc + ?len)) = small_opcode enc + ?len"
      using ok by (intro uint_u8_id) linarith+
    moreover have "enc_string s enc = u8 (small_opcode enc + ?len) # s" using 1 by (simp add: enc_string_def Let_def)
    ultimately show ?thesis using ok 1 by (auto simp del: of_int_add)
  next
    case 2
    have "0 \<le> ?w" "?w < 256 * (large_opcode enc - medium_opcode enc)" "0 \<le> medium_opcode enc"
      "medium_opcode enc + (large_opcode enc - medium_opcode enc) \<le> 256" using 2 ok by linarith+
    note r = opcode_range [OF this(1,2) zero_less_numeral this(3,4)]
    have "enc_string s enc = u8 (medium_opcode enc + ?w div 256) # u8 ?w # s"
      using 2 by (simp add: enc_string_def Let_def)
    moreover have "small_opcode enc \<le> medium_opcode enc + ?w div 256" "medium_opcode enc + ?w div 256 \<le> large_opcode enc"
      using r(2,3) ok by linarith+
    ultimately show ?thesis using r(1) by (auto simp del: of_int_add)
  next
    case 3
    then have "uint (u8 (large_opcode enc)) = large_opcode enc" using ok by (intro uint_u8_id) linarith+
    with 3 ok assms(2) show ?thesis by (auto simp: enc_string_def Let_def)
  qed
qed

lemma event_set_int [simp]: "event_of (set_int v x) = Some (E_int v)"
  by (simp add: event_of_def set_int_def)

lemma event_bsd_string [simp]: "event_of (bsd_string s x) = Some (E_string s)"
  by (simp add: event_of_def bsd_string_def)

section \<open>Values in each context\<close>

lemma global_int:
  assumes "le_env env" "- (2 ^ 63) \<le> v" "v < 2 ^ 63"
  shows "decodes (bsd_global env) ctx (enc_int v BS_GLOBAL_INTEGER) (E_int v) ctx"
proof (rule decodesI)
  fix x rest avail
  assume av: "int (length (enc_int v BS_GLOBAL_INTEGER)) \<le> avail"
  obtain b bs where X: "enc_int v BS_GLOBAL_INTEGER = b # bs" by (metis enc_int_nonempty neq_Nil_conv)
  have "env_sendian env = host_sendian (env_host env)" "covers avail (enc_int v BS_GLOBAL_INTEGER)"
    using assms(1) av by (simp_all add: le_env_def covers_def)
  note dec = decode_enc_int [OF int_enc_ok_tables(1) assms(2,3) this, of ctx x rest, unfolded X append.simps]
  have "CHECK_LENGTH avail 1 ctx x k = k" for k using av X by (intro check_length_pass) auto
  then show "\<exists>x'. bsd_global env ctx x (enc_int v BS_GLOBAL_INTEGER @ rest) avail =
      Some (int (length (enc_int v BS_GLOBAL_INTEGER)), ctx, x') \<and> event_of x' = Some (E_int v)"
    unfolding X append.simps bsd_global_def octet_Cons dec by (simp add: CHECK_DECODE_def)
qed

lemma number_int:
  assumes "le_env env" "- (2 ^ 63) \<le> v" "v < 2 ^ 63"
  shows "decodes (bsd_number env) ctx (enc_int v BS_NUMBER_INTEGER) (E_int v) ctx"
proof (rule decodesI)
  fix x rest avail
  assume av: "int (length (enc_int v BS_NUMBER_INTEGER)) \<le> avail"
  obtain b bs where X: "enc_int v BS_NUMBER_INTEGER = b # bs" by (metis enc_int_nonempty neq_Nil_conv)
  have "env_sendian env = host_sendian (env_host env)" "covers avail (enc_int v BS_NUMBER_INTEGER)"
    using assms(1) av by (simp_all add: le_env_def covers_def)
  note dec = decode_enc_int [OF int_enc_ok_tables(2) assms(2,3) this, of ctx x rest, unfolded X append.simps]
  have "CHECK_LENGTH avail 1 ctx x k = k" for k using av X by (intro check_length_pass) auto
  then show "\<exists>x'. bsd_number env ctx x (enc_int v BS_NUMBER_INTEGER @ rest) avail =
      Some (int (length (enc_int v BS_NUMBER_INTEGER)), ctx, x') \<and> event_of x' = Some (E_int v)"
    unfolding X append.simps bsd_number_def octet_Cons dec by (simp add: CHECK_DECODE_def)
qed

lemma uis_uint:
  assumes "0 \<le> v" "v < 2 ^ 32"
  shows "decodes bsd_uis ctx (enc_uint v) (E_int v) ctx"
proof (rule decodesI)
  fix x rest avail
  assume "int (length (enc_uint v)) \<le> avail"
  then have "covers avail (enc_uint v)" by (simp add: covers_def)
  with decode_enc_uint [OF assms] show "\<exists>x'. bsd_uis ctx x (enc_uint v @ rest) avail =
      Some (int (length (enc_uint v)), ctx, x') \<and> event_of x' = Some (E_int v)" by simp
qed

lemma uis_string:
  assumes "int (length s) \<le> 67631"
  shows "decodes bsd_uis ctx (enc_string s BS_UIS_STRING) (E_string s) ctx"
proof (rule decodesI)
  fix x rest avail
  assume av: "int (length (enc_string s BS_UIS_STRING)) \<le> avail"
  have l: "int (length s) \<le> large_limit BS_UIS_STRING" using assms by (simp add: BS_UIS_STRING_def)
  obtain b bs where X: "enc_string s BS_UIS_STRING = b # bs"
    using enc_string_first [OF string_enc_ok_tables(2) l] by blast
  have "covers avail (enc_string s BS_UIS_STRING)" using av by (simp add: covers_def)
  note dec = decode_enc_string [OF string_enc_ok_tables(2) l this, of ctx x rest, unfolded X append.simps]
  have "CHECK_LENGTH avail 1 ctx x k = k" for k using av X by (intro check_length_pass) auto
  then show "\<exists>x'. bsd_uis ctx x (enc_string s BS_UIS_STRING @ rest) avail =
      Some (int (length (enc_string s BS_UIS_STRING)), ctx, x') \<and> event_of x' = Some (E_string s)"
    unfolding X append.simps bsd_uis_def octet_Cons dec by (simp add: CHECK_DECODE_def)
qed

lemma event_retype [simp]: "event_of (x\<lparr>d_type := BSD_NULL\<rparr>) = Some E_null"
  "event_of (set_double d x) = Some (E_double d)"
  "event_of (x\<lparr>d_type := BSD_BOOL, d_content := D_bool b\<rparr>) = Some (E_bool b)"
  "event_of (x\<lparr>d_type := BSD_CLOSE, d_content := D_cont_type t\<rparr>) = Some (E_close t)"
  by (simp_all add: event_of_def set_double_def)

lemma global_string:
  assumes "int (length s) \<le> 66592"
  shows "decodes (bsd_global env) ctx (enc_string s BS_GLOBAL_STRING) (E_string s) ctx"
proof (rule decodesI)
  fix x rest avail
  assume av: "int (length (enc_string s BS_GLOBAL_STRING)) \<le> avail"
  have l: "int (length s) \<le> large_limit BS_GLOBAL_STRING" using assms by (simp add: BS_GLOBAL_STRING_def)
  obtain b bs where X: "enc_string s BS_GLOBAL_STRING = b # bs" and b: "uint b \<le> large_opcode BS_GLOBAL_STRING"
    using enc_string_first [OF string_enc_ok_tables(1) l] by blast
  have cov: "covers avail (enc_string s BS_GLOBAL_STRING)" using av by (simp add: covers_def)
  note dec = decode_enc_string [OF string_enc_ok_tables(1) l cov, of ctx _ rest, unfolded X append.simps]
  have "avail < 0 \<or> 1 \<le> avail" using av X by auto
  moreover have "uint b < tiny_zero_opcode BS_GLOBAL_INTEGER + tiny_min BS_GLOBAL_INTEGER"
    using b by (simp add: BS_GLOBAL_STRING_def BS_GLOBAL_INTEGER_def)
  ultimately show "\<exists>x'. bsd_global env ctx x (enc_string s BS_GLOBAL_STRING @ rest) avail =
      Some (int (length (enc_string s BS_GLOBAL_STRING)), ctx, x') \<and> event_of x' = Some (E_string s)"
    unfolding X append.simps bsd_global_def octet_Cons
    by (simp add: CHECK_DECODE_def check_length_pass dec
        decodeInteger_skip [OF int_enc_ok_tables(1)])
qed

text \<open>The first four stages of \<open>bsd_global\<close>, passed over for opcodes that are not theirs.\<close>

lemma global_int_skip:
  "uint b < 0x80 \<or> 0xfd < uint b \<Longrightarrow> avail < 0 \<or> 1 \<le> avail \<Longrightarrow>
   decodeInteger env ctx x (b # rest) avail BS_GLOBAL_INTEGER = Some (0, ctx, x\<lparr>d_type := BSD_INT\<rparr>)"
  by (rule decodeInteger_skip [OF int_enc_ok_tables(1)]) (simp_all add: BS_GLOBAL_INTEGER_def)

lemma global_string_skip:
  "uint b < 0x03 \<or> 0x29 < uint b \<Longrightarrow> avail < 0 \<or> 1 \<le> avail \<Longrightarrow>
   decodeString ctx x (b # rest) avail BS_GLOBAL_STRING = Some (0, ctx, x\<lparr>d_type := BSD_STRING\<rparr>)"
  by (rule decodeString_skip [OF string_enc_ok_tables(1)]) (simp_all add: BS_GLOBAL_STRING_def)

lemma global_list_skip:
  "uint b < 0x2a \<or> 0x40 < uint b \<Longrightarrow> avail < 0 \<or> 1 \<le> avail \<Longrightarrow>
   decodeCollection ctx x (b # rest) avail BS_GLOBAL_LIST = Some (0, ctx, x)"
  by (rule decodeCollection_skip [OF coll_enc_ok_tables(1)]) (simp_all add: BS_GLOBAL_LIST_def)

lemma global_map_skip:
  "uint b < 0x41 \<or> 0x57 < uint b \<Longrightarrow> avail < 0 \<or> 1 \<le> avail \<Longrightarrow>
   decodeCollection ctx x (b # rest) avail BS_GLOBAL_MAP = Some (0, ctx, x)"
  by (rule decodeCollection_skip [OF coll_enc_ok_tables(2)]) (simp_all add: BS_GLOBAL_MAP_def)

lemma class_skip:
  "uint b \<noteq> 0x71 \<Longrightarrow> uint b \<noteq> 0x72 \<Longrightarrow> avail < 0 \<or> 1 \<le> avail \<Longrightarrow>
   decodeClass env ctx x (b # rest) avail = Some (0, ctx, x)"
  by (simp add: decodeClass_def check_length_pass)

lemmas global_skips = global_int_skip global_string_skip global_list_skip global_map_skip class_skip
  CHECK_DECODE_def check_length_pass

lemma global_bool: "decodes (bsd_global env) ctx [if b then 1 else 2] (E_bool b) ctx"
  by (rule decodesI) (simp add: bsd_global_def global_skips token_defs)

text \<open>Reading a null token: in an unsized list, and where a key is due in an unsized map, it closes.\<close>

definition null_event :: "bsd_ctx_t \<Rightarrow> event \<Rightarrow> bsd_ctx_t \<Rightarrow> bool" where
  "null_event ctx ev ctx' \<longleftrightarrow>
     (\<forall>x. \<exists>x'. decodeNull ctx x = Some (ctx', x') \<and> event_of x' = Some ev)"

lemma null_result_ok:
  "null_event ctx ev ctx' \<Longrightarrow> \<exists>x'. null_result n ctx x = Some (n, ctx', x') \<and> event_of x' = Some ev"
  by (auto simp: null_event_def null_result_def)

lemma global_null:
  assumes "null_event ctx ev ctx'"
  shows "decodes (bsd_global env) ctx [0] ev ctx'"
proof (rule decodesI)
  fix x rest avail
  assume "int (length [0::byte]) \<le> avail"
  then have "bsd_global env ctx x ([0] @ rest) avail = null_result 1 ctx (x\<lparr>d_type := BSD_STRING\<rparr>)"
    by (simp add: bsd_global_def global_skips token_defs)
  with null_result_ok [OF assms, of 1 "x\<lparr>d_type := BSD_STRING\<rparr>"]
  show "\<exists>x'. bsd_global env ctx x ([0] @ rest) avail = Some (int (length [0::byte]), ctx', x') \<and>
      event_of x' = Some ev" by simp
qed

lemma uis_null:
  assumes "null_event ctx ev ctx'"
  shows "decodes bsd_uis ctx [0] ev ctx'"
proof (rule decodesI)
  fix x rest avail
  assume av: "int (length [0::byte]) \<le> avail"
  have "decodeString ctx x (0 # rest) avail BS_UIS_STRING = Some (0, ctx, x\<lparr>d_type := BSD_STRING\<rparr>)"
    using av by (intro decodeString_skip string_enc_ok_tables) (auto simp: BS_UIS_STRING_def)
  with av have "bsd_uis ctx x ([0] @ rest) avail = null_result 1 ctx (x\<lparr>d_type := BSD_INT\<rparr>)"
    by (simp add: bsd_uis_def CHECK_DECODE_def check_length_pass)
  with null_result_ok [OF assms, of 1 "x\<lparr>d_type := BSD_INT\<rparr>"]
  show "\<exists>x'. bsd_uis ctx x ([0] @ rest) avail = Some (int (length [0::byte]), ctx', x') \<and>
      event_of x' = Some ev" by simp
qed

lemma number_null:
  assumes "null_event ctx ev ctx'"
  shows "decodes (bsd_number env) ctx [0] ev ctx'"
proof (rule decodesI)
  fix x rest avail
  assume av: "int (length [0::byte]) \<le> avail"
  have "decodeInteger env ctx x (0 # rest) avail BS_NUMBER_INTEGER = Some (0, ctx, x\<lparr>d_type := BSD_INT\<rparr>)"
    using av by (intro decodeInteger_skip int_enc_ok_tables) (auto simp: BS_NUMBER_INTEGER_def)
  with av have "bsd_number env ctx x ([0] @ rest) avail = null_result 1 ctx (x\<lparr>d_type := BSD_INT\<rparr>)"
    by (simp add: bsd_number_def CHECK_DECODE_def check_length_pass token_defs)
  with null_result_ok [OF assms, of 1 "x\<lparr>d_type := BSD_INT\<rparr>"]
  show "\<exists>x'. bsd_number env ctx x ([0] @ rest) avail = Some (int (length [0::byte]), ctx', x') \<and>
      event_of x' = Some ev" by simp
qed

lemma listmap_null:
  assumes "null_event ctx ev ctx'"
  shows "decodes bsd_listmap ctx [0] ev ctx'"
proof (rule decodesI)
  fix x :: bsd_data_t and rest avail
  assume av: "int (length [0::byte]) \<le> avail" and x: "d_type x \<noteq> BSD_ERROR"
  have "decodeCollection ctx x (0 # rest) avail BS_LISTMAP_LIST = Some (0, ctx, x)"
    using av by (intro decodeCollection_skip [OF coll_enc_ok_tables(3)]) (auto simp: BS_LISTMAP_LIST_def)
  moreover have "decodeCollection ctx x (0 # rest) avail BS_LISTMAP_MAP = Some (0, ctx, x)"
    using av by (intro decodeCollection_skip [OF coll_enc_ok_tables(4)]) (auto simp: BS_LISTMAP_MAP_def)
  ultimately have "bsd_listmap ctx x ([0] @ rest) avail = null_result 1 ctx x"
    using av x by (simp add: bsd_listmap_def CHECK_DECODE_def check_length_pass)
  with null_result_ok [OF assms, of 1 x]
  show "\<exists>x'. bsd_listmap ctx x ([0] @ rest) avail = Some (int (length [0::byte]), ctx', x') \<and>
      event_of x' = Some ev" by simp
qed

section \<open>Fixed-width contexts and floats\<close>

lemma mem_le: "length v = 4 \<or> length v = 8 \<Longrightarrow> mem_value TLITTLE_ENDIAN (order_of TLITTLE_ENDIAN v) = be_value v"
  by (auto simp: mem_value_def order_of_involutive)

lemma enc_f32_le: "enc_f32 TLITTLE_ENDIAN f = be_bytes 4 (uint f)"
  by (simp add: enc_f32_def mem_of_def order_of_def)

lemma enc_f64_le: "enc_f64 TLITTLE_ENDIAN d = be_bytes 8 (uint d)"
  by (simp add: enc_f64_def mem_of_def order_of_def)

lemma be_value_f32: "word_of_int (be_value (be_bytes 4 (uint f))) = (f :: f32)"
  using uint_lt2p [of f] by (simp add: be_value_be_bytes mod_pos_pos_trivial)

lemma be_value_f64: "word_of_int (be_value (be_bytes 8 (uint d))) = (d :: f64)"
  using uint_lt2p [of d] by (simp add: be_value_be_bytes mod_pos_pos_trivial)

lemma read_float_le:
  assumes "le_env env" "length pre = i"
  shows "read_float env (pre @ be_bytes 4 (uint f) @ rest) i k = k f"
  using assms unfolding read_float_def
  by (simp add: octets_append le_env_def host_sendian_float hton_4_8 mem_le be_value_f32)

lemma read_double_le:
  assumes "le_env env" "length pre = i" "ord = e_float (env_sendian env) \<or> ord = e_double (env_sendian env)"
  shows "read_double env ord (pre @ be_bytes 8 (uint d) @ rest) i k = k d"
  using assms unfolding read_double_def
  by (auto simp: octets_append le_env_def host_sendian_float host_sendian_double hton_4_8 mem_le be_value_f64)

lemma global_f32:
  assumes "le_env env"
  shows "decodes (bsd_global env) ctx (BS_G_FLOAT32 # enc_f32 TLITTLE_ENDIAN f) (E_double (f32_to_f64 f)) ctx"
proof (rule decodesI)
  fix x rest avail
  assume "int (length (BS_G_FLOAT32 # enc_f32 TLITTLE_ENDIAN f)) \<le> avail"
  then have av: "avail < 0 \<or> 1 \<le> avail" "avail < 0 \<or> 5 \<le> avail" by (simp_all add: enc_f32_le)
  show "\<exists>x'. bsd_global env ctx x ((BS_G_FLOAT32 # enc_f32 TLITTLE_ENDIAN f) @ rest) avail =
      Some (int (length (BS_G_FLOAT32 # enc_f32 TLITTLE_ENDIAN f)), ctx, x') \<and>
      event_of x' = Some (E_double (f32_to_f64 f))"
    using av read_float_le [OF assms, of "[BS_G_FLOAT32]" 1 f rest]
    by (simp add: enc_f32_le bsd_global_def global_skips token_defs Let_def)
qed

lemma global_f64:
  assumes "le_env env"
  shows "decodes (bsd_global env) ctx (BS_G_FLOAT64 # enc_f64 TLITTLE_ENDIAN d) (E_double d) ctx"
proof (rule decodesI)
  fix x rest avail
  assume "int (length (BS_G_FLOAT64 # enc_f64 TLITTLE_ENDIAN d)) \<le> avail"
  then have av: "avail < 0 \<or> 1 \<le> avail" "avail < 0 \<or> 9 \<le> avail" by (simp_all add: enc_f64_le)
  show "\<exists>x'. bsd_global env ctx x ((BS_G_FLOAT64 # enc_f64 TLITTLE_ENDIAN d) @ rest) avail =
      Some (int (length (BS_G_FLOAT64 # enc_f64 TLITTLE_ENDIAN d)), ctx, x') \<and> event_of x' = Some (E_double d)"
    using av read_double_le [OF assms, of "[BS_G_FLOAT64]" 1 _ d rest]
    by (simp add: enc_f64_le bsd_global_def global_skips token_defs Let_def)
qed

lemma number_float_skip:
  assumes "0xfd < uint b" "avail < 0 \<or> 1 \<le> avail"
  shows "decodeInteger env ctx x (b # rest) avail BS_NUMBER_INTEGER = Some (0, ctx, x\<lparr>d_type := BSD_INT\<rparr>)"
  using assms by (intro decodeInteger_skip [OF int_enc_ok_tables(2)]) (simp_all add: BS_NUMBER_INTEGER_def)

lemma number_f32:
  assumes "le_env env"
  shows "decodes (bsd_number env) ctx (BS_N_FLOAT32 # enc_f32 TLITTLE_ENDIAN f) (E_double (f32_to_f64 f)) ctx"
proof (rule decodesI)
  fix x rest avail
  assume "int (length (BS_N_FLOAT32 # enc_f32 TLITTLE_ENDIAN f)) \<le> avail"
  then have av: "avail < 0 \<or> 1 \<le> avail" "avail < 0 \<or> 5 \<le> avail" by (simp_all add: enc_f32_le)
  show "\<exists>x'. bsd_number env ctx x ((BS_N_FLOAT32 # enc_f32 TLITTLE_ENDIAN f) @ rest) avail =
      Some (int (length (BS_N_FLOAT32 # enc_f32 TLITTLE_ENDIAN f)), ctx, x') \<and>
      event_of x' = Some (E_double (f32_to_f64 f))"
    using av read_float_le [OF assms, of "[BS_N_FLOAT32]" 1 f rest]
    by (simp add: enc_f32_le bsd_number_def number_float_skip CHECK_DECODE_def check_length_pass token_defs)
qed

lemma number_f64:
  assumes "le_env env"
  shows "decodes (bsd_number env) ctx (BS_N_FLOAT64 # enc_f64 TLITTLE_ENDIAN d) (E_double d) ctx"
proof (rule decodesI)
  fix x rest avail
  assume "int (length (BS_N_FLOAT64 # enc_f64 TLITTLE_ENDIAN d)) \<le> avail"
  then have av: "avail < 0 \<or> 1 \<le> avail" "avail < 0 \<or> 9 \<le> avail" by (simp_all add: enc_f64_le)
  show "\<exists>x'. bsd_number env ctx x ((BS_N_FLOAT64 # enc_f64 TLITTLE_ENDIAN d) @ rest) avail =
      Some (int (length (BS_N_FLOAT64 # enc_f64 TLITTLE_ENDIAN d)), ctx, x') \<and> event_of x' = Some (E_double d)"
    using av read_double_le [OF assms, of "[BS_N_FLOAT64]" 1 _ d rest]
    by (simp add: enc_f64_le bsd_number_def number_float_skip CHECK_DECODE_def check_length_pass token_defs)
qed

lemma escape_eval:
  assumes "length X = n" "avail < 0 \<or> int n + 1 \<le> avail"
  shows "escape avail (X @ 1 # rest) n ctx x = Some (int n + 1, ctx, x)"
    "escape avail (X @ 0 # rest) n ctx x = null_result (int n + 1) ctx x"
  using assms by (simp_all add: escape_def check_length_pass octet_def nth_append)

lemma int32_octets:
  assumes "avail < 0 \<or> 4 \<le> avail"
  shows "bsd_int32 ctx x (b0 # b1 # b2 # b3 # rest) avail =
     (let u = (uint b0 * 16777216 + uint b1 * 65536 + uint b2 * 256 + uint b3) mod 2 ^ 32;
          x = set_int (signed_take_bit 31 u) x in
      if u = 0x80000000 then escape avail (b0 # b1 # b2 # b3 # rest) 4 ctx x else Some (4, ctx, x))"
  using assms by (simp add: bsd_int32_def check_length_pass push_bit_int)

lemma signed_mod: "signed_take_bit 31 (v mod 2 ^ 32) = signed_take_bit 31 (v::int)"
  using signed_take_bit_take_bit [of 31 32 v] by (simp add: take_bit_eq_mod)

lemma int32_raw:
  assumes "avail < 0 \<or> 4 \<le> avail"
  shows "bsd_int32 ctx x (be_bytes 4 v @ rest) avail =
     (let x = set_int (signed_take_bit 31 v) x in
      if v mod 2 ^ 32 = 0x80000000 then escape avail (be_bytes 4 v @ rest) 4 ctx x else Some (4, ctx, x))"
  unfolding be_bytes_4 append.simps int32_octets [OF assms] octets_be4 mod_mod_trivial signed_mod Let_def ..

lemma int32_value:
  assumes "signed_take_bit 31 v = v"
  shows "decodes bsd_int32 ctx (be_bytes 4 v @ (if v = - (2 ^ 31) then [1] else [])) (E_int v) ctx"
proof (rule decodesI)
  fix x rest avail
  assume av: "int (length (be_bytes 4 v @ (if v = - (2 ^ 31) then [1] else []))) \<le> avail"
  then have a: "avail < 0 \<or> 4 \<le> avail" "v = - (2 ^ 31) \<Longrightarrow> avail < 0 \<or> int 4 + 1 \<le> avail"
    by (auto split: if_splits)
  have m: "v mod 2 ^ 32 = 0x80000000 \<longleftrightarrow> v = - (2 ^ 31)"
    using int32_min_test [OF assms] by (simp add: to_uint32_def)
  show "\<exists>x'. bsd_int32 ctx x ((be_bytes 4 v @ (if v = - (2 ^ 31) then [1] else [])) @ rest) avail =
      Some (int (length (be_bytes 4 v @ (if v = - (2 ^ 31) then [1] else []))), ctx, x') \<and>
      event_of x' = Some (E_int v)"
    unfolding append_assoc int32_raw [OF a(1)] Let_def m assms
    using escape_eval(1) [OF be_bytes_length a(2)] by (auto simp del: be_bytes.simps)
qed

lemma int32_null:
  assumes "null_event ctx ev ctx'"
  shows "decodes bsd_int32 ctx [0x80, 0, 0, 0, 0] ev ctx'"
proof (rule decodesI)
  fix x rest avail
  assume av: "int (length [0x80, 0, 0, 0, 0 :: byte]) \<le> avail"
  then have a: "avail < 0 \<or> 4 \<le> avail" "avail < 0 \<or> int 4 + 1 \<le> avail" by auto
  have "bsd_int32 ctx x ([0x80, 0, 0, 0, 0] @ rest) avail = null_result 5 ctx (set_int (- 2147483648) x)"
    using int32_octets [OF a(1), of ctx x "0x80" 0 0 0 "0 # rest"] escape_eval(2) [OF _ a(2), of "[0x80, 0, 0, 0]" rest]
    by (simp add: signed_take_bit_eq_if_negative)
  with null_result_ok [OF assms, of 5] show "\<exists>x'. bsd_int32 ctx x ([0x80, 0, 0, 0, 0] @ rest) avail =
      Some (int (length [0x80, 0, 0, 0, 0 :: byte]), ctx', x') \<and> event_of x' = Some ev" by simp
qed

lemma float_value:
  assumes "le_env env"
  shows "decodes (bsd_float env) ctx (enc_f32 TLITTLE_ENDIAN f @ (if f = 0xFFFFFFFF then [1] else []))
     (E_double (f32_to_f64 f)) ctx"
proof (rule decodesI)
  fix x rest avail
  assume av: "int (length (enc_f32 TLITTLE_ENDIAN f @ (if f = 0xFFFFFFFF then [1] else []))) \<le> avail"
  then have a: "avail < 0 \<or> 4 \<le> avail" "f = 0xFFFFFFFF \<Longrightarrow> avail < 0 \<or> int 4 + 1 \<le> avail"
    by (auto simp: enc_f32_le split: if_splits)
  have r: "read_float env (be_bytes 4 (uint f) @ r) 0 k = k f" for r k
    using read_float_le [OF assms, of "[]" 0 f r k] by simp
  show "\<exists>x'. bsd_float env ctx x ((enc_f32 TLITTLE_ENDIAN f @ (if f = 0xFFFFFFFF then [1] else [])) @ rest) avail =
      Some (int (length (enc_f32 TLITTLE_ENDIAN f @ (if f = 0xFFFFFFFF then [1] else []))), ctx, x') \<and>
      event_of x' = Some (E_double (f32_to_f64 f))"
    unfolding append_assoc enc_f32_le bsd_float_def check_length_pass [OF a(1)] r Let_def
    using escape_eval(1) [OF be_bytes_length a(2)] by (auto simp del: be_bytes.simps)
qed

lemma double_value:
  assumes "le_env env"
  shows "decodes (bsd_double env) ctx (enc_f64 TLITTLE_ENDIAN d @ (if d = 0xFFFFFFFFFFFFFFFF then [1] else []))
     (E_double d) ctx"
proof (rule decodesI)
  fix x rest avail
  assume av: "int (length (enc_f64 TLITTLE_ENDIAN d @ (if d = 0xFFFFFFFFFFFFFFFF then [1] else []))) \<le> avail"
  then have a: "avail < 0 \<or> 8 \<le> avail" "d = 0xFFFFFFFFFFFFFFFF \<Longrightarrow> avail < 0 \<or> int 8 + 1 \<le> avail"
    by (auto simp: enc_f64_le split: if_splits)
  have r: "read_double env (e_float (env_sendian env)) (be_bytes 8 (uint d) @ r) 0 k = k d" for r k
    using read_double_le [OF assms, of "[]" 0 _ d r k] by simp
  show "\<exists>x'. bsd_double env ctx x
        ((enc_f64 TLITTLE_ENDIAN d @ (if d = 0xFFFFFFFFFFFFFFFF then [1] else [])) @ rest) avail =
      Some (int (length (enc_f64 TLITTLE_ENDIAN d @ (if d = 0xFFFFFFFFFFFFFFFF then [1] else []))), ctx, x') \<and>
      event_of x' = Some (E_double d)"
    unfolding append_assoc enc_f64_le bsd_double_def check_length_pass [OF a(1)] r Let_def
    using escape_eval(1) [OF be_bytes_length a(2)] by (auto simp del: be_bytes.simps)
qed

lemma float_null:
  assumes "le_env env" "null_event ctx ev ctx'"
  shows "decodes (bsd_float env) ctx [0xff, 0xff, 0xff, 0xff, 0] ev ctx'"
proof (rule decodesI)
  fix x rest avail
  assume av: "int (length [0xff, 0xff, 0xff, 0xff, 0 :: byte]) \<le> avail"
  then have a: "avail < 0 \<or> 4 \<le> avail" "avail < 0 \<or> int 4 + 1 \<le> avail" by auto
  have b: "be_bytes 4 (uint (0xFFFFFFFF :: f32)) = [0xff, 0xff, 0xff, 0xff]" by (simp add: be_bytes_4)
  have "bsd_float env ctx x ([0xff, 0xff, 0xff, 0xff, 0] @ rest) avail =
      null_result 5 ctx (set_double (f32_to_f64 0xFFFFFFFF) x)"
    using read_float_le [OF assms(1), of "[]" 0 "0xFFFFFFFF" "0 # rest"]
      escape_eval(2) [OF _ a(2), of "[0xff, 0xff, 0xff, 0xff]" rest]
    unfolding b by (simp add: bsd_float_def check_length_pass a)
  with null_result_ok [OF assms(2), of 5] show "\<exists>x'. bsd_float env ctx x ([0xff, 0xff, 0xff, 0xff, 0] @ rest) avail =
      Some (int (length [0xff, 0xff, 0xff, 0xff, 0 :: byte]), ctx', x') \<and> event_of x' = Some ev" by simp
qed

lemma double_null:
  assumes "le_env env" "null_event ctx ev ctx'"
  shows "decodes (bsd_double env) ctx [0xff, 0xff, 0xff, 0xff, 0xff, 0xff, 0xff, 0xff, 0] ev ctx'"
proof (rule decodesI)
  fix x rest avail
  let ?F = "[0xff, 0xff, 0xff, 0xff, 0xff, 0xff, 0xff, 0xff] :: bytes"
  assume av: "int (length [0xff, 0xff, 0xff, 0xff, 0xff, 0xff, 0xff, 0xff, 0 :: byte]) \<le> avail"
  then have a: "avail < 0 \<or> 8 \<le> avail" "avail < 0 \<or> int 8 + 1 \<le> avail" by auto
  have b: "be_bytes 8 (uint (0xFFFFFFFFFFFFFFFF :: f64)) = ?F" by (simp add: be_bytes_8 be_bytes_4)
  have "bsd_double env ctx x ((?F @ [0]) @ rest) avail = null_result 9 ctx (set_double 0xFFFFFFFFFFFFFFFF x)"
    using read_double_le [OF assms(1), of "[]" 0 "e_float (env_sendian env)" "0xFFFFFFFFFFFFFFFF" "0 # rest"]
      escape_eval(2) [OF _ a(2), of ?F rest]
    unfolding b by (simp add: bsd_double_def check_length_pass a)
  with null_result_ok [OF assms(2), of 9] show "\<exists>x'. bsd_double env ctx x
      ([0xff, 0xff, 0xff, 0xff, 0xff, 0xff, 0xff, 0xff, 0] @ rest) avail =
      Some (int (length [0xff, 0xff, 0xff, 0xff, 0xff, 0xff, 0xff, 0xff, 0 :: byte]), ctx', x') \<and>
      event_of x' = Some ev" by simp
qed

section \<open>Containers\<close>

definition list_event :: "int \<Rightarrow> event" where
  "list_event len = (if len < 0 then E_zlist else E_list len)"

definition map_event :: "int \<Rightarrow> event" where
  "map_event len = (if len < 0 then E_zmap else E_map len)"

lemma coll_data_event:
  "enc = BS_GLOBAL_LIST \<or> enc = BS_LISTMAP_LIST \<Longrightarrow> event_of (coll_data len enc x) = Some (list_event len)"
  "enc = BS_GLOBAL_MAP \<or> enc = BS_LISTMAP_MAP \<Longrightarrow> event_of (coll_data len enc x) = Some (map_event len)"
  by (auto simp: event_of_def coll_data_def list_event_def map_event_def bsd_typeFromFrameKind_def coll_enc_defs)

lemma global_collection:
  assumes st: "d_stacksize ctx \<noteq> STACK_SIZE - 1" and ty: "ty < BS_CTXID_LAST" and len: "len < 2 ^ 30"
  shows "decodes (bsd_global env) ctx (coll_header len ty BS_GLOBAL_LIST) (list_event len)
       (coll_frame len ty BS_GLOBAL_LIST ctx)"
    "decodes (bsd_global env) ctx (coll_header len ty BS_GLOBAL_MAP) (map_event len)
       (coll_frame len ty BS_GLOBAL_MAP ctx)"
proof -
  show "decodes (bsd_global env) ctx (coll_header len ty BS_GLOBAL_LIST) (list_event len)
       (coll_frame len ty BS_GLOBAL_LIST ctx)"
  proof (rule decodesI)
    fix x rest avail
    assume av: "int (length (coll_header len ty BS_GLOBAL_LIST)) \<le> avail"
    obtain b bs where X: "coll_header len ty BS_GLOBAL_LIST = b # bs" "0x2a \<le> uint b" "uint b \<le> 0x40"
      using header_first [OF ty coll_enc_ok_tables(1), of len] by (auto simp: BS_GLOBAL_LIST_def)
    have a: "avail < 0 \<or> 1 \<le> avail" using av X by auto
    note dec = decode_coll_header [OF coll_enc_ok_tables(1) st ty len av, unfolded X append.simps]
    show "\<exists>x'. bsd_global env ctx x (coll_header len ty BS_GLOBAL_LIST @ rest) avail =
        Some (int (length (coll_header len ty BS_GLOBAL_LIST)), coll_frame len ty BS_GLOBAL_LIST ctx, x') \<and>
        event_of x' = Some (list_event len)"
      using a X(2,3) unfolding X(1) append.simps bsd_global_def octet_Cons
      by (simp add: global_skips dec coll_data_event)
  qed
  show "decodes (bsd_global env) ctx (coll_header len ty BS_GLOBAL_MAP) (map_event len)
       (coll_frame len ty BS_GLOBAL_MAP ctx)"
  proof (rule decodesI)
    fix x rest avail
    assume av: "int (length (coll_header len ty BS_GLOBAL_MAP)) \<le> avail"
    obtain b bs where X: "coll_header len ty BS_GLOBAL_MAP = b # bs" "0x41 \<le> uint b" "uint b \<le> 0x57"
      using header_first [OF ty coll_enc_ok_tables(2), of len] by (auto simp: BS_GLOBAL_MAP_def)
    have a: "avail < 0 \<or> 1 \<le> avail" using av X by auto
    note dec = decode_coll_header [OF coll_enc_ok_tables(2) st ty len av, unfolded X append.simps]
    show "\<exists>x'. bsd_global env ctx x (coll_header len ty BS_GLOBAL_MAP @ rest) avail =
        Some (int (length (coll_header len ty BS_GLOBAL_MAP)), coll_frame len ty BS_GLOBAL_MAP ctx, x') \<and>
        event_of x' = Some (map_event len)"
      using a X(2,3) unfolding X(1) append.simps bsd_global_def octet_Cons
      by (simp add: global_skips dec coll_data_event)
  qed
qed

lemma listmap_collection:
  assumes st: "d_stacksize ctx \<noteq> STACK_SIZE - 1" and ty: "ty < BS_CTXID_LAST" and len: "len < 2 ^ 30"
  shows "decodes bsd_listmap ctx (coll_header len ty BS_LISTMAP_LIST) (list_event len)
       (coll_frame len ty BS_LISTMAP_LIST ctx)"
    "decodes bsd_listmap ctx (coll_header len ty BS_LISTMAP_MAP) (map_event len)
       (coll_frame len ty BS_LISTMAP_MAP ctx)"
proof -
  show "decodes bsd_listmap ctx (coll_header len ty BS_LISTMAP_LIST) (list_event len)
       (coll_frame len ty BS_LISTMAP_LIST ctx)"
  proof (rule decodesI)
    fix x rest avail
    assume av: "int (length (coll_header len ty BS_LISTMAP_LIST)) \<le> avail"
    obtain b bs where X: "coll_header len ty BS_LISTMAP_LIST = b # bs"
      using header_first [OF ty coll_enc_ok_tables(3), of len] by auto
    have a: "avail < 0 \<or> 1 \<le> avail" using av X by auto
    note dec = decode_coll_header [OF coll_enc_ok_tables(3) st ty len av, unfolded X append.simps]
    show "\<exists>x'. bsd_listmap ctx x (coll_header len ty BS_LISTMAP_LIST @ rest) avail =
        Some (int (length (coll_header len ty BS_LISTMAP_LIST)), coll_frame len ty BS_LISTMAP_LIST ctx, x') \<and>
        event_of x' = Some (list_event len)"
      using a unfolding X append.simps bsd_listmap_def octet_Cons
      by (simp add: CHECK_DECODE_def check_length_pass dec coll_data_event)
  qed
  show "decodes bsd_listmap ctx (coll_header len ty BS_LISTMAP_MAP) (map_event len)
       (coll_frame len ty BS_LISTMAP_MAP ctx)"
  proof (rule decodesI)
    fix x :: bsd_data_t and rest avail
    assume av: "int (length (coll_header len ty BS_LISTMAP_MAP)) \<le> avail" and x: "d_type x \<noteq> BSD_ERROR"
    obtain b bs where X: "coll_header len ty BS_LISTMAP_MAP = b # bs" "0x83 \<le> uint b"
      using header_first [OF ty coll_enc_ok_tables(4), of len] by (auto simp: BS_LISTMAP_MAP_def)
    have a: "avail < 0 \<or> 1 \<le> avail" using av X by auto
    have "decodeCollection ctx x (b # bs @ rest) avail BS_LISTMAP_LIST = Some (0, ctx, x)"
      using X(2) by (intro decodeCollection_skip [OF coll_enc_ok_tables(3) _ a]) (simp add: BS_LISTMAP_LIST_def)
    moreover note dec = decode_coll_header [OF coll_enc_ok_tables(4) st ty len av, unfolded X append.simps]
    ultimately show "\<exists>x'. bsd_listmap ctx x (coll_header len ty BS_LISTMAP_MAP @ rest) avail =
        Some (int (length (coll_header len ty BS_LISTMAP_MAP)), coll_frame len ty BS_LISTMAP_MAP ctx, x') \<and>
        event_of x' = Some (map_event len)"
      using a x unfolding X(1) append.simps bsd_listmap_def octet_Cons
      by (simp add: CHECK_DECODE_def check_length_pass dec coll_data_event)
  qed
qed

definition object_header :: "nat \<Rightarrow> bytes" where
  "object_header cid =
     (if cid < 0x10 then [u8 (0x60 + int cid)] else 0x70 # enc_uint (to_uint32 (int cid - 0x10)))"

definition object_frame :: "bs_class_t \<Rightarrow> bsd_ctx_t \<Rightarrow> bsd_ctx_t" where
  "object_frame cls ctx =
     (let ctx = opened BS_FOBJECT BS_CTXID_GLOBAL (nfields cls) ctx in
      ctx\<lparr>d_stack := (d_stack ctx)[d_stacksize ctx := (bsd_topframe ctx)\<lparr>content := C_object cls\<rparr>]\<rparr>)"

lemma bsd_object_ok:
  assumes "bs_classcoll_get (d_classcoll ctx) cid = Some (Some cls)" "0 \<le> nfields cls" "nfields cls < 2 ^ 30"
    and "d_stacksize ctx \<noteq> STACK_SIZE - 1"
  shows "bsd_object cid ctx x =
     Some (BSD_EOK, object_frame cls ctx, x\<lparr>d_type := BSD_OBJECT, d_content := D_class cls\<rparr>)"
  using openContainer_ok [OF assms(4), of "nfields cls"] assms
  by (simp add: bsd_object_def object_frame_def Let_def)

lemma global_object:
  assumes cls: "bs_classcoll_get (d_classcoll ctx) cid = Some (Some cls)" "0 \<le> nfields cls" "nfields cls < 2 ^ 30"
    and st: "d_stacksize ctx \<noteq> STACK_SIZE - 1" and cid: "cid < 2 ^ 32"
  shows "decodes (bsd_global env) ctx (object_header cid) (E_object cls) (object_frame cls ctx)"
proof (rule decodesI)
  fix x rest avail
  assume av: "int (length (object_header cid)) \<le> avail"
  have ev: "event_of (x\<lparr>d_type := BSD_OBJECT, d_content := D_class cls\<rparr>) = Some (E_object cls)" for x :: bsd_data_t
    by (simp add: event_of_def)
  show "\<exists>x'. bsd_global env ctx x (object_header cid @ rest) avail =
      Some (int (length (object_header cid)), object_frame cls ctx, x') \<and> event_of x' = Some (E_object cls)"
  proof (cases "cid < 0x10")
    case True
    let ?b = "u8 (0x60 + int cid)"
    have u: "uint ?b = 0x60 + int cid" using True by (intro uint_u8_id) auto
    have X: "object_header cid = [?b]" using True by (simp add: object_header_def)
    have a: "avail < 0 \<or> 1 \<le> avail" using av X by auto
    show ?thesis
      using a u True bsd_object_ok [OF cls st] unfolding X append.simps bsd_global_def octet_Cons
      by (simp add: global_skips ev Let_def)
  next
    case False
    let ?v = "int cid - 0x10"
    have v: "0 \<le> ?v" "?v < 2 ^ 32" "to_uint32 ?v = ?v" using False cid by (auto simp: to_uint32_def)
    have X: "object_header cid = 0x70 # enc_uint ?v" using False v(3) by (simp add: object_header_def)
    have a: "avail < 0 \<or> 1 \<le> avail" and cov: "covers (avail - 1) (enc_uint ?v)"
      using av X by (auto simp: covers_def)
    have id: "u32 (nat (?v + 0x10)) = cid" using False cid by simp
    show ?thesis
      using a decode_enc_uint [OF v(1,2) cov, of ctx _ rest] bsd_object_ok [OF cls st] id
      unfolding X append.simps bsd_global_def octet_Cons
      by (simp add: global_skips ev Let_def CHECK_SUBDECODE_def set_int_def get_int_def token_defs)
  qed
qed

text \<open>Chunked strings.\<close>

lemma chunked_opens:
  assumes "d_stacksize ctx \<noteq> STACK_SIZE - 1"
  shows "decodes (bsd_global env) ctx [0x29] E_chunked (opened BS_FCHUNKED BS_CTXID_CHUNKED (- 1) ctx)"
    "decodes bsd_uis ctx [0x3a] E_chunked (opened BS_FCHUNKED BS_CTXID_CHUNKED (- 1) ctx)"
proof -
  have ev: "event_of (x\<lparr>d_type := BSD_CHUNKED_STRING\<rparr>) = Some E_chunked" for x :: bsd_data_t
    by (simp add: event_of_def)
  note o = check_open [OF assms, of "- 1", simplified]
  show "decodes (bsd_global env) ctx [0x29] E_chunked (opened BS_FCHUNKED BS_CTXID_CHUNKED (- 1) ctx)"
    by (rule decodesI)
      (simp add: bsd_global_def global_int_skip CHECK_DECODE_def check_length_pass decodeString_def
        BS_GLOBAL_STRING_def o ev)
  show "decodes bsd_uis ctx [0x3a] E_chunked (opened BS_FCHUNKED BS_CTXID_CHUNKED (- 1) ctx)"
    by (rule decodesI)
      (simp add: bsd_uis_def CHECK_DECODE_def check_length_pass decodeString_def BS_UIS_STRING_def o ev)
qed

lemma chunk_reads:
  assumes "s \<noteq> []" "length s \<le> 0xffff"
  shows "decodes bsd_chunked ctx (enc_chunks s) (E_chunk s) ctx"
proof (rule decodesI)
  fix x rest avail
  let ?n = "int (length s)"
  have X: "enc_chunks s = u8 (?n div 256) # u8 ?n # s"
    using assms by (subst enc_chunks.simps) (simp add: be_bytes_2)
  assume av: "int (length (enc_chunks s)) \<le> avail"
  then have a: "avail < 0 \<or> 2 \<le> avail" "avail < 0 \<or> ?n + 2 \<le> avail" unfolding X by auto
  have "?n div 256 mod 256 = ?n div 256" using assms(2) by (intro mod_pos_pos_trivial) auto
  then have len: "push_bit 8 (uint (u8 (?n div 256))) + uint (u8 ?n) = ?n"
    unfolding uint_u8 push_bit_int using octets_value2 [of ?n] by simp
  have o: "octets (u8 (?n div 256) # u8 ?n # s @ rest) 2 (length s) k = k s" for k by (rule octets_Cons2) simp
  have "?n \<noteq> 0" using assms(1) by simp
  then show "\<exists>x'. bsd_chunked ctx x (enc_chunks s @ rest) avail = Some (int (length (enc_chunks s)), ctx, x') \<and>
      event_of x' = Some (E_chunk s)"
    unfolding X append.simps bsd_chunked_def check_length_pass [OF a(1)] octet_Cons octet_one Let_def len
    using o by (simp add: check_length_pass [OF a(2)] event_of_def)
qed

lemma chunk_closes:
  "decodes bsd_chunked ctx [0, 0] (E_close BSD_CHUNKED_STRING) (ctx\<lparr>d_stacksize := d_stacksize ctx - 1\<rparr>)"
  by (rule decodesI) (simp add: bsd_chunked_def check_length_pass push_bit_int)

end
