(* ===== verification/Bysant_Roundtrip.thy ===== *)
theory Bysant_Roundtrip
  imports Bysant_Codec
begin

text \<open>
  The end-to-end theorem of the Bysant library: a sequence of calls of the serializer, read
  back with the deserializer, gives the events of the calls in order. It rests on a lock-step
  simulation between the two stacks of open containers. A frame of the serializer counts a
  nested container when it is closed, the deserializer when it is opened, so the frames below
  the top are related one count apart.
\<close>

section \<open>Related contexts\<close>

definition wf_class :: "bs_class_t \<Rightarrow> bool" where
  "wf_class cls \<longleftrightarrow> nfields cls = int (length (class_fields cls)) \<and> nfields cls < 2 ^ 30 \<and>
     list_all (\<lambda>f. field_ctxid f < BS_CTXID_LAST) (class_fields cls)"

definition frame_rel :: "stackframe \<Rightarrow> stackframe \<Rightarrow> bool" where
  "frame_rel f g \<longleftrightarrow> kind g = kind f \<and>
     (case kind f of
        BS_FTOP \<Rightarrow> ctxid f = BS_CTXID_GLOBAL \<and> ctxid g = BS_CTXID_GLOBAL \<and> missing g < 0
      | BS_FLIST \<Rightarrow> missing g = missing f \<and> 0 \<le> missing f \<and>
          (missing f \<noteq> 0 \<longrightarrow> ctxid g = ctxid f \<and> ctxid f < BS_CTXID_LAST)
      | BS_FZLIST \<Rightarrow> missing g < 0 \<and> ctxid g = ctxid f \<and> ctxid f < BS_CTXID_LAST
      | BS_FMAP \<Rightarrow> missing g = missing f \<and> 0 \<le> missing f \<and> content g = content f \<and>
          (\<exists>e. content f = C_map e) \<and> (missing f \<noteq> 0 \<longrightarrow> ctxid g = ctxid f \<and> ctxid f < BS_CTXID_LAST)
      | BS_FZMAP \<Rightarrow> missing g < 0 \<and> content g = content f \<and> (\<exists>e. content f = C_map e) \<and>
          ctxid g = ctxid f \<and> ctxid f < BS_CTXID_LAST
      | BS_FOBJECT \<Rightarrow> missing g = missing f \<and> content g = content f \<and> ctxid f = BS_CTXID_OBJECT \<and>
          (\<exists>cls. content f = C_object cls \<and> wf_class cls \<and> 0 \<le> missing f \<and> missing f \<le> nfields cls)
      | BS_FCHUNKED \<Rightarrow> missing g < 0 \<and> ctxid f = BS_CTXID_CHUNKED \<and> ctxid g = BS_CTXID_CHUNKED
      | BS_FCLASSDEF \<Rightarrow> False)"

definition within :: "stackframe \<Rightarrow> bool" where
  "within f \<longleftrightarrow> (kind f = BS_FOBJECT \<longrightarrow> (\<forall>cls. content f = C_object cls \<longrightarrow> missing f \<le> nfields cls))"

definition codec_rel :: "'w bss_ctx_t \<Rightarrow> bsd_ctx_t \<Rightarrow> bool" where
  "codec_rel c d \<longleftrightarrow>
     stacksize c = d_stacksize d \<and> stacksize c < 16 \<and> length (stack c) = 16 \<and> length (d_stack d) = 16 \<and>
     d_classcoll d = classcoll c \<and>
     frame_rel (stack c ! stacksize c) (d_stack d ! stacksize c) \<and>
     (\<forall>i < stacksize c. countable_frame (stack c ! i) \<and> within (stack c ! i) \<and> frame_rel (counted (stack c ! i)) (d_stack d ! i))"

lemmas frame_kinds = bs_stackframekind_t.splits

lemma frame_rel_count:
  assumes "frame_rel f g" "countable_frame f"
  shows "\<exists>g'. count_read g = Some g' \<and> frame_rel (counted f) g'"
proof -
  from assms show ?thesis
    by (cases "kind f")
      (auto simp: frame_rel_def countable_frame_def count_read_def counted_def flipped_def fixed_frame_def Let_def
        split: stackframecontent.splits)
qed

lemma frame_rel_ctxid:
  assumes "frame_rel f g" "countable_frame f"
  shows "getctxid g = getctxid f" "\<exists>k. getctxid f = Some k" "missing g \<noteq> 0"
proof -
  note d = frame_rel_def countable_frame_def fixed_frame_def getctxid_def Let_def
  show "getctxid g = getctxid f"
    using assms by (cases "kind f") (auto simp: d)
  show "missing g \<noteq> 0"
    using assms by (cases "kind f") (auto simp: d)
  show "\<exists>k. getctxid f = Some k"
    using assms by (cases "kind f") (auto simp: d wf_class_def)
qed

text \<open>A counted frame can report the kind of the element it just received.\<close>

lemma frame_rel_kind:
  fixes x :: bsd_data_t
  assumes "frame_rel (counted f) g" "countable_frame f" "within f"
  shows "\<exists>x'. set_kind g x = Some x' \<and> event_of x' = event_of x"
proof -
  have ev: "event_of (x\<lparr>d_kind := k\<rparr>) = event_of x" "event_of (x\<lparr>d_kind := k, d_fieldname := n\<rparr>) = event_of x" for k n
    by (cases "d_type x"; simp add: event_of_def)+
  show ?thesis
  proof (cases "kind f = BS_FOBJECT")
    case True
    with assms obtain cls where "content g = C_object cls" "wf_class cls" "0 \<le> missing g" "missing g < nfields cls"
      "kind g = BS_FOBJECT"
      by (fastforce simp: frame_rel_def counted_def countable_frame_def fixed_frame_def within_def)
    then show ?thesis
      by (auto simp: set_kind_def bsd_getFrameDataKind_def wf_class_def Let_def ev)
  next
    case False
    with assms have "kind g = kind f" "kind f = BS_FMAP \<or> kind f = BS_FZMAP \<Longrightarrow> \<exists>e. content g = C_map e"
      "kind f \<noteq> BS_FCLASSDEF"
      by (cases "kind f"; auto simp: frame_rel_def counted_def countable_frame_def flipped_def
          split: stackframecontent.splits)+
    with False show ?thesis
      by (cases "kind f") (auto simp: set_kind_def bsd_getFrameDataKind_def ev)
  qed
qed

lemma frame_rel_within: "frame_rel f g \<Longrightarrow> within f"
  by (auto simp: frame_rel_def within_def)

section \<open>Reading one element\<close>

lemma event_types: "event_of x = Some ev \<Longrightarrow> d_type x \<noteq> BSD_ERROR \<and> d_type x \<noteq> BSD_CLASSDEF"
  by (auto simp: event_of_def)

lemma event_kind [simp]: "event_of (x\<lparr>d_kind := k\<rparr>) = event_of x"
  for x :: bsd_data_t
  by (cases "d_type x"; simp add: event_of_def)

definition keeps_event :: "stackframe \<Rightarrow> bool" where
  "keeps_event g \<longleftrightarrow> (\<forall>x. \<exists>x'. set_kind g x = Some x' \<and> event_of x' = event_of x)"

lemma keeps_eventI: "frame_rel (counted f) g \<Longrightarrow> countable_frame f \<Longrightarrow> within f \<Longrightarrow> keeps_event g"
  unfolding keeps_event_def using frame_rel_kind by blast

lemma read_step:
  fixes x :: bsd_data_t
  assumes m: "missing (bsd_topframe d) \<noteq> 0" and k: "getctxid (bsd_topframe d) = Some k"
    and dec: "decodes (decode_in env k) d X ev d1" and g: "count_read (d_stack d1 ! d_stacksize d) = Some g"
    and top: "d_stacksize d < d_stacksize d1 \<or> keeps_event ((d_stack d1)[d_stacksize d := g] ! d_stacksize d1)"
    and av: "int (length X) \<le> avail"
  shows "\<exists>x'. bsd_read env d x (X @ rest) avail =
      Some (int (length X), d1\<lparr>d_stack := (d_stack d1)[d_stacksize d := g], d_read := d_read d1 + length X\<rparr>, x') \<and>
    event_of x' = Some ev"
proof -
  let ?x = "x\<lparr>d_type := BSD_NULL\<rparr>" and ?d2 = "d1\<lparr>d_stack := (d_stack d1)[d_stacksize d := g]\<rparr>"
  from dec av obtain x1 where x1: "decode_in env k d ?x (X @ rest) avail = Some (int (length X), d1, x1)"
    "event_of x1 = Some ev" unfolding decodes_def by (metis bsd_data_t.select_convs(1) bsd_data_t.surjective
      bsd_data_t.update_convs(1) bsd_data_type_t.distinct(3))
  have eq: "bsd_read env d x (X @ rest) avail = finish_read (d_stacksize d) (int (length X)) ?d2 x1"
    using m k x1 g event_types [OF x1(2)] by (simp add: bsd_read_def Let_def)
  show ?thesis
  proof (cases "d_stacksize d < d_stacksize d1")
    case True
    with x1(2) show ?thesis unfolding eq finish_read_def by simp
  next
    case False
    with top obtain x2 where "set_kind (bsd_topframe ?d2) x1 = Some x2" "event_of x2 = event_of x1"
      by (auto simp: keeps_event_def bsd_topframe_def)
    with False x1(2) show ?thesis unfolding eq finish_read_def by simp
  qed
qed

section \<open>Values\<close>

text \<open>The values that can be read back, and what the reader reports for them.\<close>

definition token_ok :: "stackframe \<Rightarrow> token \<Rightarrow> bool" where
  "token_ok f t \<longleftrightarrow>
     (case t of
        T_int v \<Rightarrow> - (2 ^ 63) \<le> v \<and> v < 2 ^ 63 \<and>
          (getctxid f = Some BS_CTXID_UNSIGNED_OR_STRING \<longrightarrow> v < 2 ^ 32)
      | T_double x \<Rightarrow>
          (getctxid f = Some BS_CTXID_UNSIGNED_OR_STRING \<longrightarrow> (\<exists>v < 2 ^ 32. f64_to_i64 x = Some v))
      | T_string s \<Rightarrow> length s \<le> 66592
      | T_null \<Rightarrow> kind f \<noteq> BS_FCHUNKED
      | T_chunk s \<Rightarrow> length s \<le> 0xffff
      | T_bool _ \<Rightarrow> True
      | T_raw _ \<Rightarrow> False)"

definition double_event :: "nat \<Rightarrow> f64 \<Rightarrow> event" where
  "double_event c x =
     (if c = BS_CTXID_FLOAT then E_double (f32_to_f64 (f64_to_f32 x))
      else if c = BS_CTXID_DOUBLE then E_double x
      else case f64_to_i64 x of
             Some v \<Rightarrow> if f64_eq (i64_to_f64 v) x then E_int v
                       else if f64_eq (f32_to_f64 (f64_to_f32 x)) x then E_double (f32_to_f64 (f64_to_f32 x))
                       else E_double x
           | None \<Rightarrow> E_null)"

definition token_event :: "stackframe \<Rightarrow> token \<Rightarrow> event" where
  "token_event f t =
     (case t of
        T_int v \<Rightarrow> E_int v
      | T_bool b \<Rightarrow> E_bool b
      | T_double x \<Rightarrow> double_event (the (getctxid f)) x
      | T_string s \<Rightarrow> E_string s
      | T_null \<Rightarrow> E_null
      | T_chunk s \<Rightarrow> E_chunk s
      | T_raw s \<Rightarrow> E_null)"

lemmas decode_in_simps = decode_in_def ctxid_defs

lemma decode_in_eq:
  "decode_in env BS_CTXID_GLOBAL = bsd_global env" "decode_in env BS_CTXID_UNSIGNED_OR_STRING = bsd_uis"
  "decode_in env BS_CTXID_NUMBER = bsd_number env" "decode_in env BS_CTXID_INT32 = bsd_int32"
  "decode_in env BS_CTXID_FLOAT = bsd_float env" "decode_in env BS_CTXID_DOUBLE = bsd_double env"
  "decode_in env BS_CTXID_LIST_OR_MAP = bsd_listmap" "decode_in env BS_CTXID_CHUNKED = bsd_chunked"
  by (intro ext; simp add: decode_in_simps)+

lemma decode_int_in:
  assumes "le_env env" "enc_int_in k v = Some X" "- (2 ^ 63) \<le> v" "v < 2 ^ 63"
    and "k = BS_CTXID_UNSIGNED_OR_STRING \<longrightarrow> v < 2 ^ 32"
  shows "decodes (decode_in env k) d X (E_int v) d"
proof -
  consider "k = BS_CTXID_GLOBAL" "X = enc_int v BS_GLOBAL_INTEGER" | "k = BS_CTXID_NUMBER" "X = enc_int v BS_NUMBER_INTEGER"
    | "k = BS_CTXID_UNSIGNED_OR_STRING" "0 \<le> v" "X = enc_uint (v mod 2 ^ 32)"
    | "k = BS_CTXID_INT32" "signed_take_bit 31 v = v" "X = be_bytes 4 v @ (if v = - (2 ^ 31) then [1] else [])"
    using assms(2) by (auto simp: enc_int_in_def ctxid_defs split: if_splits)
  then show ?thesis
  proof cases
    case 1
    then show ?thesis unfolding 1 decode_in_eq using global_int [OF assms(1,3,4)] by simp
  next
    case 2
    then show ?thesis unfolding 2 decode_in_eq using number_int [OF assms(1,3,4)] by simp
  next
    case 3
    with assms(5) have "v mod 2 ^ 32 = v" "v < 2 ^ 32" by auto
    with 3 uis_uint show ?thesis unfolding 3 decode_in_eq by simp
  next
    case 4
    show ?thesis unfolding 4(1,3) decode_in_eq by (rule int32_value [OF 4(2)])
  qed
qed

lemma f64_to_i64_range: "f64_to_i64 x = Some v \<Longrightarrow> - (2 ^ 63) \<le> v \<and> v < 2 ^ 63"
  by (auto simp: f64_to_i64_def Let_def split: if_splits)

lemma decode_double_in:
  assumes le: "le_env env" and X: "enc_double_in TLITTLE_ENDIAN k x = Some X"
    and uis: "k = BS_CTXID_UNSIGNED_OR_STRING \<longrightarrow> (\<exists>v < 2 ^ 32. f64_to_i64 x = Some v)"
  shows "decodes (decode_in env k) d X (double_event k x) d"
proof -
  consider (f) "k = BS_CTXID_FLOAT" "X = enc_f32 TLITTLE_ENDIAN (f64_to_f32 x) @ (if f64_to_f32 x = 0xFFFFFFFF then [1] else [])"
    | (d) "k = BS_CTXID_DOUBLE" "X = enc_f64 TLITTLE_ENDIAN x @ (if x = 0xFFFFFFFFFFFFFFFF then [1] else [])"
    | (i) v where "k \<noteq> BS_CTXID_FLOAT" "k \<noteq> BS_CTXID_DOUBLE" "f64_to_i64 x = Some v" "f64_eq (i64_to_f64 v) x"
        "enc_int_in k v = Some X"
    | (g) v where "k = BS_CTXID_GLOBAL" "f64_to_i64 x = Some v" "\<not> f64_eq (i64_to_f64 v) x"
        "X = enc_float TLITTLE_ENDIAN x GLOBAL_FLOAT_OPCODES"
    | (n) v where "k = BS_CTXID_NUMBER" "f64_to_i64 x = Some v" "\<not> f64_eq (i64_to_f64 v) x"
        "X = enc_float TLITTLE_ENDIAN x NUMBER_FLOAT_OPCODES"
    using X by (auto simp: enc_double_in_def ctxid_defs split: if_splits option.splits)
  then show ?thesis
  proof cases
    case f
    have "double_event k x = E_double (f32_to_f64 (f64_to_f32 x))" using f by (simp add: double_event_def)
    then show ?thesis unfolding f decode_in_eq by (simp only: float_value [OF le])
  next
    case d
    have "double_event k x = E_double x" using d by (simp add: double_event_def ctxid_defs)
    then show ?thesis unfolding d decode_in_eq by (simp only: double_value [OF le])
  next
    case i
    have "double_event k x = E_int v" using i by (simp add: double_event_def)
    moreover from uis i(3) have "k = BS_CTXID_UNSIGNED_OR_STRING \<longrightarrow> v < 2 ^ 32" by auto
    ultimately show ?thesis using decode_int_in [OF le i(5)] f64_to_i64_range [OF i(3)] by simp
  next
    case g
    then have "double_event k x = (if f64_eq (f32_to_f64 (f64_to_f32 x)) x
        then E_double (f32_to_f64 (f64_to_f32 x)) else E_double x)"
      by (auto simp: double_event_def ctxid_defs)
    then show ?thesis unfolding g(1,4) decode_in_eq using global_f32 [OF le] global_f64 [OF le]
      by (auto simp: enc_float_def GLOBAL_FLOAT_OPCODES_def)
  next
    case n
    then have "double_event k x = (if f64_eq (f32_to_f64 (f64_to_f32 x)) x
        then E_double (f32_to_f64 (f64_to_f32 x)) else E_double x)"
      by (auto simp: double_event_def ctxid_defs)
    then show ?thesis unfolding n(1,4) decode_in_eq using number_f32 [OF le] number_f64 [OF le]
      by (auto simp: enc_float_def NUMBER_FLOAT_OPCODES_def)
  qed
qed

text \<open>The null token of every context, as a value or as the end of an unsized container.\<close>

lemma decode_null_in:
  assumes "le_env env" "k < BS_CTXID_LAST" "null_event d ev d'"
  shows "decodes (decode_in env k) d (getNullToken k) ev d'"
proof -
  note [simp] = decode_in_eq
  have "k \<in> {BS_CTXID_GLOBAL, BS_CTXID_UNSIGNED_OR_STRING, BS_CTXID_NUMBER, BS_CTXID_INT32, BS_CTXID_FLOAT,
      BS_CTXID_DOUBLE, BS_CTXID_LIST_OR_MAP}"
    using assms(2) by (auto simp: ctxid_defs)
  moreover have tok: "getNullToken BS_CTXID_GLOBAL = [0]" "getNullToken BS_CTXID_UNSIGNED_OR_STRING = [0]"
    "getNullToken BS_CTXID_NUMBER = [0]" "getNullToken BS_CTXID_LIST_OR_MAP = [0]"
    "getNullToken BS_CTXID_INT32 = [0x80, 0, 0, 0, 0]" "getNullToken BS_CTXID_FLOAT = [0xff, 0xff, 0xff, 0xff, 0]"
    "getNullToken BS_CTXID_DOUBLE = [0xff, 0xff, 0xff, 0xff, 0xff, 0xff, 0xff, 0xff, 0]"
    by (simp_all add: getNullToken_def ctxid_defs)
  moreover note n = global_null [OF assms(3)] uis_null [OF assms(3)] number_null [OF assms(3)]
    int32_null [OF assms(3)] float_null [OF assms(1,3)] double_null [OF assms(1,3)] listmap_null [OF assms(3)]
  ultimately show ?thesis by (auto simp only: decode_in_eq insert_iff empty_iff)
qed

lemma null_value_event:
  assumes "frame_rel f (bsd_topframe d)" "null_allowed f" "kind f \<noteq> BS_FCLASSDEF"
  shows "null_event d E_null d"
  using assms
  by (cases "kind f")
    (auto simp: null_event_def decodeNull_def Let_def frame_rel_def null_allowed_def)

lemma frame_ctxid_bound:
  assumes "frame_rel f g" "countable_frame f" "getctxid f = Some k" "kind f \<noteq> BS_FCHUNKED"
  shows "k < BS_CTXID_LAST"
proof (cases "kind f = BS_FOBJECT")
  case True
  with assms obtain cls where c: "content f = C_object cls" "wf_class cls" "0 < missing f" "missing f \<le> nfields cls"
    by (auto simp: frame_rel_def countable_frame_def fixed_frame_def)
  let ?i = "nat (nfields cls - missing f)"
  from c True assms(3) have "k = field_ctxid (class_fields cls ! ?i)" "?i < length (class_fields cls)"
    by (auto simp: getctxid_def Let_def wf_class_def split: if_splits)
  with c(2) show ?thesis by (simp add: wf_class_def list_all_length)
next
  case False
  with assms show ?thesis
    by (cases "kind f")
      (auto simp: frame_rel_def getctxid_def ctxid_defs countable_frame_def fixed_frame_def split: if_splits)
qed

lemma decode_token:
  assumes le: "le_env env" and X: "enc_token TLITTLE_ENDIAN f t = Some X" and ok: "token_ok f t"
    and r: "frame_rel f (bsd_topframe d)" "countable_frame f" and k: "getctxid f = Some k"
  shows "decodes (decode_in env k) d X (token_event f t) d"
proof -
  note d = enc_token_def k token_ok_def token_event_def
  show ?thesis
  proof (cases t)
    case (T_int v)
    with decode_int_in [OF le] X ok show ?thesis by (simp add: d)
  next
    case (T_double x)
    with decode_double_in [OF le] X ok show ?thesis by (simp add: d)
  next
    case (T_bool b)
    with X have "k = BS_CTXID_GLOBAL" "X = [if b then 1 else 2]" by (auto simp: d split: if_splits)
    with T_bool global_bool show ?thesis by (simp add: d decode_in_eq)
  next
    case (T_string s)
    with X have "k = BS_CTXID_GLOBAL \<and> X = enc_string s BS_GLOBAL_STRING \<or>
        k = BS_CTXID_UNSIGNED_OR_STRING \<and> X = enc_string s BS_UIS_STRING"
      by (auto simp: d enc_string_in_def split: if_splits)
    with T_string ok global_string [of s] uis_string [of s] show ?thesis
      by (auto simp: d decode_in_eq)
  next
    case T_null
    with X ok have n: "null_allowed f" "X = getNullToken k" "kind f \<noteq> BS_FCHUNKED"
      by (auto simp: d split: if_splits)
    have "null_event d E_null d"
      using null_value_event r n by (auto simp: countable_frame_def)
    with decode_null_in [OF le frame_ctxid_bound [OF r k n(3)]] T_null n show ?thesis by (simp add: d)
  next
    case (T_chunk s)
    with X have c: "ctxid f = BS_CTXID_CHUNKED" "s \<noteq> []" "X = enc_chunks s" by (auto simp: d split: if_splits)
    with r have "kind f = BS_FCHUNKED"
      by (cases "kind f") (auto simp: frame_rel_def ctxid_defs countable_frame_def fixed_frame_def)
    with c k have "k = BS_CTXID_CHUNKED" by (simp add: getctxid_def)
    with c T_chunk ok chunk_reads show ?thesis by (simp add: d decode_in_eq)
  qed (use ok in \<open>simp add: d\<close>)
qed

section \<open>Calls\<close>

datatype call = Call_value token | Call_list int nat | Call_map int nat | Call_object nat | Call_chunked | Call_close

definition bss_call :: "EEndian \<Rightarrow> call \<Rightarrow> 'w ser_op" where
  "bss_call h cl =
     (case cl of
        Call_value t \<Rightarrow> bss_token h t
      | Call_list len ty \<Rightarrow> bss_list len ty
      | Call_map len ty \<Rightarrow> bss_map len ty
      | Call_object cid \<Rightarrow> bss_object cid
      | Call_chunked \<Rightarrow> bss_chunked
      | Call_close \<Rightarrow> bss_close)"

text \<open>
  The calls that fit the state of the serializer: the value is admitted by the current frame,
  a container fits on the stack, a container is closed when it is complete.
\<close>

definition call_ok :: "'w bss_ctx_t \<Rightarrow> call \<Rightarrow> bool" where
  "call_ok c cl \<longleftrightarrow>
     (let f = topframe c; room = (stacksize c < 15) in
      case cl of
        Call_value t \<Rightarrow> countable_frame f \<and> enc_token TLITTLE_ENDIAN f t \<noteq> None \<and> token_ok f t
      | Call_list len ty \<Rightarrow> countable_frame f \<and> room \<and> len < 2 ^ 30 \<and> ty < BS_CTXID_LAST \<and>
          (getctxid f = Some BS_CTXID_GLOBAL \<or> getctxid f = Some BS_CTXID_LIST_OR_MAP)
      | Call_map len ty \<Rightarrow> countable_frame f \<and> room \<and> len < 2 ^ 30 \<and> ty < BS_CTXID_LAST \<and>
          (getctxid f = Some BS_CTXID_GLOBAL \<or> getctxid f = Some BS_CTXID_LIST_OR_MAP)
      | Call_object cid \<Rightarrow> countable_frame f \<and> room \<and> getctxid f = Some BS_CTXID_GLOBAL \<and> cid < 2 ^ 32 \<and>
          (case bs_classcoll_get (classcoll c) cid of Some (Some cls) \<Rightarrow> wf_class cls | _ \<Rightarrow> False)
      | Call_chunked \<Rightarrow> countable_frame f \<and> room \<and>
          (getctxid f = Some BS_CTXID_GLOBAL \<or> getctxid f = Some BS_CTXID_UNSIGNED_OR_STRING)
      | Call_close \<Rightarrow> 0 < stacksize c \<and> closing_token f \<noteq> None)"

definition call_event :: "'w bss_ctx_t \<Rightarrow> call \<Rightarrow> event" where
  "call_event c cl =
     (case cl of
        Call_value t \<Rightarrow> token_event (topframe c) t
      | Call_list len ty \<Rightarrow> list_event len
      | Call_map len ty \<Rightarrow> map_event len
      | Call_object cid \<Rightarrow> E_object (the (the (bs_classcoll_get (classcoll c) cid)))
      | Call_chunked \<Rightarrow> E_chunked
      | Call_close \<Rightarrow> E_close (bsd_typeFromFrameKind (kind (topframe c))))"

section \<open>Simulation\<close>

definition reads_back :: "bsd_env \<Rightarrow> bsd_ctx_t \<Rightarrow> bytes \<Rightarrow> event \<Rightarrow> bsd_ctx_t \<Rightarrow> bool" where
  "reads_back env d X ev d' \<longleftrightarrow>
     (\<forall>x rest avail. int (length X) \<le> avail \<longrightarrow>
        (\<exists>x'. bsd_read env d x (X @ rest) avail = Some (int (length X), d', x') \<and> event_of x' = Some ev))"

definition matched :: "'w bss_ctx_t \<Rightarrow> stackframe list \<Rightarrow> nat \<Rightarrow> bsd_ctx_t \<Rightarrow> bool" where
  "matched c st n d' \<longleftrightarrow> (\<forall>c'. stack c' = st \<longrightarrow> stacksize c' = n \<longrightarrow> classcoll c' = classcoll c \<longrightarrow> codec_rel (c' :: 'w bss_ctx_t) d')"

lemma codec_top:
  assumes "codec_rel c d"
  shows "frame_rel (topframe c) (bsd_topframe d)" "d_stacksize d = stacksize c"
    "bsd_topframe d = d_stack d ! stacksize c" "topframe c = stack c ! stacksize c"
    "length (stack c) = 16" "length (d_stack d) = 16" "stacksize c < 16"
  using assms by (auto simp: codec_rel_def topframe_def bsd_topframe_def)

text \<open>A value: both top frames count it.\<close>

lemma codec_value:
  assumes r: "codec_rel c d" and F: "countable_frame (topframe c)" and k: "getctxid (topframe c) = Some k"
    and dec: "decodes (decode_in env k) d X ev d"
  shows "\<exists>d'. reads_back env d X ev d' \<and> matched c ((stack c)[stacksize c := counted (topframe c)]) (stacksize c) d'"
proof -
  note t = codec_top [OF r]
  let ?n = "stacksize c"
  obtain g where g: "count_read (bsd_topframe d) = Some g" "frame_rel (counted (topframe c)) g"
    using frame_rel_count [OF t(1) F] by blast
  have k': "missing (bsd_topframe d) \<noteq> 0" "getctxid (bsd_topframe d) = Some k"
    using frame_rel_ctxid [OF t(1) F] k by simp_all
  let ?d = "d\<lparr>d_stack := (d_stack d)[?n := g], d_read := d_read d + length X\<rparr>"
  have "reads_back env d X ev ?d"
    unfolding reads_back_def
  proof (intro allI impI)
    fix x rest avail assume av: "int (length X) \<le> avail"
    have "count_read (d_stack d ! d_stacksize d) = Some g" using g(1) by (simp add: bsd_topframe_def)
    moreover have "keeps_event ((d_stack d)[d_stacksize d := g] ! d_stacksize d)"
      using keeps_eventI [OF g(2) F frame_rel_within [OF t(1)]] t by simp
    ultimately show "\<exists>x'. bsd_read env d x (X @ rest) avail = Some (int (length X), ?d, x') \<and> event_of x' = Some ev"
      using read_step [OF k' dec _ _ av, of g x rest] t(2) by simp
  qed
  moreover have "matched c ((stack c)[?n := counted (topframe c)]) ?n ?d"
    using r g t unfolding matched_def codec_rel_def by (auto simp: nth_list_update)
  ultimately show ?thesis by blast
qed

text \<open>An opened container: the reader counts it at once, the writer when it is closed.\<close>

lemma codec_open:
  assumes r: "codec_rel c d" and F: "countable_frame (topframe c)" and k: "getctxid (topframe c) = Some k"
    and dec: "decodes (decode_in env k) d X ev d1" and n: "stacksize c < 15"
    and d1: "d_stack d1 = (d_stack d)[Suc (stacksize c) := g1]" "d_stacksize d1 = Suc (stacksize c)"
      "d_classcoll d1 = d_classcoll d" and f1: "frame_rel f1 g1"
  shows "\<exists>d'. reads_back env d X ev d' \<and> matched c ((stack c)[Suc (stacksize c) := f1]) (Suc (stacksize c)) d'"
proof -
  note t = codec_top [OF r]
  let ?n = "stacksize c"
  obtain g where g: "count_read (bsd_topframe d) = Some g" "frame_rel (counted (topframe c)) g"
    using frame_rel_count [OF t(1) F] by blast
  have k': "missing (bsd_topframe d) \<noteq> 0" "getctxid (bsd_topframe d) = Some k"
    using frame_rel_ctxid [OF t(1) F] k by simp_all
  let ?d = "d1\<lparr>d_stack := (d_stack d1)[?n := g], d_read := d_read d1 + length X\<rparr>"
  have "reads_back env d X ev ?d"
    unfolding reads_back_def
  proof (intro allI impI)
    fix x rest avail assume av: "int (length X) \<le> avail"
    have "count_read (d_stack d1 ! d_stacksize d) = Some g" using g(1) t d1 by (simp add: bsd_topframe_def)
    moreover have "d_stacksize d < d_stacksize d1" using t d1 by simp
    ultimately show "\<exists>x'. bsd_read env d x (X @ rest) avail = Some (int (length X), ?d, x') \<and> event_of x' = Some ev"
      using read_step [OF k' dec _ _ av, of g x rest] t(2) by simp
  qed
  moreover have "matched c ((stack c)[Suc ?n := f1]) (Suc ?n) ?d"
    using r g t n d1 f1 F frame_rel_within [OF t(1)] unfolding matched_def codec_rel_def
    by (auto simp: nth_list_update less_Suc_eq)
  ultimately show ?thesis by blast
qed

text \<open>A closed container: the reader pops its frame, at a token or without one.\<close>

lemma closing_null_event:
  assumes "frame_rel f (bsd_topframe d)" "kind f = BS_FZLIST \<or> kind f = BS_FZMAP \<and> content f \<noteq> C_map 0"
  shows "null_event d (E_close (bsd_typeFromFrameKind (kind f))) (d\<lparr>d_stacksize := d_stacksize d - 1\<rparr>)"
  using assms by (auto simp: null_event_def decodeNull_def Let_def frame_rel_def)

lemma unsized_close:
  assumes le: "le_env env" and r: "frame_rel f (bsd_topframe d)" and X: "closing_token f = Some X"
    and u: "\<not> fixed_frame (kind f)"
  obtains k where "getctxid (bsd_topframe d) = Some k" "missing (bsd_topframe d) \<noteq> 0"
    "decodes (decode_in env k) d X (E_close (bsd_typeFromFrameKind (kind f))) (d\<lparr>d_stacksize := d_stacksize d - 1\<rparr>)"
    "\<exists>g. count_read (bsd_topframe d) = Some g"
proof -
  have F: "countable_frame f"
    using r X u by (cases "kind f") (auto simp: countable_frame_def frame_rel_def closing_token_def)
  have g: "\<exists>g. count_read (bsd_topframe d) = Some g" using frame_rel_count [OF r F] by blast
  obtain k where k: "getctxid f = Some k" using frame_rel_ctxid(2) [OF r F] by blast
  note k' = frame_rel_ctxid(1,3) [OF r F, unfolded k]
  consider "kind f = BS_FZMAP" "content f \<noteq> C_map 0" "X = [0]" | "kind f = BS_FZLIST" "X = getNullToken (ctxid f)"
    | "kind f = BS_FCHUNKED" "X = [0, 0]"
    using X u by (cases "kind f") (auto simp: closing_token_def fixed_frame_def split: if_splits)
  then have "decodes (decode_in env k) d X (E_close (bsd_typeFromFrameKind (kind f))) (d\<lparr>d_stacksize := d_stacksize d - 1\<rparr>)"
  proof cases
    case 1
    with r obtain e where "content f = C_map e" "e \<noteq> 0" by (auto simp: frame_rel_def)
    with 1 k have "k = BS_CTXID_UNSIGNED_OR_STRING" by (simp add: getctxid_def)
    moreover from this have "X = getNullToken k" using 1 by (simp add: getNullToken_def ctxid_defs)
    moreover from this 1 have "null_event d (E_close (bsd_typeFromFrameKind (kind f))) (d\<lparr>d_stacksize := d_stacksize d - 1\<rparr>)"
      by (intro closing_null_event [OF r]) simp
    ultimately show ?thesis
      using decode_null_in [OF le] by (simp add: ctxid_defs)
  next
    case 2
    with k have "ctxid f = k" by (simp add: getctxid_def)
    with 2 show ?thesis
      using frame_ctxid_bound [OF r F k] decode_null_in [OF le _ closing_null_event [OF r]] by simp
  next
    case 3
    with k r have "k = BS_CTXID_CHUNKED" by (simp add: getctxid_def frame_rel_def)
    with 3 chunk_closes [of d] show ?thesis by (simp add: decode_in_eq bsd_typeFromFrameKind_def)
  qed
  with that k' g show ?thesis by blast
qed

lemma codec_close:
  assumes le: "le_env env" and r: "codec_rel c d" and n: "stacksize c = Suc n"
    and X: "closing_token (topframe c) = Some X"
  shows "\<exists>d'. reads_back env d X (E_close (bsd_typeFromFrameKind (kind (topframe c)))) d' \<and>
    matched c ((stack c)[n := counted (stack c ! n)]) n d'"
proof -
  note t = codec_top [OF r]
  let ?ev = "E_close (bsd_typeFromFrameKind (kind (topframe c)))"
  have b: "countable_frame (stack c ! n)" "within (stack c ! n)" "frame_rel (counted (stack c ! n)) (d_stack d ! n)"
    using r n by (auto simp: codec_rel_def)
  have keep: "keeps_event (d_stack d ! n)" by (rule keeps_eventI [OF b(3,1,2)])
  have m: "matched c ((stack c)[n := counted (stack c ! n)]) n d'"
    if "d_stack d' = d_stack d \<or> d_stack d' = (d_stack d)[Suc n := g]" "d_stacksize d' = n" "d_classcoll d' = d_classcoll d"
    for d' g
    using that r b n unfolding matched_def codec_rel_def by (auto simp: nth_list_update)
  show ?thesis
  proof (cases "fixed_frame (kind (topframe c))")
    case True
    with X have X0: "X = []" "missing (topframe c) = 0"
      by (auto simp: closing_token_def fixed_frame_def split: bs_stackframekind_t.splits if_splits)
    with True t(1) have m0: "missing (bsd_topframe d) = 0" "kind (bsd_topframe d) = kind (topframe c)"
      by (auto simp: frame_rel_def fixed_frame_def)
    have "reads_back env d X ?ev (d\<lparr>d_stacksize := n\<rparr>)"
      unfolding reads_back_def X0(1)
    proof (intro allI impI)
      fix x rest avail
      obtain x' where "set_kind (d_stack d ! n) (x\<lparr>d_type := BSD_CLOSE,
          d_content := D_cont_type (bsd_typeFromFrameKind (kind (topframe c)))\<rparr>) = Some x'" "event_of x' = Some ?ev"
        using keep unfolding keeps_event_def by (metis event_retype(4))
      with m0 t(2) n show "\<exists>x'. bsd_read env d x ([] @ rest) avail = Some (int (length []), d\<lparr>d_stacksize := n\<rparr>, x') \<and>
          event_of x' = Some ?ev"
        by (simp add: bsd_read_def Let_def bsd_topframe_def)
    qed
    with m [of "d\<lparr>d_stacksize := n\<rparr>"] show ?thesis by auto
  next
    case False
    from unsized_close [OF le t(1) X False] obtain k g where
      u: "getctxid (bsd_topframe d) = Some k" "missing (bsd_topframe d) \<noteq> 0"
        "decodes (decode_in env k) d X ?ev (d\<lparr>d_stacksize := d_stacksize d - 1\<rparr>)" "count_read (bsd_topframe d) = Some g"
      by metis
    let ?d = "d\<lparr>d_stacksize := n, d_stack := (d_stack d)[Suc n := g], d_read := d_read d + length X\<rparr>"
    have "reads_back env d X ?ev ?d"
      unfolding reads_back_def
    proof (intro allI impI)
      fix x rest avail assume av: "int (length X) \<le> avail"
      show "\<exists>x'. bsd_read env d x (X @ rest) avail = Some (int (length X), ?d, x') \<and> event_of x' = Some ?ev"
        using read_step [OF u(2,1,3) _ _ av, of g x rest] u(4) keep t(2) n by (simp add: bsd_topframe_def)
    qed
    with m [of ?d] show ?thesis by auto
  qed
qed

context stream_writer
begin

lemma bss_chunked_opens:
  assumes w: "writer c = wr" and i: "idle out base c" and F: "countable_frame (topframe c)"
    and k: "getctxid (topframe c) = Some BS_CTXID_GLOBAL \<and> p = 0x29 \<or>
            getctxid (topframe c) = Some BS_CTXID_UNSIGNED_OR_STRING \<and> p = 0x3a"
    and n: "stacksize c < 15" "length (stack c) = 16"
  shows "moves_to wr out base [u8 p] (Suc (stacksize c))
     ((stack c)[Suc (stacksize c) := (stack c ! Suc (stacksize c))\<lparr>kind := BS_FCHUNKED, ctxid := BS_CTXID_CHUNKED\<rparr>]) c
     (bss_chunked c)"
proof -
  let ?n = "Suc (stacksize c)"
  let ?f1 = "(stack c ! ?n)\<lparr>kind := BS_FCHUNKED, ctxid := BS_CTXID_CHUNKED\<rparr>"
  have eq: "bss_chunked c =
      START_TRANSACTION (TRYC (openContainer BS_FCHUNKED BS_CTXID_CHUNKED p) (\<lambda>c. COMMIT_AND_RETURN c)) c"
    using k by (auto simp: bss_chunked_def with_ctxid_def Let_def ctxid_defs BS_GLOBAL_STRING_def BS_UIS_STRING_def)
  show ?thesis
    unfolding eq
  proof (rule moves_toI [OF w emits_writeByte i])
    show "fixed_frame (kind (topframe c)) \<longrightarrow> missing (topframe c) \<noteq> 0"
      using F by (simp add: countable_frame_def)
    show "openContainer BS_FCHUNKED BS_CTXID_CHUNKED p c0 =
        writeByte p (c0\<lparr>stacksize := ?n, stack := (stack c)[?n := ?f1]\<rparr>)"
      if "stack c0 = stack c" "stacksize c0 = stacksize c" for c0
      using that n k by (auto simp: openContainer_def push_frame_stack STACK_SIZE_def Let_def)
    show "c1 = c1\<lparr>stacksize := ?n, stack := (stack c)[?n := ?f1]\<rparr>"
      if "stack c1 = (stack c)[?n := ?f1]" "stacksize c1 = ?n" for c1 :: "'w bss_ctx_t"
      unfolding that(1) [symmetric] unfolding that(2) [symmetric] by simp
    show "countable_frame ((stack c)[?n := ?f1] ! ?n)"
      using n by (auto simp: countable_frame_def fixed_frame_def)
    show "(stack c)[?n := ?f1] = ((stack c)[?n := ?f1])[?n := counted ((stack c)[?n := ?f1] ! ?n)]"
      using n by (auto simp: counted_def)
  qed
qed

end

lemma opened_fields:
  "d_stacksize (opened k ty m d) = Suc (d_stacksize d)" "d_classcoll (opened k ty m d) = d_classcoll d"
  "d_stack (opened k ty m d) = (d_stack d)[Suc (d_stacksize d) :=
     (let f = (d_stack d ! Suc (d_stacksize d))\<lparr>kind := k, ctxid := ty, missing := m\<rparr> in
      if k = BS_FMAP \<or> k = BS_FZMAP then f\<lparr>missing := m * 2, content := C_map 1\<rparr> else f)]"
  by (simp_all add: opened_def Let_def)

text \<open>The first frames of the two sides of a new container are related.\<close>

lemma list_frames_rel:
  assumes "enc = BS_GLOBAL_LIST \<or> enc = BS_LISTMAP_LIST" "ty < BS_CTXID_LAST"
  shows "frame_rel (list_frame len ty enc f)
     (g\<lparr>kind := coll_kind len enc, ctxid := if len = 0 then BS_CTXID_GLOBAL else ty, missing := max len (- 1)\<rparr>)"
  using assms(2) by (auto simp: frame_rel_def list_frame_def coll_kind_cases [OF assms(1)] Let_def)

lemma map_frames_rel:
  assumes "enc = BS_GLOBAL_MAP \<or> enc = BS_LISTMAP_MAP" "ty < BS_CTXID_LAST"
  shows "frame_rel (map_frame len ty enc f)
     (g\<lparr>kind := coll_kind len enc, ctxid := if len = 0 then BS_CTXID_GLOBAL else ty, missing := max len (- 1) * 2,
        content := C_map 1\<rparr>)"
  using assms(2) by (auto simp: frame_rel_def map_frame_def coll_kind_map_cases [OF assms(1)] Let_def)

lemma object_frames_rel:
  assumes "wf_class cls"
  shows "frame_rel \<lparr>kind = BS_FOBJECT, ctxid = BS_CTXID_OBJECT, missing = nfields cls, content = C_object cls\<rparr>
     (g\<lparr>kind := BS_FOBJECT, ctxid := ty, missing := nfields cls, content := C_object cls\<rparr>)"
  using assms by (auto simp: frame_rel_def wf_class_def)

lemma chunked_frames_rel:
  "frame_rel (f\<lparr>kind := BS_FCHUNKED, ctxid := BS_CTXID_CHUNKED\<rparr>)
     (g\<lparr>kind := BS_FCHUNKED, ctxid := BS_CTXID_CHUNKED, missing := - 1\<rparr>)"
  by (simp add: frame_rel_def)

text \<open>
  A call is read back: it succeeds, the octets it adds to the stream are read as the event
  \<open>ev\<close>, and both sides are related again. \<open>st\<close> is the stack of the serializer behind the call and
  \<open>n\<close> its height.
\<close>

definition step_moved ::
  "(bytes \<Rightarrow> 'w \<Rightarrow> int \<times> 'w) \<Rightarrow> ('w \<Rightarrow> bytes option) \<Rightarrow> bytes \<Rightarrow> bsd_env \<Rightarrow> 'w bss_ctx_t \<Rightarrow> bsd_ctx_t \<Rightarrow> event \<Rightarrow>
   nat \<Rightarrow> stackframe list \<Rightarrow> (int \<times> 'w bss_ctx_t) option \<Rightarrow> bool" where
  "step_moved wr out base env c d ev n st res \<longleftrightarrow>
     (\<exists>X c' d'. res = Some (BSS_EOK, c') \<and> idle out (base @ X) c' \<and> writer c' = wr \<and>
        reads_back env d X ev d' \<and> codec_rel c' d' \<and>
        stack c' = st \<and> stacksize c' = n \<and> classcoll c' = classcoll c)"

lemma step_movedI:
  assumes "moves_to wr out base X n st c res" "accepting wr" "\<exists>d'. reads_back env d X ev d' \<and> matched c st n d'"
  shows "step_moved wr out base env c d ev n st res"
proof -
  have "\<not> BSS_EOK < 0" by (simp add: bss_status_defs)
  with assms(1,2) obtain c' where "res = Some (BSS_EOK, c')" "idle out (base @ X) c'"
    "stack c' = st" "stacksize c' = n" "writer c' = wr" "classcoll c' = classcoll c"
    unfolding moves_to_def txn_result_def by auto
  with assms(3) show ?thesis unfolding step_moved_def matched_def by blast
qed

text \<open>The stack behind a call.\<close>

definition call_stack :: "'w bss_ctx_t \<Rightarrow> call \<Rightarrow> nat \<times> stackframe list" where
  "call_stack c cl =
     (let n = stacksize c; f = stack c ! Suc n; k = the (getctxid (topframe c)) in
      case cl of
        Call_value t \<Rightarrow> (n, (stack c)[n := counted (topframe c)])
      | Call_list len ty \<Rightarrow> (Suc n, (stack c)[Suc n := list_frame len ty (the (list_enc_for k)) f])
      | Call_map len ty \<Rightarrow> (Suc n, (stack c)[Suc n := map_frame len ty (the (map_enc_for k)) f])
      | Call_object cid \<Rightarrow>
          (let cls = the (the (bs_classcoll_get (classcoll c) cid)) in
           (Suc n, (stack c)[Suc n := \<lparr>kind = BS_FOBJECT, ctxid = BS_CTXID_OBJECT, missing = nfields cls, content = C_object cls\<rparr>]))
      | Call_chunked \<Rightarrow> (Suc n, (stack c)[Suc n := f\<lparr>kind := BS_FCHUNKED, ctxid := BS_CTXID_CHUNKED\<rparr>])
      | Call_close \<Rightarrow> (n - 1, (stack c)[n - 1 := counted (stack c ! (n - 1))]))"

definition step_matched ::
  "(bytes \<Rightarrow> 'w \<Rightarrow> int \<times> 'w) \<Rightarrow> ('w \<Rightarrow> bytes option) \<Rightarrow> bytes \<Rightarrow> bsd_env \<Rightarrow> 'w bss_ctx_t \<Rightarrow> bsd_ctx_t \<Rightarrow> call \<Rightarrow> bool" where
  "step_matched wr out base env c d cl =
     step_moved wr out base env c d (call_event c cl) (fst (call_stack c cl)) (snd (call_stack c cl)) (bss_call TLITTLE_ENDIAN cl c)"

lemma step_matchedI:
  assumes "moves_to wr out base X n st c (bss_call TLITTLE_ENDIAN cl c)" "accepting wr"
    and "\<exists>d'. reads_back env d X (call_event c cl) d' \<and> matched c st n d'" "call_stack c cl = (n, st)"
  shows "step_matched wr out base env c d cl"
  unfolding step_matched_def using step_movedI [OF assms(1-3)] assms(4) by simp

context stream_writer
begin

text \<open>Anything that writes \<open>X\<close> in one transaction, where the reader decodes \<open>X\<close> in the context of the frame.\<close>

lemma octets_step:
  assumes a: "accepting wr" and w: "writer c = wr" and i: "idle out base c" and r: "codec_rel c d"
    and F: "countable_frame (topframe c)" and k: "getctxid (topframe c) = Some k"
    and W: "writes_as wr out (topframe c) bssop X" and dec: "decodes (decode_in env k) d X ev d"
  shows "step_moved wr out base env c d ev (stacksize c) ((stack c)[stacksize c := counted (topframe c)]) (bssop c)"
proof -
  from W w idle_resumable [OF i] F have "moves_to wr out base X (stacksize c)
      ((stack c)[stacksize c := counted (topframe c)]) c (bssop c)"
    using a by (cases rule: attempt_cases) (auto simp: moves_to_def txn_result_def)
  then show ?thesis using codec_value [OF r F k dec] a by (intro step_movedI)
qed

lemma value_step:
  assumes a: "accepting wr" and le: "le_env env" and w: "writer c = wr" and i: "idle out base c"
    and r: "codec_rel c d" and ok: "call_ok c (Call_value t)"
  shows "step_matched wr out base env c d (Call_value t)"
proof -
  note tp = codec_top [OF r]
  from ok obtain X where F: "countable_frame (topframe c)" and X: "enc_token TLITTLE_ENDIAN (topframe c) t = Some X"
    and t: "token_ok (topframe c) t" by (auto simp: call_ok_def Let_def)
  obtain k where k: "getctxid (topframe c) = Some k" using frame_rel_ctxid(2) [OF tp(1) F] by blast
  from octets_step [OF a w i r F k bss_token_writes [OF X] decode_token [OF le X t tp(1) F k]]
  show ?thesis by (simp add: step_matched_def call_event_def call_stack_def bss_call_def Let_def)
qed

lemma list_step:
  assumes a: "accepting wr" and w: "writer c = wr" and i: "idle out base c"
    and r: "codec_rel c d" and ok: "call_ok c (Call_list len ty)"
  shows "step_matched wr out base env c d (Call_list len ty)"
proof -
  note tp = codec_top [OF r]
  from ok have F: "countable_frame (topframe c)" and n: "stacksize c < 15" and len: "len < 2 ^ 30" and ty: "ty < BS_CTXID_LAST"
    by (simp_all add: call_ok_def Let_def)
  from ok obtain k enc where k: "getctxid (topframe c) = Some k" "list_enc_for k = Some enc"
    and e: "enc = BS_GLOBAL_LIST \<or> enc = BS_LISTMAP_LIST"
    and kk: "k = BS_CTXID_GLOBAL \<and> enc = BS_GLOBAL_LIST \<or> k = BS_CTXID_LIST_OR_MAP \<and> enc = BS_LISTMAP_LIST"
    by (auto simp: call_ok_def Let_def list_enc_for_def ctxid_defs)
  have st: "d_stacksize d \<noteq> STACK_SIZE - 1" using n tp by (simp add: STACK_SIZE_def)
  have dec: "decodes (decode_in env k) d (coll_header len ty enc) (list_event len) (coll_frame len ty enc d)"
    using kk global_collection(1) [OF st ty len] listmap_collection(1) [OF st ty len] by (auto simp: decode_in_eq)
  have "coll_kind len enc \<noteq> BS_FMAP" "coll_kind len enc \<noteq> BS_FZMAP" by (auto simp: coll_kind_cases [OF e])
  then have "\<exists>d'. reads_back env d (coll_header len ty enc) (call_event c (Call_list len ty)) d' \<and>
      matched c ((stack c)[Suc (stacksize c) := list_frame len ty enc (stack c ! Suc (stacksize c))]) (Suc (stacksize c)) d'"
    unfolding call_event_def using tp
    by (simp, intro codec_open [OF r F k(1) dec n _ _ _ list_frames_rel [OF e ty]])
      (auto simp: coll_frame_def opened_fields Let_def)
  with bss_list_opens [OF w i F k ty n tp(5), of len] a k show ?thesis
    by (intro step_matchedI) (simp_all add: bss_call_def call_stack_def Let_def)
qed

lemma map_step:
  assumes a: "accepting wr" and w: "writer c = wr" and i: "idle out base c"
    and r: "codec_rel c d" and ok: "call_ok c (Call_map len ty)"
  shows "step_matched wr out base env c d (Call_map len ty)"
proof -
  note tp = codec_top [OF r]
  from ok have F: "countable_frame (topframe c)" and n: "stacksize c < 15" and len: "len < 2 ^ 30" and ty: "ty < BS_CTXID_LAST"
    by (simp_all add: call_ok_def Let_def)
  from ok obtain k enc where k: "getctxid (topframe c) = Some k" "map_enc_for k = Some enc"
    and e: "enc = BS_GLOBAL_MAP \<or> enc = BS_LISTMAP_MAP"
    and kk: "k = BS_CTXID_GLOBAL \<and> enc = BS_GLOBAL_MAP \<or> k = BS_CTXID_LIST_OR_MAP \<and> enc = BS_LISTMAP_MAP"
    by (auto simp: call_ok_def Let_def map_enc_for_def ctxid_defs)
  have st: "d_stacksize d \<noteq> STACK_SIZE - 1" using n tp by (simp add: STACK_SIZE_def)
  have dec: "decodes (decode_in env k) d (coll_header len ty enc) (map_event len) (coll_frame len ty enc d)"
    using kk global_collection(2) [OF st ty len] listmap_collection(2) [OF st ty len] by (auto simp: decode_in_eq)
  have "coll_kind len enc = BS_FMAP \<or> coll_kind len enc = BS_FZMAP" by (auto simp: coll_kind_map_cases [OF e])
  then have "\<exists>d'. reads_back env d (coll_header len ty enc) (call_event c (Call_map len ty)) d' \<and>
      matched c ((stack c)[Suc (stacksize c) := map_frame len ty enc (stack c ! Suc (stacksize c))]) (Suc (stacksize c)) d'"
    unfolding call_event_def using tp
    by (simp, intro codec_open [OF r F k(1) dec n _ _ _ map_frames_rel [OF e ty]])
      (auto simp: coll_frame_def opened_fields Let_def)
  with bss_map_opens [OF w i F k ty n tp(5), of len] a k show ?thesis
    by (intro step_matchedI) (simp_all add: bss_call_def call_stack_def Let_def)
qed

lemma object_step:
  assumes a: "accepting wr" and w: "writer c = wr" and i: "idle out base c"
    and r: "codec_rel c d" and ok: "call_ok c (Call_object cid)"
  shows "step_matched wr out base env c d (Call_object cid)"
proof -
  note tp = codec_top [OF r]
  from ok obtain cls where F: "countable_frame (topframe c)" and n: "stacksize c < 15"
    and k: "getctxid (topframe c) = Some BS_CTXID_GLOBAL" and cid: "cid < 2 ^ 32"
    and cls: "bs_classcoll_get (classcoll c) cid = Some (Some cls)" "wf_class cls"
    by (auto simp: call_ok_def Let_def split: option.splits)
  then have nf: "0 \<le> nfields cls" "nfields cls < 2 ^ 30" by (simp_all add: wf_class_def)
  have st: "d_stacksize d \<noteq> STACK_SIZE - 1" using n tp by (simp add: STACK_SIZE_def)
  have dc: "bs_classcoll_get (d_classcoll d) cid = Some (Some cls)" using r cls by (simp add: codec_rel_def)
  have dec: "decodes (decode_in env BS_CTXID_GLOBAL) d (object_header cid) (E_object cls) (object_frame cls d)"
    unfolding decode_in_eq by (rule global_object [OF dc nf st cid])
  have "\<exists>d'. reads_back env d (object_header cid) (call_event c (Call_object cid)) d' \<and>
      matched c ((stack c)[Suc (stacksize c) := \<lparr>kind = BS_FOBJECT, ctxid = BS_CTXID_OBJECT, missing = nfields cls,
        content = C_object cls\<rparr>]) (Suc (stacksize c)) d'"
    unfolding call_event_def using tp n
    by (simp add: cls, intro codec_open [OF r F k dec n _ _ _ object_frames_rel [OF cls(2)]])
      (auto simp: object_frame_def opened_fields bsd_topframe_def Let_def)
  with bss_object_opens [OF w i F k cls(1) nf(1) n tp(5)] a cls show ?thesis
    by (intro step_matchedI) (simp_all add: bss_call_def object_header_def call_stack_def Let_def)
qed

lemma chunked_step:
  assumes a: "accepting wr" and w: "writer c = wr" and i: "idle out base c"
    and r: "codec_rel c d" and ok: "call_ok c Call_chunked"
  shows "step_matched wr out base env c d Call_chunked"
proof -
  note tp = codec_top [OF r]
  let ?f = "(stack c ! Suc (stacksize c))\<lparr>kind := BS_FCHUNKED, ctxid := BS_CTXID_CHUNKED\<rparr>"
  from ok have F: "countable_frame (topframe c)" and n: "stacksize c < 15"
    by (simp_all add: call_ok_def Let_def)
  from ok obtain k and p :: int where k: "getctxid (topframe c) = Some k"
    and kp: "k = BS_CTXID_GLOBAL \<and> p = 0x29 \<or> k = BS_CTXID_UNSIGNED_OR_STRING \<and> p = 0x3a"
    by (auto simp: call_ok_def Let_def)
  have st: "d_stacksize d \<noteq> STACK_SIZE - 1" using n tp by (simp add: STACK_SIZE_def)
  have dec: "decodes (decode_in env k) d [u8 p] E_chunked (opened BS_FCHUNKED BS_CTXID_CHUNKED (- 1) d)"
    using kp chunked_opens [OF st] by (auto simp: decode_in_eq)
  have "\<exists>d'. reads_back env d [u8 p] (call_event c Call_chunked) d' \<and>
      matched c ((stack c)[Suc (stacksize c) := ?f]) (Suc (stacksize c)) d'"
    unfolding call_event_def using tp
    by (simp, intro codec_open [OF r F k dec n _ _ _ chunked_frames_rel]) (auto simp: opened_fields Let_def)
  with bss_chunked_opens [OF w i F _ n tp(5), of p] kp k a show ?thesis
    by (intro step_matchedI) (auto simp: bss_call_def call_stack_def Let_def)
qed

lemma close_step:
  assumes a: "accepting wr" and le: "le_env env" and w: "writer c = wr" and i: "idle out base c"
    and r: "codec_rel c d" and ok: "call_ok c Call_close"
  shows "step_matched wr out base env c d Call_close"
proof -
  from ok obtain n X where n: "stacksize c = Suc n" and X: "closing_token (topframe c) = Some X"
    by (cases "stacksize c") (auto simp: call_ok_def Let_def)
  have F: "countable_frame (stack c ! n)" using r n by (auto simp: codec_rel_def)
  have e: "kind (topframe c) = BS_FZMAP \<longrightarrow> (\<exists>e. content (topframe c) = C_map e)"
    using codec_top(1) [OF r] by (auto simp: frame_rel_def)
  from bss_close_closes [OF w i n X e F] codec_close [OF le r n X] a n show ?thesis
    by (intro step_matchedI) (simp_all add: bss_call_def call_event_def call_stack_def Let_def)
qed

lemmas call_steps = value_step list_step map_step object_step chunked_step close_step

end

lemma call_step:
  assumes "stream_writer wr out" "accepting wr" "le_env env" "writer c = wr" "idle out base c"
    and "codec_rel c d" "call_ok c cl"
  shows "step_matched wr out base env c d cl"
  using assms by (cases cl) (simp_all add: stream_writer.call_steps)

section \<open>Sequences of calls\<close>

fun bss_calls :: "EEndian \<Rightarrow> call list \<Rightarrow> 'w ser_op" where
  "bss_calls h [] c = Some (BSS_EOK, c)"
| "bss_calls h (cl # cls) c =
     (case bss_call h cl c of
        None \<Rightarrow> None
      | Some (r, c') \<Rightarrow> if r = BSS_EOK then bss_calls h cls c' else Some (r, c'))"

fun calls_ok :: "call list \<Rightarrow> 'w bss_ctx_t \<Rightarrow> bool" where
  "calls_ok [] c = True"
| "calls_ok (cl # cls) c \<longleftrightarrow>
     call_ok c cl \<and> (case bss_call TLITTLE_ENDIAN cl c of None \<Rightarrow> False | Some (r, c') \<Rightarrow> calls_ok cls c')"

fun calls_events :: "call list \<Rightarrow> 'w bss_ctx_t \<Rightarrow> event list" where
  "calls_events [] c = []"
| "calls_events (cl # cls) c =
     call_event c cl # (case bss_call TLITTLE_ENDIAN cl c of None \<Rightarrow> [] | Some (r, c') \<Rightarrow> calls_events cls c')"

text \<open>The reader's loop: \<open>n\<close> elements, each from the octets the previous one left.\<close>

fun bsd_events :: "bsd_env \<Rightarrow> nat \<Rightarrow> bsd_ctx_t \<Rightarrow> bsd_data_t \<Rightarrow> bytes \<Rightarrow> (event list \<times> bsd_ctx_t \<times> bytes) option" where
  "bsd_events env 0 d x buf = Some ([], d, buf)"
| "bsd_events env (Suc n) d x buf =
     (case bsd_read env d x buf (int (length buf)) of
        None \<Rightarrow> None
      | Some (k, d', x') \<Rightarrow>
          if k < 0 then None
          else case event_of x' of
                 None \<Rightarrow> None
               | Some e \<Rightarrow> map_option (\<lambda>(es, r). (e # es, r)) (bsd_events env n d' x' (drop (nat k) buf)))"

lemma calls_read_back:
  assumes "stream_writer wr out" "accepting wr" "le_env env" "writer c = wr" "idle out base c"
    and "codec_rel c d" "calls_ok cls c"
  shows "\<exists>X c' d'. bss_calls TLITTLE_ENDIAN cls c = Some (BSS_EOK, c') \<and> idle out (base @ X) c' \<and> codec_rel c' d' \<and>
     (\<forall>x rest. bsd_events env (length cls) d x (X @ rest) = Some (calls_events cls c, d', rest))"
  using assms(4-)
proof (induction cls arbitrary: c d base)
  case Nil
  then show ?case by (intro exI [of _ "[]"]) auto
next
  case (Cons cl cls)
  from Cons.prems have "call_ok c cl" by simp
  from call_step [OF assms(1-3) Cons.prems(1-3) this] obtain X c1 d1 where
    one: "bss_call TLITTLE_ENDIAN cl c = Some (BSS_EOK, c1)" "idle out (base @ X) c1" "writer c1 = wr"
      "reads_back env d X (call_event c cl) d1" "codec_rel c1 d1"
    unfolding step_matched_def step_moved_def by blast
  from Cons.prems(4) one(1) have "calls_ok cls c1" by simp
  from Cons.IH [OF one(3,2,5) this] obtain Y c2 d2 where
    two: "bss_calls TLITTLE_ENDIAN cls c1 = Some (BSS_EOK, c2)" "idle out ((base @ X) @ Y) c2" "codec_rel c2 d2"
      "\<And>x rest. bsd_events env (length cls) d1 x (Y @ rest) = Some (calls_events cls c1, d2, rest)"
    by blast
  have "bsd_events env (length (cl # cls)) d x ((X @ Y) @ rest) = Some (calls_events (cl # cls) c, d2, rest)" for x rest
  proof -
    have "int (length X) \<le> int (length (X @ Y @ rest))" by simp
    with one(4) obtain x' where
      "bsd_read env d x (X @ Y @ rest) (int (length (X @ Y @ rest))) = Some (int (length X), d1, x')"
      "event_of x' = Some (call_event c cl)"
      unfolding reads_back_def by blast
    with one(1) two(4) [of x' rest] show ?thesis by simp
  qed
  with one two show ?case by (intro exI [of _ "X @ Y"] exI [of _ c2] exI [of _ d2]) simp
qed

text \<open>A serializer and a deserializer that were just initialised are related.\<close>

lemma init_codec_rel:
  assumes "bss_init wr w c0 = Some c" "length (stack c0) = 16" "length (d_stack d0) = 16"
  shows "codec_rel c (snd (bsd_init h d0))"
  using assms
  by (auto simp: bss_init_def bss_reset_def bsd_init_def codec_rel_def frame_rel_def bs_classcoll_init_def
      bs_classcoll_reset_def)


definition sample_calls :: "call list" where
  "sample_calls = [Call_map 1 BS_CTXID_GLOBAL, Call_value (T_string [0x61]), Call_list (- 1) BS_CTXID_NUMBER,
     Call_value (T_int 300), Call_close, Call_close]"

definition sample_env :: bsd_env where
  "sample_env = \<lparr>env_host = TLITTLE_ENDIAN, env_sendian = host_sendian TLITTLE_ENDIAN,
     env_malloc = True, env_realloc = True, env_addr = 0\<rparr>"

lemmas sample_eval = bss_call_def bss_list_def bss_bool_def bss_close_def bss_token_def with_ctxid_def Let_def
  fresh_ctx_def topframe_def STACK_SIZE_def getctxid_def top_frame_def ctxid_defs START_TRANSACTION_def
  startTransaction_def fixed_frame_def TRYC_def openCollection_def TRY_def openContainer_def push_frame_def
  set_topframe_def writeByte_def writeData_def luawriter_table_def BS_GLOBAL_LIST_def bss_status_defs done_ok_def
  COMMIT_AND_RETURN_def commitTransaction_def pop_and_commit_def getNullToken_def call_ok_def countable_frame_def
  enc_token_def token_ok_def closing_token_def call_event_def token_event_def list_event_def
  bsd_typeFromFrameKind_def bss_map_def map_event_def bss_int_def bss_lstring_def writeInteger_def writeString_def
  BS_GLOBAL_MAP_def BS_UIS_STRING_def BS_NUMBER_INTEGER_def enc_int_in_def enc_string_in_def flip_even_def
  commit_fixed_def writeBytes_def WRITE_BYTES_MAX_def COMPUTE_OFFSET_def

lemma sample_calls_run:
  "calls_ok sample_calls (fresh_ctx luawriter_table [])"
  "calls_events sample_calls (fresh_ctx luawriter_table []) =
     [E_map 1, E_string [0x61], E_zlist, E_int 300, E_close BSD_ZLIST, E_close BSD_MAP]"
  unfolding sample_calls_def by (simp_all add: sample_eval)

lemma sample_env_le: "le_env sample_env"
  by (simp add: le_env_def sample_env_def)

definition sample_d :: bsd_ctx_t where
  "sample_d = snd (bsd_init TLITTLE_ENDIAN \<lparr>d_read = 0, d_broken = False, d_stacksize = 0,
     d_classcoll = bs_classcoll_init, d_stack = replicate 16 top_frame\<rparr>)"

lemma sample_related: "codec_rel (fresh_ctx luawriter_table []) sample_d"
  by (simp add: sample_d_def codec_rel_def fresh_ctx_def bsd_init_def frame_rel_def top_frame_def STACK_SIZE_def)


end
