(* ===== verification/Bysant_Limits.thy ===== *)
theory Bysant_Limits
  imports Bysant_Roundtrip
begin

text \<open>
  Where the round trip of \<open>Bysant_Roundtrip\<close> ends: calls that the serializer accepts and whose
  output does not read back as the value, and inputs on which the deserializer does not keep
  the contract of \<open>bysantd.h\<close>.
\<close>

definition sample_x :: bsd_data_t where
  "sample_x = \<lparr>d_type = BSD_NULL, d_kind = BSD_KTOPLEVEL, d_fieldname = None, d_content = D_int 0\<rparr>"

text \<open>The serializer inside a container of the given kind and context.\<close>

definition inside :: "bs_stackframekind_t \<Rightarrow> nat \<Rightarrow> stackframecontent \<Rightarrow> bytes list bss_ctx_t" where
  "inside k ty con =
     (fresh_ctx luawriter_table [])\<lparr>stacksize := 1, acknowledged_stacksize := 1,
        stack := (replicate STACK_SIZE top_frame)[1 := \<lparr>kind = k, ctxid = ty, missing = 0, content = con\<rparr>]\<rparr>"

text \<open>The deserializer with all its frames in use.\<close>

definition full_stack :: "bs_classcoll_t \<Rightarrow> bsd_ctx_t" where
  "full_stack coll = \<lparr>d_read = 0, d_broken = False, d_stacksize = 15, d_classcoll = coll,
     d_stack = replicate 16 \<lparr>kind = BS_FZLIST, ctxid = BS_CTXID_GLOBAL, missing = - 1, content = C_map 0\<rparr>\<rparr>"

text \<open>
  An integer in a context of unsigned integers is checked for its sign and then truncated
  to 32 bits: as a key of an unsized map the values 5 and 4294967301 are written as the same
  octet, with success.
\<close>

theorem bss_int_key_truncated:
  "\<exists>c1 c2. bss_int 5 (inside BS_FZMAP BS_CTXID_GLOBAL (C_map 1)) = Some (BSS_EOK, c1) \<and>
     bss_int 4294967301 (inside BS_FZMAP BS_CTXID_GLOBAL (C_map 1)) = Some (BSS_EOK, c2) \<and>
     writerctx c1 = [[0x40]] \<and> writerctx c2 = [[0x40]]"
  by (simp add: inside_def sample_eval writeUnsignedInteger_def to_uint32_def BS_UTI_MAX_def)

text \<open>
  Inside a chunked string \<open>bss_null\<close> is accepted and writes one zero octet, where only
  chunks of two octets of length and their data may stand; \<open>bss_list\<close> is refused there.
\<close>

theorem bss_null_in_chunked_string:
  "\<exists>c1. bss_null (inside BS_FCHUNKED BS_CTXID_CHUNKED (C_map 0)) = Some (BSS_EOK, c1) \<and> writerctx c1 = [[0]] \<and>
     (\<exists>c2. bss_list 1 BS_CTXID_GLOBAL (inside BS_FCHUNKED BS_CTXID_CHUNKED (C_map 0)) = Some (BSS_EBADCONTEXT, c2))"
  by (simp add: inside_def sample_eval bss_null_def fail_def)

text \<open>
  A long-form object header cut after the first octet of its class id is not reported as
  insufficient data: \<open>CHECK_SUBDECODE\<close> subtracts the octets read from the (negated) octets
  needed, the result is positive, and \<open>bsd_read\<close> answers that it read one octet and an
  integer element, although the contract is a negative number of octets required.
\<close>

theorem bsd_read_truncated_object:
  "\<exists>d' x'. bsd_read sample_env sample_d sample_x [0x70, 0xc7] 2 = Some (1, d', x') \<and> d_type x' = BSD_INT"
proof -
  have uis: "bsd_uis d x [0xc7] 1 = Some (- 2, d, x\<lparr>d_type := BSD_INT\<rparr>)" for d x
    by (simp add: bsd_uis_def decodeString_def BS_UIS_STRING_def CHECK_DECODE_def CHECK_LENGTH_def octet_def Let_def)
  have "bsd_global env d x [0x70, 0xc7] 2 = Some (1, d, x\<lparr>d_type := BSD_INT\<rparr>)" for env d x
    by (simp add: bsd_global_def global_skips CHECK_SUBDECODE_def uis token_defs octet_def Let_def)
  then show ?thesis
    by (simp add: bsd_read_def sample_d_def bsd_init_def bsd_topframe_def top_frame_def Let_def getctxid_def
        decode_in_def sample_x_def count_read_def finish_read_def set_kind_def bsd_getFrameDataKind_def)
qed

text \<open>
  An object header on a full stack is a fault: \<open>openContainer\<close> answers \<open>BSD_ETOODEEP\<close>
  and leaves the frame pointer null, and \<open>bsd_object\<close> stores the class through it before it
  looks at the status. An unsized list in the same place is refused with the error.
\<close>

theorem bsd_object_full_stack_fault:
  assumes "bs_classcoll_get coll 3 = Some (Some cls)"
  shows "bsd_read env (full_stack coll) x [0x63] 1 = None \<and>
     (\<exists>d' x'. bsd_read env (full_stack coll) x [0x35] 1 = Some (0, d', x') \<and>
        d_type x' = BSD_ERROR \<and> d_content x' = D_error BSD_ETOODEEP)"
proof -
  note d = bsd_read_def full_stack_def bsd_topframe_def Let_def getctxid_def decode_in_def bsd_global_def ctxid_defs
    global_int_skip global_string_skip CHECK_DECODE_def check_length_pass STACK_SIZE_def bsd_openContainer_def
  have "bsd_read env (full_stack coll) x [0x63] 1 = None"
    by (simp add: d global_skips bsd_object_def assms bsd_status_defs)
  moreover have "\<exists>d' x'. bsd_read env (full_stack coll) x [0x35] 1 = Some (0, d', x') \<and>
      d_type x' = BSD_ERROR \<and> d_content x' = D_error BSD_ETOODEEP"
    by (simp add: d decodeCollection_def BS_GLOBAL_LIST_def CHECK_ERROR_def bsd_error_def bsd_status_defs)
  ultimately show ?thesis by blast
qed

theorem bsd_object_full_stack_fault_witness:
  "bsd_read sample_env (full_stack sample_coll) sample_x [0x63] 1 = None"
proof -
  have "bs_classcoll_get sample_coll 3 = Some (Some (sample_class 3 1000))"
    using classcoll_get_correct [OF sample_coll_inv, of 3]
    by (simp add: class_map_def sample_coll_def sample_class_def)
  from bsd_object_full_stack_fault [OF this] show ?thesis by blast
qed

end
