(* ===== verification/C_Memory.thy ===== *)
theory C_Memory
  imports Prelude
begin

text \<open>
  Programs over raw buffers: the outcome of a call (it returns, it accesses memory it does not
  own, or it never returns), loads and stores with their bounds, loops whose index is a
  \<open>uint8_t\<close>, \<open>strstr\<close>, and hexadecimal characters.
\<close>

section \<open>Outcomes\<close>

datatype 'a outcome = Returned 'a | Fault | Hangs

definition need :: "'p option \<Rightarrow> ('p \<Rightarrow> 'a outcome) \<Rightarrow> 'a outcome" where
  "need p k = (case p of None \<Rightarrow> Fault | Some x \<Rightarrow> k x)"

lemma need_simps [simp]: "need None k = Fault" "need (Some x) k = k x"
  by (simp_all add: need_def)

section \<open>Loads and stores\<close>

definition load :: "bytes \<Rightarrow> nat \<Rightarrow> (byte \<Rightarrow> 'a outcome) \<Rightarrow> 'a outcome" where
  "load buf i k = (if i < length buf then k (buf ! i) else Fault)"

definition load_n :: "bytes \<Rightarrow> nat \<Rightarrow> nat \<Rightarrow> (bytes \<Rightarrow> 'a outcome) \<Rightarrow> 'a outcome" where
  "load_n buf i n k = (if i + n \<le> length buf then k (take n (drop i buf)) else Fault)"

text \<open>Consecutive octets written from index \<open>i\<close> on.\<close>

definition overwrite :: "bytes \<Rightarrow> nat \<Rightarrow> bytes \<Rightarrow> bytes" where
  "overwrite buf i bs = take i buf @ bs @ drop (i + length bs) buf"

definition store_at :: "bytes \<Rightarrow> nat \<Rightarrow> bytes \<Rightarrow> (bytes \<Rightarrow> 'a outcome) \<Rightarrow> 'a outcome" where
  "store_at buf i bs k = (if i + length bs \<le> length buf then k (overwrite buf i bs) else Fault)"

lemma load_in [simp]: "i < length buf \<Longrightarrow> load buf i k = k (buf ! i)"
  by (simp add: load_def)

lemma load_n_in: "i + n \<le> length buf \<Longrightarrow> load_n buf i n k = k (take n (drop i buf))"
  by (simp add: load_n_def)

lemma store_at_in: "i + length bs \<le> length buf \<Longrightarrow> store_at buf i bs k = k (overwrite buf i bs)"
  by (simp add: store_at_def)

lemma store_at_out [simp]: "length buf < i + length bs \<Longrightarrow> store_at buf i bs k = Fault"
  by (simp add: store_at_def)

lemma length_overwrite [simp]: "i + length bs \<le> length buf \<Longrightarrow> length (overwrite buf i bs) = length buf"
  by (simp add: overwrite_def)

lemma overwrite_window:
  "i + length bs \<le> length buf \<Longrightarrow> take (length bs) (drop i (overwrite buf i bs)) = bs"
  by (simp add: overwrite_def)

lemma overwrite_append:
  assumes "i + length bs + length cs \<le> length buf" "j = i + length bs"
  shows "overwrite (overwrite buf i bs) j cs = overwrite buf i (bs @ cs)"
  using assms by (simp add: overwrite_def add.commute add.left_commute)

lemma overwrite_prefix:
  "i + length bs \<le> length buf \<Longrightarrow> j \<le> i \<Longrightarrow> take j (overwrite buf i bs) = take j buf"
  by (simp add: overwrite_def)

lemma overwrite_0: "overwrite buf 0 bs = bs @ drop (length bs) buf"
  by (simp add: overwrite_def)

lemma nth_overwrite:
  "i + length bs \<le> length buf \<Longrightarrow> overwrite buf i bs ! j =
     (if j < i then buf ! j else if j < i + length bs then bs ! (j - i) else buf ! j)"
  by (auto simp: overwrite_def nth_append)

lemma overwrite_again:
  assumes "length bs \<le> length cs" "i + length cs \<le> length buf"
  shows "overwrite (overwrite buf i bs) i cs = overwrite buf i cs"
  using assms by (intro nth_equalityI) (simp_all add: nth_overwrite)

section \<open>Loops with an 8-bit index\<close>

text \<open>
  \<open>for (index = 0; index < count; index++)\<close> with \<open>uint8_t index\<close>: the increment wraps at 256.
  The outer \<open>None\<close> is a loop that does not end, \<open>Some None\<close> an access outside the memory.
\<close>

partial_function (option) u8_loop ::
  "nat \<Rightarrow> nat \<Rightarrow> (nat \<Rightarrow> bytes \<Rightarrow> bytes option) \<Rightarrow> bytes \<Rightarrow> bytes option option" where
  "u8_loop index count body mem =
     (if index < count
      then case body index mem of
             None \<Rightarrow> Some None
           | Some mem' \<Rightarrow> u8_loop ((index + 1) mod 256) count body mem'
      else Some (Some mem))"

declare u8_loop.simps [code]

text \<open>With at most 255 rounds the loop ends, and runs the body once for each index.\<close>

fun rounds :: "(nat \<Rightarrow> bytes \<Rightarrow> bytes option) \<Rightarrow> nat list \<Rightarrow> bytes \<Rightarrow> bytes option" where
  "rounds body [] mem = Some mem"
| "rounds body (i # is) mem = (case body i mem of None \<Rightarrow> None | Some mem' \<Rightarrow> rounds body is mem')"

lemma u8_loop_ends:
  assumes "count \<le> 255" "i \<le> count"
  shows "u8_loop i count body mem = Some (rounds body [i..<count] mem)"
  using assms
proof (induction "count - i" arbitrary: i mem)
  case 0
  then show ?case by (subst u8_loop.simps) simp
next
  case (Suc k)
  then have i: "i < count" "(i + 1) mod 256 = Suc i" by simp_all
  have "u8_loop (Suc i) count body m = Some (rounds body [Suc i..<count] m)" for m
    using Suc by simp
  with i show ?case
    by (subst u8_loop.simps) (simp add: upt_rec [of i count] split: option.splits)
qed

text \<open>With more rounds than the index can count, and a body that always succeeds, it never ends.\<close>

lemma u8_loop_hangs:
  assumes big: "255 < count" and body: "\<And>i m. i < 256 \<Longrightarrow> P m \<Longrightarrow> \<exists>m'. body i m = Some m' \<and> P m'"
    and "i < 256" "P mem"
  shows "u8_loop i count body mem = None"
proof -
  have "c = count \<longrightarrow> b = body \<longrightarrow> \<not> (i < 256 \<and> P m)" if "u8_loop i c b m = Some r" for i c b m r
  proof (rule u8_loop.raw_induct [where P = "\<lambda>i c b m r. c = count \<longrightarrow> b = body \<longrightarrow> \<not> (i < 256 \<and> P m)", OF _ that],
      intro impI notI)
    fix loop i c b m r
    assume IH: "\<And>i c b m r. loop i c b m = Some r \<Longrightarrow> c = count \<longrightarrow> b = body \<longrightarrow> \<not> (i < 256 \<and> P m)"
      and eq: "(if i < c then case b i m of None \<Rightarrow> Some None | Some m' \<Rightarrow> loop ((i + 1) mod 256) c b m'
        else Some (Some m)) = Some r"
      and e: "c = count" "b = body" and a: "i < 256 \<and> P m"
    then obtain m' where m': "body i m = Some m'" "P m'" using body by blast
    have "i < c" using big e a by simp
    with eq m' e have "loop ((i + 1) mod 256) c b m' = Some r" by simp
    from IH [OF this] e m' show False by simp
  qed
  with assms(3,4) show ?thesis by (cases "u8_loop i count body mem") blast+
qed

section \<open>strstr\<close>

fun strstr :: "bytes \<Rightarrow> bytes \<Rightarrow> nat option" where
  "strstr [] pat = (if pat = [] then Some 0 else None)"
| "strstr (b # s) pat =
     (if take (length pat) (b # s) = pat then Some 0 else map_option Suc (strstr s pat))"

text \<open>The characters before the terminating zero.\<close>

definition chars :: "bytes \<Rightarrow> bytes" where
  "chars buf = takeWhile (\<lambda>b. b \<noteq> 0) buf"

lemma strstr_first:
  assumes "take (length pat) t = pat" "pat \<noteq> []" "\<And>i. i < length s \<Longrightarrow> take (length pat) (drop i (s @ t)) \<noteq> pat"
  shows "strstr (s @ t) pat = Some (length s)"
  using assms(3)
proof (induction s)
  case Nil
  with assms show ?case by (cases t) auto
next
  case (Cons b s)
  have "take (length pat) ((b # s) @ t) \<noteq> pat" using Cons.prems [of 0] by simp
  moreover have "strstr (s @ t) pat = Some (length s)"
    using Cons.prems by (intro Cons.IH) (metis Suc_less_eq append_Cons drop_Suc_Cons length_Cons)
  ultimately show ?case by simp
qed

section \<open>Hexadecimal characters\<close>

text \<open>The two characters of \<open>sprintf\<close> with \<open>%02X\<close>.\<close>

definition hex_digit :: "nat \<Rightarrow> byte" where
  "hex_digit n = of_nat (if n < 10 then 0x30 + n else 0x41 + (n - 10))"

definition hex2 :: "byte \<Rightarrow> bytes" where
  "hex2 b = [hex_digit (unat b div 16), hex_digit (unat b mod 16)]"

lemma unat_hex_digit: "n < 16 \<Longrightarrow> unat (hex_digit n) = (if n < 10 then 0x30 + n else 0x41 + (n - 10))"
  by (simp add: hex_digit_def unat_of_nat)

lemma hex_digit_range:
  assumes "n < 16"
  shows "hex_digit n \<noteq> 0" "hex_digit n \<noteq> 0x0d" "hex_digit n \<noteq> 0x3a"
  using unat_hex_digit [OF assms] assms by (auto split: if_splits)

lemma nibbles [simp]: "unat (b :: byte) div 16 < 16" "unat b mod 16 < 16"
  by (rule less_mult_imp_div_less) simp_all

lemma length_hex2 [simp]: "length (hex2 b) = 2"
  by (simp add: hex2_def)

lemma length_hex [simp]: "length (concat (map hex2 xs)) = 2 * length xs"
  by (induction xs) simp_all

end
