(* ===== verification/Modbus_Serializer.thy ===== *)
theory Modbus_Serializer
  imports C_Memory
begin

text \<open>
  The Modbus serializer of the serial framework
  (\<open>src/libs/SerialFramework/Modbus/modbus_serializer.c\<close>): it builds the request frames of a
  Modbus master for the RTU, ASCII and TCP transports, checks a received frame against the
  request, and copies the data of the response into the memory of the caller. Buffers are lists
  of octets of a fixed length and every access is bounded by it; a pointer is an option. An
  outcome is \<open>Fault\<close> when the code accesses memory outside a buffer or through a null pointer.
\<close>

section \<open>Types\<close>

datatype SerialStatus =
    SERIAL_STATUS_OK | SERIAL_STATUS_STACK_NOT_READY | SERIAL_STATUS_RESPONSE_INVALID_FRAME
  | SERIAL_STATUS_RESPONSE_SHORT_FRAME | SERIAL_STATUS_RESPONSE_BAD_SLAVE | SERIAL_STATUS_RESPONSE_BAD_FUNCTION
  | SERIAL_STATUS_RESPONSE_BAD_CHECKSUM | SERIAL_STATUS_RESPONSE_INCOMPLETE_FRAME
  | SERIAL_STATUS_RESPONSE_EXCEPTION | SERIAL_STATUS_RESPONSE_TIMEOUT | SERIAL_STATUS_ALLOC_FAILED
  | SERIAL_STATUS_WRONG_PARAMS | SERIAL_STATUS_CORRUPTED_CONTEXT | SERIAL_STATUS_REQUEST_PARAMETER_ERROR
  | SERIAL_STATUS_UNEXPECTED_ERROR

datatype ModbusRequestMode = MODBUS_RTU | MODBUS_ASCII | MODBUS_TCP

text \<open>
  Function codes are kept as numbers: a custom request may carry any of them, and a response is
  converted to the enumeration from an octet.
\<close>

definition MODBUS_FUNC_READ_COILS :: nat where "MODBUS_FUNC_READ_COILS = 0x01"
definition MODBUS_FUNC_READ_DISCRETE_INPUTS :: nat where "MODBUS_FUNC_READ_DISCRETE_INPUTS = 0x02"
definition MODBUS_FUNC_READ_HOLDING_REGISTERS :: nat where "MODBUS_FUNC_READ_HOLDING_REGISTERS = 0x03"
definition MODBUS_FUNC_READ_INPUT_REGISTERS :: nat where "MODBUS_FUNC_READ_INPUT_REGISTERS = 0x04"
definition MODBUS_FUNC_WRITE_SINGLE_COIL :: nat where "MODBUS_FUNC_WRITE_SINGLE_COIL = 0x05"
definition MODBUS_FUNC_WRITE_SINGLE_REGISTER :: nat where "MODBUS_FUNC_WRITE_SINGLE_REGISTER = 0x06"
definition MODBUS_FUNC_WRITE_MULTIPLE_COILS :: nat where "MODBUS_FUNC_WRITE_MULTIPLE_COILS = 0x0f"
definition MODBUS_FUNC_WRITE_MULTIPLE_REGISTERS :: nat where "MODBUS_FUNC_WRITE_MULTIPLE_REGISTERS = 0x10"
definition MODBUS_FUNC_SEND_RAW_DATA :: nat where "MODBUS_FUNC_SEND_RAW_DATA = 0x5a"
definition MODBUS_MASK_ERROR :: nat where "MODBUS_MASK_ERROR = 0x80"

lemmas func_defs = MODBUS_FUNC_READ_COILS_def MODBUS_FUNC_READ_DISCRETE_INPUTS_def
  MODBUS_FUNC_READ_HOLDING_REGISTERS_def MODBUS_FUNC_READ_INPUT_REGISTERS_def
  MODBUS_FUNC_WRITE_SINGLE_COIL_def MODBUS_FUNC_WRITE_SINGLE_REGISTER_def
  MODBUS_FUNC_WRITE_MULTIPLE_COILS_def MODBUS_FUNC_WRITE_MULTIPLE_REGISTERS_def
  MODBUS_FUNC_SEND_RAW_DATA_def MODBUS_MASK_ERROR_def

definition MODBUS_RTU_MAX_FRAME_SIZE :: nat where "MODBUS_RTU_MAX_FRAME_SIZE = 256"
definition MODBUS_ASCII_MAX_FRAME_SIZE :: nat where "MODBUS_ASCII_MAX_FRAME_SIZE = 514"
definition MODBUS_TCP_MAX_FRAME_SIZE :: nat where "MODBUS_TCP_MAX_FRAME_SIZE = 260"
definition MODBUS_TCP_MAX_DATA_SIZE :: nat where "MODBUS_TCP_MAX_DATA_SIZE = MODBUS_TCP_MAX_FRAME_SIZE - 6"
definition MODBUS_MAX_READ_COILS :: nat where "MODBUS_MAX_READ_COILS = 2000"
definition MODBUS_MAX_READ_REGISTERS :: nat where "MODBUS_MAX_READ_REGISTERS = 125"
definition MODBUS_MAX_NUMBER_OF_WRITTEN_COILS :: nat where "MODBUS_MAX_NUMBER_OF_WRITTEN_COILS = 1968"
definition MODBUS_MAX_NUMBER_OF_WRITTEN_REGISTERS :: nat where "MODBUS_MAX_NUMBER_OF_WRITTEN_REGISTERS = 123"

lemmas size_defs = MODBUS_RTU_MAX_FRAME_SIZE_def MODBUS_ASCII_MAX_FRAME_SIZE_def MODBUS_TCP_MAX_FRAME_SIZE_def
  MODBUS_TCP_MAX_DATA_SIZE_def MODBUS_MAX_READ_COILS_def MODBUS_MAX_READ_REGISTERS_def
  MODBUS_MAX_NUMBER_OF_WRITTEN_COILS_def MODBUS_MAX_NUMBER_OF_WRITTEN_REGISTERS_def

text \<open>The union of a pointer to the caller's memory and an immediate value.\<close>

datatype modbus_value = V_null | V_ptr bytes | V_int nat

record ModbusRequest =
  rq_slaveId :: nat
  rq_function :: nat
  rq_startingAddress :: nat
  rq_numberOfObjects :: nat
  rq_byteCount :: nat
  rq_value :: modbus_value

record ModbusResponse =
  rs_slaveId :: nat
  rs_function :: nat
  rs_exception :: nat
  rs_startingAddress :: nat
  rs_numberOfObjects :: nat
  rs_byteCount :: nat
  rs_value :: modbus_value

record ModbusSpecifics =
  requestMode :: ModbusRequestMode
  requestTrId :: nat
  slaveAddrOffset :: nat
  isCustom :: bool
  sp_request :: ModbusRequest
  sp_response :: ModbusResponse

record Serializer =
  requestBufferLength :: nat
  responseBufferLength :: nat
  pRequestBuffer :: "bytes option"
  pResponseBuffer :: "bytes option"
  pTempBuffer :: "bytes option"
  maxSize :: nat
  pSpecifics :: "ModbusSpecifics option"

type_synonym 'a call = "(SerialStatus \<times> 'a) outcome"

section \<open>Checksums\<close>

definition cRCHi :: "byte list" where
  "cRCHi =
    [0x00, 0xc1, 0x81, 0x40, 0x01, 0xc0, 0x80, 0x41, 0x01, 0xc0, 0x80, 0x41, 0x00, 0xc1, 0x81, 0x40,
     0x01, 0xc0, 0x80, 0x41, 0x00, 0xc1, 0x81, 0x40, 0x00, 0xc1, 0x81, 0x40, 0x01, 0xc0, 0x80, 0x41,
     0x01, 0xc0, 0x80, 0x41, 0x00, 0xc1, 0x81, 0x40, 0x00, 0xc1, 0x81, 0x40, 0x01, 0xc0, 0x80, 0x41,
     0x00, 0xc1, 0x81, 0x40, 0x01, 0xc0, 0x80, 0x41, 0x01, 0xc0, 0x80, 0x41, 0x00, 0xc1, 0x81, 0x40,
     0x01, 0xc0, 0x80, 0x41, 0x00, 0xc1, 0x81, 0x40, 0x00, 0xc1, 0x81, 0x40, 0x01, 0xc0, 0x80, 0x41,
     0x00, 0xc1, 0x81, 0x40, 0x01, 0xc0, 0x80, 0x41, 0x01, 0xc0, 0x80, 0x41, 0x00, 0xc1, 0x81, 0x40,
     0x00, 0xc1, 0x81, 0x40, 0x01, 0xc0, 0x80, 0x41, 0x01, 0xc0, 0x80, 0x41, 0x00, 0xc1, 0x81, 0x40,
     0x01, 0xc0, 0x80, 0x41, 0x00, 0xc1, 0x81, 0x40, 0x00, 0xc1, 0x81, 0x40, 0x01, 0xc0, 0x80, 0x41,
     0x01, 0xc0, 0x80, 0x41, 0x00, 0xc1, 0x81, 0x40, 0x00, 0xc1, 0x81, 0x40, 0x01, 0xc0, 0x80, 0x41,
     0x00, 0xc1, 0x81, 0x40, 0x01, 0xc0, 0x80, 0x41, 0x01, 0xc0, 0x80, 0x41, 0x00, 0xc1, 0x81, 0x40,
     0x00, 0xc1, 0x81, 0x40, 0x01, 0xc0, 0x80, 0x41, 0x01, 0xc0, 0x80, 0x41, 0x00, 0xc1, 0x81, 0x40,
     0x01, 0xc0, 0x80, 0x41, 0x00, 0xc1, 0x81, 0x40, 0x00, 0xc1, 0x81, 0x40, 0x01, 0xc0, 0x80, 0x41,
     0x00, 0xc1, 0x81, 0x40, 0x01, 0xc0, 0x80, 0x41, 0x01, 0xc0, 0x80, 0x41, 0x00, 0xc1, 0x81, 0x40,
     0x01, 0xc0, 0x80, 0x41, 0x00, 0xc1, 0x81, 0x40, 0x00, 0xc1, 0x81, 0x40, 0x01, 0xc0, 0x80, 0x41,
     0x01, 0xc0, 0x80, 0x41, 0x00, 0xc1, 0x81, 0x40, 0x00, 0xc1, 0x81, 0x40, 0x01, 0xc0, 0x80, 0x41,
     0x00, 0xc1, 0x81, 0x40, 0x01, 0xc0, 0x80, 0x41, 0x01, 0xc0, 0x80, 0x41, 0x00, 0xc1, 0x81, 0x40]"

definition cRCLo :: "byte list" where
  "cRCLo =
    [0x00, 0xc0, 0xc1, 0x01, 0xc3, 0x03, 0x02, 0xc2, 0xc6, 0x06, 0x07, 0xc7, 0x05, 0xc5, 0xc4, 0x04,
     0xcc, 0x0c, 0x0d, 0xcd, 0x0f, 0xcf, 0xce, 0x0e, 0x0a, 0xca, 0xcb, 0x0b, 0xc9, 0x09, 0x08, 0xc8,
     0xd8, 0x18, 0x19, 0xd9, 0x1b, 0xdb, 0xda, 0x1a, 0x1e, 0xde, 0xdf, 0x1f, 0xdd, 0x1d, 0x1c, 0xdc,
     0x14, 0xd4, 0xd5, 0x15, 0xd7, 0x17, 0x16, 0xd6, 0xd2, 0x12, 0x13, 0xd3, 0x11, 0xd1, 0xd0, 0x10,
     0xf0, 0x30, 0x31, 0xf1, 0x33, 0xf3, 0xf2, 0x32, 0x36, 0xf6, 0xf7, 0x37, 0xf5, 0x35, 0x34, 0xf4,
     0x3c, 0xfc, 0xfd, 0x3d, 0xff, 0x3f, 0x3e, 0xfe, 0xfa, 0x3a, 0x3b, 0xfb, 0x39, 0xf9, 0xf8, 0x38,
     0x28, 0xe8, 0xe9, 0x29, 0xeb, 0x2b, 0x2a, 0xea, 0xee, 0x2e, 0x2f, 0xef, 0x2d, 0xed, 0xec, 0x2c,
     0xe4, 0x24, 0x25, 0xe5, 0x27, 0xe7, 0xe6, 0x26, 0x22, 0xe2, 0xe3, 0x23, 0xe1, 0x21, 0x20, 0xe0,
     0xa0, 0x60, 0x61, 0xa1, 0x63, 0xa3, 0xa2, 0x62, 0x66, 0xa6, 0xa7, 0x67, 0xa5, 0x65, 0x64, 0xa4,
     0x6c, 0xac, 0xad, 0x6d, 0xaf, 0x6f, 0x6e, 0xae, 0xaa, 0x6a, 0x6b, 0xab, 0x69, 0xa9, 0xa8, 0x68,
     0x78, 0xb8, 0xb9, 0x79, 0xbb, 0x7b, 0x7a, 0xba, 0xbe, 0x7e, 0x7f, 0xbf, 0x7d, 0xbd, 0xbc, 0x7c,
     0xb4, 0x74, 0x75, 0xb5, 0x77, 0xb7, 0xb6, 0x76, 0x72, 0xb2, 0xb3, 0x73, 0xb1, 0x71, 0x70, 0xb0,
     0x50, 0x90, 0x91, 0x51, 0x93, 0x53, 0x52, 0x92, 0x96, 0x56, 0x57, 0x97, 0x55, 0x95, 0x94, 0x54,
     0x9c, 0x5c, 0x5d, 0x9d, 0x5f, 0x9f, 0x9e, 0x5e, 0x5a, 0x9a, 0x9b, 0x5b, 0x99, 0x59, 0x58, 0x98,
     0x88, 0x48, 0x49, 0x89, 0x4b, 0x8b, 0x8a, 0x4a, 0x4e, 0x8e, 0x8f, 0x4f, 0x8d, 0x4d, 0x4c, 0x8c,
     0x44, 0x84, 0x85, 0x45, 0x87, 0x47, 0x46, 0x86, 0x82, 0x42, 0x43, 0x83, 0x41, 0x81, 0x80, 0x40]"

text \<open>One round of the table-driven loop on the pair of the high and the low octet.\<close>

definition crc_round :: "byte \<Rightarrow> byte \<times> byte \<Rightarrow> byte \<times> byte" where
  "crc_round b s = (let iIndex = unat (snd s XOR b) in (cRCLo ! iIndex, fst s XOR cRCHi ! iIndex))"

definition RTUComputeCRC :: "bytes \<Rightarrow> nat" where
  "RTUComputeCRC frame = (let s = fold crc_round frame (0xff, 0xff) in push_bit 8 (unat (fst s)) OR unat (snd s))"

definition RTUValidateCRC :: "bytes \<Rightarrow> nat \<Rightarrow> bool" where
  "RTUValidateCRC frame crc = (RTUComputeCRC frame = crc)"

definition ASCIIComputeLRC :: "bytes \<Rightarrow> byte" where
  "ASCIIComputeLRC frame = (let ucLRC = fold (\<lambda>b s. s + b) frame 0 in - ucLRC)"

definition ASCIIValidateLRC :: "bytes \<Rightarrow> byte \<Rightarrow> bool" where
  "ASCIIValidateLRC frame lrc = (ASCIIComputeLRC frame = lrc)"

definition HexDigit2Dec :: "byte \<Rightarrow> nat" where
  "HexDigit2Dec d =
     (let c = unat d in
      if 0x41 \<le> c \<and> c \<le> 0x46 then c - 0x41 + 10
      else if 0x61 \<le> c \<and> c \<le> 0x66 then c - 0x61 + 10
      else if 0x30 \<le> c \<and> c \<le> 0x39 then c - 0x30
      else 0)"

section \<open>Frames of the three transports\<close>

definition hi :: "nat \<Rightarrow> byte" where "hi n = of_nat (drop_bit 8 n AND 0xff)"
definition lo :: "nat \<Rightarrow> byte" where "lo n = of_nat (n AND 0xff)"

definition TCPCreateRequest :: "ModbusSpecifics \<Rightarrow> Serializer \<Rightarrow> Serializer call" where
  "TCPCreateRequest sp s =
     (let trId = (requestTrId sp + 1) mod 0xffff; len = requestBufferLength s in
      need (pRequestBuffer s) (\<lambda>buf. store_at buf 0 [hi trId, lo trId, 0, 0, hi len, lo len] (\<lambda>buf.
        Returned (SERIAL_STATUS_OK, s\<lparr>requestBufferLength := u16 (len + 6), pRequestBuffer := Some buf,
          pSpecifics := Some (sp\<lparr>requestTrId := trId\<rparr>)\<rparr>))))"

definition RTUCreateRequest :: "ModbusSpecifics \<Rightarrow> Serializer \<Rightarrow> Serializer call" where
  "RTUCreateRequest sp s =
     (let len = requestBufferLength s in
      need (pRequestBuffer s) (\<lambda>buf. load_n buf 0 len (\<lambda>frame.
        let cRC = RTUComputeCRC frame in
        store_at buf len [lo cRC, hi cRC] (\<lambda>buf.
          Returned (SERIAL_STATUS_OK, s\<lparr>requestBufferLength := u16 (len + 2), pRequestBuffer := Some buf,
            pSpecifics := Some sp\<rparr>)))))"

definition ASCIICreateRequest :: "ModbusSpecifics \<Rightarrow> Serializer \<Rightarrow> Serializer call" where
  "ASCIICreateRequest sp s =
     (let len = requestBufferLength s in
      need (pRequestBuffer s) (\<lambda>buf. load_n buf 0 len (\<lambda>frame.
      store_at buf len [ASCIIComputeLRC frame] (\<lambda>buf.
      let length' = u16 (len + 1) in
      need (pTempBuffer s) (\<lambda>tmp. load_n buf 0 length' (\<lambda>data. store_at tmp 0 data (\<lambda>tmp.
      store_at buf 0 (0x3a # concat (map hex2 data) @ [0x0d, 0x0a]) (\<lambda>buf.
        Returned (SERIAL_STATUS_OK, s\<lparr>requestBufferLength := u16 (1 + 2 * length' + 2), pRequestBuffer := Some buf,
          pTempBuffer := Some tmp, pSpecifics := Some sp\<rparr>)))))))))"

definition CreateRequest :: "ModbusSpecifics \<Rightarrow> Serializer \<Rightarrow> Serializer call" where
  "CreateRequest sp =
     (case requestMode sp of
        MODBUS_RTU \<Rightarrow> RTUCreateRequest sp
      | MODBUS_ASCII \<Rightarrow> ASCIICreateRequest sp
      | MODBUS_TCP \<Rightarrow> TCPCreateRequest sp)"

section \<open>Building requests\<close>

definition values_load :: "modbus_value \<Rightarrow> nat \<Rightarrow> (bytes \<Rightarrow> 'a outcome) \<Rightarrow> 'a outcome" where
  "values_load v n k = (if n = 0 then k [] else case v of V_ptr mem \<Rightarrow> load_n mem 0 n k | _ \<Rightarrow> Fault)"

text \<open>Reading the immediate side of the union; a null pointer reads as 0.\<close>

definition iValue :: "modbus_value \<Rightarrow> (nat \<Rightarrow> 'a outcome) \<Rightarrow> 'a outcome" where
  "iValue v k = (case v of V_int n \<Rightarrow> k n | V_null \<Rightarrow> k 0 | V_ptr _ \<Rightarrow> Fault)"

text \<open>A 16-bit value in the memory of the host, which is little endian or not.\<close>

definition host16 :: "bool \<Rightarrow> byte \<Rightarrow> byte \<Rightarrow> nat" where
  "host16 le a b = (if le then unat a + 256 * unat b else 256 * unat a + unat b)"

fun reg_octets :: "bool \<Rightarrow> bytes \<Rightarrow> bytes" where
  "reg_octets le (a # b # mem) = hi (host16 le a b) # lo (host16 le a b) # reg_octets le mem"
| "reg_octets le _ = []"

text \<open>The frame is complete: it is stored with its length and the request, and sent to the transport.\<close>

definition finish_request :: "ModbusSpecifics \<Rightarrow> bytes \<Rightarrow> nat \<Rightarrow> Serializer \<Rightarrow> Serializer call" where
  "finish_request sp buf len s =
     CreateRequest sp (s\<lparr>pRequestBuffer := Some buf, requestBufferLength := u16 len, pSpecifics := Some sp\<rparr>)"

definition refuse :: "ModbusSpecifics \<Rightarrow> bytes \<Rightarrow> Serializer \<Rightarrow> Serializer call" where
  "refuse sp buf s =
     Returned (SERIAL_STATUS_REQUEST_PARAMETER_ERROR, s\<lparr>pRequestBuffer := Some buf, pSpecifics := Some sp\<rparr>)"

definition MODBUS_SER_CreateCustomRequest :: "ModbusRequest \<Rightarrow> Serializer \<Rightarrow> Serializer call" where
  "MODBUS_SER_CreateCustomRequest rq s =
     (case pRequestBuffer s of
        None \<Rightarrow> Returned (SERIAL_STATUS_STACK_NOT_READY, s)
      | Some buf \<Rightarrow>
          if rq_slaveId rq = 0 then Returned (SERIAL_STATUS_REQUEST_PARAMETER_ERROR, s)
          else need (pSpecifics s) (\<lambda>sp.
            let sp = sp\<lparr>isCustom := True, sp_request := (sp_request sp)\<lparr>rq_slaveId := rq_slaveId rq,
                  rq_function := rq_function rq, rq_value := rq_value rq, rq_byteCount := rq_byteCount rq\<rparr>\<rparr>;
                off = slaveAddrOffset sp in
            values_load (rq_value rq) (rq_byteCount rq) (\<lambda>data.
            store_at buf off ([of_nat (rq_slaveId rq), of_nat (rq_function rq)] @ data) (\<lambda>buf.
              finish_request sp buf (2 + rq_byteCount rq) s))))"

text \<open>The six octets that the read and write requests start with.\<close>

definition request_head :: "ModbusRequest \<Rightarrow> nat \<Rightarrow> bytes" where
  "request_head rq v =
     [of_nat (rq_slaveId rq), of_nat (rq_function rq), hi (rq_startingAddress rq), lo (rq_startingAddress rq), hi v, lo v]"

definition create_read :: "nat \<Rightarrow> nat \<Rightarrow> ModbusRequest \<Rightarrow> ModbusSpecifics \<Rightarrow> bytes \<Rightarrow> Serializer \<Rightarrow> Serializer call" where
  "create_read limit byteCount rq sp buf s =
     (if rq_value rq \<noteq> V_null \<and> 0 < rq_numberOfObjects rq \<and> rq_numberOfObjects rq \<le> limit then
        let sp = sp\<lparr>sp_request := (sp_request sp)\<lparr>rq_byteCount := byteCount\<rparr>\<rparr> in
        store_at buf (slaveAddrOffset sp) (request_head rq (rq_numberOfObjects rq)) (\<lambda>buf. finish_request sp buf 6 s)
      else refuse sp buf s)"

definition create_write_single :: "ModbusRequest \<Rightarrow> ModbusSpecifics \<Rightarrow> bytes \<Rightarrow> Serializer \<Rightarrow> Serializer call" where
  "create_write_single rq sp buf s =
     (let sp = sp\<lparr>sp_request := (sp_request sp)\<lparr>rq_byteCount := rq_byteCount rq\<rparr>\<rparr> in
      iValue (rq_value rq) (\<lambda>v.
        store_at buf (slaveAddrOffset sp) (request_head rq v) (\<lambda>buf. finish_request sp buf 6 s)))"

definition create_write_coils :: "ModbusRequest \<Rightarrow> ModbusSpecifics \<Rightarrow> bytes \<Rightarrow> Serializer \<Rightarrow> Serializer call" where
  "create_write_coils rq sp buf s =
     (if 0 < rq_numberOfObjects rq \<and> rq_numberOfObjects rq \<le> MODBUS_MAX_NUMBER_OF_WRITTEN_COILS then
        let n = rq_byteCount rq; off = slaveAddrOffset sp;
            sp = sp\<lparr>sp_request := (sp_request sp)\<lparr>rq_byteCount := n\<rparr>\<rparr> in
        store_at buf off (request_head rq (rq_numberOfObjects rq) @ [of_nat n]) (\<lambda>buf.
          if int (maxSize s) \<le> int off + 7 + int n - 1 then refuse sp buf s
          else values_load (rq_value rq) n (\<lambda>data. store_at buf (off + 7) data (\<lambda>buf. finish_request sp buf (7 + n) s)))
      else refuse sp buf s)"

definition create_write_registers :: "bool \<Rightarrow> ModbusRequest \<Rightarrow> ModbusSpecifics \<Rightarrow> bytes \<Rightarrow> Serializer \<Rightarrow> Serializer call" where
  "create_write_registers le rq sp buf s =
     (let n = rq_numberOfObjects rq in
      if 0 < n \<and> n \<le> MODBUS_MAX_NUMBER_OF_WRITTEN_REGISTERS then
        let off = slaveAddrOffset sp; sp = sp\<lparr>sp_request := (sp_request sp)\<lparr>rq_byteCount := n * 2\<rparr>\<rparr> in
        store_at buf off (take 4 (request_head rq n) @ [0, lo n, of_nat (n * 2)]) (\<lambda>buf.
          if maxSize s \<le> off + 7 + (n - 1) * 2 + 1 then refuse sp buf s
          else values_load (rq_value rq) (2 * n) (\<lambda>data.
            store_at buf (off + 7) (reg_octets le data) (\<lambda>buf. finish_request sp buf (7 + n * 2) s)))
      else refuse sp buf s)"

definition create_raw :: "ModbusRequest \<Rightarrow> ModbusSpecifics \<Rightarrow> bytes \<Rightarrow> Serializer \<Rightarrow> Serializer call" where
  "create_raw rq sp buf s =
     (let n = rq_byteCount rq in
      if 0 < n \<and> n \<le> MODBUS_TCP_MAX_DATA_SIZE then
        let sp = sp\<lparr>sp_request := (sp_request sp)\<lparr>rq_byteCount := n\<rparr>\<rparr> in
        values_load (rq_value rq) n (\<lambda>data.
        store_at buf (slaveAddrOffset sp) ([of_nat (rq_slaveId rq), of_nat (rq_function rq)] @ data) (\<lambda>buf.
          finish_request sp buf (2 + n) s))
      else refuse sp buf s)"

definition MODBUS_SER_CreateRequest :: "bool \<Rightarrow> ModbusRequest \<Rightarrow> Serializer \<Rightarrow> Serializer call" where
  "MODBUS_SER_CreateRequest le rq s =
     (case pRequestBuffer s of
        None \<Rightarrow> Returned (SERIAL_STATUS_STACK_NOT_READY, s)
      | Some buf \<Rightarrow> need (pSpecifics s) (\<lambda>sp.
          let sp = sp\<lparr>isCustom := False, sp_request := (sp_request sp)\<lparr>rq_slaveId := rq_slaveId rq,
                rq_startingAddress := rq_startingAddress rq, rq_function := rq_function rq,
                rq_value := rq_value rq, rq_numberOfObjects := rq_numberOfObjects rq\<rparr>\<rparr>;
              f = rq_function rq; n = rq_numberOfObjects rq in
          if rq_slaveId rq = 0 then refuse sp buf s
          else if f = MODBUS_FUNC_READ_DISCRETE_INPUTS \<or> f = MODBUS_FUNC_READ_COILS then
            create_read MODBUS_MAX_READ_COILS (drop_bit 3 n + (if n mod 8 \<noteq> 0 then 1 else 0)) rq sp buf s
          else if f = MODBUS_FUNC_READ_INPUT_REGISTERS \<or> f = MODBUS_FUNC_READ_HOLDING_REGISTERS then
            create_read MODBUS_MAX_READ_REGISTERS (n * 2) rq sp buf s
          else if f = MODBUS_FUNC_WRITE_SINGLE_REGISTER \<or> f = MODBUS_FUNC_WRITE_SINGLE_COIL then
            create_write_single rq sp buf s
          else if f = MODBUS_FUNC_WRITE_MULTIPLE_COILS then create_write_coils rq sp buf s
          else if f = MODBUS_FUNC_WRITE_MULTIPLE_REGISTERS then create_write_registers le rq sp buf s
          else if f = MODBUS_FUNC_SEND_RAW_DATA then create_raw rq sp buf s
          else refuse sp buf s))"

section \<open>Checking responses\<close>

definition matches :: "nat \<Rightarrow> byte \<Rightarrow> bool" where
  "matches f b \<longleftrightarrow> f = unat b \<or> f = unat b XOR MODBUS_MASK_ERROR"

text \<open>
  The status of a frame whose checks start with the length, the slave and the function; \<open>ok\<close>
  is what follows when they hold.
\<close>

definition check_frame :: "nat \<Rightarrow> nat \<Rightarrow> ModbusSpecifics \<Rightarrow> bytes \<Rightarrow> SerialStatus outcome \<Rightarrow> SerialStatus outcome" where
  "check_frame lim len sp buf ok =
     load buf (slaveAddrOffset sp) (\<lambda>slave. load buf (slaveAddrOffset sp + 1) (\<lambda>func.
       let rq = sp_request sp in
       if 4 \<le> len \<and> len \<le> lim \<and> rq_slaveId rq = unat slave \<and> matches (rq_function rq) func then ok
       else if len < 4 then Returned SERIAL_STATUS_RESPONSE_SHORT_FRAME
       else if rq_slaveId rq \<noteq> unat slave then Returned SERIAL_STATUS_RESPONSE_BAD_SLAVE
       else if \<not> matches (rq_function rq) func then Returned SERIAL_STATUS_RESPONSE_BAD_FUNCTION
       else Returned SERIAL_STATUS_RESPONSE_INVALID_FRAME))"

definition with_state :: "Serializer \<Rightarrow> SerialStatus outcome \<Rightarrow> Serializer call" where
  "with_state s r = (case r of Returned st \<Rightarrow> Returned (st, s) | Fault \<Rightarrow> Fault | Hangs \<Rightarrow> Hangs)"

definition RTUParseResponse :: "ModbusSpecifics \<Rightarrow> Serializer \<Rightarrow> Serializer call" where
  "RTUParseResponse sp s =
     (let len = responseBufferLength s in
      need (pResponseBuffer s) (\<lambda>buf.
        with_state s (check_frame MODBUS_RTU_MAX_FRAME_SIZE len sp buf
          (load buf (len - 1) (\<lambda>h. load buf (len - 2) (\<lambda>l. load_n buf 0 (len - 2) (\<lambda>frame.
             let cRC = push_bit 8 (unat h) OR unat l in
             Returned (if \<not> RTUValidateCRC frame cRC then SERIAL_STATUS_RESPONSE_BAD_CHECKSUM
                       else SERIAL_STATUS_OK))))))))"

definition TCPParseResponse :: "ModbusSpecifics \<Rightarrow> Serializer \<Rightarrow> Serializer call" where
  "TCPParseResponse sp s =
     (let len = responseBufferLength s; off = slaveAddrOffset sp; rq = sp_request sp in
      need (pResponseBuffer s) (\<lambda>buf.
        with_state s (load_n buf 0 6 (\<lambda>mbap. load buf off (\<lambda>slave. load buf (off + 1) (\<lambda>func.
          let trId = push_bit 8 (unat (mbap ! 0)) + unat (mbap ! 1);
              length' = push_bit 8 (unat (mbap ! 4)) + unat (mbap ! 5) in
          Returned
            (if requestTrId sp \<noteq> trId \<or> len \<noteq> length' + 6 then SERIAL_STATUS_RESPONSE_INVALID_FRAME
             else if (mbap ! 2 = 0 \<and> mbap ! 3 = 0) \<and> 8 \<le> len \<and> len \<le> MODBUS_TCP_MAX_FRAME_SIZE \<and>
                 matches (rq_function rq) func then SERIAL_STATUS_OK
             else if len < 8 then SERIAL_STATUS_RESPONSE_SHORT_FRAME
             else if rq_slaveId rq \<noteq> unat slave then SERIAL_STATUS_RESPONSE_BAD_SLAVE
             else if \<not> matches (rq_function rq) func then SERIAL_STATUS_RESPONSE_BAD_FUNCTION
             else SERIAL_STATUS_RESPONSE_INVALID_FRAME)))))))"

text \<open>The start and the end of an ASCII frame in the response buffer, after its end was marked with a zero.\<close>

definition terminate :: "Serializer \<Rightarrow> bytes \<Rightarrow> (bytes \<Rightarrow> 'a outcome) \<Rightarrow> 'a outcome" where
  "terminate s buf k =
     store_at buf (if responseBufferLength s < maxSize s then responseBufferLength s else maxSize s - 1) [0] k"

definition ascii_span :: "bytes \<Rightarrow> (nat \<times> nat option) option" where
  "ascii_span buf =
     (case strstr (chars buf) [0x3a] of
        None \<Rightarrow> None
      | Some st \<Rightarrow> Some (st, map_option (\<lambda>e. st + e) (strstr (drop st (chars buf)) [0x0d, 0x0a])))"

fun hex_decode :: "bytes \<Rightarrow> bytes" where
  "hex_decode (a # b # cs) = of_nat (16 * HexDigit2Dec a + HexDigit2Dec b) # hex_decode cs"
| "hex_decode _ = []"

text \<open>
  The message between the marks is decoded into the response buffer. An empty message leaves
  the length 0, and the check sum is then taken over 65535 octets and compared with the octet
  before the buffer.
\<close>

definition ASCIIParseResponse :: "ModbusSpecifics \<Rightarrow> Serializer \<Rightarrow> Serializer call" where
  "ASCIIParseResponse sp s =
     need (pResponseBuffer s) (\<lambda>buf. terminate s buf (\<lambda>buf.
       case ascii_span buf of
         Some (st, Some e) \<Rightarrow>
           if st < e then
             let msg = take (e - (st + 1)) (drop (st + 1) buf) in
             need (pTempBuffer s) (\<lambda>tmp. store_at tmp 0 msg (\<lambda>tmp.
               let data = hex_decode msg; len = length data in
               store_at buf 0 data (\<lambda>buf.
                 let s = s\<lparr>responseBufferLength := len, pResponseBuffer := Some buf, pTempBuffer := Some tmp\<rparr> in
                 if len = 0 then Fault
                 else load_n buf 0 (len - 1) (\<lambda>frame. load buf (len - 1) (\<lambda>lrc.
                   if \<not> ASCIIValidateLRC frame lrc then Returned (SERIAL_STATUS_RESPONSE_BAD_CHECKSUM, s)
                   else with_state s (check_frame MODBUS_RTU_MAX_FRAME_SIZE len sp buf (Returned SERIAL_STATUS_OK)))))))
           else Returned (SERIAL_STATUS_RESPONSE_INCOMPLETE_FRAME, s\<lparr>pResponseBuffer := Some buf\<rparr>)
       | _ \<Rightarrow> Returned (SERIAL_STATUS_RESPONSE_INCOMPLETE_FRAME, s\<lparr>pResponseBuffer := Some buf\<rparr>)))"

definition MODBUS_SER_CheckResponse :: "Serializer \<Rightarrow> Serializer call" where
  "MODBUS_SER_CheckResponse s =
     need (pSpecifics s) (\<lambda>sp.
       case requestMode sp of
         MODBUS_RTU \<Rightarrow> RTUParseResponse sp s
       | MODBUS_ASCII \<Rightarrow> ASCIIParseResponse sp s
       | MODBUS_TCP \<Rightarrow> TCPParseResponse sp s)"

definition MODBUS_SER_IsResponseComplete :: "Serializer \<Rightarrow> (bool \<times> Serializer) outcome" where
  "MODBUS_SER_IsResponseComplete s =
     need (pSpecifics s) (\<lambda>sp.
       case requestMode sp of
         MODBUS_ASCII \<Rightarrow>
           need (pResponseBuffer s) (\<lambda>buf. terminate s buf (\<lambda>buf.
             case ascii_span buf of
               None \<Rightarrow> Returned (False, s\<lparr>pResponseBuffer := Some buf, responseBufferLength := 0\<rparr>)
             | Some (st, None) \<Rightarrow> Returned (False, s\<lparr>pResponseBuffer := Some buf\<rparr>)
             | Some (st, Some e) \<Rightarrow> Returned (st < e, s\<lparr>pResponseBuffer := Some buf\<rparr>)))
       | _ \<Rightarrow> Returned (True, s))"

section \<open>Analysing responses\<close>

definition ParseFunction :: "ModbusSpecifics \<Rightarrow> bytes \<Rightarrow> (nat \<Rightarrow> 'a outcome) \<Rightarrow> 'a outcome" where
  "ParseFunction sp buf k =
     load buf (slaveAddrOffset sp + 1) (\<lambda>b.
       k (if unat b AND MODBUS_MASK_ERROR \<noteq> MODBUS_MASK_ERROR then unat b else MODBUS_MASK_ERROR))"

text \<open>
  The loops that fill the memory of the caller; \<open>index\<close> is a \<open>uint8_t\<close>. The result is the
  new content of the memory that the request and the response point to.
\<close>

definition fill :: "nat \<Rightarrow> (nat \<Rightarrow> bytes \<Rightarrow> bytes option) \<Rightarrow> modbus_value \<Rightarrow> (modbus_value \<Rightarrow> 'a outcome) \<Rightarrow> 'a outcome" where
  "fill count body v k =
     (case v of
        V_ptr mem \<Rightarrow>
          (case u8_loop 0 count body mem of
             None \<Rightarrow> Hangs
           | Some None \<Rightarrow> Fault
           | Some (Some mem') \<Rightarrow> k (V_ptr mem'))
      | _ \<Rightarrow> if count = 0 then k v else Fault)"

definition copy_octet :: "bytes \<Rightarrow> nat \<Rightarrow> nat \<Rightarrow> bytes \<Rightarrow> bytes option" where
  "copy_octet buf off i mem =
     (if off + i < length buf \<and> i < length mem then Some (mem[i := buf ! (off + i)]) else None)"

definition copy_register :: "bool \<Rightarrow> bytes \<Rightarrow> nat \<Rightarrow> nat \<Rightarrow> bytes \<Rightarrow> bytes option" where
  "copy_register le buf off i mem =
     (if off + 2 * i + 1 < length buf \<and> 2 * i + 1 < length mem then
        let h = buf ! (off + 2 * i); l = buf ! (off + 2 * i + 1)
        in Some (if le then mem[2 * i := l, 2 * i + 1 := h] else mem[2 * i := h, 2 * i + 1 := l])
      else None)"

type_synonym parser = "ModbusSpecifics \<Rightarrow> bytes \<Rightarrow> (SerialStatus \<times> ModbusSpecifics) outcome"

definition ParseReadInputs :: parser where
  "ParseReadInputs sp buf =
     (let off = slaveAddrOffset sp in
      load buf (off + 2) (\<lambda>b2. load buf (off + 3) (\<lambda>b3.
        let rs = (sp_response sp)\<lparr>rs_startingAddress := push_bit 8 (unat b2) + unat b3, rs_byteCount := unat b2\<rparr>;
            sp = sp\<lparr>sp_response := rs\<rparr> in
        if rq_byteCount (sp_request sp) \<noteq> rs_byteCount rs then Returned (SERIAL_STATUS_UNEXPECTED_ERROR, sp)
        else fill (rs_byteCount rs) (copy_octet buf (off + 3)) (rq_value (sp_request sp)) (\<lambda>v.
          Returned (SERIAL_STATUS_OK, sp\<lparr>sp_response := rs\<lparr>rs_value := v\<rparr>\<rparr>)))))"

definition ParseReadRegisters :: "bool \<Rightarrow> parser" where
  "ParseReadRegisters le sp buf =
     (let off = slaveAddrOffset sp in
      load buf (off + 2) (\<lambda>b2. load buf (off + 3) (\<lambda>b3.
        let rs = (sp_response sp)\<lparr>rs_startingAddress := push_bit 8 (unat b2) + unat b3, rs_byteCount := unat b2\<rparr> in
        if rq_byteCount (sp_request sp) \<noteq> rs_byteCount rs
        then Returned (SERIAL_STATUS_UNEXPECTED_ERROR, sp\<lparr>sp_response := rs\<rparr>)
        else let rs = rs\<lparr>rs_numberOfObjects := drop_bit 1 (rs_byteCount rs)\<rparr> in
             fill (rs_numberOfObjects rs) (copy_register le buf (off + 3)) (rq_value (sp_request sp)) (\<lambda>v.
               Returned (SERIAL_STATUS_OK, sp\<lparr>sp_response := rs\<lparr>rs_value := v\<rparr>\<rparr>)))))"

definition ParseWriteObject :: parser where
  "ParseWriteObject sp buf =
     (let off = slaveAddrOffset sp in
      load buf (off + 2) (\<lambda>b2. load buf (off + 3) (\<lambda>b3. load buf (off + 4) (\<lambda>b4. load buf (off + 5) (\<lambda>b5.
        Returned (SERIAL_STATUS_OK, sp\<lparr>sp_response := (sp_response sp)\<lparr>
          rs_startingAddress := push_bit 8 (unat b2) + unat b3, rs_numberOfObjects := push_bit 8 (unat b4) + unat b5,
          rs_byteCount := 0, rs_value := V_null\<rparr>\<rparr>))))))"

text \<open>The byte count is a \<open>uint16_t\<close> and the index a \<open>uint8_t\<close>.\<close>

definition ParseRawData :: "nat \<Rightarrow> parser" where
  "ParseRawData len sp buf =
     (let off = slaveAddrOffset sp; n = nat ((int len - int off) mod 2 ^ 16);
          rs = (sp_response sp)\<lparr>rs_startingAddress := 0, rs_byteCount := n, rs_numberOfObjects := drop_bit 1 n\<rparr> in
      fill n (copy_octet buf off) (rq_value (sp_request sp)) (\<lambda>v.
        Returned (SERIAL_STATUS_OK, sp\<lparr>sp_response := rs\<lparr>rs_value := v\<rparr>\<rparr>)))"

text \<open>The dispatch on the function of the response.\<close>

definition parse_response :: "bool \<Rightarrow> nat \<Rightarrow> nat \<Rightarrow> parser" where
  "parse_response le len f sp buf =
     (if isCustom sp \<and> f \<noteq> MODBUS_MASK_ERROR then ParseRawData len sp buf
      else if f = MODBUS_FUNC_READ_COILS \<or> f = MODBUS_FUNC_READ_DISCRETE_INPUTS then ParseReadInputs sp buf
      else if f = MODBUS_FUNC_READ_HOLDING_REGISTERS \<or> f = MODBUS_FUNC_READ_INPUT_REGISTERS
        then ParseReadRegisters le sp buf
      else if f = MODBUS_FUNC_WRITE_SINGLE_COIL \<or> f = MODBUS_FUNC_WRITE_SINGLE_REGISTER \<or>
          f = MODBUS_FUNC_WRITE_MULTIPLE_COILS \<or> f = MODBUS_FUNC_WRITE_MULTIPLE_REGISTERS
        then ParseWriteObject sp buf
      else if f = MODBUS_FUNC_SEND_RAW_DATA then ParseRawData len sp buf
      else if f = MODBUS_MASK_ERROR then
        load buf (slaveAddrOffset sp + 2) (\<lambda>b.
          Returned (SERIAL_STATUS_RESPONSE_EXCEPTION, sp\<lparr>sp_response := (sp_response sp)\<lparr>
            rs_function := f XOR MODBUS_MASK_ERROR, rs_exception := unat b\<rparr>\<rparr>))
      else Returned (SERIAL_STATUS_OK, sp))"

definition forget_values :: "Serializer \<Rightarrow> SerialStatus \<times> ModbusSpecifics \<Rightarrow> Serializer call" where
  "forget_values s r =
     Returned (fst r, s\<lparr>pSpecifics := Some ((snd r)\<lparr>sp_request := (sp_request (snd r))\<lparr>rq_value := V_null\<rparr>\<rparr>)\<rparr>)"

definition MODBUS_SER_AnalyzeResponse :: "bool \<Rightarrow> SerialStatus \<Rightarrow> Serializer \<Rightarrow> Serializer call" where
  "MODBUS_SER_AnalyzeResponse le status s =
     need (pSpecifics s) (\<lambda>sp.
       if status = SERIAL_STATUS_OK then
         need (pResponseBuffer s) (\<lambda>buf. ParseFunction sp buf (\<lambda>f.
           let sp = sp\<lparr>sp_response := (sp_response sp)\<lparr>rs_function := f\<rparr>\<rparr> in
           case parse_response le (responseBufferLength s) f sp buf of
             Returned r \<Rightarrow> forget_values s r
           | Fault \<Rightarrow> Fault
           | Hangs \<Rightarrow> Hangs))
       else if status = SERIAL_STATUS_RESPONSE_TIMEOUT then
         forget_values s (status, sp\<lparr>sp_response := (sp_response sp)\<lparr>rs_function := rq_function (sp_request sp)\<rparr>\<rparr>)
       else forget_values s (status, sp))"

section \<open>Life cycle and queries\<close>

text \<open>
  \<open>mal k n\<close> is the block of the \<open>k\<close>-th allocation, of \<open>n\<close> octets. The specifics are
  allocated first; the fields that the code does not set keep the content \<open>junk\<close> of the block.
\<close>

definition mode_of :: "nat \<Rightarrow> ModbusRequestMode" where
  "mode_of m = (if m = 2 then MODBUS_ASCII else if m = 3 then MODBUS_TCP else MODBUS_RTU)"

definition max_frame :: "ModbusRequestMode \<Rightarrow> nat" where
  "max_frame m = (case m of MODBUS_ASCII \<Rightarrow> MODBUS_ASCII_MAX_FRAME_SIZE | MODBUS_RTU \<Rightarrow> MODBUS_RTU_MAX_FRAME_SIZE
     | MODBUS_TCP \<Rightarrow> MODBUS_TCP_MAX_FRAME_SIZE)"

definition slave_offset :: "ModbusRequestMode \<Rightarrow> nat" where
  "slave_offset m = (case m of MODBUS_TCP \<Rightarrow> 6 | _ \<Rightarrow> 0)"

definition init_specifics :: "ModbusRequestMode \<Rightarrow> ModbusSpecifics \<Rightarrow> ModbusSpecifics" where
  "init_specifics m junk =
     junk\<lparr>requestTrId := 0, slaveAddrOffset := slave_offset m, requestMode := m,
       sp_request := (sp_request junk)\<lparr>rq_slaveId := 0, rq_function := MODBUS_MASK_ERROR, rq_byteCount := 0,
         rq_value := V_null\<rparr>,
       sp_response := (sp_response junk)\<lparr>rs_slaveId := 0, rs_function := MODBUS_MASK_ERROR, rs_exception := 0,
         rs_byteCount := 0, rs_value := V_null\<rparr>\<rparr>"

definition MODBUS_SER_InitSerializer ::
  "ModbusSpecifics option \<Rightarrow> (nat \<Rightarrow> nat \<Rightarrow> bytes option) \<Rightarrow> nat \<Rightarrow> Serializer \<Rightarrow> SerialStatus \<times> Serializer" where
  "MODBUS_SER_InitSerializer specs mal mode s =
     (if mode = 0 then (SERIAL_STATUS_WRONG_PARAMS, s)
      else case specs of
             None \<Rightarrow> (SERIAL_STATUS_ALLOC_FAILED, s\<lparr>pSpecifics := None\<rparr>)
           | Some junk \<Rightarrow>
               let m = mode_of mode; n = max_frame m;
                   s = s\<lparr>requestBufferLength := 0, responseBufferLength := 0, maxSize := n,
                         pSpecifics := Some (init_specifics m junk), pRequestBuffer := mal 1 n,
                         pResponseBuffer := mal 2 n, pTempBuffer := mal 3 n\<rparr> in
               if pRequestBuffer s = None \<or> pResponseBuffer s = None \<or> pTempBuffer s = None
               then (SERIAL_STATUS_ALLOC_FAILED, s) else (SERIAL_STATUS_OK, s))"

definition MODBUS_SER_ReleaseSerializer :: "Serializer \<Rightarrow> Serializer" where
  "MODBUS_SER_ReleaseSerializer s =
     s\<lparr>pSpecifics := None, pRequestBuffer := None, pResponseBuffer := None, pTempBuffer := None\<rparr>"

definition MODBUS_SER_GetRequestPDU :: "Serializer \<Rightarrow> SerialStatus + bytes \<times> nat" where
  "MODBUS_SER_GetRequestPDU s =
     (case pRequestBuffer s of None \<Rightarrow> Inl SERIAL_STATUS_STACK_NOT_READY | Some buf \<Rightarrow> Inr (buf, requestBufferLength s))"

definition MODBUS_SER_GetResponsePDU :: "Serializer \<Rightarrow> SerialStatus + bytes \<times> nat" where
  "MODBUS_SER_GetResponsePDU s =
     (case pResponseBuffer s of None \<Rightarrow> Inl SERIAL_STATUS_STACK_NOT_READY | Some buf \<Rightarrow> Inr (buf, responseBufferLength s))"

definition MODBUS_SER_GetExpectedResponseLength :: "Serializer \<Rightarrow> nat outcome" where
  "MODBUS_SER_GetExpectedResponseLength s =
     need (pSpecifics s) (\<lambda>sp.
       let f = rq_function (sp_request sp); n = rq_byteCount (sp_request sp);
           reading = (f = MODBUS_FUNC_READ_COILS \<or> f = MODBUS_FUNC_READ_DISCRETE_INPUTS \<or>
             f = MODBUS_FUNC_READ_HOLDING_REGISTERS \<or> f = MODBUS_FUNC_READ_INPUT_REGISTERS);
           writing = (f = MODBUS_FUNC_WRITE_SINGLE_COIL \<or> f = MODBUS_FUNC_WRITE_SINGLE_REGISTER \<or>
             f = MODBUS_FUNC_WRITE_MULTIPLE_COILS \<or> f = MODBUS_FUNC_WRITE_MULTIPLE_REGISTERS) in
       Returned (u16
         (if isCustom sp then maxSize s
          else case requestMode sp of
                 MODBUS_RTU \<Rightarrow> if reading then 1 + 1 + 1 + n + 2 else if writing then 1 + 1 + 2 + 2 + 2
                   else MODBUS_RTU_MAX_FRAME_SIZE
               | MODBUS_ASCII \<Rightarrow> if reading then 1 + 2 + 2 + 2 + 2 * n + 2 + 2 else if writing then 1 + 2 + 2 + 4 + 4 + 2 + 2
                   else MODBUS_ASCII_MAX_FRAME_SIZE
               | MODBUS_TCP \<Rightarrow> if reading then 7 + 1 + 1 + n else if writing then 7 + 1 + 2 + 2
                   else MODBUS_TCP_MAX_FRAME_SIZE)))"

definition exceptionMessages :: "string list" where
  "exceptionMessages = [''no exception'', ''illegal function'', ''illegal data address'', ''illegal data value'',
     ''slave device failure'', ''acknowledge'', ''slave device busy'', ''memory parity error'',
     ''gateway path unavailable'', ''target device failed to respond'', ''unresolved exception'']"

definition MODBUS_SER_GetExceptionString :: "nat \<Rightarrow> string" where
  "MODBUS_SER_GetExceptionString e =
     exceptionMessages ! (if e = 0x00 then 0 else if e = 0x01 then 1 else if e = 0x02 then 2 else if e = 0x03 then 3
       else if e = 0x04 then 4 else if e = 0x05 then 5 else if e = 0x06 then 6 else if e = 0x08 then 7
       else if e = 0x0a then 8 else if e = 0x0b then 9 else 10)"

end
