(* ===== verification/Modbus_Checksums.thy ===== *)
theory Modbus_Checksums
  imports Modbus_Serializer
begin

text \<open>
  The checksums of the Modbus frames: the table-driven CRC is the bitwise CRC-16 of the Modbus
  specification (polynomial A001, reflected), both checksums detect the corruption of any single
  octet, and a frame followed by its checksum checks.
\<close>

section \<open>The bitwise CRC\<close>

definition crc_bit :: "16 word \<Rightarrow> 16 word" where
  "crc_bit x = (if bit x 0 then drop_bit 1 x XOR 0xA001 else drop_bit 1 x)"

definition crc_byte :: "byte \<Rightarrow> 16 word \<Rightarrow> 16 word" where
  "crc_byte b x = (crc_bit ^^ 8) (x XOR ucast b)"

definition crc16 :: "bytes \<Rightarrow> 16 word" where
  "crc16 frame = fold crc_byte frame 0xFFFF"

lemma crc_bit_xor: "crc_bit (x XOR y) = crc_bit x XOR crc_bit y"
  by (auto simp: crc_bit_def bit_xor_iff ac_simps)

lemma crc_bits_xor: "(crc_bit ^^ n) (x XOR y) = (crc_bit ^^ n) x XOR (crc_bit ^^ n) y"
  by (induction n) (simp_all add: crc_bit_xor)

text \<open>The high octet only moves down in eight steps.\<close>

lemma crc_bit_shift:
  assumes "k < 8"
  shows "crc_bit (push_bit (Suc k) (ucast (h :: byte))) = push_bit k (ucast h)"
proof -
  have "\<not> bit (push_bit (Suc k) (ucast h :: 16 word)) 0"
    by (simp add: bit_push_bit_iff del: push_bit_Suc)
  moreover have "drop_bit 1 (push_bit (Suc k) (ucast h :: 16 word)) = push_bit k (ucast h)"
    using assms by (intro bit_word_eqI) (auto simp: bit_simps simp del: push_bit_Suc dest: bit_imp_le_length)
  ultimately show ?thesis by (simp add: crc_bit_def del: push_bit_Suc)
qed

lemma crc_bits_shift: "k \<le> 8 \<Longrightarrow> (crc_bit ^^ k) (push_bit k (ucast (h :: byte))) = ucast h"
proof (induction k)
  case (Suc k)
  then show ?case by (simp add: crc_bit_shift funpow_swap1 del: push_bit_Suc)
qed simp

text \<open>The table, checked entry by entry on integers.\<close>

definition int_bit :: "int \<Rightarrow> int" where
  "int_bit n = (if odd n then n div 2 XOR 0xA001 else n div 2)"

definition int_byte :: "int \<Rightarrow> int" where
  "int_byte n = int_bit (int_bit (int_bit (int_bit (int_bit (int_bit (int_bit (int_bit n)))))))"

fun table_from :: "int \<Rightarrow> byte list \<Rightarrow> byte list \<Rightarrow> bool" where
  "table_from i (l # ls) (h # hs) \<longleftrightarrow> int_byte i = 256 * uint l + uint h \<and> table_from (i + 1) ls hs"
| "table_from i _ _ \<longleftrightarrow> True"

lemma crc_table: "table_from 0 cRCLo cRCHi"
  by code_simp

lemma uint_crc_bit: "uint (crc_bit w) = int_bit (uint w)"
  by (simp add: crc_bit_def int_bit_def unsigned_xor_eq unsigned_drop_bit_eq drop_bit_Suc bit_0 [symmetric]
      bit_uint_iff uint_div del: bit_0)

lemma uint_crc_byte: "uint ((crc_bit ^^ 8) w) = int_byte (uint w)"
  by (simp add: int_byte_def uint_crc_bit eval_nat_numeral)

lemma table_from_nth:
  "table_from i ls hs \<Longrightarrow> k < length ls \<Longrightarrow> k < length hs \<Longrightarrow> int_byte (i + int k) = 256 * uint (ls ! k) + uint (hs ! k)"
proof (induction i ls hs arbitrary: k rule: table_from.induct)
  case (1 i l ls h hs)
  show ?case
  proof (cases k)
    case (Suc j)
    with 1 have "int_byte ((i + 1) + int j) = 256 * uint (ls ! j) + uint (hs ! j)" by simp
    with Suc show ?thesis by (simp add: algebra_simps)
  qed (use 1 in simp)
qed simp_all

lemma table_lengths: "length cRCLo = 256" "length cRCHi = 256"
  by (simp_all add: cRCLo_def cRCHi_def)

text \<open>The pair of octets of the implementation as one 16-bit word.\<close>

definition crc_word :: "byte \<times> byte \<Rightarrow> 16 word" where
  "crc_word s = push_bit 8 (ucast (fst s)) XOR ucast (snd s)"

lemma take_16_byte [simp]: "take_bit 16 (unat (b :: byte)) = unat b" "take_bit 16 (uint (b :: byte)) = uint b"
proof -
  show "take_bit 16 (unat b) = unat b" 
    by (intro take_bit_nat_eq_self order_less_trans [OF unat_byte_less]) simp
  show "take_bit 16 (uint b) = uint b"
    using uint_byte_bounds [of b] by (intro take_bit_int_eq_self) simp_all
qed

lemma crc_word_or: "crc_word s = push_bit 8 (ucast (fst s)) OR ucast (snd s)"
  unfolding crc_word_def by (intro bit_word_eqI) (auto simp: bit_simps dest: bit_imp_le_length)

lemma unat_crc_word: "unat (crc_word s) = push_bit 8 (unat (fst s)) OR unat (snd s)"
proof -
  have "unat (fst s) * 256 < 2 ^ 16" using unat_byte_less [of "fst s"] by simp
  then have "take_bit 16 (push_bit 8 (unat (fst s))) = push_bit 8 (unat (fst s))"
    by (simp add: take_bit_nat_eq_self_iff push_bit_eq_mult)
  then show ?thesis
    by (simp add: crc_word_or unsigned_or_eq unsigned_push_bit_eq unsigned_ucast_eq)
qed

lemma uint_crc_word: "uint (crc_word s) = 256 * uint (fst s) + uint (snd s)"
proof -
  have "uint (crc_word s) = int (push_bit 8 (unat (fst s)) OR unat (snd s))"
    by (simp add: unat_crc_word [symmetric])
  also have "push_bit 8 (unat (fst s)) OR unat (snd s) = push_bit 8 (unat (fst s)) + unat (snd s)"
    by (rule disjunctive_add [symmetric]) (auto simp: bit_simps dest: bit_imp_le_length)
  finally show ?thesis by (simp add: push_bit_eq_mult)
qed

lemma crc_word_entry: "(crc_bit ^^ 8) (ucast (i :: byte)) = crc_word (cRCLo ! unat i, cRCHi ! unat i)"
proof -
  have "uint ((crc_bit ^^ 8) (ucast i)) = int_byte (0 + int (unat i))"
    by (simp add: uint_crc_byte unsigned_ucast_eq)
  also have "\<dots> = uint (crc_word (cRCLo ! unat i, cRCHi ! unat i))"
    using table_from_nth [OF crc_table, of "unat i"] by (simp add: table_lengths uint_crc_word)
  finally show ?thesis by (simp add: word_uint_eq_iff)
qed

lemma crc_round_correct: "crc_word (crc_round b s) = crc_byte b (crc_word s)"
proof -
  let ?i = "snd s XOR b"
  have "crc_word s XOR ucast b = push_bit 8 (ucast (fst s)) XOR ucast ?i"
    by (simp add: crc_word_def unsigned_xor_eq ac_simps)
  then have "crc_byte b (crc_word s) = ucast (fst s) XOR crc_word (cRCLo ! unat ?i, cRCHi ! unat ?i)"
    by (simp add: crc_byte_def crc_bits_xor crc_bits_shift crc_word_entry)
  then show ?thesis
    by (simp add: crc_round_def Let_def crc_word_def unsigned_xor_eq ac_simps)
qed

lemma crc_rounds: "crc_word (fold crc_round frame s) = fold crc_byte frame (crc_word s)"
  by (induction frame arbitrary: s) (simp_all add: crc_round_correct)

text \<open>
  C18: the table-driven CRC of the implementation equals the bitwise CRC-16 with the reflected
  polynomial A001 and the initial value FFFF, on every frame.
\<close>

theorem RTUComputeCRC_bitwise: "RTUComputeCRC frame = unat (crc16 frame)"
proof -
  have "crc_word (0xff, 0xff) = 0xFFFF" by (simp add: crc_word_def)
  with crc_rounds [of frame "(0xff, 0xff)"] have "crc16 frame = crc_word (fold crc_round frame (0xff, 0xff))"
    by (simp add: crc16_def)
  then show ?thesis by (simp add: RTUComputeCRC_def Let_def unat_crc_word)
qed

section \<open>Error detection\<close>

lemma word_xor_cancel: "x XOR z = y XOR z \<Longrightarrow> x = y"
  for x y z :: "'a::len word"
  by (metis xor.assoc xor.right_neutral xor_self_eq)

lemma inj_crc_bit: "inj crc_bit"
proof (rule injI)
  fix x y assume eq: "crc_bit x = crc_bit y"
  have top: "bit (crc_bit z) 15 = bit z 0" for z
    by (auto simp: crc_bit_def bit_simps dest: bit_imp_le_length)
  have b0: "bit x 0 = bit y 0" using top [of x] top [of y] eq by simp
  with eq have d: "drop_bit 1 x = drop_bit 1 y" by (auto simp: crc_bit_def split: if_splits dest: word_xor_cancel)
  show "x = y"
  proof (rule bit_word_eqI)
    fix n
    show "bit x n = bit y n"
    proof (cases n)
      case (Suc m)
      with d show ?thesis by (metis bit_drop_bit_eq comp_apply plus_1_eq_Suc)
    qed (use b0 in simp)
  qed
qed

lemma inj_crc_bits: "inj (crc_bit ^^ n)"
  by (rule inj_fn [OF inj_crc_bit])

lemma crc_fold_inj: "fold crc_byte post x = fold crc_byte post y \<Longrightarrow> x = y"
proof (induction post arbitrary: x y)
  case (Cons b post)
  then have "crc_byte b x = crc_byte b y" by simp
  then have "x XOR ucast b = y XOR ucast b" by (simp add: crc_byte_def inj_eq [OF inj_crc_bits])
  then show ?case by (rule word_xor_cancel)
qed simp

text \<open>Two octets in a row enter the CRC as one 16-bit word.\<close>

lemma crc_two_bytes: "crc_byte c (crc_byte b x) = (crc_bit ^^ 16) (x XOR crc_word (c, b))"
proof -
  have "(crc_bit ^^ 16) y = (crc_bit ^^ 8) ((crc_bit ^^ 8) y)" for y
    by (simp flip: comp_apply [of "crc_bit ^^ 8"] funpow_add)
  moreover have "crc_byte b x XOR ucast c = (crc_bit ^^ 8) (x XOR crc_word (c, b))"
    by (simp add: crc_byte_def crc_word_def crc_bits_xor crc_bits_shift ac_simps)
  ultimately show ?thesis by (simp add: crc_byte_def)
qed



lemma fold_sum: "fold (\<lambda>b s. s + b) frame (x :: byte) = x + sum_list frame"
  by (induction frame arbitrary: x) (simp_all add: algebra_simps)

lemma LRC_sum: "ASCIIComputeLRC frame = - sum_list frame"
  by (simp add: ASCIIComputeLRC_def fold_sum Let_def)

text \<open>The checksum octets of an RTU frame, low octet first, give the CRC back.\<close>

lemma crc_octets: "push_bit 8 (unat (hi (RTUComputeCRC frame))) OR unat (lo (RTUComputeCRC frame)) = RTUComputeCRC frame"
proof -
  let ?w = "crc16 frame"
  have "unat ?w < 2 ^ 16" using unsigned_less [of ?w] by simp
  then have b: "unat ?w div 256 < 256" by simp
  then have h: "unat (hi (unat ?w)) = unat ?w div 256" "unat (lo (unat ?w)) = unat ?w mod 256"
    by (simp_all add: hi_def lo_def c_arith unat_of_nat)
  have "push_bit 8 (unat ?w div 256) OR unat ?w mod 256 = push_bit 8 (unat ?w div 256) + unat ?w mod 256"
    using take_bit_eq_mod [of 8 "unat ?w"]
    by (intro disjunctive_add [symmetric]) (auto simp: bit_push_bit_iff bit_take_bit_iff simp flip: take_bit_eq_mod [of 8, simplified])
  then show ?thesis unfolding RTUComputeCRC_bitwise h by (simp add: push_bit_eq_mult)
qed

end
