(* ===== verification/Modbus_Frames.thy ===== *)
theory Modbus_Frames
  imports Modbus_Checksums
begin

text \<open>
  What the request builder promises, against the frames of the Modbus specification: a reference
  for the application data unit of each transport, the invariant of an initialised serializer,
  and the theorem that every valid request is built as its reference frame inside the buffer.
  The sizes that the builder does not check are shown to overflow.
\<close>

section \<open>Reference frames\<close>

definition adu :: "ModbusRequestMode \<Rightarrow> nat \<Rightarrow> bytes \<Rightarrow> bytes" where
  "adu m tr p =
     (case m of
        MODBUS_RTU \<Rightarrow> p @ [lo (RTUComputeCRC p), hi (RTUComputeCRC p)]
      | MODBUS_ASCII \<Rightarrow> 0x3a # concat (map hex2 (p @ [ASCIIComputeLRC p])) @ [0x0d, 0x0a]
      | MODBUS_TCP \<Rightarrow> [hi tr, lo tr, 0, 0, hi (length p), lo (length p)] @ p)"

definition request_pdu :: "bool \<Rightarrow> ModbusRequest \<Rightarrow> bytes" where
  "request_pdu le rq =
     (let f = rq_function rq; n = rq_numberOfObjects rq; b = rq_byteCount rq;
          mem = (case rq_value rq of V_ptr m \<Rightarrow> m | _ \<Rightarrow> []) in
      if f = MODBUS_FUNC_WRITE_SINGLE_COIL \<or> f = MODBUS_FUNC_WRITE_SINGLE_REGISTER
        then request_head rq (case rq_value rq of V_int v \<Rightarrow> v | _ \<Rightarrow> 0)
      else if f = MODBUS_FUNC_WRITE_MULTIPLE_COILS then request_head rq n @ [of_nat b] @ take b mem
      else if f = MODBUS_FUNC_WRITE_MULTIPLE_REGISTERS
        then request_head rq n @ [of_nat (2 * n)] @ reg_octets le (take (2 * n) mem)
      else if f = MODBUS_FUNC_SEND_RAW_DATA then [of_nat (rq_slaveId rq), of_nat f] @ take b mem
      else request_head rq n)"

text \<open>The invariant of an initialised serializer.\<close>

definition modbus_inv :: "Serializer \<Rightarrow> bool" where
  "modbus_inv s \<longleftrightarrow>
     (\<exists>sp qb rb tb. pSpecifics s = Some sp \<and> pRequestBuffer s = Some qb \<and> pResponseBuffer s = Some rb \<and>
        pTempBuffer s = Some tb \<and> maxSize s = max_frame (requestMode sp) \<and> length qb = maxSize s \<and>
        length rb = maxSize s \<and> length tb = maxSize s \<and> slaveAddrOffset sp = slave_offset (requestMode sp) \<and>
        requestTrId sp < 0xffff)"

definition frame_of :: "Serializer \<Rightarrow> bytes" where
  "frame_of s = take (requestBufferLength s) (the (pRequestBuffer s))"

text \<open>The requests of the specification with the memory they need.\<close>

definition has_values :: "modbus_value \<Rightarrow> nat \<Rightarrow> bool" where
  "has_values v n \<longleftrightarrow> (\<exists>mem. v = V_ptr mem \<and> n \<le> length mem)"

definition valid_request :: "ModbusRequest \<Rightarrow> bool" where
  "valid_request rq \<longleftrightarrow>
     (let f = rq_function rq; n = rq_numberOfObjects rq; b = rq_byteCount rq in
      0 < rq_slaveId rq \<and> rq_slaveId rq < 256 \<and>
      (f \<in> {MODBUS_FUNC_READ_COILS, MODBUS_FUNC_READ_DISCRETE_INPUTS} \<and> 0 < n \<and> n \<le> 2000 \<and> rq_value rq \<noteq> V_null \<or>
       f \<in> {MODBUS_FUNC_READ_HOLDING_REGISTERS, MODBUS_FUNC_READ_INPUT_REGISTERS} \<and> 0 < n \<and> n \<le> 125 \<and>
         rq_value rq \<noteq> V_null \<or>
       f \<in> {MODBUS_FUNC_WRITE_SINGLE_COIL, MODBUS_FUNC_WRITE_SINGLE_REGISTER} \<and> (\<exists>v. rq_value rq = V_int v) \<or>
       f = MODBUS_FUNC_WRITE_MULTIPLE_COILS \<and> 0 < n \<and> n \<le> 1968 \<and> b \<le> 246 \<and> has_values (rq_value rq) b \<or>
       f = MODBUS_FUNC_WRITE_MULTIPLE_REGISTERS \<and> 0 < n \<and> n \<le> 123 \<and> has_values (rq_value rq) (2 * n) \<or>
       f = MODBUS_FUNC_SEND_RAW_DATA \<and> 0 < b \<and> b \<le> 252 \<and> has_values (rq_value rq) b))"

section \<open>Lengths\<close>

lemma length_adu:
  "length (adu m tr p) = (case m of MODBUS_RTU \<Rightarrow> length p + 2 | MODBUS_ASCII \<Rightarrow> 2 * length p + 5 | MODBUS_TCP \<Rightarrow> length p + 6)"
  by (cases m) (simp_all add: adu_def)

lemma length_reg_octets: "length (reg_octets le mem) = 2 * (length mem div 2)"
  by (induction le mem rule: reg_octets.induct) simp_all

lemma length_request_head [simp]: "length (request_head rq v) = 6"
  by (simp add: request_head_def)

text \<open>A data unit of at most 254 octets fits every transport, one that is longer none.\<close>

lemma adu_fits: "length (adu m tr p) \<le> max_frame m \<longleftrightarrow> length p \<le> 254"
  by (cases m) (auto simp: length_adu max_frame_def size_defs)

section \<open>The transports\<close>

lemma RTUCreateRequest_frame:
  assumes "pRequestBuffer s = Some (overwrite buf 0 p)" "requestBufferLength s = length p" "length buf = 256" "length p \<le> 254"
  shows "RTUCreateRequest sp s = Returned (SERIAL_STATUS_OK, s\<lparr>requestBufferLength := length p + 2,
     pRequestBuffer := Some (overwrite buf 0 (adu MODBUS_RTU tr p)), pSpecifics := Some sp\<rparr>)"
proof -
  have t: "take (length p) (overwrite buf 0 p) = p" by (simp add: overwrite_0)
  have w: "overwrite (overwrite buf 0 p) (length p) cs = overwrite buf 0 (p @ cs)" if "length cs = 2" for cs
    using assms that by (intro overwrite_append) auto
  show ?thesis
    using assms by (simp add: RTUCreateRequest_def Let_def load_n_def store_at_def t w adu_def)
qed

lemma TCPCreateRequest_frame:
  assumes "pRequestBuffer s = Some (overwrite buf 6 p)" "requestBufferLength s = length p" "length buf = 260" "length p \<le> 254"
  shows "TCPCreateRequest sp s = (let tr = (requestTrId sp + 1) mod 0xffff in
     Returned (SERIAL_STATUS_OK, s\<lparr>requestBufferLength := length p + 6,
       pRequestBuffer := Some (overwrite buf 0 (adu MODBUS_TCP tr p)), pSpecifics := Some (sp\<lparr>requestTrId := tr\<rparr>)\<rparr>))"
proof -
  have w: "overwrite (overwrite buf 6 p) 0 cs = overwrite buf 0 (cs @ p)" if "length cs = 6" for cs
    using assms that by (simp add: overwrite_def)
  show ?thesis
    using assms by (simp add: TCPCreateRequest_def Let_def store_at_def w adu_def)
qed

lemma ASCIICreateRequest_frame:
  assumes "pRequestBuffer s = Some (overwrite buf 0 p)" "requestBufferLength s = length p" "length buf = 514" "length p \<le> 254"
    and "pTempBuffer s = Some tmp" "length tmp = 514"
  shows "ASCIICreateRequest sp s = Returned (SERIAL_STATUS_OK, s\<lparr>requestBufferLength := 2 * length p + 5,
     pRequestBuffer := Some (overwrite buf 0 (adu MODBUS_ASCII tr p)),
     pTempBuffer := Some (overwrite tmp 0 (p @ [ASCIIComputeLRC p])), pSpecifics := Some sp\<rparr>)"
proof -
  let ?q = "p @ [ASCIIComputeLRC p]"
  have t: "take (length p) (overwrite buf 0 p) = p" by (simp add: overwrite_0)
  have w: "overwrite (overwrite buf 0 p) (length p) [ASCIIComputeLRC p] = overwrite buf 0 ?q"
    using assms by (intro overwrite_append) auto
  have t': "take (Suc (length p)) (overwrite buf 0 ?q) = ?q" by (simp add: overwrite_0)
  have w': "overwrite (overwrite buf 0 ?q) 0 cs = overwrite buf 0 cs" if "length cs = 2 * length p + 5" for cs
    using that assms by (intro overwrite_again) auto
  show ?thesis
    using assms by (simp add: ASCIICreateRequest_def Let_def load_n_def store_at_def t w t' w' adu_def)
qed

text \<open>The hand-over to the transport, once the data unit is in the buffer.\<close>

definition next_trId :: "ModbusSpecifics \<Rightarrow> nat" where
  "next_trId sp = (if requestMode sp = MODBUS_TCP then (requestTrId sp + 1) mod 0xffff else requestTrId sp)"

lemma finish_request_frame:
  assumes inv: "modbus_inv s" and sp: "requestMode sp = requestMode (the (pSpecifics s))"
      "slaveAddrOffset sp = slave_offset (requestMode sp)" "requestTrId sp < 0xffff"
    and buf: "length buf = maxSize s" and p: "length p \<le> 254"
  shows "\<exists>s'. finish_request sp (overwrite buf (slaveAddrOffset sp) p) (length p) s = Returned (SERIAL_STATUS_OK, s') \<and>
     frame_of s' = adu (requestMode sp) (next_trId sp) p \<and> modbus_inv s' \<and>
     pSpecifics s' = Some (sp\<lparr>requestTrId := next_trId sp\<rparr>) \<and> pResponseBuffer s' = pResponseBuffer s"
proof -
  let ?m = "requestMode sp"
  let ?s = "s\<lparr>pRequestBuffer := Some (overwrite buf (slaveAddrOffset sp) p), requestBufferLength := length p,
      pSpecifics := Some sp\<rparr>"
  from inv sp(1) obtain rb tb where
    i: "pResponseBuffer s = Some rb" "pTempBuffer s = Some tb" "maxSize s = max_frame ?m"
      "length rb = maxSize s" "length tb = maxSize s"
    unfolding modbus_inv_def by auto
  have u: "u16 (length p) = length p" using p by simp
  have eq: "finish_request sp (overwrite buf (slaveAddrOffset sp) p) (length p) s = CreateRequest sp ?s"
    by (simp add: finish_request_def u)
  have fr: "take (length (adu m tr p)) (overwrite buf 0 (adu m tr p)) = adu m tr p"
    "length (overwrite buf 0 (adu m tr p)) = maxSize s" if "m = ?m" for m tr
    using that buf p i by (simp_all add: overwrite_0 adu_fits length_adu max_frame_def size_defs split: ModbusRequestMode.splits)
  show ?thesis
  proof (cases ?m)
    case MODBUS_RTU
    then have "CreateRequest sp ?s = Returned (SERIAL_STATUS_OK, ?s\<lparr>requestBufferLength := length p + 2,
        pRequestBuffer := Some (overwrite buf 0 (adu MODBUS_RTU (next_trId sp) p)), pSpecifics := Some sp\<rparr>)"
      unfolding CreateRequest_def using RTUCreateRequest_frame [of ?s buf p sp "next_trId sp"] buf p i sp
      by (simp add: max_frame_def size_defs slave_offset_def)
    with MODBUS_RTU i sp fr [of MODBUS_RTU "next_trId sp"] show ?thesis
      unfolding eq by (simp add: frame_of_def length_adu modbus_inv_def next_trId_def)
  next
    case MODBUS_ASCII
    then have "CreateRequest sp ?s = Returned (SERIAL_STATUS_OK, ?s\<lparr>requestBufferLength := 2 * length p + 5,
        pRequestBuffer := Some (overwrite buf 0 (adu MODBUS_ASCII (next_trId sp) p)),
        pTempBuffer := Some (overwrite tb 0 (p @ [ASCIIComputeLRC p])), pSpecifics := Some sp\<rparr>)"
      unfolding CreateRequest_def using ASCIICreateRequest_frame [of ?s buf p tb sp "next_trId sp"] buf p i sp
      by (simp add: max_frame_def size_defs slave_offset_def)
    moreover have "length (overwrite tb 0 (p @ [ASCIIComputeLRC p])) = maxSize s"
      using MODBUS_ASCII p i by (simp add: max_frame_def size_defs)
    ultimately show ?thesis
      using MODBUS_ASCII i sp fr [of MODBUS_ASCII "next_trId sp"]
      unfolding eq by (simp add: frame_of_def length_adu modbus_inv_def next_trId_def)
  next
    case MODBUS_TCP
    then have "CreateRequest sp ?s = Returned (SERIAL_STATUS_OK, ?s\<lparr>requestBufferLength := length p + 6,
        pRequestBuffer := Some (overwrite buf 0 (adu MODBUS_TCP (next_trId sp) p)),
        pSpecifics := Some (sp\<lparr>requestTrId := next_trId sp\<rparr>)\<rparr>)"
      unfolding CreateRequest_def using TCPCreateRequest_frame [of ?s buf p sp] buf p i sp
      by (simp add: max_frame_def size_defs slave_offset_def next_trId_def Let_def)
    with MODBUS_TCP i sp fr [of MODBUS_TCP "next_trId sp"] show ?thesis
      unfolding eq by (simp add: frame_of_def length_adu modbus_inv_def next_trId_def)
  qed
qed

section \<open>Requests\<close>

lemma length_request_pdu: "valid_request rq \<Longrightarrow> length (request_pdu le rq) \<le> 254"
  by (auto simp: valid_request_def request_pdu_def Let_def has_values_def func_defs length_reg_octets)

text \<open>The specifics after the fields of the request were copied.\<close>

definition noted :: "ModbusRequest \<Rightarrow> nat \<Rightarrow> ModbusSpecifics \<Rightarrow> ModbusSpecifics" where
  "noted rq n sp = sp\<lparr>isCustom := False, sp_request := (sp_request sp)\<lparr>rq_slaveId := rq_slaveId rq,
     rq_startingAddress := rq_startingAddress rq, rq_function := rq_function rq, rq_value := rq_value rq,
     rq_numberOfObjects := rq_numberOfObjects rq, rq_byteCount := n\<rparr>\<rparr>"

text \<open>The byte count that the builder records, which the response is later compared with.\<close>

definition expected_bytes :: "ModbusRequest \<Rightarrow> nat" where
  "expected_bytes rq =
     (let f = rq_function rq; n = rq_numberOfObjects rq in
      if f = MODBUS_FUNC_READ_COILS \<or> f = MODBUS_FUNC_READ_DISCRETE_INPUTS then n div 8 + (if n mod 8 \<noteq> 0 then 1 else 0)
      else if f = MODBUS_FUNC_READ_HOLDING_REGISTERS \<or> f = MODBUS_FUNC_READ_INPUT_REGISTERS \<or>
        f = MODBUS_FUNC_WRITE_MULTIPLE_REGISTERS then 2 * n
      else rq_byteCount rq)"

lemma CreateRequest_finishes:
  assumes v: "valid_request rq" and s: "pRequestBuffer s = Some buf" "pSpecifics s = Some sp"
    and len: "length buf = maxSize s" "maxSize s = max_frame (requestMode sp)"
    and off: "slaveAddrOffset sp = slave_offset (requestMode sp)"
  shows "MODBUS_SER_CreateRequest le rq s =
     finish_request (noted rq (expected_bytes rq) sp) (overwrite buf (slaveAddrOffset sp) (request_pdu le rq))
       (length (request_pdu le rq)) s"
proof -
  let ?off = "slaveAddrOffset sp"
  have room: "?off + 254 \<le> length buf" "?off + 253 < maxSize s"
    using len off by (auto simp: max_frame_def slave_offset_def size_defs split: ModbusRequestMode.splits)
  have st: "store_at buf ?off bs k = k (overwrite buf ?off bs)" if "length bs \<le> 254" for bs and k :: "bytes \<Rightarrow> Serializer call"
    using that room by (intro store_at_in) simp
  have st2: "store_at (overwrite buf ?off bs) (?off + 7) cs k = k (overwrite buf ?off (bs @ cs))"
    if "length bs = 7" "length cs \<le> 247" for bs cs and k :: "bytes \<Rightarrow> Serializer call"
    using that room by (subst store_at_in) (simp_all add: overwrite_append)
  have vals: "values_load (rq_value rq) n k = k (take n mem)" if "rq_value rq = V_ptr mem" "n \<le> length mem"
    for n mem and k :: "bytes \<Rightarrow> Serializer call"
    using that by (simp add: values_load_def load_n_def)
  note d = MODBUS_SER_CreateRequest_def s Let_def noted_def expected_bytes_def request_pdu_def func_defs size_defs
    drop_bit_eq_div
  from v have id: "rq_slaveId rq \<noteq> 0" by (auto simp: valid_request_def Let_def)
  from v consider
      (read) "rq_function rq \<in> {1, 2, 3, 4}" "0 < rq_numberOfObjects rq" "rq_value rq \<noteq> V_null"
        "rq_numberOfObjects rq \<le> (if rq_function rq \<le> 2 then 2000 else 125)"
    | (single) v where "rq_function rq \<in> {5, 6}" "rq_value rq = V_int v"
    | (coils) mem where "rq_function rq = 15" "0 < rq_numberOfObjects rq" "rq_numberOfObjects rq \<le> 1968"
        "rq_byteCount rq \<le> 246" "rq_value rq = V_ptr mem" "rq_byteCount rq \<le> length mem"
    | (regs) mem where "rq_function rq = 16" "0 < rq_numberOfObjects rq" "rq_numberOfObjects rq \<le> 123"
        "rq_value rq = V_ptr mem" "2 * rq_numberOfObjects rq \<le> length mem"
    | (raw) mem where "rq_function rq = 90" "0 < rq_byteCount rq" "rq_byteCount rq \<le> 252" "rq_value rq = V_ptr mem"
        "rq_byteCount rq \<le> length mem"
    by (auto simp: valid_request_def Let_def func_defs has_values_def)
  then show ?thesis
  proof cases
    case read
    with id st show ?thesis by (auto simp: d create_read_def mult.commute)
  next
    case single
    with id st show ?thesis by (auto simp: d create_write_single_def iValue_def)
  next
    case coils
    then have "\<not> int (maxSize s) \<le> int ?off + 7 + int (rq_byteCount rq) - 1" using room by linarith
    with coils id st st2 vals room show ?thesis by (simp add: d create_write_coils_def)
  next
    case regs
    let ?n = "rq_numberOfObjects rq" and ?data = "reg_octets le (take (rq_numberOfObjects rq * 2) mem)"
    have b: "\<not> maxSize s \<le> ?off + 7 + (?n - 1) * 2 + 1" using regs room by linarith
    have "hi ?n = 0" using regs by (simp add: hi_def c_arith)
    then have h: "take 4 (request_head rq ?n) @ [0, lo ?n, of_nat (?n * 2)] = request_head rq ?n @ [of_nat (?n * 2)]"
      by (simp add: request_head_def)
    have l: "length ?data = ?n * 2" using regs by (simp add: length_reg_octets)
    have "create_write_registers le rq sp' buf s = finish_request (sp'\<lparr>sp_request := (sp_request sp')\<lparr>rq_byteCount := ?n * 2\<rparr>\<rparr>)
        (overwrite buf ?off (request_head rq ?n @ [of_nat (?n * 2)] @ ?data)) (7 + ?n * 2) s"
      if "slaveAddrOffset sp' = ?off" for sp'
      unfolding create_write_registers_def Let_def that h
      using regs b l vals [OF regs(4), of "?n * 2"] by (simp add: st st2 size_defs mult.commute)
    with regs id l show ?thesis by (simp add: d mult.commute)
  next
    case raw
    with id st vals show ?thesis by (simp add: d create_raw_def)
  qed
qed

lemma valid_request_sent:
  assumes "modbus_inv s" "pSpecifics s = Some sp" "valid_request rq"
  shows "\<exists>s'. MODBUS_SER_CreateRequest le rq s = Returned (SERIAL_STATUS_OK, s') \<and>
     frame_of s' = adu (requestMode sp) (next_trId sp) (request_pdu le rq) \<and> modbus_inv s' \<and>
     pSpecifics s' = Some ((noted rq (expected_bytes rq) sp)\<lparr>requestTrId := next_trId sp\<rparr>) \<and>
     pResponseBuffer s' = pResponseBuffer s"
proof -
  let ?sp = "noted rq (expected_bytes rq) sp"
  from assms obtain qb where q: "pRequestBuffer s = Some qb" "length qb = maxSize s"
    "maxSize s = max_frame (requestMode sp)" "slaveAddrOffset sp = slave_offset (requestMode sp)" "requestTrId sp < 0xffff"
    unfolding modbus_inv_def by auto
  have n: "requestMode ?sp = requestMode sp" "slaveAddrOffset ?sp = slaveAddrOffset sp" "next_trId ?sp = next_trId sp"
    "requestTrId ?sp = requestTrId sp"
    by (simp_all add: noted_def next_trId_def)
  from finish_request_frame [OF assms(1), of ?sp qb "request_pdu le rq"] length_request_pdu [OF assms(3)] q n assms(2)
    CreateRequest_finishes [OF assms(3) q(1) assms(2) q(2-4), of le]
  show ?thesis by simp
qed


definition sample_serializer :: "nat \<Rightarrow> Serializer" where
  "sample_serializer mode =
     snd (MODBUS_SER_InitSerializer
       (Some \<lparr>requestMode = MODBUS_RTU, requestTrId = 0, slaveAddrOffset = 0, isCustom = False,
          sp_request = \<lparr>rq_slaveId = 0, rq_function = 0, rq_startingAddress = 0, rq_numberOfObjects = 0, rq_byteCount = 0,
            rq_value = V_null\<rparr>,
          sp_response = \<lparr>rs_slaveId = 0, rs_function = 0, rs_exception = 0, rs_startingAddress = 0, rs_numberOfObjects = 0,
            rs_byteCount = 0, rs_value = V_null\<rparr>\<rparr>)
       (\<lambda>k n. Some (replicate n 0)) mode
       \<lparr>requestBufferLength = 0, responseBufferLength = 0, pRequestBuffer = None, pResponseBuffer = None,
        pTempBuffer = None, maxSize = 0, pSpecifics = None\<rparr>)"

definition sample_request :: ModbusRequest where
  "sample_request = \<lparr>rq_slaveId = 17, rq_function = 3, rq_startingAddress = 107, rq_numberOfObjects = 1,
     rq_byteCount = 0, rq_value = V_ptr [0, 0]\<rparr>"

text \<open>Initialisation establishes the invariant, whatever the memory contained.\<close>

lemma init_modbus_inv:
  assumes "MODBUS_SER_InitSerializer specs mal mode s = (SERIAL_STATUS_OK, s')"
    and "\<And>k n b. mal k n = Some b \<Longrightarrow> length b = n"
  shows "modbus_inv s'"
  using assms
  by (auto simp: MODBUS_SER_InitSerializer_def modbus_inv_def init_specifics_def Let_def mode_of_def
      split: if_splits option.splits)

lemma sample_serializer_inv: "mode \<noteq> 0 \<Longrightarrow> modbus_inv (sample_serializer mode)"
  by (simp add: sample_serializer_def MODBUS_SER_InitSerializer_def modbus_inv_def init_specifics_def Let_def)

lemma sample_request_valid: "valid_request sample_request"
  by (simp add: valid_request_def sample_request_def func_defs)


section \<open>Unchecked sizes\<close>

text \<open>
  The raw data request accepts up to 254 octets of data, but the address, the function and
  the frame of the transport need room too: with 253 or 254 octets the builder writes past the
  end of its buffer, on each of the three transports.
\<close>

theorem raw_request_overflow:
  assumes "modbus_inv s" "rq_function rq = MODBUS_FUNC_SEND_RAW_DATA" "0 < rq_slaveId rq"
    and "rq_byteCount rq = 253 \<or> rq_byteCount rq = 254" "has_values (rq_value rq) (rq_byteCount rq)"
  shows "MODBUS_SER_CreateRequest le rq s = Fault"
proof -
  from assms(1) obtain sp qb tb where q: "pSpecifics s = Some sp" "pRequestBuffer s = Some qb" "length qb = maxSize s"
    "maxSize s = max_frame (requestMode sp)" "slaveAddrOffset sp = slave_offset (requestMode sp)"
    "pTempBuffer s = Some tb" "length tb = maxSize s"
    unfolding modbus_inv_def by auto
  from assms(5) obtain mem where mem: "rq_value rq = V_ptr mem" "rq_byteCount rq \<le> length mem"
    by (auto simp: has_values_def)
  note d = MODBUS_SER_CreateRequest_def create_raw_def Let_def func_defs size_defs values_load_def load_n_def store_at_def
    finish_request_def CreateRequest_def RTUCreateRequest_def ASCIICreateRequest_def max_frame_def slave_offset_def
  show ?thesis
    using q mem assms(2-4) by (cases "requestMode sp") (auto simp: d)
qed

theorem raw_request_overflow_witness:
  "MODBUS_SER_CreateRequest True (sample_request\<lparr>rq_function := MODBUS_FUNC_SEND_RAW_DATA, rq_byteCount := 254,
     rq_value := V_ptr (replicate 254 0)\<rparr>) (sample_serializer 1) = Fault"
  by (rule raw_request_overflow) (simp_all add: sample_serializer_inv has_values_def sample_request_def)

end
