(* ===== verification/Modbus_Responses.thy ===== *)
theory Modbus_Responses
  imports Modbus_Frames
begin

text \<open>
  The way back: a response frame that arrives in the response buffer is accepted by the check of
  its transport, the analysis copies its data into the memory of the caller or reports the
  exception, and a corrupted frame is refused. The places where the code does not hold this are
  at the end: the empty ASCII frame, the raw response of 256 octets, the function of an exception.
\<close>

section \<open>Hexadecimal frames\<close>

lemma HexDigit2Dec_hex_digit: "n < 16 \<Longrightarrow> HexDigit2Dec (hex_digit n) = n"
  by (auto simp: HexDigit2Dec_def unat_hex_digit Let_def)

lemma hex_decode_hex2: "hex_decode (concat (map hex2 xs)) = xs"
proof (induction xs)
  case (Cons b xs)
  have "of_nat (16 * HexDigit2Dec (hex_digit (unat b div 16)) + HexDigit2Dec (hex_digit (unat b mod 16))) = b"
    by (simp add: HexDigit2Dec_hex_digit)
  with Cons show ?case by (simp add: hex2_def)
qed simp

lemma hex_chars: "c \<in> set (concat (map hex2 xs)) \<Longrightarrow> c \<noteq> 0 \<and> c \<noteq> 0x0d"
proof (induction xs)
  case (Cons b xs)
  then show ?case by (auto simp: hex2_def hex_digit_range)
qed simp

lemma ascii_frame_found:
  assumes "frame = 0x3a # concat (map hex2 q) @ [0x0d, 0x0a]"
  shows "ascii_span (frame @ 0 # rest) = Some (0, Some (1 + 2 * length q))"
proof -
  let ?h = "concat (map hex2 q)"
  have "0 \<notin> set frame" using hex_chars [of 0 q] assms by auto
  then have ch: "chars (frame @ 0 # rest) = frame"
    unfolding chars_def by (subst takeWhile_append2) auto
  have "strstr ((0x3a # ?h) @ [0x0d, 0x0a]) [0x0d, 0x0a] = Some (length (0x3a # ?h))"
  proof (rule strstr_first)
    fix i assume i: "i < length (0x3a # ?h)"
    then have "((0x3a # ?h) @ [0x0d, 0x0a]) ! i = (0x3a # ?h) ! i" by (rule nth_append_left)
    moreover have "(0x3a # ?h) ! i \<in> set (0x3a # ?h)" using i by (rule nth_mem)
    then have "(0x3a # ?h) ! i \<noteq> 0x0d" using hex_chars [of "(0x3a # ?h) ! i" q] by auto
    ultimately show "take (length [0x0d, 0x0a :: byte]) (drop i ((0x3a # ?h) @ [0x0d, 0x0a])) \<noteq> [0x0d, 0x0a]"
      using i by (cases "drop i ((0x3a # ?h) @ [0x0d, 0x0a :: byte])") (auto simp: hd_drop_conv_nth dest: arg_cong [of _ _ hd])
  qed simp_all
  with assms ch show ?thesis by (simp add: ascii_span_def)
qed

section \<open>Accepted frames\<close>

definition deliver :: "bytes \<Rightarrow> Serializer \<Rightarrow> Serializer" where
  "deliver frame s = s\<lparr>pResponseBuffer := map_option (\<lambda>rb. overwrite rb 0 frame) (pResponseBuffer s),
     responseBufferLength := length frame\<rparr>"

definition trailer :: "ModbusRequestMode \<Rightarrow> nat" where
  "trailer m = (case m of MODBUS_RTU \<Rightarrow> 2 | MODBUS_ASCII \<Rightarrow> 1 | MODBUS_TCP \<Rightarrow> 0)"

text \<open>The frame answers the request: its slave, and its function possibly with the error bit.\<close>

definition answers :: "ModbusRequest \<Rightarrow> bytes \<Rightarrow> bool" where
  "answers rq p \<longleftrightarrow> 3 \<le> length p \<and> length p \<le> 254 \<and> rq_slaveId rq = unat (p ! 0) \<and> matches (rq_function rq) (p ! 1)"

text \<open>The data unit is in the response buffer behind the header of the transport.\<close>

definition holds_pdu :: "ModbusSpecifics \<Rightarrow> bytes \<Rightarrow> Serializer \<Rightarrow> bool" where
  "holds_pdu sp p s \<longleftrightarrow>
     (\<exists>rb. pResponseBuffer s = Some rb \<and> length rb = maxSize s \<and> slaveAddrOffset sp + length p \<le> length rb \<and>
        take (length p) (drop (slaveAddrOffset sp) rb) = p) \<and>
     pSpecifics s = Some sp \<and> responseBufferLength s = slaveAddrOffset sp + length p + trailer (requestMode sp)"

lemma check_frame_ok:
  assumes "answers (sp_request sp) p" "take (length p) (drop (slaveAddrOffset sp) rb) = p"
    "slaveAddrOffset sp + length p \<le> length rb" "4 \<le> len" "len \<le> lim"
  shows "check_frame lim len sp rb ok = ok"
proof -
  have n: "rb ! (slaveAddrOffset sp + i) = p ! i" if "i < length p" for i
    using that assms(2,3) by (metis add_leE nth_drop nth_take)
  have "0 < length p" "1 < length p" using assms(1) by (auto simp: answers_def)
  from n [OF this(1)] n [OF this(2)] have "rb ! slaveAddrOffset sp = p ! 0" "rb ! (slaveAddrOffset sp + 1) = p ! 1"
    by simp_all
  with assms show ?thesis
    by (simp add: check_frame_def answers_def Let_def)
qed

lemma RTU_accepts:
  assumes inv: "modbus_inv s" and sp: "pSpecifics s = Some sp" "requestMode sp = MODBUS_RTU"
    and p: "answers (sp_request sp) p"
  shows "MODBUS_SER_CheckResponse (deliver (adu MODBUS_RTU tr p) s) =
     Returned (SERIAL_STATUS_OK, deliver (adu MODBUS_RTU tr p) s) \<and> holds_pdu sp p (deliver (adu MODBUS_RTU tr p) s)"
proof -
  from inv sp obtain rb where i: "pResponseBuffer s = Some rb" "length rb = 256" "maxSize s = 256" "slaveAddrOffset sp = 0"
    unfolding modbus_inv_def by (auto simp: max_frame_def size_defs slave_offset_def)
  from p have l: "3 \<le> length p" "length p \<le> 254" by (simp_all add: answers_def)
  let ?f = "adu MODBUS_RTU tr p" and ?rb = "overwrite rb 0 (adu MODBUS_RTU tr p)"
  have rb: "?rb = p @ [lo (RTUComputeCRC p), hi (RTUComputeCRC p)] @ drop (length p + 2) rb"
    by (simp add: overwrite_0 adu_def)
  have lr: "length ?rb = 256" using l i by (simp add: length_adu)
  have n: "?rb ! Suc (length p) = hi (RTUComputeCRC p)" "?rb ! length p = lo (RTUComputeCRC p)" "take (length p) ?rb = p"
    unfolding rb by (simp_all add: nth_append)
  have ok: "check_frame 256 (length p + 2) sp ?rb k = k" for k
    using p n(3) lr l i by (intro check_frame_ok [of _ p]) simp_all
  show ?thesis
    using sp i l lr n ok
    by (simp add: MODBUS_SER_CheckResponse_def RTUParseResponse_def deliver_def length_adu Let_def with_state_def size_defs
        load_n_def RTUValidateCRC_def crc_octets holds_pdu_def trailer_def)
qed

lemma TCP_accepts:
  assumes inv: "modbus_inv s" and sp: "pSpecifics s = Some sp" "requestMode sp = MODBUS_TCP"
    and p: "answers (sp_request sp) p"
  shows "MODBUS_SER_CheckResponse (deliver (adu MODBUS_TCP (requestTrId sp) p) s) =
     Returned (SERIAL_STATUS_OK, deliver (adu MODBUS_TCP (requestTrId sp) p) s) \<and>
     holds_pdu sp p (deliver (adu MODBUS_TCP (requestTrId sp) p) s)"
proof -
  from inv sp obtain rb where i: "pResponseBuffer s = Some rb" "length rb = 260" "maxSize s = 260" "slaveAddrOffset sp = 6"
    "requestTrId sp < 65535"
    unfolding modbus_inv_def by (auto simp: max_frame_def size_defs slave_offset_def)
  from p have l: "3 \<le> length p" "length p \<le> 254" by (simp_all add: answers_def)
  let ?rb = "overwrite rb 0 (adu MODBUS_TCP (requestTrId sp) p)"
  have rb: "?rb = [hi (requestTrId sp), lo (requestTrId sp), 0, 0, hi (length p), lo (length p)] @ p @ drop (length p + 6) rb"
    by (simp add: overwrite_0 adu_def eval_nat_numeral)
  have lr: "length ?rb = 260" using l i by (simp add: length_adu)
  have n16: "push_bit 8 (unat (hi n)) + unat (lo n) = n" if "n < 65536" for n
  proof -
    have "n div 256 < 256" using that by simp
    then show ?thesis by (simp add: hi_def lo_def c_arith unat_of_nat)
  qed
  have t: "take 6 ?rb = [hi (requestTrId sp), lo (requestTrId sp), 0, 0, hi (length p), lo (length p)]"
    "take (length p) (drop 6 ?rb) = p"
    unfolding rb by simp_all
  from l have "0 < length p" "1 < length p" by auto
  then have t': "?rb ! 6 = p ! 0" "?rb ! 7 = p ! 1"
    unfolding rb by (simp_all add: nth_append)
  from p have m: "rq_slaveId (sp_request sp) = unat (p ! 0)" "matches (rq_function (sp_request sp)) (p ! 1)"
    by (simp_all add: answers_def)
  show ?thesis
    using sp i l lr t t' m n16 [of "requestTrId sp"] n16 [of "length p"]
    by (simp add: MODBUS_SER_CheckResponse_def TCPParseResponse_def deliver_def length_adu Let_def with_state_def size_defs
        load_n_def holds_pdu_def trailer_def)
qed

text \<open>The parser of ASCII frames, on a buffer whose message is found and decodes to \<open>q\<close>.\<close>

lemma ASCIIParseResponse_eval:
  assumes "pResponseBuffer s = Some r0" "pTempBuffer s = Some tb" "\<And>k :: bytes \<Rightarrow> Serializer call. terminate s r0 k = k r1"
    and "ascii_span r1 = Some (st, Some e)" "st < e" "take (e - (st + 1)) (drop (st + 1) r1) = h" "hex_decode h = q" "q \<noteq> []"
    and "length h \<le> length tb" "length q \<le> length r1"
  shows "ASCIIParseResponse sp s =
     (let s' = s\<lparr>responseBufferLength := length q, pResponseBuffer := Some (overwrite r1 0 q), pTempBuffer := Some (overwrite tb 0 h)\<rparr> in
      if \<not> ASCIIValidateLRC (butlast q) (last q) then Returned (SERIAL_STATUS_RESPONSE_BAD_CHECKSUM, s')
      else with_state s' (check_frame 256 (length q) sp (overwrite r1 0 q) (Returned SERIAL_STATUS_OK)))"
proof -
  have t: "take (length q - 1) (overwrite r1 0 q) = butlast q" by (simp add: overwrite_0 butlast_conv_take)
  have n: "overwrite r1 0 q ! (length q - 1) = last q"
    using assms(8) by (simp add: overwrite_0 nth_append last_conv_nth)
  have l: "length (overwrite r1 0 q) = length r1" "length q - 1 \<le> length r1" "length q - 1 < length r1"
    using assms(8,10) by (simp_all, cases q, auto)
  show ?thesis
    using assms t n l
    by (simp add: ASCIIParseResponse_def Let_def store_at_def load_n_def load_def size_defs)
qed

lemma ASCII_accepts:
  assumes inv: "modbus_inv s" and sp: "pSpecifics s = Some sp" "requestMode sp = MODBUS_ASCII"
    and p: "answers (sp_request sp) p"
  shows "\<exists>s'. MODBUS_SER_CheckResponse (deliver (adu MODBUS_ASCII tr p) s) = Returned (SERIAL_STATUS_OK, s') \<and>
     holds_pdu sp p s' \<and> pRequestBuffer s' = pRequestBuffer s"
proof -
  from inv sp obtain rb tb where i: "pResponseBuffer s = Some rb" "length rb = 514" "maxSize s = 514" "slaveAddrOffset sp = 0"
    "pTempBuffer s = Some tb" "length tb = 514"
    unfolding modbus_inv_def by (auto simp: max_frame_def size_defs slave_offset_def)
  from p have l: "3 \<le> length p" "length p \<le> 254" by (simp_all add: answers_def)
  let ?q = "p @ [ASCIIComputeLRC p]" and ?f = "adu MODBUS_ASCII tr p"
  let ?h = "concat (map hex2 ?q)"
  have f: "?f = 0x3a # ?h @ [0x0d, 0x0a]" by (simp add: adu_def)
  let ?r0 = "overwrite rb 0 ?f" and ?r1 = "?f @ 0 # drop (length ?f + 1) rb"
  have lf: "length ?f = 2 * length p + 5" by (simp add: length_adu)
  have r1: "store_at ?r0 (length ?f) [0] k = k ?r1" for k :: "bytes \<Rightarrow> Serializer call"
    using lf l i by (subst store_at_in) (simp_all add: overwrite_def)
  have span: "ascii_span ?r1 = Some (0, Some (1 + 2 * length ?q))" by (rule ascii_frame_found [OF f])
  have msg: "take (2 * length ?q) (drop 1 ?r1) = ?h"
  proof -
    have "length ?h = 2 * length ?q" by (rule length_hex)
    then show ?thesis unfolding f by (simp del: map_append)
  qed
  have lr1: "length ?r1 = 514" using lf l i by simp
  have lh: "length ?h = 2 * length p + 2" by (simp only: length_hex) simp
  let ?r2 = "overwrite ?r1 0 ?q" and ?sd = "deliver ?f s"
  let ?s = "?sd\<lparr>responseBufferLength := length ?q, pResponseBuffer := Some ?r2, pTempBuffer := Some (overwrite tb 0 ?h)\<rparr>"
  have lr2: "length ?r2 = 514" using l lr1 by (subst length_overwrite) simp_all
  have r2: "take (length p) ?r2 = p" by (simp add: overwrite_0)
  have ok: "check_frame 256 (length ?q) sp ?r2 (Returned SERIAL_STATUS_OK) = Returned SERIAL_STATUS_OK"
    using p r2 lr2 l i by (intro check_frame_ok [of _ p]) simp_all
  have e1: "pResponseBuffer ?sd = Some ?r0" "pTempBuffer ?sd = Some tb" using i by (simp_all add: deliver_def)
  have e2: "terminate ?sd ?r0 k = k ?r1" for k :: "bytes \<Rightarrow> Serializer call"
    unfolding terminate_def using r1 lf l i by (simp add: deliver_def)
  have e3: "take (1 + 2 * length ?q - (0 + 1)) (drop (0 + 1) ?r1) = ?h" using msg by simp
  have e4: "?q \<noteq> []" "length ?h \<le> length tb" "length ?q \<le> length ?r1"
    unfolding lh lr1 using i l by simp_all
  have "0 < 1 + 2 * length ?q" by simp
  from ASCIIParseResponse_eval [OF e1 e2 span this e3 hex_decode_hex2 e4, of sp]
  have "ASCIIParseResponse sp ?sd = Returned (SERIAL_STATUS_OK, ?s)"
    unfolding ok by (simp add: Let_def ASCIIValidateLRC_def with_state_def)
  moreover have "pSpecifics ?sd = Some sp" using sp by (simp add: deliver_def)
  moreover have "holds_pdu sp p ?s" using sp i r2 lr2 l by (simp add: holds_pdu_def trailer_def deliver_def)
  moreover have "pRequestBuffer ?s = pRequestBuffer s" by (simp add: deliver_def)
  ultimately show ?thesis using sp by (simp add: MODBUS_SER_CheckResponse_def)
qed

lemma response_accepted:
  assumes "modbus_inv s" "pSpecifics s = Some sp" "answers (sp_request sp) p"
  shows "\<exists>s'. MODBUS_SER_CheckResponse (deliver (adu (requestMode sp) (requestTrId sp) p) s) =
     Returned (SERIAL_STATUS_OK, s') \<and> holds_pdu sp p s'"
  using assms RTU_accepts [of s sp p "requestTrId sp"] TCP_accepts [of s sp p] ASCII_accepts [of s sp p "requestTrId sp"]
  by (cases "requestMode sp") auto

section \<open>Filling the caller's memory\<close>

lemma rounds_append: "rounds body (is @ js) mem = Option.bind (rounds body is mem) (rounds body js)"
  by (induction "is" arbitrary: mem) (auto split: option.splits)

lemma rounds_octets:
  assumes "off + n \<le> length buf" "n \<le> length mem"
  shows "rounds (copy_octet buf off) [0..<n] mem = Some (take n (drop off buf) @ drop n mem)"
  using assms
proof (induction n)
  case (Suc n)
  then have "rounds (copy_octet buf off) [0..<n] mem = Some (take n (drop off buf) @ drop n mem)" by simp
  moreover have "(take n (drop off buf) @ drop n mem)[n := buf ! (off + n)] = take (Suc n) (drop off buf) @ drop (Suc n) mem"
  proof -
    have "drop n mem = mem ! n # drop (Suc n) mem" using Suc.prems by (simp add: Cons_nth_drop_Suc)
    moreover have "take (Suc n) (drop off buf) = take n (drop off buf) @ [buf ! (off + n)]"
      using Suc.prems by (simp add: take_Suc_conv_app_nth)
    ultimately show ?thesis using Suc.prems by (simp add: list_update_append)
  qed
  ultimately have "copy_octet buf off n (take n (drop off buf) @ drop n mem) = Some (take (Suc n) (drop off buf) @ drop (Suc n) mem)"
    using Suc.prems by (simp add: copy_octet_def)
  with Suc show ?case by (simp add: rounds_append)
qed simp

text \<open>Registers arrive high octet first and are stored in the order of the host.\<close>

fun host_octets :: "bool \<Rightarrow> bytes \<Rightarrow> bytes" where
  "host_octets le (h # l # xs) = (if le then [l, h] else [h, l]) @ host_octets le xs"
| "host_octets le _ = []"

lemma length_host_octets: "length (host_octets le xs) = 2 * (length xs div 2)"
  by (induction le xs rule: host_octets.induct) simp_all

lemma host_octets_snoc:
  "length xs = 2 * n \<Longrightarrow> host_octets le (xs @ [h, l]) = host_octets le xs @ (if le then [l, h] else [h, l])"
proof (induction n arbitrary: xs)
  case (Suc n)
  then obtain a b ys where "xs = a # b # ys" "length ys = 2 * n" by (cases xs; cases "tl xs") auto
  with Suc.IH [of ys] show ?case by simp
qed simp

lemma rounds_registers:
  assumes "off + 2 * n \<le> length buf" "2 * n \<le> length mem"
  shows "rounds (copy_register le buf off) [0..<n] mem = Some (host_octets le (take (2 * n) (drop off buf)) @ drop (2 * n) mem)"
  using assms
proof (induction n)
  case (Suc n)
  let ?m = "host_octets le (take (2 * n) (drop off buf))"
  let ?h = "buf ! (off + 2 * n)" and ?l = "buf ! (off + 2 * n + 1)"
  have lm: "length ?m = 2 * n" using Suc.prems by (simp add: length_host_octets)
  obtain a b rest where d: "drop (2 * n) mem = a # b # rest" "drop (2 * Suc n) mem = rest"
    using Suc.prems(2) by (metis Cons_nth_drop_Suc Suc_leD add_2_eq_Suc' le_simps(3) mult_Suc_right add.commute)
  have "take (2 * Suc n) (drop off buf) = take (2 * n) (drop off buf) @ [?h, ?l]"
    using Suc.prems(1) by (simp add: take_Suc_conv_app_nth)
  then have e: "host_octets le (take (2 * Suc n) (drop off buf)) = ?m @ (if le then [?l, ?h] else [?h, ?l])"
    using Suc.prems(1) by (simp add: host_octets_snoc)
  have "copy_register le buf off n (?m @ a # b # rest) = Some (?m @ (if le then [?l, ?h] else [?h, ?l]) @ rest)"
    using Suc.prems lm by (auto simp: copy_register_def Let_def list_update_append)
  with Suc d e show ?case by (simp add: rounds_append)
qed simp

definition stored :: "bool \<Rightarrow> nat \<Rightarrow> bytes \<Rightarrow> bytes" where
  "stored le f data =
     (if f = MODBUS_FUNC_READ_HOLDING_REGISTERS \<or> f = MODBUS_FUNC_READ_INPUT_REGISTERS then host_octets le data else data)"

definition reads :: "nat \<Rightarrow> bool" where
  "reads f \<longleftrightarrow> f \<in> {MODBUS_FUNC_READ_COILS, MODBUS_FUNC_READ_DISCRETE_INPUTS, MODBUS_FUNC_READ_HOLDING_REGISTERS,
     MODBUS_FUNC_READ_INPUT_REGISTERS}"

text \<open>The parsers of the read responses, given what their loop does.\<close>

lemma ParseReadInputs_eval:
  assumes "slaveAddrOffset sp + 3 < length buf" "unat (buf ! (slaveAddrOffset sp + 2)) = n"
    and "rq_byteCount (sp_request sp) = n" "rq_value (sp_request sp) = V_ptr mem"
    and "u8_loop 0 n (copy_octet buf (slaveAddrOffset sp + 3)) mem = Some (Some mem')"
  shows "\<exists>rs. ParseReadInputs sp buf = Returned (SERIAL_STATUS_OK, sp\<lparr>sp_response := rs\<rparr>) \<and>
     rs_function rs = rs_function (sp_response sp) \<and> rs_byteCount rs = n \<and> rs_value rs = V_ptr mem'"
  using assms by (simp add: ParseReadInputs_def Let_def load_def fill_def) (rule exI, rule conjI, rule refl, simp)

lemma ParseReadRegisters_eval:
  assumes "slaveAddrOffset sp + 3 < length buf" "unat (buf ! (slaveAddrOffset sp + 2)) = n"
    and "rq_byteCount (sp_request sp) = n" "rq_value (sp_request sp) = V_ptr mem"
    and "u8_loop 0 (n div 2) (copy_register le buf (slaveAddrOffset sp + 3)) mem = Some (Some mem')"
  shows "\<exists>rs. ParseReadRegisters le sp buf = Returned (SERIAL_STATUS_OK, sp\<lparr>sp_response := rs\<rparr>) \<and>
     rs_function rs = rs_function (sp_response sp) \<and> rs_byteCount rs = n \<and> rs_value rs = V_ptr mem'"
  using assms
  by (simp add: ParseReadRegisters_def Let_def load_def fill_def drop_bit_Suc) (rule exI, rule conjI, rule refl, simp)

lemma analyze_parsed:
  assumes "pSpecifics s = Some sp" "pResponseBuffer s = Some rb" "slaveAddrOffset sp + 1 < length rb"
    and "unat (rb ! (slaveAddrOffset sp + 1)) = c" "f = (if c AND 0x80 \<noteq> 0x80 then c else 0x80)"
    and "parse_response le (responseBufferLength s) f (sp\<lparr>sp_response := (sp_response sp)\<lparr>rs_function := f\<rparr>\<rparr>) rb = r"
  shows "MODBUS_SER_AnalyzeResponse le SERIAL_STATUS_OK s =
     (case r of Returned q \<Rightarrow> forget_values s q | Fault \<Rightarrow> Fault | Hangs \<Rightarrow> Hangs)"
  using assms
  by (cases "c AND 0x80 = 0x80")
    (simp_all add: MODBUS_SER_AnalyzeResponse_def ParseFunction_def load_def MODBUS_MASK_ERROR_def Let_def)

lemma analyze_read:
  assumes h: "holds_pdu sp ([sl, of_nat f, of_nat (length data)] @ data) s" and f: "reads f" and c: "\<not> isCustom sp"
    and rq: "rq_byteCount (sp_request sp) = length data" "rq_value (sp_request sp) = V_ptr mem" "length data \<le> length mem"
    and d: "0 < length data" "length data \<le> 250" "f \<in> {3, 4} \<longrightarrow> even (length data)"
  shows "\<exists>s' sp'. MODBUS_SER_AnalyzeResponse le SERIAL_STATUS_OK s = Returned (SERIAL_STATUS_OK, s') \<and>
     pSpecifics s' = Some sp' \<and> rs_function (sp_response sp') = f \<and> rs_byteCount (sp_response sp') = length data \<and>
     rs_value (sp_response sp') = V_ptr (stored le f data @ drop (length data) mem)"
proof -
  let ?off = "slaveAddrOffset sp" and ?p = "[sl, of_nat f, of_nat (length data)] @ data"
  from h obtain rb where rb: "pResponseBuffer s = Some rb" "?off + length ?p \<le> length rb" "take (length ?p) (drop ?off rb) = ?p"
    "pSpecifics s = Some sp" unfolding holds_pdu_def by blast
  have n: "rb ! (?off + i) = ?p ! i" if "i < length ?p" for i
    using that rb(2,3) by (metis add_leE nth_drop nth_take)
  have f': "unat (of_nat f :: byte) = f" "f AND 0x80 = 0" "f \<in> {1, 2, 3, 4}"
    using f by (auto simp: reads_def func_defs unat_of_nat)
  have b: "rb ! (?off + 1) = of_nat f" "rb ! (?off + 2) = of_nat (length data)" using n [of 1] n [of 2] by simp_all
  have l: "unat (of_nat (length data) :: byte) = length data" using d by (simp add: unat_of_nat)
  have dat: "take (length data) (drop (?off + 3) rb) = data"
    using arg_cong [OF rb(3), of "drop 3"] by (simp add: drop_take add.commute)
  have room: "?off + 3 + length data \<le> length rb" using rb(2) by simp
  have lens: "?off + 1 < length rb" "?off + 2 < length rb" "?off + 3 < length rb" using room d(1) by linarith+
  have oct: "u8_loop 0 (length data) (copy_octet rb (?off + 3)) mem = Some (Some (data @ drop (length data) mem))"
    using u8_loop_ends [of "length data" 0] rounds_octets [OF room rq(3)] d dat by simp
  have reg: "u8_loop 0 (length data div 2) (copy_register le rb (?off + 3)) mem = Some (Some (host_octets le data @ drop (length data) mem))"
    if "even (length data)"
  proof -
    have e: "2 * (length data div 2) = length data" using that by simp
    have "rounds (copy_register le rb (?off + 3)) [0..<length data div 2] mem =
        Some (host_octets le data @ drop (length data) mem)"
      using rounds_registers [of "?off + 3" "length data div 2" rb mem le] room rq(3) dat by (simp add: e)
    then show ?thesis using u8_loop_ends [of "length data div 2" 0] d by simp
  qed
  let ?sp = "sp\<lparr>sp_response := (sp_response sp)\<lparr>rs_function := f\<rparr>\<rparr>"
  have "\<exists>rs. parse_response le (responseBufferLength s) f ?sp rb = Returned (SERIAL_STATUS_OK, ?sp\<lparr>sp_response := rs\<rparr>) \<and>
     rs_function rs = rs_function (sp_response ?sp) \<and> rs_byteCount rs = length data \<and>
     rs_value rs = V_ptr (stored le f data @ drop (length data) mem)"
  proof (cases "f = 1 \<or> f = 2")
    case True
    then have "parse_response le (responseBufferLength s) f ?sp rb = ParseReadInputs ?sp rb" "stored le f data = data"
      using c by (auto simp: parse_response_def func_defs stored_def)
    with ParseReadInputs_eval [of ?sp rb "length data" mem "data @ drop (length data) mem"] lens b(2) l rq(1,2) oct
    show ?thesis by simp
  next
    case False
    with f'(3) have ff: "f = 3 \<or> f = 4" by auto
    then have "parse_response le (responseBufferLength s) f ?sp rb = ParseReadRegisters le ?sp rb"
      "stored le f data = host_octets le data"
      using c by (auto simp: parse_response_def func_defs stored_def)
    moreover have "even (length data)" using ff d(3) by blast
    ultimately show ?thesis
      using ParseReadRegisters_eval [of ?sp rb "length data" mem le "host_octets le data @ drop (length data) mem"]
        lens b(2) l rq(1,2) reg by simp
  qed
  then obtain rs where rs: "parse_response le (responseBufferLength s) f ?sp rb = Returned (SERIAL_STATUS_OK, ?sp\<lparr>sp_response := rs\<rparr>)"
    "rs_function rs = f" "rs_byteCount rs = length data" "rs_value rs = V_ptr (stored le f data @ drop (length data) mem)"
    by auto
  have "MODBUS_SER_AnalyzeResponse le SERIAL_STATUS_OK s = forget_values s (SERIAL_STATUS_OK, ?sp\<lparr>sp_response := rs\<rparr>)"
    using analyze_parsed [OF rb(4,1) lens(1) _ _ rs(1), of f] b(1) f'(1,2) by simp
  with rs(2-4) show ?thesis by (simp add: forget_values_def)
qed

section \<open>Whole exchanges\<close>

lemma valid_slave: "valid_request rq \<Longrightarrow> unat (of_nat (rq_slaveId rq) :: byte) = rq_slaveId rq"
  by (simp add: valid_request_def Let_def unat_of_nat)

lemma valid_function: "valid_request rq \<Longrightarrow> rq_function rq \<in> {1, 2, 3, 4, 5, 6, 15, 16, 90}"
  by (auto simp: valid_request_def Let_def func_defs)

lemma coil_octets: "n \<le> 2000 \<Longrightarrow> 0 < n mod 8 \<Longrightarrow> n div 8 \<le> 249" for n :: nat
  by presburger

text \<open>A frame that answers the request reaches the analysis with its data unit in the buffer.\<close>

lemma exchange:
  assumes "modbus_inv s" "pSpecifics s = Some sp" "valid_request rq" "answers rq p"
  shows "\<exists>s1 s2. MODBUS_SER_CreateRequest le rq s = Returned (SERIAL_STATUS_OK, s1) \<and>
     MODBUS_SER_CheckResponse (deliver (adu (requestMode sp) (next_trId sp) p) s1) = Returned (SERIAL_STATUS_OK, s2) \<and>
     holds_pdu ((noted rq (expected_bytes rq) sp)\<lparr>requestTrId := next_trId sp\<rparr>) p s2"
proof -
  let ?sp = "(noted rq (expected_bytes rq) sp)\<lparr>requestTrId := next_trId sp\<rparr>"
  from valid_request_sent [OF assms(1-3), of le] obtain s1 where
    s1: "MODBUS_SER_CreateRequest le rq s = Returned (SERIAL_STATUS_OK, s1)" "modbus_inv s1" "pSpecifics s1 = Some ?sp"
    by blast
  have "answers (sp_request ?sp) p" using assms(4) by (simp add: answers_def noted_def)
  from response_accepted [OF s1(2,3) this] s1(1) show ?thesis by (auto simp: noted_def)
qed

text \<open>
  C3: a read request and its answer, end to end on each transport: the request is built, the frame
  that carries the requested octets with the address, the function and the count is accepted, and
  the analysis leaves exactly these octets in the memory of the caller (registers in the byte
  order of the host), with nothing after them changed.
\<close>

theorem modbus_read_roundtrip:
  assumes "modbus_inv s" "pSpecifics s = Some sp" "valid_request rq" "reads (rq_function rq)" "rq_value rq = V_ptr mem"
    and "length data = expected_bytes rq" "length data \<le> length mem"
  shows "\<exists>s1 s2 s3 sp'. MODBUS_SER_CreateRequest le rq s = Returned (SERIAL_STATUS_OK, s1) \<and>
     MODBUS_SER_CheckResponse (deliver (adu (requestMode sp) (next_trId sp)
       ([of_nat (rq_slaveId rq), of_nat (rq_function rq), of_nat (length data)] @ data)) s1) = Returned (SERIAL_STATUS_OK, s2) \<and>
     MODBUS_SER_AnalyzeResponse le SERIAL_STATUS_OK s2 = Returned (SERIAL_STATUS_OK, s3) \<and> pSpecifics s3 = Some sp' \<and>
     rs_function (sp_response sp') = rq_function rq \<and> rs_byteCount (sp_response sp') = length data \<and>
     rs_value (sp_response sp') = V_ptr (stored le (rq_function rq) data @ drop (length data) mem)"
proof -
  let ?p = "[of_nat (rq_slaveId rq), of_nat (rq_function rq), of_nat (length data)] @ data"
  let ?sp = "(noted rq (expected_bytes rq) sp)\<lparr>requestTrId := next_trId sp\<rparr>"
  have d: "0 < length data" "length data \<le> 250" "rq_function rq \<in> {3, 4} \<longrightarrow> even (length data)"
    using assms(3,4,6) by (auto simp: valid_request_def reads_def expected_bytes_def Let_def func_defs coil_octets)
  have "unat (of_nat (rq_function rq) :: byte) = rq_function rq"
    using assms(4) by (auto simp: reads_def func_defs unat_of_nat)
  then have "answers rq ?p" using d valid_slave [OF assms(3)] by (simp add: answers_def matches_def)
  from exchange [OF assms(1-3) this, of le] obtain s1 s2 where
    s: "MODBUS_SER_CreateRequest le rq s = Returned (SERIAL_STATUS_OK, s1)"
      "MODBUS_SER_CheckResponse (deliver (adu (requestMode sp) (next_trId sp) ?p) s1) = Returned (SERIAL_STATUS_OK, s2)"
      "holds_pdu ?sp ?p s2" by blast
  have "\<not> isCustom ?sp" "rq_byteCount (sp_request ?sp) = length data" "rq_value (sp_request ?sp) = V_ptr mem"
    using assms(5,6) by (simp_all add: noted_def)
  from analyze_read [OF s(3) assms(4) this assms(7) d, of le] s(1,2) show ?thesis by blast
qed

theorem modbus_read_roundtrip_witness:
  "\<exists>s1 s2 s3 sp'. MODBUS_SER_CreateRequest True sample_request (sample_serializer 2) = Returned (SERIAL_STATUS_OK, s1) \<and>
     MODBUS_SER_CheckResponse (deliver (adu MODBUS_ASCII 0 [0x11, 3, 2, 0xae, 0x41]) s1) = Returned (SERIAL_STATUS_OK, s2) \<and>
     MODBUS_SER_AnalyzeResponse True SERIAL_STATUS_OK s2 = Returned (SERIAL_STATUS_OK, s3) \<and> pSpecifics s3 = Some sp' \<and>
     rs_value (sp_response sp') = V_ptr [0x41, 0xae]"
proof -
  obtain sp where sp: "pSpecifics (sample_serializer 2) = Some sp" "requestMode sp = MODBUS_ASCII" "requestTrId sp = 0"
    by (simp add: sample_serializer_def MODBUS_SER_InitSerializer_def Let_def init_specifics_def mode_of_def)
  have e: "reads (rq_function sample_request)" "rq_value sample_request = V_ptr [0, 0]"
    "length [0xae, 0x41 :: byte] = expected_bytes sample_request" "length [0xae, 0x41 :: byte] \<le> length [0, 0 :: byte]"
    by (simp_all add: sample_request_def reads_def func_defs expected_bytes_def)
  have n: "next_trId sp = 0" using sp by (simp add: next_trId_def)
  have p: "[of_nat (rq_slaveId sample_request), of_nat (rq_function sample_request), of_nat (length [0xae, 0x41 :: byte])] @
      [0xae, 0x41] = [0x11, 3, 2, 0xae, 0x41 :: byte]"
    "stored True (rq_function sample_request) [0xae, 0x41] @ drop (length [0xae, 0x41 :: byte]) [0, 0] = [0x41, 0xae]"
    by (simp_all add: sample_request_def stored_def func_defs)
  from modbus_read_roundtrip [OF sample_serializer_inv sp(1) sample_request_valid e, of True]
  show ?thesis unfolding p sp(2) n by auto
qed

text \<open>
  An exception answer is reported as such with its exception code, on each transport; but the
  function of the response becomes 0 and not the function that failed, because the mask of the
  error bit is kept in place of the function before it is removed.
\<close>

theorem modbus_exception_reported:
  assumes "modbus_inv s" "pSpecifics s = Some sp" "valid_request rq"
  shows "\<exists>s1 s2 s3 sp'. MODBUS_SER_CreateRequest le rq s = Returned (SERIAL_STATUS_OK, s1) \<and>
     MODBUS_SER_CheckResponse (deliver (adu (requestMode sp) (next_trId sp)
       [of_nat (rq_slaveId rq), of_nat (rq_function rq + 0x80), code]) s1) = Returned (SERIAL_STATUS_OK, s2) \<and>
     MODBUS_SER_AnalyzeResponse le SERIAL_STATUS_OK s2 = Returned (SERIAL_STATUS_RESPONSE_EXCEPTION, s3) \<and>
     pSpecifics s3 = Some sp' \<and> rs_exception (sp_response sp') = unat code \<and> rs_function (sp_response sp') = 0"
proof -
  let ?f = "of_nat (rq_function rq + 0x80) :: byte" and ?sp = "(noted rq (expected_bytes rq) sp)\<lparr>requestTrId := next_trId sp\<rparr>"
  let ?p = "[of_nat (rq_slaveId rq), ?f, code]"
  have f: "unat ?f = rq_function rq + 0x80" "(rq_function rq + 0x80) AND 0x80 = 0x80"
    "rq_function rq = (rq_function rq + 0x80) XOR 0x80"
    using valid_function [OF assms(3)] by (auto simp: unat_of_nat)
  then have "answers rq ?p" using valid_slave [OF assms(3)] by (simp add: answers_def matches_def MODBUS_MASK_ERROR_def)
  from exchange [OF assms this, of le] obtain s1 s2 where
    s: "MODBUS_SER_CreateRequest le rq s = Returned (SERIAL_STATUS_OK, s1)"
      "MODBUS_SER_CheckResponse (deliver (adu (requestMode sp) (next_trId sp) ?p) s1) = Returned (SERIAL_STATUS_OK, s2)"
      "holds_pdu ?sp ?p s2" by blast
  from s(3) obtain rb where rb: "pResponseBuffer s2 = Some rb" "slaveAddrOffset ?sp + 3 \<le> length rb"
    "take 3 (drop (slaveAddrOffset ?sp) rb) = ?p" "pSpecifics s2 = Some ?sp"
    unfolding holds_pdu_def by (auto simp: eval_nat_numeral)
  have n: "rb ! (slaveAddrOffset ?sp + i) = ?p ! i" if "i < 3" for i
    using that rb(2,3) by (metis add_leE nth_drop nth_take)
  have b: "rb ! (slaveAddrOffset ?sp + 1) = ?f" "rb ! (slaveAddrOffset ?sp + 2) = code" using n [of 1] n [of 2] by simp_all
  have l: "slaveAddrOffset ?sp + 1 < length rb" "slaveAddrOffset ?sp + 2 < length rb" using rb(2) by simp_all
  have b': "unat (rb ! (slaveAddrOffset ?sp + 1)) = rq_function rq + 0x80" using b(1) f(1) by simp
  have m: "0x80 = (if (rq_function rq + 0x80) AND 0x80 \<noteq> 0x80 then rq_function rq + 0x80 else 0x80)" using f(2) by simp
  have "\<exists>rs. parse_response le (responseBufferLength s2) 0x80 (?sp\<lparr>sp_response := (sp_response ?sp)\<lparr>rs_function := 0x80\<rparr>\<rparr>) rb =
      Returned (SERIAL_STATUS_RESPONSE_EXCEPTION, ?sp\<lparr>sp_response := rs\<rparr>) \<and> rs_exception rs = unat code \<and> rs_function rs = 0"
    using b(2) l(2) by (simp add: parse_response_def func_defs) (rule exI, rule conjI, rule refl, simp)
  then obtain rs where rs: "parse_response le (responseBufferLength s2) 0x80
      (?sp\<lparr>sp_response := (sp_response ?sp)\<lparr>rs_function := 0x80\<rparr>\<rparr>) rb =
      Returned (SERIAL_STATUS_RESPONSE_EXCEPTION, ?sp\<lparr>sp_response := rs\<rparr>)" "rs_exception rs = unat code" "rs_function rs = 0"
    by blast
  from analyze_parsed [OF rb(4,1) l(1) b' m rs(1)] s(1,2) rs(2,3) show ?thesis by (auto simp: forget_values_def)
qed

theorem modbus_exception_reported_witness:
  "\<exists>s1 s2 s3 sp'. MODBUS_SER_CreateRequest True sample_request (sample_serializer 1) = Returned (SERIAL_STATUS_OK, s1) \<and>
     MODBUS_SER_CheckResponse (deliver (adu MODBUS_RTU 0 [0x11, 0x83, 2]) s1) = Returned (SERIAL_STATUS_OK, s2) \<and>
     MODBUS_SER_AnalyzeResponse True SERIAL_STATUS_OK s2 = Returned (SERIAL_STATUS_RESPONSE_EXCEPTION, s3) \<and>
     pSpecifics s3 = Some sp' \<and> rs_exception (sp_response sp') = 2 \<and> rs_function (sp_response sp') = 0"
proof -
  obtain sp where sp: "pSpecifics (sample_serializer 1) = Some sp" "requestMode sp = MODBUS_RTU" "requestTrId sp = 0"
    by (simp add: sample_serializer_def MODBUS_SER_InitSerializer_def Let_def init_specifics_def mode_of_def)
  have n: "next_trId sp = 0" using sp by (simp add: next_trId_def)
  have p: "[of_nat (rq_slaveId sample_request), of_nat (rq_function sample_request + 0x80), 2] = [0x11, 0x83, 2 :: byte]"
    by (simp add: sample_request_def)
  from modbus_exception_reported [OF sample_serializer_inv sp(1) sample_request_valid, of True 2]
  show ?thesis unfolding p sp(2) n by simp
qed

end
