(* ===== verification/Modbus_Safety.thy ===== *)
theory Modbus_Safety
  imports Modbus_Responses
begin

text \<open>
  What the Modbus serializer does with frames and requests that are not the expected ones: the
  invariant of the buffers that every returning operation keeps, memory safety of the check of a
  response and the one frame that breaks it, the length up to which the analysis of a response
  ends and the length from which it never does.
\<close>

section \<open>The invariant\<close>

lemma store_at_returned:
  assumes "store_at buf i bs k = Returned r"
  obtains buf' where "length buf' = length buf" "k buf' = Returned r"
proof
  show "length (overwrite buf i bs) = length buf" "k (overwrite buf i bs) = Returned r"
    using assms by (auto simp: store_at_def split: if_splits)
qed

lemma load_returned: "load buf i k = Returned r \<Longrightarrow> k (buf ! i) = Returned r"
  by (simp add: load_def split: if_splits)

lemma load_n_returned: "load_n buf i n k = Returned r \<Longrightarrow> k (take n (drop i buf)) = Returned r"
  by (simp add: load_n_def split: if_splits)

lemma values_load_returned: "values_load v n k = Returned r \<Longrightarrow> \<exists>d. k d = Returned r"
  by (auto simp: values_load_def load_n_def split: if_splits modbus_value.splits)

lemma iValue_returned: "iValue v k = Returned r \<Longrightarrow> \<exists>n. k n = Returned r"
  by (auto simp: iValue_def split: modbus_value.splits)

text \<open>The part of the specifics that a transport depends on.\<close>

definition same_transport :: "ModbusSpecifics \<Rightarrow> ModbusSpecifics \<Rightarrow> bool" where
  "same_transport sp sp' \<longleftrightarrow> requestMode sp' = requestMode sp \<and> slaveAddrOffset sp' = slaveAddrOffset sp \<and>
     requestTrId sp' = requestTrId sp"

lemma same_transport_simps [simp]:
  "same_transport sp sp" "same_transport sp (sp'\<lparr>sp_request := rq\<rparr>) = same_transport sp sp'"
  "same_transport sp (sp'\<lparr>isCustom := c\<rparr>) = same_transport sp sp'"
  "same_transport sp (sp'\<lparr>sp_response := rs\<rparr>) = same_transport sp sp'"
  by (simp_all add: same_transport_def)

lemma modbus_inv_update:
  assumes "modbus_inv s" "pSpecifics s = Some sp" "same_transport sp sp'" "length buf = maxSize s"
  shows "modbus_inv (s\<lparr>pRequestBuffer := Some buf, requestBufferLength := n, pSpecifics := Some sp'\<rparr>)"
    and "modbus_inv (s\<lparr>pRequestBuffer := Some buf, pSpecifics := Some sp'\<rparr>)"
  using assms by (auto simp: modbus_inv_def same_transport_def)

lemma CreateRequest_inv:
  assumes inv: "modbus_inv s" "pSpecifics s = Some sp" and r: "CreateRequest sp s = Returned (st, s')"
  shows "modbus_inv s'"
proof -
  from inv obtain qb tb where b: "pRequestBuffer s = Some qb" "pTempBuffer s = Some tb" by (auto simp: modbus_inv_def)
  show ?thesis
  proof (cases "requestMode sp")
    case MODBUS_RTU
    with r b inv show ?thesis
      by (auto simp: CreateRequest_def RTUCreateRequest_def Let_def modbus_inv_def elim!: store_at_returned dest!: load_n_returned)
  next
    case MODBUS_ASCII
    with r b inv show ?thesis
      by (auto simp: CreateRequest_def ASCIICreateRequest_def Let_def modbus_inv_def elim!: store_at_returned
          dest!: load_n_returned)
  next
    case MODBUS_TCP
    with r b inv show ?thesis
      by (auto simp: CreateRequest_def TCPCreateRequest_def Let_def modbus_inv_def elim!: store_at_returned)
  qed
qed

lemma finish_request_inv:
  assumes "finish_request sp' buf n s = Returned (st, s')" "modbus_inv s" "pSpecifics s = Some sp" "same_transport sp sp'"
    "length buf = maxSize s"
  shows "modbus_inv s'"
  using CreateRequest_inv [OF modbus_inv_update(1) [OF assms(2-5)]] assms(1) by (simp add: finish_request_def)

lemma refuse_inv:
  assumes "refuse sp' buf s = Returned (st, s')" "modbus_inv s" "pSpecifics s = Some sp" "same_transport sp sp'"
    "length buf = maxSize s"
  shows "modbus_inv s'"
  using modbus_inv_update(2) [OF assms(2-5)] assms(1) by (auto simp: refuse_def)

lemma create_read_inv:
  assumes "create_read lim n rq sp' buf s = Returned (st, s')" and s: "modbus_inv s" "pSpecifics s = Some sp"
    and "same_transport sp sp'" "length buf = maxSize s"
  shows "modbus_inv s'"
  using assms
  by (auto simp: create_read_def Let_def elim!: store_at_returned split: if_splits
      elim!: finish_request_inv [OF _ s] refuse_inv [OF _ s])

lemma create_write_single_inv:
  assumes "create_write_single rq sp' buf s = Returned (st, s')" and s: "modbus_inv s" "pSpecifics s = Some sp"
    and "same_transport sp sp'" "length buf = maxSize s"
  shows "modbus_inv s'"
  using assms
  by (auto simp: create_write_single_def Let_def elim!: store_at_returned dest!: iValue_returned
      elim!: finish_request_inv [OF _ s])

lemma create_write_coils_inv:
  assumes "create_write_coils rq sp' buf s = Returned (st, s')" and s: "modbus_inv s" "pSpecifics s = Some sp"
    and "same_transport sp sp'" "length buf = maxSize s"
  shows "modbus_inv s'"
  using assms
  by (auto simp: create_write_coils_def Let_def elim!: store_at_returned dest!: values_load_returned
      split: if_splits elim!: finish_request_inv [OF _ s] refuse_inv [OF _ s])

lemma create_write_registers_inv:
  assumes "create_write_registers le rq sp' buf s = Returned (st, s')" and s: "modbus_inv s" "pSpecifics s = Some sp"
    and "same_transport sp sp'" "length buf = maxSize s"
  shows "modbus_inv s'"
  using assms
  by (auto simp: create_write_registers_def Let_def elim!: store_at_returned dest!: values_load_returned
      split: if_splits elim!: finish_request_inv [OF _ s] refuse_inv [OF _ s])

lemma create_raw_inv:
  assumes "create_raw rq sp' buf s = Returned (st, s')" and s: "modbus_inv s" "pSpecifics s = Some sp"
    and "same_transport sp sp'" "length buf = maxSize s"
  shows "modbus_inv s'"
  using assms
  by (auto simp: create_raw_def Let_def elim!: store_at_returned dest!: values_load_returned
      split: if_splits elim!: finish_request_inv [OF _ s] refuse_inv [OF _ s])

lemma MODBUS_SER_CreateRequest_inv:
  assumes r: "MODBUS_SER_CreateRequest le rq s = Returned (st, s')" and s: "modbus_inv s"
  shows "modbus_inv s'"
proof -
  from s obtain sp buf where sp: "pSpecifics s = Some sp" "pRequestBuffer s = Some buf" "length buf = maxSize s"
    by (auto simp: modbus_inv_def)
  note rules = create_read_inv create_write_single_inv create_write_coils_inv create_write_registers_inv create_raw_inv refuse_inv
  from r sp show ?thesis
    by (auto simp: MODBUS_SER_CreateRequest_def Let_def split: if_splits elim!: rules [OF _ s sp(1)])
qed

lemma MODBUS_SER_CreateCustomRequest_inv:
  assumes r: "MODBUS_SER_CreateCustomRequest rq s = Returned (st, s')" and s: "modbus_inv s"
  shows "modbus_inv s'"
proof -
  from s obtain sp buf where sp: "pSpecifics s = Some sp" "pRequestBuffer s = Some buf" "length buf = maxSize s"
    by (auto simp: modbus_inv_def)
  from r sp s show ?thesis
    by (auto simp: MODBUS_SER_CreateCustomRequest_def Let_def split: if_splits
        elim!: store_at_returned dest!: values_load_returned elim!: finish_request_inv [OF _ s sp(1)])
qed

section \<open>Checking any frame\<close>

lemma strstr_bound: "strstr s pat = Some i \<Longrightarrow> pat \<noteq> [] \<Longrightarrow> i + length pat \<le> length s"
proof (induction s arbitrary: i)
  case (Cons b s)
  show ?case
  proof (cases "take (length pat) (b # s) = pat")
    case True
    then have "length pat \<le> length (b # s)" by (metis length_take min.cobounded1)
    with Cons.prems True show ?thesis by simp
  next
    case False
    with Cons show ?thesis by auto
  qed
qed (simp split: if_splits)

lemma length_hex_decode: "length (hex_decode m) = length m div 2"
  by (induction m rule: hex_decode.induct) simp_all

text \<open>The response buffer when its end was marked.\<close>

definition marked :: "Serializer \<Rightarrow> bytes" where
  "marked s = overwrite (the (pResponseBuffer s))
     (if responseBufferLength s < maxSize s then responseBufferLength s else maxSize s - 1) [0]"

lemma terminate_marked:
  assumes "modbus_inv s" "pResponseBuffer s = Some buf"
  shows "terminate s buf k = k (marked s)" "length (marked s) = maxSize s"
proof -
  obtain m where "length buf = maxSize s" "maxSize s = max_frame m" using assms by (auto simp: modbus_inv_def)
  moreover have "0 < max_frame m" by (cases m) (simp_all add: max_frame_def size_defs)
  ultimately have "length buf = maxSize s" "0 < maxSize s" by simp_all
  with assms show "terminate s buf k = k (marked s)" "length (marked s) = maxSize s"
    by (auto simp: terminate_def marked_def store_at_def)
qed

lemma ascii_span_bound: "ascii_span buf = Some (st, Some e) \<Longrightarrow> e + 2 \<le> length buf"
proof -
  assume "ascii_span buf = Some (st, Some e)"
  then obtain d where d: "strstr (chars buf) [0x3a] = Some st" "strstr (drop st (chars buf)) [0x0d, 0x0a] = Some d" "e = st + d"
    by (auto simp: ascii_span_def split: option.splits)
  from strstr_bound [OF d(1)] strstr_bound [OF d(2)] d(3) have "e + 2 \<le> length (chars buf)" by simp
  also have "\<dots> \<le> length buf" by (simp add: chars_def length_takeWhile_le)
  finally show ?thesis .
qed

lemma RTU_TCP_check_returns:
  assumes "modbus_inv s" "pSpecifics s = Some sp" "requestMode sp \<noteq> MODBUS_ASCII"
  shows "\<exists>st. MODBUS_SER_CheckResponse s = Returned (st, s)"
proof -
  from assms obtain buf where b: "pResponseBuffer s = Some buf" "length buf = max_frame (requestMode sp)"
    "slaveAddrOffset sp = slave_offset (requestMode sp)" by (auto simp: modbus_inv_def)
  with assms show ?thesis
    by (cases "requestMode sp")
      (auto simp: MODBUS_SER_CheckResponse_def RTUParseResponse_def TCPParseResponse_def check_frame_def with_state_def
        load_n_def max_frame_def slave_offset_def size_defs Let_def)
qed

lemma ASCII_check_returns:
  assumes "modbus_inv s" "pSpecifics s = Some sp" "requestMode sp = MODBUS_ASCII"
    and "\<And>st e. ascii_span (marked s) = Some (st, Some e) \<Longrightarrow> st + 3 \<le> e"
  shows "\<exists>st s'. MODBUS_SER_CheckResponse s = Returned (st, s') \<and> modbus_inv s'"
proof -
  from assms(1-3) obtain buf tmp where b: "pResponseBuffer s = Some buf" "length buf = 514" "maxSize s = 514"
    "slaveAddrOffset sp = 0" "pTempBuffer s = Some tmp" "length tmp = 514"
    by (auto simp: modbus_inv_def max_frame_def size_defs slave_offset_def)
  note m = terminate_marked [OF assms(1) b(1)]
  show ?thesis
  proof (cases "\<exists>st e. ascii_span (marked s) = Some (st, Some e)")
    case True
    then obtain st e where se: "ascii_span (marked s) = Some (st, Some e)" by blast
    let ?m = "take (e - (st + 1)) (drop (st + 1) (marked s))"
    let ?q = "hex_decode ?m"
    from assms(4) [OF se] ascii_span_bound [OF se] m(2) b(3)
    have l: "st < e" "length ?m = e - (st + 1)" "2 \<le> e - (st + 1)" "e \<le> 512" by auto
    then have h: "length ?q = (e - (st + 1)) div 2" "0 < (e - (st + 1)) div 2" "(e - (st + 1)) div 2 \<le> 256"
      by (simp_all add: length_hex_decode)
    then have n: "?q \<noteq> []" "length ?m \<le> length tmp" "length ?q \<le> length (marked s)"
      using l m(2) b by (simp_all del: length_take length_drop, auto)
    let ?s = "s\<lparr>responseBufferLength := length ?q, pResponseBuffer := Some (overwrite (marked s) 0 ?q),
        pTempBuffer := Some (overwrite tmp 0 ?m)\<rparr>"
    have "length (overwrite (marked s) 0 ?q) = 514" "length (overwrite tmp 0 ?m) = 514"
      using n(2,3) m(2) b(3,6) by (subst length_overwrite; simp)+
    then have "modbus_inv ?s" and c: "\<exists>st. check_frame 256 (length ?q) sp (overwrite (marked s) 0 ?q) (Returned SERIAL_STATUS_OK) = Returned st"
      using assms(1-3) b by (auto simp: modbus_inv_def check_frame_def Let_def)
    with ASCIIParseResponse_eval [OF b(1,5) m(1) se l(1) refl refl n, of sp] assms(2,3) show ?thesis
      by (auto simp: MODBUS_SER_CheckResponse_def Let_def with_state_def)
  next
    case False
    with assms(1-3) b m(2) show ?thesis
      by (cases "ascii_span (marked s)")
        (auto simp: MODBUS_SER_CheckResponse_def ASCIIParseResponse_def modbus_inv_def m(1) split: option.splits)
  qed
qed

text \<open>
  C19: the check of a response is safe: whatever octets were received, it returns a status without
  an access outside its buffers and keeps them well formed, provided that an ASCII frame carries
  at least one octet between its marks.
\<close>

theorem MODBUS_SER_CheckResponse_safe:
  assumes "modbus_inv s" "pSpecifics s = Some sp"
    and "requestMode sp = MODBUS_ASCII \<Longrightarrow> \<forall>st e. ascii_span (marked s) = Some (st, Some e) \<longrightarrow> st + 3 \<le> e"
  shows "\<exists>st s'. MODBUS_SER_CheckResponse s = Returned (st, s') \<and> modbus_inv s'"
  using assms RTU_TCP_check_returns [of s sp] ASCII_check_returns [of s sp] by (cases "requestMode sp = MODBUS_ASCII") auto

lemma deliver_inv: "modbus_inv s \<Longrightarrow> length frame \<le> maxSize s \<Longrightarrow> modbus_inv (deliver frame s)"
  by (auto simp: modbus_inv_def deliver_def)

lemma sample_specifics:
  assumes "mode \<noteq> 0"
  shows "\<exists>sp. pSpecifics (sample_serializer mode) = Some sp \<and> requestMode sp = mode_of mode \<and>
     maxSize (sample_serializer mode) = max_frame (mode_of mode) \<and>
     pResponseBuffer (sample_serializer mode) = Some (replicate (max_frame (mode_of mode)) 0)"
  using assms by (simp add: sample_serializer_def MODBUS_SER_InitSerializer_def Let_def init_specifics_def)

lemma sample_marked:
  assumes "mode \<noteq> 0" "length frame < max_frame (mode_of mode)"
  shows "marked (deliver frame (sample_serializer mode)) = frame @ 0 # replicate (max_frame (mode_of mode) - length frame - 1) 0"
  using sample_specifics [OF assms(1)] assms(2)
  by (auto simp: marked_def deliver_def overwrite_def)

theorem MODBUS_SER_CheckResponse_safe_witness:
  "\<exists>st s'. MODBUS_SER_CheckResponse (deliver (0x3a # concat (map hex2 [7, 9]) @ [0x0d, 0x0a]) (sample_serializer 2)) =
     Returned (st, s') \<and> modbus_inv s'"
proof -
  let ?f = "0x3a # concat (map hex2 [7, 9]) @ [0x0d, 0x0a]"
  obtain sp where sp: "pSpecifics (sample_serializer 2) = Some sp" "maxSize (sample_serializer 2) = 514"
    using sample_specifics [of 2] by (auto simp: mode_of_def max_frame_def size_defs)
  have "marked (deliver ?f (sample_serializer 2)) = ?f @ 0 # replicate 506 0"
    using sample_marked [of 2 ?f] by (simp add: mode_of_def max_frame_def size_defs hex2_def)
  then have a: "ascii_span (marked (deliver ?f (sample_serializer 2))) = Some (0, Some 5)"
    using ascii_frame_found [of ?f "[7, 9]" "replicate 506 0"] by simp
  have i: "modbus_inv (deliver ?f (sample_serializer 2))"
    by (rule deliver_inv) (simp_all add: sample_serializer_inv sp hex2_def)
  have s: "pSpecifics (deliver ?f (sample_serializer 2)) = Some sp" using sp by (simp add: deliver_def)
  show ?thesis by (rule MODBUS_SER_CheckResponse_safe [OF i s]) (use a in simp)
qed

lemma ASCII_check_faults:
  assumes "modbus_inv s" "pSpecifics s = Some sp" "requestMode sp = MODBUS_ASCII"
    and "ascii_span (marked s) = Some (st, Some e)" "st < e" "e < st + 3"
  shows "MODBUS_SER_CheckResponse s = Fault"
proof -
  from assms(1-3) obtain buf tmp where b: "pResponseBuffer s = Some buf" "maxSize s = 514" "pTempBuffer s = Some tmp"
    "length tmp = 514" by (auto simp: modbus_inv_def max_frame_def size_defs)
  note m = terminate_marked [OF assms(1) b(1)]
  have "hex_decode (take (e - Suc st) (drop (Suc st) (marked s))) = []"
    using assms(5,6) by (simp flip: length_0_conv add: length_hex_decode)
  with assms(2-6) b m(2) show ?thesis
    by (auto simp: MODBUS_SER_CheckResponse_def ASCIIParseResponse_def Let_def store_at_def m(1))
qed

lemma strstr_sound: "strstr s pat = Some i \<Longrightarrow> take (length pat) (drop i s) = pat"
  by (induction s arbitrary: i) (auto split: if_splits)

lemma ascii_span_order: "ascii_span buf = Some (st, Some e) \<Longrightarrow> st < e"
proof -
  assume "ascii_span buf = Some (st, Some e)"
  then obtain d where d: "strstr (chars buf) [0x3a] = Some st" "strstr (drop st (chars buf)) [0x0d, 0x0a] = Some d" "e = st + d"
    by (auto simp: ascii_span_def split: option.splits)
  have "d \<noteq> 0"
  proof
    assume "d = 0"
    with strstr_sound [OF d(2)] have "take 2 (drop st (chars buf)) = [0x0d, 0x0a]" by (simp add: eval_nat_numeral)
    moreover have "take 1 (drop st (chars buf)) = [0x3a]" using strstr_sound [OF d(1)] by simp
    ultimately show False by (cases "drop st (chars buf)") auto
  qed
  with d(3) show ?thesis by simp
qed

lemma MODBUS_SER_CheckResponse_inv:
  assumes "MODBUS_SER_CheckResponse s = Returned (st, s')" "modbus_inv s"
  shows "modbus_inv s'"
proof -
  obtain sp where sp: "pSpecifics s = Some sp" using assms(2) by (auto simp: modbus_inv_def)
  show ?thesis
  proof (cases "requestMode sp = MODBUS_ASCII")
    case True
    have "b + 3 \<le> e" if "ascii_span (marked s) = Some (b, Some e)" for b e
      using ASCII_check_faults [OF assms(2) sp True that ascii_span_order [OF that]] assms(1) by fastforce
    from ASCII_check_returns [OF assms(2) sp True this] assms(1) show ?thesis by auto
  next
    case False
    with RTU_TCP_check_returns [OF assms(2) sp] assms show ?thesis by auto
  qed
qed

text \<open>
  An ASCII frame with no octet between the colon and the line end makes the check compute the
  check sum of 65535 octets: it leaves the memory of the buffer.
\<close>

theorem ASCII_empty_frame_fault:
  assumes "modbus_inv s" "pSpecifics s = Some sp" "requestMode sp = MODBUS_ASCII"
    and "ascii_span (marked s) = Some (st, Some e)" "st < e" "e < st + 3"
  shows "MODBUS_SER_CheckResponse s = Fault"
  using assms by (rule ASCII_check_faults)

theorem ASCII_empty_frame_fault_witness:
  "MODBUS_SER_CheckResponse (deliver [0x3a, 0x0d, 0x0a] (sample_serializer 2)) = Fault"
proof -
  let ?s = "deliver [0x3a, 0x0d, 0x0a] (sample_serializer 2)"
  obtain sp where sp: "pSpecifics (sample_serializer 2) = Some sp" "maxSize (sample_serializer 2) = 514"
    "requestMode sp = MODBUS_ASCII"
    using sample_specifics [of 2] by (auto simp: mode_of_def max_frame_def size_defs)
  have "marked ?s = [0x3a, 0x0d, 0x0a] @ 0 # replicate 510 0"
    using sample_marked [of 2 "[0x3a, 0x0d, 0x0a]"] by (simp add: mode_of_def max_frame_def size_defs)
  then have a: "ascii_span (marked ?s) = Some (0, Some 1)"
    using ascii_frame_found [of "[0x3a, 0x0d, 0x0a]" "[]" "replicate 510 0"] by simp
  have i: "modbus_inv ?s" by (rule deliver_inv) (simp_all add: sample_serializer_inv sp)
  have s: "pSpecifics ?s = Some sp" using sp by (simp add: deliver_def)
  show ?thesis by (rule ASCII_empty_frame_fault [OF i s sp(3) a]) simp_all
qed

section \<open>The end of the analysis\<close>

lemma fill_hangs: "fill n body v k = Hangs \<Longrightarrow> 255 < n \<or> (\<exists>v'. k v' = Hangs)"
  by (cases "n \<le> 255") (auto simp: fill_def u8_loop_ends split: modbus_value.splits option.splits if_splits)

lemma load_hangs: "load buf i k = Hangs \<Longrightarrow> \<exists>b. k b = Hangs"
  by (auto simp: load_def split: if_splits)

lemma unat_byte_bounds: "\<not> 255 < unat (b :: byte)" "\<not> 255 < drop_bit (Suc 0) (unat b)"
  using unat_byte_less [of b] by (simp_all add: drop_bit_Suc not_less del: unat_byte_less)

lemma parse_response_ends:
  assumes "slaveAddrOffset sp \<le> len" "len \<le> slaveAddrOffset sp + 255" "len < 2 ^ 16"
  shows "parse_response le len f sp buf \<noteq> Hangs"
proof -
  have n: "\<not> 255 < nat ((int len - int (slaveAddrOffset sp)) mod 2 ^ 16)"
    using assms by (simp flip: of_nat_diff)
  have "ParseRawData len sp buf \<noteq> Hangs"
    using n by (auto simp: ParseRawData_def Let_def dest!: fill_hangs)
  moreover have "ParseReadInputs sp buf \<noteq> Hangs" "ParseReadRegisters le sp buf \<noteq> Hangs"
    by (auto simp: ParseReadInputs_def ParseReadRegisters_def Let_def unat_byte_bounds dest!: load_hangs fill_hangs
        split: if_splits)
  moreover have "ParseWriteObject sp buf \<noteq> Hangs"
    by (auto simp: ParseWriteObject_def Let_def dest!: load_hangs)
  ultimately show ?thesis by (auto simp: parse_response_def dest!: load_hangs split: if_splits)
qed

text \<open>
  C33: the analysis of a response comes to an end (with a result or an error, never in an endless
  loop) as long as at most 255 octets follow the transport header, for every function, status and
  buffer content.
\<close>

theorem MODBUS_SER_AnalyzeResponse_ends:
  assumes "pSpecifics s = Some sp" "slaveAddrOffset sp \<le> responseBufferLength s"
    "responseBufferLength s \<le> slaveAddrOffset sp + 255" "responseBufferLength s < 2 ^ 16"
  shows "MODBUS_SER_AnalyzeResponse le status s \<noteq> Hangs"
proof -
  have p: "parse_response le (responseBufferLength s) f (sp\<lparr>sp_response := rs\<rparr>) buf \<noteq> Hangs" for f rs buf
    using assms by (intro parse_response_ends) simp_all
  show ?thesis
    using assms(1) p
    by (auto simp: MODBUS_SER_AnalyzeResponse_def ParseFunction_def Let_def forget_values_def need_def dest!: load_hangs
        split: option.splits outcome.splits if_splits)
qed

theorem MODBUS_SER_AnalyzeResponse_ends_witness:
  "MODBUS_SER_AnalyzeResponse True SERIAL_STATUS_OK (deliver (replicate 255 7) (sample_serializer 1)) \<noteq> Hangs"
proof -
  obtain sp where sp: "pSpecifics (sample_serializer 1) = Some sp" "slaveAddrOffset sp = 0"
    by (simp add: sample_serializer_def MODBUS_SER_InitSerializer_def Let_def init_specifics_def mode_of_def slave_offset_def)
  show ?thesis by (rule MODBUS_SER_AnalyzeResponse_ends [of _ sp]) (simp_all add: sp [simplified] deliver_def)
qed

text \<open>
  A custom response that fills the largest RTU frame, 256 octets, is accepted by the check and
  then never leaves the analysis: the octets are copied with an 8-bit index that wraps before it
  reaches the count.
\<close>

theorem custom_response_hangs:
  assumes "modbus_inv s" "pSpecifics s = Some sp" "requestMode sp = MODBUS_RTU" "isCustom sp"
    and "answers (sp_request sp) p" "length p = 254" "p ! 1 < 0x80"
    and "rq_value (sp_request sp) = V_ptr mem" "256 \<le> length mem"
  shows "\<exists>s'. MODBUS_SER_CheckResponse (deliver (adu MODBUS_RTU tr p) s) = Returned (SERIAL_STATUS_OK, s') \<and>
     MODBUS_SER_AnalyzeResponse le SERIAL_STATUS_OK s' = Hangs"
proof -
  let ?s = "deliver (adu MODBUS_RTU tr p) s" and ?f = "unat (p ! 1)"
  from RTU_accepts [OF assms(1-3,5), of tr] have acc: "MODBUS_SER_CheckResponse ?s = Returned (SERIAL_STATUS_OK, ?s)"
    "holds_pdu sp p ?s" by simp_all
  have off: "slaveAddrOffset sp = 0" using assms(1-3) by (auto simp: modbus_inv_def slave_offset_def)
  from acc(2) assms(3,6) off obtain rb where
    rb: "pResponseBuffer ?s = Some rb" "length rb = maxSize ?s" "take 254 rb = p" "pSpecifics ?s = Some sp"
      "responseBufferLength ?s = 256" unfolding holds_pdu_def by (auto simp: trailer_def)
  have l: "length rb = 256" using rb(2) assms(1-3) by (auto simp: deliver_def modbus_inv_def max_frame_def size_defs)
  have f: "?f AND 0x80 \<noteq> 0x80" "?f \<noteq> 0x80"
  proof -
    have "?f < 2 ^ 7" using assms(7) by (simp add: word_less_nat_alt)
    then have "\<not> bit ?f 7" by (simp add: bit_iff_odd)
    then have "?f AND 0x80 = 0" using and_exp_eq_0_iff_not_bit [of ?f 7] by simp
    then show "?f AND 0x80 \<noteq> 0x80" "?f \<noteq> 0x80" using \<open>?f < 2 ^ 7\<close> by simp_all
  qed
  have "u8_loop 0 256 (copy_octet rb 0) mem = None"
    by (rule u8_loop_hangs [where P = "\<lambda>m. 256 \<le> length m"]) (use l assms(9) in \<open>auto simp: copy_octet_def\<close>)
  then have h: "parse_response le (responseBufferLength ?s) ?f (sp\<lparr>sp_response := (sp_response sp)\<lparr>rs_function := ?f\<rparr>\<rparr>) rb = Hangs"
    using assms(4,8) f(2) rb(5) off by (simp add: parse_response_def ParseRawData_def fill_def MODBUS_MASK_ERROR_def Let_def)
  have "rb ! 1 = p ! 1" using rb(3) assms(6) by (metis nth_take one_less_numeral_iff semiring_norm(76) numeral_One)
  then have "MODBUS_SER_AnalyzeResponse le SERIAL_STATUS_OK ?s = Hangs"
    using analyze_parsed [OF rb(4,1) _ _ _ h, of ?f] f(1) l off by simp
  with acc(1) show ?thesis by blast
qed

theorem custom_response_hangs_witness:
  "\<exists>s s'. MODBUS_SER_CheckResponse (deliver (adu MODBUS_RTU 0 ([0x11, 0x41] @ replicate 252 0)) s) = Returned (SERIAL_STATUS_OK, s') \<and>
     MODBUS_SER_AnalyzeResponse True SERIAL_STATUS_OK s' = Hangs"
proof -
  obtain sp where sp: "pSpecifics (sample_serializer 1) = Some sp" "requestMode sp = MODBUS_RTU"
    using sample_specifics [of 1] by (auto simp: mode_of_def)
  let ?rq = "(sp_request sp)\<lparr>rq_slaveId := 0x11, rq_function := 0x41, rq_value := V_ptr (replicate 256 0)\<rparr>"
  let ?sp = "sp\<lparr>isCustom := True, sp_request := ?rq\<rparr>"
  let ?s = "(sample_serializer 1)\<lparr>pSpecifics := Some ?sp\<rparr>" and ?p = "[0x11, 0x41] @ replicate 252 0 :: bytes"
  have "modbus_inv (sample_serializer 1)" by (simp add: sample_serializer_inv)
  then have "modbus_inv ?s" using sp by (auto simp: modbus_inv_def)
  moreover have "answers (sp_request ?sp) ?p" by (simp add: answers_def matches_def)
  ultimately have "\<exists>s'. MODBUS_SER_CheckResponse (deliver (adu MODBUS_RTU 0 ?p) ?s) = Returned (SERIAL_STATUS_OK, s') \<and>
      MODBUS_SER_AnalyzeResponse True SERIAL_STATUS_OK s' = Hangs"
    by (intro custom_response_hangs [of ?s ?sp _ "replicate 256 0"]) (simp_all add: sp)
  then show ?thesis by blast
qed

section \<open>Reachable serializers\<close>

lemma fill_returned: "fill n body v k = Returned r \<Longrightarrow> \<exists>v'. k v' = Returned r"
  by (auto simp: fill_def split: modbus_value.splits option.splits if_splits)

lemma parse_response_transport:
  assumes "parse_response le len f sp buf = Returned (st, sp')"
  shows "same_transport sp sp'"
proof -
  have "same_transport sp sp'" if "ParseRawData len sp buf = Returned (st, sp')"
    using that by (auto simp: ParseRawData_def Let_def dest!: fill_returned)
  moreover have "same_transport sp sp'" if "ParseReadInputs sp buf = Returned (st, sp')"
    using that by (auto simp: ParseReadInputs_def Let_def dest!: load_returned fill_returned split: if_splits)
  moreover have "same_transport sp sp'" if "ParseReadRegisters le sp buf = Returned (st, sp')"
    using that by (auto simp: ParseReadRegisters_def Let_def dest!: load_returned fill_returned split: if_splits)
  moreover have "same_transport sp sp'" if "ParseWriteObject sp buf = Returned (st, sp')"
    using that by (auto simp: ParseWriteObject_def Let_def dest!: load_returned)
  ultimately show ?thesis using assms by (auto simp: parse_response_def dest!: load_returned split: if_splits)
qed

lemma forget_values_inv:
  assumes "forget_values s (st', sp') = Returned (st, s')" "modbus_inv s" "pSpecifics s = Some sp" "same_transport sp sp'"
  shows "modbus_inv s'"
  using assms by (auto simp: forget_values_def modbus_inv_def same_transport_def)

lemma MODBUS_SER_AnalyzeResponse_inv:
  assumes r: "MODBUS_SER_AnalyzeResponse le status s = Returned (st, s')" and s: "modbus_inv s"
  shows "modbus_inv s'"
proof -
  obtain sp buf where sp: "pSpecifics s = Some sp" "pResponseBuffer s = Some buf" using s by (auto simp: modbus_inv_def)
  have p: "same_transport sp sp'" if "parse_response le n f (sp\<lparr>sp_response := rs\<rparr>) buf = Returned (st', sp')" for n f rs st' sp'
    using parse_response_transport [OF that] by (simp add: same_transport_def)
  show ?thesis
    using r sp
    by (auto simp: MODBUS_SER_AnalyzeResponse_def ParseFunction_def Let_def dest!: load_returned p split: if_splits outcome.splits
        elim!: forget_values_inv [OF _ s])
qed

lemma MODBUS_SER_IsResponseComplete_inv:
  assumes "MODBUS_SER_IsResponseComplete s = Returned (b, s')" "modbus_inv s"
  shows "modbus_inv s'"
proof -
  obtain sp buf where sp: "pSpecifics s = Some sp" "pResponseBuffer s = Some buf" using assms(2) by (auto simp: modbus_inv_def)
  note m = terminate_marked [OF assms(2) sp(2)]
  have "modbus_inv (s\<lparr>pResponseBuffer := Some (marked s)\<rparr>)" "modbus_inv (s\<lparr>pResponseBuffer := Some (marked s), responseBufferLength := 0\<rparr>)"
    using assms(2) m(2) by (auto simp: modbus_inv_def)
  with assms sp show ?thesis
    by (auto simp: MODBUS_SER_IsResponseComplete_def m(1) split: ModbusRequestMode.splits option.splits)
qed

text \<open>
  The states of a serializer that was initialised, then used in any order; octets arrive up to the
  size of the response buffer.
\<close>

inductive modbus_reachable :: "Serializer \<Rightarrow> bool" where
  init: "modbus_reachable s'"
    if "MODBUS_SER_InitSerializer specs mal mode s = (SERIAL_STATUS_OK, s')" "\<And>k n b. mal k n = Some b \<Longrightarrow> length b = n"
| create: "modbus_reachable s'" if "modbus_reachable s" "MODBUS_SER_CreateRequest le rq s = Returned (st, s')"
| custom: "modbus_reachable s'" if "modbus_reachable s" "MODBUS_SER_CreateCustomRequest rq s = Returned (st, s')"
| receive: "modbus_reachable (deliver frame s)" if "modbus_reachable s" "length frame \<le> maxSize s"
| complete: "modbus_reachable s'" if "modbus_reachable s" "MODBUS_SER_IsResponseComplete s = Returned (b, s')"
| check: "modbus_reachable s'" if "modbus_reachable s" "MODBUS_SER_CheckResponse s = Returned (st, s')"
| analyze: "modbus_reachable s'" if "modbus_reachable s" "MODBUS_SER_AnalyzeResponse le status s = Returned (st, s')"


lemma reachable_init:
  assumes "fst (MODBUS_SER_InitSerializer specs mal mode s) = SERIAL_STATUS_OK" "\<And>k n b. mal k n = Some b \<Longrightarrow> length b = n"
  shows "modbus_reachable (snd (MODBUS_SER_InitSerializer specs mal mode s))"
  using assms by (intro modbus_reachable.init [of specs mal mode s]) (auto intro: prod_eqI)


end
