(* ===== verification/Sms_Alphabet.thy ===== *)
theory Sms_Alphabet
  imports C_Memory
begin

text \<open>
  The two character tables of \<open>src/luafwk/messaging/smspdu.c\<close>: from ISO 8859-1 to the 7-bit
  default alphabet of GSM 03.38 and back. An entry with 128 added stands for the escape character
  followed by the entry without it. The negative entry of the table is kept as the
  \<open>uint8_t\<close> it is stored as.
\<close>

definition NPC7 :: nat where "NPC7 = 63"
definition NPC8 :: nat where "NPC8 = 63"

definition lookup_ascii8to7 :: "nat list" where
  "lookup_ascii8to7 =
    [NPC7, NPC7, NPC7, NPC7, NPC7, NPC7, NPC7, NPC7, NPC7, NPC7, 10, NPC7, 10 + 128, 13, NPC7, NPC7,
     NPC7, NPC7, NPC7, NPC7, NPC7, NPC7, NPC7, NPC7, NPC7, NPC7, NPC7, NPC7, NPC7, NPC7, NPC7, NPC7,
     32, 33, 34, 35, 2, 37, 38, 39, 40, 41, 42, 43, 44, 45, 46, 47, 48, 49, 50, 51, 52, 53, 54, 55, 56,
     57, 58, 59, 60, 61, 62, 63, 0, 65, 66, 67, 68, 69, 70, 71, 72, 73, 74, 75, 76, 77, 78, 79, 80, 81,
     82, 83, 84, 85, 86, 87, 88, 89, 90, 60 + 128, 47 + 128, 62 + 128, 20 + 128, 17, 256 - 39, 97, 98,
     99, 100, 101, 102, 103, 104, 105, 106, 107, 108, 109, 110, 111, 112, 113, 114, 115, 116, 117, 118,
     119, 120, 121, 122, 40 + 128, 64 + 128, 41 + 128, 61 + 128, NPC7, NPC7, NPC7, 39, 102, 34, NPC7,
     NPC7, NPC7, NPC7, NPC7, 83, 39, 214, NPC7, NPC7, NPC7, NPC7, 39, 39, 34, 34, 42, 45, 45, 39, NPC7,
     115, 39, 111, NPC7, NPC7, 89, 32, 64, 99, 1, 36, 3, 33, 95, 34, NPC7, NPC7, 60, NPC7, 45, NPC7,
     NPC7, NPC7, NPC7, 50, 51, 39, 117, NPC7, NPC7, NPC7, 49, NPC7, 62, NPC7, NPC7, NPC7, 96, 65, 65,
     65, 65, 91, 14, 28, 9, 31, 31, 31, 31, 73, 73, 73, 73, 68, 93, 79, 79, 79, 79, 92, 42, 11, 85, 85,
     85, 94, 89, NPC7, 30, 127, 97, 97, 97, 123, 15, 29, 9, 4, 5, 101, 101, 7, 7, 105, 105, NPC7, 125,
     8, 111, 111, 111, 24, 47, 12, 6, 117, 117, 126, 121, NPC7, 121]"

definition lookup_ascii7to8 :: "nat list" where
  "lookup_ascii7to8 =
    [64, 163, 36, 165, 232, 233, 249, 236, 242, 199, 10, 216, 248, 13, 197, 229, NPC8, 95, NPC8, NPC8,
     NPC8, NPC8, NPC8, NPC8, NPC8, NPC8, NPC8, 27, 198, 230, 223, 201, 32, 33, 34, 35, 164, 37, 38, 39,
     40, 41, 42, 43, 44, 45, 46, 47, 48, 49, 50, 51, 52, 53, 54, 55, 56, 57, 58, 59, 60, 61, 62, 63,
     161, 65, 66, 67, 68, 69, 70, 71, 72, 73, 74, 75, 76, 77, 78, 79, 80, 81, 82, 83, 84, 85, 86, 87,
     88, 89, 90, 196, 214, 209, 220, 167, 191, 97, 98, 99, 100, 101, 102, 103, 104, 105, 106, 107, 108,
     109, 110, 111, 112, 113, 114, 115, 116, 117, 118, 119, 120, 121, 122, 228, 246, 241, 252, 224]"

lemma length_lookup [simp]: "length lookup_ascii8to7 = 256" "length lookup_ascii7to8 = 128"
  by (simp_all add: lookup_ascii8to7_def lookup_ascii7to8_def)

text \<open>The characters that follow an escape in \<open>convert_7bit_to_ascii\<close>, after the table lookup.\<close>

definition escaped :: "nat \<Rightarrow> byte" where
  "escaped b =
     (if b = 10 then 12 else if b = 20 then 0x5e else if b = 40 then 0x7b else if b = 41 then 0x7d
      else if b = 47 then 0x5c else if b = 60 then 0x5b else if b = 61 then 0x7e else if b = 62 then 0x5d
      else if b = 64 then 0x7c else of_nat NPC8)"

end
