(* ===== verification/Sms_Pdu.thy ===== *)
theory Sms_Pdu
  imports Sms_Alphabet
begin

text \<open>
  The codec of short messages (\<open>src/luafwk/messaging/smspdu.c\<close>): \<open>decode_smspdu\<close> reads a received
  message (SMS-DELIVER) given as hexadecimal characters, \<open>encode_smspdu\<close> writes the messages to
  send (SMS-SUBMIT), several of them when the text is long. A C string is the list of its
  characters with the terminating zero; reading behind it is a \<open>Fault\<close>. Message and address of a
  decoded message are the octets of the block behind the structure.
\<close>

section \<open>Octets in hexadecimal\<close>

definition hex_nibble :: "byte \<Rightarrow> nat" where
  "hex_nibble c =
     (let b = unat c in
      if 0x30 \<le> b \<and> b \<le> 0x39 then b - 0x30
      else if 0x61 \<le> b \<and> b \<le> 0x66 then b - 0x61 + 10
      else if 0x41 \<le> b \<and> b \<le> 0x46 then b - 0x41 + 10
      else 0)"

definition readbyte :: "bytes \<Rightarrow> nat \<Rightarrow> (nat \<Rightarrow> 'a outcome) \<Rightarrow> 'a outcome" where
  "readbyte buf pos k =
     load buf (2 * pos) (\<lambda>h. load buf (2 * pos + 1) (\<lambda>l. k (push_bit 4 (hex_nibble h) OR hex_nibble l)))"

definition writebyte :: "nat \<Rightarrow> bytes \<Rightarrow> nat \<Rightarrow> (bytes \<Rightarrow> 'a outcome) \<Rightarrow> 'a outcome" where
  "writebyte val buf pos k =
     store_at buf (2 * pos) [hex_digit (drop_bit 4 val AND 0xf), hex_digit (val AND 0xf)] k"

text \<open>The octets read are returned as a list; the caller stores them.\<close>

fun hextobin :: "bytes \<Rightarrow> nat \<Rightarrow> nat \<Rightarrow> (bytes \<Rightarrow> 'a outcome) \<Rightarrow> 'a outcome" where
  "hextobin hex pos 0 k = k []"
| "hextobin hex pos (Suc len) k = readbyte hex pos (\<lambda>v. hextobin hex (pos + 1) len (\<lambda>bin. k (of_nat v # bin)))"

fun bintohex :: "bytes \<Rightarrow> bytes \<Rightarrow> nat \<Rightarrow> (bytes \<Rightarrow> 'a outcome) \<Rightarrow> 'a outcome" where
  "bintohex [] hex pos k = k hex"
| "bintohex (b # bin) hex pos k = writebyte (unat b) hex pos (\<lambda>hex. bintohex bin hex (pos + 1) k)"

section \<open>Septets\<close>

definition read7bits :: "bytes \<Rightarrow> nat \<Rightarrow> (nat \<Rightarrow> 'a outcome) \<Rightarrow> 'a outcome" where
  "read7bits buffer pos k =
     readbyte buffer (pos div 8) (\<lambda>v.
       let a = drop_bit (pos AND 7) v in
       if 1 < pos AND 7 then readbyte buffer (pos div 8 + 1) (\<lambda>w. k ((a OR push_bit (8 - (pos AND 7)) w) AND 0x7f))
       else k ((a OR 0) AND 0x7f))"

definition write7bits :: "bytes \<Rightarrow> nat \<Rightarrow> nat \<Rightarrow> (bytes \<Rightarrow> 'a outcome) \<Rightarrow> 'a outcome" where
  "write7bits buffer val pos k =
     (let val = val AND 0x7f in
      if pos AND 7 = 0 then writebyte val buffer (pos div 8) k
      else if pos AND 7 = 1 then
        readbyte buffer (pos div 8) (\<lambda>v. writebyte (v OR push_bit 1 val) buffer (pos div 8) k)
      else
        readbyte buffer (pos div 8) (\<lambda>v. writebyte (v OR push_bit (pos AND 7) val) buffer (pos div 8) (\<lambda>buffer.
          writebyte (drop_bit (8 - (pos AND 7)) val) buffer (pos div 8 + 1) k)))"

text \<open>
  The loop over the septets from \<open>r\<close> to \<open>stop\<close>; the characters are returned as a list, whose
  length is the number that the function returns.
\<close>

function seven_loop :: "bytes \<Rightarrow> nat \<Rightarrow> nat \<Rightarrow> (bytes \<Rightarrow> 'a outcome) \<Rightarrow> 'a outcome" where
  "seven_loop a7bit r stop k =
     (if r < stop then
        read7bits a7bit (r * 7) (\<lambda>c.
          let byte = lookup_ascii7to8 ! c in
          if byte \<noteq> 27 then seven_loop a7bit (r + 1) stop (\<lambda>cs. k (of_nat byte # cs))
          else read7bits a7bit ((r + 1) * 7) (\<lambda>c.
            seven_loop a7bit (r + 2) stop (\<lambda>cs. k (escaped (lookup_ascii7to8 ! c) # cs))))
      else k [])"
  by pat_completeness auto
termination by (relation "measure (\<lambda>(a7bit, r, stop, k). stop - r)") auto

declare seven_loop.simps [simp del]

definition convert_7bit_to_ascii :: "bytes \<Rightarrow> nat \<Rightarrow> nat \<Rightarrow> (bytes \<Rightarrow> 'a outcome) \<Rightarrow> 'a outcome" where
  "convert_7bit_to_ascii a7bit pos len k = seven_loop a7bit pos (len + pos) k"

text \<open>With no destination the septets are only counted.\<close>

definition put7bits :: "bytes option \<Rightarrow> nat \<Rightarrow> nat \<Rightarrow> (bytes option \<Rightarrow> 'a outcome) \<Rightarrow> 'a outcome" where
  "put7bits a7bit val pos k =
     (case a7bit of None \<Rightarrow> k None | Some buf \<Rightarrow> write7bits buf val pos (\<lambda>buf. k (Some buf)))"

fun ascii_loop :: "bytes \<Rightarrow> nat \<Rightarrow> bytes option \<Rightarrow> (nat \<times> bytes option \<Rightarrow> 'a outcome) \<Rightarrow> 'a outcome" where
  "ascii_loop [] w a7bit k = k (w, a7bit)"
| "ascii_loop (c # cs) w a7bit k =
     (let byte = lookup_ascii8to7 ! unat c in
      if byte < 128 then put7bits a7bit byte (w * 7) (\<lambda>a7bit. ascii_loop cs (w + 1) a7bit k)
      else put7bits a7bit 27 (w * 7) (\<lambda>a7bit. put7bits a7bit (byte - 128) (w * 7 + 7) (\<lambda>a7bit.
        ascii_loop cs (w + 2) a7bit k)))"

definition convert_ascii_to_7bit ::
  "bytes \<Rightarrow> nat \<Rightarrow> nat \<Rightarrow> bytes option \<Rightarrow> (nat \<times> bytes option \<Rightarrow> 'a outcome) \<Rightarrow> 'a outcome" where
  "convert_ascii_to_7bit ascii pos len a7bit k = load_n ascii pos len (\<lambda>cs. ascii_loop cs 0 a7bit k)"

section \<open>Decoding\<close>

record SMS =
  sms_address :: bytes
  sms_timestamp :: bytes
  sms_message :: bytes
  message_length :: nat
  portbits :: nat
  dstport :: nat
  srcport :: nat
  concat_ref :: nat
  concat_maxnb :: nat
  concat_seqnb :: nat

text \<open>The elements of a user data header that are evaluated, with their values before the loop.\<close>

record udh =
  h_ref :: nat
  h_maxnb :: nat
  h_seqnb :: nat
  h_bits :: nat
  h_dst :: nat
  h_src :: nat

definition no_udh :: udh where
  "no_udh = \<lparr>h_ref = 0, h_maxnb = 1, h_seqnb = 1, h_bits = 0, h_dst = 0, h_src = 0\<rparr>"

definition read_element :: "bytes \<Rightarrow> nat \<Rightarrow> nat \<Rightarrow> udh \<Rightarrow> (udh \<Rightarrow> 'a outcome) \<Rightarrow> 'a outcome" where
  "read_element pdu iei pos h k =
     (if iei = 0 then
        readbyte pdu pos (\<lambda>r. readbyte pdu (pos + 1) (\<lambda>m. readbyte pdu (pos + 2) (\<lambda>s.
          k (h\<lparr>h_ref := r, h_maxnb := m, h_seqnb := s\<rparr>))))
      else if iei = 8 then
        readbyte pdu pos (\<lambda>r1. readbyte pdu (pos + 1) (\<lambda>r2. readbyte pdu (pos + 2) (\<lambda>m. readbyte pdu (pos + 3) (\<lambda>s.
          k (h\<lparr>h_ref := push_bit 8 r1 + r2, h_maxnb := m, h_seqnb := s\<rparr>)))))
      else if iei = 4 then
        readbyte pdu pos (\<lambda>d. readbyte pdu (pos + 1) (\<lambda>s. k (h\<lparr>h_bits := 8, h_dst := d, h_src := s\<rparr>)))
      else if iei = 5 then
        readbyte pdu pos (\<lambda>d1. readbyte pdu (pos + 1) (\<lambda>d2. readbyte pdu (pos + 2) (\<lambda>s1. readbyte pdu (pos + 3) (\<lambda>s2.
          k (h\<lparr>h_bits := 16, h_dst := push_bit 8 d1 + d2, h_src := push_bit 8 s1 + s2\<rparr>)))))
      else k h)"

function udh_loop :: "bytes \<Rightarrow> nat \<Rightarrow> nat \<Rightarrow> udh \<Rightarrow> (nat \<Rightarrow> udh \<Rightarrow> 'a outcome) \<Rightarrow> 'a outcome" where
  "udh_loop pdu c pos h k =
     (if 0 < c then
        readbyte pdu pos (\<lambda>iei. readbyte pdu (pos + 1) (\<lambda>l. read_element pdu iei (pos + 2) h (\<lambda>h.
          udh_loop pdu (c - (l + 2)) (pos + 2 + l) h k)))
      else k pos h)"
  by pat_completeness auto
termination by (relation "measure (\<lambda>(pdu, c, pos, h, k). c)") auto

declare udh_loop.simps [simp del]

definition read_udh :: "bytes \<Rightarrow> nat \<Rightarrow> (nat \<Rightarrow> nat \<Rightarrow> udh \<Rightarrow> 'a outcome) \<Rightarrow> 'a outcome" where
  "read_udh pdu sms_deliver k =
     (if bit sms_deliver 6 then
        readbyte pdu 0 (\<lambda>tp_udhl.
          if tp_udhl \<noteq> 0 then udh_loop pdu tp_udhl 1 no_udh (\<lambda>pos h. k (tp_udhl + 1) pos h)
          else k 0 1 no_udh)
      else k 0 0 no_udh)"

text \<open>1 for 8-bit characters, 0 for septets, or the error code.\<close>

definition encoding_of :: "nat \<Rightarrow> int + nat" where
  "encoding_of tp_dcs =
     (if drop_bit 6 tp_dcs = 0 then
        let encoding = drop_bit 2 tp_dcs AND 3 in
        if encoding \<noteq> 1 \<and> encoding \<noteq> 0 then Inl (- 2) else Inr encoding
      else if drop_bit 4 tp_dcs = 0xf then Inr (drop_bit 2 tp_dcs AND 1)
      else Inl (- 1))"

text \<open>Semi-octets are swapped in pairs.\<close>

definition swap_index :: "nat \<Rightarrow> nat" where
  "swap_index i = (i - i mod 2) + 1 - i mod 2"

fun loads :: "bytes \<Rightarrow> nat list \<Rightarrow> (bytes \<Rightarrow> 'a outcome) \<Rightarrow> 'a outcome" where
  "loads buf [] k = k []"
| "loads buf (i # is) k = load buf i (\<lambda>b. loads buf is (\<lambda>bs. k (b # bs)))"

definition decode_address :: "bytes \<Rightarrow> nat \<Rightarrow> nat \<Rightarrow> bytes \<Rightarrow> (bytes \<Rightarrow> 'a outcome) \<Rightarrow> 'a outcome" where
  "decode_address sender len toa mem k =
     (let typeofnumber = drop_bit 4 toa AND 7 in
      if typeofnumber = 5 then
        convert_7bit_to_ascii sender 0 (len * 4 div 7) (\<lambda>cs. store_at mem 0 cs (\<lambda>mem. store_at mem (length cs) [0] k))
      else
        let s = (if typeofnumber = 1 then 1 else 0) in
        store_at mem 0 (if typeofnumber = 1 then [0x2b] else []) (\<lambda>mem.
          loads sender (map swap_index [0..<len]) (\<lambda>cs. store_at mem s cs (\<lambda>mem. store_at mem (s + len) [0] k))))"

text \<open>
  \<open>mal n\<close> is the block of \<open>n\<close> octets behind the structure. A quotient that is negative is refused
  whichever way it is rounded. An 8-bit length is not checked.
\<close>

definition decode_text ::
  "nat \<Rightarrow> bytes \<Rightarrow> nat \<Rightarrow> nat \<Rightarrow> bytes \<Rightarrow> (bytes \<Rightarrow> nat \<Rightarrow> 'a outcome) \<Rightarrow> 'a outcome" where
  "decode_text encoding pdu pos len mem k =
     (if encoding = 1 then hextobin pdu pos len (\<lambda>bs. store_at mem 0 bs (\<lambda>mem. k mem (u16 len)))
      else convert_7bit_to_ascii pdu pos len (\<lambda>cs. store_at mem 0 cs (\<lambda>mem. k mem (u16 (length cs)))))"

definition decode_user_data ::
  "(int \<Rightarrow> bytes option) \<Rightarrow> bytes \<Rightarrow> nat \<Rightarrow> nat \<Rightarrow> nat \<Rightarrow> bytes \<Rightarrow> nat \<Rightarrow> nat \<Rightarrow> bytes \<Rightarrow> (int + SMS) outcome" where
  "decode_user_data mal pdu sms_deliver encoding tp_udl sender len toa stamp =
     read_udh pdu sms_deliver (\<lambda>tp_udhl pos h.
       let n = (if encoding = 1 then int tp_udl - int tp_udhl else (int tp_udl * 7 - int tp_udhl * 8) div 7);
           pos = (if encoding = 1 then pos else (tp_udhl * 8 + 6) div 7) in
       if encoding \<noteq> 1 \<and> n \<le> 0 then Returned (Inl (- 11))
       else case mal (n + 1 + int len + 2) of
              None \<Rightarrow> Returned (Inl (- 10))
            | Some mem \<Rightarrow>
                load_n stamp 0 14 (\<lambda>stamp.
                if n < 0 then Fault
                else decode_text encoding pdu pos (nat n) (take (nat n + 1) mem) (\<lambda>msg msg_len.
                  store_at msg (nat n) [0] (\<lambda>msg.
                  decode_address sender len toa (drop (nat n + 1) mem) (\<lambda>addr.
                    Returned (Inr \<lparr>sms_address = addr, sms_timestamp = stamp, sms_message = msg, message_length = msg_len,
                      portbits = h_bits h, dstport = h_dst h, srcport = h_src h, concat_ref = h_ref h,
                      concat_maxnb = h_maxnb h, concat_seqnb = h_seqnb h\<rparr>))))))"

definition decode_smspdu :: "(int \<Rightarrow> bytes option) \<Rightarrow> bytes \<Rightarrow> (int + SMS) outcome" where
  "decode_smspdu mal pdu =
     readbyte pdu 0 (\<lambda>smsc_info_length.
     (if 0 < smsc_info_length then (\<lambda>k. readbyte pdu 1 (\<lambda>_. k 2)) else (\<lambda>k. k 1)) (\<lambda>pos.
     let pos = pos + smsc_info_length - 1 in
     readbyte pdu pos (\<lambda>sms_deliver. readbyte pdu (pos + 1) (\<lambda>sender_address_length. readbyte pdu (pos + 2) (\<lambda>sender_toa.
     let sender = drop (2 * (pos + 3)) pdu; pos = pos + 3 + drop_bit 1 (sender_address_length + 1) in
     readbyte pdu pos (\<lambda>tp_pid. readbyte pdu (pos + 1) (\<lambda>tp_dcs.
     let stamp = drop (2 * (pos + 2)) pdu; pos = pos + 2 + 7 in
     readbyte pdu pos (\<lambda>tp_udl.
       case encoding_of tp_dcs of
         Inl e \<Rightarrow> Returned (Inl e)
       | Inr encoding \<Rightarrow> decode_user_data mal (drop (2 * (pos + 1)) pdu) sms_deliver encoding tp_udl sender
           sender_address_length sender_toa stamp))))))))"

section \<open>Encoding\<close>

record PDU =
  pdu_size :: nat
  pdu_buffer :: bytes

definition SMS_BUFFER_SIZE :: nat where
  "SMS_BUFFER_SIZE = (140 + 10 + 20 + 1) * 2"

fun writebytes :: "nat list \<Rightarrow> bytes \<Rightarrow> nat \<Rightarrow> (bytes \<Rightarrow> nat \<Rightarrow> 'a outcome) \<Rightarrow> 'a outcome" where
  "writebytes [] pdu pos k = k pdu pos"
| "writebytes (v # vs) pdu pos k = writebyte v pdu pos (\<lambda>pdu. writebytes vs pdu (pos + 1) k)"

text \<open>The digits of the number with the filler of an odd one, and the type of the address.\<close>

definition number_of :: "bytes \<Rightarrow> nat \<Rightarrow> (bytes \<Rightarrow> nat \<Rightarrow> nat \<Rightarrow> 'a outcome) \<Rightarrow> 'a outcome" where
  "number_of address address_len k =
     (let international = (address_len \<noteq> 0 \<and> address ! 0 = 0x2b);
          len = (if international then address_len - 1 else address_len);
          digits = (if international then take len (drop 1 address) else take len address);
          toa = (if international then 0x91 else 0x81) in
      store_at (replicate 20 0) 0 digits (\<lambda>number.
        if len mod 2 \<noteq> 0 then store_at number len [0x46] (\<lambda>number. k number len toa) else k number len toa))"

text \<open>One PDU: the fields in their order, the number in swapped pairs, the header of a part, the text.\<close>

definition encode_part ::
  "nat \<Rightarrow> nat \<Rightarrow> nat \<times> nat \<Rightarrow> bytes \<Rightarrow> nat \<Rightarrow> nat \<Rightarrow> bytes \<Rightarrow> bytes \<Rightarrow> (PDU \<Rightarrow> 'a outcome) \<Rightarrow> 'a outcome" where
  "encode_part nb_of_sms n ref number len toa part pdu k =
     (let several = (1 < nb_of_sms); sms_deliver_byte = (if several then 0x40 else 0) OR 0x11 in
      writebytes [0, sms_deliver_byte, 0, len, toa] pdu 0 (\<lambda>pdu pos.
      loads number (map swap_index [0..<len + len mod 2]) (\<lambda>cs. store_at pdu (2 * pos) cs (\<lambda>pdu.
      writebytes [0, 4, 0xad, length part + (if several then 7 else 0)] pdu (pos + (len + 1) div 2) (\<lambda>pdu pos.
      writebytes (if several then [6, 8, 4, fst ref, snd ref, nb_of_sms, n + 1] else []) pdu pos (\<lambda>pdu pos.
      bintohex part pdu pos (\<lambda>pdu.
      store_at pdu ((pos + length part) * 2) [0] (\<lambda>pdu.
        k \<lparr>pdu_size = u16 (pos + length part - 1), pdu_buffer = pdu\<rparr>))))))))"

fun encode_parts ::
  "nat \<Rightarrow> nat \<Rightarrow> nat \<times> nat \<Rightarrow> nat \<Rightarrow> bytes \<Rightarrow> nat \<Rightarrow> nat \<Rightarrow> bytes \<Rightarrow> bytes \<Rightarrow> nat \<Rightarrow> (PDU list \<Rightarrow> 'a outcome) \<Rightarrow> 'a outcome" where
  "encode_parts nb n ref max_sms_length number len toa message buffer 0 k = k []"
| "encode_parts nb n ref max_sms_length number len toa message buffer (Suc todo) k =
     encode_part nb n ref number len toa (take max_sms_length message) (take SMS_BUFFER_SIZE (drop (SMS_BUFFER_SIZE * n) buffer)) (\<lambda>p.
       encode_parts nb (n + 1) ref max_sms_length number len toa (drop max_sms_length message) buffer todo (\<lambda>ps. k (p # ps)))"

text \<open>
  \<open>mal nb\<close> is the memory of \<open>nb\<close> PDU buffers behind the table of the PDUs, \<open>rnd\<close> the two
  numbers that \<open>rand\<close> returns. \<open>message\<close> has the length that the function is given, \<open>address\<close>
  the characters before the terminating zero.
\<close>

definition encode_smspdu :: "(nat \<Rightarrow> bytes option) \<Rightarrow> nat \<times> nat \<Rightarrow> bytes \<Rightarrow> bytes \<Rightarrow> (int + PDU list) outcome" where
  "encode_smspdu mal rnd message address =
     (if 255 * 133 < length message then Returned (Inl (- 100))
      else
        let several = (140 < length message);
            max_sms_length = (if several then 133 else 140);
            nb_of_sms = (if several then (length message + max_sms_length - 1) div max_sms_length else 1);
            ref = (if several then (fst rnd AND 0xff, snd rnd AND 0xff) else (0, 0));
            address_len = length address in
        if 20 < address_len then Returned (Inl (- 1))
        else number_of address address_len (\<lambda>number len toa.
          case mal nb_of_sms of
            None \<Rightarrow> Returned (Inl (- 10))
          | Some buffer \<Rightarrow>
              encode_parts nb_of_sms 0 ref max_sms_length number len toa message buffer nb_of_sms (\<lambda>ps. Returned (Inr ps))))"

end
