(* ===== verification/Sms_Septets.thy ===== *)
theory Sms_Septets
  imports Sms_Pdu
begin

text \<open>
  The 7-bit text of short messages. The user data is read as one number, least significant octet
  first, in which the septet \<open>i\<close> occupies the bits from \<open>7 * i\<close> on; \<open>read7bits\<close> and \<open>write7bits\<close>
  are shown to read and write its septets, the converters to implement the packing of GSM 03.38,
  and texts over the characters that both tables know to survive the round trip.
\<close>

section \<open>Octets and their hexadecimal characters\<close>

abbreviation hex :: "bytes \<Rightarrow> bytes" where
  "hex d \<equiv> concat (map hex2 d)"

lemma and_7_nat [c_arith]: "(x::nat) AND 7 = x mod 8"
  using take_bit_eq_mask [of 3 x] by (simp add: take_bit_eq_mod mask_eq_exp_minus_1)

lemma and_15_nat [c_arith]: "(x::nat) AND 15 = x mod 16"
  using take_bit_eq_mask [of 4 x] by (simp add: take_bit_eq_mod mask_eq_exp_minus_1)

lemma and_127_nat [c_arith]: "(x::nat) AND 127 = x mod 128"
  using take_bit_eq_mask [of 7 x] by (simp add: take_bit_eq_mod mask_eq_exp_minus_1)

lemma or_shifted: "a < 2 ^ n \<Longrightarrow> a OR push_bit n b = a + b * 2 ^ n" for a b :: nat
proof -
  assume "a < 2 ^ n"
  then have "\<not> bit a m" if "n \<le> m" for m
    using that by (metis bit_take_bit_iff leD take_bit_nat_eq_self)
  then have "a + push_bit n b = a OR push_bit n b"
    by (intro disjunctive_add) (auto simp: bit_push_bit_iff)
  then show ?thesis by (simp add: push_bit_eq_mult)
qed

lemma hex_nibble_digit [simp]: "n < 16 \<Longrightarrow> hex_nibble (hex_digit n) = n"
  by (auto simp: hex_nibble_def unat_hex_digit Let_def)

lemma nth_hex:
  "i < length d \<Longrightarrow> (hex d @ r) ! (2 * i) = hex_digit (unat (d ! i) div 16)"
  "i < length d \<Longrightarrow> (hex d @ r) ! Suc (2 * i) = hex_digit (unat (d ! i) mod 16)"
proof (induction d arbitrary: i)
  case (Cons b d)
  case 1
  with Cons show ?case by (cases i) (simp_all add: hex2_def)
next
  case (Cons b d)
  case 2
  with Cons show ?case by (cases i) (simp_all add: hex2_def)
qed simp_all

lemma readbyte_hex [simp]:
  assumes "i < length d"
  shows "readbyte (hex d @ r) i k = k (unat (d ! i))"
proof -
  have "push_bit 4 (unat (d ! i) div 16) OR unat (d ! i) mod 16 = unat (d ! i)"
    using or_shifted [of "unat (d ! i) mod 16" 4 "unat (d ! i) div 16"] by (subst or.commute) simp
  then show ?thesis using assms by (simp add: readbyte_def nth_hex load_def)
qed

lemma drop_hex: "n \<le> length d \<Longrightarrow> drop (2 * n) (hex d @ r) = hex (drop n d) @ r"
  by (induction d arbitrary: n) (auto simp: hex2_def drop_Cons' gr0_conv_Suc)

lemma hex2_of_nat: "hex2 (of_nat v) = [hex_digit (drop_bit 4 v AND 0xf), hex_digit (v AND 0xf)]"
proof -
  have "v mod 256 div 16 = v div 16 mod 16" using div_mult2_eq [of "v" 16 16] by (simp add: mod_mult2_eq [of v 16 16, simplified])
  moreover have "v mod 256 mod 16 = v mod 16" by (simp add: mod_mod_cancel)
  ultimately show ?thesis by (simp add: hex2_def unat_of_nat_byte c_arith)
qed

lemma writebyte_last:
  "writebyte v (hex (d @ [b]) @ r) (length d) k = k (hex (d @ [of_nat v]) @ r)"
  unfolding writebyte_def hex2_of_nat [symmetric]
  by (subst store_at_in) (simp_all add: overwrite_def)

lemma writebyte_new:
  assumes "2 \<le> length r"
  shows "writebyte v (hex d @ r) (length d) k = k (hex (d @ [of_nat v]) @ drop 2 r)"
  unfolding writebyte_def hex2_of_nat [symmetric]
  using assms by (subst store_at_in) (simp_all add: overwrite_def)

section \<open>User data as a number\<close>

fun le_nat :: "bytes \<Rightarrow> nat" where
  "le_nat [] = 0"
| "le_nat (b # bs) = unat b + 256 * le_nat bs"

lemma le_nat_append: "le_nat (xs @ ys) = le_nat xs + 256 ^ length xs * le_nat ys"
  by (induction xs) (simp_all add: algebra_simps)

lemma le_nat_bound: "le_nat xs < 256 ^ length xs"
proof (induction xs)
  case (Cons b xs)
  have "unat b + 256 * le_nat xs < 256 * 256 ^ length xs" using Cons unat_byte_less [of b] by linarith
  then show ?case by simp
qed simp

lemma le_nat_drop: "q \<le> length d \<Longrightarrow> le_nat d div 256 ^ q = le_nat (drop q d)"
proof -
  assume "q \<le> length d"
  then have "le_nat d = le_nat (take q d) + 256 ^ q * le_nat (drop q d)"
    using le_nat_append [of "take q d" "drop q d"] by simp
  moreover have "le_nat (take q d) < 256 ^ q" using le_nat_bound [of "take q d"] \<open>q \<le> length d\<close> by simp
  ultimately show ?thesis by simp
qed

lemma le_nat_inject: "length xs = length ys \<Longrightarrow> le_nat xs = le_nat ys \<Longrightarrow> xs = ys"
proof (induction xs ys rule: list_induct2)
  case (Cons x xs y ys)
  have "unat x = unat y" using arg_cong [OF Cons.prems, of "\<lambda>n. n mod 256"] by simp
  with Cons show ?case by (simp add: word_unat_eq_iff)
qed simp

definition septet :: "bytes \<Rightarrow> nat \<Rightarrow> nat" where
  "septet d i = le_nat d div 2 ^ (7 * i) mod 128"

lemma septet_less [simp]: "septet d i < 128"
  by (simp add: septet_def)

text \<open>The septet that starts at bit \<open>s\<close> of an octet, from that octet and the next one.\<close>

lemma septet_two_octets:
  fixes x w R :: nat
  assumes "s < 8"
  shows "(x + 256 * (w + 256 * R)) div 2 ^ s mod 128 = (x div 2 ^ s + w * 2 ^ (8 - s)) mod 128"
proof -
  have "2 ^ s * 2 ^ (8 - s) = (256 :: nat)" using assms by (simp flip: power_add)
  then have "x + 256 * (w + 256 * R) = 2 ^ s * (2 ^ (8 - s) * (w + 256 * R)) + x" by (simp flip: mult.assoc)
  then have "(x + 256 * (w + 256 * R)) div 2 ^ s = 2 ^ (8 - s) * (w + 256 * R) + x div 2 ^ s" by simp
  also have "\<dots> = x div 2 ^ s + w * 2 ^ (8 - s) + 128 * (2 * 2 ^ (8 - s) * R)" by (simp add: algebra_simps)
  finally show ?thesis by (simp only: mod_mult_self2)
qed

lemma septet_one_octet:
  fixes x M :: nat
  assumes "s = 0 \<or> s = 1"
  shows "(x + 256 * M) div 2 ^ s mod 128 = x div 2 ^ s mod 128"
proof -
  have "x + 256 * M = x + 128 * (2 * M)" "(x + 256 * M) div 2 = x div 2 + 128 * M"
    using div_mult_self1 [of 2 x "128 * M"] by simp_all
  then show ?thesis using assms by (elim disjE) (simp_all only: power_0 div_by_1 power_one_right mod_mult_self2)
qed

lemma read7bits_septet:
  assumes "7 * i + 7 \<le> 8 * length d"
  shows "read7bits (hex d @ r) (i * 7) k = k (septet d i)"
proof -
  define q s where "q = 7 * i div 8" and "s = 7 * i mod 8"
  have qs: "7 * i = 8 * q + s" "s < 8" by (simp_all add: q_def s_def)
  with assms have q: "q < length d" by linarith
  define x where "x = unat (d ! q)"
  have x: "x < 2 ^ s * 2 ^ (8 - s)" using qs(2) by (simp add: x_def flip: power_add)
  have "le_nat d div 2 ^ (7 * i) = le_nat (drop q d) div 2 ^ s"
    using q by (simp add: qs power_add power_mult le_nat_drop div_mult2_eq)
  then have v: "septet d i = (x + 256 * le_nat (drop (Suc q) d)) div 2 ^ s mod 128"
    using q by (simp add: septet_def x_def flip: Cons_nth_drop_Suc)
  have pos: "i * 7 div 8 = q" "i * 7 mod 8 = s" by (simp_all add: q_def s_def mult.commute)
  have rd: "readbyte (hex d @ r) q f = f x" for f using q by (simp add: x_def)
  show ?thesis
  proof (cases "1 < s")
    case True
    with assms qs have q1: "Suc q < length d" by linarith
    define w where "w = unat (d ! Suc q)"
    have "drop_bit s x < 2 ^ (8 - s)" using x by (simp add: drop_bit_eq_div less_mult_imp_div_less mult.commute)
    then have "(drop_bit s x OR push_bit (8 - s) w) AND 0x7f = (x div 2 ^ s + w * 2 ^ (8 - s)) mod 128"
      by (simp add: or_shifted and_127_nat drop_bit_eq_div)
    also have "\<dots> = septet d i"
    proof -
      have "le_nat (drop (Suc q) d) = w + 256 * le_nat (drop (Suc (Suc q)) d)"
        using q1 by (simp add: w_def flip: Cons_nth_drop_Suc)
      then show ?thesis by (simp only: v septet_two_octets [OF qs(2)])
    qed
    finally show ?thesis
      using True q1 by (simp add: read7bits_def and_7_nat pos rd Let_def flip: w_def)
  next
    case False
    then have "drop_bit s x AND 0x7f = septet d i"
      unfolding v by (subst septet_one_octet) (auto simp: and_127_nat drop_bit_eq_div)
    with False show ?thesis by (simp add: read7bits_def and_7_nat pos rd Let_def)
  qed
qed

section \<open>Packing\<close>

fun septets_nat :: "nat list \<Rightarrow> nat" where
  "septets_nat [] = 0"
| "septets_nat (s # ss) = s + 128 * septets_nat ss"

definition le_bytes :: "nat \<Rightarrow> nat \<Rightarrow> bytes" where
  "le_bytes n N = map (\<lambda>i. of_nat (N div 256 ^ i)) [0..<n]"

text \<open>The packing of GSM 03.38: the septets one behind the other, low bits first, in as few octets as hold them.\<close>

definition pack :: "nat list \<Rightarrow> bytes" where
  "pack ss = le_bytes ((7 * length ss + 7) div 8) (septets_nat ss)"

abbreviation septets_ok :: "nat list \<Rightarrow> bool" where
  "septets_ok ss \<equiv> \<forall>s \<in> set ss. s < 128"

lemma septets_nat_append: "septets_nat (ss @ ts) = septets_nat ss + 128 ^ length ss * septets_nat ts"
  by (induction ss) (simp_all add: algebra_simps)

lemma septets_nat_bound: "septets_ok ss \<Longrightarrow> septets_nat ss < 128 ^ length ss"
proof (induction ss)
  case (Cons s ss)
  then have "s < 128" "septets_nat ss < 128 ^ length ss" by simp_all
  then have "s + 128 * septets_nat ss < 128 * 128 ^ length ss" by linarith
  then show ?case by simp
qed simp

lemma le_bytes_Suc: "le_bytes (Suc n) N = of_nat N # le_bytes n (N div 256)"
proof -
  have "[0..<Suc n] = 0 # map Suc [0..<n]" using upt_conv_Cons [of 0 "Suc n"] map_Suc_upt [of 0 n] by simp
  then show ?thesis by (simp add: le_bytes_def div_mult2_eq)
qed

lemma le_nat_le_bytes: "le_nat (le_bytes n N) = N mod 256 ^ n"
proof (induction n arbitrary: N)
  case 0
  then show ?case by (simp add: le_bytes_def)
next
  case (Suc n)
  then show ?case by (simp add: le_bytes_Suc unat_of_nat_byte mod_mult2_eq)
qed

lemma length_pack [simp]: "length (pack ss) = (7 * length ss + 7) div 8"
  by (simp add: pack_def le_bytes_def)

lemma le_nat_pack:
  assumes "septets_ok ss"
  shows "le_nat (pack ss) = septets_nat ss"
proof -
  have "septets_nat ss < 2 ^ (7 * length ss)" using septets_nat_bound [OF assms] by (simp add: power_mult)
  also have "\<dots> \<le> 2 ^ (8 * ((7 * length ss + 7) div 8))" by (rule power_increasing) (linarith, simp)
  finally show ?thesis by (simp add: pack_def le_nat_le_bytes power_mult)
qed

lemma pack_eqI: "septets_ok ss \<Longrightarrow> length d = (7 * length ss + 7) div 8 \<Longrightarrow> le_nat d = septets_nat ss \<Longrightarrow> pack ss = d"
  by (rule le_nat_inject) (simp_all add: le_nat_pack)

lemma septet_pack:
  assumes "septets_ok ss" "i < length ss"
  shows "septet (pack ss) i = ss ! i"
proof -
  have "septets_nat ss div 128 ^ i mod 128 = ss ! i" if "septets_ok ss" "i < length ss" for ss i
    using that
  proof (induction ss arbitrary: i)
    case (Cons s ss)
    then show ?case by (cases i) (simp_all add: div_mult2_eq)
  qed simp
  with assms show ?thesis by (simp add: septet_def le_nat_pack power_mult)
qed

text \<open>A buffer whose first octets, in hexadecimal, are packed septets.\<close>

definition holding :: "nat list \<Rightarrow> bytes \<Rightarrow> bytes" where
  "holding ss buf = hex (pack ss) @ drop (2 * length (pack ss)) buf"

lemma pack_step_0:
  assumes ss: "septets_ok ss" "v < 128" and w: "7 * length ss = 8 * q"
  shows "pack (ss @ [v]) = pack ss @ [of_nat v]" "length (pack ss) = q"
proof -
  show l: "length (pack ss) = q" using w by simp
  have "128 ^ length ss = (256 :: nat) ^ q"
    using arg_cong [OF w, of "\<lambda>n. (2::nat) ^ n"] by (simp add: power_mult)
  with l ss w show "pack (ss @ [v]) = pack ss @ [of_nat v]"
    by (intro pack_eqI) (auto simp: le_nat_append le_nat_pack septets_nat_append unat_of_nat_byte)
qed

text \<open>The last octet of the packed septets uses its \<open>s\<close> low bits.\<close>

lemma pack_last:
  assumes ss: "septets_ok ss" and w: "7 * length ss = 8 * q + s" "0 < s" "s < 8"
  obtains e x where "pack ss = e @ [x]" "length e = q" "unat x < 2 ^ s" "septets_nat ss = le_nat e + 256 ^ q * unat x"
proof -
  have l: "length (pack ss) = Suc q" using w by simp
  then obtain e x where ex: "pack ss = e @ [x]" "length e = q" by (metis length_Suc_conv_rev)
  then have n: "septets_nat ss = le_nat e + 256 ^ q * unat x"
    using le_nat_pack [OF ss] by (simp add: le_nat_append)
  have "septets_nat ss < 2 ^ (8 * q + s)" using septets_nat_bound [OF ss] by (simp flip: w(1) add: power_mult)
  moreover have "256 ^ q * unat x \<le> septets_nat ss" by (simp add: n)
  moreover have "(2::nat) ^ (8 * q + s) = 256 ^ q * 2 ^ s" by (simp add: power_add power_mult)
  ultimately have "256 ^ q * unat x < 256 ^ q * 2 ^ s" by linarith
  then have "unat x < 2 ^ s" by simp
  with ex n that show ?thesis by blast
qed

lemma weight: "7 * length ss = 8 * q + s \<Longrightarrow> (128::nat) ^ length ss = 256 ^ q * 2 ^ s"
proof -
  assume "7 * length ss = 8 * q + s"
  then have "(2::nat) ^ (7 * length ss) = 2 ^ (8 * q + s)" by simp
  then show ?thesis by (simp add: power_mult power_add)
qed

lemma pack_step_1:
  assumes ss: "septets_ok ss" "v < 128" and w: "7 * length ss = 8 * q + 1" and e: "pack ss = e @ [x]"
  shows "pack (ss @ [v]) = e @ [of_nat (unat x OR push_bit 1 v)]"
proof -
  from pack_last [OF ss(1) w] obtain e' x' where
    x: "pack ss = e' @ [x']" "length e' = q" "unat x' < 2 ^ 1" "septets_nat ss = le_nat e' + 256 ^ q * unat x'" by auto
  with e have [simp]: "e' = e" "x' = x" by simp_all
  have "unat (of_nat (unat x OR push_bit 1 v) :: byte) = unat x + v * 2"
    unfolding unat_of_nat_byte using x(3) ss(2) or_shifted [of "unat x" 1 v] by simp
  with x ss w weight [OF w] show ?thesis
    by (intro pack_eqI) (auto simp: le_nat_append septets_nat_append algebra_simps)
qed

lemma shifted_high:
  fixes x v :: nat
  assumes "x < 2 ^ s" "s < 8"
  shows "(x + v * 2 ^ s) div 256 = v div 2 ^ (8 - s)"
proof -
  have "(256::nat) = 2 ^ s * 2 ^ (8 - s)" using assms(2) by (simp flip: power_add)
  then have "(x + v * 2 ^ s) div 256 = (x + v * 2 ^ s) div 2 ^ s div 2 ^ (8 - s)" by (simp only: div_mult2_eq)
  with assms(1) show ?thesis by simp
qed

lemma pack_step_2:
  assumes ss: "septets_ok ss" "v < 128" and w: "7 * length ss = 8 * q + s" "1 < s" "s < 8" and e: "pack ss = e @ [x]"
  shows "pack (ss @ [v]) = e @ [of_nat (unat x OR push_bit s v), of_nat (drop_bit (8 - s) v)]"
proof -
  from w(2) have s0: "0 < s" by simp
  from pack_last [OF ss(1) w(1) s0 w(3)] obtain e' x' where
    x: "pack ss = e' @ [x']" "length e' = q" "unat x' < 2 ^ s" "septets_nat ss = le_nat e' + 256 ^ q * unat x'" by auto
  with e have [simp]: "e' = e" "x' = x" by simp_all
  have "unat x < 2 ^ s" using x(3) by simp
  then have "(unat x + v * 2 ^ s) mod 256 + 256 * (v div 2 ^ (8 - s)) = unat x + v * 2 ^ s"
    using mod_mult_div_eq [of "unat x + v * 2 ^ s" 256] by (simp only: shifted_high [OF _ w(3)])
  moreover have "v div 2 ^ (8 - s) < 256" using ss(2) div_le_dividend [of v "2 ^ (8 - s)"] by linarith
  ultimately have "unat (of_nat (unat x OR push_bit s v) :: byte) + 256 * unat (of_nat (drop_bit (8 - s) v) :: byte) = unat x + v * 2 ^ s"
    unfolding unat_of_nat_byte drop_bit_eq_div using or_shifted [of "unat x" s v] x(3) by simp
  note sum = arg_cong [OF this, of "\<lambda>n. 256 ^ q * n"]
  have l: "(7 * length (ss @ [v]) + 7) div 8 = Suc (Suc q)" using w by simp
  show ?thesis
  proof (rule pack_eqI)
    show "le_nat (e @ [of_nat (unat x OR push_bit s v), of_nat (drop_bit (8 - s) v)]) = septets_nat (ss @ [v])"
      using x sum by (simp add: le_nat_append septets_nat_append weight [OF w(1)] distrib_left mult.assoc mult.left_commute)
  qed (use ss x l in auto)
qed

lemma write7bits_septet:
  assumes ss: "septets_ok ss" "v < 128" and room: "2 * length (pack (ss @ [v])) \<le> length buf"
  shows "write7bits (holding ss buf) v (length ss * 7) k = k (holding (ss @ [v]) buf)"
proof -
  define q s where "q = 7 * length ss div 8" and "s = 7 * length ss mod 8"
  have qs: "7 * length ss = 8 * q + s" "s < 8" by (simp_all add: q_def s_def)
  have pos: "length ss * 7 div 8 = q" "length ss * 7 mod 8 = s" by (simp_all add: q_def s_def mult.commute)
  have v: "v AND 0x7f = v" using ss(2) by (simp add: and_127_nat)
  consider "s = 0" | "s = 1" | "1 < s" by linarith
  then show ?thesis
  proof cases
    case 1
    with qs have w: "7 * length ss = 8 * q" by simp
    note st = pack_step_0 [OF ss w]
    have "2 \<le> length (drop (2 * length (pack ss)) buf)" using room st by simp
    from writebyte_new [OF this, of v "pack ss"] 1 v st show ?thesis
      by (simp add: write7bits_def and_7_nat pos holding_def)
  next
    case 2
    with qs have w: "7 * length ss = 8 * q + 1" by simp
    obtain e x where e: "pack ss = e @ [x]" "length e = q" by (rule pack_last [OF ss(1) w]) simp_all
    have n: "(e @ [x]) ! q = x" "q < length (e @ [x])" using e(2) by auto
    have rd: "readbyte (holding ss buf) q f = f (unat x)" for f
      using readbyte_hex [OF n(2), of _ f] n(1) by (simp only: holding_def e(1))
    have wr: "writebyte u (holding ss buf) q k = k (hex (e @ [of_nat u]) @ drop (2 * length (pack ss)) buf)" for u
      using writebyte_last [of u e x _ k] e by (simp only: holding_def)
    have "length (pack (ss @ [v])) = length (pack ss)" using e by (simp add: pack_step_1 [OF ss w e(1)])
    with 2 show ?thesis
      by (simp only: write7bits_def and_7_nat pos v rd wr Let_def) (simp add: holding_def pack_step_1 [OF ss w e(1)])
  next
    case 3
    then have s0: "0 < s" by simp
    obtain e x where e: "pack ss = e @ [x]" "length e = q" by (rule pack_last [OF ss(1) qs(1) s0 qs(2)])
    have n: "(e @ [x]) ! q = x" "q < length (e @ [x])" using e(2) by auto
    note st = pack_step_2 [OF ss qs(1) 3 qs(2) e(1)]
    have rd: "readbyte (holding ss buf) q f = f (unat x)" for f
      using readbyte_hex [OF n(2), of _ f] n(1) by (simp only: holding_def e(1))
    have wr: "writebyte u (holding ss buf) q f = f (hex (e @ [of_nat u]) @ drop (2 * length (pack ss)) buf)" for u f
      using writebyte_last [of u e x _ f] e by (simp only: holding_def)
    have "2 \<le> length (drop (2 * length (pack ss)) buf)" using room e by (simp add: st del: length_pack)
    from writebyte_new [OF this, of _ "e @ [y]" k for y]
    have wn: "writebyte u (hex (e @ [y]) @ drop (2 * length (pack ss)) buf) (q + 1) k =
        k (hex (e @ [y, of_nat u]) @ drop (2 * length (pack (ss @ [v]))) buf)" for u y
      using e by (simp add: st add.commute)
    show ?thesis
      using 3 by (simp only: write7bits_def and_7_nat pos v rd wr wn Let_def) (simp add: holding_def st)
  qed
qed

section \<open>Texts\<close>

definition char_septets :: "byte \<Rightarrow> nat list" where
  "char_septets c = (let b = lookup_ascii8to7 ! unat c in if b < 128 then [b] else [27, b - 128])"

abbreviation text_septets :: "bytes \<Rightarrow> nat list" where
  "text_septets cs \<equiv> concat (map char_septets cs)"

lemma lookup8to7_less: "lookup_ascii8to7 ! unat (c :: byte) < 256"
proof -
  have "list_all (\<lambda>x. x < 256) lookup_ascii8to7" by (simp add: lookup_ascii8to7_def NPC7_def)
  then show ?thesis by (simp add: list_all_length)
qed

lemma char_septets_ok: "septets_ok (char_septets c)"
  using lookup8to7_less [of c] by (auto simp: char_septets_def Let_def)

lemma pack_mono: "length ss \<le> length ts \<Longrightarrow> length (pack ss) \<le> length (pack ts)"
  by simp

lemma put7bits_holding:
  assumes "septets_ok ss" "v < 128" "2 * length (pack (ss @ [v])) \<le> length buf" "n = length ss * 7"
  shows "put7bits (Some (holding ss buf)) v n k = k (Some (holding (ss @ [v]) buf))"
  unfolding put7bits_def assms(4) using write7bits_septet [OF assms(1-3)] by simp

lemma ascii_loop_packs:
  assumes "septets_ok ss" "2 * length (pack (ss @ text_septets cs)) \<le> length buf"
  shows "ascii_loop cs (length ss) (Some (holding ss buf)) k =
     k (length (ss @ text_septets cs), Some (holding (ss @ text_septets cs) buf))"
  using assms
proof (induction cs arbitrary: ss)
  case (Cons c cs)
  let ?b = "lookup_ascii8to7 ! unat c"
  have "septets_ok (ss @ char_septets c)" using Cons.prems(1) char_septets_ok [of c] by auto
  moreover have "2 * length (pack ((ss @ char_septets c) @ text_septets cs)) \<le> length buf"
    using Cons.prems(2) by (simp only: append_assoc list.map concat.simps)
  ultimately have IH: "ascii_loop cs (length (ss @ char_septets c)) (Some (holding (ss @ char_septets c) buf)) k =
      k (length (ss @ text_septets (c # cs)), Some (holding (ss @ text_septets (c # cs)) buf))"
    using Cons.IH [of "ss @ char_septets c"] by (simp only: append_assoc list.map concat.simps)
  have room: "2 * length (pack (ss @ ts)) \<le> length buf" if "length ts \<le> length (char_septets c)" for ts
  proof -
    have "length (ss @ ts) \<le> length (ss @ text_septets (c # cs))" using that by simp
    from pack_mono [OF this] Cons.prems(2) show ?thesis by linarith
  qed
  show ?case
  proof (cases "?b < 128")
    case True
    then have cs: "char_septets c = [?b]" by (simp only: char_septets_def Let_def if_True)
    have "put7bits (Some (holding ss buf)) ?b (length ss * 7) f = f (Some (holding (ss @ char_septets c) buf))"
      for f :: "bytes option \<Rightarrow> 'a outcome"
      unfolding cs by (intro put7bits_holding [OF Cons.prems(1) True _ refl] room) (simp add: cs)
    moreover have "length (ss @ char_septets c) = length ss + 1" by (simp add: cs)
    ultimately show ?thesis using IH True by (simp only: ascii_loop.simps Let_def if_True)
  next
    case False
    then have cs: "char_septets c = [27, ?b - 128]" by (simp only: char_septets_def Let_def if_False)
    have v: "?b - 128 < 128" using lookup8to7_less [of c] by linarith
    have ok: "septets_ok (ss @ [27])" using Cons.prems(1) by simp
    have n: "length ss * 7 + 7 = length (ss @ [27 :: nat]) * 7" by simp
    have "put7bits (Some (holding ss buf)) 27 (length ss * 7) f = f (Some (holding (ss @ [27]) buf))" for f :: "bytes option \<Rightarrow> 'a outcome"
      by (intro put7bits_holding [OF Cons.prems(1) _ _ refl] room) (simp_all add: cs)
    moreover have "put7bits (Some (holding (ss @ [27]) buf)) (?b - 128) (length ss * 7 + 7) f = f (Some (holding (ss @ char_septets c) buf))"
      for f :: "bytes option \<Rightarrow> 'a outcome"
      using room [of "[27, ?b - 128]"] put7bits_holding [OF ok v _ n, of buf f] by (simp add: cs del: length_pack)
    moreover have "length (ss @ char_septets c) = length ss + 2" by (simp add: cs)
    ultimately show ?thesis using IH False by (simp only: ascii_loop.simps Let_def if_False)
  qed
qed simp

text \<open>The text of septets: the escape character and its successor stand for one character.\<close>

fun text_of :: "nat list \<Rightarrow> bytes" where
  "text_of [] = []"
| "text_of [b] = (if b = 27 then [] else [of_nat (lookup_ascii7to8 ! b)])"
| "text_of (b # c # bs) =
     (if b = 27 then escaped (lookup_ascii7to8 ! c) # text_of bs else of_nat (lookup_ascii7to8 ! b) # text_of (c # bs))"

fun complete :: "nat list \<Rightarrow> bool" where
  "complete [] = True"
| "complete [b] = (b \<noteq> 27)"
| "complete (b # c # bs) = (if b = 27 then complete bs else complete (c # bs))"

lemma lookup_escape:
  assumes "b < 128"
  shows "lookup_ascii7to8 ! b = 27 \<longleftrightarrow> b = 27"
proof -
  have "list_all (\<lambda>b. (lookup_ascii7to8 ! b = 27) = (b = 27)) [0..<128]" by code_simp
  with assms show ?thesis by (simp add: list_all_iff)
qed

lemma text_of_plain: "b \<noteq> 27 \<Longrightarrow> text_of (b # bs) = of_nat (lookup_ascii7to8 ! b) # text_of bs"
  by (cases bs) (simp_all only: text_of.simps if_False)

lemma complete_plain: "b \<noteq> 27 \<Longrightarrow> complete (b # bs) = complete bs"
  by (cases bs) simp_all

lemma seven_loop_reads:
  assumes "complete (map (septet d) [i..<stop])" "7 * stop \<le> 8 * length d"
  shows "seven_loop (hex d @ r) i stop k = k (text_of (map (septet d) [i..<stop]))"
  using assms
proof (induction "stop - i" arbitrary: i k rule: less_induct)
  case less
  show ?case
  proof (cases "i < stop")
    case True
    then have l: "[i..<stop] = i # [Suc i..<stop]" by (rule upt_conv_Cons)
    have rd: "read7bits (hex d @ r) (i * 7) f = f (septet d i)" for f :: "nat \<Rightarrow> 'a outcome"
      using True less.prems(2) by (intro read7bits_septet) linarith
    show ?thesis
    proof (cases "septet d i = 27")
      case esc: True
      then have "Suc i < stop" using less.prems(1) True l by (cases "Suc i < stop") auto
      then have l2: "[Suc i..<stop] = Suc i # [Suc (Suc i)..<stop]" by (rule upt_conv_Cons)
      have rd2: "read7bits (hex d @ r) ((i + 1) * 7) f = f (septet d (i + 1))" for f :: "nat \<Rightarrow> 'a outcome"
        using \<open>Suc i < stop\<close> less.prems(2) by (intro read7bits_septet) simp
      have "lookup_ascii7to8 ! septet d i = 27" using esc lookup_escape [of "septet d i"] by simp
      moreover have "complete (map (septet d) [Suc (Suc i)..<stop])" using less.prems(1) esc by (simp add: l l2)
      ultimately show ?thesis
        using less.hyps [of "i + 2"] less.prems(2) True esc by (subst seven_loop.simps) (simp add: rd rd2 [simplified] l l2 del: upt_Suc)
    next
      case False
      then have "lookup_ascii7to8 ! septet d i \<noteq> 27" using lookup_escape [of "septet d i"] by simp
      moreover have "complete (map (septet d) [Suc i..<stop])"
        "text_of (map (septet d) [i..<stop]) = of_nat (lookup_ascii7to8 ! septet d i) # text_of (map (septet d) [Suc i..<stop])"
        using less.prems(1) False by (simp_all only: l list.map complete_plain [OF False] text_of_plain [OF False])
      ultimately show ?thesis
        using less.hyps [of "i + 1"] less.prems(2) True False by (subst seven_loop.simps) (simp add: rd)
    qed
  next
    case False
    then show ?thesis by (subst seven_loop.simps) simp
  qed
qed

section \<open>Round trip\<close>

text \<open>
  The characters of ISO 8859-1 that the default alphabet and its extension have, by their codes;
  the circumflex (94), the vertical bar (124) and the lower case o with diaeresis (246) are left out.
\<close>

definition gsm_alphabet :: "nat list" where
  "gsm_alphabet = [10, 12, 13] @ [32..<94] @ [95] @ [97..<124] @ [125, 126, 161, 163, 164, 165, 167, 191, 196, 197, 198, 199,
     201, 209, 214, 216, 220, 223, 224, 228, 229, 230, 232, 233, 236, 241, 242, 248, 249, 252]"

definition gsm_text :: "bytes \<Rightarrow> bool" where
  "gsm_text s \<longleftrightarrow> (\<forall>c \<in> set s. unat c \<in> set gsm_alphabet)"

definition same_char :: "nat \<Rightarrow> bool" where
  "same_char n =
     (let b = lookup_ascii8to7 ! n in
      if b < 128 then b \<noteq> 27 \<and> lookup_ascii7to8 ! b = n else unat (escaped (lookup_ascii7to8 ! (b - 128))) = n)"

lemma gsm_same_char: "n \<in> set gsm_alphabet \<Longrightarrow> same_char n"
proof -
  have "list_all same_char gsm_alphabet"
    unfolding gsm_alphabet_def
    by (simp add: same_char_def lookup_ascii8to7_def lookup_ascii7to8_def escaped_def NPC7_def NPC8_def upt_rec)
  then show "n \<in> set gsm_alphabet \<Longrightarrow> same_char n" by (simp add: list_all_iff)
qed

lemma char_septets_text:
  assumes "same_char (unat c)"
  shows "text_of (char_septets c @ bs) = c # text_of bs" "complete (char_septets c @ bs) = complete bs"
proof -
  let ?b = "lookup_ascii8to7 ! unat c"
  have "text_of (char_septets c @ bs) = c # text_of bs \<and> complete (char_septets c @ bs) = complete bs"
  proof (cases "?b < 128")
    case True
    then have "char_septets c = [?b]" by (simp only: char_septets_def Let_def if_True)
    moreover have b: "?b \<noteq> 27 \<and> lookup_ascii7to8 ! ?b = unat c"
      using assms True unfolding same_char_def Let_def by (simp only: if_True simp_thms)
    moreover have "of_nat (unat c) = c" by simp
    ultimately show ?thesis
      by (simp only: append.simps text_of_plain [OF conjunct1 [OF b]] complete_plain [OF conjunct1 [OF b]] simp_thms)
  next
    case False
    then have "char_septets c = [27, ?b - 128]" by (simp only: char_septets_def Let_def if_False)
    moreover have "escaped (lookup_ascii7to8 ! (?b - 128)) = c"
      using assms False by (simp only: same_char_def Let_def if_False word_unat_eq_iff)
    ultimately show ?thesis by (simp only: append.simps text_of.simps complete.simps if_True simp_thms)
  qed
  then show "text_of (char_septets c @ bs) = c # text_of bs" "complete (char_septets c @ bs) = complete bs" by simp_all
qed

lemma text_septets_text:
  assumes "gsm_text s"
  shows "text_of (text_septets s) = s" "complete (text_septets s)"
proof -
  have "text_of (text_septets s) = s \<and> complete (text_septets s)"
    using assms
  proof (induction s)
    case (Cons c s)
    then have "same_char (unat c)" "gsm_text s" by (simp_all add: gsm_text_def gsm_same_char)
    with Cons.IH show ?case by (simp add: char_septets_text)
  qed simp
  then show "text_of (text_septets s) = s" "complete (text_septets s)" by simp_all
qed

lemma text_septets_ok: "septets_ok (text_septets s)"
  using char_septets_ok by auto

lemma map_septet_pack: "septets_ok ss \<Longrightarrow> map (septet (pack ss)) [0..<length ss] = ss"
  by (rule nth_equalityI) (simp_all add: septet_pack)

lemma convert_packs:
  assumes "2 * length (pack (text_septets s)) \<le> length buf"
  shows "convert_ascii_to_7bit s 0 (length s) (Some buf) k =
     k (length (text_septets s), Some (hex (pack (text_septets s)) @ drop (2 * length (pack (text_septets s))) buf))"
proof -
  have "holding [] buf = buf" by (simp add: holding_def pack_def le_bytes_def)
  with ascii_loop_packs [of "[]" s buf k] assms show ?thesis
    by (simp add: convert_ascii_to_7bit_def load_n_def holding_def del: length_pack)
qed

lemma convert_unpacks:
  assumes "septets_ok ss" "complete ss"
  shows "convert_7bit_to_ascii (hex (pack ss) @ r) 0 (length ss) k = k (text_of ss)"
proof -
  have "7 * length ss \<le> 8 * length (pack ss)" by simp
  with seven_loop_reads [of "pack ss" 0 "length ss" r k] assms show ?thesis
    by (simp add: convert_7bit_to_ascii_def map_septet_pack del: length_pack)
qed

text \<open>
  C25: converting a text to 7-bit characters writes, in hexadecimal, exactly the packing of the
  GSM standard of its septets (an escape and its extension for the characters that need one) and
  returns their number; nothing behind them in the buffer changes.
\<close>

theorem convert_ascii_to_7bit_packs:
  assumes "2 * length (pack (text_septets s)) \<le> length buf"
  shows "convert_ascii_to_7bit s 0 (length s) (Some buf) Returned =
     Returned (length (text_septets s), Some (hex (pack (text_septets s)) @ drop (2 * length (pack (text_septets s))) buf))"
  using assms by (rule convert_packs)

theorem convert_ascii_to_7bit_packs_witness:
  "convert_ascii_to_7bit [0x68, 0x69, 0x7b] 0 3 (Some (replicate 10 0)) Returned =
     Returned (4, Some ([0x45, 0x38, 0x46, 0x34, 0x30, 0x36, 0x30, 0x35, 0, 0]))"
proof -
  have l: "text_septets [0x68, 0x69, 0x7b] = [104, 105, 27, 40]"
    by (simp add: char_septets_def lookup_ascii8to7_def NPC7_def)
  have "pack [104, 105, 27, 40] = [0xe8, 0xf4, 0x06, 0x05]" by (rule pack_eqI) simp_all
  moreover have "hex [0xe8, 0xf4, 0x06, 0x05] = [0x45, 0x38, 0x46, 0x34, 0x30, 0x36, 0x30, 0x35]"
    by (simp add: hex2_def hex_digit_def)
  moreover have "drop (2 * length [0xe8, 0xf4, 0x06, 0x05 :: byte]) (replicate 10 0) = [0, 0 :: byte]"
    by (simp add: numeral_2_eq_2)
  ultimately have p: "hex (pack [104, 105, 27, 40]) @ drop (2 * length (pack [104, 105, 27, 40])) (replicate 10 0) =
      [0x45, 0x38, 0x46, 0x34, 0x30, 0x36, 0x30, 0x35, 0, 0]"
    by (simp only: append.simps)
  have "2 * length (pack (text_septets [0x68, 0x69, 0x7b])) \<le> length (replicate 10 (0 :: byte))" unfolding l by simp
  from convert_ascii_to_7bit_packs [OF this] show ?thesis unfolding l p by (simp add: eval_nat_numeral)
qed



text \<open>
  The circumflex, the vertical bar, the back apostrophe and the lower case o with diaeresis do
  not survive. The first two are encoded correctly, but the decoder translates the character after
  the escape through the table before it looks for it. The entry of the back apostrophe is
  negative, so that it becomes an escape sequence that does not exist, and the entry of the o with
  diaeresis is 24 where the alphabet has it at 124. All four come back as question marks.
\<close>

theorem septet_characters_lost:
  assumes "c \<in> {0x5e, 0x7c, 0x60, 0xf6}" "4 \<le> length buf"
  shows "convert_ascii_to_7bit [c] 0 1 (Some buf) (\<lambda>(w, a7bit). convert_7bit_to_ascii (the a7bit) 0 w Returned) = Returned [0x3f]"
proof -
  have "list_all (\<lambda>c. length (text_septets [c]) \<le> 2 \<and> text_of (text_septets [c]) = [0x3f] \<and> complete (text_septets [c]))
      [0x5e, 0x7c, 0x60, 0xf6]" by code_simp
  with assms(1) have s: "length (text_septets [c]) \<le> 2" "text_of (text_septets [c]) = [0x3f]" "complete (text_septets [c])"
    by (auto simp only: list_all_iff list.set insert_iff)
  have "length (pack (text_septets [c])) \<le> length (pack [0, 0])" using s(1) by (intro pack_mono) simp
  then have "2 * length (pack (text_septets [c])) \<le> length buf" using assms(2) by simp
  note e = convert_packs [OF this, of "\<lambda>(w, a7bit). convert_7bit_to_ascii (the a7bit) 0 w Returned"]
  show ?thesis
    using e convert_unpacks [OF text_septets_ok s(3), of _ Returned] unfolding s(2) by (simp del: length_pack)
qed

theorem septet_characters_lost_witness:
  "convert_ascii_to_7bit [0x7c] 0 1 (Some (replicate 4 0)) (\<lambda>(w, a7bit). convert_7bit_to_ascii (the a7bit) 0 w Returned) =
     Returned [0x3f]"
  by (rule septet_characters_lost) simp_all

end
