(* ===== verification/Sms_Deliver.thy ===== *)
theory Sms_Deliver
  imports Sms_Septets
begin

text \<open>
  Received messages: the layout of an SMS-DELIVER of GSM 03.40 (service centre, address in swapped
  semi-octets, time stamp, user data header, 8-bit or packed 7-bit text), and the theorems that
  \<open>decode_smspdu\<close> returns the parts of every such message. The end of the theory has the inputs
  it does not decode: an absent service centre and a header longer than the user data.
\<close>

section \<open>The layout of a received message\<close>

text \<open>Digits in swapped semi-octets, with a filler behind an odd number of them.\<close>

fun semi_octets :: "nat list \<Rightarrow> bytes" where
  "semi_octets (a # b # ds) = of_nat (a + 16 * b) # semi_octets ds"
| "semi_octets [a] = [of_nat (a + 0xf0)]"
| "semi_octets [] = []"

text \<open>Information elements of a user data header: identifier, length, data.\<close>

type_synonym element = "nat \<times> bytes"

definition element_octets :: "element \<Rightarrow> bytes" where
  "element_octets e = of_nat (fst e) # of_nat (length (snd e)) # snd e"

definition udh_octets :: "element list \<Rightarrow> bytes" where
  "udh_octets es =
     (if es = [] then [] else let h = concat (map element_octets es) in of_nat (length h) # h)"

definition element_ok :: "element \<Rightarrow> bool" where
  "element_ok e \<longleftrightarrow> fst e < 256 \<and> length (snd e) < 256 \<and> (fst e = 0 \<longrightarrow> length (snd e) = 3) \<and>
     (fst e = 8 \<longrightarrow> length (snd e) = 4) \<and> (fst e = 4 \<longrightarrow> length (snd e) = 2) \<and> (fst e = 5 \<longrightarrow> length (snd e) = 4)"

definition be16 :: "byte \<Rightarrow> byte \<Rightarrow> nat" where
  "be16 a b = 256 * unat a + unat b"

definition apply_element :: "element \<Rightarrow> udh \<Rightarrow> udh" where
  "apply_element e h =
     (let d = snd e in
      if fst e = 0 then h\<lparr>h_ref := unat (d ! 0), h_maxnb := unat (d ! 1), h_seqnb := unat (d ! 2)\<rparr>
      else if fst e = 8 then h\<lparr>h_ref := be16 (d ! 0) (d ! 1), h_maxnb := unat (d ! 2), h_seqnb := unat (d ! 3)\<rparr>
      else if fst e = 4 then h\<lparr>h_bits := 8, h_dst := unat (d ! 0), h_src := unat (d ! 1)\<rparr>
      else if fst e = 5 then h\<lparr>h_bits := 16, h_dst := be16 (d ! 0) (d ! 1), h_src := be16 (d ! 2) (d ! 3)\<rparr>
      else h)"

record deliver =
  dl_smsc :: bytes
  dl_digits :: "nat list"
  dl_toa :: byte
  dl_pid :: byte
  dl_dcs :: byte
  dl_stamp :: bytes
  dl_elements :: "element list"

definition first_octet :: "deliver \<Rightarrow> byte" where
  "first_octet m = (if dl_elements m = [] then 0x04 else 0x44)"

definition deliver_octets :: "deliver \<Rightarrow> nat \<Rightarrow> bytes \<Rightarrow> bytes" where
  "deliver_octets m udl ud =
     [of_nat (length (dl_smsc m))] @ dl_smsc m @ [first_octet m, of_nat (length (dl_digits m)), dl_toa m] @
     semi_octets (dl_digits m) @ [dl_pid m, dl_dcs m] @ dl_stamp m @ [of_nat udl] @ ud"

definition deliver_ok :: "deliver \<Rightarrow> bool" where
  "deliver_ok m \<longleftrightarrow> 0 < length (dl_smsc m) \<and> length (dl_smsc m) < 256 \<and> length (dl_digits m) < 256 \<and>
     (\<forall>d \<in> set (dl_digits m). d < 16) \<and> drop_bit 4 (unat (dl_toa m)) AND 7 \<noteq> 5 \<and> length (dl_stamp m) = 7 \<and>
     (\<forall>e \<in> set (dl_elements m). element_ok e) \<and> length (udh_octets (dl_elements m)) \<le> 256"

section \<open>Addresses\<close>

lemma length_semi_octets: "length (semi_octets ds) = (length ds + 1) div 2"
  by (induction ds rule: semi_octets.induct) simp_all

lemma nth_semi_octets:
  assumes "2 * j < length ds"
  shows "semi_octets ds ! j = of_nat (ds ! (2 * j) + 16 * (if 2 * j + 1 < length ds then ds ! (2 * j + 1) else 15))"
  using assms
proof (induction ds arbitrary: j rule: semi_octets.induct)
  case (1 a b ds)
  then show ?case by (cases j) simp_all
next
  case (2 a)
  then show ?case by simp
qed simp

lemma swap_semi_octets:
  assumes "\<forall>d \<in> set ds. d < 16" "i < length ds"
  shows "swap_index i < 2 * length (semi_octets ds)" "(hex (semi_octets ds @ xs) @ r) ! swap_index i = hex_digit (ds ! i)"
proof -
  let ?j = "i div 2" and ?hi = "if 2 * (i div 2) + 1 < length ds then ds ! (2 * (i div 2) + 1) else 15"
  have j: "?j < length (semi_octets ds)" "2 * ?j < length ds" using assms(2) by (auto simp: length_semi_octets)
  have lo: "ds ! (2 * ?j) < 16" and hi: "?hi < 16" using assms j(2) by (auto simp: all_set_conv_all_nth)
  have o: "unat (semi_octets ds ! ?j) = ds ! (2 * ?j) + 16 * ?hi"
    unfolding nth_semi_octets [OF j(2)] unat_of_nat_byte using lo hi by (intro mod_less) linarith
  have s: "swap_index i = (if even i then Suc (2 * ?j) else 2 * ?j)"
    unfolding swap_index_def by (auto elim: evenE oddE)
  have "swap_index i \<le> Suc (2 * ?j)" unfolding s by (cases "even i") (simp_all only: if_True if_False le_refl le_SucI)
  with j(1) show "swap_index i < 2 * length (semi_octets ds)" by linarith
  have n: "(semi_octets ds @ xs) ! ?j = semi_octets ds ! ?j" "?j < length (semi_octets ds @ xs)" using j(1) by (auto simp: nth_append)
  show "(hex (semi_octets ds @ xs) @ r) ! swap_index i = hex_digit (ds ! i)"
  proof (cases "even i")
    case True
    with nth_hex(2) [OF n(2), of r] lo show ?thesis by (simp add: s n(1) o del: map_append concat_append)
  next
    case False
    then have "?hi = ds ! i" "2 * ?j + 1 = i" using assms(2) by (auto elim!: oddE)
    with False nth_hex(1) [OF n(2), of r] lo show ?thesis by (simp add: s n(1) o del: map_append concat_append)
  qed
qed

lemma loads_ok: "\<forall>i \<in> set is. i < length buf \<Longrightarrow> loads buf is k = k (map ((!) buf) is)"
  by (induction "is" arbitrary: k) simp_all

lemma loads_semi_octets:
  assumes "\<forall>d \<in> set ds. d < 16"
  shows "loads (hex (semi_octets ds @ xs) @ r) (map swap_index [0..<length ds]) k = k (map hex_digit ds)"
proof -
  have "map ((!) (hex (semi_octets ds @ xs) @ r)) (map swap_index [0..<length ds]) = map hex_digit ds"
    using swap_semi_octets(2) [OF assms, of _ xs r] by (intro nth_equalityI) simp_all
  moreover have "\<forall>i \<in> set (map swap_index [0..<length ds]). i < length (hex (semi_octets ds @ xs) @ r)"
    using swap_semi_octets(1) [OF assms] by fastforce
  ultimately show ?thesis by (simp only: loads_ok)
qed

section \<open>User data headers\<close>

lemma readbyte_at: "d = xs @ b # ys \<Longrightarrow> n = length xs \<Longrightarrow> readbyte (hex d @ r) n k = k (unat b)"
  by (subst readbyte_hex) simp_all

lemma readbyte_in:
  assumes "d = xs @ zs @ ys" "i < length zs"
  shows "readbyte (hex d @ r) (length xs + i) k = k (unat (zs ! i))"
  using assms by (subst readbyte_hex) (simp_all add: nth_append)

lemma read_element_ok:
  assumes e: "element_ok e" and d: "d = xs @ snd e @ ys"
  shows "read_element (hex d @ r) (fst e) (length xs) h k = k (apply_element e h)"
proof -
  have rd: "readbyte (hex d @ r) (length xs + i) f = f (unat (snd e ! i))" if "i < length (snd e)" for i and f :: "nat \<Rightarrow> 'a outcome"
    using readbyte_in [OF d that] .
  have rd0: "readbyte (hex d @ r) (length xs) f = f (unat (snd e ! 0))" if "0 < length (snd e)" for f :: "nat \<Rightarrow> 'a outcome"
    using rd [OF that] by simp
  consider "fst e = 0" "length (snd e) = 3" | "fst e = 8" "length (snd e) = 4" | "fst e = 4" "length (snd e) = 2"
    | "fst e = 5" "length (snd e) = 4" | "fst e \<notin> {0, 4, 5, 8}"
    using e by (auto simp: element_ok_def)
  then show ?thesis
    by cases (simp_all add: read_element_def apply_element_def Let_def rd rd0 be16_def push_bit_eq_mult mult.commute
        del: One_nat_def add_2_eq_Suc add_2_eq_Suc')
qed

lemma udh_loop_elements:
  assumes "\<forall>e \<in> set es. element_ok e" "d = xs @ concat (map element_octets es) @ ys"
  shows "udh_loop (hex d @ r) (length (concat (map element_octets es))) (length xs) h k =
     k (length xs + length (concat (map element_octets es))) (fold apply_element es h)"
  using assms
proof (induction es arbitrary: xs h)
  case Nil
  then show ?case by (subst udh_loop.simps) simp
next
  case (Cons e es)
  let ?rest = "concat (map element_octets es)"
  from Cons.prems(1) have e: "element_ok e" by simp
  then have u: "unat (of_nat (fst e) :: byte) = fst e" "unat (of_nat (length (snd e)) :: byte) = length (snd e)"
    by (simp_all add: element_ok_def unat_of_nat)
  have d: "d = xs @ of_nat (fst e) # of_nat (length (snd e)) # snd e @ ?rest @ ys"
    using Cons.prems(2) by (simp add: element_octets_def [of e])
  have 1: "readbyte (hex d @ r) (length xs) f = f (fst e)" for f :: "nat \<Rightarrow> 'a outcome"
    using readbyte_at [OF d refl, of r f] u(1) by simp
  have 2: "readbyte (hex d @ r) (length xs + 1) f = f (length (snd e))" for f :: "nat \<Rightarrow> 'a outcome"
    using readbyte_at [of d "xs @ [of_nat (fst e)]" "of_nat (length (snd e))" "snd e @ ?rest @ ys" "length xs + 1" r f] d u(2) by simp
  have 3: "read_element (hex d @ r) (fst e) (length xs + 2) h f = f (apply_element e h)" for f :: "udh \<Rightarrow> 'a outcome"
    using read_element_ok [OF e, of d "xs @ [of_nat (fst e), of_nat (length (snd e))]" "?rest @ ys" r h f] d by simp
  have n: "length (element_octets e) = 2 + length (snd e)" by (simp add: element_octets_def)
  have "udh_loop (hex d @ r) (length ?rest) (length (xs @ element_octets e)) (apply_element e h) k =
      k (length (xs @ element_octets e) + length ?rest) (fold apply_element es (apply_element e h))"
    using Cons.prems by (intro Cons.IH) simp_all
  with n show ?case
    by (subst udh_loop.simps) (simp add: 1 2 3 [simplified] add.assoc del: One_nat_def)
qed

lemma read_udh_ok:
  assumes es: "\<forall>e \<in> set es. element_ok e" "length (udh_octets es) \<le> 256" and d: "d = udh_octets es @ ys"
    and f: "bit first 6 = (es \<noteq> [])"
  shows "read_udh (hex d @ r) first k = k (length (udh_octets es)) (length (udh_octets es)) (fold apply_element es no_udh)"
proof (cases "es = []")
  case True
  with f show ?thesis by (simp add: read_udh_def udh_octets_def)
next
  case False
  let ?h = "concat (map element_octets es)"
  have h: "udh_octets es = of_nat (length ?h) # ?h" "?h \<noteq> []"
    using False by (simp_all add: udh_octets_def Let_def) (metis element_octets_def list.distinct(1) list.set_intros(1) neq_Nil_conv)
  with es(2) have n: "unat (of_nat (length ?h) :: byte) = length ?h" "0 < length ?h"
    by (simp_all add: unat_of_nat)
  have "readbyte (hex d @ r) 0 g = g (length ?h)" for g :: "nat \<Rightarrow> 'a outcome"
    using readbyte_at [of d "[]" "of_nat (length ?h)" "?h @ ys" 0 r g] d h(1) n(1) by simp
  moreover have "udh_loop (hex d @ r) (length ?h) 1 no_udh g = g (1 + length ?h) (fold apply_element es no_udh)"
    for g :: "nat \<Rightarrow> udh \<Rightarrow> 'a outcome"
    using udh_loop_elements [OF es(1), of d "[of_nat (length ?h)]" ys r no_udh g] d h(1) by simp
  ultimately show ?thesis using False f n(2) h(1) by (simp add: read_udh_def)
qed

section \<open>The parts of a message\<close>

lemma hextobin_hex: "d = xs @ zs @ ys \<Longrightarrow> hextobin (hex d @ r) (length xs) (length zs) k = k zs"
proof (induction zs arbitrary: xs k)
  case (Cons z zs)
  then have "hextobin (hex d @ r) (length (xs @ [z])) (length zs) (\<lambda>bin. k (z # bin)) = k (z # zs)"
    by (intro Cons.IH) simp
  with readbyte_at [of d xs z "zs @ ys" "length xs" r "\<lambda>v. hextobin (hex d @ r) (length xs + 1) (length zs) (\<lambda>bin. k (of_nat v # bin))"]
    Cons.prems show ?case by simp
qed simp

definition number_string :: "byte \<Rightarrow> nat list \<Rightarrow> bytes" where
  "number_string toa ds = (if drop_bit 4 (unat toa) AND 7 = 1 then [0x2b] else []) @ map hex_digit ds @ [0]"

lemma decode_address_ok:
  assumes "\<forall>d \<in> set ds. d < 16" "drop_bit 4 (unat toa) AND 7 \<noteq> 5" "length mem = length ds + 2"
  shows "decode_address (hex (semi_octets ds @ xs) @ r) (length ds) (unat toa) mem k =
     k (number_string toa ds @ drop (length (number_string toa ds)) mem)"
proof -
  have l: "loads (hex (semi_octets ds @ xs) @ r) (map swap_index [0..<length ds]) f = f (map hex_digit ds)"
    for f :: "bytes \<Rightarrow> 'a outcome"
    by (rule loads_semi_octets [OF assms(1)])
  show ?thesis
  proof (cases "drop_bit 4 (unat toa) AND 7 = 1")
    case True
    with assms(2,3) show ?thesis
      unfolding decode_address_def Let_def l number_string_def
      by (cases mem) (simp_all add: store_at_def overwrite_def)
  next
    case False
    with assms(2,3) show ?thesis
      unfolding decode_address_def Let_def l number_string_def
      by (simp add: store_at_def overwrite_def)
  qed
qed

lemma first_octet_bit: "bit (unat (first_octet m)) 6 = (dl_elements m \<noteq> [])"
  by (simp add: first_octet_def bit_iff_odd)

definition after_digits :: "deliver \<Rightarrow> nat \<Rightarrow> bytes \<Rightarrow> bytes" where
  "after_digits m udl ud = [dl_pid m, dl_dcs m] @ dl_stamp m @ [of_nat udl] @ ud"

lemma decode_prefix:
  assumes m: "deliver_ok m" and udl: "udl < 256" and enc: "encoding_of (unat (dl_dcs m)) = Inr encoding"
  shows "decode_smspdu mal (hex (deliver_octets m udl ud) @ [0]) =
     decode_user_data mal (hex ud @ [0]) (unat (first_octet m)) encoding udl
       (hex (semi_octets (dl_digits m) @ after_digits m udl ud) @ [0]) (length (dl_digits m)) (unat (dl_toa m))
       (hex (dl_stamp m @ of_nat udl # ud) @ [0])"
proof -
  let ?d = "deliver_octets m udl ud" and ?l = "length (dl_smsc m)" and ?s = "semi_octets (dl_digits m)"
  have d: "?d = (of_nat ?l # dl_smsc m) @ first_octet m # of_nat (length (dl_digits m)) # dl_toa m # ?s @ after_digits m udl ud"
    by (simp add: deliver_octets_def after_digits_def)
  have l: "0 < ?l" "unat (of_nat ?l :: byte) = ?l" "unat (of_nat (length (dl_digits m)) :: byte) = length (dl_digits m)"
    "unat (of_nat udl :: byte) = udl" "length (dl_stamp m) = 7"
    using m udl by (auto simp: deliver_ok_def unat_of_nat)
  let ?rest = "dl_stamp m @ of_nat udl # ud" and ?hd = "of_nat ?l # dl_smsc m"
  let ?fs = "[first_octet m, of_nat (length (dl_digits m)), dl_toa m]" and ?pd = "[dl_pid m, dl_dcs m]"
  have len: "drop_bit (Suc 0) (Suc (length (dl_digits m))) = length ?s" by (simp add: length_semi_octets drop_bit_Suc)
  have at: "readbyte (hex ?d @ [0]) n f = f (unat b)" if "?d = xs @ b # ys" "n = length xs" for xs b ys n and f :: "nat \<Rightarrow> (int + SMS) outcome"
    using that by (rule readbyte_at)
  note dd = d after_digits_def
  define P where "P = hex ?d @ [0]"
  have rd: "readbyte P 0 f = f (unat (of_nat ?l :: byte))"
    "readbyte P (Suc ?l) f = f (unat (first_octet m))"
    "readbyte P (Suc (Suc ?l)) f = f (unat (of_nat (length (dl_digits m)) :: byte))"
    "readbyte P (Suc (Suc (Suc ?l))) f = f (unat (dl_toa m))"
    "readbyte P (4 + (?l + length ?s)) f = f (unat (dl_pid m))"
    "readbyte P (5 + (?l + length ?s)) f = f (unat (dl_dcs m))"
    "readbyte P (13 + (?l + length ?s)) f = f (unat (of_nat udl :: byte))" for f :: "nat \<Rightarrow> (int + SMS) outcome"
    unfolding P_def
    by (rule at [of "[]"] at [of ?hd] at [of "?hd @ take 1 ?fs"] at [of "?hd @ take 2 ?fs"] at [of "?hd @ ?fs @ ?s"]
        at [of "?hd @ ?fs @ ?s @ take 1 ?pd"] at [of "?hd @ ?fs @ ?s @ ?pd @ dl_stamp m"]; simp add: dd l(5))+
  have rs: "readbyte P (Suc 0) (\<lambda>_. q) = q" for q :: "(int + SMS) outcome"
    unfolding P_def dd using l(1) by (subst readbyte_hex; simp)+
  have dr: "drop (2 * n) (hex ?d @ [0]) = hex ys @ [0]" if "?d = xs @ ys" "length xs = n" for xs ys n
    using that by (subst drop_hex) simp_all
  have a: "2 + ?l - 1 = ?l + 1" by simp
  have "decode_smspdu mal P = decode_user_data mal (drop (2 * (?l + length ?s + 14)) P) (unat (first_octet m)) encoding udl
       (drop (2 * (?l + 4)) P) (length (dl_digits m)) (unat (dl_toa m)) (drop (2 * (?l + length ?s + 6)) P)"
    unfolding decode_smspdu_def Let_def using l(1) enc
    by (simp add: rd [unfolded l(2-4)] rs len add.assoc) (simp add: ac_simps)
  moreover have "drop (2 * (?l + length ?s + 14)) (hex ?d @ [0]) = hex ud @ [0]"
    by (rule dr [of "?hd @ ?fs @ ?s @ ?pd @ dl_stamp m @ [of_nat udl]"]) (simp_all add: d after_digits_def l(5))
  moreover have "drop (2 * (?l + 4)) (hex ?d @ [0]) = hex (?s @ after_digits m udl ud) @ [0]"
    by (rule dr [of "?hd @ ?fs"]) (simp_all add: d)
  moreover have "drop (2 * (?l + length ?s + 6)) (hex ?d @ [0]) = hex ?rest @ [0]"
    by (rule dr [of "?hd @ ?fs @ ?s @ ?pd"]) (simp_all add: d after_digits_def)
  ultimately show ?thesis by (simp only: P_def)
qed

section \<open>Messages of 8-bit characters\<close>

definition malloc_block :: "(int \<Rightarrow> bytes option) \<Rightarrow> bool" where
  "malloc_block mal \<longleftrightarrow> (\<forall>n \<ge> 0. \<exists>b. mal n = Some b \<and> length b = nat n)"

text \<open>What a decoded message shares with the received one besides its text.\<close>

definition sms_of :: "deliver \<Rightarrow> SMS \<Rightarrow> bool" where
  "sms_of m sms \<longleftrightarrow>
     (let h = fold apply_element (dl_elements m) no_udh; a = number_string (dl_toa m) (dl_digits m) in
      take (length a) (sms_address sms) = a \<and> sms_timestamp sms = hex (dl_stamp m) \<and>
      portbits sms = h_bits h \<and> dstport sms = h_dst h \<and> srcport sms = h_src h \<and>
      concat_ref sms = h_ref h \<and> concat_maxnb sms = h_maxnb h \<and> concat_seqnb sms = h_seqnb h)"

lemma length_number_string: "length (number_string toa ds) \<le> length ds + 2"
  by (simp add: number_string_def)

lemma decode_user_data_ok:
  assumes m: "deliver_ok m" and mal: "malloc_block mal" and ud: "ud = udh_octets (dl_elements m) @ ys"
    and n: "int n = (if encoding = 1 then int udl - int (length (udh_octets (dl_elements m)))
        else (int udl * 7 - int (length (udh_octets (dl_elements m))) * 8) div 7)" "encoding \<noteq> 1 \<longrightarrow> 0 < n"
    and p: "p = (if encoding = 1 then length (udh_octets (dl_elements m)) else (length (udh_octets (dl_elements m)) * 8 + 6) div 7)"
    and chars: "\<And>mem (k :: bytes \<Rightarrow> nat \<Rightarrow> (int + SMS) outcome). length mem = n + 1 \<Longrightarrow>
        decode_text encoding (hex ud @ [0]) p n mem k = k (cs @ drop (length cs) mem) (length cs)" "length cs \<le> n"
  shows "\<exists>sms. decode_user_data mal (hex ud @ [0]) (unat (first_octet m)) encoding udl
       (hex (semi_octets (dl_digits m) @ xs) @ [0]) (length (dl_digits m)) (unat (dl_toa m)) (hex (dl_stamp m @ zs) @ [0]) =
       Returned (Inr sms) \<and> sms_of m sms \<and> message_length sms = length cs \<and> take (length cs) (sms_message sms) = cs"
proof -
  let ?es = "dl_elements m" and ?ds = "dl_digits m"
  from m have es: "\<forall>e \<in> set ?es. element_ok e" "length (udh_octets ?es) \<le> 256"
    and ds: "\<forall>d \<in> set ?ds. d < 16" "drop_bit 4 (unat (dl_toa m)) AND 7 \<noteq> 5" and st: "length (dl_stamp m) = 7"
    by (auto simp: deliver_ok_def)
  note udh = read_udh_ok [OF es ud first_octet_bit]
  obtain b where b: "mal (int n + 1 + int (length ?ds) + 2) = Some b" "length b = n + 1 + length ?ds + 2"
    using mal unfolding malloc_block_def by (metis (no_types, opaque_lifting) add_nonneg_nonneg nat_int of_nat_0_le_iff of_nat_1 of_nat_add of_nat_numeral)
  have stamp: "load_n (hex (dl_stamp m @ zs) @ [0]) 0 14 f = f (hex (dl_stamp m))" for f :: "bytes \<Rightarrow> (int + SMS) outcome"
    using st by (simp add: load_n_def)
  have msg: "store_at (cs @ drop (length cs) (take (n + 1) b)) n [0] f = f (overwrite (cs @ drop (length cs) (take (n + 1) b)) n [0])"
    for f :: "bytes \<Rightarrow> (int + SMS) outcome"
    using chars(2) b(2) by (intro store_at_in) simp
  have addr: "decode_address (hex (semi_octets ?ds @ xs) @ [0]) (length ?ds) (unat (dl_toa m)) (drop (n + 1) b) f =
      f (number_string (dl_toa m) ?ds @ drop (length (number_string (dl_toa m) ?ds)) (drop (n + 1) b))" for f :: "bytes \<Rightarrow> (int + SMS) outcome"
    using b(2) by (intro decode_address_ok [OF ds]) simp
  let ?h = "fold apply_element ?es no_udh" and ?a = "number_string (dl_toa m) ?ds"
  let ?msg = "overwrite (cs @ drop (length cs) (take (n + 1) b)) n [0]"
  let ?sms = "\<lparr>sms_address = ?a @ drop (length ?a) (drop (n + 1) b), sms_timestamp = hex (dl_stamp m), sms_message = ?msg,
      message_length = length cs, portbits = h_bits ?h, dstport = h_dst ?h, srcport = h_src ?h, concat_ref = h_ref ?h,
      concat_maxnb = h_maxnb ?h, concat_seqnb = h_seqnb ?h\<rparr>"
  have "length (take (n + 1) b) = n + 1" using b(2) by simp
  note tx = chars(1) [OF this]
  have g: "(encoding \<noteq> 1 \<and> int n \<le> 0) = False" "(int n < 0) = False" using n(2) by auto
  have "decode_user_data mal (hex ud @ [0]) (unat (first_octet m)) encoding udl
       (hex (semi_octets ?ds @ xs) @ [0]) (length ?ds) (unat (dl_toa m)) (hex (dl_stamp m @ zs) @ [0]) = Returned (Inr ?sms)"
    unfolding decode_user_data_def udh Let_def n(1) [symmetric] p [symmetric]
    by (simp only: b(1) g if_False option.case stamp nat_int tx msg addr)
  moreover have "take (length cs) ?msg = cs" using chars(2) b(2) by (simp add: overwrite_def)
  ultimately show ?thesis by (simp add: sms_of_def Let_def)
qed


definition sample_deliver :: deliver where
  "sample_deliver = \<lparr>dl_smsc = [0x91, 0x33, 0x06], dl_digits = [3, 3, 6, 1, 2], dl_toa = 0x91, dl_pid = 0, dl_dcs = 4,
     dl_stamp = [1, 2, 3, 4, 5, 6, 7], dl_elements = [(5, [0x0b, 0x84, 0x00, 0x01]), (0, [7, 2, 1])]\<rparr>"

lemma sample_deliver_ok: "deliver_ok sample_deliver"
  by (simp add: deliver_ok_def sample_deliver_def element_ok_def udh_octets_def element_octets_def Let_def c_arith)

lemma sample_malloc: "malloc_block (\<lambda>n. Some (replicate (nat n) 0))"
  by (simp add: malloc_block_def)


section \<open>Messages of 7-bit characters\<close>

text \<open>
  Packed septets behind a header: the text starts at the first septet that begins behind the octets
  of the header, and the length of the user data counts septets from its beginning.
\<close>

definition fill_septets :: "bytes \<Rightarrow> nat" where
  "fill_septets hdr = (length hdr * 8 + 6) div 7"

definition septet_data :: "bytes \<Rightarrow> nat list \<Rightarrow> bytes" where
  "septet_data hdr ss =
     le_bytes ((7 * (fill_septets hdr + length ss) + 7) div 8) (le_nat hdr + 2 ^ (7 * fill_septets hdr) * septets_nat ss)"

lemma fill_septets_bound: "8 * length hdr \<le> 7 * fill_septets hdr"
  unfolding fill_septets_def by linarith

lemma le_nat_septet_data:
  assumes "septets_ok ss"
  shows "le_nat (septet_data hdr ss) = le_nat hdr + 2 ^ (7 * fill_septets hdr) * septets_nat ss"
    and "le_nat hdr < 2 ^ (7 * fill_septets hdr)"
proof -
  let ?p = "fill_septets hdr"
  have "le_nat hdr < 2 ^ (8 * length hdr)" using le_nat_bound [of hdr] by (simp add: power_mult)
  also have "\<dots> \<le> 2 ^ (7 * ?p)" using fill_septets_bound by (intro power_increasing) simp_all
  finally show h: "le_nat hdr < 2 ^ (7 * ?p)" .
  have "septets_nat ss < 2 ^ (7 * length ss)" using septets_nat_bound [OF assms] by (simp add: power_mult)
  then have "Suc (septets_nat ss) \<le> 2 ^ (7 * length ss)" by simp
  then have "2 ^ (7 * ?p) * Suc (septets_nat ss) \<le> 2 ^ (7 * ?p) * 2 ^ (7 * length ss)" by (rule mult_le_mono2)
  then have "le_nat hdr + 2 ^ (7 * ?p) * septets_nat ss < 2 ^ (7 * (?p + length ss))"
    using h by (simp add: power_add distrib_left)
  also have "\<dots> \<le> 2 ^ (8 * ((7 * (?p + length ss) + 7) div 8))" by (rule power_increasing) (linarith, simp)
  finally show "le_nat (septet_data hdr ss) = le_nat hdr + 2 ^ (7 * ?p) * septets_nat ss"
    by (simp add: septet_data_def le_nat_le_bytes power_mult)
qed

lemma septet_data_header:
  assumes "septets_ok ss"
  shows "\<exists>ys. septet_data hdr ss = hdr @ ys"
proof -
  let ?d = "septet_data hdr ss" and ?h = "length hdr" and ?p = "fill_septets hdr"
  have l: "?h \<le> length ?d" unfolding septet_data_def le_bytes_def using fill_septets_bound [of hdr] by simp
  have d: "le_nat ?d = le_nat (take ?h ?d) + 256 ^ ?h * le_nat (drop ?h ?d)"
    using le_nat_append [of "take ?h ?d" "drop ?h ?d"] l by simp
  have p: "(2::nat) ^ (7 * ?p) = 256 ^ ?h * 2 ^ (7 * ?p - 8 * ?h)"
  proof -
    have "7 * ?p = 8 * ?h + (7 * ?p - 8 * ?h)" using fill_septets_bound [of hdr] by simp
    then have "(2::nat) ^ (7 * ?p) = 2 ^ (8 * ?h) * 2 ^ (7 * ?p - 8 * ?h)" by (metis power_add)
    then show ?thesis using power_mult [of "2::nat" 8 ?h] by simp
  qed
  have b: "le_nat (take ?h ?d) < 256 ^ ?h" "le_nat hdr < 256 ^ ?h"
    using le_nat_bound [of "take ?h ?d"] le_nat_bound [of hdr] l by simp_all
  have "le_nat (take ?h ?d) = le_nat ?d mod 256 ^ ?h" using b(1) unfolding d by simp
  also have "\<dots> = le_nat hdr" using b(2) unfolding le_nat_septet_data(1) [OF assms] p by (simp add: mult.assoc)
  finally have "take ?h ?d = hdr" using l by (intro le_nat_inject) simp_all
  then have "?d = hdr @ drop ?h ?d" by (metis append_take_drop_id)
  then show ?thesis by blast
qed

lemma septet_septet_data:
  assumes "septets_ok ss" "i < length ss"
  shows "septet (septet_data hdr ss) (fill_septets hdr + i) = ss ! i"
proof -
  let ?p = "fill_septets hdr"
  have "le_nat (septet_data hdr ss) div 2 ^ (7 * ?p) = septets_nat ss"
    unfolding le_nat_septet_data(1) [OF assms(1)] using le_nat_septet_data(2) [OF assms(1), of hdr] by simp
  then have "septet (septet_data hdr ss) (?p + i) = septets_nat ss div 2 ^ (7 * i) mod 128"
    by (simp add: septet_def distrib_left power_add div_mult2_eq)
  also have "\<dots> = septet (pack ss) i" by (simp add: septet_def le_nat_pack [OF assms(1)])
  finally show ?thesis using septet_pack [OF assms] by simp
qed

lemma map_septet_data:
  assumes "septets_ok ss"
  shows "map (septet (septet_data hdr ss)) [fill_septets hdr..<length ss + fill_septets hdr] = ss"
  by (rule nth_equalityI) (simp_all add: septet_septet_data [OF assms])

lemma length_text_of: "length (text_of ss) \<le> length ss"
  by (induction ss rule: text_of.induct) auto

lemma decode_text_septets:
  assumes ss: "septets_ok ss" "complete ss" "length ss < 256" and mem: "length mem = length ss + 1"
  shows "decode_text 0 (hex (septet_data hdr ss) @ r) (fill_septets hdr) (length ss) mem k =
     k (text_of ss @ drop (length (text_of ss)) mem) (length (text_of ss))"
proof -
  let ?d = "septet_data hdr ss" and ?p = "fill_septets hdr"
  have "7 * (length ss + ?p) \<le> 8 * length ?d" unfolding septet_data_def le_bytes_def by simp
  with seven_loop_reads [of ?d ?p "length ss + ?p" r] map_septet_data [OF ss(1), of hdr] ss(2)
  have "convert_7bit_to_ascii (hex ?d @ r) ?p (length ss) f = f (text_of ss)" for f :: "bytes \<Rightarrow> 'a outcome"
    by (simp add: convert_7bit_to_ascii_def)
  with length_text_of [of ss] ss(3) mem show ?thesis
    by (simp add: decode_text_def store_at_def overwrite_0)
qed



section \<open>Messages that are not decoded\<close>

lemma empty_smsc_prefix:
  assumes "length stamp = 7" "encoding_of (unat dcs) = Inr encoding"
  shows "decode_smspdu mal (hex ([0, 4, a, b, c, pid, dcs] @ stamp @ udl # ud) @ [0]) =
     decode_user_data mal (hex ud @ [0]) 0 encoding (unat udl) (hex ([b, c] @ pid # dcs # stamp @ udl # ud) @ [0]) 4 (unat a)
       (hex (stamp @ udl # ud) @ [0])"
proof -
  define D where "D = [0, 4, a, b, c, pid, dcs] @ stamp @ udl # ud"
  have n: "D ! 0 = 0" "D ! 1 = 4" "D ! 2 = a" "D ! 6 = dcs" "D ! 14 = udl" "14 < length D"
    using assms(1) by (simp_all add: D_def nth_append)
  have d: "drop 3 D = [b, c] @ pid # dcs # stamp @ udl # ud" "drop 7 D = stamp @ udl # ud" "drop 15 D = ud"
    using assms(1) by (simp_all add: D_def)
  have dr: "drop (2 * m) (hex D @ [0]) = hex (drop m D) @ [0]" if "m \<le> 15" for m
    using that n(6) by (intro drop_hex) simp
  have rd: "readbyte (hex D @ [0]) m f = f (unat (D ! m))" if "m \<le> 14" for m and f :: "nat \<Rightarrow> (int + SMS) outcome"
    using that n(6) by (intro readbyte_hex) simp
  have "decode_smspdu mal (hex D @ [0]) = decode_user_data mal (drop (2 * 15) (hex D @ [0])) 0 encoding (unat udl)
      (drop (2 * 3) (hex D @ [0])) 4 (unat a) (drop (2 * 7) (hex D @ [0]))"
    using assms(2) unfolding decode_smspdu_def Let_def
    by (simp add: rd n [simplified] drop_bit_Suc numeral_2_eq_2 [symmetric] del: drop_append)
  moreover have "drop (2 * 15) (hex D @ [0]) = hex ud @ [0]" "drop (2 * 7) (hex D @ [0]) = hex (stamp @ udl # ud) @ [0]"
    "drop (2 * 3) (hex D @ [0]) = hex ([b, c] @ pid # dcs # stamp @ udl # ud) @ [0]"
    using dr [of 15] dr [of 7] dr [of 3] unfolding d by (auto simp del: drop_append mult_numeral_1_right)
  ultimately show ?thesis by (simp only: D_def)
qed

text \<open>
  A message without a service centre, whose first octet is 0, is misread: the position goes
  back to that octet, which is taken for the first octet of the message, so that the length, the
  type and the digits of the sender are each read one octet early. A message from the one-digit
  number \<open>d\<close> is reported to come from the number \<open>18dF\<close>.
\<close>

theorem empty_smsc_misread:
  assumes "d < 10" "length stamp = 7" "encoding_of (unat dcs) = Inr 1" "malloc_block mal" "length body < 256"
  shows "\<exists>sms. decode_smspdu mal (hex ([0, 4, 1, 0x81, of_nat (0xf0 + d), pid, dcs] @ stamp @ of_nat (length body) # body) @ [0]) =
     Returned (Inr sms) \<and> take 5 (sms_address sms) = [0x31, 0x38, hex_digit d, 0x46, 0]"
proof -
  let ?m = "\<lparr>dl_smsc = [0], dl_digits = [1, 8, d, 15], dl_toa = 1, dl_pid = pid, dl_dcs = dcs, dl_stamp = stamp, dl_elements = []\<rparr>"
  have m: "deliver_ok ?m" using assms by (simp add: deliver_ok_def udh_octets_def c_arith)
  have so: "semi_octets (dl_digits ?m) = [0x81, of_nat (0xf0 + d)]" by simp
  have sel: "length (dl_digits ?m) = 4" "dl_toa ?m = 1" "dl_stamp ?m = stamp" by simp_all
  have na: "number_string (dl_toa ?m) (dl_digits ?m) = [0x31, 0x38, hex_digit d, 0x46, 0]"
    by (simp add: number_string_def hex_digit_def c_arith)
  have b: "unat (of_nat (length body) :: byte) = length body" using assms(5) by (simp add: unat_of_nat)
  have tx: "decode_text 1 (hex body @ [0]) 0 (length body) mem k = k (body @ drop (length body) mem) (length body)"
    if "length mem = length body + 1" for mem and k :: "bytes \<Rightarrow> nat \<Rightarrow> (int + SMS) outcome"
    using that assms(5) hextobin_hex [of body "[]" body "[]" "[0]"] unfolding decode_text_def
    by (subst hextobin_hex [of body "[]" body "[]" "[0]", simplified]) (simp_all add: store_at_def overwrite_0)
  have u: "read_udh (hex body @ [0]) 0 k = read_udh (hex body @ [0]) (unat (first_octet ?m)) k"
    for k :: "nat \<Rightarrow> nat \<Rightarrow> udh \<Rightarrow> (int + SMS) outcome"
    by (simp add: read_udh_def first_octet_def bit_iff_odd)
  have "\<exists>sms. decode_user_data mal (hex body @ [0]) (unat (first_octet ?m)) 1 (length body)
      (hex (semi_octets (dl_digits ?m) @ pid # dcs # stamp @ of_nat (length body) # body) @ [0]) (length (dl_digits ?m))
      (unat (dl_toa ?m)) (hex (dl_stamp ?m @ of_nat (length body) # body) @ [0]) = Returned (Inr sms) \<and> sms_of ?m sms \<and>
      message_length sms = length body \<and> take (length body) (sms_message sms) = body"
    by (rule decode_user_data_ok [OF m assms(4), where n = "length body" and p = 0]) (use tx in \<open>simp_all add: udh_octets_def\<close>)
  then obtain sms where sms: "decode_user_data mal (hex body @ [0]) (unat (first_octet ?m)) 1 (length body)
      (hex ([0x81, of_nat (0xf0 + d)] @ pid # dcs # stamp @ of_nat (length body) # body) @ [0]) 4 (unat (1 :: byte))
      (hex (stamp @ of_nat (length body) # body) @ [0]) = Returned (Inr sms)" "sms_of ?m sms"
    unfolding so sel by blast
  have "take (length [0x31, 0x38, hex_digit d, 0x46, 0]) (sms_address sms) = [0x31, 0x38, hex_digit d, 0x46, 0]"
    using sms(2) unfolding sms_of_def Let_def na by blast
  then have "take 5 (sms_address sms) = [0x31, 0x38, hex_digit d, 0x46, 0]" by (simp add: eval_nat_numeral)
  moreover have "decode_smspdu mal (hex ([0, 4, 1, 0x81, of_nat (0xf0 + d), pid, dcs] @ stamp @ of_nat (length body) # body) @ [0]) =
      Returned (Inr sms)"
    unfolding empty_smsc_prefix [OF assms(2,3)] b sms(1) [symmetric] decode_user_data_def u ..
  ultimately show ?thesis by blast
qed

theorem empty_smsc_misread_witness:
  "\<exists>sms. decode_smspdu (\<lambda>n. Some (replicate (nat n) 0)) (hex ([0, 4, 1, 0x81, 0xf4, 0, 4] @ [1, 2, 3, 4, 5, 6, 7] @ [2, 0x68, 0x69]) @ [0]) =
     Returned (Inr sms) \<and> take 5 (sms_address sms) = [0x31, 0x38, 0x34, 0x46, 0]"
proof -
  have e: "encoding_of (unat (4 :: byte)) = Inr 1" by (simp add: encoding_of_def c_arith)
  have "hex_digit 4 = 0x34" by (simp add: hex_digit_def)
  with empty_smsc_misread [OF _ _ e sample_malloc, of 4 "[1, 2, 3, 4, 5, 6, 7]" "[0x68, 0x69]" 0] show ?thesis by simp
qed

text \<open>
  A header that is longer than the user data length of an 8-bit message makes the length of the
  text negative; it is not checked, and the terminating zero is stored in front of the text.
\<close>

theorem long_header_fault:
  assumes "deliver_ok m" "encoding_of (unat (dl_dcs m)) = Inr 1" "malloc_block mal"
    and "udl < length (udh_octets (dl_elements m))" "udl + length (dl_digits m) + 3 \<ge> length (udh_octets (dl_elements m))"
  shows "decode_smspdu mal (hex (deliver_octets m udl (udh_octets (dl_elements m) @ ys)) @ [0]) = Fault"
proof -
  let ?h = "udh_octets (dl_elements m)"
  from assms(1) have es: "\<forall>e \<in> set (dl_elements m). element_ok e" "length ?h \<le> 256" and st: "length (dl_stamp m) = 7"
    by (auto simp: deliver_ok_def)
  have "udl < 256" using assms(4) es(2) by simp
  note pre = decode_prefix [OF assms(1) this assms(2)]
  obtain b where b: "mal (int udl - int (length ?h) + 1 + int (length (dl_digits m)) + 2) = Some b"
  proof -
    have "0 \<le> int udl - int (length ?h) + 1 + int (length (dl_digits m)) + 2" using assms(5) by linarith
    with assms(3) show ?thesis using that unfolding malloc_block_def by blast
  qed
  show ?thesis
    unfolding pre decode_user_data_def read_udh_ok [OF es refl first_octet_bit] Let_def
    using assms(4) b by (simp add: load_n_def)
qed

theorem long_header_fault_witness:
  "decode_smspdu (\<lambda>n. Some (replicate (nat n) 0))
     (hex (deliver_octets sample_deliver 11 (udh_octets (dl_elements sample_deliver) @ [])) @ [0]) = Fault"
proof -
  have e: "encoding_of (unat (dl_dcs sample_deliver)) = Inr 1" by (simp add: encoding_of_def sample_deliver_def c_arith)
  show ?thesis
    by (rule long_header_fault [OF sample_deliver_ok e sample_malloc])
      (simp_all add: sample_deliver_def udh_octets_def element_octets_def)
qed

end
