(* ===== verification/Sms_Submit.thy ===== *)
theory Sms_Submit
  imports Sms_Deliver
begin

text \<open>
  Messages to send: the layout of an SMS-SUBMIT of GSM 03.40 and the theorem that \<open>encode_smspdu\<close>
  writes it for every message it accepts, split into the parts of a concatenated message when it
  is long, inside the buffers it has allocated.
\<close>

section \<open>Writing hexadecimal octets\<close>

lemma writebytes_hex:
  assumes "2 * length vs \<le> length r"
  shows "writebytes vs (hex d @ r) (length d) k = k (hex (d @ map of_nat vs) @ drop (2 * length vs) r) (length d + length vs)"
  using assms
proof (induction vs arbitrary: d r)
  case (Cons v vs)
  have "writebytes (v # vs) (hex d @ r) (length d) k = writebytes vs (hex (d @ [of_nat v]) @ drop 2 r) (length (d @ [of_nat v :: byte])) k"
    using Cons.prems by (simp add: writebyte_new)
  also have "\<dots> = k (hex ((d @ [of_nat v]) @ map of_nat vs) @ drop (2 * length vs) (drop 2 r)) (length (d @ [of_nat v :: byte]) + length vs)"
    using Cons.prems by (intro Cons.IH) simp
  finally show ?case by (simp add: add.commute)
qed simp

lemma bintohex_hex:
  assumes "2 * length bs \<le> length r"
  shows "bintohex bs (hex d @ r) (length d) k = k (hex (d @ bs) @ drop (2 * length bs) r)"
  using assms
proof (induction bs arbitrary: d r)
  case (Cons b bs)
  have "bintohex (b # bs) (hex d @ r) (length d) k = bintohex bs (hex (d @ [b]) @ drop 2 r) (length (d @ [b])) k"
    using Cons.prems by (simp add: writebyte_new)
  also have "\<dots> = k (hex ((d @ [b]) @ bs) @ drop (2 * length bs) (drop 2 r))"
    using Cons.prems by (intro Cons.IH) simp
  finally show ?case by (simp add: add.commute)
qed simp

lemma store_hex:
  assumes "2 * length e \<le> length r"
  shows "store_at (hex d @ r) (2 * length d) (hex e) k = k (hex (d @ e) @ drop (2 * length e) r)"
  using assms by (subst store_at_in) (simp_all add: overwrite_def)

text \<open>A buffer that starts with the hexadecimal characters of octets, and the operations that extend them.\<close>

definition written :: "bytes \<Rightarrow> bytes \<Rightarrow> bytes" where
  "written d pdu = hex d @ drop (2 * length d) pdu"

lemma writebytes_written:
  assumes "2 * length (d @ map of_nat vs :: bytes) \<le> length pdu"
  shows "writebytes vs (written d pdu) (length d) k = k (written (d @ map of_nat vs) pdu) (length (d @ map of_nat vs :: bytes))"
  using assms unfolding written_def by (subst writebytes_hex) (simp_all add: add.commute)

lemma bintohex_written:
  assumes "2 * length (d @ bs) \<le> length pdu"
  shows "bintohex bs (written d pdu) (length d) k = k (written (d @ bs) pdu)"
  using assms unfolding written_def by (subst bintohex_hex) (simp_all add: add.commute)

lemma store_written:
  assumes "2 * length (d @ e) \<le> length pdu"
  shows "store_at (written d pdu) (2 * length d) (hex e) k = k (written (d @ e) pdu)"
  using assms unfolding written_def by (subst store_hex) (simp_all add: add.commute)

lemma terminate_written:
  assumes "2 * length d < length pdu"
  shows "store_at (written d pdu) (length d * 2) [0] k = k (hex d @ 0 # drop (2 * length d + 1) pdu)"
  using assms unfolding written_def by (subst store_at_in) (simp_all add: overwrite_def)

section \<open>Numbers\<close>

definition filled :: "nat list \<Rightarrow> nat list" where
  "filled ds = (if even (length ds) then ds else ds @ [15])"

lemma semi_octets_filled: "semi_octets (filled ds) = semi_octets ds"
proof (induction ds rule: semi_octets.induct)
  case (1 a b ds)
  then show ?case by (cases "even (length ds)") (simp_all add: filled_def)
qed (simp_all add: filled_def)

lemma swap_swap: "swap_index (swap_index i) = i"
  unfolding swap_index_def by (cases "even i") (auto elim: oddE)

lemma swap_even: "even n \<Longrightarrow> i < n \<Longrightarrow> swap_index i < n"
  unfolding swap_index_def by (cases "even i") (auto elim!: evenE oddE)

lemma loads_number:
  assumes ds: "\<forall>d \<in> set ds. d < 16" and num: "take (length (filled ds)) number = map hex_digit (filled ds)"
  shows "loads number (map swap_index [0..<length (filled ds)]) k = k (hex (semi_octets ds))"
proof -
  let ?f = "filled ds"
  have ok: "\<forall>d \<in> set ?f. d < 16" "even (length ?f)" using ds by (auto simp: filled_def)
  have l: "length ?f \<le> length number" using arg_cong [OF num, of length] by simp
  have n: "number ! i = hex_digit (?f ! i)" if "i < length ?f" for i
    using that arg_cong [OF num, of "\<lambda>xs. xs ! i"] by simp
  have "map ((!) number) (map swap_index [0..<length ?f]) = hex (semi_octets ?f)"
  proof (rule nth_equalityI)
    show "length (map ((!) number) (map swap_index [0..<length ?f])) = length (hex (semi_octets ?f))"
      using ok(2) by (simp add: length_semi_octets)
    fix i assume "i < length (map ((!) number) (map swap_index [0..<length ?f]))"
    then have i: "i < length ?f" by simp
    with swap_even [OF ok(2) i] swap_semi_octets(2) [OF ok(1) swap_even [OF ok(2) i], of "[]" "[]"]
    show "map ((!) number) (map swap_index [0..<length ?f]) ! i = hex (semi_octets ?f) ! i"
      by (simp add: n swap_swap)
  qed
  moreover have "\<forall>i \<in> set (map swap_index [0..<length ?f]). i < length number"
    using swap_even [OF ok(2)] l by fastforce
  ultimately show ?thesis by (simp only: loads_ok semi_octets_filled)
qed

definition number_text :: "bool \<Rightarrow> nat list \<Rightarrow> bytes" where
  "number_text international ds = (if international then [0x2b] else []) @ map hex_digit ds"

lemma hex_digit_not_plus: "n < 16 \<Longrightarrow> hex_digit n \<noteq> 0x2b"
  using unat_hex_digit [of n] by (auto split: if_splits)

lemma number_of_ok:
  assumes ds: "\<forall>d \<in> set ds. d < 16" and l: "length (number_text intl ds) \<le> 20"
  shows "\<exists>number. take (length (filled ds)) number = map hex_digit (filled ds) \<and>
     number_of (number_text intl ds) (length (number_text intl ds)) k = k number (length ds) (if intl then 0x91 else 0x81)"
proof -
  let ?num = "overwrite (replicate 20 0) 0 (map hex_digit ds)"
  let ?n = "if even (length ds) then ?num else overwrite ?num (length ds) [0x46]"
  have i: "(number_text intl ds \<noteq> [] \<and> number_text intl ds ! 0 = 0x2b) = intl"
    using ds hex_digit_not_plus by (cases ds) (auto simp: number_text_def)
  have len: "length ds \<le> 20" "odd (length ds) \<Longrightarrow> length ds < 20"
    using l by (auto simp: number_text_def split: if_splits) (metis even_numeral le_neq_implies_less)
  have s: "store_at (replicate 20 0) 0 (map hex_digit ds) f = f ?num" for f :: "bytes \<Rightarrow> 'a outcome"
    using len(1) by (subst store_at_in) simp_all
  have o: "store_at ?num (length ds) [0x46] f = f (overwrite ?num (length ds) [0x46])" if "odd (length ds)" for f :: "bytes \<Rightarrow> 'a outcome"
    using len that by (subst store_at_in) simp_all
  have "number_of (number_text intl ds) (length (number_text intl ds)) k = k ?n (length ds) (if intl then 0x91 else 0x81)"
    using i s o by (cases intl) (auto simp: number_of_def number_text_def Let_def odd_iff_mod_2_eq_one even_iff_mod_2_eq_zero)
  moreover have "take (length (filled ds)) ?n = map hex_digit (filled ds)"
    using len by (auto simp: filled_def overwrite_def hex_digit_def)
  ultimately show ?thesis by blast
qed

section \<open>One part\<close>

text \<open>
  The octets of an SMS-SUBMIT: default service centre, first octet, reference, address, protocol,
  8-bit coding, validity, user data length, the header of a part of a concatenated message, text.
\<close>

definition submit_octets :: "nat \<Rightarrow> nat \<Rightarrow> nat \<times> nat \<Rightarrow> bool \<Rightarrow> nat list \<Rightarrow> bytes \<Rightarrow> bytes" where
  "submit_octets nb n ref intl ds part =
     [0, if 1 < nb then 0x51 else 0x11, 0, of_nat (length ds), if intl then 0x91 else 0x81] @ semi_octets ds @
     [0, 4, 0xad, of_nat (length part + (if 1 < nb then 7 else 0))] @
     (if 1 < nb then [6, 8, 4, of_nat (fst ref), of_nat (snd ref), of_nat nb, of_nat (n + 1)] else []) @ part"

definition part_limit :: "nat \<Rightarrow> nat" where
  "part_limit nb = (if 1 < nb then 133 else 140)"

lemma length_submit_octets:
  "length (submit_octets nb n ref intl ds part) = 9 + (length ds + 1) div 2 + (if 1 < nb then 7 else 0) + length part"
  by (simp add: submit_octets_def length_semi_octets)

text \<open>The largest message with the longest number leaves room for the terminating zero.\<close>

lemma submit_octets_fit:
  assumes "length ds \<le> 20" "length part \<le> part_limit nb"
  shows "2 * length (submit_octets nb n ref intl ds part) + 1 \<le> SMS_BUFFER_SIZE"
proof -
  have "(length ds + 1) div 2 \<le> 10" using assms(1) by linarith
  then show ?thesis using assms(2) by (auto simp: length_submit_octets part_limit_def SMS_BUFFER_SIZE_def)
qed

definition submit_pdu :: "bytes \<Rightarrow> bytes \<Rightarrow> PDU" where
  "submit_pdu oct pdu = \<lparr>pdu_size = length oct - 1, pdu_buffer = hex oct @ 0 # drop (2 * length oct + 1) pdu\<rparr>"

lemma encode_part_ok:
  assumes ds: "\<forall>d \<in> set ds. d < 16" "length ds \<le> 20" and num: "take (length (filled ds)) number = map hex_digit (filled ds)"
    and part: "length part \<le> part_limit nb" and pdu: "length pdu = SMS_BUFFER_SIZE"
  shows "encode_part nb n ref number (length ds) (if intl then 0x91 else 0x81) part pdu k =
     k (submit_pdu (submit_octets nb n ref intl ds part) pdu)"
proof -
  let ?o = "submit_octets nb n ref intl ds part"
  define v1 where "v1 = [0, (if 1 < nb then 0x40 else 0) OR 0x11, 0, length ds, if intl then 0x91 else 0x81]"
  define v2 where "v2 = [0, 4, 0xad, length part + (if 1 < nb then 7 else 0)]"
  define v3 where "v3 = (if 1 < nb then [6, 8, 4, fst ref, snd ref, nb, n + 1] else [])"
  define d1 d2 d3 d4 :: bytes where "d1 = [] @ map of_nat v1" and "d2 = d1 @ semi_octets ds" and "d3 = d2 @ map of_nat v2"
    and "d4 = d3 @ map of_nat v3"
  note fit = submit_octets_fit [OF ds(2) part, of n ref intl]
  have o: "?o = d4 @ part" by (simp add: submit_octets_def d1_def d2_def d3_def d4_def v1_def v2_def v3_def)
  have l: "2 * length d1 \<le> length pdu" "2 * length d2 \<le> length pdu" "2 * length d3 \<le> length pdu" "2 * length d4 \<le> length pdu"
    "2 * length (d4 @ part) < length pdu"
    using fit pdu unfolding o by (simp_all add: d2_def d3_def d4_def)
  have w1: "writebytes v1 pdu 0 f = f (written d1 pdu) (length d1)" for f :: "bytes \<Rightarrow> nat \<Rightarrow> 'a outcome"
    using writebytes_written [of "[]" v1 pdu f] l(1) unfolding d1_def by (simp add: written_def)
  have f: "length ds + length ds mod 2 = length (filled ds)" by (simp add: filled_def mod2_eq_if)
  have w2: "store_at (written d1 pdu) (2 * length d1) (hex (semi_octets ds)) f = f (written d2 pdu)" for f :: "bytes \<Rightarrow> 'a outcome"
    using l(2) unfolding d2_def by (rule store_written)
  have p2: "length d1 + (length ds + 1) div 2 = length d2" by (simp add: d2_def length_semi_octets)
  have w3: "writebytes v2 (written d2 pdu) (length d2) f = f (written d3 pdu) (length d3)" for f :: "bytes \<Rightarrow> nat \<Rightarrow> 'a outcome"
    using l(3) unfolding d3_def by (rule writebytes_written)
  have w4: "writebytes v3 (written d3 pdu) (length d3) f = f (written d4 pdu) (length d4)" for f :: "bytes \<Rightarrow> nat \<Rightarrow> 'a outcome"
    using l(4) unfolding d4_def by (rule writebytes_written)
  have w5: "bintohex part (written d4 pdu) (length d4) f = f (written ?o pdu)" for f :: "bytes \<Rightarrow> 'a outcome"
    unfolding o using l(5) by (intro bintohex_written) simp
  have p5: "length d4 + length part = length ?o" by (simp add: o)
  have w6: "store_at (written ?o pdu) (length ?o * 2) [0] f = f (hex ?o @ 0 # drop (2 * length ?o + 1) pdu)" for f :: "bytes \<Rightarrow> 'a outcome"
    unfolding o using l(5) by (rule terminate_written)
  have u: "u16 (length ?o - 1) = length ?o - 1" using fit by (simp add: SMS_BUFFER_SIZE_def)
  show ?thesis
    unfolding encode_part_def Let_def v1_def [symmetric] v2_def [symmetric] v3_def [symmetric]
    by (simp only: w1 f loads_number [OF ds(1) num] w2 p2 w3 w4 w5 p5 w6 u submit_pdu_def)
qed

section \<open>All parts\<close>

definition part_of :: "nat \<Rightarrow> bytes \<Rightarrow> nat \<Rightarrow> bytes" where
  "part_of limit msg i = take limit (drop (limit * i) msg)"

definition pdu_slice :: "bytes \<Rightarrow> nat \<Rightarrow> bytes" where
  "pdu_slice buffer n = take SMS_BUFFER_SIZE (drop (SMS_BUFFER_SIZE * n) buffer)"

lemma encode_parts_ok:
  assumes ds: "\<forall>d \<in> set ds. d < 16" "length ds \<le> 20" and num: "take (length (filled ds)) number = map hex_digit (filled ds)"
    and buf: "SMS_BUFFER_SIZE * (n + todo) \<le> length buffer"
  shows "encode_parts nb n ref (part_limit nb) number (length ds) (if intl then 0x91 else 0x81) msg buffer todo k =
     k (map (\<lambda>i. submit_pdu (submit_octets nb (n + i) ref intl ds (part_of (part_limit nb) msg i)) (pdu_slice buffer (n + i))) [0..<todo])"
  using buf
proof (induction todo arbitrary: n msg k)
  case (Suc todo)
  let ?f = "\<lambda>n msg i. submit_pdu (submit_octets nb (n + i) ref intl ds (part_of (part_limit nb) msg i)) (pdu_slice buffer (n + i))"
  have "SMS_BUFFER_SIZE * Suc n \<le> SMS_BUFFER_SIZE * (n + Suc todo)" by (rule mult_le_mono2) simp
  with Suc.prems have "SMS_BUFFER_SIZE * Suc n \<le> length buffer" by (rule le_trans [rotated])
  then have "length (pdu_slice buffer n) = SMS_BUFFER_SIZE" by (simp add: pdu_slice_def)
  moreover have "length (take (part_limit nb) msg) \<le> part_limit nb" by simp
  ultimately have "encode_part nb n ref number (length ds) (if intl then 0x91 else 0x81) (take (part_limit nb) msg) (pdu_slice buffer n) f =
      f (?f n msg 0)" for f :: "PDU \<Rightarrow> 'a outcome"
    using encode_part_ok [OF ds num, of "take (part_limit nb) msg" nb "pdu_slice buffer n" n ref intl f] by (simp add: part_of_def)
  moreover have "encode_parts nb (n + 1) ref (part_limit nb) number (length ds) (if intl then 0x91 else 0x81) (drop (part_limit nb) msg) buffer todo f =
      f (map (?f (n + 1) (drop (part_limit nb) msg)) [0..<todo])" for f :: "PDU list \<Rightarrow> 'a outcome"
    using Suc.prems by (intro Suc.IH) simp
  moreover have "map (?f n msg) [0..<Suc todo] = ?f n msg 0 # map (?f (n + 1) (drop (part_limit nb) msg)) [0..<todo]"
  proof -
    have "[0..<Suc todo] = 0 # map Suc [0..<todo]" using upt_conv_Cons [of 0 "Suc todo"] map_Suc_upt [of 0 todo] by simp
    moreover have "part_of (part_limit nb) msg (Suc i) = part_of (part_limit nb) (drop (part_limit nb) msg) i" for i
      by (simp add: part_of_def add.commute)
    ultimately show ?thesis by simp
  qed
  ultimately show ?case by (simp only: encode_parts.simps pdu_slice_def [symmetric])
qed simp

lemma concat_parts:
  assumes "0 < limit" "length msg \<le> limit * nb"
  shows "concat (map (part_of limit msg) [0..<nb]) = msg"
  using assms(2)
proof (induction nb arbitrary: msg)
  case (Suc nb)
  have "[0..<Suc nb] = 0 # map Suc [0..<nb]" using upt_conv_Cons [of 0 "Suc nb"] map_Suc_upt [of 0 nb] by simp
  moreover have "part_of limit msg (Suc i) = part_of limit (drop limit msg) i" for i by (simp add: part_of_def add.commute)
  moreover have "concat (map (part_of limit (drop limit msg)) [0..<nb]) = drop limit msg" using Suc.prems by (intro Suc.IH) simp
  moreover have "part_of limit msg 0 = take limit msg" by (simp add: part_of_def)
  ultimately show ?case by (simp add: comp_def del: upt_Suc)
qed simp

definition parts_needed :: "nat \<Rightarrow> nat" where
  "parts_needed n = (if n \<le> 140 then 1 else (n + 132) div 133)"

definition malloc_pdus :: "(nat \<Rightarrow> bytes option) \<Rightarrow> bool" where
  "malloc_pdus mal \<longleftrightarrow> (\<forall>nb. \<exists>b. mal nb = Some b \<and> length b = SMS_BUFFER_SIZE * nb)"

definition concat_reference :: "nat \<times> nat \<Rightarrow> nat \<Rightarrow> nat \<times> nat" where
  "concat_reference rnd nb = (if 1 < nb then (fst rnd AND 0xff, snd rnd AND 0xff) else (0, 0))"

lemma parts_needed_bounds:
  assumes "n \<le> 255 * 133"
  shows "n \<le> part_limit (parts_needed n) * parts_needed n" "parts_needed n \<le> 255" "(1 < parts_needed n) = (140 < n)"
proof -
  have "n \<le> 133 * ((n + 132) div 133)" "(n + 132) div 133 \<le> 255" "140 < n \<Longrightarrow> 1 < (n + 132) div 133"
    using assms by linarith+
  then show "n \<le> part_limit (parts_needed n) * parts_needed n" "parts_needed n \<le> 255" "(1 < parts_needed n) = (140 < n)"
    by (auto simp: parts_needed_def part_limit_def)
qed

lemma encode_smspdu_eval:
  assumes "length msg \<le> 255 * 133" "\<forall>d \<in> set ds. d < 16" "length (number_text intl ds) \<le> 20" "malloc_pdus mal"
  shows "\<exists>buffer. encode_smspdu mal rnd msg (number_text intl ds) =
     Returned (Inr (map (\<lambda>n. submit_pdu (submit_octets (parts_needed (length msg)) n (concat_reference rnd (parts_needed (length msg)))
       intl ds (part_of (part_limit (parts_needed (length msg))) msg n)) (pdu_slice buffer n)) [0..<parts_needed (length msg)]))"
proof -
  let ?nb = "parts_needed (length msg)" and ?addr = "number_text intl ds"
  note nb = parts_needed_bounds [OF assms(1)]
  obtain b where b: "mal ?nb = Some b" "length b = SMS_BUFFER_SIZE * ?nb" using assms(4) by (auto simp: malloc_pdus_def)
  have ds: "length ds \<le> 20" using assms(3) by (simp add: number_text_def split: if_splits)
  let ?k = "\<lambda>number len toa. case mal ?nb of None \<Rightarrow> Returned (Inl (- 10 :: int))
      | Some buffer \<Rightarrow> encode_parts ?nb 0 (concat_reference rnd ?nb) (part_limit ?nb) number len toa msg buffer ?nb (\<lambda>ps. Returned (Inr ps))"
  have e: "(if 140 < length msg then 133 else 140) = part_limit ?nb"
    "(if 140 < length msg then (length msg + part_limit ?nb - 1) div part_limit ?nb else 1) = ?nb"
    "(if 140 < length msg then (fst rnd AND 0xff, snd rnd AND 0xff) else (0, 0)) = concat_reference rnd ?nb"
    using nb(3) by (auto simp: part_limit_def concat_reference_def parts_needed_def)
  have g: "(255 * 133 < length msg) = False" "(20 < length ?addr) = False" using assms(1,3) by auto
  have "encode_smspdu mal rnd msg ?addr = number_of ?addr (length ?addr) ?k"
    unfolding encode_smspdu_def Let_def e g if_False ..
  moreover obtain number where
    n: "take (length (filled ds)) number = map hex_digit (filled ds)"
      "number_of ?addr (length ?addr) ?k = ?k number (length ds) (if intl then 0x91 else 0x81)"
    using number_of_ok [OF assms(2,3), of ?k] by blast
  moreover have "?k number (length ds) (if intl then 0x91 else 0x81) = Returned (Inr (map (\<lambda>n. submit_pdu (submit_octets ?nb n
      (concat_reference rnd ?nb) intl ds (part_of (part_limit ?nb) msg n)) (pdu_slice b n)) [0..<?nb]))"
  proof -
    have "SMS_BUFFER_SIZE * (0 + ?nb) \<le> length b" using b(2) by simp
    from encode_parts_ok [OF assms(2) ds n(1) this] show ?thesis by (simp only: b(1) option.case add_0)
  qed
  ultimately have "encode_smspdu mal rnd msg ?addr = Returned (Inr (map (\<lambda>n. submit_pdu (submit_octets ?nb n
      (concat_reference rnd ?nb) intl ds (part_of (part_limit ?nb) msg n)) (pdu_slice b n)) [0..<?nb]))" by (simp only:)
  then show ?thesis by blast
qed

lemma chars_submit_pdu: "chars (pdu_buffer (submit_pdu oct pdu)) = hex oct"
proof -
  have "c \<noteq> 0" if "c \<in> set (hex oct)" for c
    using that by (induction oct) (auto simp: hex2_def hex_digit_range)
  then show ?thesis unfolding submit_pdu_def chars_def by (subst PDU.simps, subst takeWhile_append2) auto
qed

text \<open>
  C21: every message of at most 33915 octets to a number of at most 20 characters is encoded, inside
  the allocated buffers, as the SMS-SUBMIT of the standard: one PDU up to 140 octets, otherwise as
  few parts of at most 133 octets as needed, with the number of parts and the sequence numbers in
  their headers; the texts of the parts, in order, are the message.
\<close>

theorem encode_smspdu_submits:
  assumes "length msg \<le> 255 * 133" "\<forall>d \<in> set ds. d < 16" "length (number_text intl ds) \<le> 20" "malloc_pdus mal"
  shows "\<exists>pdus parts. encode_smspdu mal rnd msg (number_text intl ds) = Returned (Inr pdus) \<and>
     concat parts = msg \<and> length parts = parts_needed (length msg) \<and> (\<forall>p \<in> set parts. length p \<le> part_limit (length parts)) \<and>
     map (\<lambda>p. chars (pdu_buffer p)) pdus =
       map (\<lambda>n. hex (submit_octets (length parts) n (concat_reference rnd (length parts)) intl ds (parts ! n))) [0..<length parts]"
proof -
  let ?nb = "parts_needed (length msg)"
  let ?parts = "map (part_of (part_limit ?nb) msg) [0..<?nb]"
  from encode_smspdu_eval [OF assms, of rnd] obtain pdus where
    e: "encode_smspdu mal rnd msg (number_text intl ds) = Returned (Inr pdus)" and
    p: "map (\<lambda>p. chars (pdu_buffer p)) pdus = map (\<lambda>n. hex (submit_octets ?nb n (concat_reference rnd ?nb) intl ds (?parts ! n))) [0..<?nb]"
    by (auto simp: chars_submit_pdu)
  have "concat ?parts = msg"
    using parts_needed_bounds(1) [OF assms(1)] by (intro concat_parts) (simp_all add: part_limit_def)
  moreover have "\<forall>p \<in> set ?parts. length p \<le> part_limit ?nb" by (auto simp: part_of_def)
  ultimately show ?thesis using e p by (intro exI [of _ pdus] exI [of _ ?parts]) simp
qed

theorem encode_smspdu_submits_witness:
  "\<exists>pdus. encode_smspdu (\<lambda>nb. Some (replicate (SMS_BUFFER_SIZE * nb) 0)) (1, 2) [0x68, 0x69] [0x2b, 0x33, 0x36, 0x31] = Returned (Inr pdus) \<and>
     map (\<lambda>p. chars (pdu_buffer p)) pdus = [hex [0, 0x11, 0, 3, 0x91, 0x63, 0xf1, 0, 4, 0xad, 2, 0x68, 0x69]]"
proof -
  have a: "number_text True [3, 6, 1] = [0x2b, 0x33, 0x36, 0x31]" by (simp add: number_text_def hex_digit_def)
  have m: "malloc_pdus (\<lambda>nb. Some (replicate (SMS_BUFFER_SIZE * nb) 0))" by (simp add: malloc_pdus_def)
  have "length [0x68, 0x69 :: byte] \<le> 255 * 133" "\<forall>d \<in> set [3, 6, 1 :: nat]. d < 16" "length (number_text True [3, 6, 1]) \<le> 20"
    by (simp_all add: number_text_def)
  from encode_smspdu_submits [OF this m, of "(1, 2)"] obtain pdus parts where
    e: "encode_smspdu (\<lambda>nb. Some (replicate (SMS_BUFFER_SIZE * nb) 0)) (1, 2) [0x68, 0x69] (number_text True [3, 6, 1]) = Returned (Inr pdus)"
      "concat parts = [0x68, 0x69]" "length parts = parts_needed (length [0x68, 0x69 :: byte])"
      "map (\<lambda>p. chars (pdu_buffer p)) pdus =
        map (\<lambda>n. hex (submit_octets (length parts) n (concat_reference (1, 2) (length parts)) True [3, 6, 1] (parts ! n))) [0..<length parts]"
    by blast
  then have "length parts = 1" by (simp add: parts_needed_def)
  then obtain q where "parts = [q]" by (cases parts) auto
  with e(2) have "parts = [[0x68, 0x69]]" by simp
  with e(1,4) show ?thesis unfolding a by (auto simp: submit_octets_def)
qed

end
