(* ===== verification/C_Loops.thy ===== *)
theory C_Loops
  imports C_Memory
begin

text \<open>
  Sequences of operations with outcomes, and the \<open>while\<close> loop over them: a loop whose body changes
  the state the condition looks at need not end, and \<open>Hangs\<close> is then its outcome.
\<close>

section \<open>Running one operation after another\<close>

definition run :: "'a outcome \<Rightarrow> ('a \<Rightarrow> 'b outcome) \<Rightarrow> 'b outcome" where
  "run m k = (case m of Returned x \<Rightarrow> k x | Fault \<Rightarrow> Fault | Hangs \<Rightarrow> Hangs)"

lemma run_simps [simp]: "run (Returned x) k = k x" "run Fault k = Fault" "run Hangs k = Hangs"
  by (simp_all add: run_def)

lemma run_Returned [simp]: "run m Returned = m"
  by (cases m) simp_all

lemma run_assoc [simp]: "run (run m f) g = run m (\<lambda>x. run (f x) g)"
  by (cases m) simp_all

lemma run_cong [fundef_cong]:
  "m = m' \<Longrightarrow> (\<And>x. m' = Returned x \<Longrightarrow> k x = k' x) \<Longrightarrow> run m k = run m' k'"
  by (cases m') simp_all

text \<open>The \<open>while\<close> loop: a body that is run as long as the condition holds, possibly forever.\<close>

partial_function (option) while_steps :: "('s \<Rightarrow> bool) \<Rightarrow> ('s \<Rightarrow> 's outcome) \<Rightarrow> 's \<Rightarrow> 's outcome option" where
  "while_steps c body s =
     (if c s
      then case body s of Returned s' \<Rightarrow> while_steps c body s' | Fault \<Rightarrow> Some Fault | Hangs \<Rightarrow> Some Hangs
      else Some (Returned s))"

declare while_steps.simps [code]

definition while_loop :: "('s \<Rightarrow> bool) \<Rightarrow> ('s \<Rightarrow> 's outcome) \<Rightarrow> 's \<Rightarrow> 's outcome" where
  "while_loop c body s = (case while_steps c body s of None \<Rightarrow> Hangs | Some r \<Rightarrow> r)"

lemma while_loop_unfold: "while_loop c body s = (if c s then run (body s) (while_loop c body) else Returned s)"
  unfolding while_loop_def by (subst while_steps.simps) (simp add: run_def while_loop_def split: outcome.splits)

lemma while_loop_done [simp]: "\<not> c s \<Longrightarrow> while_loop c body s = Returned s"
  by (simp add: while_loop_unfold)

lemma while_loop_step: "c s \<Longrightarrow> while_loop c body s = run (body s) (while_loop c body)"
  by (subst while_loop_unfold) simp

text \<open>A loop whose body may return from the function it is in.\<close>

definition while_ret ::
  "('s \<Rightarrow> bool) \<Rightarrow> ('s \<Rightarrow> ('r option \<times> 's) outcome) \<Rightarrow> 's \<Rightarrow> ('r option \<times> 's) outcome" where
  "while_ret c body s = while_loop (\<lambda>(r, s). r = None \<and> c s) (\<lambda>(r, s). body s) (None, s)"

lemma while_ret_unfold:
  "while_ret c body s =
     (if c s then run (body s) (\<lambda>(r, s'). case r of None \<Rightarrow> while_ret c body s' | Some _ \<Rightarrow> Returned (r, s'))
      else Returned (None, s))"
proof -
  have "while_loop (\<lambda>(r, s). r = None \<and> c s) (\<lambda>(r, s). body s) =
      (\<lambda>(r, s'). case r of None \<Rightarrow> while_ret c body s' | Some _ \<Rightarrow> Returned (r, s'))"
    by (rule ext) (auto simp: while_ret_def split: option.split prod.split)
  then show ?thesis unfolding while_ret_def [of c body s] by (subst while_loop_unfold) simp
qed

text \<open>A loop that runs \<open>n\<close> times, with an invariant for each round.\<close>

lemma while_ret_rounds:
  assumes step: "\<And>i s. i < n \<Longrightarrow> I i s \<Longrightarrow> c s \<and> (\<exists>s'. body s = Returned (None, s') \<and> I (Suc i) s')"
    and stop: "\<And>s. I n s \<Longrightarrow> \<not> c s" and "I i s" "i \<le> n"
  shows "\<exists>s'. while_ret c body s = Returned (None, s') \<and> I n s'"
  using assms(3,4)
proof (induction "n - i" arbitrary: i s)
  case 0
  then show ?case using stop by (subst while_ret_unfold) auto
next
  case (Suc k)
  then have "i < n" by simp
  with Suc.prems obtain s' where "c s" "body s = Returned (None, s')" "I (Suc i) s'" using step by blast
  with Suc.hyps(1) [of "Suc i" s'] Suc.hyps(2) Suc.prems show ?case by (subst while_ret_unfold) auto
qed

text \<open>A loop with an invariant that keeps its condition never ends.\<close>

lemma while_loop_hangs:
  assumes step: "\<And>s. I s \<Longrightarrow> c s \<and> (\<exists>s'. body s = Returned s' \<and> I s')" and "I s"
  shows "while_loop c body s = Hangs"
proof -
  have "b = body \<longrightarrow> d = c \<longrightarrow> \<not> I s" if "while_steps d b s = Some r" for d b s r
  proof (rule while_steps.raw_induct [where P = "\<lambda>d b s r. b = body \<longrightarrow> d = c \<longrightarrow> \<not> I s", OF _ that], intro impI notI)
    fix loop d b s r
    assume IH: "\<And>d b s r. loop d b s = Some r \<Longrightarrow> b = body \<longrightarrow> d = c \<longrightarrow> \<not> I s"
      and eq: "(if d s then case b s of Returned s' \<Rightarrow> loop d b s' | Fault \<Rightarrow> Some Fault | Hangs \<Rightarrow> Some Hangs else Some (Returned s)) = Some r"
      and e: "b = body" "d = c" and "I s"
    with step obtain s' where s': "c s" "body s = Returned s'" "I s'" by blast
    with eq e have "loop c body s' = Some r" by simp
    from IH [OF this] s' show False by simp
  qed
  with assms(2) show ?thesis by (cases "while_steps c body s") (auto simp: while_loop_def)
qed

lemma while_ret_hangs:
  assumes "\<And>s. I s \<Longrightarrow> c s \<and> (\<exists>s'. body s = Returned (None, s') \<and> I s')" "I s"
  shows "while_ret c body s = Hangs"
  unfolding while_ret_def by (rule while_loop_hangs [where I = "\<lambda>(r, s). r = None \<and> I s"]) (use assms in fastforce)+

end
