(* ===== verification/Telnet_Buffers.thy ===== *)
theory Telnet_Buffers
  imports C_Loops
begin

text \<open>
  The buffers of the telnet shell (\<open>src/luafwk/shell/telnet/buffers.c\<close>). A \<open>WriteBuffer\<close> starts
  in the 16 octets inside its structure and moves to a block of the heap when it grows; its
  pointer is null before the first write and after it is freed. A \<open>ReadBuffer\<close> is a position in
  a block of received octets, with a mark. An outcome is \<open>Fault\<close> when the code accesses memory
  outside a block or through a null pointer, when a signed number overflows, when \<open>memcpy\<close> is
  called on overlapping blocks and when an assertion fails.

  The interface \<open>append_buffer\<close> is what the writers of the shell rely on: a write appends, whatever
  the buffer did to make room.
\<close>

definition INT_MAX :: nat where "INT_MAX = 2 ^ 31 - 1"

text \<open>
  The allocator of the host: the content of a new block is arbitrary. \<open>mem_calloc\<close> tells whether a
  cleared array of that many pointers is granted.
\<close>

record heap =
  mem_alloc :: "nat \<Rightarrow> bytes option"
  mem_realloc :: "bytes \<Rightarrow> nat \<Rightarrow> bytes option"
  mem_calloc :: "nat \<Rightarrow> bool"

definition heap_ok :: "heap \<Rightarrow> bool" where
  "heap_ok h \<longleftrightarrow>
     (\<forall>n. \<exists>b. mem_alloc h n = Some b \<and> length b = n) \<and>
     (\<forall>m n. \<exists>b. mem_realloc h m n = Some b \<and> length b = n \<and> take (min n (length m)) b = take (min n (length m)) m) \<and>
     (\<forall>n. mem_calloc h n)"

section \<open>Write buffers\<close>

datatype wb_ptr = WB_NULL | WB_PREALLOC | WB_HEAP bytes

record WriteBuffer =
  wb_buffer :: wb_ptr
  wb_len :: nat
  wb_size :: nat
  prealloc :: bytes

definition WRITEBUFFER_PREALLOCATED_SIZE :: nat where "WRITEBUFFER_PREALLOCATED_SIZE = 16"

definition InitBuffer :: "WriteBuffer \<Rightarrow> WriteBuffer" where
  "InitBuffer buf = buf\<lparr>wb_size := WRITEBUFFER_PREALLOCATED_SIZE, wb_buffer := WB_PREALLOC, wb_len := 0\<rparr>"

definition FreeBuffer :: "WriteBuffer \<Rightarrow> WriteBuffer" where
  "FreeBuffer buf = buf\<lparr>wb_size := 0, wb_buffer := WB_NULL, wb_len := 0\<rparr>"

text \<open>
  \<open>realloc\<close> of a null pointer allocates. When there is no memory for a block that has to be
  copied into, the copy goes through the null pointer; a failed \<open>realloc\<close> leaves a null pointer.
\<close>

definition GrowBuffer :: "heap \<Rightarrow> WriteBuffer \<Rightarrow> nat \<Rightarrow> WriteBuffer outcome" where
  "GrowBuffer h buf sz =
     (if INT_MAX < wb_len buf + sz then Fault
      else if wb_size buf < wb_len buf + sz then
        if INT_MAX < wb_size buf * 2 then Fault
        else
          let newsize = max (wb_size buf * 2) (wb_len buf + sz);
              moved = (\<lambda>p. buf\<lparr>wb_buffer := (case p of None \<Rightarrow> WB_NULL | Some b \<Rightarrow> WB_HEAP b), wb_size := newsize\<rparr>) in
          (case wb_buffer buf of
             WB_HEAP m \<Rightarrow> Returned (moved (mem_realloc h m newsize))
           | WB_NULL \<Rightarrow> Returned (moved (mem_alloc h newsize))
           | WB_PREALLOC \<Rightarrow>
               need (mem_alloc h newsize) (\<lambda>b. store_at b 0 (prealloc buf) (\<lambda>b. Returned (moved (Some b)))))
      else Returned buf)"

definition wb_mem :: "WriteBuffer \<Rightarrow> bytes option" where
  "wb_mem buf = (case wb_buffer buf of WB_NULL \<Rightarrow> None | WB_PREALLOC \<Rightarrow> Some (prealloc buf) | WB_HEAP m \<Rightarrow> Some m)"

definition set_mem :: "bytes \<Rightarrow> WriteBuffer \<Rightarrow> WriteBuffer" where
  "set_mem m buf = (case wb_buffer buf of WB_HEAP _ \<Rightarrow> buf\<lparr>wb_buffer := WB_HEAP m\<rparr> | _ \<Rightarrow> buf\<lparr>prealloc := m\<rparr>)"

definition wb_store :: "WriteBuffer \<Rightarrow> nat \<Rightarrow> bytes \<Rightarrow> WriteBuffer outcome" where
  "wb_store buf i bs = need (wb_mem buf) (\<lambda>m. store_at m i bs (\<lambda>m. Returned (set_mem m buf)))"

definition initialised :: "WriteBuffer \<Rightarrow> WriteBuffer" where
  "initialised buf = (if wb_buffer buf = WB_NULL then InitBuffer buf else buf)"

definition WriteByte :: "heap \<Rightarrow> WriteBuffer \<Rightarrow> byte \<Rightarrow> WriteBuffer outcome" where
  "WriteByte h buf v =
     run (GrowBuffer h (initialised buf) 1) (\<lambda>buf.
     run (wb_store buf (wb_len buf) [v]) (\<lambda>buf. Returned (buf\<lparr>wb_len := wb_len buf + 1\<rparr>)))"

definition WriteEscByte :: "heap \<Rightarrow> WriteBuffer \<Rightarrow> byte \<Rightarrow> WriteBuffer outcome" where
  "WriteEscByte h buf v =
     run (if v = 255 then WriteByte h buf 255 else Returned buf) (\<lambda>buf. WriteByte h buf v)"

definition WriteBytes :: "heap \<Rightarrow> WriteBuffer \<Rightarrow> bytes \<Rightarrow> WriteBuffer outcome" where
  "WriteBytes h buf s =
     run (GrowBuffer h (initialised buf) (length s)) (\<lambda>buf.
     run (wb_store buf (wb_len buf) s) (\<lambda>buf. Returned (buf\<lparr>wb_len := wb_len buf + length s\<rparr>)))"

text \<open>\<open>memmove\<close> inside the buffer, and \<open>memcpy\<close>, which is undefined when the blocks overlap.\<close>

definition wb_memmove :: "WriteBuffer \<Rightarrow> nat \<Rightarrow> nat \<Rightarrow> nat \<Rightarrow> WriteBuffer outcome" where
  "wb_memmove buf dst src n = need (wb_mem buf) (\<lambda>m. load_n m src n (\<lambda>bs. wb_store buf dst bs))"

definition wb_memcpy :: "WriteBuffer \<Rightarrow> nat \<Rightarrow> nat \<Rightarrow> nat \<Rightarrow> WriteBuffer outcome" where
  "wb_memcpy buf dst src n = (if dst < src + n \<and> src < dst + n then Fault else wb_memmove buf dst src n)"

definition InsertBytes :: "heap \<Rightarrow> WriteBuffer \<Rightarrow> nat \<Rightarrow> bytes \<Rightarrow> WriteBuffer outcome" where
  "InsertBytes h buf pos s =
     (let buf = initialised buf; l = length s in
      if wb_len buf < pos then Fault
      else
        run (GrowBuffer h buf l) (\<lambda>buf.
        run (wb_memmove buf (pos + l) pos (wb_len buf - pos)) (\<lambda>buf.
        run (wb_store buf pos s) (\<lambda>buf. Returned (buf\<lparr>wb_len := wb_len buf + l\<rparr>)))))"

definition OverWriteBytes :: "heap \<Rightarrow> WriteBuffer \<Rightarrow> nat \<Rightarrow> bytes \<Rightarrow> WriteBuffer outcome" where
  "OverWriteBytes h buf pos s =
     (let buf = initialised buf; l = length s in
      if wb_len buf < pos then Fault
      else
        let growsize = pos + l - wb_len buf in
        run (GrowBuffer h buf growsize) (\<lambda>buf.
        run (wb_store buf pos s) (\<lambda>buf. Returned (buf\<lparr>wb_len := wb_len buf + growsize\<rparr>))))"

definition DeleteBytes :: "WriteBuffer \<Rightarrow> nat \<Rightarrow> nat \<Rightarrow> WriteBuffer outcome" where
  "DeleteBytes buf pos nb =
     (let buf = initialised buf; end = pos + nb in
      if wb_len buf < pos \<or> wb_len buf < end then Fault
      else run (wb_memcpy buf pos end (wb_len buf - end)) (\<lambda>buf. Returned (buf\<lparr>wb_len := wb_len buf - nb\<rparr>)))"

text \<open>Both copy from the block of the caller into the buffer.\<close>

definition CopyCutBytes :: "WriteBuffer \<Rightarrow> nat \<Rightarrow> nat \<Rightarrow> bytes \<Rightarrow> WriteBuffer outcome" where
  "CopyCutBytes buf pos nb out =
     (let buf = initialised buf; end = pos + nb in
      if wb_len buf < pos \<or> wb_len buf < end then Fault
      else
        run (load_n out 0 nb (wb_store buf pos)) (\<lambda>buf.
        run (wb_memcpy buf pos end (wb_len buf - end)) (\<lambda>buf. Returned (buf\<lparr>wb_len := wb_len buf - nb\<rparr>))))"

definition CopyBytes :: "WriteBuffer \<Rightarrow> nat \<Rightarrow> nat \<Rightarrow> bytes \<Rightarrow> WriteBuffer outcome" where
  "CopyBytes buf pos nb out =
     (let buf = initialised buf in
      if wb_len buf < pos \<or> wb_len buf < pos + nb then Fault
      else load_n out 0 nb (wb_store buf pos))"

section \<open>Read buffers\<close>

text \<open>
  \<open>rb_allocated\<close> tells whether \<open>buffer\<close> is a block of the heap (otherwise it is null and the
  positions are in the string of the caller); \<open>rb_block\<close> is the block that \<open>p\<close> and \<open>mark\<close> point
  into.
\<close>

record ReadBuffer =
  rb_allocated :: bool
  rb_block :: bytes
  rb_p :: nat
  rb_mark :: nat
  rb_len :: nat

definition ReadMark :: "ReadBuffer \<Rightarrow> ReadBuffer" where
  "ReadMark buf = buf\<lparr>rb_mark := rb_p buf\<rparr>"

text \<open>The octet, or \<open>None\<close> for \<open>-1\<close>, and the buffer.\<close>

definition ReadByte :: "ReadBuffer \<Rightarrow> (byte option \<times> ReadBuffer) outcome" where
  "ReadByte buf =
     (if rb_len buf = 0 then Returned (None, buf)
      else load (rb_block buf) (rb_p buf) (\<lambda>v.
        Returned (Some v, buf\<lparr>rb_p := rb_p buf + 1, rb_len := rb_len buf - 1\<rparr>)))"

definition ReadEscByte :: "ReadBuffer \<Rightarrow> (byte option \<times> ReadBuffer) outcome" where
  "ReadEscByte buf = run (ReadByte buf) (\<lambda>(v, buf). if v = Some 255 then ReadByte buf else Returned (v, buf))"

section \<open>What a write buffer holds\<close>

definition wb_inv :: "WriteBuffer \<Rightarrow> bool" where
  "wb_inv buf \<longleftrightarrow> length (prealloc buf) = WRITEBUFFER_PREALLOCATED_SIZE \<and> wb_len buf \<le> wb_size buf \<and>
     (case wb_buffer buf of
        WB_NULL \<Rightarrow> wb_size buf = 0
      | WB_PREALLOC \<Rightarrow> wb_size buf = WRITEBUFFER_PREALLOCATED_SIZE
      | WB_HEAP m \<Rightarrow> wb_size buf = length m)"

definition wb_content :: "WriteBuffer \<Rightarrow> bytes" where
  "wb_content buf = (case wb_mem buf of None \<Rightarrow> [] | Some m \<Rightarrow> take (wb_len buf) m)"

text \<open>Up to this length doubling the size of a buffer stays in the range of \<open>int\<close>.\<close>

definition wb_limit :: nat where "wb_limit = 2 ^ 30"

lemma length_wb_content: "wb_inv buf \<Longrightarrow> length (wb_content buf) = wb_len buf"
  by (auto simp: wb_inv_def wb_content_def wb_mem_def split: wb_ptr.splits)

lemma wb_inv_initialised:
  "wb_inv buf \<Longrightarrow> wb_inv (initialised buf) \<and> wb_content (initialised buf) = wb_content buf \<and>
     wb_len (initialised buf) = wb_len buf \<and> wb_buffer (initialised buf) \<noteq> WB_NULL"
  by (auto simp: initialised_def InitBuffer_def wb_inv_def wb_content_def wb_mem_def split: wb_ptr.splits)

lemma wb_inv_FreeBuffer: "wb_inv buf \<Longrightarrow> wb_inv (FreeBuffer buf) \<and> wb_content (FreeBuffer buf) = []"
  by (auto simp: FreeBuffer_def wb_inv_def wb_content_def wb_mem_def)

text \<open>A buffer with room: its memory, and its content as a prefix of it.\<close>

definition wb_room :: "WriteBuffer \<Rightarrow> nat \<Rightarrow> bool" where
  "wb_room buf n \<longleftrightarrow> wb_inv buf \<and> wb_buffer buf \<noteq> WB_NULL \<and> wb_len buf + n \<le> wb_size buf"

lemma GrowBuffer_room:
  assumes "heap_ok h" "wb_inv buf" "wb_buffer buf \<noteq> WB_NULL" "wb_len buf + n \<le> wb_limit"
  obtains buf' where "GrowBuffer h buf n = Returned buf'" "wb_room buf' n" "wb_content buf' = wb_content buf"
    "wb_len buf' = wb_len buf"
proof (cases "wb_size buf < wb_len buf + n")
  case False
  with assms that [of buf] show ?thesis by (auto simp: GrowBuffer_def wb_room_def INT_MAX_def wb_limit_def)
next
  case True
  let ?n = "max (wb_size buf * 2) (wb_len buf + n)"
  have small: "\<not> INT_MAX < wb_len buf + n" "\<not> INT_MAX < wb_size buf * 2"
    using True assms(4) by (simp_all add: INT_MAX_def wb_limit_def)
  show ?thesis
  proof (cases "wb_buffer buf")
    case WB_PREALLOC
    from assms(1) obtain b where b: "mem_alloc h ?n = Some b" "length b = ?n" unfolding heap_ok_def by blast
    show ?thesis
      by (rule that [of "buf\<lparr>wb_buffer := WB_HEAP (overwrite b 0 (prealloc buf)), wb_size := ?n\<rparr>"])
        (use True small WB_PREALLOC b assms(2) in
          \<open>auto simp: GrowBuffer_def Let_def store_at_in wb_room_def wb_inv_def wb_content_def wb_mem_def overwrite_0\<close>)
  next
    case (WB_HEAP m)
    from assms(1) obtain b where b: "mem_realloc h m ?n = Some b" "length b = ?n" "take (min ?n (length m)) b = take (min ?n (length m)) m"
      unfolding heap_ok_def by blast
    have m: "length m = wb_size buf" "wb_len buf \<le> wb_size buf" using assms(2) WB_HEAP by (simp_all add: wb_inv_def)
    have "take (wb_len buf) (take (min ?n (length m)) b) = take (wb_len buf) (take (min ?n (length m)) m)" using b(3) by simp
    then have "take (wb_len buf) b = take (wb_len buf) m" using m by (simp add: min_def split: if_splits)
    then show ?thesis
      using that [of "buf\<lparr>wb_buffer := WB_HEAP b, wb_size := ?n\<rparr>"] True small WB_HEAP b(1, 2) assms(2)
      by (auto simp: GrowBuffer_def Let_def wb_room_def wb_inv_def wb_content_def wb_mem_def)
  qed (use assms(3) in simp)
qed

text \<open>A store inside the memory of a buffer changes the memory and nothing else.\<close>

lemma wb_room_mem:
  assumes "wb_room buf n"
  obtains m where "wb_mem buf = Some m" "length m = wb_size buf" "wb_content buf = take (wb_len buf) m"
  using assms by (auto simp: wb_room_def wb_inv_def wb_mem_def wb_content_def split: wb_ptr.splits)

lemma set_mem_props:
  assumes "wb_room buf n" "length m = wb_size buf"
  shows "wb_room (set_mem m buf) n" "wb_mem (set_mem m buf) = Some m" "wb_len (set_mem m buf) = wb_len buf"
    "wb_size (set_mem m buf) = wb_size buf"
  using assms by (auto simp: wb_room_def wb_inv_def wb_mem_def set_mem_def split: wb_ptr.splits)

lemma wb_store_room:
  assumes "wb_room buf n" "i + length bs \<le> wb_size buf" "wb_mem buf = Some m"
  shows "wb_store buf i bs = Returned (set_mem (overwrite m i bs) buf)"
    "wb_room (set_mem (overwrite m i bs) buf) n" "wb_mem (set_mem (overwrite m i bs) buf) = Some (overwrite m i bs)"
    "wb_len (set_mem (overwrite m i bs) buf) = wb_len buf" "wb_size (set_mem (overwrite m i bs) buf) = wb_size buf"
proof -
  have l: "length m = wb_size buf" using assms wb_room_mem by (metis option.inject)
  then show "wb_store buf i bs = Returned (set_mem (overwrite m i bs) buf)"
    using assms by (simp add: wb_store_def store_at_in)
  show "wb_room (set_mem (overwrite m i bs) buf) n" "wb_mem (set_mem (overwrite m i bs) buf) = Some (overwrite m i bs)"
    "wb_len (set_mem (overwrite m i bs) buf) = wb_len buf" "wb_size (set_mem (overwrite m i bs) buf) = wb_size buf"
    using set_mem_props [OF assms(1), of "overwrite m i bs"] assms(2) l by simp_all
qed

text \<open>The length is raised after the octets are stored.\<close>

lemma wb_room_finish:
  assumes "wb_room buf n" "k \<le> n" "wb_mem buf = Some m"
  shows "wb_inv (buf\<lparr>wb_len := wb_len buf + k\<rparr>)" "wb_content (buf\<lparr>wb_len := wb_len buf + k\<rparr>) = take (wb_len buf + k) m"
  using assms by (auto simp: wb_room_def wb_inv_def wb_content_def wb_mem_def split: wb_ptr.splits)

lemma WriteBytes_appends:
  assumes "heap_ok h" "wb_inv buf" "length (wb_content buf) + length s \<le> wb_limit"
  shows "\<exists>buf'. WriteBytes h buf s = Returned buf' \<and> wb_inv buf' \<and> wb_content buf' = wb_content buf @ s"
proof -
  let ?i = "initialised buf"
  note i = wb_inv_initialised [OF assms(2)]
  obtain b where b: "GrowBuffer h ?i (length s) = Returned b" "wb_room b (length s)" "wb_content b = wb_content buf"
      "wb_len b = wb_len buf"
    using GrowBuffer_room [OF assms(1), of ?i "length s"] i assms length_wb_content [OF assms(2)] by metis
  obtain m where m: "wb_mem b = Some m" "length m = wb_size b" "wb_content b = take (wb_len b) m"
    using wb_room_mem [OF b(2)] by blast
  have fits: "wb_len b + length s \<le> wb_size b" using b(2) by (simp add: wb_room_def)
  note st = wb_store_room [OF b(2) fits m(1)]
  note fin = wb_room_finish [OF st(2) order_refl st(3)]
  have "take (wb_len b + length s) (overwrite m (wb_len b) s) = wb_content buf @ s"
    using m(2, 3) b(3) fits by (simp add: overwrite_def)
  with b(1) st fin show ?thesis by (simp add: WriteBytes_def)
qed

lemma WriteByte_WriteBytes: "WriteByte h buf v = WriteBytes h buf [v]"
  by (simp add: WriteByte_def WriteBytes_def)

lemma overwrite_gap:
  assumes "pos \<le> n" "n + length s \<le> length m"
  shows "take (n + length s) (overwrite (overwrite m (pos + length s) (take (n - pos) (drop pos m))) pos s) =
    take pos m @ s @ take (n - pos) (drop pos m)"
proof -
  define r where "r = take (n - pos) (drop pos m)"
  have r: "length r = n - pos" using assms by (simp add: r_def)
  then have "overwrite (overwrite m (pos + length s) r) pos s = take pos m @ s @ r @ drop (n + length s) m"
    using assms by (simp add: overwrite_def add.commute)
  then show ?thesis using assms r by (simp add: r_def [symmetric])
qed

lemma InsertBytes_inserts:
  assumes "heap_ok h" "wb_inv buf" "pos \<le> length (wb_content buf)" "length (wb_content buf) + length s \<le> wb_limit"
  shows "\<exists>buf'. InsertBytes h buf pos s = Returned buf' \<and> wb_inv buf' \<and>
    wb_content buf' = take pos (wb_content buf) @ s @ drop pos (wb_content buf)"
proof -
  let ?i = "initialised buf"
  note i = wb_inv_initialised [OF assms(2)]
  obtain b where b: "GrowBuffer h ?i (length s) = Returned b" "wb_room b (length s)" "wb_content b = wb_content buf"
      "wb_len b = wb_len buf"
    using GrowBuffer_room [OF assms(1), of ?i "length s"] i assms length_wb_content [OF assms(2)] by metis
  obtain m where m: "wb_mem b = Some m" "length m = wb_size b" "wb_content b = take (wb_len b) m"
    using wb_room_mem [OF b(2)] by blast
  have fits: "wb_len b + length s \<le> wb_size b" using b(2) by (simp add: wb_room_def)
  have pos: "pos \<le> wb_len b" using assms(3) length_wb_content [OF assms(2)] b(4) by simp
  let ?r = "take (wb_len b - pos) (drop pos m)"
  have r: "length ?r = wb_len b - pos" using m(2) fits by simp
  note mv = wb_store_room [OF b(2) _ m(1), of "pos + length s" ?r]
  have mvf: "pos + length s + length ?r \<le> wb_size b" using fits pos r by simp
  let ?b = "set_mem (overwrite m (pos + length s) ?r) b"
  note mv = mv [OF mvf]
  have f: "pos + length s \<le> wb_size ?b" using mv(5) fits pos by simp
  note st = wb_store_room [OF mv(2) f mv(3)]
  note fin = wb_room_finish [OF st(2) order_refl st(3)]
  have "load_n m pos (wb_len b - pos) (wb_store b (pos + length s)) = Returned ?b"
    using mv(1) m(2) fits pos by (simp add: load_n_in)
  then have move: "wb_memmove b (pos + length s) pos (wb_len b - pos) = Returned ?b" using m(1) by (simp add: wb_memmove_def)
  have c: "take (wb_len b + length s) (overwrite (overwrite m (pos + length s) ?r) pos s) =
      take pos (wb_content buf) @ s @ drop pos (wb_content buf)"
    using m(2, 3) b(3) fits pos r by (simp add: overwrite_gap drop_take)
  show ?thesis
    using b(1) i pos b(4) move st mv(4) fin c by (simp add: InsertBytes_def Let_def)
qed

lemma OverWriteBytes_overwrites:
  assumes "heap_ok h" "wb_inv buf" "pos \<le> length (wb_content buf)" "pos + length s \<le> wb_limit" "length (wb_content buf) \<le> wb_limit"
  shows "\<exists>buf'. OverWriteBytes h buf pos s = Returned buf' \<and> wb_inv buf' \<and>
    wb_content buf' = take pos (wb_content buf) @ s @ drop (pos + length s) (wb_content buf)"
proof -
  let ?i = "initialised buf" and ?g = "pos + length s - wb_len buf"
  note i = wb_inv_initialised [OF assms(2)]
  have len: "length (wb_content buf) = wb_len buf" using assms(2) by (rule length_wb_content)
  have "wb_len ?i + ?g \<le> wb_limit" using i assms(4, 5) len by auto
  then obtain b where b: "GrowBuffer h ?i ?g = Returned b" "wb_room b ?g" "wb_content b = wb_content buf" "wb_len b = wb_len buf"
    using GrowBuffer_room [OF assms(1), of ?i ?g] i by metis
  obtain m where m: "wb_mem b = Some m" "length m = wb_size b" "wb_content b = take (wb_len b) m"
    using wb_room_mem [OF b(2)] by blast
  have fits: "wb_len b + ?g \<le> wb_size b" using b(2) by (simp add: wb_room_def)
  then have "pos + length s \<le> wb_size b" using b(4) by simp
  note st = wb_store_room [OF b(2) this m(1)]
  note fin = wb_room_finish [OF st(2) order_refl st(3)]
  have "take (wb_len b + ?g) (overwrite m pos s) = take pos (wb_content buf) @ s @ drop (pos + length s) (wb_content buf)"
    using m(2, 3) b(3, 4) fits assms(3) len
    by (cases "pos + length s \<le> wb_len b") (simp_all add: overwrite_def drop_take min_absorb1 min_absorb2)
  with b(1, 4) i st fin assms(3) len show ?thesis by (simp add: OverWriteBytes_def Let_def)
qed

text \<open>
  A deletion closes the gap when the octets behind it are not more than the gap; otherwise the
  blocks of its \<open>memcpy\<close> overlap.
\<close>

lemma DeleteBytes_deletes:
  assumes "wb_inv buf" "pos + nb \<le> length (wb_content buf)"
  shows "if length (wb_content buf) \<le> pos + nb + nb
    then \<exists>buf'. DeleteBytes buf pos nb = Returned buf' \<and> wb_inv buf' \<and>
      wb_content buf' = take pos (wb_content buf) @ drop (pos + nb) (wb_content buf)
    else DeleteBytes buf pos nb = Fault"
proof -
  let ?b = "initialised buf" and ?n = "wb_len buf - (pos + nb)"
  note i = wb_inv_initialised [OF assms(1)]
  have len: "length (wb_content buf) = wb_len buf" using assms(1) by (rule length_wb_content)
  have room: "wb_room ?b 0" using i by (auto simp: wb_room_def wb_inv_def)
  obtain m where m: "wb_mem ?b = Some m" "length m = wb_size ?b" "wb_content ?b = take (wb_len ?b) m"
    using wb_room_mem [OF room] by blast
  have le: "wb_len buf \<le> length m" using m(2) i by (auto simp: wb_inv_def)
  let ?r = "take ?n (drop (pos + nb) m)"
  have r: "length ?r = ?n" using le by simp
  have "pos + length ?r \<le> wb_size ?b" using r le m(2) assms(2) len by simp
  note st = wb_store_room [OF room this m(1)]
  have inv: "wb_inv (set_mem (overwrite m pos ?r) ?b\<lparr>wb_len := wb_len buf - nb\<rparr>)"
    "wb_content (set_mem (overwrite m pos ?r) ?b\<lparr>wb_len := wb_len buf - nb\<rparr>) = take (wb_len buf - nb) (overwrite m pos ?r)"
    using st(2, 3, 4) i by (auto simp: wb_room_def wb_inv_def wb_content_def wb_mem_def split: wb_ptr.splits)
  have "take (wb_len buf - nb) (overwrite m pos ?r) = take pos (wb_content buf) @ drop (pos + nb) (wb_content buf)"
    using m(3) i le r assms(2) len by (auto simp: overwrite_def drop_take add.commute min_def intro: arg_cong [where f = "\<lambda>n. take n m"])
  with inv st(1, 4) i assms(2) len m(1) le show ?thesis
    by (auto simp: DeleteBytes_def Let_def wb_memcpy_def wb_memmove_def load_n_in)
qed

section \<open>Buffers that only grow at their end\<close>

locale append_buffer =
  fixes ok :: "'h \<Rightarrow> bool" and inv :: "'b \<Rightarrow> bool" and content :: "'b \<Rightarrow> bytes" and limit :: nat
    and put :: "'h \<Rightarrow> 'b \<Rightarrow> bytes \<Rightarrow> 'b outcome"
  assumes put_appends: "ok h \<Longrightarrow> inv b \<Longrightarrow> length (content b) + length s \<le> limit \<Longrightarrow>
    \<exists>b'. put h b s = Returned b' \<and> inv b' \<and> content b' = content b @ s"
begin

fun put_all :: "'h \<Rightarrow> 'b \<Rightarrow> bytes list \<Rightarrow> 'b outcome" where
  "put_all h b [] = Returned b"
| "put_all h b (s # ss) = run (put h b s) (\<lambda>b. put_all h b ss)"

lemma put_obtain:
  assumes "ok h" "inv b" "length (content b) + length s \<le> limit"
  obtains b' where "put h b s = Returned b'" "inv b'" "content b' = content b @ s"
  using put_appends [OF assms] by blast

lemma put_all_appends:
  assumes "ok h" "inv b" "length (content b) + length (concat ss) \<le> limit"
  shows "\<exists>b'. put_all h b ss = Returned b' \<and> inv b' \<and> content b' = content b @ concat ss"
  using assms
proof (induction ss arbitrary: b)
  case Nil
  then show ?case by simp
next
  case (Cons s ss)
  then obtain b' where "put h b s = Returned b'" "inv b'" "content b' = content b @ s"
    using put_obtain [of h b s] by auto
  with Cons.IH [of b'] Cons.prems show ?case by auto
qed

end

interpretation wb: append_buffer heap_ok wb_inv wb_content wb_limit WriteBytes
  by unfold_locales (rule WriteBytes_appends)

section \<open>Any sequence of operations\<close>

datatype wb_op = Put bytes | PutEsc byte | Insert nat bytes | OverWrite nat bytes | Free

fun wb_do :: "heap \<Rightarrow> wb_op \<Rightarrow> WriteBuffer \<Rightarrow> WriteBuffer outcome" where
  "wb_do h (Put s) buf = WriteBytes h buf s"
| "wb_do h (PutEsc v) buf = WriteEscByte h buf v"
| "wb_do h (Insert pos s) buf = InsertBytes h buf pos s"
| "wb_do h (OverWrite pos s) buf = OverWriteBytes h buf pos s"
| "wb_do h Free buf = Returned (FreeBuffer buf)"

fun wb_run :: "heap \<Rightarrow> wb_op list \<Rightarrow> WriteBuffer \<Rightarrow> WriteBuffer outcome" where
  "wb_run h [] buf = Returned buf"
| "wb_run h (a # ops) buf = run (wb_do h a buf) (wb_run h ops)"

text \<open>The operations on lists, and the positions and lengths they admit.\<close>

fun list_do :: "wb_op \<Rightarrow> bytes \<Rightarrow> bytes" where
  "list_do (Put s) c = c @ s"
| "list_do (PutEsc v) c = c @ (if v = 255 then [255, 255] else [v])"
| "list_do (Insert pos s) c = take pos c @ s @ drop pos c"
| "list_do (OverWrite pos s) c = take pos c @ s @ drop (pos + length s) c"
| "list_do Free c = []"

fun op_fits :: "wb_op \<Rightarrow> bytes \<Rightarrow> bool" where
  "op_fits (Insert pos s) c \<longleftrightarrow> pos \<le> length c \<and> length c + length s \<le> wb_limit"
| "op_fits (OverWrite pos s) c \<longleftrightarrow> pos \<le> length c \<and> length c \<le> wb_limit \<and> pos + length s \<le> wb_limit"
| "op_fits a c \<longleftrightarrow> length (list_do a c) \<le> wb_limit"

fun ops_fit :: "wb_op list \<Rightarrow> bytes \<Rightarrow> bool" where
  "ops_fit [] c = True"
| "ops_fit (a # ops) c \<longleftrightarrow> op_fits a c \<and> ops_fit ops (list_do a c)"

lemma WriteEscByte_appends:
  assumes "heap_ok h" "wb_inv buf" "length (wb_content buf) + length (if v = 255 then [255, 255] else [v]) \<le> wb_limit"
  shows "\<exists>buf'. WriteEscByte h buf v = Returned buf' \<and> wb_inv buf' \<and>
    wb_content buf' = wb_content buf @ (if v = 255 then [255, 255] else [v])"
  using wb.put_all_appends [OF assms(1, 2), of "if v = 255 then [[255], [255]] else [[v]]"] assms(3)
  by (auto simp: WriteEscByte_def WriteByte_WriteBytes split: if_splits)

lemma wb_do_refines:
  assumes "heap_ok h" "wb_inv buf" "op_fits a (wb_content buf)"
  shows "\<exists>buf'. wb_do h a buf = Returned buf' \<and> wb_inv buf' \<and> wb_content buf' = list_do a (wb_content buf)"
  using assms WriteBytes_appends [OF assms(1, 2)] WriteEscByte_appends [OF assms(1, 2)]
    InsertBytes_inserts [OF assms(1, 2)] OverWriteBytes_overwrites [OF assms(1, 2)] wb_inv_FreeBuffer [OF assms(2)]
  by (cases a) auto


definition sample_heap :: heap where
  "sample_heap = \<lparr>mem_alloc = (\<lambda>n. Some (replicate n 7)), mem_realloc = (\<lambda>m n. Some (take n (m @ replicate n 7))), mem_calloc = (\<lambda>n. True)\<rparr>"

definition new_buffer :: WriteBuffer where
  "new_buffer = \<lparr>wb_buffer = WB_NULL, wb_len = 0, wb_size = 0, prealloc = replicate 16 0\<rparr>"

lemma sample_heap_ok: "heap_ok sample_heap"
  by (simp add: heap_ok_def sample_heap_def min_def)

lemma new_buffer_inv [simp]: "wb_inv new_buffer" "wb_content new_buffer = []"
  by (simp_all add: wb_inv_def new_buffer_def wb_content_def wb_mem_def WRITEBUFFER_PREALLOCATED_SIZE_def)


end
