(* ===== verification/Telnet_History.thy ===== *)
theory Telnet_History
  imports Telnet_Buffers
begin

text \<open>
  The history of the line editor (\<open>src/luafwk/shell/telnet/history.c\<close> and the entry points of
  \<open>teel.c\<close>): a ring of the last lines, overwritten from the oldest on, read by its distance from
  the newest. Shown: after any sequence of additions the ring holds exactly the newest lines of the
  log without its immediate repetitions; changing the size of a ring that is in use loses them.
\<close>

section \<open>The ring\<close>

record HistoryEntry =
  he_buf :: bytes
  he_len :: nat

record History =
  h_list :: "HistoryEntry option list option"
  h_size :: nat
  h_widx :: nat
  h_idx :: nat
  h_curline :: "bytes option"
  h_curlen :: nat
  h_curpos :: nat

definition slot :: "History \<Rightarrow> nat \<Rightarrow> (HistoryEntry option \<Rightarrow> 'a outcome) \<Rightarrow> 'a outcome" where
  "slot h i k = need (h_list h) (\<lambda>l. if i < length l then k (l ! i) else Fault)"

definition set_slot :: "nat \<Rightarrow> HistoryEntry \<Rightarrow> History \<Rightarrow> History" where
  "set_slot i e h = h\<lparr>h_list := map_option (\<lambda>l. l[i := Some e]) (h_list h)\<rparr>"

text \<open>The comparison with the last entry, which is not added a second time.\<close>

definition same_as_last :: "History \<Rightarrow> bytes \<Rightarrow> nat \<Rightarrow> (bool \<Rightarrow> 'a outcome) \<Rightarrow> 'a outcome" where
  "same_as_last h line len k =
     (let prev = (h_widx h + h_size h - 1) mod h_size h in
      slot h prev (\<lambda>e. case e of
        None \<Rightarrow> k False
      | Some e \<Rightarrow> if len = he_len e then load_n line 0 len (\<lambda>a. load_n (he_buf e) 0 len (\<lambda>b. k (a = b))) else k False))"

definition tl_history_addhistory :: "heap \<Rightarrow> History \<Rightarrow> bytes \<Rightarrow> nat \<Rightarrow> History outcome" where
  "tl_history_addhistory mem h line len =
     (if h_size h = 0 then Returned h
      else same_as_last h line len (\<lambda>same.
        if same then Returned h
        else
          let idx = h_widx h in
          slot h idx (\<lambda>_.
            need (mem_alloc mem len) (\<lambda>block.
            load_n line 0 len (\<lambda>bs.
            store_at block 0 bs (\<lambda>block.
              Returned ((set_slot idx \<lparr>he_buf = block, he_len = len\<rparr> h)\<lparr>h_widx := (idx + 1) mod h_size h\<rparr>)))))))"

fun copy_entries :: "History \<Rightarrow> nat \<Rightarrow> nat list \<Rightarrow> HistoryEntry option list \<Rightarrow> HistoryEntry option list outcome" where
  "copy_entries h s [] p = Returned p"
| "copy_entries h s (i # is) p = slot h ((h_widx h + h_size h - i) mod h_size h) (\<lambda>e. copy_entries h s is (p[s - i - 1 := e]))"

definition tl_history_sethistorysize :: "heap \<Rightarrow> History \<Rightarrow> int \<Rightarrow> History outcome" where
  "tl_history_sethistorysize mem h sz =
     (if sz \<le> 0 then Returned h
      else
        let n = nat sz; s = min n (h_size h);
            renewed = (\<lambda>p. h\<lparr>h_size := n, h_idx := 0, h_widx := 0, h_list := p\<rparr>) in
        if mem_calloc mem n then run (copy_entries h s [0..<s] (replicate n None)) (\<lambda>p. Returned (renewed (Some p)))
        else if s = 0 then Returned (renewed None)
        else Fault)"

definition tl_history_getentry :: "History \<Rightarrow> int \<Rightarrow> HistoryEntry option outcome" where
  "tl_history_getentry h pos =
     (if h_list h = None then Returned None
      else if pos > int (h_size h) \<or> pos \<le> 0 then Returned None
      else slot h ((h_widx h + h_size h - nat pos) mod h_size h) Returned)"

definition tl_history_resetcontext :: "History \<Rightarrow> History" where
  "tl_history_resetcontext h =
     (if h_curline h \<noteq> None then h\<lparr>h_curline := None, h_curlen := 0, h_curpos := 0\<rparr> else h)\<lparr>h_idx := 0\<rparr>"

section \<open>The entry points of the editor library\<close>

definition teel_sethistorysize :: "heap \<Rightarrow> History \<Rightarrow> int \<Rightarrow> (int \<times> History) outcome" where
  "teel_sethistorysize mem h sz = run (tl_history_sethistorysize mem h sz) (\<lambda>h. Returned (0, h))"

text \<open>A line without its trailing zero and line end.\<close>

definition trimmed_len :: "bytes \<Rightarrow> nat \<Rightarrow> nat outcome" where
  "trimmed_len line len =
     run (if 1 \<le> len then load line (len - 1) (\<lambda>c. Returned (if c = 0 then len - 1 else len)) else Returned len) (\<lambda>len.
       if 2 \<le> len then load line (len - 2) (\<lambda>a. load line (len - 1) (\<lambda>b. Returned (if a = 13 \<and> b = 10 then len - 2 else len)))
       else Returned len)"

definition teel_addhistory :: "heap \<Rightarrow> History \<Rightarrow> bytes \<Rightarrow> nat \<Rightarrow> (int \<times> History) outcome" where
  "teel_addhistory mem h line len =
     (let h = h\<lparr>h_idx := 0\<rparr> in
      run (trimmed_len line len) (\<lambda>len.
        if len = 0 then Returned (- 1, h)
        else run (tl_history_addhistory mem h line len) (\<lambda>h. Returned (0, h))))"

section \<open>The log behind the ring\<close>

text \<open>
  \<open>holds h xs\<close>: \<open>h\<close> is a ring in use and its entries, from the newest, are the first of \<open>xs\<close>.
\<close>

definition entry :: "bytes \<Rightarrow> HistoryEntry" where
  "entry line = \<lparr>he_buf = line, he_len = length line\<rparr>"

definition ring :: "History \<Rightarrow> bool" where
  "ring h \<longleftrightarrow> 0 < h_size h \<and> h_widx h < h_size h \<and> (\<exists>l. h_list h = Some l \<and> length l = h_size h)"

definition recent :: "History \<Rightarrow> nat \<Rightarrow> HistoryEntry option" where
  "recent h pos = the (h_list h) ! ((h_widx h + h_size h - pos) mod h_size h)"

definition holds :: "History \<Rightarrow> bytes list \<Rightarrow> bool" where
  "holds h xs \<longleftrightarrow> ring h \<and>
     (\<forall>pos. 0 < pos \<and> pos \<le> h_size h \<longrightarrow> recent h pos = (if pos \<le> length xs then Some (entry (xs ! (pos - 1))) else None))"

lemma slot_ring: "ring h \<Longrightarrow> i < h_size h \<Longrightarrow> slot h i k = k (the (h_list h) ! i)"
  by (auto simp: ring_def slot_def)

lemma getentry_holds:
  assumes "holds h xs"
  shows "tl_history_getentry h pos =
    Returned (if 0 < pos \<and> pos \<le> int (h_size h) \<and> pos \<le> int (length xs) then Some (entry (xs ! (nat pos - 1))) else None)"
proof (cases "0 < pos \<and> pos \<le> int (h_size h)")
  case True
  have r: "ring h" using assms by (simp add: holds_def)
  then have "tl_history_getentry h pos = Returned (recent h (nat pos))"
    using True by (auto simp: tl_history_getentry_def slot_ring recent_def ring_def)
  moreover have "0 < nat pos" "nat pos \<le> h_size h" using True by linarith+
  ultimately show ?thesis using assms True by (auto simp: holds_def nat_le_iff)
next
  case False
  then show ?thesis by (auto simp: tl_history_getentry_def)
qed

text \<open>What the next line does to the log: an immediate repetition is left out.\<close>

definition logged :: "bytes \<Rightarrow> bytes list \<Rightarrow> bytes list" where
  "logged line xs = (if xs \<noteq> [] \<and> hd xs = line then xs else line # xs)"

lemma same_as_last_holds:
  assumes "holds h xs"
  shows "same_as_last h line (length line) k = k (xs \<noteq> [] \<and> hd xs = line)"
proof -
  have r: "ring h" using assms by (simp add: holds_def)
  then have "recent h 1 = (if xs = [] then None else Some (entry (hd xs)))"
    using assms by (auto simp: holds_def ring_def hd_conv_nth neq_Nil_conv)
  moreover have "(h_widx h + h_size h - 1) mod h_size h < h_size h" using r by (simp add: ring_def)
  ultimately show ?thesis
    using r by (auto simp: same_as_last_def Let_def slot_ring recent_def entry_def load_n_in intro: arg_cong [where f = k])
qed

text \<open>The positions before the write index move by one when it advances.\<close>

lemma ring_index_step:
  assumes "w < n" "0 < pos" "pos \<le> (n::nat)"
  shows "((w + 1) mod n + n - pos) mod n = (if pos = 1 then w else (w + n - (pos - 1)) mod n)"
    and "1 < pos \<Longrightarrow> (w + n - (pos - 1)) mod n \<noteq> w"
proof -
  show "((w + 1) mod n + n - pos) mod n = (if pos = 1 then w else (w + n - (pos - 1)) mod n)"
    using assms by (cases "w + 1 = n") (auto simp: mod_if)
  show "1 < pos \<Longrightarrow> (w + n - (pos - 1)) mod n \<noteq> w"
    using assms by (auto simp: mod_if)
qed

lemma addhistory_holds:
  assumes "holds h xs" "heap_ok mem"
  shows "\<exists>h'. tl_history_addhistory mem h line (length line) = Returned h' \<and> holds h' (logged line xs) \<and> h_size h' = h_size h"
proof (cases "xs \<noteq> [] \<and> hd xs = line")
  case True
  moreover have "ring h" using assms(1) by (simp add: holds_def)
  ultimately have "tl_history_addhistory mem h line (length line) = Returned h"
    by (simp add: tl_history_addhistory_def same_as_last_holds [OF assms(1)] ring_def)
  with True assms(1) show ?thesis by (simp add: logged_def)
next
  case False
  have r: "ring h" using assms(1) by (simp add: holds_def)
  then obtain l where l: "h_list h = Some l" "length l = h_size h" "h_widx h < h_size h" "0 < h_size h" by (auto simp: ring_def)
  from assms(2) obtain b where b: "mem_alloc mem (length line) = Some b" "length b = length line"
    unfolding heap_ok_def by blast
  let ?h = "h\<lparr>h_list := Some (l[h_widx h := Some (entry line)]), h_widx := (h_widx h + 1) mod h_size h\<rparr>"
  have "tl_history_addhistory mem h line (length line) = Returned ?h"
    using False r l b by (auto simp: tl_history_addhistory_def same_as_last_holds [OF assms(1)] Let_def slot_ring load_n_in
        store_at_in overwrite_def set_slot_def entry_def)
  moreover have "recent ?h pos = (if pos \<le> length (line # xs) then Some (entry ((line # xs) ! (pos - 1))) else None)"
    if "0 < pos" "pos \<le> h_size h" for pos
  proof (cases "pos = 1")
    case True
    then show ?thesis using l ring_index_step(1) [OF l(3) that] by (simp add: recent_def)
  next
    case p: False
    then have i: "recent ?h pos = recent h (pos - 1)"
      using l ring_index_step [OF l(3) that] that by (simp add: recent_def)
    have "0 < pos - 1" "pos - 1 \<le> h_size h" using p that by simp_all
    then have "recent h (pos - 1) = (if pos - 1 \<le> length xs then Some (entry (xs ! (pos - 1 - 1))) else None)"
      using assms(1) unfolding holds_def by blast
    with i p that show ?thesis by (cases pos) (auto simp: nth_Cons')
  qed
  ultimately show ?thesis
    using False l by (auto simp: holds_def ring_def logged_def)
qed

lemma sethistorysize_first:
  assumes "heap_ok mem" "0 < sz" "h_size h = 0"
  shows "\<exists>h'. tl_history_sethistorysize mem h sz = Returned h' \<and> holds h' [] \<and> h_size h' = nat sz"
  using assms by (auto simp: tl_history_sethistorysize_def heap_ok_def holds_def ring_def recent_def Let_def)

fun add_all :: "heap \<Rightarrow> bytes list \<Rightarrow> History \<Rightarrow> History outcome" where
  "add_all mem [] h = Returned h"
| "add_all mem (line # ls) h = run (tl_history_addhistory mem h line (length line)) (add_all mem ls)"

lemma add_all_holds:
  assumes "holds h xs" "heap_ok mem"
  shows "\<exists>h'. add_all mem ls h = Returned h' \<and> holds h' (fold logged ls xs) \<and> h_size h' = h_size h"
  using assms(1)
proof (induction ls arbitrary: h xs)
  case Nil
  then show ?case by simp
next
  case (Cons line ls)
  obtain h1 where h1: "tl_history_addhistory mem h line (length line) = Returned h1" "holds h1 (logged line xs)" "h_size h1 = h_size h"
    using addhistory_holds [OF Cons.prems assms(2)] by blast
  from Cons.IH [OF h1(2)] h1(1, 3) show ?case by auto
qed

lemma logged_remdups_adj: "logged line (rev (remdups_adj ls)) = rev (remdups_adj (ls @ [line]))"
proof -
  have "remdups_adj (line # rev ls) = logged line (remdups_adj (rev ls))"
    by (auto simp: remdups_adj_Cons logged_def split: list.splits)
  then show ?thesis by (metis remdups_adj_rev rev.simps(2) rev_rev_ident)
qed

lemma fold_logged: "fold logged ls [] = rev (remdups_adj ls)"
  by (induction ls rule: rev_induct) (simp_all add: logged_remdups_adj)

text \<open>
  C28: a history created with a positive size, to which lines are added, answers at distance \<open>pos\<close>
  the line that is \<open>pos\<close> before the end of the log, as long as the ring reaches that far, and
  nothing otherwise; the log is the lines in order without immediate repetitions.
\<close>

theorem history_refines:
  assumes "heap_ok mem" "0 < sz" "h_size h = 0"
  shows "\<exists>h'. run (tl_history_sethistorysize mem h sz) (add_all mem ls) = Returned h' \<and>
    (\<forall>pos. tl_history_getentry h' pos =
      Returned (if 0 < pos \<and> pos \<le> sz \<and> pos \<le> int (length (remdups_adj ls))
                then Some (entry (rev (remdups_adj ls) ! (nat pos - 1))) else None))"
proof -
  obtain h1 where h1: "tl_history_sethistorysize mem h sz = Returned h1" "holds h1 []" "h_size h1 = nat sz"
    using sethistorysize_first [OF assms] by blast
  obtain h2 where "add_all mem ls h1 = Returned h2" "holds h2 (rev (remdups_adj ls))" "h_size h2 = h_size h1"
    using add_all_holds [OF h1(2) assms(1), of ls] by (auto simp: fold_logged)
  then show ?thesis using h1 assms(2) by (auto simp: getentry_holds)
qed

definition new_history :: History where
  "new_history = \<lparr>h_list = None, h_size = 0, h_widx = 0, h_idx = 0, h_curline = None, h_curlen = 0, h_curpos = 0\<rparr>"

theorem history_refines_witness:
  "\<exists>h'. run (tl_history_sethistorysize sample_heap new_history 2) (add_all sample_heap [[1], [2], [2], [3]]) = Returned h' \<and>
     tl_history_getentry h' 1 = Returned (Some (entry [3])) \<and> tl_history_getentry h' 2 = Returned (Some (entry [2])) \<and>
     tl_history_getentry h' 3 = Returned None"
proof -
  have "h_size new_history = 0" by (simp add: new_history_def)
  with history_refines [OF sample_heap_ok, of 2 new_history "[[1], [2], [2], [3]]"] obtain h' where
    h': "run (tl_history_sethistorysize sample_heap new_history 2) (add_all sample_heap [[1], [2], [2], [3]]) = Returned h'"
      "\<And>pos. tl_history_getentry h' pos = Returned (if 0 < pos \<and> pos \<le> 2 \<and> pos \<le> int (length (remdups_adj [[1], [2], [2], [3 :: byte]]))
        then Some (entry (rev (remdups_adj [[1], [2], [2], [3]]) ! (nat pos - 1))) else None)"
    by auto
  show ?thesis by (rule exI [of _ h']) (simp add: h')
qed

section \<open>Changing the size\<close>

lemma copy_entries_ring:
  assumes "ring h" "\<forall>i \<in> set is. i < s" "s \<le> h_size h" "length p = n" "s \<le> n" "distinct is"
  shows "\<exists>p'. copy_entries h s is p = Returned p' \<and> length p' = n \<and>
    (\<forall>j < n. p' ! j = (if j < s \<and> s - 1 - j \<in> set is then recent h (s - 1 - j) else p ! j))"
  using assms(2, 4, 6)
proof (induction "is" arbitrary: p)
  case Nil
  then show ?case by simp
next
  case (Cons i "is")
  have i: "i < s" and d: "distinct is" "i \<notin> set is" using Cons.prems by simp_all
  have sl: "slot h ((h_widx h + h_size h - i) mod h_size h) k = k (recent h i)" for k :: "HistoryEntry option \<Rightarrow> HistoryEntry option list outcome"
    using assms(1) by (simp add: slot_ring recent_def ring_def)
  obtain p' where p': "copy_entries h s is (p[s - i - 1 := recent h i]) = Returned p'" "length p' = n"
      "\<forall>j < n. p' ! j = (if j < s \<and> s - 1 - j \<in> set is then recent h (s - 1 - j) else p[s - i - 1 := recent h i] ! j)"
    using Cons.IH [of "p[s - i - 1 := recent h i]"] Cons.prems d by auto
  have "p' ! j = (if j < s \<and> s - 1 - j \<in> set (i # is) then recent h (s - 1 - j) else p ! j)" if "j < n" for j
  proof (cases "j = s - i - 1")
    case True
    then show ?thesis using p'(3) that i d Cons.prems(2) by auto
  next
    case False
    then have "\<not> (j < s \<and> s - 1 - j = i)" by auto
    then show ?thesis using p'(3) that False by auto
  qed
  then show ?case using p'(1, 2) sl by auto
qed

text \<open>
  Setting a larger size for a history in use makes its entries unreachable: the newest entry is
  read at the end of the new array, which is empty. Setting the same size again makes the oldest
  entry the newest.
\<close>

theorem history_resize_loses:
  assumes "ring h" "heap_ok mem" "int (h_size h) \<le> sz"
  shows "\<exists>h'. tl_history_sethistorysize mem h sz = Returned h' \<and>
    tl_history_getentry h' 1 = Returned (if int (h_size h) < sz then None else recent h 0) \<and>
    recent h 0 = recent h (h_size h)"
proof -
  let ?s = "h_size h" and ?n = "nat sz"
  have n: "min ?n ?s = ?s" "?s \<le> ?n" "0 < ?s" "0 < sz" using assms(1, 3) by (auto simp: ring_def)
  obtain p where p: "copy_entries h ?s [0..<?s] (replicate ?n None) = Returned p" "length p = ?n"
      "\<forall>j < ?n. p ! j = (if j < ?s \<and> ?s - 1 - j \<in> set [0..<?s] then recent h (?s - 1 - j) else replicate ?n None ! j)"
    using copy_entries_ring [OF assms(1), of "[0..<?s]" ?s "replicate ?n None" ?n] n by auto
  have "mem_calloc mem ?n" using assms(2) by (simp add: heap_ok_def)
  then have "tl_history_sethistorysize mem h sz = Returned (h\<lparr>h_size := ?n, h_idx := 0, h_widx := 0, h_list := Some p\<rparr>)"
    using p(1) n by (simp add: tl_history_sethistorysize_def Let_def)
  moreover have "p ! (?n - 1) = (if int ?s < sz then None else recent h 0)"
    using p(3) n assms(3) by auto
  moreover have "recent h 0 = recent h ?s" using assms(1) by (simp add: recent_def ring_def)
  ultimately show ?thesis
    using n p(2) by (auto simp: tl_history_getentry_def slot_def)
qed

definition sample_history :: History where
  "sample_history = new_history\<lparr>h_list := Some [Some (entry [3]), Some (entry [2])], h_size := 2, h_widx := 1\<rparr>"

theorem history_resize_loses_witness:
  "tl_history_getentry sample_history 1 = Returned (Some (entry [3])) \<and>
   (\<exists>h'. tl_history_sethistorysize sample_heap sample_history 4 = Returned h' \<and> tl_history_getentry h' 1 = Returned None) \<and>
   (\<exists>h'. tl_history_sethistorysize sample_heap sample_history 2 = Returned h' \<and> tl_history_getentry h' 1 = Returned (Some (entry [2])))"
proof -
  have r: "ring sample_history" "h_size sample_history = 2" by (simp_all add: sample_history_def ring_def)
  have "recent sample_history 0 = Some (entry [2])" by (simp add: recent_def sample_history_def)
  moreover have "tl_history_getentry sample_history 1 = Returned (Some (entry [3]))"
    by (simp add: tl_history_getentry_def slot_def sample_history_def)
  ultimately show ?thesis
    using history_resize_loses [OF r(1) sample_heap_ok, of 4] history_resize_loses [OF r(1) sample_heap_ok, of 2] r(2) by auto
qed

end
