(* ===== verification/Telnet_Editor.thy ===== *)
theory Telnet_Editor
  imports Telnet_History
begin

text \<open>
  The line editor of the telnet shell (\<open>src/luafwk/shell/telnet/editor.c\<close>). The edited text is an
  array of screen rows, each a block of \<open>windowwidth\<close> octets with a length; a row that is shorter
  than the width and not the last ends in a line break. A position is \<open>row * windowwidth + column\<close>.
  Every change is also sent to the terminal.

  C's \<open>int\<close> is \<open>int\<close>: texts are taken to be shorter than \<open>2 ^ 31\<close> positions, and blocks are
  granted. Every access to an array is checked. The output buffer is its content; that the buffers
  of \<open>Telnet_Buffers\<close> append is shown there. A plain \<open>char\<close> is signed.
\<close>

section \<open>State\<close>

record Line =
  l_len :: int
  l_buf :: bytes

text \<open>
  \<open>blocks n\<close> is what a new block of \<open>n\<close> octets holds; of the temporary buffer only the size
  matters, as its content does not survive a call.
\<close>

record Editor =
  lines :: "Line option list"
  nbOfLines :: int
  maxNbOfLines :: int
  tempBuf :: int
  cursorpos :: int
  userstartpos :: int
  windowwidth :: int
  windowheight :: int
  editmode :: int
  aoblocation :: int
  aobrow :: int
  aobcol :: int
  blocks :: "nat \<Rightarrow> bytes"

datatype TeelState = CHARACTER_INPUT | HISTORY_BROWSE | EDITLINE_DONE | COMPLETION_DISP

text \<open>
  \<open>acts\<close> is the type of the actions that key sequences are bound to. \<open>autocomplete\<close> is the callback
  of the application: the proposals for the text before the cursor.
\<close>

record 'acts KeySeqAction =
  seq :: bytes
  seqsize :: nat
  func :: 'acts

record 'acts TeelInstance =
  ti_map :: "'acts KeySeqAction list"
  nbofseq :: nat
  temp :: bytes
  posinseq :: int
  currseq :: int
  editor :: Editor
  ti_output :: bytes
  history :: History
  ti_state :: TeelState
  previousline :: "bytes option"
  previouslinesize :: int
  autocomplete :: "(bytes \<Rightarrow> bytes list) option"
  autocompletestate :: int

definition DEFAULT_MAX_NB_OF_LINES :: int where "DEFAULT_MAX_NB_OF_LINES = 2"

definition elem_at :: "'e list \<Rightarrow> int \<Rightarrow> ('e \<Rightarrow> 'b outcome) \<Rightarrow> 'b outcome" where
  "elem_at xs i k = (if 0 \<le> i \<and> nat i < length xs then k (xs ! nat i) else Fault)"

abbreviation width :: "'acts TeelInstance \<Rightarrow> int" where
  "width ti \<equiv> windowwidth (editor ti)"

definition with_editor :: "(Editor \<Rightarrow> Editor) \<Rightarrow> 'acts TeelInstance \<Rightarrow> 'acts TeelInstance" where
  "with_editor f ti = ti\<lparr>editor := f (editor ti)\<rparr>"

section \<open>Output\<close>

definition tl_putchars :: "bytes \<Rightarrow> 'acts TeelInstance \<Rightarrow> 'acts TeelInstance" where
  "tl_putchars s ti = ti\<lparr>ti_output := ti_output ti @ s\<rparr>"

definition unctl :: "byte \<Rightarrow> byte" where
  "unctl c = (if c = 0 \<or> sint c < 32 then c + 64 else c)"

definition tl_putchars_unescaped :: "bytes \<Rightarrow> 'acts TeelInstance \<Rightarrow> 'acts TeelInstance" where
  "tl_putchars_unescaped s ti = tl_putchars (map unctl s) ti"

function digits :: "nat \<Rightarrow> bytes" where
  "digits n = (if n < 10 then [of_nat (48 + n)] else digits (n div 10) @ [of_nat (48 + n mod 10)])"
  by pat_completeness auto
termination by (relation "measure id") auto

declare digits.simps [simp del]

definition decimal :: "int \<Rightarrow> bytes" where
  "decimal i = (if i < 0 then 0x2d # digits (nat (- i)) else digits (nat i))"

text \<open>\<open>%d\<close> is replaced by the next argument; a number of 8 or more characters fails the assertion.\<close>

fun putf :: "bytes \<Rightarrow> int list \<Rightarrow> bytes \<Rightarrow> bytes outcome" where
  "putf [] as r = Returned r"
| "putf (c # f) as r =
     (if c = 0x25 \<and> f \<noteq> [] \<and> hd f = 0x64 then
        case as of
          [] \<Rightarrow> Fault
        | a # as \<Rightarrow> if length (decimal a) < 8 then putf (tl f) as (r @ decimal a) else Fault
      else putf f as (r @ [c]))"

definition tl_putcharsf :: "bytes \<Rightarrow> int list \<Rightarrow> 'acts TeelInstance \<Rightarrow> 'acts TeelInstance outcome" where
  "tl_putcharsf f as ti = run (putf f as []) (\<lambda>s. Returned (tl_putchars s ti))"

text \<open>The control sequences of the terminal that the editor uses.\<close>

definition DING :: bytes where "DING = [7]"
definition BS :: bytes where "BS = [8]"
definition CRLF :: bytes where "CRLF = [13, 10]"
definition CSI :: bytes where "CSI = [0x1b, 0x5b]"
definition CSI_n :: "byte \<Rightarrow> bytes" where "CSI_n c = [0x1b, 0x5b, 0x25, 0x64, c]"

section \<open>Rows\<close>

definition allocline :: "Editor \<Rightarrow> Line" where
  "allocline ed = \<lparr>l_len = 0, l_buf = blocks ed (nat (windowwidth ed))\<rparr>"

definition checkmaxlines :: "int \<Rightarrow> Editor \<Rightarrow> Editor" where
  "checkmaxlines nb ed =
     (if nbOfLines ed + nb > maxNbOfLines ed then
        let nb = nb + DEFAULT_MAX_NB_OF_LINES in
        ed\<lparr>maxNbOfLines := maxNbOfLines ed + nb, lines := lines ed @ replicate (nat nb) None\<rparr>
      else ed)"

definition set_line :: "int \<Rightarrow> Line \<Rightarrow> 'acts TeelInstance \<Rightarrow> 'acts TeelInstance" where
  "set_line row l = with_editor (\<lambda>ed. ed\<lparr>lines := (lines ed)[nat row := Some l]\<rparr>)"

definition checkline :: "int \<Rightarrow> 'acts TeelInstance \<Rightarrow> (Line \<times> 'acts TeelInstance) outcome" where
  "checkline row ti =
     (let ti = (if row \<ge> nbOfLines (editor ti)
                then with_editor (\<lambda>ed. (checkmaxlines (row - nbOfLines ed + 1) ed)\<lparr>nbOfLines := row + 1\<rparr>) ti
                else ti) in
      elem_at (lines (editor ti)) row (\<lambda>l.
        case l of
          None \<Rightarrow> let l = allocline (editor ti) in Returned (l, set_line row l ti)
        | Some l \<Rightarrow> Returned (l, ti)))"

text \<open>The rows between \<open>from\<close> and the last move down by \<open>nb\<close>, whose places are filled with new rows.\<close>

definition insertbuflines :: "int \<Rightarrow> int \<Rightarrow> Editor \<Rightarrow> Editor outcome" where
  "insertbuflines from nb ed =
     (let ed = checkmaxlines nb ed; n = nbOfLines ed in
      if 0 \<le> from \<and> from \<le> n \<and> 0 \<le> nb \<and> nat (n + nb) \<le> length (lines ed) then
        Returned (ed\<lparr>lines := take (nat from) (lines ed) @ replicate (nat nb) (Some (allocline ed)) @
                       take (nat (n - from)) (drop (nat from) (lines ed)) @ drop (nat (n + nb)) (lines ed),
                     nbOfLines := n + nb\<rparr>)
      else Fault)"

definition deletebufline :: "int \<Rightarrow> int \<Rightarrow> Editor \<Rightarrow> Editor outcome" where
  "deletebufline from nb ed =
     (let n = nbOfLines ed; nb = min nb (n - from) in
      if nb \<le> 0 then Returned ed
      else if 0 \<le> from \<and> nat n \<le> length (lines ed) then
        Returned (ed\<lparr>lines := take (nat from) (lines ed) @ take (nat (n - from - nb)) (drop (nat (from + nb)) (lines ed)) @
                       replicate (nat nb) None @ drop (nat n) (lines ed),
                     nbOfLines := n - nb\<rparr>)
      else Fault)"

definition in_editor :: "(Editor \<Rightarrow> Editor outcome) \<Rightarrow> 'acts TeelInstance \<Rightarrow> 'acts TeelInstance outcome" where
  "in_editor f ti = run (f (editor ti)) (\<lambda>ed. Returned (ti\<lparr>editor := ed\<rparr>))"

definition tl_editor_init :: "'acts TeelInstance \<Rightarrow> 'acts TeelInstance" where
  "tl_editor_init = with_editor (\<lambda>ed.
     ed\<lparr>maxNbOfLines := DEFAULT_MAX_NB_OF_LINES,
        lines := (replicate (nat DEFAULT_MAX_NB_OF_LINES) None)[0 := Some (allocline ed)],
        nbOfLines := 1, tempBuf := windowwidth ed\<rparr>)"

section \<open>Positions\<close>

text \<open>Row and column, by a division that truncates as C's.\<close>

definition getcoordsfrompos :: "'acts TeelInstance \<Rightarrow> int \<Rightarrow> int \<times> int" where
  "getcoordsfrompos ti pos =
     (let w = width ti; q = (if 0 \<le> pos then pos div w else - ((- pos) div w)) in (q, pos - q * w))"

definition getposfromcoords :: "'acts TeelInstance \<Rightarrow> int \<Rightarrow> int \<Rightarrow> int outcome" where
  "getposfromcoords ti row col = (let pos = width ti * row + col in if pos \<ge> 0 then Returned pos else Fault)"

text \<open>The row at an index; a null pointer is not read.\<close>

definition line_at :: "'acts TeelInstance \<Rightarrow> int \<Rightarrow> (Line \<Rightarrow> 'b outcome) \<Rightarrow> 'b outcome" where
  "line_at ti row k = elem_at (lines (editor ti)) row (\<lambda>l. need l k)"

definition lastcharpos :: "'acts TeelInstance \<Rightarrow> int outcome" where
  "lastcharpos ti =
     (let n = nbOfLines (editor ti) in
      if n = 0 then Returned 0 else line_at ti (n - 1) (\<lambda>l. Returned ((n - 1) * width ti + l_len l)))"

definition movedisplaycursor :: "int \<Rightarrow> int \<Rightarrow> 'acts TeelInstance \<Rightarrow> 'acts TeelInstance outcome" where
  "movedisplaycursor hoffset voffset ti =
     run (if hoffset < 0 then
            if hoffset > - 4 then Returned (tl_putchars (concat (replicate (nat (- hoffset)) BS)) ti)
            else tl_putcharsf (CSI_n 0x44) [- hoffset] ti
          else if hoffset > 0 then
            if hoffset = 1 then Returned (tl_putchars (CSI @ [0x43]) ti) else tl_putcharsf (CSI_n 0x43) [hoffset] ti
          else Returned ti) (\<lambda>ti.
     if voffset < 0 then
       if voffset = - 1 then Returned (tl_putchars (CSI @ [0x41]) ti) else tl_putcharsf (CSI_n 0x41) [- voffset] ti
     else if voffset > 0 then
       if voffset = 1 then Returned (tl_putchars (CSI @ [0x42]) ti) else tl_putcharsf (CSI_n 0x42) [voffset] ti
     else Returned ti)"

definition set_cursor :: "int \<Rightarrow> 'acts TeelInstance \<Rightarrow> 'acts TeelInstance" where
  "set_cursor pos = with_editor (\<lambda>ed. ed\<lparr>cursorpos := pos\<rparr>)"

definition setcursorpos :: "int \<Rightarrow> 'acts TeelInstance \<Rightarrow> 'acts TeelInstance outcome" where
  "setcursorpos pos ti =
     (let c = getcoordsfrompos ti (cursorpos (editor ti)); p = getcoordsfrompos ti pos in
      run (movedisplaycursor (snd p - snd c) (fst p - fst c) ti) (\<lambda>ti. Returned (set_cursor pos ti)))"

text \<open>The state of both loops: characters still to move, row, column and position reached.\<close>

definition forward :: "'acts TeelInstance \<Rightarrow> int \<times> int \<times> int \<times> int \<times> bool \<Rightarrow> (int \<times> int \<times> int \<times> int \<times> bool) outcome" where
  "forward ti = (\<lambda>(nb, r, c, to, stop).
     line_at ti r (\<lambda>l.
       let teol = l_len l - c in
       if nb > teol then
         if r + 1 \<ge> nbOfLines (editor ti) then Returned (nb - teol, r + 1, c, to + teol, True)
         else Returned (nb - teol - (if l_len l < width ti then 1 else 0), r + 1, 0, to + teol + (width ti - l_len l), False)
       else Returned (0, r, c, to + nb, False)))"

definition backward :: "'acts TeelInstance \<Rightarrow> int \<times> int \<times> int \<times> int \<times> bool \<Rightarrow> (int \<times> int \<times> int \<times> int \<times> bool) outcome" where
  "backward ti = (\<lambda>(nb, r, c, to, stop).
     if - nb > c then
       if r - 1 < 0 then Returned (nb + c, r - 1, c, to - c, True)
       else line_at ti (r - 1) (\<lambda>l.
         Returned (nb + c + 1, r - 1, l_len l, to - c - max (width ti - l_len l) 1, False))
     else Returned (0, r, c, to + nb, False))"

text \<open>The position and the characters that could not be moved.\<close>

definition positionfromoffset :: "'acts TeelInstance \<Rightarrow> int \<Rightarrow> int \<Rightarrow> (int \<times> int) outcome" where
  "positionfromoffset ti pos nb =
     (let p = getcoordsfrompos ti pos in
      run (while_loop (\<lambda>(nb, r, c, to, stop). nb \<noteq> 0 \<and> \<not> stop) (if nb > 0 then forward ti else backward ti)
             (nb, fst p, snd p, pos, False)) (\<lambda>(nb, r, c, to, stop). Returned (to, nb)))"

definition offsetuntil_step ::
  "bytes \<Rightarrow> int \<Rightarrow> int \<times> int \<times> bool \<times> bool \<times> 'acts TeelInstance \<Rightarrow> (int \<times> int \<times> bool \<times> bool \<times> 'acts TeelInstance) outcome" where
  "offsetuntil_step stopchars direction = (\<lambda>(pos, offset, pol, stop, ti).
     let p = getcoordsfrompos ti pos in
     run (checkline (fst p) ti) (\<lambda>(l, ti).
     (if snd p \<ge> l_len l then (\<lambda>k. k 10) else elem_at (l_buf l) (snd p)) (\<lambda>c.
       let found = (c = 0 \<or> c \<in> set stopchars); pol' = (pol \<and> found) in
       if \<not> pol \<and> found then Returned (pos, offset, pol, True, ti)
       else run (positionfromoffset ti pos direction) (\<lambda>(to, _). Returned (to, offset + direction, pol', False, ti)))))"

text \<open>\<open>strchr\<close> finds the terminating zero, too.\<close>

definition tl_editor_offsetuntilchars :: "bytes \<Rightarrow> int \<Rightarrow> int \<Rightarrow> 'acts TeelInstance \<Rightarrow> (int \<times> 'acts TeelInstance) outcome" where
  "tl_editor_offsetuntilchars stopchars pos direction ti =
     (let direction = min (max direction (- 1)) 1; direction = (if direction = 0 then 1 else direction);
          start = userstartpos (editor ti) in
      run (lastcharpos ti) (\<lambda>last.
      let lastchar = (if direction = - 1 then 1 else 0) + last; firstchar = (if direction = 1 then - 1 else 0) + start in
      run (if direction = - 1 \<and> pos > start then run (positionfromoffset ti pos (- 1)) (\<lambda>(to, _). Returned (to, - 1))
           else Returned (pos, 0)) (\<lambda>(pos, offset).
      run (while_loop (\<lambda>(pos, offset, pol, stop, ti). pos > firstchar \<and> pos < lastchar \<and> \<not> stop)
             (offsetuntil_step stopchars direction) (pos, offset, True, False, ti)) (\<lambda>(pos, offset, pol, stop, ti).
      Returned (if direction = - 1 \<and> pos > start then offset + 1 else offset, ti)))))"

definition offset_step ::
  "int \<Rightarrow> int \<Rightarrow> int \<times> int \<times> int \<times> bool \<times> 'acts TeelInstance \<Rightarrow> (int \<times> int \<times> int \<times> bool \<times> 'acts TeelInstance) outcome" where
  "offset_step fquot linebreaksize = (\<lambda>(offset, tquot, trem, stop, ti).
     if tquot - 1 < fquot then Returned (offset + trem, tquot - 1, trem, True, ti)
     else run (checkline (tquot - 1) ti) (\<lambda>(l, ti).
       Returned (offset + trem, tquot - 1, l_len l + (if l_len l < width ti then linebreaksize else 0), False, ti)))"

definition offsetfromposition :: "int \<Rightarrow> int \<Rightarrow> int \<Rightarrow> 'acts TeelInstance \<Rightarrow> (int \<times> 'acts TeelInstance) outcome" where
  "offsetfromposition from to linebreaksize ti =
     (if to < from then Fault
      else if to = from then Returned (0, ti)
      else
        let t = getcoordsfrompos ti to; f = getcoordsfrompos ti from in
        run (while_loop (\<lambda>(offset, tquot, trem, stop, ti). \<not> stop) (offset_step (fst f) linebreaksize)
               (0, fst t, snd t, False, ti)) (\<lambda>(offset, _, _, _, ti). Returned (offset - snd f, ti)))"

definition tl_editor_getcursoroffset :: "'acts TeelInstance \<Rightarrow> (int \<times> 'acts TeelInstance) outcome" where
  "tl_editor_getcursoroffset ti = offsetfromposition (userstartpos (editor ti)) (cursorpos (editor ti)) 1 ti"

text \<open>The mode is -1, 0 or 1 for the start, the cursor and the end.\<close>

definition tl_editor_movecursor :: "int \<Rightarrow> int \<Rightarrow> 'acts TeelInstance \<Rightarrow> 'acts TeelInstance outcome" where
  "tl_editor_movecursor mode nb ti =
     (let ed = editor ti in
      run (lastcharpos ti) (\<lambda>last.
      let from = (if mode \<le> - 1 then userstartpos ed else if mode = 0 then cursorpos ed else last) in
      run (positionfromoffset ti from nb) (\<lambda>(to, clipped).
      let clip = (if to < userstartpos ed then 1 else clipped); to = max to (userstartpos ed);
          ti = (if clip \<noteq> 0 then tl_putchars DING ti else ti) in
      if cursorpos ed = to then Returned ti else setcursorpos to ti)))"

section \<open>Writing\<close>

definition slice :: "bytes \<Rightarrow> int \<Rightarrow> int \<Rightarrow> (bytes \<Rightarrow> 'b outcome) \<Rightarrow> 'b outcome" where
  "slice bs i n k = (if 0 \<le> i \<and> 0 \<le> n \<and> nat (i + n) \<le> length bs then k (take (nat n) (drop (nat i) bs)) else Fault)"

definition patch :: "bytes \<Rightarrow> int \<Rightarrow> bytes \<Rightarrow> (bytes \<Rightarrow> 'b outcome) \<Rightarrow> 'b outcome" where
  "patch bs i xs k = (if 0 \<le> i \<and> nat i + length xs \<le> length bs then k (overwrite bs (nat i) xs) else Fault)"

definition insertblanklines :: "int \<Rightarrow> bool \<Rightarrow> 'acts TeelInstance \<Rightarrow> 'acts TeelInstance outcome" where
  "insertblanklines nl after ti =
     (let p = getcoordsfrompos ti (cursorpos (editor ti)); n = nbOfLines (editor ti) + nl - 1; a = (if after then 1 else 0) in
      run (movedisplaycursor (snd p) (- (n - fst p) + a) (tl_putchars (concat (replicate (nat (n - fst p)) CRLF)) ti)) (\<lambda>ti.
      run (tl_putcharsf (CSI_n 0x4c) [nl] ti) (\<lambda>ti.
      run (in_editor (insertbuflines (fst p + a) nl) ti) (\<lambda>ti.
      movedisplaycursor 0 (- a) ti))))"

text \<open>One round of the loop: as much of the text as fits into the row.\<close>

definition write_step ::
  "bool \<Rightarrow> bytes \<times> int \<times> int \<times> int \<times> 'acts TeelInstance \<Rightarrow> (bytes \<times> int \<times> int \<times> int \<times> 'acts TeelInstance) outcome" where
  "write_step cleannewlines = (\<lambda>(buf, row, col, teol, ti).
     run (checkline row ti) (\<lambda>(l, ti).
     let s = min (int (length buf)) teol in
     slice buf 0 s (\<lambda>piece.
     patch (l_buf l) col piece (\<lambda>b.
     let ti = set_line row \<lparr>l_len = max (col + s) (l_len l), l_buf = b\<rparr> (tl_putchars_unescaped piece ti);
         buf = drop (nat s) buf in
     if s = teol then
       Returned (buf, row + 1, 0, width ti, tl_putchars (CRLF @ (if cleannewlines then CSI @ [0x4b] else [])) ti)
     else Returned (buf, row, col, teol, ti)))))"

definition writechars :: "bytes \<Rightarrow> bool \<Rightarrow> 'acts TeelInstance \<Rightarrow> 'acts TeelInstance outcome" where
  "writechars buf cleannewlines ti =
     (let p = getcoordsfrompos ti (cursorpos (editor ti)) in
      run (while_loop (\<lambda>(buf, _). buf \<noteq> []) (write_step cleannewlines) (buf, fst p, snd p, width ti - snd p, ti))
        (\<lambda>(_, row, _, _, ti).
      run (checkline row ti) (\<lambda>(_, ti).
      Returned (set_cursor (cursorpos (editor ti) + int (length buf)) ti))))"

section \<open>Inserting\<close>

text \<open>
  \<open>insertlinechars\<close> returns the number of characters inserted, the characters that were pushed out
  of the row, and the state. A size of 0, which the code replaces by 1, would read behind the text.
\<close>

definition shift_row :: "int \<Rightarrow> int \<Rightarrow> int \<Rightarrow> int \<Rightarrow> Line \<Rightarrow> 'acts TeelInstance \<Rightarrow> 'acts TeelInstance outcome" where
  "shift_row row col toinsert tooutput l ti =
     (if l_len l > col then
        run (if toinsert = 1 then Returned (tl_putchars (CSI @ [0x40]) ti) else tl_putcharsf (CSI_n 0x40) [toinsert] ti) (\<lambda>ti.
        slice (l_buf l) col (l_len l - tooutput - col) (\<lambda>moved.
        patch (l_buf l) (col + toinsert) moved (\<lambda>b.
        Returned (set_line row \<lparr>l_len = l_len l + toinsert - tooutput, l_buf = b\<rparr> ti))))
      else Returned ti)"

definition fill_row :: "int \<Rightarrow> int \<Rightarrow> int \<Rightarrow> int \<Rightarrow> int \<Rightarrow> bytes \<Rightarrow> Line \<Rightarrow> 'acts TeelInstance \<Rightarrow> 'acts TeelInstance outcome" where
  "fill_row row col teol toinsert tooutput buf l ti =
     (if toinsert = teol then writechars (take (nat toinsert) buf) False ti
      else
        run (shift_row row col toinsert tooutput l ti) (\<lambda>ti.
        run (writechars (take (nat toinsert) buf) False ti) (\<lambda>ti.
        line_at ti row (\<lambda>l.
          if l_len l > width ti - toinsert
          then tl_putcharsf (CSI_n 0x43 @ CSI @ [0x4b] @ CSI_n 0x44) [teol - toinsert, teol - toinsert] ti
          else Returned ti))))"

definition insertlinechars :: "bytes \<Rightarrow> 'acts TeelInstance \<Rightarrow> (int \<times> bytes \<times> 'acts TeelInstance) outcome" where
  "insertlinechars buf ti =
     (if buf = [] then Fault
      else
        let p = getcoordsfrompos ti (cursorpos (editor ti)) in
        run (checkline (fst p) ti) (\<lambda>(l, ti).
        let w = width ti; teol = w - snd p; toinsert = min (int (length buf)) teol;
            tooutput = max (l_len l + toinsert - w) 0; breakatend = l_len l < w in
        slice (l_buf l) (l_len l - tooutput) tooutput (\<lambda>out.
        run (fill_row (fst p) (snd p) teol toinsert tooutput buf l ti) (\<lambda>ti.
        if tempBuf (editor ti) < tooutput then Fault
        else
          let c = cursorpos (editor ti); col = snd (getcoordsfrompos ti c) in
          line_at ti (fst p) (\<lambda>l.
          run (if tooutput \<noteq> 0 \<and> col \<noteq> 0 then
                 if l_len l = w then Returned (set_cursor (c + (w - col)) (tl_putchars CRLF ti)) else Fault
               else Returned ti) (\<lambda>ti.
          run (if l_len l = w \<and> breakatend then insertblanklines 1 (cursorpos (editor ti) mod w \<noteq> 0) ti else Returned ti) (\<lambda>ti.
          Returned (toinsert, out, ti))))))))"

definition insert_rest :: "bytes \<Rightarrow> 'acts TeelInstance \<Rightarrow> 'acts TeelInstance outcome" where
  "insert_rest out ti =
     run (while_loop (\<lambda>(out, ti). out \<noteq> [])
            (\<lambda>(out, ti). run (insertlinechars out ti) (\<lambda>(_, out, ti). Returned (out, ti))) (out, ti)) (\<lambda>(_, ti). Returned ti)"

text \<open>Whole rows of text between the inserted part of the first row and what it pushed out.\<close>

definition insert_rows ::
  "bytes \<Rightarrow> bytes \<Rightarrow> int \<Rightarrow> 'acts TeelInstance \<Rightarrow> (bytes \<times> bytes \<times> int \<times> 'acts TeelInstance) outcome" where
  "insert_rows buf out savedpos ti =
     (let nl = (int (length buf) + int (length out)) div width ti in
      if nl > 0 then
        run (insertblanklines nl False ti) (\<lambda>ti.
        let s = min (int (length buf)) (nl * width ti) in
        run (writechars (take (nat s) buf) False ti) (\<lambda>ti.
        if int (length buf) = s then
          let savedpos = cursorpos (editor ti); s = min (int (length out)) (nl * width ti - int (length buf)) in
          run (writechars (take (nat s) out) False ti) (\<lambda>ti. Returned ([], drop (nat s) out, savedpos, ti))
        else Returned (drop (nat s) buf, out, savedpos, ti)))
      else Returned (buf, out, savedpos, ti))"

definition insert_inside :: "bytes \<Rightarrow> 'acts TeelInstance \<Rightarrow> 'acts TeelInstance outcome" where
  "insert_inside buf ti =
     (let savedpos = cursorpos (editor ti) in
      run (insertlinechars buf ti) (\<lambda>(s, out, ti).
      let buf = drop (nat s) buf in
      if int (length out) > width ti then Fault
      else if buf = [] \<and> out = [] then Returned ti
      else
        run (insert_rows buf out (if buf = [] then savedpos + s else savedpos) ti) (\<lambda>(buf, out, savedpos, ti).
        let savedpos = (if buf \<noteq> [] then cursorpos (editor ti) + int (length buf) else savedpos) in
        if buf \<noteq> [] \<or> out \<noteq> [] then
          if int (length out) + int (length buf) > width ti \<or> int (length out) + int (length buf) > tempBuf (editor ti) then Fault
          else run (insert_rest (buf @ out) ti) (setcursorpos savedpos)
        else setcursorpos savedpos ti)))"

definition insertunescapedchars :: "bytes \<Rightarrow> 'acts TeelInstance \<Rightarrow> 'acts TeelInstance outcome" where
  "insertunescapedchars buf ti =
     run (lastcharpos ti) (\<lambda>last.
       if cursorpos (editor ti) = last then writechars buf True ti
       else if editmode (editor ti) = 0 then insert_inside buf ti
       else writechars buf False ti)"

definition insertlinebreak :: "'acts TeelInstance \<Rightarrow> 'acts TeelInstance outcome" where
  "insertlinebreak ti =
     (let p = getcoordsfrompos ti (cursorpos (editor ti)) in
      run (lastcharpos ti) (\<lambda>last.
      run (getposfromcoords ti (fst p + 1) 0) (\<lambda>next.
      if cursorpos (editor ti) = last then
        run (checkline (fst p + 1) (set_cursor next (tl_putchars CRLF ti))) (\<lambda>(_, ti). Returned ti)
      else
        run (checkline (fst p) ti) (\<lambda>(l, ti).
        if snd p = l_len l then insertblanklines 1 False (set_cursor next (tl_putchars CRLF ti))
        else
          slice (l_buf l) (snd p) (l_len l - snd p) (\<lambda>out.
          let ti = set_cursor next (tl_putchars (CSI @ [0x4b] @ CRLF) (set_line (fst p) (l\<lparr>l_len := snd p\<rparr>) ti)) in
          run (if l_len l < width ti then insertblanklines 1 False ti else Returned ti) (\<lambda>ti.
          let savedpos = cursorpos (editor ti) in
          run (insertlinechars out ti) (\<lambda>(_, out, ti).
          run (insert_rest out ti) (setcursorpos savedpos))))))))"

text \<open>
  The text up to the first line feed, and whether there is one. The octet before the line feed is
  read even when the line feed is the first octet: in front of the block that is a \<open>Fault\<close>.
\<close>

definition tl_detectlinebreak :: "bytes \<Rightarrow> int \<Rightarrow> int \<Rightarrow> (bool \<times> int) outcome" where
  "tl_detectlinebreak blk off sz =
     slice blk off sz (\<lambda>buf.
       let i = int (length (takeWhile (\<lambda>c. c \<noteq> 10) buf)) in
       if i < sz then elem_at blk (off + i - 1) (\<lambda>c. Returned (True, if c = 13 then i - 1 else i))
       else Returned (False, i))"

definition insertchars_step :: "bytes \<Rightarrow> int \<times> int \<times> 'acts TeelInstance \<Rightarrow> (int \<times> int \<times> 'acts TeelInstance) outcome" where
  "insertchars_step blk = (\<lambda>(off, sz, ti).
     run (tl_detectlinebreak blk off sz) (\<lambda>(b, s).
     run (if s \<noteq> 0 then slice blk off s (\<lambda>piece. insertunescapedchars piece ti) else Returned ti) (\<lambda>ti.
     if b then
       run (insertlinebreak ti) (\<lambda>ti.
       let skip = int (length (takeWhile (\<lambda>c. c \<noteq> 10) (drop (nat (off + s)) blk))) in
       elem_at blk (off + s + skip) (\<lambda>_. Returned (off + s + skip + 1, sz - s - skip - 1, ti)))
     else Returned (off + s, sz - s, ti))))"

definition tl_editor_insertchars :: "bytes \<Rightarrow> 'acts TeelInstance \<Rightarrow> 'acts TeelInstance outcome" where
  "tl_editor_insertchars blk ti =
     run (while_loop (\<lambda>(off, sz, ti). sz \<noteq> 0) (insertchars_step blk) (0, int (length blk), ti)) (\<lambda>(_, _, ti). Returned ti)"

end
