(* ===== verification/Telnet_Editing.thy ===== *)
theory Telnet_Editing
  imports Telnet_Editor
begin

text \<open>
  The rest of \<open>src/luafwk/shell/telnet/editor.c\<close>: deleting, replacing and reading the edited text,
  the prompt, a change of the size of the display, and the output before and behind the editing area.
\<close>

section \<open>Deleting\<close>

text \<open>
  One round of a deletion: characters of the row under the cursor, refilled from the text behind the
  deleted part. The result is the number of characters still to delete.
\<close>

definition delete_refill :: "int \<Rightarrow> int \<Rightarrow> int \<Rightarrow> int \<times> int \<Rightarrow> bool \<Rightarrow> 'acts TeelInstance \<Rightarrow> (int \<times> 'acts TeelInstance) outcome" where
  "delete_refill nb n teol p breakatend ti =
     line_at ti (fst p) (\<lambda>l.
     let w = width ti; pecl = cursorpos (editor ti) - snd p + l_len l in
     run (positionfromoffset ti pecl (nb - n + 1)) (\<lambda>(after, _).
     run (lastcharpos ti) (\<lambda>last.
     if (nb > teol \<or> \<not> breakatend) \<and> after \<le> last then
       let a = getcoordsfrompos ti after in
       if nbOfLines (editor ti) \<le> fst a then Fault
       else
         run (checkline (fst a) ti) (\<lambda>(la, ti).
         if l_len la < snd a then Fault
         else
           let dnlb = (if w - l_len l > l_len la - snd a then 1 else 0); tw = min (w - l_len l) (l_len la - snd a) in
           slice (l_buf la) (snd a) tw (\<lambda>piece.
           run (setcursorpos pecl ti) (\<lambda>ti.
           run (writechars piece False ti) (\<lambda>ti.
           let nb = nb + tw + dnlb; c = cursorpos (editor ti); col = snd (getcoordsfrompos ti c) in
           Returned (nb - n, if col \<noteq> 0 \<and> nb - n > 0 then set_cursor (c + (w - col)) (tl_putchars CRLF ti) else ti)))))
     else Returned (nb - n, ti))))"

definition delete_in_row :: "int \<Rightarrow> int \<Rightarrow> int \<times> int \<Rightarrow> Line \<Rightarrow> 'acts TeelInstance \<Rightarrow> 'acts TeelInstance outcome" where
  "delete_in_row nb teol p l ti =
     run (if nb = teol then Returned (tl_putchars (CSI @ [0x4b]) ti)
          else if nb = 1 then Returned (tl_putchars (CSI @ [0x50]) ti)
          else tl_putcharsf (CSI_n 0x50) [nb] ti) (\<lambda>ti.
     slice (l_buf l) (snd p + nb) (teol - nb) (\<lambda>moved.
     patch (l_buf l) (snd p) moved (\<lambda>b.
     let ti = set_line (fst p) \<lparr>l_len = l_len l - nb, l_buf = b\<rparr> ti in
     Returned (if l_len l - nb = 0 then tl_putchars [0x20, 8] ti else ti))))"

definition deletelinechars :: "int \<Rightarrow> 'acts TeelInstance \<Rightarrow> (int \<times> 'acts TeelInstance) outcome" where
  "deletelinechars nb ti =
     (if nb \<le> 0 then Fault
      else
        let p = getcoordsfrompos ti (cursorpos (editor ti)) in
        run (checkline (fst p) ti) (\<lambda>(l, ti).
        let teol = l_len l - snd p; breakatend = l_len l < width ti; b = (if breakatend then 1 else 0) in
        if nb < teol + b then run (delete_in_row nb teol p l ti) (delete_refill nb nb teol p breakatend)
        else if snd p \<noteq> 0 then
          delete_refill nb (teol + b) teol p breakatend
            (if snd p < l_len l then set_line (fst p) (l\<lparr>l_len := snd p\<rparr>) (tl_putchars (CSI @ [0x4b]) ti) else ti)
        else
          run (in_editor (deletebufline (fst p) 1)
                 (tl_putchars (CSI @ [if fst p = nbOfLines (editor ti) - 1 then 0x4b else 0x4d]) ti)) (\<lambda>ti.
          Returned (nb - teol - b, ti))))"

definition backspace_row :: "int \<times> int \<Rightarrow> Line \<Rightarrow> 'acts TeelInstance \<Rightarrow> 'acts TeelInstance outcome" where
  "backspace_row p l ti =
     (if snd p > 0 then
        Returned (set_cursor (cursorpos (editor ti) - 1) (set_line (fst p) (l\<lparr>l_len := l_len l - 1\<rparr>) (tl_putchars [8, 0x20, 8] ti)))
      else
        run (checkline (fst p - 1) ti) (\<lambda>(l, ti).
        let w = width ti; nbae = (if l_len l = w then 1 else 0); len = l_len l - nbae;
            ti = (if fst p - 1 < nbOfLines (editor ti) - 2 then tl_putchars (CSI @ [0x4d]) ti else ti) in
        run (if len > 0 then tl_putcharsf (CSI @ [0x41] @ CSI_n 0x43 @ [0x20, 8]) [len] ti
             else Returned (tl_putchars (CSI @ [0x41]) ti)) (\<lambda>ti.
        in_editor (deletebufline (fst p) 1)
          (set_cursor (cursorpos (editor ti) - (w - len)) (set_line (fst p - 1) (l\<lparr>l_len := len\<rparr>) ti)))))"

definition tl_editor_deletechars :: "int \<Rightarrow> 'acts TeelInstance \<Rightarrow> 'acts TeelInstance outcome" where
  "tl_editor_deletechars nbofchars ti =
     (if nbofchars = 0 then Returned ti
      else
        let p = getcoordsfrompos ti (cursorpos (editor ti)) in
        run (checkline (fst p) ti) (\<lambda>(l, ti).
        run (positionfromoffset ti (cursorpos (editor ti)) nbofchars) (\<lambda>(pos, clipped).
        run (if pos < userstartpos (editor ti) then
               run (offsetfromposition pos (userstartpos (editor ti)) 1 ti) (\<lambda>(ov, ti).
                 Returned (userstartpos (editor ti), clipped - ov, ti))
             else Returned (pos, clipped, ti)) (\<lambda>(pos, clipped, ti).
        let ti = (if clipped = nbofchars then tl_putchars DING ti else ti); nb = nbofchars - clipped in
        if pos = cursorpos (editor ti) then Returned ti
        else if nb = - 1 \<and> snd p = l_len l then backspace_row p l ti
        else
          run (if nb < 0 then tl_editor_movecursor 0 nb ti else Returned ti) (\<lambda>ti.
          let savedpos = cursorpos (editor ti) in
          run (while_loop (\<lambda>(nb, ti). nb \<noteq> 0) (\<lambda>(nb, ti). deletelinechars nb ti) (\<bar>nb\<bar>, ti)) (\<lambda>(_, ti).
          setcursorpos savedpos ti))))))"

section \<open>Replacing and reading the text\<close>

definition trim_step :: "int \<times> int \<times> 'acts TeelInstance \<Rightarrow> (int \<times> int \<times> 'acts TeelInstance) outcome" where
  "trim_step = (\<lambda>(i, col, ti).
     let ti = tl_putchars (CSI @ [0x4b] @ (if i < nbOfLines (editor ti) - 1 then CRLF else [])) ti in
     run (checkline i ti) (\<lambda>(l, ti). Returned (i + 1, 0, set_line i (l\<lparr>l_len := col\<rparr>) ti)))"

definition tl_editor_seteditcontent :: "bytes \<Rightarrow> 'acts TeelInstance \<Rightarrow> 'acts TeelInstance outcome" where
  "tl_editor_seteditcontent buf ti =
     (let ovw = editmode (editor ti); mode = (\<lambda>m. with_editor (\<lambda>ed. ed\<lparr>editmode := m\<rparr>)) in
      run (tl_editor_movecursor (- 1) 0 (mode 1 ti)) (\<lambda>ti.
      run (tl_editor_insertchars buf ti) (\<lambda>ti.
      let pos = cursorpos (editor ti) in
      run (lastcharpos ti) (\<lambda>last.
      run (if pos < last then
             let p = getcoordsfrompos ti pos in
             run (while_loop (\<lambda>(i, col, ti). i < nbOfLines (editor ti)) trim_step (fst p, snd p, ti)) (\<lambda>(_, _, ti).
             run (lastcharpos ti) (\<lambda>last.
             run (setcursorpos pos (set_cursor last ti)) (\<lambda>ti.
             Returned (with_editor (\<lambda>ed. ed\<lparr>nbOfLines := fst p + 1\<rparr>) ti))))
           else Returned ti) (\<lambda>ti.
      Returned (mode ovw ti))))))"

text \<open>The text of the rows from one position to another, with a line end for each line break.\<close>

fun copy_rows :: "'acts TeelInstance \<Rightarrow> int \<times> int \<Rightarrow> int \<times> int \<Rightarrow> int list \<Rightarrow> bytes outcome" where
  "copy_rows ti f t [] = Returned []"
| "copy_rows ti f t (i # is) =
     elem_at (lines (editor ti)) i (\<lambda>l.
     let l = (case l of None \<Rightarrow> \<lparr>l_len = 0, l_buf = []\<rparr> | Some l \<Rightarrow> l);
         s = (if i = fst f then min (snd f) (l_len l) else 0); e = (if i = fst t then min (snd t) (l_len l) else l_len l) in
     slice (l_buf l) s (e - s) (\<lambda>piece.
     run (copy_rows ti f t is) (\<lambda>rest.
     Returned (piece @ (if e = l_len l \<and> e < width ti \<and> i < fst t then CRLF else []) @ rest))))"

definition copyline :: "'acts TeelInstance \<Rightarrow> int \<Rightarrow> int \<Rightarrow> bytes outcome" where
  "copyline ti from to =
     (if from > to then Returned []
      else
        let f = getcoordsfrompos ti from; t = getcoordsfrompos ti to in
        copy_rows ti f t [fst f..fst t])"

text \<open>The line, and the offset of the cursor when it is asked for.\<close>

definition tl_editor_getline :: "'acts TeelInstance \<Rightarrow> bytes outcome" where
  "tl_editor_getline ti = run (lastcharpos ti) (\<lambda>e. copyline ti (userstartpos (editor ti)) e)"

definition getline_cursor :: "'acts TeelInstance \<Rightarrow> (bytes \<times> int \<times> 'acts TeelInstance) outcome" where
  "getline_cursor ti =
     run (tl_editor_getline ti) (\<lambda>line.
     run (offsetfromposition (userstartpos (editor ti)) (cursorpos (editor ti)) 2 ti) (\<lambda>(cursor, ti).
     Returned (line, cursor, ti)))"

definition tl_editor_cleareditingarea :: "'acts TeelInstance \<Rightarrow> 'acts TeelInstance" where
  "tl_editor_cleareditingarea = with_editor (\<lambda>ed.
     let d = nat DEFAULT_MAX_NB_OF_LINES in
     ed\<lparr>lines := map (map_option (\<lambda>l. l\<lparr>l_len := 0\<rparr>)) (take d (lines ed)) @ map (\<lambda>_. None) (drop d (lines ed)),
        nbOfLines := 1, cursorpos := 0, userstartpos := 0\<rparr>)"

definition tl_editor_saveandcleareditingarea :: "'acts TeelInstance \<Rightarrow> 'acts TeelInstance outcome" where
  "tl_editor_saveandcleareditingarea ti =
     run (tl_editor_getline ti) (\<lambda>line.
     Returned (tl_editor_cleareditingarea (ti\<lparr>previousline := Some line, previouslinesize := int (length line)\<rparr>)))"

section \<open>Prompt and display\<close>

definition tl_editor_writeprompt :: "bytes \<Rightarrow> 'acts TeelInstance \<Rightarrow> 'acts TeelInstance outcome" where
  "tl_editor_writeprompt buf ti =
     (let pps = userstartpos (editor ti); savedpos = cursorpos (editor ti) in
      run (setcursorpos 0 ti) (\<lambda>ti.
      let s = (if pps \<noteq> 0 then min pps (int (length buf)) else 0); rest = drop (nat s) buf; pps = pps - s in
      run (if pps + s \<noteq> 0 then slice buf 0 s (\<lambda>piece. writechars piece False ti) else Returned ti) (\<lambda>ti.
      run (if rest \<noteq> [] then insertunescapedchars rest ti
           else if pps \<noteq> 0 then run (deletelinechars pps ti) (\<lambda>(_, ti). Returned ti) else Returned ti) (\<lambda>ti.
      let c = cursorpos (editor ti); savedpos = savedpos + c - userstartpos (editor ti) in
      setcursorpos savedpos (with_editor (\<lambda>ed. ed\<lparr>userstartpos := c\<rparr>) ti)))))"

text \<open>The rows of the old width are written again into rows of the new one.\<close>

definition reflow_step :: "bytes \<times> int \<times> 'acts TeelInstance \<Rightarrow> (bytes \<times> int \<times> 'acts TeelInstance) outcome" where
  "reflow_step = (\<lambda>(buf, j, ti).
     run (checkline j ti) (\<lambda>(t, ti).
     let s = min (int (length buf)) (width ti - l_len t) in
     slice buf 0 s (\<lambda>piece.
     patch (l_buf t) (l_len t) piece (\<lambda>b.
     let buf = drop (nat s) buf in
     Returned (buf, if buf \<noteq> [] then j + 1 else j, set_line j \<lparr>l_len = l_len t + s, l_buf = b\<rparr> ti)))))"

fun reflow :: "int \<Rightarrow> int \<Rightarrow> (int \<times> Line option) list \<Rightarrow> int \<Rightarrow> 'acts TeelInstance \<Rightarrow> 'acts TeelInstance outcome" where
  "reflow oldwidth n [] j ti = Returned ti"
| "reflow oldwidth n ((i, f) # fs) j ti =
     need f (\<lambda>f.
     slice (l_buf f) 0 (l_len f) (\<lambda>buf.
     run (while_loop (\<lambda>(buf, _). buf \<noteq> []) reflow_step (buf, j, ti)) (\<lambda>(_, j, ti).
     let j = (if l_len f < oldwidth \<and> i < n - 1 then j + 1 else j) in
     run (checkline j ti) (\<lambda>(_, ti). reflow oldwidth n fs j ti))))"

fun redraw :: "int list \<Rightarrow> 'acts TeelInstance \<Rightarrow> 'acts TeelInstance outcome" where
  "redraw [] ti = Returned ti"
| "redraw (i # is) ti =
     run (checkline i ti) (\<lambda>(l, ti).
     slice (l_buf l) 0 (l_len l) (\<lambda>piece.
     let ti = tl_putchars_unescaped piece ti in
     redraw is (if i < nbOfLines (editor ti) - 1 then tl_putchars CRLF ti else ti)))"

definition tl_editor_setdisplaysize :: "int \<Rightarrow> int \<Rightarrow> 'acts TeelInstance \<Rightarrow> 'acts TeelInstance outcome" where
  "tl_editor_setdisplaysize w h ti =
     run (offsetfromposition 0 (cursorpos (editor ti)) 1 ti) (\<lambda>(offset, ti).
     run (setcursorpos 0 ti) (\<lambda>ti.
     let old = editor ti; n = nbOfLines old;
         ti = tl_editor_init (with_editor (\<lambda>ed. ed\<lparr>windowwidth := w, windowheight := h\<rparr>) (tl_putchars (CSI @ [0x4a]) ti)) in
     if int (length (lines old)) < n then Fault
     else
       run (reflow (windowwidth old) n (zip [0..n - 1] (lines old)) 0 ti) (\<lambda>ti.
       run (redraw [0..nbOfLines (editor ti) - 1] ti) (\<lambda>ti.
       run (lastcharpos ti) (\<lambda>last.
       let ti = set_cursor last ti in
       run (positionfromoffset ti 0 offset) (\<lambda>(pos, _).
       setcursorpos pos ti))))))"

definition tl_editor_editisempty :: "'acts TeelInstance \<Rightarrow> bool outcome" where
  "tl_editor_editisempty ti = run (lastcharpos ti) (\<lambda>last. Returned (last - userstartpos (editor ti) = 0))"

definition tl_editor_clearafter :: "'acts TeelInstance \<Rightarrow> 'acts TeelInstance outcome" where
  "tl_editor_clearafter ti =
     (let pos = cursorpos (editor ti) in
      run (lastcharpos ti) (\<lambda>last.
      run (setcursorpos last ti) (\<lambda>ti. setcursorpos pos (tl_putchars (CSI @ [0x4a]) ti))))"

section \<open>Output outside of the editing area\<close>

definition set_aob :: "int \<Rightarrow> int \<Rightarrow> 'acts TeelInstance \<Rightarrow> 'acts TeelInstance" where
  "set_aob row col = with_editor (\<lambda>ed. ed\<lparr>aobrow := row, aobcol := col\<rparr>)"

definition tl_editor_outofband_begin :: "int \<Rightarrow> 'acts TeelInstance \<Rightarrow> 'acts TeelInstance outcome" where
  "tl_editor_outofband_begin location ti =
     (let ti = with_editor (\<lambda>ed. ed\<lparr>aoblocation := location\<rparr>) ti; n = nbOfLines (editor ti);
          p = getcoordsfrompos ti (cursorpos (editor ti)) in
      if location = - 1 then
        run (movedisplaycursor 0 (- n) (tl_putchars (concat (replicate (nat (n - fst p)) CRLF)) ti)) (\<lambda>ti.
        Returned (set_aob (- 1) 0 (tl_putchars (CSI @ [0x4c]) ti)))
      else if location = 1 then
        run (movedisplaycursor 0 (n - fst p - 1) ti) (\<lambda>ti.
        Returned (tl_putchars (CSI @ [0x4b]) (set_aob n 0 (tl_putchars CRLF ti))))
      else Returned ti)"

definition tl_editor_outofband_end :: "'acts TeelInstance \<Rightarrow> 'acts TeelInstance outcome" where
  "tl_editor_outofband_end ti =
     (let p = getcoordsfrompos ti (cursorpos (editor ti)) in
      movedisplaycursor (snd p - aobcol (editor ti)) (- aobrow (editor ti) + fst p) ti)"

definition tl_editor_outofband_output :: "bytes \<Rightarrow> bool \<Rightarrow> 'acts TeelInstance \<Rightarrow> (int \<times> 'acts TeelInstance) outcome" where
  "tl_editor_outofband_output buf newline ti =
     (let ed = editor ti; l = min (int (length buf)) (windowwidth ed - aobcol ed) in
      slice buf 0 l (\<lambda>piece.
      let ti = set_aob (aobrow ed) (aobcol ed + l) (tl_putchars_unescaped piece ti) in
      run (if newline \<and> aoblocation ed = - 1 then
             run (movedisplaycursor 0 (- nbOfLines ed) (tl_putchars (CRLF @ concat (replicate (nat (nbOfLines ed)) CRLF)) ti)) (\<lambda>ti.
             Returned (set_aob (aobrow ed) 0 (tl_putchars (CSI @ [0x4c]) ti)))
           else if newline \<and> aoblocation ed = 1 \<and> nbOfLines ed + aobrow ed < windowheight ed then
             Returned (set_aob (aobrow ed + 1) 0 (tl_putchars (CRLF @ CSI @ [0x4b]) ti))
           else Returned ti) (\<lambda>ti. Returned (l, ti))))"

end
