(* ===== verification/Telnet_Teel.thy ===== *)
theory Telnet_Teel
  imports Telnet_Editing
begin

text \<open>
  The editing library above the editor (\<open>src/luafwk/shell/telnet/teel.c\<close> and \<open>actions.c\<close>): the table
  of key sequences and the search for the sequence that is being typed, the actions they are bound
  to, completion, and the operations that the telnet interpreter calls. The loop that reads the
  keys is in \<open>Telnet_Interpreter\<close>, as it calls back into the interpreter.
\<close>

datatype TeelCmd = CMD_NOP | CMD_EOS | CMD_DONE | CMD_IP | CMD_SUSP | CMD_EOF

datatype act =
    Act_backspace | Act_delete | Act_deleteprevword | Act_deletenextword
  | Act_editdone | Act_linebreak | Act_ip | Act_susp | Act_eof
  | Act_historypreventry | Act_historynextentry | Act_autocomplete | Act_overwriteinserttoggle
  | Act_movetoprevword | Act_movetonextword | Act_moveright | Act_moveleft
  | Act_movetostartpos | Act_movetoendpos | Act_debugF12

type_synonym teel = "act TeelInstance"

section \<open>Actions\<close>

definition nop :: "teel \<Rightarrow> (TeelCmd \<times> teel) outcome" where
  "nop ti = Returned (CMD_NOP, ti)"

text \<open>The characters that end a word.\<close>

definition word_stops :: bytes where
  "word_stops = [0x22, 0x23, 0x3b, 0x26, 0x7c, 0x5e, 0x24, 0x3d, 0x60, 0x27, 0x7b, 0x7d, 0x28, 0x29, 0x3c, 0x3e, 10, 9, 0x20]"

definition tl_act_backspace :: "teel \<Rightarrow> (TeelCmd \<times> teel) outcome" where
  "tl_act_backspace ti = run (tl_editor_deletechars (- 1) ti) nop"

definition tl_act_deleteprevword :: "teel \<Rightarrow> (TeelCmd \<times> teel) outcome" where
  "tl_act_deleteprevword ti =
     run (tl_editor_offsetuntilchars word_stops (cursorpos (editor ti)) (- 1) ti) (\<lambda>(offset, ti).
     run (tl_editor_deletechars offset ti) nop)"

definition tl_act_deletenextword :: "teel \<Rightarrow> (TeelCmd \<times> teel) outcome" where
  "tl_act_deletenextword ti =
     run (tl_editor_offsetuntilchars word_stops (cursorpos (editor ti)) 1 ti) (\<lambda>(offset, ti).
     run (tl_editor_deletechars offset ti) nop)"

definition tl_act_delete :: "teel \<Rightarrow> (TeelCmd \<times> teel) outcome" where
  "tl_act_delete ti = run (tl_editor_deletechars 1 ti) nop"

definition edit_done :: "TeelCmd \<Rightarrow> teel \<Rightarrow> (TeelCmd \<times> teel) outcome" where
  "edit_done cmd ti =
     run (tl_editor_saveandcleareditingarea (tl_putchars CRLF ti)) (\<lambda>ti. Returned (cmd, ti\<lparr>ti_state := EDITLINE_DONE\<rparr>))"

definition tl_act_editdone :: "teel \<Rightarrow> (TeelCmd \<times> teel) outcome" where
  "tl_act_editdone ti = run (tl_editor_movecursor 1 0 ti) (edit_done CMD_DONE)"

definition tl_act_linebreak :: "teel \<Rightarrow> (TeelCmd \<times> teel) outcome" where
  "tl_act_linebreak ti = run (tl_editor_insertchars CRLF ti) nop"

definition tl_act_moveleft :: "teel \<Rightarrow> (TeelCmd \<times> teel) outcome" where
  "tl_act_moveleft ti = run (tl_editor_movecursor 0 (- 1) ti) nop"

definition tl_act_moveright :: "teel \<Rightarrow> (TeelCmd \<times> teel) outcome" where
  "tl_act_moveright ti = run (tl_editor_movecursor 0 1 ti) nop"

definition tl_act_movetoprevword :: "teel \<Rightarrow> (TeelCmd \<times> teel) outcome" where
  "tl_act_movetoprevword ti =
     run (tl_editor_offsetuntilchars word_stops (cursorpos (editor ti)) (- 1) ti) (\<lambda>(offset, ti).
     run (tl_editor_movecursor 0 offset ti) nop)"

definition tl_act_movetonextword :: "teel \<Rightarrow> (TeelCmd \<times> teel) outcome" where
  "tl_act_movetonextword ti =
     run (tl_editor_offsetuntilchars word_stops (cursorpos (editor ti)) 1 ti) (\<lambda>(offset, ti).
     run (tl_editor_movecursor 0 offset ti) nop)"

definition tl_act_movetostartpos :: "teel \<Rightarrow> (TeelCmd \<times> teel) outcome" where
  "tl_act_movetostartpos ti = run (tl_editor_movecursor (- 1) 0 ti) nop"

definition tl_act_movetoendpos :: "teel \<Rightarrow> (TeelCmd \<times> teel) outcome" where
  "tl_act_movetoendpos ti = run (tl_editor_movecursor 1 0 ti) nop"

definition tl_act_susp :: "teel \<Rightarrow> (TeelCmd \<times> teel) outcome" where
  "tl_act_susp = edit_done CMD_SUSP"

definition tl_act_ip :: "teel \<Rightarrow> (TeelCmd \<times> teel) outcome" where
  "tl_act_ip = edit_done CMD_IP"

definition tl_act_eof :: "teel \<Rightarrow> (TeelCmd \<times> teel) outcome" where
  "tl_act_eof ti =
     run (tl_editor_editisempty ti) (\<lambda>e. if e then Returned (CMD_EOF, tl_putchars CRLF ti) else nop ti)"

definition tl_act_overwriteinserttoggle :: "teel \<Rightarrow> (TeelCmd \<times> teel) outcome" where
  "tl_act_overwriteinserttoggle ti = nop (with_editor (\<lambda>ed. ed\<lparr>editmode := 1 - editmode ed\<rparr>) ti)"

definition with_history :: "(History \<Rightarrow> History) \<Rightarrow> teel \<Rightarrow> teel" where
  "with_history f ti = ti\<lparr>history := f (history ti)\<rparr>"

definition tl_act_historypreventry :: "teel \<Rightarrow> (TeelCmd \<times> teel) outcome" where
  "tl_act_historypreventry ti =
     (let ti = ti\<lparr>ti_state := HISTORY_BROWSE\<rparr>; pos = h_idx (history ti) + 1 in
      run (tl_history_getentry (history ti) (int pos)) (\<lambda>e. case e of
        None \<Rightarrow> nop (tl_putchars DING ti)
      | Some e \<Rightarrow>
          run (if pos = 1 then
                 run (tl_editor_getcursoroffset ti) (\<lambda>(offset, ti).
                 run (tl_editor_getline ti) (\<lambda>line.
                 Returned (with_history (\<lambda>h. h\<lparr>h_curline := Some line, h_curlen := length line, h_curpos := nat offset\<rparr>) ti)))
               else Returned ti) (\<lambda>ti.
          load_n (he_buf e) 0 (he_len e) (\<lambda>buf.
          run (tl_editor_seteditcontent buf (with_history (\<lambda>h. h\<lparr>h_idx := pos\<rparr>) ti)) nop))))"

definition tl_act_historynextentry :: "teel \<Rightarrow> (TeelCmd \<times> teel) outcome" where
  "tl_act_historynextentry ti =
     (let ti = ti\<lparr>ti_state := HISTORY_BROWSE\<rparr>; h = history ti in
      if h_idx h = 0 then nop (tl_putchars DING ti)
      else
        let pos = h_idx h - 1; ti = with_history (\<lambda>h. h\<lparr>h_idx := pos\<rparr>) ti in
        if pos = 0 then
          load_n (case h_curline h of None \<Rightarrow> [] | Some line \<Rightarrow> line) 0 (h_curlen h) (\<lambda>buf.
          run (tl_editor_seteditcontent buf ti) (\<lambda>ti.
          run (tl_editor_movecursor (- 1) (int (h_curpos h)) ti) (\<lambda>ti.
          nop (with_history (\<lambda>h. h\<lparr>h_curline := None, h_curlen := 0, h_curpos := 0\<rparr>) ti))))
        else
          run (tl_history_getentry h (int pos)) (\<lambda>e.
          need e (\<lambda>e.
          load_n (he_buf e) 0 (he_len e) (\<lambda>buf.
          run (tl_editor_seteditcontent buf ti) nop))))"

section \<open>Completion\<close>

fun show_choices :: "int \<Rightarrow> int \<Rightarrow> int \<Rightarrow> bytes list \<Rightarrow> teel \<Rightarrow> teel outcome" where
  "show_choices colwidth nbofcols i [] ti = Returned ti"
| "show_choices colwidth nbofcols i (t # tab) ti =
     run (tl_editor_outofband_output t False ti) (\<lambda>(_, ti).
     run (if i mod nbofcols = nbofcols - 1 then tl_editor_outofband_output [] True ti
          else
            run (while_loop (\<lambda>(r, ti). r > 0)
                   (\<lambda>(r, ti). run (tl_editor_outofband_output [0x20] False ti) (\<lambda>(_, ti). Returned (r - 1, ti)))
                   (colwidth - int (length t), ti)) (\<lambda>(_, ti). Returned (0, ti))) (\<lambda>(_, ti).
     show_choices colwidth nbofcols (i + 1) tab ti))"

text \<open>The quotient is 0, as C truncates it, when the column is wider than the window.\<close>

definition display_autocomplete_choices :: "bytes list \<Rightarrow> teel \<Rightarrow> teel outcome" where
  "display_autocomplete_choices tab ti =
     (let colwidth = foldl (\<lambda>m t. max m (int (length t))) 0 tab + 1 in
      run (tl_editor_clearafter ti) (\<lambda>ti.
      run (tl_editor_outofband_begin 1 ti) (\<lambda>ti.
      let nbofcols = (if width ti < colwidth then 0 else (width ti - colwidth) div colwidth) + 1 in
      run (show_choices colwidth nbofcols 0 tab ti) tl_editor_outofband_end)))"

text \<open>The longest end of the typed text that is a beginning of the proposal.\<close>

fun typed_part :: "bytes \<Rightarrow> bytes \<Rightarrow> nat \<Rightarrow> nat" where
  "typed_part w prior 0 = 0"
| "typed_part w prior (Suc ov) =
     (if drop (length prior - Suc ov) prior = take (Suc ov) w then Suc ov else typed_part w prior ov)"

definition completeline :: "bytes \<Rightarrow> bytes \<Rightarrow> int \<Rightarrow> teel \<Rightarrow> teel outcome" where
  "completeline tocomplete line cursor ti =
     slice line 0 cursor (\<lambda>prior.
     let ov = typed_part tocomplete prior (min (length tocomplete) (length prior)) in
     tl_editor_insertchars (drop ov tocomplete) ti)"

definition common_part :: "bytes \<Rightarrow> bytes \<Rightarrow> nat" where
  "common_part s1 s2 = length (takeWhile (\<lambda>(a, b). a = b) (zip s1 s2))"

fun common_all :: "nat \<Rightarrow> bytes list \<Rightarrow> nat" where
  "common_all l (t # t' # ts) = (let l' = common_part (take l t) t' in if l' = 0 then 0 else common_all l' (t' # ts))"
| "common_all l ts = l"

definition tl_act_autocomplete :: "teel \<Rightarrow> (TeelCmd \<times> teel) outcome" where
  "tl_act_autocomplete ti =
     (case autocomplete ti of
        None \<Rightarrow> nop (tl_putchars DING ti)
      | Some f \<Rightarrow>
          run (getline_cursor ti) (\<lambda>(path, cursor, ti).
          slice path 0 cursor (\<lambda>prior.
          let tab = f prior in
          if tab = [] then nop (tl_putchars DING ti)
          else if length tab = 1 \<or> autocompletestate ti \<noteq> 0 then run (completeline (hd tab) path cursor ti) nop
          else
            let l = common_all (length (hd tab)) tab in
            run (if l \<noteq> 0 then completeline (take l (hd tab)) path cursor ti else Returned ti) (\<lambda>ti.
            run (display_autocomplete_choices tab ti) (\<lambda>ti.
            nop (ti\<lparr>ti_state := COMPLETION_DISP, autocompletestate := 1\<rparr>))))))"

text \<open>The key F12 prints the line on the console of the agent.\<close>

definition tl_act_debugF12 :: "teel \<Rightarrow> (TeelCmd \<times> teel) outcome" where
  "tl_act_debugF12 ti = run (getline_cursor ti) (\<lambda>(_, _, ti). nop ti)"

fun call_action :: "act \<Rightarrow> teel \<Rightarrow> (TeelCmd \<times> teel) outcome" where
  "call_action Act_backspace ti = tl_act_backspace ti"
| "call_action Act_delete ti = tl_act_delete ti"
| "call_action Act_deleteprevword ti = tl_act_deleteprevword ti"
| "call_action Act_deletenextword ti = tl_act_deletenextword ti"
| "call_action Act_editdone ti = tl_act_editdone ti"
| "call_action Act_linebreak ti = tl_act_linebreak ti"
| "call_action Act_ip ti = tl_act_ip ti"
| "call_action Act_susp ti = tl_act_susp ti"
| "call_action Act_eof ti = tl_act_eof ti"
| "call_action Act_historypreventry ti = tl_act_historypreventry ti"
| "call_action Act_historynextentry ti = tl_act_historynextentry ti"
| "call_action Act_autocomplete ti = tl_act_autocomplete ti"
| "call_action Act_overwriteinserttoggle ti = tl_act_overwriteinserttoggle ti"
| "call_action Act_movetoprevword ti = tl_act_movetoprevword ti"
| "call_action Act_movetonextword ti = tl_act_movetonextword ti"
| "call_action Act_moveright ti = tl_act_moveright ti"
| "call_action Act_moveleft ti = tl_act_moveleft ti"
| "call_action Act_movetostartpos ti = tl_act_movetostartpos ti"
| "call_action Act_movetoendpos ti = tl_act_movetoendpos ti"
| "call_action Act_debugF12 ti = tl_act_debugF12 ti"

section \<open>Key sequences\<close>

definition SEQ :: "bytes \<Rightarrow> act \<Rightarrow> act KeySeqAction" where
  "SEQ s f = \<lparr>seq = s, seqsize = length s, func = f\<rparr>"

definition defaultksa :: "act KeySeqAction list" where
  "defaultksa =
    [SEQ [0x08] Act_backspace,
     SEQ [0x7f] Act_backspace,
     SEQ [0x1b, 0x5b, 0x33, 0x7e] Act_delete,
     SEQ [0x1b, 0x7f] Act_deleteprevword,
     SEQ [0x1b, 0x5b, 0x33, 0x3b, 0x33, 0x7e] Act_deletenextword,
     SEQ [0x1b, 0x1b, 0x5b, 0x33, 0x7e] Act_deletenextword,
     SEQ [10] Act_editdone,
     SEQ [13, 10] Act_editdone,
     SEQ [13, 0] Act_editdone,
     SEQ [0x1b, 10] Act_linebreak,
     SEQ [0x1b, 13, 0] Act_linebreak,
     SEQ [3] Act_ip,
     SEQ [26] Act_susp,
     SEQ [4] Act_eof,
     SEQ [0x1b, 0x5b, 0x41] Act_historypreventry,
     SEQ [0x1b, 0x5b, 0x42] Act_historynextentry,
     SEQ [9] Act_autocomplete,
     SEQ [0x1b, 0x5b, 0x32, 0x7e] Act_overwriteinserttoggle,
     SEQ [0x1b, 0x5b, 0x31, 0x3b, 0x33, 0x44] Act_movetoprevword,
     SEQ [0x1b, 0x1b, 0x5b, 0x44] Act_movetoprevword,
     SEQ [0x1b, 0x5b, 0x31, 0x3b, 0x33, 0x43] Act_movetonextword,
     SEQ [0x1b, 0x1b, 0x5b, 0x43] Act_movetonextword,
     SEQ [0x1b, 0x5b, 0x43] Act_moveright,
     SEQ [0x1b, 0x5b, 0x44] Act_moveleft,
     SEQ [0x1b, 0x5b, 0x31, 0x7e] Act_movetostartpos,
     SEQ [0x1b, 0x5b, 0x37, 0x7e] Act_movetostartpos,
     SEQ [0x1b, 0x5b, 0x48] Act_movetostartpos,
     SEQ [0x1b, 0x4f, 0x48] Act_movetostartpos,
     SEQ [1] Act_movetostartpos,
     SEQ [0x1b, 0x5b, 0x34, 0x7e] Act_movetoendpos,
     SEQ [0x1b, 0x5b, 0x38, 0x7e] Act_movetoendpos,
     SEQ [0x1b, 0x5b, 0x46] Act_movetoendpos,
     SEQ [0x1b, 0x4f, 0x46] Act_movetoendpos,
     SEQ [5] Act_movetoendpos,
     SEQ [0x1b, 0x5b, 0x32, 0x34, 0x7e] Act_debugF12]"

fun memcmp :: "bytes \<Rightarrow> bytes \<Rightarrow> int" where
  "memcmp (a # as) (b # bs) = (if a = b then memcmp as bs else uint a - uint b)"
| "memcmp _ _ = 0"

definition compareksa :: "act KeySeqAction \<Rightarrow> act KeySeqAction \<Rightarrow> int" where
  "compareksa a b =
     (let s = min (seqsize a) (seqsize b); r = memcmp (take s (seq a)) (take s (seq b)) in
      if r = 0 then int (seqsize a) - int (seqsize b) else r)"

text \<open>\<open>qsort\<close>: the sequences of the table differ, so that their order is determined.\<close>

fun insert_ksa :: "act KeySeqAction \<Rightarrow> act KeySeqAction list \<Rightarrow> act KeySeqAction list" where
  "insert_ksa a [] = [a]"
| "insert_ksa a (b # bs) = (if compareksa a b \<le> 0 then a # b # bs else b # insert_ksa a bs)"

definition tl_setkeyseqact_map :: "act KeySeqAction list \<Rightarrow> teel \<Rightarrow> teel" where
  "tl_setkeyseqact_map m ti = ti\<lparr>ti_map := foldr insert_ksa m [], nbofseq := length m\<rparr>"

text \<open>
  The search for the sequence of the table that continues with the octet: 0 when there is none, 1
  when more octets are needed, 2 when the sequence is complete. The octet behind a sequence is its
  terminating zero.
\<close>

function seq_search :: "act KeySeqAction list \<Rightarrow> byte \<Rightarrow> int \<Rightarrow> int \<Rightarrow> (nat \<times> int \<times> int) outcome" where
  "seq_search m b pos cur =
     (if cur < 0 then Returned (0, pos, cur)
      else elem_at m cur (\<lambda>s.
        if pos \<le> int (seqsize s) then
          elem_at (seq s @ [0]) pos (\<lambda>v.
            if uint b > uint v then Returned (0, pos, cur)
            else if b = v then
              if pos = int (seqsize s) - 1 then Returned (2, pos, cur) else Returned (1, pos + 1, cur)
            else seq_search m b pos (cur - 1))
        else seq_search m b pos (cur - 1)))"
  by pat_completeness auto
termination by (relation "measure (\<lambda>(m, b, pos, cur). nat (cur + 1))") auto

declare seq_search.simps [simp del]

definition reset_search :: "teel \<Rightarrow> teel" where
  "reset_search ti = ti\<lparr>posinseq := 0, currseq := int (nbofseq ti) - 1\<rparr>"

definition tl_statechanged :: "TeelState \<Rightarrow> teel \<Rightarrow> teel outcome" where
  "tl_statechanged laststate ti =
     (if ti_state ti = laststate then Returned ti
      else case laststate of
        EDITLINE_DONE \<Rightarrow> Returned (ti\<lparr>previousline := None\<rparr>)
      | HISTORY_BROWSE \<Rightarrow> Returned (with_history tl_history_resetcontext ti)
      | COMPLETION_DISP \<Rightarrow> run (tl_editor_clearafter ti) (\<lambda>ti. Returned (ti\<lparr>autocompletestate := 0\<rparr>))
      | CHARACTER_INPUT \<Rightarrow> Returned ti)"

text \<open>What one octet does: \<open>None\<close> for a sequence that goes on, or the command of its action.\<close>

definition teel_key :: "byte \<Rightarrow> teel \<Rightarrow> (TeelCmd option \<times> teel) outcome" where
  "teel_key b ti =
     (let b = (if 127 < uint b then 63 else b) in
      patch (temp ti) (posinseq ti) [b] (\<lambda>tmp.
      let ti = ti\<lparr>temp := tmp\<rparr> in
      run (seq_search (ti_map ti) b (posinseq ti) (currseq ti)) (\<lambda>(found, pos, cur).
      let ti = ti\<lparr>posinseq := pos, currseq := cur\<rparr>; ls = ti_state ti in
      if found = 0 then
        slice (temp ti) 0 (pos + 1) (\<lambda>typed.
        run (tl_editor_insertchars typed ti) (\<lambda>ti.
        run (tl_statechanged ls ((reset_search ti)\<lparr>ti_state := CHARACTER_INPUT\<rparr>)) (\<lambda>ti.
        Returned (None, ti))))
      else if found = 2 then
        elem_at (ti_map ti) cur (\<lambda>s.
        run (call_action (func s) (ti\<lparr>ti_state := CHARACTER_INPUT\<rparr>)) (\<lambda>(cmd, ti).
        run (tl_statechanged ls (reset_search ti)) (\<lambda>ti.
        Returned (Some cmd, ti))))
      else Returned (None, ti))))"

section \<open>Operations\<close>

definition MAX_KEY_SEQUENCE_LENGTH :: nat where "MAX_KEY_SEQUENCE_LENGTH = 8"

definition zero_editor :: "(nat \<Rightarrow> bytes) \<Rightarrow> Editor" where
  "zero_editor b = \<lparr>lines = [], nbOfLines = 0, maxNbOfLines = 0, tempBuf = 0, cursorpos = 0, userstartpos = 0,
     windowwidth = 0, windowheight = 0, editmode = 0, aoblocation = 0, aobrow = 0, aobcol = 0, blocks = b\<rparr>"

definition teel_initialize :: "(nat \<Rightarrow> bytes) \<Rightarrow> teel" where
  "teel_initialize b =
     (let ti = \<lparr>ti_map = [], nbofseq = 0, temp = replicate MAX_KEY_SEQUENCE_LENGTH 0, posinseq = 0, currseq = 0,
            editor = zero_editor b, ti_output = [], history = new_history, ti_state = CHARACTER_INPUT, previousline = None,
            previouslinesize = 0, autocomplete = None, autocompletestate = 0\<rparr>;
          ti = reset_search (tl_setkeyseqact_map defaultksa ti) in
      tl_editor_init (with_editor (\<lambda>ed. ed\<lparr>windowheight := 10, windowwidth := 20\<rparr>) ti))"

definition tl_formatendofline :: "bytes \<Rightarrow> nat \<Rightarrow> bytes" where
  "tl_formatendofline line format =
     line @ (if bit format 0 then if bit format 1 then CRLF @ [0] else CRLF else if bit format 1 then [0] else [])"

definition teel_getline :: "nat \<Rightarrow> teel \<Rightarrow> (bytes \<times> teel) outcome" where
  "teel_getline format ti =
     run (case previousline ti of
            Some line \<Rightarrow> slice line 0 (previouslinesize ti) (\<lambda>line. Returned (line, ti\<lparr>previousline := None\<rparr>))
          | None \<Rightarrow> run (tl_editor_getline ti) (\<lambda>line. Returned (line, ti))) (\<lambda>(line, ti).
     Returned (tl_formatendofline line format, ti))"

definition teel_showprompt :: "bytes \<Rightarrow> teel \<Rightarrow> teel outcome" where
  "teel_showprompt buf ti = tl_editor_writeprompt buf ti"

definition teel_setdisplaysize :: "int \<Rightarrow> int \<Rightarrow> teel \<Rightarrow> teel outcome" where
  "teel_setdisplaysize w h ti = tl_editor_setdisplaysize (max w 5) (max h 5) ti"

definition teel_setautocompletefunc :: "(bytes \<Rightarrow> bytes list) \<Rightarrow> teel \<Rightarrow> teel" where
  "teel_setautocompletefunc f ti = ti\<lparr>autocomplete := Some f\<rparr>"

definition outputbefore_step :: "bytes \<Rightarrow> int \<times> int \<times> teel \<Rightarrow> (int \<times> int \<times> teel) outcome" where
  "outputbefore_step blk = (\<lambda>(off, len, ti).
     run (tl_detectlinebreak blk off len) (\<lambda>(b, s).
     slice blk off s (\<lambda>piece.
     run (tl_editor_outofband_output piece b ti) (\<lambda>(_, ti).
     if b then
       let skip = int (length (takeWhile (\<lambda>c. c \<noteq> 10) (drop (nat (off + s)) blk))) in
       elem_at blk (off + s + skip) (\<lambda>_. Returned (off + s + skip + 1, len - s - skip - 1, ti))
     else Returned (off + s, len - s, ti)))))"

definition teel_outputbeforeline :: "bytes \<Rightarrow> teel \<Rightarrow> (int \<times> teel) outcome" where
  "teel_outputbeforeline buf ti =
     (if buf = [] then Returned (- 1, ti)
      else
        run (tl_editor_outofband_begin (- 1) ti) (\<lambda>ti.
        run (while_loop (\<lambda>(off, len, ti). len \<noteq> 0) (outputbefore_step buf) (0, int (length buf), ti)) (\<lambda>(_, _, ti).
        run (tl_editor_outofband_end ti) (\<lambda>ti. Returned (0, ti)))))"

end
