(* ===== verification/Telnet_Interpreter.thy ===== *)
theory Telnet_Interpreter
  imports Telnet_Teel
begin

text \<open>
  The telnet interpreter of the shell (\<open>src/luafwk/shell/telnet/telnet.c\<close>): received octets are
  separated into the commands of the telnet protocol and the text of the user, which is collected
  line by line (line mode) or given to the line editor (edit mode). \<open>l_interpret\<close> is called with
  each block of received octets, and again without one as long as it asks for it; octets of a
  sequence that is not complete are kept for the next call.

  The values of the Lua state are arguments and results: \<open>l_interpret\<close> returns whether to call it
  again, the octets to send, the name of the command and its argument.
\<close>

section \<open>Types\<close>

datatype InterpretCommand = IC_NOP | IC_EOS | IC_LINE | IC_SUSP | IC_IP | IC_CLOSE

fun ic_names :: "InterpretCommand \<Rightarrow> string" where
  "ic_names IC_NOP = ''nop''"
| "ic_names IC_EOS = ''nop''"
| "ic_names IC_LINE = ''line''"
| "ic_names IC_SUSP = ''suspend''"
| "ic_names IC_IP = ''interrupt''"
| "ic_names IC_CLOSE = ''close''"

datatype EditMode = TELNET_LINE_MODE | TELNET_EDIT_MODE

abbreviation (input) TEOF :: byte where "TEOF \<equiv> 236"
abbreviation (input) SUSP :: byte where "SUSP \<equiv> 237"
abbreviation (input) SE :: byte where "SE \<equiv> 240"
abbreviation (input) IP :: byte where "IP \<equiv> 244"
abbreviation (input) SB :: byte where "SB \<equiv> 250"
abbreviation (input) WILL :: byte where "WILL \<equiv> 251"
abbreviation (input) WONT :: byte where "WONT \<equiv> 252"
abbreviation (input) DO :: byte where "DO \<equiv> 253"
abbreviation (input) DONT :: byte where "DONT \<equiv> 254"
abbreviation (input) IAC :: byte where "IAC \<equiv> 255"

abbreviation (input) ECHO :: byte where "ECHO \<equiv> 1"
abbreviation (input) SUPPRESS_GO_AHEAD :: byte where "SUPPRESS_GO_AHEAD \<equiv> 3"
abbreviation (input) TIMING_MARK :: byte where "TIMING_MARK \<equiv> 6"
abbreviation (input) NAWS :: byte where "NAWS \<equiv> 31"

record TelnetState =
  ts_out :: WriteBuffer
  ts_in :: ReadBuffer
  ts_editmode :: EditMode
  ts_teel :: "teel option"
  linemodebuffer :: WriteBuffer

section \<open>Options\<close>

definition out_bytes :: "heap \<Rightarrow> bytes \<Rightarrow> TelnetState \<Rightarrow> TelnetState outcome" where
  "out_bytes h s ts = run (WriteBytes h (ts_out ts) s) (\<lambda>b. Returned (ts\<lparr>ts_out := b\<rparr>))"

definition SendOption :: "heap \<Rightarrow> byte \<Rightarrow> byte \<Rightarrow> TelnetState \<Rightarrow> TelnetState outcome" where
  "SendOption h action option = out_bytes h [IAC, action, option]"

definition parseoption :: "heap \<Rightarrow> byte \<Rightarrow> byte \<Rightarrow> TelnetState \<Rightarrow> TelnetState outcome" where
  "parseoption h action option ts =
     (if option = TIMING_MARK then if action = DO then SendOption h WILL TIMING_MARK ts else Returned ts
      else if option = SUPPRESS_GO_AHEAD then Returned ts
      else if option = ECHO then if action = WILL then SendOption h DONT ECHO ts else Returned ts
      else if option = NAWS then Returned ts
      else if action = DO \<or> action = WILL then SendOption h (if uint action \<le> uint WONT then DONT else WONT) option ts
      else Returned ts)"

text \<open>One octet of the input, or the end of it.\<close>

definition read_with ::
  "(ReadBuffer \<Rightarrow> (byte option \<times> ReadBuffer) outcome) \<Rightarrow> TelnetState \<Rightarrow> (TelnetState \<Rightarrow> 'a outcome) \<Rightarrow>
     (byte \<Rightarrow> TelnetState \<Rightarrow> 'a outcome) \<Rightarrow> 'a outcome" where
  "read_with rd ts eos k =
     run (rd (ts_in ts)) (\<lambda>(v, buf).
       let ts = ts\<lparr>ts_in := buf\<rparr> in
       case v of None \<Rightarrow> eos ts | Some v \<Rightarrow> k v ts)"

text \<open>
  The size of the window. When the input ends inside of it the code returns \<open>IC_EOS\<close>, which no
  caller looks at.
\<close>

definition parsesuboption :: "byte \<Rightarrow> TelnetState \<Rightarrow> TelnetState outcome" where
  "parsesuboption suboption ts =
     (if suboption = NAWS then
        read_with ReadEscByte ts Returned (\<lambda>w1 ts.
        read_with ReadEscByte ts Returned (\<lambda>w0 ts.
        read_with ReadEscByte ts Returned (\<lambda>h1 ts.
        read_with ReadEscByte ts Returned (\<lambda>h0 ts.
        read_with ReadByte ts Returned (\<lambda>v1 ts.
        read_with ReadByte ts Returned (\<lambda>v0 ts.
          if v1 = IAC \<and> v0 = SE then
            need (ts_teel ts) (\<lambda>teel.
            run (teel_setdisplaysize (uint w1 * 256 + uint w0) (uint h1 * 256 + uint h0) teel) (\<lambda>teel.
            Returned (ts\<lparr>ts_teel := Some teel\<rparr>)))
          else Fault))))))
      else Returned ts)"

definition mark_input :: "TelnetState \<Rightarrow> TelnetState" where
  "mark_input ts = ts\<lparr>ts_in := ReadMark (ts_in ts)\<rparr>"

section \<open>Edit mode\<close>

text \<open>
  One round of the reader: \<open>Some v\<close> ends it with the value \<open>v\<close>, where \<open>None\<close> is \<open>-1\<close>. When the
  input ends behind the code of an option or a suboption, the value is that code.
\<close>

definition reader_step :: "heap \<Rightarrow> TelnetState \<Rightarrow> (byte option option \<times> TelnetState) outcome" where
  "reader_step h ts =
     read_with ReadByte (mark_input ts) (\<lambda>ts. Returned (Some None, ts)) (\<lambda>val ts.
       if val = IAC then
         read_with ReadByte ts (\<lambda>ts. Returned (Some None, ts)) (\<lambda>val ts.
           if uint WILL \<le> uint val \<and> uint val \<le> uint DONT then
             read_with ReadByte ts (\<lambda>ts. Returned (Some (Some val), ts)) (\<lambda>opt ts.
               run (parseoption h val opt ts) (\<lambda>ts. Returned (None, ts)))
           else if val = SB then
             read_with ReadByte ts (\<lambda>ts. Returned (Some (Some val), ts)) (\<lambda>sopt ts.
               run (parsesuboption sopt ts) (\<lambda>ts. Returned (None, ts)))
           else if val = IP then Returned (Some (Some 3), ts)
           else if val = SUSP then Returned (Some (Some 26), ts)
           else if val = TEOF then Returned (Some (Some 4), ts)
           else if val = IAC then Returned (Some (Some 255), ts)
           else Returned (None, ts))
       else Returned (Some (Some val), ts))"

definition teel_reader :: "heap \<Rightarrow> TelnetState \<Rightarrow> (byte option \<times> TelnetState) outcome" where
  "teel_reader h ts =
     run (while_loop (\<lambda>(r, ts). r = None) (\<lambda>(r, ts). reader_step h ts) (None, ts))
       (\<lambda>(r, ts). Returned (the r, mark_input ts))"

definition tl_flushout :: "heap \<Rightarrow> TelnetState \<Rightarrow> TelnetState outcome" where
  "tl_flushout h ts =
     need (ts_teel ts) (\<lambda>ti.
       if ti_output ti \<noteq> [] then
         run (out_bytes h (ti_output ti) ts) (\<lambda>ts. Returned (ts\<lparr>ts_teel := Some (ti\<lparr>ti_output := []\<rparr>)\<rparr>))
       else Returned ts)"

definition run_step :: "heap \<Rightarrow> TelnetState \<Rightarrow> (TeelCmd option \<times> TelnetState) outcome" where
  "run_step h ts =
     run (tl_flushout h ts) (\<lambda>ts.
     run (teel_reader h ts) (\<lambda>(b, ts). case b of
       None \<Rightarrow> Returned (Some CMD_EOS, ts)
     | Some b \<Rightarrow>
         need (ts_teel ts) (\<lambda>ti.
         run (teel_key b ti) (\<lambda>(cmd, ti).
         Returned (if cmd = Some CMD_NOP then None else cmd, ts\<lparr>ts_teel := Some ti\<rparr>)))))"

definition teel_run :: "heap \<Rightarrow> TelnetState \<Rightarrow> (TeelCmd \<times> TelnetState) outcome" where
  "teel_run h ts =
     run (while_loop (\<lambda>(cmd, ts). cmd = None) (\<lambda>(cmd, ts). run_step h ts) (None, ts)) (\<lambda>(cmd, ts).
     run (tl_flushout h ts) (\<lambda>ts. Returned (the cmd, ts)))"

fun command_of :: "TeelCmd \<Rightarrow> InterpretCommand outcome" where
  "command_of CMD_EOS = Returned IC_EOS"
| "command_of CMD_DONE = Returned IC_LINE"
| "command_of CMD_IP = Returned IC_IP"
| "command_of CMD_SUSP = Returned IC_SUSP"
| "command_of CMD_EOF = Returned IC_CLOSE"
| "command_of CMD_NOP = Fault"

definition processeditmode :: "heap \<Rightarrow> TelnetState \<Rightarrow> (InterpretCommand \<times> TelnetState) outcome" where
  "processeditmode h ts =
     run (while_loop (\<lambda>(tc, ts). tc = CMD_NOP) (\<lambda>(tc, ts). teel_run h ts) (CMD_NOP, ts)) (\<lambda>(tc, ts).
     run (command_of tc) (\<lambda>cmd. Returned (cmd, ts)))"

section \<open>Line mode\<close>

definition line_bytes :: "heap \<Rightarrow> bytes \<Rightarrow> TelnetState \<Rightarrow> TelnetState outcome" where
  "line_bytes h s ts = run (WriteBytes h (linemodebuffer ts) s) (\<lambda>b. Returned (ts\<lparr>linemodebuffer := b\<rparr>))"

definition line_byte :: "heap \<Rightarrow> byte \<Rightarrow> TelnetState \<Rightarrow> TelnetState outcome" where
  "line_byte h v ts = run (WriteByte h (linemodebuffer ts) v) (\<lambda>b. Returned (ts\<lparr>linemodebuffer := b\<rparr>))"

definition break_line :: "heap \<Rightarrow> InterpretCommand \<Rightarrow> TelnetState \<Rightarrow> (InterpretCommand option \<times> TelnetState) outcome" where
  "break_line h cmd ts =
     run (out_bytes h CRLF ts) (\<lambda>ts. Returned (Some cmd, ts\<lparr>linemodebuffer := FreeBuffer (linemodebuffer ts)\<rparr>))"

definition end_line :: "heap \<Rightarrow> TelnetState \<Rightarrow> (InterpretCommand option \<times> TelnetState) outcome" where
  "end_line h ts = run (line_bytes h CRLF ts) (\<lambda>ts. Returned (Some IC_LINE, ts))"

definition close_if_empty :: "TelnetState \<Rightarrow> (InterpretCommand option \<times> TelnetState) outcome" where
  "close_if_empty ts = Returned (if wb_len (linemodebuffer ts) = 0 then Some IC_CLOSE else None, ts)"

definition go_on :: "TelnetState \<Rightarrow> (InterpretCommand option \<times> TelnetState) outcome" where
  "go_on ts = Returned (None, ts)"

definition end_of_input :: "TelnetState \<Rightarrow> (InterpretCommand option \<times> TelnetState) outcome" where
  "end_of_input ts = Returned (Some IC_EOS, ts)"

text \<open>One round of the loop: \<open>Some\<close> command ends it.\<close>

definition line_step :: "heap \<Rightarrow> TelnetState \<Rightarrow> (InterpretCommand option \<times> TelnetState) outcome" where
  "line_step h ts =
     read_with ReadByte (mark_input ts) end_of_input (\<lambda>val ts.
       if val = IAC then
         read_with ReadByte ts end_of_input (\<lambda>val ts.
           if uint WILL \<le> uint val \<and> uint val \<le> uint DONT then
             read_with ReadByte ts end_of_input (\<lambda>opt ts. run (parseoption h val opt ts) go_on)
           else if val = SB then
             read_with ReadByte ts end_of_input (\<lambda>sopt ts. run (parsesuboption sopt ts) go_on)
           else if val = IP then break_line h IC_IP ts
           else if val = SUSP then break_line h IC_SUSP ts
           else if val = TEOF then close_if_empty ts
           else if val = 255 then run (line_byte h 255 ts) go_on
           else go_on ts)
       else if val = 10 then end_line h ts
       else if val = 13 then
         read_with ReadByte ts end_of_input (\<lambda>val ts.
           if val = 0 \<or> val = 10 then end_line h ts
           else run (line_byte h 10 ts) (\<lambda>ts. run (line_byte h val ts) go_on))
       else if val = 4 then close_if_empty ts
       else if val = 3 then break_line h IC_IP ts
       else if val = 19 then break_line h IC_SUSP ts
       else run (line_byte h val ts) go_on)"

definition processlinemode :: "heap \<Rightarrow> TelnetState \<Rightarrow> (InterpretCommand \<times> TelnetState) outcome" where
  "processlinemode h ts =
     run (while_loop (\<lambda>(cmd, ts). cmd = None) (\<lambda>(cmd, ts). line_step h ts) (None, ts))
       (\<lambda>(cmd, ts). Returned (the cmd, ts))"

section \<open>The interface\<close>

text \<open>New input is appended to what is left of the old one.\<close>

definition take_input :: "bytes option \<Rightarrow> ReadBuffer \<Rightarrow> ReadBuffer outcome" where
  "take_input input inp =
     (case input of
        None \<Rightarrow> Returned inp
      | Some new \<Rightarrow>
          if rb_len inp \<noteq> 0 then
            load_n (rb_block inp) (rb_p inp) (rb_len inp) (\<lambda>old.
            Returned \<lparr>rb_allocated = True, rb_block = old @ new, rb_p = 0, rb_mark = 0, rb_len = length old + length new\<rparr>)
          else Returned \<lparr>rb_allocated = False, rb_block = new, rb_p = 0, rb_mark = 0, rb_len = length new\<rparr>)"

text \<open>
  The octets from the mark on are stored, if they are not in a block of the heap already; a block
  that is used up is freed.
\<close>

definition store_unprocessed :: "ReadBuffer \<Rightarrow> ReadBuffer outcome" where
  "store_unprocessed inp =
     (if rb_mark inp < rb_p inp \<and> \<not> rb_allocated inp then
        let len = rb_p inp - rb_mark inp + rb_len inp in
        load_n (rb_block inp) (rb_mark inp) len (\<lambda>rest.
        Returned \<lparr>rb_allocated = True, rb_block = rest, rb_p = 0, rb_mark = 0, rb_len = len\<rparr>)
      else if rb_mark inp = rb_p inp \<and> rb_len inp = 0 \<and> rb_allocated inp then
        Returned \<lparr>rb_allocated = False, rb_block = [], rb_p = 0, rb_mark = 0, rb_len = 0\<rparr>
      else Returned inp)"

definition wb_string :: "WriteBuffer \<Rightarrow> (bytes \<Rightarrow> 'a outcome) \<Rightarrow> 'a outcome" where
  "wb_string buf k = need (wb_mem buf) (\<lambda>m. load_n m 0 (wb_len buf) k)"

text \<open>The octets to send; the buffer is freed.\<close>

definition take_output :: "TelnetState \<Rightarrow> (bytes option \<times> TelnetState) outcome" where
  "take_output ts =
     (if wb_buffer (ts_out ts) \<noteq> WB_NULL
      then wb_string (ts_out ts) (\<lambda>s. Returned (Some s, ts\<lparr>ts_out := FreeBuffer (ts_out ts)\<rparr>))
      else Returned (None, ts))"

definition command_argument :: "InterpretCommand \<Rightarrow> TelnetState \<Rightarrow> (bytes option \<times> TelnetState) outcome" where
  "command_argument cmd ts =
     (if cmd = IC_LINE then
        case ts_editmode ts of
          TELNET_EDIT_MODE \<Rightarrow>
            need (ts_teel ts) (\<lambda>ti.
            run (teel_getline 1 ti) (\<lambda>(line, ti). Returned (Some line, ts\<lparr>ts_teel := Some ti\<rparr>)))
        | TELNET_LINE_MODE \<Rightarrow>
            wb_string (linemodebuffer ts) (\<lambda>line.
            Returned (Some line, ts\<lparr>linemodebuffer := FreeBuffer (linemodebuffer ts)\<rparr>))
      else Returned (None, ts))"

definition l_interpret ::
  "heap \<Rightarrow> bytes option \<Rightarrow> TelnetState \<Rightarrow> ((bool \<times> bytes option \<times> string \<times> bytes option) \<times> TelnetState) outcome" where
  "l_interpret h input ts =
     run (take_input input (ts_in ts)) (\<lambda>inp.
     let ts = ts\<lparr>ts_in := inp\<rparr> in
     run (case ts_editmode ts of TELNET_EDIT_MODE \<Rightarrow> processeditmode h ts | TELNET_LINE_MODE \<Rightarrow> processlinemode h ts) (\<lambda>(cmd, ts).
     let ts = (if cmd \<noteq> IC_EOS then mark_input ts else ts); cmd = (if cmd = IC_EOS then IC_NOP else cmd);
         again = (rb_len (ts_in ts) \<noteq> 0) in
     run (store_unprocessed (ts_in ts)) (\<lambda>inp.
     let ts = ts\<lparr>ts_in := inp\<rparr> in
     run (take_output ts) (\<lambda>(out, ts).
     run (command_argument cmd ts) (\<lambda>(arg, ts).
     Returned ((again, out, ic_names cmd, arg), ts))))))"

text \<open>
  A new interpreter: the mode (line mode when there is none), the size of the history and the
  function for completion. \<open>Inl\<close> is an error raised in Lua.
\<close>

definition l_newinterpreter ::
  "heap \<Rightarrow> (nat \<Rightarrow> bytes) \<Rightarrow> string option \<Rightarrow> int \<Rightarrow> (bytes \<Rightarrow> bytes list) option \<Rightarrow> (string + TelnetState) outcome" where
  "l_newinterpreter h fresh mode historysize complete =
     (let ts = \<lparr>ts_out = new_buffer, ts_in = \<lparr>rb_allocated = False, rb_block = [], rb_p = 0, rb_mark = 0, rb_len = 0\<rparr>,
            ts_editmode = TELNET_LINE_MODE, ts_teel = None, linemodebuffer = new_buffer\<rparr> in
      if mode = None \<or> mode = Some ''line'' then Returned (Inr ts)
      else if mode = Some ''edit'' then
        let ti = teel_initialize fresh in
        run (tl_history_sethistorysize h (history ti) historysize) (\<lambda>hist.
        let ti = teel_setautocompletefunc (case complete of None \<Rightarrow> (\<lambda>_. []) | Some f \<Rightarrow> f) (ti\<lparr>history := hist\<rparr>);
            ts = ts\<lparr>ts_editmode := TELNET_EDIT_MODE, ts_teel := Some ti\<rparr> in
        run (SendOption h DO SUPPRESS_GO_AHEAD ts) (\<lambda>ts.
        run (SendOption h WILL SUPPRESS_GO_AHEAD ts) (\<lambda>ts.
        run (SendOption h WILL ECHO ts) (\<lambda>ts.
        run (SendOption h DO NAWS ts) (\<lambda>ts. Returned (Inr ts))))))
      else Returned (Inl ''mode should be either line or edit''))"

definition l_close :: "TelnetState \<Rightarrow> TelnetState" where
  "l_close ts = ts\<lparr>ts_teel := None, linemodebuffer := FreeBuffer (linemodebuffer ts), ts_out := FreeBuffer (ts_out ts),
     ts_in := (ts_in ts)\<lparr>rb_allocated := False\<rparr>\<rparr>"

definition in_teel :: "(teel \<Rightarrow> teel outcome) \<Rightarrow> TelnetState \<Rightarrow> TelnetState outcome" where
  "in_teel f ts = need (ts_teel ts) (\<lambda>ti. run (f ti) (\<lambda>ti. Returned (ts\<lparr>ts_teel := Some ti\<rparr>)))"

definition l_showprompt :: "heap \<Rightarrow> bytes \<Rightarrow> TelnetState \<Rightarrow> TelnetState outcome" where
  "l_showprompt h p ts =
     (case ts_editmode ts of TELNET_EDIT_MODE \<Rightarrow> in_teel (teel_showprompt p) ts | TELNET_LINE_MODE \<Rightarrow> out_bytes h p ts)"

text \<open>Both passes over the text: the size with the tabs replaced, and the replacement.\<close>

definition TAB_SIZE :: nat where "TAB_SIZE = 8"

fun tab_count :: "bytes \<Rightarrow> nat \<Rightarrow> nat \<Rightarrow> bool \<Rightarrow> nat \<times> bool" where
  "tab_count [] j col found = (j, found)"
| "tab_count (c # cs) j col found =
     (if c = 9 then tab_count cs (j + (TAB_SIZE - col mod TAB_SIZE)) col True
      else tab_count cs (j + 1) (if c = 10 then 0 else col + 1) found)"

fun tab_fill :: "bytes \<Rightarrow> nat \<Rightarrow> nat \<Rightarrow> bytes \<Rightarrow> (bytes \<times> nat) outcome" where
  "tab_fill [] j col b = Returned (b, j)"
| "tab_fill (c # cs) j col b =
     (if c = 9 then
        let k = TAB_SIZE - col mod TAB_SIZE in
        store_at b j (replicate k 0x20) (\<lambda>b. tab_fill cs (j + k) col b)
      else store_at b j [c] (\<lambda>b. tab_fill cs (j + 1) (if c = 10 then 0 else col + 1) b))"

definition tabify :: "heap \<Rightarrow> bytes \<Rightarrow> bytes option outcome" where
  "tabify h buf =
     (let (j, found) = tab_count buf 0 0 False in
      if \<not> found then Returned None
      else need (mem_alloc h j) (\<lambda>b. run (tab_fill buf 0 0 b) (\<lambda>(b, j). load_n b 0 j (\<lambda>s. Returned (Some s)))))"

definition strip_newline :: "bytes \<Rightarrow> bytes" where
  "strip_newline s =
     (let s = (if s \<noteq> [] \<and> last s = 10 then butlast s else s) in if s \<noteq> [] \<and> last s = 13 then butlast s else s)"

definition l_output :: "heap \<Rightarrow> bytes \<Rightarrow> TelnetState \<Rightarrow> TelnetState outcome" where
  "l_output h text ts =
     run (tabify h text) (\<lambda>b.
     let s = (case b of None \<Rightarrow> text | Some s \<Rightarrow> s) in
     case ts_editmode ts of
       TELNET_EDIT_MODE \<Rightarrow> in_teel (\<lambda>ti. run (teel_outputbeforeline (strip_newline s) ti) (\<lambda>(_, ti). Returned ti)) ts
     | TELNET_LINE_MODE \<Rightarrow> out_bytes h s ts)"

definition l_addhistory :: "heap \<Rightarrow> bytes \<Rightarrow> TelnetState \<Rightarrow> TelnetState outcome" where
  "l_addhistory h line ts =
     (case ts_editmode ts of
        TELNET_LINE_MODE \<Rightarrow> Returned ts
      | TELNET_EDIT_MODE \<Rightarrow>
          in_teel (\<lambda>ti. run (teel_addhistory h (history ti) line (length line)) (\<lambda>(_, hist). Returned (ti\<lparr>history := hist\<rparr>))) ts)"

text \<open>
  The loop of the caller (\<open>interpret\<close> in \<open>src/luafwk/shell/shell/telnet.lua\<close>): the interpreter is
  called again, without input, as long as it asks for it. The results are the octets sent and the
  commands other than \<open>nop\<close> with their arguments.
\<close>

definition interpret_step ::
  "heap \<Rightarrow> bool \<times> bytes option \<times> bytes \<times> (string \<times> bytes option) list \<times> TelnetState \<Rightarrow>
     (bool \<times> bytes option \<times> bytes \<times> (string \<times> bytes option) list \<times> TelnetState) outcome" where
  "interpret_step h = (\<lambda>(_, input, sent, cmds, ts).
     run (l_interpret h input ts) (\<lambda>((again, out, cmd, arg), ts).
     Returned (again, None, sent @ (case out of None \<Rightarrow> [] | Some s \<Rightarrow> s),
               cmds @ (if cmd = ''nop'' then [] else [(cmd, arg)]), ts)))"

definition interpret_all :: "heap \<Rightarrow> bytes option \<Rightarrow> TelnetState \<Rightarrow> (bytes \<times> (string \<times> bytes option) list \<times> TelnetState) outcome" where
  "interpret_all h input ts =
     run (while_loop fst (interpret_step h) (True, input, [], [], ts)) (\<lambda>(_, _, sent, cmds, ts). Returned (sent, cmds, ts))"

end
