(* ===== verification/Telnet_Lines.thy ===== *)
theory Telnet_Lines
  imports Telnet_Interpreter
begin

text \<open>
  What the telnet interpreter does in line mode with what a client sends. An \<open>item\<close> is something a
  client sends: a character of the text, the end of a line, an option, an interrupt; \<open>item_octets\<close>
  is its encoding by the telnet protocol. Shown: the items of any block of octets have exactly the
  effect of the protocol. Where a sequence is cut by the end of a block, where the window size is
  sent, and where tabs are expanded the code does not keep what it promises.
\<close>

section \<open>Reading\<close>

definition rest :: "TelnetState \<Rightarrow> bytes" where
  "rest ts = take (rb_len (ts_in ts)) (drop (rb_p (ts_in ts)) (rb_block (ts_in ts)))"

definition in_ok :: "TelnetState \<Rightarrow> bool" where
  "in_ok ts \<longleftrightarrow> rb_p (ts_in ts) + rb_len (ts_in ts) \<le> length (rb_block (ts_in ts))"

text \<open>The state after an octet has been read.\<close>

definition advance :: "TelnetState \<Rightarrow> TelnetState" where
  "advance ts = ts\<lparr>ts_in := (ts_in ts)\<lparr>rb_p := rb_p (ts_in ts) + 1, rb_len := rb_len (ts_in ts) - 1\<rparr>\<rparr>"

lemma length_rest: "in_ok ts \<Longrightarrow> length (rest ts) = rb_len (ts_in ts)"
  by (simp add: rest_def in_ok_def)

lemma read_with_octet:
  assumes "in_ok ts" "rest ts = b # bs"
  shows "read_with ReadByte ts eos k = k b (advance ts)" "in_ok (advance ts)" "rest (advance ts) = bs"
proof -
  from assms have l: "rb_len (ts_in ts) \<noteq> 0" "rb_p (ts_in ts) < length (rb_block (ts_in ts))"
    using length_rest [OF assms(1)] by (auto simp: in_ok_def)
  have d: "drop (rb_p (ts_in ts)) (rb_block (ts_in ts)) = rb_block (ts_in ts) ! rb_p (ts_in ts) # drop (rb_p (ts_in ts) + 1) (rb_block (ts_in ts))"
    using l(2) by (simp add: Cons_nth_drop_Suc)
  with assms(2) l(1) have b: "rb_block (ts_in ts) ! rb_p (ts_in ts) = b" "take (rb_len (ts_in ts) - 1) (drop (rb_p (ts_in ts) + 1) (rb_block (ts_in ts))) = bs"
    by (auto simp: rest_def take_Cons')
  show "read_with ReadByte ts eos k = k b (advance ts)"
    using l b by (simp add: read_with_def ReadByte_def advance_def Let_def)
  show "in_ok (advance ts)" "rest (advance ts) = bs"
    using assms(1) l b by (simp_all add: in_ok_def rest_def advance_def)
qed

lemma read_with_end:
  assumes "in_ok ts" "rest ts = []"
  shows "read_with ReadByte ts eos k = eos ts"
proof -
  have "rb_len (ts_in ts) = 0" using assms length_rest [of ts] by simp
  then show ?thesis by (simp add: read_with_def ReadByte_def)
qed

lemma mark_input_simps [simp]:
  "rest (mark_input ts) = rest ts" "in_ok (mark_input ts) = in_ok ts" "ts_out (mark_input ts) = ts_out ts"
  "linemodebuffer (mark_input ts) = linemodebuffer ts" "ts_editmode (mark_input ts) = ts_editmode ts"
  by (simp_all add: rest_def in_ok_def mark_input_def ReadMark_def)

lemma advance_simps [simp]:
  "ts_out (advance ts) = ts_out ts" "linemodebuffer (advance ts) = linemodebuffer ts" "ts_editmode (advance ts) = ts_editmode ts"
  by (simp_all add: advance_def)

section \<open>What a client sends\<close>

datatype item =
    Char byte
  | Enter | Enter_LF | Enter_CRLF
  | Negotiate byte byte
  | Interrupt | Suspend | End_of_file
  | Other byte

fun item_octets :: "item \<Rightarrow> bytes" where
  "item_octets (Char b) = (if b = 255 then [255, 255] else [b])"
| "item_octets Enter = [13, 0]"
| "item_octets Enter_LF = [10]"
| "item_octets Enter_CRLF = [13, 10]"
| "item_octets (Negotiate a p) = [255, a, p]"
| "item_octets Interrupt = [255, 244]"
| "item_octets Suspend = [255, 237]"
| "item_octets End_of_file = [255, 236]"
| "item_octets (Other c) = [255, c]"

text \<open>
  The characters of the text are not those that the interpreter takes for control characters; other
  commands are not those with a meaning.
\<close>

fun item_ok :: "item \<Rightarrow> bool" where
  "item_ok (Char b) \<longleftrightarrow> b \<notin> {3, 4, 10, 13, 19}"
| "item_ok (Negotiate a p) \<longleftrightarrow> a \<in> {251, 252, 253, 254}"
| "item_ok (Other c) \<longleftrightarrow> c \<notin> {236, 237, 244, 250, 251, 252, 253, 254, 255}"
| "item_ok _ \<longleftrightarrow> True"

text \<open>The answer to an option: what is not known is refused, a refusal is never answered.\<close>

definition reply :: "byte \<Rightarrow> byte \<Rightarrow> bytes" where
  "reply a p =
     (if p \<in> {3, 31} then []
      else if p = 6 then if a = 253 then [255, 251, 6] else []
      else if p = 1 then if a = 251 then [255, 254, 1] else []
      else if a = 253 then [255, 252, p]
      else if a = 251 then [255, 254, p]
      else [])"

text \<open>The line so far, the octets to send, and the command with its argument.\<close>

type_synonym view = "bytes \<times> bytes"

fun effect :: "item \<Rightarrow> view \<Rightarrow> view" where
  "effect (Char b) (line, sent) = (line @ [b], sent)"
| "effect (Negotiate a p) (line, sent) = (line, sent @ reply a p)"
| "effect Interrupt (line, sent) = ([], sent @ [13, 10])"
| "effect Suspend (line, sent) = ([], sent @ [13, 10])"
| "effect End_of_file (line, sent) = (line, sent)"
| "effect (Other c) (line, sent) = (line, sent)"
| "effect _ (line, sent) = (line @ [13, 10], sent)"

fun command :: "item \<Rightarrow> bytes \<Rightarrow> InterpretCommand option" where
  "command Interrupt line = Some IC_IP"
| "command Suspend line = Some IC_SUSP"
| "command End_of_file line = (if line = [] then Some IC_CLOSE else None)"
| "command Enter line = Some IC_LINE"
| "command Enter_LF line = Some IC_LINE"
| "command Enter_CRLF line = Some IC_LINE"
| "command _ line = None"

definition view_of :: "TelnetState \<Rightarrow> view" where
  "view_of ts = (wb_content (linemodebuffer ts), wb_content (ts_out ts))"

definition ts_ok :: "TelnetState \<Rightarrow> bool" where
  "ts_ok ts \<longleftrightarrow> in_ok ts \<and> wb_inv (ts_out ts) \<and> wb_inv (linemodebuffer ts) \<and> ts_editmode ts = TELNET_LINE_MODE"

text \<open>Room for \<open>n\<close> more items.\<close>

definition room :: "TelnetState \<Rightarrow> nat \<Rightarrow> bool" where
  "room ts n \<longleftrightarrow> length (fst (view_of ts)) + 3 * n \<le> wb_limit \<and> length (snd (view_of ts)) + 3 * n \<le> wb_limit"

section \<open>One item\<close>

text \<open>\<open>put_out\<close> and \<open>put_line\<close>: a write to one of the buffers leaves the input alone.\<close>

lemma out_bytes_ok:
  assumes "heap_ok h" "ts_ok ts" "length (wb_content (ts_out ts)) + length s \<le> wb_limit"
  obtains ts' where "out_bytes h s ts = Returned ts'" "ts_ok ts'" "view_of ts' = (fst (view_of ts), snd (view_of ts) @ s)"
    "rest ts' = rest ts" "ts_in ts' = ts_in ts"
proof -
  obtain b where "WriteBytes h (ts_out ts) s = Returned b" "wb_inv b" "wb_content b = wb_content (ts_out ts) @ s"
    using wb.put_obtain [OF assms(1) _ assms(3)] assms(2) by (auto simp: ts_ok_def)
  then show ?thesis
    using assms(2) that [of "ts\<lparr>ts_out := b\<rparr>"] by (simp add: out_bytes_def ts_ok_def view_of_def rest_def in_ok_def)
qed

lemma line_bytes_ok:
  assumes "heap_ok h" "ts_ok ts" "length (wb_content (linemodebuffer ts)) + length s \<le> wb_limit"
  obtains ts' where "line_bytes h s ts = Returned ts'" "ts_ok ts'" "view_of ts' = (fst (view_of ts) @ s, snd (view_of ts))"
    "rest ts' = rest ts" "ts_in ts' = ts_in ts"
proof -
  obtain b where "WriteBytes h (linemodebuffer ts) s = Returned b" "wb_inv b" "wb_content b = wb_content (linemodebuffer ts) @ s"
    using wb.put_obtain [OF assms(1) _ assms(3)] assms(2) by (auto simp: ts_ok_def)
  then show ?thesis
    using assms(2) that [of "ts\<lparr>linemodebuffer := b\<rparr>"] by (simp add: line_bytes_def ts_ok_def view_of_def rest_def in_ok_def)
qed

lemma line_byte_bytes: "line_byte h v ts = line_bytes h [v] ts"
  by (simp add: line_byte_def line_bytes_def WriteByte_WriteBytes)

lemma parseoption_reply:
  assumes "a \<in> {251, 252, 253, 254}"
  shows "parseoption h a p ts = (if reply a p = [] then Returned ts else out_bytes h (reply a p) ts)"
  using assms by (auto simp: parseoption_def reply_def SendOption_def)

definition steps_to :: "heap \<Rightarrow> item \<Rightarrow> bytes \<Rightarrow> TelnetState \<Rightarrow> bool" where
  "steps_to h i bs ts \<longleftrightarrow>
     (\<exists>ts'. line_step h ts = Returned (command i (fst (view_of ts)), ts') \<and> ts_ok ts' \<and> rest ts' = bs \<and>
        view_of ts' = effect i (view_of ts))"

lemma ts_ok_read:
  assumes "ts_ok ts" "rest ts = b # bs"
  shows "read_with ReadByte ts eos k = k b (advance ts)" "ts_ok (advance ts)" "rest (advance ts) = bs" "view_of (advance ts) = view_of ts"
  using assms read_with_octet(1) [of ts b bs eos k] read_with_octet(2, 3) [of ts b bs] by (auto simp: ts_ok_def view_of_def)

lemma ts_ok_mark [simp]: "ts_ok (mark_input ts) = ts_ok ts" "view_of (mark_input ts) = view_of ts"
  by (simp_all add: ts_ok_def view_of_def)

lemma line_step_octet:
  assumes "ts_ok ts" "rest ts = b # bs"
  obtains t where "read_with ReadByte (mark_input ts) eos k = k b t" "ts_ok t" "rest t = bs" "view_of t = view_of ts"
  using ts_ok_read(1) [of "mark_input ts" b bs eos k] ts_ok_read(2-4) [of "mark_input ts" b bs] assms that by auto

lemma step_line:
  assumes "heap_ok h" "ts_ok t" "length (fst (view_of t)) + length s \<le> wb_limit"
  shows "\<exists>ts'. line_bytes h s t = Returned ts' \<and> ts_ok ts' \<and> rest ts' = rest t \<and> view_of ts' = (fst (view_of t) @ s, snd (view_of t))"
  using line_bytes_ok [OF assms(1, 2), of s] assms(3) by (auto simp: view_of_def)

lemma step_out:
  assumes "heap_ok h" "ts_ok t" "length (snd (view_of t)) + length s \<le> wb_limit"
  shows "\<exists>ts'. out_bytes h s t = Returned ts' \<and> ts_ok ts' \<and> rest ts' = rest t \<and> view_of ts' = (fst (view_of t), snd (view_of t) @ s)"
  using out_bytes_ok [OF assms(1, 2), of s] assms(3) by (auto simp: view_of_def)

lemma break_line_ok:
  assumes "heap_ok h" "ts_ok t" "length (snd (view_of t)) + 2 \<le> wb_limit"
  shows "\<exists>ts'. break_line h cmd t = Returned (Some cmd, ts') \<and> ts_ok ts' \<and> rest ts' = rest t \<and> view_of ts' = ([], snd (view_of t) @ [13, 10])"
proof -
  obtain t' where "out_bytes h CRLF t = Returned t'" "ts_ok t'" "rest t' = rest t" "view_of t' = (fst (view_of t), snd (view_of t) @ CRLF)"
    using step_out [OF assms(1, 2), of CRLF] assms(3) by (auto simp: CRLF_def)
  moreover have "ts_ok (t'\<lparr>linemodebuffer := FreeBuffer (linemodebuffer t')\<rparr>)"
    "wb_content (FreeBuffer (linemodebuffer t')) = []" using calculation wb_inv_FreeBuffer by (auto simp: ts_ok_def in_ok_def)
  ultimately show ?thesis by (auto simp: break_line_def view_of_def rest_def CRLF_def)
qed

lemma end_line_ok:
  assumes "heap_ok h" "ts_ok t" "length (fst (view_of t)) + 2 \<le> wb_limit"
  shows "\<exists>ts'. end_line h t = Returned (Some IC_LINE, ts') \<and> ts_ok ts' \<and> rest ts' = rest t \<and> view_of ts' = (fst (view_of t) @ [13, 10], snd (view_of t))"
  using step_line [OF assms(1, 2), of CRLF] assms(3) by (auto simp: end_line_def CRLF_def)

lemma close_if_empty_ok:
  "ts_ok t \<Longrightarrow> close_if_empty t = Returned (if fst (view_of t) = [] then Some IC_CLOSE else None, t)"
  using length_wb_content [of "linemodebuffer t"] by (auto simp: close_if_empty_def view_of_def ts_ok_def)

lemmas item_step = steps_to_def go_on_def line_byte_bytes close_if_empty_ok

text \<open>The rounds of the loop by the first octets of the input.\<close>

lemma line_step_plain:
  assumes "ts_ok ts" "rest ts = b # cs" "b \<noteq> 255" "b \<noteq> 13"
  obtains t where "line_step h ts = (if b = 10 then end_line h t else if b = 4 then close_if_empty t
      else if b = 3 then break_line h IC_IP t else if b = 19 then break_line h IC_SUSP t else run (line_byte h b t) go_on)"
    "ts_ok t" "rest t = cs" "view_of t = view_of ts"
proof (rule that [of "advance (mark_input ts)"])
  show "ts_ok (advance (mark_input ts))" "rest (advance (mark_input ts)) = cs" "view_of (advance (mark_input ts)) = view_of ts"
    using ts_ok_read(2-4) [of "mark_input ts" b cs] assms by simp_all
qed (use assms in \<open>simp add: line_step_def ts_ok_read(1) [of "mark_input ts" b cs]\<close>)

lemma line_step_return:
  assumes "ts_ok ts" "rest ts = 13 # c # cs"
  obtains t where "line_step h ts = (if c = 0 \<or> c = 10 then end_line h t
      else run (line_byte h 10 t) (\<lambda>ts. run (line_byte h c ts) go_on))"
    "ts_ok t" "rest t = cs" "view_of t = view_of ts"
proof -
  let ?t = "advance (mark_input ts)"
  have t: "ts_ok ?t" "rest ?t = c # cs" "view_of ?t = view_of ts"
    using ts_ok_read(2-4) [of "mark_input ts" 13 "c # cs"] assms by simp_all
  have "line_step h ts = (if c = 0 \<or> c = 10 then end_line h (advance ?t)
      else run (line_byte h 10 (advance ?t)) (\<lambda>ts. run (line_byte h c ts) go_on))"
    using assms t by (simp add: line_step_def ts_ok_read(1) [of "mark_input ts" 13 "c # cs"] ts_ok_read(1) [of ?t c cs])
  with that ts_ok_read(2-4) [OF t(1, 2)] t(3) show ?thesis by metis
qed

lemma line_step_command:
  assumes "ts_ok ts" "rest ts = 255 # c # cs"
  obtains t where "line_step h ts =
      (if uint (251 :: byte) \<le> uint c \<and> uint c \<le> uint (254 :: byte) then
         read_with ReadByte t end_of_input (\<lambda>p ts. run (parseoption h c p ts) go_on)
       else if c = 250 then read_with ReadByte t end_of_input (\<lambda>p ts. run (parsesuboption p ts) go_on)
       else if c = 244 then break_line h IC_IP t else if c = 237 then break_line h IC_SUSP t
       else if c = 236 then close_if_empty t else if c = 255 then run (line_byte h 255 t) go_on else go_on t)"
    "ts_ok t" "rest t = cs" "view_of t = view_of ts"
proof -
  let ?t = "advance (mark_input ts)"
  have t: "ts_ok ?t" "rest ?t = c # cs" "view_of ?t = view_of ts"
    using ts_ok_read(2-4) [of "mark_input ts" 255 "c # cs"] assms by simp_all
  show ?thesis
  proof (rule that [of "advance ?t"])
    show "ts_ok (advance ?t)" "rest (advance ?t) = cs" "view_of (advance ?t) = view_of ts"
      using ts_ok_read(2-4) [OF t(1, 2)] t(3) by simp_all
  qed (use assms t in \<open>simp add: line_step_def ts_ok_read(1) [of "mark_input ts" 255 "c # cs"] ts_ok_read(1) [of ?t c cs]\<close>)
qed

lemma line_step_item:
  assumes "heap_ok h" "ts_ok ts" "rest ts = item_octets i @ bs" "item_ok i" "room ts 1"
  shows "steps_to h i bs ts"
proof -
  have lim: "length (fst (view_of ts)) + 3 \<le> wb_limit" "length (snd (view_of ts)) + 3 \<le> wb_limit" using assms(5) by (simp_all add: room_def)
  show ?thesis
  proof (cases i)
    case (Char b)
    show ?thesis
    proof (cases "b = 255")
      case True
      with assms(3) Char have r: "rest ts = 255 # 255 # bs" by simp
      obtain t where t: "line_step h ts = run (line_byte h 255 t) go_on" "ts_ok t" "rest t = bs" "view_of t = view_of ts"
        by (rule line_step_command [OF assms(2) r, of h]) simp
      with step_line [OF assms(1) t(2), of "[255]"] lim True Char show ?thesis by (cases "view_of ts") (auto simp: item_step)
    next
      case False
      with assms(3) Char have r: "rest ts = b # bs" by simp
      obtain t where t: "line_step h ts = run (line_byte h b t) go_on" "ts_ok t" "rest t = bs" "view_of t = view_of ts"
        by (rule line_step_plain [OF assms(2) r, of h]) (use False assms(4) Char in auto)
      with step_line [OF assms(1) t(2), of "[b]"] lim Char show ?thesis by (cases "view_of ts") (auto simp: item_step)
    qed
  next
    case (Negotiate a p)
    with assms(3) have r: "rest ts = 255 # a # p # bs" by simp
    have a: "a \<in> {251, 252, 253, 254}" using assms(4) Negotiate by simp
    obtain t where t: "line_step h ts = read_with ReadByte t end_of_input (\<lambda>p ts. run (parseoption h a p ts) go_on)" "ts_ok t"
        "rest t = p # bs" "view_of t = view_of ts"
      by (rule line_step_command [OF assms(2) r, of h]) (use a in auto)
    note u = ts_ok_read(2-4) [OF t(2, 3)]
    have "length (snd (view_of (advance t))) + length (reply a p) \<le> wb_limit" using lim u(3) t(4) by (auto simp: reply_def)
    with step_out [OF assms(1) u(1), of "reply a p"] t u a Negotiate show ?thesis
      by (cases "view_of ts") (auto simp: item_step ts_ok_read(1) [OF t(2, 3)] parseoption_reply)
  next
    case Enter
    with assms(3) have r: "rest ts = 13 # 0 # bs" by simp
    obtain t where t: "line_step h ts = end_line h t" "ts_ok t" "rest t = bs" "view_of t = view_of ts"
      by (rule line_step_return [OF assms(2) r, of h]) simp
    with end_line_ok [OF assms(1) t(2)] lim Enter show ?thesis by (cases "view_of ts") (auto simp: item_step)
  next
    case Enter_CRLF
    with assms(3) have r: "rest ts = 13 # 10 # bs" by simp
    obtain t where t: "line_step h ts = end_line h t" "ts_ok t" "rest t = bs" "view_of t = view_of ts"
      by (rule line_step_return [OF assms(2) r, of h]) simp
    with end_line_ok [OF assms(1) t(2)] lim Enter_CRLF show ?thesis by (cases "view_of ts") (auto simp: item_step)
  next
    case Enter_LF
    with assms(3) have r: "rest ts = 10 # bs" by simp
    obtain t where t: "line_step h ts = end_line h t" "ts_ok t" "rest t = bs" "view_of t = view_of ts"
      by (rule line_step_plain [OF assms(2) r, of h]) simp_all
    with end_line_ok [OF assms(1) t(2)] lim Enter_LF show ?thesis by (cases "view_of ts") (auto simp: item_step)
  next
    case Interrupt
    with assms(3) have r: "rest ts = 255 # 244 # bs" by simp
    obtain t where t: "line_step h ts = break_line h IC_IP t" "ts_ok t" "rest t = bs" "view_of t = view_of ts"
      by (rule line_step_command [OF assms(2) r, of h]) simp
    with break_line_ok [OF assms(1) t(2)] lim Interrupt show ?thesis by (cases "view_of ts") (auto simp: item_step)
  next
    case Suspend
    with assms(3) have r: "rest ts = 255 # 237 # bs" by simp
    obtain t where t: "line_step h ts = break_line h IC_SUSP t" "ts_ok t" "rest t = bs" "view_of t = view_of ts"
      by (rule line_step_command [OF assms(2) r, of h]) simp
    with break_line_ok [OF assms(1) t(2)] lim Suspend show ?thesis by (cases "view_of ts") (auto simp: item_step)
  next
    case End_of_file
    with assms(3) have r: "rest ts = 255 # 236 # bs" by simp
    obtain t where t: "line_step h ts = close_if_empty t" "ts_ok t" "rest t = bs" "view_of t = view_of ts"
      by (rule line_step_command [OF assms(2) r, of h]) simp
    with End_of_file show ?thesis by (cases "view_of ts") (auto simp: item_step)
  next
    case (Other c)
    with assms(3) have r: "rest ts = 255 # c # bs" by simp
    have c: "c \<notin> {236, 237, 244, 250, 251, 252, 253, 254, 255}" using assms(4) Other by simp
    then have n: "\<not> (uint (251 :: byte) \<le> uint c \<and> uint c \<le> uint (254 :: byte))" by (auto simp: byte_eq_iff)
    obtain t where t: "line_step h ts = go_on t" "ts_ok t" "rest t = bs" "view_of t = view_of ts"
      by (rule line_step_command [OF assms(2) r, of h]) (use c n in auto)
    with Other show ?thesis by (cases "view_of ts") (auto simp: item_step)
  qed
qed

section \<open>A block of items\<close>

text \<open>Up to the first command: the command, the view, and the items behind it.\<close>

fun until_command :: "item list \<Rightarrow> view \<Rightarrow> InterpretCommand \<times> view \<times> item list" where
  "until_command [] v = (IC_EOS, v, [])"
| "until_command (i # is) v =
     (case command i (fst v) of None \<Rightarrow> until_command is (effect i v) | Some c \<Rightarrow> (c, effect i v, is))"

lemma command_not_EOS: "command i line \<noteq> Some IC_EOS"
  by (cases i) auto

abbreviation octets :: "item list \<Rightarrow> bytes" where
  "octets is \<equiv> concat (map item_octets is)"

lemma effect_length:
  "length (fst (effect i v)) \<le> length (fst v) + 3" "length (snd (effect i v)) \<le> length (snd v) + 3"
  by (cases v; cases i; simp add: reply_def)+

lemma room_effect:
  assumes "room ts (Suc n)" "view_of ts' = effect i (view_of ts)"
  shows "room ts' n"
  using assms effect_length [of i "view_of ts"] by (simp add: room_def)

lemma processlinemode_items:
  assumes "heap_ok h" "ts_ok ts" "rest ts = octets is" "list_all item_ok is" "room ts (length is)"
  shows "case until_command is (view_of ts) of (cmd, v, is') \<Rightarrow>
    \<exists>ts'. processlinemode h ts = Returned (cmd, ts') \<and> ts_ok ts' \<and> rest ts' = octets is' \<and> view_of ts' = v \<and>
      (cmd = IC_EOS \<longrightarrow> rb_mark (ts_in ts') = rb_p (ts_in ts'))"
  using assms(2-)
proof (induction "is" arbitrary: ts)
  case Nil
  have "line_step h ts = Returned (Some IC_EOS, mark_input ts)"
    using Nil.prems by (simp add: line_step_def read_with_end end_of_input_def ts_ok_def)
  then have "processlinemode h ts = Returned (IC_EOS, mark_input ts)"
    by (simp add: processlinemode_def while_loop_step)
  moreover have "rb_mark (ts_in (mark_input ts)) = rb_p (ts_in (mark_input ts))" by (simp add: mark_input_def ReadMark_def)
  ultimately show ?case using Nil.prems by simp
next
  case (Cons i "is")
  have "steps_to h i (octets is) ts"
    using line_step_item [OF assms(1) Cons.prems(1), of i "octets is"] Cons.prems by (simp add: room_def)
  then obtain t where t: "line_step h ts = Returned (command i (fst (view_of ts)), t)" "ts_ok t" "rest t = octets is"
      "view_of t = effect i (view_of ts)" by (auto simp: steps_to_def)
  show ?case
  proof (cases "command i (fst (view_of ts))")
    case None
    then have "processlinemode h ts = processlinemode h t"
      using t(1) by (simp add: processlinemode_def while_loop_step [of _ "(None, ts)"])
    with Cons.IH [OF t(2, 3)] t(4) None Cons.prems room_effect [of ts "length is" t i] show ?thesis by simp
  next
    case (Some c)
    then have "processlinemode h ts = Returned (c, t)"
      using t(1) by (simp add: processlinemode_def while_loop_step [of _ "(None, ts)"])
    with Some t command_not_EOS [of i "fst (view_of ts)"] show ?thesis by auto
  qed
qed

section \<open>All commands of a block\<close>

text \<open>What the caller receives: the octets sent, the commands with the lines, and the line begun.\<close>

fun commands :: "item list \<Rightarrow> view \<Rightarrow> bytes \<times> (string \<times> bytes option) list \<times> bytes" where
  "commands [] v = (snd v, [], fst v)"
| "commands (i # is) v =
     (let v' = effect i v in
      case command i (fst v) of
        None \<Rightarrow> commands is v'
      | Some c \<Rightarrow>
          let (sent, cmds, line) = commands is (if c = IC_LINE then [] else fst v', []) in
          (snd v' @ sent, (ic_names c, if c = IC_LINE then Some (fst v') else None) # cmds, line))"

lemma commands_until:
  "commands is v = (case until_command is v of (c, v', is') \<Rightarrow>
     if c = IC_EOS then (snd v', [], fst v')
     else let (sent, cmds, line) = commands is' (if c = IC_LINE then [] else fst v', []) in
       (snd v' @ sent, (ic_names c, if c = IC_LINE then Some (fst v') else None) # cmds, line))"
  by (induction "is" arbitrary: v) (auto simp: Let_def command_not_EOS split: option.splits prod.splits)

lemma octets_Nil [simp]: "octets is = [] \<longleftrightarrow> is = []"
proof -
  have "item_octets i \<noteq> []" for i by (cases i) auto
  then show ?thesis by (cases "is") auto
qed

lemma until_command_EOS: "until_command is v = (IC_EOS, v', is') \<Longrightarrow> is' = []"
  by (induction "is" arbitrary: v) (auto simp: command_not_EOS split: option.splits)

lemma command_not_NOP: "command i line \<noteq> Some IC_NOP"
  by (cases i) auto

lemma until_command_not_NOP: "until_command is v \<noteq> (IC_NOP, v', is')"
  by (induction "is" arbitrary: v) (auto simp: command_not_NOP split: option.splits)

lemma until_command_shorter: "until_command is v = (c, v', is') \<Longrightarrow> c \<noteq> IC_EOS \<Longrightarrow> length is' < length is"
  by (induction "is" arbitrary: v) (fastforce split: option.splits)+

lemma until_command_line: "until_command is v = (IC_LINE, v', is') \<Longrightarrow> fst v' \<noteq> []"
proof (induction "is" arbitrary: v)
  case (Cons i "is")
  then show ?case by (cases v; cases i) (auto split: if_splits)
qed simp

lemma until_command_items: "until_command is v = (c, v', is') \<Longrightarrow> list_all item_ok is \<Longrightarrow> list_all item_ok is'"
  by (induction "is" arbitrary: v) (auto split: option.splits)

lemma until_command_room:
  assumes "until_command is v = (c, v', is')" "length (fst v) + 3 * length is \<le> N" "length (snd v) + 3 * length is \<le> N"
  shows "length (fst v') + 3 * length is' \<le> N \<and> length (snd v') + 3 * length is' \<le> N"
  using assms
proof (induction "is" arbitrary: v)
  case (Cons i "is")
  show ?case
  proof (cases "command i (fst v)")
    case None
    with Cons.IH [of "effect i v"] Cons.prems effect_length [of i v] show ?thesis by simp
  next
    case (Some c')
    with Cons.prems effect_length [of i v] show ?thesis by auto
  qed
qed simp

text \<open>The input after a call: its mark is at its position, and a block that is used up is freed.\<close>

lemma store_unprocessed_marked:
  assumes "in_ok ts" "rb_mark (ts_in ts) = rb_p (ts_in ts)"
  shows "\<exists>inp. store_unprocessed (ts_in ts) = Returned inp \<and> in_ok (ts\<lparr>ts_in := inp\<rparr>) \<and> rest (ts\<lparr>ts_in := inp\<rparr>) = rest ts"
  using assms by (auto simp: store_unprocessed_def in_ok_def rest_def)

lemma wb_string_content: "wb_inv buf \<Longrightarrow> wb_buffer buf \<noteq> WB_NULL \<Longrightarrow> wb_string buf k = k (wb_content buf)"
  by (auto simp: wb_string_def wb_inv_def wb_mem_def wb_content_def load_n_in split: wb_ptr.splits)

lemma wb_content_NULL: "wb_buffer buf = WB_NULL \<Longrightarrow> wb_content buf = []"
  by (simp add: wb_content_def wb_mem_def)

definition sent_by :: "bytes option \<Rightarrow> bytes" where
  "sent_by out = (case out of None \<Rightarrow> [] | Some s \<Rightarrow> s)"

lemma command_argument_line:
  assumes "ts_ok ts" "cmd = IC_LINE \<Longrightarrow> fst (view_of ts) \<noteq> []"
  shows "\<exists>ts'. command_argument cmd ts = Returned (if cmd = IC_LINE then Some (fst (view_of ts)) else None, ts') \<and> ts_ok ts' \<and>
    rest ts' = rest ts \<and> view_of ts' = (if cmd = IC_LINE then [] else fst (view_of ts), snd (view_of ts))"
proof (cases "cmd = IC_LINE")
  case True
  then have "wb_buffer (linemodebuffer ts) \<noteq> WB_NULL" using assms(2) wb_content_NULL by (auto simp: view_of_def)
  then show ?thesis
    using assms(1) True wb_inv_FreeBuffer [of "linemodebuffer ts"]
    by (auto simp: command_argument_def ts_ok_def wb_string_content view_of_def rest_def in_ok_def)
qed (use assms(1) in \<open>auto simp: command_argument_def\<close>)

lemma take_output_ok:
  assumes "ts_ok ts"
  shows "\<exists>out ts'. take_output ts = Returned (out, ts') \<and> sent_by out = snd (view_of ts) \<and> ts_ok ts' \<and> rest ts' = rest ts \<and>
    view_of ts' = (fst (view_of ts), [])"
  using assms wb_inv_FreeBuffer [of "ts_out ts"] wb_content_NULL [of "ts_out ts"]
  by (auto simp: take_output_def sent_by_def ts_ok_def wb_string_content view_of_def rest_def in_ok_def)

lemma l_interpret_items:
  assumes "heap_ok h" "ts_ok ts" "rest ts = octets is" "list_all item_ok is" "room ts (length is)"
    and u: "until_command is (view_of ts) = (c, v, is')"
  shows "\<exists>out ts'. l_interpret h None ts =
      Returned ((is' \<noteq> [], out, ic_names c, if c = IC_LINE then Some (fst v) else None), ts') \<and>
    sent_by out = snd v \<and> ts_ok ts' \<and> rest ts' = octets is' \<and> view_of ts' = (if c = IC_LINE then [] else fst v, [])"
proof -
  obtain t where t: "processlinemode h ts = Returned (c, t)" "ts_ok t" "rest t = octets is'" "view_of t = v"
      "c = IC_EOS \<Longrightarrow> rb_mark (ts_in t) = rb_p (ts_in t)"
    using processlinemode_items [OF assms(1-5)] u by auto
  define m where "m = (if c \<noteq> IC_EOS then mark_input t else t)"
  have m: "ts_ok m" "rest m = octets is'" "view_of m = v" "rb_mark (ts_in m) = rb_p (ts_in m)"
    using t by (auto simp: m_def) (simp add: mark_input_def ReadMark_def)
  have "length (octets is') = rb_len (ts_in m)" using length_rest [of m] m(1, 2) by (simp add: ts_ok_def)
  then have again: "rb_len (ts_in m) \<noteq> 0 \<longleftrightarrow> is' \<noteq> []" using octets_Nil [of is'] by (metis length_0_conv)
  obtain inp where inp: "store_unprocessed (ts_in m) = Returned inp" "in_ok (m\<lparr>ts_in := inp\<rparr>)" "rest (m\<lparr>ts_in := inp\<rparr>) = rest m"
    using store_unprocessed_marked [of m] m by (auto simp: ts_ok_def)
  let ?s = "m\<lparr>ts_in := inp\<rparr>"
  have s: "ts_ok ?s" "view_of ?s = v" using m inp(2) by (simp_all add: ts_ok_def view_of_def)
  obtain out w where w: "take_output ?s = Returned (out, w)" "sent_by out = snd v" "ts_ok w" "rest w = octets is'" "view_of w = (fst v, [])"
    using take_output_ok [OF s(1)] s(2) inp(3) m(2) by auto
  define d where "d = (if c = IC_EOS then IC_NOP else c)"
  obtain x where x: "command_argument d w = Returned (if c = IC_LINE then Some (fst v) else None, x)" "ts_ok x" "rest x = octets is'"
      "view_of x = (if c = IC_LINE then [] else fst v, [])"
  proof -
    have d: "d = IC_LINE \<longleftrightarrow> c = IC_LINE" by (simp add: d_def)
    have "c = IC_LINE \<Longrightarrow> fst (view_of w) \<noteq> []" using until_command_line u w(5) by auto
    with command_argument_line [OF w(3), of d] d obtain x where "command_argument d w = Returned (if d = IC_LINE then Some (fst (view_of w)) else None, x)"
        "ts_ok x" "rest x = rest w" "view_of x = (if d = IC_LINE then [] else fst (view_of w), snd (view_of w))" by auto
    then show ?thesis using that [of x] w(4, 5) d by simp
  qed
  have n: "ic_names d = ic_names c" by (simp add: d_def)
  have "l_interpret h None ts = Returned ((is' \<noteq> [], out, ic_names c, if c = IC_LINE then Some (fst v) else None), x)"
    using assms(2) t(1) inp(1) w(1) x(1) again n
    by (simp add: l_interpret_def take_input_def ts_ok_def m_def [symmetric] d_def [symmetric] Let_def)
  with w(2) x show ?thesis by blast
qed

lemma interpret_loop:
  assumes "heap_ok h" "ts_ok ts" "rest ts = octets is" "list_all item_ok is" "room ts (length is)"
    and "commands is (view_of ts) = (s, cs, line)"
  shows "\<exists>ts'. while_loop fst (interpret_step h) (True, None, sent, cmds, ts) = Returned (False, None, sent @ s, cmds @ cs, ts') \<and>
    ts_ok ts' \<and> rest ts' = [] \<and> view_of ts' = (line, [])"
  using assms(2-)
proof (induction "length is" arbitrary: "is" ts sent cmds s cs line rule: less_induct)
  case less
  obtain c v is' where u: "until_command is (view_of ts) = (c, v, is')" by (metis prod_cases3)
  obtain out t where t: "l_interpret h None ts = Returned ((is' \<noteq> [], out, ic_names c, if c = IC_LINE then Some (fst v) else None), t)"
      "sent_by out = snd v" "ts_ok t" "rest t = octets is'" "view_of t = (if c = IC_LINE then [] else fst v, [])"
    using l_interpret_items [OF assms(1) less.prems(1-4) u] by blast
  have step: "while_loop fst (interpret_step h) (True, None, sent, cmds, ts) = while_loop fst (interpret_step h)
      (is' \<noteq> [], None, sent @ snd v, cmds @ (if ic_names c = ''nop'' then [] else [(ic_names c, if c = IC_LINE then Some (fst v) else None)]), t)"
    using t(1, 2) by (simp add: while_loop_step interpret_step_def sent_by_def)
  show ?case
  proof (cases "c = IC_EOS")
    case True
    with until_command_EOS [of "is" "view_of ts" v is'] u have "is' = []" by simp
    with True step t(3-5) u less.prems(5) show ?thesis by (auto simp: commands_until [of "is"])
  next
    case False
    have nop: "ic_names c \<noteq> ''nop''" using until_command_not_NOP [of "is" "view_of ts" v is'] u False by (cases c) auto
    obtain s2 cs2 l2 where c2: "commands is' (view_of t) = (s2, cs2, l2)" by (metis prod_cases3)
    have res: "s = snd v @ s2" "cs = (ic_names c, if c = IC_LINE then Some (fst v) else None) # cs2" "line = l2"
      using less.prems(5) u False c2 t(5) by (auto simp: commands_until [of "is"] Let_def)
    show ?thesis
    proof (cases "is' = []")
      case True
      with c2 t(5) have "s2 = []" "cs2 = []" "l2 = fst (view_of t)" by auto
      with step True res nop t(3-5) show ?thesis by auto
    next
      case False
      have "length is' < length is" using until_command_shorter [OF u] \<open>c \<noteq> IC_EOS\<close> by simp
      moreover have "list_all item_ok is'" using until_command_items [OF u less.prems(3)] .
      moreover have "room t (length is')"
        using until_command_room [OF u, of wb_limit] less.prems(4) t(5) by (auto simp: room_def)
      ultimately show ?thesis
        using less.hyps [OF _ t(3, 4) _ _ c2, of "sent @ snd v" "cmds @ [(ic_names c, if c = IC_LINE then Some (fst v) else None)]"]
          step False nop res by auto
    qed
  qed
qed

text \<open>A block of octets that arrives when the previous one is used up.\<close>

lemma l_interpret_block:
  assumes "rb_len (ts_in ts) = 0"
  shows "l_interpret h (Some bs) ts = l_interpret h None
    (ts\<lparr>ts_in := \<lparr>rb_allocated = False, rb_block = bs, rb_p = 0, rb_mark = 0, rb_len = length bs\<rparr>\<rparr>)"
  using assms by (simp add: l_interpret_def take_input_def Let_def)

lemma telnet_block:
  assumes "heap_ok h" "ts_ok ts" "rb_len (ts_in ts) = 0" "list_all item_ok is" "room ts (length is)"
    and "commands is (view_of ts) = (sent, cmds, line)"
  shows "\<exists>ts'. interpret_all h (Some (octets is)) ts = Returned (sent, cmds, ts') \<and>
    ts_ok ts' \<and> rest ts' = [] \<and> view_of ts' = (line, [])"
proof -
  let ?ts = "ts\<lparr>ts_in := \<lparr>rb_allocated = False, rb_block = octets is, rb_p = 0, rb_mark = 0, rb_len = length (octets is)\<rparr>\<rparr>"
  have ok: "ts_ok ?ts" "rest ?ts = octets is" "view_of ?ts = view_of ts" "room ?ts (length is)"
    using assms(2, 5) by (simp_all add: ts_ok_def in_ok_def rest_def view_of_def room_def)
  have "interpret_step h (True, Some (octets is), [], [], ts) = interpret_step h (True, None, [], [], ?ts)"
    using l_interpret_block [OF assms(3), of h "octets is"] by (simp add: interpret_step_def)
  then have "interpret_all h (Some (octets is)) ts =
      run (while_loop fst (interpret_step h) (True, None, [], [], ?ts)) (\<lambda>(_, _, sent, cmds, ts). Returned (sent, cmds, ts))"
    by (simp add: interpret_all_def while_loop_step)
  with interpret_loop [OF assms(1) ok(1, 2) assms(4) ok(4), of sent cmds line "[]" "[]"] assms(6) ok(3) show ?thesis by auto
qed


definition line_state :: TelnetState where
  "line_state = \<lparr>ts_out = new_buffer, ts_in = \<lparr>rb_allocated = False, rb_block = [], rb_p = 0, rb_mark = 0, rb_len = 0\<rparr>,
     ts_editmode = TELNET_LINE_MODE, ts_teel = None, linemodebuffer = new_buffer\<rparr>"

lemma line_state_ok: "ts_ok line_state" "rb_len (ts_in line_state) = 0" "view_of line_state = ([], [])"
  by (simp_all add: line_state_def ts_ok_def in_ok_def view_of_def)

lemma line_state_new: "l_newinterpreter h f None n g = Returned (Inr line_state)"
  by (simp add: l_newinterpreter_def line_state_def Let_def)


end
