(* ===== verification/Telnet_Keys.thy ===== *)
theory Telnet_Keys
  imports Telnet_Teel
begin

text \<open>
  The search for key sequences. The octets of a sequence are given one by one to \<open>seq_search\<close>, which
  keeps its place in the sorted table. Every sequence of the table is recognised; but as the search
  goes on to smaller sequences without comparing what was typed before, so are some that are not in
  the table.
\<close>

definition key_map :: "act KeySeqAction list" where
  "key_map = foldr insert_ksa defaultksa []"

lemma key_map_sorted [code]:
  "key_map =
    [SEQ [1] Act_movetostartpos,
     SEQ [3] Act_ip,
     SEQ [4] Act_eof,
     SEQ [5] Act_movetoendpos,
     SEQ [0x08] Act_backspace,
     SEQ [9] Act_autocomplete,
     SEQ [10] Act_editdone,
     SEQ [13, 0] Act_editdone,
     SEQ [13, 10] Act_editdone,
     SEQ [26] Act_susp,
     SEQ [0x1b, 10] Act_linebreak,
     SEQ [0x1b, 13, 0] Act_linebreak,
     SEQ [0x1b, 0x1b, 0x5b, 0x33, 0x7e] Act_deletenextword,
     SEQ [0x1b, 0x1b, 0x5b, 0x43] Act_movetonextword,
     SEQ [0x1b, 0x1b, 0x5b, 0x44] Act_movetoprevword,
     SEQ [0x1b, 0x4f, 0x46] Act_movetoendpos,
     SEQ [0x1b, 0x4f, 0x48] Act_movetostartpos,
     SEQ [0x1b, 0x5b, 0x31, 0x3b, 0x33, 0x43] Act_movetonextword,
     SEQ [0x1b, 0x5b, 0x31, 0x3b, 0x33, 0x44] Act_movetoprevword,
     SEQ [0x1b, 0x5b, 0x31, 0x7e] Act_movetostartpos,
     SEQ [0x1b, 0x5b, 0x32, 0x34, 0x7e] Act_debugF12,
     SEQ [0x1b, 0x5b, 0x32, 0x7e] Act_overwriteinserttoggle,
     SEQ [0x1b, 0x5b, 0x33, 0x3b, 0x33, 0x7e] Act_deletenextword,
     SEQ [0x1b, 0x5b, 0x33, 0x7e] Act_delete,
     SEQ [0x1b, 0x5b, 0x34, 0x7e] Act_movetoendpos,
     SEQ [0x1b, 0x5b, 0x37, 0x7e] Act_movetostartpos,
     SEQ [0x1b, 0x5b, 0x38, 0x7e] Act_movetoendpos,
     SEQ [0x1b, 0x5b, 0x41] Act_historypreventry,
     SEQ [0x1b, 0x5b, 0x42] Act_historynextentry,
     SEQ [0x1b, 0x5b, 0x43] Act_moveright,
     SEQ [0x1b, 0x5b, 0x44] Act_moveleft,
     SEQ [0x1b, 0x5b, 0x46] Act_movetoendpos,
     SEQ [0x1b, 0x5b, 0x48] Act_movetostartpos,
     SEQ [0x1b, 0x7f] Act_deleteprevword,
     SEQ [0x7f] Act_backspace]"
  by code_simp

text \<open>The action of a sequence of octets, when the last one completes a sequence.\<close>

fun recognise :: "bytes \<Rightarrow> int \<Rightarrow> int \<Rightarrow> act option outcome" where
  "recognise [] pos cur = Returned None"
| "recognise (b # bs) pos cur =
     run (seq_search key_map b pos cur) (\<lambda>(found, pos, cur).
       if found = 2 then if bs = [] then elem_at key_map cur (\<lambda>s. Returned (Some (func s))) else Returned None
       else if found = 1 then recognise bs pos cur
       else Returned None)"

definition typed_sequence :: "bytes \<Rightarrow> act option outcome" where
  "typed_sequence bs = recognise bs 0 (int (length key_map) - 1)"

lemma key_map_initial: "ti_map (teel_initialize b) = key_map" "currseq (teel_initialize b) = int (length key_map) - 1"
proof -
  have "length (foldr insert_ksa m []) = length m" for m
  proof -
    have "length (insert_ksa a bs) = Suc (length bs)" for a bs by (induction bs) auto
    then show ?thesis by (induction m) auto
  qed
  then show "ti_map (teel_initialize b) = key_map" "currseq (teel_initialize b) = int (length key_map) - 1"
    by (simp_all add: teel_initialize_def key_map_def tl_setkeyseqact_map_def reset_search_def tl_editor_init_def with_editor_def Let_def)
qed

declare seq_search.simps [code]

text \<open>
  Each key sequence of the table, typed octet by octet, is recognised with its last octet and
  calls the action it is bound to.
\<close>

theorem key_sequences_recognised:
  "list_all (\<lambda>k. typed_sequence (seq k) = Returned (Some (func k))) defaultksa"
  by code_simp

text \<open>
  The sequence \<open>ESC [ 3 4 ~\<close> (the function key F20 of a terminal) is not in the table and is
  recognised as F12, and \<open>ESC [ 4 ; 3 ~\<close> deletes the next word: the search compares only the
  current octet, so that it goes over from a sequence with another beginning.
\<close>

theorem key_sequences_confused:
  "typed_sequence [0x1b, 0x5b, 0x33, 0x34, 0x7e] = Returned (Some Act_debugF12) \<and>
   typed_sequence [0x1b, 0x5b, 0x34, 0x3b, 0x33, 0x7e] = Returned (Some Act_deletenextword) \<and>
   list_all (\<lambda>k. seq k \<noteq> [0x1b, 0x5b, 0x33, 0x34, 0x7e] \<and> seq k \<noteq> [0x1b, 0x5b, 0x34, 0x3b, 0x33, 0x7e]) defaultksa"
  by code_simp

end
