(* ===== verification/Telnet_Limits.thy ===== *)
theory Telnet_Limits
  imports Telnet_Lines Telnet_Keys
begin

text \<open>
  Where the telnet interpreter does not keep what it promises: sequences that are cut by the ends of
  blocks, the window size in line mode, and the expansion of tabs behind the first one of a line.
\<close>

section \<open>Sequences that are cut\<close>

text \<open>A state between two calls: nothing to send and no octet left.\<close>

definition idle :: "TelnetState \<Rightarrow> bool" where
  "idle ts \<longleftrightarrow> ts_ok ts \<and> rb_len (ts_in ts) = 0 \<and> wb_buffer (ts_out ts) = WB_NULL"

text \<open>A call that ends inside of a sequence.\<close>

lemma l_interpret_cut:
  assumes "ts_editmode ts = TELNET_LINE_MODE" "wb_buffer (ts_out ts) = WB_NULL" "take_input input (ts_in ts) = Returned inp"
    and "line_step h (ts\<lparr>ts_in := inp\<rparr>) = Returned (Some IC_EOS, ts\<lparr>ts_in := inp'\<rparr>)" "rb_len inp' = 0"
    and "store_unprocessed inp' = Returned inp''"
  shows "interpret_all h input ts = Returned ([], [], ts\<lparr>ts_in := inp''\<rparr>)"
proof -
  have "processlinemode h (ts\<lparr>ts_in := inp\<rparr>) = Returned (IC_EOS, ts\<lparr>ts_in := inp'\<rparr>)"
    using assms(4) by (simp add: processlinemode_def while_loop_step)
  then have "l_interpret h input ts = Returned ((False, None, ''nop'', None), ts\<lparr>ts_in := inp''\<rparr>)"
    using assms by (simp add: l_interpret_def Let_def take_output_def command_argument_def)
  then show ?thesis by (simp add: interpret_all_def while_loop_step interpret_step_def)
qed

lemmas read_simps = line_step_def mark_input_def ReadMark_def read_with_def ReadByte_def end_of_input_def Let_def

text \<open>
  An option that arrives one octet at a time is lost: the first octet is stored, the first two
  are merged into a block of the heap that is not set back to the mark, and the third one arrives as
  a character of the line. The option is not answered.
\<close>

theorem cut_option_lost:
  assumes "heap_ok h" "idle ts" "a \<in> {251, 252, 253, 254}" "item_ok (Char p)" "p \<noteq> 255" "room ts 1"
  shows "\<exists>ts'. run (interpret_all h (Some [255]) ts) (\<lambda>(s1, c1, ts).
      run (interpret_all h (Some [a]) ts) (\<lambda>(s2, c2, ts).
      run (interpret_all h (Some [p]) ts) (\<lambda>(s3, c3, ts). Returned (s1 @ s2 @ s3, c1 @ c2 @ c3, ts)))) =
        Returned ([], [], ts') \<and> view_of ts' = (fst (view_of ts) @ [p], [])"
proof -
  let ?i1 = "\<lparr>rb_allocated = True, rb_block = [255], rb_p = 0, rb_mark = 0, rb_len = 1\<rparr>"
  let ?i2 = "\<lparr>rb_allocated = True, rb_block = [255, a], rb_p = 2, rb_mark = 0, rb_len = 0\<rparr>"
  have out: "snd (view_of t) = []" if "ts_out t = ts_out ts" for t
    using assms(2) that by (simp add: idle_def view_of_def wb_content_NULL)
  have m: "ts_editmode ts = TELNET_LINE_MODE" "wb_buffer (ts_out ts) = WB_NULL" using assms(2) by (simp_all add: idle_def ts_ok_def)
  have i1: "take_input (Some [255]) (ts_in ts) = Returned \<lparr>rb_allocated = False, rb_block = [255], rb_p = 0, rb_mark = 0, rb_len = 1\<rparr>"
    using assms(2) by (simp add: take_input_def idle_def)
  have 1: "interpret_all h (Some [255]) ts = Returned ([], [], ts\<lparr>ts_in := ?i1\<rparr>)"
    by (rule l_interpret_cut [OF m i1, where inp' = "\<lparr>rb_allocated = False, rb_block = [255], rb_p = 1, rb_mark = 0, rb_len = 0\<rparr>"])
      (simp_all add: read_simps store_unprocessed_def load_n_in)
  have 2: "interpret_all h (Some [a]) (ts\<lparr>ts_in := ?i1\<rparr>) = Returned ([], [], ts\<lparr>ts_in := ?i2\<rparr>)"
    using l_interpret_cut [where ts = "ts\<lparr>ts_in := ?i1\<rparr>" and input = "Some [a]" and h = h and inp' = ?i2 and inp'' = ?i2
        and inp = "\<lparr>rb_allocated = True, rb_block = [255, a], rb_p = 0, rb_mark = 0, rb_len = 2\<rparr>"] assms(3) m
    by (auto simp: take_input_def load_n_in read_simps store_unprocessed_def)
  let ?t = "ts\<lparr>ts_in := ?i2\<rparr>"
  have t: "ts_ok ?t" "rb_len (ts_in ?t) = 0" "view_of ?t = view_of ts" "room ?t (length [Char p])"
    using assms(2, 6) by (simp_all add: idle_def ts_ok_def in_ok_def view_of_def room_def)
  have "commands [Char p] (view_of ?t) = ([], [], fst (view_of ts) @ [p])"
    using out [of ts] t(3) by (cases "view_of ts") auto
  with telnet_block [OF assms(1) t(1, 2) _ t(4)] assms(4, 5) obtain ts' where
    "interpret_all h (Some [p]) ?t = Returned ([], [], ts')" "view_of ts' = (fst (view_of ts) @ [p], [])" by auto
  with 1 2 show ?thesis by auto
qed

theorem cut_option_lost_witness:
  "\<exists>ts'. run (interpret_all sample_heap (Some [255]) line_state) (\<lambda>(s1, c1, ts).
      run (interpret_all sample_heap (Some [253]) ts) (\<lambda>(s2, c2, ts).
      run (interpret_all sample_heap (Some [6]) ts) (\<lambda>(s3, c3, ts). Returned (s1 @ s2 @ s3, c1 @ c2 @ c3, ts)))) =
        Returned ([], [], ts') \<and> view_of ts' = ([6], [])"
proof -
  have i: "idle line_state" using line_state_ok by (simp add: idle_def) (simp add: line_state_def new_buffer_def)
  have "room line_state 1" by (simp add: room_def line_state_ok wb_limit_def)
  with cut_option_lost [OF sample_heap_ok i, of 253 6] line_state_ok(3) show ?thesis by simp
qed

section \<open>The window size in line mode\<close>

text \<open>
  In line mode there is no editor. A client that sends the size of its window, which the protocol
  allows at any time, makes the interpreter go through the null pointer of the editor.
\<close>

theorem window_size_line_mode_fault:
  assumes "idle ts" "ts_teel ts = None" "255 \<notin> {w1, w0, h1, h0}"
  shows "l_interpret h (Some ([255, 250, 31, w1, w0, h1, h0, 255, 240] @ bs)) ts = Fault"
proof -
  define X where "X = [255, 250, 31, w1, w0, h1, h0, 255, 240] @ bs"
  let ?t = "ts\<lparr>ts_in := \<lparr>rb_allocated = False, rb_block = X, rb_p = 0, rb_mark = 0, rb_len = length X\<rparr>\<rparr>"
  have "line_step h ?t = Fault"
    using assms(2, 3) by (simp add: X_def read_simps ReadEscByte_def parsesuboption_def)
  then have "processlinemode h ?t = Fault" by (simp add: processlinemode_def while_loop_step)
  then have "l_interpret h None ?t = Fault" using assms(1) by (simp add: l_interpret_def take_input_def idle_def ts_ok_def)
  then show ?thesis using l_interpret_block [of ts h X] assms(1) by (simp add: idle_def X_def)
qed

theorem window_size_line_mode_fault_witness:
  "l_interpret sample_heap (Some [255, 250, 31, 0, 80, 0, 24, 255, 240]) line_state = Fault"
proof -
  have i: "idle line_state" using line_state_ok by (simp add: idle_def) (simp add: line_state_def new_buffer_def)
  have "ts_teel line_state = None" by (simp add: line_state_def)
  from window_size_line_mode_fault [OF i this, of 0 80 0 24 sample_heap "[]"] show ?thesis by simp
qed

section \<open>Tabs\<close>

text \<open>The expansion of tabs to the next multiple of 8, and texts with at most one tab on a line.\<close>

fun expand_tabs :: "bytes \<Rightarrow> nat \<Rightarrow> bytes" where
  "expand_tabs [] col = []"
| "expand_tabs (c # cs) col =
     (if c = 9 then let k = 8 - col mod 8 in replicate k 0x20 @ expand_tabs cs (col + k)
      else c # expand_tabs cs (if c = 10 then 0 else col + 1))"

fun one_tab :: "bytes \<Rightarrow> bool \<Rightarrow> bool" where
  "one_tab [] seen = True"
| "one_tab (c # cs) seen = (if c = 9 then \<not> seen \<and> one_tab cs True else one_tab cs (if c = 10 then False else seen))"

text \<open>The text of the second pass, with the column that the code keeps.\<close>

fun code_tabs :: "bytes \<Rightarrow> nat \<Rightarrow> bytes" where
  "code_tabs [] col = []"
| "code_tabs (c # cs) col =
     (if c = 9 then replicate (8 - col mod 8) 0x20 @ code_tabs cs col else c # code_tabs cs (if c = 10 then 0 else col + 1))"

lemma tab_count_size: "tab_count cs j col found = (j + length (code_tabs cs col), found \<or> 9 \<in> set cs)"
  by (induction cs arbitrary: j col found) (auto simp: TAB_SIZE_def)

lemma tab_fill_text:
  "j + length (code_tabs cs col) = length b \<Longrightarrow> tab_fill cs j col b = Returned (take j b @ code_tabs cs col, length b)"
proof (induction cs arbitrary: j col b)
  case Nil
  then show ?case by simp
next
  case (Cons c cs)
  show ?case
  proof (cases "c = 9")
    case True
    with Cons.prems Cons.IH [of "j + (8 - col mod 8)" col "overwrite b j (replicate (8 - col mod 8) 0x20)"] show ?thesis
      by (simp add: TAB_SIZE_def Let_def store_at_in) (simp add: overwrite_def)
  next
    case False
    with Cons.prems Cons.IH [of "j + 1" "if c = 10 then 0 else col + 1" "overwrite b j [c]"] show ?thesis
      by (simp add: TAB_SIZE_def Let_def store_at_in) (simp add: overwrite_def)
  qed
qed

lemma tabify_text:
  assumes "heap_ok h"
  shows "tabify h buf = Returned (if 9 \<in> set buf then Some (code_tabs buf 0) else None)"
proof -
  obtain b where b: "mem_alloc h (length (code_tabs buf 0)) = Some b" "length b = length (code_tabs buf 0)"
    using assms unfolding heap_ok_def by blast
  then show ?thesis by (simp add: tabify_def tab_count_size tab_fill_text load_n_in)
qed

lemma code_tabs_expand: "one_tab cs seen \<Longrightarrow> (\<not> seen \<Longrightarrow> col = col') \<Longrightarrow> code_tabs cs col = expand_tabs cs col'"
proof (induction cs arbitrary: seen col col')
  case (Cons c cs)
  show ?case
  proof (cases "c = 9")
    case True
    with Cons.prems Cons.IH [of True col "col' + (8 - col' mod 8)"] show ?thesis by (simp add: Let_def)
  next
    case False
    with Cons.prems Cons.IH [of False 0 0] Cons.IH [of seen "col + 1" "col' + 1"] show ?thesis by (cases "c = 10") simp_all
  qed
qed simp

text \<open>
  C36: a text with at most one tab on each line is expanded to the tab stops at the multiples of 8;
  the second pass writes exactly the octets that the first has counted, inside the block.
\<close>

theorem tabify_expands:
  assumes "heap_ok h" "one_tab buf False" "9 \<in> set buf"
  shows "tabify h buf = Returned (Some (expand_tabs buf 0))"
  using assms code_tabs_expand [of buf False 0 0] by (simp add: tabify_text)

theorem tabify_expands_witness:
  "tabify sample_heap [97, 9, 98, 10, 9, 99] =
     Returned (Some ([97] @ replicate 7 32 @ [98, 10] @ replicate 8 32 @ [99]))"
  using tabify_expands [OF sample_heap_ok, of "[97, 9, 98, 10, 9, 99]"] by (simp add: Let_def)

text \<open>The column is not advanced by a tab, so the next one of the line ends before its stop.\<close>

lemma tabify_second_tab:
  "heap_ok h \<Longrightarrow> tabify h [97, 9, 98, 9, 99] = Returned (Some ([97] @ replicate 7 32 @ [98] @ replicate 6 32 @ [99]))"
  "expand_tabs [97, 9, 98, 9, 99] 0 = [97] @ replicate 7 32 @ [98] @ replicate 7 32 @ [99]"
  by (simp_all add: tabify_text Let_def)

end
