(* ===== verification/Sdb_Storage.thy ===== *)
theory Sdb_Storage
  imports Bysant_Roundtrip C_Loops
begin

text \<open>
  The storage of a staging table (\<open>src/libs/bysant/sdb_write.c\<close> and \<open>sdb_read.c\<close>): the serialized
  cells, one after the other, in a chain of chunks of 64 KiB in memory or in a file.

  \<open>sdb_store\<close> holds the members of \<open>sdb_table_t\<close> that the writer of the table's serializer reads
  and changes; the other members are in \<open>Sdb_Table\<close>. The chain of chunks is the list of its chunks:
  \<open>first_chunk\<close> is the head, \<open>last_chunk\<close> the last element, \<open>last_chunk_ptr\<close> the link to it. A chunk
  has an address, which \<open>realloc\<close> changes. The outcomes of \<open>malloc\<close> and \<open>realloc\<close> are the list
  \<open>st_grants\<close>, the first for the next call; when the list is used up every block is granted. The
  writer is called by the serializer and has only its result and the store to answer: a copy
  outside of a chunk sets \<open>st_fault\<close>. The octets of a new block are 0, which no theorem uses.

  A file is its content, a position and the mode it was opened with.
\<close>

section \<open>Codes and sizes\<close>

definition SDB_EOK :: int where "SDB_EOK = 0"
definition SDB_EBADSTATE :: int where "SDB_EBADSTATE = - 1"
definition SDB_ETOOBIG :: int where "SDB_ETOOBIG = - 2"
definition SDB_EINVALID :: int where "SDB_EINVALID = - 3"
definition SDB_EMEM :: int where "SDB_EMEM = - 4"
definition SDB_ENOCONS :: int where "SDB_ENOCONS = - 5"
definition SDB_EBADFILE :: int where "SDB_EBADFILE = - 6"
definition SDB_EFULL :: int where "SDB_EFULL = - 8"
definition SDB_EEMPTY :: int where "SDB_EEMPTY = - 9"
definition SDB_EINTERNAL :: int where "SDB_EINTERNAL = - 101"

lemmas sdb_error_defs = SDB_EOK_def SDB_EBADSTATE_def SDB_ETOOBIG_def SDB_EINVALID_def SDB_EMEM_def
  SDB_ENOCONS_def SDB_EBADFILE_def SDB_EFULL_def SDB_EEMPTY_def SDB_EINTERNAL_def

definition SDB_CHUNK_SIZE :: nat where "SDB_CHUNK_SIZE = 0x10000"
definition SDB_MIN_CHUNK_SIZE :: nat where "SDB_MIN_CHUNK_SIZE = 0x100"
definition SDB_DATA_SIZE_LIMIT :: nat where "SDB_DATA_SIZE_LIMIT = 0x10000"
definition BSD_MINBUFFSIZE :: nat where "BSD_MINBUFFSIZE = 3"

lemmas sdb_size_defs = SDB_CHUNK_SIZE_def SDB_MIN_CHUNK_SIZE_def SDB_DATA_SIZE_LIMIT_def BSD_MINBUFFSIZE_def

section \<open>State\<close>

datatype sdb_table_state_t = SDB_ST_UNCONFIGURED | SDB_ST_READING | SDB_ST_SERIALIZING | SDB_ST_BROKEN

datatype sdb_storage_kind_t = SDB_SK_RAM | SDB_SK_FILE

record sdb_chunk_t =
  ch_addr :: nat
  ch_data :: bytes

record sdb_file =
  f_data :: bytes
  f_pos :: nat
  f_append :: bool
  f_error :: int

record sdb_store =
  st_state :: sdb_table_state_t
  st_ncolumns :: nat
  st_kind :: sdb_storage_kind_t
  st_chunks :: "sdb_chunk_t list"
  st_last_size :: nat
  st_file :: "sdb_file option"
  nwrittenbytes :: nat
  nwrittenobjects :: nat
  st_grants :: "bool list"
  st_next :: nat
  st_fault :: bool

text \<open>A block is asked for: whether it is granted, its address, and the store behind the call.\<close>

definition sdb_alloc :: "sdb_store \<Rightarrow> bool \<times> nat \<times> sdb_store" where
  "sdb_alloc st =
     (case st_grants st of [] \<Rightarrow> True | g # _ \<Rightarrow> g, st_next st,
      st\<lparr>st_next := st_next st + 1, st_grants := tl (st_grants st)\<rparr>)"

definition resize :: "bytes \<Rightarrow> nat \<Rightarrow> bytes" where
  "resize b n = take n b @ replicate (n - length b) 0"

section \<open>Files\<close>

definition sdb_fwrite :: "bytes \<Rightarrow> sdb_file \<Rightarrow> bool \<times> sdb_file" where
  "sdb_fwrite b f =
     (if b = [] \<or> f_error f \<noteq> 0 then (False, f)
      else let p = (if f_append f then length (f_data f) else f_pos f) in
           (True, f\<lparr>f_data := overwrite (f_data f @ replicate (p - length (f_data f)) 0) p b, f_pos := p + length b\<rparr>))"

definition sdb_fread :: "nat \<Rightarrow> sdb_file \<Rightarrow> bytes \<times> sdb_file" where
  "sdb_fread n f =
     (let b = (if f_error f \<noteq> 0 then [] else take n (drop (f_pos f) (f_data f)))
      in (b, f\<lparr>f_pos := f_pos f + length b\<rparr>))"

section \<open>Writing\<close>

text \<open>\<open>int\<close> with arithmetic shifts; for up to 16 bits.\<close>

definition next_pow2 :: "int \<Rightarrow> int" where
  "next_pow2 x =
     (let x = x - 1;
          x = x OR drop_bit 1 x;
          x = x OR drop_bit 2 x;
          x = x OR drop_bit 4 x;
          x = x OR drop_bit 8 x
      in x + 1)"

definition chunk_size_field :: "nat \<Rightarrow> nat" where
  "chunk_size_field n = (if n = 0x10000 then 0 else n)"

definition set_last_chunk_size :: "nat \<Rightarrow> sdb_store \<Rightarrow> int \<times> sdb_store" where
  "set_last_chunk_size new_size st =
     (let prev_size = (if st_last_size st = 0 then 0x10000 else st_last_size st) in
      if new_size \<noteq> prev_size then
        let (granted, addr, st) = sdb_alloc st in
        if \<not> granted then (SDB_EMEM, st)
        else if st_chunks st = [] then (SDB_EMEM, st\<lparr>st_fault := True\<rparr>)
        else (SDB_EOK, st\<lparr>
               st_chunks := butlast (st_chunks st) @
                 [\<lparr>ch_addr = addr, ch_data = resize (ch_data (last (st_chunks st))) new_size\<rparr>],
               st_last_size := chunk_size_field new_size\<rparr>)
      else (SDB_EOK, st))"

definition sdb_ram_trim :: "sdb_store \<Rightarrow> int \<times> sdb_store" where
  "sdb_ram_trim st =
     (let size = nwrittenbytes st mod SDB_CHUNK_SIZE in
      if size = 0 then set_last_chunk_size SDB_MIN_CHUNK_SIZE st
      else if size \<noteq> st_last_size st then set_last_chunk_size size st
      else (SDB_EOK, st))"

definition add_chunk :: "nat \<Rightarrow> sdb_store \<Rightarrow> int \<times> sdb_store" where
  "add_chunk needed_size st =
     (let allocated_size = max (nat (next_pow2 (int needed_size))) SDB_MIN_CHUNK_SIZE;
          (granted, addr, st) = sdb_alloc st in
      if \<not> granted then (SDB_EMEM, st)
      else (SDB_EOK, st\<lparr>
             st_chunks := st_chunks st @ [\<lparr>ch_addr = addr, ch_data = replicate allocated_size 0\<rparr>],
             st_last_size := chunk_size_field allocated_size\<rparr>))"

text \<open>\<open>memcpy\<close> into the chunk at position \<open>i\<close> of the chain.\<close>

definition chunk_store :: "nat \<Rightarrow> nat \<Rightarrow> bytes \<Rightarrow> sdb_store \<Rightarrow> sdb_store" where
  "chunk_store i p b st =
     (if i < length (st_chunks st) \<and> p + length b \<le> length (ch_data (st_chunks st ! i))
      then st\<lparr>st_chunks := (st_chunks st)[i := (st_chunks st ! i)\<lparr>ch_data := overwrite (ch_data (st_chunks st ! i)) p b\<rparr>]\<rparr>
      else st\<lparr>st_fault := True\<rparr>)"

definition wrote :: "bytes \<Rightarrow> sdb_store \<Rightarrow> int \<times> sdb_store" where
  "wrote data st = (int (length data), st\<lparr>nwrittenbytes := nwrittenbytes st + length data\<rparr>)"

definition sdb_bss_ram_writer :: "bytes \<Rightarrow> sdb_store \<Rightarrow> int \<times> sdb_store" where
  "sdb_bss_ram_writer data st =
     (let written_in_chunk = nwrittenbytes st mod SDB_CHUNK_SIZE;
          left_in_chunk = SDB_CHUNK_SIZE - written_in_chunk in
      if SDB_DATA_SIZE_LIMIT \<le> length data then (SDB_ETOOBIG, st)
      else if length data < left_in_chunk then
        let needed_size = nat (next_pow2 (int (written_in_chunk + length data)));
            (r, st) = (if st_last_size st \<noteq> 0 \<and> st_last_size st < needed_size
                       then set_last_chunk_size needed_size st else (SDB_EOK, st)) in
        if r \<noteq> SDB_EOK then (r, st)
        else wrote data (chunk_store (length (st_chunks st) - 1) written_in_chunk data st)
      else
        let (r, st) = (if st_last_size st \<noteq> 0 then set_last_chunk_size SDB_CHUNK_SIZE st else (SDB_EOK, st)) in
        if r \<noteq> SDB_EOK then (r, st)
        else let chunk1 = length (st_chunks st) - 1;
                 (r, st) = add_chunk (length data - left_in_chunk) st in
             if r \<noteq> SDB_EOK then (SDB_EMEM, st)
             else let chunk2 = length (st_chunks st) - 1 in
                  wrote data (chunk_store chunk2 0 (drop left_in_chunk data)
                    (chunk_store chunk1 written_in_chunk (take left_in_chunk data) st)))"

text \<open>The number of octets is not counted, and the error of the stream is returned as it is.\<close>

definition sdb_bss_file_writer :: "bytes \<Rightarrow> sdb_store \<Rightarrow> int \<times> sdb_store" where
  "sdb_bss_file_writer data st =
     (case st_file st of
        None \<Rightarrow> (SDB_EINTERNAL, st\<lparr>st_fault := True\<rparr>)
      | Some f \<Rightarrow>
          let (r, f) = sdb_fwrite data f; st = st\<lparr>st_file := Some f\<rparr> in
          if \<not> r then (f_error f, st) else (int (length data), st))"

definition sdb_bss_writer :: "bytes \<Rightarrow> sdb_store \<Rightarrow> int \<times> sdb_store" where
  "sdb_bss_writer data st =
     (if st_state st \<noteq> SDB_ST_READING then (SDB_EBADSTATE, st)
      else case st_kind st of
             SDB_SK_RAM \<Rightarrow> sdb_bss_ram_writer data st
           | SDB_SK_FILE \<Rightarrow> sdb_bss_file_writer data st)"

section \<open>Reading back\<close>

text \<open>
  The chunk that is read is its position in the chain, \<open>None\<close> behind the last one. \<open>rd_bytes\<close> is
  the object the pointer \<open>bytes\<close> points to.
\<close>

record sdb_read_ctx_t =
  rd_kind :: sdb_storage_kind_t
  rd_chunk :: "nat option"
  rd_tmpbuff :: bool
  rd_nbytes :: nat
  rd_bytes :: "bytes option"
  nreadbytes :: nat
  nreadobjects :: nat
  rd_minibuff :: bytes
  minibuff_len :: nat
  minibuff_offset :: nat
  rd_bsd :: bsd_ctx_t

type_synonym read_result = "(int \<times> sdb_store \<times> sdb_read_ctx_t \<times> bsd_data_t) outcome"

definition chunk_at :: "sdb_store \<Rightarrow> nat \<Rightarrow> nat option" where
  "chunk_at st i = (if i < length (st_chunks st) then Some i else None)"

definition sdb_read_init :: "bsd_env \<Rightarrow> sdb_store \<Rightarrow> sdb_read_ctx_t \<Rightarrow> (sdb_store \<times> sdb_read_ctx_t) outcome" where
  "sdb_read_init env st ctx =
     (let ctx = ctx\<lparr>rd_tmpbuff := False, rd_bytes := None, nreadbytes := 0, nreadobjects := 0,
            minibuff_len := 0, minibuff_offset := 0, rd_bsd := snd (bsd_init (env_host env) (rd_bsd ctx)),
            rd_kind := st_kind st\<rparr> in
      case st_kind st of
        SDB_SK_RAM \<Rightarrow> Returned (st, ctx\<lparr>rd_chunk := chunk_at st 0\<rparr>)
      | SDB_SK_FILE \<Rightarrow> need (st_file st) (\<lambda>f.
          Returned (st\<lparr>st_file := Some (f\<lparr>f_pos := 0, f_error := 0\<rparr>)\<rparr>, ctx)))"

definition sdb_read_close :: "sdb_read_ctx_t \<Rightarrow> sdb_read_ctx_t" where
  "sdb_read_close ctx = ctx\<lparr>rd_tmpbuff := False\<rparr>"

text \<open>The environment of the deserializer behind \<open>bsd_init\<close>, which sets the static byte order.\<close>

definition initialised :: "bsd_env \<Rightarrow> bsd_env" where
  "initialised env = env\<lparr>env_sendian := host_sendian (env_host env)\<rparr>"

definition read_with_bsd ::
  "bsd_env \<Rightarrow> sdb_read_ctx_t \<Rightarrow> bsd_data_t \<Rightarrow> bytes \<Rightarrow> nat \<Rightarrow>
   (int \<Rightarrow> sdb_read_ctx_t \<Rightarrow> bsd_data_t \<Rightarrow> 'a outcome) \<Rightarrow> 'a outcome" where
  "read_with_bsd env ctx x buffer len k =
     need (bsd_read (initialised env) (rd_bsd ctx) x buffer (int len))
       (\<lambda>(r, d, x). k r (ctx\<lparr>rd_bsd := d\<rparr>) x)"

text \<open>
  The member \<open>error\<close> of the union. When a container is closed without octets the union holds the
  type of the container.
\<close>

definition type_number :: "bsd_data_type_t \<Rightarrow> int" where
  "type_number t =
     (case t of
        BSD_ERROR \<Rightarrow> 0 | BSD_CLOSE \<Rightarrow> 1 | BSD_NULL \<Rightarrow> 2 | BSD_INT \<Rightarrow> 3 | BSD_BOOL \<Rightarrow> 4 | BSD_DOUBLE \<Rightarrow> 5
      | BSD_STRING \<Rightarrow> 6 | BSD_CHUNKED_STRING \<Rightarrow> 7 | BSD_CHUNK \<Rightarrow> 8 | BSD_LIST \<Rightarrow> 9 | BSD_ZLIST \<Rightarrow> 10
      | BSD_MAP \<Rightarrow> 11 | BSD_ZMAP \<Rightarrow> 12 | BSD_OBJECT \<Rightarrow> 13 | BSD_CLASSDEF \<Rightarrow> 14)"

definition error_content :: "bsd_data_t \<Rightarrow> (int \<Rightarrow> 'a outcome) \<Rightarrow> 'a outcome" where
  "error_content x k =
     (case d_content x of D_error e \<Rightarrow> k e | D_cont_type t \<Rightarrow> k (type_number t) | _ \<Rightarrow> Fault)"

definition count_object :: "nat \<Rightarrow> bytes option \<Rightarrow> sdb_read_ctx_t \<Rightarrow> sdb_read_ctx_t" where
  "count_object n b ctx =
     ctx\<lparr>rd_nbytes := n, rd_bytes := b, nreadbytes := nreadbytes ctx + n, nreadobjects := nreadobjects ctx + 1\<rparr>"

text \<open>The object sits across two chunks: it is skipped, or put together in the temporary buffer.\<close>

definition read_across ::
  "bsd_env \<Rightarrow> sdb_store \<Rightarrow> nat \<Rightarrow> nat \<Rightarrow> nat \<Rightarrow> sdb_read_ctx_t \<Rightarrow> bsd_data_t \<Rightarrow> bool \<Rightarrow> read_result" where
  "read_across env st i read_in_chunk needed ctx x skip =
     (let left_in_chunk = SDB_CHUNK_SIZE - read_in_chunk in
      if chunk_at st (i + 1) = None then Returned (SDB_EINTERNAL, st, ctx, x)
      else if skip then
        Returned (int needed, st, (count_object needed None ctx)\<lparr>rd_chunk := Some (i + 1)\<rparr>,
                  x\<lparr>d_kind := BSD_KTOPLEVEL\<rparr>)
      else if \<not> rd_tmpbuff ctx \<and> \<not> env_malloc env then Returned (SDB_EMEM, st, ctx, x)
      else if needed < left_in_chunk \<or> SDB_DATA_SIZE_LIMIT < needed then Fault
      else load_n (ch_data (st_chunks st ! i)) read_in_chunk left_in_chunk (\<lambda>b1.
           load_n (ch_data (st_chunks st ! (i + 1))) 0 (needed - left_in_chunk) (\<lambda>b2.
             read_with_bsd env (ctx\<lparr>rd_tmpbuff := True\<rparr>) x (b1 @ b2) needed (\<lambda>r ctx x.
               if int needed \<noteq> r then Returned (SDB_EINTERNAL, st, ctx, x)
               else Returned (int needed, st,
                      (count_object needed (Some (b1 @ b2)) ctx)\<lparr>rd_chunk := Some (i + 1)\<rparr>, x)))))"

text \<open>What follows the first attempt, whose result is \<open>r\<close>.\<close>

definition read_rest ::
  "bsd_env \<Rightarrow> sdb_store \<Rightarrow> nat \<Rightarrow> nat \<Rightarrow> bool \<Rightarrow> int \<Rightarrow> sdb_read_ctx_t \<Rightarrow> bsd_data_t \<Rightarrow> read_result" where
  "read_rest env st i read_in_chunk skip r ctx x =
     (let left_in_chunk = SDB_CHUNK_SIZE - read_in_chunk in
      if r = 0 then error_content x (\<lambda>e. Returned (e, st, ctx, x))
      else if 0 < r then
        load_n (ch_data (st_chunks st ! i)) read_in_chunk (nat r) (\<lambda>b.
          let ctx = count_object (nat r) (Some b) ctx in
          Returned (r, st, if nat r = left_in_chunk then ctx\<lparr>rd_chunk := chunk_at st (i + 1)\<rparr> else ctx, x))
      else read_across env st i read_in_chunk (nat (- r)) ctx x skip)"

definition sdb_read_ram_data ::
  "bsd_env \<Rightarrow> sdb_store \<Rightarrow> sdb_read_ctx_t \<Rightarrow> bsd_data_t \<Rightarrow> bool \<Rightarrow> read_result" where
  "sdb_read_ram_data env st ctx x skip =
     (let read_in_chunk = nreadbytes ctx mod SDB_CHUNK_SIZE;
          left_in_chunk = SDB_CHUNK_SIZE - read_in_chunk in
      need (rd_chunk ctx) (\<lambda>i.
      if left_in_chunk < BSD_MINBUFFSIZE then
        if chunk_at st (i + 1) = None then Returned (SDB_EINTERNAL, st, ctx, x)
        else load_n (ch_data (st_chunks st ! i)) read_in_chunk left_in_chunk (\<lambda>b1.
             load_n (ch_data (st_chunks st ! (i + 1))) 0 (BSD_MINBUFFSIZE - left_in_chunk) (\<lambda>b2.
               let ctx = ctx\<lparr>rd_minibuff := b1 @ b2\<rparr> in
               read_with_bsd env ctx x (b1 @ b2) BSD_MINBUFFSIZE (\<lambda>r ctx x.
                 if 0 < r then
                   let ctx = count_object (nat r) (Some (take (nat r) (b1 @ b2))) ctx in
                   Returned (r, st, if left_in_chunk \<le> nat r then ctx\<lparr>rd_chunk := Some (i + 1)\<rparr> else ctx, x)
                 else read_rest env st i read_in_chunk skip r ctx x)))
      else read_with_bsd env ctx x (drop read_in_chunk (ch_data (st_chunks st ! i))) left_in_chunk
             (\<lambda>r ctx x. read_rest env st i read_in_chunk skip r ctx x)))"

text \<open>The octets of the small buffer behind \<open>n\<close> are kept for the next object.\<close>

definition keep_rest :: "nat \<Rightarrow> nat \<Rightarrow> sdb_read_ctx_t \<Rightarrow> sdb_read_ctx_t" where
  "keep_rest n ninbuff ctx =
     (if n < ninbuff then ctx\<lparr>minibuff_offset := n, minibuff_len := ninbuff - n\<rparr> else ctx\<lparr>minibuff_len := 0\<rparr>)"

definition file_missing ::
  "bsd_env \<Rightarrow> sdb_store \<Rightarrow> sdb_file \<Rightarrow> nat \<Rightarrow> nat \<Rightarrow> sdb_read_ctx_t \<Rightarrow> bsd_data_t \<Rightarrow> bool \<Rightarrow> read_result" where
  "file_missing env st f needed ninbuff ctx x skip =
     (if skip then
        Returned (int needed, st\<lparr>st_file := Some (f\<lparr>f_pos := f_pos f + needed - ninbuff\<rparr>)\<rparr>,
                  (count_object needed None ctx)\<lparr>minibuff_len := 0\<rparr>, x)
      else if \<not> rd_tmpbuff ctx \<and> \<not> env_malloc env then Returned (SDB_EMEM, st, ctx, x)
      else
        let ctx = ctx\<lparr>rd_tmpbuff := True\<rparr>;
            (b, f) = sdb_fread (needed - BSD_MINBUFFSIZE) f;
            st = st\<lparr>st_file := Some f\<rparr> in
        if SDB_DATA_SIZE_LIMIT < BSD_MINBUFFSIZE + length b then Fault
        else if needed \<le> BSD_MINBUFFSIZE \<or> length b < needed - BSD_MINBUFFSIZE then
          Returned (if f_error f \<noteq> 0 then f_error f else SDB_EINTERNAL, st, ctx, x)
        else read_with_bsd env ctx x (rd_minibuff ctx @ b) needed (\<lambda>r ctx x.
               if int needed \<noteq> r then Returned (SDB_EINTERNAL, st, ctx, x)
               else Returned (int needed, st,
                      (count_object needed (Some (rd_minibuff ctx @ b)) ctx)\<lparr>minibuff_len := 0\<rparr>, x)))"

definition sdb_read_file_data ::
  "bsd_env \<Rightarrow> sdb_store \<Rightarrow> sdb_read_ctx_t \<Rightarrow> bsd_data_t \<Rightarrow> bool \<Rightarrow> read_result" where
  "sdb_read_file_data env st ctx x skip =
     need (st_file st) (\<lambda>f.
     let kept = take (minibuff_len ctx) (drop (minibuff_offset ctx) (rd_minibuff ctx));
         (b, f) = sdb_fread (BSD_MINBUFFSIZE - minibuff_len ctx) f;
         st = st\<lparr>st_file := Some f\<rparr>;
         mini = kept @ b;
         ctx = ctx\<lparr>rd_minibuff := mini @ drop (length mini) (rd_minibuff ctx)\<rparr>;
         ninbuff = minibuff_len ctx + length b in
     if ninbuff = 0 then
       Returned (if 0 < f_error f then SDB_EBADFILE else f_error f, st, ctx, x)
     else read_with_bsd env ctx x mini ninbuff (\<lambda>nread ctx x.
       if 0 \<le> nread then
         Returned (nread, st, keep_rest (nat nread) ninbuff (count_object (nat nread) (Some (take (nat nread) mini)) ctx), x)
       else file_missing env st f (nat (- nread)) ninbuff ctx x skip))"

definition sdb_read_data ::
  "bsd_env \<Rightarrow> sdb_store \<Rightarrow> sdb_read_ctx_t \<Rightarrow> bsd_data_t \<Rightarrow> bool \<Rightarrow> read_result" where
  "sdb_read_data env st ctx x skip =
     (case rd_kind ctx of
        SDB_SK_RAM \<Rightarrow> sdb_read_ram_data env st ctx x skip
      | SDB_SK_FILE \<Rightarrow> sdb_read_file_data env st ctx x skip)"

end
