(* ===== verification/C_Double.thy ===== *)
theory C_Double
  imports Bysant_Float
begin

text \<open>
  Arithmetic of C's \<open>double\<close> on IEEE 754 bit patterns: sum, difference, quotient, comparison,
  \<open>floor\<close>, \<open>round\<close>, \<open>fmod (x, 1)\<close> and the conversion to \<open>int\<close>. A finite value is the
  fraction \<open>f64_num x / f64_den x\<close>; the result of an operation is its exact value, rounded to
  nearest with ties to even. The payload of a NaN is not modelled, every NaN is the same.
  Converting a value that does not fit \<open>int\<close> is undefined and \<open>None\<close>.

\<close>

section \<open>Values\<close>

definition f64_inf :: "f64 \<Rightarrow> bool" where
  "f64_inf x \<longleftrightarrow> f64_exp x = 2047 \<and> f64_frac x = 0"

definition f64_finite :: "f64 \<Rightarrow> bool" where
  "f64_finite x \<longleftrightarrow> f64_exp x \<noteq> 2047"

definition f64_num :: "f64 \<Rightarrow> int" where
  "f64_num x =
     (let a = int (f64_sig x) * 2 ^ (max (f64_exp x) 1 - 1075) in if f64_sign x = 1 then - a else a)"

definition f64_den :: "f64 \<Rightarrow> int" where
  "f64_den x = 2 ^ (1075 - max (f64_exp x) 1)"

definition f64_NaN :: f64 where "f64_NaN = 0x7FF8000000000000"

definition f64_infinity :: "nat \<Rightarrow> f64" where
  "f64_infinity s = f64_mk s (2047 * 2 ^ 52)"

section \<open>Rounding\<close>

text \<open>The quotient \<open>a / b\<close>, rounded to nearest, ties to even; the logarithm of \<open>a / b\<close>.\<close>

definition rne_div :: "nat \<Rightarrow> nat \<Rightarrow> nat" where
  "rne_div a b = (let q = a div b; r = a mod b in if b < 2 * r \<or> 2 * r = b \<and> odd q then q + 1 else q)"

definition ratio_log :: "nat \<Rightarrow> nat \<Rightarrow> int" where
  "ratio_log a b =
     (let k = int (top_bit a) - int (top_bit b) in
      if b * 2 ^ nat k \<le> a * 2 ^ nat (- k) then k else k - 1)"

text \<open>
  The magnitude \<open>a / b\<close> with 53 significant bits, fewer below the normal range, as the 63 bits
  behind the sign; a carry out of the significand moves into the exponent.
\<close>

definition round_ratio :: "nat \<Rightarrow> nat \<Rightarrow> nat" where
  "round_ratio a b =
     (let e = max (- 1074) (ratio_log a b - 52) in
      min (nat (e + 1074) * 2 ^ 52 + rne_div (a * 2 ^ nat (- e)) (b * 2 ^ nat e)) (2047 * 2 ^ 52))"

text \<open>The double nearest to \<open>n / d\<close>; a zero has sign \<open>s\<close>.\<close>

definition f64_of_ratio :: "nat \<Rightarrow> int \<Rightarrow> int \<Rightarrow> f64" where
  "f64_of_ratio s n d =
     (if n = 0 then f64_mk s 0 else f64_mk (if n < 0 then 1 else 0) (round_ratio (nat \<bar>n\<bar>) (nat d)))"

section \<open>Operations\<close>

definition f64_neg :: "f64 \<Rightarrow> f64" where
  "f64_neg x = x XOR 0x8000000000000000"

definition f64_fabs :: "f64 \<Rightarrow> f64" where
  "f64_fabs x = x AND 0x7FFFFFFFFFFFFFFF"

definition f64_add :: "f64 \<Rightarrow> f64 \<Rightarrow> f64" where
  "f64_add x y =
     (if f64_nan x \<or> f64_nan y then f64_NaN
      else if f64_inf x then if f64_inf y \<and> f64_sign x \<noteq> f64_sign y then f64_NaN else x
      else if f64_inf y then y
      else f64_of_ratio (if f64_sign x = 1 \<and> f64_sign y = 1 then 1 else 0)
             (f64_num x * f64_den y + f64_num y * f64_den x) (f64_den x * f64_den y))"

definition f64_sub :: "f64 \<Rightarrow> f64 \<Rightarrow> f64" where
  "f64_sub x y = f64_add x (f64_neg y)"

definition f64_div :: "f64 \<Rightarrow> f64 \<Rightarrow> f64" where
  "f64_div x y =
     (let s = (if f64_sign x = f64_sign y then 0 else 1) in
      if f64_nan x \<or> f64_nan y then f64_NaN
      else if f64_inf x then if f64_inf y then f64_NaN else f64_infinity s
      else if f64_inf y then f64_mk s 0
      else if f64_num y = 0 then if f64_num x = 0 then f64_NaN else f64_infinity s
      else f64_of_ratio s (f64_num x * f64_den y * sgn (f64_num y)) (f64_den x * \<bar>f64_num y\<bar>))"

definition f64_less :: "f64 \<Rightarrow> f64 \<Rightarrow> bool" where
  "f64_less x y \<longleftrightarrow> \<not> f64_nan x \<and> \<not> f64_nan y \<and>
     (if f64_inf x then f64_sign x = 1 \<and> \<not> (f64_inf y \<and> f64_sign y = 1)
      else if f64_inf y then f64_sign y = 0
      else f64_num x * f64_den y < f64_num y * f64_den x)"

definition f64_le :: "f64 \<Rightarrow> f64 \<Rightarrow> bool" where
  "f64_le x y \<longleftrightarrow> f64_less x y \<or> f64_eq x y"

definition f64_floor :: "f64 \<Rightarrow> f64" where
  "f64_floor x =
     (if f64_finite x then f64_of_ratio (f64_sign x) (f64_num x div f64_den x) 1 else x)"

definition f64_fmod1 :: "f64 \<Rightarrow> f64" where
  "f64_fmod1 x =
     (if f64_finite x
      then f64_of_ratio (f64_sign x) (sgn (f64_num x) * (\<bar>f64_num x\<bar> mod f64_den x)) (f64_den x)
      else f64_NaN)"

definition f64_round :: "f64 \<Rightarrow> f64" where
  "f64_round x =
     (if f64_finite x
      then f64_of_ratio (f64_sign x)
             (sgn (f64_num x) * ((2 * \<bar>f64_num x\<bar> + f64_den x) div (2 * f64_den x))) 1
      else x)"

definition f64_to_i32 :: "f64 \<Rightarrow> int option" where
  "f64_to_i32 x =
     (case f64_to_i64 x of
        None \<Rightarrow> None
      | Some v \<Rightarrow> if - (2 ^ 31) \<le> v \<and> v < 2 ^ 31 then Some v else None)"

end
