(* ===== verification/Sdb_Table.thy ===== *)
theory Sdb_Table
  imports Sdb_Storage C_Double
begin

text \<open>
  The tables of the staging database (\<open>src/libs/bysant/sdb_table.c\<close>, and the analysis and the
  public writing functions of \<open>sdb_write.c\<close>): configuration of the columns, writing cells with
  the analysis of the values, trimming, resetting, closing.

  A table has its own serializer, whose writer appends to the storage of the table; the two
  refer to each other in C, so here each call of the serializer is given the current \<open>store\<close> as
  the state of its writer and the store it leaves is put back (\<open>with_bss\<close>). A null pointer is
  \<open>None\<close>, the null array of columns the empty list. The outcomes of \<open>malloc\<close>, \<open>realloc\<close>, \<open>fopen\<close>
  and \<open>freopen\<close> are taken from \<open>st_grants\<close>. \<open>Fault\<close> is an access outside of a block or through a
  null pointer, the overflow of an \<open>int\<close>, and a \<open>double\<close> converted to an \<open>int\<close> it does not fit.
  The members that only the Lua binding uses are left out.
\<close>

section \<open>Serialization methods\<close>

definition SDB_SM_FASTEST :: nat where "SDB_SM_FASTEST = 0"
definition SDB_SM_SMALLEST :: nat where "SDB_SM_SMALLEST = 1"
definition SDB_SM_LIST :: nat where "SDB_SM_LIST = 2"
definition SDB_SM_DELTAS_VECTOR :: nat where "SDB_SM_DELTAS_VECTOR = 3"
definition SDB_SM_QUASIPERIODIC_VECTOR :: nat where "SDB_SM_QUASIPERIODIC_VECTOR = 4"
definition SDB_SM_4_BYTES_FLOATS :: nat where "SDB_SM_4_BYTES_FLOATS = 16"
definition SDB_SM_FIXED_PRECISION :: nat where "SDB_SM_FIXED_PRECISION = 32"
definition SDB_NCOLUMN_INVALID :: nat where "SDB_NCOLUMN_INVALID = 0xff"

lemmas sdb_method_defs = SDB_SM_FASTEST_def SDB_SM_SMALLEST_def SDB_SM_LIST_def SDB_SM_DELTAS_VECTOR_def
  SDB_SM_QUASIPERIODIC_VECTOR_def SDB_SM_4_BYTES_FLOATS_def SDB_SM_FIXED_PRECISION_def

definition SDB_SM_CONTAINER :: "nat \<Rightarrow> nat" where
  "SDB_SM_CONTAINER sm = sm AND 0x0F"

definition has_flag :: "nat \<Rightarrow> nat \<Rightarrow> bool" where
  "has_flag sm flag \<longleftrightarrow> sm AND flag \<noteq> 0"

section \<open>State\<close>

record sdb_column_t =
  label_offset :: int
  serialization_method :: nat
  col_arg :: f64
  original_arg :: f64
  an_gcd :: int
  prev_value :: int
  delta_sum :: int
  an_method :: nat
  all_integer :: bool
  all_numeric :: bool

datatype sdb_consolidation_method_t =
  SDB_CM_FIRST | SDB_CM_LAST | SDB_CM_MAX | SDB_CM_MEAN | SDB_CM_MEDIAN | SDB_CM_MIDDLE | SDB_CM_MIN | SDB_CM_SUM

record sdb_cons_column_t =
  cc_method :: sdb_consolidation_method_t
  src_column :: nat

text \<open>
  The destination table is given by a number that stands for its address. A column that was not
  configured yet is \<open>None\<close>.
\<close>

record sdb_consolidation_t =
  cons_dst :: nat
  dst_columns :: "sdb_cons_column_t option list"
  cons_conf_col :: nat

datatype sdb_serialization_stage_t =
    SDB_SS_INITIALIZED | SDB_SS_MAP_OPENED | SDB_SS_MAP_LABEL_SENT | SDB_SS_COLUMN_OBJECT_DEFINED
  | SDB_SS_COLUMN_FACTOR_SENT | SDB_SS_COLUMN_START_VALUE_SENT | SDB_SS_COLUMN_SENDING_CELLS
  | SDB_SS_COLUMN_SHIFT_SENT | SDB_SS_COLUMN_CONTENT_SENT | SDB_SS_COLUMN_LAST_SHIFT_SENT
  | SDB_SS_COLUMN_INNER_LIST_CLOSED | SDB_SS_COLUMN_CLOSED | SDB_SS_ALL_COLUMNS_SENT | SDB_SS_MAP_CLOSED

text \<open>\<open>ser_target\<close> stands for the address of the serializer that the table is written to.\<close>

record sdb_serialization_ctx_t =
  ser_stage :: sdb_serialization_stage_t
  current_column :: nat
  ser_read_ctx :: sdb_read_ctx_t
  ser_target :: nat
  ser_previous :: f64
  current_shift :: nat

record sdb_table_t =
  store :: sdb_store
  columns :: "sdb_column_t list"
  consolidation :: "sdb_consolidation_t option"
  maxwrittenobjects :: nat
  conf_col :: nat
  conf_strings :: "bytes option"
  conf_string_idx :: int
  bss_ctx :: "sdb_store bss_ctx_t option"
  serialization_ctx :: "sdb_serialization_ctx_t option"

type_synonym table_result = "(int \<times> sdb_table_t) outcome"

abbreviation tbl_state :: "sdb_table_t \<Rightarrow> sdb_table_state_t" where
  "tbl_state tbl \<equiv> st_state (store tbl)"

abbreviation ncolumns :: "sdb_table_t \<Rightarrow> nat" where
  "ncolumns tbl \<equiv> st_ncolumns (store tbl)"

definition set_state :: "sdb_table_state_t \<Rightarrow> sdb_table_t \<Rightarrow> sdb_table_t" where
  "set_state s tbl = tbl\<lparr>store := (store tbl)\<lparr>st_state := s\<rparr>\<rparr>"

text \<open>A resource is asked for.\<close>

definition reserve :: "sdb_table_t \<Rightarrow> bool \<times> sdb_table_t" where
  "reserve tbl = (case sdb_alloc (store tbl) of (granted, _, st) \<Rightarrow> (granted, tbl\<lparr>store := st\<rparr>))"

text \<open>Memory that was set to 0, and blocks of indeterminate content.\<close>

definition zero_store :: "sdb_store \<Rightarrow> sdb_store" where
  "zero_store st = \<lparr>st_state = SDB_ST_UNCONFIGURED, st_ncolumns = 0, st_kind = SDB_SK_RAM, st_chunks = [],
     st_last_size = 0, st_file = None, nwrittenbytes = 0, nwrittenobjects = 0,
     st_grants = st_grants st, st_next = st_next st, st_fault = st_fault st\<rparr>"

definition zero_table :: "sdb_store \<Rightarrow> sdb_table_t" where
  "zero_table st = \<lparr>store = zero_store st, columns = [], consolidation = None, maxwrittenobjects = 0,
     conf_col = 0, conf_strings = None, conf_string_idx = 0, bss_ctx = None, serialization_ctx = None\<rparr>"

definition blank_column :: sdb_column_t where
  "blank_column = \<lparr>label_offset = 0, serialization_method = 0, col_arg = 0, original_arg = 0, an_gcd = 0,
     prev_value = 0, delta_sum = 0, an_method = 0, all_integer = False, all_numeric = False\<rparr>"

definition blank_data :: bsd_data_t where
  "blank_data = \<lparr>d_type = BSD_NULL, d_kind = BSD_KTOPLEVEL, d_fieldname = None, d_content = D_none\<rparr>"

definition blank_read_ctx :: sdb_read_ctx_t where
  "blank_read_ctx = \<lparr>rd_kind = SDB_SK_RAM, rd_chunk = None, rd_tmpbuff = False, rd_nbytes = 0, rd_bytes = None,
     nreadbytes = 0, nreadobjects = 0, rd_minibuff = [0, 0, 0], minibuff_len = 0, minibuff_offset = 0,
     rd_bsd = \<lparr>d_read = 0, d_broken = False, d_stacksize = 0, d_classcoll = bs_classcoll_init,
       d_stack = replicate STACK_SIZE top_frame\<rparr>\<rparr>"

section \<open>Names\<close>

definition int16 :: "int \<Rightarrow> int" where
  "int16 x = signed_take_bit 15 x"

definition int_ok :: "int \<Rightarrow> bool" where
  "int_ok x \<longleftrightarrow> - (2 ^ 31) \<le> x \<and> x < 2 ^ 31"

text \<open>A string of the program is given without its terminating zero.\<close>

definition new_conf_string :: "bytes \<Rightarrow> sdb_table_t \<Rightarrow> table_result" where
  "new_conf_string str tbl =
     (let len = int (length str) + 1;
          a = next_pow2 (conf_string_idx tbl);
          b = next_pow2 (conf_string_idx tbl + len);
          (granted, tbl) = (if a \<noteq> b then reserve tbl else (True, tbl));
          tbl = (if a \<noteq> b \<and> granted
                 then tbl\<lparr>conf_strings := Some (resize (case conf_strings tbl of None \<Rightarrow> [] | Some s \<Rightarrow> s) (nat b))\<rparr>
                 else tbl);
          c = conf_string_idx tbl in
      if \<not> granted then Returned (SDB_EMEM, tbl)
      else if c < 0 then Fault
      else need (conf_strings tbl) (\<lambda>s.
           store_at s (nat c) (str @ [0]) (\<lambda>s.
             Returned (c, tbl\<lparr>conf_strings := Some s, conf_string_idx := int16 (c + len)\<rparr>))))"

text \<open>The string at an offset of a block.\<close>

definition string_at :: "bytes option \<Rightarrow> int \<Rightarrow> (bytes \<Rightarrow> 'a outcome) \<Rightarrow> 'a outcome" where
  "string_at p off k =
     need p (\<lambda>s. if 0 \<le> off \<and> 0 \<in> set (drop (nat off) s) then k (cstr (drop (nat off) s)) else Fault)"

section \<open>Analysis of the values\<close>

definition c_rem :: "int \<Rightarrow> int \<Rightarrow> int option" where
  "c_rem a b = (if b = 0 \<or> a = - (2 ^ 31) \<and> b = - 1 then None else Some (sgn a * (\<bar>a\<bar> mod \<bar>b\<bar>)))"

function gcd_loop :: "int \<Rightarrow> int \<Rightarrow> int option" where
  "gcd_loop a b =
     (if b = 0 then Some a
      else case c_rem a b of None \<Rightarrow> None | Some r \<Rightarrow> gcd_loop b r)"
  by pat_completeness auto
termination
proof (relation "measure (\<lambda>(a, b). nat \<bar>b\<bar>)")
  fix a b r :: int
  assume b: "b \<noteq> 0" and "c_rem a b = Some r"
  then have "r = sgn a * (\<bar>a\<bar> mod \<bar>b\<bar>)" by (simp add: c_rem_def split: if_splits)
  then have "\<bar>r\<bar> \<le> \<bar>a\<bar> mod \<bar>b\<bar>" using b by (simp add: abs_mult abs_sgn_eq)
  also have "\<dots> < \<bar>b\<bar>" using b by simp
  finally show "((b, r), a, b) \<in> measure (\<lambda>(a, b). nat \<bar>b\<bar>)" by simp
qed simp

declare gcd_loop.simps [simp del]

definition written_column :: "sdb_table_t \<Rightarrow> nat" where
  "written_column tbl = nwrittenobjects (store tbl) mod ncolumns tbl"

definition update_column :: "(sdb_column_t \<Rightarrow> sdb_column_t outcome) \<Rightarrow> sdb_table_t \<Rightarrow> sdb_table_t outcome" where
  "update_column f tbl =
     (let i = written_column tbl in
      if ncolumns tbl = 0 \<or> length (columns tbl) \<le> i then Fault
      else run (f (columns tbl ! i)) (\<lambda>c. Returned (tbl\<lparr>columns := (columns tbl)[i := c]\<rparr>)))"

abbreviation smallest :: "nat \<Rightarrow> bool" where
  "smallest sm \<equiv> SDB_SM_CONTAINER sm = SDB_SM_SMALLEST"

definition analyse_other :: "bool \<Rightarrow> sdb_column_t \<Rightarrow> sdb_column_t" where
  "analyse_other numeric column =
     (if smallest (serialization_method column)
      then column\<lparr>all_integer := False, all_numeric := all_numeric column \<and> numeric\<rparr> else column)"

definition sdb_analyze_noninteger :: "bool \<Rightarrow> sdb_table_t \<Rightarrow> sdb_table_t outcome" where
  "sdb_analyze_noninteger numeric = update_column (\<lambda>column. Returned (analyse_other numeric column))"

text \<open>\<open>first\<close>: the cell belongs to the first row.\<close>

definition analyse_int :: "bool \<Rightarrow> int \<Rightarrow> sdb_column_t \<Rightarrow> sdb_column_t outcome" where
  "analyse_int first i column =
     (if smallest (serialization_method column) \<and> all_integer column then
         run (if first then Returned (column\<lparr>an_gcd := i\<rparr>)
              else if int_ok (i - prev_value column) \<and> int_ok (delta_sum column + (i - prev_value column))
              then Returned (column\<lparr>delta_sum := delta_sum column + (i - prev_value column)\<rparr>)
              else Fault) (\<lambda>column.
         run (if \<not> has_flag (serialization_method column) SDB_SM_FIXED_PRECISION
              then need (gcd_loop i (an_gcd column)) (\<lambda>g. Returned (column\<lparr>an_gcd := g\<rparr>))
              else Returned column) (\<lambda>column.
         Returned (column\<lparr>prev_value := i\<rparr>)))
       else Returned column)"

definition sdb_analyze_integer :: "int \<Rightarrow> sdb_table_t \<Rightarrow> sdb_table_t outcome" where
  "sdb_analyze_integer i tbl = update_column (analyse_int (nwrittenobjects (store tbl) < ncolumns tbl) i) tbl"

section \<open>Writing cells\<close>

definition with_bss :: "sdb_store ser_op \<Rightarrow> sdb_table_t \<Rightarrow> table_result" where
  "with_bss bssop tbl =
     need (bss_ctx tbl) (\<lambda>b.
     need (bssop (b\<lparr>writerctx := store tbl\<rparr>)) (\<lambda>(r, b).
       if st_fault (writerctx b) then Fault
       else Returned (r, tbl\<lparr>bss_ctx := Some b, store := writerctx b\<rparr>)))"

definition sdb_untrim :: "sdb_table_t \<Rightarrow> table_result" where
  "sdb_untrim tbl =
     (if bss_ctx tbl \<noteq> None then Returned (SDB_EBADSTATE, tbl)
      else let (granted, tbl) = reserve tbl in
           if \<not> granted then Returned (SDB_EMEM, tbl)
           else need (bss_init sdb_bss_writer (store tbl) (fresh_ctx sdb_bss_writer (store tbl))) (\<lambda>bss.
                  Returned (SDB_EOK, tbl\<lparr>bss_ctx := Some bss\<rparr>)))"

definition count_written :: "sdb_table_t \<Rightarrow> sdb_table_t" where
  "count_written tbl = tbl\<lparr>store := (store tbl)\<lparr>nwrittenobjects := nwrittenobjects (store tbl) + 1\<rparr>\<rparr>"

text \<open>The checks that every writing function starts with.\<close>

definition writable :: "sdb_table_t \<Rightarrow> table_result \<Rightarrow> table_result" where
  "writable tbl k =
     (if tbl_state tbl \<noteq> SDB_ST_READING then Returned (SDB_EBADSTATE, tbl)
      else if maxwrittenobjects tbl \<noteq> 0 \<and> nwrittenobjects (store tbl) \<le> maxwrittenobjects tbl
      then Returned (SDB_EFULL, tbl)
      else k)"

definition WRITER :: "sdb_store ser_op \<Rightarrow> (sdb_table_t \<Rightarrow> sdb_table_t outcome) \<Rightarrow> sdb_table_t \<Rightarrow> table_result" where
  "WRITER bssop analysis tbl =
     writable tbl (
       run (sdb_untrim tbl) (\<lambda>(_, tbl).
       run (analysis tbl) (\<lambda>tbl.
       run (with_bss bssop tbl) (\<lambda>(r, tbl).
         if r \<noteq> 0 then Returned (r, tbl) else Returned (SDB_EOK, count_written tbl)))))"

definition sdb_raw :: "bytes \<Rightarrow> sdb_table_t \<Rightarrow> table_result" where
  "sdb_raw serialized_cell tbl =
     writable tbl (
       run (sdb_untrim tbl) (\<lambda>(_, tbl).
       run (sdb_analyze_noninteger False tbl) (\<lambda>tbl.
       case sdb_bss_writer serialized_cell (store tbl) of (r, st) \<Rightarrow>
         let tbl = tbl\<lparr>store := st\<rparr> in
         if st_fault st then Fault
         else if r < 0 then Returned (0, tbl)
         else if r \<noteq> int (length serialized_cell) then Returned (SDB_EINTERNAL, tbl)
         else Returned (SDB_EOK, count_written tbl))))"

definition sdb_lstring :: "bytes \<Rightarrow> sdb_table_t \<Rightarrow> table_result" where
  "sdb_lstring data = WRITER (bss_lstring data) (sdb_analyze_noninteger False)"

definition sdb_string :: "bytes \<Rightarrow> sdb_table_t \<Rightarrow> table_result" where
  "sdb_string data = WRITER (bss_string data) (sdb_analyze_noninteger False)"

definition sdb_int :: "int \<Rightarrow> sdb_table_t \<Rightarrow> table_result" where
  "sdb_int i = WRITER (bss_int i) (sdb_analyze_integer i)"

definition sdb_bool :: "bool \<Rightarrow> sdb_table_t \<Rightarrow> table_result" where
  "sdb_bool b = WRITER (bss_bool b) (sdb_analyze_noninteger False)"

definition sdb_null :: "sdb_table_t \<Rightarrow> table_result" where
  "sdb_null = WRITER bss_null (sdb_analyze_noninteger False)"

definition sdb_double :: "EEndian \<Rightarrow> f64 \<Rightarrow> sdb_table_t \<Rightarrow> table_result" where
  "sdb_double h d tbl =
     writable tbl (
       run (sdb_untrim tbl) (\<lambda>(_, tbl).
       let i = written_column tbl in
       if ncolumns tbl = 0 \<or> length (columns tbl) \<le> i then Fault
       else
         let d = (if has_flag (serialization_method (columns tbl ! i)) SDB_SM_4_BYTES_FLOATS
                  then f32_to_f64 (f64_to_f32 d) else d) in
         run (sdb_analyze_noninteger True tbl) (\<lambda>tbl.
         run (with_bss (bss_double h d) tbl) (\<lambda>(r, tbl).
           if r \<noteq> 0 then Returned (r, tbl) else Returned (SDB_EOK, count_written tbl)))))"

definition sdb_number :: "EEndian \<Rightarrow> f64 \<Rightarrow> sdb_table_t \<Rightarrow> table_result" where
  "sdb_number h d tbl =
     need (f64_to_i32 d) (\<lambda>ix. if f64_eq (i64_to_f64 ix) d then sdb_int ix tbl else sdb_double h d tbl)"

section \<open>Configuration\<close>

text \<open>
  The cells of a file are read back when the last column is configured. The code looks at the
  \<open>kind\<close> of what was read where it means the \<open>type\<close>: 3 and 5 are the numbers of \<open>BSD_INT\<close> and
  \<open>BSD_DOUBLE\<close>, and of \<open>BSD_KMAPVALUE\<close> and \<open>BSD_KCHUNK\<close>.
\<close>

definition restore_step ::
  "bsd_env \<Rightarrow> sdb_table_t \<times> sdb_read_ctx_t \<times> bsd_data_t \<Rightarrow> (unit option \<times> sdb_table_t \<times> sdb_read_ctx_t \<times> bsd_data_t) outcome" where
  "restore_step env = (\<lambda>(tbl, rctx, bsd).
     run (sdb_read_data env (store tbl) rctx bsd True) (\<lambda>(nread, st, rctx, bsd).
       let tbl = tbl\<lparr>store := st\<rparr> in
       if nread \<le> 0 then Returned (Some (), tbl, rctx, bsd)
       else
         run (if d_kind bsd = BSD_KMAPVALUE then sdb_analyze_integer (signed_take_bit 31 (get_int bsd)) tbl
              else sdb_analyze_noninteger (d_kind bsd = BSD_KCHUNK) tbl) (\<lambda>tbl.
         let st = store tbl in
         Returned (None, tbl\<lparr>store := st\<lparr>nwrittenbytes := nwrittenbytes st + nat nread,
           nwrittenobjects := nwrittenobjects st + 1\<rparr>\<rparr>, rctx, bsd))))"

definition sdb_restore_file_cells :: "bsd_env \<Rightarrow> sdb_table_t \<Rightarrow> sdb_table_t outcome" where
  "sdb_restore_file_cells env tbl =
     run (sdb_read_init env (store tbl) blank_read_ctx) (\<lambda>(st, rctx).
     run (while_ret (\<lambda>_. True) (restore_step env) (tbl\<lparr>store := st\<rparr>, rctx, blank_data)) (\<lambda>(_, tbl, _, _).
       Returned tbl))"

definition sdb_trim :: "sdb_table_t \<Rightarrow> table_result" where
  "sdb_trim tbl =
     (if tbl_state tbl \<noteq> SDB_ST_READING then Returned (SDB_EBADSTATE, tbl)
      else let tbl = tbl\<lparr>bss_ctx := None\<rparr> in
           case st_kind (store tbl) of
             SDB_SK_RAM \<Rightarrow> Returned (SDB_EOK, tbl\<lparr>store := snd (sdb_ram_trim (store tbl))\<rparr>)
           | SDB_SK_FILE \<Rightarrow> Returned (SDB_EOK, tbl))"

text \<open>A first chunk of the smallest size.\<close>

definition first_chunk :: "sdb_store \<Rightarrow> bool \<times> sdb_store" where
  "first_chunk st =
     (case sdb_alloc st of (granted, addr, st) \<Rightarrow>
        (granted, if granted
                  then st\<lparr>st_chunks := [\<lparr>ch_addr = addr, ch_data = replicate SDB_MIN_CHUNK_SIZE 0\<rparr>],
                          st_last_size := SDB_MIN_CHUNK_SIZE\<rparr>
                  else st))"

text \<open>A failed allocation: what was reserved is released and the table is broken.\<close>

definition init_fail :: "sdb_table_t \<Rightarrow> table_result" where
  "init_fail tbl = Returned (SDB_EMEM, set_state SDB_ST_BROKEN (zero_table (store tbl)))"

text \<open>\<open>existing\<close> is the content of the file named \<open>ident\<close>.\<close>

definition sdb_initwithoutcolumns ::
  "bytes \<Rightarrow> bytes \<Rightarrow> nat \<Rightarrow> sdb_storage_kind_t \<Rightarrow> sdb_table_t \<Rightarrow> table_result" where
  "sdb_initwithoutcolumns existing ident ncol storage_kind tbl =
     (if ncol = 0 \<or> ncol = SDB_NCOLUMN_INVALID then Returned (SDB_EINVALID, tbl)
      else run (new_conf_string ident (zero_table (store tbl))) (\<lambda>(r, tbl).
      if r < 0 then init_fail tbl
      else let (granted, tbl) = reserve tbl in
      if \<not> granted then init_fail tbl
      else let tbl = tbl\<lparr>columns := replicate ncol blank_column,
                 store := (store tbl)\<lparr>st_state := SDB_ST_UNCONFIGURED, st_ncolumns := ncol\<rparr>\<rparr> in
      run (sdb_untrim tbl) (\<lambda>(r, tbl).
      if r < 0 then init_fail tbl
      else case storage_kind of
             SDB_SK_RAM \<Rightarrow>
               (case first_chunk (store tbl) of (granted, st) \<Rightarrow>
                  if \<not> granted then init_fail (tbl\<lparr>store := st\<rparr>)
                  else Returned (SDB_EOK, tbl\<lparr>store := st\<lparr>st_kind := SDB_SK_RAM\<rparr>\<rparr>))
           | SDB_SK_FILE \<Rightarrow>
               (case reserve tbl of (granted, tbl) \<Rightarrow>
                  if \<not> granted then Returned (SDB_EBADFILE, tbl)
                  else Returned (SDB_EOK, tbl\<lparr>store := (store tbl)\<lparr>st_kind := SDB_SK_FILE,
                         st_file := Some \<lparr>f_data = existing, f_pos = 0, f_append = True, f_error = 0\<rparr>\<rparr>\<rparr>)))))"

definition new_column :: "nat \<Rightarrow> f64 \<Rightarrow> sdb_column_t \<Rightarrow> sdb_column_t" where
  "new_column sm precision c =
     (let c = c\<lparr>serialization_method := sm, col_arg := precision\<rparr> in
      if smallest sm then c\<lparr>original_arg := precision, delta_sum := 0, all_integer := True, all_numeric := True\<rparr> else c)"

definition sdb_setcolumn :: "bsd_env \<Rightarrow> bytes \<Rightarrow> nat \<Rightarrow> f64 \<Rightarrow> sdb_table_t \<Rightarrow> table_result" where
  "sdb_setcolumn env label sm precision tbl =
     (if tbl_state tbl \<noteq> SDB_ST_UNCONFIGURED then Returned (SDB_EBADSTATE, tbl)
      else if length (columns tbl) \<le> conf_col tbl then Fault
      else
        let i = conf_col tbl;
            c = new_column sm precision (columns tbl ! i) in
        run (new_conf_string label tbl) (\<lambda>(off, tbl).
        let tbl = tbl\<lparr>columns := (columns tbl)[i := c\<lparr>label_offset := off\<rparr>]\<rparr> in
        if off < 0 then Returned (SDB_EMEM, tbl)
        else
          let tbl = tbl\<lparr>conf_col := (i + 1) mod 256\<rparr> in
          if conf_col tbl = ncolumns tbl then
            let tbl = set_state SDB_ST_READING tbl;
                (granted, tbl) = reserve tbl;
                tbl = tbl\<lparr>conf_strings :=
                  (if granted then map_option (\<lambda>s. resize s (nat (conf_string_idx tbl))) (conf_strings tbl) else None)\<rparr> in
            if st_kind (store tbl) = SDB_SK_FILE
            then run (sdb_restore_file_cells env tbl) (\<lambda>tbl. Returned (SDB_EOK, tbl))
            else Returned (SDB_EOK, tbl)
          else Returned (SDB_EOK, tbl)))"

text \<open>
  \<open>sdb_init\<close> with the columns of its argument list; the precision is fetched only for the methods
  that have one. Columns are counted in an \<open>unsigned char\<close>, and the results of \<open>sdb_setcolumn\<close> are
  not looked at.
\<close>

definition has_precision :: "nat \<Rightarrow> bool" where
  "has_precision sm \<longleftrightarrow>
     SDB_SM_CONTAINER sm = SDB_SM_DELTAS_VECTOR \<or> SDB_SM_CONTAINER sm = SDB_SM_QUASIPERIODIC_VECTOR \<or>
     SDB_SM_CONTAINER sm = SDB_SM_SMALLEST \<and> has_flag sm SDB_SM_FIXED_PRECISION"

fun set_columns :: "bsd_env \<Rightarrow> (bytes \<times> nat \<times> f64) list \<Rightarrow> sdb_table_t \<Rightarrow> sdb_table_t outcome" where
  "set_columns env [] tbl = Returned tbl"
| "set_columns env ((name, sm, precision) # cs) tbl =
     run (sdb_setcolumn env name sm (if has_precision sm then precision else 0) tbl) (\<lambda>(_, tbl).
       set_columns env cs tbl)"

definition sdb_init ::
  "bsd_env \<Rightarrow> bytes \<Rightarrow> bytes \<Rightarrow> sdb_storage_kind_t \<Rightarrow> (bytes \<times> nat \<times> f64) list \<Rightarrow> sdb_table_t \<Rightarrow> table_result" where
  "sdb_init env existing ident storage_kind cs tbl =
     run (sdb_initwithoutcolumns existing ident (length cs mod 256) storage_kind tbl) (\<lambda>(r, tbl).
     if r \<noteq> SDB_EOK then Returned (r, tbl)
     else run (set_columns env cs tbl) (\<lambda>tbl.
          if tbl_state tbl \<noteq> SDB_ST_READING then Returned (SDB_EINTERNAL, tbl) else Returned (SDB_EOK, tbl)))"

section \<open>Cancelling, resetting, closing\<close>

definition serialize_close :: "sdb_table_t \<Rightarrow> sdb_table_t" where
  "serialize_close tbl = tbl\<lparr>serialization_ctx := None\<rparr>"

definition sdb_serialize_cancel :: "sdb_table_t \<Rightarrow> int \<times> sdb_table_t" where
  "sdb_serialize_cancel tbl =
     (if tbl_state tbl \<noteq> SDB_ST_SERIALIZING then (SDB_EBADSTATE, tbl)
      else (SDB_EOK, set_state SDB_ST_READING (serialize_close tbl)))"

definition reset_analysis :: "sdb_column_t \<Rightarrow> sdb_column_t" where
  "reset_analysis c =
     (if SDB_SM_CONTAINER (serialization_method c) = SDB_SM_SMALLEST
      then c\<lparr>delta_sum := 0, all_integer := True, all_numeric := True\<rparr> else c)"

text \<open>What is left to do when the storage is empty again.\<close>

definition reset_counters :: "sdb_table_t \<Rightarrow> table_result" where
  "reset_counters tbl =
     (let tbl = tbl\<lparr>store := (store tbl)\<lparr>nwrittenbytes := 0, nwrittenobjects := 0\<rparr>,
                   columns := map reset_analysis (columns tbl)\<rparr> in
      case bss_ctx tbl of
        None \<Rightarrow> Returned (SDB_EOK, tbl)
      | Some b \<Rightarrow> need (bss_reset b) (\<lambda>b. Returned (SDB_EOK, tbl\<lparr>bss_ctx := Some b\<rparr>)))"

definition sdb_reset :: "sdb_table_t \<Rightarrow> table_result" where
  "sdb_reset tbl =
     (let tbl = (if tbl_state tbl = SDB_ST_SERIALIZING then snd (sdb_serialize_cancel tbl) else tbl) in
      if tbl_state tbl \<noteq> SDB_ST_READING then Returned (SDB_EBADSTATE, tbl)
      else case st_kind (store tbl) of
             SDB_SK_RAM \<Rightarrow>
               (case first_chunk ((store tbl)\<lparr>st_chunks := []\<rparr>) of (granted, st) \<Rightarrow>
                  let tbl = tbl\<lparr>store := st\<rparr> in
                  if \<not> granted then Returned (SDB_EMEM, set_state SDB_ST_BROKEN tbl) else reset_counters tbl)
           | SDB_SK_FILE \<Rightarrow>
               (case reserve tbl of (granted, tbl) \<Rightarrow>
                  if \<not> granted then Returned (SDB_EBADFILE, tbl\<lparr>store := (store tbl)\<lparr>st_file := None\<rparr>\<rparr>)
                  else reset_counters (tbl\<lparr>store := (store tbl)\<lparr>
                         st_file := Some \<lparr>f_data = [], f_pos = 0, f_append = False, f_error = 0\<rparr>\<rparr>\<rparr>)))"

definition sdb_close :: "sdb_table_t \<Rightarrow> sdb_table_t" where
  "sdb_close tbl =
     (let tbl = (if tbl_state tbl = SDB_ST_SERIALIZING then snd (sdb_serialize_cancel tbl) else tbl);
          tbl = set_state SDB_ST_BROKEN tbl;
          tbl = tbl\<lparr>columns := [], consolidation := None\<rparr>;
          tbl = (case st_kind (store tbl) of
                   SDB_SK_RAM \<Rightarrow> tbl\<lparr>store := (store tbl)\<lparr>st_chunks := []\<rparr>\<rparr>
                 | SDB_SK_FILE \<Rightarrow> tbl\<lparr>store := (store tbl)\<lparr>st_file := None\<rparr>\<rparr>)
      in tbl\<lparr>bss_ctx := None, conf_strings := None\<rparr>)"

section \<open>Consolidation columns and names\<close>

definition configured :: "sdb_table_t \<Rightarrow> bool" where
  "configured tbl \<longleftrightarrow> tbl_state tbl \<noteq> SDB_ST_BROKEN \<and> tbl_state tbl \<noteq> SDB_ST_UNCONFIGURED"

definition sdb_setconstable :: "nat \<Rightarrow> sdb_table_t \<Rightarrow> sdb_table_t \<Rightarrow> int \<times> sdb_table_t" where
  "sdb_setconstable dst_addr dst src =
     (if \<not> configured src then (SDB_EBADSTATE, src)
      else if consolidation src \<noteq> None then (SDB_EINVALID, src)
      else case reserve src of (granted, src) \<Rightarrow>
             if \<not> granted then (SDB_EMEM, src)
             else (SDB_EOK, src\<lparr>consolidation := Some \<lparr>cons_dst = dst_addr,
                    dst_columns = replicate (ncolumns dst) None,
                    cons_conf_col = 0\<rparr>\<rparr>))"

definition sdb_setconscolumn ::
  "sdb_table_t \<Rightarrow> nat \<Rightarrow> sdb_consolidation_method_t \<Rightarrow> sdb_table_t \<Rightarrow> int \<times> sdb_table_t" where
  "sdb_setconscolumn dst src_col method src =
     (if \<not> configured src then (SDB_EBADSTATE, src)
      else case consolidation src of
             None \<Rightarrow> (SDB_EINVALID, src)
           | Some cons \<Rightarrow>
               if ncolumns src \<le> src_col then (SDB_EINVALID, src)
               else if ncolumns dst \<le> cons_conf_col cons then (SDB_EINVALID, src)
               else (SDB_EOK, src\<lparr>consolidation := Some (cons\<lparr>
                      dst_columns := (dst_columns cons)[cons_conf_col cons := Some \<lparr>cc_method = method, src_column = src_col\<rparr>],
                      cons_conf_col := cons_conf_col cons + 1\<rparr>)\<rparr>))"

fun find_column :: "bytes option \<Rightarrow> bytes \<Rightarrow> nat \<Rightarrow> sdb_column_t list \<Rightarrow> nat outcome" where
  "find_column strings name i [] = Returned SDB_NCOLUMN_INVALID"
| "find_column strings name i (c # cs) =
     string_at strings (label_offset c) (\<lambda>colname.
       if name = colname then Returned i else find_column strings name (i + 1) cs)"

definition sdb_getcolnum :: "sdb_table_t \<Rightarrow> bytes \<Rightarrow> nat outcome" where
  "sdb_getcolnum tbl name =
     (if \<not> configured tbl then Returned SDB_NCOLUMN_INVALID
      else find_column (conf_strings tbl) name 0 (columns tbl))"

definition sdb_getcolname :: "sdb_table_t \<Rightarrow> nat \<Rightarrow> bytes option outcome" where
  "sdb_getcolname tbl icol =
     (if \<not> configured tbl then Returned None
      else if length (columns tbl) \<le> icol then Fault
      else string_at (conf_strings tbl) (label_offset (columns tbl ! icol)) (\<lambda>s. Returned (Some s)))"

end
