(* ===== verification/Sdb_Serialize.thy ===== *)
theory Sdb_Serialize
  imports Sdb_Table
begin

text \<open>
  Serialization of a staging table (\<open>src/libs/bysant/sdb_serialize.c\<close>): a map from the names of the
  columns to their cells, each column as a list, a deltas vector or a quasi-periodic vector.

  The serialization can be interrupted by an overflow of the target and resumed. The code jumps
  into the middle of its loops with a \<open>switch\<close> on the stage it had reached; here each function
  has one part for each place it can be entered at, and the parts behind it. A part maps the
  table and the target serializer to the status returned and the two as they are left; \<open>TRYS\<close> is
  the macro \<open>TRY\<close>, \<open>return\<close> inside of a loop is the option of \<open>while_ret\<close>.
\<close>

section \<open>State\<close>

definition SDB_CLSID_DELTAS_VECTOR :: nat where "SDB_CLSID_DELTAS_VECTOR = 3"
definition SDB_CLSID_QUASI_PERIODIC_VECTOR :: nat where "SDB_CLSID_QUASI_PERIODIC_VECTOR = 4"

record 'w sdb_job =
  job_table :: sdb_table_t
  job_bss :: "'w bss_ctx_t"

type_synonym 'w job_result = "(int \<times> 'w sdb_job) outcome"
type_synonym 'w part = "'w sdb_job \<Rightarrow> 'w job_result"

text \<open>The serialization context, which exists while the table is being serialized.\<close>

definition job_ctx :: "'w sdb_job \<Rightarrow> sdb_serialization_ctx_t" where
  "job_ctx j = the (serialization_ctx (job_table j))"

definition set_ctx :: "sdb_serialization_ctx_t \<Rightarrow> 'w sdb_job \<Rightarrow> 'w sdb_job" where
  "set_ctx ctx j = j\<lparr>job_table := (job_table j)\<lparr>serialization_ctx := Some ctx\<rparr>\<rparr>"

definition set_stage :: "sdb_serialization_stage_t \<Rightarrow> 'w sdb_job \<Rightarrow> 'w sdb_job" where
  "set_stage s j = set_ctx ((job_ctx j)\<lparr>ser_stage := s\<rparr>) j"

definition call_bss :: "'w ser_op \<Rightarrow> 'w part" where
  "call_bss bssop j = need (bssop (job_bss j)) (\<lambda>(r, b). Returned (r, j\<lparr>job_bss := b\<rparr>))"

definition TRYS :: "'w part \<Rightarrow> sdb_serialization_stage_t \<Rightarrow> 'w part \<Rightarrow> 'w part" where
  "TRYS w s k j = run (w j) (\<lambda>(r, j). if r \<noteq> BSS_EOK then Returned (r, j) else k (set_stage s j))"

definition sdb_done :: "'w part" where
  "sdb_done j = Returned (BSS_EOK, j)"

text \<open>The column that is serialized; the index is below the number of columns.\<close>

definition job_column :: "'w sdb_job \<Rightarrow> sdb_column_t" where
  "job_column j = columns (job_table j) ! current_column (job_ctx j)"

definition nrows :: "sdb_table_t \<Rightarrow> nat" where
  "nrows tbl = nwrittenobjects (store tbl) div ncolumns tbl"

definition nobjectstoread :: "sdb_table_t \<Rightarrow> nat" where
  "nobjectstoread tbl = nrows tbl * ncolumns tbl"

section \<open>Going over the cells of a column\<close>

text \<open>
  The loop that the three containers share: the next object of the table is read, and if it is
  in the column, \<open>cell\<close> sends it. Resuming starts behind the reading.
\<close>

definition returning :: "'w part \<Rightarrow> 'w sdb_job \<Rightarrow> (int option \<times> 'w sdb_job) outcome" where
  "returning p j = run (p j) (\<lambda>(r, j). Returned (if r \<noteq> BSS_EOK then Some r else None, j))"

definition cells_left :: "'w sdb_job \<Rightarrow> bool" where
  "cells_left j \<longleftrightarrow> nreadobjects (ser_read_ctx (job_ctx j)) < nobjectstoread (job_table j)"

definition cell_step :: "bsd_env \<Rightarrow> 'w part \<Rightarrow> 'w sdb_job \<Rightarrow> (int option \<times> 'w sdb_job) outcome" where
  "cell_step env cell j =
     (let tbl = job_table j; rctx = ser_read_ctx (job_ctx j);
          incolumn = (nreadobjects rctx mod ncolumns tbl = current_column (job_ctx j)) in
      run (sdb_read_data env (store tbl) rctx blank_data (\<not> incolumn)) (\<lambda>(r, st, rctx, _).
        let j = set_ctx ((job_ctx j)\<lparr>ser_read_ctx := rctx\<rparr>) (j\<lparr>job_table := tbl\<lparr>store := st\<rparr>\<rparr>) in
        if r < 0 then Returned (Some r, j)
        else if incolumn then returning cell j
        else Returned (None, j)))"

definition cells_loop :: "bsd_env \<Rightarrow> 'w part \<Rightarrow> 'w part \<Rightarrow> 'w part" where
  "cells_loop env cell k j =
     run (while_ret cells_left (cell_step env cell) j) (\<lambda>(ret, j).
       case ret of Some r \<Rightarrow> Returned (r, j) | None \<Rightarrow> k (set_stage SDB_SS_COLUMN_CONTENT_SENT j))"

definition resume_cell :: "'w part \<Rightarrow> 'w part \<Rightarrow> 'w part" where
  "resume_cell cell k j = run (cell j) (\<lambda>(r, j). if r \<noteq> BSS_EOK then Returned (r, j) else k j)"

section \<open>Lists\<close>

definition list_cell :: "'w part" where
  "list_cell j =
     need (rd_bytes (ser_read_ctx (job_ctx j))) (\<lambda>b.
       TRYS (call_bss (bss_raw b)) SDB_SS_COLUMN_SENDING_CELLS sdb_done j)"

definition list_close :: "'w part" where
  "list_close = TRYS (call_bss bss_close) SDB_SS_COLUMN_CLOSED sdb_done"

definition serialize_column_list :: "bsd_env \<Rightarrow> 'w part" where
  "serialize_column_list env j =
     (case ser_stage (job_ctx j) of
        SDB_SS_MAP_LABEL_SENT \<Rightarrow>
          TRYS (call_bss (bss_list (int (nrows (job_table j))) BS_CTXID_GLOBAL)) SDB_SS_COLUMN_SENDING_CELLS
            (cells_loop env list_cell list_close) j
      | SDB_SS_COLUMN_SENDING_CELLS \<Rightarrow> resume_cell list_cell (cells_loop env list_cell list_close) j
      | _ \<Rightarrow> Returned (BSS_EINTERNAL, j))"

section \<open>Deltas vectors\<close>

text \<open>
  The number that was read, decoded once more from its octets; \<open>None\<close> when it is not a number. A
  negative result of the decoder is compared as an unsigned number, and the data is then looked
  at although it was not filled in.
\<close>

definition get_bsd_value :: "bsd_env \<Rightarrow> 'w sdb_job \<Rightarrow> (f64 option \<Rightarrow> 'w sdb_job \<Rightarrow> 'a outcome) \<Rightarrow> 'a outcome" where
  "get_bsd_value env j k =
     (let ctx = job_ctx j; rctx = ser_read_ctx ctx in
      need (rd_bytes rctx) (\<lambda>b.
      read_with_bsd env rctx blank_data b (rd_nbytes rctx) (\<lambda>r rctx x.
        let j = set_ctx (ctx\<lparr>ser_read_ctx := rctx\<rparr>) j in
        if 0 \<le> r \<and> r < int (rd_nbytes rctx) then k None j
        else case d_type x of
               BSD_INT \<Rightarrow> k (Some (i64_to_f64 (get_int x))) j
             | BSD_DOUBLE \<Rightarrow> (case d_content x of D_double d \<Rightarrow> k (Some d) j | _ \<Rightarrow> Fault)
             | _ \<Rightarrow> k None j)))"

definition f64_one :: f64 where "f64_one = 0x3FF0000000000000"
definition f64_1e15 :: f64 where "f64_1e15 = 0x430C6BF526340000"

text \<open>The sum of a \<open>double\<close> and an \<open>int\<close>, converted to \<open>int\<close>.\<close>

definition deltasvector_integer :: "f64 \<Rightarrow> f64 \<Rightarrow> int option" where
  "deltasvector_integer v precision =
     (if f64_le 0 v then
        f64_to_i32 (f64_add (f64_floor v)
          (i64_to_f64 (if f64_le (f64_sub f64_one precision) (f64_fmod1 v) then 1 else 0)))
      else let r = f64_fmod1 v in
        f64_to_i32 (f64_add (f64_floor v) (i64_to_f64 (if f64_less 0 r \<and> f64_le r precision then 1 else 0))))"

definition inaccuracy :: "f64 \<Rightarrow> f64" where
  "inaccuracy v = f64_fabs (f64_div v f64_1e15)"

definition set_previous :: "f64 \<Rightarrow> 'w sdb_job \<Rightarrow> 'w sdb_job" where
  "set_previous v j = set_ctx ((job_ctx j)\<lparr>ser_previous := v\<rparr>) j"

definition deltas_list :: "'w part" where
  "deltas_list j =
     TRYS (call_bss (bss_list (int (nrows (job_table j)) - 1) BS_CTXID_NUMBER)) SDB_SS_COLUMN_SENDING_CELLS sdb_done j"

definition deltas_cell :: "bsd_env \<Rightarrow> 'w part" where
  "deltas_cell env j =
     get_bsd_value env j (\<lambda>v j.
     case v of
       None \<Rightarrow> Returned (BSS_EINVALID, j)
     | Some val \<Rightarrow>
         let arg = col_arg (job_column j) in
         (case ser_stage (job_ctx j) of
            SDB_SS_COLUMN_FACTOR_SENT \<Rightarrow>
              need (deltasvector_integer (f64_div val arg) (inaccuracy val)) (\<lambda>start.
                TRYS (call_bss (bss_int start)) SDB_SS_COLUMN_START_VALUE_SENT
                  (\<lambda>j. deltas_list (set_previous val j)) j)
          | SDB_SS_COLUMN_START_VALUE_SENT \<Rightarrow> deltas_list j
          | _ \<Rightarrow>
              need (deltasvector_integer (f64_div (f64_sub val (ser_previous (job_ctx j))) arg) (inaccuracy val))
                (\<lambda>int_delta.
                  TRYS (call_bss (bss_int int_delta)) SDB_SS_COLUMN_SENDING_CELLS
                    (\<lambda>j. sdb_done (if int_delta \<noteq> 0 then set_previous val j else j)) j)))"

definition vector_close :: "'w part" where
  "vector_close = TRYS (call_bss bss_close) SDB_SS_COLUMN_CLOSED sdb_done"

definition deltas_close :: "'w part" where
  "deltas_close = TRYS (call_bss bss_close) SDB_SS_COLUMN_INNER_LIST_CLOSED vector_close"

definition deltas_factor :: "bsd_env \<Rightarrow> 'w part" where
  "deltas_factor env j =
     TRYS (call_bss (bss_double (env_host env) (col_arg (job_column j)))) SDB_SS_COLUMN_FACTOR_SENT
       (cells_loop env (deltas_cell env) deltas_close) j"

definition serialize_column_deltasvector :: "bsd_env \<Rightarrow> 'w part" where
  "serialize_column_deltasvector env j =
     (case ser_stage (job_ctx j) of
        SDB_SS_MAP_LABEL_SENT \<Rightarrow>
          TRYS (call_bss (bss_object SDB_CLSID_DELTAS_VECTOR)) SDB_SS_COLUMN_OBJECT_DEFINED (deltas_factor env) j
      | SDB_SS_COLUMN_OBJECT_DEFINED \<Rightarrow> deltas_factor env j
      | SDB_SS_COLUMN_FACTOR_SENT \<Rightarrow> resume_cell (deltas_cell env) (cells_loop env (deltas_cell env) deltas_close) j
      | SDB_SS_COLUMN_SENDING_CELLS \<Rightarrow> resume_cell (deltas_cell env) (cells_loop env (deltas_cell env) deltas_close) j
      | SDB_SS_COLUMN_START_VALUE_SENT \<Rightarrow> resume_cell (deltas_cell env) (cells_loop env (deltas_cell env) deltas_close) j
      | SDB_SS_COLUMN_CONTENT_SENT \<Rightarrow> deltas_close j
      | SDB_SS_COLUMN_INNER_LIST_CLOSED \<Rightarrow> vector_close j
      | _ \<Rightarrow> Returned (BSS_EINTERNAL, j))"

section \<open>Quasi-periodic vectors\<close>

definition set_shift :: "nat \<Rightarrow> 'w sdb_job \<Rightarrow> 'w sdb_job" where
  "set_shift n j = set_ctx ((job_ctx j)\<lparr>current_shift := n mod 65536\<rparr>) j"

text \<open>The last lines of the function: the value becomes the previous one.\<close>

definition qpv_done :: "f64 \<Rightarrow> 'w part" where
  "qpv_done v j = sdb_done (set_previous v j)"

definition qpv_list :: "f64 \<Rightarrow> 'w part" where
  "qpv_list v = TRYS (call_bss (bss_list (- 1) BS_CTXID_NUMBER)) SDB_SS_COLUMN_SENDING_CELLS
     (\<lambda>j. qpv_done v (set_shift 0 j))"

definition qpv_shift :: "bsd_env \<Rightarrow> f64 \<Rightarrow> f64 \<Rightarrow> 'w part" where
  "qpv_shift env v shift = TRYS (call_bss (bss_double (env_host env) shift)) SDB_SS_COLUMN_SENDING_CELLS
     (\<lambda>j. qpv_done v (set_shift 0 j))"

definition serialize_cell_quasiperiodicvector :: "bsd_env \<Rightarrow> f64 \<Rightarrow> 'w part" where
  "serialize_cell_quasiperiodicvector env period j =
     get_bsd_value env j (\<lambda>v j.
     case v of
       None \<Rightarrow> Returned (BSS_EINVALID, j)
     | Some val \<Rightarrow>
         (case ser_stage (job_ctx j) of
            SDB_SS_COLUMN_FACTOR_SENT \<Rightarrow>
              TRYS (call_bss (bss_double (env_host env) val)) SDB_SS_COLUMN_START_VALUE_SENT (qpv_list val) j
          | SDB_SS_COLUMN_START_VALUE_SENT \<Rightarrow> qpv_list val j
          | stage \<Rightarrow>
              let shift = f64_sub val (f64_add (ser_previous (job_ctx j)) period) in
              if f64_le (f64_fabs shift) (inaccuracy val)
              then qpv_done val (set_shift (current_shift (job_ctx j) + 1) j)
              else if stage = SDB_SS_COLUMN_SENDING_CELLS then
                TRYS (call_bss (bss_int (int (current_shift (job_ctx j))))) SDB_SS_COLUMN_SHIFT_SENT
                  (qpv_shift env val shift) j
              else if stage = SDB_SS_COLUMN_SHIFT_SENT then qpv_shift env val shift j
              else Returned (BSS_EINTERNAL, j)))"

definition qpv_close :: "'w part" where
  "qpv_close = TRYS (call_bss bss_close) SDB_SS_COLUMN_INNER_LIST_CLOSED vector_close"

definition qpv_last_shift :: "'w part" where
  "qpv_last_shift j =
     TRYS (call_bss (bss_int (int (current_shift (job_ctx j))))) SDB_SS_COLUMN_LAST_SHIFT_SENT qpv_close j"

definition qpv_cells :: "bsd_env \<Rightarrow> 'w part" where
  "qpv_cells env = cells_loop env (\<lambda>j. serialize_cell_quasiperiodicvector env (col_arg (job_column j)) j) qpv_last_shift"

definition qpv_period :: "bsd_env \<Rightarrow> 'w part" where
  "qpv_period env j =
     TRYS (call_bss (bss_double (env_host env) (col_arg (job_column j)))) SDB_SS_COLUMN_FACTOR_SENT (qpv_cells env) j"

definition serialize_column_quasiperiodicvector :: "bsd_env \<Rightarrow> 'w part" where
  "serialize_column_quasiperiodicvector env j =
     (let resume = resume_cell (\<lambda>j. serialize_cell_quasiperiodicvector env (col_arg (job_column j)) j) (qpv_cells env) in
      case ser_stage (job_ctx j) of
        SDB_SS_MAP_LABEL_SENT \<Rightarrow>
          TRYS (call_bss (bss_object SDB_CLSID_QUASI_PERIODIC_VECTOR)) SDB_SS_COLUMN_OBJECT_DEFINED (qpv_period env) j
      | SDB_SS_COLUMN_OBJECT_DEFINED \<Rightarrow> qpv_period env j
      | SDB_SS_COLUMN_FACTOR_SENT \<Rightarrow> resume j
      | SDB_SS_COLUMN_START_VALUE_SENT \<Rightarrow> resume j
      | SDB_SS_COLUMN_SENDING_CELLS \<Rightarrow> resume j
      | SDB_SS_COLUMN_SHIFT_SENT \<Rightarrow> resume j
      | SDB_SS_COLUMN_CONTENT_SENT \<Rightarrow> qpv_last_shift j
      | SDB_SS_COLUMN_LAST_SHIFT_SENT \<Rightarrow> qpv_close j
      | SDB_SS_COLUMN_INNER_LIST_CLOSED \<Rightarrow> vector_close j
      | _ \<Rightarrow> Returned (BSS_EINTERNAL, j))"

section \<open>Choosing the smallest container\<close>

definition bss_int_size :: "int \<Rightarrow> int" where
  "bss_int_size x =
     (if - 0x10 \<le> x \<and> x \<le> 0x2f then 1
      else if - 0x800 \<le> x \<and> x \<le> 0x7ff then 2
      else if - 0x40000 \<le> x \<and> x \<le> 0x3ffff then 3
      else 5)"

definition bss_double_size :: "f64 \<Rightarrow> int option" where
  "bss_double_size x =
     map_option (\<lambda>y.
       if f64_eq (i64_to_f64 y) x \<and> - 0x8000 \<le> y \<and> y < 0x8000 then
         if y = 0 \<or> y = 1 then 1 else if - 0x80 \<le> y \<and> y < 0x80 then 2 else 3
       else if f64_eq (f32_to_f64 (f64_to_f32 x)) x then 5
       else 9) (f64_to_i32 x)"

record data_analysis_t =
  vsize :: int
  dvsize :: int
  qpvsize :: int
  dvfactor :: f64
  qpvperiod :: int
  qpvcurrentn :: int
  dprevious :: f64
  iprevious :: int

definition undecided :: "sdb_column_t \<Rightarrow> bool" where
  "undecided c \<longleftrightarrow> SDB_SM_CONTAINER (serialization_method c) = SDB_SM_SMALLEST \<and>
     SDB_SM_CONTAINER (an_method c) = SDB_SM_SMALLEST"

text \<open>First pass: a vector needs numbers, and integers unless its factor is given.\<close>

definition preselect :: "sdb_column_t \<Rightarrow> sdb_column_t" where
  "preselect c =
     (if SDB_SM_CONTAINER (serialization_method c) = SDB_SM_SMALLEST then
        c\<lparr>an_method :=
          if \<not> all_numeric c then SDB_SM_LIST
          else if \<not> all_integer c \<and> \<not> has_flag (serialization_method c) SDB_SM_FIXED_PRECISION then SDB_SM_LIST
          else SDB_SM_SMALLEST\<rparr>
      else c)"

definition initial_analysis :: "nat \<Rightarrow> sdb_column_t \<Rightarrow> data_analysis_t option" where
  "initial_analysis rows c =
     (let factor = (if has_flag (serialization_method c) SDB_SM_FIXED_PRECISION then original_arg c
                    else i64_to_f64 (an_gcd c)) in
      case (bss_double_size factor,
            f64_to_i32 (f64_round (f64_div (i64_to_f64 (delta_sum c)) (i64_to_f64 (int rows - 1))))) of
        (Some dv, Some period) \<Rightarrow>
          Some \<lparr>vsize = 0, dvsize = dv, qpvsize = bss_int_size period, dvfactor = factor,
                qpvperiod = period, qpvcurrentn = 0, dprevious = 0, iprevious = 0\<rparr>
      | _ \<Rightarrow> None)"

fun initial_analyses :: "nat \<Rightarrow> sdb_column_t list \<Rightarrow> data_analysis_t list option" where
  "initial_analyses rows [] = Some []"
| "initial_analyses rows (c # cs) =
     (if undecided c then
        (case (initial_analysis rows c, initial_analyses rows cs) of
           (Some a, Some as) \<Rightarrow> Some (a # as)
         | _ \<Rightarrow> None)
      else initial_analyses rows cs)"

text \<open>Second pass: the sizes that one more cell adds.\<close>

definition analyse_cell :: "bool \<Rightarrow> f64 \<Rightarrow> int \<Rightarrow> nat \<Rightarrow> data_analysis_t \<Rightarrow> data_analysis_t option" where
  "analyse_cell first dvalue ivalue nbytes a =
     (let a = a\<lparr>vsize := vsize a + int nbytes\<rparr> in
      map_option (\<lambda>a. a\<lparr>dprevious := dvalue, iprevious := ivalue\<rparr>)
        (if first then
           map_option (\<lambda>n. a\<lparr>dvsize := dvsize a + n, qpvsize := qpvsize a + bss_int_size ivalue, qpvcurrentn := 0\<rparr>)
             (bss_double_size dvalue)
         else
           let qpvshift = ivalue - (iprevious a + qpvperiod a) in
           if \<not> int_ok (iprevious a + qpvperiod a) \<or> \<not> int_ok qpvshift then None
           else
             let a = (if qpvshift = 0 then a\<lparr>qpvcurrentn := qpvcurrentn a + 1\<rparr>
                      else a\<lparr>qpvsize := qpvsize a + bss_int_size qpvshift + bss_int_size (qpvcurrentn a),
                             qpvcurrentn := 0\<rparr>) in
             map_option (\<lambda>n. a\<lparr>dvsize := dvsize a + bss_int_size n\<rparr>)
               (f64_to_i32 (f64_floor (f64_div (f64_sub dvalue (dprevious a)) (dvfactor a))))))"

text \<open>The counter of the analysed cells is an \<open>unsigned char\<close>.\<close>

record analysis_loop =
  al_store :: sdb_store
  al_read :: sdb_read_ctx_t
  al_index :: nat
  al_smallest :: nat
  al_data :: "data_analysis_t list"

definition read_number :: "bsd_data_t \<Rightarrow> (f64 \<Rightarrow> int \<Rightarrow> 'a outcome) \<Rightarrow> 'a outcome" where
  "read_number x k =
     (if d_type x = BSD_INT then k (i64_to_f64 (get_int x)) (signed_take_bit 31 (get_int x))
      else case d_content x of D_double d \<Rightarrow> k d 0 | _ \<Rightarrow> Fault)"

definition analysis_step :: "bsd_env \<Rightarrow> sdb_column_t list \<Rightarrow> analysis_loop \<Rightarrow> (int option \<times> analysis_loop) outcome" where
  "analysis_step env cols l =
     (let is_smallest = undecided (cols ! (nreadobjects (al_read l) mod length cols)) in
      run (sdb_read_data env (al_store l) (al_read l) blank_data (\<not> is_smallest)) (\<lambda>(r, st, rctx, x).
        let l = l\<lparr>al_store := st, al_read := rctx\<rparr> in
        if r < 0 then Returned (Some r, l)
        else if is_smallest then
          read_number x (\<lambda>dvalue ivalue.
          let i = al_smallest l mod length (al_data l) in
          need (analyse_cell (al_index l < length cols) dvalue ivalue (rd_nbytes rctx) (al_data l ! i)) (\<lambda>a.
            Returned (None, l\<lparr>al_data := (al_data l)[i := a], al_smallest := (al_smallest l + 1) mod 256,
              al_index := al_index l + 1\<rparr>)))
        else Returned (None, l\<lparr>al_index := al_index l + 1\<rparr>)))"

definition decide :: "sdb_column_t \<Rightarrow> data_analysis_t \<Rightarrow> sdb_column_t" where
  "decide c a =
     (let qpv = (if \<not> all_integer c then 2 ^ 31 - 1 else qpvsize a) in
      if qpv < dvsize a \<and> qpv < vsize a then
        c\<lparr>col_arg := i64_to_f64 (qpvperiod a), an_method := SDB_SM_QUASIPERIODIC_VECTOR\<rparr>
      else if dvsize a < vsize a then c\<lparr>col_arg := dvfactor a, an_method := SDB_SM_DELTAS_VECTOR\<rparr>
      else c\<lparr>an_method := SDB_SM_LIST\<rparr>)"

fun decide_all :: "sdb_column_t list \<Rightarrow> data_analysis_t list \<Rightarrow> sdb_column_t list" where
  "decide_all [] as = []"
| "decide_all (c # cs) as =
     (if undecided c then (case as of a # as \<Rightarrow> decide c a # decide_all cs as | [] \<Rightarrow> c # cs)
      else c # decide_all cs as)"

definition compute_serialization_methods :: "bsd_env \<Rightarrow> sdb_table_t \<Rightarrow> table_result" where
  "compute_serialization_methods env tbl =
     (let cols = map preselect (columns tbl); tbl = tbl\<lparr>columns := cols\<rparr> in
      if filter undecided cols = [] then Returned (SDB_EOK, tbl)
      else if \<not> env_malloc env then Returned (SDB_EMEM, tbl)
      else need (initial_analyses (nrows tbl) cols) (\<lambda>as.
      run (sdb_read_init env (store tbl) blank_read_ctx) (\<lambda>(st, rctx).
      run (while_ret (\<lambda>l. al_index l < nwrittenobjects (store tbl)) (analysis_step env cols)
             \<lparr>al_store = st, al_read = rctx, al_index = 0, al_smallest = 0, al_data = as\<rparr>) (\<lambda>(ret, l).
        let tbl = tbl\<lparr>store := al_store l\<rparr> in
        case ret of
          Some r \<Rightarrow> Returned (r, tbl)
        | None \<Rightarrow> Returned (SDB_EOK, tbl\<lparr>columns := decide_all cols (al_data l)\<rparr>)))))"

section \<open>The table\<close>

definition column_method :: "sdb_column_t \<Rightarrow> nat" where
  "column_method c = SDB_SM_CONTAINER
     (if SDB_SM_CONTAINER (serialization_method c) = SDB_SM_SMALLEST then an_method c else serialization_method c)"

text \<open>From the label on: the container, in whatever stage it is, and the end of the round.\<close>

definition serialize_column :: "bsd_env \<Rightarrow> 'w part" where
  "serialize_column env j =
     (let sm = column_method (job_column j) in
      if sm = SDB_SM_LIST \<or> sm = SDB_SM_FASTEST then serialize_column_list env j
      else if sm = SDB_SM_DELTAS_VECTOR then serialize_column_deltasvector env j
      else if sm = SDB_SM_QUASIPERIODIC_VECTOR then serialize_column_quasiperiodicvector env j
      else Returned (BSS_EINVALID, j))"

definition next_column :: "'w sdb_job \<Rightarrow> 'w sdb_job" where
  "next_column j =
     (let ctx = job_ctx j in
      set_ctx (ctx\<lparr>ser_read_ctx := sdb_read_close (ser_read_ctx ctx), current_column := (current_column ctx + 1) mod 256\<rparr>) j)"

definition column_rest :: "bsd_env \<Rightarrow> 'w part" where
  "column_rest env = TRYS (serialize_column env) SDB_SS_COLUMN_CLOSED (\<lambda>j. sdb_done (next_column j))"

definition start_reading :: "bsd_env \<Rightarrow> 'w part \<Rightarrow> 'w part" where
  "start_reading env k j =
     (let ctx = job_ctx j in
      run (sdb_read_init env (store (job_table j)) (ser_read_ctx ctx)) (\<lambda>(st, rctx).
        k (set_ctx (ctx\<lparr>ser_read_ctx := rctx\<rparr>) (j\<lparr>job_table := (job_table j)\<lparr>store := st\<rparr>\<rparr>))))"

definition column_label :: "bsd_env \<Rightarrow> 'w part" where
  "column_label env j =
     string_at (conf_strings (job_table j)) (label_offset (job_column j)) (\<lambda>label.
       TRYS (call_bss (bss_string label)) SDB_SS_MAP_LABEL_SENT (start_reading env (column_rest env)) j)"

definition columns_left :: "'w sdb_job \<Rightarrow> bool" where
  "columns_left j \<longleftrightarrow> current_column (job_ctx j) < ncolumns (job_table j)"

definition map_close :: "'w part" where
  "map_close = TRYS (call_bss bss_close) SDB_SS_MAP_CLOSED
     (\<lambda>j. Returned (BSS_EOK, j\<lparr>job_table := serialize_close (job_table j)\<rparr>))"

definition columns_loop :: "bsd_env \<Rightarrow> 'w part" where
  "columns_loop env j =
     run (while_ret columns_left (returning (column_label env)) j) (\<lambda>(ret, j).
       case ret of Some r \<Rightarrow> Returned (r, j) | None \<Rightarrow> map_close (set_stage SDB_SS_ALL_COLUMNS_SENT j))"

definition first_column :: "bsd_env \<Rightarrow> 'w part" where
  "first_column env j = columns_loop env (set_ctx ((job_ctx j)\<lparr>current_column := 0\<rparr>) j)"

definition with_methods :: "bsd_env \<Rightarrow> 'w part \<Rightarrow> 'w part" where
  "with_methods env k j =
     run (compute_serialization_methods env (job_table j)) (\<lambda>(r, tbl).
       let j = j\<lparr>job_table := tbl\<rparr> in if r < 0 then Returned (r, j) else k j)"

definition serialize_table :: "bsd_env \<Rightarrow> 'w part" where
  "serialize_table env j =
     (case ser_stage (job_ctx j) of
        SDB_SS_INITIALIZED \<Rightarrow>
          TRYS (call_bss (bss_map (- 1) BS_CTXID_GLOBAL)) SDB_SS_MAP_OPENED
            (with_methods env (first_column env)) j
      | SDB_SS_MAP_OPENED \<Rightarrow> first_column env j
      | SDB_SS_COLUMN_CLOSED \<Rightarrow> resume_cell (column_label env) (columns_loop env) j
      | SDB_SS_ALL_COLUMNS_SENT \<Rightarrow> map_close j
      | SDB_SS_MAP_CLOSED \<Rightarrow> Returned (BSS_EOK, j\<lparr>job_table := serialize_close (job_table j)\<rparr>)
      | _ \<Rightarrow> resume_cell (column_rest env) (columns_loop env) j)"

text \<open>\<open>target\<close> stands for the address of the serializer.\<close>

definition serialize_init :: "bsd_env \<Rightarrow> nat \<Rightarrow> sdb_table_t \<Rightarrow> int \<times> sdb_table_t" where
  "serialize_init env target tbl =
     (if \<not> env_malloc env then (SDB_EMEM, tbl)
      else (BSS_EOK, tbl\<lparr>serialization_ctx := Some \<lparr>ser_stage = SDB_SS_INITIALIZED, current_column = 0,
             ser_read_ctx = blank_read_ctx, ser_target = target, ser_previous = 0, current_shift = 0\<rparr>\<rparr>))"

definition serialize_run :: "bsd_env \<Rightarrow> nat \<Rightarrow> 'w part" where
  "serialize_run env target j =
     need (serialization_ctx (job_table j)) (\<lambda>ctx.
     if target \<noteq> ser_target ctx then Returned (BSS_EINVALID, j)
     else run (serialize_table env j) (\<lambda>(r, j).
       Returned (r, if r = SDB_EOK then j\<lparr>job_table := set_state SDB_ST_READING (job_table j)\<rparr> else j)))"

definition sdb_serialize :: "bsd_env \<Rightarrow> nat \<Rightarrow> 'w part" where
  "sdb_serialize env target j =
     (let tbl = job_table j in
      case tbl_state tbl of
        SDB_ST_READING \<Rightarrow>
          if nwrittenobjects (store tbl) < ncolumns tbl then Returned (SDB_EOK, j)
          else (case serialize_init env target tbl of (r, tbl) \<Rightarrow>
                  if r \<noteq> BSS_EOK then Returned (r, j\<lparr>job_table := tbl\<rparr>)
                  else serialize_run env target (j\<lparr>job_table := set_state SDB_ST_SERIALIZING tbl\<rparr>))
      | SDB_ST_SERIALIZING \<Rightarrow> serialize_run env target j
      | _ \<Rightarrow> Returned (SDB_EBADSTATE, j))"

end
