(* ===== verification/Sdb_Chunks.thy ===== *)
theory Sdb_Chunks
  imports Sdb_Storage
begin

text \<open>
  The chain of chunks is a flat sequence of octets. \<open>ram_content\<close> is what the chain holds when it
  is well formed: all chunks but the last are full, the last is never full, and the size that is
  noted for it is the size of its block. The writer appends to that sequence: it is a
  \<open>stream_writer\<close>, so that all that was shown for serializers holds for the serializer of a
  table. Pieces of less than 64 KiB are always accepted when memory is granted.
\<close>

section \<open>Powers of two\<close>

lemma or_shift_bounds:
  fixes x :: int
  assumes "0 \<le> x" "x < 2 ^ n"
  shows "x \<le> x OR drop_bit k x" "x OR drop_bit k x < 2 ^ n"
proof -
  have d: "0 \<le> drop_bit k x" using assms(1) by simp
  have "drop_bit k x \<le> x" using assms(1) by (simp add: drop_bit_eq_div pos_imp_zdiv_nonneg_iff int_div_less_self zdiv_mono2 [of x 1 "2 ^ k", simplified])
  with assms(2) have "drop_bit k x < 2 ^ n" by simp
  with assms show "x OR drop_bit k x < 2 ^ n" by (intro OR_upper)
  show "x \<le> x OR drop_bit k x" by (rule or_greater_eq [OF d])
qed

lemma next_pow2_bounds:
  assumes "0 < x" "x \<le> 0x10000"
  shows "x \<le> next_pow2 x" "next_pow2 x \<le> 0x10000"
proof -
  define s where "s = (\<lambda>k y :: int. y OR drop_bit k y)"
  have s: "0 \<le> y \<Longrightarrow> y < 2 ^ 16 \<Longrightarrow> y \<le> s k y \<and> s k y < 2 ^ 16" for k y
    unfolding s_def using or_shift_bounds [of y 16 k] by blast
  have eq: "next_pow2 x = s 8 (s 4 (s 2 (s 1 (x - 1)))) + 1" by (simp add: next_pow2_def s_def Let_def)
  have 0: "0 \<le> x - 1" "x - 1 < 2 ^ 16" using assms by simp_all
  from s [OF 0, of 1] s [of "s 1 (x - 1)" 2] s [of "s 2 (s 1 (x - 1))" 4] s [of "s 4 (s 2 (s 1 (x - 1)))" 8] 0
  have "x - 1 \<le> s 8 (s 4 (s 2 (s 1 (x - 1))))" "s 8 (s 4 (s 2 (s 1 (x - 1)))) < 2 ^ 16" by linarith+
  then show "x \<le> next_pow2 x" "next_pow2 x \<le> 0x10000" unfolding eq by simp_all
qed

lemma next_pow2_0 [simp]: "next_pow2 0 = 0"
  by (simp add: next_pow2_def)

section \<open>The content of a chain\<close>

definition last_data :: "sdb_store \<Rightarrow> bytes" where
  "last_data st = ch_data (last (st_chunks st))"

definition ram_ok :: "sdb_store \<Rightarrow> bool" where
  "ram_ok st \<longleftrightarrow>
     st_kind st = SDB_SK_RAM \<and> \<not> st_fault st \<and> st_chunks st \<noteq> [] \<and>
     (\<forall>c \<in> set (butlast (st_chunks st)). length (ch_data c) = SDB_CHUNK_SIZE) \<and>
     length (st_chunks st) = Suc (nwrittenbytes st div SDB_CHUNK_SIZE) \<and>
     length (last_data st) = (if st_last_size st = 0 then SDB_CHUNK_SIZE else st_last_size st) \<and>
     nwrittenbytes st mod SDB_CHUNK_SIZE \<le> length (last_data st) \<and> length (last_data st) \<le> SDB_CHUNK_SIZE"

definition chain_octets :: "sdb_store \<Rightarrow> bytes" where
  "chain_octets st =
     concat (map ch_data (butlast (st_chunks st))) @ take (nwrittenbytes st mod SDB_CHUNK_SIZE) (last_data st)"

definition ram_content :: "sdb_store \<Rightarrow> bytes option" where
  "ram_content st = (if ram_ok st then Some (chain_octets st) else None)"

lemma ram_content_Some: "ram_content st = Some s \<longleftrightarrow> ram_ok st \<and> chain_octets st = s"
  by (simp add: ram_content_def)

text \<open>Only the allocator, the state and the counter of objects differ.\<close>

definition same_chain :: "sdb_store \<Rightarrow> sdb_store \<Rightarrow> bool" where
  "same_chain st st' \<longleftrightarrow> st_kind st' = st_kind st \<and> st_chunks st' = st_chunks st \<and>
     st_last_size st' = st_last_size st \<and> nwrittenbytes st' = nwrittenbytes st \<and> st_fault st' = st_fault st"

lemma same_chain_content: "same_chain st st' \<Longrightarrow> ram_content st' = ram_content st"
  by (simp add: same_chain_def ram_content_def ram_ok_def chain_octets_def last_data_def)

lemma sdb_alloc_same: "sdb_alloc st = (g, a, st') \<Longrightarrow> same_chain st st'"
  by (auto simp: sdb_alloc_def same_chain_def)

section \<open>Growing the last chunk\<close>

lemma length_resize [simp]: "length (resize b n) = n"
  by (simp add: resize_def)

lemma take_resize: "k \<le> length b \<Longrightarrow> k \<le> n \<Longrightarrow> take k (resize b n) = take k b"
  by (simp add: resize_def)

text \<open>Fields that growing and writing leave alone.\<close>

definition same_table :: "sdb_store \<Rightarrow> sdb_store \<Rightarrow> bool" where
  "same_table st st' \<longleftrightarrow> st_state st' = st_state st \<and> st_ncolumns st' = st_ncolumns st \<and>
     nwrittenobjects st' = nwrittenobjects st \<and> (st_grants st = [] \<longrightarrow> st_grants st' = [])"

lemma same_table_refl [simp]: "same_table st st"
  by (simp add: same_table_def)

lemma same_table_trans: "same_table a b \<Longrightarrow> same_table b c \<Longrightarrow> same_table a c"
  by (simp add: same_table_def)

lemma sdb_alloc_table:
  "sdb_alloc st = (g, a, st') \<Longrightarrow> same_table st st' \<and> (st_grants st = [] \<longrightarrow> g)"
  by (auto simp: sdb_alloc_def same_table_def split: list.splits)

lemma last_chunk_resized:
  assumes ok: "ram_ok st" and n: "nwrittenbytes st mod SDB_CHUNK_SIZE \<le> n" "0 < n" "n \<le> SDB_CHUNK_SIZE"
    and r: "set_last_chunk_size n st = (r, st')"
  shows "ram_ok st'" "chain_octets st' = chain_octets st" "same_table st st'"
    "nwrittenbytes st' = nwrittenbytes st" "r \<noteq> SDB_EOK \<longrightarrow> r = SDB_EMEM \<and> st_grants st \<noteq> []"
    "r = SDB_EOK \<longrightarrow> length (last_data st') = n"
proof -
  obtain g a s where al: "sdb_alloc st = (g, a, s)" by (metis prod_cases3)
  note same = sdb_alloc_same [OF al] and tab = sdb_alloc_table [OF al]
  have ne: "st_chunks st \<noteq> []" and s: "st_chunks s = st_chunks st" "nwrittenbytes s = nwrittenbytes st"
    using ok same by (simp_all add: ram_ok_def same_chain_def)
  let ?prev = "if st_last_size st = 0 then 0x10000 else st_last_size st"
  let ?st' = "s\<lparr>st_chunks := butlast (st_chunks st) @ [\<lparr>ch_addr = a, ch_data = resize (last_data st) n\<rparr>],
      st_last_size := chunk_size_field n\<rparr>"
  consider (same) "n = ?prev" "r = SDB_EOK" "st' = st" | (fail) "\<not> g" "r = SDB_EMEM" "st' = s"
    | (grow) "g" "r = SDB_EOK" "st' = ?st'"
    using r al ne s by (auto simp: set_last_chunk_size_def last_data_def Let_def split: if_splits)
  then have "ram_ok st' \<and> chain_octets st' = chain_octets st \<and> same_table st st' \<and>
    nwrittenbytes st' = nwrittenbytes st \<and> (r \<noteq> SDB_EOK \<longrightarrow> r = SDB_EMEM \<and> st_grants st \<noteq> []) \<and>
    (r = SDB_EOK \<longrightarrow> length (last_data st') = n)"
  proof cases
    case same
    then show ?thesis using ok by (auto simp: ram_ok_def sdb_size_defs)
  next
    case fail
    then show ?thesis using ok same_chain_content [OF same] tab s by (auto simp: ram_content_def sdb_error_defs split: if_splits)
  next
    case grow
    have l: "last_data st' = resize (last_data st) n" and b: "butlast (st_chunks st') = butlast (st_chunks st)"
      unfolding grow by (simp_all add: last_data_def)
    have w: "nwrittenbytes st mod SDB_CHUNK_SIZE \<le> length (last_data st)" using ok by (simp add: ram_ok_def)
    have ok': "ram_ok st'"
      using ok same n s ne w unfolding ram_ok_def l b
      by (auto simp: grow same_chain_def chunk_size_field_def sdb_size_defs)
    have "chain_octets st' = chain_octets st"
      unfolding chain_octets_def l b using w n(1) s by (simp add: grow take_resize)
    with ok' show ?thesis using tab l s by (simp add: grow same_table_def)
  qed
  then show "ram_ok st'" "chain_octets st' = chain_octets st" "same_table st st'"
    "nwrittenbytes st' = nwrittenbytes st" "r \<noteq> SDB_EOK \<longrightarrow> r = SDB_EMEM \<and> st_grants st \<noteq> []"
    "r = SDB_EOK \<longrightarrow> length (last_data st') = n" by simp_all
qed

section \<open>Appending\<close>

lemma take_overwrite: "p + length b \<le> length d \<Longrightarrow> take (p + length b) (overwrite d p b) = take p d @ b"
  by (simp add: overwrite_def)

lemma div_mod_step:
  assumes "n mod c + k = j * c + r" "r < (c::nat)"
  shows "(n + k) mod c = r" "(n + k) div c = n div c + j"
proof -
  have "n + k = (n div c + j) * c + r"
    using assms(1) div_mult_mod_eq [of n c] unfolding add_mult_distrib by linarith
  with assms(2) show "(n + k) mod c = r" "(n + k) div c = n div c + j" by simp_all
qed

lemma chunk_store_at:
  assumes "st_chunks st = cs @ c # ds" "p + length b \<le> length (ch_data c)" "i = length cs"
  shows "chunk_store i p b st = st\<lparr>st_chunks := cs @ c\<lparr>ch_data := overwrite (ch_data c) p b\<rparr> # ds\<rparr>"
  using assms by (simp add: chunk_store_def)

text \<open>The octets fit into the last chunk.\<close>

lemma store_in_last:
  assumes ok: "ram_ok st" and p: "p = nwrittenbytes st mod SDB_CHUNK_SIZE"
    and fit: "p + length data \<le> length (last_data st)" and room: "p + length data < SDB_CHUNK_SIZE"
    and r: "wrote data (chunk_store (length (st_chunks st) - 1) p data st) = (r, st')"
  shows "ram_ok st'" "chain_octets st' = chain_octets st @ data" "r = int (length data)" "same_table st st'"
proof -
  have "st_chunks st \<noteq> []" using ok by (simp add: ram_ok_def)
  then obtain cs c where cs: "st_chunks st = cs @ [c]" by (metis append_butlast_last_id)
  then have c: "last_data st = ch_data c" by (simp add: last_data_def)
  have "chunk_store (length (st_chunks st) - 1) p data st =
      st\<lparr>st_chunks := cs @ [c\<lparr>ch_data := overwrite (ch_data c) p data\<rparr>]\<rparr>"
    using fit cs by (intro chunk_store_at) (simp_all add: c)
  with r have st': "st' = st\<lparr>st_chunks := cs @ [c\<lparr>ch_data := overwrite (ch_data c) p data\<rparr>],
      nwrittenbytes := nwrittenbytes st + length data\<rparr>" and rr: "r = int (length data)"
    by (simp_all add: wrote_def)
  have d: "last_data st' = overwrite (ch_data c) p data" by (simp add: st' last_data_def)
  have m: "(nwrittenbytes st + length data) mod SDB_CHUNK_SIZE = p + length data"
    "(nwrittenbytes st + length data) div SDB_CHUNK_SIZE = nwrittenbytes st div SDB_CHUNK_SIZE"
    using div_mod_step [of "nwrittenbytes st" SDB_CHUNK_SIZE "length data" 0 "p + length data"] room by (simp_all add: p)
  show "ram_ok st'"
    using ok fit m unfolding ram_ok_def d c cs by (simp add: st')
  show "chain_octets st' = chain_octets st @ data"
    unfolding chain_octets_def d c using m fit c by (simp add: st' cs take_overwrite p [symmetric])
  show "r = int (length data)" by (rule rr)
  show "same_table st st'" by (simp add: st' same_table_def)
qed

text \<open>The octets fill the last chunk and go on in a new one.\<close>

lemma store_across:
  assumes ok: "ram_ok st" and full: "length (last_data st) = SDB_CHUNK_SIZE"
    and left: "left = SDB_CHUNK_SIZE - nwrittenbytes st mod SDB_CHUNK_SIZE"
    and len: "left \<le> length data" "length data < SDB_CHUNK_SIZE"
    and a: "add_chunk (length data - left) st = (r1, st1)"
  shows "r1 \<noteq> SDB_EOK \<Longrightarrow> r1 = SDB_EMEM \<and> st_grants st \<noteq> [] \<and> ram_ok st1 \<and> chain_octets st1 = chain_octets st \<and> same_table st st1"
    "r1 = SDB_EOK \<Longrightarrow> wrote data (chunk_store (length (st_chunks st1) - 1) 0 (drop left data)
        (chunk_store (length (st_chunks st) - 1) (nwrittenbytes st mod SDB_CHUNK_SIZE) (take left data) st1)) = (r, st') \<Longrightarrow>
      ram_ok st' \<and> chain_octets st' = chain_octets st @ data \<and> r = int (length data) \<and> same_table st st'"
proof -
  let ?p = "nwrittenbytes st mod SDB_CHUNK_SIZE"
  let ?n = "max (nat (next_pow2 (int (length data - left)))) SDB_MIN_CHUNK_SIZE"
  obtain g ad s where al: "sdb_alloc st = (g, ad, s)" by (metis prod_cases3)
  note same = sdb_alloc_same [OF al] and tab = sdb_alloc_table [OF al]
  have s: "st_chunks s = st_chunks st" "nwrittenbytes s = nwrittenbytes st" "st_kind s = st_kind st" "st_fault s = st_fault st"
    using same by (simp_all add: same_chain_def)
  have p: "?p < SDB_CHUNK_SIZE" by (simp add: sdb_size_defs)
  have n: "length data - left \<le> ?n" "?n \<le> SDB_CHUNK_SIZE" "0 < ?n"
    using next_pow2_bounds [of "int (length data - left)"] len
    by (cases "length data = left"; simp add: sdb_size_defs)+
  show "r1 = SDB_EMEM \<and> st_grants st \<noteq> [] \<and> ram_ok st1 \<and> chain_octets st1 = chain_octets st \<and> same_table st st1" if "r1 \<noteq> SDB_EOK"
    using that a al ok tab same_chain_content [OF same]
    by (auto simp: add_chunk_def ram_content_def Let_def split: if_splits)
  assume r1: "r1 = SDB_EOK" and w: "wrote data (chunk_store (length (st_chunks st1) - 1) 0 (drop left data)
        (chunk_store (length (st_chunks st) - 1) ?p (take left data) st1)) = (r, st')"
  let ?new = "\<lparr>ch_addr = ad, ch_data = overwrite (replicate ?n 0) 0 (drop left data)\<rparr>"
  let ?old = "(last (st_chunks st))\<lparr>ch_data := overwrite (last_data st) ?p (take left data)\<rparr>"
  have st1: "st1 = s\<lparr>st_chunks := st_chunks st @ [\<lparr>ch_addr = ad, ch_data = replicate ?n 0\<rparr>], st_last_size := chunk_size_field ?n\<rparr>"
    using a al r1 s by (auto simp: add_chunk_def Let_def sdb_error_defs split: if_splits)
  have ne: "st_chunks st \<noteq> []" using ok by (simp add: ram_ok_def)
  obtain cs c where cs: "st_chunks st = cs @ [c]" using ne by (metis append_butlast_last_id)
  have fit: "?p + length (take left data) = SDB_CHUNK_SIZE" using left len p by simp
  let ?z = "\<lparr>ch_addr = ad, ch_data = replicate ?n 0\<rparr>"
  have l: "last_data st = ch_data c" by (simp add: last_data_def cs)
  have c1: "chunk_store (length (st_chunks st) - 1) ?p (take left data) st1 =
      st1\<lparr>st_chunks := cs @ c\<lparr>ch_data := overwrite (ch_data c) ?p (take left data)\<rparr> # [?z]\<rparr>"
    using fit full l cs by (intro chunk_store_at) (simp_all add: st1)
  have c2: "chunk_store (length (st_chunks st1) - 1) 0 (drop left data) (st1\<lparr>st_chunks := cs @ c' # [?z]\<rparr>) =
      st1\<lparr>st_chunks := (cs @ [c']) @ ?new # []\<rparr>" for c'
    using n cs by (subst chunk_store_at [of _ "cs @ [c']" ?z "[]"]) (simp_all add: st1)
  have st': "st' = s\<lparr>st_chunks := butlast (st_chunks st) @ [?old, ?new], st_last_size := chunk_size_field ?n,
      nwrittenbytes := nwrittenbytes st + length data\<rparr>" and rr: "r = int (length data)"
    using w unfolding c1 c2 by (auto simp: wrote_def st1 s cs l)
  have d: "last_data st' = drop left data @ drop (length data - left) (replicate ?n 0)"
      "butlast (st_chunks st') = butlast (st_chunks st) @ [?old]"
    unfolding st' by (simp_all add: last_data_def overwrite_0 butlast_append)
  have w2: "?p + length data = SDB_CHUNK_SIZE + (length data - left)" using left len p by simp
  have m: "(nwrittenbytes st + length data) mod SDB_CHUNK_SIZE = length data - left"
    "(nwrittenbytes st + length data) div SDB_CHUNK_SIZE = Suc (nwrittenbytes st div SDB_CHUNK_SIZE)"
    using div_mod_step [of "nwrittenbytes st" SDB_CHUNK_SIZE "length data" 1 "length data - left"] w2 len by simp_all
  have old: "ch_data ?old = take ?p (last_data st) @ take left data"
    using fit full left by (simp add: overwrite_def)
  have ll: "length (last_data st') = ?n" unfolding d using n by simp
  have old_full: "length (ch_data ?old) = SDB_CHUNK_SIZE" using full fit by simp
  have "ram_ok st'"
    unfolding ram_ok_def
  proof (intro conjI)
    show "\<forall>c \<in> set (butlast (st_chunks st')). length (ch_data c) = SDB_CHUNK_SIZE"
      using ok old_full unfolding d ram_ok_def by auto
    show "length (st_chunks st') = Suc (nwrittenbytes st' div SDB_CHUNK_SIZE)"
      using ok m ne unfolding ram_ok_def by (simp add: st')
    show "length (last_data st') = (if st_last_size st' = 0 then SDB_CHUNK_SIZE else st_last_size st')"
      unfolding ll using n by (simp add: st' chunk_size_field_def sdb_size_defs)
    show "nwrittenbytes st' mod SDB_CHUNK_SIZE \<le> length (last_data st')" unfolding ll using m n by (simp add: st')
    show "length (last_data st') \<le> SDB_CHUNK_SIZE" unfolding ll by (rule n)
  qed (use ok s in \<open>simp_all add: st' ram_ok_def\<close>)
  moreover have "chain_octets st' = chain_octets st @ data"
    unfolding chain_octets_def d map_append concat_append using m old by (simp add: st')
  ultimately show "ram_ok st' \<and> chain_octets st' = chain_octets st @ data \<and> r = int (length data) \<and> same_table st st'"
    using rr tab by (simp add: st' same_table_def)
qed

section \<open>The writer of a table\<close>

definition appended :: "bytes \<Rightarrow> sdb_store \<Rightarrow> int \<times> sdb_store \<Rightarrow> bool" where
  "appended data st res \<longleftrightarrow>
     (case res of (r, st') \<Rightarrow>
        ram_ok st' \<and> same_table st st' \<and>
        (r = int (length data) \<and> chain_octets st' = chain_octets st @ data \<or>
         r < 0 \<and> chain_octets st' = chain_octets st \<and> (SDB_DATA_SIZE_LIMIT \<le> length data \<or> st_grants st \<noteq> [])))"

definition readied :: "sdb_store \<Rightarrow> nat \<Rightarrow> int \<times> sdb_store \<Rightarrow> bool" where
  "readied st n res \<longleftrightarrow>
     (case res of (r, st') \<Rightarrow>
        ram_ok st' \<and> chain_octets st' = chain_octets st \<and> same_table st st' \<and> nwrittenbytes st' = nwrittenbytes st \<and>
        (r = SDB_EOK \<and> n \<le> length (last_data st') \<or> r = SDB_EMEM \<and> st_grants st \<noteq> []))"

lemma last_data_size: "ram_ok st \<Longrightarrow> length (last_data st) = (if st_last_size st = 0 then SDB_CHUNK_SIZE else st_last_size st)"
  by (simp add: ram_ok_def)

lemma grown_ready:
  assumes ok: "ram_ok st" and n: "nwrittenbytes st mod SDB_CHUNK_SIZE \<le> n" "0 < n" "n \<le> SDB_CHUNK_SIZE"
  shows "readied st n (set_last_chunk_size n st)"
proof -
  obtain r st' where r: "set_last_chunk_size n st = (r, st')" by fastforce
  from last_chunk_resized [OF ok n r] show ?thesis unfolding r readied_def prod.case by blast
qed

lemma failed_appended: "readied st n (r, st') \<Longrightarrow> r \<noteq> SDB_EOK \<Longrightarrow> appended data st (r, st')"
  by (auto simp: readied_def appended_def sdb_error_defs)

lemma append_in_last:
  assumes ok: "ram_ok st" and p: "p = nwrittenbytes st mod SDB_CHUNK_SIZE" and room: "p + length data < SDB_CHUNK_SIZE"
    and sz: "sz = nat (next_pow2 (int (p + length data)))"
    and g: "(if st_last_size st \<noteq> 0 \<and> st_last_size st < sz then set_last_chunk_size sz st else (SDB_EOK, st)) = (r1, st1)"
    and r: "(if r1 \<noteq> SDB_EOK then (r1, st1) else wrote data (chunk_store (length (st_chunks st1) - 1) p data st1)) = res"
  shows "appended data st res"
proof -
  have n: "p + length data \<le> sz" "sz \<le> SDB_CHUNK_SIZE"
    using next_pow2_bounds [of "int (p + length data)"] room
    by (cases "p + length data = 0"; simp add: sz sdb_size_defs)+
  have rd: "readied st (p + length data) (r1, st1)"
  proof (cases "st_last_size st \<noteq> 0 \<and> st_last_size st < sz")
    case True
    then have "0 < sz" by simp
    with grown_ready [OF ok] n p have "readied st sz (set_last_chunk_size sz st)" by simp
    with True g n show ?thesis by (auto simp: readied_def)
  next
    case False
    with last_data_size [OF ok] n room have "p + length data \<le> length (last_data st)" by (auto split: if_splits)
    with False g ok show ?thesis by (auto simp: readied_def)
  qed
  show ?thesis
  proof (cases "r1 = SDB_EOK")
    case True
    obtain r2 st2 where res: "res = (r2, st2)" by fastforce
    from rd True have st1: "ram_ok st1" "chain_octets st1 = chain_octets st" "same_table st st1"
      "p = nwrittenbytes st1 mod SDB_CHUNK_SIZE" "p + length data \<le> length (last_data st1)"
      using p by (auto simp: readied_def sdb_error_defs)
    have "wrote data (chunk_store (length (st_chunks st1) - 1) p data st1) = (r2, st2)" using r True res by simp
    from store_in_last [OF st1(1,4,5) room this] st1 show ?thesis
      unfolding res appended_def using same_table_trans by auto
  next
    case False
    with failed_appended [OF rd] r show ?thesis by auto
  qed
qed

lemma append_across:
  assumes ok: "ram_ok st" and p: "p = nwrittenbytes st mod SDB_CHUNK_SIZE" and left: "left = SDB_CHUNK_SIZE - p"
    and len: "left \<le> length data" "length data < SDB_CHUNK_SIZE"
    and g: "(if st_last_size st \<noteq> 0 then set_last_chunk_size SDB_CHUNK_SIZE st else (SDB_EOK, st)) = (r1, st1)"
    and a: "add_chunk (length data - left) st1 = (r2, st2)"
    and r: "(if r1 \<noteq> SDB_EOK then (r1, st1) else if r2 \<noteq> SDB_EOK then (SDB_EMEM, st2)
        else wrote data (chunk_store (length (st_chunks st2) - 1) 0 (drop left data)
               (chunk_store (length (st_chunks st1) - 1) p (take left data) st2))) = res"
  shows "appended data st res"
proof -
  have rd: "readied st SDB_CHUNK_SIZE (r1, st1)"
    using g grown_ready [OF ok, of SDB_CHUNK_SIZE] last_data_size [OF ok] ok
    by (auto simp: readied_def sdb_size_defs split: if_splits)
  show ?thesis
  proof (cases "r1 = SDB_EOK")
    case True
    from rd True have st1: "ram_ok st1" "chain_octets st1 = chain_octets st" "same_table st st1"
      "nwrittenbytes st1 = nwrittenbytes st" "length (last_data st1) = SDB_CHUNK_SIZE"
      by (auto simp: readied_def ram_ok_def sdb_error_defs)
    have l1: "left = SDB_CHUNK_SIZE - nwrittenbytes st1 mod SDB_CHUNK_SIZE" using left p st1(4) by simp
    note acr = store_across [OF st1(1,5) l1 len a]
    show ?thesis
    proof (cases "r2 = SDB_EOK")
      case r2: True
      obtain r3 st3 where res: "res = (r3, st3)" by fastforce
      from acr(2) [OF r2, of r3 st3] r True r2 res p st1 show ?thesis
        unfolding appended_def using same_table_trans by auto
    next
      case False
      with acr(1) r True st1 have "res = (SDB_EMEM, st2)" "ram_ok st2" "chain_octets st2 = chain_octets st"
        "same_table st st2" "st_grants st1 \<noteq> []" using same_table_trans by auto
      with st1(3) show ?thesis by (auto simp: appended_def sdb_error_defs same_table_def)
    qed
  next
    case False
    with failed_appended [OF rd] r show ?thesis by auto
  qed
qed

lemma ram_writer_law:
  assumes ok: "ram_ok st"
  shows "appended data st (sdb_bss_ram_writer data st)"
proof -
  define p where "p = nwrittenbytes st mod SDB_CHUNK_SIZE"
  define left where "left = SDB_CHUNK_SIZE - p"
  have p: "p < SDB_CHUNK_SIZE" by (simp add: p_def sdb_size_defs)
  note d = sdb_bss_ram_writer_def [of data st, unfolded Let_def, folded p_def, folded left_def]
  consider (big) "SDB_DATA_SIZE_LIMIT \<le> length data" | (fits) "length data < SDB_DATA_SIZE_LIMIT" "length data < left"
    | (across) "length data < SDB_DATA_SIZE_LIMIT" "left \<le> length data"
    by linarith
  then show ?thesis
  proof cases
    case big
    with ok show ?thesis by (simp add: d appended_def sdb_error_defs)
  next
    case fits
    then have n: "\<not> SDB_DATA_SIZE_LIMIT \<le> length data" "p + length data < SDB_CHUNK_SIZE"
      by (simp_all add: left_def)
    show ?thesis
      by (rule append_in_last [OF ok p_def n(2) refl surjective_pairing])
        (simp only: d n(1) fits(2) if_True if_False case_prod_beta)
  next
    case across
    then have n: "\<not> SDB_DATA_SIZE_LIMIT \<le> length data" "\<not> length data < left" "length data < SDB_CHUNK_SIZE"
      by (simp_all add: sdb_size_defs)
    show ?thesis
      by (rule append_across [OF ok p_def left_def across(2) n(3) surjective_pairing surjective_pairing])
        (simp only: d n(1,2) if_True if_False case_prod_beta)
  qed
qed

lemma writer_law_ram:
  assumes "ram_content st = Some s" "sdb_bss_writer data st = (r, st')"
  shows "r = int (length data) \<and> ram_content st' = Some (s @ data) \<and> same_table st st' \<or>
     r < 0 \<and> ram_content st' = Some s \<and> same_table st st' \<and>
     (SDB_DATA_SIZE_LIMIT \<le> length data \<or> st_grants st \<noteq> [] \<or> st_state st \<noteq> SDB_ST_READING)"
proof (cases "st_state st = SDB_ST_READING")
  case True
  with assms have "ram_ok st" "sdb_bss_ram_writer data st = (r, st')" "chain_octets st = s"
    by (auto simp: ram_content_Some sdb_bss_writer_def ram_ok_def)
  with ram_writer_law [of st data] show ?thesis by (auto simp: ram_content_Some appended_def)
next
  case False
  with assms show ?thesis by (auto simp: sdb_bss_writer_def sdb_error_defs)
qed

interpretation ram: stream_writer sdb_bss_writer ram_content
  by unfold_locales (use writer_law_ram in fastforce)

text \<open>A store that is being filled, with memory as needed.\<close>

definition filling :: "nat \<Rightarrow> nat \<Rightarrow> sdb_store \<Rightarrow> bool" where
  "filling ncol nobj st \<longleftrightarrow> ram_ok st \<and> st_state st = SDB_ST_READING \<and> st_grants st = [] \<and>
     st_ncolumns st = ncol \<and> nwrittenobjects st = nobj"

lemma writer_accepts: "n < SDB_DATA_SIZE_LIMIT \<Longrightarrow> accepting_in sdb_bss_writer (filling ncol nobj) n"
  unfolding accepting_in_def
proof (intro allI impI)
  fix d :: bytes and w :: sdb_store assume n: "n < SDB_DATA_SIZE_LIMIT" and "length d \<le> n \<and> filling ncol nobj w"
  then have f: "filling ncol nobj w" "length d < SDB_DATA_SIZE_LIMIT" by simp_all
  obtain r w' where w: "sdb_bss_writer d w = (r, w')" by fastforce
  have "ram_content w = Some (chain_octets w)" using f by (simp add: filling_def ram_content_def)
  from writer_law_ram [OF this w] f have "r = int (length d)" "ram_ok w'" "same_table w w'"
    by (auto simp: filling_def ram_content_Some)
  with f w show "fst (sdb_bss_writer d w) = int (length d) \<and> filling ncol nobj (snd (sdb_bss_writer d w))"
    by (simp add: filling_def same_table_def)
qed

end
