(* ===== verification/Sdb_Cells.thy ===== *)
theory Sdb_Cells
  imports Sdb_Chunks
begin

text \<open>
  Reading back the cells of a table from its chunks. A cell is a value in the context of the top
  level (\<open>cell_octets\<close>); wherever it lies, inside of a chunk, in the last octets of one or
  across two, the reader finds it, gives its octets and moves to the next one.
\<close>

section \<open>How many octets a value needs\<close>

text \<open>
  The first three octets tell the size of a value: with fewer octets the decoder asks for that
  many, otherwise it consumes that many.
\<close>

definition needs :: "bsd_env \<Rightarrow> bsd_ctx_t \<Rightarrow> bytes \<Rightarrow> int \<Rightarrow> bool" where
  "needs env ctx h n \<longleftrightarrow>
     (\<forall>bs avail x. 3 \<le> avail \<longrightarrow> avail < n \<longrightarrow> (\<exists>x'. bsd_global env ctx x (h @ bs) avail = Some (- n, ctx, x'))) \<and>
     (\<forall>bs avail x r c x'. 3 \<le> avail \<longrightarrow> n \<le> avail \<longrightarrow> bsd_global env ctx x (h @ bs) avail = Some (r, c, x') \<longrightarrow> r = n)"

lemma octet_length: "octet (b # bs) i k = (if i = 0 then k (uint b) else octet bs (i - 1) k)"
  by (cases i) simp_all

lemma needs_int:
  assumes "0x80 \<le> uint b0" "uint b0 \<le> 0xfd"
  shows "\<exists>n. needs env ctx [b0, b1, b2] n"
proof -
  define n where "n = (if uint b0 \<le> 0xdf then 1 else if uint b0 \<le> 0xef then 2 else if uint b0 \<le> 0xf7 then 3
      else if uint b0 \<le> 0xfb then 4 else if uint b0 = 0xfc then 5 else 9 :: int)"
  have "CHECK_LENGTH avail 1 ctx x k = k" if "3 \<le> avail" for avail x k
    using that by (intro check_length_pass) auto
  note d = bsd_global_def decodeInteger_def BS_GLOBAL_INTEGER_def Let_def CHECK_DECODE_def this
  have "\<exists>x'. bsd_global env ctx x ([b0, b1, b2] @ bs) avail = Some (- n, ctx, x')"
    if "3 \<le> avail" "avail < n" for bs avail x
    using that assms by (auto simp: d n_def CHECK_LENGTH_def split: if_splits)
  moreover have "r = n" if "3 \<le> avail" "n \<le> avail" "bsd_global env ctx x ([b0, b1, b2] @ bs) avail = Some (r, c, x')"
    for bs avail x r c x'
    using that assms by (auto simp: d n_def check_length_pass octet_def octets_def split: if_splits)
  ultimately show ?thesis unfolding needs_def by blast
qed

lemma needs_string:
  assumes "0x03 \<le> uint b0" "uint b0 \<le> 0x28"
  shows "\<exists>n. needs env ctx [b0, b1, b2] n"
proof -
  define n where "n = (if uint b0 \<le> 0x23 then uint b0 - 3 + 1
      else if uint b0 \<le> 0x27 then push_bit 8 (uint b0 - 0x24) + uint b1 + 32 + 1 + 2
      else push_bit 8 (uint b1) + uint b2 + 1056 + 1 + 3)"
  have one: "CHECK_LENGTH avail 1 ctx x k = k" "CHECK_LENGTH avail 2 ctx x k = k" "CHECK_LENGTH avail 3 ctx x k = k"
    if "3 \<le> avail" for avail x k
    using that by (auto intro!: check_length_pass)
  have skip: "decodeInteger env ctx x (b0 # bs) avail BS_GLOBAL_INTEGER = Some (0, ctx, x\<lparr>d_type := BSD_INT\<rparr>)"
    if "3 \<le> avail" for x avail bs
    using assms that by (intro global_int_skip) auto
  have nn: "\<not> uint b0 \<le> 35 \<Longrightarrow> 0 < 35 + (push_bit 8 (uint b0 - 36) + uint b1)"
    "0 < 1060 + (push_bit 8 (uint b1) + uint b2)" by (simp_all add: add_pos_nonneg)
  note d = bsd_global_def decodeString_def BS_GLOBAL_STRING_def Let_def CHECK_DECODE_def one skip
  have "\<exists>x'. bsd_global env ctx x ([b0, b1, b2] @ bs) avail = Some (- n, ctx, x')"
    if "3 \<le> avail" "avail < n" for bs avail x
    using that assms by (auto simp: d n_def CHECK_LENGTH_def split: if_splits)
  moreover have "r = n" if "3 \<le> avail" "n \<le> avail" "bsd_global env ctx x ([b0, b1, b2] @ bs) avail = Some (r, c, x')"
    for bs avail x r c x'
    using that assms nn by (auto simp: d n_def check_length_pass octets_def bsd_string_def split: if_splits)
  ultimately show ?thesis unfolding needs_def by blast
qed

lemma needs_float:
  assumes "0xfe \<le> uint b0"
  shows "\<exists>n. needs env ctx [b0, b1, b2] n"
proof -
  define n where "n = (if uint b0 = 0xfe then 5 else 9 :: int)"
  have b: "uint b0 = 0xfe \<or> uint b0 = 0xff" using assms uint_byte_le [of b0] by linarith
  note d = bsd_global_def global_skips token_defs Let_def n_def
  have "\<exists>x'. bsd_global env ctx x ([b0, b1, b2] @ bs) avail = Some (- n, ctx, x')"
    if "3 \<le> avail" "avail < n" for bs avail x
    using that b by (auto simp: d CHECK_LENGTH_def)
  moreover have "r = n" if "3 \<le> avail" "n \<le> avail" "bsd_global env ctx x ([b0, b1, b2] @ bs) avail = Some (r, c, x')"
    for bs avail x r c x'
    using that b by (auto simp: d read_float_def read_double_def octets_def split: if_splits)
  ultimately show ?thesis unfolding needs_def by blast
qed

section \<open>Cells\<close>

text \<open>The values that fit into a table, their octets and what a reader reports for them.\<close>

definition cell_octets :: "token \<Rightarrow> bytes" where
  "cell_octets t = the (enc_token TLITTLE_ENDIAN top_frame t)"

definition cell_ok :: "token \<Rightarrow> bool" where
  "cell_ok t \<longleftrightarrow> token_ok top_frame t \<and> enc_token TLITTLE_ENDIAN top_frame t \<noteq> None \<and>
     length (cell_octets t) < SDB_DATA_SIZE_LIMIT"

abbreviation cell_event :: "token \<Rightarrow> event" where
  "cell_event \<equiv> token_event top_frame"

definition top_reader :: "bsd_ctx_t \<Rightarrow> bool" where
  "top_reader d \<longleftrightarrow> d_stacksize d = 0 \<and> length (d_stack d) = 16 \<and> frame_rel top_frame (bsd_topframe d)"

definition advanced :: "nat \<Rightarrow> bsd_ctx_t \<Rightarrow> bsd_ctx_t" where
  "advanced n d = d\<lparr>d_read := d_read d + n\<rparr>"

lemma top_reader_advanced [simp]: "top_reader (advanced n d) = top_reader d"
  by (simp add: top_reader_def advanced_def bsd_topframe_def)

lemma cell_decodes:
  assumes "le_env env" "cell_ok t" "top_reader d"
  shows "decodes (bsd_global env) d (cell_octets t) (cell_event t) d"
  using assms decode_token [of env top_frame t "cell_octets t" d BS_CTXID_GLOBAL]
  by (auto simp: cell_ok_def top_reader_def cell_octets_def top_frame_countable top_frame_ctxid decode_in_eq)

lemma top_reader_frame:
  assumes "top_reader d"
  shows "missing (bsd_topframe d) \<noteq> 0" "getctxid (bsd_topframe d) = Some BS_CTXID_GLOBAL"
    "count_read (d_stack d ! 0) = Some (d_stack d ! 0)" "keeps_event (d_stack d ! 0)" "(d_stack d)[0 := d_stack d ! 0] = d_stack d"
  using assms keeps_eventI [of top_frame "d_stack d ! 0"] top_frame_countable
  by (auto simp: top_reader_def frame_rel_def top_frame_def bsd_topframe_def count_read_def getctxid_def
      counted_def within_def)

lemma cell_reads:
  assumes "le_env env" "cell_ok t" "top_reader d" "int (length (cell_octets t)) \<le> avail"
  shows "\<exists>x'. bsd_read env d x (cell_octets t @ rest) avail =
      Some (int (length (cell_octets t)), advanced (length (cell_octets t)) d, x') \<and> event_of x' = Some (cell_event t)"
proof -
  note f = top_reader_frame [OF assms(3)]
  have s: "d_stacksize d = 0" using assms(3) by (simp add: top_reader_def)
  have "decodes (decode_in env BS_CTXID_GLOBAL) d (cell_octets t) (cell_event t) d"
    using cell_decodes [OF assms(1-3)] by (simp add: decode_in_eq)
  from read_step [OF f(1,2) this _ _ assms(4), of "d_stack d ! 0" x rest] f(3-5) s
  show ?thesis by (simp add: advanced_def)
qed

text \<open>The first octet of a cell of more than three octets belongs to an integer, a string or a float.\<close>

lemma enc_int_first:
  assumes "- (2 ^ 63) \<le> v" "v < 2 ^ 63" "enc_int v BS_GLOBAL_INTEGER = b # bs"
  shows "0x80 \<le> uint b \<and> uint b \<le> 0xfd"
proof (rule ccontr)
  assume "\<not> ?thesis"
  then have "uint b < 0x80 \<or> 0xfd < uint b" by linarith
  from global_int_skip [OF this, of "int (length (b # bs))" sample_env undefined undefined bs]
    decode_enc_int [OF int_enc_ok_tables(1) assms(1,2), of sample_env "int (length (b # bs))" undefined undefined "[]"]
  show False by (simp add: assms(3) covers_def sample_env_def)
qed

lemma cell_needs:
  assumes ok: "cell_ok t" and X: "cell_octets t = b0 # b1 # b2 # xs" "xs \<noteq> []"
  shows "\<exists>n. needs env ctx [b0, b1, b2] n"
proof -
  obtain Y where Y: "enc_token TLITTLE_ENDIAN top_frame t = Some Y" "Y = b0 # b1 # b2 # xs" "token_ok top_frame t"
    using ok X by (auto simp: cell_ok_def cell_octets_def)
  have int: "\<exists>n. needs env ctx [b0, b1, b2] n" if "enc_int v BS_GLOBAL_INTEGER = Y" "- (2 ^ 63) \<le> v" "v < 2 ^ 63" for v
    using enc_int_first [OF that(2,3)] needs_int that(1) Y(2) by blast
  note d = enc_token_def top_frame_ctxid token_ok_def
  show ?thesis
  proof (cases t)
    case (T_int v)
    with Y int show ?thesis by (auto simp: d enc_int_in_def)
  next
    case (T_double x)
    with Y obtain y where y: "f64_to_i64 x = Some y" by (auto simp: d enc_double_in_def ctxid_defs split: option.splits)
    show ?thesis
    proof (cases "f64_eq (i64_to_f64 y) x")
      case True
      with Y T_double y int f64_to_i64_range [OF y] show ?thesis
        by (auto simp: d enc_double_in_def enc_int_in_def ctxid_defs)
    next
      case False
      with Y T_double y have "enc_float TLITTLE_ENDIAN x GLOBAL_FLOAT_OPCODES = Y"
        by (auto simp: d enc_double_in_def ctxid_defs)
      with Y(2) have "0xfe \<le> uint b0" by (auto simp: enc_float_def GLOBAL_FLOAT_OPCODES_def token_defs split: if_splits)
      then show ?thesis by (rule needs_float)
    qed
  next
    case (T_string s)
    with Y have "enc_string s BS_GLOBAL_STRING = b0 # b1 # b2 # xs" "int (length s) \<le> large_limit BS_GLOBAL_STRING"
      by (auto simp: d enc_string_in_def BS_GLOBAL_STRING_def)
    with enc_string_first [OF string_enc_ok_tables(1), of s] show ?thesis
      by (intro needs_string) (auto simp: BS_GLOBAL_STRING_def)
  next
    case T_null
    with Y X show ?thesis by (auto simp: d getNullToken_def ctxid_defs split: if_splits)
  next
    case (T_chunk s)
    have "ctxid top_frame \<noteq> BS_CTXID_CHUNKED" by (simp add: top_frame_def ctxid_defs)
    with T_chunk Y show ?thesis by (simp add: d)
  qed (use Y X in \<open>auto simp: d\<close>)
qed

text \<open>With fewer octets than the cell has, but at least three, the reader asks for the size of the cell.\<close>

lemma cell_asks:
  assumes le: "le_env env" and ok: "cell_ok t" and d: "top_reader d"
    and av: "3 \<le> avail" "avail < int (length (cell_octets t))" and B: "take 3 B = take 3 (cell_octets t)"
  shows "\<exists>x'. bsd_read env d x B avail = Some (- int (length (cell_octets t)), d, x')"
proof -
  let ?X = "cell_octets t"
  have "3 < length ?X" using av by linarith
  then obtain b0 b1 b2 xs where X: "?X = [b0, b1, b2] @ xs" "xs \<noteq> []"
    by (cases ?X; cases "tl ?X"; cases "tl (tl ?X)") fastforce+
  with B have B: "B = [b0, b1, b2] @ drop 3 B" by (metis append_take_drop_id length_Cons list.size(3) numeral_3_eq_3 take_all_iff
      append_eq_conv_conj order_refl)
  obtain n where n: "needs env d [b0, b1, b2] n" using cell_needs [OF ok] X by fastforce
  let ?av = "max (int (length ?X)) (max 3 n)"
  from cell_decodes [OF le ok d] obtain x' where
    "bsd_global env d (x\<lparr>d_type := BSD_NULL\<rparr>) ([b0, b1, b2] @ xs) ?av = Some (int (length ?X), d, x')"
    unfolding decodes_def using X(1) by (metis append_Nil2 bsd_data_t.select_convs(1) bsd_data_t.surjective
        bsd_data_t.update_convs(1) bsd_data_type_t.distinct(3) max.cobounded1)
  with n have "int (length ?X) = n" unfolding needs_def by (metis max.bounded_iff max.cobounded2)
  with n av obtain x' where x': "bsd_global env d (x\<lparr>d_type := BSD_NULL\<rparr>) B avail = Some (- int (length ?X), d, x')"
    unfolding needs_def using B by metis
  show ?thesis
    using top_reader_frame [OF d] x' X by (simp add: bsd_read_def Let_def decode_in_eq)
qed

end
