(* ===== verification/Sdb_Reading.thy ===== *)
theory Sdb_Reading
  imports Sdb_Cells
begin

text \<open>
  The reader of a table in memory. The chunks are windows of one flat \<open>memory\<close>; a reader that is
  \<open>positioned\<close> at the first octet of a cell gets the cell and is positioned behind it, wherever
  the borders of the chunks are.
\<close>

section \<open>The chunks as windows of a flat memory\<close>

definition memory :: "sdb_store \<Rightarrow> bytes" where
  "memory st = concat (map ch_data (st_chunks st))"

lemma concat_window:
  "i < length xs \<Longrightarrow> \<forall>j < i. length (xs ! j) = c \<Longrightarrow> drop (i * c) (concat xs) = xs ! i @ concat (drop (Suc i) xs)"
proof (induction i arbitrary: xs)
  case 0
  then show ?case by (cases xs) simp_all
next
  case (Suc i)
  then obtain y ys where xs: "xs = y # ys" by (cases xs) auto
  with Suc.prems have "length y = c" by auto
  moreover have "\<forall>j < i. length (ys ! j) = c" using Suc.prems(2) xs by auto
  ultimately show ?case using Suc.IH [of ys] Suc.prems(1) xs by simp
qed

abbreviation chunk_data :: "sdb_store \<Rightarrow> nat \<Rightarrow> bytes" where
  "chunk_data st i \<equiv> ch_data (st_chunks st ! i)"

lemma full_chunk: "ram_ok st \<Longrightarrow> Suc i < length (st_chunks st) \<Longrightarrow> length (chunk_data st i) = SDB_CHUNK_SIZE"
  unfolding ram_ok_def by (metis in_set_conv_nth length_butlast less_diff_conv nth_butlast plus_1_eq_Suc add.commute)

lemma chunk_window:
  assumes ok: "ram_ok st" and i: "i < length (st_chunks st)" and k: "p + k \<le> length (chunk_data st i)"
  shows "take k (drop p (chunk_data st i)) = take k (drop (i * SDB_CHUNK_SIZE + p) (memory st))"
proof -
  have "drop (i * SDB_CHUNK_SIZE) (memory st) = chunk_data st i @ concat (drop (Suc i) (map ch_data (st_chunks st)))"
    unfolding memory_def using concat_window [of i "map ch_data (st_chunks st)" SDB_CHUNK_SIZE] full_chunk [OF ok] i by simp
  then have "drop (i * SDB_CHUNK_SIZE + p) (memory st) = drop p (chunk_data st i @ concat (drop (Suc i) (map ch_data (st_chunks st))))"
    by (metis add.commute drop_drop)
  with k show ?thesis by simp
qed

lemma chain_memory:
  assumes ok: "ram_ok st"
  shows "chain_octets st = take (nwrittenbytes st) (memory st)" "length (chain_octets st) = nwrittenbytes st"
proof -
  define b where "b = concat (map ch_data (butlast (st_chunks st)))"
  define m where "m = nwrittenbytes st mod SDB_CHUNK_SIZE"
  have "st_chunks st = butlast (st_chunks st) @ [last (st_chunks st)]" using ok by (simp add: ram_ok_def)
  from this [THEN arg_cong, of "\<lambda>cs. concat (map ch_data cs)"]
  have mem: "memory st = b @ last_data st"
    unfolding memory_def b_def last_data_def by simp
  have sum: "(\<Sum>c\<leftarrow>cs. length (ch_data c)) = length cs * n" if "\<forall>c \<in> set cs. length (ch_data c) = n" for cs n
    using that by (induction cs) simp_all
  have all: "\<forall>c \<in> set (butlast (st_chunks st)). length (ch_data c) = SDB_CHUNK_SIZE" using ok unfolding ram_ok_def by blast
  have q: "length (butlast (st_chunks st)) = nwrittenbytes st div SDB_CHUNK_SIZE" using ok unfolding ram_ok_def by simp
  have "length b = nwrittenbytes st div SDB_CHUNK_SIZE * SDB_CHUNK_SIZE"
    unfolding b_def length_concat map_map comp_def sum [OF all] q by (rule refl)
  then have n: "nwrittenbytes st = length b + m" unfolding m_def by (simp only: div_mult_mod_eq)
  have m: "m \<le> length (last_data st)" using ok by (simp add: ram_ok_def m_def)
  have c: "chain_octets st = b @ take m (last_data st)" by (simp add: chain_octets_def b_def m_def)
  show "chain_octets st = take (nwrittenbytes st) (memory st)" unfolding n mem c by simp
  show "length (chain_octets st) = nwrittenbytes st" unfolding n c using m by simp
qed

text \<open>The part of a chunk that was written.\<close>

lemma written_window:
  assumes ok: "ram_ok st" and p: "off = i * SDB_CHUNK_SIZE + p" "p < SDB_CHUNK_SIZE"
    and k: "0 < k" "p + k \<le> SDB_CHUNK_SIZE" "off + k \<le> nwrittenbytes st"
  shows "i < length (st_chunks st)" "p + k \<le> length (chunk_data st i)"
    "take k (drop p (chunk_data st i)) = take k (drop off (memory st))"
proof -
  define n where "n = nwrittenbytes st div SDB_CHUNK_SIZE"
  define m where "m = nwrittenbytes st mod SDB_CHUNK_SIZE"
  have nm: "nwrittenbytes st = n * SDB_CHUNK_SIZE + m" "m < SDB_CHUNK_SIZE" by (simp_all add: n_def m_def sdb_size_defs)
  have l: "length (st_chunks st) = Suc n" using ok by (simp add: ram_ok_def n_def)
  have "i * SDB_CHUNK_SIZE < Suc n * SDB_CHUNK_SIZE" using p k nm by simp
  then have "i < Suc n" by (rule mult_less_cancel2 [THEN iffD1, THEN conjunct2])
  then show i: "i < length (st_chunks st)" using l by simp
  show len: "p + k \<le> length (chunk_data st i)"
  proof (cases "Suc i < length (st_chunks st)")
    case True
    with full_chunk [OF ok] k show ?thesis by simp
  next
    case False
    with i l have "i = n" by simp
    moreover have "last (st_chunks st) = st_chunks st ! n" using l by (subst last_conv_nth) auto
    ultimately have "i = n" "chunk_data st i = last_data st" by (simp_all add: last_data_def)
    moreover have "m \<le> length (last_data st)" using ok by (simp add: ram_ok_def m_def)
    ultimately show ?thesis using nm(1) p(1) k(3) by simp
  qed
  show "take k (drop p (chunk_data st i)) = take k (drop off (memory st))"
    unfolding p(1) by (rule chunk_window [OF ok i len])
qed

section \<open>Reading one cell\<close>

definition positioned :: "nat \<Rightarrow> sdb_read_ctx_t \<Rightarrow> bool" where
  "positioned off ctx \<longleftrightarrow> rd_kind ctx = SDB_SK_RAM \<and> rd_chunk ctx = Some (off div SDB_CHUNK_SIZE) \<and>
     nreadbytes ctx = off \<and> top_reader (rd_bsd ctx)"

text \<open>
  The reader needs two octets behind a cell that starts in the last two octets of a chunk: the
  last chunk must not end there, and must not be trimmed to a single octet.
\<close>

definition readable :: "sdb_store \<Rightarrow> bool" where
  "readable st \<longleftrightarrow> ram_ok st \<and> nwrittenbytes st mod SDB_CHUNK_SIZE + 3 \<le> SDB_CHUNK_SIZE \<and> 2 \<le> length (last_data st)"

definition cell_read :: "token \<Rightarrow> sdb_store \<Rightarrow> sdb_read_ctx_t \<Rightarrow> bool \<Rightarrow> read_result \<Rightarrow> bool" where
  "cell_read t st ctx skip res \<longleftrightarrow>
     (\<exists>ctx' x'. res = Returned (int (length (cell_octets t)), st, ctx', x') \<and>
        positioned (nreadbytes ctx + length (cell_octets t)) ctx' \<and> nreadobjects ctx' = nreadobjects ctx + 1 \<and>
        rd_nbytes ctx' = length (cell_octets t) \<and>
        (\<not> skip \<longrightarrow> event_of x' = Some (cell_event t) \<and> rd_bytes ctx' = Some (cell_octets t)))"

lemma cell_nonempty:
  assumes "cell_ok t"
  shows "0 < length (cell_octets t)"
proof (rule ccontr)
  assume "\<not> ?thesis"
  moreover have "top_reader sample_d"
    by (simp add: top_reader_def sample_d_def bsd_init_def frame_rel_def top_frame_def bsd_topframe_def)
  from cell_reads [OF sample_env_le assms this order_refl, of undefined "[]"]
  obtain x' where "bsd_read sample_env sample_d undefined (cell_octets t) (int (length (cell_octets t))) =
      Some (int (length (cell_octets t)), advanced (length (cell_octets t)) sample_d, x')" by auto
  ultimately show False
    using top_reader_frame [OF \<open>top_reader sample_d\<close>] by (simp add: bsd_read_def decode_in_eq bsd_global_def octet_def CHECK_LENGTH_def Let_def split: if_splits)
qed

lemma le_env_initialised: "env_host env = TLITTLE_ENDIAN \<Longrightarrow> le_env (initialised env)"
  by (simp add: le_env_def initialised_def)

text \<open>The octets of a cell in the memory, and the reader in front of it.\<close>

definition cell_at :: "sdb_store \<Rightarrow> nat \<Rightarrow> token \<Rightarrow> bool" where
  "cell_at st off t \<longleftrightarrow> cell_ok t \<and> take (length (cell_octets t)) (drop off (memory st)) = cell_octets t \<and>
     off + length (cell_octets t) \<le> nwrittenbytes st"

lemma cell_prefix: "cell_at st off t \<Longrightarrow> k \<le> length (cell_octets t) \<Longrightarrow> take k (drop off (memory st)) = take k (cell_octets t)"
  unfolding cell_at_def by (metis min_absorb1 take_take)

lemma cell_at_bounds:
  assumes "cell_at st off t"
  shows "cell_ok t" "0 < length (cell_octets t)" "length (cell_octets t) < SDB_CHUNK_SIZE"
    "off + length (cell_octets t) \<le> nwrittenbytes st"
  using assms cell_nonempty [of t] by (simp_all add: cell_at_def cell_ok_def sdb_size_defs)

lemma cell_suffix:
  assumes "cell_at st off t" "k \<le> length (cell_octets t)"
  shows "take (length (cell_octets t) - k) (drop (off + k) (memory st)) = drop k (cell_octets t)"
proof -
  have "drop k (take (length (cell_octets t)) (drop off (memory st))) = drop k (cell_octets t)"
    using assms(1) by (simp add: cell_at_def)
  then show ?thesis by (simp add: drop_take add.commute)
qed

lemma across_cell:
  assumes host: "env_host env = TLITTLE_ENDIAN" and mem: "env_malloc env" and ok: "ram_ok st"
    and t: "cell_at st off t" and pos: "positioned off ctx"
    and off: "off = i * SDB_CHUNK_SIZE + p" "p < SDB_CHUNK_SIZE" and len: "SDB_CHUNK_SIZE - p \<le> length (cell_octets t)"
  shows "cell_read t st ctx skip (read_across env st i p (length (cell_octets t)) ctx x skip)"
proof -
  define C where "C = SDB_CHUNK_SIZE"
  define left where "left = C - p"
  define X where "X = cell_octets t"
  note [simp] = X_def [symmetric]
  have C: "SDB_CHUNK_SIZE = C" "SDB_DATA_SIZE_LIMIT = C" "3 < C" by (simp_all add: C_def sdb_size_defs)
  have n: "off + length X \<le> nwrittenbytes st" "length X < C" "p + left = C" "0 < left" "left \<le> length X" "cell_ok t"
    using t off len by (simp_all add: cell_at_def cell_ok_def C left_def)
  note w1 = written_window [OF ok off, of left, unfolded C] and w2 = written_window [OF ok, of "off + left" "Suc i" 0 "length X - left", unfolded C]
  have d: "off div C = i" "(off + length X) div C = Suc i"
    using div_mod_step [of off C "length X" 1 "length X - left"] off n by (simp_all add: C)
  have next1: "chunk_at st (i + 1) = Some (i + 1)"
  proof -
    have "Suc i \<le> nwrittenbytes st div C" using d(2) n(1) by (metis div_le_mono)
    with ok show ?thesis by (simp add: ram_ok_def C chunk_at_def)
  qed
  have b1: "take left (drop p (chunk_data st i)) = take left X" "p + left \<le> length (chunk_data st i)"
    using w1 n cell_prefix [OF t, of left] by simp_all
  have b2: "take (length X - left) (chunk_data st (i + 1)) = drop left X" "length X - left \<le> length (chunk_data st (i + 1))"
    using w2 n off cell_suffix [OF t, of left] by (cases "length X = left"; simp add: C)+
  have rd: "top_reader (rd_bsd ctx)" "nreadbytes ctx = off" "rd_kind ctx = SDB_SK_RAM" using pos by (simp_all add: positioned_def)
  from cell_reads [OF le_env_initialised [OF host] n(6) rd(1) order_refl, of x "[]"] obtain x' where
    x': "bsd_read (initialised env) (rd_bsd ctx) x X (int (length X)) = Some (int (length X), advanced (length X) (rd_bsd ctx), x')"
    "event_of x' = Some (cell_event t)" by auto
  have "p + (C - p) \<le> length (chunk_data st i)" "\<not> length X < C - p" "\<not> C < length X" "left = C - p"
    using b1 n by (simp_all add: left_def)
  then show ?thesis
    unfolding cell_read_def read_across_def Let_def next1
    using mem b1 b2 n x' rd d next1
    by (simp add: C load_n_in read_with_bsd_def count_object_def positioned_def left_def)
qed

text \<open>The first attempt is over: the cell was read, or the reader asked for its size.\<close>

lemma rest_asked:
  assumes "cell_ok t"
  shows "read_rest env st i p skip (- int (length (cell_octets t))) ctx x =
     read_across env st i p (length (cell_octets t)) ctx x skip"
  using cell_nonempty [OF assms] by (simp add: read_rest_def)

lemma read_cell_within:
  assumes host: "env_host env = TLITTLE_ENDIAN" and ok: "ram_ok st" and t: "cell_at st off t" and pos: "positioned off ctx"
    and off: "off = i * SDB_CHUNK_SIZE + p" "p < SDB_CHUNK_SIZE" "3 \<le> SDB_CHUNK_SIZE - p"
    and len: "length (cell_octets t) \<le> SDB_CHUNK_SIZE - p"
  shows "cell_read t st ctx skip (sdb_read_ram_data env st ctx x skip)"
proof -
  define C where "C = SDB_CHUNK_SIZE"
  define X where "X = cell_octets t"
  note [simp] = X_def [symmetric]
  have C: "SDB_CHUNK_SIZE = C" "3 < C" "BSD_MINBUFFSIZE = 3" by (simp_all add: C_def sdb_size_defs)
  have n: "off + length X \<le> nwrittenbytes st" "length X \<le> C - p" "cell_ok t" "0 < length X"
    using cell_at_bounds [OF t] len by (simp_all add: C)
  note w = written_window [OF ok off(1,2), of "length X", unfolded C]
  have b: "take (length X) (drop p (chunk_data st i)) = X" "p + length X \<le> length (chunk_data st i)"
    using w n off cell_prefix [OF t, of "length X"] by (simp_all add: C)
  then obtain rest where B: "drop p (chunk_data st i) = X @ rest" by (metis append_take_drop_id)
  have d: "off div C = i" "off mod C = p" using off by (simp_all add: C)
  have d2: "(off + length X) div C = (if length X = C - p then Suc i else i)"
    using div_mod_step(2) [of off C "length X" 1 0] div_mod_step(2) [of off C "length X" 0 "p + length X"] d off n by (auto simp: C)
  have rd: "top_reader (rd_bsd ctx)" "nreadbytes ctx = off" "rd_kind ctx = SDB_SK_RAM" "rd_chunk ctx = Some i"
    using pos by (simp_all add: positioned_def C d)
  have nx: "length X = C - p \<Longrightarrow> chunk_at st (Suc i) = Some (Suc i)"
  proof -
    assume "length X = C - p"
    then have "Suc i \<le> nwrittenbytes st div C" using d2 n(1) by (metis div_le_mono)
    with ok show ?thesis by (simp add: ram_ok_def C chunk_at_def)
  qed
  have "int (length (cell_octets t)) \<le> int (C - p)" using n(2) by simp
  from cell_reads [OF le_env_initialised [OF host] n(3) rd(1) this, of x rest] obtain x' where
    x': "bsd_read (initialised env) (rd_bsd ctx) x (X @ rest) (int (C - p)) = Some (int (length X), advanced (length X) (rd_bsd ctx), x')"
    "event_of x' = Some (cell_event t)" by auto
  have "\<not> C - p < 3" using off by (simp add: C)
  then show ?thesis
    unfolding cell_read_def sdb_read_ram_data_def Let_def
    using x' rd n b nx d2
    by (simp add: C d B read_with_bsd_def read_rest_def Let_def load_n_in count_object_def positioned_def)
qed

lemma read_cell_asked:
  assumes host: "env_host env = TLITTLE_ENDIAN" and mem: "env_malloc env" and ok: "ram_ok st" and t: "cell_at st off t" and pos: "positioned off ctx"
    and off: "off = i * SDB_CHUNK_SIZE + p" "p < SDB_CHUNK_SIZE" "3 \<le> SDB_CHUNK_SIZE - p"
    and len: "SDB_CHUNK_SIZE - p < length (cell_octets t)"
  shows "cell_read t st ctx skip (sdb_read_ram_data env st ctx x skip)"
proof -
  define C where "C = SDB_CHUNK_SIZE"
  define X where "X = cell_octets t"
  note [simp] = X_def [symmetric]
  have C: "SDB_CHUNK_SIZE = C" "3 < C" "BSD_MINBUFFSIZE = 3" by (simp_all add: C_def sdb_size_defs)
  have n: "off + length X \<le> nwrittenbytes st" "C - p < length X" "cell_ok t" using t len by (auto simp: cell_at_def C)
  have "take 3 (drop p (chunk_data st i)) = take 3 X"
    using written_window(3) [OF ok off(1,2), of 3] off n cell_prefix [OF t, of 3] by (simp add: C)
  then have B: "take 3 (drop p (chunk_data st i)) = take 3 (cell_octets t)" by simp
  have d: "off div C = i" "off mod C = p" using off by (simp_all add: C)
  have rd: "top_reader (rd_bsd ctx)" "nreadbytes ctx = off" "rd_chunk ctx = Some i" using pos by (simp_all add: positioned_def C d)
  have "3 \<le> int (C - p)" "int (C - p) < int (length (cell_octets t))" using off n by (simp_all add: C)
  from cell_asks [OF le_env_initialised [OF host] n(3) rd(1) this B] obtain x' where
    x': "bsd_read (initialised env) (rd_bsd ctx) x (drop p (chunk_data st i)) (int (C - p)) = Some (- int (length X), rd_bsd ctx, x')"
    by auto
  have "sdb_read_ram_data env st ctx x skip = read_across env st i p (length X) ctx x' skip"
    unfolding sdb_read_ram_data_def Let_def using x' rd off(3) rest_asked [OF n(3)]
    by (simp add: C d read_with_bsd_def)
  with across_cell [OF host mem ok t pos off(1,2) order_less_imp_le [OF len]] show ?thesis by simp
qed

lemma read_cell_mini:
  assumes host: "env_host env = TLITTLE_ENDIAN" and mem: "env_malloc env" and rd: "readable st" and t: "cell_at st off t" and pos: "positioned off ctx"
    and off: "off = i * SDB_CHUNK_SIZE + p" "p < SDB_CHUNK_SIZE" "SDB_CHUNK_SIZE - p < 3"
  shows "cell_read t st ctx skip (sdb_read_ram_data env st ctx x skip)"
proof -
  define C where "C = SDB_CHUNK_SIZE"
  define X where "X = cell_octets t"
  define left where "left = C - p"
  note [simp] = X_def [symmetric]
  have C: "SDB_CHUNK_SIZE = C" "3 < C" "BSD_MINBUFFSIZE = 3" by (simp_all add: C_def sdb_size_defs)
  have ok: "ram_ok st" using rd by (simp add: readable_def)
  have n: "off + length X \<le> nwrittenbytes st" "cell_ok t" "0 < length X" "p + left = C" "0 < left" "left < 3" "length X < C"
    using cell_at_bounds [OF t] off by (simp_all add: C left_def)
  have d: "off div C = i" "off mod C = p" using off by (simp_all add: C)
  have next1: "Suc i < length (st_chunks st)"
  proof (rule ccontr)
    assume "\<not> ?thesis"
    moreover have "length (st_chunks st) = Suc (nwrittenbytes st div C)" using ok by (simp add: ram_ok_def C)
    moreover have "i \<le> nwrittenbytes st div C" unfolding d(1) [symmetric] using n(1) by (intro div_le_mono) linarith
    ultimately have "i = nwrittenbytes st div C" by simp
    then have "nwrittenbytes st = i * C + nwrittenbytes st mod C" by simp
    moreover have "nwrittenbytes st mod C + 3 \<le> C" using rd by (simp add: readable_def C)
    ultimately show False using n off by (simp add: C)
  qed
  have two: "2 \<le> length (chunk_data st (Suc i))"
  proof (cases "Suc (Suc i) < length (st_chunks st)")
    case True
    with full_chunk [OF ok True] show ?thesis by (simp add: sdb_size_defs)
  next
    case False
    with next1 have "length (st_chunks st) = Suc (Suc i)" by simp
    moreover have "st_chunks st \<noteq> []" using next1 by auto
    ultimately have "last_data st = chunk_data st (Suc i)" by (simp add: last_data_def last_conv_nth)
    with rd show ?thesis by (simp add: readable_def)
  qed
  define b1 where "b1 = take left (drop p (chunk_data st i))"
  define b2 where "b2 = take (3 - left) (chunk_data st (Suc i))"
  have full: "length (chunk_data st i) = C" using full_chunk [OF ok next1] by (simp add: C)
  have nxt: "off + left = Suc i * C + 0" using n off by (simp add: C)
  have "b1 = take left (drop off (memory st))"
    using chunk_window [OF ok _, of i p left] full next1 n off(1) by (simp add: b1_def C)
  moreover have "b2 = take (3 - left) (drop (off + left) (memory st))"
    unfolding b2_def nxt using chunk_window [OF ok next1, of 0 "3 - left"] two n(5) by (simp add: C)
  ultimately have B: "b1 @ b2 = take 3 (drop off (memory st))"
    using take_add [of left "3 - left" "drop off (memory st)"] n by (simp add: add.commute)
  let ?ctx = "ctx\<lparr>rd_minibuff := b1 @ b2\<rparr>"
  have r: "top_reader (rd_bsd ctx)" "nreadbytes ctx = off" "rd_kind ctx = SDB_SK_RAM" "rd_chunk ctx = Some i" "positioned off ?ctx"
    using pos by (simp_all add: positioned_def C d)
  have nx: "chunk_at st (Suc i) = Some (Suc i)" using next1 by (simp add: chunk_at_def)
  have l: "C - p = left" "left < 3" "p + left \<le> length (chunk_data st i)" "3 - left \<le> length (chunk_data st (Suc i))"
    using n two full by (simp_all add: left_def)
  have eq: "sdb_read_ram_data env st ctx x skip =
    (case bsd_read (initialised env) (rd_bsd ctx) x (b1 @ b2) 3 of
       None \<Rightarrow> Fault
     | Some (r, d, x) \<Rightarrow>
         if 0 < r then
           let ctx = count_object (nat r) (Some (take (nat r) (b1 @ b2))) (?ctx\<lparr>rd_bsd := d\<rparr>) in
           Returned (r, st, if left \<le> nat r then ctx\<lparr>rd_chunk := Some (Suc i)\<rparr> else ctx, x)
         else read_rest env st i p skip r (?ctx\<lparr>rd_bsd := d\<rparr>) x)"
    unfolding sdb_read_ram_data_def Let_def
    using l r(2,4) nx by (simp add: C d load_n_in b1_def b2_def read_with_bsd_def need_def split: option.splits)
  show ?thesis
  proof (cases "length X \<le> 3")
    case True
    have "take (length X) (b1 @ b2) = X" using B cell_prefix [OF t, of "length X"] True by simp
    then obtain rest where X: "b1 @ b2 = X @ rest" by (metis append_take_drop_id)
    have "int (length (cell_octets t)) \<le> 3" using True by simp
    from cell_reads [OF le_env_initialised [OF host] n(2) r(1) this, of x rest] obtain x' where
      x': "bsd_read (initialised env) (rd_bsd ctx) x (b1 @ b2) 3 = Some (int (length X), advanced (length X) (rd_bsd ctx), x')"
      "event_of x' = Some (cell_event t)" by (auto simp: X)
    have "(off + length X) div C = (if left \<le> length X then Suc i else i)"
      using div_mod_step(2) [of off C "length X" 1 "length X - left"] div_mod_step(2) [of off C "length X" 0 "p + length X"] d n C by auto
    then show ?thesis
      unfolding cell_read_def eq using x' r(1-4) n(3) by (simp add: X Let_def count_object_def positioned_def C d)
  next
    case False
    have "take 3 (b1 @ b2) = take 3 (cell_octets t)" using B cell_prefix [OF t, of 3] False by simp
    moreover have "(3::int) < int (length (cell_octets t))" using False by simp
    ultimately obtain x' where
      x': "bsd_read (initialised env) (rd_bsd ctx) x (b1 @ b2) 3 = Some (- int (length X), rd_bsd ctx, x')"
      using cell_asks [OF le_env_initialised [OF host] n(2) r(1) order_refl, of "b1 @ b2"] by auto
    have "sdb_read_ram_data env st ctx x skip = read_across env st i p (length X) ?ctx x' skip"
      unfolding eq using x' n(3) rest_asked [OF n(2), of env st i p skip ?ctx x'] by simp
    moreover have "SDB_CHUNK_SIZE - p \<le> length (cell_octets t)" using False n l by (simp add: C)
    from across_cell [OF host mem ok t r(5) off(1,2) this, of skip x'] have "cell_read t st ?ctx skip (read_across env st i p (length X) ?ctx x' skip)" by simp
    ultimately show ?thesis by (simp add: cell_read_def)
  qed
qed

lemma read_cell:
  assumes "env_host env = TLITTLE_ENDIAN" "env_malloc env" "readable st" "cell_at st off t" "positioned off ctx"
  shows "cell_read t st ctx skip (sdb_read_data env st ctx x skip)"
proof -
  define i where "i = off div SDB_CHUNK_SIZE"
  define p where "p = off mod SDB_CHUNK_SIZE"
  have off: "off = i * SDB_CHUNK_SIZE + p" "p < SDB_CHUNK_SIZE" by (simp_all add: i_def p_def sdb_size_defs)
  have ok: "ram_ok st" and k: "rd_kind ctx = SDB_SK_RAM" using assms(3,5) by (simp_all add: readable_def positioned_def)
  consider "3 \<le> SDB_CHUNK_SIZE - p" "length (cell_octets t) \<le> SDB_CHUNK_SIZE - p"
    | "3 \<le> SDB_CHUNK_SIZE - p" "SDB_CHUNK_SIZE - p < length (cell_octets t)" | "SDB_CHUNK_SIZE - p < 3" by linarith
  then have "cell_read t st ctx skip (sdb_read_ram_data env st ctx x skip)"
    using read_cell_within [OF assms(1) ok assms(4,5) off] read_cell_asked [OF assms(1,2) ok assms(4,5) off]
      read_cell_mini [OF assms(1-5) off] by cases blast+
  then show ?thesis by (simp add: sdb_read_data_def k)
qed

end
