(* ===== verification/Sdb_Analysis.thy ===== *)
theory Sdb_Analysis
  imports Sdb_Table Sdb_Reading
begin

text \<open>
  The analysis of the values of a column (\<open>sdb_analyze_integer\<close>, \<open>sdb_analyze_noninteger\<close>): what
  it knows of the cells of a column that is to be serialized in the smallest way. It looks at
  one cell after the other and still knows the greatest common divisor of all of them and the
  distance from the first to the last.
\<close>

section \<open>The greatest common divisor\<close>

lemma c_rem_props:
  assumes "c_rem a b = Some r"
  shows "gcd b r = gcd a b" "\<bar>r\<bar> < \<bar>b\<bar>"
proof -
  have r: "r = sgn a * (\<bar>a\<bar> mod \<bar>b\<bar>)" "b \<noteq> 0" using assms by (auto simp: c_rem_def split: if_splits)
  have "gcd b r = gcd b (\<bar>a\<bar> mod \<bar>b\<bar>)"
  proof (cases "a = 0")
    case False
    then have "\<bar>r\<bar> = \<bar>\<bar>a\<bar> mod \<bar>b\<bar>\<bar>" unfolding r by (simp add: abs_mult abs_sgn_eq)
    then show ?thesis by (metis gcd_abs2_int)
  qed (simp add: r)
  also have "\<dots> = gcd \<bar>b\<bar> (\<bar>a\<bar> mod \<bar>b\<bar>)" by simp
  also have "\<dots> = gcd a b" by (metis gcd.commute gcd_abs1_int gcd_abs2_int gcd_red_int)
  finally show "gcd b r = gcd a b" .
  have "\<bar>r\<bar> \<le> \<bar>a\<bar> mod \<bar>b\<bar>" using r by (simp add: abs_mult abs_sgn_eq)
  also have "\<dots> < \<bar>b\<bar>" using r by simp
  finally show "\<bar>r\<bar> < \<bar>b\<bar>" .
qed

lemma gcd_loop_gcd:
  assumes "\<bar>a\<bar> < 2 ^ 31" "\<bar>b\<bar> < 2 ^ 31"
  shows "\<exists>g. gcd_loop a b = Some g \<and> \<bar>g\<bar> = gcd a b"
  using assms
proof (induction a b rule: gcd_loop.induct)
  case (1 a b)
  show ?case
  proof (cases "b = 0")
    case True
    then show ?thesis by (simp add: gcd_loop.simps [of a 0])
  next
    case False
    with "1.prems" have "c_rem a b \<noteq> None" by (auto simp: c_rem_def)
    then obtain r where r: "c_rem a b = Some r" by blast
    note p = c_rem_props [OF r]
    from "1.IH" [OF False r] "1.prems" p obtain g where "gcd_loop b r = Some g" "\<bar>g\<bar> = gcd b r" by auto
    then show ?thesis using False r p by (simp add: gcd_loop.simps [of a b])
  qed
qed

section \<open>What is known of a column\<close>

definition token_int :: "token \<Rightarrow> int" where
  "token_int t = (case t of T_int v \<Rightarrow> v | _ \<Rightarrow> 0)"

definition is_int :: "token \<Rightarrow> bool" where
  "is_int t \<longleftrightarrow> (case t of T_int _ \<Rightarrow> True | _ \<Rightarrow> False)"

definition is_number :: "token \<Rightarrow> bool" where
  "is_number t \<longleftrightarrow> (case t of T_int _ \<Rightarrow> True | T_double _ \<Rightarrow> True | _ \<Rightarrow> False)"

lemma is_int_number: "list_all is_int ts \<Longrightarrow> list_all is_number ts"
  by (erule list.pred_mono_strong) (auto simp: is_int_def is_number_def split: token.splits)

definition small_int :: "token \<Rightarrow> bool" where
  "small_int t \<longleftrightarrow> \<bar>token_int t\<bar> < 2 ^ 30"

definition analysed :: "sdb_column_t \<Rightarrow> token list \<Rightarrow> bool" where
  "analysed c ts \<longleftrightarrow> (smallest (serialization_method c) \<longrightarrow>
     all_integer c = list_all is_int ts \<and> all_numeric c = list_all is_number ts \<and> list_all small_int ts \<and>
     (ts = [] \<longrightarrow> delta_sum c = 0) \<and>
     (ts \<noteq> [] \<and> all_integer c \<longrightarrow>
        prev_value c = token_int (last ts) \<and> delta_sum c = token_int (last ts) - token_int (hd ts) \<and>
        (if has_flag (serialization_method c) SDB_SM_FIXED_PRECISION then an_gcd c = token_int (hd ts)
         else \<bar>an_gcd c\<bar> = Gcd (token_int ` set ts))))"

lemma gcd_small: "ts \<noteq> [] \<Longrightarrow> list_all small_int ts \<Longrightarrow> Gcd (token_int ` set ts) < 2 ^ 31"
proof -
  assume ts: "ts \<noteq> []" "list_all small_int ts"
  show ?thesis
  proof (cases "\<forall>v \<in> token_int ` set ts. v = 0")
    case True
    then have "Gcd (token_int ` set ts) = 0" by (intro Gcd_0_iff [THEN iffD2]) auto
    then show ?thesis by (simp only: zero_less_power zero_less_numeral)
  next
    case False
    then obtain t where t: "t \<in> set ts" "token_int t \<noteq> 0" by auto
    then have "Gcd (token_int ` set ts) dvd token_int t" by simp
    from dvd_imp_le_int [OF t(2) this] have "Gcd (token_int ` set ts) \<le> \<bar>token_int t\<bar>" by linarith
    also have "\<dots> < 2 ^ 31" using ts(2) t(1) by (fastforce simp: list_all_iff small_int_def)
    finally show ?thesis .
  qed
qed

lemma analyse_int_analysed:
  assumes a: "analysed c ts" and i: "smallest (serialization_method c) \<longrightarrow> \<bar>i\<bar> < 2 ^ 30"
  shows "\<exists>c'. analyse_int (ts = []) i c = Returned c' \<and> analysed c' (ts @ [T_int i]) \<and>
     serialization_method c' = serialization_method c"
proof (cases "smallest (serialization_method c) \<and> all_integer c")
  case False
  with a i show ?thesis
    by (auto simp: analyse_int_def analysed_def is_int_def is_number_def small_int_def token_int_def)
next
  case True
  note d = analyse_int_def True is_int_def is_number_def small_int_def token_int_def
  show ?thesis
  proof (cases "ts = []")
    case True
    obtain g where "gcd_loop i i = Some g" "\<bar>g\<bar> = gcd i i" using gcd_loop_gcd [of i i] i \<open>smallest _ \<and> _\<close> by auto
    with True a i show ?thesis by (simp add: d analysed_def)
  next
    case ne: False
    from a ne True have f: "prev_value c = token_int (last ts)" "delta_sum c = token_int (last ts) - token_int (hd ts)"
      "list_all is_int ts" "list_all is_number ts" "list_all small_int ts" using is_int_number by (auto simp: analysed_def)
    have small: "\<bar>token_int (last ts)\<bar> < 2 ^ 30" "\<bar>token_int (hd ts)\<bar> < 2 ^ 30" "\<bar>i\<bar> < 2 ^ 30"
      using f(5) ne i True by (auto simp: list_all_iff small_int_def)
    then have ok: "int_ok (i - prev_value c)" "int_ok (delta_sum c + (i - prev_value c))"
      "delta_sum c + (i - prev_value c) = i - token_int (hd ts)"
      using f(1,2) by (auto simp: int_ok_def)
    have t: "token_int (T_int i) = i" "is_int (T_int i)" "is_number (T_int i)" "small_int (T_int i)"
      using small by (simp_all add: d)
    show ?thesis
    proof (cases "has_flag (serialization_method c) SDB_SM_FIXED_PRECISION")
      case fixed: True
      with a ne True f ok t show ?thesis by (simp add: analyse_int_def analysed_def)
    next
      case free: False
      with a ne True have g: "\<bar>an_gcd c\<bar> = Gcd (token_int ` set ts)" by (simp add: analysed_def)
      with gcd_small [OF ne f(5)] have "\<bar>an_gcd c\<bar> < 2 ^ 31" by simp
      then obtain r where r: "gcd_loop i (an_gcd c) = Some r" "\<bar>r\<bar> = gcd i (an_gcd c)"
        using gcd_loop_gcd [of i "an_gcd c"] small by auto
      have "gcd i (an_gcd c) = gcd i \<bar>an_gcd c\<bar>" by simp
      with r(2) g have "\<bar>r\<bar> = Gcd (token_int ` set (ts @ [T_int i]))" by (simp add: t Gcd_insert)
      with a ne True f ok t r free show ?thesis by (simp add: analyse_int_def analysed_def)
    qed
  qed
qed

lemma analyse_other_analysed:
  assumes "analysed c ts" "\<not> is_int t" "is_number t = numeric"
  shows "analysed (analyse_other numeric c) (ts @ [t])" "serialization_method (analyse_other numeric c) = serialization_method c"
  using assms by (auto simp: analysed_def analyse_other_def small_int_def token_int_def is_int_def split: token.splits)

section \<open>The cells of a column\<close>

definition column_cells :: "nat \<Rightarrow> nat \<Rightarrow> 'a list \<Rightarrow> 'a list" where
  "column_cells n j ts = map ((!) ts) (filter (\<lambda>k. k mod n = j) [0..<length ts])"

lemma column_cells_Nil [simp]: "column_cells n j [] = []"
  by (simp add: column_cells_def)

lemma column_cells_snoc: "column_cells n j (ts @ [t]) = column_cells n j ts @ (if length ts mod n = j then [t] else [])"
proof -
  have "map ((!) (ts @ [t])) (filter (\<lambda>k. k mod n = j) [0..<length ts]) = map ((!) ts) (filter (\<lambda>k. k mod n = j) [0..<length ts])"
    by (intro map_cong) (auto simp: nth_append)
  then show ?thesis by (simp add: column_cells_def)
qed

lemma column_cells_first: "j < n \<Longrightarrow> column_cells n j ts = [] \<longleftrightarrow> length ts \<le> j"
proof
  assume j: "j < n" and e: "column_cells n j ts = []"
  show "length ts \<le> j"
  proof (rule ccontr)
    assume "\<not> ?thesis"
    with j have "j \<in> set (filter (\<lambda>k. k mod n = j) [0..<length ts])" by simp
    with e show False by (auto simp: column_cells_def)
  qed
next
  assume j: "j < n" and l: "length ts \<le> j"
  have "k mod n \<noteq> j" if "k < length ts" for k using that j l by simp
  then show "column_cells n j ts = []" by (auto simp: column_cells_def filter_empty_conv)
qed

end
