(* ===== verification/Sdb_Writing.thy ===== *)
theory Sdb_Writing
  imports Sdb_Analysis
begin

text \<open>
  A table in memory is a list of cells. \<open>table_rel ms tbl ts\<close> says that the table, whose columns
  have the serialization methods \<open>ms\<close>, holds the cells \<open>ts\<close>; writing a cell, trimming and
  resetting the table do to it what they do to the list.
\<close>

section \<open>The contents of a table\<close>

definition bss_ready :: "sdb_store bss_ctx_t \<Rightarrow> bool" where
  "bss_ready b \<longleftrightarrow> writer b = sdb_bss_writer \<and> \<not> broken b \<and> stacksize b = 0 \<and> acknowledged_stacksize b = 0 \<and>
     pending b = 0 \<and> topframe b = top_frame \<and> classcoll b = bs_classcoll_init"

definition table_rel :: "nat list \<Rightarrow> sdb_table_t \<Rightarrow> token list \<Rightarrow> bool" where
  "table_rel ms tbl ts \<longleftrightarrow>
     ms \<noteq> [] \<and> map serialization_method (columns tbl) = ms \<and>
     filling (length ms) (length ts) (store tbl) \<and> chain_octets (store tbl) = concat (map cell_octets ts) \<and>
     list_all cell_ok ts \<and> maxwrittenobjects tbl = 0 \<and>
     (\<forall>j < length ms. analysed (columns tbl ! j) (column_cells (length ms) j ts)) \<and>
     (case bss_ctx tbl of None \<Rightarrow> True | Some b \<Rightarrow> bss_ready b)"

lemma table_rel_state:
  assumes "table_rel ms tbl ts"
  shows "tbl_state tbl = SDB_ST_READING" "maxwrittenobjects tbl = 0" "ncolumns tbl = length ms"
    "nwrittenobjects (store tbl) = length ts" "length (columns tbl) = length ms" "ms \<noteq> []"
    "ram_ok (store tbl)" "st_grants (store tbl) = []"
    "ram_content (store tbl) = Some (concat (map cell_octets ts))"
  using assms by (auto simp: table_rel_def filling_def ram_content_def)

lemma analysed_method: "j < length ms \<Longrightarrow> table_rel ms tbl ts \<Longrightarrow> serialization_method (columns tbl ! j) = ms ! j"
  by (auto simp: table_rel_def)

text \<open>Only the serializer is created.\<close>

lemma bss_ready_init:
  "\<exists>b. bss_init sdb_bss_writer st (fresh_ctx sdb_bss_writer st) = Some b \<and> bss_ready b"
  by (simp add: bss_init_def bss_reset_def bs_classcoll_reset_def bs_classcoll_init_def fresh_ctx_def bss_ready_def
      pending_def topframe_def STACK_SIZE_def top_frame_def)

lemma filling_alloc:
  "filling n k st \<Longrightarrow> sdb_alloc st = (g, a, st') \<Longrightarrow> g \<and> filling n k st' \<and> chain_octets st' = chain_octets st"
  using sdb_alloc_same [of st g a st'] sdb_alloc_table [of st g a st'] same_chain_content [of st st']
  by (auto simp: filling_def same_table_def ram_content_def split: if_splits)

lemma untrim_rel:
  assumes r: "table_rel ms tbl ts"
  shows "\<exists>r' tbl' b. sdb_untrim tbl = Returned (r', tbl') \<and> table_rel ms tbl' ts \<and> bss_ctx tbl' = Some b \<and> bss_ready b \<and>
     columns tbl' = columns tbl"
proof (cases "bss_ctx tbl")
  case (Some b)
  with r show ?thesis by (auto simp: sdb_untrim_def table_rel_def)
next
  case None
  obtain g a st where al: "sdb_alloc (store tbl) = (g, a, st)" by (metis prod_cases3)
  from bss_ready_init [of st] obtain b where b: "bss_init sdb_bss_writer st (fresh_ctx sdb_bss_writer st) = Some b" "bss_ready b"
    by blast
  from r have "filling (length ms) (length ts) (store tbl)" by (simp add: table_rel_def)
  from filling_alloc [OF this al] r None b show ?thesis
    by (simp add: sdb_untrim_def reserve_def al table_rel_def)
qed

section \<open>Writing one cell\<close>

text \<open>The table after the analysis of \<open>t\<close>, in front of the octets of \<open>t\<close>.\<close>

definition analysed_rel :: "nat list \<Rightarrow> sdb_table_t \<Rightarrow> token list \<Rightarrow> token \<Rightarrow> bool" where
  "analysed_rel ms tbl ts t \<longleftrightarrow>
     ms \<noteq> [] \<and> map serialization_method (columns tbl) = ms \<and>
     filling (length ms) (length ts) (store tbl) \<and> chain_octets (store tbl) = concat (map cell_octets ts) \<and>
     list_all cell_ok ts \<and> maxwrittenobjects tbl = 0 \<and>
     (\<forall>j < length ms. analysed (columns tbl ! j) (column_cells (length ms) j (ts @ [t]))) \<and>
     (\<exists>b. bss_ctx tbl = Some b \<and> bss_ready b)"

lemma update_column_rel:
  assumes r: "table_rel ms tbl ts" and b: "bss_ctx tbl = Some b" "bss_ready b"
    and f: "\<And>c vs. analysed c vs \<Longrightarrow> serialization_method c \<in> set ms \<Longrightarrow> (vs = []) = first \<Longrightarrow>
      \<exists>c'. f c = Returned c' \<and> analysed c' (vs @ [t]) \<and> serialization_method c' = serialization_method c"
    and first: "first = (length ts < length ms)"
  shows "\<exists>tbl'. update_column f tbl = Returned tbl' \<and> analysed_rel ms tbl' ts t"
proof -
  note s = table_rel_state [OF r]
  let ?i = "length ts mod length ms"
  have i: "?i < length ms" using s(6) by simp
  have "(column_cells (length ms) ?i ts = []) = first"
    unfolding first column_cells_first [OF i] using i by (cases "length ts < length ms") auto
  moreover have "serialization_method (columns tbl ! ?i) \<in> set ms" using analysed_method [OF i r] i by simp
  moreover have "analysed (columns tbl ! ?i) (column_cells (length ms) ?i ts)" using r i by (simp add: table_rel_def)
  ultimately obtain c' where c': "f (columns tbl ! ?i) = Returned c'" "analysed c' (column_cells (length ms) ?i ts @ [t])"
    "serialization_method c' = serialization_method (columns tbl ! ?i)" using f by blast
  let ?tbl = "tbl\<lparr>columns := (columns tbl)[?i := c']\<rparr>"
  have "update_column f tbl = Returned ?tbl"
    using s i c'(1) by (simp add: update_column_def written_column_def Let_def not_le)
  moreover have "map serialization_method ((columns tbl)[?i := c']) = ms"
    using r c'(3) by (simp add: table_rel_def map_update) (metis list_update_id nth_map s(5) i)
  moreover have "analysed ((columns tbl)[?i := c'] ! j) (column_cells (length ms) j (ts @ [t]))" if "j < length ms" for j
    using r that c'(2) s(5) by (cases "j = ?i") (auto simp: table_rel_def column_cells_snoc)
  ultimately show ?thesis
    using r b by (auto simp: table_rel_def analysed_rel_def)
qed

text \<open>The octets follow, and the cell is counted.\<close>

lemma written_rel:
  assumes r: "analysed_rel ms tbl ts t" and t: "cell_ok t"
    and st: "filling (length ms) (length ts) st" "chain_octets st = chain_octets (store tbl) @ cell_octets t"
    and b: "case b of None \<Rightarrow> True | Some b \<Rightarrow> bss_ready b"
  shows "table_rel ms (count_written (tbl\<lparr>bss_ctx := b, store := st\<rparr>)) (ts @ [t])"
  using assms
  by (auto simp: analysed_rel_def table_rel_def count_written_def filling_def ram_ok_def chain_octets_def last_data_def)

lemma with_bss_rel:
  assumes r: "analysed_rel ms tbl ts t" and t: "cell_ok t"
  shows "\<exists>tbl'. with_bss (bss_token TLITTLE_ENDIAN t) tbl = Returned (0, tbl') \<and> table_rel ms (count_written tbl') (ts @ [t])"
proof -
  obtain b where b: "bss_ctx tbl = Some b" "bss_ready b" using r by (auto simp: analysed_rel_def)
  let ?c = "b\<lparr>writerctx := store tbl\<rparr>"
  have top: "topframe ?c = top_frame" using b(2) unfolding bss_ready_def topframe_def by auto
  have st: "filling (length ms) (length ts) (store tbl)" using r by (simp add: analysed_rel_def)
  then have con: "ram_content (store tbl) = Some (chain_octets (store tbl))" by (simp add: filling_def ram_content_def)
  have enc: "enc_token TLITTLE_ENDIAN top_frame t = Some (cell_octets t)" "length (cell_octets t) < SDB_DATA_SIZE_LIMIT"
    using t by (auto simp: cell_ok_def cell_octets_def)
  have "writes_as sdb_bss_writer ram_content (topframe ?c) (bss_token TLITTLE_ENDIAN t) (cell_octets t)"
    unfolding top by (rule ram.bss_token_writes [OF enc(1)])
  moreover have "writer ?c = sdb_bss_writer" "idle ram_content (chain_octets (store tbl)) ?c" "countable_frame (topframe ?c)"
    using b(2) con top top_frame_countable by (simp_all add: bss_ready_def idle_def pending_def)
  ultimately obtain c' where c': "bss_token TLITTLE_ENDIAN t ?c = Some (BSS_EOK, c')"
    "idle ram_content (chain_octets (store tbl) @ cell_octets t) c'" "filling (length ms) (length ts) (writerctx c')"
    "stack c' = (stack ?c)[stacksize ?c := counted (topframe ?c)]" "stacksize c' = stacksize ?c"
    "writer c' = sdb_bss_writer" "classcoll c' = classcoll ?c"
    by (rule accepted_attempt [where G = "filling (length ms) (length ts)"]) (use st writer_accepts [OF enc(2)] in simp_all)
  have "counted top_frame = top_frame" by (simp add: counted_def top_frame_def)
  then have "stack c' = stack b" using c'(4) top b(2) by (simp add: topframe_def) (metis list_update_id)
  then have "bss_ready c'" using c' b(2) unfolding bss_ready_def idle_def topframe_def by auto
  moreover have "\<not> st_fault (writerctx c')" using c'(3) by (simp add: filling_def ram_ok_def)
  ultimately show ?thesis
    using c' b(1) written_rel [OF r t c'(3), of "Some c'"]
    by (simp add: with_bss_def idle_def ram_content_Some bss_status_defs)
qed

section \<open>The writing functions\<close>

text \<open>
  The function that writes a value, and the cell it stores in a column of method \<open>sm\<close>: doubles
  are rounded to single precision where the column says so. Raw cells are written as they are.
\<close>

definition sdb_cell :: "token \<Rightarrow> sdb_table_t \<Rightarrow> table_result" where
  "sdb_cell t =
     (case t of
        T_int i \<Rightarrow> sdb_int i
      | T_bool b \<Rightarrow> sdb_bool b
      | T_double x \<Rightarrow> sdb_double TLITTLE_ENDIAN x
      | T_string s \<Rightarrow> sdb_lstring s
      | T_null \<Rightarrow> sdb_null
      | T_raw s \<Rightarrow> sdb_raw s
      | T_chunk _ \<Rightarrow> (\<lambda>_. Fault))"

definition stored :: "nat \<Rightarrow> token \<Rightarrow> token" where
  "stored sm t =
     (case t of
        T_double x \<Rightarrow> T_double (if has_flag sm SDB_SM_4_BYTES_FLOATS then f32_to_f64 (f64_to_f32 x) else x)
      | _ \<Rightarrow> t)"

definition storable :: "nat list \<Rightarrow> token \<Rightarrow> bool" where
  "storable ms t \<longleftrightarrow> list_all (\<lambda>sm. cell_ok (stored sm t) \<and> (smallest sm \<longrightarrow> small_int t)) ms \<and>
     (case t of T_int i \<Rightarrow> int_ok i | _ \<Rightarrow> True)"

lemma storableD:
  "storable ms t \<Longrightarrow> sm \<in> set ms \<Longrightarrow> cell_ok (stored sm t) \<and> (smallest sm \<longrightarrow> small_int t)"
  by (simp add: storable_def list_all_iff)

lemma analyze_rel:
  assumes r: "table_rel ms tbl ts" "bss_ctx tbl = Some b" "bss_ready b" and t: "storable ms t"
  shows "is_int t \<Longrightarrow> \<exists>tbl'. sdb_analyze_integer (token_int t) tbl = Returned tbl' \<and> analysed_rel ms tbl' ts t"
    "\<not> is_int t \<Longrightarrow> is_number t = numeric \<Longrightarrow> \<exists>tbl'. sdb_analyze_noninteger numeric tbl = Returned tbl' \<and> analysed_rel ms tbl' ts t"
proof -
  note s = table_rel_state [OF r(1)]
  assume i: "is_int t"
  show "\<exists>tbl'. sdb_analyze_integer (token_int t) tbl = Returned tbl' \<and> analysed_rel ms tbl' ts t"
    unfolding sdb_analyze_integer_def s
  proof (rule update_column_rel [OF r _ refl])
    fix c vs assume c: "analysed c vs" "serialization_method c \<in> set ms" "(vs = []) = (length ts < length ms)"
    obtain v where v: "t = T_int v" using i by (auto simp: is_int_def split: token.splits)
    have "smallest (serialization_method c) \<longrightarrow> \<bar>token_int t\<bar> < 2 ^ 30"
      using storableD [OF t c(2)] by (simp add: small_int_def)
    then show "\<exists>c'. analyse_int (length ts < length ms) (token_int t) c = Returned c' \<and> analysed c' (vs @ [t]) \<and>
        serialization_method c' = serialization_method c"
      using analyse_int_analysed [OF c(1), of v] c(3) by (simp add: v token_int_def)
  qed
next
  assume i: "\<not> is_int t" "is_number t = numeric"
  show "\<exists>tbl'. sdb_analyze_noninteger numeric tbl = Returned tbl' \<and> analysed_rel ms tbl' ts t"
    unfolding sdb_analyze_noninteger_def
    by (rule update_column_rel [OF r _ refl]) (use analyse_other_analysed [OF _ i] in simp)
qed

lemma WRITER_rel:
  assumes r: "table_rel ms tbl ts" and t: "cell_ok t"
    and a: "\<And>tbl b. table_rel ms tbl ts \<Longrightarrow> bss_ctx tbl = Some b \<Longrightarrow> bss_ready b \<Longrightarrow>
      \<exists>tbl'. analysis tbl = Returned tbl' \<and> analysed_rel ms tbl' ts t"
  shows "\<exists>tbl'. WRITER (bss_token TLITTLE_ENDIAN t) analysis tbl = Returned (SDB_EOK, tbl') \<and> table_rel ms tbl' (ts @ [t])"
proof -
  note s = table_rel_state [OF r]
  obtain r' tbl1 b where 1: "sdb_untrim tbl = Returned (r', tbl1)" "table_rel ms tbl1 ts" "bss_ctx tbl1 = Some b" "bss_ready b"
    using untrim_rel [OF r] by blast
  from a [OF 1(2-4)] obtain tbl2 where 2: "analysis tbl1 = Returned tbl2" "analysed_rel ms tbl2 ts t" by blast
  from with_bss_rel [OF 2(2) t] 1 2 s show ?thesis by (auto simp: WRITER_def writable_def)
qed

lemma sdb_double_rel:
  assumes r: "table_rel ms tbl ts" and t: "storable ms (T_double x)"
  shows "\<exists>tbl'. sdb_double TLITTLE_ENDIAN x tbl = Returned (SDB_EOK, tbl') \<and>
     table_rel ms tbl' (ts @ [stored (ms ! (length ts mod length ms)) (T_double x)])"
proof -
  note s = table_rel_state [OF r]
  let ?i = "length ts mod length ms"
  let ?t = "stored (ms ! ?i) (T_double x)"
  have i: "?i < length ms" using s(6) by simp
  obtain r' tbl1 b where 1: "sdb_untrim tbl = Returned (r', tbl1)" "table_rel ms tbl1 ts" "bss_ctx tbl1 = Some b" "bss_ready b"
    using untrim_rel [OF r] by blast
  note s1 = table_rel_state [OF 1(2)]
  have ok: "cell_ok ?t" using storableD [OF t, of "ms ! ?i"] i by simp
  have "\<exists>tbl'. sdb_analyze_noninteger True tbl1 = Returned tbl' \<and> analysed_rel ms tbl' ts ?t"
    unfolding sdb_analyze_noninteger_def
    by (rule update_column_rel [OF 1(2-4) _ refl])
      (use analyse_other_analysed [of _ _ ?t True] in \<open>simp add: stored_def is_int_def is_number_def\<close>)
  then obtain tbl2 where 2: "sdb_analyze_noninteger True tbl1 = Returned tbl2" "analysed_rel ms tbl2 ts ?t" by blast
  have tok: "bss_token TLITTLE_ENDIAN ?t =
      bss_double TLITTLE_ENDIAN (if has_flag (ms ! ?i) SDB_SM_4_BYTES_FLOATS then f32_to_f64 (f64_to_f32 x) else x)"
    by (simp add: stored_def bss_token_def)
  from with_bss_rel [OF 2(2) ok] obtain tbl3 where
    "with_bss (bss_token TLITTLE_ENDIAN ?t) tbl2 = Returned (0, tbl3)" "table_rel ms (count_written tbl3) (ts @ [?t])" by blast
  then show ?thesis
    using 1 2 s s1 i analysed_method [OF i 1(2)] unfolding tok
    by (simp add: sdb_double_def writable_def written_column_def Let_def not_le)
qed

text \<open>A raw cell counts as something that is not a number.\<close>

definition raw_storable :: "nat list \<Rightarrow> token \<Rightarrow> bool" where
  "raw_storable ms t \<longleftrightarrow> cell_ok t \<and> (is_number t \<longrightarrow> list_all (\<lambda>sm. \<not> smallest sm) ms)"

lemma sdb_raw_rel:
  assumes r: "table_rel ms tbl ts" and t: "raw_storable ms t"
  shows "\<exists>tbl'. sdb_raw (cell_octets t) tbl = Returned (SDB_EOK, tbl') \<and> table_rel ms tbl' (ts @ [t])"
proof -
  note s = table_rel_state [OF r]
  have ok: "cell_ok t" using t by (simp add: raw_storable_def)
  obtain r' tbl1 b where 1: "sdb_untrim tbl = Returned (r', tbl1)" "table_rel ms tbl1 ts" "bss_ctx tbl1 = Some b" "bss_ready b"
    using untrim_rel [OF r] by blast
  have "\<exists>tbl'. sdb_analyze_noninteger False tbl1 = Returned tbl' \<and> analysed_rel ms tbl' ts t"
    unfolding sdb_analyze_noninteger_def
  proof (rule update_column_rel [OF 1(2-4) _ refl])
    fix c vs assume c: "analysed c vs" "serialization_method c \<in> set ms"
    show "\<exists>c'. Returned (analyse_other False c) = Returned c' \<and> analysed c' (vs @ [t]) \<and> serialization_method c' = serialization_method c"
    proof (cases "is_number t")
      case True
      with t c(2) have "\<not> smallest (serialization_method c)" by (auto simp: raw_storable_def list_all_iff)
      then show ?thesis by (simp add: analysed_def analyse_other_def)
    next
      case False
      then have "\<not> is_int t" by (auto simp: is_int_def is_number_def split: token.splits)
      with analyse_other_analysed [OF c(1), of t False] False show ?thesis by simp
    qed
  qed
  then obtain tbl2 where 2: "sdb_analyze_noninteger False tbl1 = Returned tbl2" "analysed_rel ms tbl2 ts t" by blast
  obtain n st where w: "sdb_bss_writer (cell_octets t) (store tbl2) = (n, st)" by fastforce
  have f: "filling (length ms) (length ts) (store tbl2)" "length (cell_octets t) < SDB_DATA_SIZE_LIMIT"
    using 2(2) ok by (simp_all add: analysed_rel_def cell_ok_def)
  have "n = int (length (cell_octets t))" "filling (length ms) (length ts) st"
    using writer_accepts [OF f(2), of "length ms" "length ts"] f(1) w unfolding accepting_in_def by (metis fst_conv snd_conv order_refl)+
  moreover have "chain_octets st = chain_octets (store tbl2) @ cell_octets t"
    using writer_law_ram [OF _ w, of "chain_octets (store tbl2)"] f(1) calculation(1) by (auto simp: ram_content_def filling_def split: if_splits)
  moreover obtain b2 where "bss_ctx tbl2 = Some b2" "bss_ready b2" using 2(2) by (auto simp: analysed_rel_def)
  moreover have eq: "tbl2\<lparr>bss_ctx := bss_ctx tbl2, store := st\<rparr> = tbl2\<lparr>store := st\<rparr>" by simp
  ultimately have "table_rel ms (count_written (tbl2\<lparr>store := st\<rparr>)) (ts @ [t])" "\<not> st_fault st"
    using written_rel [OF 2(2) ok, of st "bss_ctx tbl2", unfolded eq] by (auto simp: filling_def ram_ok_def)
  then show ?thesis
    using 1 2 s w \<open>n = _\<close> by (simp add: sdb_raw_def writable_def Let_def)
qed

theorem sdb_cell_rel:
  assumes r: "table_rel ms tbl ts" and t: "storable ms t"
  shows "\<exists>tbl'. sdb_cell t tbl = Returned (SDB_EOK, tbl') \<and>
     table_rel ms tbl' (ts @ [stored (ms ! (length ts mod length ms)) t])"
proof -
  have ok: "cell_ok (stored (ms ! (length ts mod length ms)) t)" using storableD [OF t] table_rel_state(6) [OF r] by simp
  have i: "stored sm t = t \<Longrightarrow> is_int t \<Longrightarrow> \<exists>tbl'. WRITER (bss_token TLITTLE_ENDIAN t) (sdb_analyze_integer (token_int t)) tbl =
      Returned (SDB_EOK, tbl') \<and> table_rel ms tbl' (ts @ [t])" if "sm = ms ! (length ts mod length ms)" for sm
    using that ok by (intro WRITER_rel [OF r]) (simp_all add: analyze_rel(1) t)
  have n: "stored sm t = t \<Longrightarrow> \<not> is_int t \<Longrightarrow> \<not> is_number t \<Longrightarrow>
      \<exists>tbl'. WRITER (bss_token TLITTLE_ENDIAN t) (sdb_analyze_noninteger False) tbl =
      Returned (SDB_EOK, tbl') \<and> table_rel ms tbl' (ts @ [t])" if "sm = ms ! (length ts mod length ms)" for sm
    using that ok by (intro WRITER_rel [OF r]) (simp_all add: analyze_rel(2) t)
  note d = sdb_cell_def stored_def bss_token_def is_int_def is_number_def token_int_def
  show ?thesis
  proof (cases t)
    case (T_int v)
    with i [OF refl] show ?thesis by (simp add: d sdb_int_def)
  next
    case (T_double x)
    with sdb_double_rel [OF r] t show ?thesis by (simp add: sdb_cell_def)
  next
    case (T_string s)
    with n [OF refl] show ?thesis by (simp add: d sdb_lstring_def)
  next
    case (T_bool b)
    with n [OF refl] show ?thesis by (simp add: d sdb_bool_def)
  next
    case T_null
    with n [OF refl] show ?thesis by (simp add: d sdb_null_def)
  qed (use ok in \<open>auto simp: cell_ok_def token_ok_def stored_def enc_token_def top_frame_def getctxid_def ctxid_defs\<close>)
qed

section \<open>Trimming and resetting\<close>

lemma resized_rel:
  assumes r: "table_rel ms tbl ts" and n: "nwrittenbytes (store tbl) mod SDB_CHUNK_SIZE \<le> n" "0 < n" "n \<le> SDB_CHUNK_SIZE"
  shows "table_rel ms (tbl\<lparr>bss_ctx := None, store := snd (set_last_chunk_size n (store tbl))\<rparr>) ts"
proof -
  obtain r' st where w: "set_last_chunk_size n (store tbl) = (r', st)" by fastforce
  note p = last_chunk_resized [OF table_rel_state(7) [OF r] n w]
  show ?thesis using r p w by (auto simp: table_rel_def filling_def same_table_def)
qed

lemma sdb_trim_rel:
  assumes r: "table_rel ms tbl ts"
  shows "\<exists>tbl'. sdb_trim tbl = Returned (SDB_EOK, tbl') \<and> table_rel ms tbl' ts"
proof -
  note s = table_rel_state [OF r]
  define p where "p = nwrittenbytes (store tbl) mod SDB_CHUNK_SIZE"
  have p: "p < SDB_CHUNK_SIZE" by (simp add: p_def sdb_size_defs)
  have k: "st_kind (store tbl) = SDB_SK_RAM" using s(7) by (simp add: ram_ok_def)
  have same: "table_rel ms (tbl\<lparr>bss_ctx := None\<rparr>) ts" using r by (simp add: table_rel_def)
  have "table_rel ms (tbl\<lparr>bss_ctx := None, store := snd (sdb_ram_trim (store tbl))\<rparr>) ts"
    unfolding sdb_ram_trim_def Let_def p_def [symmetric]
    using resized_rel [OF r, folded p_def] p same
    by (cases "p = 0") (auto simp: sdb_size_defs)
  then show ?thesis using s k by (simp add: sdb_trim_def)
qed

lemma reset_analysis_method: "serialization_method (reset_analysis c) = serialization_method c"
  by (simp add: reset_analysis_def)

lemma sdb_reset_rel:
  assumes r: "table_rel ms tbl ts"
  shows "\<exists>tbl'. sdb_reset tbl = Returned (SDB_EOK, tbl') \<and> table_rel ms tbl' []"
proof -
  note s = table_rel_state [OF r]
  have k: "st_kind (store tbl) = SDB_SK_RAM" "\<not> st_fault (store tbl)" using s(7) by (simp_all add: ram_ok_def)
  obtain a st where al: "sdb_alloc ((store tbl)\<lparr>st_chunks := []\<rparr>) = (True, a, st)"
    and st: "st_grants st = []" "st_kind st = SDB_SK_RAM" "\<not> st_fault st" "st_state st = SDB_ST_READING"
      "st_ncolumns st = length ms"
    using s k by (simp add: sdb_alloc_def)
  let ?st = "st\<lparr>st_chunks := [\<lparr>ch_addr = a, ch_data = replicate SDB_MIN_CHUNK_SIZE 0\<rparr>], st_last_size := SDB_MIN_CHUNK_SIZE,
      nwrittenbytes := 0, nwrittenobjects := 0\<rparr>"
  have f: "filling (length ms) 0 ?st" "chain_octets ?st = []"
    using st by (simp_all add: filling_def ram_ok_def last_data_def chain_octets_def sdb_size_defs)
  have m: "map serialization_method (map reset_analysis (columns tbl)) = ms"
    using r unfolding table_rel_def map_map comp_def
    by (metis (no_types, lifting) map_cong reset_analysis_method)
  have c: "analysed (map reset_analysis (columns tbl) ! j) []" if "j < length ms" for j
    using that s(5) by (simp add: analysed_def reset_analysis_def)
  let ?tbl = "tbl\<lparr>store := ?st, columns := map reset_analysis (columns tbl)\<rparr>"
  have eq: "sdb_reset tbl =
    (case bss_ctx tbl of None \<Rightarrow> Returned (SDB_EOK, ?tbl)
     | Some b \<Rightarrow> need (bss_reset b) (\<lambda>b. Returned (SDB_EOK, ?tbl\<lparr>bss_ctx := Some b\<rparr>)))"
    using s k al by (simp add: sdb_reset_def first_chunk_def reset_counters_def Let_def)
  show ?thesis
  proof (cases "bss_ctx tbl")
    case None
    with eq f m c r show ?thesis by (simp add: table_rel_def)
  next
    case (Some b)
    with r have b: "bss_ready b" by (simp add: table_rel_def)
    then have "stack b ! 0 = top_frame" by (auto simp: bss_ready_def topframe_def)
    then have "(stack b)[0 := (stack b ! 0)\<lparr>kind := BS_FTOP, ctxid := BS_CTXID_GLOBAL\<rparr>] = stack b"
      using list_update_id [of "stack b" 0] by (simp add: top_frame_def)
    with b \<open>stack b ! 0 = top_frame\<close> obtain b' where "bss_reset b = Some b'" "bss_ready b'"
      by (auto simp: bss_reset_def bss_ready_def bs_classcoll_reset_def bs_classcoll_init_def topframe_def pending_def)
    with Some eq f m c r show ?thesis by (simp add: table_rel_def)
  qed
qed

section \<open>Sequences of operations\<close>

datatype table_op = Op_cell token | Op_raw token | Op_trim | Op_reset

definition table_do :: "table_op \<Rightarrow> sdb_table_t \<Rightarrow> table_result" where
  "table_do a =
     (case a of
        Op_cell t \<Rightarrow> sdb_cell t
      | Op_raw t \<Rightarrow> sdb_raw (cell_octets t)
      | Op_trim \<Rightarrow> sdb_trim
      | Op_reset \<Rightarrow> sdb_reset)"

definition cells_do :: "nat list \<Rightarrow> table_op \<Rightarrow> token list \<Rightarrow> token list" where
  "cells_do ms a ts =
     (case a of
        Op_cell t \<Rightarrow> ts @ [stored (ms ! (length ts mod length ms)) t]
      | Op_raw t \<Rightarrow> ts @ [t]
      | Op_trim \<Rightarrow> ts
      | Op_reset \<Rightarrow> [])"

definition op_ok :: "nat list \<Rightarrow> table_op \<Rightarrow> bool" where
  "op_ok ms a = (case a of Op_cell t \<Rightarrow> storable ms t | Op_raw t \<Rightarrow> raw_storable ms t | _ \<Rightarrow> True)"

text \<open>The calls one after the other; \<open>None\<close> as soon as one does not return \<open>SDB_EOK\<close>.\<close>

fun table_run :: "table_op list \<Rightarrow> sdb_table_t \<Rightarrow> sdb_table_t option" where
  "table_run [] tbl = Some tbl"
| "table_run (a # as) tbl =
     (case table_do a tbl of
        Returned (r, tbl') \<Rightarrow> if r = SDB_EOK then table_run as tbl' else None
      | _ \<Rightarrow> None)"

lemma table_do_rel:
  "table_rel ms tbl ts \<Longrightarrow> op_ok ms a \<Longrightarrow>
   \<exists>tbl'. table_do a tbl = Returned (SDB_EOK, tbl') \<and> table_rel ms tbl' (cells_do ms a ts)"
  by (cases a) (auto simp: table_do_def cells_do_def op_ok_def intro: sdb_cell_rel sdb_raw_rel sdb_trim_rel sdb_reset_rel)

lemma table_run_rel:
  "table_rel ms tbl ts \<Longrightarrow> list_all (op_ok ms) as \<Longrightarrow>
   \<exists>tbl'. table_run as tbl = Some tbl' \<and> table_rel ms tbl' (fold (cells_do ms) as ts)"
proof (induction as arbitrary: tbl ts)
  case (Cons a as)
  then obtain tbl' where "table_do a tbl = Returned (SDB_EOK, tbl')" "table_rel ms tbl' (cells_do ms a ts)"
    using table_do_rel [of ms tbl ts a] by auto
  with Cons show ?case by simp
qed simp

end
