(* ===== verification/Sdb_Names.thy ===== *)
theory Sdb_Names
  imports Sdb_Writing
begin

text \<open>
  The configuration of a table. The identifier of the table and the names of its columns are
  strings that follow each other in one block (\<open>names_in\<close>), which grows by powers of two; a table
  that was initialised holds no cells and finds its columns by their names.
\<close>

section \<open>The block of names\<close>

definition name_octets :: "bytes list \<Rightarrow> bytes" where
  "name_octets ns = concat (map (\<lambda>s. s @ [0]) ns)"

lemma name_octets_simps [simp]:
  "name_octets [] = []" "name_octets (s # ns) = s @ 0 # name_octets ns" "name_octets (ns @ ms) = name_octets ns @ name_octets ms"
  by (simp_all add: name_octets_def)

definition names_in :: "sdb_table_t \<Rightarrow> bytes list \<Rightarrow> bool" where
  "names_in tbl ns \<longleftrightarrow> conf_string_idx tbl = int (length (name_octets ns)) \<and>
     (case conf_strings tbl of
        None \<Rightarrow> ns = []
      | Some s \<Rightarrow> take (length (name_octets ns)) s = name_octets ns \<and> length s = nat (next_pow2 (int (length (name_octets ns)))))"

text \<open>Only the block of names and the next address differ.\<close>

definition same_but_names :: "sdb_table_t \<Rightarrow> sdb_table_t \<Rightarrow> bool" where
  "same_but_names tbl tbl' \<longleftrightarrow>
     (\<exists>n s i. tbl' = tbl\<lparr>store := (store tbl)\<lparr>st_next := n\<rparr>, conf_strings := s, conf_string_idx := i\<rparr>)"

lemma reserve_granted: "st_grants (store tbl) = [] \<Longrightarrow>
   reserve tbl = (True, tbl\<lparr>store := (store tbl)\<lparr>st_next := st_next (store tbl) + 1\<rparr>\<rparr>)"
  by (simp add: reserve_def sdb_alloc_def)

lemma new_conf_string_ok:
  assumes n: "names_in tbl ns" and g: "st_grants (store tbl) = []" and l: "length (name_octets (ns @ [str])) < 2 ^ 15"
  shows "\<exists>tbl'. new_conf_string str tbl = Returned (int (length (name_octets ns)), tbl') \<and>
     names_in tbl' (ns @ [str]) \<and> same_but_names tbl tbl'"
proof -
  define k where "k = length (name_octets ns)"
  define e where "e = k + length str + 1"
  have e: "length (name_octets (ns @ [str])) = e" "e < 2 ^ 15" "0 < e" "k < e" using l by (simp_all add: k_def e_def)
  have i: "conf_string_idx tbl = int k" using n by (simp add: names_in_def k_def)
  have pb: "int e \<le> next_pow2 (int e)" "next_pow2 (int e) \<le> 0x10000" using next_pow2_bounds [of "int e"] e by simp_all
  define s where "s = (case conf_strings tbl of None \<Rightarrow> [] | Some s \<Rightarrow> s)"
  have len_s: "k \<le> nat (next_pow2 (int k))" using next_pow2_bounds(1) [of "int k"] e(2,4) by (cases "k = 0") simp_all
  have s: "take k s = name_octets ns" "length s = nat (next_pow2 (int k))" "k \<le> length s"
    using len_s n by (auto simp: names_in_def k_def s_def split: option.splits)
  define s' where "s' = (if next_pow2 (int k) \<noteq> next_pow2 (int e) then resize s (nat (next_pow2 (int e))) else s)"
  have s': "take k s' = name_octets ns" "length s' = nat (next_pow2 (int e))"
    using s pb e by (auto simp: s'_def take_resize)
  have fit: "k + length (str @ [0]) \<le> length s'" using s' pb by (simp add: e_def)
  have nn: "next_pow2 (int k) = next_pow2 (int e) \<Longrightarrow> conf_strings tbl = Some s"
    using pb e s by (auto simp: s_def split: option.splits)
  let ?s = "overwrite s' k (str @ [0])"
  have st: "take e ?s = name_octets (ns @ [str])" "length ?s = nat (next_pow2 (int e))"
    using s' fit e take_overwrite [of k "str @ [0]" s'] by (simp_all add: e_def)
  have i16: "int16 (int e) = int e" using e by (simp add: int16_def signed_take_bit_int_eq_self)
  define tbl1 where "tbl1 = (if next_pow2 (int k) \<noteq> next_pow2 (int e)
    then tbl\<lparr>store := (store tbl)\<lparr>st_next := st_next (store tbl) + 1\<rparr>\<rparr> else tbl)"
  have "new_conf_string str tbl = Returned (int k, tbl1\<lparr>conf_strings := Some ?s, conf_string_idx := int e\<rparr>)"
  proof (cases "next_pow2 (int k) = next_pow2 (int e)")
    case True
    have "int k + (int (length str) + 1) = int e" by (simp add: e_def)
    with True nn fit i16 i show ?thesis
      by (simp add: new_conf_string_def Let_def tbl1_def s'_def store_at_in)
  next
    case False
    have "int k + (int (length str) + 1) = int e" by (simp add: e_def)
    with False fit i16 i g show ?thesis
      by (simp add: new_conf_string_def Let_def tbl1_def s'_def store_at_in reserve_granted s_def)
  qed
  moreover have "names_in (tbl1\<lparr>conf_strings := Some ?s, conf_string_idx := int e\<rparr>) (ns @ [str])"
    using st e(1) by (simp add: names_in_def)
  moreover have "same_but_names tbl (tbl1\<lparr>conf_strings := Some ?s, conf_string_idx := int e\<rparr>)"
  proof (cases "next_pow2 (int k) = next_pow2 (int e)")
    case True
    have "tbl = tbl\<lparr>store := (store tbl)\<lparr>st_next := st_next (store tbl)\<rparr>\<rparr>" by simp
    with True have "tbl1 = tbl\<lparr>store := (store tbl)\<lparr>st_next := st_next (store tbl)\<rparr>\<rparr>" by (simp add: tbl1_def)
    then show ?thesis unfolding same_but_names_def by (intro exI [of _ "st_next (store tbl)"] exI) simp
  qed (auto simp: same_but_names_def tbl1_def)
  ultimately show ?thesis unfolding k_def by blast
qed

section \<open>Configuring the columns\<close>

type_synonym column_conf = "bytes \<times> nat \<times> f64"

definition label_at :: "bytes \<Rightarrow> column_conf list \<Rightarrow> nat \<Rightarrow> int" where
  "label_at ident cs j = int (length (name_octets (ident # map fst (take j cs))))"

definition column_set :: "bytes \<Rightarrow> column_conf list \<Rightarrow> nat \<Rightarrow> sdb_column_t \<Rightarrow> bool" where
  "column_set ident cs j c \<longleftrightarrow> label_offset c = label_at ident cs j \<and> serialization_method c = fst (snd (cs ! j)) \<and> analysed c []"

definition columns_set :: "bytes \<Rightarrow> column_conf list \<Rightarrow> sdb_table_t \<Rightarrow> bool" where
  "columns_set ident cs tbl \<longleftrightarrow> (\<forall>j < length cs. column_set ident cs j (columns tbl ! j))"

text \<open>The storage of a table in memory that holds nothing.\<close>

definition fresh_store :: "nat \<Rightarrow> sdb_store \<Rightarrow> bool" where
  "fresh_store n st \<longleftrightarrow> st_kind st = SDB_SK_RAM \<and> \<not> st_fault st \<and> st_grants st = [] \<and> st_ncolumns st = n \<and>
     nwrittenbytes st = 0 \<and> nwrittenobjects st = 0 \<and> st_last_size st = SDB_MIN_CHUNK_SIZE \<and>
     (\<exists>a. st_chunks st = [\<lparr>ch_addr = a, ch_data = replicate SDB_MIN_CHUNK_SIZE 0\<rparr>])"

lemma fresh_filling: "fresh_store n st \<Longrightarrow> st_state st = SDB_ST_READING \<Longrightarrow> filling n 0 st \<and> chain_octets st = []"
  by (auto simp: fresh_store_def filling_def ram_ok_def last_data_def chain_octets_def sdb_size_defs)

definition conf_rel :: "nat \<Rightarrow> bytes \<Rightarrow> column_conf list \<Rightarrow> sdb_table_t \<Rightarrow> bool" where
  "conf_rel n ident ds tbl \<longleftrightarrow>
     tbl_state tbl = SDB_ST_UNCONFIGURED \<and> conf_col tbl = length ds \<and> length ds < n \<and> n < 255 \<and>
     length (columns tbl) = n \<and> names_in tbl (ident # map fst ds) \<and> columns_set ident ds tbl \<and>
     fresh_store n (store tbl) \<and> maxwrittenobjects tbl = 0 \<and> (\<exists>b. bss_ctx tbl = Some b \<and> bss_ready b)"

definition named_rel :: "bytes \<Rightarrow> column_conf list \<Rightarrow> sdb_table_t \<Rightarrow> bool" where
  "named_rel ident cs tbl \<longleftrightarrow> length (columns tbl) = length cs \<and> columns_set ident cs tbl \<and>
     conf_strings tbl = Some (name_octets (ident # map fst cs))"

lemma label_at_append: "j \<le> length ds \<Longrightarrow> label_at ident (ds @ es) j = label_at ident ds j"
  by (simp add: label_at_def)

lemma columns_set_snoc:
  assumes "columns_set ident ds tbl" "length ds < length (columns tbl)" "columns tbl' = (columns tbl)[length ds := c]"
    "column_set ident (ds @ [d]) (length ds) c"
  shows "columns_set ident (ds @ [d]) tbl'"
  using assms by (auto simp: columns_set_def column_set_def nth_append nth_list_update label_at_append less_Suc_eq)

lemma new_column_set:
  "column_set ident (ds @ [(name, sm, p)]) (length ds) (new_column sm p' c\<lparr>label_offset := label_at ident ds (length ds)\<rparr>)"
  by (auto simp: column_set_def label_at_append new_column_def analysed_def Let_def nth_append)

lemma setcolumn_eval:
  assumes r: "conf_rel n ident ds tbl" and l: "length (name_octets (ident # map fst ds @ [name])) < 2 ^ 15"
  obtains tbl1 where "names_in tbl1 (ident # map fst ds @ [name])" "same_but_names tbl tbl1"
    "sdb_setcolumn env name sm p tbl =
      (let tbl = tbl1\<lparr>columns := (columns tbl1)[length ds := new_column sm p (columns tbl ! length ds)\<lparr>label_offset := label_at ident ds (length ds)\<rparr>],
                      conf_col := Suc (length ds)\<rparr> in
       if Suc (length ds) = n then
         Returned (SDB_EOK, (snd (reserve (set_state SDB_ST_READING tbl)))\<lparr>
           conf_strings := map_option (\<lambda>s. resize s (nat (conf_string_idx tbl))) (conf_strings tbl)\<rparr>)
       else Returned (SDB_EOK, tbl))"
proof -
  have g: "st_grants (store tbl) = []" "st_kind (store tbl) = SDB_SK_RAM" using r by (simp_all add: conf_rel_def fresh_store_def)
  from new_conf_string_ok [of tbl "ident # map fst ds" name] r l g obtain tbl1 where
    1: "new_conf_string name tbl = Returned (label_at ident ds (length ds), tbl1)" "names_in tbl1 (ident # map fst ds @ [name])"
      "same_but_names tbl tbl1" by (auto simp: conf_rel_def label_at_def)
  have c: "conf_col tbl1 = length ds" "columns tbl1 = columns tbl" "st_kind (store tbl1) = SDB_SK_RAM"
    "st_ncolumns (store tbl1) = n" "st_grants (store tbl1) = []" "label_at ident ds (length ds) \<ge> 0"
    using 1(3) r g by (auto simp: same_but_names_def conf_rel_def fresh_store_def label_at_def)
  show ?thesis
  proof (rule that [OF 1(2,3)], goal_cases)
    case 1
    show ?case
      using r c \<open>new_conf_string name tbl = _\<close>
      by (auto simp: sdb_setcolumn_def conf_rel_def Let_def new_column_def reserve_granted set_state_def not_le)
  qed
qed

lemma setcolumn_step:
  assumes r: "conf_rel n ident ds tbl" and l: "length (name_octets (ident # map fst ds @ [name])) < 2 ^ 15"
    and n: "Suc (length ds) < n"
  shows "\<exists>tbl'. sdb_setcolumn env name sm p tbl = Returned (SDB_EOK, tbl') \<and> conf_rel n ident (ds @ [(name, sm, p')]) tbl'"
proof -
  let ?c = "new_column sm p (columns tbl ! length ds)\<lparr>label_offset := label_at ident ds (length ds)\<rparr>"
  from setcolumn_eval [OF r l, of env sm p] obtain tbl1 where 1: "names_in tbl1 (ident # map fst ds @ [name])" "same_but_names tbl tbl1"
    "sdb_setcolumn env name sm p tbl = Returned (SDB_EOK, tbl1\<lparr>columns := (columns tbl1)[length ds := ?c], conf_col := Suc (length ds)\<rparr>)"
    using n by (auto simp: Let_def)
  have "columns_set ident (ds @ [(name, sm, p')]) (tbl1\<lparr>columns := (columns tbl1)[length ds := ?c], conf_col := Suc (length ds)\<rparr>)"
    using r 1(2) by (intro columns_set_snoc [OF _ _ _ new_column_set]) (auto simp: conf_rel_def same_but_names_def columns_set_def)
  with 1 r n show ?thesis by (auto simp: conf_rel_def same_but_names_def names_in_def fresh_store_def)
qed

lemma setcolumn_last:
  assumes r: "conf_rel n ident ds tbl" and l: "length (name_octets (ident # map fst ds @ [name])) < 2 ^ 15"
    and n: "Suc (length ds) = n"
  shows "\<exists>tbl'. sdb_setcolumn env name sm p tbl = Returned (SDB_EOK, tbl') \<and>
     table_rel (map (\<lambda>c. fst (snd c)) (ds @ [(name, sm, p')])) tbl' [] \<and> named_rel ident (ds @ [(name, sm, p')]) tbl'"
proof -
  let ?c = "new_column sm p (columns tbl ! length ds)\<lparr>label_offset := label_at ident ds (length ds)\<rparr>"
  let ?cs = "ds @ [(name, sm, p')]"
  from setcolumn_eval [OF r l, of env sm p] n obtain tbl1 where 1: "names_in tbl1 (ident # map fst ds @ [name])" "same_but_names tbl tbl1"
    "sdb_setcolumn env name sm p tbl = Returned (SDB_EOK, (snd (reserve (set_state SDB_ST_READING
        (tbl1\<lparr>columns := (columns tbl1)[length ds := ?c], conf_col := Suc (length ds)\<rparr>))))\<lparr>
           conf_strings := map_option (\<lambda>s. resize s (nat (conf_string_idx tbl1))) (conf_strings tbl1)\<rparr>)"
    by (auto simp: Let_def)
  define tbl' where "tbl' = (snd (reserve (set_state SDB_ST_READING
        (tbl1\<lparr>columns := (columns tbl1)[length ds := ?c], conf_col := Suc (length ds)\<rparr>))))\<lparr>
           conf_strings := map_option (\<lambda>s. resize s (nat (conf_string_idx tbl1))) (conf_strings tbl1)\<rparr>"
  have g: "st_grants (store tbl1) = []" using 1(2) r by (auto simp: same_but_names_def conf_rel_def fresh_store_def)
  then have t: "tbl' = tbl1\<lparr>store := (store tbl1)\<lparr>st_state := SDB_ST_READING, st_next := st_next (store tbl1) + 1\<rparr>,
      columns := (columns tbl1)[length ds := ?c], conf_col := Suc (length ds),
      conf_strings := map_option (\<lambda>s. resize s (nat (conf_string_idx tbl1))) (conf_strings tbl1)\<rparr>"
    by (simp add: tbl'_def reserve_granted set_state_def)
  have cs: "columns_set ident ?cs tbl'"
    unfolding t using r 1(2) by (intro columns_set_snoc [OF _ _ _ new_column_set]) (auto simp: conf_rel_def same_but_names_def columns_set_def)
  have len: "length (columns tbl') = length ?cs" using r 1(2) n by (auto simp: t conf_rel_def same_but_names_def)
  obtain s where "conf_strings tbl1 = Some s" "take (length (name_octets (ident # map fst ?cs))) s = name_octets (ident # map fst ?cs)"
    "length (name_octets (ident # map fst ?cs)) \<le> length s"
    using 1(1) next_pow2_bounds(1) [of "conf_string_idx tbl1"] l by (auto simp: names_in_def split: option.splits)
  moreover have "nat (conf_string_idx tbl1) = length (name_octets (ident # map fst ?cs))"
    using 1(1) by (simp add: names_in_def)
  ultimately have strings: "conf_strings tbl' = Some (name_octets (ident # map fst ?cs))"
    unfolding t by (simp add: resize_def del: name_octets_simps)
  have st: "filling n 0 (store tbl') \<and> chain_octets (store tbl') = []"
    by (rule fresh_filling) (use r 1(2) in \<open>auto simp: t conf_rel_def same_but_names_def fresh_store_def\<close>)
  have "map serialization_method (columns tbl') = map (\<lambda>c. fst (snd c)) ?cs"
    using cs len by (intro nth_equalityI) (simp_all add: columns_set_def column_set_def del: map_append)
  moreover have "analysed (columns tbl' ! j) []" if "j < length ?cs" for j
    using cs that by (simp add: columns_set_def column_set_def)
  moreover have "maxwrittenobjects tbl' = 0" "\<exists>b. bss_ctx tbl' = Some b \<and> bss_ready b"
    using r 1(2) by (auto simp: t conf_rel_def same_but_names_def)
  ultimately have "table_rel (map (\<lambda>c. fst (snd c)) ?cs) tbl' []"
    using st n by (auto simp: table_rel_def)
  moreover have "named_rel ident ?cs tbl'" using len cs strings by (simp add: named_rel_def)
  ultimately show ?thesis using 1(3) unfolding tbl'_def by blast
qed

lemma set_columns_ok:
  assumes "conf_rel (length ds + length cs) ident ds tbl" "cs \<noteq> []" "length (name_octets (ident # map fst (ds @ cs))) < 2 ^ 15"
  shows "\<exists>tbl'. set_columns env cs tbl = Returned tbl' \<and>
     table_rel (map (\<lambda>c. fst (snd c)) (ds @ cs)) tbl' [] \<and> named_rel ident (ds @ cs) tbl'"
  using assms
proof (induction cs arbitrary: ds tbl)
  case (Cons c cs)
  obtain name sm p where c: "c = (name, sm, p)" by (cases c)
  have l: "length (name_octets (ident # map fst ds @ [name])) < 2 ^ 15" using Cons.prems(3) by (simp add: c)
  show ?case
  proof (cases "cs = []")
    case True
    with setcolumn_last [OF Cons.prems(1) l, of env sm "if has_precision sm then p else 0" p] show ?thesis
      by (auto simp: c)
  next
    case False
    then have "Suc (length ds) < length ds + length (c # cs)" by simp
    from setcolumn_step [OF Cons.prems(1) l this, of env sm "if has_precision sm then p else 0" p] obtain tbl' where
      t: "sdb_setcolumn env name sm (if has_precision sm then p else 0) tbl = Returned (SDB_EOK, tbl')"
        "conf_rel (length (ds @ [c]) + length cs) ident (ds @ [c]) tbl'" by (auto simp: c)
    from Cons.IH [OF t(2) False] Cons.prems(3) t(1) show ?thesis by (simp add: c)
  qed
qed simp

section \<open>Initialisation\<close>

definition names_fit :: "bytes \<Rightarrow> column_conf list \<Rightarrow> bool" where
  "names_fit ident cs \<longleftrightarrow> 0 < length cs \<and> length cs < 255 \<and> length (name_octets (ident # map fst cs)) < 2 ^ 15"

lemma initwithoutcolumns_ok:
  assumes n: "names_fit ident cs" and g: "st_grants (store tbl) = []" "\<not> st_fault (store tbl)"
  shows "\<exists>tbl'. sdb_initwithoutcolumns existing ident (length cs) SDB_SK_RAM tbl = Returned (SDB_EOK, tbl') \<and>
     conf_rel (length cs) ident [] tbl'"
proof -
  let ?z = "zero_table (store tbl)"
  have z: "names_in ?z []" "st_grants (store ?z) = []" using g by (simp_all add: names_in_def zero_table_def zero_store_def)
  have "length (name_octets ([] @ [ident])) < 2 ^ 15" using n by (simp add: names_fit_def)
  from new_conf_string_ok [OF z this] obtain tbl1 where
    1: "new_conf_string ident ?z = Returned (0, tbl1)" "names_in tbl1 [ident]" "same_but_names ?z tbl1" by auto
  have f: "store tbl1 = (zero_store (store tbl))\<lparr>st_next := st_next (store tbl1)\<rparr>" "maxwrittenobjects tbl1 = 0" "bss_ctx tbl1 = None" "conf_col tbl1 = 0"
    using 1(3) by (auto simp: same_but_names_def zero_table_def)
  have g1: "st_grants (store tbl1) = []" "\<not> st_fault (store tbl1)" "nwrittenbytes (store tbl1) = 0" "nwrittenobjects (store tbl1) = 0" by (subst f(1); use g in \<open>simp add: zero_store_def\<close>)+
  define tbl2 where "tbl2 = tbl1\<lparr>columns := replicate (length cs) blank_column,
     store := (store tbl1)\<lparr>st_next := Suc (st_next (store tbl1)), st_state := SDB_ST_UNCONFIGURED, st_ncolumns := length cs\<rparr>\<rparr>"
  have g2: "st_grants (store tbl2) = []" "bss_ctx tbl2 = None" using g1 f by (simp_all add: tbl2_def)
  define st3 where "st3 = (store tbl2)\<lparr>st_next := st_next (store tbl2) + 1\<rparr>"
  obtain b where b: "bss_init sdb_bss_writer st3 (fresh_ctx sdb_bss_writer st3) = Some b" "bss_ready b"
    using bss_ready_init by blast
  have u: "sdb_untrim tbl2 = Returned (SDB_EOK, tbl2\<lparr>store := st3, bss_ctx := Some b\<rparr>)"
    using g2 b by (simp add: sdb_untrim_def reserve_granted st3_def)
  define st4 where "st4 = st3\<lparr>st_next := st_next st3 + 1, st_chunks := [\<lparr>ch_addr = st_next st3, ch_data = replicate SDB_MIN_CHUNK_SIZE 0\<rparr>],
     st_last_size := SDB_MIN_CHUNK_SIZE\<rparr>"
  have c: "first_chunk st3 = (True, st4)" using g2 by (simp add: first_chunk_def sdb_alloc_def st3_def st4_def)
  have "sdb_initwithoutcolumns existing ident (length cs) SDB_SK_RAM tbl =
      Returned (SDB_EOK, tbl2\<lparr>bss_ctx := Some b, store := st4\<lparr>st_kind := SDB_SK_RAM\<rparr>\<rparr>)"
    using n 1(1) g1 u c
    by (simp add: sdb_initwithoutcolumns_def names_fit_def SDB_NCOLUMN_INVALID_def reserve_granted Let_def tbl2_def [symmetric]
        sdb_error_defs)
  moreover have "conf_rel (length cs) ident [] (tbl2\<lparr>bss_ctx := Some b, store := st4\<lparr>st_kind := SDB_SK_RAM\<rparr>\<rparr>)"
    using n 1(2) f(2-4) b(2) g1
    by (auto simp: conf_rel_def names_fit_def columns_set_def fresh_store_def st4_def st3_def tbl2_def names_in_def zero_store_def)
  ultimately show ?thesis by blast
qed

lemma sdb_init_ok:
  assumes "names_fit ident cs" "st_grants (store tbl) = []" "\<not> st_fault (store tbl)"
  shows "\<exists>tbl'. sdb_init env existing ident SDB_SK_RAM cs tbl = Returned (SDB_EOK, tbl') \<and>
     table_rel (map (\<lambda>c. fst (snd c)) cs) tbl' [] \<and> named_rel ident cs tbl'"
proof -
  from initwithoutcolumns_ok [OF assms] obtain tbl1 where
    1: "sdb_initwithoutcolumns existing ident (length cs) SDB_SK_RAM tbl = Returned (SDB_EOK, tbl1)" "conf_rel (length cs) ident [] tbl1"
    by blast
  from set_columns_ok [of "[]" cs ident tbl1 env] 1(2) assms(1) obtain tbl2 where
    2: "set_columns env cs tbl1 = Returned tbl2" "table_rel (map (\<lambda>c. fst (snd c)) cs) tbl2 []" "named_rel ident cs tbl2"
    by (auto simp: names_fit_def)
  have "length cs mod 256 = length cs" using assms(1) by (simp add: names_fit_def)
  with 1(1) 2 table_rel_state(1) [OF 2(2)] show ?thesis by (simp add: sdb_init_def)
qed

section \<open>Names and numbers of columns\<close>

definition plain_name :: "bytes \<Rightarrow> bool" where
  "plain_name s \<longleftrightarrow> 0 \<notin> set s"

lemma cstr_plain: "plain_name s \<Longrightarrow> cstr (s @ 0 # rest) = s"
  unfolding cstr_def plain_name_def by (induction s) auto

lemma string_at_name:
  assumes "plain_name s"
  shows "string_at (Some (name_octets (ns @ s # ms))) (int (length (name_octets ns))) k = k s"
  using cstr_plain [OF assms, of "name_octets ms"] by (simp add: string_at_def)

lemma column_name_at:
  assumes n: "named_rel ident cs tbl" and j: "j < length cs" and p: "plain_name (fst (cs ! j))"
  shows "string_at (conf_strings tbl) (label_offset (columns tbl ! j)) k = k (fst (cs ! j))"
proof -
  have "cs = take j cs @ cs ! j # drop (Suc j) cs" using j by (rule id_take_nth_drop)
  then have "ident # map fst cs = (ident # map fst (take j cs)) @ fst (cs ! j) # map fst (drop (Suc j) cs)"
    by (metis append_Cons list.simps(9) map_append)
  with n have s: "conf_strings tbl = Some (name_octets ((ident # map fst (take j cs)) @ fst (cs ! j) # map fst (drop (Suc j) cs)))"
    by (simp only: named_rel_def)
  have "label_offset (columns tbl ! j) = int (length (name_octets (ident # map fst (take j cs))))"
    using n j by (simp add: named_rel_def columns_set_def column_set_def label_at_def)
  then show ?thesis unfolding s by (simp only: string_at_name [OF p])
qed

definition column_number :: "bytes \<Rightarrow> column_conf list \<Rightarrow> nat" where
  "column_number name cs =
     (if name \<in> fst ` set cs then length (takeWhile (\<lambda>c. fst c \<noteq> name) cs) else SDB_NCOLUMN_INVALID)"

lemma find_column_number:
  assumes n: "named_rel ident cs tbl" and p: "\<forall>c \<in> set cs. plain_name (fst c)"
  shows "i \<le> length cs \<Longrightarrow> find_column (conf_strings tbl) name i (drop i (columns tbl)) =
     Returned (if name \<in> fst ` set (drop i cs) then i + length (takeWhile (\<lambda>c. fst c \<noteq> name) (drop i cs)) else SDB_NCOLUMN_INVALID)"
proof (induction i rule: inc_induct)
  case base
  then show ?case using n by (simp add: named_rel_def)
next
  case (step i)
  then have i: "i < length cs" "i < length (columns tbl)" using n by (simp_all add: named_rel_def)
  have "plain_name (fst (cs ! i))" using p i by simp
  note a = column_name_at [OF n i(1) this]
  note d = Cons_nth_drop_Suc [OF i(2), symmetric] and e = Cons_nth_drop_Suc [OF i(1), symmetric]
  show ?case unfolding d e using step.IH by (auto simp: a)
qed

text \<open>
  C29: a table that was initialised with memory granted gives for every column the name it was
  configured with, and for every name the number of the first column of that name, or the
  invalid number when there is none.
\<close>

theorem sdb_column_names:
  assumes "names_fit ident cs" "list_all (\<lambda>c. plain_name (fst c)) cs" "st_grants (store tbl) = []" "\<not> st_fault (store tbl)"
  shows "\<exists>tbl'. sdb_init env existing ident SDB_SK_RAM cs tbl = Returned (SDB_EOK, tbl') \<and>
     (\<forall>j. j < length cs \<longrightarrow> sdb_getcolname tbl' j = Returned (Some (fst (cs ! j)))) \<and>
     (\<forall>name. sdb_getcolnum tbl' name = Returned (column_number name cs))"
proof -
  from sdb_init_ok [OF assms(1,3,4)] obtain tbl' where
    t: "sdb_init env existing ident SDB_SK_RAM cs tbl = Returned (SDB_EOK, tbl')" "table_rel (map (\<lambda>c. fst (snd c)) cs) tbl' []"
      "named_rel ident cs tbl'" by blast
  have p: "\<forall>c \<in> set cs. plain_name (fst c)" using assms(2) by (simp add: list_all_iff)
  have c: "configured tbl'" "length (columns tbl') = length cs"
    using table_rel_state(1) [OF t(2)] t(3) by (simp_all add: configured_def named_rel_def)
  have "sdb_getcolname tbl' j = Returned (Some (fst (cs ! j)))" if "j < length cs" for j
    using c that p column_name_at [OF t(3) that] by (simp add: sdb_getcolname_def)
  moreover have "sdb_getcolnum tbl' name = Returned (column_number name cs)" for name
    using c find_column_number [OF t(3) p, of 0 name] by (simp add: sdb_getcolnum_def column_number_def)
  ultimately show ?thesis using t(1) by blast
qed

definition sample_columns :: "column_conf list" where
  "sample_columns = [([0x74], SDB_SM_LIST, 0), ([0x76], SDB_SM_SMALLEST, 0)]"

definition sample_blank :: sdb_table_t where
  "sample_blank = zero_table \<lparr>st_state = SDB_ST_BROKEN, st_ncolumns = 0, st_kind = SDB_SK_RAM, st_chunks = [],
     st_last_size = 0, st_file = None, nwrittenbytes = 0, nwrittenobjects = 0, st_grants = [], st_next = 0, st_fault = False\<rparr>"

lemma sample_table:
  "names_fit [0x78] sample_columns" "list_all (\<lambda>c. plain_name (fst c)) sample_columns"
  "st_grants (store sample_blank) = []" "\<not> st_fault (store sample_blank)"
  by (simp_all add: names_fit_def sample_columns_def plain_name_def sample_blank_def zero_table_def zero_store_def)

theorem sdb_column_names_witness:
  "\<exists>tbl'. sdb_init sample_env [] [0x78] SDB_SK_RAM sample_columns sample_blank = Returned (SDB_EOK, tbl') \<and>
     sdb_getcolname tbl' 1 = Returned (Some [0x76]) \<and> sdb_getcolnum tbl' [0x76] = Returned 1 \<and>
     sdb_getcolnum tbl' [0x77] = Returned SDB_NCOLUMN_INVALID"
proof -
  from sdb_column_names [OF sample_table, of sample_env "[]"] obtain tbl' where
    t: "sdb_init sample_env [] [0x78] SDB_SK_RAM sample_columns sample_blank = Returned (SDB_EOK, tbl')"
      "\<forall>j. j < length sample_columns \<longrightarrow> sdb_getcolname tbl' j = Returned (Some (fst (sample_columns ! j)))"
      "\<forall>name. sdb_getcolnum tbl' name = Returned (column_number name sample_columns)" by blast
  moreover have "sdb_getcolname tbl' 1 = Returned (Some [0x76])" using t(2) [rule_format, of 1] by (simp add: sample_columns_def)
  ultimately show ?thesis by (auto simp: sample_columns_def column_number_def)
qed

end
