(* ===== verification/Sdb_Roundtrip.thy ===== *)
theory Sdb_Roundtrip
  imports Sdb_Names
begin

text \<open>
  What was written into a table is read back: the reader gives the cells of the table in the
  order in which they were written.
\<close>

section \<open>Where the cells are\<close>

definition octets_of :: "token list \<Rightarrow> bytes" where
  "octets_of ts = concat (map cell_octets ts)"

lemma octets_of_simps [simp]:
  "octets_of [] = []" "octets_of (t # ts) = cell_octets t @ octets_of ts" "octets_of (ts @ us) = octets_of ts @ octets_of us"
  by (simp_all add: octets_of_def)

text \<open>The cells \<open>ts\<close> follow at \<open>off\<close>, up to the last octet that was written.\<close>

definition cells_at :: "sdb_store \<Rightarrow> nat \<Rightarrow> token list \<Rightarrow> bool" where
  "cells_at st off ts \<longleftrightarrow> list_all cell_ok ts \<and> off \<le> nwrittenbytes st \<and> drop off (chain_octets st) = octets_of ts"

lemma cells_at_Cons:
  assumes ok: "ram_ok st" and c: "cells_at st off (t # ts)"
  shows "cell_at st off t" "cells_at st (off + length (cell_octets t)) ts"
proof -
  note m = chain_memory [OF ok]
  have d: "drop off (chain_octets st) = cell_octets t @ octets_of ts" "off \<le> nwrittenbytes st" using c by (simp_all add: cells_at_def)
  then have "length (chain_octets st) - off = length (cell_octets t) + length (octets_of ts)" by (metis length_append length_drop)
  then have n: "off + length (cell_octets t) \<le> nwrittenbytes st" using m(2) d(2) by linarith
  have "take (length (cell_octets t)) (drop off (take (nwrittenbytes st) (memory st))) = cell_octets t"
    using d(1) unfolding m(1) by simp
  then have "take (length (cell_octets t)) (drop off (memory st)) = cell_octets t"
    using n by (simp add: drop_take min_absorb1 le_diff_conv2 d(2) add.commute)
  with c n show "cell_at st off t" by (simp add: cells_at_def cell_at_def)
  have "drop (off + length (cell_octets t)) (chain_octets st) = drop (length (cell_octets t)) (drop off (chain_octets st))"
    by (simp add: add.commute)
  with c n d show "cells_at st (off + length (cell_octets t)) ts" by (simp add: cells_at_def)
qed

lemma table_cells_at: "table_rel ms tbl ts \<Longrightarrow> cells_at (store tbl) 0 ts"
  by (simp add: table_rel_def cells_at_def octets_of_def)

section \<open>Reading all of them\<close>

fun read_cells :: "bsd_env \<Rightarrow> nat \<Rightarrow> sdb_store \<Rightarrow> sdb_read_ctx_t \<Rightarrow> bsd_data_t \<Rightarrow> (event option list \<times> sdb_read_ctx_t) option" where
  "read_cells env 0 st ctx x = Some ([], ctx)"
| "read_cells env (Suc n) st ctx x =
     (case sdb_read_data env st ctx x False of
        Returned (r, st, ctx, x) \<Rightarrow>
          if r \<le> 0 then None
          else map_option (\<lambda>(es, ctx). (event_of x # es, ctx)) (read_cells env n st ctx x)
      | _ \<Rightarrow> None)"

lemma read_cells_at:
  assumes "env_host env = TLITTLE_ENDIAN" "env_malloc env" "readable st" "cells_at st off ts" "positioned off ctx"
  shows "\<exists>ctx'. read_cells env (length ts) st ctx x = Some (map (\<lambda>t. Some (cell_event t)) ts, ctx') \<and>
     positioned (off + length (octets_of ts)) ctx' \<and> nreadobjects ctx' = nreadobjects ctx + length ts"
  using assms
proof (induction ts arbitrary: off ctx x)
  case (Cons t ts)
  have ok: "ram_ok st" using Cons.prems by (simp add: readable_def)
  note c = cells_at_Cons [OF ok Cons.prems(4)]
  from read_cell [OF Cons.prems(1-3) c(1) Cons.prems(5), of False x] obtain ctx' x' where
    r: "sdb_read_data env st ctx x False = Returned (int (length (cell_octets t)), st, ctx', x')"
      "positioned (off + length (cell_octets t)) ctx'" "nreadobjects ctx' = nreadobjects ctx + 1" "event_of x' = Some (cell_event t)"
    using Cons.prems(5) by (auto simp: cell_read_def positioned_def)
  from Cons.IH [OF Cons.prems(1-3) c(2) r(2), of x'] r cell_at_bounds [OF c(1)] show ?case
    by (auto simp: add.assoc)
qed simp

lemma read_init_positioned:
  assumes "ram_ok st" "length (d_stack (rd_bsd ctx0)) = 16"
  shows "\<exists>ctx. sdb_read_init env st ctx0 = Returned (st, ctx) \<and> positioned 0 ctx \<and> nreadobjects ctx = 0"
  using assms
  by (auto simp: sdb_read_init_def ram_ok_def Let_def positioned_def chunk_at_def top_reader_def bsd_init_def
      bsd_topframe_def frame_rel_def top_frame_def)

text \<open>
  A table whose cells end neither in the first two nor in the last two octets of a chunk can be
  read to its end.
\<close>

definition ends_readable :: "token list \<Rightarrow> bool" where
  "ends_readable ts \<longleftrightarrow>
     2 \<le> length (octets_of ts) mod SDB_CHUNK_SIZE \<and> length (octets_of ts) mod SDB_CHUNK_SIZE + 3 \<le> SDB_CHUNK_SIZE"

lemma table_octets: "table_rel ms tbl ts \<Longrightarrow> nwrittenbytes (store tbl) = length (octets_of ts)"
  using chain_memory(2) [OF table_rel_state(7), of ms tbl ts] by (simp add: table_rel_def octets_of_def)

lemma table_readable:
  assumes "table_rel ms tbl ts" "ends_readable ts"
  shows "readable (store tbl)"
proof -
  have "nwrittenbytes (store tbl) mod SDB_CHUNK_SIZE \<le> length (last_data (store tbl))"
    using table_rel_state(7) [OF assms(1)] by (simp add: ram_ok_def)
  then show ?thesis
    using assms(2) table_rel_state(7) [OF assms(1)] unfolding table_octets [OF assms(1)] readable_def ends_readable_def by auto
qed

text \<open>A table that was initialised and worked on: the state of the calls and the cells it holds.\<close>

abbreviation methods :: "column_conf list \<Rightarrow> nat list" where
  "methods cs \<equiv> map (\<lambda>c. fst (snd c)) cs"

definition cells_after :: "column_conf list \<Rightarrow> table_op list \<Rightarrow> token list" where
  "cells_after cs as = fold (cells_do (methods cs)) as []"

lemma table_history:
  assumes "names_fit ident cs" "st_grants (store tbl) = []" "\<not> st_fault (store tbl)" "list_all (op_ok (methods cs)) as"
  obtains tbl0 tbl1 where "sdb_init env existing ident SDB_SK_RAM cs tbl = Returned (SDB_EOK, tbl0)" "named_rel ident cs tbl0"
    "table_run as tbl0 = Some tbl1" "table_rel (methods cs) tbl1 (cells_after cs as)"
  using sdb_init_ok [OF assms(1-3), of env existing] table_run_rel [OF _ assms(4)] by (metis cells_after_def)


text \<open>
  C26: what the analysis knows of a column that is to be serialized in the smallest way, after
  any such sequence of calls: whether all its cells are integers, whether all are numbers, and,
  when they are integers of less than 30 bits, the distance from the first to the last and,
  up to the sign, the greatest common divisor of all of them, or the first cell when the
  column has a fixed precision.
\<close>

theorem sdb_column_analysis:
  assumes "names_fit ident cs" "st_grants (store tbl) = []" "\<not> st_fault (store tbl)" "list_all (op_ok (methods cs)) as"
    and "j < length cs" "smallest (methods cs ! j)" "vs = column_cells (length cs) j (cells_after cs as)"
  shows "\<exists>tbl0 tbl1 c. sdb_init env existing ident SDB_SK_RAM cs tbl = Returned (SDB_EOK, tbl0) \<and>
     table_run as tbl0 = Some tbl1 \<and> columns tbl1 ! j = c \<and>
     all_integer c = list_all is_int vs \<and> all_numeric c = list_all is_number vs \<and>
     (vs \<noteq> [] \<and> list_all is_int vs \<longrightarrow>
        delta_sum c = token_int (last vs) - token_int (hd vs) \<and>
        (if has_flag (methods cs ! j) SDB_SM_FIXED_PRECISION then an_gcd c = token_int (hd vs)
         else \<bar>an_gcd c\<bar> = Gcd (token_int ` set vs)))"
proof -
  obtain tbl0 tbl1 where t: "sdb_init env existing ident SDB_SK_RAM cs tbl = Returned (SDB_EOK, tbl0)"
    "table_run as tbl0 = Some tbl1" and r: "table_rel (methods cs) tbl1 (cells_after cs as)"
    by (rule table_history [OF assms(1-4)])
  have j: "j < length (methods cs)" using assms(5) by simp
  have "analysed (columns tbl1 ! j) vs" using r j by (simp add: table_rel_def assms(7))
  with analysed_method [OF j r] assms(6) t show ?thesis by (auto simp: analysed_def)
qed

definition sample_ops :: "table_op list" where
  "sample_ops = [Op_cell (T_int 5), Op_trim, Op_cell (T_string [0x61]), Op_cell (T_int (- 300)), Op_raw T_null, Op_cell (T_bool True)]"

lemma sample_cells: "cells_after sample_columns sample_ops = [T_int 5, T_string [0x61], T_int (- 300), T_null, T_bool True]"
  by (simp add: cells_after_def sample_columns_def sample_ops_def cells_do_def stored_def)

lemma sample_octets:
  "length (cell_octets (T_int 5)) = 1" "length (cell_octets (T_string [0x61])) = 2" "length (cell_octets (T_int (- 300))) = 2"
  "length (cell_octets T_null) = 1" "length (cell_octets (T_bool True)) = 1"
  by (simp_all add: cell_octets_def enc_token_def top_frame_def getctxid_def enc_int_in_def enc_string_in_def enc_int_def enc_string_def
      BS_GLOBAL_INTEGER_def BS_GLOBAL_STRING_def null_allowed_def getNullToken_def token_defs ctxid_defs Let_def)

lemma sample_cells_ok:
  "cell_ok (T_int 5)" "cell_ok (T_string [0x61])" "cell_ok (T_int (- 300))" "cell_ok T_null" "cell_ok (T_bool True)"
  by (simp_all only: cell_ok_def sample_octets)
    (simp_all add: enc_token_def top_frame_def getctxid_def enc_int_in_def enc_string_in_def null_allowed_def ctxid_defs token_ok_def sdb_size_defs)

lemma sample_run:
  "list_all (op_ok (methods sample_columns)) sample_ops" "ends_readable (cells_after sample_columns sample_ops)"
proof -
  show "list_all (op_ok (methods sample_columns)) sample_ops"
    by (simp add: sample_ops_def sample_columns_def op_ok_def storable_def raw_storable_def stored_def small_int_def token_int_def int_ok_def
        sample_cells_ok is_number_def)
  show "ends_readable (cells_after sample_columns sample_ops)"
    unfolding sample_cells by (simp add: ends_readable_def sample_octets sdb_size_defs)
qed


theorem sdb_column_analysis_witness:
  "\<exists>tbl0 tbl1 c. sdb_init sample_env [] [0x78] SDB_SK_RAM [([0x74], SDB_SM_SMALLEST, 0)] sample_blank = Returned (SDB_EOK, tbl0) \<and>
     table_run [Op_cell (T_int 5), Op_cell (T_int (- 300))] tbl0 = Some tbl1 \<and> columns tbl1 ! 0 = c \<and>
     all_integer c \<and> delta_sum c = - 305 \<and> \<bar>an_gcd c\<bar> = 5"
proof -
  let ?cs = "[([0x74], SDB_SM_SMALLEST, 0)] :: column_conf list" and ?as = "[Op_cell (T_int 5), Op_cell (T_int (- 300))]"
  have c: "cells_after ?cs ?as = [T_int 5, T_int (- 300)]" by (simp add: cells_after_def cells_do_def stored_def)
  have v: "column_cells (length ?cs) 0 (cells_after ?cs ?as) = [T_int 5, T_int (- 300)]"
    unfolding c by (simp add: column_cells_def upt_rec)
  have "names_fit [0x78] ?cs" by (simp add: names_fit_def)
  moreover have "list_all (op_ok (methods ?cs)) ?as"
    by (simp add: op_ok_def storable_def stored_def small_int_def token_int_def int_ok_def sample_cells_ok)
  moreover have "smallest (methods ?cs ! 0)" by (simp add: sdb_method_defs SDB_SM_CONTAINER_def)
  ultimately show ?thesis
    using sdb_column_analysis [of "[0x78]" ?cs sample_blank ?as 0 "[T_int 5, T_int (- 300)]" sample_env "[]"] sample_table(3,4) v
    by (auto simp: is_int_def token_int_def has_flag_def sdb_method_defs)
qed

end
