(* ===== verification/Sdb_Lists.thy ===== *)
theory Sdb_Lists
  imports Sdb_Serialize Sdb_Roundtrip
begin

text \<open>
  A table whose columns are serialized as lists arrives at the other end: what is written to the
  target, read by a deserializer, is a map from the names of the columns to the lists of their
  cells, the cells of incomplete rows left out.
\<close>

section \<open>Talking to the target\<close>

text \<open>
  The target has received what a deserializer, started in \<open>d0\<close>, reads as the events \<open>es\<close>, and
  is in step with it.
\<close>

definition talked ::
  "(bytes \<Rightarrow> 'w \<Rightarrow> int \<times> 'w) \<Rightarrow> ('w \<Rightarrow> bytes option) \<Rightarrow> bsd_env \<Rightarrow> bytes \<Rightarrow> bsd_ctx_t \<Rightarrow> event list \<Rightarrow> 'w bss_ctx_t \<Rightarrow> bool" where
  "talked wr out env base d0 es c \<longleftrightarrow>
     (\<exists>X d. idle out (base @ X) c \<and> writer c = wr \<and> codec_rel c d \<and>
        (\<forall>x rest. bsd_events env (length es) d0 x (X @ rest) = Some (es, d, rest)))"

lemma bsd_events_append:
  assumes "bsd_events env m d x buf = Some (es, d', buf')" "\<And>x. bsd_events env n d' x buf' = Some (es', d'', buf'')"
  shows "bsd_events env (m + n) d x buf = Some (es @ es', d'', buf'')"
  using assms
proof (induction m arbitrary: d x buf es)
  case (Suc m)
  from Suc.prems(1) obtain k d1 x1 e es1 where 1: "bsd_read env d x buf (int (length buf)) = Some (k, d1, x1)" "\<not> k < 0"
    "event_of x1 = Some e" "bsd_events env m d1 x1 (drop (nat k) buf) = Some (es1, d', buf')" "es = e # es1"
    by (auto split: option.splits if_splits)
  from Suc.IH [OF 1(4) Suc.prems(2)] 1 show ?case by simp
qed simp

lemma reads_back_event:
  assumes "reads_back env d X ev d'"
  shows "bsd_events env 1 d x (X @ rest) = Some ([ev], d', rest)"
proof -
  have "int (length X) \<le> int (length (X @ rest))" by simp
  with assms obtain x' where "bsd_read env d x (X @ rest) (int (length (X @ rest))) = Some (int (length X), d', x')" "event_of x' = Some ev"
    unfolding reads_back_def by blast
  then show ?thesis by simp
qed

lemma talked_moved:
  assumes t: "talked wr out env base d0 es c"
    and s: "\<And>base d. idle out base c \<Longrightarrow> writer c = wr \<Longrightarrow> codec_rel c d \<Longrightarrow> step_moved wr out base env c d ev n st res"
  shows "\<exists>c'. res = Some (BSS_EOK, c') \<and> talked wr out env base d0 (es @ [ev]) c' \<and> stacksize c' = n \<and> stack c' = st"
proof -
  from t obtain X d where 1: "idle out (base @ X) c" "writer c = wr" "codec_rel c d"
    "\<And>x rest. bsd_events env (length es) d0 x (X @ rest) = Some (es, d, rest)"
    unfolding talked_def by blast
  from s [OF 1(1-3)] obtain Y c' d' where 2: "res = Some (BSS_EOK, c')" "idle out ((base @ X) @ Y) c'" "writer c' = wr"
    "reads_back env d Y ev d'" "codec_rel c' d'" "stack c' = st" "stacksize c' = n"
    unfolding step_moved_def by blast
  have "bsd_events env (length (es @ [ev])) d0 x ((X @ Y) @ rest) = Some (es @ [ev], d', rest)" for x rest
    using bsd_events_append [OF 1(4) [of x "Y @ rest"], of 1 "[ev]" d' rest] reads_back_event [OF 2(4)] by simp
  with 2 show ?thesis unfolding talked_def by (metis append.assoc)
qed

text \<open>A target that takes everything, and a reader of the same byte order.\<close>

definition hears :: "(bytes \<Rightarrow> 'w \<Rightarrow> int \<times> 'w) \<Rightarrow> ('w \<Rightarrow> bytes option) \<Rightarrow> bsd_env \<Rightarrow> bool" where
  "hears wr out env \<longleftrightarrow> stream_writer wr out \<and> accepting wr \<and> le_env env"

lemma talk_call:
  assumes h: "hears wr out env" and t: "talked wr out env base d0 es c" and ok: "call_ok c cl"
  shows "\<exists>c'. bss_call TLITTLE_ENDIAN cl c = Some (BSS_EOK, c') \<and> talked wr out env base d0 (es @ [call_event c cl]) c' \<and>
     stacksize c' = fst (call_stack c cl) \<and> stack c' = snd (call_stack c cl)"
  using h ok unfolding hears_def
  by (intro talked_moved [OF t]) (blast intro: call_step [unfolded step_matched_def])

lemma cell_in_global:
  assumes ok: "cell_ok t" and f: "getctxid f = Some BS_CTXID_GLOBAL" "null_allowed f" "kind f \<noteq> BS_FCHUNKED"
  shows "enc_token TLITTLE_ENDIAN f t = Some (cell_octets t)" "token_ok f t" "token_event f t = cell_event t"
proof -
  have top: "null_allowed top_frame" "ctxid top_frame \<noteq> BS_CTXID_CHUNKED"
    by (simp_all add: null_allowed_def top_frame_def ctxid_defs)
  note d = cell_ok_def cell_octets_def enc_token_def token_ok_def token_event_def top_frame_ctxid f top
  show "enc_token TLITTLE_ENDIAN f t = Some (cell_octets t)" using ok by (cases t) (auto simp: d)
  show "token_ok f t" using ok by (cases t) (simp_all add: d)
  show "token_event f t = cell_event t" by (cases t) (simp_all add: d)
qed

lemma talk_raw:
  assumes h: "hears wr out env" and t: "talked wr out env base d0 es c" and ok: "cell_ok t"
    and f: "countable_frame (topframe c)" "getctxid (topframe c) = Some BS_CTXID_GLOBAL" "null_allowed (topframe c)"
      "kind (topframe c) \<noteq> BS_FCHUNKED"
  shows "\<exists>c'. bss_raw (cell_octets t) c = Some (BSS_EOK, c') \<and> talked wr out env base d0 (es @ [cell_event t]) c' \<and>
     stacksize c' = stacksize c \<and> stack c' = (stack c)[stacksize c := counted (topframe c)]"
proof (rule talked_moved [OF t])
  fix base d assume i: "idle out base c" "writer c = wr" "codec_rel c d"
  have sw: "stream_writer wr out" "accepting wr" "le_env env" using h by (simp_all add: hears_def)
  have top: "frame_rel (topframe c) (bsd_topframe d)" using codec_top(1) [OF i(3)] .
  note X = cell_in_global [OF ok f(2-4)]
  have "enc_token TLITTLE_ENDIAN (topframe c) (T_raw (cell_octets t)) = Some (cell_octets t)" using f(2) by (simp add: enc_token_def)
  from stream_writer.bss_token_writes [OF sw(1) this]
  have W: "writes_as wr out (topframe c) (bss_raw (cell_octets t)) (cell_octets t)" by (simp add: bss_token_def)
  have dec: "decodes (decode_in env BS_CTXID_GLOBAL) d (cell_octets t) (cell_event t) d"
    using decode_token [OF sw(3) X(1,2) top f(1,2)] X(3) by simp
  show "step_moved wr out base env c d (cell_event t) (stacksize c) ((stack c)[stacksize c := counted (topframe c)])
      (bss_raw (cell_octets t) c)"
    by (rule stream_writer.octets_step [OF sw(1,2) i(2,1,3) f(1,2) W dec])
qed

section \<open>The frames of the target\<close>

definition is_zmap :: "int \<Rightarrow> stackframe \<Rightarrow> bool" where
  "is_zmap e f \<longleftrightarrow> kind f = BS_FZMAP \<and> ctxid f = BS_CTXID_GLOBAL \<and> content f = C_map e"

definition is_list :: "int \<Rightarrow> stackframe \<Rightarrow> bool" where
  "is_list m f \<longleftrightarrow> kind f = BS_FLIST \<and> ctxid f = BS_CTXID_GLOBAL \<and> missing f = m"

text \<open>Inside of the map, in front of a name or of a value; inside of a list that misses \<open>m\<close> cells.\<close>

definition in_map :: "nat \<Rightarrow> int \<Rightarrow> 'w bss_ctx_t \<Rightarrow> bool" where
  "in_map n e c \<longleftrightarrow> stacksize c = Suc n \<and> is_zmap e (topframe c)"

definition in_list :: "nat \<Rightarrow> int \<Rightarrow> 'w bss_ctx_t \<Rightarrow> bool" where
  "in_list n m c \<longleftrightarrow> stacksize c = Suc (Suc n) \<and> is_zmap 0 (stack c ! Suc n) \<and> is_list m (topframe c)"

lemma talked_stack: "talked wr out env base d0 es c \<Longrightarrow> length (stack c) = 16 \<and> stacksize c < 16"
  unfolding talked_def using codec_top(5,7) by blast

lemma talk_name:
  assumes h: "hears wr out env" and t: "talked wr out env base d0 es c" and c: "in_map n 1 c" and s: "length s \<le> 66592"
  shows "\<exists>c'. bss_lstring s c = Some (BSS_EOK, c') \<and> talked wr out env base d0 (es @ [E_string s]) c' \<and> in_map n 0 c'"
proof -
  have "call_ok c (Call_value (T_string s))"
    using c s by (auto simp: call_ok_def Let_def in_map_def is_zmap_def countable_frame_def fixed_frame_def enc_token_def
        getctxid_def enc_string_in_def token_ok_def ctxid_defs)
  from talk_call [OF h t this] talked_stack [OF t] c show ?thesis
    by (auto simp: bss_call_def bss_token_def call_event_def token_event_def call_stack_def Let_def in_map_def is_zmap_def
        topframe_def counted_def flipped_def)
qed

lemma talk_list:
  assumes h: "hears wr out env" and t: "talked wr out env base d0 es c" and c: "in_map n 0 c" and n: "n < 14"
    and len: "0 \<le> len" "len < 2 ^ 30"
  shows "\<exists>c'. bss_list len BS_CTXID_GLOBAL c = Some (BSS_EOK, c') \<and> talked wr out env base d0 (es @ [E_list len]) c' \<and> in_list n len c'"
proof -
  have k: "getctxid (topframe c) = Some BS_CTXID_GLOBAL" using c by (simp add: in_map_def is_zmap_def getctxid_def)
  have "call_ok c (Call_list len BS_CTXID_GLOBAL)"
    using c n len k by (auto simp: call_ok_def Let_def in_map_def is_zmap_def countable_frame_def fixed_frame_def ctxid_defs)
  from talk_call [OF h t this] talked_stack [OF t] c n len k show ?thesis
    by (auto simp: bss_call_def call_event_def list_event_def call_stack_def Let_def in_map_def in_list_def is_zmap_def is_list_def
        topframe_def list_enc_for_def list_frame_def coll_kind_def BS_GLOBAL_LIST_def)
qed

lemma talk_cell:
  assumes h: "hears wr out env" and t: "talked wr out env base d0 es c" and ok: "cell_ok t" and c: "in_list n m c" and m: "m \<noteq> 0"
  shows "\<exists>c'. bss_raw (cell_octets t) c = Some (BSS_EOK, c') \<and> talked wr out env base d0 (es @ [cell_event t]) c' \<and> in_list n (m - 1) c'"
proof -
  have "countable_frame (topframe c)" "getctxid (topframe c) = Some BS_CTXID_GLOBAL" "null_allowed (topframe c)"
      "kind (topframe c) \<noteq> BS_FCHUNKED"
    using c m by (auto simp: in_list_def is_list_def countable_frame_def fixed_frame_def getctxid_def null_allowed_def)
  from talk_raw [OF h t ok this] talked_stack [OF t] c show ?thesis
    by (auto simp: in_list_def is_list_def topframe_def counted_def)
qed

lemma talk_list_close:
  assumes h: "hears wr out env" and t: "talked wr out env base d0 es c" and c: "in_list n 0 c"
  shows "\<exists>c'. bss_close c = Some (BSS_EOK, c') \<and> talked wr out env base d0 (es @ [E_close BSD_LIST]) c' \<and> in_map n 1 c'"
proof -
  have "call_ok c Call_close" using c by (simp add: call_ok_def Let_def in_list_def is_list_def closing_token_def)
  from talk_call [OF h t this] talked_stack [OF t] c show ?thesis
    by (auto simp: bss_call_def call_event_def call_stack_def Let_def in_map_def in_list_def is_zmap_def is_list_def
        topframe_def counted_def flipped_def bsd_typeFromFrameKind_def)
qed

lemma talk_map_close:
  assumes h: "hears wr out env" and t: "talked wr out env base d0 es c" and c: "in_map n 1 c"
  shows "\<exists>c'. bss_close c = Some (BSS_EOK, c') \<and> talked wr out env base d0 (es @ [E_close BSD_ZMAP]) c'"
proof -
  have "call_ok c Call_close" using c by (simp add: call_ok_def Let_def in_map_def is_zmap_def closing_token_def)
  from talk_call [OF h t this] c show ?thesis
    by (auto simp: bss_call_def call_event_def in_map_def is_zmap_def bsd_typeFromFrameKind_def)
qed

lemma talk_map:
  assumes h: "hears wr out env" and t: "talked wr out env base d0 es c" and ok: "call_ok c (Call_map (- 1) BS_CTXID_GLOBAL)"
  shows "\<exists>c'. bss_map (- 1) BS_CTXID_GLOBAL c = Some (BSS_EOK, c') \<and> talked wr out env base d0 (es @ [E_zmap]) c' \<and>
     in_map (stacksize c) 1 c'"
proof -
  have "stacksize c < 15" using ok by (simp add: call_ok_def Let_def)
  with talk_call [OF h t ok] talked_stack [OF t] ok show ?thesis
    by (auto simp: bss_call_def call_event_def map_event_def call_stack_def Let_def in_map_def is_zmap_def call_ok_def
        topframe_def map_enc_for_def map_frame_def coll_kind_def BS_GLOBAL_MAP_def BS_LISTMAP_MAP_def ctxid_defs split: if_splits)
qed

section \<open>The cells of a column\<close>

lemma column_count:
  assumes "j < n"
  shows "length (filter (\<lambda>k. k mod n = j) [0..<i]) = i div n + (if j < i mod n then 1 else 0)"
proof (induction i)
  case (Suc i)
  have m: "i mod n < n" using assms by simp
  show ?case
  proof (cases "Suc (i mod n) = n")
    case True
    then have "Suc i mod n = 0" "Suc i div n = Suc (i div n)" by (simp_all add: mod_Suc div_Suc)
    with Suc True assms m show ?thesis by (auto simp: less_Suc_eq)
  next
    case False
    then have "Suc i mod n = Suc (i mod n)" "Suc i div n = i div n" by (simp_all add: mod_Suc div_Suc)
    with Suc assms m show ?thesis by (auto simp: less_Suc_eq)
  qed
qed simp

lemma column_cells_length:
  assumes "j < n" "i \<le> length ts"
  shows "length (column_cells n j (take i ts)) = i div n + (if j < i mod n then 1 else 0)"
  using column_count [OF assms(1), of i] assms(2) by (simp add: column_cells_def min_absorb2)

lemma column_cells_take:
  assumes "i < length ts"
  shows "column_cells n j (take (Suc i) ts) = column_cells n j (take i ts) @ (if i mod n = j then [ts ! i] else [])"
  using column_cells_snoc [of n j "take i ts" "ts ! i"] assms by (simp add: take_Suc_conv_app_nth min_absorb2)

text \<open>The cells of the complete rows.\<close>

definition column_values :: "nat \<Rightarrow> nat \<Rightarrow> token list \<Rightarrow> token list" where
  "column_values n j ts = column_cells n j (take (length ts div n * n) ts)"

section \<open>The job\<close>

definition job :: "sdb_table_t \<Rightarrow> sdb_serialization_ctx_t \<Rightarrow> 'w bss_ctx_t \<Rightarrow> 'w sdb_job" where
  "job tbl ctx c = \<lparr>job_table = tbl\<lparr>serialization_ctx := Some ctx\<rparr>, job_bss = c\<rparr>"

lemma job_simps [simp]:
  "job_ctx (job tbl ctx c) = ctx" "set_ctx ctx' (job tbl ctx c) = job tbl ctx' c"
  "set_stage s (job tbl ctx c) = job tbl (ctx\<lparr>ser_stage := s\<rparr>) c" "job_bss (job tbl ctx c) = c"
  "store (job_table (job tbl ctx c)) = store tbl" "columns (job_table (job tbl ctx c)) = columns tbl"
  "conf_strings (job_table (job tbl ctx c)) = conf_strings tbl"
  "job_column (job tbl ctx c) = columns tbl ! current_column ctx"
  "nrows (job_table (job tbl ctx c)) = nrows tbl" "nobjectstoread (job_table (job tbl ctx c)) = nobjectstoread tbl"
  "(job tbl ctx c)\<lparr>job_table := (job_table (job tbl ctx c))\<lparr>store := store tbl\<rparr>\<rparr> = job tbl ctx c"
  by (simp_all add: job_def job_ctx_def set_ctx_def set_stage_def job_column_def nrows_def nobjectstoread_def)

lemma ser_ctx_order [simp]: "ctx\<lparr>ser_stage := s, ser_read_ctx := r\<rparr> = ctx\<lparr>ser_read_ctx := r, ser_stage := s\<rparr>"
  for ctx :: sdb_serialization_ctx_t
  by (cases ctx) simp

lemma table_order: "tbl\<lparr>serialization_ctx := x, store := st\<rparr> = tbl\<lparr>store := st, serialization_ctx := x\<rparr>"
  for tbl :: sdb_table_t
  by (cases tbl) simp

lemma call_bss_job:
  "bssop c = Some (r, c') \<Longrightarrow> call_bss bssop (job tbl ctx c) = Returned (r, job tbl ctx c')"
  by (simp add: call_bss_def job_def)

lemma job_close:
  "(job tbl ctx c)\<lparr>job_table := serialize_close (job_table (job tbl ctx c))\<rparr> = \<lparr>job_table = tbl\<lparr>serialization_ctx := None\<rparr>, job_bss = c\<rparr>"
  by (simp add: job_def serialize_close_def)

text \<open>The table as its readers see it.\<close>

definition serves :: "bsd_env \<Rightarrow> nat \<Rightarrow> token list \<Rightarrow> sdb_table_t \<Rightarrow> bool" where
  "serves env n ts tbl \<longleftrightarrow> env_host env = TLITTLE_ENDIAN \<and> env_malloc env \<and> readable (store tbl) \<and>
     cells_at (store tbl) 0 ts \<and> 0 < n \<and> ncolumns tbl = n \<and> nwrittenobjects (store tbl) = length ts"

lemma serves_nth:
  assumes "serves env n ts tbl" "i < length ts"
  shows "cell_at (store tbl) (length (octets_of (take i ts))) (ts ! i)"
proof -
  have ok: "ram_ok (store tbl)" and c: "cells_at (store tbl) 0 ts" using assms(1) by (simp_all add: serves_def readable_def)
  have o: "octets_of ts = octets_of (take i ts) @ octets_of (drop i ts)" by (metis append_take_drop_id octets_of_simps(3))
  have "length (chain_octets (store tbl)) = nwrittenbytes (store tbl)" "chain_octets (store tbl) = octets_of ts"
    using chain_memory(2) [OF ok] c by (simp_all add: cells_at_def)
  then have "cells_at (store tbl) (length (octets_of (take i ts))) (drop i ts)"
    using c by (auto simp: cells_at_def o list_all_iff dest: in_set_dropD)
  then have "cells_at (store tbl) (length (octets_of (take i ts))) (ts ! i # drop (Suc i) ts)"
    by (simp add: Cons_nth_drop_Suc assms(2))
  then show ?thesis by (rule cells_at_Cons(1) [OF ok])
qed

lemma serves_read:
  assumes s: "serves env n ts tbl" and i: "i < length ts" and p: "positioned (length (octets_of (take i ts))) rctx" "nreadobjects rctx = i"
  shows "\<exists>rctx' x'. sdb_read_data env (store tbl) rctx x skip = Returned (int (length (cell_octets (ts ! i))), store tbl, rctx', x') \<and>
     positioned (length (octets_of (take (Suc i) ts))) rctx' \<and> nreadobjects rctx' = Suc i \<and>
     (\<not> skip \<longrightarrow> rd_bytes rctx' = Some (cell_octets (ts ! i)))"
proof -
  have "cell_read (ts ! i) (store tbl) rctx skip (sdb_read_data env (store tbl) rctx x skip)"
    using s p by (intro read_cell [OF _ _ _ serves_nth [OF s i]]) (simp_all add: serves_def)
  moreover have "nreadbytes rctx = length (octets_of (take i ts))" using p by (simp add: positioned_def)
  ultimately show ?thesis using i p by (auto simp: cell_read_def take_Suc_conv_app_nth)
qed

section \<open>A column as a list\<close>

definition list_state ::
  "(bytes \<Rightarrow> 'w \<Rightarrow> int \<times> 'w) \<Rightarrow> ('w \<Rightarrow> bytes option) \<Rightarrow> bsd_env \<Rightarrow> bytes \<Rightarrow> bsd_ctx_t \<Rightarrow> event list \<Rightarrow> nat \<Rightarrow> nat \<Rightarrow>
   token list \<Rightarrow> sdb_table_t \<Rightarrow> sdb_serialization_ctx_t \<Rightarrow> nat \<Rightarrow> 'w sdb_job \<Rightarrow> bool" where
  "list_state wr out env base d0 es k n ts tbl ctx i j \<longleftrightarrow>
     (\<exists>rctx s c. let vs = column_cells n (current_column ctx) (take i ts) in
        j = job tbl (ctx\<lparr>ser_read_ctx := rctx, ser_stage := s\<rparr>) c \<and>
        positioned (length (octets_of (take i ts))) rctx \<and> nreadobjects rctx = i \<and>
        talked wr out env base d0 (es @ map cell_event vs) c \<and> in_list k (int (length ts div n) - int (length vs)) c)"

lemma column_list_step:
  assumes h: "hears wr out env" and s: "serves env n ts tbl" and col: "current_column ctx < n" and i: "i < length ts div n * n"
    and st: "list_state wr out env base d0 es k n ts tbl ctx i j"
  shows "cells_left j \<and> (\<exists>j'. cell_step env list_cell j = Returned (None, j') \<and> list_state wr out env base d0 es k n ts tbl ctx (Suc i) j')"
proof -
  define vs where "vs = column_cells n (current_column ctx) (take i ts)"
  from st obtain rctx sg c where j: "j = job tbl (ctx\<lparr>ser_read_ctx := rctx, ser_stage := sg\<rparr>) c"
    and p: "positioned (length (octets_of (take i ts))) rctx" "nreadobjects rctx = i"
    and t: "talked wr out env base d0 (es @ map cell_event vs) c" "in_list k (int (length ts div n) - int (length vs)) c"
    unfolding list_state_def vs_def Let_def by blast
  have n: "ncolumns tbl = n" "nwrittenobjects (store tbl) = length ts" "0 < n" using s by (simp_all add: serves_def)
  have l: "i < length ts" using i by (metis div_times_less_eq_dividend order_less_le_trans)
  have left: "cells_left j" using p i n by (simp add: cells_left_def j nobjectstoread_def nrows_def)
  let ?t = "ts ! i" and ?in = "i mod n = current_column ctx"
  from serves_read [OF s l p, of blank_data "\<not> ?in"] obtain rctx' x' where
    r: "sdb_read_data env (store tbl) rctx blank_data (\<not> ?in) = Returned (int (length (cell_octets ?t)), store tbl, rctx', x')"
    "positioned (length (octets_of (take (Suc i) ts))) rctx'" "nreadobjects rctx' = Suc i" "?in \<Longrightarrow> rd_bytes rctx' = Some (cell_octets ?t)"
    by blast
  have ok: "cell_ok ?t" using cell_at_bounds(1) [OF serves_nth [OF s l]] .
  show ?thesis
  proof (cases ?in)
    case False
    have "cell_step env list_cell j = Returned (None, job tbl (ctx\<lparr>ser_read_ctx := rctx', ser_stage := sg\<rparr>) c)"
      using False r p n by (simp add: cell_step_def j Let_def)
    moreover have "column_cells n (current_column ctx) (take (Suc i) ts) = vs" using False by (simp add: vs_def column_cells_take [OF l])
    ultimately show ?thesis using left r t unfolding list_state_def Let_def by fastforce
  next
    case True
    have "length vs = i div n" using column_cells_length [OF col, of i ts] l True by (simp add: vs_def)
    moreover have "i div n < length ts div n" using i n(3) by (simp add: less_mult_imp_div_less)
    ultimately have m: "int (length ts div n) - int (length vs) \<noteq> 0" by simp
    from talk_cell [OF h t(1) ok t(2) m] obtain c' where c': "bss_raw (cell_octets ?t) c = Some (BSS_EOK, c')"
      "talked wr out env base d0 ((es @ map cell_event vs) @ [cell_event ?t]) c'" "in_list k (int (length ts div n) - int (length vs) - 1) c'"
      by blast
    have "cell_step env list_cell j =
        Returned (None, job tbl (ctx\<lparr>ser_read_ctx := rctx', ser_stage := SDB_SS_COLUMN_SENDING_CELLS\<rparr>) c')"
      using True r p n c'(1)
      by (simp add: cell_step_def j Let_def returning_def list_cell_def TRYS_def call_bss_job sdb_done_def)
    moreover have "column_cells n (current_column ctx) (take (Suc i) ts) = vs @ [?t]" using True by (simp add: vs_def column_cells_take [OF l])
    ultimately show ?thesis using left r c' unfolding list_state_def Let_def by (fastforce simp: algebra_simps)
  qed
qed

definition reader_ok :: "sdb_serialization_ctx_t \<Rightarrow> bool" where
  "reader_ok ctx \<longleftrightarrow> length (d_stack (rd_bsd (ser_read_ctx ctx))) = 16"

lemma list_cells_loop:
  assumes h: "hears wr out env" and s: "serves env n ts tbl" and col: "current_column ctx < n"
    and p: "positioned 0 (ser_read_ctx ctx)" "nreadobjects (ser_read_ctx ctx) = 0"
    and t: "talked wr out env base d0 es c" "in_list k (int (length ts div n)) c"
  shows "\<exists>rctx c'. cells_loop env list_cell K (job tbl ctx c) =
       K (job tbl (ctx\<lparr>ser_read_ctx := rctx, ser_stage := SDB_SS_COLUMN_CONTENT_SENT\<rparr>) c') \<and>
     talked wr out env base d0 (es @ map cell_event (column_values n (current_column ctx) ts)) c' \<and> in_list k 0 c' \<and>
     length (d_stack (rd_bsd rctx)) = 16"
proof -
  let ?I = "list_state wr out env base d0 es k n ts tbl ctx" and ?N = "length ts div n * n"
  have n: "0 < n" "ncolumns tbl = n" "nwrittenobjects (store tbl) = length ts" using s by (simp_all add: serves_def)
  have start: "?I 0 (job tbl ctx c)"
    unfolding list_state_def Let_def using p t by (intro exI [of _ "ser_read_ctx ctx"] exI [of _ "ser_stage ctx"] exI [of _ c]) simp
  have stop: "\<not> cells_left j" if "?I ?N j" for j
    using that n by (auto simp: list_state_def Let_def cells_left_def nobjectstoread_def nrows_def)
  from while_ret_rounds [of ?N ?I cells_left "cell_step env list_cell", OF column_list_step [OF h s col] stop start]
  obtain j' where j': "while_ret cells_left (cell_step env list_cell) (job tbl ctx c) = Returned (None, j')" "?I ?N j'" by auto
  from j'(2) obtain rctx sg c' where f: "j' = job tbl (ctx\<lparr>ser_read_ctx := rctx, ser_stage := sg\<rparr>) c'"
    "positioned (length (octets_of (take ?N ts))) rctx"
    "talked wr out env base d0 (es @ map cell_event (column_values n (current_column ctx) ts)) c'"
    "in_list k (int (length ts div n) - int (length (column_values n (current_column ctx) ts))) c'"
    unfolding list_state_def column_values_def Let_def by blast
  have "length (column_values n (current_column ctx) ts) = length ts div n"
    using column_cells_length [OF col, of ?N ts] n by (simp add: column_values_def)
  with f j'(1) show ?thesis by (auto simp: cells_loop_def positioned_def top_reader_def)
qed

definition column_events :: "bytes \<Rightarrow> token list \<Rightarrow> event list" where
  "column_events name vs = [E_string name, E_list (int (length vs))] @ map cell_event vs @ [E_close BSD_LIST]"

definition list_column :: "sdb_column_t \<Rightarrow> bool" where
  "list_column c \<longleftrightarrow> column_method c = SDB_SM_LIST \<or> column_method c = SDB_SM_FASTEST"

lemma column_label_ok:
  assumes h: "hears wr out env" and s: "serves env n ts tbl" and col: "current_column ctx < n" "n < 255"
    and t: "talked wr out env base d0 es c" "in_map k 1 c" "k < 14" and rows: "length ts div n < 2 ^ 30"
    and name: "\<And>K. string_at (conf_strings tbl) (label_offset (columns tbl ! current_column ctx)) K = (K name :: 'w job_result)"
      "plain_name name" "length name \<le> 66592"
    and lst: "list_column (columns tbl ! current_column ctx)" and rd: "reader_ok ctx"
  shows "\<exists>ctx' c'. column_label env (job tbl ctx c) = Returned (BSS_EOK, job tbl ctx' (c' :: 'w bss_ctx_t)) \<and>
     current_column ctx' = Suc (current_column ctx) \<and> reader_ok ctx' \<and> ser_target ctx' = ser_target ctx \<and>
     talked wr out env base d0 (es @ column_events name (column_values n (current_column ctx) ts)) c' \<and> in_map k 1 c'"
proof -
  have "cstr name = name" unfolding cstr_def using name(2) by (intro takeWhile_eq_all_conv [THEN iffD2]) (auto simp: plain_name_def)
  then have cs: "bss_string name = (bss_lstring name :: 'w ser_op)" by (simp add: bss_string_def)
  have ram: "ram_ok (store tbl)" using s by (simp add: serves_def readable_def)
  from talk_name [OF h t(1,2) name(3)] obtain c1 where
    c1: "bss_lstring name c = Some (BSS_EOK, c1)" "talked wr out env base d0 (es @ [E_string name]) c1" "in_map k 0 c1" by blast
  from read_init_positioned [OF ram, of "ser_read_ctx ctx" env] rd obtain rctx where
    r: "sdb_read_init env (store tbl) (ser_read_ctx ctx) = Returned (store tbl, rctx)" "positioned 0 rctx" "nreadobjects rctx = 0"
    by (auto simp: reader_ok_def)
  let ?rows = "int (length ts div n)"
  have rw: "nrows tbl = length ts div n" using s by (simp add: nrows_def serves_def)
  from talk_list [OF h c1(2,3) t(3), of ?rows] rows obtain c2 where
    c2: "bss_list ?rows BS_CTXID_GLOBAL c1 = Some (BSS_EOK, c2)" "talked wr out env base d0 ((es @ [E_string name]) @ [E_list ?rows]) c2"
      "in_list k ?rows c2" by auto
  let ?ctx = "ctx\<lparr>ser_read_ctx := rctx, ser_stage := SDB_SS_COLUMN_SENDING_CELLS\<rparr>"
  let ?vs = "column_values n (current_column ctx) ts"
  from list_cells_loop [OF h s, of ?ctx, OF _ _ _ c2(2,3), of list_close] col r obtain rctx' c3 where
    c3: "cells_loop env list_cell list_close (job tbl ?ctx c2) =
        list_close (job tbl (?ctx\<lparr>ser_read_ctx := rctx', ser_stage := SDB_SS_COLUMN_CONTENT_SENT\<rparr>) c3)"
      "talked wr out env base d0 (((es @ [E_string name]) @ [E_list ?rows]) @ map cell_event ?vs) c3" "in_list k 0 c3"
      "length (d_stack (rd_bsd rctx')) = 16" by auto
  from talk_list_close [OF h c3(2,3)] obtain c4 where
    c4: "bss_close c3 = Some (BSS_EOK, c4)"
      "talked wr out env base d0 ((((es @ [E_string name]) @ [E_list ?rows]) @ map cell_event ?vs) @ [E_close BSD_LIST]) c4" "in_map k 1 c4" by blast
  have "length ?vs = length ts div n"
    using column_cells_length [of "current_column ctx" n "length ts div n * n" ts] col s by (simp add: column_values_def serves_def)
  then have ev: "(((es @ [E_string name]) @ [E_list ?rows]) @ map cell_event ?vs) @ [E_close BSD_LIST] = es @ column_events name ?vs"
    by (simp add: column_events_def)
  have sm: "column_method (columns tbl ! current_column ctx) = SDB_SM_LIST \<or> column_method (columns tbl ! current_column ctx) = SDB_SM_FASTEST"
    using lst by (simp add: list_column_def)
  have lab: "column_label env (job tbl ctx c) = start_reading env (column_rest env) (job tbl (ctx\<lparr>ser_stage := SDB_SS_MAP_LABEL_SENT\<rparr>) c1)"
    unfolding column_label_def job_simps name(1) using c1(1) by (simp add: TRYS_def call_bss_job cs)
  have "column_rest env (job tbl (ctx\<lparr>ser_read_ctx := rctx, ser_stage := SDB_SS_MAP_LABEL_SENT\<rparr>) c1) =
      Returned (BSS_EOK, next_column (job tbl (ctx\<lparr>ser_read_ctx := rctx', ser_stage := SDB_SS_COLUMN_CLOSED\<rparr>) c4))"
    using sm c2(1) c3(1) c4(1)
    by (auto simp: column_rest_def TRYS_def serialize_column_def serialize_column_list_def Let_def rw call_bss_job list_close_def sdb_done_def)
  then have "column_label env (job tbl ctx c) = Returned (BSS_EOK, next_column (job tbl (ctx\<lparr>ser_read_ctx := rctx', ser_stage := SDB_SS_COLUMN_CLOSED\<rparr>) c4))"
    unfolding lab using r by (simp add: start_reading_def Let_def)
  moreover define ctx' where "ctx' = ctx\<lparr>ser_read_ctx := sdb_read_close rctx', ser_stage := SDB_SS_COLUMN_CLOSED, current_column := Suc (current_column ctx)\<rparr>"
  have "next_column (job tbl (ctx\<lparr>ser_read_ctx := rctx', ser_stage := SDB_SS_COLUMN_CLOSED\<rparr>) c4) = job tbl ctx' c4"
    using col by (simp add: next_column_def Let_def ctx'_def)
  moreover have "current_column ctx' = Suc (current_column ctx)" "reader_ok ctx'" "ser_target ctx' = ser_target ctx"
    using c3(4) by (simp_all add: ctx'_def reader_ok_def sdb_read_close_def)
  ultimately show ?thesis using c4 unfolding ev by metis
qed

section \<open>The table\<close>

text \<open>The names as the serializer finds them.\<close>

definition labelled :: "bytes list \<Rightarrow> sdb_table_t \<Rightarrow> bool" where
  "labelled names tbl \<longleftrightarrow> length (columns tbl) = length names \<and>
     (\<forall>j < length names. plain_name (names ! j) \<and> length (names ! j) \<le> 66592 \<and>
        (\<exists>s. conf_strings tbl = Some s \<and> 0 \<le> label_offset (columns tbl ! j) \<and>
           0 \<in> set (drop (nat (label_offset (columns tbl ! j))) s) \<and>
           cstr (drop (nat (label_offset (columns tbl ! j))) s) = names ! j))"

lemma labelled_at: "labelled names tbl \<Longrightarrow> j < length names \<Longrightarrow>
   string_at (conf_strings tbl) (label_offset (columns tbl ! j)) K = K (names ! j)"
  by (auto simp: labelled_def string_at_def)

definition table_events :: "bytes list \<Rightarrow> token list \<Rightarrow> event list" where
  "table_events names ts =
     [E_zmap] @ concat (map (\<lambda>j. column_events (names ! j) (column_values (length names) j ts)) [0..<length names]) @ [E_close BSD_ZMAP]"

definition columns_state ::
  "(bytes \<Rightarrow> 'w \<Rightarrow> int \<times> 'w) \<Rightarrow> ('w \<Rightarrow> bytes option) \<Rightarrow> bsd_env \<Rightarrow> bytes \<Rightarrow> bsd_ctx_t \<Rightarrow> event list \<Rightarrow> nat \<Rightarrow> bytes list \<Rightarrow>
   token list \<Rightarrow> sdb_table_t \<Rightarrow> nat \<Rightarrow> 'w sdb_job \<Rightarrow> bool" where
  "columns_state wr out env base d0 es k names ts tbl i j \<longleftrightarrow>
     (\<exists>ctx c. j = job tbl ctx c \<and> current_column ctx = i \<and> reader_ok ctx \<and> in_map k 1 c \<and>
        talked wr out env base d0
          (es @ concat (map (\<lambda>j. column_events (names ! j) (column_values (length names) j ts)) [0..<i])) c)"

lemma columns_loop_ok:
  assumes h: "hears wr out env" and s: "serves env (length names) ts tbl" and n: "length names < 255" and k: "k < 14"
    and rows: "length ts div length names < 2 ^ 30" and nm: "labelled names tbl" and lst: "list_all list_column (columns tbl)"
    and t: "talked wr out env base d0 es c" "in_map k 1 c" and ctx: "current_column ctx = 0" "reader_ok ctx"
  shows "\<exists>c'. columns_loop env (job tbl ctx c) = Returned (BSS_EOK, \<lparr>job_table = tbl\<lparr>serialization_ctx := None\<rparr>, job_bss = c'\<rparr>) \<and>
     talked wr out env base d0
       (es @ concat (map (\<lambda>j. column_events (names ! j) (column_values (length names) j ts)) [0..<length names]) @ [E_close BSD_ZMAP]) c'"
proof -
  let ?I = "columns_state wr out env base d0 es k names ts tbl" and ?n = "length names"
  have nc: "ncolumns tbl = ?n" "0 < ?n" using s by (simp_all add: serves_def)
  have step: "columns_left j \<and> (\<exists>j'. returning (column_label env) j = Returned (None, j') \<and> ?I (Suc i) j')"
    if i: "i < ?n" and j: "?I i j" for i j
  proof -
    from j obtain ctx c where c: "j = job tbl ctx c" "current_column ctx = i" "reader_ok ctx" "in_map k 1 c"
      "talked wr out env base d0 (es @ concat (map (\<lambda>j. column_events (names ! j) (column_values ?n j ts)) [0..<i])) c"
      unfolding columns_state_def by blast
    have "plain_name (names ! i)" "length (names ! i) \<le> 66592" "list_column (columns tbl ! i)"
      using nm lst i by (auto simp: labelled_def list_all_length)
    then obtain ctx' c' where "column_label env (job tbl ctx c) = Returned (BSS_EOK, job tbl ctx' c')" "current_column ctx' = Suc i" "reader_ok ctx'"
      "talked wr out env base d0 ((es @ concat (map (\<lambda>j. column_events (names ! j) (column_values ?n j ts)) [0..<i])) @
          column_events (names ! i) (column_values ?n i ts)) c'" "in_map k 1 c'"
      using column_label_ok [where ctx = ctx, OF h s _ n c(5,4) k rows labelled_at [OF nm]] c(2,3) i by auto
    then show ?thesis
      using c(1,2) i nc by (auto simp: columns_left_def returning_def columns_state_def)
  qed
  have stop: "\<not> columns_left j" if "?I ?n j" for j
    using that nc by (auto simp: columns_state_def columns_left_def)
  have start: "?I 0 (job tbl ctx c)" using t ctx by (auto simp: columns_state_def)
  from while_ret_rounds [of ?n ?I columns_left "returning (column_label env)", OF step stop start] obtain j' where
    j': "while_ret columns_left (returning (column_label env)) (job tbl ctx c) = Returned (None, j')" "?I ?n j'" by auto
  from j'(2) obtain ctx' c' where c': "j' = job tbl ctx' c'" "in_map k 1 c'"
    "talked wr out env base d0 (es @ concat (map (\<lambda>j. column_events (names ! j) (column_values ?n j ts)) [0..<?n])) c'"
    unfolding columns_state_def by blast
  from talk_map_close [OF h c'(3,2)] obtain c'' where "bss_close c' = Some (BSS_EOK, c'')"
    "talked wr out env base d0 ((es @ concat (map (\<lambda>j. column_events (names ! j) (column_values ?n j ts)) [0..<?n])) @ [E_close BSD_ZMAP]) c''"
    by blast
  with j'(1) c'(1) show ?thesis
    by (auto simp: columns_loop_def map_close_def TRYS_def call_bss_job job_close)
qed

text \<open>
  The columns that are sent as lists: those that are configured so, and those of the smallest
  container that hold something else than numbers, or numbers that are not all integers and no
  precision to round them to.
\<close>

definition sent_as_list :: "nat \<Rightarrow> token list \<Rightarrow> bool" where
  "sent_as_list sm vs \<longleftrightarrow> SDB_SM_CONTAINER sm = SDB_SM_LIST \<or> SDB_SM_CONTAINER sm = SDB_SM_FASTEST \<or>
     smallest sm \<and> (\<not> list_all is_number vs \<or> \<not> list_all is_int vs \<and> \<not> has_flag sm SDB_SM_FIXED_PRECISION)"

lemma sent_as_list_column:
  assumes "analysed c vs" "sent_as_list (serialization_method c) vs"
  shows "list_column (preselect c)" "\<not> undecided (preselect c)"
  using assms
  by (auto simp: sent_as_list_def analysed_def list_column_def preselect_def undecided_def column_method_def SDB_SM_CONTAINER_def
      sdb_method_defs)

lemma preselect_fields [simp]:
  "serialization_method (preselect c) = serialization_method c" "label_offset (preselect c) = label_offset c"
  "analysed (preselect c) vs = analysed c vs"
  by (auto simp: preselect_def analysed_def)

definition serializable :: "nat list \<Rightarrow> token list \<Rightarrow> bool" where
  "serializable ms ts \<longleftrightarrow> length ms < 255 \<and> length ms \<le> length ts \<and> length ts div length ms < 2 ^ 30 \<and>
     (\<forall>j < length ms. sent_as_list (ms ! j) (column_cells (length ms) j ts))"

lemma serialize_lists:
  assumes h: "hears wr out env" and host: "env_host env = TLITTLE_ENDIAN" "env_malloc env"
    and r: "table_rel ms tbl ts" and rd: "readable (store tbl)" and nm: "labelled names tbl" and sv: "serializable ms ts"
    and c: "writer c = wr" "idle out base c" "codec_rel c d" "call_ok c (Call_map (- 1) BS_CTXID_GLOBAL)" "stacksize c < 14"
  shows "\<exists>tbl' c'. sdb_serialize env target \<lparr>job_table = tbl, job_bss = c\<rparr> = Returned (BSS_EOK, \<lparr>job_table = tbl', job_bss = c'\<rparr>) \<and>
     talked wr out env base d (table_events names ts) c' \<and> table_rel ms tbl' ts"
proof -
  note s = table_rel_state [OF r]
  have n: "length names = length ms" using nm s(5) by (simp add: labelled_def)
  define cols where "cols = map preselect (columns tbl)"
  define tbl1 where "tbl1 = set_state SDB_ST_SERIALIZING tbl"
  define tbl2 where "tbl2 = tbl1\<lparr>columns := cols\<rparr>"
  have cl: "list_column (preselect (columns tbl ! j))" "\<not> undecided (preselect (columns tbl ! j))" if "j < length ms" for j
  proof -
    have a: "analysed (columns tbl ! j) (column_cells (length ms) j ts)" using r that by (simp add: table_rel_def)
    have "sent_as_list (serialization_method (columns tbl ! j)) (column_cells (length ms) j ts)"
      using sv that analysed_method [OF that r] by (simp add: serializable_def)
    from sent_as_list_column [OF a this] show "list_column (preselect (columns tbl ! j))" "\<not> undecided (preselect (columns tbl ! j))" .
  qed
  have lst: "list_all list_column (columns tbl2)" and un: "filter undecided cols = []"
    using cl s(5) by (auto simp: tbl2_def cols_def list_all_length filter_empty_conv in_set_conv_nth)
  have sm: "st_chunks (store tbl2) = st_chunks (store tbl)" "nwrittenbytes (store tbl2) = nwrittenbytes (store tbl)"
    "readable (store tbl2)" "chain_octets (store tbl2) = chain_octets (store tbl)"
    using rd by (simp_all add: tbl2_def tbl1_def set_state_def readable_def ram_ok_def last_data_def chain_octets_def)
  have sr: "serves env (length names) ts tbl2"
    using host r sm s n by (simp add: serves_def cells_at_def table_rel_def octets_of_def tbl2_def tbl1_def set_state_def)
  have nm2: "labelled names tbl2"
    using nm n s(5) by (auto simp: labelled_def tbl2_def tbl1_def cols_def set_state_def)
  have t0: "talked wr out env base d [] c" using c(1-3) by (auto simp: talked_def intro!: exI [of _ "[]"])
  from talk_map [OF h t0 c(4)] obtain c1 where c1: "bss_map (- 1) BS_CTXID_GLOBAL c = Some (BSS_EOK, c1)"
    "talked wr out env base d [E_zmap] c1" "in_map (stacksize c) 1 c1" by auto
  define ctx where "ctx = \<lparr>ser_stage = SDB_SS_INITIALIZED, current_column = 0, ser_read_ctx = blank_read_ctx, ser_target = target,
     ser_previous = 0, current_shift = 0\<rparr>"
  let ?ctx = "ctx\<lparr>ser_stage := SDB_SS_MAP_OPENED, current_column := 0\<rparr>"
  have "reader_ok ?ctx" by (simp add: ctx_def reader_ok_def blank_read_ctx_def STACK_SIZE_def)
  with columns_loop_ok [OF h sr _ c(5) _ nm2 lst c1(2,3), of ?ctx] sv n obtain c2 where
    c2: "columns_loop env (job tbl2 ?ctx c1) = Returned (BSS_EOK, \<lparr>job_table = tbl2\<lparr>serialization_ctx := None\<rparr>, job_bss = c2\<rparr>)"
      "talked wr out env base d (table_events names ts) c2"
    by (auto simp: serializable_def table_events_def)
  have cm: "compute_serialization_methods env (tbl1\<lparr>serialization_ctx := x\<rparr>) = Returned (SDB_EOK, tbl2\<lparr>serialization_ctx := x\<rparr>)" for x
    using un by (simp add: compute_serialization_methods_def Let_def tbl2_def tbl1_def set_state_def cols_def)
  have fc: "first_column env (job tbl2 (ctx\<lparr>ser_stage := SDB_SS_MAP_OPENED\<rparr>) c1) =
      Returned (BSS_EOK, \<lparr>job_table = tbl2\<lparr>serialization_ctx := None\<rparr>, job_bss = c2\<rparr>)"
    using c2(1) by (simp add: first_column_def)
  have wm: "with_methods env (first_column env) (job tbl1 ctx' c1) = first_column env (job tbl2 ctx' c1)" for ctx'
    by (simp add: with_methods_def job_def cm sdb_error_defs)
  have stage: "ser_stage ctx = SDB_SS_INITIALIZED" by (simp add: ctx_def)
  have tb: "serialize_table env (job tbl1 ctx c) = Returned (BSS_EOK, \<lparr>job_table = tbl2\<lparr>serialization_ctx := None\<rparr>, job_bss = c2\<rparr>)"
    using c1(1) stage by (simp add: serialize_table_def TRYS_def call_bss_job wm fc)
  let ?tbl' = "set_state SDB_ST_READING (tbl2\<lparr>serialization_ctx := None\<rparr>)"
  have "sdb_serialize env target \<lparr>job_table = tbl, job_bss = c\<rparr> = serialize_run env target (job tbl1 ctx c)"
    using s sv host by (simp add: sdb_serialize_def serialize_init_def serializable_def job_def tbl1_def ctx_def set_state_def table_order)
  also have "\<dots> = Returned (BSS_EOK, \<lparr>job_table = ?tbl', job_bss = c2\<rparr>)"
    using tb by (simp add: serialize_run_def job_def ctx_def bss_status_defs sdb_error_defs)
  finally have run: "sdb_serialize env target \<lparr>job_table = tbl, job_bss = c\<rparr> = Returned (BSS_EOK, \<lparr>job_table = ?tbl', job_bss = c2\<rparr>)" .
  have "store ?tbl' = store tbl" using s(1) by (simp add: tbl2_def tbl1_def set_state_def)
  then have "table_rel ms ?tbl' ts"
    using r s(5) by (simp add: table_rel_def tbl2_def tbl1_def set_state_def cols_def comp_def)
  with run c2(2) show ?thesis by blast
qed

section \<open>The names stay\<close>

definition names_of :: "sdb_table_t \<Rightarrow> bytes option \<times> int list" where
  "names_of tbl = (conf_strings tbl, map label_offset (columns tbl))"

lemma labelled_cong: "names_of tbl' = names_of tbl \<Longrightarrow> labelled names tbl \<Longrightarrow> labelled names tbl'"
  unfolding labelled_def names_of_def by (metis length_map nth_map prod.inject)

lemma named_labelled:
  assumes n: "named_rel ident cs tbl" and p: "list_all (\<lambda>c. plain_name (fst c)) cs" and f: "names_fit ident cs"
  shows "labelled (map fst cs) tbl"
  unfolding labelled_def
proof (intro conjI allI impI)
  show "length (columns tbl) = length (map fst cs)" using n by (simp add: named_rel_def)
  fix j assume j: "j < length (map fst cs)"
  then show pl: "plain_name (map fst cs ! j)" using p by (simp add: list_all_length)
  have cs: "map fst cs = map fst (take j cs) @ fst (cs ! j) # map fst (drop (Suc j) cs)"
    using id_take_nth_drop [of j cs] j by (metis length_map list.simps(9) map_append)
  have s: "conf_strings tbl = Some (name_octets (ident # map fst cs))" using n by (simp add: named_rel_def)
  have o: "label_offset (columns tbl ! j) = int (length (name_octets (ident # map fst (take j cs))))"
    using n j by (simp add: named_rel_def columns_set_def column_set_def label_at_def)
  have d: "drop (length (name_octets (ident # map fst (take j cs)))) (name_octets (ident # map fst cs)) =
      fst (cs ! j) @ 0 # name_octets (map fst (drop (Suc j) cs))"
    by (subst cs) simp
  have "length (fst (cs ! j)) < length (name_octets (ident # map fst cs))" by (subst cs) simp
  then show "length (map fst cs ! j) \<le> 66592" using f j by (simp add: names_fit_def)
  show "\<exists>s. conf_strings tbl = Some s \<and> 0 \<le> label_offset (columns tbl ! j) \<and>
      0 \<in> set (drop (nat (label_offset (columns tbl ! j))) s) \<and> cstr (drop (nat (label_offset (columns tbl ! j))) s) = map fst cs ! j"
    unfolding s o using cstr_plain [of "fst (cs ! j)"] pl j by (simp add: d del: name_octets_simps)
qed

lemma update_column_names:
  assumes "update_column f tbl = Returned tbl'" "\<And>c c'. f c = Returned c' \<Longrightarrow> label_offset c' = label_offset c"
  shows "names_of tbl' = names_of tbl"
proof -
  from assms(1) obtain c' where "f (columns tbl ! written_column tbl) = Returned c'" "written_column tbl < length (columns tbl)"
    "tbl' = tbl\<lparr>columns := (columns tbl)[written_column tbl := c']\<rparr>"
    by (auto simp: update_column_def Let_def run_def split: if_splits outcome.splits)
  with assms(2) show ?thesis by (simp add: names_of_def map_update) (metis list_update_id nth_map)
qed

lemma analysis_names:
  "sdb_analyze_integer i tbl = Returned tbl' \<Longrightarrow> names_of tbl' = names_of tbl"
  "sdb_analyze_noninteger b tbl = Returned tbl' \<Longrightarrow> names_of tbl' = names_of tbl"
  unfolding sdb_analyze_integer_def sdb_analyze_noninteger_def
  by (erule update_column_names; auto simp: analyse_int_def analyse_other_def run_def need_def
      split: if_splits outcome.splits option.splits)+

lemma untrim_names: "sdb_untrim tbl = Returned (r, tbl') \<Longrightarrow> names_of tbl' = names_of tbl"
  by (auto simp: sdb_untrim_def reserve_def names_of_def need_def split: if_splits prod.splits option.splits)

lemma with_bss_names: "with_bss bssop tbl = Returned (r, tbl') \<Longrightarrow> names_of tbl' = names_of tbl"
  by (auto simp: with_bss_def names_of_def need_def split: if_splits prod.splits option.splits)

lemma count_written_names [simp]: "names_of (count_written tbl) = names_of tbl" "names_of (tbl\<lparr>store := st\<rparr>) = names_of tbl"
  by (simp_all add: count_written_def names_of_def)

lemma sdb_raw_names: "sdb_raw b tbl = Returned (r, tbl') \<Longrightarrow> names_of tbl' = names_of tbl"
  by (auto simp: sdb_raw_def writable_def run_def Let_def split: if_splits outcome.splits prod.splits
      dest!: untrim_names analysis_names)

lemma sdb_double_names: "sdb_double h x tbl = Returned (r, tbl') \<Longrightarrow> names_of tbl' = names_of tbl"
  by (auto simp: sdb_double_def writable_def run_def Let_def split: if_splits outcome.splits
      dest!: untrim_names with_bss_names analysis_names)

lemma WRITER_names:
  assumes "WRITER bssop an tbl = Returned (r, tbl')" "\<And>tbl tbl'. an tbl = Returned tbl' \<Longrightarrow> names_of tbl' = names_of tbl"
  shows "names_of tbl' = names_of tbl"
  using assms(1)
  by (auto simp: WRITER_def writable_def run_def split: if_splits outcome.splits dest!: untrim_names with_bss_names assms(2))

lemma table_do_names:
  assumes "table_do a tbl = Returned (r, tbl')"
  shows "names_of tbl' = names_of tbl"
proof (cases a)
  case (Op_cell t)
  with assms show ?thesis
    by (cases t) (auto simp: table_do_def sdb_cell_def sdb_int_def sdb_bool_def sdb_lstring_def sdb_null_def
        dest: sdb_raw_names sdb_double_names WRITER_names [OF _ analysis_names(1)] WRITER_names [OF _ analysis_names(2)])
next
  case (Op_raw t)
  with assms sdb_raw_names show ?thesis by (auto simp: table_do_def)
next
  case Op_trim
  with assms show ?thesis
    by (auto simp: table_do_def sdb_trim_def Let_def names_of_def split: if_splits sdb_storage_kind_t.splits)
next
  case Op_reset
  with assms show ?thesis
    by (auto simp: table_do_def sdb_reset_def reset_counters_def reset_analysis_def sdb_serialize_cancel_def serialize_close_def
        set_state_def Let_def names_of_def need_def reserve_def
        split: if_splits sdb_storage_kind_t.splits prod.splits option.splits)
qed

lemma table_run_names: "table_run as tbl = Some tbl' \<Longrightarrow> names_of tbl' = names_of tbl"
  by (induction as arbitrary: tbl) (auto split: outcome.splits if_splits dest!: table_do_names)


lemma sample_rows:
  "column_cells 2 0 [a, b, c, d, e] = [a, c, e]" "column_cells 2 1 [a, b, c, d, e] = [b, d]"
  "column_values 2 0 [u, v, x, y, z] = [u, x]" "column_values 2 1 [u, v, x, y, z] = [v, y]"
proof -
  have five: "length [a, b, c, d, e] = 5" "[0..<5] = [0, 1, 2, 3, 4 :: nat]" by (simp_all add: upt_rec)
  show "column_cells 2 0 [a, b, c, d, e] = [a, c, e]" "column_cells 2 1 [a, b, c, d, e] = [b, d]"
    unfolding column_cells_def five by simp_all
  have four: "length [u, v, x, y] = 4" "[0..<4] = [0, 1, 2, 3 :: nat]" "take (length [u, v, x, y, z] div 2 * 2) [u, v, x, y, z] = [u, v, x, y]"
    by (simp_all add: upt_rec)
  show "column_values 2 0 [u, v, x, y, z] = [u, x]" "column_values 2 1 [u, v, x, y, z] = [v, y]"
    unfolding column_values_def four column_cells_def by simp_all
qed


end
