(* ===== verification/Sdb_Limits.thy ===== *)
theory Sdb_Limits
  imports Sdb_Names
begin

text \<open>
  The storage when memory is short, and where the storage and its users disagree: any mixture of
  writing and trimming, with any outcomes of the allocations, keeps the chain well formed and
  holds exactly the pieces that were accepted; \<open>sdb_raw\<close> reports success for a piece that was
  refused; the reader refuses a cell that starts in the last two octets of the last chunk.
\<close>

section \<open>Any sequence of pieces\<close>

lemma ram_trim_content:
  assumes "ram_content st = Some s"
  shows "ram_content (snd (sdb_ram_trim st)) = Some s"
proof -
  define p where "p = nwrittenbytes st mod SDB_CHUNK_SIZE"
  have p: "p < SDB_CHUNK_SIZE" by (simp add: p_def sdb_size_defs)
  have ok: "ram_ok st" "chain_octets st = s" using assms by (simp_all add: ram_content_Some)
  have keep: "ram_content (snd (set_last_chunk_size n st)) = Some s" if "p \<le> n" "0 < n" "n \<le> SDB_CHUNK_SIZE" for n
    using last_chunk_resized(1,2) [OF ok(1) that(1) [unfolded p_def] that(2,3)] ok(2)
    by (metis ram_content_Some prod.collapse)
  show ?thesis unfolding sdb_ram_trim_def Let_def p_def [symmetric]
    using keep [of SDB_MIN_CHUNK_SIZE] keep [of p] p assms by (auto simp: sdb_size_defs)
qed

datatype store_op = Op_piece bytes | Op_shrink

text \<open>The store behind the operations, and the pieces that were reported as written.\<close>

fun store_run :: "store_op list \<Rightarrow> sdb_store \<Rightarrow> bytes \<times> sdb_store" where
  "store_run [] st = ([], st)"
| "store_run (Op_shrink # as) st = store_run as (snd (sdb_ram_trim st))"
| "store_run (Op_piece data # as) st =
     (case sdb_bss_writer data st of (r, st) \<Rightarrow>
      case store_run as st of (bs, st) \<Rightarrow> (if r = int (length data) then data @ bs else bs, st))"

text \<open>
  C9: whatever allocations fail, and wherever the chain is trimmed, the chunks hold exactly the
  pieces for which the writer has returned their length, in their order: a piece that it refuses
  leaves no octet, no copy leaves its chunk, and the chain stays well formed.
\<close>

theorem sdb_writer_appends:
  assumes "ram_content st = Some s"
  shows "ram_content (snd (store_run as st)) = Some (s @ fst (store_run as st)) \<and> \<not> st_fault (snd (store_run as st))"
proof -
  have "ram_content (snd (store_run as st)) = Some (s @ fst (store_run as st))"
    using assms
  proof (induction as arbitrary: st s)
    case (Cons a as)
    show ?case
    proof (cases a)
      case Op_shrink
      with Cons.IH [OF ram_trim_content [OF Cons.prems]] show ?thesis by simp
    next
      case (Op_piece data)
      obtain r st' where w: "sdb_bss_writer data st = (r, st')" by fastforce
      from writer_law_ram [OF Cons.prems w]
      have "ram_content st' = Some (if r = int (length data) then s @ data else s)" by auto
      from Cons.IH [OF this] Op_piece w show ?thesis by (auto split: prod.splits)
    qed
  qed simp
  then show ?thesis by (simp add: ram_content_Some ram_ok_def)
qed

definition sample_store :: "nat \<Rightarrow> nat \<Rightarrow> bool list \<Rightarrow> sdb_store" where
  "sample_store n used grants =
     \<lparr>st_state = SDB_ST_READING, st_ncolumns = 1, st_kind = SDB_SK_RAM,
      st_chunks = [\<lparr>ch_addr = 0, ch_data = replicate n 0\<rparr>], st_last_size = chunk_size_field n, st_file = None,
      nwrittenbytes = used, nwrittenobjects = used, st_grants = grants, st_next = 1, st_fault = False\<rparr>"

lemma sample_store_ok:
  "used \<le> n \<Longrightarrow> used < SDB_CHUNK_SIZE \<Longrightarrow> 0 < n \<Longrightarrow> n \<le> SDB_CHUNK_SIZE \<Longrightarrow>
   ram_content (sample_store n used grants) = Some (replicate used 0)"
  by (simp add: sample_store_def ram_content_Some ram_ok_def chain_octets_def last_data_def chunk_size_field_def sdb_size_defs min_def)

text \<open>The chunk cannot grow for the first piece; the second fits.\<close>

theorem sdb_writer_appends_witness:
  "ram_content (snd (store_run [Op_piece [1, 2, 3], Op_piece [4], Op_shrink, Op_piece [5]] (sample_store 2 1 [False]))) =
     Some [0, 4, 5]"
proof -
  have "fst (store_run [Op_piece [1, 2, 3], Op_piece [4], Op_shrink, Op_piece [5]] (sample_store 2 1 [False])) = [4, 5]"
    by (simp add: sample_store_def sdb_bss_writer_def sdb_bss_ram_writer_def set_last_chunk_size_def sdb_alloc_def next_pow2_def
        chunk_size_field_def sdb_size_defs sdb_error_defs wrote_def chunk_store_def sdb_ram_trim_def overwrite_def resize_def)
  with sdb_writer_appends [OF sample_store_ok [of 1 2 "[False]"], of "[Op_piece [1, 2, 3], Op_piece [4], Op_shrink, Op_piece [5]]"]
  show ?thesis by (simp add: sdb_size_defs)
qed

section \<open>Refused pieces\<close>

text \<open>
  \<open>sdb_raw\<close> reports success for a cell of 64 KiB or more although nothing is written: the table
  holds the same octets and counts the same number of cells as before.
\<close>

theorem sdb_raw_hides_failure:
  assumes r: "table_rel ms tbl ts" and big: "SDB_DATA_SIZE_LIMIT \<le> length data"
  shows "\<exists>tbl'. sdb_raw data tbl = Returned (SDB_EOK, tbl') \<and>
     ram_content (store tbl') = ram_content (store tbl) \<and> nwrittenobjects (store tbl') = nwrittenobjects (store tbl)"
proof -
  note s = table_rel_state [OF r]
  obtain r' tbl1 b where 1: "sdb_untrim tbl = Returned (r', tbl1)" "table_rel ms tbl1 ts" using untrim_rel [OF r] by blast
  note s1 = table_rel_state [OF 1(2)]
  obtain tbl2 where 2: "sdb_analyze_noninteger False tbl1 = Returned tbl2" "store tbl2 = store tbl1"
    using s1 by (auto simp: sdb_analyze_noninteger_def update_column_def written_column_def not_le Let_def)
  obtain r st where w: "sdb_bss_writer data (store tbl1) = (r, st)" by fastforce
  from writer_law_ram [OF s1(9) w] s1(7) big w have "r < 0" "ram_content st = ram_content (store tbl1)" "\<not> st_fault st" "same_table (store tbl1) st"
    by (auto simp: sdb_bss_writer_def sdb_bss_ram_writer_def ram_ok_def sdb_error_defs s1(9) split: if_splits)
  then show ?thesis using s s1 1 2 w by (auto simp: sdb_raw_def writable_def sdb_error_defs same_table_def)
qed

theorem sdb_raw_hides_failure_witness:
  "\<exists>tbl tbl'. sdb_init sample_env [] [0x78] SDB_SK_RAM sample_columns sample_blank = Returned (SDB_EOK, tbl) \<and>
     sdb_raw (replicate 70000 0) tbl = Returned (SDB_EOK, tbl') \<and> nwrittenobjects (store tbl') = 0"
proof -
  from sdb_init_ok [OF sample_table(1,3,4), of sample_env "[]"] obtain tbl where
    t: "sdb_init sample_env [] [0x78] SDB_SK_RAM sample_columns sample_blank = Returned (SDB_EOK, tbl)"
      and r: "table_rel (map (\<lambda>c. fst (snd c)) sample_columns) tbl []" by blast
  have "SDB_DATA_SIZE_LIMIT \<le> length (replicate 70000 (0 :: 8 word))" by (simp add: sdb_size_defs)
  from sdb_raw_hides_failure [OF r this] t table_rel_state(4) [OF r] show ?thesis by auto
qed

section \<open>The end of the last chunk\<close>

text \<open>
  A cell that starts in the last two octets of the last chunk cannot be read: the reader wants
  three octets, looks for the next chunk and reports an internal error. A cell of one or two octets
  may stand there, complete.
\<close>

theorem sdb_read_end_of_chunk:
  assumes "ram_ok st" "positioned off ctx" "SDB_CHUNK_SIZE < off mod SDB_CHUNK_SIZE + BSD_MINBUFFSIZE"
    and "nwrittenbytes st div SDB_CHUNK_SIZE = off div SDB_CHUNK_SIZE"
  shows "sdb_read_data env st ctx x skip = Returned (SDB_EINTERNAL, st, ctx, x)"
proof -
  have "SDB_CHUNK_SIZE - off mod SDB_CHUNK_SIZE < BSD_MINBUFFSIZE" using assms(3) by (simp add: BSD_MINBUFFSIZE_def)
  moreover have "chunk_at st (off div SDB_CHUNK_SIZE + 1) = None" using assms(1,4) by (simp add: ram_ok_def chunk_at_def)
  ultimately show ?thesis using assms(2) by (simp add: sdb_read_data_def sdb_read_ram_data_def positioned_def Let_def)
qed

lemma null_cell: "cell_ok T_null" "cell_octets T_null = [0]"
  by (simp_all add: cell_ok_def cell_octets_def enc_token_def top_frame_def getctxid_def null_allowed_def getNullToken_def token_defs
      ctxid_defs token_ok_def sdb_size_defs)

theorem sdb_read_end_of_chunk_witness:
  "\<exists>ctx. ram_content (sample_store 65536 65535 []) = Some (replicate 65535 0) \<and> cell_ok T_null \<and> cell_octets T_null = [0] \<and>
     positioned 65534 ctx \<and>
     sdb_read_data sample_env (sample_store 65536 65535 []) ctx blank_data False =
       Returned (SDB_EINTERNAL, sample_store 65536 65535 [], ctx, blank_data)"
proof -
  let ?st = "sample_store 65536 65535 []"
    and ?ctx = "blank_read_ctx\<lparr>rd_kind := SDB_SK_RAM, rd_bsd := sample_d, nreadbytes := 65534, rd_chunk := Some 0\<rparr>"
  have c: "ram_content ?st = Some (replicate 65535 0)" by (rule sample_store_ok) (simp_all add: sdb_size_defs)
  have p: "positioned 65534 ?ctx"
    by (simp add: positioned_def top_reader_def sample_d_def bsd_init_def frame_rel_def top_frame_def bsd_topframe_def sdb_size_defs)
  have n: "nwrittenbytes ?st = 65535" by (simp add: sample_store_def)
  have "sdb_read_data sample_env ?st ?ctx blank_data False = Returned (SDB_EINTERNAL, ?st, ?ctx, blank_data)"
    by (rule sdb_read_end_of_chunk [OF _ p]) (use c in \<open>simp_all add: ram_content_Some n sdb_size_defs\<close>)
  with c p null_cell show ?thesis by blast
qed

end
