(* ===== verification/Sdb_Consolidate.thy ===== *)
theory Sdb_Consolidate
  imports Sdb_Table
begin

text \<open>
  Consolidation of a staging table into another (\<open>src/libs/bysant/sdb_consolidate.c\<close>): each column
  of the destination gets one cell, computed from all the cells of a column of the source. The
  source and the destination are different tables.

  \<open>copy_data_ram\<close> keeps the place it has read last in static variables; the chunk is remembered
  by its address, and an address that is not in the chain any more is a \<open>Fault\<close>. \<open>Fault\<close> is also
  the use of a value that was never set: the number of a cell that was only skipped, and a column
  of the destination that was not configured. \<open>qsort\<close> is a sort by the comparison it is given.
\<close>

section \<open>Consolidation contexts\<close>

datatype sdb_cons_ctx_state_t = SDB_CCS_RUNNING | SDB_CCS_DONE | SDB_CCS_BROKEN

datatype sdb_cons_ctx_content_t = CC_unset | CC_double f64 | CC_median "f64 list" | CC_streampos nat nat

record sdb_cons_ctx_t =
  cx_method :: sdb_consolidation_method_t
  cx_state :: sdb_cons_ctx_state_t
  cx_iteration :: nat
  cx_nrows :: nat
  cx_content :: sdb_cons_ctx_content_t

definition cons_init :: "bsd_env \<Rightarrow> sdb_consolidation_method_t \<Rightarrow> nat \<Rightarrow> int \<times> sdb_cons_ctx_t" where
  "cons_init env method rows =
     (let ctx = \<lparr>cx_method = method, cx_state = SDB_CCS_RUNNING, cx_iteration = 0, cx_nrows = rows,
            cx_content = CC_unset\<rparr> in
      if method = SDB_CM_SUM \<or> method = SDB_CM_MEAN then (SDB_EOK, ctx\<lparr>cx_content := CC_double 0\<rparr>)
      else if method = SDB_CM_MEDIAN then
        if env_malloc env then (SDB_EOK, ctx\<lparr>cx_content := CC_median (replicate rows 0)\<rparr>) else (SDB_EMEM, ctx)
      else (SDB_EOK, ctx))"

text \<open>The number in the data, with \<open>k None\<close> for data of another type.\<close>

definition data_number :: "bsd_data_t \<Rightarrow> (f64 option \<Rightarrow> 'a outcome) \<Rightarrow> 'a outcome" where
  "data_number x k =
     (if d_type x = BSD_INT then (case d_content x of D_int i \<Rightarrow> k (Some (i64_to_f64 i)) | _ \<Rightarrow> Fault)
      else if d_type x = BSD_DOUBLE then (case d_content x of D_double d \<Rightarrow> k (Some d) | _ \<Rightarrow> Fault)
      else k None)"

definition reduce_number :: "nat \<Rightarrow> f64 \<Rightarrow> sdb_cons_ctx_t \<Rightarrow> sdb_cons_ctx_t outcome" where
  "reduce_number i d ctx =
     (let better = (\<lambda>less. case cx_content ctx of
            CC_double m \<Rightarrow> Returned (ctx\<lparr>cx_content := CC_double (if i = 0 \<or> less m then d else m)\<rparr>)
          | _ \<Rightarrow> if i = 0 then Returned (ctx\<lparr>cx_content := CC_double d\<rparr>) else Fault) in
      case cx_method ctx of
        SDB_CM_MAX \<Rightarrow> better (\<lambda>m. f64_less m d)
      | SDB_CM_MIN \<Rightarrow> better (\<lambda>m. f64_less d m)
      | SDB_CM_MEDIAN \<Rightarrow>
          (case cx_content ctx of
             CC_median ds \<Rightarrow> if i < length ds then Returned (ctx\<lparr>cx_content := CC_median (ds[i := d])\<rparr>) else Fault
           | _ \<Rightarrow> Fault)
      | _ \<Rightarrow>
          (case cx_content ctx of
             CC_double s \<Rightarrow> Returned (ctx\<lparr>cx_content := CC_double (f64_add s d)\<rparr>)
           | _ \<Rightarrow> Fault))"

definition cons_reduce :: "bsd_data_t \<Rightarrow> nat \<Rightarrow> nat \<Rightarrow> sdb_cons_ctx_t \<Rightarrow> sdb_cons_ctx_t outcome" where
  "cons_reduce data offset len ctx =
     (if cx_state ctx \<noteq> SDB_CCS_RUNNING then Returned ctx
      else
        let i = cx_iteration ctx;
            ctx = ctx\<lparr>cx_iteration := (i + 1) mod 65536\<rparr>;
            here = Returned (ctx\<lparr>cx_content := CC_streampos offset len\<rparr>) in
        (case cx_method ctx of
           SDB_CM_FIRST \<Rightarrow> if i \<noteq> 0 then Returned ctx else here
         | SDB_CM_LAST \<Rightarrow> if int i \<noteq> int (cx_nrows ctx) - 1 then Returned ctx else here
         | SDB_CM_MIDDLE \<Rightarrow> if i \<noteq> cx_nrows ctx div 2 then Returned ctx else here
         | _ \<Rightarrow> data_number data (\<lambda>d.
             case d of None \<Rightarrow> Returned (ctx\<lparr>cx_state := SDB_CCS_BROKEN\<rparr>) | Some d \<Rightarrow> reduce_number i d ctx)))"

definition cmp_pdouble :: "f64 \<Rightarrow> f64 \<Rightarrow> int" where
  "cmp_pdouble d1 d2 = (if f64_eq d1 d2 then 0 else if f64_less d1 d2 then - 1 else 1)"

fun insert_double :: "f64 \<Rightarrow> f64 list \<Rightarrow> f64 list" where
  "insert_double d [] = [d]"
| "insert_double d (e # es) = (if cmp_pdouble d e \<le> 0 then d # e # es else e # insert_double d es)"

definition sort_doubles :: "f64 list \<Rightarrow> f64 list" where
  "sort_doubles ds = foldr insert_double ds []"

section \<open>Copying a cell\<close>

record copy_static =
  last_src :: "nat option"
  last_offset :: nat
  src_chunk :: "nat option"

text \<open>The position of an address in the chain.\<close>

fun chunk_index :: "nat \<Rightarrow> sdb_chunk_t list \<Rightarrow> nat option" where
  "chunk_index a [] = None"
| "chunk_index a (c # cs) = (if ch_addr c = a then Some 0 else map_option Suc (chunk_index a cs))"

definition chunk_addr :: "sdb_store \<Rightarrow> nat \<Rightarrow> nat option" where
  "chunk_addr st i = (if i < length (st_chunks st) then Some (ch_addr (st_chunks st ! i)) else None)"

text \<open>The loop over \<open>next\<close>, from the chunk with address \<open>a\<close>.\<close>

definition skip_chunks :: "sdb_store \<Rightarrow> nat option \<Rightarrow> nat \<Rightarrow> (nat \<Rightarrow> 'a outcome) \<Rightarrow> 'a outcome" where
  "skip_chunks st p n k =
     need p (\<lambda>a. need (chunk_index a (st_chunks st)) (\<lambda>i. if i + n < length (st_chunks st) then k (i + n) else Fault))"

definition write_to :: "bytes \<Rightarrow> sdb_table_t \<Rightarrow> (int \<Rightarrow> sdb_table_t \<Rightarrow> 'a outcome) \<Rightarrow> 'a outcome" where
  "write_to b dst k =
     (case sdb_bss_writer b (store dst) of (r, st) \<Rightarrow>
        if st_fault st then Fault else k r (dst\<lparr>store := st\<rparr>))"

type_synonym copy_result = "(int \<times> sdb_table_t \<times> copy_static) outcome"

definition copy_data_ram ::
  "nat \<Rightarrow> sdb_table_t \<Rightarrow> nat \<Rightarrow> nat \<Rightarrow> sdb_table_t \<Rightarrow> copy_static \<Rightarrow> copy_result" where
  "copy_data_ram src_addr src offset len dst sta =
     (let st = store src;
          again = (last_src sta = Some src_addr \<and> last_offset sta \<le> offset);
          start = (if again then src_chunk sta else chunk_addr st 0);
          n = (if again then offset div SDB_CHUNK_SIZE - last_offset sta div SDB_CHUNK_SIZE
               else offset div SDB_CHUNK_SIZE) in
      skip_chunks st start n (\<lambda>i.
      let chunk_offset = offset mod SDB_CHUNK_SIZE;
          in_first_chunk = SDB_CHUNK_SIZE - chunk_offset;
          sta = sta\<lparr>src_chunk := chunk_addr st i\<rparr> in
      if len \<le> in_first_chunk then
        load_n (ch_data (st_chunks st ! i)) chunk_offset len (\<lambda>b.
        write_to b dst (\<lambda>r dst.
          if r < 0 then Returned (r, dst, sta)
          else Returned (SDB_EOK, dst, sta\<lparr>last_offset := offset + len, last_src := Some src_addr\<rparr>)))
      else
        let offset = len - in_first_chunk in
        load_n (ch_data (st_chunks st ! i)) chunk_offset in_first_chunk (\<lambda>b.
        write_to b dst (\<lambda>r dst.
        if r < 0 then Returned (r, dst, sta)
        else let sta = sta\<lparr>src_chunk := chunk_addr st (i + 1)\<rparr> in
             if length (st_chunks st) \<le> i + 1 then Fault
             else load_n (ch_data (st_chunks st ! (i + 1))) 0 offset (\<lambda>b.
                  write_to b dst (\<lambda>r dst.
                    if r < 0 then Returned (r, dst, sta)
                    else Returned (SDB_EOK, dst, sta\<lparr>last_offset := offset, last_src := Some src_addr\<rparr>)))))))"

definition copy_data :: "nat \<Rightarrow> sdb_table_t \<Rightarrow> nat \<Rightarrow> nat \<Rightarrow> sdb_table_t \<Rightarrow> copy_static \<Rightarrow> copy_result" where
  "copy_data src_addr src offset len dst sta =
     run (case st_kind (store src) of
            SDB_SK_RAM \<Rightarrow> copy_data_ram src_addr src offset len dst sta
          | SDB_SK_FILE \<Rightarrow> Returned (SDB_EINTERNAL, dst, sta)) (\<lambda>(r, dst, sta).
       Returned (r, if r = SDB_EOK then count_written dst else dst, sta))"

section \<open>Finishing\<close>

type_synonym cons_dst = "(sdb_table_t \<times> copy_static) outcome"

definition ignoring :: "table_result \<Rightarrow> copy_static \<Rightarrow> cons_dst" where
  "ignoring r sta = run r (\<lambda>(_, dst). Returned (dst, sta))"

definition cons_finalize ::
  "EEndian \<Rightarrow> nat \<Rightarrow> sdb_table_t \<Rightarrow> sdb_cons_ctx_t \<Rightarrow> sdb_table_t \<Rightarrow> copy_static \<Rightarrow> cons_dst" where
  "cons_finalize h src_addr src ctx dst sta =
     (let number = (\<lambda>d. ignoring (sdb_number h d dst) sta) in
      if cx_state ctx = SDB_CCS_BROKEN then ignoring (sdb_null dst) sta
      else case (cx_method ctx, cx_content ctx) of
             (SDB_CM_MAX, CC_double d) \<Rightarrow> number d
           | (SDB_CM_MIN, CC_double d) \<Rightarrow> number d
           | (SDB_CM_SUM, CC_double d) \<Rightarrow> number d
           | (SDB_CM_MEAN, CC_double d) \<Rightarrow> number (f64_div d (i64_to_f64 (int (cx_nrows ctx))))
           | (SDB_CM_MEDIAN, CC_median ds) \<Rightarrow>
               if cx_nrows ctx div 2 < length ds then number (sort_doubles ds ! (cx_nrows ctx div 2)) else Fault
           | (_, CC_streampos offset len) \<Rightarrow>
               run (copy_data src_addr src offset len dst sta) (\<lambda>(r, dst, sta).
                 if r \<noteq> SDB_EOK then ignoring (sdb_null dst) sta else Returned (dst, sta))
           | _ \<Rightarrow> Fault)"

fun finalize_all ::
  "EEndian \<Rightarrow> nat \<Rightarrow> sdb_table_t \<Rightarrow> sdb_cons_ctx_t list \<Rightarrow> sdb_table_t \<Rightarrow> copy_static \<Rightarrow> cons_dst" where
  "finalize_all h src_addr src [] dst sta = Returned (dst, sta)"
| "finalize_all h src_addr src (ctx # ctxs) dst sta =
     run (cons_finalize h src_addr src ctx dst sta) (\<lambda>(dst, sta). finalize_all h src_addr src ctxs dst sta)"

section \<open>Consolidating\<close>

text \<open>The contexts of the destination columns, until one of them cannot be created.\<close>

fun init_all :: "bsd_env \<Rightarrow> nat \<Rightarrow> sdb_cons_column_t list \<Rightarrow> sdb_cons_ctx_t list option" where
  "init_all env rows [] = Some []"
| "init_all env rows (cc # ccs) =
     (case cons_init env (cc_method cc) rows of (r, ctx) \<Rightarrow>
        if r \<noteq> SDB_EOK then None else map_option ((#) ctx) (init_all env rows ccs))"

text \<open>The row of the matrix for a source column: the destination columns computed from it.\<close>

definition matrix_row :: "sdb_cons_column_t list \<Rightarrow> nat \<Rightarrow> nat list" where
  "matrix_row ccs i_src_col = filter (\<lambda>i. src_column (ccs ! i) = i_src_col) [0..<length ccs]"

fun reduce_all :: "bsd_data_t \<Rightarrow> nat \<Rightarrow> nat \<Rightarrow> nat list \<Rightarrow> sdb_cons_ctx_t list \<Rightarrow> sdb_cons_ctx_t list outcome" where
  "reduce_all x offset len [] ctxs = Returned ctxs"
| "reduce_all x offset len (i # is) ctxs =
     run (cons_reduce x offset len (ctxs ! i)) (\<lambda>ctx. reduce_all x offset len is (ctxs[i := ctx]))"

text \<open>The cell of each source column in turn; a negative length leaves the loops.\<close>

fun consolidate_cells ::
  "bsd_env \<Rightarrow> sdb_cons_column_t list \<Rightarrow> nat list \<Rightarrow> sdb_store \<Rightarrow> sdb_read_ctx_t \<Rightarrow> sdb_cons_ctx_t list \<Rightarrow>
   (bool \<times> sdb_store \<times> sdb_read_ctx_t \<times> sdb_cons_ctx_t list) outcome" where
  "consolidate_cells env ccs [] st rctx ctxs = Returned (True, st, rctx, ctxs)"
| "consolidate_cells env ccs (i_src_col # is) st rctx ctxs =
     (let users = matrix_row ccs i_src_col; offset = nreadbytes rctx in
      run (sdb_read_data env st rctx blank_data (users \<noteq> [])) (\<lambda>(len, st, rctx, x).
        if len < 0 then Returned (False, st, rctx, ctxs)
        else run (reduce_all x offset (nat len) users ctxs) (\<lambda>ctxs.
             consolidate_cells env ccs is st rctx ctxs)))"

definition sdb_consolidate ::
  "bsd_env \<Rightarrow> nat \<Rightarrow> sdb_table_t \<Rightarrow> sdb_table_t \<Rightarrow> copy_static \<Rightarrow>
   (int \<times> sdb_table_t \<times> sdb_table_t \<times> copy_static) outcome" where
  "sdb_consolidate env src_addr src dst sta =
     (case consolidation src of
        None \<Rightarrow> Returned (SDB_ENOCONS, src, dst, sta)
      | Some cons \<Rightarrow>
          let n_src_col = ncolumns src;
              n_dst_col = ncolumns dst;
              n_src_row = (nwrittenobjects (store src) div ncolumns src) mod 65536 in
          if n_src_row = 0 then Returned (SDB_EEMPTY, src, dst, sta)
          else if tbl_state dst \<noteq> SDB_ST_READING \<or> tbl_state src \<noteq> SDB_ST_READING
          then Returned (SDB_EBADSTATE, src, dst, sta)
          else if \<not> env_malloc env then Returned (SDB_EMEM, src, dst, sta)
          else if length (dst_columns cons) < n_dst_col \<or> None \<in> set (take n_dst_col (dst_columns cons)) then Fault
          else
            let ccs = map the (take n_dst_col (dst_columns cons)) in
            (case init_all env n_src_row ccs of
               None \<Rightarrow> Returned (SDB_EMEM, src, dst, sta)
             | Some ctxs \<Rightarrow>
                 run (sdb_read_init env (store src) blank_read_ctx) (\<lambda>(st, rctx).
                 run (consolidate_cells env ccs (concat (replicate n_src_row [0..<n_src_col])) st rctx ctxs)
                   (\<lambda>(ok, st, rctx, ctxs).
                   let src = src\<lparr>store := st\<rparr> in
                   if \<not> ok then Returned (SDB_EMEM, src, dst, sta)
                   else run (finalize_all (env_host env) src_addr src ctxs dst sta) (\<lambda>(dst, sta).
                        Returned (SDB_EOK, src, dst, sta))))))"

end
