(* ===== verification/Double_Exact.thy ===== *)
theory Double_Exact
  imports C_Double
begin

text \<open>
  Where the arithmetic of \<open>double\<close> is exact. \<open>f64_is x n\<close>: the value of \<open>x\<close> is the integer \<open>n\<close>,
  which a zero of either sign is for 0. On integers of up to 53 bits the sum and the difference
  are exact, as is a quotient that is an integer; \<open>floor\<close>, \<open>fmod (x, 1)\<close>, the comparisons and the
  conversion to \<open>int\<close> are those of the integers.
\<close>

section \<open>Integer values\<close>

definition f64_is :: "f64 \<Rightarrow> int \<Rightarrow> bool" where
  "f64_is x n \<longleftrightarrow> f64_finite x \<and> f64_num x = n * f64_den x"

lemma f64_den_pos: "0 < f64_den x"
  by (simp add: f64_den_def)

lemma f64_sign_cases: "f64_sign x = 0 \<or> f64_sign x = 1"
proof -
  have "unat x < 2 * 2 ^ 63" using unsigned_less [of x, where ?'a = nat] by simp
  then have "f64_sign x < 2" unfolding f64_sign_def by (rule less_mult_imp_div_less)
  then show ?thesis by linarith
qed

lemma f64_finite_simps: "f64_finite x \<Longrightarrow> \<not> f64_nan x \<and> \<not> f64_inf x"
  by (simp add: f64_finite_def f64_nan_def f64_inf_def)

text \<open>The 63 bits of the magnitude of an integer.\<close>

definition int_bits :: "nat \<Rightarrow> nat" where
  "int_bits a = (top_bit a + 1023) * 2 ^ 52 + (a * 2 ^ (52 - top_bit a) - 2 ^ 52)"

lemma int_bits_fields:
  assumes "0 < a" "a < 2 ^ 53" "s < 2"
  shows "top_bit a \<le> 52" "f64_sign (f64_mk s (int_bits a)) = s" "f64_exp (f64_mk s (int_bits a)) = top_bit a + 1023"
    "f64_sig (f64_mk s (int_bits a)) = a * 2 ^ (52 - top_bit a)" "2 ^ 52 \<le> a * 2 ^ (52 - top_bit a)"
proof -
  define k where "k = top_bit a"
  have b: "2 ^ k \<le> a" "a < 2 * 2 ^ k" using top_bit_bounds [OF assms(1)] by (auto simp: k_def)
  have k: "k \<le> 52"
  proof (rule ccontr)
    assume "\<not> k \<le> 52"
    then have "(2::nat) ^ 53 \<le> 2 ^ k" by (intro power_increasing) auto
    with b assms(2) show False by linarith
  qed
  have sp: "(2::nat) ^ 52 = 2 ^ k * 2 ^ (52 - k)" using k by (simp add: power_add [symmetric])
  define m where "m = a * 2 ^ (52 - k) - 2 ^ 52"
  have m: "2 ^ 52 + m = a * 2 ^ (52 - k)"
    using mult_le_mono1 [OF b(1), of "2 ^ (52 - k)"] sp unfolding m_def by linarith
  have "a * 2 ^ (52 - k) < 2 * 2 ^ 52"
    using mult_strict_right_mono [OF b(2), of "2 ^ (52 - k)"] unfolding sp by (simp add: mult.assoc)
  then have m2: "m < 2 ^ 52" using m by linarith
  have e: "k + 1023 < 2048" using k by simp
  have i: "int_bits a = (k + 1023) * 2 ^ 52 + m" by (simp only: int_bits_def k_def m_def)
  note f = f64_mk_fields [OF assms(3) e m2]
  show "top_bit a \<le> 52" "f64_sign (f64_mk s (int_bits a)) = s" "f64_exp (f64_mk s (int_bits a)) = top_bit a + 1023"
    "f64_sig (f64_mk s (int_bits a)) = a * 2 ^ (52 - top_bit a)" "2 ^ 52 \<le> a * 2 ^ (52 - top_bit a)"
    unfolding i f64_sig_def f k_def [symmetric] using k m by simp_all
qed

lemma f64_is_mk:
  assumes "0 < a" "a < 2 ^ 53" "s < 2"
  shows "f64_is (f64_mk s (int_bits a)) (if s = 1 then - int a else int a)"
proof -
  note f = int_bits_fields [OF assms]
  have "(52 :: nat) - top_bit a = 1075 - max (top_bit a + 1023) 1" "max (top_bit a + 1023) 1 - 1075 = (0 :: nat)"
    "top_bit a + 1023 \<noteq> 2047" using f(1) by simp_all
  then show ?thesis by (simp add: f64_is_def f64_finite_def f64_num_def f64_den_def f Let_def)
qed

lemma f64_is_zero: "s < 2 \<Longrightarrow> f64_is (f64_mk s 0) 0"
  using f64_mk_fields [of s 0 0] by (simp add: f64_is_def f64_finite_def f64_num_def f64_sig_def)

lemma i64_to_f64_bits:
  assumes "y \<noteq> 0" "\<bar>y\<bar> < 2 ^ 53"
  shows "i64_to_f64 y = f64_mk (if y < 0 then 1 else 0) (int_bits (nat \<bar>y\<bar>))"
proof -
  have a: "0 < nat \<bar>y\<bar>" "nat \<bar>y\<bar> < 2 ^ 53" using assms by auto
  then show ?thesis using int_bits_fields(1) [OF a, of 0] unfolding int_bits_def by (simp only: i64_to_f64_def Let_def) simp
qed

lemma f64_is_int: "\<bar>y\<bar> < 2 ^ 53 \<Longrightarrow> f64_is (i64_to_f64 y) y"
proof (cases "y = 0")
  case True
  then show ?thesis using f64_is_zero [of 0] by (simp add: i64_to_f64_def f64_mk_def)
next
  case False
  assume y: "\<bar>y\<bar> < 2 ^ 53"
  then show ?thesis using f64_is_mk [of "nat \<bar>y\<bar>" "if y < 0 then 1 else 0"] False unfolding i64_to_f64_bits [OF False y] by (cases "y < 0") simp_all
qed

lemma f64_less_is:
  assumes "f64_is x a" "f64_is y b"
  shows "f64_less x y \<longleftrightarrow> a < b"
proof -
  have "0 < f64_den x * f64_den y" using f64_den_pos by simp
  then have "a * f64_den x * f64_den y < b * f64_den y * f64_den x \<longleftrightarrow> a < b"
    by (simp add: mult.assoc mult.commute [of "f64_den y"] mult_less_cancel_right_pos)
  with assms f64_finite_simps show ?thesis by (simp add: f64_is_def f64_less_def)
qed

lemma f64_to_i32_is:
  assumes "f64_is x n" "- (2 ^ 31) \<le> n" "n < 2 ^ 31"
  shows "f64_to_i32 x = Some n"
proof -
  define e where "e = max (f64_exp x) 1"
  define s where "s = f64_sign x"
  have fin: "f64_exp x \<noteq> 2047" and num: "f64_num x = n * f64_den x" using assms(1) by (simp_all add: f64_is_def f64_finite_def)
  have num: "(if s = 1 then - (int (f64_sig x) * 2 ^ (e - 1075)) else int (f64_sig x) * 2 ^ (e - 1075)) = n * 2 ^ (1075 - e)"
    using num unfolding f64_num_def f64_den_def Let_def e_def s_def .
  let ?a = "if 1075 \<le> e then f64_sig x * 2 ^ (e - 1075) else f64_sig x div 2 ^ (1075 - e)"
  have "(if s = 1 then - int ?a else int ?a) = n"
  proof (cases "1075 \<le> e")
    case True
    with num show ?thesis by auto
  next
    case False
    then have "e - 1075 = 0" by simp
    then have "(if s = 1 then - int (f64_sig x) else int (f64_sig x)) = n * 2 ^ (1075 - e)"
      using num by (auto split: if_splits)
    then have "int (f64_sig x) = (if s = 1 then - n else n) * 2 ^ (1075 - e)" by (auto split: if_splits)
    then have "int (f64_sig x) div 2 ^ (1075 - e) = (if s = 1 then - n else n)" by simp
    then have "int (f64_sig x div 2 ^ (1075 - e)) = (if s = 1 then - n else n)" by (simp add: zdiv_int)
    with False show ?thesis by auto
  qed
  then have "f64_to_i64 x = Some n"
    using fin assms(2,3) unfolding f64_to_i64_def Let_def e_def [symmetric] s_def [symmetric] by simp
  then show ?thesis using assms(2,3) by (simp add: f64_to_i32_def)
qed

section \<open>Exact rounding\<close>

lemma top_bit_unique: "2 ^ k \<le> n \<Longrightarrow> n < 2 * 2 ^ k \<Longrightarrow> top_bit n = k"
proof -
  assume k: "2 ^ k \<le> n" "n < 2 * 2 ^ k"
  then have "0 < n" by (metis gr0I le_zero_eq power_eq_0_iff zero_neq_numeral)
  note b = top_bit_bounds [OF this]
  have "(2::nat) ^ top_bit n < 2 ^ Suc k" "(2::nat) ^ k < 2 ^ Suc (top_bit n)" using b k by simp_all
  then show ?thesis by (simp add: power_strict_increasing_iff del: power_Suc)
qed

lemma top_bit_mult:
  assumes "0 < a" "0 < d"
  shows "top_bit (a * d) = top_bit a + top_bit d \<or> top_bit (a * d) = Suc (top_bit a + top_bit d)"
proof -
  define k where "k = top_bit a"
  define j where "j = top_bit d"
  have b: "2 ^ k \<le> a" "a < 2 * 2 ^ k" "2 ^ j \<le> d" "d < 2 * 2 ^ j"
    using top_bit_bounds [OF assms(1)] top_bit_bounds [OF assms(2)] by (simp_all add: k_def j_def)
  have "2 ^ k * 2 ^ j \<le> a * d" by (rule mult_le_mono [OF b(1,3)])
  moreover have "a * d < (2 * 2 ^ k) * (2 * 2 ^ j)" by (rule mult_strict_mono [OF b(2,4)]) simp_all
  ultimately have "2 ^ (k + j) \<le> a * d" "a * d < 2 * 2 ^ Suc (k + j)" by (simp_all add: power_add)
  then show ?thesis
    using top_bit_unique [of "k + j" "a * d"] top_bit_unique [of "Suc (k + j)" "a * d"] unfolding k_def [symmetric] j_def [symmetric]
    by (cases "a * d < 2 * 2 ^ (k + j)") simp_all
qed

lemma ratio_log_int:
  assumes "0 < a" "0 < d"
  shows "ratio_log (a * d) d = int (top_bit a)"
proof -
  have b: "2 ^ top_bit a \<le> a" "a < 2 * 2 ^ top_bit a" using top_bit_bounds [OF assms(1)] by simp_all
  have c: "d * 2 ^ k \<le> a * d * 2 ^ 0 \<longleftrightarrow> 2 ^ k \<le> a" for k using assms(2) by (simp add: mult.commute [of d])
  from top_bit_mult [OF assms] show ?thesis
  proof
    assume t: "top_bit (a * d) = top_bit a + top_bit d"
    have "nat (int (top_bit a)) = top_bit a" "nat (- int (top_bit a)) = 0" by simp_all
    then show ?thesis using b(1) c [of "top_bit a"] unfolding ratio_log_def Let_def t by simp
  next
    assume t: "top_bit (a * d) = Suc (top_bit a + top_bit d)"
    have z: "int (top_bit (a * d)) - int (top_bit d) = int (Suc (top_bit a))" unfolding t by simp
    have n: "nat (int (Suc (top_bit a))) = Suc (top_bit a)" "nat (- int (Suc (top_bit a))) = 0" by linarith+
    have "\<not> 2 ^ Suc (top_bit a) \<le> a" using b(2) by simp
    then show ?thesis using c [of "Suc (top_bit a)"] unfolding ratio_log_def Let_def z n by simp
  qed
qed

lemma round_ratio_int:
  assumes "0 < a" "a < 2 ^ 53" "0 < d"
  shows "round_ratio (a * d) d = int_bits a"
proof -
  define k where "k = top_bit a"
  have k: "k \<le> 52" "2 ^ 52 \<le> a * 2 ^ (52 - k)" using int_bits_fields(1,5) [OF assms(1,2), of 0] by (simp_all add: k_def)
  have e: "max (- 1074) (ratio_log (a * d) d - 52) = int k - 52" unfolding ratio_log_int [OF assms(1,3)] by (simp add: k_def)
  have n: "nat (int k - 52 + 1074) = k + 1022" "nat (- (int k - 52)) = 52 - k" "nat (int k - 52) = 0" using k by simp_all
  have q: "rne_div (a * d * 2 ^ (52 - k)) (d * 2 ^ 0) = a * 2 ^ (52 - k)"
    using assms(3) by (simp add: rne_div_def Let_def mult.assoc mult.commute [of d])
  define A where "A = a * 2 ^ (52 - k)"
  have "A < 2 ^ 53"
  proof -
    have "a < 2 * 2 ^ k" using top_bit_bounds [OF assms(1)] by (simp add: k_def)
    then have "A < 2 * 2 ^ k * 2 ^ (52 - k)" unfolding A_def by simp
    also have "\<dots> = 2 ^ 53" using k by (simp add: mult.assoc flip: power_add)
    finally show ?thesis .
  qed
  then have "(k + 1022) * 2 ^ 52 + A \<le> 2047 * 2 ^ 52" "(k + 1022) * 2 ^ 52 + A = (k + 1023) * 2 ^ 52 + (A - 2 ^ 52)"
    using k by (simp_all add: A_def)
  then show ?thesis
    unfolding round_ratio_def Let_def e n q int_bits_def k_def [symmetric] A_def [symmetric] by (simp only: min_absorb1)
qed

lemma f64_of_ratio_is:
  assumes "n = y * d" "0 < d" "\<bar>y\<bar> < 2 ^ 53" "s < 2"
  shows "f64_is (f64_of_ratio s n d) y"
proof (cases "y = 0")
  case True
  then show ?thesis using assms f64_is_zero by (simp add: f64_of_ratio_def)
next
  case False
  have a: "0 < nat \<bar>y\<bar>" "nat \<bar>y\<bar> < 2 ^ 53" "0 < nat d" using False assms by auto
  have "nat \<bar>n\<bar> = nat \<bar>y\<bar> * nat d" using assms by (simp add: abs_mult nat_mult_distrib)
  moreover have "n \<noteq> 0" "n < 0 \<longleftrightarrow> y < 0" using False assms by (simp_all add: mult_less_0_iff)
  ultimately have "f64_of_ratio s n d = f64_mk (if y < 0 then 1 else 0) (int_bits (nat \<bar>y\<bar>))"
    unfolding f64_of_ratio_def by (simp add: round_ratio_int [OF a])
  then show ?thesis using f64_is_mk [OF a(1,2), of "if y < 0 then 1 else 0"] by (cases "y < 0") simp_all
qed

section \<open>Operations\<close>

lemma f64_add_is:
  assumes "f64_is x a" "f64_is y b" "\<bar>a + b\<bar> < 2 ^ 53"
  shows "f64_is (f64_add x y) (a + b)"
proof -
  have "f64_num x * f64_den y + f64_num y * f64_den x = (a + b) * (f64_den x * f64_den y)"
    using assms by (simp add: f64_is_def algebra_simps)
  from f64_of_ratio_is [OF this _ assms(3), of "if f64_sign x = 1 \<and> f64_sign y = 1 then 1 else 0"]
  show ?thesis using assms f64_finite_simps [of x] f64_finite_simps [of y] f64_den_pos by (simp add: f64_add_def f64_is_def [of x] f64_is_def [of y])
qed

lemma f64_div_is:
  assumes "f64_is x (n * g)" "f64_is y g" "g \<noteq> 0" "\<bar>n\<bar> < 2 ^ 53"
  shows "f64_is (f64_div x y) n"
proof -
  have y: "f64_num y = g * f64_den y" "f64_num y \<noteq> 0" using assms(2,3) f64_den_pos [of y] by (simp_all add: f64_is_def)
  have "f64_num x * f64_den y * sgn (f64_num y) = n * (f64_den x * (f64_num y * sgn (f64_num y)))"
    using assms(1) y(1) by (simp add: f64_is_def ac_simps)
  then have "f64_num x * f64_den y * sgn (f64_num y) = n * (f64_den x * \<bar>f64_num y\<bar>)" by (simp add: abs_sgn)
  from f64_of_ratio_is [OF this _ assms(4), of "if f64_sign x = f64_sign y then 0 else 1"]
  show ?thesis using y assms(1,2) f64_finite_simps [of x] f64_finite_simps [of y] f64_den_pos
    by (simp add: f64_div_def Let_def f64_is_def [of x] f64_is_def [of y])
qed

lemma f64_floor_is: "f64_is x n \<Longrightarrow> \<bar>n\<bar> < 2 ^ 53 \<Longrightarrow> f64_is (f64_floor x) n"
  using f64_of_ratio_is [of n n 1 "f64_sign x"] f64_sign_cases [of x] f64_den_pos [of x]
  by (auto simp: f64_floor_def f64_is_def [of x])

lemma f64_fmod1_is: "f64_is x n \<Longrightarrow> f64_is (f64_fmod1 x) 0"
  using f64_is_zero [of "f64_sign x"] f64_sign_cases [of x] f64_den_pos [of x]
  by (auto simp: f64_fmod1_def f64_is_def [of x] abs_mult f64_of_ratio_def)

text \<open>Changing the sign, and taking it away.\<close>

lemma sign_bit_fields:
  assumes "unat x = s * 2 ^ 63 + m" "m < 2 ^ 63" "s < 2"
  shows "f64_sign x = s" "f64_exp x = m div 2 ^ 52" "f64_frac x = m mod 2 ^ 52"
proof -
  show "f64_sign x = s" using assms by (simp add: f64_sign_def)
  have "unat x = (s * 2 ^ 11) * 2 ^ 52 + m" using assms by simp
  then have "unat x div 2 ^ 52 = s * 2 ^ 11 + m div 2 ^ 52" "unat x mod 2 ^ 52 = m mod 2 ^ 52" by (simp_all only: div_mult_self3 mod_mult_self3) simp_all
  moreover have "m div 2 ^ 52 < 2 ^ 11" using assms(2) by (intro less_mult_imp_div_less) simp
  ultimately show "f64_exp x = m div 2 ^ 52" "f64_frac x = m mod 2 ^ 52" by (simp_all add: f64_exp_def f64_frac_def)
qed

lemma xor_power: "(k :: int) XOR 2 ^ n = (if odd (k div 2 ^ n) then k - 2 ^ n else k + 2 ^ n)"
proof -
  have "k XOR 2 ^ n = flip_bit n k" by (simp add: flip_bit_eq_xor)
  then show ?thesis by (simp add: flip_bit_eq_if set_bit_eq unset_bit_eq bit_iff_odd)
qed

lemma neg_bits:
  assumes "unat x = s * 2 ^ 63 + m" "m < 2 ^ 63" "s < 2"
  shows "unat (f64_neg x) = (1 - s) * 2 ^ 63 + m"
proof -
  define P :: int where "P = 2 ^ 63"
  have P: "0 < P" "int (2 ^ 63) = P" "int m < P" using assms(2) by (simp_all add: P_def)
  have "int (unat x) = int s * P + int m" unfolding assms(1) by (simp only: of_nat_add of_nat_mult P)
  then have u: "uint x = int s * P + int m" by simp
  have d: "uint x div P = int s" unfolding u using P by simp
  have "uint (f64_neg x) = uint x XOR 2 ^ 63" by (simp add: f64_neg_def unsigned_xor_eq)
  also have "\<dots> = (if odd (uint x div P) then uint x - P else uint x + P)" unfolding xor_power P_def by (rule refl)
  also have "\<dots> = (if odd (int s) then uint x - P else uint x + P)" unfolding d by (rule refl)
  also have "\<dots> = int (1 - s) * P + int m" unfolding u using assms(3) by (auto simp: less_2_cases_iff)
  finally have "int (unat (f64_neg x)) = int ((1 - s) * 2 ^ 63 + m)" by (simp only: of_nat_add of_nat_mult P int_nat_eq uint_nat [symmetric])
  then show ?thesis by (simp only: of_nat_eq_iff)
qed

lemma fabs_bits:
  assumes "unat x = s * 2 ^ 63 + m" "m < 2 ^ 63"
  shows "unat (f64_fabs x) = m"
proof -
  have "unat (f64_fabs x) = unat x AND mask 63" by (simp add: f64_fabs_def unsigned_and_eq mask_eq_exp_minus_1)
  also have "\<dots> = unat x mod 2 ^ 63" by (simp only: take_bit_eq_mask [symmetric] take_bit_eq_mod)
  also have "\<dots> = m" unfolding assms(1) mod_mult_self3 using assms(2) by (rule mod_less)
  finally show ?thesis .
qed

lemma sign_bits: obtains s m where "unat x = s * 2 ^ 63 + m" "m < 2 ^ 63" "s < (2 :: nat)" "f64_sign x = s"
proof
  show "unat x = f64_sign x * 2 ^ 63 + unat x mod 2 ^ 63" by (simp add: f64_sign_def)
  show "unat x mod 2 ^ 63 < 2 ^ 63" by simp
  show "f64_sign x < 2" using f64_sign_cases [of x] by auto
qed simp

lemma f64_fabs_sign: "f64_sign (f64_fabs x) = 0"
proof -
  obtain s m where sm: "unat x = s * 2 ^ 63 + m" "m < 2 ^ 63" "s < 2" by (rule sign_bits)
  have "unat (f64_fabs x) = 0 * 2 ^ 63 + m" using fabs_bits [OF sm(1,2)] by simp
  from sign_bit_fields(1) [OF this sm(2)] show ?thesis by simp
qed

lemma f64_neg_fields:
  "f64_exp (f64_neg x) = f64_exp x" "f64_num (f64_neg x) = - f64_num x" "f64_den (f64_neg x) = f64_den x"
  "f64_finite (f64_neg x) = f64_finite x"
proof -
  obtain s m where sm: "unat x = s * 2 ^ 63 + m" "m < 2 ^ 63" "s < 2" by (rule sign_bits)
  have t: "1 - s < 2" by simp
  note f = sign_bit_fields [OF sm] and g = sign_bit_fields [OF neg_bits [OF sm] sm(2) t]
  show e: "f64_exp (f64_neg x) = f64_exp x" unfolding f g by (rule refl)
  have q: "f64_sig (f64_neg x) = f64_sig x" unfolding f64_sig_def f g by (rule refl)
  have "f64_sign (f64_neg x) = 1 - f64_sign x" unfolding f g by (rule refl)
  then show "f64_num (f64_neg x) = - f64_num x"
    using f64_sign_cases [of x] unfolding f64_num_def Let_def e q by auto
  show "f64_den (f64_neg x) = f64_den x" "f64_finite (f64_neg x) = f64_finite x" by (simp_all add: f64_den_def f64_finite_def e)
qed

lemma f64_neg_is: "f64_is x n \<Longrightarrow> f64_is (f64_neg x) (- n)"
  by (simp add: f64_is_def f64_neg_fields)

lemma f64_sub_is: "f64_is x a \<Longrightarrow> f64_is y b \<Longrightarrow> \<bar>a - b\<bar> < 2 ^ 53 \<Longrightarrow> f64_is (f64_sub x y) (a - b)"
  using f64_add_is [OF _ f64_neg_is, of x a y b] by (simp add: f64_sub_def)

section \<open>Small fractions\<close>

text \<open>The encoding of a fraction up to 1/64 is at most that of 1/8; that of one above 1/2 is not 0.\<close>

lemma ratio_log_bounds: "ratio_log a b \<le> int (top_bit a) - int (top_bit b)" "int (top_bit a) - int (top_bit b) - 1 \<le> ratio_log a b"
  by (simp_all add: ratio_log_def Let_def)

lemma rne_div_bound: "0 < b \<Longrightarrow> x < b * n \<Longrightarrow> rne_div x b \<le> n"
proof -
  assume "0 < b" "x < b * n"
  then have "x div b < n" by (intro less_mult_imp_div_less) (simp add: mult.commute)
  then show ?thesis by (simp add: rne_div_def Let_def)
qed

lemma round_ratio_small:
  assumes "0 < a" "0 < b" "a * 2 ^ 6 \<le> b"
  shows "round_ratio a b \<le> 1020 * 2 ^ 52"
proof -
  define i where "i = top_bit a"
  define j where "j = top_bit b"
  have t: "2 ^ i \<le> a" "a < 2 * 2 ^ i" "2 ^ j \<le> b" "b < 2 * 2 ^ j"
    using top_bit_bounds [OF assms(1)] top_bit_bounds [OF assms(2)] by (simp_all add: i_def j_def)
  have "(2 :: nat) ^ (i + 6) \<le> a * 2 ^ 6" using t(1) by (simp add: power_add)
  also have "\<dots> < 2 ^ Suc j" using assms(3) t(4) by simp
  finally have ij: "i + 5 < j" by (simp add: power_strict_increasing_iff del: power_Suc)
  define e where "e = max (- 1074) (ratio_log a b - 52)"
  have L: "ratio_log a b \<le> int i - int j" "int i - int j - 1 \<le> ratio_log a b" using ratio_log_bounds [of a b] by (simp_all add: i_def j_def)
  have e: "e \<le> - 58" "nat e = 0" "nat (- e) \<le> 53 + j - i" "nat (e + 1074) \<le> 1016" using L ij by (auto simp: e_def)
  have "a * 2 ^ nat (- e) < 2 * 2 ^ i * 2 ^ nat (- e)" using t(2) by simp
  also have "\<dots> \<le> 2 * 2 ^ i * 2 ^ (53 + j - i)" using e(3) by simp
  also have "\<dots> = 2 ^ (i + (53 + j - i)) * 2" by (simp add: power_add)
  also have "\<dots> = 2 ^ j * 2 ^ 54" using ij by (simp add: power_add)
  also have "\<dots> \<le> b * 2 ^ 54" using t(3) by simp
  finally have "rne_div (a * 2 ^ nat (- e)) b \<le> 2 ^ 54" by (rule rne_div_bound [OF assms(2)])
  then have "nat (e + 1074) * 2 ^ 52 + rne_div (a * 2 ^ nat (- e)) b \<le> 1016 * 2 ^ 52 + 2 ^ 54"
    using e(4) by (intro add_mono mult_le_mono) simp_all
  then show ?thesis unfolding round_ratio_def Let_def e_def [symmetric] e(2) by simp
qed

lemma round_ratio_pos:
  assumes "0 < a" "0 < b" "b \<le> 2 * a"
  shows "0 < round_ratio a b"
proof -
  define i where "i = top_bit a"
  define j where "j = top_bit b"
  have t: "a < 2 * 2 ^ i" "2 ^ j \<le> b"
    using top_bit_bounds [OF assms(1)] top_bit_bounds [OF assms(2)] by (simp_all add: i_def j_def)
  then have "(2 :: nat) ^ j < 2 ^ (i + 2)" using assms(3) by simp
  then have ij: "j < i + 2" by (rule power_less_imp_less_exp [rotated]) simp
  have "int i - int j - 1 \<le> ratio_log a b" using ratio_log_bounds(2) [of a b] by (simp add: i_def j_def)
  then have "0 < nat (max (- 1074) (ratio_log a b - 52) + 1074)" using ij by simp
  then show ?thesis unfolding round_ratio_def Let_def by (simp only: min_less_iff_conj add_gr_0 nat_0_less_mult_iff zero_less_power zero_less_numeral simp_thms)
qed

text \<open>A value of at most 1/4 in magnitude.\<close>

definition small_value :: "f64 \<Rightarrow> bool" where
  "small_value x \<longleftrightarrow> f64_finite x \<and> 4 * \<bar>f64_num x\<bar> \<le> f64_den x"

lemma small_bits:
  assumes "unat x = s * 2 ^ 63 + m" "s < 2" "m \<le> 1020 * 2 ^ 52"
  shows "small_value x"
proof -
  have m: "m < 2 ^ 63" using assms(3) by simp
  note f = sign_bit_fields [OF assms(1) m assms(2)]
  have "m div 2 ^ 52 \<le> 1020" using div_le_mono [OF assms(3), of "2 ^ 52"] by simp
  then have e: "f64_exp x \<le> 1020" by (simp add: f)
  define k where "k = max (f64_exp x) 1"
  have k: "k \<le> 1020" "k - 1075 = 0" using e by (simp_all add: k_def)
  have "f64_frac x < 2 ^ 52" by (simp add: f64_frac_def)
  then have "f64_sig x < 2 ^ 53" by (simp add: f64_sig_def)
  then have "4 * int (f64_sig x) < 2 ^ 55" by simp
  also have "\<dots> \<le> (2 :: int) ^ (1075 - k)" using k by (intro power_increasing) simp_all
  finally have "4 * \<bar>f64_num x\<bar> \<le> f64_den x"
    unfolding f64_num_def f64_den_def Let_def k_def [symmetric] k(2) by (simp add: abs_if)
  with e show ?thesis by (simp add: small_value_def f64_finite_def)
qed

lemma mk_bits: "s < 2 \<Longrightarrow> m < 2 ^ 63 \<Longrightarrow> unat (f64_mk s m) = s * 2 ^ 63 + m"
  by (simp add: f64_mk_def unat_of_nat del: of_nat_add of_nat_mult)

lemma small_quotient:
  assumes "f64_is x a" "f64_is y b" "\<bar>a\<bar> * 2 ^ 6 \<le> b" "0 < b"
  shows "small_value (f64_fabs (f64_div x y))"
proof -
  define n where "n = f64_num x * f64_den y * sgn (f64_num y)"
  define d where "d = f64_den x * \<bar>f64_num y\<bar>"
  define s where "s = (if f64_sign x = f64_sign y then 0 else 1 :: nat)"
  have y: "f64_num y = b * f64_den y" "0 < f64_num y" and x: "f64_num x = a * f64_den x"
    using assms f64_den_pos [of y] by (simp_all add: f64_is_def)
  have "f64_num y \<noteq> 0" using y(2) by linarith
  moreover have "f64_finite x" "f64_finite y" using assms(1,2) by (simp_all add: f64_is_def)
  ultimately have q: "f64_div x y = f64_of_ratio s n d"
    using f64_finite_simps [of x] f64_finite_simps [of y] unfolding f64_div_def Let_def s_def n_def d_def by (simp only: if_False simp_thms)
  have "\<bar>n\<bar> = \<bar>a\<bar> * (f64_den x * f64_den y)" "d = b * (f64_den x * f64_den y)"
    using x y assms(4) f64_den_pos [of x] f64_den_pos [of y] by (simp_all add: n_def d_def abs_mult)
  moreover have "\<bar>a\<bar> * 2 ^ 6 * (f64_den x * f64_den y) \<le> b * (f64_den x * f64_den y)"
    using assms(3) f64_den_pos by (intro mult_right_mono) (simp_all add: less_imp_le)
  ultimately have nd: "\<bar>n\<bar> * 2 ^ 6 \<le> d" "0 < d" using assms(4) f64_den_pos by (simp_all add: ac_simps)
  obtain t m where "f64_div x y = f64_mk t m" "t < 2" "m \<le> 1020 * 2 ^ 52"
  proof (cases "n = 0")
    case True
    then show thesis using that [of s 0] q by (simp add: f64_of_ratio_def s_def)
  next
    case False
    have "nat \<bar>n\<bar> * 2 ^ 6 \<le> nat d" using nd(1) by simp
    with round_ratio_small [of "nat \<bar>n\<bar>" "nat d"] False nd(2) have "round_ratio (nat \<bar>n\<bar>) (nat d) \<le> 1020 * 2 ^ 52" by simp
    then show thesis using that [of "if n < 0 then 1 else 0"] q False by (simp add: f64_of_ratio_def)
  qed
  note tm = this
  have "unat (f64_fabs (f64_div x y)) = 0 * 2 ^ 63 + m"
    using fabs_bits [OF mk_bits [OF tm(2), of m]] tm by simp
  from small_bits [OF this _ tm(3)] show ?thesis by simp
qed

text \<open>One less a small value is above 0.\<close>

lemma f64_is_one: "f64_is 0x3FF0000000000000 1"
  using f64_is_int [of 1] by (simp add: i64_to_f64_def f64_mk_def top_bit.simps Let_def)

lemma zero_bits:
  assumes "f64_is z 0"
  shows "unat z mod 2 ^ 63 = 0"
proof -
  obtain s m where sm: "unat z = s * 2 ^ 63 + m" "m < 2 ^ 63" "s < 2" by (rule sign_bits)
  note f = sign_bit_fields [OF sm]
  have "f64_num z = 0" using assms by (simp add: f64_is_def)
  then have "f64_sig z = 0" by (simp add: f64_num_def Let_def split: if_splits)
  then have "f64_exp z = 0" "f64_frac z = 0" by (simp_all add: f64_sig_def split: if_splits)
  then have "m div 2 ^ 52 = 0" "m mod 2 ^ 52 = 0" unfolding f by simp_all
  then have "m = 0" by (metis div_mult_mod_eq add.right_neutral mult_zero_left)
  then show ?thesis unfolding sm(1) by simp
qed

lemma one_less_small:
  assumes "f64_is x 1" "small_value p" "f64_sign p = 0" "f64_is z 0"
  shows "\<not> f64_le (f64_sub x p) z"
proof -
  define N where "N = f64_num x * f64_den p + - f64_num p * f64_den x"
  define D where "D = f64_den x * f64_den p"
  define R where "R = round_ratio (nat N) (nat D)"
  have p: "f64_finite p" "4 * f64_num p \<le> f64_den p" using assms(2) by (auto simp: small_value_def)
  have x: "f64_finite x" "f64_num x = f64_den x" using assms(1) by (simp_all add: f64_is_def)
  have "N = f64_den x * (f64_den p - f64_num p)" by (simp add: N_def x algebra_simps)
  moreover have q: "f64_den p \<le> 2 * (f64_den p - f64_num p)" "0 < f64_den p - f64_num p" using p(2) f64_den_pos [of p] by simp_all
  then have "f64_den x * f64_den p \<le> f64_den x * (2 * (f64_den p - f64_num p))" "0 < f64_den x * (f64_den p - f64_num p)"
    using f64_den_pos [of x] by (simp_all add: mult_left_mono)
  ultimately have nd: "0 < N" "0 < D" "D \<le> 2 * N" using f64_den_pos by (simp_all add: D_def)
  have "0 < R" unfolding R_def using nd by (intro round_ratio_pos) simp_all
  moreover have "R \<le> 2047 * 2 ^ 52" by (simp add: R_def round_ratio_def Let_def)
  ultimately have R: "0 < R" "R < 2 ^ 63" by simp_all
  have "\<not> f64_nan x" "\<not> f64_inf x" "\<not> f64_nan (f64_neg p)" "\<not> f64_inf (f64_neg p)"
    using x(1) p(1) f64_finite_simps [of x] f64_finite_simps [of "f64_neg p"] by (simp_all add: f64_neg_fields)
  then obtain t where "f64_sub x p = f64_of_ratio t N D"
    unfolding f64_sub_def f64_add_def N_def D_def f64_neg_fields by (simp only: if_False simp_thms)
  then have eq: "f64_sub x p = f64_mk 0 R" using nd(1) by (simp add: f64_of_ratio_def R_def)
  have u: "unat (f64_sub x p) = 0 * 2 ^ 63 + R" unfolding eq by (rule mk_bits) (use R in simp_all)
  have "f64_sign (f64_sub x p) = 0" by (rule sign_bit_fields(1) [OF u R(2)]) simp
  moreover from this have "0 \<le> f64_num (f64_sub x p)" by (simp add: f64_num_def Let_def)
  moreover have "f64_num z = 0" "\<not> f64_inf z" using assms(4) f64_finite_simps [of z] by (simp_all add: f64_is_def)
  ultimately have "\<not> f64_less (f64_sub x p) z" using f64_den_pos [of z] by (auto simp: f64_less_def not_less)
  moreover have "unat (f64_sub x p) mod 2 ^ 63 \<noteq> 0" unfolding u using R by simp
  then have "\<not> f64_eq (f64_sub x p) z" using zero_bits [OF assms(4)] by (auto simp: f64_eq_def)
  ultimately show ?thesis by (simp add: f64_le_def)
qed

end
