(* ===== verification/Sdb_Reduction.thy ===== *)
theory Sdb_Reduction
  imports Sdb_Consolidate Sdb_Roundtrip Double_Exact "HOL-Library.Multiset"
begin

text \<open>
  What the consolidation of a table computes, for a source whose octets fit one chunk: each
  column of the destination gets the first, the last or the middle cell of its source column as
  it is, or the number that its method makes of all of them. The cells of a longer table are read
  and copied across chunks, where the code goes wrong.
\<close>

section \<open>The contexts\<close>

definition event_number :: "event \<Rightarrow> f64 option" where
  "event_number e = (case e of E_int i \<Rightarrow> Some (i64_to_f64 i) | E_double d \<Rightarrow> Some d | _ \<Rightarrow> None)"

abbreviation cell_number :: "token \<Rightarrow> f64 option" where
  "cell_number t \<equiv> event_number (cell_event t)"

lemma data_number_event: "event_of x = Some e \<Longrightarrow> data_number x k = k (event_number e)"
  by (auto simp: event_of_def data_number_def event_number_def split: bsd_data_type_t.splits bsd_data_content_t.splits)

definition takes_numbers :: "sdb_consolidation_method_t \<Rightarrow> bool" where
  "takes_numbers m \<longleftrightarrow> m \<noteq> SDB_CM_FIRST \<and> m \<noteq> SDB_CM_LAST \<and> m \<noteq> SDB_CM_MIDDLE"

definition larger :: "f64 \<Rightarrow> f64 \<Rightarrow> f64" where
  "larger m d = (if f64_less m d then d else m)"

definition smaller :: "f64 \<Rightarrow> f64 \<Rightarrow> f64" where
  "smaller m d = (if f64_less d m then d else m)"

text \<open>The row of the source that is copied.\<close>

definition copied_row :: "sdb_consolidation_method_t \<Rightarrow> nat \<Rightarrow> nat" where
  "copied_row m rows = (if m = SDB_CM_FIRST then 0 else if m = SDB_CM_LAST then rows - 1 else rows div 2)"

text \<open>The context of a column of \<open>rows\<close> cells, after the cells \<open>cs\<close>, each with its offset.\<close>

definition content_after :: "sdb_consolidation_method_t \<Rightarrow> nat \<Rightarrow> (token \<times> nat) list \<Rightarrow> sdb_cons_ctx_content_t" where
  "content_after m rows cs =
     (let ds = map (\<lambda>c. the (cell_number (fst c))) cs; k = copied_row m rows in
      case m of
        SDB_CM_MAX \<Rightarrow> if cs = [] then CC_unset else CC_double (foldl larger (hd ds) (tl ds))
      | SDB_CM_MIN \<Rightarrow> if cs = [] then CC_unset else CC_double (foldl smaller (hd ds) (tl ds))
      | SDB_CM_MEDIAN \<Rightarrow> CC_median (ds @ replicate (rows - length ds) 0)
      | SDB_CM_SUM \<Rightarrow> CC_double (foldl f64_add 0 ds)
      | SDB_CM_MEAN \<Rightarrow> CC_double (foldl f64_add 0 ds)
      | _ \<Rightarrow> if k < length cs then CC_streampos (snd (cs ! k)) (length (cell_octets (fst (cs ! k)))) else CC_unset)"

definition ctx_after :: "sdb_consolidation_method_t \<Rightarrow> nat \<Rightarrow> (token \<times> nat) list \<Rightarrow> sdb_cons_ctx_t" where
  "ctx_after m rows cs = \<lparr>cx_method = m, cx_state = SDB_CCS_RUNNING, cx_iteration = length cs, cx_nrows = rows,
     cx_content = content_after m rows cs\<rparr>"

lemma cons_init_ctx: "env_malloc env \<Longrightarrow> cons_init env m rows = (SDB_EOK, ctx_after m rows [])"
  by (cases m) (simp_all add: cons_init_def ctx_after_def content_after_def Let_def)

lemma init_all_ctx:
  "env_malloc env \<Longrightarrow> init_all env rows ccs = Some (map (\<lambda>cc. ctx_after (cc_method cc) rows []) ccs)"
  by (induction ccs) (simp_all add: cons_init_ctx)

lemma replicate_set_first: "0 < n \<Longrightarrow> (replicate n a)[0 := d] = d # replicate (n - 1) a"
  by (cases n) simp_all

lemma cons_reduce_ctx:
  assumes "length cs < rows" "rows < 65536" "takes_numbers m \<longrightarrow> cell_number t \<noteq> None" "event_of x = Some (cell_event t)"
  shows "cons_reduce x off (length (cell_octets t)) (ctx_after m rows cs) = Returned (ctx_after m rows (cs @ [(t, off)]))"
proof (cases "takes_numbers m")
  case True
  with assms(3) obtain d where d: "cell_number t = Some d" by auto
  show ?thesis using True assms(1,2)
    by (cases m; cases "cs = []")
      (simp_all add: takes_numbers_def cons_reduce_def ctx_after_def content_after_def Let_def data_number_event [OF assms(4)] d
        reduce_number_def larger_def smaller_def list_update_append replicate_set_first)
next
  case False
  then show ?thesis using assms(1,2)
    by (cases m)
      (auto simp: takes_numbers_def cons_reduce_def ctx_after_def content_after_def copied_row_def Let_def nth_append)
qed

section \<open>One column\<close>

lemma column_cells_map: "column_cells n j (map f ts) = map f (column_cells n j ts)"
  by (simp add: column_cells_def)

lemma column_cells_count:
  "length ts = q * n + p \<Longrightarrow> p < n \<Longrightarrow> j < n \<Longrightarrow> length (column_cells n j ts) = q + (if j < p then 1 else 0)"
proof (induction ts arbitrary: q p rule: rev_induct)
  case (snoc t ts)
  show ?case
  proof (cases p)
    case 0
    with snoc.prems obtain q' where q: "q = Suc q'" by (cases q) auto
    from snoc.prems have l: "length ts = q' * n + (n - 1)" "n - 1 < n" by (simp_all add: 0 q)
    have "length ts mod n = n - 1" unfolding l(1) using l(2) by (simp only: mod_mult_self3 mod_less)
    with snoc.IH [OF l snoc.prems(3)] snoc.prems show ?thesis by (auto simp: column_cells_snoc 0 q)
  next
    case (Suc p')
    from snoc.prems have l: "length ts = q * n + p'" "p' < n" by (simp_all add: Suc)
    from snoc.IH [OF l snoc.prems(3)] snoc.prems l show ?thesis by (auto simp: column_cells_snoc Suc)
  qed
qed simp

text \<open>The cells with their offsets.\<close>

fun placed :: "nat \<Rightarrow> token list \<Rightarrow> (token \<times> nat) list" where
  "placed off [] = []"
| "placed off (t # ts) = (t, off) # placed (off + length (cell_octets t)) ts"

lemma placed_append: "placed off (ts @ us) = placed off ts @ placed (off + length (octets_of ts)) us"
  by (induction ts arbitrary: off) (simp_all add: add.assoc)

lemma map_fst_placed [simp]: "map fst (placed off ts) = ts"
  by (induction ts arbitrary: off) simp_all

lemma length_placed [simp]: "length (placed off ts) = length ts"
  by (induction ts arbitrary: off) simp_all

lemma placed_cell_at:
  "ram_ok st \<Longrightarrow> cells_at st off ts \<Longrightarrow> (t, o') \<in> set (placed off ts) \<Longrightarrow> cell_at st o' t"
  by (induction ts arbitrary: off) (auto dest: cells_at_Cons)

section \<open>Reading the source\<close>

lemma skip_in_one_chunk:
  assumes "length (st_chunks st) = 1" "rd_kind ctx = SDB_SK_RAM" "rd_chunk ctx = Some 0"
  shows "sdb_read_data env st ctx x skip = sdb_read_data env st ctx x False"
proof -
  have "read_rest env st 0 p skip = read_rest env st 0 p False" for p
    using assms(1) by (intro ext) (simp add: read_rest_def read_across_def chunk_at_def Let_def)
  with assms show ?thesis by (simp add: sdb_read_data_def sdb_read_ram_data_def chunk_at_def Let_def)
qed

lemma reduce_all_updates:
  assumes "distinct is" "\<forall>i \<in> set is. i < length ctxs \<and> cons_reduce x off n (ctxs ! i) = Returned (f i)"
  shows "reduce_all x off n is ctxs = Returned (map (\<lambda>i. if i \<in> set is then f i else ctxs ! i) [0..<length ctxs])"
  using assms
proof (induction "is" arbitrary: ctxs)
  case Nil
  then show ?case by (simp add: map_nth)
next
  case (Cons i "is")
  have "reduce_all x off n is (ctxs[i := f i]) =
      Returned (map (\<lambda>k. if k \<in> set is then f k else ctxs[i := f i] ! k) [0..<length ctxs])"
    using Cons.IH [of "ctxs[i := f i]"] Cons.prems by (auto simp: nth_list_update)
  with Cons.prems show ?case by (auto simp: nth_list_update)
qed

lemma matrix_row_users: "distinct (matrix_row ccs j)" "set (matrix_row ccs j) = {i. i < length ccs \<and> src_column (ccs ! i) = j}"
  by (auto simp: matrix_row_def)

definition ctxs_after :: "nat \<Rightarrow> nat \<Rightarrow> sdb_cons_column_t list \<Rightarrow> token list \<Rightarrow> sdb_cons_ctx_t list" where
  "ctxs_after n rows ccs ts = map (\<lambda>cc. ctx_after (cc_method cc) rows (column_cells n (src_column cc) (placed 0 ts))) ccs"

text \<open>The cells of the columns that are consolidated by a number are numbers.\<close>

definition numeric_cells :: "nat \<Rightarrow> sdb_cons_column_t list \<Rightarrow> token list \<Rightarrow> bool" where
  "numeric_cells n ccs ts \<longleftrightarrow>
     list_all (\<lambda>cc. takes_numbers (cc_method cc) \<longrightarrow> list_all (\<lambda>t. cell_number t \<noteq> None) (column_cells n (src_column cc) ts)) ccs"

lemma numeric_cells_snoc:
  "numeric_cells n ccs (ts @ [t]) \<Longrightarrow> numeric_cells n ccs ts \<and>
     (\<forall>cc \<in> set ccs. src_column cc = length ts mod n \<longrightarrow> takes_numbers (cc_method cc) \<longrightarrow> cell_number t \<noteq> None)"
  by (fastforce simp: numeric_cells_def list_all_iff column_cells_snoc)

lemma numeric_cells_prefix: "numeric_cells n ccs (ts @ us) \<Longrightarrow> numeric_cells n ccs ts"
  by (induction us rule: rev_induct) (simp_all add: numeric_cells_snoc flip: append_assoc)

lemma reduce_cell:
  assumes "n \<noteq> 0" "length ts < rows * n" "rows < 65536" "numeric_cells n ccs (ts @ [t])" "event_of x = Some (cell_event t)"
  shows "reduce_all x (length (octets_of ts)) (length (cell_octets t)) (matrix_row ccs (length ts mod n)) (ctxs_after n rows ccs ts) =
     Returned (ctxs_after n rows ccs (ts @ [t]))"
proof -
  let ?j = "length ts mod n"
  have j: "?j < n" using assms(1) by simp
  have "length ts = (length ts div n) * n + ?j" by simp
  from column_cells_count [OF _ j j, of "placed 0 ts" "length ts div n"]
  have l: "length (column_cells n ?j (placed 0 ts)) < rows" using assms(2) by (simp add: less_mult_imp_div_less)
  let ?f = "\<lambda>i. ctxs_after n rows ccs (ts @ [t]) ! i"
  have s: "column_cells n k (placed 0 (ts @ [t])) = column_cells n k (placed 0 ts) @ (if ?j = k then [(t, length (octets_of ts))] else [])" for k
    by (simp add: placed_append column_cells_snoc)
  have "cons_reduce x (length (octets_of ts)) (length (cell_octets t)) (ctxs_after n rows ccs ts ! i) = Returned (?f i)"
    if "i < length ccs" "src_column (ccs ! i) = ?j" for i
  proof -
    have "takes_numbers (cc_method (ccs ! i)) \<longrightarrow> cell_number t \<noteq> None"
      using numeric_cells_snoc [OF assms(4)] that nth_mem [of i ccs] by blast
    from cons_reduce_ctx [OF l assms(3) this assms(5)] that show ?thesis by (simp add: ctxs_after_def s)
  qed
  then have "reduce_all x (length (octets_of ts)) (length (cell_octets t)) (matrix_row ccs ?j) (ctxs_after n rows ccs ts) =
     Returned (map (\<lambda>i. if i \<in> set (matrix_row ccs ?j) then ?f i else ctxs_after n rows ccs ts ! i) [0..<length ccs])"
    by (subst reduce_all_updates) (auto simp: matrix_row_users ctxs_after_def)
  moreover have "map (\<lambda>i. if i \<in> set (matrix_row ccs ?j) then ?f i else ctxs_after n rows ccs ts ! i) [0..<length ccs] =
      ctxs_after n rows ccs (ts @ [t])"
    by (rule nth_equalityI) (auto simp: matrix_row_users ctxs_after_def s)
  ultimately show ?thesis by simp
qed

lemma consolidate_cells_reduce:
  assumes host: "env_host env = TLITTLE_ENDIAN" "env_malloc env" and rd: "readable st" "length (st_chunks st) = 1"
    and cells: "ram_ok st" and n: "n \<noteq> 0" and rows: "length ts + length us \<le> rows * n" "rows < 65536"
    and num: "numeric_cells n ccs (ts @ us)" and at_: "cells_at st (length (octets_of ts)) (us @ vs)"
    and pos: "positioned (length (octets_of ts)) rctx"
  shows "\<exists>rctx'. consolidate_cells env ccs (map (\<lambda>k. k mod n) [length ts..<length ts + length us]) st rctx (ctxs_after n rows ccs ts) =
     Returned (True, st, rctx', ctxs_after n rows ccs (ts @ us))"
  using rows num at_ pos
proof (induction us arbitrary: ts rctx)
  case (Cons t us)
  let ?off = "length (octets_of ts)"
  have c: "cell_at st ?off t" "cells_at st (?off + length (cell_octets t)) (us @ vs)"
    using cells_at_Cons [OF cells] Cons.prems(4) by simp_all
  have "nwrittenbytes st div SDB_CHUNK_SIZE = 0" using rd cells by (simp add: ram_ok_def)
  then have "nwrittenbytes st < SDB_CHUNK_SIZE" by (simp add: sdb_size_defs div_eq_0_iff)
  then have z: "?off div SDB_CHUNK_SIZE = 0" using cell_at_bounds(4) [OF c(1)] by simp
  have k: "rd_kind rctx = SDB_SK_RAM" "rd_chunk rctx = Some 0" "nreadbytes rctx = ?off"
    using Cons.prems(5) z by (simp_all add: positioned_def)
  from read_cell [OF host rd(1) c(1) Cons.prems(5), of False blank_data] obtain rctx' x' where
    r: "sdb_read_data env st rctx blank_data False = Returned (int (length (cell_octets t)), st, rctx', x')"
      "positioned (?off + length (cell_octets t)) rctx'" "event_of x' = Some (cell_event t)"
    using k by (auto simp: cell_read_def)
  have num: "numeric_cells n ccs (ts @ [t])" using Cons.prems(3) numeric_cells_prefix [of n ccs "ts @ [t]" us] by simp
  have l: "length ts < rows * n" using Cons.prems(1) by simp
  note red = reduce_cell [OF n l rows(2) num r(3)]
  have ih: "length (ts @ [t]) + length us \<le> rows * n" "numeric_cells n ccs ((ts @ [t]) @ us)"
    "cells_at st (length (octets_of (ts @ [t]))) (us @ vs)" "positioned (length (octets_of (ts @ [t]))) rctx'"
    using Cons.prems(1,3) c(2) r(2) by simp_all
  from Cons.IH [OF ih(1) rows(2) ih(2-4)] obtain rctx'' where
    rest: "consolidate_cells env ccs (map (\<lambda>k. k mod n) [length (ts @ [t])..<length (ts @ [t]) + length us]) st rctx' (ctxs_after n rows ccs (ts @ [t])) =
      Returned (True, st, rctx'', ctxs_after n rows ccs ((ts @ [t]) @ us))" by blast
  have upt: "[length ts..<length ts + length (t # us)] = length ts # [length (ts @ [t])..<length (ts @ [t]) + length us]"
    by (subst upt_conv_Cons) simp_all
  have skip: "sdb_read_data env st rctx blank_data b = Returned (int (length (cell_octets t)), st, rctx', x')" for b
    using skip_in_one_chunk [OF rd(2) k(1,2), of env blank_data b] r(1) by simp
  have "consolidate_cells env ccs (length ts mod n # is) st rctx (ctxs_after n rows ccs ts) =
      consolidate_cells env ccs is st rctx' (ctxs_after n rows ccs (ts @ [t]))" for "is"
    using red k(3) by (simp add: skip)
  with rest show ?case unfolding upt list.map by simp
qed simp

section \<open>Writing the destination\<close>

lemma copied_rel:
  assumes r: "table_rel ms dst us" and sm: "list_all (\<lambda>sm. \<not> smallest sm) ms" and t: "cell_ok t"
    and w: "sdb_bss_writer (cell_octets t) (store dst) = (n, st)"
  shows "n = int (length (cell_octets t))" "\<not> st_fault st" "table_rel ms (count_written (dst\<lparr>store := st\<rparr>)) (us @ [t])"
proof -
  have f: "filling (length ms) (length us) (store dst)" "length (cell_octets t) < SDB_DATA_SIZE_LIMIT"
    using r t by (simp_all add: table_rel_def cell_ok_def)
  have n: "n = int (length (cell_octets t))" "filling (length ms) (length us) st"
    using writer_accepts [OF f(2), of "length ms" "length us"] f(1) w unfolding accepting_in_def by (metis fst_conv snd_conv order_refl)+
  have c: "chain_octets st = chain_octets (store dst) @ cell_octets t"
    using writer_law_ram [OF _ w, of "chain_octets (store dst)"] f(1) n(1) by (auto simp: ram_content_def filling_def split: if_splits)
  have "\<not> smallest (serialization_method (columns dst ! j))" if "j < length ms" for j
    using analysed_method [OF that r] sm that by (simp add: list_all_iff)
  then show "n = int (length (cell_octets t))" "\<not> st_fault st" "table_rel ms (count_written (dst\<lparr>store := st\<rparr>)) (us @ [t])"
    using r t n c
    by (auto simp: table_rel_def count_written_def filling_def ram_ok_def chain_octets_def last_data_def analysed_def)
qed

text \<open>The static variables: nothing is remembered of the source, or a place in its only chunk.\<close>

definition static_ok :: "nat \<Rightarrow> sdb_store \<Rightarrow> copy_static \<Rightarrow> bool" where
  "static_ok src_addr st sta \<longleftrightarrow>
     (last_src sta = Some src_addr \<longrightarrow> last_offset sta < SDB_CHUNK_SIZE \<and> src_chunk sta = chunk_addr st 0)"

lemma copy_cell:
  assumes r: "table_rel ms dst us" and sm: "list_all (\<lambda>sm. \<not> smallest sm) ms" and ok: "ram_ok (store src)"
    and one: "length (st_chunks (store src)) = 1" and t: "cell_at (store src) off t" and sta: "static_ok src_addr (store src) sta"
  shows "\<exists>dst' sta'. copy_data src_addr src off (length (cell_octets t)) dst sta = Returned (SDB_EOK, dst', sta') \<and>
     table_rel ms dst' (us @ [t]) \<and> static_ok src_addr (store src) sta'"
proof -
  define C where "C = SDB_CHUNK_SIZE"
  define len where "len = length (cell_octets t)"
  define st where "st = store src"
  have "nwrittenbytes st div C = 0" using ok one by (simp add: ram_ok_def st_def C_def)
  then have "nwrittenbytes st < C" by (simp add: C_def sdb_size_defs div_eq_0_iff)
  then have o: "off + len < C" "0 < len" using cell_at_bounds [OF t] by (simp_all add: st_def len_def)
  have d: "take len (drop off (ch_data (st_chunks st ! 0))) = cell_octets t" "off + len \<le> length (ch_data (st_chunks st ! 0))"
    using written_window(2,3) [OF ok, of off 0 off len] cell_at_bounds(4) [OF t] o cell_prefix [OF t, of len]
    by (simp_all add: st_def C_def len_def)
  let ?again = "last_src sta = Some src_addr \<and> last_offset sta \<le> off"
  have skip: "skip_chunks st (if ?again then src_chunk sta else chunk_addr st 0)
      (if ?again then off div C - last_offset sta div C else off div C) k = k 0" for k :: "nat \<Rightarrow> copy_result"
    using sta one o by (auto simp: static_ok_def skip_chunks_def chunk_addr_def st_def C_def neq_Nil_conv length_Suc_conv)
  obtain n st' where w: "sdb_bss_writer (cell_octets t) (store dst) = (n, st')" by fastforce
  note c = copied_rel [OF r sm cell_at_bounds(1) [OF t] w]
  have k: "st_kind st = SDB_SK_RAM" using ok by (simp add: ram_ok_def st_def)
  have m: "off mod C = off" "len \<le> C - off" using o by simp_all
  let ?sta = "sta\<lparr>src_chunk := chunk_addr st 0, last_offset := off + len, last_src := Some src_addr\<rparr>"
  have "copy_data_ram src_addr src off len dst sta = Returned (SDB_EOK, dst\<lparr>store := st'\<rparr>, ?sta)"
    unfolding copy_data_ram_def Let_def st_def [symmetric] C_def [symmetric] skip
    using m d w c(1,2) by (simp add: load_n_in write_to_def)
  moreover have "static_ok src_addr st ?sta" using o by (simp add: static_ok_def C_def)
  ultimately show ?thesis using c(3) k by (auto simp: copy_data_def st_def len_def)
qed

text \<open>The number that a method makes of the numbers of a column, and the cell it is written as.\<close>

definition result_number :: "sdb_consolidation_method_t \<Rightarrow> f64 list \<Rightarrow> f64" where
  "result_number m ds =
     (case m of
        SDB_CM_MAX \<Rightarrow> foldl larger (hd ds) (tl ds)
      | SDB_CM_MIN \<Rightarrow> foldl smaller (hd ds) (tl ds)
      | SDB_CM_MEDIAN \<Rightarrow> sort_doubles ds ! (length ds div 2)
      | SDB_CM_MEAN \<Rightarrow> f64_div (foldl f64_add 0 ds) (i64_to_f64 (int (length ds)))
      | _ \<Rightarrow> foldl f64_add 0 ds)"

definition number_token :: "f64 \<Rightarrow> token" where
  "number_token d = (case f64_to_i32 d of Some i \<Rightarrow> if f64_eq (i64_to_f64 i) d then T_int i else T_double d | None \<Rightarrow> T_double d)"

abbreviation cell_numbers :: "token list \<Rightarrow> f64 list" where
  "cell_numbers vs \<equiv> map (\<lambda>t. the (cell_number t)) vs"

text \<open>The cell that a column with the serialization method \<open>sm\<close> gets from the cells \<open>vs\<close>.\<close>

definition consolidated :: "nat \<Rightarrow> sdb_consolidation_method_t \<Rightarrow> token list \<Rightarrow> token" where
  "consolidated sm m vs =
     (if takes_numbers m then stored sm (number_token (result_number m (cell_numbers vs))) else vs ! copied_row m (length vs))"

text \<open>The number has a cell: it is in the range of \<open>int\<close>, behind which the conversion is undefined.\<close>

definition representable :: "nat list \<Rightarrow> sdb_consolidation_method_t \<Rightarrow> token list \<Rightarrow> bool" where
  "representable ms m vs \<longleftrightarrow> (takes_numbers m \<longrightarrow>
     (let d = result_number m (cell_numbers vs) in f64_to_i32 d \<noteq> None \<and> storable ms (number_token d)))"

text \<open>
  Comparison is a strict order, so the largest and the smallest number are what they are called,
  and the numbers are sorted for the median.
\<close>

lemma f64_less_irrefl: "\<not> f64_less x x"
  by (simp add: f64_less_def)

lemma cross_less_trans:
  fixes a b c :: int
  assumes "a * y < b * x" "b * z < c * y" "0 < x" "0 < y" "0 < z"
  shows "a * z < c * x"
proof -
  have "(a * y) * z < (b * x) * z" "(b * z) * x < (c * y) * x" using assms by (simp_all add: mult_strict_right_mono)
  then have "(a * z) * y < (c * x) * y" by (simp add: mult.assoc mult.commute [of x z]) (simp add: ac_simps)
  then show ?thesis using assms(4) by (simp add: mult_less_cancel_right)
qed

lemma f64_less_trans: "f64_less x y \<Longrightarrow> f64_less y z \<Longrightarrow> f64_less x z"
  using cross_less_trans [OF _ _ f64_den_pos f64_den_pos f64_den_pos, of "f64_num x" y "f64_num y" x z "f64_num z"]
    f64_sign_cases [of y]
  by (auto simp: f64_less_def split: if_splits)

lemma f64_zero_fields:
  assumes "unat x mod 2 ^ 63 = 0"
  shows "\<not> f64_inf x" "f64_num x = 0" "f64_den x = 2 ^ 1074"
proof -
  have "unat x = f64_sign x * 2 ^ 63" using assms by (simp add: f64_sign_def mod_eq_0_iff_dvd)
  then have "unat x = 0 \<or> unat x = 2 ^ 63" using f64_sign_cases [of x] by auto
  then show "\<not> f64_inf x" "f64_num x = 0" "f64_den x = 2 ^ 1074"
    by (auto simp: f64_inf_def f64_num_def f64_den_def f64_sig_def f64_exp_def f64_frac_def Let_def)
qed

lemma f64_eq_less: "f64_eq y z \<Longrightarrow> f64_less x y \<Longrightarrow> f64_less x z"
  by (auto simp: f64_eq_def f64_less_def f64_zero_fields split: if_splits)

lemma larger_all:
  "\<forall>d \<in> D. \<not> f64_less m d \<Longrightarrow>
   foldl larger m es \<in> insert m (set es) \<and> (\<forall>d \<in> D \<union> set es. \<not> f64_less (foldl larger m es) d)"
proof (induction es arbitrary: m D)
  case (Cons e es)
  have "\<forall>d \<in> insert e D. \<not> f64_less (larger m e) d"
    using Cons.prems f64_less_trans f64_less_irrefl by (auto simp: larger_def)
  from Cons.IH [OF this] show ?case by (auto simp: larger_def split: if_splits)
qed simp

lemma smaller_all:
  "\<forall>d \<in> D. \<not> f64_less d m \<Longrightarrow>
   foldl smaller m es \<in> insert m (set es) \<and> (\<forall>d \<in> D \<union> set es. \<not> f64_less d (foldl smaller m es))"
proof (induction es arbitrary: m D)
  case (Cons e es)
  have "\<forall>d \<in> insert e D. \<not> f64_less d (smaller m e)"
    using Cons.prems f64_less_trans f64_less_irrefl by (auto simp: smaller_def)
  from Cons.IH [OF this] show ?case by (auto simp: smaller_def split: if_splits)
qed simp

lemma cmp_pdouble_le: "cmp_pdouble d e \<le> 0 \<longleftrightarrow> f64_eq d e \<or> f64_less d e"
  by (simp add: cmp_pdouble_def)

lemma mset_insert_double [simp]: "mset (insert_double d es) = add_mset d (mset es)"
  by (induction es) simp_all

lemma set_insert_double [simp]: "set (insert_double d es) = insert d (set es)"
  by (induction es) auto

lemma insert_double_sorted:
  "sorted_wrt (\<lambda>a b. \<not> f64_less b a) es \<Longrightarrow> sorted_wrt (\<lambda>a b. \<not> f64_less b a) (insert_double d es)"
proof (induction es)
  case (Cons e es)
  have e: "\<forall>x \<in> set es. \<not> f64_less x e" using Cons.prems by simp
  show ?case
  proof (cases "cmp_pdouble d e \<le> 0")
    case True
    then have "\<not> f64_less x d" if "\<not> f64_less x e" for x
      unfolding cmp_pdouble_le using that f64_less_trans [of x d e] f64_eq_less [of d e x] by blast
    with True e Cons.prems f64_less_irrefl show ?thesis by simp
  next
    case False
    then have "\<not> f64_less d e" by (simp add: cmp_pdouble_le)
    with False e Cons show ?thesis by simp
  qed
qed simp

lemma result_number_meaning:
  assumes "ds \<noteq> []"
  shows "result_number SDB_CM_MAX ds \<in> set ds" "\<forall>d \<in> set ds. \<not> f64_less (result_number SDB_CM_MAX ds) d"
    "result_number SDB_CM_MIN ds \<in> set ds" "\<forall>d \<in> set ds. \<not> f64_less d (result_number SDB_CM_MIN ds)"
    "sorted_wrt (\<lambda>a b. \<not> f64_less b a) (sort_doubles ds)" "mset (sort_doubles ds) = mset ds"
proof -
  show "sorted_wrt (\<lambda>a b. \<not> f64_less b a) (sort_doubles ds)" "mset (sort_doubles ds) = mset ds"
    unfolding sort_doubles_def by (induction ds) (simp_all add: insert_double_sorted)
  obtain d es where ds: "ds = d # es" using assms by (cases ds) auto
  show "result_number SDB_CM_MAX ds \<in> set ds" "\<forall>d \<in> set ds. \<not> f64_less (result_number SDB_CM_MAX ds) d"
    "result_number SDB_CM_MIN ds \<in> set ds" "\<forall>d \<in> set ds. \<not> f64_less d (result_number SDB_CM_MIN ds)"
    using larger_all [of "{d}" d es] smaller_all [of "{d}" d es] by (auto simp: result_number_def ds f64_less_irrefl)
qed

lemma sdb_number_rel:
  assumes r: "table_rel ms tbl ts" and d: "f64_to_i32 d \<noteq> None" "storable ms (number_token d)"
  shows "\<exists>tbl'. sdb_number TLITTLE_ENDIAN d tbl = Returned (SDB_EOK, tbl') \<and>
     table_rel ms tbl' (ts @ [stored (ms ! (length ts mod length ms)) (number_token d)])"
proof -
  have "sdb_number TLITTLE_ENDIAN d tbl = sdb_cell (number_token d) tbl"
    using d(1) by (auto simp: sdb_number_def number_token_def sdb_cell_def)
  with sdb_cell_rel [OF r d(2)] show ?thesis by simp
qed

lemma finalize_cell:
  assumes r: "table_rel ms dst us" and sm: "list_all (\<lambda>sm. \<not> smallest sm) ms" and ok: "ram_ok (store src)"
    and one: "length (st_chunks (store src)) = 1" and cs: "\<forall>(t, off) \<in> set cs. cell_at (store src) off t" "cs \<noteq> []"
    and sta: "static_ok src_addr (store src) sta" and rep: "representable ms m (map fst cs)"
  shows "\<exists>dst' sta'. cons_finalize TLITTLE_ENDIAN src_addr src (ctx_after m (length cs) cs) dst sta = Returned (dst', sta') \<and>
     table_rel ms dst' (us @ [consolidated (ms ! (length us mod length ms)) m (map fst cs)]) \<and> static_ok src_addr (store src) sta'"
proof (cases "takes_numbers m")
  case True
  let ?d = "result_number m (cell_numbers (map fst cs))"
  have d: "f64_to_i32 ?d \<noteq> None" "storable ms (number_token ?d)" using rep True by (simp_all add: representable_def Let_def)
  have "cons_finalize TLITTLE_ENDIAN src_addr src (ctx_after m (length cs) cs) dst sta = ignoring (sdb_number TLITTLE_ENDIAN ?d dst) sta"
    using True cs(2)
    by (cases m) (simp_all add: cons_finalize_def ctx_after_def content_after_def takes_numbers_def result_number_def Let_def comp_def)
  with sdb_number_rel [OF r d] sta True show ?thesis by (auto simp: ignoring_def consolidated_def)
next
  case False
  let ?k = "copied_row m (length cs)"
  have k: "?k < length cs" using cs(2) by (simp add: copied_row_def)
  obtain t off where c: "cs ! ?k = (t, off)" by fastforce
  have t: "cell_at (store src) off t" using cs(1) nth_mem [OF k] c by fastforce
  have e: "consolidated sm m (map fst cs) = t" for sm using False k c by (simp add: consolidated_def)
  have "cons_finalize TLITTLE_ENDIAN src_addr src (ctx_after m (length cs) cs) dst sta =
      run (copy_data src_addr src off (length (cell_octets t)) dst sta) (\<lambda>(r, dst, sta).
        if r \<noteq> SDB_EOK then ignoring (sdb_null dst) sta else Returned (dst, sta))"
    using False k c by (cases m) (simp_all add: cons_finalize_def ctx_after_def content_after_def takes_numbers_def Let_def)
  with copy_cell [OF r sm ok one t sta] show ?thesis unfolding e by auto
qed

lemma finalize_columns:
  fixes ccs :: "sdb_cons_column_t list"
  assumes sm: "list_all (\<lambda>sm. \<not> smallest sm) ms" and ok: "ram_ok (store src)" "length (st_chunks (store src)) = 1"
    and cols: "\<forall>cc \<in> set ccs. f cc \<noteq> [] \<and> length (f cc) = rows \<and> (\<forall>(t, off) \<in> set (f cc). cell_at (store src) off t) \<and>
      representable ms (cc_method cc) (map fst (f cc))"
    and r: "table_rel ms dst us" and sta: "static_ok src_addr (store src) sta"
  shows "\<exists>dst' sta'. finalize_all TLITTLE_ENDIAN src_addr src (map (\<lambda>cc. ctx_after (cc_method cc) rows (f cc)) ccs) dst sta =
      Returned (dst', sta') \<and>
     table_rel ms dst' (us @ map (\<lambda>(i, cc). consolidated (ms ! ((length us + i) mod length ms)) (cc_method cc) (map fst (f cc)))
       (enumerate 0 ccs))"
  using cols r sta
proof (induction ccs arbitrary: us dst sta)
  case (Cons cc ccs)
  have c: "f cc \<noteq> []" "length (f cc) = rows" "\<forall>(t, off) \<in> set (f cc). cell_at (store src) off t" "representable ms (cc_method cc) (map fst (f cc))"
    using Cons.prems(1) by simp_all
  from finalize_cell [OF Cons.prems(2) sm ok c(3,1) Cons.prems(3) c(4)] obtain dst1 sta1 where
    1: "cons_finalize TLITTLE_ENDIAN src_addr src (ctx_after (cc_method cc) rows (f cc)) dst sta = Returned (dst1, sta1)"
      "table_rel ms dst1 (us @ [consolidated (ms ! (length us mod length ms)) (cc_method cc) (map fst (f cc))])"
      "static_ok src_addr (store src) sta1" unfolding c(2) by blast
  have e: "map (\<lambda>(i, cc). g (length us + i) cc) (enumerate (Suc 0) ccs) = map (\<lambda>(i, cc). g (Suc (length us) + i) cc) (enumerate 0 ccs)"
    for g :: "nat \<Rightarrow> sdb_cons_column_t \<Rightarrow> token"
    by (simp add: enumerate_Suc_eq case_prod_beta)
  from Cons.IH [OF _ 1(2,3)] Cons.prems(1) 1(1) show ?case
    using e [of "\<lambda>i cc. consolidated (ms ! (i mod length ms)) (cc_method cc) (map fst (f cc))"] by auto
qed simp

section \<open>Consolidating a table\<close>

lemma rows_columns: "n \<noteq> 0 \<Longrightarrow> concat (replicate rows [0..<n]) = map (\<lambda>k. k mod n) [0..<rows * n]"
proof (induction rows)
  case (Suc rows)
  have r: "replicate (Suc rows) [0..<n] = replicate rows [0..<n] @ [[0..<n]]" by (metis replicate_Suc replicate_append_same)
  have "map (\<lambda>k. k mod n) [rows * n..<rows * n + n] = [0..<n]"
    by (rule nth_equalityI) (simp, simp del: upt_Suc)
  moreover have "[0..<Suc rows * n] = [0..<rows * n] @ [rows * n..<rows * n + n]"
    by (simp only: mult_Suc add.commute [of n] upt_add_eq_append [of 0] le0)
  ultimately show ?case using Suc.IH [OF Suc.prems] unfolding r by (simp only: concat_append map_append concat.simps append_Nil2)
qed simp

lemma read_init_blank:
  "ram_ok st \<Longrightarrow> \<exists>ctx. sdb_read_init env st blank_read_ctx = Returned (st, ctx) \<and> positioned 0 ctx"
  using read_init_positioned [of st blank_read_ctx env] by (auto simp: blank_read_ctx_def STACK_SIZE_def)

text \<open>The description of the consolidation is complete, and for every column there is a result.\<close>

definition cons_ready :: "sdb_table_t \<Rightarrow> token list \<Rightarrow> nat list \<Rightarrow> sdb_cons_column_t list \<Rightarrow> bool" where
  "cons_ready src ts ms ccs \<longleftrightarrow>
     (\<exists>cons. consolidation src = Some cons \<and> dst_columns cons = map Some ccs) \<and> length ccs = length ms \<and>
     numeric_cells (ncolumns src) ccs ts \<and>
     list_all (\<lambda>cc. src_column cc < ncolumns src \<and> representable ms (cc_method cc) (column_cells (ncolumns src) (src_column cc) ts)) ccs"



section \<open>A table of two rows\<close>

definition list_columns :: "column_conf list" where
  "list_columns = [([0x74], SDB_SM_LIST, 0), ([0x76], SDB_SM_LIST, 0)]"

definition row_ops :: "table_op list" where
  "row_ops = [Op_cell (T_int 5), Op_cell (T_string [0x61]), Op_cell (T_int (- 300)), Op_cell T_null]"

definition max_and_last :: "sdb_cons_column_t list" where
  "max_and_last = [\<lparr>cc_method = SDB_CM_MAX, src_column = 0\<rparr>, \<lparr>cc_method = SDB_CM_LAST, src_column = 1\<rparr>]"

lemma row_cells: "cells_after list_columns row_ops = [T_int 5, T_string [0x61], T_int (- 300), T_null]"
  by (simp add: cells_after_def list_columns_def row_ops_def cells_do_def stored_def)

lemma row_columns:
  "column_cells 2 0 [T_int 5, T_string [0x61], T_int (- 300), T_null] = [T_int 5, T_int (- 300)]"
  "column_cells 2 1 [T_int 5, T_string [0x61], T_int (- 300), T_null] = [T_string [0x61], T_null]"
  by (simp_all add: column_cells_def upt_rec)

lemma list_methods: "methods list_columns = [SDB_SM_LIST, SDB_SM_LIST]" "length list_columns = 2"
  "list_all (\<lambda>sm. \<not> smallest sm) (methods list_columns)"
  by (simp_all add: list_columns_def sdb_method_defs SDB_SM_CONTAINER_def)

lemma max_of_two:
  "result_number SDB_CM_MAX (cell_numbers [T_int 5, T_int (- 300)]) = i64_to_f64 5"
  "f64_to_i32 (i64_to_f64 5) = Some 5" "number_token (i64_to_f64 5) = T_int 5"
proof -
  have f: "f64_is (i64_to_f64 5) 5" "f64_is (i64_to_f64 (- 300)) (- 300)" by (rule f64_is_int, simp)+
  from f64_less_is [OF f] show "result_number SDB_CM_MAX (cell_numbers [T_int 5, T_int (- 300)]) = i64_to_f64 5"
    by (simp add: result_number_def event_number_def token_event_def larger_def)
  from f(1) show i: "f64_to_i32 (i64_to_f64 5) = Some 5" by (rule f64_to_i32_is) simp_all
  have "f64_eq (i64_to_f64 5) (i64_to_f64 5)" by (rule f64_eq_int_refl) simp
  with i show "number_token (i64_to_f64 5) = T_int 5" by (simp add: number_token_def)
qed


end
