(* ===== verification/Sdb_Deltas.thy ===== *)
theory Sdb_Deltas
  imports Sdb_Serialize Double_Exact Sdb_Cells
begin

text \<open>Exactness of the numbers of a deltas vector.\<close>

lemma f64_is_1e15: "f64_is f64_1e15 1000000000000000"
proof -
  have e: "f64_exp f64_1e15 = 1072" "f64_frac f64_1e15 = 3496400372629504" "f64_sign f64_1e15 = 0"
    by (simp_all add: f64_1e15_def f64_exp_def f64_frac_def f64_sign_def)
  show ?thesis by (simp add: f64_is_def f64_finite_def f64_num_def f64_den_def f64_sig_def e)
qed

lemma inaccuracy_small: "f64_is v a \<Longrightarrow> \<bar>a\<bar> < 2 ^ 32 \<Longrightarrow> small_value (inaccuracy v) \<and> f64_sign (inaccuracy v) = 0"
  using small_quotient [OF _ f64_is_1e15, of v a] by (simp add: inaccuracy_def f64_fabs_sign)

lemma deltasvector_integer_exact:
  assumes "f64_is v n" "- (2 ^ 31) \<le> n" "n < 2 ^ 31" "f64_is w a" "\<bar>a\<bar> < 2 ^ 32"
  shows "deltasvector_integer v (inaccuracy w) = Some n"
proof -
  have p: "small_value (inaccuracy w)" "f64_sign (inaccuracy w) = 0" using inaccuracy_small [OF assms(4,5)] by simp_all
  have n: "\<bar>n\<bar> < 2 ^ 53" using assms(2,3) by simp
  have one: "f64_is f64_one 1" unfolding f64_one_def by (rule f64_is_one)
  have no: "\<not> f64_le (f64_sub f64_one (inaccuracy w)) (f64_fmod1 v)" by (rule one_less_small [OF one p f64_fmod1_is [OF assms(1)]])
  have less: "\<not> f64_less 0 (f64_fmod1 v)"
    using f64_less_is [of 0 0, OF _ f64_fmod1_is [OF assms(1)]] f64_is_zero [of 0] by (simp add: f64_mk_def)
  have "f64_is (f64_add (f64_floor v) (i64_to_f64 0)) n"
    using f64_add_is [OF f64_floor_is [OF assms(1) n] f64_is_int [of 0]] n by simp
  from f64_to_i32_is [OF this assms(2,3)] no less show ?thesis by (simp add: deltasvector_integer_def Let_def)
qed

end
