(* ===== verification/Log_Store.thy ===== *)
theory Log_Store
  imports C_Loops
begin

text \<open>
  The store of the log in memory, \<open>src/luafwk/log/log_store.c\<close>: a ring of entries, each a size in
  two octets followed by the text. The functions are registered in Lua; their results are what they
  push on the Lua stack. The store in files is in \<open>Log_Flash\<close>.
\<close>

section \<open>Results\<close>

text \<open>One string, or \<open>nil\<close> and a message, or the octets of the log, or nothing.\<close>

datatype lua_result = L_string string | L_error string | L_octets bytes | L_nothing

text \<open>\<open>%\<close> of C: a division by zero is not defined.\<close>

definition c_mod :: "nat \<Rightarrow> nat \<Rightarrow> (nat \<Rightarrow> 'a outcome) \<Rightarrow> 'a outcome" where
  "c_mod a b k = (if b = 0 then Fault else k (a mod b))"

section \<open>The store in memory\<close>

record log_ram =
  lr_buf_size :: nat
  lr_buf :: "bytes option"
  lr_current :: nat
  lr_first :: nat

definition log_ram_zero :: log_ram where
  "log_ram_zero = \<lparr>lr_buf_size = 0, lr_buf = None, lr_current = 0, lr_first = 0\<rparr>"

text \<open>The size of the entry at an offset and the offset of its text.\<close>

definition readnextsize :: "log_ram \<Rightarrow> nat \<Rightarrow> (nat \<Rightarrow> nat \<Rightarrow> 'a outcome) \<Rightarrow> 'a outcome" where
  "readnextsize s offsetin k =
     need (lr_buf s) (\<lambda>buf.
       c_mod (offsetin + 2) (lr_buf_size s) (\<lambda>offsetout.
       load buf offsetin (\<lambda>lo.
       c_mod (offsetin + 1) (lr_buf_size s) (\<lambda>i.
       load buf i (\<lambda>hi.
       k (u16 (unat lo + unat hi * 256)) offsetout)))))"

text \<open>One or two blocks, each an index and a size.\<close>

definition getnextcopyindexes :: "log_ram \<Rightarrow> nat \<Rightarrow> ((nat \<times> nat) list \<Rightarrow> 'a outcome) \<Rightarrow> 'a outcome" where
  "getnextcopyindexes s offset k =
     readnextsize s offset (\<lambda>firstsize firstindex.
       if int firstindex + int firstsize > int (lr_buf_size s) - 1
       then k [(firstindex, nat ((int (lr_buf_size s) - int firstindex) mod 65536)),
               (0, nat ((int firstsize - (int (lr_buf_size s) - int firstindex)) mod 65536))]
       else k [(firstindex, firstsize)])"

text \<open>The text at \<open>current\<close>, in two parts when it reaches over the end.\<close>

definition writelog :: "bytes \<Rightarrow> log_ram \<Rightarrow> log_ram outcome" where
  "writelog bufin s =
     need (lr_buf s) (\<lambda>buf.
       if lr_buf_size s < lr_current s + length bufin
       then let pt1_size = nat ((int (lr_buf_size s) - int (lr_current s)) mod 65536) in
            if length bufin < pt1_size then Fault
            else store_at buf (lr_current s) (take pt1_size bufin) (\<lambda>buf.
                 store_at buf 0 (drop pt1_size bufin) (\<lambda>buf.
                 Returned (s\<lparr>lr_buf := Some buf, lr_current := length bufin - pt1_size\<rparr>)))
       else store_at buf (lr_current s) bufin (\<lambda>buf.
            Returned (s\<lparr>lr_buf := Some buf, lr_current := u16 (lr_current s + length bufin)\<rparr>)))"

definition writesize :: "nat \<Rightarrow> log_ram \<Rightarrow> log_ram outcome" where
  "writesize n s =
     need (lr_buf s) (\<lambda>buf.
       store_at buf (lr_current s) [of_nat (n AND 0xFF)] (\<lambda>buf.
       c_mod (lr_current s + 1) (lr_buf_size s) (\<lambda>i.
       store_at buf i [of_nat (drop_bit 8 n)] (\<lambda>buf.
       c_mod (lr_current s + 2) (lr_buf_size s) (\<lambda>c.
       Returned (s\<lparr>lr_buf := Some buf, lr_current := c\<rparr>))))))"

text \<open>The argument is the field \<open>size\<close> of the table, \<open>None\<close> when it is not a number.\<close>

definition l_lograminit :: "bool \<Rightarrow> int option \<Rightarrow> log_ram \<Rightarrow> lua_result \<times> log_ram" where
  "l_lograminit granted arg s =
     (case arg of
        None \<Rightarrow> (L_error ''lograminit: Provided parameter is not correct for field: size, expected to be of type: LUA_TNUMBER'', s)
      | Some n \<Rightarrow>
          let s = s\<lparr>lr_buf_size := nat (n mod 65536)\<rparr> in
          if lr_buf s \<noteq> None then (L_string ''lograminit: init already done'', s)
          else if 2048 < lr_buf_size s then (L_error ''lograminit: provided buffer size is too big : max is 2048'', s)
          else if \<not> granted then (L_error ''lograminit: malloc failed'', s)
          else (L_string ''ok'', s\<lparr>lr_buf := Some (replicate (lr_buf_size s) 0), lr_current := 0, lr_first := 0\<rparr>))"

definition spare_space :: "log_ram \<Rightarrow> int" where
  "spare_space s = (if lr_first s \<le> lr_current s then int (lr_buf_size s) - int (lr_current s) + int (lr_first s)
     else int (lr_first s) - int (lr_current s))"

text \<open>The comparison is between unsigned numbers: a negative space is a large one.\<close>

definition too_small :: "log_ram \<Rightarrow> nat \<Rightarrow> bool" where
  "too_small s log_size \<longleftrightarrow> 0 \<le> spare_space s \<and> spare_space s < int (log_size + 2)"

text \<open>The oldest entries are given up until the space is freed.\<close>

function free_space :: "int \<Rightarrow> log_ram \<Rightarrow> log_ram outcome" where
  "free_space space_to_free s =
     (if 0 < space_to_free
      then readnextsize s (lr_first s) (\<lambda>tmp_size offset.
           c_mod (offset + tmp_size) (lr_buf_size s) (\<lambda>f.
           free_space (space_to_free - 2 - int tmp_size) (s\<lparr>lr_first := f\<rparr>)))
      else Returned s)"
  by pat_completeness auto
termination by (relation "measure (\<lambda>(n, s). nat n)") auto

declare free_space.simps [simp del]

text \<open>
  \<open>erasedata\<close> is what the subscribers of the signal do to the store while the scheduler makes
  its step, before the old entries are overwritten.
\<close>

definition l_logramstore :: "(log_ram \<Rightarrow> log_ram outcome) \<Rightarrow> bytes \<Rightarrow> log_ram \<Rightarrow> (lua_result \<times> log_ram) outcome" where
  "l_logramstore erasedata text s =
     (if lr_buf s = None then Returned (L_error ''logramstore: no init done! Log rejected!'', s)
      else if lr_buf_size s < length text + 2 then Returned (L_error ''logramstore: buffer too big! Log rejected!'', s)
      else if text = [] then Returned (L_error ''logramstore: new log is an empty buffer. Log rejected!'', s)
      else
        let log_size = u16 (length text) in
        run (if too_small s log_size then erasedata s else Returned s) (\<lambda>s.
        run (if too_small s log_size then free_space (int (log_size + 2) - spare_space s) s else Returned s) (\<lambda>s.
        run (writesize log_size s) (\<lambda>s.
        run (writelog (take log_size text) s) (\<lambda>s.
        Returned (L_string ''ok'', s))))))"

text \<open>The octets of the entries from \<open>tmp_offset\<close> to \<open>current\<close>.\<close>

fun add_blocks :: "bytes \<Rightarrow> (nat \<times> nat) list \<Rightarrow> bytes \<Rightarrow> (bytes \<Rightarrow> 'a outcome) \<Rightarrow> 'a outcome" where
  "add_blocks buf [] acc k = k acc"
| "add_blocks buf ((i, n) # bs) acc k = load_n buf i n (\<lambda>xs. add_blocks buf bs (acc @ xs) k)"

definition logramget_round :: "log_ram \<Rightarrow> nat \<times> bytes \<Rightarrow> (bool option \<times> nat \<times> bytes) outcome" where
  "logramget_round s = (\<lambda>(tmp_offset, lbuf).
     getnextcopyindexes s tmp_offset (\<lambda>blocks.
     need (lr_buf s) (\<lambda>buf.
     add_blocks buf blocks lbuf (\<lambda>lbuf.
       let tmp_offset = u16 (fst (last blocks) + snd (last blocks)) in
       Returned (if lr_buf_size s < tmp_offset then Some True else None, tmp_offset, lbuf)))))"

definition l_logramget :: "log_ram \<Rightarrow> (lua_result \<times> log_ram) outcome" where
  "l_logramget s =
     (case lr_buf s of
        None \<Rightarrow> Returned (L_error ''logramget: lograminit not done!'', s)
      | Some buf \<Rightarrow>
          if lr_current s = lr_first s then Returned (L_error ''logramget: no log stored in buffer, nothing to retrieve'', s)
          else run (while_ret (\<lambda>(tmp_offset, lbuf). tmp_offset \<noteq> lr_current s) (logramget_round s) (lr_first s, []))
                 (\<lambda>(r, tmp_offset, lbuf). store_at buf 0 (replicate (lr_buf_size s) 0) (\<lambda>buf.
                    Returned (L_octets lbuf, s\<lparr>lr_current := 0, lr_first := 0, lr_buf := Some buf\<rparr>))))"

section \<open>A queue of texts\<close>

text \<open>An entry is the size of a text in two octets and the text.\<close>

definition log_entry :: "bytes \<Rightarrow> bytes" where
  "log_entry x = [of_nat (length x mod 256), of_nat (length x div 256)] @ x"

abbreviation log_entries :: "bytes list \<Rightarrow> bytes" where
  "log_entries ls \<equiv> concat (map log_entry ls)"

lemma length_log_entry [simp]: "length (log_entry x) = length x + 2"
  by (simp add: log_entry_def)

text \<open>The octets of a ring from a position on.\<close>

definition ring_octets :: "bytes \<Rightarrow> nat \<Rightarrow> nat \<Rightarrow> bytes" where
  "ring_octets buf f n = map (\<lambda>i. buf ! ((f + i) mod length buf)) [0..<n]"

lemma length_ring_octets [simp]: "length (ring_octets buf f n) = n"
  by (simp add: ring_octets_def)

lemma nth_ring_octets [simp]: "i < n \<Longrightarrow> ring_octets buf f n ! i = buf ! ((f + i) mod length buf)"
  by (simp add: ring_octets_def)

lemma ring_octets_append:
  "ring_octets buf f (m + n) = ring_octets buf f m @ ring_octets buf ((f + m) mod length buf) n"
proof (rule nth_equalityI)
  fix i assume "i < length (ring_octets buf f (m + n))"
  then show "ring_octets buf f (m + n) ! i = (ring_octets buf f m @ ring_octets buf ((f + m) mod length buf) n) ! i"
    using mod_add_left_eq [of "f + m" "length buf" "i - m"] by (cases "i < m") (simp_all add: nth_append)
qed simp

lemma ring_octets_split:
  assumes "ring_octets buf f n = xs @ ys"
  shows "ring_octets buf f (length xs) = xs" "ring_octets buf ((f + length xs) mod length buf) (length ys) = ys"
proof -
  have "n = length xs + length ys" using arg_cong [OF assms, of length] by simp
  with assms show "ring_octets buf f (length xs) = xs" "ring_octets buf ((f + length xs) mod length buf) (length ys) = ys"
    by (simp_all add: ring_octets_append)
qed

text \<open>Octets that were written into a ring, and nothing else.\<close>

definition ring_written :: "bytes \<Rightarrow> nat \<Rightarrow> bytes \<Rightarrow> bytes \<Rightarrow> bool" where
  "ring_written buf c xs buf' \<longleftrightarrow> length buf' = length buf \<and> ring_octets buf' c (length xs) = xs \<and>
     (\<forall>j < length buf. (\<forall>i < length xs. j \<noteq> (c + i) mod length buf) \<longrightarrow> buf' ! j = buf ! j)"

lemma mod_position_inj:
  fixes f i j n :: nat
  assumes "(f + i) mod n = (f + j) mod n" "i < n" "j < n"
  shows "i = j"
proof -
  have "l = k" if "k \<le> l" "(f + k) mod n = (f + l) mod n" "l < n" for k l
  proof -
    have "n dvd l - k" using that mod_eq_dvd_iff_nat [of "f + k" "f + l" n] by simp
    then show ?thesis using that nat_dvd_not_less [of "l - k" n] by (cases "l = k") simp_all
  qed
  from this [of i j] this [of j i] assms show ?thesis by linarith
qed

lemma ring_written_other:
  "ring_written buf c xs buf' \<Longrightarrow> j < length buf \<Longrightarrow> (\<And>i. i < length xs \<Longrightarrow> j \<noteq> (c + i) mod length buf) \<Longrightarrow> buf' ! j = buf ! j"
  by (simp add: ring_written_def)

text \<open>What was written at the end of some octets of a ring follows them.\<close>

lemma ring_written_octets:
  assumes "ring_written buf ((f + n) mod length buf) xs buf'" "n + length xs \<le> length buf"
  shows "ring_octets buf' f (n + length xs) = ring_octets buf f n @ xs"
proof -
  have l: "length buf' = length buf" using assms by (simp add: ring_written_def)
  have "ring_octets buf' f n = ring_octets buf f n"
  proof (rule nth_equalityI, simp)
    fix i assume "i < length (ring_octets buf' f n)"
    then have i: "i < n" by simp
    have "(f + i) mod length buf \<noteq> ((f + n) mod length buf + k) mod length buf" if "k < length xs" for k
      using mod_position_inj [of f i "length buf" "n + k"] that i assms(2) by (auto simp: mod_add_left_eq add.assoc)
    moreover have "(f + i) mod length buf < length buf" using i assms(2) by (intro mod_less_divisor) linarith
    ultimately have "buf' ! ((f + i) mod length buf) = buf ! ((f + i) mod length buf)" using ring_written_other [OF assms(1)] by blast
    with i l show "ring_octets buf' f n ! i = ring_octets buf f n ! i" by simp
  qed
  then show ?thesis using assms(1) l by (simp add: ring_octets_append ring_written_def)
qed

lemma ring_written_append:
  assumes "ring_written buf c xs buf1" "ring_written buf1 ((c + length xs) mod length buf) ys buf2"
    "length xs + length ys \<le> length buf"
  shows "ring_written buf c (xs @ ys) buf2"
proof -
  have l: "length buf1 = length buf" "length buf2 = length buf" using assms by (simp_all add: ring_written_def)
  have "ring_octets buf2 c (length (xs @ ys)) = xs @ ys"
    using ring_written_octets [of buf1 c "length xs" ys buf2] assms l by (simp add: ring_written_def)
  moreover have "buf2 ! j = buf ! j" if j: "j < length buf" "\<forall>i < length (xs @ ys). j \<noteq> (c + i) mod length buf" for j
  proof -
    have "j \<noteq> ((c + length xs) mod length buf + i) mod length buf" if "i < length ys" for i
      using j(2) [rule_format, of "length xs + i"] that by (simp add: mod_add_left_eq add.assoc)
    then show ?thesis using assms(1,2) j l by (auto simp: ring_written_def)
  qed
  ultimately show ?thesis using l by (simp add: ring_written_def)
qed

lemma overwrite_written:
  "c + length xs \<le> length buf \<Longrightarrow> ring_written buf c xs (overwrite buf c xs)"
  by (auto simp: ring_written_def nth_overwrite intro!: nth_equalityI) (metis add_diff_inverse_nat mod_less nat_add_left_cancel_less not_less order_less_le_trans)

text \<open>The store in memory holds a queue of texts from a position on.\<close>

type_synonym log_queue = "nat \<times> bytes list"

definition ring_rel :: "nat \<Rightarrow> log_queue \<Rightarrow> log_ram \<Rightarrow> bool" where
  "ring_rel bs q s \<longleftrightarrow>
     lr_buf_size s = bs \<and> 0 < bs \<and> bs \<le> 2048 \<and> lr_first s = fst q \<and> fst q < bs \<and>
     lr_current s = (fst q + length (log_entries (snd q))) mod bs \<and> length (log_entries (snd q)) < bs \<and>
     list_all (\<lambda>x. x \<noteq> []) (snd q) \<and>
     (case lr_buf s of None \<Rightarrow> False | Some buf \<Rightarrow> length buf = bs \<and> ring_octets buf (fst q) (length (log_entries (snd q))) = log_entries (snd q))"

lemma ring_relE:
  assumes "ring_rel bs (f, ls) s"
  obtains buf where "lr_buf_size s = bs" "0 < bs" "bs \<le> 2048" "lr_first s = f" "f < bs" "lr_current s = (f + length (log_entries ls)) mod bs"
    "length (log_entries ls) < bs" "list_all (\<lambda>x. x \<noteq> []) ls" "lr_buf s = Some buf" "length buf = bs"
    "ring_octets buf f (length (log_entries ls)) = log_entries ls"
  using assms by (auto simp: ring_rel_def split: option.splits)

lemma c_mod_pos [simp]: "0 < b \<Longrightarrow> c_mod a b k = k (a mod b)"
  by (simp add: c_mod_def)

lemma writesize_ring:
  assumes "lr_buf s = Some buf" "length buf = bs" "lr_buf_size s = bs" "lr_current s < bs" "2 \<le> bs" "n < 65536"
  shows "\<exists>buf'. writesize n s = Returned (s\<lparr>lr_buf := Some buf', lr_current := (lr_current s + 2) mod bs\<rparr>) \<and>
     ring_written buf (lr_current s) [of_nat (n mod 256), of_nat (n div 256)] buf'"
proof -
  define c where "c = lr_current s"
  define buf1 where "buf1 = overwrite buf c [of_nat (n mod 256)]"
  define buf2 where "buf2 = overwrite buf1 ((c + 1) mod bs) [of_nat (n div 256)]"
  have c: "c + length [of_nat (n mod 256)] \<le> length buf" using assms by (simp add: c_def)
  then have 1: "ring_written buf c [of_nat (n mod 256)] buf1" "length buf1 = bs"
    using overwrite_written [OF c] assms(2) by (simp_all add: buf1_def)
  have d: "(c + 1) mod bs + length [of_nat (n div 256) :: byte] \<le> length buf1" using 1(2) assms(5) by (simp add: Suc_le_eq)
  have 2: "ring_written buf1 ((c + 1) mod bs) [of_nat (n div 256)] buf2" unfolding buf2_def by (rule overwrite_written [OF d])
  have "ring_written buf c ([of_nat (n mod 256)] @ [of_nat (n div 256)]) buf2"
    by (rule ring_written_append [OF 1(1)]) (use 2 assms in simp_all)
  moreover have "writesize n s = Returned (s\<lparr>lr_buf := Some buf2, lr_current := (c + 2) mod bs\<rparr>)"
    using assms(1,3,5) c d unfolding writesize_def c_def [symmetric] and_0xff_nat drop_bit_nat
    by (simp add: store_at_in buf2_def buf1_def)
  ultimately show ?thesis by (auto simp: c_def)
qed

lemma writelog_ring:
  assumes "lr_buf s = Some buf" "length buf = bs" "lr_buf_size s = bs" "lr_current s < bs" "length x \<le> bs" "bs \<le> 2048"
    "lr_current s + length x \<noteq> bs"
  shows "\<exists>buf'. writelog x s = Returned (s\<lparr>lr_buf := Some buf', lr_current := (lr_current s + length x) mod bs\<rparr>) \<and>
     ring_written buf (lr_current s) x buf'"
proof (cases "bs < lr_current s + length x")
  case True
  define c where "c = lr_current s"
  define xs ys where "xs = take (bs - c) x" and "ys = drop (bs - c) x"
  have x: "x = xs @ ys" "length xs = bs - c" "length ys = length x - (bs - c)" using True by (simp_all add: xs_def ys_def c_def)
  have pt: "nat ((int bs - int c) mod 65536) = bs - c" using assms(4,6) by (simp add: c_def mod_pos_pos_trivial)
  define buf1 where "buf1 = overwrite buf c xs"
  define buf2 where "buf2 = overwrite buf1 0 ys"
  have c: "c + length xs \<le> length buf" "0 + length ys \<le> length buf" using assms(2,4,5) x(2,3) by (simp_all add: c_def)
  have 1: "ring_written buf c xs buf1" "length buf1 = bs" using overwrite_written [OF c(1)] c assms(2) by (simp_all add: buf1_def)
  have 2: "ring_written buf1 0 ys buf2" unfolding buf2_def by (rule overwrite_written) (use c 1 assms(2) in simp)
  have "ring_written buf c (xs @ ys) buf2"
    by (rule ring_written_append [OF 1(1)]) (use 2 x(2,3) assms(2,4,5) True in \<open>simp_all add: c_def\<close>)
  moreover have "writelog x s = Returned (s\<lparr>lr_buf := Some buf2, lr_current := length x - (bs - c)\<rparr>)"
    unfolding writelog_def assms(1,3) need_simps c_def [symmetric] pt Let_def xs_def [symmetric] ys_def [symmetric]
    using assms(2) True [folded c_def] c 1(2) by (simp add: store_at_in buf2_def buf1_def)
  moreover have "(c + length x) mod bs = length x - (bs - c)"
    using True assms(4,5) by (simp add: c_def le_mod_geq)
  ultimately show ?thesis unfolding x(1) [symmetric] by (auto simp: c_def)
next
  case False
  with assms overwrite_written [of "lr_current s" x buf] show ?thesis
    by (auto simp: writelog_def store_at_in)
qed

lemma of_nat_size_octets:
  "n < 65536 \<Longrightarrow> unat (of_nat (n mod 256) :: byte) + unat (of_nat (n div 256) :: byte) * 256 = n"
  by (simp add: unat_of_nat_byte)

text \<open>The size of the entry that starts at a position.\<close>

lemma readnextsize_ring:
  assumes "lr_buf s = Some buf" "length buf = bs" "lr_buf_size s = bs" "off < bs" "2 \<le> bs"
    "ring_octets buf off (length x + 2) = log_entry x" "length x < 65536"
  shows "readnextsize s off k = k (length x) ((off + 2) mod bs)"
proof -
  have "buf ! off = log_entry x ! 0" "buf ! (Suc off mod bs) = log_entry x ! 1"
    unfolding assms(6) [symmetric] using assms(2,4) by simp_all
  then have "buf ! off = of_nat (length x mod 256)" "buf ! (Suc off mod bs) = of_nat (length x div 256)"
    by (simp_all add: log_entry_def)
  with assms of_nat_size_octets [OF assms(7)] show ?thesis by (simp add: readnextsize_def)
qed

section \<open>The operations on the queue\<close>

text \<open>The oldest texts go until \<open>n\<close> octets are free.\<close>

fun evict :: "nat \<Rightarrow> int \<Rightarrow> log_queue \<Rightarrow> log_queue" where
  "evict bs n (f, []) = (f, [])"
| "evict bs n (f, x # ls) = (if 0 < n then evict bs (n - 2 - int (length x)) ((f + 2 + length x) mod bs, ls) else (f, x # ls))"

lemma ring_rel_head:
  assumes "ring_rel bs (f, x # ls) s"
  shows "readnextsize s f k = k (length x) ((f + 2) mod bs)"
    "ring_rel bs ((f + 2 + length x) mod bs, ls) (s\<lparr>lr_first := (f + 2 + length x) mod bs\<rparr>)"
proof -
  from assms obtain buf where r: "lr_buf_size s = bs" "0 < bs" "bs \<le> 2048" "f < bs"
    "lr_current s = (f + length (log_entries (x # ls))) mod bs" "length (log_entries (x # ls)) < bs" "list_all (\<lambda>x. x \<noteq> []) (x # ls)"
    "lr_buf s = Some buf" "length buf = bs" "ring_octets buf f (length (log_entries (x # ls))) = log_entry x @ log_entries ls"
    by (rule ring_relE) auto
  note o = ring_octets_split [OF r(10)]
  show "readnextsize s f k = k (length x) ((f + 2) mod bs)"
    by (rule readnextsize_ring [OF r(8,9,1,4)]) (use o(1) r(3,6) in simp_all)
  have "(f + length (log_entries (x # ls))) mod bs = ((f + 2 + length x) mod bs + length (log_entries ls)) mod bs"
    unfolding mod_add_left_eq by (simp add: ac_simps)
  then show "ring_rel bs ((f + 2 + length x) mod bs, ls) (s\<lparr>lr_first := (f + 2 + length x) mod bs\<rparr>)"
    using r o(2) by (simp add: ring_rel_def add.assoc add.commute add.left_commute)
qed

lemma free_space_ring:
  assumes "ring_rel bs (f, ls) s" "n \<le> int (length (log_entries ls))"
  shows "\<exists>s'. free_space n s = Returned s' \<and> ring_rel bs (evict bs n (f, ls)) s' \<and> lr_current s' = lr_current s \<and>
     int (length (log_entries (snd (evict bs n (f, ls))))) \<le> int (length (log_entries ls)) - n"
  using assms
proof (induction ls arbitrary: f s n)
  case Nil
  then show ?case by (subst free_space.simps) simp
next
  case (Cons x ls)
  show ?case
  proof (cases "0 < n")
    case True
    let ?f = "(f + 2 + length x) mod bs"
    note h = ring_rel_head [OF Cons.prems(1)]
    have f: "lr_first s = f" "0 < lr_buf_size s" "lr_buf_size s = bs" using Cons.prems(1) by (auto simp: ring_rel_def)
    have "free_space n s = free_space (n - 2 - int (length x)) (s\<lparr>lr_first := ?f\<rparr>)"
      using True f by (subst free_space.simps) (simp add: h(1) mod_add_left_eq add.assoc)
    with Cons.IH [OF h(2), of "n - 2 - int (length x)"] Cons.prems(2) True show ?thesis by auto
  next
    case False
    with Cons.prems(1) show ?thesis by (subst free_space.simps) auto
  qed
qed

lemma spare_space_ring:
  assumes "ring_rel bs (f, ls) s"
  shows "spare_space s = int bs - int (length (log_entries ls))"
proof -
  define n where "n = length (log_entries ls)"
  from assms have r: "lr_buf_size s = bs" "lr_first s = f" "f < bs" "lr_current s = (f + n) mod bs" "n < bs"
    by (simp_all add: ring_rel_def n_def)
  then have "lr_current s = (if f + n < bs then f + n else f + n - bs)" by (simp add: le_mod_geq)
  with r(1-3,5) show ?thesis unfolding n_def [symmetric] by (simp add: spare_space_def split: if_splits)
qed

text \<open>A new text is written behind the others, unless it ends at the end of the buffer or leaves no octet free.\<close>

definition log_fits :: "nat \<Rightarrow> bytes \<Rightarrow> log_queue \<Rightarrow> bool" where
  "log_fits bs x q \<longleftrightarrow> (let n = length (log_entries (snd q)) + 2 + length x in n < bs \<and> (fst q + n) mod bs \<noteq> 0)"

lemma write_ring:
  assumes "ring_rel bs (f, ls) s" "x \<noteq> []" "log_fits bs x (f, ls)"
  shows "\<exists>s'. run (writesize (length x) s) (writelog x) = Returned s' \<and> ring_rel bs (f, ls @ [x]) s'"
proof -
  define n where "n = length (log_entries ls)"
  from assms(1) obtain buf where r: "lr_buf_size s = bs" "0 < bs" "bs \<le> 2048" "lr_first s = f" "f < bs" "lr_current s = (f + n) mod bs"
    "list_all (\<lambda>x. x \<noteq> []) ls" "lr_buf s = Some buf" "length buf = bs" "ring_octets buf f n = log_entries ls"
    unfolding n_def by (rule ring_relE)
  have fit: "n + 2 + length x < bs" "(f + (n + 2 + length x)) mod bs \<noteq> 0" using assms(3) by (simp_all add: log_fits_def n_def Let_def)
  have c: "lr_current s < bs" using r by simp
  obtain buf1 where 1: "writesize (length x) s = Returned (s\<lparr>lr_buf := Some buf1, lr_current := (lr_current s + 2) mod bs\<rparr>)"
    "ring_written buf (lr_current s) [of_nat (length x mod 256), of_nat (length x div 256)] buf1"
    using writesize_ring [OF r(8,9,1) c, of "length x"] fit r(3) by auto
  define s1 where "s1 = s\<lparr>lr_buf := Some buf1, lr_current := (lr_current s + 2) mod bs\<rparr>"
  have e: "(lr_current s1 + length x) mod bs = (f + (n + 2 + length x)) mod bs"
    using mod_add_left_eq [of "(f + n) mod bs + 2" bs "length x"] mod_add_left_eq [of "f + n" bs "2 + length x"]
    by (simp add: s1_def r(6) add.assoc)
  then have "lr_current s1 + length x \<noteq> bs" using fit(2) by auto
  moreover have "lr_buf s1 = Some buf1" "length buf1 = bs" "lr_buf_size s1 = bs" "lr_current s1 < bs"
    using 1(2) r by (simp_all add: s1_def ring_written_def)
  ultimately obtain buf2 where 2: "writelog x s1 = Returned (s1\<lparr>lr_buf := Some buf2, lr_current := (lr_current s1 + length x) mod bs\<rparr>)"
    "ring_written buf1 (lr_current s1) x buf2"
    using writelog_ring [of s1 buf1 bs x] fit r(3) by auto
  have "ring_written buf (lr_current s) (log_entry x) buf2"
    unfolding log_entry_def by (rule ring_written_append [OF 1(2)]) (use 2(2) r fit in \<open>simp_all add: s1_def\<close>)
  then have "ring_octets buf2 f (n + length (log_entry x)) = log_entries ls @ log_entry x" "length buf2 = bs"
    using ring_written_octets [of buf f n "log_entry x" buf2] r fit by (auto simp: ring_written_def)
  then have "ring_rel bs (f, ls @ [x]) (s1\<lparr>lr_buf := Some buf2, lr_current := (lr_current s1 + length x) mod bs\<rparr>)"
    unfolding e using r fit assms(2) by (simp add: ring_rel_def s1_def n_def add.assoc add.commute add.left_commute)
  with 1(1) 2(1) show ?thesis by (simp add: s1_def)
qed

lemma ring_octets_inside: "i + n \<le> length buf \<Longrightarrow> ring_octets buf i n = take n (drop i buf)"
  by (rule nth_equalityI) simp_all

lemma ring_octets_across:
  assumes "i < length buf" "n \<le> length buf" "length buf \<le> i + n"
  shows "ring_octets buf i n = take (length buf - i) (drop i buf) @ take (n - (length buf - i)) (drop 0 buf)"
proof -
  have n: "n = (length buf - i) + (n - (length buf - i))" using assms by simp
  show ?thesis using assms by (subst n, subst ring_octets_append) (simp add: ring_octets_inside)
qed

text \<open>One round of reading takes one entry.\<close>

lemma logramget_round_ring:
  assumes "lr_buf s = Some buf" "length buf = bs" "lr_buf_size s = bs" "p < bs" "bs \<le> 2048" "length x + 2 < bs"
    "ring_octets buf p (length x + 2) = log_entry x"
  shows "logramget_round s (p, acc) = Returned (None, (p + 2 + length x) mod bs, acc @ x)"
proof -
  define i where "i = (p + 2) mod bs"
  have i: "i < bs" using assms(4) by (auto simp: i_def)
  have "ring_octets buf i (length x) = x"
    using ring_octets_split(2) [OF assms(7) [unfolded log_entry_def]] assms(2) by (simp add: i_def)
  moreover have n: "readnextsize s p k = k (length x) i" for k :: "nat \<Rightarrow> nat \<Rightarrow> (bool option \<times> nat \<times> bytes) outcome"
    unfolding i_def by (rule readnextsize_ring [OF assms(1-4)]) (use assms in simp_all)
  moreover have e: "(p + 2 + length x) mod bs = (if i + length x < bs then i + length x else i + length x - bs)"
    unfolding mod_add_left_eq [of "p + 2" bs "length x", symmetric] i_def [symmetric] using i assms(6) by (simp add: le_mod_geq)
  moreover have "nat ((int bs - int i) mod 65536) = bs - i" using i assms(5) by (simp add: mod_pos_pos_trivial)
  moreover have "nat ((int (length x) - (int bs - int i)) mod 65536) = length x - (bs - i)" if "bs \<le> i + length x"
    using that i assms(5,6) by (simp add: mod_pos_pos_trivial)
  ultimately show ?thesis
    using assms(1-3,5,6) i ring_octets_inside [of i "length x" buf] ring_octets_across [of i buf "length x"]
    by (cases "i + length x < bs") (auto simp: logramget_round_def getnextcopyindexes_def load_n_in Let_def)
qed

lemma logramget_loop:
  assumes "lr_buf s = Some buf" "length buf = bs" "lr_buf_size s = bs" "bs \<le> 2048"
  shows "p < bs \<Longrightarrow> lr_current s = (p + length (log_entries ls)) mod bs \<Longrightarrow> length (log_entries ls) < bs \<Longrightarrow>
     ring_octets buf p (length (log_entries ls)) = log_entries ls \<Longrightarrow>
     while_ret (\<lambda>(tmp_offset, lbuf). tmp_offset \<noteq> lr_current s) (logramget_round s) (p, acc) = Returned (None, lr_current s, acc @ concat ls)"
proof (induction ls arbitrary: p acc)
  case Nil
  then show ?case by (subst while_ret_unfold) simp
next
  case (Cons x ls)
  let ?p = "(p + 2 + length x) mod bs"
  have o: "ring_octets buf p (length x + 2) = log_entry x" "ring_octets buf ?p (length (log_entries ls)) = log_entries ls"
    using ring_octets_split [of buf p _ "log_entry x" "log_entries ls"] Cons.prems(4) assms(2) by (simp_all add: ac_simps)
  have c: "lr_current s = (?p + length (log_entries ls)) mod bs" unfolding mod_add_left_eq using Cons.prems(2) by (simp add: ac_simps)
  have "p \<noteq> lr_current s"
    using mod_position_inj [of p 0 bs "length (log_entries (x # ls))"] Cons.prems(1-3) by auto
  moreover have "?p < bs" using Cons.prems(1) by auto
  ultimately show ?case
    using logramget_round_ring [OF assms(1-3) Cons.prems(1) assms(4) _ o(1), of acc] Cons.IH [OF _ c _ o(2), of "acc @ x"] Cons.prems(3)
    by (subst while_ret_unfold) simp
qed

text \<open>Reading returns all texts in their order and empties the store.\<close>

lemma logramget_ring:
  assumes "ring_rel bs (f, ls) s" "ls \<noteq> []"
  shows "\<exists>s'. l_logramget s = Returned (L_octets (concat ls), s') \<and> ring_rel bs (0, []) s'"
proof -
  from assms(1) obtain buf where r: "lr_buf_size s = bs" "0 < bs" "bs \<le> 2048" "lr_first s = f" "f < bs"
    "lr_current s = (f + length (log_entries ls)) mod bs" "length (log_entries ls) < bs" "lr_buf s = Some buf" "length buf = bs"
    "ring_octets buf f (length (log_entries ls)) = log_entries ls" by (rule ring_relE)
  have "0 < length (log_entries ls)" using assms(2) by (cases ls) simp_all
  then have "lr_current s \<noteq> f" using mod_position_inj [of f 0 bs "length (log_entries ls)"] r(2,5-7) by auto
  with logramget_loop [OF r(8,9,1,3,5,6,7,10), of "[]"] r show ?thesis
    by (simp add: l_logramget_def store_at_in ring_rel_def overwrite_def ring_octets_def)
qed

lemma logramget_empty: "ring_rel bs (f, []) s \<Longrightarrow> l_logramget s = Returned (L_error ''logramget: no log stored in buffer, nothing to retrieve'', s)"
  by (erule ring_relE) (simp add: l_logramget_def)

text \<open>
  The subscribers of the signal may read the store, change it through its functions, or do nothing.
  Whatever they do, the store is a queue afterwards.
\<close>

locale erase_hook =
  fixes erasedata :: "log_ram \<Rightarrow> log_ram outcome" and erased :: "log_queue \<Rightarrow> log_queue"
  assumes erasedata: "ring_rel bs q s \<Longrightarrow> \<exists>s'. erasedata s = Returned s' \<and> ring_rel bs (erased q) s'"

definition queue_free :: "nat \<Rightarrow> log_queue \<Rightarrow> int" where
  "queue_free bs q = int bs - int (length (log_entries (snd q)))"

definition make_room :: "(log_queue \<Rightarrow> log_queue) \<Rightarrow> nat \<Rightarrow> bytes \<Rightarrow> log_queue \<Rightarrow> log_queue" where
  "make_room erased bs x q =
     (let wanted = int (length x + 2); q = (if queue_free bs q < wanted then erased q else q) in
      if queue_free bs q < wanted then evict bs (wanted - queue_free bs q) q else q)"

lemma too_small_ring: "ring_rel bs q s \<Longrightarrow> too_small s n \<longleftrightarrow> queue_free bs q < int (n + 2)"
  using spare_space_ring [of bs "fst q" "snd q" s] by (auto simp: too_small_def queue_free_def ring_rel_def)

context erase_hook
begin

lemma make_room_ring:
  assumes "ring_rel bs q s" "length x + 2 \<le> bs"
  shows "\<exists>s'. run (if too_small s (length x) then erasedata s else Returned s)
       (\<lambda>s. if too_small s (length x) then free_space (int (length x + 2) - spare_space s) s else Returned s) = Returned s' \<and>
     ring_rel bs (make_room erased bs x q) s'"
proof -
  obtain s1 where s1: "(if too_small s (length x) then erasedata s else Returned s) = Returned s1"
    "ring_rel bs (if queue_free bs q < int (length x + 2) then erased q else q) s1"
    using assms(1) erasedata [OF assms(1)] too_small_ring [OF assms(1), of "length x"] by (cases "too_small s (length x)") auto
  obtain f ls where q1: "(if queue_free bs q < int (length x + 2) then erased q else q) = (f, ls)" by fastforce
  note r = s1(2) [unfolded q1]
  have "spare_space s1 = queue_free bs (f, ls)" by (simp add: spare_space_ring [OF r] queue_free_def)
  with free_space_ring [OF r, of "int (length x + 2) - queue_free bs (f, ls)"] s1(1) r assms(2) too_small_ring [OF r, of "length x"]
  show ?thesis unfolding make_room_def Let_def q1 by (auto simp: queue_free_def)
qed

lemma logramstore_ring:
  assumes "ring_rel bs q s" "x \<noteq> []" "length x + 2 \<le> bs" "log_fits bs x (make_room erased bs x q)"
  shows "\<exists>s'. l_logramstore erasedata x s = Returned (L_string ''ok'', s') \<and>
     ring_rel bs (fst (make_room erased bs x q), snd (make_room erased bs x q) @ [x]) s'"
proof -
  from make_room_ring [OF assms(1,3)] obtain s1 where
    1: "run (if too_small s (length x) then erasedata s else Returned s)
       (\<lambda>s. if too_small s (length x) then free_space (int (length x + 2) - spare_space s) s else Returned s) = Returned s1"
      "ring_rel bs (make_room erased bs x q) s1" by blast
  obtain s2 where 2: "run (writesize (length x) s1) (writelog x) = Returned s2"
      "ring_rel bs (fst (make_room erased bs x q), snd (make_room erased bs x q) @ [x]) s2"
    using write_ring [of bs "fst (make_room erased bs x q)" "snd (make_room erased bs x q)" s1 x] 1(2) assms(2,4) by auto
  obtain buf where "lr_buf s = Some buf" "lr_buf_size s = bs" "bs \<le> 2048" using assms(1) by (auto simp: ring_rel_def split: option.splits)
  then have "l_logramstore erasedata x s =
      run (run (if too_small s (length x) then erasedata s else Returned s)
       (\<lambda>s. if too_small s (length x) then free_space (int (length x + 2) - spare_space s) s else Returned s))
      (\<lambda>s. run (run (writesize (length x) s) (writelog x)) (\<lambda>s. Returned (L_string ''ok'', s)))"
    using assms(2,3) by (simp add: l_logramstore_def Let_def)
  then show ?thesis using 1(1) 2 by (simp del: run_assoc)
qed

end

interpretation silent: erase_hook Returned "\<lambda>q. q"
  by unfold_locales blast

text \<open>A subscriber that reads the store, to send the log away.\<close>

definition read_on_erase :: "log_ram \<Rightarrow> log_ram outcome" where
  "read_on_erase s = run (l_logramget s) (\<lambda>(r, s). Returned s)"

definition emptied :: "log_queue \<Rightarrow> log_queue" where
  "emptied q = (if snd q = [] then q else (0, []))"

interpretation reading: erase_hook read_on_erase emptied
proof
  fix bs q s
  assume r: "ring_rel bs q s"
  then show "\<exists>s'. read_on_erase s = Returned s' \<and> ring_rel bs (emptied q) s'"
    using logramget_ring [of bs "fst q" "snd q" s] logramget_empty [of bs "fst q" s]
    by (cases q) (auto simp: read_on_erase_def emptied_def)
qed

section \<open>Sequences of operations\<close>

datatype log_op = Op_store bytes | Op_get

primrec log_run :: "(log_ram \<Rightarrow> log_ram outcome) \<Rightarrow> log_op list \<Rightarrow> log_ram \<Rightarrow> (lua_result list \<times> log_ram) outcome" where
  "log_run erasedata [] s = Returned ([], s)"
| "log_run erasedata (a # as) s =
     run (case a of Op_store x \<Rightarrow> l_logramstore erasedata x s | Op_get \<Rightarrow> l_logramget s) (\<lambda>(r, s).
     run (log_run erasedata as s) (\<lambda>(rs, s). Returned (r # rs, s)))"

text \<open>The same operations on the queue: what they answer and what they leave.\<close>

fun queue_do :: "(log_queue \<Rightarrow> log_queue) \<Rightarrow> nat \<Rightarrow> log_op \<Rightarrow> log_queue \<Rightarrow> lua_result \<times> log_queue" where
  "queue_do erased bs (Op_store x) q =
     (if bs < length x + 2 then (L_error ''logramstore: buffer too big! Log rejected!'', q)
      else if x = [] then (L_error ''logramstore: new log is an empty buffer. Log rejected!'', q)
      else (L_string ''ok'', fst (make_room erased bs x q), snd (make_room erased bs x q) @ [x]))"
| "queue_do erased bs Op_get q =
     (if snd q = [] then (L_error ''logramget: no log stored in buffer, nothing to retrieve'', q)
      else (L_octets (concat (snd q)), 0, []))"

primrec queue_run :: "(log_queue \<Rightarrow> log_queue) \<Rightarrow> nat \<Rightarrow> log_op list \<Rightarrow> log_queue \<Rightarrow> lua_result list" where
  "queue_run erased bs [] q = []"
| "queue_run erased bs (a # as) q = fst (queue_do erased bs a q) # queue_run erased bs as (snd (queue_do erased bs a q))"

text \<open>No text that is accepted ends at the end of the buffer or fills it.\<close>

primrec never_full :: "(log_queue \<Rightarrow> log_queue) \<Rightarrow> nat \<Rightarrow> log_op list \<Rightarrow> log_queue \<Rightarrow> bool" where
  "never_full erased bs [] q = True"
| "never_full erased bs (a # as) q \<longleftrightarrow>
     (case a of Op_store x \<Rightarrow> x = [] \<or> bs < length x + 2 \<or> log_fits bs x (make_room erased bs x q) | Op_get \<Rightarrow> True) \<and>
     never_full erased bs as (snd (queue_do erased bs a q))"

context erase_hook
begin

lemma queue_do_ring:
  assumes "ring_rel bs q s" "never_full erased bs (a # as) q"
  shows "\<exists>s'. (case a of Op_store x \<Rightarrow> l_logramstore erasedata x s | Op_get \<Rightarrow> l_logramget s) = Returned (fst (queue_do erased bs a q), s') \<and>
     ring_rel bs (snd (queue_do erased bs a q)) s'"
proof (cases a)
  case (Op_store x)
  have "lr_buf s \<noteq> None" "lr_buf_size s = bs" using assms(1) by (auto simp: ring_rel_def split: option.splits)
  with Op_store logramstore_ring [OF assms(1), of x] assms show ?thesis by (auto simp: l_logramstore_def not_less)
next
  case Op_get
  with assms(1) logramget_ring [of bs "fst q" "snd q" s] logramget_empty [of bs "fst q" s] show ?thesis by (cases q) auto
qed

lemma log_run_ring:
  "ring_rel bs q s \<Longrightarrow> never_full erased bs as q \<Longrightarrow> \<exists>s'. log_run erasedata as s = Returned (queue_run erased bs as q, s')"
proof (induction as arbitrary: q s)
  case (Cons a as)
  from queue_do_ring [OF Cons.prems] obtain s1 where
    1: "(case a of Op_store x \<Rightarrow> l_logramstore erasedata x s | Op_get \<Rightarrow> l_logramget s) = Returned (fst (queue_do erased bs a q), s1)"
      "ring_rel bs (snd (queue_do erased bs a q)) s1" by blast
  from Cons.IH [OF 1(2)] Cons.prems(2) obtain s2 where "log_run erasedata as s1 = Returned (queue_run erased bs as (snd (queue_do erased bs a q)), s2)"
    by auto
  with 1(1) show ?case by simp
qed simp

end

lemma lograminit_ring:
  assumes "0 < bs" "bs \<le> 2048"
  shows "\<exists>s. l_lograminit True (Some (int bs)) log_ram_zero = (L_string ''ok'', s) \<and> ring_rel bs (0, []) s"
  using assms by (auto simp: l_lograminit_def log_ram_zero_def ring_rel_def ring_octets_def nat_mod_as_int mod_pos_pos_trivial)



section \<open>The end of the buffer\<close>

text \<open>A store of one text that ends with the buffer: the position behind it is not wrapped.\<close>

definition filled_ram :: "bytes \<Rightarrow> log_ram" where
  "filled_ram x = \<lparr>lr_buf_size = length x + 2, lr_buf = Some (log_entry x), lr_current = length x + 2, lr_first = 0\<rparr>"

lemma filled_size:
  assumes "x \<noteq> []" "length x + 2 \<le> 2048"
  shows "readnextsize (filled_ram x) 0 k = k (length x) 2"
proof -
  have "readnextsize (filled_ram x) 0 k = k (length x) ((0 + 2) mod (length x + 2))"
    by (rule readnextsize_ring [where buf = "log_entry x"])
      (use assms in \<open>simp_all add: filled_ram_def ring_octets_inside [of 0 "length x + 2" "log_entry x", simplified]\<close>)
  moreover have "(0 + 2) mod (length x + 2) = 2" using assms(1) by (cases x) simp_all
  ultimately show ?thesis by simp
qed

lemma filled_round:
  assumes "x \<noteq> []" "length x + 2 \<le> 2048"
  shows "logramget_round (filled_ram x) (0, acc) = Returned (None, 0, acc @ x)"
proof -
  have f: "lr_buf_size (filled_ram x) = length x + 2" "lr_buf (filled_ram x) = Some (log_entry x)" by (simp_all add: filled_ram_def)
  have "getnextcopyindexes (filled_ram x) 0 k = k [(2, length x), (0, 0)]" for k :: "_ \<Rightarrow> (bool option \<times> nat \<times> bytes) outcome"
    using assms(2) by (simp add: getnextcopyindexes_def filled_size [OF assms] f mod_pos_pos_trivial)
  then show ?thesis by (simp add: logramget_round_def f load_n_in log_entry_def Let_def)
qed

lemma filled_ram_stored:
  assumes "x \<noteq> []" "length x + 2 \<le> 2048"
  shows "l_logramstore Returned x \<lparr>lr_buf_size = length x + 2, lr_buf = Some (replicate (length x + 2) 0), lr_current = 0, lr_first = 0\<rparr> =
     Returned (L_string ''ok'', filled_ram x)"
proof -
  let ?s = "\<lambda>buf c. \<lparr>lr_buf_size = length x + 2, lr_buf = Some buf, lr_current = c, lr_first = 0\<rparr>"
  have m: "1 mod (length x + 2) = 1" "Suc (Suc 0) mod Suc (Suc (length x)) = 2" using assms(1) by (cases x; simp)+
  have r: "replicate (length x + 2) 0 = 0 # 0 # replicate (length x) (0 :: byte)" by simp
  have "writesize (length x) (?s (0 # 0 # replicate (length x) 0) 0) =
      Returned (?s ([of_nat (length x mod 256), of_nat (length x div 256)] @ replicate (length x) 0) 2)"
    using m by (simp add: writesize_def store_at_in overwrite_def and_0xff_nat drop_bit_nat)
  moreover have "writelog x (?s ([of_nat (length x mod 256), of_nat (length x div 256)] @ replicate (length x) 0) 2) = Returned (filled_ram x)"
    using assms(2) by (simp add: writelog_def store_at_in overwrite_def filled_ram_def log_entry_def)
  moreover have "\<not> too_small (?s (0 # 0 # replicate (length x) 0) 0) (length x)" by (simp add: too_small_def spare_space_def)
  ultimately show ?thesis unfolding r using assms by (simp add: l_logramstore_def Let_def)
qed

lemma filled_ram_overrun:
  assumes "x \<noteq> []" "length x + 2 \<le> 2048" "y \<noteq> []" "length y \<le> length x"
  shows "l_logramstore Returned y (filled_ram x) = Fault"
proof -
  have f: "lr_first (filled_ram x) = 0" "lr_buf_size (filled_ram x) = length x + 2" "filled_ram x\<lparr>lr_first := 0\<rparr> = filled_ram x"
    "lr_buf (filled_ram x) = Some (log_entry x)" "lr_current (filled_ram x) = length x + 2"
    by (simp_all add: filled_ram_def)
  have "free_space (int (length y + 2)) (filled_ram x) = free_space (int (length y) - int (length x)) (filled_ram x)"
    by (subst free_space.simps) (simp add: f filled_size [OF assms(1,2)])
  also have "\<dots> = Returned (filled_ram x)" using assms(4) by (subst free_space.simps) simp
  finally have "free_space (int (length y + 2)) (filled_ram x) = Returned (filled_ram x)" .
  moreover have "spare_space (filled_ram x) = 0" by (simp add: spare_space_def f)
  moreover have "writesize (length y) (filled_ram x) = Fault" by (simp add: writesize_def f)
  ultimately show ?thesis using assms by (simp add: l_logramstore_def too_small_def f Let_def)
qed

text \<open>
  C40: a text that fills the buffer to its end is stored, but reading the store then never ends, and
  storing any other text writes behind the buffer.
\<close>

theorem log_end_of_buffer:
  assumes "x \<noteq> []" "length x + 2 \<le> 2048" "y \<noteq> []" "length y \<le> length x"
  shows "\<exists>s s'. l_lograminit True (Some (int (length x + 2))) log_ram_zero = (L_string ''ok'', s) \<and>
     l_logramstore Returned x s = Returned (L_string ''ok'', s') \<and> l_logramget s' = Hangs \<and> l_logramstore Returned y s' = Fault"
proof -
  obtain s where s: "l_lograminit True (Some (int (length x + 2))) log_ram_zero = (L_string ''ok'', s)"
    "s = \<lparr>lr_buf_size = length x + 2, lr_buf = Some (replicate (length x + 2) 0), lr_current = 0, lr_first = 0\<rparr>"
    using assms(2) by (simp add: l_lograminit_def log_ram_zero_def mod_pos_pos_trivial nat_add_distrib)
  have "l_logramstore Returned x s = Returned (L_string ''ok'', filled_ram x)" unfolding s(2) by (rule filled_ram_stored [OF assms(1,2)])
  moreover have "while_ret (\<lambda>(p, acc). p \<noteq> lr_current (filled_ram x)) (logramget_round (filled_ram x)) (lr_first (filled_ram x), []) = Hangs"
    by (rule while_ret_hangs [where I = "\<lambda>(p, acc). p = 0"]) (use filled_round [OF assms(1,2)] in \<open>auto simp: filled_ram_def\<close>)
  then have "l_logramget (filled_ram x) = Hangs" by (simp add: l_logramget_def) (simp add: filled_ram_def)
  moreover have "l_logramstore Returned y (filled_ram x) = Fault" by (rule filled_ram_overrun [OF assms])
  ultimately show ?thesis using s(1) by blast
qed

theorem log_end_of_buffer_witness:
  "\<exists>s s'. l_lograminit True (Some 10) log_ram_zero = (L_string ''ok'', s) \<and>
     l_logramstore Returned [1, 2, 3, 4, 5, 6, 7, 8] s = Returned (L_string ''ok'', s') \<and> l_logramget s' = Hangs \<and>
     l_logramstore Returned [9] s' = Fault"
  using log_end_of_buffer [of "[1, 2, 3, 4, 5, 6, 7, 8]" "[9]"] by simp

end
