(* ===== verification/Log_Flash.thy ===== *)
theory Log_Flash
  imports Log_Store
begin

text \<open>
  The store of the log in files, \<open>src/luafwk/log/log_storeflash.c\<close>: texts are appended to one file
  until it is full; it then replaces the other one. A file is its name and its content.
\<close>

section \<open>The model\<close>

text \<open>\<open>flash_open\<close> tells whether \<open>File1\<close> is an open file: the one with the first name.\<close>

record log_flash =
  flash_open :: bool
  flash_files :: "bytes \<rightharpoonup> bytes"
  filename1 :: bytes
  filename2 :: bytes
  file_size_limit :: int

text \<open>
  \<open>fopen\<close> for appending creates the file if it can be opened at all. \<open>reopened\<close> is the outcome of
  the \<open>fopen\<close> of the current file.
\<close>

definition touched :: "bytes \<Rightarrow> (bytes \<rightharpoonup> bytes) \<Rightarrow> (bytes \<rightharpoonup> bytes)" where
  "touched name files = (case files name of None \<Rightarrow> files(name \<mapsto> []) | Some _ \<Rightarrow> files)"

definition swap_files :: "bool \<Rightarrow> int \<Rightarrow> log_flash \<Rightarrow> log_flash" where
  "swap_files reopened size_to_add s =
     (case flash_files s (filename1 s) of
        None \<Rightarrow> s
      | Some content \<Rightarrow>
          if file_size_limit s < int (length content) + size_to_add
          then let files = (flash_files s)(filename2 s := None);
                   files = files(filename1 s := None, filename2 s \<mapsto> content) in
               if reopened then s\<lparr>flash_files := touched (filename1 s) files, flash_open := True\<rparr>
               else s\<lparr>flash_files := files, flash_open := False\<rparr>
          else s)"

text \<open>\<open>taken\<close> is the number of octets that \<open>fwrite\<close> can write.\<close>

definition l_logflashstore :: "bool \<Rightarrow> nat \<Rightarrow> bytes \<Rightarrow> log_flash \<Rightarrow> (lua_result \<times> log_flash) outcome" where
  "l_logflashstore reopened taken text s =
     (if \<not> flash_open s then Returned (L_error ''logflashstore: logflashinit not done'', s)
      else
        let s = swap_files reopened (int (length text)) s in
        if \<not> flash_open s then Fault
        else
          let content = (case flash_files s (filename1 s) of None \<Rightarrow> [] | Some c \<Rightarrow> c);
              s = s\<lparr>flash_files := (flash_files s)(filename1 s \<mapsto> content @ take taken text)\<rparr> in
          if taken < length text
          then Returned (L_error ''logflashstore: internal error, cannot write to file'', s)
          else Returned (L_string ''ok'', s))"

definition FLASH_FILE_NAME_BASE :: bytes where
  "FLASH_FILE_NAME_BASE = [0x6c, 0x6f, 0x67, 0x66, 0x6c, 0x61, 0x73, 0x68, 0x73, 0x74, 0x6f, 0x72, 0x65, 0x5f, 0x66, 0x69, 0x6c, 0x65]"

text \<open>\<open>%.*s/%s1.log\<close> into a buffer of \<open>n\<close> octets: what does not fit in front of the zero is cut.\<close>

definition flash_name :: "nat \<Rightarrow> bytes \<Rightarrow> byte \<Rightarrow> bytes" where
  "flash_name n dir digit = take (n - 1) (dir @ [0x2f] @ FLASH_FILE_NAME_BASE @ [digit] @ [0x2e, 0x6c, 0x6f, 0x67])"

text \<open>
  The arguments from outside: the outcomes of the three allocations, of \<open>mkdir\<close> with the check of
  the access, and of opening the two files.
\<close>

record flash_env =
  fe_malloc_path :: bool
  fe_malloc_cmd :: bool
  fe_malloc_names :: bool
  fe_mkdir :: "bytes \<Rightarrow> bool"
  fe_open2 :: bool
  fe_open1 :: bool

text \<open>The parameter is the table with its fields \<open>size\<close> and \<open>path\<close>; \<open>working_dir\<close> is \<open>LUA_AF_RW_PATH\<close> if that is a string.\<close>

definition l_logflashinit ::
  "flash_env \<Rightarrow> bytes option \<Rightarrow> (int option \<times> bytes option) option \<Rightarrow> log_flash \<Rightarrow> (lua_result \<times> log_flash) outcome" where
  "l_logflashinit env working_dir arg s =
     (if flash_open s then Returned (L_string ''logflashinit: init already done'', s)
      else case arg of
        None \<Rightarrow> Returned (L_error ''logflashinit: Provided parameter is not correct: need table param with 'size' and 'path' fields'', s)
      | Some (None, _) \<Rightarrow> Returned (L_error ''logflashinit: Provided parameter is not correct for field: size, expected to be of type: LUA_TNUMBER'', s)
      | Some (Some limit, path) \<Rightarrow>
          let s = s\<lparr>file_size_limit := limit\<rparr> in
          case path of
            None \<Rightarrow> Returned (L_error ''logflashinit: Provided parameter is not correct for field: path, expected to be of type: LUA_TSTRING'', s)
          | Some flash_path \<Rightarrow>
              let log_path = chars ((case working_dir of Some d \<Rightarrow> chars d | None \<Rightarrow> [0x2e, 0x2f]) @ chars flash_path) in
              if \<not> fe_malloc_path env \<or> \<not> fe_malloc_cmd env then Returned (L_error ''logflashinit: Allocation failure'', s)
              else if \<not> fe_mkdir env log_path then Returned (L_error ''logflashinit: Provided path is not correct: cannot create'', s)
              else if log_path = [] then Fault
              else
                let dir = (if last log_path = 0x2f then butlast log_path else log_path) in
                if \<not> fe_malloc_names env then Returned (L_error ''Malloc error at init!'', s)
                else
                  let s = s\<lparr>filename1 := flash_name (length dir + 25) dir 0x31, filename2 := flash_name (length dir + 25) dir 0x32\<rparr> in
                  if \<not> fe_open2 env then Fault
                  else
                    let files = touched (filename2 s) (flash_files s) in
                    Returned (L_string ''ok'',
                      if fe_open1 env then s\<lparr>flash_files := touched (filename1 s) files, flash_open := True\<rparr>
                      else s\<lparr>flash_files := files\<rparr>))"

text \<open>The source that is returned delivers the octets of the second file and then those of the first.\<close>

definition l_logflashgetsource :: "log_flash \<Rightarrow> lua_result outcome" where
  "l_logflashgetsource s =
     (if \<not> flash_open s then Returned (L_error ''logflashgetsource: logflashinit not done'')
      else need (flash_files s (filename1 s)) (\<lambda>c1. need (flash_files s (filename2 s)) (\<lambda>c2.
        if length c1 + length c2 = 0 then Returned (L_string ''Nothing to read in flash'')
        else Returned (L_octets (c2 @ c1)))))"

section \<open>The end of the log is kept\<close>

text \<open>The names are not cut, so they differ.\<close>

lemma flash_names_differ: "flash_name (length dir + 25) dir 0x31 \<noteq> flash_name (length dir + 25) dir 0x32"
  by (simp add: flash_name_def FLASH_FILE_NAME_BASE_def)

definition flash_rel :: "int \<Rightarrow> bytes \<Rightarrow> bytes \<Rightarrow> log_flash \<Rightarrow> bool" where
  "flash_rel limit c2 c1 s \<longleftrightarrow> flash_open s \<and> filename1 s \<noteq> filename2 s \<and> file_size_limit s = limit \<and>
     flash_files s (filename1 s) = Some c1 \<and> flash_files s (filename2 s) = Some c2"

lemma logflashinit_rel:
  assumes "\<not> flash_open s" "flash_files s = Map.empty" "fe_malloc_path env" "fe_malloc_cmd env" "fe_malloc_names env"
    "fe_open1 env" "fe_open2 env" "\<And>d. fe_mkdir env d" "working_dir = None"
  shows "\<exists>s'. l_logflashinit env working_dir (Some (Some limit, Some path)) s = Returned (L_string ''ok'', s') \<and> flash_rel limit [] [] s'"
proof -
  have "chars ([0x2e, 0x2f] @ chars path) \<noteq> []" by (simp add: chars_def)
  then show ?thesis using assms flash_names_differ by (auto simp: l_logflashinit_def flash_rel_def touched_def Let_def)
qed

text \<open>Storing a text whose octets are all written.\<close>

lemma logflashstore_rel:
  assumes "flash_rel limit c2 c1 s"
  shows "\<exists>s'. l_logflashstore True (length x) x s = Returned (L_string ''ok'', s') \<and>
     (if limit < int (length c1 + length x) then flash_rel limit c1 x s' else flash_rel limit c2 (c1 @ x) s')"
  using assms by (auto simp: l_logflashstore_def swap_files_def flash_rel_def touched_def Let_def)

primrec flash_run :: "bytes list \<Rightarrow> log_flash \<Rightarrow> log_flash outcome" where
  "flash_run [] s = Returned s"
| "flash_run (x # xs) s = run (l_logflashstore True (length x) x s) (\<lambda>(r, s). if r = L_string ''ok'' then flash_run xs s else Fault)"

text \<open>The texts \<open>ts\<close> were stored: the second file has those from \<open>i\<close> to \<open>j\<close>, the first one the rest.\<close>

definition kept :: "int \<Rightarrow> bytes list \<Rightarrow> log_flash \<Rightarrow> bool" where
  "kept limit ts s \<longleftrightarrow> (\<exists>as bs cs. ts = as @ bs @ cs \<and> flash_rel limit (concat bs) (concat cs) s \<and>
     (as @ bs = [] \<or> (cs \<noteq> [] \<and> limit < int (length (concat bs) + length (hd cs)))) \<and>
     (list_all (\<lambda>t. int (length t) \<le> limit) ts \<longrightarrow> int (length (concat bs)) \<le> limit \<and> int (length (concat cs)) \<le> limit))"

lemma kept_store:
  assumes "kept limit ts s" "0 \<le> limit"
  shows "\<exists>s'. l_logflashstore True (length x) x s = Returned (L_string ''ok'', s') \<and> kept limit (ts @ [x]) s'"
proof -
  from assms(1) obtain as bs cs where k: "ts = as @ bs @ cs" "flash_rel limit (concat bs) (concat cs) s"
    "as @ bs = [] \<or> (cs \<noteq> [] \<and> limit < int (length (concat bs) + length (hd cs)))"
    "list_all (\<lambda>t. int (length t) \<le> limit) ts \<longrightarrow> int (length (concat bs)) \<le> limit \<and> int (length (concat cs)) \<le> limit"
    unfolding kept_def by blast
  from logflashstore_rel [OF k(2), of x] obtain s' where s': "l_logflashstore True (length x) x s = Returned (L_string ''ok'', s')"
    "if limit < int (length (concat cs) + length x) then flash_rel limit (concat cs) x s' else flash_rel limit (concat bs) (concat cs @ x) s'"
    by blast
  have "kept limit (ts @ [x]) s'"
  proof (cases "limit < int (length (concat cs) + length x)")
    case True
    then show ?thesis unfolding kept_def
      by (intro exI [of _ "as @ bs"] exI [of _ cs] exI [of _ "[x]"]) (use k s' in simp)
  next
    case False
    then show ?thesis unfolding kept_def
      by (intro exI [of _ as] exI [of _ bs] exI [of _ "cs @ [x]"]) (use k s' in \<open>auto simp: hd_append\<close>)
  qed
  with s'(1) show ?thesis by blast
qed

lemma kept_run: "kept limit us s \<Longrightarrow> 0 \<le> limit \<Longrightarrow> \<exists>s'. flash_run ts s = Returned s' \<and> kept limit (us @ ts) s'"
proof (induction ts arbitrary: us s)
  case (Cons x ts)
  from kept_store [OF Cons.prems, of x] obtain s1 where 1: "l_logflashstore True (length x) x s = Returned (L_string ''ok'', s1)" "kept limit (us @ [x]) s1"
    by blast
  from Cons.IH [OF 1(2) Cons.prems(2)] 1(1) show ?case by simp
qed simp


definition sample_flash :: log_flash where
  "sample_flash = \<lparr>flash_open = False, flash_files = Map.empty, filename1 = [], filename2 = [], file_size_limit = 0\<rparr>"

definition sample_flash_env :: flash_env where
  "sample_flash_env = \<lparr>fe_malloc_path = True, fe_malloc_cmd = True, fe_malloc_names = True, fe_mkdir = (\<lambda>d. True),
     fe_open2 = True, fe_open1 = True\<rparr>"

definition sample_log :: "bytes list" where
  "sample_log = [[1, 2, 3], [4, 5], [6], [7, 8, 9]]"


end
