(* ===== verification/Emp_Protocol.thy ===== *)
theory Emp_Protocol
  imports C_Loops Return_Codes
begin

text \<open>
  The client side of the protocol between applications and the agent, \<open>src/cfwk/racon/emp.c\<close>:
  request identifiers, messages, the reader thread with its dispatching, and the life of the
  connection. The functions are modelled on the parser structure they share; what the operating
  system answers is an argument or a list in the state of the connection. The interleaving of
  threads is a step relation in \<open>Emp_Requests\<close>.
\<close>

section \<open>Data\<close>

definition EMP_RID_ERROR :: nat where "EMP_RID_ERROR = 255"
definition EMP_RID_AVAILABLE :: nat where "EMP_RID_AVAILABLE = 0"
definition EMP_RID_ALLOCATED :: nat where "EMP_RID_ALLOCATED = 1"
definition EMP_RID_TIMEDOUT :: nat where "EMP_RID_TIMEDOUT = 2"
definition EMP_MAX_CMD :: nat where "EMP_MAX_CMD = 64"
definition EMP_MAX_IPC_HDLRS :: nat where "EMP_MAX_IPC_HDLRS = 8"
definition EMP_NB_OF_COMMANDS :: nat where "EMP_NB_OF_COMMANDS = 53"
definition EPIPE :: nat where "EPIPE = 32"
definition ECONNRESET :: nat where "ECONNRESET = 104"

lemmas emp_consts = EMP_RID_ERROR_def EMP_RID_AVAILABLE_def EMP_RID_ALLOCATED_def EMP_RID_TIMEDOUT_def EMP_MAX_CMD_def
  EMP_MAX_IPC_HDLRS_def EMP_NB_OF_COMMANDS_def EPIPE_def ECONNRESET_def

text \<open>The semaphore of a request is its value. A payload that was copied is the octets of the copy.\<close>

record emp_command_ctx_t =
  status :: nat
  respSem :: nat
  respStatus :: int
  respPayload :: "bytes option"
  respPayloadLen :: nat

definition zero_ctx :: emp_command_ctx_t where
  "zero_ctx = \<lparr>status = 0, respSem = 0, respStatus = 0, respPayload = None, respPayloadLen = 0\<rparr>"

text \<open>A handler is a number that stands for the address of the function.\<close>

record EmpParser =
  commandInProgress :: "emp_command_ctx_t list"
  commandHdlrs :: "nat option list"
  ipcHdlrs :: "nat option list"
  readerThread :: bool
  cmdTimeout :: nat
  sockfd :: int
  ridBitfields :: "32 word list"

text \<open>\<open>calloc\<close> of the parser.\<close>

definition zero_parser :: EmpParser where
  "zero_parser = \<lparr>commandInProgress = replicate EMP_MAX_CMD zero_ctx, commandHdlrs = replicate EMP_NB_OF_COMMANDS None,
     ipcHdlrs = replicate EMP_MAX_IPC_HDLRS None, readerThread = False, cmdTimeout = 0, sockfd = 0, ridBitfields = [0, 0]\<rparr>"

definition ctx_of :: "nat \<Rightarrow> EmpParser \<Rightarrow> (emp_command_ctx_t \<Rightarrow> 'a outcome) \<Rightarrow> 'a outcome" where
  "ctx_of rid p k = (if rid < length (commandInProgress p) then k (commandInProgress p ! rid) else Fault)"

definition set_ctx :: "nat \<Rightarrow> emp_command_ctx_t \<Rightarrow> EmpParser \<Rightarrow> EmpParser" where
  "set_ctx rid c p = p\<lparr>commandInProgress := (commandInProgress p)[rid := c]\<rparr>"

section \<open>Request identifiers\<close>

definition compare_and_swap :: "nat \<Rightarrow> 32 word \<Rightarrow> 32 word \<Rightarrow> EmpParser \<Rightarrow> 32 word \<times> EmpParser" where
  "compare_and_swap idx oldval newval p =
     (let current = ridBitfields p ! idx in
      (current, if current = oldval then p\<lparr>ridBitfields := (ridBitfields p)[idx := newval]\<rparr> else p))"

text \<open>The bits for 64 identifiers: the word of an identifier and its bit there.\<close>

definition rid_word :: "nat \<Rightarrow> nat" where
  "rid_word rid = (if 32 \<le> rid then 1 else 0)"

primrec rid_lookup_from :: "nat list \<Rightarrow> EmpParser \<Rightarrow> nat \<times> EmpParser" where
  "rid_lookup_from [] p = (255, p)"
| "rid_lookup_from (i # is) p =
     (let idx = rid_word i; j = i mod 32; bits = ridBitfields p ! idx;
          (old, p) = compare_and_swap idx bits (bits OR push_bit j 1) p in
      if \<not> bit old j then (i, p) else rid_lookup_from is p)"

definition atomic_rid_lookup :: "EmpParser \<Rightarrow> nat \<times> EmpParser" where
  "atomic_rid_lookup p = rid_lookup_from [0..<64] p"

definition freerequestid :: "nat \<Rightarrow> EmpParser \<Rightarrow> EmpParser outcome" where
  "freerequestid rid p =
     ctx_of rid p (\<lambda>c.
       let idx = rid_word rid; i = rid mod 32; p = set_ctx rid zero_ctx p; bits = ridBitfields p ! idx in
       Returned (snd (compare_and_swap idx bits (bits AND NOT (push_bit i 1)) p)))"

definition getrequestid :: "EmpParser \<Rightarrow> (rc_ReturnCode_t \<times> nat \<times> EmpParser) outcome" where
  "getrequestid p =
     (let (rid, p) = atomic_rid_lookup p in
      if rid = 255 then Returned (RC_BUSY, rid, p)
      else ctx_of rid p (\<lambda>c. Returned (RC_OK, rid, set_ctx rid (c\<lparr>status := EMP_RID_ALLOCATED, respSem := 0\<rparr>) p)))"

section \<open>Sending\<close>

text \<open>What \<open>send\<close> answers: the number of octets it took, or an error.\<close>

datatype send_result = Sent nat | Send_error nat

definition ipc_send :: "send_result \<Rightarrow> bytes \<Rightarrow> rc_ReturnCode_t" where
  "ipc_send r payload =
     (case r of
        Send_error e \<Rightarrow> if e = EPIPE \<or> e = ECONNRESET then RC_CLOSED else RC_IO_ERROR
      | Sent n \<Rightarrow> if n \<noteq> length payload then RC_BAD_FORMAT else RC_OK)"

definition emp_header :: "nat \<Rightarrow> nat \<Rightarrow> nat \<Rightarrow> nat \<Rightarrow> bytes" where
  "emp_header command type rid payloadsize =
     [of_nat (drop_bit 8 command AND 0xff), of_nat (command AND 0xff), of_nat type, of_nat rid,
      of_nat (drop_bit 24 payloadsize AND 0xff), of_nat (drop_bit 16 payloadsize AND 0xff),
      of_nat (drop_bit 8 payloadsize AND 0xff), of_nat (payloadsize AND 0xff)]"

text \<open>
  The result has the request identifier and the message given to \<open>send\<close>. A size that wraps around
  makes the buffer too small for the payload.
\<close>

definition emp_sendmessage ::
  "bool \<Rightarrow> send_result \<Rightarrow> nat \<Rightarrow> nat \<Rightarrow> nat \<Rightarrow> bytes \<Rightarrow> EmpParser \<Rightarrow> (rc_ReturnCode_t \<times> nat \<times> bytes \<times> EmpParser) outcome" where
  "emp_sendmessage granted sent command type rid payload p =
     (if sockfd p = - 1 then Returned (RC_COMMUNICATION_ERROR, rid, [], p)
      else run (if type AND 1 = 0 then getrequestid p else Returned (RC_OK, rid, p)) (\<lambda>(res, rid, p).
        if res \<noteq> RC_OK then Returned (res, rid, [], p)
        else if \<not> granted then run (freerequestid rid p) (\<lambda>p. Returned (RC_NO_MEMORY, rid, [], p))
        else if 2 ^ 32 \<le> 8 + length payload then Fault
        else
          let buffer = emp_header command type rid (length payload) @ payload; res = ipc_send sent buffer in
          if res \<noteq> RC_OK then run (freerequestid rid p) (\<lambda>p. Returned (res, rid, buffer, p))
          else Returned (RC_OK, rid, buffer, p)))"

section \<open>Dispatching\<close>

definition broadcast_err :: "int \<Rightarrow> emp_command_ctx_t \<Rightarrow> emp_command_ctx_t" where
  "broadcast_err st c =
     (if status c = EMP_RID_ALLOCATED
      then c\<lparr>status := EMP_RID_ERROR, respStatus := st, respSem := respSem c + 1\<rparr> else c)"

definition throw_and_broadcast_err :: "rc_ReturnCode_t \<Rightarrow> EmpParser \<Rightarrow> EmpParser" where
  "throw_and_broadcast_err st p = p\<lparr>commandInProgress := map (broadcast_err (rc_value st)) (commandInProgress p)\<rparr>"

record thread_cmd_data =
  td_command :: nat
  td_payload :: "bytes option"
  td_rid :: nat

text \<open>The status in front of a response: two octets.\<close>

definition resp_status :: "bytes option \<Rightarrow> int" where
  "resp_status payload =
     (case payload of
        Some (a # b # _) \<Rightarrow> int (unat a * 256 + unat b)
      | _ \<Rightarrow> rc_value RC_UNSPECIFIED_ERROR)"

definition resp_data :: "bytes option \<Rightarrow> bytes" where
  "resp_data payload = (case payload of Some bs \<Rightarrow> drop 2 bs | None \<Rightarrow> [])"

definition set_response :: "bool \<Rightarrow> bytes option \<Rightarrow> emp_command_ctx_t \<Rightarrow> emp_command_ctx_t" where
  "set_response granted payload c =
     (let c = c\<lparr>respStatus := resp_status payload\<rparr>; extra = resp_data payload in
      if extra = [] then c
      else if granted then c\<lparr>respPayloadLen := length extra, respPayload := Some extra\<rparr>
      else c\<lparr>respPayloadLen := length extra, respPayload := None, respStatus := rc_value RC_NO_MEMORY\<rparr>)"

text \<open>
  The thread that is created for a command is returned with its data. \<open>granted\<close> is the outcome of
  the allocation.
\<close>

definition reader_dispatch_message ::
  "bool \<Rightarrow> nat \<Rightarrow> nat \<Rightarrow> nat \<Rightarrow> bytes option \<Rightarrow> EmpParser \<Rightarrow> (rc_ReturnCode_t \<times> thread_cmd_data option \<times> EmpParser) outcome" where
  "reader_dispatch_message granted command rid type payload p =
     (if type \<noteq> 0 then
        ctx_of rid p (\<lambda>c.
          if status c = EMP_RID_ALLOCATED
          then let c = set_response granted payload c in
               Returned (RC_OK, None, set_ctx rid (c\<lparr>respSem := respSem c + 1\<rparr>) p)
          else if status c = EMP_RID_TIMEDOUT
          then run (freerequestid rid p) (\<lambda>p. Returned (RC_OK, None, p))
          else Returned (RC_OK, None, p))
      else if length (commandHdlrs p) \<le> command then Fault
      else if commandHdlrs p ! command = None then Returned (RC_NOT_AVAILABLE, None, p)
      else if \<not> granted then Returned (RC_NO_MEMORY, None, p)
      else Returned (RC_OK, Some \<lparr>td_command = command, td_payload = payload, td_rid = rid\<rparr>, p))"

text \<open>
  The thread of a command: the handler is called (its result is not used) and the status 0 is sent
  back. \<open>None\<close> stands for a thread that ends without an answer.
\<close>

definition thread_cmd_routine ::
  "bool \<Rightarrow> send_result \<Rightarrow> thread_cmd_data \<Rightarrow> EmpParser \<Rightarrow> ((nat \<times> bytes) option \<times> EmpParser) outcome" where
  "thread_cmd_routine granted sent td p =
     (if length (commandHdlrs p) \<le> td_command td then Fault
      else case commandHdlrs p ! td_command td of
        None \<Rightarrow> Returned (None, p)
      | Some handler \<Rightarrow>
          run (emp_sendmessage granted sent (td_command td) 1 (td_rid td) [0, 0] p) (\<lambda>(res, rid, message, p).
          Returned (Some (handler, message), p)))"

section \<open>The reader thread\<close>

text \<open>
  What \<open>recv\<close> answers, in order: octets (none when the peer has closed the connection) or an error.
  When nothing is left, the thread waits forever. \<open>w_connects\<close> has the outcomes of \<open>connect\<close>,
  \<open>w_allocs\<close> those of the allocations for received messages; \<open>w_threads\<close> collects the threads that were
  created for commands and \<open>w_reconnected\<close> the handlers called after a reconnection.
\<close>

datatype recv_result = Recv bytes | Recv_error nat

record emp_world =
  w_parser :: EmpParser
  w_input :: "recv_result list"
  w_errno :: nat
  w_connects :: "bool list"
  w_allocs :: "bool list"
  w_threads :: "thread_cmd_data list"
  w_reconnected :: "nat list"

definition ipc_lost :: "emp_world \<Rightarrow> emp_world" where
  "ipc_lost w =
     (let p = w_parser w in
      if sockfd p \<noteq> - 1 \<and> (w_errno w = 0 \<or> w_errno w = ECONNRESET)
      then w\<lparr>w_parser := throw_and_broadcast_err RC_CLOSED p, w_errno := EPIPE\<rparr>
      else w\<lparr>w_parser := (throw_and_broadcast_err RC_IO_ERROR p)\<lparr>sockfd := - 1\<rparr>\<rparr>)"

text \<open>The octets that were read; none when the connection is lost.\<close>

definition ipc_read :: "nat \<Rightarrow> emp_world \<Rightarrow> (bytes \<times> emp_world) outcome" where
  "ipc_read n w =
     (case w_input w of
        [] \<Rightarrow> Hangs
      | Recv_error e # rs \<Rightarrow> Returned ([], ipc_lost (w\<lparr>w_input := rs, w_errno := e\<rparr>))
      | Recv bs # rs \<Rightarrow>
          if bs = [] then Returned ([], ipc_lost (w\<lparr>w_input := rs\<rparr>))
          else if length bs \<le> n then Returned (bs, w\<lparr>w_input := rs\<rparr>)
          else Returned (take n bs, w\<lparr>w_input := Recv (drop n bs) # rs\<rparr>))"

text \<open>The loops that read until \<open>n\<close> octets are there.\<close>

function read_octets :: "nat \<Rightarrow> bytes \<Rightarrow> emp_world \<Rightarrow> (bytes option \<times> emp_world) outcome" where
  "read_octets n acc w =
     run (ipc_read n w) (\<lambda>(bs, w).
       if bs = [] then Returned (None, w)
       else if n \<le> length bs then Returned (Some (acc @ bs), w)
       else read_octets (n - length bs) (acc @ bs) w)"
  by pat_completeness auto
termination by (relation "measure (\<lambda>(n, acc, w). n)") auto

declare read_octets.simps [simp del]

definition take_alloc :: "emp_world \<Rightarrow> bool \<times> emp_world" where
  "take_alloc w = (case w_allocs w of [] \<Rightarrow> (True, w) | g # gs \<Rightarrow> (g, w\<lparr>w_allocs := gs\<rparr>))"

definition dispatch_received :: "nat \<Rightarrow> nat \<Rightarrow> nat \<Rightarrow> bytes option \<Rightarrow> emp_world \<Rightarrow> emp_world outcome" where
  "dispatch_received command rid type payload w =
     (let (granted, w) = take_alloc w in
      run (reader_dispatch_message granted command rid type payload (w_parser w)) (\<lambda>(rc, td, p).
      Returned (w\<lparr>w_parser := p, w_threads := w_threads w @ (case td of None \<Rightarrow> [] | Some t \<Rightarrow> [t])\<rparr>)))"

definition reader_emp_parse :: "emp_world \<Rightarrow> emp_world outcome" where
  "reader_emp_parse w =
     run (read_octets 8 [] w) (\<lambda>(header, w).
       case header of
         None \<Rightarrow> Returned w
       | Some h \<Rightarrow>
           let command = unat (h ! 0) * 256 + unat (h ! 1); type = unat (h ! 2); rid = unat (h ! 3);
               dlen = unat (h ! 4) * 2 ^ 24 + unat (h ! 5) * 2 ^ 16 + unat (h ! 6) * 2 ^ 8 + unat (h ! 7) in
           if dlen = 0 then dispatch_received command rid type None w
           else
             let (granted, w) = take_alloc w in
             if \<not> granted then Returned w
             else run (read_octets dlen [] w) (\<lambda>(payload, w).
                    case payload of
                      None \<Rightarrow> Returned w
                    | Some bs \<Rightarrow> dispatch_received command rid type (Some bs) w))"

definition take_connect :: "emp_world \<Rightarrow> bool \<times> emp_world" where
  "take_connect w = (case w_connects w of [] \<Rightarrow> (False, w) | g # gs \<Rightarrow> (g, w\<lparr>w_connects := gs\<rparr>))"

text \<open>\<open>retry\<close> attempts to connect again; \<open>fd\<close> is the descriptor that \<open>socket\<close> returns.\<close>

primrec ipc_reconnect :: "nat \<Rightarrow> int \<Rightarrow> emp_world \<Rightarrow> bool \<times> emp_world" where
  "ipc_reconnect 0 fd w =
     (False, w\<lparr>w_parser := (throw_and_broadcast_err RC_COMMUNICATION_ERROR (w_parser w))\<lparr>sockfd := - 1\<rparr>\<rparr>)"
| "ipc_reconnect (Suc retry) fd w =
     (let w = w\<lparr>w_parser := (w_parser w)\<lparr>sockfd := fd\<rparr>\<rparr>; (connected, w) = take_connect w in
      if connected then (True, w) else ipc_reconnect retry fd w)"

definition reconnection_dispatcher :: "emp_world \<Rightarrow> emp_world" where
  "reconnection_dispatcher w = w\<lparr>w_reconnected := w_reconnected w @ List.map_filter (\<lambda>h. h) (ipcHdlrs (w_parser w))\<rparr>"

definition read_round :: "nat \<Rightarrow> int \<Rightarrow> emp_world \<Rightarrow> emp_world outcome" where
  "read_round retry fd w =
     run (reader_emp_parse w) (\<lambda>w.
       if w_errno w = EPIPE
       then let (connected, w) = ipc_reconnect retry fd w in
            if connected then Returned ((reconnection_dispatcher w)\<lparr>w_errno := 0\<rparr>) else Returned w
       else Returned w)"

definition read_routine :: "nat \<Rightarrow> int \<Rightarrow> emp_world \<Rightarrow> emp_world outcome" where
  "read_routine retry fd w = while_loop (\<lambda>w. 0 \<le> sockfd (w_parser w)) (read_round retry fd) w"

section \<open>Handlers and the life of the parser\<close>

primrec fill_slot :: "nat \<Rightarrow> nat option list \<Rightarrow> nat option list" where
  "fill_slot h [] = []"
| "fill_slot h (x # xs) = (if x = None then Some h # xs else x # fill_slot h xs)"

definition emp_addIpcHandler :: "nat \<Rightarrow> EmpParser \<Rightarrow> EmpParser" where
  "emp_addIpcHandler handler p = p\<lparr>ipcHdlrs := fill_slot handler (ipcHdlrs p)\<rparr>"

primrec clear_slot :: "nat \<Rightarrow> nat option list \<Rightarrow> nat option list" where
  "clear_slot h [] = []"
| "clear_slot h (x # xs) = (if x = Some h then None # xs else x # clear_slot h xs)"

definition emp_removeIpcHandler :: "nat \<Rightarrow> EmpParser \<Rightarrow> EmpParser" where
  "emp_removeIpcHandler handler p = p\<lparr>ipcHdlrs := clear_slot handler (ipcHdlrs p)\<rparr>"

definition set_hdlr :: "nat \<Rightarrow> nat option \<Rightarrow> EmpParser \<Rightarrow> EmpParser outcome" where
  "set_hdlr cmd h p = (if cmd < length (commandHdlrs p) then Returned (p\<lparr>commandHdlrs := (commandHdlrs p)[cmd := h]\<rparr>) else Fault)"

definition emp_addCmdHandler :: "nat \<Rightarrow> nat \<Rightarrow> EmpParser option \<Rightarrow> (rc_ReturnCode_t \<times> EmpParser option) outcome" where
  "emp_addCmdHandler cmd h parser =
     (case parser of
        None \<Rightarrow> Returned (RC_NOT_INITIALIZED, None)
      | Some p \<Rightarrow> run (set_hdlr cmd (Some h) p) (\<lambda>p. Returned (RC_OK, Some p)))"

definition emp_removeCmdHandler :: "nat \<Rightarrow> EmpParser option \<Rightarrow> (rc_ReturnCode_t \<times> EmpParser option) outcome" where
  "emp_removeCmdHandler cmd parser =
     (case parser of
        None \<Rightarrow> Returned (RC_NOT_INITIALIZED, None)
      | Some p \<Rightarrow> run (set_hdlr cmd None p) (\<lambda>p. Returned (RC_OK, Some p)))"

definition check_cmd_handlers :: "EmpParser \<Rightarrow> bool" where
  "check_cmd_handlers p = list_ex (\<lambda>h. h \<noteq> None) (commandHdlrs p)"

primrec add_handlers :: "(nat \<times> nat) list \<Rightarrow> EmpParser option \<Rightarrow> EmpParser option outcome" where
  "add_handlers [] parser = Returned parser"
| "add_handlers (ch # chs) parser = run (emp_addCmdHandler (fst ch) (snd ch) parser) (\<lambda>(rc, parser). add_handlers chs parser)"

primrec remove_handlers :: "nat list \<Rightarrow> EmpParser option \<Rightarrow> EmpParser option outcome" where
  "remove_handlers [] parser = Returned parser"
| "remove_handlers (c # cs) parser = run (emp_removeCmdHandler c parser) (\<lambda>(rc, parser). remove_handlers cs parser)"

definition emp_parser_destroy :: "nat list \<Rightarrow> nat option \<Rightarrow> EmpParser option \<Rightarrow> (rc_ReturnCode_t \<times> EmpParser option) outcome" where
  "emp_parser_destroy cmds ipcHdlr parser =
     (if parser = None then Returned (RC_OK, None)
      else run (remove_handlers cmds parser) (\<lambda>parser.
        need parser (\<lambda>p.
          if check_cmd_handlers p then Returned (RC_OK, Some p)
          else Returned (RC_OK, None))))"

text \<open>
  The outcomes of \<open>calloc\<close>, \<open>socket\<close> (a descriptor or a negative number) and \<open>connect\<close>, and the
  time limit from the environment.
\<close>

record emp_init_env =
  ie_calloc :: bool
  ie_socket :: int
  ie_connect :: bool
  ie_timeout :: "nat option"

definition emp_parser_init ::
  "emp_init_env \<Rightarrow> (nat \<times> nat) list \<Rightarrow> nat option \<Rightarrow> EmpParser option \<Rightarrow> (rc_ReturnCode_t \<times> EmpParser option) outcome" where
  "emp_parser_init env cmds ipcHdlr parser =
     run (case parser of
            Some p \<Rightarrow> Returned (RC_OK, Some p)
          | None \<Rightarrow>
              if \<not> ie_calloc env then Fault
              else
                let p = zero_parser\<lparr>sockfd := ie_socket env\<rparr> in
                if sockfd p < 0
                then run (emp_parser_destroy (map fst cmds) ipcHdlr (Some p)) (\<lambda>(rc, parser). Returned (RC_UNSPECIFIED_ERROR, parser))
                else if \<not> ie_connect env
                then run (emp_parser_destroy (map fst cmds) ipcHdlr (Some p)) (\<lambda>(rc, parser). Returned (RC_COMMUNICATION_ERROR, parser))
                else Returned (RC_OK, Some (p\<lparr>cmdTimeout := (case ie_timeout env of Some t \<Rightarrow> u16 t | None \<Rightarrow> 60), readerThread := True\<rparr>)))
       (\<lambda>(rc, parser).
          if rc \<noteq> RC_OK then Returned (rc, parser)
          else run (add_handlers cmds parser) (\<lambda>parser.
               Returned (RC_OK, map_option (\<lambda>p. case ipcHdlr of Some h \<Rightarrow> emp_addIpcHandler h p | None \<Rightarrow> p) parser)))"

section \<open>A request\<close>

text \<open>What the caller finds in its payload pointer: nothing, a copy that it owns, or freed memory.\<close>

datatype resp_pointer = No_payload | Payload bytes | Dangling

definition resp_pointer_of :: "bool \<Rightarrow> bool \<Rightarrow> bytes option \<Rightarrow> resp_pointer" where
  "resp_pointer_of wants_payload wants_len payload =
     (case payload of
        None \<Rightarrow> No_payload
      | Some bs \<Rightarrow> if \<not> wants_payload then No_payload else if \<not> wants_len then Dangling else Payload bs)"

text \<open>\<open>emp_send_and_wait_response\<close> after the wait, which has ended by the semaphore or by the time limit.\<close>

definition emp_response ::
  "bool \<Rightarrow> bool \<Rightarrow> bool \<Rightarrow> nat \<Rightarrow> EmpParser \<Rightarrow> (int \<times> resp_pointer \<times> EmpParser) outcome" where
  "emp_response timedout wants_payload wants_len rid p =
     run (if timedout
          then ctx_of rid p (\<lambda>c. Returned (set_ctx rid
                 (c\<lparr>respPayload := None, respStatus := rc_value RC_TIMEOUT, status := EMP_RID_TIMEDOUT\<rparr>) p))
          else Returned p) (\<lambda>p.
       ctx_of rid p (\<lambda>c.
         let res = respStatus c; ptr = resp_pointer_of wants_payload wants_len (respPayload c) in
         if status c \<noteq> EMP_RID_TIMEDOUT then run (freerequestid rid p) (\<lambda>p. Returned (res, ptr, p))
         else Returned (res, ptr, p)))"

text \<open>
  The whole call, where \<open>wait\<close> is what happens to the parser while the caller waits for its request:
  the result of \<open>sem_timedwait\<close> (whether the time is over) and the parser then.
\<close>

definition emp_send_and_wait_response ::
  "bool \<Rightarrow> send_result \<Rightarrow> (nat \<Rightarrow> bytes \<Rightarrow> EmpParser \<Rightarrow> bool \<times> EmpParser) \<Rightarrow> nat \<Rightarrow> nat \<Rightarrow> bytes \<Rightarrow> bool \<Rightarrow> bool \<Rightarrow>
   EmpParser option \<Rightarrow> (int \<times> resp_pointer \<times> EmpParser option) outcome" where
  "emp_send_and_wait_response granted sent wait command type payload wants_payload wants_len parser =
     (case parser of
        None \<Rightarrow> Returned (rc_value RC_NOT_INITIALIZED, No_payload, None)
      | Some p \<Rightarrow>
          run (emp_sendmessage granted sent command type 0 payload p) (\<lambda>(res, rid, message, p).
            if res \<noteq> RC_OK then Returned (rc_value res, No_payload, Some p)
            else case wait rid message p of (timedout, p) \<Rightarrow>
                   run (emp_response timedout wants_payload wants_len rid p) (\<lambda>(res, ptr, p). Returned (res, ptr, Some p))))"

end
