(* ===== verification/Emp_Requests.thy ===== *)
theory Emp_Requests
  imports Emp_Protocol
begin

text \<open>
  The requests of several threads over one connection: the state of every caller and of the shared
  parser, with a step for each call that is made without interruption. In every reachable state the
  callers have different request identifiers, and an identifier without a caller is free or waits
  for a late response.
\<close>

section \<open>The bits of the identifiers\<close>

definition rid_taken :: "EmpParser \<Rightarrow> nat \<Rightarrow> bool" where
  "rid_taken p rid \<longleftrightarrow> bit (ridBitfields p ! rid_word rid) (rid mod 32)"

definition parser_wf :: "EmpParser \<Rightarrow> bool" where
  "parser_wf p \<longleftrightarrow> length (commandInProgress p) = 64 \<and> length (ridBitfields p) = 2"

lemma rid_word_less [simp]: "rid_word rid < 2"
  by (simp add: rid_word_def)

lemma rid_position_inj:
  assumes "r < 64" "i < 64" "rid_word r = rid_word i" "r mod 32 = i mod 32"
  shows "r = i"
proof -
  have "(if 32 \<le> k then 1 else 0) = k div 32" if "k < 64" for k :: nat using that by auto
  with assms have "r div 32 = i div 32" by (simp add: rid_word_def)
  then show ?thesis using assms(4) by (metis div_mult_mod_eq)
qed

definition set_bits :: "nat \<Rightarrow> bool \<Rightarrow> EmpParser \<Rightarrow> EmpParser" where
  "set_bits rid b p = p\<lparr>ridBitfields := (ridBitfields p)[rid_word rid :=
     (if b then ridBitfields p ! rid_word rid OR push_bit (rid mod 32) 1
      else ridBitfields p ! rid_word rid AND NOT (push_bit (rid mod 32) 1))]\<rparr>"

lemma rid_taken_set_bits:
  assumes "parser_wf p" "r < 64" "rid < 64"
  shows "rid_taken (set_bits rid b p) r \<longleftrightarrow> (if r = rid then b else rid_taken p r)"
proof (cases "rid_word r = rid_word rid")
  case True
  have "r mod 32 < LENGTH(32)" by simp
  then have "rid_taken (set_bits rid b p) r \<longleftrightarrow> (if r mod 32 = rid mod 32 then b else rid_taken p r)"
    using True assms(1) by (auto simp: rid_taken_def set_bits_def parser_wf_def bit_simps)
  moreover have "r mod 32 = rid mod 32 \<longleftrightarrow> r = rid" using rid_position_inj [OF assms(2,3) True] by auto
  ultimately show ?thesis by simp
next
  case False
  then show ?thesis by (auto simp: rid_taken_def set_bits_def)
qed

lemma set_bits_fields [simp]:
  "commandInProgress (set_bits rid b p) = commandInProgress p" "sockfd (set_bits rid b p) = sockfd p"
  "commandHdlrs (set_bits rid b p) = commandHdlrs p" "parser_wf (set_bits rid b p) = parser_wf p"
  by (simp_all add: set_bits_def parser_wf_def)

lemma set_ctx_fields [simp]:
  "ridBitfields (set_ctx rid c p) = ridBitfields p" "sockfd (set_ctx rid c p) = sockfd p"
  "commandHdlrs (set_ctx rid c p) = commandHdlrs p" "parser_wf (set_ctx rid c p) = parser_wf p"
  "commandInProgress (set_ctx rid c p) = (commandInProgress p)[rid := c]" "rid_taken (set_ctx rid c p) = rid_taken p"
  by (auto simp: set_ctx_def parser_wf_def rid_taken_def)

lemma set_bits_same: "parser_wf p \<Longrightarrow> rid_taken p rid \<Longrightarrow> set_bits rid True p = p"
proof -
  assume p: "parser_wf p" "rid_taken p rid"
  have "ridBitfields p ! rid_word rid OR push_bit (rid mod 32) 1 = ridBitfields p ! rid_word rid"
    using p(2) by (intro bit_word_eqI) (auto simp: rid_taken_def bit_simps)
  then show ?thesis by (simp add: set_bits_def)
qed

lemma rid_lookup_first:
  assumes "parser_wf p"
  shows "rid_lookup_from is p = (case find (\<lambda>i. \<not> rid_taken p i) is of None \<Rightarrow> (255, p) | Some i \<Rightarrow> (i, set_bits i True p))"
  using assms
  by (induction "is") (auto simp: compare_and_swap_def rid_taken_def [symmetric] set_bits_def [where b = True, simplified, symmetric] set_bits_same Let_def)

lemma getrequestid_cases:
  assumes "parser_wf p" "getrequestid p = Returned (rc, rid, p')"
  obtains "rc = RC_BUSY" "p' = p" "\<forall>i < 64. rid_taken p i"
  | "rc = RC_OK" "rid < 64" "\<not> rid_taken p rid"
    "p' = set_ctx rid ((commandInProgress p ! rid)\<lparr>status := EMP_RID_ALLOCATED, respSem := 0\<rparr>) (set_bits rid True p)"
proof (cases "find (\<lambda>i. \<not> rid_taken p i) [0..<64]")
  case None
  with assms that(1) show ?thesis by (auto simp: getrequestid_def atomic_rid_lookup_def rid_lookup_first find_None_iff)
next
  case (Some i)
  then have i: "i < 64" "\<not> rid_taken p i" by (auto simp: find_Some_iff)
  with Some assms that(2) show ?thesis by (auto simp: getrequestid_def atomic_rid_lookup_def rid_lookup_first ctx_of_def parser_wf_def)
qed

lemma freerequestid_eval:
  "parser_wf p \<Longrightarrow> rid < 64 \<Longrightarrow> freerequestid rid p = Returned (set_bits rid False (set_ctx rid zero_ctx p))"
  by (simp add: freerequestid_def ctx_of_def parser_wf_def compare_and_swap_def set_bits_def Let_def)

section \<open>Callers\<close>

text \<open>
  A caller of \<open>emp_send_and_wait_response\<close> waits for its request, goes on after the wait (by the
  semaphore or because the time is over), and has its result.
\<close>

datatype emp_phase = Idle | Waiting nat | Ending nat bool | Done int resp_pointer

type_synonym emp_sys = "EmpParser \<times> (nat \<Rightarrow> emp_phase)"

fun on_rid :: "emp_phase \<Rightarrow> nat option" where
  "on_rid (Waiting rid) = Some rid"
| "on_rid (Ending rid timedout) = Some rid"
| "on_rid phase = None"

text \<open>
  The steps: a caller sends its request, fails to send it, is woken up, runs out of time, takes its
  result, or calls again; the reader thread receives a message, or loses the connection and opens
  another one; the thread of a command sends its answer; a module registers or removes its handlers.
\<close>

inductive emp_step :: "emp_sys \<Rightarrow> emp_sys \<Rightarrow> bool" where
  send: "cs t = Idle \<Longrightarrow> emp_sendmessage granted sent command 0 0 payload p = Returned (RC_OK, rid, message, p') \<Longrightarrow>
    emp_step (p, cs) (p', cs(t := Waiting rid))"
| send_failed: "cs t = Idle \<Longrightarrow> emp_sendmessage granted sent command 0 0 payload p = Returned (rc, rid, message, p') \<Longrightarrow> rc \<noteq> RC_OK \<Longrightarrow>
    emp_step (p, cs) (p', cs(t := Done (rc_value rc) No_payload))"
| wake: "cs t = Waiting rid \<Longrightarrow> commandInProgress p ! rid = c \<Longrightarrow> 0 < respSem c \<Longrightarrow>
    emp_step (p, cs) (set_ctx rid (c\<lparr>respSem := respSem c - 1\<rparr>) p, cs(t := Ending rid False))"
| timeout: "cs t = Waiting rid \<Longrightarrow> respSem (commandInProgress p ! rid) = 0 \<Longrightarrow> emp_step (p, cs) (p, cs(t := Ending rid True))"
| finish: "cs t = Ending rid timedout \<Longrightarrow> emp_response timedout wants_payload wants_len rid p = Returned (res, ptr, p') \<Longrightarrow>
    emp_step (p, cs) (p', cs(t := Done res ptr))"
| again: "cs t = Done res ptr \<Longrightarrow> emp_step (p, cs) (p, cs(t := Idle))"
| receive: "reader_dispatch_message granted command rid type payload p = Returned (rc, td, p') \<Longrightarrow> emp_step (p, cs) (p', cs)"
| lost: "emp_step (p, cs) ((throw_and_broadcast_err rc p)\<lparr>sockfd := fd\<rparr>, cs)"
| answer: "emp_sendmessage granted sent command 1 rid payload p = Returned (RC_OK, rid', message, p') \<Longrightarrow> emp_step (p, cs) (p', cs)"
| register: "length hs = length (commandHdlrs p) \<Longrightarrow> emp_step (p, cs) (p\<lparr>commandHdlrs := hs, ipcHdlrs := is\<rparr>, cs)"

definition busy :: "EmpParser \<Rightarrow> nat \<Rightarrow> bool" where
  "busy p rid \<longleftrightarrow> status (commandInProgress p ! rid) = EMP_RID_ALLOCATED \<or> status (commandInProgress p ! rid) = EMP_RID_ERROR"

definition status_ok :: "nat \<Rightarrow> bool" where
  "status_ok n \<longleftrightarrow> n = EMP_RID_AVAILABLE \<or> n = EMP_RID_ALLOCATED \<or> n = EMP_RID_TIMEDOUT \<or> n = EMP_RID_ERROR"

definition emp_inv :: "emp_sys \<Rightarrow> bool" where
  "emp_inv = (\<lambda>(p, cs).
     parser_wf p \<and> (\<forall>r < 64. status_ok (status (commandInProgress p ! r))) \<and>
     (\<forall>r < 64. rid_taken p r \<longleftrightarrow> status (commandInProgress p ! r) \<noteq> EMP_RID_AVAILABLE) \<and>
     (\<forall>r < 64. busy p r \<longleftrightarrow> (\<exists>t. on_rid (cs t) = Some r)) \<and> (\<forall>t r. on_rid (cs t) = Some r \<longrightarrow> r < 64) \<and>
     (\<forall>t t' r. on_rid (cs t) = Some r \<longrightarrow> on_rid (cs t') = Some r \<longrightarrow> t = t'))"

lemma emp_invD:
  assumes "emp_inv (p, cs)"
  shows "parser_wf p" "length (commandInProgress p) = 64" "r < 64 \<Longrightarrow> rid_taken p r \<longleftrightarrow> status (commandInProgress p ! r) \<noteq> EMP_RID_AVAILABLE"
    "r < 64 \<Longrightarrow> busy p r \<longleftrightarrow> (\<exists>t. on_rid (cs t) = Some r)" "on_rid (cs t) = Some r \<Longrightarrow> r < 64"
    "on_rid (cs t) = Some r \<Longrightarrow> on_rid (cs t') = Some r \<Longrightarrow> t = t'" "r < 64 \<Longrightarrow> status_ok (status (commandInProgress p ! r))"
  using assms by (auto simp: emp_inv_def parser_wf_def)

lemma emp_invI:
  assumes "parser_wf p" "\<And>r. r < 64 \<Longrightarrow> rid_taken p r \<longleftrightarrow> status (commandInProgress p ! r) \<noteq> EMP_RID_AVAILABLE"
    "\<And>r. r < 64 \<Longrightarrow> busy p r \<longleftrightarrow> (\<exists>t. on_rid (cs t) = Some r)" "\<And>t r. on_rid (cs t) = Some r \<Longrightarrow> r < 64"
    "\<And>t t' r. on_rid (cs t) = Some r \<Longrightarrow> on_rid (cs t') = Some r \<Longrightarrow> t = t'" "\<And>r. r < 64 \<Longrightarrow> status_ok (status (commandInProgress p ! r))"
  shows "emp_inv (p, cs)"
  using assms by (simp add: emp_inv_def)

text \<open>Only the status of the requests, the bits and the identifiers of the callers matter.\<close>

lemma emp_inv_same:
  assumes "emp_inv (p, cs)" "parser_wf p'" "\<And>r. r < 64 \<Longrightarrow> rid_taken p' r = rid_taken p r"
    "\<And>r. r < 64 \<Longrightarrow> status (commandInProgress p' ! r) = EMP_RID_AVAILABLE \<longleftrightarrow> status (commandInProgress p ! r) = EMP_RID_AVAILABLE"
    "\<And>r. r < 64 \<Longrightarrow> busy p' r = busy p r" "\<And>t. on_rid (cs' t) = on_rid (cs t)"
    "\<And>r. r < 64 \<Longrightarrow> status (commandInProgress p' ! r) = status (commandInProgress p ! r) \<or> status_ok (status (commandInProgress p' ! r))"
  shows "emp_inv (p', cs')"
proof (rule emp_invI)
  note i = emp_invD [OF assms(1)]
  show "rid_taken p' r \<longleftrightarrow> status (commandInProgress p' ! r) \<noteq> EMP_RID_AVAILABLE" if "r < 64" for r
    using i(3) [OF that] assms(3,4) that by blast
  show "busy p' r \<longleftrightarrow> (\<exists>t. on_rid (cs' t) = Some r)" if "r < 64" for r using i(4) [OF that] assms(5,6) that by simp
  show "t = t'" if "on_rid (cs' t) = Some r" "on_rid (cs' t') = Some r" for t t' r using that i(6) [of t r t'] assms(6) by metis
  show "r < 64" if "on_rid (cs' t) = Some r" for t r using that i(5) assms(6) by metis
  show "status_ok (status (commandInProgress p' ! r))" if "r < 64" for r using i(7) [OF that] assms(7) [OF that] by auto
qed (rule assms(2))

text \<open>A request begins.\<close>

lemma emp_inv_begin:
  assumes "emp_inv (p, cs)" "on_rid (cs t) = None" "rid < 64" "\<not> rid_taken p rid" "status c = EMP_RID_ALLOCATED"
  shows "emp_inv (set_ctx rid c (set_bits rid True p), cs(t := Waiting rid))"
proof (rule emp_invI)
  let ?p = "set_ctx rid c (set_bits rid True p)" and ?cs = "cs(t := Waiting rid)"
  note i = emp_invD [OF assms(1)]
  have "status (commandInProgress p ! rid) = EMP_RID_AVAILABLE" using i(3) [OF assms(3)] assms(4) by simp
  then have free: "on_rid (cs t') \<noteq> Some rid" for t' using i(4) [OF assms(3)] by (auto simp: busy_def emp_consts)
  have st: "status (commandInProgress ?p ! r) = (if r = rid then EMP_RID_ALLOCATED else status (commandInProgress p ! r))" if "r < 64" for r
    using that assms(3,5) i(2) by (auto simp: nth_list_update)
  show "parser_wf ?p" using i(1) by simp
  show "rid_taken ?p r \<longleftrightarrow> status (commandInProgress ?p ! r) \<noteq> EMP_RID_AVAILABLE" if "r < 64" for r
    unfolding st [OF that] using rid_taken_set_bits [OF i(1) that assms(3), of True] i(3) [OF that] by (simp add: emp_consts)
  have on: "on_rid (?cs t') = Some r \<longleftrightarrow> (if t' = t then r = rid else on_rid (cs t') = Some r)" for t' r by auto
  show "busy ?p r \<longleftrightarrow> (\<exists>t'. on_rid (?cs t') = Some r)" if "r < 64" for r
  proof -
    have "busy ?p r \<longleftrightarrow> r = rid \<or> busy p r" unfolding busy_def st [OF that] by simp
    then show ?thesis unfolding on using i(4) [OF that] assms(2) by (metis option.distinct(1))
  qed
  show "r < 64" if "on_rid (?cs t') = Some r" for t' r using that i(5) assms(3) unfolding on by (auto split: if_splits)
  show "t1 = t2" if "on_rid (?cs t1) = Some r" "on_rid (?cs t2) = Some r" for t1 t2 r
    using that i(6) [of t1 r t2] free unfolding on by (auto split: if_splits)
  show "status_ok (status (commandInProgress ?p ! r))" if "r < 64" for r
    unfolding st [OF that] using i(7) [OF that] by (simp add: status_ok_def)
qed

text \<open>A request ends: its identifier is free, or waits for a late response.\<close>

lemma emp_inv_end:
  assumes "emp_inv (p, cs)" "on_rid (cs t) = Some rid" "on_rid ph = None"
    "parser_wf p'" "\<And>r. r < 64 \<Longrightarrow> r \<noteq> rid \<Longrightarrow> rid_taken p' r = rid_taken p r \<and> status (commandInProgress p' ! r) = status (commandInProgress p ! r)"
    "rid_taken p' rid \<longleftrightarrow> status (commandInProgress p' ! rid) \<noteq> EMP_RID_AVAILABLE" "\<not> busy p' rid"
    "status_ok (status (commandInProgress p' ! rid))"
  shows "emp_inv (p', cs(t := ph))"
proof (rule emp_invI)
  let ?cs = "cs(t := ph)"
  note i = emp_invD [OF assms(1)]
  show "parser_wf p'" by (rule assms(4))
  show "rid_taken p' r \<longleftrightarrow> status (commandInProgress p' ! r) \<noteq> EMP_RID_AVAILABLE" if "r < 64" for r
    using assms(5) [OF that] assms(6) i(3) [OF that] by (cases "r = rid") simp_all
  have on: "on_rid (?cs t') = Some r \<longleftrightarrow> t' \<noteq> t \<and> on_rid (cs t') = Some r" for t' r using assms(3) by simp
  have "busy p' r \<longleftrightarrow> r \<noteq> rid \<and> busy p r" if "r < 64" for r using assms(5) [OF that] assms(7) by (cases "r = rid") (simp_all add: busy_def)
  then show "busy p' r \<longleftrightarrow> (\<exists>t'. on_rid (?cs t') = Some r)" if "r < 64" for r
    unfolding on using i(4) [OF that] i(6) [OF assms(2)] assms(2) that by (metis option.inject)
  show "r < 64" if "on_rid (?cs t') = Some r" for t' r using that i(5) unfolding on by blast
  show "t1 = t2" if "on_rid (?cs t1) = Some r" "on_rid (?cs t2) = Some r" for t1 t2 r using that i(6) unfolding on by blast
  show "status_ok (status (commandInProgress p' ! r))" if "r < 64" for r using i(7) [OF that] assms(5) [OF that] assms(8) by (cases "r = rid") simp_all
qed

section \<open>The steps keep the invariant\<close>

text \<open>Sending a request: it has a new identifier, or nothing is left of it.\<close>

lemma sendmessage_request:
  assumes "parser_wf p" "emp_sendmessage granted sent command 0 0 payload p = Returned (rc, rid, message, p')"
  obtains (sent) "rc = RC_OK" "rid < 64" "\<not> rid_taken p rid" "message = emp_header command 0 rid (length payload) @ payload"
    "p' = set_ctx rid ((commandInProgress p ! rid)\<lparr>status := EMP_RID_ALLOCATED, respSem := 0\<rparr>) (set_bits rid True p)"
  | (failed) "rc \<noteq> RC_OK" "parser_wf p'" "\<And>r. r < 64 \<Longrightarrow> rid_taken p' r = rid_taken p r"
    "\<And>r. r < 64 \<Longrightarrow> rid_taken p r \<Longrightarrow> commandInProgress p' ! r = commandInProgress p ! r"
    "\<And>r. r < 64 \<Longrightarrow> \<not> rid_taken p r \<Longrightarrow> status (commandInProgress p' ! r) = status (commandInProgress p ! r) \<or> status (commandInProgress p' ! r) = 0"
proof (cases "sockfd p = - 1")
  case True
  with assms that(2) show ?thesis by (simp add: emp_sendmessage_def)
next
  case False
  note failure = that(2) and success = that(1)
  from False assms(2) obtain rc1 rid1 p1 where g: "getrequestid p = Returned (rc1, rid1, p1)"
    by (cases "getrequestid p") (auto simp: emp_sendmessage_def)
  from assms(1) g show ?thesis
  proof (cases rule: getrequestid_cases)
    case 1
    with assms(2) False g failure assms(1) show ?thesis by (simp add: emp_sendmessage_def)
  next
    case 2
    have p1: "parser_wf p1" "freerequestid rid1 p1 = Returned (set_bits rid1 False (set_ctx rid1 zero_ctx p1))"
      using freerequestid_eval [of p1 rid1] 2 assms(1) by simp_all
    let ?q = "set_bits rid1 False (set_ctx rid1 zero_ctx p1)"
    have q: "parser_wf ?q" "rid_taken ?q r = rid_taken p r" if "r < 64" for r
      using rid_taken_set_bits [of "set_ctx rid1 zero_ctx p1" r rid1 False] rid_taken_set_bits [of p r rid1 True] p1(1) 2 assms(1) that by auto
    have c: "commandInProgress ?q ! r = (if r = rid1 then zero_ctx else commandInProgress p ! r)" if "r < 64" for r
      using 2 assms(1) that by (simp add: parser_wf_def nth_list_update)
    have *: ?thesis if "p' = ?q" "rc \<noteq> RC_OK"
      by (rule failure) (use that q(2) p1(1) c 2(3) in \<open>auto simp: zero_ctx_def\<close>)
    show ?thesis
      using assms(2) False g 2 p1(2) success * by (auto simp: emp_sendmessage_def Let_def split: if_splits)
  qed
qed

lemma emp_inv_receive:
  assumes "emp_inv (p, cs)" "reader_dispatch_message granted command rid type payload p = Returned (rc, td, p')"
  shows "emp_inv (p', cs)"
proof -
  note i = emp_invD [OF assms(1)]
  define c where "c = commandInProgress p ! rid"
  have same: "emp_inv (set_ctx rid c' p, cs)" if "status c' = status c" "rid < 64" for c'
    by (rule emp_inv_same [OF assms(1)]) (use that i(1,2) in \<open>auto simp: c_def busy_def nth_list_update\<close>)
  have r: "status (set_response granted payload c) = status c" by (simp add: set_response_def Let_def)
  show ?thesis
  proof (cases "type = 0")
    case True
    with assms show ?thesis by (auto simp: reader_dispatch_message_def split: if_splits)
  next
    case False
    with assms(2) have rid: "rid < 64" using i(2) by (auto simp: reader_dispatch_message_def ctx_of_def split: if_splits)
    consider "status c = EMP_RID_ALLOCATED" | "status c = EMP_RID_TIMEDOUT" | "p' = p"
      using False assms(2) rid i(2) by (auto simp: reader_dispatch_message_def ctx_of_def c_def split: if_splits)
    then show ?thesis
    proof cases
      case 1
      with False assms(2) rid i(2) same r show ?thesis
        by (auto simp: reader_dispatch_message_def ctx_of_def Let_def simp flip: c_def)
    next
      case 2
      let ?q = "set_bits rid False (set_ctx rid zero_ctx p)"
      have p': "p' = ?q" using 2 False assms(2) rid i(1,2) freerequestid_eval [of p rid]
        by (auto simp: reader_dispatch_message_def ctx_of_def emp_consts simp flip: c_def)
      have st: "status (commandInProgress ?q ! r) = (if r = rid then 0 else status (commandInProgress p ! r))" if "r < 64" for r
        using that rid i(2) by (simp add: nth_list_update zero_ctx_def)
      have "busy ?q r = busy p r" if "r < 64" for r
        using st [OF that] 2 by (cases "r = rid") (auto simp: busy_def emp_consts c_def)
      moreover have "rid_taken ?q r \<longleftrightarrow> status (commandInProgress ?q ! r) \<noteq> EMP_RID_AVAILABLE" if "r < 64" for r
        unfolding st [OF that] using rid_taken_set_bits [of "set_ctx rid zero_ctx p" r rid False] i(1) i(3) [OF that] that rid
        by (auto simp: emp_consts)
      moreover have "status_ok (status (commandInProgress ?q ! r))" if "r < 64" for r
        unfolding st [OF that] using i(7) [OF that] by (simp add: status_ok_def emp_consts)
      ultimately show ?thesis unfolding p' using i(1,4-6) by (intro emp_invI) auto
    qed (use assms(1) in simp)
  qed
qed

lemma emp_inv_lost:
  assumes "emp_inv (p, cs)"
  shows "emp_inv ((throw_and_broadcast_err rc p)\<lparr>sockfd := fd\<rparr>, cs)"
  by (rule emp_inv_same [OF assms])
    (use emp_invD(1,2) [OF assms] in \<open>auto simp: throw_and_broadcast_err_def broadcast_err_def busy_def parser_wf_def rid_taken_def status_ok_def emp_consts\<close>)

lemma emp_inv_finish:
  assumes "emp_inv (p, cs)" "cs t = Ending rid timedout" "emp_response timedout wants_payload wants_len rid p = Returned (res, ptr, p')"
  shows "emp_inv (p', cs(t := Done res ptr))"
proof -
  note i = emp_invD [OF assms(1)]
  have "on_rid (cs t) = Some rid" by (simp add: assms(2))
  then have rid: "rid < 64" "busy p rid" using i(4,5) by blast+
  let ?out = "set_ctx rid ((commandInProgress p ! rid)\<lparr>respPayload := None, respStatus := rc_value RC_TIMEOUT, status := EMP_RID_TIMEDOUT\<rparr>) p"
  have "p' = (if timedout then ?out else set_bits rid False (set_ctx rid zero_ctx p))"
    using assms(3) rid i(1,2) freerequestid_eval [of p rid]
    by (auto simp: emp_response_def ctx_of_def busy_def emp_consts Let_def split: if_splits)
  moreover have "emp_inv (?out, cs(t := Done res ptr))"
    by (rule emp_inv_end [OF assms(1)]) (use assms(2) rid i(1,2) i(3) [OF rid(1)] in \<open>auto simp: busy_def status_ok_def emp_consts nth_list_update\<close>)
  moreover have "emp_inv (set_bits rid False (set_ctx rid zero_ctx p), cs(t := Done res ptr))"
    by (rule emp_inv_end [OF assms(1)])
      (use assms(2) rid i(1,2) rid_taken_set_bits [of "set_ctx rid zero_ctx p" _ rid False] in \<open>auto simp: busy_def status_ok_def emp_consts nth_list_update zero_ctx_def\<close>)
  ultimately show ?thesis by simp
qed

lemma emp_step_inv: "emp_step s s' \<Longrightarrow> emp_inv s \<Longrightarrow> emp_inv s'"
proof (induction rule: emp_step.induct)
  case (send cs t granted sent command payload p rid message p')
  from emp_invD(1) [OF send.prems] send(2) show ?case
    by (cases rule: sendmessage_request) (use send emp_inv_begin [OF send.prems, of t rid] in auto)
next
  case (send_failed cs t granted sent command payload p rc rid message p')
  note i = emp_invD [OF send_failed.prems]
  from i(1) send_failed(2) show ?case
  proof (cases rule: sendmessage_request)
    case failed
    have "status (commandInProgress p' ! r) = EMP_RID_AVAILABLE \<longleftrightarrow> status (commandInProgress p ! r) = EMP_RID_AVAILABLE" "busy p' r = busy p r" if "r < 64" for r
      using failed(4,5) [OF that] i(3) [OF that] by (cases "rid_taken p r"; auto simp: busy_def emp_consts)+
    moreover have "status (commandInProgress p' ! r) = status (commandInProgress p ! r) \<or> status_ok (status (commandInProgress p' ! r))" if "r < 64" for r
      using failed(4,5) [OF that] by (cases "rid_taken p r") (auto simp: status_ok_def emp_consts)
    ultimately show ?thesis using failed(2,3) send_failed(1) by (auto intro!: emp_inv_same [OF send_failed.prems])
  qed (use send_failed in simp)
next
  case (wake cs t rid p c)
  have "rid < 64" using emp_invD(5) [OF wake.prems, of t rid] wake(1) by simp
  with wake emp_invD(1,2) [OF wake.prems] show ?case
    by (auto intro!: emp_inv_same [OF wake.prems] simp: busy_def nth_list_update split: if_splits)
next
  case (timeout cs t rid p)
  then show ?case using emp_invD(1) by (auto intro!: emp_inv_same [OF timeout.prems])
next
  case (finish cs t rid timedout wants_payload wants_len p res ptr p')
  then show ?case using emp_inv_finish by blast
next
  case (again cs t res ptr p)
  then show ?case using emp_invD(1) by (auto intro!: emp_inv_same [OF again.prems])
next
  case (receive granted command rid type payload p rc td p' cs)
  then show ?case using emp_inv_receive by blast
next
  case (lost p cs rc fd)
  then show ?case by (rule emp_inv_lost)
next
  case (answer granted sent command rid payload p rid' message p' cs)
  then have "p' = p" by (auto simp: emp_sendmessage_def Let_def run_def split: if_splits outcome.splits)
  with answer.prems show ?case by simp
next
  case (register hs p cs "is")
  then show ?case using emp_invD(1) [OF register.prems]
    by (auto intro!: emp_inv_same [OF register.prems] simp: parser_wf_def rid_taken_def busy_def)
qed

text \<open>The connection is open, every identifier is free, and no request was made.\<close>

definition emp_start :: "int \<Rightarrow> emp_sys" where
  "emp_start fd = (zero_parser\<lparr>sockfd := fd, readerThread := True\<rparr>, \<lambda>t. Idle)"

lemma emp_start_inv: "emp_inv (emp_start fd)"
  unfolding emp_start_def
  by (rule emp_invI) (auto simp: zero_parser_def parser_wf_def rid_taken_def rid_word_def busy_def status_ok_def emp_consts zero_ctx_def)

lemma emp_reachable_inv: "emp_step\<^sup>*\<^sup>* (emp_start fd) s \<Longrightarrow> emp_inv s"
  by (induction rule: rtranclp_induct) (auto intro: emp_start_inv emp_step_inv)


section \<open>Sending with the first free identifier\<close>

definition new_request :: "nat \<Rightarrow> EmpParser \<Rightarrow> EmpParser" where
  "new_request rid p = set_ctx rid ((commandInProgress p ! rid)\<lparr>status := EMP_RID_ALLOCATED, respSem := 0\<rparr>) (set_bits rid True p)"

lemma sendmessage_first_free:
  assumes "parser_wf p" "sockfd p \<noteq> - 1" "rid < 64" "\<not> rid_taken p rid" "\<And>i. i < rid \<Longrightarrow> rid_taken p i" "length payload + 8 < 2 ^ 32"
  shows "emp_sendmessage True (Sent (length payload + 8)) command 0 0 payload p =
     Returned (RC_OK, rid, emp_header command 0 rid (length payload) @ payload, new_request rid p)"
proof -
  have "find (\<lambda>i. \<not> rid_taken p i) [0..<64] = Some rid"
    using assms(3-5) by (auto simp: find_Some_iff intro!: exI [of _ rid])
  then have "getrequestid p = Returned (RC_OK, rid, new_request rid p)"
    using assms(1,3) by (simp add: getrequestid_def atomic_rid_lookup_def rid_lookup_first ctx_of_def parser_wf_def new_request_def)
  with assms(2,6) show ?thesis by (simp add: emp_sendmessage_def Let_def ipc_send_def emp_header_def)
qed

lemma new_request_taken: "parser_wf p \<Longrightarrow> r < 64 \<Longrightarrow> rid < 64 \<Longrightarrow> rid_taken (new_request rid p) r \<longleftrightarrow> r = rid \<or> rid_taken p r"
  using rid_taken_set_bits [of p r rid True] by (simp add: new_request_def)

lemma new_request_fields [simp]: "sockfd (new_request rid p) = sockfd p" "parser_wf (new_request rid p) = parser_wf p"
  "commandHdlrs (new_request rid p) = commandHdlrs p"
  by (simp_all add: new_request_def)

lemma emp_start_fields:
  "parser_wf (fst (emp_start fd))" "sockfd (fst (emp_start fd)) = fd" "\<not> rid_taken (fst (emp_start fd)) r"
  by (simp_all add: emp_start_def zero_parser_def parser_wf_def rid_taken_def rid_word_def emp_consts)

text \<open>Two callers that wait.\<close>

definition two_requests :: EmpParser where
  "two_requests = new_request 1 (new_request 0 (fst (emp_start 3)))"

definition two_callers :: "nat \<Rightarrow> emp_phase" where
  "two_callers = (\<lambda>t. Idle)(5 := Waiting 0, 6 := Waiting 1)"

lemma two_requests_taken: "r < 64 \<Longrightarrow> rid_taken two_requests r \<longleftrightarrow> r < 2"
  by (auto simp: two_requests_def new_request_taken emp_start_fields)

lemma two_requests_reached: "emp_step\<^sup>*\<^sup>* (emp_start 3) (two_requests, two_callers)"
proof -
  let ?p = "fst (emp_start 3)" and ?cs = "\<lambda>t :: nat. Idle"
  have 1: "emp_step (?p, ?cs) (new_request 0 ?p, ?cs(5 := Waiting 0))"
    by (rule emp_step.send [OF _ sendmessage_first_free [where payload = "[]" and command = 2]]) (simp_all add: emp_start_fields)
  have 2: "emp_step (new_request 0 ?p, ?cs(5 := Waiting 0)) (two_requests, two_callers)"
    unfolding two_requests_def two_callers_def
    by (rule emp_step.send [OF _ sendmessage_first_free [where payload = "[1]" and command = 9]]) (simp_all add: emp_start_fields new_request_taken)
  have "emp_start 3 = (?p, ?cs)" by (simp add: emp_start_def)
  with 1 2 show ?thesis by (metis converse_rtranclp_into_rtranclp r_into_rtranclp)
qed


section \<open>The response arrives\<close>



end
