(* ===== verification/Emp_Limits.thy ===== *)
theory Emp_Limits
  imports Emp_Requests
begin

text \<open>
  A message that one side sends is what the other side dispatches, in whatever pieces it arrives.
  Where the request identifiers are not kept apart: an answer that cannot be sent frees an
  identifier of the client, and the bits of the identifiers are changed without checking that the
  exchange took place.
\<close>

section \<open>Messages arrive as they were sent\<close>

lemma read_octets_pieces:
  assumes "0 < n" "n \<le> length (concat pieces)" "list_all (\<lambda>x. x \<noteq> []) pieces" "w_input w = map Recv pieces @ rest"
  shows "\<exists>pieces'. read_octets n acc w = Returned (Some (acc @ take n (concat pieces)), w\<lparr>w_input := map Recv pieces' @ rest\<rparr>) \<and>
     concat pieces' = drop n (concat pieces) \<and> list_all (\<lambda>x. x \<noteq> []) pieces'"
  using assms
proof (induction pieces arbitrary: n acc w)
  case (Cons x pieces)
  show ?case
  proof (cases "n < length x")
    case True
    with Cons.prems show ?thesis
      by (subst read_octets.simps) (auto simp: ipc_read_def intro!: exI [of _ "drop n x # pieces"])
  next
    case False
    show ?thesis
    proof (cases "n = length x")
      case True
      with Cons.prems show ?thesis
        by (subst read_octets.simps) (auto simp: ipc_read_def intro!: exI [of _ pieces])
    next
      case longer: False
      let ?w = "w\<lparr>w_input := map Recv pieces @ rest\<rparr>"
      have "read_octets n acc w = read_octets (n - length x) (acc @ x) ?w"
        using Cons.prems False longer by (subst read_octets.simps) (simp add: ipc_read_def)
      with Cons.IH [of "n - length x" ?w "acc @ x"] Cons.prems False longer show ?thesis by auto
    qed
  qed
qed simp

lemma unat_masked: "unat (of_nat (n AND 0xff) :: byte) = n mod 256"
  by (simp add: and_0xff_nat unat_of_nat_byte)

lemma four_octets:
  fixes n :: nat
  shows "n div 2 ^ 24 * 2 ^ 24 + n div 2 ^ 16 mod 256 * 2 ^ 16 + n div 2 ^ 8 mod 256 * 2 ^ 8 + n mod 256 = n"
proof -
  have "n div 65536 = n div 16777216 * 256 + n div 65536 mod 256" "n div 256 = n div 65536 * 256 + n div 256 mod 256"
    using div_mult2_eq [of n 65536 256] div_mult2_eq [of n 256 256] by simp_all
  moreover have "n = n div 256 * 256 + n mod 256" by simp
  ultimately have "n div 16777216 * 16777216 + n div 65536 mod 256 * 65536 + n div 256 mod 256 * 256 + n mod 256 = n" by linarith
  then show ?thesis by simp
qed

text \<open>The fields of a header.\<close>

lemma header_fields:
  assumes "command < 65536" "type < 256" "rid < 256" "n < 2 ^ 32" "h = emp_header command type rid n"
  shows "length h = 8" "unat (h ! 0) * 256 + unat (h ! 1) = command" "unat (h ! 2) = type" "unat (h ! 3) = rid"
    "unat (h ! 4) * 2 ^ 24 + unat (h ! 5) * 2 ^ 16 + unat (h ! 6) * 2 ^ 8 + unat (h ! 7) = n"
proof -
  have "command div 256 < 256" using assms(1) by (simp add: less_mult_imp_div_less)
  then show "unat (h ! 0) * 256 + unat (h ! 1) = command"
    unfolding assms(5) emp_header_def by (simp add: unat_masked drop_bit_nat div_mult_mod_eq)
  show "length h = 8" "unat (h ! 2) = type" "unat (h ! 3) = rid"
    unfolding assms(5) emp_header_def using assms(2,3) by (simp_all add: unat_of_nat_byte)
  show "unat (h ! 4) * 2 ^ 24 + unat (h ! 5) * 2 ^ 16 + unat (h ! 6) * 2 ^ 8 + unat (h ! 7) = n"
  proof -
    have "n div 2 ^ 24 < 256" using assms(4) by (simp add: less_mult_imp_div_less)
    then show ?thesis using four_octets [of n] unfolding assms(5) emp_header_def by (simp add: unat_masked drop_bit_nat)
  qed
qed

lemma sent_message:
  assumes "parser_wf p" "emp_sendmessage granted sent command type rid0 payload p = Returned (RC_OK, rid, message, p')" "rid0 < 256"
  shows "message = emp_header command type rid (length payload) @ payload" "rid < 256" "length payload < 2 ^ 32"
proof -
  obtain rc1 rid1 p1 where g: "(if type AND 1 = 0 then getrequestid p else Returned (RC_OK, rid0, p)) = Returned (rc1, rid1, p1)"
    using assms(2) by (cases "if type AND 1 = 0 then getrequestid p else Returned (RC_OK, rid0, p)") (auto simp: emp_sendmessage_def split: if_splits)
  have r: "rc1 = RC_OK \<Longrightarrow> rid1 < 256"
  proof (cases "type AND 1 = 0")
    case True
    with g have "getrequestid p = Returned (rc1, rid1, p1)" by simp
    then show "rc1 = RC_OK \<Longrightarrow> rid1 < 256" by (rule getrequestid_cases [OF assms(1)]) auto
  qed (use g assms(3) in simp)
  from assms(2) g have "rc1 = RC_OK" "rid = rid1" "message = emp_header command type rid (length payload) @ payload" "length payload < 2 ^ 32"
    by (auto simp: emp_sendmessage_def Let_def split: if_splits simp: run_def split: outcome.splits)
  with r show "message = emp_header command type rid (length payload) @ payload" "rid < 256" "length payload < 2 ^ 32" by auto
qed

text \<open>
  C17: a message that was sent, received in any pieces, is dispatched with its command, its type, its
  request identifier and its payload, and what follows it is left for the next message.
\<close>

theorem emp_message_roundtrip:
  assumes "emp_sendmessage granted sent command type rid0 payload p = Returned (RC_OK, rid, message, p')" "parser_wf p"
    "command < 65536" "type < 256" "rid0 < 256" "concat pieces = message @ after" "list_all (\<lambda>x. x \<noteq> []) pieces"
    "w_input w = map Recv pieces @ rest" "w_allocs w = []"
  shows "\<exists>pieces'. concat pieces' = after \<and> list_all (\<lambda>x. x \<noteq> []) pieces' \<and>
     reader_emp_parse w = dispatch_received command rid type (if payload = [] then None else Some payload) (w\<lparr>w_input := map Recv pieces' @ rest\<rparr>)"
proof -
  define h where "h = emp_header command type rid (length payload)"
  have m: "message = h @ payload" "rid < 256" "length payload < 2 ^ 32" unfolding h_def by (rule sent_message [OF assms(2,1,5)])+
  note f = header_fields [OF assms(3,4) m(2,3) h_def]
  have 8: "0 < (8 :: nat)" "8 \<le> length (concat pieces)" using f(1) by (simp_all add: assms(6) m(1))
  from read_octets_pieces [OF 8 assms(7,8), of "[]"] obtain ps where
    1: "read_octets 8 [] w = Returned (Some h, w\<lparr>w_input := map Recv ps @ rest\<rparr>)" "concat ps = payload @ after" "list_all (\<lambda>x. x \<noteq> []) ps"
    using f(1) by (auto simp: assms(6) m(1))
  define w1 where "w1 = w\<lparr>w_input := map Recv ps @ rest\<rparr>"
  have a: "take_alloc w1 = (True, w1)" by (simp add: w1_def take_alloc_def assms(9))
  have p: "reader_emp_parse w = (if length payload = 0 then dispatch_received command rid type None w1
      else run (read_octets (length payload) [] w1) (\<lambda>(payload, w). case payload of None \<Rightarrow> Returned w
         | Some bs \<Rightarrow> dispatch_received command rid type (Some bs) w))"
    unfolding reader_emp_parse_def 1(1) run_simps prod.case option.case f Let_def w1_def [symmetric] a by simp
  show ?thesis
  proof (cases "payload = []")
    case True
    with p 1 show ?thesis by (auto simp: w1_def)
  next
    case False
    with read_octets_pieces [of "length payload" ps w1 rest "[]"] 1(2,3) obtain ps' where
      "read_octets (length payload) [] w1 = Returned (Some payload, w1\<lparr>w_input := map Recv ps' @ rest\<rparr>)" "concat ps' = after" "list_all (\<lambda>x. x \<noteq> []) ps'"
      by (auto simp: w1_def)
    with p False show ?thesis by (auto simp: w1_def)
  qed
qed

definition sample_world :: emp_world where
  "sample_world = \<lparr>w_parser = fst (emp_start 3), w_input = [Recv [0, 9, 0], Recv [0, 0, 0, 0], Recv [2, 1], Recv [2, 0]], w_errno = 0,
     w_connects = [], w_allocs = [], w_threads = [], w_reconnected = []\<rparr>"

theorem emp_message_roundtrip_witness:
  "\<exists>p'. emp_sendmessage True (Sent 10) 9 0 0 [1, 2] (fst (emp_start 3)) = Returned (RC_OK, 0, [0, 9, 0, 0, 0, 0, 0, 2, 1, 2], p') \<and>
     (\<exists>pieces'. concat pieces' = [0] \<and>
     reader_emp_parse sample_world = dispatch_received 9 0 0 (Some [1, 2]) (sample_world\<lparr>w_input := map Recv pieces'\<rparr>))"
proof -
  let ?pieces = "[[0, 9, 0], [0, 0, 0, 0], [2, 1], [2, 0]] :: bytes list"
  have s: "emp_sendmessage True (Sent 10) 9 0 0 [1, 2] (fst (emp_start 3)) =
      Returned (RC_OK, 0, [0, 9, 0, 0, 0, 0, 0, 2, 1, 2], new_request 0 (fst (emp_start 3)))"
    using sendmessage_first_free [of "fst (emp_start 3)" 0 "[1, 2]" 9] by (simp add: emp_start_fields emp_header_def and_0xff_nat drop_bit_nat)
  have "concat ?pieces = [0, 9, 0, 0, 0, 0, 0, 2, 1, 2] @ [0]" "list_all (\<lambda>x. x \<noteq> []) ?pieces"
    "w_input sample_world = map Recv ?pieces @ []" "w_allocs sample_world = []" by (simp_all add: sample_world_def)
  from emp_message_roundtrip [OF s emp_start_fields(1) _ _ _ this] s show ?thesis by auto
qed

section \<open>Identifiers that are shared\<close>

text \<open>
  When the answer to a command of the agent cannot be sent, the identifier that the agent has
  chosen is freed among the identifiers of the client: if a caller waits for a request with that
  number, the next request gets the same one.
\<close>

theorem emp_failed_answer_shares_rid:
  assumes "emp_step\<^sup>*\<^sup>* (emp_start fd) (p, cs)" "cs t = Waiting rid" "\<And>i. i < rid \<Longrightarrow> rid_taken p i" "sockfd p \<noteq> - 1"
    "td_command td < length (commandHdlrs p)" "commandHdlrs p ! td_command td = Some handler" "td_rid td = rid" "length payload + 8 < 2 ^ 32"
  shows "\<exists>answer p1 message p2. thread_cmd_routine True (Send_error e) td p = Returned (answer, p1) \<and>
     emp_sendmessage True (Sent (length payload + 8)) command 0 0 payload p1 = Returned (RC_OK, rid, message, p2)"
proof -
  note i = emp_invD [OF emp_reachable_inv [OF assms(1)]]
  have rid: "rid < 64" using i(5) [of t rid] assms(2) by simp
  define p1 where "p1 = set_bits rid False (set_ctx rid zero_ctx p)"
  have taken: "rid_taken p1 r = (r \<noteq> rid \<and> rid_taken p r)" if "r < 64" for r
    using rid_taken_set_bits [of "set_ctx rid zero_ctx p" r rid False] i(1) that rid by (simp add: p1_def)
  have "ipc_send (Send_error e) m \<noteq> RC_OK" for m by (simp add: ipc_send_def)
  with assms(4-7) freerequestid_eval [OF i(1) rid] obtain answer where "thread_cmd_routine True (Send_error e) td p = Returned (answer, p1)"
    by (simp add: thread_cmd_routine_def emp_sendmessage_def p1_def Let_def)
  moreover have "emp_sendmessage True (Sent (length payload + 8)) command 0 0 payload p1 =
      Returned (RC_OK, rid, emp_header command 0 rid (length payload) @ payload, new_request rid p1)"
    by (rule sendmessage_first_free) (use taken assms(3,4,8) rid i(1) in \<open>simp_all add: p1_def\<close>)
  ultimately show ?thesis by blast
qed

definition with_handler :: EmpParser where
  "with_handler = two_requests\<lparr>commandHdlrs := (replicate 53 None)[12 := Some 1], ipcHdlrs := []\<rparr>"

theorem emp_failed_answer_shares_rid_witness:
  "\<exists>answer p1 message p2. on_rid (two_callers 5) = Some 0 \<and>
     thread_cmd_routine True (Send_error EPIPE) \<lparr>td_command = 12, td_payload = None, td_rid = 0\<rparr> with_handler = Returned (answer, p1) \<and>
     emp_sendmessage True (Sent 9) 9 0 0 [1] p1 = Returned (RC_OK, 0, message, p2)"
proof -
  have "length (commandHdlrs two_requests) = 53" by (simp add: two_requests_def emp_start_def zero_parser_def emp_consts)
  then have "emp_step (two_requests, two_callers) (with_handler, two_callers)" unfolding with_handler_def by (intro emp_step.register) simp
  with two_requests_reached have r: "emp_step\<^sup>*\<^sup>* (emp_start 3) (with_handler, two_callers)" by (rule rtranclp.rtrancl_into_rtrancl)
  have c: "two_callers 5 = Waiting 0" "sockfd with_handler \<noteq> - 1"
    by (simp_all add: two_callers_def with_handler_def two_requests_def emp_start_fields)
  from emp_failed_answer_shares_rid [OF r c(1) _ c(2), of "\<lparr>td_command = 12, td_payload = None, td_rid = 0\<rparr>" 1 "[1]" EPIPE 9]
  show ?thesis by (auto simp: with_handler_def two_callers_def)
qed

section \<open>Looking for an identifier while another one is freed\<close>

text \<open>
  The three accesses of \<open>atomic_rid_lookup\<close> and of \<open>freerequestid\<close> to the first word of bits: it is
  read for the expected value, read for the new value, and exchanged. A thread that looks for an
  identifier has one when the old value of its bit is 0.
\<close>

datatype rid_thread =
    Look nat | Look_old nat "32 word" | Look_new nat "32 word" "32 word" | Has nat
  | Free nat | Free_old nat "32 word" | Free_new nat "32 word" "32 word" | Freed

definition rid_move :: "nat \<Rightarrow> 32 word \<times> (nat \<Rightarrow> rid_thread) \<Rightarrow> 32 word \<times> (nat \<Rightarrow> rid_thread)" where
  "rid_move t = (\<lambda>(bits, ts).
     case ts t of
       Look i \<Rightarrow> (bits, ts(t := Look_old i bits))
     | Look_old i old \<Rightarrow> (bits, ts(t := Look_new i old (bits OR push_bit i 1)))
     | Look_new i old new \<Rightarrow> (if bits = old then new else bits, ts(t := if bit bits i then Look (Suc i) else Has i))
     | Free i \<Rightarrow> (bits, ts(t := Free_old i bits))
     | Free_old i old \<Rightarrow> (bits, ts(t := Free_new i old (bits AND NOT (push_bit i 1))))
     | Free_new i old new \<Rightarrow> (if bits = old then new else bits, ts(t := Freed))
     | _ \<Rightarrow> (bits, ts))"

text \<open>A thread that is not interrupted does what \<open>rid_lookup_from\<close> does for one identifier.\<close>

lemma rid_move_uninterrupted:
  "ts t = Look i \<Longrightarrow> fold rid_move [t, t, t] (bits, ts) =
     (bits OR push_bit i 1, ts(t := if bit bits i then Look (Suc i) else Has i))"
  by (simp add: rid_move_def)

text \<open>
  C39: one thread gives its identifier back while two others look for one: both of them can get the
  identifier 0, since an exchange that failed is taken for a success when the bit is clear.
\<close>

theorem rid_lookup_race:
  "\<exists>schedule bits ts. fold rid_move schedule (2, (\<lambda>t. Look 0)(2 := Free 1)) = (bits, ts) \<and> ts 0 = Has 0 \<and> ts 1 = Has 0"
proof -
  have b: "(2 :: 32 word) OR 1 = 3" "(2 :: 32 word) AND NOT (push_bit (Suc 0) 1) = 0"
    by (simp_all add: push_bit_eq_mult)
  let ?ts = "(\<lambda>t. Look 0)(2 := Free 1)"
  have "fold rid_move [0, 0, 2, 2, 2] (2, ?ts) = (0, ?ts(0 := Look_new 0 2 3, 2 := Free 1, 2 := Freed))"
    by (simp add: rid_move_def b fun_upd_twist)
  then have "fold rid_move [0, 0, 2, 2, 2, 0, 1, 1, 1] (2, ?ts) = fold rid_move [0, 1, 1, 1] (0, ?ts(0 := Look_new 0 2 3, 2 := Free 1, 2 := Freed))"
    by simp
  also have "\<dots> = (1, ?ts(0 := Look_new 0 2 3, 2 := Free 1, 2 := Freed, 0 := Has 0, 1 := Has 0))"
    using rid_move_uninterrupted [of "?ts(0 := Look_new 0 2 3, 2 := Free 1, 2 := Freed, 0 := Has 0)" 1 0 0] by (simp add: rid_move_def [of 0])
  finally have "fold rid_move [0, 0, 2, 2, 2, 0, 1, 1, 1] (2, ?ts) =
      (1, ?ts(0 := Look_new 0 2 3, 2 := Free 1, 2 := Freed, 0 := Has 0, 1 := Has 0))" .
  moreover have "(?ts(0 := Look_new 0 2 3, 2 := Free 1, 2 := Freed, 0 := Has 0, 1 := Has 0)) 0 = Has 0"
    "(?ts(0 := Look_new 0 2 3, 2 := Free 1, 2 := Freed, 0 := Has 0, 1 := Has 0)) 1 = Has 0" by simp_all
  ultimately show ?thesis by blast
qed

end
