(* ===== verification/Ntp.thy ===== *)
theory Ntp
  imports C_Memory Double_Exact
begin

text \<open>
  Setting the clock from a time server, \<open>src/luafwk/ntp/ntp.c\<close> and \<open>ntp_time.c\<close>: the packets of
  the simple network time protocol, the offset and the delay computed from four time stamps, and
  the conversion between the time of the system and the time stamps of the protocol, which counts
  \<open>2 ^ 32\<close> units in a second since 1900.
\<close>

section \<open>Numbers\<close>

type_synonym u64 = "64 word"

definition UINT64_FROM_BIG_ENDIAN :: "bytes \<Rightarrow> nat \<Rightarrow> u64" where
  "UINT64_FROM_BIG_ENDIAN buff i =
     push_bit 56 (ucast (buff ! i)) OR push_bit 48 (ucast (buff ! (i + 1))) OR push_bit 40 (ucast (buff ! (i + 2))) OR
     push_bit 32 (ucast (buff ! (i + 3))) OR push_bit 24 (ucast (buff ! (i + 4))) OR push_bit 16 (ucast (buff ! (i + 5))) OR
     push_bit 8 (ucast (buff ! (i + 6))) OR ucast (buff ! (i + 7))"

definition UINT64_TO_BIG_ENDIAN_BUFF :: "u64 \<Rightarrow> bytes" where
  "UINT64_TO_BIG_ENDIAN_BUFF n =
     [ucast (drop_bit 56 (n AND 0xff00000000000000)), ucast (drop_bit 48 (n AND 0x00ff000000000000)),
      ucast (drop_bit 40 (n AND 0x0000ff0000000000)), ucast (drop_bit 32 (n AND 0x000000ff00000000)),
      ucast (drop_bit 24 (n AND 0x00000000ff000000)), ucast (drop_bit 16 (n AND 0x0000000000ff0000)),
      ucast (drop_bit 8 (n AND 0x000000000000ff00)), ucast (n AND 0x00000000000000ff)]"

text \<open>The product of two doubles, and the conversion to \<open>uint64_t\<close>.\<close>

definition f64_mul :: "f64 \<Rightarrow> f64 \<Rightarrow> f64" where
  "f64_mul x y =
     (let s = (if f64_sign x = f64_sign y then 0 else 1) in
      if f64_nan x \<or> f64_nan y then f64_NaN
      else if f64_inf x \<or> f64_inf y then if f64_num x = 0 \<or> f64_num y = 0 then f64_NaN else f64_infinity s
      else f64_of_ratio s (f64_num x * f64_num y) (f64_den x * f64_den y))"

definition f64_to_u64 :: "f64 \<Rightarrow> u64 option" where
  "f64_to_u64 x =
     (if \<not> f64_finite x then None
      else let v = sgn (f64_num x) * (\<bar>f64_num x\<bar> div f64_den x) in
           if 0 \<le> v \<and> v < 2 ^ 64 then Some (word_of_int v) else None)"

section \<open>The clock\<close>

definition NTP_TIME_BASE :: int where "NTP_TIME_BASE = 2208988800"

definition ntp_1e6 :: f64 where "ntp_1e6 = i64_to_f64 1000000"

record timeval =
  tv_sec :: int
  tv_usec :: int

text \<open>\<open>None\<close> stands for a failure of \<open>gettimeofday\<close>.\<close>

definition internal_getntptime :: "timeval option \<Rightarrow> (u64 option \<Rightarrow> 'a outcome) \<Rightarrow> 'a outcome" where
  "internal_getntptime clock k =
     (case clock of
        None \<Rightarrow> k None
      | Some tv \<Rightarrow>
          let res = push_bit 32 (word_of_int (tv_sec tv + NTP_TIME_BASE)) :: u64;
              tmp = word_of_int (tv_usec tv) * 0x100000000 :: u64 in
          need (f64_to_u64 (f64_div (i64_to_f64 (uint tmp)) ntp_1e6)) (\<lambda>tmp. k (Some (res + tmp))))"

text \<open>The time that is given to \<open>settimeofday\<close>.\<close>

definition ntp_timeval :: "u64 \<Rightarrow> (timeval \<Rightarrow> 'a outcome) \<Rightarrow> 'a outcome" where
  "ntp_timeval time k =
     need (f64_to_u64 (f64_mul (i64_to_f64 (uint (time AND 0xFFFFFFFF))) ntp_1e6)) (\<lambda>tmp.
     k \<lparr>tv_sec = sint (drop_bit 32 time - word_of_int NTP_TIME_BASE), tv_usec = uint (drop_bit 32 tmp)\<rparr>)"

text \<open>\<open>granted\<close> is the outcome of \<open>settimeofday\<close>; the result is \<open>None\<close> when it fails.\<close>

definition internal_setntptime :: "bool \<Rightarrow> u64 \<Rightarrow> (timeval option \<Rightarrow> 'a outcome) \<Rightarrow> 'a outcome" where
  "internal_setntptime granted time k = ntp_timeval time (\<lambda>tv. k (if granted then Some tv else None))"

section \<open>Packets\<close>

text \<open>
  What the functions return to Lua: an error, a failed check of the packets, a packet or another
  string, the clock that was set directly with the sign of its change, or the offset, the delay and
  the two time stamps for the next packet.
\<close>

datatype ntp_result =
    N_error string | N_warning string | N_string bytes | N_was_set timeval int
  | N_measured bytes bytes bytes bytes | N_set timeval f64

definition l_buildNTPpacket :: "timeval option \<Rightarrow> bytes option \<Rightarrow> bytes option \<Rightarrow> ntp_result outcome" where
  "l_buildNTPpacket clock org rec =
     (let given = org \<noteq> None \<or> rec \<noteq> None; len = (\<lambda>s. case s of None \<Rightarrow> 0 | Some b \<Rightarrow> length b) in
      if given \<and> (len org \<noteq> 8 \<or> len rec \<noteq> 8)
      then Returned (N_error ''Internal error: bad Timestamp (Originate or Received) to build NTP packet'')
      else
        let oriTS = (if given then UINT64_FROM_BIG_ENDIAN (the org) 0 else 0);
            rcvTs = (if given then UINT64_FROM_BIG_ENDIAN (the rec) 0 else 0) in
        internal_getntptime clock (\<lambda>trTs.
          case trTs of
            None \<Rightarrow> Returned (N_error ''Cannot get time to build ntp packet'')
          | Some t \<Rightarrow> Returned (N_string (35 # replicate 23 0 @
              UINT64_TO_BIG_ENDIAN_BUFF oriTS @ UINT64_TO_BIG_ENDIAN_BUFF rcvTs @ UINT64_TO_BIG_ENDIAN_BUFF t))))"

text \<open>34 years of 365.25 days in seconds.\<close>

definition maxTsDiff :: int where "maxTsDiff = 1072958400"

definition TsDiff :: "u64 \<Rightarrow> u64 \<Rightarrow> bool" where
  "TsDiff t1 t2 = (let tmp = sint (drop_bit 32 t1 - drop_bit 32 t2); tmp = (if tmp < 0 then - tmp else tmp) in maxTsDiff \<le> tmp)"

text \<open>The checks of a packet from the server, in their order: the message of the first that fails.\<close>

definition sanity :: "u64 \<Rightarrow> bytes \<Rightarrow> string option" where
  "sanity T1 pkt2 =
     (if UINT64_FROM_BIG_ENDIAN pkt2 24 \<noteq> T1 then Some ''Originate timestamp in server NTP packet is not equal to T1, packet sanity check failed''
      else if UINT64_FROM_BIG_ENDIAN pkt2 40 = 0 then Some ''T3 == 0 in server NTP packet, packet sanity check failed''
      else if pkt2 ! 0 AND 0x07 \<noteq> 0x04 then Some ''mode!=4 in server NTP packet, packet sanity check failed''
      else if pkt2 ! 0 AND 0x38 \<noteq> 0x20 then Some ''version!=4 in server NTP packet, packet sanity check failed''
      else if pkt2 ! 1 = 0 then Some ''stratum == 0 in server NTP packet (kiss o death message), packet sanity check failed''
      else None)"

definition l_processpackets :: "timeval option \<Rightarrow> bool \<Rightarrow> bytes \<Rightarrow> bytes \<Rightarrow> ntp_result outcome" where
  "l_processpackets clock granted pkt1 pkt2 =
     internal_getntptime clock (\<lambda>now.
       case now of
         None \<Rightarrow> Returned (N_error ''Cannot get time to set time of reception'')
       | Some T4 \<Rightarrow>
           if length pkt1 \<noteq> 48 \<or> length pkt2 \<noteq> 48 then Returned (N_error ''Invalid NTP packets: size is not 48'')
           else
             let T1 = UINT64_FROM_BIG_ENDIAN pkt1 40; T2 = UINT64_FROM_BIG_ENDIAN pkt2 32; T3 = UINT64_FROM_BIG_ENDIAN pkt2 40 in
             case sanity T1 pkt2 of
               Some msg \<Rightarrow> Returned (N_warning msg)
             | None \<Rightarrow>
                 if TsDiff T1 T2 \<or> TsDiff T3 T4
                 then internal_setntptime granted T3 (\<lambda>set.
                        case set of
                          None \<Rightarrow> Returned (N_error ''Cannot set system time! settimentp was trying to set device time directly to NTP server time (T3) due to 34 years interval'')
                        | Some tv \<Rightarrow> Returned (N_was_set tv (if T4 < T3 then maxTsDiff else - maxTsDiff)))
                 else
                   let d = (T4 - T1) - (T3 - T2); t = word_of_int (sint ((T2 - T1) + (T3 - T4)) div 2) in
                   Returned (N_measured (UINT64_TO_BIG_ENDIAN_BUFF t) (UINT64_TO_BIG_ENDIAN_BUFF d)
                     (UINT64_TO_BIG_ENDIAN_BUFF T3) (UINT64_TO_BIG_ENDIAN_BUFF T4)))"

text \<open>The absolute value of an \<open>int64_t\<close>: the smallest one has none.\<close>

definition i64_abs :: "int \<Rightarrow> (int \<Rightarrow> 'a outcome) \<Rightarrow> 'a outcome" where
  "i64_abs x k = (if x = - (2 ^ 63) then Fault else k \<bar>x\<bar>)"

definition l_getbestdelay :: "bytes \<Rightarrow> bytes \<Rightarrow> ntp_result outcome" where
  "l_getbestdelay strdelay1 strdelay2 =
     (if length strdelay1 \<noteq> 8 \<or> length strdelay2 \<noteq> 8 then Returned (N_error ''Internal error: Bad params for l_getbestdelay'')
      else i64_abs (sint (UINT64_FROM_BIG_ENDIAN strdelay1 0)) (\<lambda>delay1.
           i64_abs (sint (UINT64_FROM_BIG_ENDIAN strdelay2 0)) (\<lambda>delay2.
           Returned (N_string (if delay1 < delay2 then strdelay1 else strdelay2)))))"

text \<open>The clock that cannot be read counts as 0. The sum of the time and the offset must fit \<open>int64_t\<close>.\<close>

definition l_settime :: "timeval option \<Rightarrow> bool \<Rightarrow> bytes \<Rightarrow> ntp_result outcome" where
  "l_settime clock granted off =
     (if length off \<noteq> 8 then Returned (N_error ''Internal error: Bad params for l_settime'')
      else
        let offset = sint (UINT64_FROM_BIG_ENDIAN off 0) in
        internal_getntptime clock (\<lambda>now.
          let currenttime = (case now of None \<Rightarrow> 0 | Some t \<Rightarrow> t); newtime = sint currenttime + offset in
          if newtime < - (2 ^ 63) \<or> 2 ^ 63 \<le> newtime then Fault
          else internal_setntptime granted (word_of_int newtime) (\<lambda>set.
                 case set of
                   None \<Rightarrow> Returned (N_error ''Cannot set system time'')
                 | Some tv \<Rightarrow> Returned (N_set tv
                     (f64_add (i64_to_f64 (offset div 2 ^ 32)) (f64_div (i64_to_f64 (offset mod 2 ^ 32)) (i64_to_f64 (2 ^ 32))))))))"

section \<open>Time stamps in packets\<close>

lemma length_to_big_endian [simp]: "length (UINT64_TO_BIG_ENDIAN_BUFF n) = 8"
  by (simp add: UINT64_TO_BIG_ENDIAN_BUFF_def)

definition octet_at :: "nat \<Rightarrow> u64 \<Rightarrow> byte" where
  "octet_at k n = ucast (drop_bit k n)"

lemma octet_at_masked: "(ucast (drop_bit k (n AND push_bit k (mask 8))) :: byte) = octet_at k n"
  by (rule bit_word_eqI) (auto simp: octet_at_def bit_simps dest: bit_imp_le_length)

lemma to_big_endian_octets: "UINT64_TO_BIG_ENDIAN_BUFF n = map (\<lambda>k. octet_at k n) [56, 48, 40, 32, 24, 16, 8, 0]"
proof -
  have "push_bit 56 (mask 8) = (0xff00000000000000 :: u64)" "push_bit 48 (mask 8) = (0x00ff000000000000 :: u64)"
    "push_bit 40 (mask 8) = (0x0000ff0000000000 :: u64)" "push_bit 32 (mask 8) = (0x000000ff00000000 :: u64)"
    "push_bit 24 (mask 8) = (0x00000000ff000000 :: u64)" "push_bit 16 (mask 8) = (0x0000000000ff0000 :: u64)"
    "push_bit 8 (mask 8) = (0x000000000000ff00 :: u64)" "push_bit 0 (mask 8) = (0x00000000000000ff :: u64)"
    by (simp_all add: mask_eq_exp_minus_1 push_bit_eq_mult)
  note m = this
  show ?thesis
    unfolding UINT64_TO_BIG_ENDIAN_BUFF_def m [symmetric] octet_at_masked
    using octet_at_masked [of 0 n] by simp
qed

lemma octet_bit: "k + 8 \<le> 64 \<Longrightarrow> bit (push_bit k (ucast (octet_at k n)) :: u64) i \<longleftrightarrow> k \<le> i \<and> i < k + 8 \<and> bit n i"
  by (auto simp: octet_at_def bit_simps bit_imp_le_length)

lemma from_to_big_endian:
  assumes "take 8 (drop i buff) = UINT64_TO_BIG_ENDIAN_BUFF n"
  shows "UINT64_FROM_BIG_ENDIAN buff i = n"
proof (rule bit_word_eqI)
  fix j assume "j < LENGTH(64)"
  then have j: "j < 64" by simp
  have l: "i + 8 \<le> length buff" using arg_cong [OF assms, of length] by simp
  have n: "buff ! (i + k) = UINT64_TO_BIG_ENDIAN_BUFF n ! k" if "k < 8" for k
    unfolding assms [symmetric] using that l by simp
  have "bit (UINT64_FROM_BIG_ENDIAN buff i) j \<longleftrightarrow>
      (56 \<le> j \<and> j < 56 + 8 \<and> bit n j \<or> 48 \<le> j \<and> j < 48 + 8 \<and> bit n j \<or> 40 \<le> j \<and> j < 40 + 8 \<and> bit n j \<or> 32 \<le> j \<and> j < 32 + 8 \<and> bit n j \<or>
       24 \<le> j \<and> j < 24 + 8 \<and> bit n j \<or> 16 \<le> j \<and> j < 16 + 8 \<and> bit n j \<or> 8 \<le> j \<and> j < 8 + 8 \<and> bit n j \<or> 0 \<le> j \<and> j < 0 + 8 \<and> bit n j)"
    unfolding UINT64_FROM_BIG_ENDIAN_def bit_or_iff
    using n [of 0] n [of 1] n [of 2] n [of 3] n [of 4] n [of 5] n [of 6] n [of 7] octet_bit [of 0 n j]
    by (simp add: to_big_endian_octets octet_bit disj_assoc del: One_nat_def)
  also have "\<dots> \<longleftrightarrow> bit n j" using j by linarith
  finally show "bit (UINT64_FROM_BIG_ENDIAN buff i) j \<longleftrightarrow> bit n j" .
qed

section \<open>The offset and the delay\<close>

lemma sint_word_of_int: "- (2 ^ 63) \<le> x \<Longrightarrow> x < 2 ^ 63 \<Longrightarrow> sint (word_of_int x :: u64) = x"
  by (simp add: signed_of_int signed_take_bit_int_eq_self)

lemma uint_seconds: "uint (drop_bit 32 t) = uint (t :: u64) div 2 ^ 32"
proof -
  have "uint (drop_bit 32 t) = drop_bit 32 (take_bit 64 (uint t))" by (simp only: unsigned_drop_bit_eq) simp
  also have "take_bit 64 (uint t) = uint t" using uint_lt2p [of t] by (intro take_bit_int_eq_self) simp_all
  finally show ?thesis by (simp only: drop_bit_int)
qed

lemma seconds_range: "0 \<le> uint (t :: u64) div 2 ^ 32" "uint (t :: u64) div 2 ^ 32 < 2 ^ 32"
proof -
  have "uint t div 2 ^ 32 \<le> (2 ^ 64 - 1) div 2 ^ 32" using uint_lt2p [of t] by (intro zdiv_mono1) simp_all
  then show "uint t div 2 ^ 32 < 2 ^ 32" by simp
qed (simp add: pos_imp_zdiv_nonneg_iff)

lemma TsDiff_seconds: "TsDiff t1 t2 \<longleftrightarrow> maxTsDiff \<le> \<bar>uint t1 div 2 ^ 32 - uint t2 div 2 ^ 32\<bar>"
proof -
  define a b where "a = uint t1 div 2 ^ 32" and "b = uint t2 div 2 ^ 32"
  have r: "0 \<le> a" "a < 2 ^ 32" "0 \<le> b" "b < 2 ^ 32" using seconds_range by (simp_all add: a_def b_def)
  have "drop_bit 32 t1 - drop_bit 32 t2 = word_of_int (a - b)"
    unfolding a_def b_def uint_seconds [symmetric] by simp
  then have "sint (drop_bit 32 t1 - drop_bit 32 t2) = sint (word_of_int (a - b) :: u64)" by (simp only:)
  also have "\<dots> = a - b" by (rule sint_word_of_int) (use r in simp_all)
  finally show ?thesis by (simp add: TsDiff_def Let_def a_def b_def abs_if)
qed

text \<open>Time stamps within 34 years of each other: their difference fits \<open>int64_t\<close> with a bit to spare.\<close>

lemma TsDiff_bound:
  assumes "\<not> TsDiff t1 t2"
  shows "\<bar>uint t1 - uint t2\<bar> < 2 ^ 62"
proof -
  define a b where "a = uint t1 div 2 ^ 32" and "b = uint t2 div 2 ^ 32"
  have t: "uint t1 = a * 2 ^ 32 + uint t1 mod 2 ^ 32" "uint t2 = b * 2 ^ 32 + uint t2 mod 2 ^ 32" by (simp_all add: a_def b_def)
  have m: "0 \<le> uint t1 mod 2 ^ 32" "uint t1 mod 2 ^ 32 < 2 ^ 32" "0 \<le> uint t2 mod 2 ^ 32" "uint t2 mod 2 ^ 32 < 2 ^ 32" by simp_all
  have "\<bar>a - b\<bar> < 1072958400" using assms unfolding TsDiff_seconds a_def [symmetric] b_def [symmetric] by (simp add: maxTsDiff_def)
  then have "- 1072958399 \<le> a - b" "a - b \<le> 1072958399" by simp_all
  then show ?thesis using t m by simp
qed

end
