(* ===== verification/Ntp_Clock.thy ===== *)
theory Ntp_Clock
  imports Ntp
begin

text \<open>
  What the clock is after an exchange with a time server. The conversions go through \<open>double\<close>: the
  rounded quotient is truncated to the exact one, so a time stamp is the time in units of \<open>2 ^ -32\<close>
  seconds rounded down.
\<close>

section \<open>A rounded quotient, truncated\<close>

lemma ratio_log_between:
  assumes "0 < b" "b \<le> a"
  shows "0 \<le> ratio_log a b" "b * 2 ^ nat (ratio_log a b) \<le> a" "a < b * 2 ^ Suc (nat (ratio_log a b))"
proof -
  define s t where "s = top_bit a" and "t = top_bit b"
  have a: "2 ^ s \<le> a" "a < 2 * 2 ^ s" and b: "2 ^ t \<le> b" "b < 2 * 2 ^ t"
    using top_bit_bounds [of a] top_bit_bounds [of b] assms by (simp_all add: s_def t_def)
  have "(2 :: nat) ^ t < 2 ^ Suc s" using a b assms by simp
  then have st: "t \<le> s" using power_less_imp_less_exp [of "2 :: nat" t "Suc s"] by simp
  have p: "(2 :: nat) ^ s = 2 ^ t * 2 ^ (s - t)" using st by (simp flip: power_add)
  have e: "ratio_log a b = (if b * 2 ^ (s - t) \<le> a then int (s - t) else int (s - t) - 1)"
    using st by (simp add: ratio_log_def Let_def nat_diff_distrib flip: s_def t_def)
  have up: "2 * 2 ^ s \<le> b * 2 ^ Suc (s - t)" using b(1) by (simp add: p)
  have le: "b * 2 ^ (k :: nat) \<le> a" if "Suc k = s - t" for k
  proof -
    have "b * 2 ^ k \<le> 2 * 2 ^ t * 2 ^ k" using b(2) by simp
    also have "\<dots> = 2 ^ s" unfolding p that [symmetric] by simp
    finally show ?thesis using a(1) by simp
  qed
  have "0 \<le> ratio_log a b \<and> b * 2 ^ nat (ratio_log a b) \<le> a \<and> a < b * 2 ^ Suc (nat (ratio_log a b))"
  proof (cases "b * 2 ^ (s - t) \<le> a")
    case True
    then show ?thesis unfolding e using a(2) up by simp
  next
    case False
    then obtain k where k: "s - t = Suc k" using assms(2) by (cases "s - t") simp_all
    with False le [of k] show ?thesis unfolding e by simp
  qed
  then show "0 \<le> ratio_log a b" "b * 2 ^ nat (ratio_log a b) \<le> a" "a < b * 2 ^ Suc (nat (ratio_log a b))" by simp_all
qed

lemma rne_div_scale: "0 < c \<Longrightarrow> rne_div (x * c) (y * c) = rne_div x y"
  by (simp add: rne_div_def Let_def mult_mod_left [symmetric])

lemma rne_div_between:
  assumes "0 < b" "q * b \<le> x" "x \<le> m * b"
  shows "q \<le> rne_div x b" "rne_div x b \<le> m"
proof -
  have "q \<le> x div b" using assms by (simp add: less_eq_div_iff_mult_less_eq)
  then show "q \<le> rne_div x b" by (simp add: rne_div_def Let_def)
  show "rne_div x b \<le> m"
  proof (cases "x = m * b")
    case True
    then show ?thesis using assms(1) by (simp add: rne_div_def)
  next
    case False
    then show ?thesis using assms rne_div_bound [of b x m] by (simp add: mult.commute)
  qed
qed

text \<open>The significand of a quotient below \<open>2 ^ 32\<close> with a small divisor, against the exact quotient.\<close>

lemma quotient_bits:
  assumes "0 < d" "d \<le> n" "n < d * 2 ^ 32" "d \<le> 2 ^ 20" "0 < c"
  obtains S k where "round_ratio (n * c) (d * c) = (1075 - k) * 2 ^ 52 + (S - 2 ^ 52)" "21 \<le> k" "k \<le> 52" "2 ^ 52 \<le> S" "S < 2 ^ 53"
    "S div 2 ^ k = n div d"
proof -
  define e where "e = nat (ratio_log (n * c) (d * c))"
  have r: "ratio_log (n * c) (d * c) = int e" "d * 2 ^ e \<le> n" "n < d * 2 ^ Suc e"
    using ratio_log_between [of "d * c" "n * c"] assms by (simp_all add: e_def)
  have "d * 2 ^ e < d * 2 ^ 32" using r(2) assms(3) by (rule le_less_trans)
  then have e: "e < 32" using power_less_imp_less_exp [of "2 :: nat" e 32] by simp
  define k where "k = 52 - e"
  define q where "q = n div d"
  define S where "S = rne_div (n * 2 ^ k) d"
  have k: "21 \<le> k" "k \<le> 52" "e + k = 52" using e by (simp_all add: k_def)
  have q: "q * d \<le> n" "n < Suc q * d" using assms(1) by (simp_all add: q_def dividend_less_div_times)
  have pk: "d \<le> 2 ^ k" using assms(4) power_increasing [of 20 k "2 :: nat"] k by simp
  have qb: "2 ^ e \<le> q" "Suc q \<le> 2 ^ Suc e"
    using r(2,3) assms(1) by (simp_all add: q_def less_eq_div_iff_mult_less_eq Suc_le_eq div_less_iff_less_mult mult.commute)
  have lo: "q * 2 ^ k \<le> S"
    unfolding S_def by (rule rne_div_between(1) [OF assms(1), of _ _ "n * 2 ^ k"]) (use q(1) assms(1) in \<open>simp_all add: mult.assoc mult.commute [of _ d] mult.left_commute [of _ d]\<close>)
  have "n * 2 ^ k \<le> (Suc q * 2 ^ k - 1) * d"
  proof -
    have "Suc n * 2 ^ k \<le> Suc q * d * 2 ^ k" using q(2) by (intro mult_right_mono) simp_all
    then have "n * 2 ^ k + d \<le> Suc q * 2 ^ k * d" using pk by (simp add: algebra_simps)
    then show ?thesis by (simp add: diff_mult_distrib)
  qed
  then have "S \<le> Suc q * 2 ^ k - 1" unfolding S_def by (intro rne_div_between(2) [OF assms(1), of 0]) simp_all
  moreover have "0 < Suc q * 2 ^ k" by simp
  ultimately have hi: "S < Suc q * 2 ^ k" by linarith
  have p52: "2 ^ e * 2 ^ k = (2 ^ 52 :: nat)" "2 ^ Suc e * 2 ^ k = (2 ^ 53 :: nat)" using k(3) by (simp_all flip: power_add)
  have S: "2 ^ 52 \<le> S" "S < 2 ^ 53"
    using mult_le_mono1 [OF qb(1), of "2 ^ k"] mult_le_mono1 [OF qb(2), of "2 ^ k"] lo hi unfolding p52 by linarith+
  have "S div 2 ^ k = q" using lo hi by (intro div_nat_eqI) (simp_all add: mult.commute)
  moreover have "round_ratio (n * c) (d * c) = (1075 - k) * 2 ^ 52 + (S - 2 ^ 52)"
  proof -
    have m: "max (- 1074) (ratio_log (n * c) (d * c) - 52) = - int k" "nat (- int k + 1074) = 1074 - k" "nat (- (- int k)) = k" "nat (- int k) = 0"
      using r(1) k by simp_all
    have "rne_div (n * c * 2 ^ k) (d * c * 2 ^ 0) = S" using rne_div_scale [OF assms(5), of "n * 2 ^ k" d] by (simp add: S_def ac_simps)
    moreover have "(1074 - k) * 2 ^ 52 + S \<le> 2047 * 2 ^ 52" using S(2) k by simp
    moreover have "(1074 - k) * 2 ^ 52 + S = (1075 - k) * 2 ^ 52 + (S - 2 ^ 52)" using S(1) k by (simp add: Suc_diff_le diff_mult_distrib)
    ultimately show ?thesis unfolding round_ratio_def Let_def m by simp
  qed
  ultimately show ?thesis using that k S by (simp add: q_def)
qed

lemma f64_trunc_div:
  assumes "f64_is x (int n)" "f64_is y (int d)" "0 < d" "d \<le> n" "n < d * 2 ^ 32" "d \<le> 2 ^ 20"
  shows "f64_to_u64 (f64_div x y) = Some (of_nat (n div d))"
proof -
  define c where "c = nat (f64_den x * f64_den y)"
  have den: "0 < f64_den x" "0 < f64_den y" by (simp_all add: f64_den_pos)
  then have c: "0 < c" "f64_den x * f64_den y = int c" by (simp_all add: c_def)
  have y: "f64_num y = int d * f64_den y" "0 < f64_num y" using assms(2,3) den by (simp_all add: f64_is_def)
  have nd: "f64_num x * f64_den y * sgn (f64_num y) = int (n * c)" "f64_den x * \<bar>f64_num y\<bar> = int (d * c)"
    using assms(1) y c(2) by (simp_all add: f64_is_def ac_simps)
  have "\<not> f64_nan x" "\<not> f64_inf x" "\<not> f64_nan y" "\<not> f64_inf y"
    using assms(1,2) f64_finite_simps [of x] f64_finite_simps [of y] by (simp_all add: f64_is_def)
  moreover have "f64_num y \<noteq> 0" "int (n * c) \<noteq> 0" "\<not> int (n * c) < 0" using y(2) assms(3,4) c(1) by (simp_all del: of_nat_mult)
  ultimately have q: "f64_div x y = f64_mk 0 (round_ratio (n * c) (d * c))"
    unfolding f64_div_def Let_def nd f64_of_ratio_def by (simp only: if_False simp_thms abs_of_nat nat_int)
  obtain S k where k: "round_ratio (n * c) (d * c) = (1075 - k) * 2 ^ 52 + (S - 2 ^ 52)" "21 \<le> k" "k \<le> 52" "2 ^ 52 \<le> S" "S < 2 ^ 53"
    "S div 2 ^ k = n div d" by (rule quotient_bits [OF assms(3-6) c(1)])
  define F where "F = S - 2 ^ 52"
  have F: "F < 2 ^ 52" "S = 2 ^ 52 + F" using k(4,5) by (simp_all add: F_def)
  have f: "f64_sign (f64_div x y) = 0" "f64_exp (f64_div x y) = 1075 - k" "f64_frac (f64_div x y) = F"
    using f64_mk_fields [of 0 "1075 - k" F] F(1) k(2) unfolding q k(1) F_def [symmetric] by simp_all
  have "f64_sig (f64_div x y) = S" using f k(3) F(2) by (simp add: f64_sig_def)
  then have "f64_num (f64_div x y) = int S" "f64_den (f64_div x y) = 2 ^ k" using f k(2,3) by (simp_all add: f64_num_def f64_den_def)
  moreover have "f64_finite (f64_div x y)" using f k(2) by (simp add: f64_finite_def)
  moreover have "int S div 2 ^ k = int (n div d)" unfolding k(6) [symmetric] by (simp add: zdiv_int)
  moreover have "n div d < 2 ^ 64" using assms(3,5) less_mult_imp_div_less [of n "2 ^ 32" d] by (simp add: mult.commute)
  moreover have "0 < S" using k(4) by (rule less_le_trans [rotated]) simp
  ultimately show ?thesis by (simp add: f64_to_u64_def Let_def)
qed

lemma f64_to_u64_is: "f64_is x n \<Longrightarrow> 0 \<le> n \<Longrightarrow> n < 2 ^ 64 \<Longrightarrow> f64_to_u64 x = Some (word_of_int n)"
  using f64_den_pos [of x] by (cases "n = 0") (auto simp: f64_is_def f64_to_u64_def sgn_mult abs_mult)

lemma f64_mul_is:
  assumes "f64_is x a" "f64_is y b" "\<bar>a * b\<bar> < 2 ^ 53"
  shows "f64_is (f64_mul x y) (a * b)"
proof -
  have "f64_num x * f64_num y = a * b * (f64_den x * f64_den y)" using assms(1,2) by (simp add: f64_is_def ac_simps)
  from f64_of_ratio_is [OF this _ assms(3), of "if f64_sign x = f64_sign y then 0 else 1"]
  show ?thesis using assms(1,2) f64_finite_simps [of x] f64_finite_simps [of y] f64_den_pos
    by (simp add: f64_mul_def Let_def f64_is_def [of x] f64_is_def [of y])
qed

section \<open>Time stamps\<close>

definition good_time :: "timeval \<Rightarrow> bool" where
  "good_time tv \<longleftrightarrow> 0 \<le> tv_sec tv + NTP_TIME_BASE \<and> tv_sec tv + NTP_TIME_BASE < 2 ^ 32 \<and> 0 \<le> tv_usec tv \<and> tv_usec tv < 1000000"

definition ntp_stamp :: "timeval \<Rightarrow> int" where
  "ntp_stamp tv = (tv_sec tv + NTP_TIME_BASE) * 2 ^ 32 + tv_usec tv * 2 ^ 32 div 1000000"

lemma ntp_1e6_is: "f64_is ntp_1e6 1000000"
  unfolding ntp_1e6_def by (rule f64_is_int) simp

lemma usec_fraction: "0 \<le> u \<Longrightarrow> u < 1000000 \<Longrightarrow> 0 \<le> u * 4294967296 div (1000000 :: int) \<and> u * 4294967296 div (1000000 :: int) < 4294967296"
proof
  assume u: "0 \<le> u" "u < 1000000"
  then show "0 \<le> u * 4294967296 div (1000000 :: int)" by simp
  have "u * 4294967296 div (1000000 :: int) \<le> 999999 * 4294967296 div 1000000" using u by (intro zdiv_mono1) simp_all
  then show "u * 4294967296 div (1000000 :: int) < 4294967296" by simp
qed

lemma ntp_stamp_range: "good_time tv \<Longrightarrow> 0 \<le> ntp_stamp tv \<and> ntp_stamp tv < 2 ^ 64"
  using usec_fraction [of "tv_usec tv"] by (simp add: good_time_def ntp_stamp_def)

lemma usec_quotient:
  assumes "u < 1000000"
  shows "f64_to_u64 (f64_div (i64_to_f64 (int (u * 2 ^ 32))) ntp_1e6) = Some (of_nat (u * 2 ^ 32 div 1000000))"
proof (cases "u = 0")
  case True
  have "f64_is (f64_div (i64_to_f64 0) ntp_1e6) 0" using f64_div_is [OF _ ntp_1e6_is, of _ 0] f64_is_int [of 0] by simp
  then show ?thesis using True f64_to_u64_is [of _ 0] by simp
next
  case False
  have "f64_is (i64_to_f64 (int (u * 2 ^ 32))) (int (u * 2 ^ 32))" using assms by (intro f64_is_int) simp
  then show ?thesis
    by (rule f64_trunc_div) (use assms False ntp_1e6_is in simp_all)
qed

lemma getntptime_stamp:
  assumes "good_time tv"
  shows "internal_getntptime (Some tv) k = k (Some (word_of_int (ntp_stamp tv)))"
proof -
  define u where "u = nat (tv_usec tv)"
  have u: "tv_usec tv = int u" "u < 1000000" using assms by (auto simp: good_time_def u_def)
  have "word_of_int (int u) * 0x100000000 = (word_of_int (int (u * 2 ^ 32)) :: u64)" by simp
  moreover have "int (u * 2 ^ 32) mod 2 ^ 64 = int (u * 2 ^ 32)" using u(2) by (intro mod_pos_pos_trivial) simp_all
  ultimately have tmp: "uint (word_of_int (int u) * 0x100000000 :: u64) = int (u * 2 ^ 32)" by (simp only: uint_word_of_int) simp
  have "push_bit 32 (word_of_int (tv_sec tv + NTP_TIME_BASE)) + of_nat (u * 2 ^ 32 div 1000000) = (word_of_int (ntp_stamp tv) :: u64)"
  proof -
    have "int (u * 2 ^ 32 div 1000000) = tv_usec tv * 2 ^ 32 div 1000000" by (simp add: u(1) zdiv_int)
    then have "of_nat (u * 2 ^ 32 div 1000000) = (word_of_int (tv_usec tv * 2 ^ 32 div 1000000) :: u64)" by (metis of_int_of_nat_eq)
    then show ?thesis by (simp add: ntp_stamp_def push_bit_eq_mult)
  qed
  then show ?thesis
    unfolding internal_getntptime_def Let_def by (simp only: option.case u(1) tmp usec_quotient [OF u(2)] need_simps)
qed

section \<open>An exchange with the server\<close>

text \<open>
  The answer of a server to a request with the time stamp \<open>t1\<close>, received at \<open>t2\<close> and sent at \<open>t3\<close>: a
  packet of version 4 with mode 4 that is not a kiss of death.
\<close>

definition server_answer :: "int \<Rightarrow> int \<Rightarrow> int \<Rightarrow> bytes \<Rightarrow> bool" where
  "server_answer t1 t2 t3 pkt \<longleftrightarrow> length pkt = 48 \<and> take 8 (drop 24 pkt) = UINT64_TO_BIG_ENDIAN_BUFF (word_of_int t1) \<and>
     take 8 (drop 32 pkt) = UINT64_TO_BIG_ENDIAN_BUFF (word_of_int t2) \<and> take 8 (drop 40 pkt) = UINT64_TO_BIG_ENDIAN_BUFF (word_of_int t3) \<and>
     pkt ! 0 AND 0x07 = 0x04 \<and> pkt ! 0 AND 0x38 = 0x20 \<and> pkt ! 1 \<noteq> 0"

lemma uint_stamp: "0 \<le> x \<Longrightarrow> x < 2 ^ 64 \<Longrightarrow> uint (word_of_int x :: u64) = x"
  by (simp add: uint_word_of_int mod_pos_pos_trivial)

lemma processpackets_measured:
  assumes "good_time tv" "length pkt1 = 48" "take 8 (drop 40 pkt1) = UINT64_TO_BIG_ENDIAN_BUFF (word_of_int t1)" "server_answer t1 t2 t3 pkt2"
    and range: "0 \<le> t1" "t1 < 2 ^ 64" "0 \<le> t2" "t2 < 2 ^ 64" "0 < t3" "t3 < 2 ^ 64"
    and near: "\<not> TsDiff (word_of_int t1) (word_of_int t2)" "\<not> TsDiff (word_of_int t3) (word_of_int (ntp_stamp tv))"
  shows "l_processpackets (Some tv) granted pkt1 pkt2 =
     Returned (N_measured (UINT64_TO_BIG_ENDIAN_BUFF (word_of_int (((t2 - t1) + (t3 - ntp_stamp tv)) div 2)))
       (UINT64_TO_BIG_ENDIAN_BUFF (word_of_int ((ntp_stamp tv - t1) - (t3 - t2))))
       (UINT64_TO_BIG_ENDIAN_BUFF (word_of_int t3)) (UINT64_TO_BIG_ENDIAN_BUFF (word_of_int (ntp_stamp tv))))"
    "\<bar>((t2 - t1) + (t3 - ntp_stamp tv)) div 2\<bar> < 2 ^ 63" "\<bar>(ntp_stamp tv - t1) - (t3 - t2)\<bar> < 2 ^ 63"
proof -
  define t4 where "t4 = ntp_stamp tv"
  have t4: "0 \<le> t4" "t4 < 2 ^ 64" using ntp_stamp_range [OF assms(1)] by (simp_all add: t4_def)
  have T: "UINT64_FROM_BIG_ENDIAN pkt1 40 = word_of_int t1" "UINT64_FROM_BIG_ENDIAN pkt2 24 = word_of_int t1"
    "UINT64_FROM_BIG_ENDIAN pkt2 32 = word_of_int t2" "UINT64_FROM_BIG_ENDIAN pkt2 40 = word_of_int t3"
    using assms(3,4) by (simp_all add: from_to_big_endian server_answer_def)
  have "\<bar>t1 - t2\<bar> < 2 ^ 62" "\<bar>t3 - t4\<bar> < 2 ^ 62"
    using TsDiff_bound [OF near(1)] TsDiff_bound [OF near(2)] range t4 unfolding t4_def [symmetric] by (simp_all add: uint_stamp)
  then have b: "- (2 ^ 63) < (t2 - t1) + (t3 - t4)" "(t2 - t1) + (t3 - t4) < 2 ^ 63" "\<bar>(t4 - t1) - (t3 - t2)\<bar> < 2 ^ 63" by simp_all
  then show "\<bar>((t2 - t1) + (t3 - ntp_stamp tv)) div 2\<bar> < 2 ^ 63" "\<bar>(ntp_stamp tv - t1) - (t3 - t2)\<bar> < 2 ^ 63"
    unfolding t4_def [symmetric] by simp_all
  have "sint ((word_of_int t2 - word_of_int t1) + (word_of_int t3 - word_of_int t4) :: u64) = (t2 - t1) + (t3 - t4)"
    using sint_word_of_int [of "(t2 - t1) + (t3 - t4)"] b by simp
  moreover have "(word_of_int t3 :: u64) \<noteq> 0" using uint_stamp [of t3] range by auto
  then have "sanity (word_of_int t1) pkt2 = None" using assms(4) by (simp add: sanity_def T server_answer_def)
  ultimately show "l_processpackets (Some tv) granted pkt1 pkt2 =
     Returned (N_measured (UINT64_TO_BIG_ENDIAN_BUFF (word_of_int (((t2 - t1) + (t3 - ntp_stamp tv)) div 2)))
       (UINT64_TO_BIG_ENDIAN_BUFF (word_of_int ((ntp_stamp tv - t1) - (t3 - t2))))
       (UINT64_TO_BIG_ENDIAN_BUFF (word_of_int t3)) (UINT64_TO_BIG_ENDIAN_BUFF (word_of_int (ntp_stamp tv))))"
    using assms(2,4) near
    by (simp add: l_processpackets_def getntptime_stamp [OF assms(1)] T server_answer_def Let_def flip: t4_def)
qed

lemma buildNTPpacket_first:
  assumes "good_time tv"
  shows "l_buildNTPpacket (Some tv) None None = Returned (N_string (35 # replicate 23 0 @ UINT64_TO_BIG_ENDIAN_BUFF 0 @ UINT64_TO_BIG_ENDIAN_BUFF 0 @
     UINT64_TO_BIG_ENDIAN_BUFF (word_of_int (ntp_stamp tv))))"
  by (simp add: l_buildNTPpacket_def getntptime_stamp [OF assms] Let_def)

text \<open>
  C15: the clock of the server is ahead by \<open>\<theta>\<close>, the request takes \<open>out\<close> and the answer \<open>back\<close> to
  arrive, in units of \<open>2 ^ -32\<close> seconds: the delay that is computed is their sum, and the offset
  differs from \<open>\<theta>\<close> by at most half of the delay. Nothing wraps around, provided the two clocks are
  within 34 years of each other.
\<close>

theorem ntp_offset_error:
  assumes "good_time tv1" "good_time tv4" "0 \<le> out" "0 \<le> back"
    and t2: "t2 = ntp_stamp tv1 + out + \<theta>" and t4: "ntp_stamp tv4 = t3 - \<theta> + back"
    and range: "0 \<le> t2" "t2 < 2 ^ 64" "0 < t3" "t3 < 2 ^ 64"
    and near: "\<not> TsDiff (word_of_int (ntp_stamp tv1)) (word_of_int t2)" "\<not> TsDiff (word_of_int t3) (word_of_int (ntp_stamp tv4))"
    and answer: "server_answer (ntp_stamp tv1) t2 t3 pkt2"
  shows "\<exists>pkt1 offset delay. l_buildNTPpacket (Some tv1) None None = Returned (N_string pkt1) \<and>
     l_processpackets (Some tv4) granted pkt1 pkt2 = Returned (N_measured (UINT64_TO_BIG_ENDIAN_BUFF (word_of_int offset))
       (UINT64_TO_BIG_ENDIAN_BUFF (word_of_int delay)) (UINT64_TO_BIG_ENDIAN_BUFF (word_of_int t3)) (UINT64_TO_BIG_ENDIAN_BUFF (word_of_int (ntp_stamp tv4)))) \<and>
     \<bar>offset\<bar> < 2 ^ 63 \<and> delay = out + back \<and> delay < 2 ^ 63 \<and> 2 * \<bar>offset - \<theta>\<bar> \<le> delay + 1"
proof -
  define pkt1 where "pkt1 = 35 # replicate 23 0 @ UINT64_TO_BIG_ENDIAN_BUFF 0 @ UINT64_TO_BIG_ENDIAN_BUFF 0 @
     UINT64_TO_BIG_ENDIAN_BUFF (word_of_int (ntp_stamp tv1))"
  have p: "length pkt1 = 48" "take 8 (drop 40 pkt1) = UINT64_TO_BIG_ENDIAN_BUFF (word_of_int (ntp_stamp tv1))"
    by (simp_all add: pkt1_def)
  define offset where "offset = ((t2 - ntp_stamp tv1) + (t3 - ntp_stamp tv4)) div 2"
  note s1 = ntp_stamp_range [OF assms(1)]
  note m = processpackets_measured [OF assms(2) p answer s1 [THEN conjunct1] s1 [THEN conjunct2] range near]
  have d: "(ntp_stamp tv4 - ntp_stamp tv1) - (t3 - t2) = out + back" using t2 t4 by simp
  have o: "offset = \<theta> + (out - back) div 2"
  proof -
    have "(t2 - ntp_stamp tv1) + (t3 - ntp_stamp tv4) = out - back + \<theta> * 2" using t2 t4 by simp
    then show ?thesis by (simp add: offset_def)
  qed
  have "- (out + back) \<le> out - back" "out - back \<le> out + back" using assms(3,4) by simp_all
  then have "2 * \<bar>offset - \<theta>\<bar> \<le> out + back + 1" unfolding o by auto
  moreover have "l_buildNTPpacket (Some tv1) None None = Returned (N_string pkt1)" unfolding pkt1_def by (rule buildNTPpacket_first [OF assms(1)])
  ultimately show ?thesis using m unfolding offset_def [symmetric] d by (intro exI [of _ pkt1] exI [of _ offset] exI [of _ "out + back"]) auto
qed

section \<open>Setting the clock\<close>

lemma uint_low_word: "uint ((t :: u64) AND 0xFFFFFFFF) = uint t mod 2 ^ 32"
proof -
  have "uint (t AND 0xFFFFFFFF) = uint t AND mask 32" by (simp add: unsigned_and_eq mask_eq_exp_minus_1)
  then show ?thesis by (simp add: take_bit_eq_mod flip: take_bit_eq_mask)
qed

lemma ntp_timeval_stamp:
  assumes "0 \<le> x" "x < 2 ^ 64"
  shows "ntp_timeval (word_of_int x) k = k \<lparr>tv_sec = x div 2 ^ 32 - NTP_TIME_BASE, tv_usec = x mod 2 ^ 32 * 1000000 div 2 ^ 32\<rparr>"
proof -
  define f where "f = x mod 2 ^ 32"
  have f: "0 \<le> f" "f < 2 ^ 32" by (simp_all add: f_def)
  note u = uint_stamp [OF assms]
  have "f64_is (i64_to_f64 f) f" using f by (intro f64_is_int) simp
  then have "f64_is (f64_mul (i64_to_f64 f) ntp_1e6) (f * 1000000)" by (rule f64_mul_is [OF _ ntp_1e6_is]) (use f in simp)
  then have m: "f64_to_u64 (f64_mul (i64_to_f64 f) ntp_1e6) = Some (word_of_int (f * 1000000))" by (rule f64_to_u64_is) (use f in simp_all)
  have usec: "uint (drop_bit 32 (word_of_int (f * 1000000) :: u64)) = f * 1000000 div 2 ^ 32"
    unfolding uint_seconds using uint_stamp [of "f * 1000000"] f by simp
  have "drop_bit 32 (word_of_int x :: u64) = word_of_int (x div 2 ^ 32)" using u by (simp only: word_uint_eq_iff uint_seconds) (use seconds_range [of "word_of_int x"] in \<open>simp add: u uint_stamp\<close>)
  then have "drop_bit 32 (word_of_int x) - word_of_int NTP_TIME_BASE = (word_of_int (x div 2 ^ 32 - NTP_TIME_BASE) :: u64)" by simp
  moreover have "sint (word_of_int (x div 2 ^ 32 - NTP_TIME_BASE) :: u64) = x div 2 ^ 32 - NTP_TIME_BASE"
    by (rule sint_word_of_int) (use seconds_range [of "word_of_int x"] u in \<open>simp_all add: NTP_TIME_BASE_def\<close>)
  ultimately show ?thesis unfolding ntp_timeval_def uint_low_word u f_def [symmetric] m need_simps usec by simp
qed

text \<open>Reading the clock and setting it to the time that was read moves it back by at most one microsecond.\<close>

lemma ntp_clock_roundtrip:
  assumes "good_time tv"
  shows "\<exists>u. ntp_timeval (word_of_int (ntp_stamp tv)) k = k \<lparr>tv_sec = tv_sec tv, tv_usec = u\<rparr> \<and> tv_usec tv - 1 \<le> u \<and> u \<le> tv_usec tv"
proof -
  define f where "f = tv_usec tv * 4294967296 div 1000000"
  have t: "0 \<le> tv_usec tv" "tv_usec tv < 1000000" using assms by (simp_all add: good_time_def)
  have f: "0 \<le> f" "f < 4294967296" using usec_fraction [OF t] by (simp_all add: f_def)
  have s: "ntp_stamp tv = (tv_sec tv + NTP_TIME_BASE) * 4294967296 + f" by (simp add: ntp_stamp_def f_def)
  have "f * 1000000 \<le> tv_usec tv * 4294967296" "tv_usec tv * 4294967296 < f * 1000000 + 1000000"
    unfolding f_def using div_mult_mod_eq [of "tv_usec tv * 4294967296" 1000000] pos_mod_bound [of 1000000 "tv_usec tv * 4294967296"]
      pos_mod_sign [of 1000000 "tv_usec tv * 4294967296"] by linarith+
  then have "tv_usec tv - 1 \<le> f * 1000000 div 4294967296" "f * 1000000 div 4294967296 \<le> tv_usec tv" by linarith+
  moreover have "ntp_stamp tv div 2 ^ 32 = tv_sec tv + NTP_TIME_BASE" "ntp_stamp tv mod 2 ^ 32 = f"
    using f mod_mult_self3 [of "tv_sec tv + NTP_TIME_BASE" 4294967296 f] div_mult_self3 [of 4294967296 "tv_sec tv + NTP_TIME_BASE" f] by (simp_all add: s)
  ultimately show ?thesis using ntp_timeval_stamp [of "ntp_stamp tv" k] ntp_stamp_range [OF assms] by auto
qed

text \<open>
  C38: setting the clock with an offset sets it to the time that is read plus the offset, in seconds
  and microseconds rounded down, as long as both times are after the middle of the first era (1968)
  and before its end.
\<close>

theorem ntp_settime:
  assumes "good_time tv" "2 ^ 63 \<le> ntp_stamp tv" "x = ntp_stamp tv + offset" "2 ^ 63 \<le> x" "x < 2 ^ 64"
  shows "\<exists>change. l_settime (Some tv) True (UINT64_TO_BIG_ENDIAN_BUFF (word_of_int offset)) =
     Returned (N_set \<lparr>tv_sec = x div 2 ^ 32 - NTP_TIME_BASE, tv_usec = x mod 2 ^ 32 * 1000000 div 2 ^ 32\<rparr> change)"
proof -
  note s = ntp_stamp_range [OF assms(1)]
  have o: "sint (UINT64_FROM_BIG_ENDIAN (UINT64_TO_BIG_ENDIAN_BUFF (word_of_int offset)) 0) = offset"
    using from_to_big_endian [of 0 "UINT64_TO_BIG_ENDIAN_BUFF (word_of_int offset)" "word_of_int offset"] sint_word_of_int [of offset] assms s by simp
  have era: "(word_of_int (y - 2 ^ 64) :: u64) = word_of_int y" for y by (simp add: word_of_int_eq_iff take_bit_eq_mod)
  have "sint (word_of_int (ntp_stamp tv - 2 ^ 64) :: u64) = ntp_stamp tv - 2 ^ 64" using assms(2) s by (intro sint_word_of_int) simp_all
  then have c: "sint (word_of_int (ntp_stamp tv) :: u64) + offset = x - 2 ^ 64" unfolding era using assms(3) by simp
  show ?thesis
    unfolding l_settime_def getntptime_stamp [OF assms(1)] o Let_def option.case c era internal_setntptime_def
    using assms(4,5) by (subst ntp_timeval_stamp) auto
qed

section \<open>A server that is five seconds ahead\<close>

definition sample_time :: "int \<Rightarrow> timeval" where
  "sample_time n = \<lparr>tv_sec = n, tv_usec = 0\<rparr>"

definition sample_answer :: bytes where
  "sample_answer = [0x24, 1] @ replicate 22 0 @ UINT64_TO_BIG_ENDIAN_BUFF (word_of_int (ntp_stamp (sample_time 1000))) @
     UINT64_TO_BIG_ENDIAN_BUFF (word_of_int (ntp_stamp (sample_time 1006))) @ UINT64_TO_BIG_ENDIAN_BUFF (word_of_int (ntp_stamp (sample_time 1006)))"

lemma sample_stamp: "ntp_stamp (sample_time n) = (n + 2208988800) * 4294967296"
  by (simp add: ntp_stamp_def sample_time_def NTP_TIME_BASE_def)

lemma sample_good: "0 \<le> n \<Longrightarrow> n < 2085978496 \<Longrightarrow> good_time (sample_time n)"
  by (simp add: good_time_def sample_time_def NTP_TIME_BASE_def)

theorem ntp_offset_error_witness:
  "\<exists>pkt1 offset delay. l_buildNTPpacket (Some (sample_time 1000)) None None = Returned (N_string pkt1) \<and>
     l_processpackets (Some (sample_time 1002)) True pkt1 sample_answer = Returned (N_measured (UINT64_TO_BIG_ENDIAN_BUFF (word_of_int offset))
       (UINT64_TO_BIG_ENDIAN_BUFF (word_of_int delay)) (UINT64_TO_BIG_ENDIAN_BUFF (word_of_int (ntp_stamp (sample_time 1006))))
       (UINT64_TO_BIG_ENDIAN_BUFF (word_of_int (ntp_stamp (sample_time 1002))))) \<and>
     \<bar>offset\<bar> < 2 ^ 63 \<and> delay = 2 * 2 ^ 32 \<and> 2 * \<bar>offset - 5 * 2 ^ 32\<bar> \<le> delay + 1"
proof -
  have g: "good_time (sample_time 1000)" "good_time (sample_time 1002)" by (simp_all add: sample_good)
  have r: "uint (word_of_int (ntp_stamp (sample_time n)) :: u64) = (n + 2208988800) * 4294967296" if "0 \<le> n" "n < 2085978496" for n
    using uint_stamp [of "ntp_stamp (sample_time n)"] that by (simp add: sample_stamp)
  have d: "\<not> TsDiff (word_of_int (ntp_stamp (sample_time 1000))) (word_of_int (ntp_stamp (sample_time 1006)))"
    "\<not> TsDiff (word_of_int (ntp_stamp (sample_time 1006))) (word_of_int (ntp_stamp (sample_time 1002)))"
    by (simp_all add: TsDiff_seconds r maxTsDiff_def)
  have a: "server_answer (ntp_stamp (sample_time 1000)) (ntp_stamp (sample_time 1006)) (ntp_stamp (sample_time 1006)) sample_answer"
    by (simp add: server_answer_def sample_answer_def)
  have "(0 :: int) \<le> 2 ^ 32" "ntp_stamp (sample_time 1006) = ntp_stamp (sample_time 1000) + 2 ^ 32 + 5 * 2 ^ 32"
    "ntp_stamp (sample_time 1002) = ntp_stamp (sample_time 1006) - 5 * 2 ^ 32 + 2 ^ 32"
    "0 \<le> ntp_stamp (sample_time 1006)" "ntp_stamp (sample_time 1006) < 2 ^ 64" "0 < ntp_stamp (sample_time 1006)"
    by (simp_all add: sample_stamp)
  from ntp_offset_error [OF g this(1,1-6,5) d a, of True] show ?thesis by auto
qed

theorem ntp_settime_witness:
  "\<exists>change. l_settime (Some (sample_time 1002)) True (UINT64_TO_BIG_ENDIAN_BUFF (word_of_int (5 * 2 ^ 32))) =
     Returned (N_set \<lparr>tv_sec = 1007, tv_usec = 0\<rparr> change)"
  using ntp_settime [of "sample_time 1002" "ntp_stamp (sample_time 1007)" "5 * 2 ^ 32"]
  by (simp add: sample_good sample_stamp NTP_TIME_BASE_def)

end
