(* ===== verification/Keystore.thy ===== *)
theory Keystore
  imports C_Loops
begin

text \<open>
  The store of cipher keys, \<open>src/libs/keystore/keystore.c\<close>: a file with one line of 32 hexadecimal
  digits for each key. The functions of the port that hide the keys and compute message digests
  are arguments; the locale \<open>obfuscator\<close> states what the store relies on, and the functions of
  \<open>dummy_obfuscator.c\<close> provide it.
\<close>

section \<open>The model\<close>

datatype crypt_status = CRYPT_OK | CRYPT_ERROR

text \<open>The functions of the port: hiding and showing the key of an index, and the digest of 16 octets.\<close>

record keystore_port =
  kp_obfuscate :: "int \<Rightarrow> bytes \<Rightarrow> bytes option"
  kp_deobfuscate :: "int \<Rightarrow> bytes \<Rightarrow> bytes option"
  kp_hmac_md5 :: "bytes \<Rightarrow> bytes \<Rightarrow> bytes option"

text \<open>\<open>dummy_obfuscator.c\<close>: the key is stored as it is.\<close>

definition keystore_obfuscate :: "int \<Rightarrow> bytes \<Rightarrow> bytes option" where
  "keystore_obfuscate index plain_bin_key = Some (take 16 plain_bin_key)"

definition keystore_deobfuscate :: "int \<Rightarrow> bytes \<Rightarrow> bytes option" where
  "keystore_deobfuscate key_index obfuscated_bin_key = Some (take 16 obfuscated_bin_key)"

text \<open>
  The file, \<open>None\<close> if it does not exist, and what the system answers: the allocations, reading the
  whole file, opening it for writing, and the octets that can be written.
\<close>

record keystore_env =
  ke_malloc :: bool
  ke_read :: bool
  ke_open :: bool
  ke_room :: nat

definition htod :: "byte \<Rightarrow> byte" where
  "htod hex =
     (let c = sint hex in
      if 0x41 \<le> c \<and> c \<le> 0x46 then hex - 0x41 + 0xA
      else if 0x61 \<le> c \<and> c \<le> 0x66 then hex - 0x61 + 0xa
      else if 0x30 \<le> c \<and> c \<le> 0x39 then hex - 0x30
      else 0)"

text \<open>The name of the file: a directory that is too long for the buffer of 256 octets overruns it.\<close>

definition KEYSTORE_FILE_NAME :: bytes where
  "KEYSTORE_FILE_NAME = [0x63, 0x72, 0x79, 0x70, 0x74, 0x6f, 0x2f, 0x63, 0x72, 0x79, 0x70, 0x74, 0x6f, 0x2e, 0x6b, 0x65, 0x79]"

definition get_file :: "bytes option \<Rightarrow> bytes outcome" where
  "get_file rw_path =
     (case rw_path of
        None \<Rightarrow> Returned ([0x2e, 0x2f] @ KEYSTORE_FILE_NAME)
      | Some path \<Rightarrow>
          if path = [] \<or> 256 - Suc (length KEYSTORE_FILE_NAME) < length path then Fault
          else
            let dir = (if last path \<noteq> 0x2f then path @ [0x2f] else path) in
            if 256 \<le> length dir + length KEYSTORE_FILE_NAME then Fault else Returned (dir @ KEYSTORE_FILE_NAME))"

definition get_obfuscated_bin_key :: "int \<Rightarrow> bytes option \<Rightarrow> bytes option" where
  "get_obfuscated_bin_key key_index file =
     (case file of
        None \<Rightarrow> None
      | Some content \<Rightarrow>
          if key_index < 0 then None
          else
            let hex = take 33 (drop (33 * nat key_index) content) in
            if length hex \<noteq> 33 then None
            else Some (map (\<lambda>i. 0x10 * htod (hex ! (2 * i)) + htod (hex ! (2 * i + 1))) [0..<16]))"

definition get_plain_bin_key :: "keystore_port \<Rightarrow> int \<Rightarrow> bytes option \<Rightarrow> bytes option" where
  "get_plain_bin_key port key_index file =
     (case get_obfuscated_bin_key key_index file of
        None \<Rightarrow> None
      | Some obfuscated \<Rightarrow> kp_deobfuscate port key_index obfuscated)"

text \<open>\<open>sprintf\<close> with \<open>%02x\<close>: two digits and a zero.\<close>

definition hex_lower :: "nat \<Rightarrow> byte" where
  "hex_lower n = of_nat (if n < 10 then 0x30 + n else 0x61 + (n - 10))"

definition sprintf_02x :: "byte \<Rightarrow> bytes" where
  "sprintf_02x b = [hex_lower (unat b div 16), hex_lower (unat b mod 16)]"

primrec put_octets :: "nat \<Rightarrow> bytes \<Rightarrow> bytes \<Rightarrow> bytes outcome" where
  "put_octets offset [] content = Returned content"
| "put_octets offset (b # bs) content = store_at content offset (sprintf_02x b @ [0]) (put_octets (offset + 2) bs)"

primrec put_keys :: "nat \<Rightarrow> bytes list \<Rightarrow> bytes \<Rightarrow> bytes outcome" where
  "put_keys index [] content = Returned content"
| "put_keys index (k # ks) content =
     run (put_octets (33 * index) k content) (\<lambda>content.
     store_at content (33 * index + 32) [0x0a] (put_keys (Suc index) ks))"

text \<open>New lines of zeros behind the content.\<close>

definition lengthened :: "nat \<Rightarrow> bytes \<Rightarrow> bytes" where
  "lengthened needed_sz content =
     content @ map (\<lambda>i. if i mod 33 = 32 then 0x0a else 0x30) [0..<needed_sz - length content]"

text \<open>
  The new content is written over the file; what does not fit is lost. A file that cannot be read
  or written leaves everything as it is. A negative size is converted to a \<open>size_t\<close> that no
  allocation grants. Positions in the file are taken to fit \<open>int\<close>.
\<close>

definition set_obfuscated_bin_keys ::
  "keystore_env \<Rightarrow> int \<Rightarrow> bytes list \<Rightarrow> bytes option \<Rightarrow> (crypt_status \<times> bytes option) outcome" where
  "set_obfuscated_bin_keys env first_index keys file =
     (if file \<noteq> None \<and> (\<not> ke_malloc env \<or> \<not> ke_read env) then Returned (CRYPT_ERROR, file)
      else
        let content = (case file of None \<Rightarrow> [] | Some c \<Rightarrow> c);
            needed_sz = 33 * (first_index + int (length keys)) in
        if needed_sz < 0 \<or> int (length content) < needed_sz \<and> \<not> ke_malloc env then Returned (CRYPT_ERROR, file)
        else if first_index < 0 then Fault
        else
          let content = (if int (length content) < needed_sz then lengthened (nat needed_sz) content else content) in
          run (put_keys (nat first_index) keys content) (\<lambda>content.
          if \<not> ke_open env then Returned (CRYPT_ERROR, file)
          else Returned (if length content \<le> ke_room env then CRYPT_OK else CRYPT_ERROR, Some (take (ke_room env) content))))"

text \<open>The keys of \<open>plain_bin_keys\<close>, 16 octets each.\<close>

definition key_at :: "bytes \<Rightarrow> nat \<Rightarrow> bytes" where
  "key_at plain_bin_keys i = take 16 (drop (16 * i) plain_bin_keys)"

definition set_plain_bin_keys ::
  "keystore_env \<Rightarrow> keystore_port \<Rightarrow> int \<Rightarrow> nat \<Rightarrow> bytes \<Rightarrow> bytes option \<Rightarrow> (crypt_status \<times> bytes option) outcome" where
  "set_plain_bin_keys env port first_index n_keys plain_bin_keys file =
     (if \<not> ke_malloc env then Returned (CRYPT_ERROR, file)
      else
        let obfuscated = map (\<lambda>i. kp_obfuscate port (first_index + int i) (key_at plain_bin_keys i)) [0..<n_keys] in
        if list_ex (\<lambda>k. k = None) obfuscated then Returned (CRYPT_ERROR, file)
        else set_obfuscated_bin_keys env first_index (map the obfuscated) file)"

text \<open>The cipher key for a nonce; the second half of a long key is the digest of the nonce written twice.\<close>

definition get_cipher_key :: "bool \<Rightarrow> keystore_port \<Rightarrow> bytes option \<Rightarrow> int \<Rightarrow> nat \<Rightarrow> bytes option \<Rightarrow> bytes option" where
  "get_cipher_key granted port nonce idx_K size_CK file =
     (case nonce of
        None \<Rightarrow> None
      | Some n \<Rightarrow>
          if size_CK \<noteq> 16 \<and> size_CK \<noteq> 32 then None
          else case get_plain_bin_key port idx_K file of
            None \<Rightarrow> None
          | Some key_K \<Rightarrow>
              (case kp_hmac_md5 port key_K n of
                 None \<Rightarrow> None
               | Some first \<Rightarrow>
                   if size_CK \<noteq> 32 then Some first
                   else if \<not> granted then None
                   else map_option (\<lambda>second. first @ second) (kp_hmac_md5 port key_K (n @ n))))"

section \<open>Hexadecimal lines\<close>

lemma htod_hex_lower: "n < 16 \<Longrightarrow> htod (hex_lower n) = of_nat n"
proof -
  assume "n < 16"
  then have "n \<in> set [0..<16]" by simp
  then show ?thesis by (simp add: upt_rec) (elim disjE; simp add: htod_def hex_lower_def Let_def)
qed

lemma sprintf_read: "0x10 * htod (sprintf_02x b ! 0) + htod (sprintf_02x b ! 1) = b"
proof -
  have "0x10 * of_nat (unat b div 16) + of_nat (unat b mod 16) = (of_nat (16 * (unat b div 16) + unat b mod 16) :: byte)" by (simp only: of_nat_add of_nat_mult of_nat_numeral)
  then show ?thesis by (simp add: sprintf_02x_def htod_hex_lower)
qed

text \<open>The line of a key.\<close>

definition key_line :: "bytes \<Rightarrow> bytes" where
  "key_line k = concat (map sprintf_02x k) @ [0x0a]"

lemma length_hex_lines [simp]: "length (concat (map sprintf_02x k)) = 2 * length k"
  by (induction k) (simp_all add: sprintf_02x_def)

lemma length_key_line [simp]: "length (key_line k) = 2 * length k + 1"
  by (simp add: key_line_def)

lemma nth_hex_lines: "i < length k \<Longrightarrow> concat (map sprintf_02x k) ! (2 * i) = sprintf_02x (k ! i) ! 0 \<and> concat (map sprintf_02x k) ! (2 * i + 1) = sprintf_02x (k ! i) ! 1"
proof (induction k arbitrary: i)
  case (Cons b k)
  then show ?case by (cases i) (simp_all add: sprintf_02x_def)
qed simp

lemma key_line_read: "length k = 16 \<Longrightarrow> map (\<lambda>i. 0x10 * htod (key_line k ! (2 * i)) + htod (key_line k ! (2 * i + 1))) [0..<16] = k"
  by (rule nth_equalityI) (use nth_hex_lines [of _ k] sprintf_read in \<open>auto simp: key_line_def nth_append\<close>)

text \<open>Digit by digit, each with a zero behind it that the next one overwrites.\<close>

lemma put_octets_eval:
  "offset + 2 * length bs + 1 \<le> length content \<Longrightarrow> bs \<noteq> [] \<Longrightarrow>
   put_octets offset bs content = Returned (overwrite content offset (concat (map sprintf_02x bs) @ [0]))"
proof (induction bs arbitrary: offset content)
  case (Cons b bs)
  define c1 where "c1 = overwrite content offset (sprintf_02x b @ [0])"
  have 2: "length (sprintf_02x b) = 2" by (simp add: sprintf_02x_def)
  have s: "put_octets offset (b # bs) content = put_octets (offset + 2) bs c1"
    using Cons.prems(1) 2 by (simp add: store_at_in c1_def)
  show ?case
  proof (cases "bs = []")
    case True
    with s show ?thesis by (simp add: c1_def)
  next
    case False
    let ?h = "concat (map sprintf_02x bs) @ [0]"
    have l: "length c1 = length content" using Cons.prems(1) 2 by (simp add: c1_def)
    have "overwrite c1 (offset + 2) ?h = overwrite content offset (sprintf_02x b @ ?h)"
      by (rule nth_equalityI) (use Cons.prems(1) 2 l in \<open>auto simp: c1_def nth_overwrite nth_append\<close>)
    with s Cons.IH [of "offset + 2" c1] Cons.prems False l show ?thesis by simp
  qed
qed simp

lemma put_key_eval:
  assumes "33 * index + 33 \<le> length content" "length k = 16"
  shows "run (put_octets (33 * index) k content) (\<lambda>content. store_at content (33 * index + 32) [0x0a] f) =
     f (overwrite content (33 * index) (key_line k))"
proof -
  let ?h = "concat (map sprintf_02x k)"
  have "overwrite (overwrite content (33 * index) (?h @ [0])) (33 * index + 32) [0x0a] = overwrite content (33 * index) (?h @ [0x0a])"
    by (rule nth_equalityI) (use assms in \<open>auto simp: nth_overwrite nth_append\<close>)
  moreover have "k \<noteq> []" using assms(2) by auto
  ultimately show ?thesis using assms put_octets_eval [of "33 * index" k content] by (simp add: store_at_in key_line_def)
qed

text \<open>A line of the file.\<close>

definition file_line :: "bytes \<Rightarrow> nat \<Rightarrow> bytes" where
  "file_line content k = take 33 (drop (33 * k) content)"

lemma file_line_overwrite:
  assumes "33 * m + 33 \<le> length c" "length line = 33"
  shows "file_line (overwrite c (33 * m) line) k = (if k = m then line else file_line c k)"
proof -
  have l: "length (overwrite c (33 * m) line) = length c" using assms by simp
  show ?thesis
  proof (rule nth_equalityI)
    show "length (file_line (overwrite c (33 * m) line) k) = length (if k = m then line else file_line c k)"
      using assms l by (auto simp: file_line_def)
    fix i assume "i < length (file_line (overwrite c (33 * m) line) k)"
    then have i: "i < 33" "33 * k + i < length c" using l by (auto simp: file_line_def)
    have "k < m \<Longrightarrow> 33 * k + i < 33 * m" "m < k \<Longrightarrow> 33 * m + 33 \<le> 33 * k + i" using i(1) by linarith+
    then show "file_line (overwrite c (33 * m) line) k ! i = (if k = m then line else file_line c k) ! i"
      using assms i by (cases k m rule: linorder_cases) (auto simp: file_line_def nth_overwrite)
  qed
qed

lemma put_keys_eval:
  assumes "33 * (index + length ks) \<le> length content" "list_all (\<lambda>k. length k = 16) ks"
  shows "\<exists>content'. put_keys index ks content = Returned content' \<and> length content' = length content \<and>
     (\<forall>i < length ks. file_line content' (index + i) = key_line (ks ! i)) \<and>
     (\<forall>k. k < index \<or> index + length ks \<le> k \<longrightarrow> file_line content' k = file_line content k)"
  using assms
proof (induction ks arbitrary: index content)
  case (Cons k ks)
  let ?c = "overwrite content (33 * index) (key_line k)"
  have k: "length k = 16" "33 * index + 33 \<le> length content" "list_all (\<lambda>k. length k = 16) ks" using Cons.prems by auto
  have l: "length ?c = length content" using k by simp
  from Cons.IH [of "Suc index" ?c] Cons.prems(1) k(3) l obtain c' where
    c': "put_keys (Suc index) ks ?c = Returned c'" "length c' = length content"
      "\<forall>i < length ks. file_line c' (Suc index + i) = key_line (ks ! i)"
      "\<forall>k. k < Suc index \<or> Suc index + length ks \<le> k \<longrightarrow> file_line c' k = file_line ?c k" by auto
  note o = file_line_overwrite [OF k(2), of "key_line k"]
  have "file_line c' (index + i) = key_line ((k # ks) ! i)" if "i < length (k # ks)" for i
    using that c'(3,4) o k(1) by (cases i) simp_all
  moreover have "file_line c' j = file_line content j" if "j < index \<or> index + length (k # ks) \<le> j" for j
    using that c'(4) o k(1) by auto
  ultimately show ?case using put_key_eval [OF k(2,1), of "put_keys (Suc index) ks"] c'(1,2) by auto
qed simp

section \<open>Keys are read back\<close>

text \<open>What the store relies on: a key that was hidden for an index is shown again for it.\<close>

locale obfuscator =
  fixes port :: keystore_port
  assumes hides: "length k = 16 \<Longrightarrow> \<exists>h. kp_obfuscate port i k = Some h \<and> length h = 16 \<and> kp_deobfuscate port i h = Some k"

text \<open>The key of a line, if the file has that line.\<close>

lemma get_key_line:
  "get_obfuscated_bin_key (int k) (Some content) =
     (if length (file_line content k) \<noteq> 33 then None
      else Some (map (\<lambda>i. 0x10 * htod (file_line content k ! (2 * i)) + htod (file_line content k ! (2 * i + 1))) [0..<16]))"
  by (simp add: get_obfuscated_bin_key_def file_line_def Let_def)

definition keystore_ready :: "keystore_env \<Rightarrow> bool" where
  "keystore_ready env \<longleftrightarrow> ke_malloc env \<and> ke_read env \<and> ke_open env"

lemma lengthened_line: "33 * k + 33 \<le> length content \<Longrightarrow> file_line (lengthened n content) k = file_line content k"
  by (simp add: file_line_def lengthened_def)

lemma set_obfuscated_keys:
  assumes "keystore_ready env" "list_all (\<lambda>k. length k = 16) ks"
    and content: "content = (case file of None \<Rightarrow> [] | Some c \<Rightarrow> c)" and room: "max (length content) (33 * (index + length ks)) \<le> ke_room env"
  shows "\<exists>content'. set_obfuscated_bin_keys env (int index) ks file = Returned (CRYPT_OK, Some content') \<and>
     (\<forall>i < length ks. file_line content' (index + i) = key_line (ks ! i)) \<and>
     (\<forall>k. (k < index \<or> index + length ks \<le> k) \<longrightarrow> 33 * k + 33 \<le> length content \<longrightarrow> file_line content' k = file_line content k)"
proof -
  define c where "c = (if length content < 33 * (index + length ks) then lengthened (33 * (index + length ks)) content else content)"
  have l: "33 * (index + length ks) \<le> length c" "length c = max (length content) (33 * (index + length ks))" by (auto simp: c_def lengthened_def)
  have old: "file_line c k = file_line content k" if "33 * k + 33 \<le> length content" for k using that lengthened_line by (simp add: c_def)
  from put_keys_eval [OF l(1) assms(2)] obtain c' where
    c': "put_keys index ks c = Returned c'" "length c' = length c" "\<forall>i < length ks. file_line c' (index + i) = key_line (ks ! i)"
      "\<forall>k. k < index \<or> index + length ks \<le> k \<longrightarrow> file_line c' k = file_line c k" by blast
  have n: "33 * (int index + int (length ks)) = int (33 * (index + length ks))" by simp
  have "set_obfuscated_bin_keys env (int index) ks file = Returned (CRYPT_OK, Some c')"
    using assms(1) c'(1,2) l(2) room
    unfolding set_obfuscated_bin_keys_def keystore_ready_def content [symmetric] n nat_int of_nat_less_iff c_def [symmetric] Let_def by auto
  with c'(3,4) old show ?thesis by auto
qed

context obfuscator
begin

lemma keys_read_back:
  assumes "keystore_ready env" "list_all (\<lambda>k. length k = 16) keys"
    and content: "content = (case file of None \<Rightarrow> [] | Some c \<Rightarrow> c)" and room: "max (length content) (33 * (index + length keys)) \<le> ke_room env"
  shows "\<exists>file'. set_plain_bin_keys env port (int index) (length keys) (concat keys) file = Returned (CRYPT_OK, Some file') \<and>
     (\<forall>i < length keys. get_plain_bin_key port (int (index + i)) (Some file') = Some (keys ! i)) \<and>
     (\<forall>k. (k < index \<or> index + length keys \<le> k) \<longrightarrow> 33 * k + 33 \<le> length content \<longrightarrow>
        get_plain_bin_key port (int k) (Some file') = get_plain_bin_key port (int k) (Some content))"
proof -
  have key: "key_at (concat keys) i = keys ! i" if "i < length keys" for i
    using that assms(2)
  proof (induction keys arbitrary: i)
    case (Cons k ks)
    then show ?case by (cases i) (simp_all add: key_at_def)
  qed simp
  define hs where "hs = map (\<lambda>i. kp_obfuscate port (int index + int i) (keys ! i)) [0..<length keys]"
  have h: "\<exists>h. hs ! i = Some h \<and> length h = 16 \<and> kp_deobfuscate port (int (index + i)) h = Some (keys ! i)" if "i < length keys" for i
    using hides [of "keys ! i" "int index + int i"] that assms(2) by (auto simp: hs_def list_all_length)
  then have "\<not> list_ex (\<lambda>k. k = None) hs" "list_all (\<lambda>k. length k = 16) (map the hs)"
    by (fastforce simp: list_ex_length list_all_length hs_def)+
  moreover have "map (\<lambda>i. kp_obfuscate port (int index + int i) (key_at (concat keys) i)) [0..<length keys] = hs"
    using key by (simp add: hs_def)
  ultimately have s: "set_plain_bin_keys env port (int index) (length keys) (concat keys) file = set_obfuscated_bin_keys env (int index) (map the hs) file"
    using assms(1) by (simp add: set_plain_bin_keys_def keystore_ready_def Let_def)
  have l: "length (map the hs) = length keys" by (simp add: hs_def)
  from set_obfuscated_keys [OF assms(1) \<open>list_all _ (map the hs)\<close> content, of index] room obtain file' where
    f: "set_obfuscated_bin_keys env (int index) (map the hs) file = Returned (CRYPT_OK, Some file')"
      "\<forall>i < length keys. file_line file' (index + i) = key_line (map the hs ! i)"
      "\<forall>k. (k < index \<or> index + length keys \<le> k) \<longrightarrow> 33 * k + 33 \<le> length content \<longrightarrow> file_line file' k = file_line content k"
    unfolding l by blast
  have "get_plain_bin_key port (int (index + i)) (Some file') = Some (keys ! i)" if "i < length keys" for i
    using h [OF that] f(2) that l key_line_read by (auto simp: get_plain_bin_key_def get_key_line simp del: of_nat_add)
  with s f(1,3) show ?thesis by (auto simp: get_plain_bin_key_def get_key_line simp del: of_nat_add)
qed

end

text \<open>The port of the sources, with any digest.\<close>

definition dummy_port :: "(bytes \<Rightarrow> bytes \<Rightarrow> bytes option) \<Rightarrow> keystore_port" where
  "dummy_port hmac_md5 = \<lparr>kp_obfuscate = keystore_obfuscate, kp_deobfuscate = keystore_deobfuscate, kp_hmac_md5 = hmac_md5\<rparr>"

interpretation dummy: obfuscator "dummy_port hmac_md5" for hmac_md5
  by unfold_locales (simp add: dummy_port_def keystore_obfuscate_def keystore_deobfuscate_def)



end
